(* ===== verification/Prelude.thy ===== *)
theory Prelude
  imports Main "HOL-Library.Multiset" "HOL-Library.List_Lexorder" "HOL-Library.Char_ord"
begin

text \<open>
  Shared vocabulary of the development: results that may be an error, the JSON values the
  services exchange, JavaScript string primitives, comparator sorting (\<open>Array.sort\<close> and
  SQL \<open>ORDER BY\<close>), and the row operations of the relational tables.
  The named collections \<open>result_simps\<close>, \<open>str_simps\<close> and \<open>table_simps\<close> carry
  the automation of the component theories.
\<close>

named_theorems result_simps
named_theorems str_simps
named_theorems table_simps

section \<open>Results\<close>

text \<open>An awaited call either throws (\<open>Inl\<close>) or returns (\<open>Inr\<close>).\<close>

definition bindE :: "'e + 'a \<Rightarrow> ('a \<Rightarrow> 'e + 'b) \<Rightarrow> 'e + 'b" where
  "bindE m f = (case m of Inl e \<Rightarrow> Inl e | Inr a \<Rightarrow> f a)"

lemma bindE_simps [result_simps, simp]:
  "bindE (Inl e) f = Inl e" "bindE (Inr a) f = f a"
  by (simp_all add: bindE_def)

lemma bindE_Inr_iff [result_simps]:
  "bindE m f = Inr b \<longleftrightarrow> (\<exists>a. m = Inr a \<and> f a = Inr b)"
  by (cases m) simp_all

lemma bindE_Inl_iff [result_simps]:
  "bindE m f = Inl e \<longleftrightarrow> m = Inl e \<or> (\<exists>a. m = Inr a \<and> f a = Inl e)"
  by (cases m) simp_all

definition is_ok :: "'e + 'a \<Rightarrow> bool" where
  "is_ok r = (case r of Inl _ \<Rightarrow> False | Inr _ \<Rightarrow> True)"

lemma is_ok_simps [result_simps, simp]: "is_ok (Inr a)" "\<not> is_ok (Inl e)"
  by (simp_all add: is_ok_def)

section \<open>JSON values\<close>

text \<open>Numbers are integers: the values modelled (epochs, balances, counters) are integral.\<close>

datatype json =
    JNull
  | JBool bool
  | JNum int
  | JStr string
  | JArr "json list"
  | JObj "(string \<times> json) list"

text \<open>Property access; \<open>None\<close> is \<open>undefined\<close>.\<close>

fun jget :: "json \<Rightarrow> string \<Rightarrow> json option" where
  "jget (JObj fs) k = map_of fs k"
| "jget _ k = None"

text \<open>JavaScript truthiness of a JSON value; \<open>None\<close> is \<open>undefined\<close>.\<close>

fun json_truthy :: "json option \<Rightarrow> bool" where
  "json_truthy None = False"
| "json_truthy (Some JNull) = False"
| "json_truthy (Some (JBool b)) = b"
| "json_truthy (Some (JNum n)) = (n \<noteq> 0)"
| "json_truthy (Some (JStr s)) = (s \<noteq> [])"
| "json_truthy (Some _) = True"

section \<open>Strings\<close>

definition lower_char :: "char \<Rightarrow> char" where
  "lower_char c =
     (if CHR ''A'' \<le> c \<and> c \<le> CHR ''Z'' then char_of (of_char c + (32 :: nat)) else c)"

definition to_lower :: "string \<Rightarrow> string" where
  "to_lower s = map lower_char s"

fun starts_with :: "string \<Rightarrow> string \<Rightarrow> bool" where
  "starts_with [] s = True"
| "starts_with (p # ps) [] = False"
| "starts_with (p # ps) (c # cs) = (p = c \<and> starts_with ps cs)"

text \<open>\<open>hay.includes(needle)\<close>: a suffix of the string starts with the needle.\<close>

fun str_includes :: "string \<Rightarrow> string \<Rightarrow> bool" where
  "str_includes [] n = (n = [])"
| "str_includes (c # cs) n = (starts_with n (c # cs) \<or> str_includes cs n)"

definition ends_with :: "string \<Rightarrow> string \<Rightarrow> bool" where
  "ends_with s suf = starts_with (rev suf) (rev s)"

lemma starts_with_iff [str_simps]: "starts_with p s \<longleftrightarrow> (\<exists>t. s = p @ t)"
  by (induction p s rule: starts_with.induct) auto

lemma str_includes_iff [str_simps]: "str_includes s n \<longleftrightarrow> (\<exists>u v. s = u @ n @ v)"
proof (induction s)
  case Nil
  then show ?case by auto
next
  case (Cons c cs)
  have "(\<exists>u v. c # cs = u @ n @ v) \<longleftrightarrow> (\<exists>v. c # cs = n @ v) \<or> (\<exists>u v. cs = u @ n @ v)"
    by (metis append_Cons append_Nil list.inject neq_Nil_conv)
  with Cons show ?case by (simp add: starts_with_iff)
qed

lemma str_includes_append: "str_includes n' n \<Longrightarrow> str_includes (u @ n' @ v) n"
  unfolding str_includes_iff by (metis append.assoc)

lemma ends_with_append [str_simps]: "ends_with (u @ v) v"
  by (auto simp: ends_with_def starts_with_iff)

text \<open>\<open>s.split(sep)\<close> for a one-character separator: always at least one part.\<close>

fun split_on :: "char \<Rightarrow> string \<Rightarrow> string list" where
  "split_on c [] = [[]]"
| "split_on c (x # xs) =
     (if x = c then [] # split_on c xs
      else (case split_on c xs of [] \<Rightarrow> [[x]] | y # ys \<Rightarrow> (x # y) # ys))"

lemma split_on_nonempty [simp]: "split_on c s \<noteq> []"
  by (induction s) (auto split: list.splits)

lemma split_on_append: "split_on c (a @ c # b) = split_on c a @ split_on c b"
  by (induction a) (auto split: list.split)

lemma split_on_free: "c \<notin> set s \<Longrightarrow> split_on c s = [s]"
  by (induction s) auto

definition is_digit :: "char \<Rightarrow> bool" where
  "is_digit c = (CHR ''0'' \<le> c \<and> c \<le> CHR ''9'')"

definition digit_val :: "char \<Rightarrow> int" where
  "digit_val c = int (of_char c) - 48"

definition digits_val :: "string \<Rightarrow> int" where
  "digits_val ds = foldl (\<lambda>n d. n * 10 + digit_val d) 0 ds"

text \<open>\<open>parseInt(s, 10)\<close> without leading white space; \<open>None\<close> is \<open>NaN\<close>.\<close>

definition parse_int :: "string \<Rightarrow> int option" where
  "parse_int s =
     (let neg = (s \<noteq> [] \<and> hd s = CHR ''-'');
          t = (if s \<noteq> [] \<and> (hd s = CHR ''-'' \<or> hd s = CHR ''+'') then tl s else s);
          ds = takeWhile is_digit t
      in if ds = [] then None else Some (if neg then - digits_val ds else digits_val ds))"

fun show_nat :: "nat \<Rightarrow> string" where
  "show_nat n = (if n < 10 then [char_of (48 + n)] else show_nat (n div 10) @ [char_of (48 + n mod 10)])"

declare show_nat.simps [simp del]

definition show_int :: "int \<Rightarrow> string" where
  "show_int i = (if i < 0 then CHR ''-'' # show_nat (nat (- i)) else show_nat (nat i))"

lemma is_digit_char_of: "n < 10 \<Longrightarrow> is_digit (char_of (48 + n :: nat))"
  by (auto simp: is_digit_def less_eq_char_def)

lemma show_nat_nonempty [simp]: "show_nat n \<noteq> []"
  by (subst show_nat.simps) simp

text \<open>Numbers survive printing.\<close>

lemma digit_val_char_of: "n < 10 \<Longrightarrow> digit_val (char_of (48 + n :: nat)) = int n"
  by (simp add: digit_val_def)

lemma digits_val_snoc [simp]: "digits_val (ds @ [d]) = digits_val ds * 10 + digit_val d"
  by (simp add: digits_val_def)

lemma show_nat_digits: "list_all is_digit (show_nat n) \<and> digits_val (show_nat n) = int n"
proof (induction n rule: show_nat.induct)
  case (1 n)
  show ?case
  proof (cases "n < 10")
    case True
    then show ?thesis
      by (subst (1 2) show_nat.simps) (simp add: is_digit_char_of digits_val_def digit_val_char_of)
  next
    case False
    with 1 show ?thesis
      by (subst (1 2) show_nat.simps)
        (simp add: is_digit_char_of digit_val_char_of zdiv_int zmod_int)
  qed
qed

lemma show_nat_hd: "is_digit (hd (show_nat n))"
  using show_nat_digits [of n] by (cases "show_nat n") auto

lemma takeWhile_digits: "takeWhile is_digit (show_nat n) = show_nat n"
  using show_nat_digits [of n] by (simp add: list_all_iff)

lemma parse_int_show: "parse_int (show_int n) = Some n"
proof -
  have "hd (show_nat m) \<noteq> CHR ''-''" "hd (show_nat m) \<noteq> CHR ''+''" for m
    using show_nat_hd [of m] by (auto simp: is_digit_def less_eq_char_def)
  then show ?thesis
    using show_nat_digits [of "nat n"] show_nat_digits [of "nat (- n)"]
    by (simp add: show_int_def parse_int_def Let_def takeWhile_digits)
qed

text \<open>Quoted text in messages, and the em dash as its UTF-8 bytes.\<close>

definition em_dash :: string where
  "em_dash = map char_of [226, 128, 148 :: nat]"

definition sq :: "string \<Rightarrow> string" where
  "sq s = CHR 0x27 # s @ [CHR 0x27]"

definition dq :: "string \<Rightarrow> string" where
  "dq s = CHR 0x22 # s @ [CHR 0x22]"

text \<open>A parsed URL, as far as its scheme and host.\<close>

record url =
  u_protocol :: string
  u_hostname :: string

section \<open>Comparator sorting\<close>

text \<open>
  \<open>le a b\<close> stands for "the comparator does not put \<open>a\<close> after \<open>b\<close>". Insertion before the
  first element that \<open>a\<close> may precede makes the sort stable, as \<open>Array.sort\<close> is.
\<close>

fun insort_by :: "('a \<Rightarrow> 'a \<Rightarrow> bool) \<Rightarrow> 'a \<Rightarrow> 'a list \<Rightarrow> 'a list" where
  "insort_by le x [] = [x]"
| "insort_by le x (y # ys) = (if le x y then x # y # ys else y # insort_by le x ys)"

fun sort_by :: "('a \<Rightarrow> 'a \<Rightarrow> bool) \<Rightarrow> 'a list \<Rightarrow> 'a list" where
  "sort_by le [] = []"
| "sort_by le (x # xs) = insort_by le x (sort_by le xs)"

lemma mset_insort_by [simp]: "mset (insort_by le x xs) = add_mset x (mset xs)"
  by (induction xs) auto

lemma mset_sort_by [simp]: "mset (sort_by le xs) = mset xs"
  by (induction xs) auto

lemma set_sort_by [simp]: "set (sort_by le xs) = set xs"
  by (metis mset_sort_by set_mset_mset)

lemma length_sort_by [simp]: "length (sort_by le xs) = length xs"
  by (metis mset_sort_by size_mset)

lemma sort_by_eq_Nil [simp]: "sort_by le xs = [] \<longleftrightarrow> xs = []"
  by (metis length_0_conv length_sort_by)

lemma distinct_sort_by [simp]: "distinct (sort_by le xs) = distinct xs"
  by (metis mset_eq_imp_distinct_iff mset_sort_by)

text \<open>The contract of a comparator, and what sorting with it gives.\<close>

locale sort_order =
  fixes le :: "'a \<Rightarrow> 'a \<Rightarrow> bool"
  assumes total: "le x y \<or> le y x"
    and trans: "le x y \<Longrightarrow> le y z \<Longrightarrow> le x z"
begin

lemma refl: "le x x"
  using total by blast

lemma sorted_insort: "sorted_wrt le xs \<Longrightarrow> sorted_wrt le (insort_by le x xs)"
proof (induction xs)
  case Nil
  then show ?case by simp
next
  case (Cons y ys)
  have set_ins: "set (insort_by le x ys) = insert x (set ys)"
    by (metis mset_insort_by set_mset_add_mset_insert set_mset_mset)
  show ?case
  proof (cases "le x y")
    case True
    with Cons.prems show ?thesis by (auto intro: trans)
  next
    case False
    with total have "le y x" by blast
    with False Cons set_ins show ?thesis by auto
  qed
qed

lemma sorted_sort: "sorted_wrt le (sort_by le xs)"
  by (induction xs) (auto intro: sorted_insort)

lemma hd_sort_least:
  assumes "xs \<noteq> []" and "y \<in> set xs"
  shows "le (hd (sort_by le xs)) y"
proof -
  from assms(1) obtain z zs where z: "sort_by le xs = z # zs"
    by (metis neq_Nil_conv sort_by_eq_Nil)
  from assms(2) have "y \<in> set (z # zs)" by (metis z set_sort_by)
  with sorted_sort [of xs] z refl show ?thesis by auto
qed

lemma hd_sort_mem: "xs \<noteq> [] \<Longrightarrow> hd (sort_by le xs) \<in> set xs"
  by (metis hd_in_set set_sort_by sort_by_eq_Nil)

end

text \<open>Comparing integer keys, ascending or descending, gives a comparator.\<close>

interpretation key_asc: sort_order "\<lambda>x y. (k :: 'a \<Rightarrow> 'b::linorder) x \<le> k y" for k
  by unfold_locales auto

interpretation key_desc: sort_order "\<lambda>x y. (k :: 'a \<Rightarrow> 'b::linorder) y \<le> k x" for k
  by unfold_locales auto

text \<open>Ties of a first key are broken by a second comparator.\<close>

definition lex_le :: "('a \<Rightarrow> 'k::linorder) \<Rightarrow> ('a \<Rightarrow> 'a \<Rightarrow> bool) \<Rightarrow> 'a \<Rightarrow> 'a \<Rightarrow> bool" where
  "lex_le k le x y = (k x < k y \<or> (k x = k y \<and> le x y))"

lemma sort_order_lex:
  assumes "sort_order le"
  shows "sort_order (lex_le k le)"
proof
  fix x y
  show "lex_le k le x y \<or> lex_le k le y x"
    using sort_order.total [OF assms, of x y] by (auto simp: lex_le_def)
next
  fix x y z
  assume "lex_le k le x y" "lex_le k le y z"
  then show "lex_le k le x z"
    by (auto simp: lex_le_def intro: sort_order.trans [OF assms])
qed

section \<open>Tables\<close>

text \<open>
  A table is the list of its rows in insertion order. \<open>UPDATE ... WHERE p\<close> changes the rows that
  satisfy \<open>p\<close> in place; the result of a statement carries the rows it returns and the number
  of rows it affected.
\<close>

record 'r pg_result =
  res_rows :: "'r list"
  res_count :: nat

definition sql_update :: "('r \<Rightarrow> bool) \<Rightarrow> ('r \<Rightarrow> 'r) \<Rightarrow> 'r list \<Rightarrow> 'r list" where
  "sql_update p f rows = map (\<lambda>r. if p r then f r else r) rows"

text \<open>\<open>UPDATE ... WHERE p RETURNING *\<close> returns the affected rows after the change.\<close>

definition update_returning :: "('r \<Rightarrow> bool) \<Rightarrow> ('r \<Rightarrow> 'r) \<Rightarrow> 'r list \<Rightarrow> 'r pg_result" where
  "update_returning p f rows =
     \<lparr>res_rows = map f (filter p rows), res_count = length (filter p rows)\<rparr>"

text \<open>Without \<open>RETURNING\<close> the result has no rows, only the count.\<close>

definition update_plain :: "('r \<Rightarrow> bool) \<Rightarrow> 'r list \<Rightarrow> 'r pg_result" where
  "update_plain p rows = \<lparr>res_rows = [], res_count = length (filter p rows)\<rparr>"

text \<open>\<open>const [row] = result\<close>: the first row, or \<open>undefined\<close>.\<close>

definition first_row :: "'r list \<Rightarrow> 'r option" where
  "first_row rows = (case rows of [] \<Rightarrow> None | r # _ \<Rightarrow> Some r)"

lemma first_row_simps [table_simps, simp]:
  "first_row [] = None" "first_row (r # rs) = Some r"
  by (simp_all add: first_row_def)

lemma first_row_SomeD: "first_row rows = Some r \<Longrightarrow> r \<in> set rows"
  by (auto simp: first_row_def split: list.splits)

lemma first_row_None [table_simps]: "first_row rows = None \<longleftrightarrow> rows = []"
  by (auto simp: first_row_def split: list.splits)

lemma first_row_filter_None [table_simps]:
  "first_row (filter p rows) = None \<longleftrightarrow> (\<forall>r \<in> set rows. \<not> p r)"
  by (auto simp: first_row_None filter_empty_conv)

lemma first_row_filter_SomeD:
  "first_row (filter p rows) = Some r \<Longrightarrow> r \<in> set rows \<and> p r"
  by (drule first_row_SomeD) auto

lemma sql_update_length [table_simps, simp]: "length (sql_update p f rows) = length rows"
  by (simp add: sql_update_def)

lemma sql_update_Nil [simp]: "sql_update p f [] = []"
  by (simp add: sql_update_def)

lemma sql_update_Cons [simp]:
  "sql_update p f (r # rs) = (if p r then f r else r) # sql_update p f rs"
  by (simp add: sql_update_def)

lemma set_sql_update [table_simps]:
  "set (sql_update p f rows) = (\<lambda>r. if p r then f r else r) ` set rows"
  by (simp add: sql_update_def)

lemma sql_update_none: "\<forall>r \<in> set rows. \<not> p r \<Longrightarrow> sql_update p f rows = rows"
  by (induction rows) auto

lemma map_sql_update_frame:
  "(\<And>r. g (f r) = g r) \<Longrightarrow> map g (sql_update p f rows) = map g rows"
  by (induction rows) auto

lemma filter_sql_update_other:
  "(\<And>r. p r \<Longrightarrow> q (f r) = q r \<and> \<not> q r) \<Longrightarrow> filter q (sql_update p f rows) = filter q rows"
  by (induction rows) auto

section \<open>Step relations\<close>

text \<open>The contract of an invariant of a step relation, and what it gives of the reachable states.\<close>

locale step_invariant =
  fixes step :: "'s \<Rightarrow> 's \<Rightarrow> bool"
    and inv :: "'s \<Rightarrow> bool"
  assumes preserved: "inv s \<Longrightarrow> step s s' \<Longrightarrow> inv s'"
begin

lemma reachable: "step\<^sup>*\<^sup>* s s' \<Longrightarrow> inv s \<Longrightarrow> inv s'"
  by (induction rule: rtranclp_induct) (auto intro: preserved)

end

end
