(* ===== verification/App_Errors.thy ===== *)
theory App_Errors
  imports Prelude
begin

text \<open>
  The failure taxonomy of \<open>api/src/lib/errors.ts\<close> and the response bodies of
  \<open>api/src/lib/error-response.ts\<close>. A thrown value is an error object (its class, the fields the
  code sets on it and its \<open>cause\<close>) or a primitive. The constructors are written as the
  classes are: a subclass calls its superclass and then overwrites fields.
\<close>

section \<open>Thrown values\<close>

datatype failure_class = FTransient | FPersistent | FPartial | FSystemic

record recovery_path =
  user_action :: "string option"
  admin_action :: "string option"
  documentation_url :: "string option"

record item_result =
  ir_item_id :: string
  ir_success :: bool
  ir_error :: "string option"

datatype ctor =
    CError | CTypeError | CAppError | CTransientError | CRateLimitError | CExternalServiceError
  | CPersistentError | CValidationError | CNotFoundError | CUnauthorizedError | CForbiddenError
  | CConflictError | CConfigurationError | CPartialFailureError | CSystemicError
  | CStateTransitionError

text \<open>The \<open>extends\<close> clauses.\<close>

fun super_of :: "ctor \<Rightarrow> ctor option" where
  "super_of CError = None"
| "super_of CTypeError = Some CError"
| "super_of CAppError = Some CError"
| "super_of CTransientError = Some CAppError"
| "super_of CRateLimitError = Some CTransientError"
| "super_of CExternalServiceError = Some CTransientError"
| "super_of CPersistentError = Some CAppError"
| "super_of CValidationError = Some CPersistentError"
| "super_of CNotFoundError = Some CPersistentError"
| "super_of CUnauthorizedError = Some CPersistentError"
| "super_of CForbiddenError = Some CPersistentError"
| "super_of CConflictError = Some CPersistentError"
| "super_of CConfigurationError = Some CPersistentError"
| "super_of CPartialFailureError = Some CAppError"
| "super_of CSystemicError = Some CAppError"
| "super_of CStateTransitionError = Some CAppError"

fun ctor_depth :: "ctor \<Rightarrow> nat" where
  "ctor_depth CError = 0"
| "ctor_depth CTypeError = 1"
| "ctor_depth CAppError = 1"
| "ctor_depth CTransientError = 2"
| "ctor_depth CPersistentError = 2"
| "ctor_depth CPartialFailureError = 2"
| "ctor_depth CSystemicError = 2"
| "ctor_depth CStateTransitionError = 2"
| "ctor_depth _ = 3"

lemma super_of_depth: "super_of c = Some p \<Longrightarrow> ctor_depth p < ctor_depth c"
  by (cases c) auto

function proto_chain :: "ctor \<Rightarrow> ctor list" where
  "proto_chain c = (case super_of c of None \<Rightarrow> [c] | Some p \<Rightarrow> c # proto_chain p)"
  by pat_completeness auto
termination
  by (relation "measure ctor_depth") (auto intro: super_of_depth)

record err_fields =
  e_ctor :: ctor
  e_name :: string
  e_msg :: string
  e_status :: "int option"
  e_code :: "string option"
  e_class :: "failure_class option"
  e_recovery :: "recovery_path option"
  e_partial :: "item_result list option"
  e_retry_after :: "int option"

datatype thrown = ErrObj err_fields "thrown option" | Prim string

definition inst_of :: "thrown \<Rightarrow> ctor \<Rightarrow> bool" where
  "inst_of t c = (case t of ErrObj e _ \<Rightarrow> c \<in> set (proto_chain (e_ctor e)) | Prim _ \<Rightarrow> False)"

definition plain_error :: "string \<Rightarrow> err_fields" where
  "plain_error msg =
     \<lparr>e_ctor = CError, e_name = ''Error'', e_msg = msg, e_status = None, e_code = None,
      e_class = None, e_recovery = None, e_partial = None, e_retry_after = None\<rparr>"

text \<open>\<open>new Error(msg)\<close> and \<open>new TypeError(msg)\<close>.\<close>

definition js_Error :: "string \<Rightarrow> thrown" where
  "js_Error msg = ErrObj (plain_error msg) None"

definition js_TypeError :: "string \<Rightarrow> thrown" where
  "js_TypeError msg =
     ErrObj ((plain_error msg)\<lparr>e_ctor := CTypeError, e_name := ''TypeError''\<rparr>) None"

text \<open>\<open>(err as Error).message\<close>: primitives have no message.\<close>

definition err_message :: "thrown \<Rightarrow> string option" where
  "err_message t = (case t of ErrObj e _ \<Rightarrow> Some (e_msg e) | Prim _ \<Rightarrow> None)"

text \<open>\<open>error instanceof Error ? error : new Error(String(error))\<close>.\<close>

definition as_error :: "thrown \<Rightarrow> thrown" where
  "as_error t = (case t of ErrObj _ _ \<Rightarrow> t | Prim s \<Rightarrow> js_Error s)"

lemma proto_chain_simps [result_simps]:
  "proto_chain CError = [CError]"
  "proto_chain CTypeError = [CTypeError, CError]"
  "proto_chain CAppError = [CAppError, CError]"
  "proto_chain CTransientError = [CTransientError, CAppError, CError]"
  "proto_chain CRateLimitError = [CRateLimitError, CTransientError, CAppError, CError]"
  "proto_chain CExternalServiceError = [CExternalServiceError, CTransientError, CAppError, CError]"
  "proto_chain CPersistentError = [CPersistentError, CAppError, CError]"
  "proto_chain CValidationError = [CValidationError, CPersistentError, CAppError, CError]"
  "proto_chain CNotFoundError = [CNotFoundError, CPersistentError, CAppError, CError]"
  "proto_chain CUnauthorizedError = [CUnauthorizedError, CPersistentError, CAppError, CError]"
  "proto_chain CForbiddenError = [CForbiddenError, CPersistentError, CAppError, CError]"
  "proto_chain CConflictError = [CConflictError, CPersistentError, CAppError, CError]"
  "proto_chain CConfigurationError = [CConfigurationError, CPersistentError, CAppError, CError]"
  "proto_chain CPartialFailureError = [CPartialFailureError, CAppError, CError]"
  "proto_chain CSystemicError = [CSystemicError, CAppError, CError]"
  "proto_chain CStateTransitionError = [CStateTransitionError, CAppError, CError]"
  by simp_all

declare proto_chain.simps [simp del]

lemma inst_of_Error_iff: "inst_of t CError \<longleftrightarrow> (\<exists>e c. t = ErrObj e c)"
proof (cases t)
  case (ErrObj e c)
  have "CError \<in> set (proto_chain (e_ctor e))" by (cases "e_ctor e") (simp_all add: proto_chain_simps)
  with ErrObj show ?thesis by (simp add: inst_of_def)
qed (simp add: inst_of_def)

section \<open>The class hierarchy\<close>

text \<open>Unclassified failures default to persistent, an absent code to \<open>INTERNAL_ERROR\<close>.\<close>

definition or_default :: "'a option \<Rightarrow> 'a \<Rightarrow> 'a" where
  "or_default x d = (case x of None \<Rightarrow> d | Some v \<Rightarrow> v)"

lemma or_default_simps [simp]: "or_default None d = d" "or_default (Some v) d = v"
  by (simp_all add: or_default_def)

definition AppError :: "string \<Rightarrow> int \<Rightarrow> string option \<Rightarrow> failure_class option \<Rightarrow> err_fields" where
  "AppError msg status code cls =
     (plain_error msg)\<lparr>e_ctor := CAppError, e_name := ''AppError'', e_status := Some status,
        e_code := Some (or_default code ''INTERNAL_ERROR''),
        e_class := Some (or_default cls FPersistent)\<rparr>"

definition TransientError :: "string \<Rightarrow> string option \<Rightarrow> err_fields" where
  "TransientError msg code =
     (AppError msg 503 (Some (or_default code ''SERVICE_UNAVAILABLE'')) (Some FTransient))
       \<lparr>e_ctor := CTransientError, e_name := ''TransientError''\<rparr>"

definition RateLimitError :: "string \<Rightarrow> err_fields" where
  "RateLimitError msg =
     (TransientError msg (Some ''RATE_LIMITED''))
       \<lparr>e_ctor := CRateLimitError, e_name := ''RateLimitError'', e_status := Some 429\<rparr>"

definition ExternalServiceError :: "string \<Rightarrow> int option \<Rightarrow> err_fields" where
  "ExternalServiceError msg retry_after =
     (TransientError msg (Some ''EXTERNAL_SERVICE_ERROR''))
       \<lparr>e_ctor := CExternalServiceError, e_name := ''ExternalServiceError'',
        e_retry_after := retry_after\<rparr>"

definition PersistentError ::
    "string \<Rightarrow> int \<Rightarrow> string option \<Rightarrow> recovery_path option \<Rightarrow> err_fields" where
  "PersistentError msg status code rp =
     (AppError msg status (Some (or_default code ''CONFIGURATION_ERROR'')) (Some FPersistent))
       \<lparr>e_ctor := CPersistentError, e_name := ''PersistentError'', e_recovery := rp\<rparr>"

definition ValidationError :: "string \<Rightarrow> err_fields" where
  "ValidationError msg =
     (PersistentError msg 400 (Some ''VALIDATION_ERROR'') None)
       \<lparr>e_ctor := CValidationError, e_name := ''ValidationError''\<rparr>"

definition NotFoundError :: "string \<Rightarrow> err_fields" where
  "NotFoundError msg =
     (PersistentError msg 404 (Some ''NOT_FOUND'') None)
       \<lparr>e_ctor := CNotFoundError, e_name := ''NotFoundError''\<rparr>"

definition UnauthorizedError :: "string \<Rightarrow> err_fields" where
  "UnauthorizedError msg =
     (PersistentError msg 401 (Some ''UNAUTHORIZED'') None)
       \<lparr>e_ctor := CUnauthorizedError, e_name := ''UnauthorizedError''\<rparr>"

definition ForbiddenError :: "string \<Rightarrow> err_fields" where
  "ForbiddenError msg =
     (PersistentError msg 403 (Some ''FORBIDDEN'') None)
       \<lparr>e_ctor := CForbiddenError, e_name := ''ForbiddenError''\<rparr>"

definition ConflictError :: "string \<Rightarrow> err_fields" where
  "ConflictError msg =
     (PersistentError msg 409 (Some ''CONFLICT'') None)
       \<lparr>e_ctor := CConflictError, e_name := ''ConflictError''\<rparr>"

definition ConfigurationError :: "string \<Rightarrow> err_fields" where
  "ConfigurationError msg =
     (PersistentError msg 400 (Some ''CONFIGURATION_ERROR'') None)
       \<lparr>e_ctor := CConfigurationError, e_name := ''ConfigurationError''\<rparr>"

definition PartialFailureError :: "string \<Rightarrow> item_result list \<Rightarrow> err_fields" where
  "PartialFailureError msg results =
     (AppError msg 207 (Some ''PARTIAL_FAILURE'') (Some FPartial))
       \<lparr>e_ctor := CPartialFailureError, e_name := ''PartialFailureError'',
        e_partial := Some results\<rparr>"

definition SystemicError :: "string \<Rightarrow> string option \<Rightarrow> err_fields" where
  "SystemicError msg code =
     (AppError msg 500 (Some (or_default code ''INTERNAL_ERROR'')) (Some FSystemic))
       \<lparr>e_ctor := CSystemicError, e_name := ''SystemicError''\<rparr>"

lemmas err_class_defs = AppError_def TransientError_def RateLimitError_def ExternalServiceError_def
  PersistentError_def ValidationError_def NotFoundError_def UnauthorizedError_def
  ForbiddenError_def ConflictError_def ConfigurationError_def PartialFailureError_def
  SystemicError_def plain_error_def

text \<open>The error objects the constructors can build.\<close>

inductive app_error :: "err_fields \<Rightarrow> bool" where
  "app_error (AppError m s c f)"
| "app_error (TransientError m c)"
| "app_error (RateLimitError m)"
| "app_error (ExternalServiceError m r)"
| "app_error (PersistentError m s c rp)"
| "app_error (ValidationError m)"
| "app_error (NotFoundError m)"
| "app_error (UnauthorizedError m)"
| "app_error (ForbiddenError m)"
| "app_error (ConflictError m)"
| "app_error (ConfigurationError m)"
| "app_error (PartialFailureError m rs)"
| "app_error (SystemicError m c)"

section \<open>Classification\<close>

definition isTransient :: "thrown \<Rightarrow> bool" where
  "isTransient t =
     (if inst_of t CAppError
      then (case t of ErrObj e _ \<Rightarrow> e_class e = Some FTransient | Prim _ \<Rightarrow> False)
      else (case t of
              ErrObj e _ \<Rightarrow> inst_of t CTypeError \<and> str_includes (e_msg e) ''fetch''
            | Prim _ \<Rightarrow> False))"

definition escalateTransientToPersistent ::
    "thrown \<Rightarrow> string \<Rightarrow> recovery_path option \<Rightarrow> thrown" where
  "escalateTransientToPersistent orig ctx rp =
     (let message = (case orig of
            ErrObj e _ \<Rightarrow> ctx @ '': '' @ e_msg e @ '' (retries exhausted)''
          | Prim _ \<Rightarrow> ctx @ '': transient failure exhausted retries'')
      in ErrObj (PersistentError message 503 (Some ''EXTERNAL_SERVICE_ERROR'') rp)
           (if inst_of orig CError then Some orig else None))"

definition or_text :: "string \<Rightarrow> string \<Rightarrow> string" where
  "or_text s d = (if s = [] then d else s)"

definition userFacingMessage :: "thrown \<Rightarrow> string" where
  "userFacingMessage t =
     (case t of
        Prim _ \<Rightarrow> ''An unexpected error occurred.''
      | ErrObj e _ \<Rightarrow>
          (case e_class e of
             Some FTransient \<Rightarrow> ''A temporary error occurred. Please try again shortly.''
           | Some FPersistent \<Rightarrow> or_text (e_msg e) ''A configuration issue needs to be fixed.''
           | Some FPartial \<Rightarrow>
               (if inst_of t CAppError
                then ''Some items completed successfully, but others failed. Check the results for details.''
                else ''An unexpected error occurred.'')
           | Some FSystemic \<Rightarrow>
               ''We are experiencing a system issue and are working to resolve it.''
           | None \<Rightarrow> ''An unexpected error occurred.''))"

section \<open>Response bodies\<close>

record error_body =
  eb_code :: string
  eb_message :: string
  eb_class :: "failure_class option"
  eb_field :: "string option"
  eb_resource :: "string option"
  eb_recovery :: "recovery_path option"
  eb_results :: "item_result list option"
  eb_request_id :: "string option"

record http_response =
  hr_status :: int
  hr_body :: error_body
  hr_retry_after :: "string option"

text \<open>An empty string is falsy: the spread drops the property.\<close>

definition truthy :: "string option \<Rightarrow> string option" where
  "truthy s = (case s of Some (c # cs) \<Rightarrow> Some (c # cs) | _ \<Rightarrow> None)"

definition errorResponse ::
    "string option \<Rightarrow> int \<Rightarrow> string \<Rightarrow> string \<Rightarrow> string option \<Rightarrow> string option
     \<Rightarrow> failure_class option \<Rightarrow> recovery_path option \<Rightarrow> http_response" where
  "errorResponse rid status code msg field resource cls rp =
     \<lparr>hr_status = status,
      hr_body = \<lparr>eb_code = code, eb_message = msg, eb_class = cls, eb_field = truthy field,
                 eb_resource = truthy resource, eb_recovery = rp, eb_results = None,
                 eb_request_id = rid\<rparr>,
      hr_retry_after = None\<rparr>"

definition validationError :: "string option \<Rightarrow> string \<Rightarrow> string option \<Rightarrow> http_response" where
  "validationError rid msg field =
     errorResponse rid 400 ''VALIDATION_ERROR'' msg field None (Some FPersistent) None"

definition notFound :: "string option \<Rightarrow> string \<Rightarrow> string option \<Rightarrow> http_response" where
  "notFound rid msg resource =
     errorResponse rid 404 ''NOT_FOUND'' msg None resource (Some FPersistent) None"

definition unauthorized :: "string option \<Rightarrow> string \<Rightarrow> http_response" where
  "unauthorized rid msg =
     errorResponse rid 401 ''UNAUTHORIZED'' msg None None (Some FPersistent) None"

definition forbidden :: "string option \<Rightarrow> string \<Rightarrow> http_response" where
  "forbidden rid msg = errorResponse rid 403 ''FORBIDDEN'' msg None None (Some FPersistent) None"

definition conflict :: "string option \<Rightarrow> string \<Rightarrow> string option \<Rightarrow> http_response" where
  "conflict rid msg resource =
     errorResponse rid 409 ''CONFLICT'' msg None resource (Some FPersistent) None"

definition rateLimited :: "string option \<Rightarrow> int \<Rightarrow> string \<Rightarrow> http_response" where
  "rateLimited rid seconds msg =
     (errorResponse rid 429 ''RATE_LIMITED'' msg None None (Some FTransient) None)
       \<lparr>hr_retry_after := Some (show_int seconds)\<rparr>"

definition internalError :: "string option \<Rightarrow> string \<Rightarrow> http_response" where
  "internalError rid msg =
     errorResponse rid 500 ''INTERNAL_ERROR'' msg None None (Some FSystemic) None"

definition serviceUnavailable :: "string option \<Rightarrow> string \<Rightarrow> http_response" where
  "serviceUnavailable rid msg =
     errorResponse rid 503 ''SERVICE_UNAVAILABLE'' msg None None (Some FTransient) None"

definition partialFailure :: "string option \<Rightarrow> string \<Rightarrow> item_result list \<Rightarrow> http_response" where
  "partialFailure rid msg results =
     \<lparr>hr_status = 207,
      hr_body = \<lparr>eb_code = ''PARTIAL_FAILURE'', eb_message = msg, eb_class = Some FPartial,
                 eb_field = None, eb_resource = None, eb_recovery = None,
                 eb_results = Some results, eb_request_id = rid\<rparr>,
      hr_retry_after = None\<rparr>"

definition fromAppError :: "string option \<Rightarrow> err_fields \<Rightarrow> thrown option \<Rightarrow> http_response" where
  "fromAppError rid e cause =
     (let status = (case e_status e of Some s \<Rightarrow> if s = 0 then 500 else s | None \<Rightarrow> 500);
          code = (case truthy (e_code e) of Some c \<Rightarrow> c | None \<Rightarrow> ''INTERNAL_ERROR'');
          cls = or_default (e_class e) FPersistent
      in errorResponse rid status code (userFacingMessage (ErrObj e cause)) None None (Some cls)
           (e_recovery e))"

section \<open>Facts\<close>

lemma app_error_inst: "app_error e \<Longrightarrow> inst_of (ErrObj e c) CAppError"
  by (erule app_error.cases) (simp_all add: inst_of_def err_class_defs proto_chain_simps)

lemma app_error_class: "app_error e \<Longrightarrow> e_class e \<noteq> None"
  by (erule app_error.cases) (simp_all add: err_class_defs)

lemma isTransient_app_error:
  "app_error e \<Longrightarrow> isTransient (ErrObj e c) \<longleftrightarrow> e_class e = Some FTransient"
  by (simp add: isTransient_def app_error_inst)

lemma PersistentError_class: "e_class (PersistentError m s c rp) = Some FPersistent"
  by (simp add: err_class_defs)

lemma escalate_class:
  "\<exists>e. escalateTransientToPersistent t ctx rp = ErrObj e (if inst_of t CError then Some t else None)
       \<and> e_class e = Some FPersistent \<and> app_error e"
  by (auto simp: escalateTransientToPersistent_def Let_def PersistentError_class
           intro: app_error.intros)

lemma escalate_not_transient: "\<not> isTransient (escalateTransientToPersistent t ctx rp)"
proof -
  from escalate_class obtain e where
    "escalateTransientToPersistent t ctx rp = ErrObj e (if inst_of t CError then Some t else None)"
    "e_class e = Some FPersistent" "app_error e" by blast
  then show ?thesis by (simp add: isTransient_app_error)
qed

section \<open>Properties\<close>

text \<open>
  C17: the response built from an error of the hierarchy reports the failure class and the code of
  the error, and hides its message unless the class is persistent: two errors that differ only
  in the message give the same response when the class is transient, partial or systemic.
\<close>

theorem response_reports_class:
  assumes "app_error e"
  shows "eb_class (hr_body (fromAppError rid e c)) = e_class e
    \<and> (e_class e = Some FPersistent \<or>
        fromAppError rid (e\<lparr>e_msg := m\<rparr>) c = fromAppError rid e c)"
proof -
  obtain k where k: "e_class e = Some k" using app_error_class [OF assms] by auto
  have "inst_of (ErrObj e c) CAppError" by (rule app_error_inst [OF assms])
  then have "inst_of (ErrObj (e\<lparr>e_msg := m\<rparr>) c) CAppError" by (simp add: inst_of_def)
  with k app_error_inst [OF assms, of c] show ?thesis
    by (cases k) (simp_all add: fromAppError_def errorResponse_def userFacingMessage_def Let_def)
qed

theorem response_reports_class_witness:
  "fromAppError None ((SystemicError ''db password is hunter2'' None)\<lparr>e_msg := ''x''\<rparr>) None
     = fromAppError None (SystemicError ''db password is hunter2'' None) None"
proof -
  have "e_class (SystemicError ''db password is hunter2'' None) = Some FSystemic"
    by (simp add: SystemicError_def AppError_def)
  with response_reports_class [OF app_error.intros(13), of None "''db password is hunter2''" None None "''x''"]
  show ?thesis by simp
qed

end
