(* ===== verification/Scanner.thy ===== *)
theory Scanner
  imports App_Errors
begin

text \<open>
  Discovery of the vaults that are due, \<open>keeper/src/scanner.ts\<close>: the parser for the JSON of a vault
  object, the paginated query, the due filter and the event-based fallback. The RPC endpoints are
  parameters (record \<open>chain\<close>). The pagination loop ends only when the server says so; it is
  written with fuel, one unit per page, and \<open>None\<close> means that the fuel did not last.
  The numbers of the parser are the language's doubles: an integer of more than 53 bits is rounded.
\<close>

section \<open>JavaScript coercions\<close>

fun intercalate :: "string \<Rightarrow> string list \<Rightarrow> string" where
  "intercalate sep [] = []"
| "intercalate sep [x] = x"
| "intercalate sep (x # y # ys) = x @ sep @ intercalate sep (y # ys)"

text \<open>\<open>String(v)\<close>.\<close>

fun js_String :: "json \<Rightarrow> string" where
  "js_String JNull = ''null''"
| "js_String (JBool b) = (if b then ''true'' else ''false'')"
| "js_String (JNum n) = show_int n"
| "js_String (JStr s) = s"
| "js_String (JArr xs) = intercalate '','' (map (\<lambda>x. if x = JNull then [] else js_String x) xs)"
| "js_String (JObj fs) = ''[object Object]''"

text \<open>\<open>BigInt(s)\<close> for decimal strings; \<open>None\<close> is a \<open>SyntaxError\<close>.\<close>

definition parse_bigint :: "string \<Rightarrow> int option" where
  "parse_bigint s =
     (if s = [] then Some 0
      else
        (let neg = (hd s = CHR ''-'');
             ds = (if neg \<or> hd s = CHR ''+'' then tl s else s)
         in if ds \<noteq> [] \<and> list_all is_digit ds
            then Some (if neg then - digits_val ds else digits_val ds) else None))"

definition jopt :: "json option \<Rightarrow> string \<Rightarrow> json option" where
  "jopt j k = (case j of Some x \<Rightarrow> jget x k | None \<Rightarrow> None)"

lemma jopt_simps [simp]: "jopt None k = None" "jopt (Some x) k = jget x k"
  by (simp_all add: jopt_def)

definition asString :: "json option \<Rightarrow> string" where
  "asString v =
     (case v of
        None \<Rightarrow> []
      | Some (JStr s) \<Rightarrow> s
      | Some (JNum n) \<Rightarrow> show_int n
      | Some JNull \<Rightarrow> []
      | Some (JObj fs) \<Rightarrow>
          (case jopt (jget (JObj fs) ''fields'') ''bits'' of
             Some (JStr s) \<Rightarrow> s
           | Some (JNum n) \<Rightarrow> show_int n
           | _ \<Rightarrow> (case jget (JObj fs) ''id'' of Some (JStr i) \<Rightarrow> i | _ \<Rightarrow> js_String (JObj fs)))
      | Some j \<Rightarrow> js_String j)"

text \<open>
  Integers as the language's numbers, doubles: 53 bits, rounded to the nearest and to even on a tie; \<open>None\<close> is an
  infinity. A JSON number (\<open>JNum\<close>) stands for an integer that is exact already.
\<close>

fun double_shift :: "nat \<Rightarrow> nat" where
  "double_shift a = (if a < 2 ^ 53 then 0 else Suc (double_shift (a div 2)))"

declare double_shift.simps [simp del]

definition round_even :: "nat \<Rightarrow> nat \<Rightarrow> nat" where
  "round_even a e =
     (let q = a div 2 ^ e; r = 2 * (a mod 2 ^ e)
      in if r > 2 ^ e \<or> r = 2 ^ e \<and> odd q then q + 1 else q)"

definition js_double :: "int \<Rightarrow> int option" where
  "js_double n =
     (let e = double_shift (nat \<bar>n\<bar>); d = int (round_even (nat \<bar>n\<bar>) e) * 2 ^ e
      in if d \<ge> 2 ^ 1024 then None else Some (sgn n * d))"

definition asNumber :: "json option \<Rightarrow> int" where
  "asNumber v = or_default (Option.bind (parse_int (asString v)) js_double) 0"

definition asBigInt :: "json option \<Rightarrow> int" where
  "asBigInt v = or_default (parse_bigint (asString v)) 0"

definition asBoolean :: "json option \<Rightarrow> bool" where
  "asBoolean v =
     (case v of Some (JBool b) \<Rightarrow> b | Some (JStr s) \<Rightarrow> s = ''true'' | _ \<Rightarrow> False)"

definition parseOptionU64 :: "json option \<Rightarrow> int option" where
  "parseOptionU64 v =
     (case v of
        None \<Rightarrow> None
      | Some JNull \<Rightarrow> None
      | Some (JStr s) \<Rightarrow> Some (asNumber v)
      | Some (JNum n) \<Rightarrow> Some (asNumber v)
      | Some j \<Rightarrow>
          (case jget j ''vec'' of
             Some (JArr []) \<Rightarrow> None
           | Some (JArr (inner # _)) \<Rightarrow>
               if json_truthy (Some inner)
               then (case jopt (jget inner ''fields'') ''bits'' of
                       Some bits \<Rightarrow> Some (asNumber (Some bits))
                     | None \<Rightarrow> Some (asNumber (Some inner)))
               else None
           | _ \<Rightarrow> Some (asNumber v)))"

section \<open>Vault objects\<close>

record due_vault =
  dv_id :: string
  dv_objectId :: string
  dv_beneficiary :: string
  dv_blobId :: string
  dv_walBalance :: int
  dv_renewThresholdEpochs :: int
  dv_renewByEpochs :: int
  dv_maxTotalEpochs :: "int option"
  dv_active :: bool
  dv_currentEndEpoch :: int

record sui_content =
  sc_dataType :: string
  sc_fields :: "json option"

record sui_data =
  sd_objectId :: string
  sd_content :: "sui_content option"

text \<open>A response without \<open>data\<close> is \<open>None\<close>.\<close>

type_synonym sui_object = "sui_data option"

definition blob_fields :: "json \<Rightarrow> json option" where
  "blob_fields flds =
     (case jopt (jget flds ''blob'') ''vec'' of
        Some (JArr (x # _)) \<Rightarrow> jget x ''fields''
      | _ \<Rightarrow> None)"

definition storage_fields :: "json \<Rightarrow> json option" where
  "storage_fields flds =
     (if json_truthy (jopt (blob_fields flds) ''storage'')
      then jopt (jopt (blob_fields flds) ''storage'') ''fields'' else None)"

definition vault_of_fields :: "string \<Rightarrow> json \<Rightarrow> due_vault" where
  "vault_of_fields objectId flds =
     (let beneficiary = asString (jget flds ''beneficiary'');
          blobFields = blob_fields flds;
          blobId = (if json_truthy blobFields then asString (jopt blobFields ''blob_id'') else []);
          storageFields = storage_fields flds;
          currentEndEpoch =
            (if json_truthy storageFields then asNumber (jopt storageFields ''end_epoch'') else 0);
          policyFields = jopt (jget flds ''policy'') ''fields'';
          hasPolicy = json_truthy policyFields
      in \<lparr>dv_id = objectId, dv_objectId = objectId, dv_beneficiary = beneficiary,
          dv_blobId = blobId, dv_walBalance = asBigInt (jget flds ''wal_balance''),
          dv_renewThresholdEpochs =
            (if hasPolicy then asNumber (jopt policyFields ''renew_threshold_epochs'') else 0),
          dv_renewByEpochs =
            (if hasPolicy then asNumber (jopt policyFields ''renew_by_epochs'') else 0),
          dv_maxTotalEpochs =
            (if hasPolicy then parseOptionU64 (jopt policyFields ''max_total_epochs'') else None),
          dv_active = (if hasPolicy then asBoolean (jopt policyFields ''active'') else False),
          dv_currentEndEpoch = currentEndEpoch\<rparr>)"

definition parseVaultObject :: "sui_object \<Rightarrow> due_vault option" where
  "parseVaultObject obj =
     (case obj of
        None \<Rightarrow> None
      | Some data \<Rightarrow>
          (case sd_content data of
             None \<Rightarrow> None
           | Some content \<Rightarrow>
               if sc_dataType content \<noteq> ''moveObject'' then None
               else if \<not> json_truthy (sc_fields content) then None
               else Some (vault_of_fields (sd_objectId data) (the (sc_fields content)))))"

section \<open>Queries\<close>

record vault_page =
  vp_data :: "sui_object list"
  vp_hasNextPage :: bool
  vp_nextCursor :: "string option"

record chain =
  ch_query :: "string option \<Rightarrow> int \<Rightarrow> thrown + vault_page"
  ch_events :: "thrown + json option list"
  ch_get :: "string list \<Rightarrow> thrown + sui_object list"
  ch_seq :: "thrown + string"
  ch_checkpoint :: "string \<Rightarrow> thrown + int"

record scanner =
  vs_maxVaults :: int
  vs_eventFallback :: bool
  vs_packageId :: string

definition scanner_new ::
    "int \<Rightarrow> bool option \<Rightarrow> string option \<Rightarrow> string option \<Rightarrow> string option \<Rightarrow> scanner" where
  "scanner_new maxVaults fallback packageId env_fallback env_package =
     \<lparr>vs_maxVaults = maxVaults,
      vs_eventFallback = or_default fallback (env_fallback = Some ''true''),
      vs_packageId = (case truthy packageId of Some p \<Rightarrow> p | None \<Rightarrow> or_default env_package [])\<rparr>"

definition getCurrentEpoch :: "chain \<Rightarrow> thrown + int" where
  "getCurrentEpoch c = bindE (ch_seq c) (ch_checkpoint c)"

fun query_loop ::
    "nat \<Rightarrow> (string option \<Rightarrow> int \<Rightarrow> thrown + vault_page) \<Rightarrow> int \<Rightarrow> string option \<Rightarrow> due_vault list
     \<Rightarrow> bool \<Rightarrow> (thrown + due_vault list) option" where
  "query_loop fuel query maxVaults cursor vaults hasMore =
     (if \<not> (hasMore \<and> int (length vaults) < maxVaults) then Some (Inr vaults)
      else case fuel of
        0 \<Rightarrow> None
      | Suc fuel' \<Rightarrow>
          (let pageSize = min 50 (maxVaults - int (length vaults)) in
           case query cursor pageSize of
             Inl e \<Rightarrow> Some (Inl e)
           | Inr page \<Rightarrow>
               query_loop fuel' query maxVaults (vp_nextCursor page)
                 (vaults @ List.map_filter parseVaultObject (vp_data page)) (vp_hasNextPage page)))"

declare query_loop.simps [simp del]

definition queryAllVaults :: "nat \<Rightarrow> scanner \<Rightarrow> chain \<Rightarrow> (thrown + due_vault list) option" where
  "queryAllVaults fuel s c =
     (if vs_packageId s = [] then Some (Inr [])
      else query_loop fuel (ch_query c) (vs_maxVaults s) None [] True)"

text \<open>The sum is one of doubles.\<close>

definition is_due :: "int \<Rightarrow> due_vault \<Rightarrow> bool" where
  "is_due epoch v \<longleftrightarrow>
     (case js_double (epoch + dv_renewThresholdEpochs v) of
        Some x \<Rightarrow> x \<ge> dv_currentEndEpoch v
      | None \<Rightarrow> epoch + dv_renewThresholdEpochs v > 0)"

fun due_loop :: "int \<Rightarrow> int \<Rightarrow> due_vault list \<Rightarrow> due_vault list \<Rightarrow> due_vault list" where
  "due_loop maxVaults epoch [] due = due"
| "due_loop maxVaults epoch (v # vs) due =
     (if \<not> dv_active v then due_loop maxVaults epoch vs due
      else
        (let due' = (if is_due epoch v then due @ [v] else due)
         in if int (length due') \<ge> maxVaults then due' else due_loop maxVaults epoch vs due'))"

text \<open>\<open>Promise.all\<close> of the two requests: either error rejects the scan.\<close>

definition findDueVaultsPrimary :: "nat \<Rightarrow> scanner \<Rightarrow> chain \<Rightarrow> (thrown + due_vault list) option" where
  "findDueVaultsPrimary fuel s c =
     map_option (\<lambda>r. bindE r (\<lambda>allVaults. bindE (getCurrentEpoch c) (\<lambda>epoch.
        Inr (due_loop (vs_maxVaults s) epoch allVaults []))))
       (queryAllVaults fuel s c)"

definition fetchVaultsByIds :: "chain \<Rightarrow> string list \<Rightarrow> due_vault list" where
  "fetchVaultsByIds c ids =
     (if ids = [] then []
      else (case ch_get c ids of
              Inl e \<Rightarrow> []
            | Inr objects \<Rightarrow> List.map_filter parseVaultObject objects))"

definition findVaultByObjectId :: "chain \<Rightarrow> string \<Rightarrow> due_vault option" where
  "findVaultByObjectId c i = first_row (fetchVaultsByIds c [i])"

definition event_vault_id :: "json option \<Rightarrow> string option" where
  "event_vault_id parsed =
     (case jopt parsed ''vault_id'' of Some (JStr i) \<Rightarrow> truthy (Some i) | _ \<Rightarrow> None)"

definition findDueVaultsFromEvents :: "scanner \<Rightarrow> chain \<Rightarrow> due_vault list" where
  "findDueVaultsFromEvents s c =
     (if vs_packageId s = [] then []
      else case ch_events c of
        Inl e \<Rightarrow> []
      | Inr evs \<Rightarrow>
          if evs = [] then []
          else
            (let vaults = fetchVaultsByIds c (List.map_filter event_vault_id evs) in
             case getCurrentEpoch c of
               Inl e \<Rightarrow> []
             | Inr epoch \<Rightarrow> filter (\<lambda>v. dv_active v \<and> is_due epoch v) vaults))"

definition findDueVaults :: "nat \<Rightarrow> scanner \<Rightarrow> chain \<Rightarrow> (thrown + due_vault list) option" where
  "findDueVaults fuel s c =
     map_option (\<lambda>r. case r of
         Inr vs \<Rightarrow> Inr vs
       | Inl e \<Rightarrow> if \<not> vs_eventFallback s then Inl e else Inr (findDueVaultsFromEvents s c))
       (findDueVaultsPrimary fuel s c)"

section \<open>Numbers survive printing\<close>

lemma parse_bigint_show: "0 \<le> n \<Longrightarrow> parse_bigint (show_int n) = Some n"
proof -
  assume "0 \<le> n"
  then have s: "show_int n = show_nat (nat n)" by (simp add: show_int_def)
  have "hd (show_nat (nat n)) \<noteq> CHR ''-''" "hd (show_nat (nat n)) \<noteq> CHR ''+''"
    using show_nat_hd [of "nat n"] by (auto simp: is_digit_def less_eq_char_def)
  then show ?thesis
    using \<open>0 \<le> n\<close> show_nat_digits [of "nat n"] by (simp add: s parse_bigint_def Let_def)
qed

section \<open>Facts\<close>

text \<open>
  A server that lists the objects \<open>objs\<close>: from the position a cursor stands for it returns at most
  the requested number of objects and says whether any are left. \<open>enc\<close> encodes positions.
\<close>

definition lists_objects ::
    "(string option \<Rightarrow> int \<Rightarrow> thrown + vault_page) \<Rightarrow> (nat \<Rightarrow> string option) \<Rightarrow> sui_object list \<Rightarrow> bool" where
  "lists_objects query enc objs \<longleftrightarrow>
     enc 0 = None \<and>
     (\<forall>i n. 0 < n \<longrightarrow> query (enc i) n =
        Inr \<lparr>vp_data = take (nat n) (drop i objs), vp_hasNextPage = i + nat n < length objs,
             vp_nextCursor = enc (i + nat n)\<rparr>)"

lemma map_filter_append [simp]: "List.map_filter f (xs @ ys) = List.map_filter f xs @ List.map_filter f ys"
  by (simp add: List.map_filter_def)

lemma map_filter_length: "length (List.map_filter f xs) \<le> length xs"
  by (simp add: List.map_filter_def)

lemma query_loop_lists:
  assumes "lists_objects query enc objs"
    and "length (List.map_filter parseVaultObject (take i objs)) \<le> nat maxV"
    and "length objs < fuel + i" and "0 \<le> maxV" and "hm \<longleftrightarrow> i = 0 \<or> i < length objs"
  shows "query_loop fuel query maxV (enc i) (List.map_filter parseVaultObject (take i objs)) hm
    = Some (Inr (take (nat maxV) (List.map_filter parseVaultObject objs)))"
  using assms(2-)
proof (induction fuel arbitrary: i hm)
  case 0
  then have "i > length objs" "take i objs = objs" by simp_all
  with 0 show ?case by (subst query_loop.simps) auto
next
  case (Suc fuel)
  let ?P = "\<lambda>xs. List.map_filter parseVaultObject xs"
  let ?v = "?P (take i objs)"
  show ?case
  proof (cases "hm \<and> int (length ?v) < maxV")
    case False
    have "take (nat maxV) (?P objs) = ?v"
    proof (cases "hm")
      case True
      with False Suc.prems have "length ?v = nat maxV" by auto
      moreover have "?P objs = ?v @ ?P (drop i objs)"
        by (metis append_take_drop_id map_filter_append)
      ultimately show ?thesis by simp
    next
      case False
      with Suc.prems show ?thesis by auto
    qed
    moreover have "\<not> (hm \<and> int (length ?v) < maxV)" using False by simp
    ultimately show ?thesis by (subst query_loop.simps) simp
  next
    case True
    define n where "n = min 50 (maxV - int (length ?v))"
    with True have n: "0 < n" "n \<le> maxV - int (length ?v)" by auto
    have split: "take (i + nat n) objs = take i objs @ take (nat n) (drop i objs)"
      by (rule take_add)
    have q: "query (enc i) n = Inr \<lparr>vp_data = take (nat n) (drop i objs),
        vp_hasNextPage = i + nat n < length objs, vp_nextCursor = enc (i + nat n)\<rparr>"
      using assms(1) n by (simp add: lists_objects_def)
    have "length (?P (take (nat n) (drop i objs))) \<le> nat n"
      by (rule order_trans [OF map_filter_length]) simp
    then have "length (?P (take (i + nat n) objs)) \<le> nat maxV"
      unfolding split using n by (simp add: nat_le_iff)
    moreover have "length objs < fuel + (i + nat n)" using Suc.prems n by simp
    moreover have "(i + nat n < length objs) = (i + nat n = 0 \<or> i + nat n < length objs)" using n by simp
    ultimately have "query_loop fuel query maxV (enc (i + nat n)) (?P (take (i + nat n) objs))
        (i + nat n < length objs) = Some (Inr (take (nat maxV) (?P objs)))"
      using Suc.IH [of "i + nat n"] Suc.prems(3) by blast
    then have "query_loop fuel query maxV (enc (i + nat n)) (?v @ ?P (take (nat n) (drop i objs)))
        (i + nat n < length objs) = Some (Inr (take (nat maxV) (?P objs)))"
      unfolding split by simp
    with True q show ?thesis by (subst query_loop.simps) (simp add: n_def Let_def)
  qed
qed

lemma due_loop_filter:
  "length vs + length due \<le> nat maxV \<Longrightarrow>
     due_loop maxV epoch vs due = due @ filter (\<lambda>v. dv_active v \<and> is_due epoch v) vs"
proof (induction vs arbitrary: due)
  case (Cons v vs)
  show ?case
  proof (cases "dv_active v \<and> is_due epoch v \<and> vs = []")
    case True
    then show ?thesis by (simp add: Let_def)
  next
    case False
    then show ?thesis
    proof (cases vs)
      case Nil
      with Cons.prems show ?thesis by (simp add: Let_def)
    next
      case (Cons w ws)
      with Cons.prems have "length due + 1 < nat maxV" by simp
      with Cons.prems Cons.IH [of due] Cons.IH [of "due @ [v]"] show ?thesis by (auto simp: Let_def)
    qed
  qed
qed simp

lemma js_double_exact:
  assumes "\<bar>n\<bar> < 2 ^ 53"
  shows "js_double n = Some n"
proof -
  have "nat \<bar>n\<bar> < 2 ^ 53" using assms by (simp add: nat_less_iff)
  then have e: "double_shift (nat \<bar>n\<bar>) = 0" by (subst double_shift.simps) simp
  have "(2 :: int) ^ 53 < 2 ^ 1024" by (rule power_strict_increasing) simp_all
  with assms have "\<not> 2 ^ 1024 \<le> \<bar>n\<bar>" by linarith
  moreover have "round_even (nat \<bar>n\<bar>) 0 = nat \<bar>n\<bar>" by (simp add: round_even_def)
  ultimately show ?thesis unfolding js_double_def e Let_def by (simp add: sgn_mult_abs)
qed

lemma double_shift_leaves: "0 < a \<Longrightarrow> 0 < a div 2 ^ double_shift a"
proof (induction a rule: double_shift.induct)
  case (1 a)
  show ?case
  proof (cases "a < 2 ^ 53")
    case True
    with 1 show ?thesis by (subst double_shift.simps) simp
  next
    case False
    then have "0 < a div 2" by simp
    with 1(1) False have "0 < a div 2 div 2 ^ double_shift (a div 2)" by blast
    moreover have "a div 2 ^ double_shift a = a div 2 div 2 ^ double_shift (a div 2)"
      using False by (subst double_shift.simps) (simp add: div_mult2_eq)
    ultimately show ?thesis by simp
  qed
qed

lemma js_double_sign: "js_double n = Some x \<Longrightarrow> 0 \<le> x \<longleftrightarrow> 0 \<le> n"
proof -
  assume x: "js_double n = Some x"
  define r where "r = round_even (nat \<bar>n\<bar>) (double_shift (nat \<bar>n\<bar>))"
  have "x = sgn n * (int r * 2 ^ double_shift (nat \<bar>n\<bar>))"
    using x by (auto simp: js_double_def r_def Let_def split: if_splits)
  moreover have "0 < r" if "n \<noteq> 0"
    using double_shift_leaves [of "nat \<bar>n\<bar>"] that by (simp add: r_def round_even_def Let_def)
  then have "0 < int r * 2 ^ double_shift (nat \<bar>n\<bar>)" if "n \<noteq> 0" using that by simp
  ultimately show ?thesis by (cases "n = 0") (auto simp: sgn_if not_le)
qed

lemma due_at_zero: "(case js_double n of Some x \<Rightarrow> x \<ge> 0 | None \<Rightarrow> n > 0) \<longleftrightarrow> n \<ge> 0"
  using js_double_sign [of n] js_double_exact [of 0] by (cases "n = 0") (auto split: option.splits)

lemma is_due_ending_at_zero:
  "dv_currentEndEpoch v = 0 \<Longrightarrow> is_due epoch v \<longleftrightarrow> 0 \<le> epoch + dv_renewThresholdEpochs v"
  using due_at_zero [of "epoch + dv_renewThresholdEpochs v"] by (simp add: is_due_def cong: option.case_cong)

text \<open>
  The JSON of a vault, as the comment of the parser shows it, with the blob in a wrapping of its own and the balance, the
  epochs and the thresholds as decimal texts: bare, as in the comment, or in the vector of an option.
\<close>

definition vault_json ::
    "(json \<Rightarrow> json) \<Rightarrow> string \<Rightarrow> string \<Rightarrow> nat \<Rightarrow> nat \<Rightarrow> nat \<Rightarrow> nat \<Rightarrow> nat option \<Rightarrow> bool \<Rightarrow> json" where
  "vault_json wrap ben blob end_epoch balance threshold by max_total active = JObj
     [(''beneficiary'', JStr ben),
      (''blob'', wrap (JObj [(''fields'', JObj
         [(''blob_id'', JStr blob),
          (''storage'', JObj [(''fields'', JObj [(''end_epoch'', JStr (show_nat end_epoch))])])])])),
      (''wal_balance'', JStr (show_nat balance)),
      (''policy'', JObj [(''fields'', JObj
         [(''renew_threshold_epochs'', JStr (show_nat threshold)),
          (''renew_by_epochs'', JStr (show_nat by)),
          (''max_total_epochs'',
            (case max_total of
               None \<Rightarrow> JNull
             | Some n \<Rightarrow> JObj [(''vec'', JArr [JObj [(''fields'', JObj [(''bits'', JStr (show_nat n))])]])])),
          (''active'', JBool active)])])]"

definition bare :: "json \<Rightarrow> json" where
  "bare j = j"

definition in_vec :: "json \<Rightarrow> json" where
  "in_vec j = JObj [(''vec'', JArr [j])]"

definition move_object :: "string \<Rightarrow> json \<Rightarrow> sui_object" where
  "move_object i flds =
     Some \<lparr>sd_objectId = i, sd_content = Some \<lparr>sc_dataType = ''moveObject'', sc_fields = Some flds\<rparr>\<rparr>"

definition js_number :: "nat \<Rightarrow> int" where
  "js_number n = or_default (js_double (int n)) 0"

lemma js_number_exact: "n < 2 ^ 53 \<Longrightarrow> js_number n = int n"
  by (simp add: js_number_def js_double_exact)

lemma parse_vault_json:
  assumes "wrap \<in> {bare, in_vec}"
  shows "parseVaultObject (move_object i (vault_json wrap ben blob e bal thr by mx act)) = Some
    \<lparr>dv_id = i, dv_objectId = i, dv_beneficiary = ben, dv_blobId = (if wrap = bare then [] else blob),
     dv_walBalance = int bal, dv_renewThresholdEpochs = js_number thr, dv_renewByEpochs = js_number by,
     dv_maxTotalEpochs = map_option js_number mx, dv_active = act,
     dv_currentEndEpoch = (if wrap = bare then 0 else js_number e)\<rparr>"
proof -
  have num: "asNumber (Some (JStr (show_nat n))) = js_number n" "asBigInt (Some (JStr (show_nat n))) = int n" for n
    using parse_int_show [of "int n"] parse_bigint_show [of "int n"]
    by (simp_all add: asNumber_def asBigInt_def asString_def js_number_def show_int_def)
  have "in_vec \<noteq> bare" by (auto simp: in_vec_def bare_def dest: fun_cong [of _ _ JNull])
  with assms show ?thesis
    by (auto simp: move_object_def vault_json_def bare_def [abs_def] in_vec_def parseVaultObject_def vault_of_fields_def
        blob_fields_def storage_fields_def num asBoolean_def parseOptionU64_def asString_def Let_def
        split: option.split)
qed

text \<open>A vault as the chain sends it, for the examples.\<close>

definition encode_vault :: "due_vault \<Rightarrow> sui_object" where
  "encode_vault v = move_object (dv_objectId v)
     (vault_json in_vec (dv_beneficiary v) (dv_blobId v) (nat (dv_currentEndEpoch v)) (nat (dv_walBalance v))
        (nat (dv_renewThresholdEpochs v)) (nat (dv_renewByEpochs v)) (map_option nat (dv_maxTotalEpochs v)) (dv_active v))"

definition vault_in_range :: "due_vault \<Rightarrow> bool" where
  "vault_in_range v \<longleftrightarrow>
     dv_id v = dv_objectId v \<and> 0 \<le> dv_walBalance v
     \<and> list_all (\<lambda>n. 0 \<le> n \<and> n < 2 ^ 53)
         (dv_renewThresholdEpochs v # dv_renewByEpochs v # dv_currentEndEpoch v
          # (case dv_maxTotalEpochs v of None \<Rightarrow> [] | Some n \<Rightarrow> [n]))"

lemma parse_encoded: "vault_in_range v \<Longrightarrow> parseVaultObject (encode_vault v) = Some v"
proof -
  have "in_vec \<noteq> bare" by (auto simp: in_vec_def bare_def dest: fun_cong [of _ _ JNull])
  then show "vault_in_range v \<Longrightarrow> parseVaultObject (encode_vault v) = Some v"
    by (cases v) (auto simp: encode_vault_def parse_vault_json vault_in_range_def js_number_exact split: option.splits)
qed

section \<open>Properties\<close>

text \<open>
  C11: over a server that lists the vault objects, the scan ends within one page per object and one
  more, and returns in chain order the due vaults among the first \<open>maxVaults\<close> that parse. Vaults
  after these are never looked at, however long they have been due: the limit, documented for the
  vaults returned, cuts the ones queried.
\<close>

theorem scan_spec:
  assumes "lists_objects (ch_query c) enc objs" and "vs_packageId s \<noteq> []"
    and "0 \<le> vs_maxVaults s" and "getCurrentEpoch c = Inr epoch" and "length objs < fuel"
  shows "findDueVaults fuel s c =
    Some (Inr (filter (\<lambda>v. dv_active v \<and> is_due epoch v)
      (take (nat (vs_maxVaults s)) (List.map_filter parseVaultObject objs))))"
proof -
  from query_loop_lists [OF assms(1), of 0 "vs_maxVaults s" fuel True] assms(1,3,5)
  have "query_loop fuel (ch_query c) (vs_maxVaults s) None [] True
      = Some (Inr (take (nat (vs_maxVaults s)) (List.map_filter parseVaultObject objs)))"
    by (simp add: lists_objects_def List.map_filter_def)
  with assms(2,4) show ?thesis
    by (simp add: findDueVaults_def findDueVaultsPrimary_def queryAllVaults_def due_loop_filter)
qed

theorem scan_spec_witness:
  "\<exists>c s v w. is_due 99 w \<and> dv_active w
     \<and> ch_query c None 1 = Inr \<lparr>vp_data = [encode_vault v], vp_hasNextPage = True, vp_nextCursor = Some ''*''\<rparr>
     \<and> findDueVaults 3 s c = Some (Inr [v]) \<and> v \<noteq> w"
proof -
  define v where "v = \<lparr>dv_id = ''0xa'', dv_objectId = ''0xa'', dv_beneficiary = ''0xb'', dv_blobId = ''7'',
    dv_walBalance = 5, dv_renewThresholdEpochs = 2, dv_renewByEpochs = 3, dv_maxTotalEpochs = None,
    dv_active = True, dv_currentEndEpoch = 50\<rparr>"
  define w where "w = v\<lparr>dv_id := ''0xc'', dv_objectId := ''0xc''\<rparr>"
  define objs where "objs = [encode_vault v, encode_vault w]"
  define enc where "enc = (\<lambda>i. if i = 0 then None else Some (replicate i CHR ''*''))"
  define dec where "dec = (\<lambda>c. case c of None \<Rightarrow> 0 | Some s \<Rightarrow> length (s :: string))"
  define q where "q = (\<lambda>cur (n :: int). Inr \<lparr>vp_data = take (nat n) (drop (dec cur) objs),
     vp_hasNextPage = dec cur + nat n < length objs, vp_nextCursor = enc (dec cur + nat n)\<rparr> :: thrown + vault_page)"
  define c where "c = \<lparr>ch_query = q, ch_events = Inr [], ch_get = (\<lambda>_. Inr []), ch_seq = Inr ''1'',
    ch_checkpoint = (\<lambda>_. Inr 99)\<rparr>"
  define s where "s = \<lparr>vs_maxVaults = 1, vs_eventFallback = False, vs_packageId = ''0x1''\<rparr>"
  have dec: "dec (enc i) = i" for i by (simp add: dec_def enc_def)
  have l: "lists_objects (ch_query c) enc objs"
    by (auto simp: lists_objects_def c_def q_def dec) (simp add: enc_def)
  have p: "List.map_filter parseVaultObject objs = [v, w]"
    by (simp add: objs_def List.map_filter_def parse_encoded vault_in_range_def w_def v_def)
  have r: "findDueVaults 3 s c = Some (Inr [v])"
    using scan_spec [OF l, of s 99 3] p
    by (simp add: s_def c_def getCurrentEpoch_def objs_def is_due_def v_def js_double_exact)
  show ?thesis
    by (intro exI [of _ c] exI [of _ s] exI [of _ v] exI [of _ w])
      (use r in \<open>simp add: c_def q_def dec_def enc_def objs_def is_due_def w_def v_def js_double_exact\<close>)
qed

text \<open>
  With the fallback enabled a scan never throws, whichever requests fail; without it every
  error of the primary path reaches the caller.
\<close>

theorem scan_fallback_total:
  assumes "findDueVaults fuel s c = Some r"
  shows "(is_ok r \<or> \<not> vs_eventFallback s)
    \<and> (vs_eventFallback s \<or> findDueVaultsPrimary fuel s c = Some r)"
proof -
  from assms obtain z where z: "findDueVaultsPrimary fuel s c = Some z"
    by (auto simp: findDueVaults_def)
  with assms show ?thesis by (cases z; cases "vs_eventFallback s") (auto simp: findDueVaults_def)
qed

theorem scan_fallback_total_witness:
  "\<exists>s c r. findDueVaultsPrimary 1 s c = Some (Inl (js_Error ''down'')) \<and> findDueVaults 1 s c = Some r \<and> is_ok r"
proof -
  define c where "c = \<lparr>ch_query = (\<lambda>_ _. Inl (js_Error ''down'')), ch_events = Inl (js_Error ''down''),
    ch_get = (\<lambda>_. Inr []), ch_seq = Inr ''1'', ch_checkpoint = (\<lambda>_. Inr 99)\<rparr>"
  define s where "s = \<lparr>vs_maxVaults = 1, vs_eventFallback = True, vs_packageId = ''0x1''\<rparr>"
  have p: "findDueVaultsPrimary 1 s c = Some (Inl (js_Error ''down''))"
    by (simp add: findDueVaultsPrimary_def queryAllVaults_def query_loop.simps s_def c_def)
  obtain r where r: "findDueVaults 1 s c = Some r" using p by (simp add: findDueVaults_def)
  from scan_fallback_total [OF r] have "is_ok r" by (simp add: s_def)
  with p r show ?thesis by blast
qed

text \<open>
  C16: of an object of the shape that the parser documents every field but the blob is read: the numbers, which the chain sends
  as decimal texts, arrive as doubles and the balance exactly, but the blob id is empty and the end epoch 0, so that an active
  vault is due in every epoch, whenever its blob ends. Only of a blob in the vector of an option the blob is read too.
\<close>

theorem parse_vault_shapes:
  assumes "0 \<le> epoch"
  shows "\<exists>v w. parseVaultObject (move_object i (vault_json bare ben blob e bal thr by mx act)) = Some v
    \<and> parseVaultObject (move_object i (vault_json in_vec ben blob e bal thr by mx act)) = Some w
    \<and> w = \<lparr>dv_id = i, dv_objectId = i, dv_beneficiary = ben, dv_blobId = blob, dv_walBalance = int bal,
         dv_renewThresholdEpochs = js_number thr, dv_renewByEpochs = js_number by,
         dv_maxTotalEpochs = map_option js_number mx, dv_active = act, dv_currentEndEpoch = js_number e\<rparr>
    \<and> v = w\<lparr>dv_blobId := [], dv_currentEndEpoch := 0\<rparr> \<and> is_due epoch v"
proof -
  have "in_vec \<noteq> bare" by (auto simp: in_vec_def bare_def dest: fun_cong [of _ _ JNull])
  moreover have "0 \<le> js_number thr"
    using js_double_sign [of "int thr"] by (auto simp: js_number_def or_default_def split: option.split)
  ultimately show ?thesis using assms by (simp add: parse_vault_json is_due_ending_at_zero)
qed

theorem parse_vault_shapes_witness:
  "\<exists>v. parseVaultObject (move_object ''0xa'' (vault_json bare ''0xb'' ''12345'' 200 1000000 5 30 (Some 365) True)) = Some v
     \<and> dv_active v \<and> dv_currentEndEpoch v = 0 \<and> is_due 7 v"
  using parse_vault_shapes [of 7 "''0xa''" "''0xb''" "''12345''" 200 1000000 5 30 "Some 365" True] by auto

text \<open>
  A blob that is not wrapped in an option vector, the shape the parser documents, is lost: the
  vault gets an empty blob id and end epoch 0, so that every active vault of this shape is due in
  every epoch.
\<close>

theorem bare_blob_always_due:
  assumes "jopt (jget flds ''blob'') ''vec'' = None" and "0 \<le> epoch"
  shows "dv_blobId (vault_of_fields i flds) = [] \<and> dv_currentEndEpoch (vault_of_fields i flds) = 0
    \<and> (is_due epoch (vault_of_fields i flds)
         \<longleftrightarrow> epoch + dv_renewThresholdEpochs (vault_of_fields i flds) \<ge> 0)"
proof -
  have "blob_fields flds = None" using assms(1) by (simp add: blob_fields_def)
  then have v: "dv_blobId (vault_of_fields i flds) = []" "dv_currentEndEpoch (vault_of_fields i flds) = 0"
    by (simp_all add: vault_of_fields_def storage_fields_def Let_def)
  then show ?thesis by (simp add: is_due_ending_at_zero)
qed

theorem bare_blob_always_due_witness:
  "dv_currentEndEpoch (vault_of_fields ''0xa'' (JObj [(''blob'', JObj [(''fields'', JObj
      [(''blob_id'', JStr ''12345''),
       (''storage'', JObj [(''fields'', JObj [(''end_epoch'', JStr ''200'')])])])])])) = 0"
  by (rule conjunct1 [OF conjunct2 [OF bare_blob_always_due [of _ 0]]]) simp_all

end
