(* ===== verification/Retry.thy ===== *)
theory Retry
  imports Complex_Main App_Errors
begin

text \<open>
  The three retry loops of the repository: \<open>keeper/src/retry.ts\<close>, \<open>api/src/lib/retry.ts\<close> and
  \<open>requestWithRetry\<close> of \<open>sdk/src/client.ts\<close>, with the predicates that decide what is retried.
  The retried function is a sequence of outcomes (\<open>fn k\<close> is what its call number \<open>k\<close> gives) and
  \<open>rnd k\<close> the random number drawn after it. Each loop returns its result, the number of
  calls made and the delays waited. The locale states the contract the three loops share.
\<close>

section \<open>Regular expressions of words\<close>

text \<open>
  The patterns of \<open>isRetryableJobError\<close> are words (or alternatives of words) separated by
  \<open>\s+\<close> between word boundaries, matched case-insensitively.
\<close>

definition word_char :: "char \<Rightarrow> bool" where
  "word_char c =
     (is_digit c \<or> (CHR ''a'' \<le> c \<and> c \<le> CHR ''z'') \<or> (CHR ''A'' \<le> c \<and> c \<le> CHR ''Z'')
      \<or> c = CHR ''_'')"

definition space_char :: "char \<Rightarrow> bool" where
  "space_char c = (c \<in> {CHR '' '', CHR 0x09, CHR 0x0A, CHR 0x0B, CHR 0x0C, CHR 0x0D, CHR 0xA0})"

fun match_words :: "string list list \<Rightarrow> string \<Rightarrow> bool" where
  "match_words [] s = (case s of [] \<Rightarrow> True | c # _ \<Rightarrow> \<not> word_char c)"
| "match_words [alts] s =
     list_ex (\<lambda>w. starts_with w s \<and> match_words [] (drop (length w) s)) alts"
| "match_words (alts # b # rest) s =
     list_ex (\<lambda>w. starts_with w s \<and>
       (case drop (length w) s of
          [] \<Rightarrow> False
        | c # s' \<Rightarrow> space_char c \<and> match_words (b # rest) (dropWhile space_char s'))) alts"

fun regex_search :: "string list list \<Rightarrow> bool \<Rightarrow> string \<Rightarrow> bool" where
  "regex_search p prev [] = False"
| "regex_search p prev (c # s) =
     ((word_char c \<noteq> prev \<and> match_words p (c # s)) \<or> regex_search p (word_char c) s)"

definition regex_test :: "string list list \<Rightarrow> string \<Rightarrow> bool" where
  "regex_test p s = regex_search p False (to_lower s)"

section \<open>The keeper\<close>

record kretry_opts =
  kr_maxRetries :: int
  kr_baseDelay :: int
  kr_maxDelay :: int
  kr_operationName :: string

definition kretry_defaults ::
    "int option \<Rightarrow> int option \<Rightarrow> int option \<Rightarrow> string option \<Rightarrow> kretry_opts" where
  "kretry_defaults mr bd md op =
     \<lparr>kr_maxRetries = or_default mr 3, kr_baseDelay = or_default bd 1000,
      kr_maxDelay = or_default md 30000,
      kr_operationName = (case truthy op of Some s \<Rightarrow> s | None \<Rightarrow> ''operation'')\<rparr>"

text \<open>The message keywords that mark a network error.\<close>

definition network_message :: "string \<Rightarrow> bool" where
  "network_message m =
     (let msg = to_lower m in
        str_includes msg ''timeout'' \<or> str_includes msg ''network''
        \<or> str_includes msg ''econnrefused'' \<or> str_includes msg ''enotfound''
        \<or> str_includes msg ''etimedout'' \<or> str_includes msg ''circuit breaker is open'')"

definition isNetworkError :: "thrown \<Rightarrow> bool" where
  "isNetworkError t =
     (case t of
        Prim _ \<Rightarrow> False
      | ErrObj e _ \<Rightarrow>
          e_class e = Some FTransient
          \<or> e_name e \<in> {''TransientError'', ''RateLimitError'', ''ExternalServiceError''}
          \<or> (inst_of t CTypeError \<and> str_includes (e_msg e) ''fetch'')
          \<or> (case e_code e of
               None \<Rightarrow> False
             | Some c \<Rightarrow> c \<in> {''ECONNRESET'', ''ETIMEDOUT'', ''ECONNREFUSED'', ''ENOTFOUND'', ''EAI_AGAIN''})
          \<or> network_message (e_msg e))"

definition kescalate :: "thrown \<Rightarrow> string \<Rightarrow> thrown" where
  "kescalate orig operationName =
     (let message = (case orig of
            ErrObj e _ \<Rightarrow> operationName @ '': '' @ e_msg e @ '' (retries exhausted)''
          | Prim _ \<Rightarrow> operationName @ '': transient failure exhausted retries'')
      in ErrObj ((plain_error message)\<lparr>e_class := Some FPersistent\<rparr>)
           (if inst_of orig CError then Some orig else None))"

definition non_retryable_patterns :: "string list list list" where
  "non_retryable_patterns =
     [[[''vault''], [''not''], [''found'']],
      [[''blob''], [''not''], [''found'']],
      [[''does''], [''not''], [''exist'']],
      [[''invalid''], [''arguments'', ''parameters'', ''request'']],
      [[''insufficient''], [''balance'']],
      [[''unauthorized'']],
      [[''permission''], [''denied'']],
      [[''not''], [''supported'']],
      [[''malformed'']],
      [[''exceeds''], [''maximum'']]]"

definition retryable_patterns :: "string list list list" where
  "retryable_patterns =
     [[[''timeout'']],
      [[''try''], [''again'']],
      [[''temporarily''], [''unavailable'']],
      [[''transient'']],
      [[''rate''], [''limit'']],
      [[''too''], [''many''], [''requests'']],
      [[''network''], [''error'']],
      [[''connection''], [''refused'']],
      [[''service''], [''unavailable'']],
      [[''busy'']]]"

definition isRetryableJobError :: "thrown \<Rightarrow> bool" where
  "isRetryableJobError t =
     (if isNetworkError t then True
      else case t of
             ErrObj e _ \<Rightarrow>
               (if list_ex (\<lambda>p. regex_test p (e_msg e)) non_retryable_patterns then False
                else if list_ex (\<lambda>p. regex_test p (e_msg e)) retryable_patterns then True
                else True)
           | Prim _ \<Rightarrow> True)"

text \<open>\<open>Math.round(delay * (0.5 + Math.random() * 0.5))\<close>.\<close>

definition jittered :: "int \<Rightarrow> rat \<Rightarrow> int" where
  "jittered delay r = \<lfloor>rat_of_int delay * (1 / 2 + r * (1 / 2)) + 1 / 2\<rfloor>"

function kw_loop ::
    "(nat \<Rightarrow> thrown + 'a) \<Rightarrow> (nat \<Rightarrow> rat) \<Rightarrow> kretry_opts \<Rightarrow> int \<Rightarrow> nat \<Rightarrow> int list \<Rightarrow> thrown option
     \<Rightarrow> (thrown + 'a) \<times> nat \<times> int list" where
  "kw_loop fn rnd opts attempt calls waits lastError =
     (if attempt \<le> kr_maxRetries opts then
        (case fn calls of
           Inr v \<Rightarrow> (Inr v, calls + 1, waits)
         | Inl e \<Rightarrow>
             (if \<not> isNetworkError e then (Inl e, calls + 1, waits)
              else
                (let waits' =
                   (if attempt < kr_maxRetries opts
                    then waits @ [jittered (min (kr_baseDelay opts * 2 ^ nat (attempt - 1))
                                                (kr_maxDelay opts)) (rnd calls)]
                    else waits)
                 in kw_loop fn rnd opts (attempt + 1) (calls + 1) waits' (Some e))))
      else
        (Inl (kescalate
           (case lastError of Some e \<Rightarrow> e
            | None \<Rightarrow> js_Error (kr_operationName opts @ '' failed after ''
                        @ show_int (kr_maxRetries opts) @ '' retries''))
           (kr_operationName opts)), calls, waits))"
  by pat_completeness auto
termination
  by (relation "measure (\<lambda>(fn, rnd, opts, attempt, _). nat (kr_maxRetries opts + 1 - attempt))") auto

declare kw_loop.simps [simp del]

definition kw_withRetry ::
    "(nat \<Rightarrow> thrown + 'a) \<Rightarrow> (nat \<Rightarrow> rat) \<Rightarrow> kretry_opts \<Rightarrow> (thrown + 'a) \<times> nat \<times> int list" where
  "kw_withRetry fn rnd opts = kw_loop fn rnd opts 1 0 [] None"

section \<open>The API\<close>

record aretry_opts =
  ar_maxRetries :: int
  ar_baseDelay :: int
  ar_maxDelay :: int
  ar_label :: string

definition aretry_defaults ::
    "int option \<Rightarrow> int option \<Rightarrow> int option \<Rightarrow> string option \<Rightarrow> aretry_opts" where
  "aretry_defaults mr bd md l =
     \<lparr>ar_maxRetries = or_default mr 3, ar_baseDelay = or_default bd 1000,
      ar_maxDelay = or_default md 30000, ar_label = or_default l ''operation''\<rparr>"

definition isRetryableError :: "thrown \<Rightarrow> bool" where
  "isRetryableError t =
     (if isTransient t then True
      else case t of
             Prim _ \<Rightarrow> False
           | ErrObj e _ \<Rightarrow>
               (let msg = to_lower (e_msg e) in
                if inst_of t CTypeError
                then str_includes msg ''fetch'' \<or> str_includes msg ''network''
                     \<or> str_includes msg ''aborted''
                else
                  (let code = (case e_code e of None \<Rightarrow> [] | Some c \<Rightarrow> to_lower c) in
                     code \<in> {''econnreset'', ''etimedout'', ''econnrefused'', ''enotfound'', ''eai_again''}
                     \<or> str_includes msg ''timeout'' \<or> str_includes msg ''network''
                     \<or> str_includes msg ''socket hang up'' \<or> str_includes msg ''request failed''
                     \<or> str_includes msg ''circuit breaker is open'')))"

function aw_loop ::
    "(nat \<Rightarrow> thrown + 'a) \<Rightarrow> (nat \<Rightarrow> rat) \<Rightarrow> aretry_opts \<Rightarrow> int \<Rightarrow> nat \<Rightarrow> int list \<Rightarrow> thrown option
     \<Rightarrow> (thrown option + 'a) \<times> nat \<times> int list" where
  "aw_loop fn rnd opts attempt calls waits lastError =
     (if attempt \<le> ar_maxRetries opts then
        (case fn calls of
           Inr v \<Rightarrow> (Inr v, calls + 1, waits)
         | Inl e \<Rightarrow>
             (let lastError = as_error e in
              if \<not> isRetryableError lastError then (Inl (Some lastError), calls + 1, waits)
              else if attempt \<ge> ar_maxRetries opts
              then (Inl (Some (escalateTransientToPersistent lastError (ar_label opts) None)),
                    calls + 1, waits)
              else
                aw_loop fn rnd opts (attempt + 1) (calls + 1)
                  (waits @ [jittered (min (ar_baseDelay opts * 2 ^ nat attempt) (ar_maxDelay opts))
                                     (rnd calls)]) (Some lastError)))
      else (Inl lastError, calls, waits))"
  by pat_completeness auto
termination
  by (relation "measure (\<lambda>(fn, rnd, opts, attempt, _). nat (ar_maxRetries opts + 1 - attempt))") auto

declare aw_loop.simps [simp del]

definition aw_withRetry ::
    "(nat \<Rightarrow> thrown + 'a) \<Rightarrow> (nat \<Rightarrow> rat) \<Rightarrow> aretry_opts
     \<Rightarrow> (thrown option + 'a) \<times> nat \<times> int list" where
  "aw_withRetry fn rnd opts = aw_loop fn rnd opts 0 0 [] None"

section \<open>The SDK client\<close>

datatype sdk_error =
    WalwatchAuthError json "json option" "json option"
  | WalwatchValidationError json "json option" "json option"
  | WalwatchNetworkError json int "json option" "json option"
  | SdkPlainError json
  | SdkThrown thrown

record sdk_response =
  rs_status :: int
  rs_statusText :: string
  rs_body :: "json option"

definition is_json_object :: "json \<Rightarrow> bool" where
  "is_json_object j = (case j of JObj _ \<Rightarrow> True | JArr _ \<Rightarrow> True | _ \<Rightarrow> False)"

definition isRetryable :: "sdk_error \<Rightarrow> bool" where
  "isRetryable err =
     (case err of
        WalwatchNetworkError _ _ _ _ \<Rightarrow> True
      | WalwatchAuthError _ _ _ \<Rightarrow> False
      | WalwatchValidationError _ _ _ \<Rightarrow> False
      | _ \<Rightarrow> True)"

text \<open>
  The part of \<open>request\<close> after \<open>fetch\<close> has settled: \<open>Inl\<close> when \<open>fetch\<close> throws. The body
  is \<open>None\<close> when \<open>response.json()\<close> rejects; reading a property of a \<open>null\<close> body throws.
\<close>

definition sdk_error_body :: "sdk_response \<Rightarrow> json" where
  "sdk_error_body r =
     (case rs_body r of
        Some b \<Rightarrow> b
      | None \<Rightarrow> JObj [(''error'', JObj [(''message'', JStr (rs_statusText r))])])"

definition sdk_http_text :: "sdk_response \<Rightarrow> string" where
  "sdk_http_text r = ''HTTP '' @ show_int (rs_status r) @ '': '' @ rs_statusText r"

definition sdk_request :: "thrown + sdk_response \<Rightarrow> sdk_error + json" where
  "sdk_request outcome =
     (case outcome of
        Inl e \<Rightarrow> Inl (SdkThrown e)
      | Inr r \<Rightarrow>
          (if rs_status r < 200 \<or> rs_status r > 299 then
             (let body = sdk_error_body r in
              if body = JNull
              then Inl (SdkThrown (js_TypeError ''Cannot read properties of null''))
              else
                (let apiErr = (if json_truthy (jget body ''error'') then the (jget body ''error'') else body);
                     errMessage =
                       (case apiErr of
                          JStr m \<Rightarrow> JStr m
                        | _ \<Rightarrow> if json_truthy (jget apiErr ''message'') then the (jget apiErr ''message'')
                               else JStr (sdk_http_text r));
                     errCode = (if is_json_object apiErr then jget apiErr ''code'' else None);
                     errDetails = (if is_json_object apiErr then jget apiErr ''details'' else None)
                 in if rs_status r = 401 then Inl (WalwatchAuthError errMessage errCode errDetails)
                    else if rs_status r = 400 \<or> rs_status r = 422
                    then Inl (WalwatchValidationError errMessage errCode errDetails)
                    else if rs_status r \<ge> 500
                    then Inl (WalwatchNetworkError errMessage (rs_status r) errCode errDetails)
                    else Inl (SdkPlainError errMessage)))
           else
             (case rs_body r of
                Some b \<Rightarrow> Inr b
              | None \<Rightarrow> Inl (SdkThrown (js_Error ''invalid JSON'')))))"

text \<open>The delay is \<open>delay + delay * 0.5 * Math.random()\<close>, not rounded.\<close>

function sdk_loop ::
    "(nat \<Rightarrow> sdk_error + json) \<Rightarrow> (nat \<Rightarrow> rat) \<Rightarrow> int \<Rightarrow> int \<Rightarrow> nat \<Rightarrow> rat list
     \<Rightarrow> (sdk_error option + json) \<times> nat \<times> rat list" where
  "sdk_loop req rnd maxRetries attempt calls waits =
     (if attempt \<le> maxRetries then
        (case req calls of
           Inr v \<Rightarrow> (Inr v, calls + 1, waits)
         | Inl err \<Rightarrow>
             (if attempt < maxRetries \<and> isRetryable err then
                (let delay = min (1000 * 2 ^ nat attempt) 10000;
                     jitter = rat_of_int delay * (1 / 2) * rnd calls
                 in sdk_loop req rnd maxRetries (attempt + 1) (calls + 1)
                      (waits @ [rat_of_int delay + jitter]))
              else (Inl (Some err), calls + 1, waits)))
      else (Inl None, calls, waits))"
  by pat_completeness auto
termination
  by (relation "measure (\<lambda>(req, rnd, maxRetries, attempt, _). nat (maxRetries + 1 - attempt))") auto

declare sdk_loop.simps [simp del]

definition requestWithRetry ::
    "(nat \<Rightarrow> thrown + sdk_response) \<Rightarrow> (nat \<Rightarrow> rat) \<Rightarrow> int \<Rightarrow> (sdk_error option + json) \<times> nat \<times> rat list" where
  "requestWithRetry net rnd maxRetries = sdk_loop (\<lambda>k. sdk_request (net k)) rnd maxRetries 0 0 []"

section \<open>The contract of a retry loop\<close>

text \<open>
  Bounded retrying: the first outcome that is a success or an error that is not retried ends the
  loop; after \<open>limit\<close> retried failures the loop gives up with \<open>exhausted\<close> of the last one.
\<close>

definition retried :: "('e \<Rightarrow> bool) \<Rightarrow> 'e + 'a \<Rightarrow> bool" where
  "retried again r = (case r of Inl e \<Rightarrow> again e | Inr _ \<Rightarrow> False)"

lemma retried_simps [simp]: "retried again (Inl e) = again e" "retried again (Inr v) = False"
  by (simp_all add: retried_def)

locale bounded_retry =
  fixes run :: "(nat \<Rightarrow> 'e + 'a) \<Rightarrow> ('x + 'a) \<times> nat"
    and again :: "'e \<Rightarrow> bool" and limit :: nat and final :: "'e \<Rightarrow> 'x" and gave_up :: "'e \<Rightarrow> 'x"
  assumes stops: "k < limit \<Longrightarrow> \<forall>j < k. retried again (fn j) \<Longrightarrow> \<not> retried again (fn k)
      \<Longrightarrow> run fn = (case fn k of Inl e \<Rightarrow> Inl (final e) | Inr v \<Rightarrow> Inr v, k + 1)"
    and exhausts: "0 < limit \<Longrightarrow> \<forall>j < limit. retried again (fn j)
      \<Longrightarrow> run fn = (case fn (limit - 1) of Inl e \<Rightarrow> Inl (gave_up e) | Inr v \<Rightarrow> Inr v, limit)"
begin

lemma first_settled:
  "(\<forall>j < limit. retried again (fn j))
   \<or> (\<exists>k < limit. (\<forall>j < k. retried again (fn j)) \<and> \<not> retried again (fn k))"
proof (cases "\<forall>j < limit. retried again (fn j)")
  case False
  then have "\<exists>j. j < limit \<and> \<not> retried again (fn j)" by blast
  then show ?thesis
    unfolding exists_least_iff [of "\<lambda>j. j < limit \<and> \<not> retried again (fn j)"]
    using less_trans by blast
qed simp

lemma calls_bounded: "0 < limit \<Longrightarrow> 1 \<le> snd (run fn) \<and> snd (run fn) \<le> limit"
  using first_settled [of fn] stops [of _ fn] exhausts [of fn] by fastforce

lemma success_iff:
  assumes "0 < limit"
  shows "is_ok (fst (run fn)) \<longleftrightarrow>
    (\<exists>k < limit. is_ok (fn k) \<and> (\<forall>j < k. retried again (fn j)))"
proof -
  from first_settled [of fn] show ?thesis
  proof
    assume all: "\<forall>j < limit. retried again (fn j)"
    then obtain e where "fn (limit - 1) = Inl e"
      using assms by (cases "fn (limit - 1)") (auto dest: spec [of _ "limit - 1"])
    then have "\<not> is_ok (fst (run fn))" using exhausts [OF assms all] by simp
    moreover have "\<not> is_ok (fn k)" if "k < limit" for k using all that by (cases "fn k") auto
    ultimately show ?thesis by blast
  next
    assume "\<exists>k < limit. (\<forall>j < k. retried again (fn j)) \<and> \<not> retried again (fn k)"
    then obtain k where k: "k < limit" "\<forall>j < k. retried again (fn j)" "\<not> retried again (fn k)"
      by blast
    have eq: "is_ok (fst (run fn)) = is_ok (fn k)"
      using stops [OF k] by (cases "fn k") auto
    have "k' = k" if "k' < limit" "is_ok (fn k')" "\<forall>j < k'. retried again (fn j)" for k'
    proof -
      have "\<not> retried again (fn k')" using that by (cases "fn k'") auto
      then show ?thesis using k(2,3) that(3) by (meson linorder_neqE_nat)
    qed
    with eq k show ?thesis by blast
  qed
qed

end

subsection \<open>The three loops keep it\<close>

lemma kw_loop_stops:
  "\<lbrakk>attempt + int (k - calls) \<le> kr_maxRetries o'; calls \<le> k;
    \<forall>j. calls \<le> j \<and> j < k \<longrightarrow> retried isNetworkError (fn j); \<not> retried isNetworkError (fn k)\<rbrakk>
   \<Longrightarrow> \<exists>w. kw_loop fn rnd o' attempt calls waits le = (fn k, k + 1, w)"
proof (induction fn rnd o' attempt calls waits le rule: kw_loop.induct)
  case (1 fn rnd o' attempt calls waits le)
  show ?case
  proof (cases "fn calls")
    case (Inr v)
    with 1 have "k = calls" by (metis le_neq_implies_less order_refl retried_simps(2))
    with 1 Inr show ?thesis by (subst kw_loop.simps) simp
  next
    case (Inl e)
    show ?thesis
    proof (cases "isNetworkError e")
      case False
      with 1 Inl have "k = calls" by (metis le_neq_implies_less order_refl retried_simps(1))
      with 1 Inl False show ?thesis by (subst kw_loop.simps) simp
    next
      case True
      with 1 Inl have "calls < k" by (metis le_neq_implies_less retried_simps(1))
      with 1 Inl True show ?thesis by (subst kw_loop.simps) (simp add: Let_def)
    qed
  qed
qed

lemma kw_loop_exhausts:
  "\<lbrakk>\<forall>j. calls \<le> j \<and> j < calls + n \<longrightarrow> retried isNetworkError (fn j);
    n = nat (kr_maxRetries o' + 1 - attempt)\<rbrakk>
   \<Longrightarrow> \<exists>w. kw_loop fn rnd o' attempt calls waits le =
       (Inl (kescalate
          (if n = 0
           then (case le of Some e \<Rightarrow> e
                 | None \<Rightarrow> js_Error (kr_operationName o' @ '' failed after ''
                             @ show_int (kr_maxRetries o') @ '' retries''))
           else projl (fn (calls + n - 1)))
          (kr_operationName o')), calls + n, w)"
proof (induction fn rnd o' attempt calls waits le arbitrary: n rule: kw_loop.induct)
  case (1 fn rnd o' attempt calls waits le)
  show ?case
  proof (cases "n = 0")
    case True
    with 1 show ?thesis by (subst kw_loop.simps) simp
  next
    case False
    then obtain m where n: "n = Suc m" by (cases n) auto
    with 1 have "retried isNetworkError (fn calls)" by simp
    then obtain e where e: "fn calls = Inl e" "isNetworkError e" by (cases "fn calls") auto
    have m: "m = nat (kr_maxRetries o' + 1 - (attempt + 1))" "attempt \<le> kr_maxRetries o'"
      using 1 n by linarith+
    have "\<forall>j. calls + 1 \<le> j \<and> j < calls + 1 + m \<longrightarrow> retried isNetworkError (fn j)"
      using 1 n by simp
    from 1(1) [OF m(2) e(1) _ refl this m(1)] e m n
    show ?thesis by (subst kw_loop.simps) (auto simp: Let_def)
  qed
qed

lemma aw_loop_stops:
  "\<lbrakk>attempt + int (k - calls) \<le> ar_maxRetries o'; calls \<le> k;
    \<forall>j. calls \<le> j \<and> j < k \<longrightarrow> retried (\<lambda>e. isRetryableError (as_error e)) (fn j);
    \<not> retried (\<lambda>e. isRetryableError (as_error e)) (fn k)\<rbrakk>
   \<Longrightarrow> \<exists>w. aw_loop fn rnd o' attempt calls waits le =
        (case fn k of Inl e \<Rightarrow> Inl (Some (as_error e)) | Inr v \<Rightarrow> Inr v, k + 1, w)"
proof (induction fn rnd o' attempt calls waits le rule: aw_loop.induct)
  case (1 fn rnd o' attempt calls waits le)
  show ?case
  proof (cases "retried (\<lambda>e. isRetryableError (as_error e)) (fn calls)")
    case False
    with 1 have "k = calls" by (metis le_neq_implies_less order_refl)
    with 1 False show ?thesis by (subst aw_loop.simps) (auto simp: Let_def split: sum.split)
  next
    case True
    with 1 have "calls < k" by (metis le_neq_implies_less)
    with 1 True show ?thesis
      by (subst aw_loop.simps) (cases "fn calls"; auto simp: Let_def)
  qed
qed

lemma aw_loop_exhausts:
  "\<lbrakk>\<forall>j. calls \<le> j \<and> j < calls + n \<longrightarrow> retried (\<lambda>e. isRetryableError (as_error e)) (fn j);
    n = nat (ar_maxRetries o' + 1 - attempt); 0 < n\<rbrakk>
   \<Longrightarrow> \<exists>w. aw_loop fn rnd o' attempt calls waits le =
       (Inl (Some (escalateTransientToPersistent (as_error (projl (fn (calls + n - 1))))
          (ar_label o') None)), calls + n, w)"
proof (induction fn rnd o' attempt calls waits le arbitrary: n rule: aw_loop.induct)
  case (1 fn rnd o' attempt calls waits le)
  from "1.prems"(3) obtain m where n: "n = Suc m" using gr0_implies_Suc by blast
  with 1 have "retried (\<lambda>e. isRetryableError (as_error e)) (fn calls)" by simp
  then obtain e where e: "fn calls = Inl e" "isRetryableError (as_error e)" by (cases "fn calls") auto
  have m: "m = nat (ar_maxRetries o' + 1 - (attempt + 1))" "attempt \<le> ar_maxRetries o'"
    using 1 n by linarith+
  show ?case
  proof (cases "m = 0")
    case True
    with m e n show ?thesis by (subst aw_loop.simps) (simp add: Let_def)
  next
    case False
    then have last: "\<not> attempt \<ge> ar_maxRetries o'" using m by linarith
    have later: "\<forall>j. calls + 1 \<le> j \<and> j < calls + 1 + m
        \<longrightarrow> retried (\<lambda>e. isRetryableError (as_error e)) (fn j)"
      using 1 n by simp
    show ?thesis
      using 1(1) [OF m(2) e(1) refl _ last later m(1)] e m n False last
      by (subst aw_loop.simps) (auto simp: Let_def)
  qed
qed

lemma sdk_loop_stops:
  "\<lbrakk>attempt + int (k - calls) \<le> mr; calls \<le> k;
    \<forall>j. calls \<le> j \<and> j < k \<longrightarrow> retried isRetryable (req j); \<not> retried isRetryable (req k)\<rbrakk>
   \<Longrightarrow> \<exists>w. sdk_loop req rnd mr attempt calls waits =
        (case req k of Inl e \<Rightarrow> Inl (Some e) | Inr v \<Rightarrow> Inr v, k + 1, w)"
proof (induction req rnd mr attempt calls waits rule: sdk_loop.induct)
  case (1 req rnd mr attempt calls waits)
  show ?case
  proof (cases "retried isRetryable (req calls)")
    case False
    with 1 have "k = calls" by (metis le_neq_implies_less order_refl)
    with 1 False show ?thesis by (subst sdk_loop.simps) (auto simp: Let_def split: sum.split)
  next
    case True
    with 1 have "calls < k" by (metis le_neq_implies_less)
    with 1 True show ?thesis
      by (subst sdk_loop.simps) (cases "req calls"; auto simp: Let_def)
  qed
qed

lemma sdk_loop_exhausts:
  "\<lbrakk>\<forall>j. calls \<le> j \<and> j < calls + n \<longrightarrow> retried isRetryable (req j);
    n = nat (mr + 1 - attempt); 0 < n\<rbrakk>
   \<Longrightarrow> \<exists>w. sdk_loop req rnd mr attempt calls waits =
       (Inl (Some (projl (req (calls + n - 1)))), calls + n, w)"
proof (induction req rnd mr attempt calls waits arbitrary: n rule: sdk_loop.induct)
  case (1 req rnd mr attempt calls waits)
  from "1.prems"(3) obtain m where n: "n = Suc m" using gr0_implies_Suc by blast
  with 1 have "retried isRetryable (req calls)" by simp
  then obtain e where e: "req calls = Inl e" "isRetryable e" by (cases "req calls") auto
  have m: "m = nat (mr + 1 - (attempt + 1))" "attempt \<le> mr"
    using 1 n by linarith+
  show ?case
  proof (cases "m = 0")
    case True
    with m e n show ?thesis by (subst sdk_loop.simps) (simp add: Let_def)
  next
    case False
    then have more: "attempt < mr \<and> isRetryable e" using m e by linarith
    have later: "\<forall>j. calls + 1 \<le> j \<and> j < calls + 1 + m \<longrightarrow> retried isRetryable (req j)"
      using 1 n by simp
    show ?thesis
      using 1(1) [OF m(2) e(1) more refl refl later m(1)] e m n False more
      by (subst sdk_loop.simps) (auto simp: Let_def)
  qed
qed

interpretation kw: bounded_retry
    "\<lambda>fn. (fst (kw_withRetry fn rnd opts), fst (snd (kw_withRetry fn rnd opts)))"
    isNetworkError "nat (kr_maxRetries opts)" "\<lambda>e. e" "\<lambda>e. kescalate e (kr_operationName opts)"
  for rnd and opts :: kretry_opts
proof
  fix k and fn :: "nat \<Rightarrow> thrown + 'a"
  assume k: "k < nat (kr_maxRetries opts)" "\<forall>j < k. retried isNetworkError (fn j)"
    "\<not> retried isNetworkError (fn k)"
  moreover have "1 + int k \<le> kr_maxRetries opts" using k by linarith
  ultimately show "(fst (kw_withRetry fn rnd opts), fst (snd (kw_withRetry fn rnd opts))) =
      (case fn k of Inl e \<Rightarrow> Inl e | Inr v \<Rightarrow> Inr v, k + 1)"
    using kw_loop_stops [of 1 k 0 opts fn rnd "[]" None]
    by (auto simp: kw_withRetry_def split: sum.split)
next
  fix fn :: "nat \<Rightarrow> thrown + 'a"
  assume n: "0 < nat (kr_maxRetries opts)"
    and all: "\<forall>j < nat (kr_maxRetries opts). retried isNetworkError (fn j)"
  then obtain e where "fn (nat (kr_maxRetries opts) - 1) = Inl e"
    by (cases "fn (nat (kr_maxRetries opts) - 1)") (auto dest: spec [of _ "nat (kr_maxRetries opts) - 1"])
  moreover have "\<forall>j. 0 \<le> j \<and> j < 0 + nat (kr_maxRetries opts) \<longrightarrow> retried isNetworkError (fn j)"
    using all by simp
  from kw_loop_exhausts [OF this, of opts 1 rnd "[]" None] obtain w where
    "kw_withRetry fn rnd opts =
       (Inl (kescalate (projl (fn (nat (kr_maxRetries opts) - 1))) (kr_operationName opts)),
        nat (kr_maxRetries opts), w)"
    unfolding kw_withRetry_def using n by (simp, blast)
  ultimately show "(fst (kw_withRetry fn rnd opts), fst (snd (kw_withRetry fn rnd opts))) =
      (case fn (nat (kr_maxRetries opts) - 1) of
         Inl e \<Rightarrow> Inl (kescalate e (kr_operationName opts)) | Inr v \<Rightarrow> Inr v,
       nat (kr_maxRetries opts))"
    by simp
qed

interpretation aw: bounded_retry
    "\<lambda>fn. (fst (aw_withRetry fn rnd opts), fst (snd (aw_withRetry fn rnd opts)))"
    "\<lambda>e. isRetryableError (as_error e)" "nat (ar_maxRetries opts + 1)" "\<lambda>e. Some (as_error e)"
    "\<lambda>e. Some (escalateTransientToPersistent (as_error e) (ar_label opts) None)"
  for rnd and opts :: aretry_opts
proof
  fix k and fn :: "nat \<Rightarrow> thrown + 'a"
  assume k: "k < nat (ar_maxRetries opts + 1)"
    "\<forall>j < k. retried (\<lambda>e. isRetryableError (as_error e)) (fn j)"
    "\<not> retried (\<lambda>e. isRetryableError (as_error e)) (fn k)"
  moreover have "int k \<le> ar_maxRetries opts" using k by linarith
  ultimately show "(fst (aw_withRetry fn rnd opts), fst (snd (aw_withRetry fn rnd opts))) =
      (case fn k of Inl e \<Rightarrow> Inl (Some (as_error e)) | Inr v \<Rightarrow> Inr v, k + 1)"
    using aw_loop_stops [of 0 k 0 opts fn rnd "[]" None]
    by (auto simp: aw_withRetry_def split: sum.split)
next
  fix fn :: "nat \<Rightarrow> thrown + 'a"
  let ?n = "nat (ar_maxRetries opts + 1)"
  assume n: "0 < ?n" and all: "\<forall>j < ?n. retried (\<lambda>e. isRetryableError (as_error e)) (fn j)"
  then obtain e where "fn (?n - 1) = Inl e"
    by (cases "fn (?n - 1)") (auto dest: spec [of _ "?n - 1"])
  moreover have "\<forall>j. 0 \<le> j \<and> j < 0 + ?n \<longrightarrow> retried (\<lambda>e. isRetryableError (as_error e)) (fn j)"
    using all by simp
  from aw_loop_exhausts [OF this, of opts 0 rnd "[]" None] obtain w where
    "aw_withRetry fn rnd opts =
       (Inl (Some (escalateTransientToPersistent (as_error (projl (fn (?n - 1)))) (ar_label opts) None)),
        ?n, w)"
    unfolding aw_withRetry_def using n by (simp, blast)
  ultimately show "(fst (aw_withRetry fn rnd opts), fst (snd (aw_withRetry fn rnd opts))) =
      (case fn (?n - 1) of
         Inl e \<Rightarrow> Inl (Some (escalateTransientToPersistent (as_error e) (ar_label opts) None))
       | Inr v \<Rightarrow> Inr v, ?n)"
    by simp
qed

interpretation sdk: bounded_retry
    "\<lambda>req. (fst (sdk_loop req rnd mr 0 0 []), fst (snd (sdk_loop req rnd mr 0 0 [])))"
    isRetryable "nat (mr + 1)" Some Some
  for rnd and mr
proof
  fix k and req :: "nat \<Rightarrow> sdk_error + json"
  assume k: "k < nat (mr + 1)" "\<forall>j < k. retried isRetryable (req j)" "\<not> retried isRetryable (req k)"
  moreover have "int k \<le> mr" using k by linarith
  ultimately show "(fst (sdk_loop req rnd mr 0 0 []), fst (snd (sdk_loop req rnd mr 0 0 []))) =
      (case req k of Inl e \<Rightarrow> Inl (Some e) | Inr v \<Rightarrow> Inr v, k + 1)"
    using sdk_loop_stops [of 0 k 0 mr req rnd "[]"] by (auto split: sum.split)
next
  fix req :: "nat \<Rightarrow> sdk_error + json"
  let ?n = "nat (mr + 1)"
  assume n: "0 < ?n" and all: "\<forall>j < ?n. retried isRetryable (req j)"
  then obtain e where "req (?n - 1) = Inl e"
    by (cases "req (?n - 1)") (auto dest: spec [of _ "?n - 1"])
  moreover have "\<forall>j. 0 \<le> j \<and> j < 0 + ?n \<longrightarrow> retried isRetryable (req j)"
    using all by simp
  from sdk_loop_exhausts [OF this, of mr 0 rnd "[]"] obtain w where
    "sdk_loop req rnd mr 0 0 [] = (Inl (Some (projl (req (?n - 1)))), ?n, w)"
    using n by (simp, blast)
  ultimately show "(fst (sdk_loop req rnd mr 0 0 []), fst (snd (sdk_loop req rnd mr 0 0 []))) =
      (case req (?n - 1) of Inl e \<Rightarrow> Inl (Some e) | Inr v \<Rightarrow> Inr v, ?n)"
    by simp
qed

section \<open>Delays\<close>

lemma jittered_bounds:
  assumes "0 \<le> r" "r < 1" "0 \<le> d"
  shows "0 \<le> jittered d r \<and> jittered d r \<le> d"
proof -
  let ?x = "rat_of_int d * (1 / 2 + r * (1 / 2))"
  have lo: "0 \<le> ?x" using assms by simp
  have "?x \<le> rat_of_int d * 1"
    using assms by (intro mult_left_mono) auto
  then have "?x + 1 / 2 < rat_of_int d + 1" by simp
  then have "jittered d r < d + 1"
    by (simp only: jittered_def floor_less_iff of_int_add of_int_1)
  moreover have "0 \<le> jittered d r" unfolding jittered_def using lo by simp
  ultimately show ?thesis by simp
qed

lemma kw_loop_waits:
  "\<lbrakk>\<forall>k. 0 \<le> rnd k \<and> rnd k < 1; 0 \<le> kr_baseDelay o'; 0 \<le> kr_maxDelay o';
    \<forall>w \<in> set waits. 0 \<le> w \<and> w \<le> kr_maxDelay o'\<rbrakk>
   \<Longrightarrow> \<forall>w \<in> set (snd (snd (kw_loop fn rnd o' attempt calls waits le))). 0 \<le> w \<and> w \<le> kr_maxDelay o'"
proof (induction fn rnd o' attempt calls waits le rule: kw_loop.induct)
  case (1 fn rnd o' attempt calls waits le)
  have j: "0 \<le> jittered (min (kr_baseDelay o' * 2 ^ n) (kr_maxDelay o')) (rnd calls)
      \<and> jittered (min (kr_baseDelay o' * 2 ^ n) (kr_maxDelay o')) (rnd calls) \<le> kr_maxDelay o'" for n
    using jittered_bounds [of "rnd calls" "min (kr_baseDelay o' * 2 ^ n) (kr_maxDelay o')"] 1(2-4)
    by auto
  show ?case
  proof (cases "attempt \<le> kr_maxRetries o' \<and> retried isNetworkError (fn calls)")
    case False
    then have "snd (snd (kw_loop fn rnd o' attempt calls waits le)) = waits"
      by (subst kw_loop.simps) (auto split: sum.split)
    with 1(5) show ?thesis by simp
  next
    case True
    then obtain e where e: "fn calls = Inl e" "isNetworkError e" by (cases "fn calls") auto
    define ws where "ws = (if attempt < kr_maxRetries o'
      then waits @ [jittered (min (kr_baseDelay o' * 2 ^ nat (attempt - 1)) (kr_maxDelay o')) (rnd calls)]
      else waits)"
    have ws: "\<forall>w \<in> set ws. 0 \<le> w \<and> w \<le> kr_maxDelay o'"
      using 1(5) j [of "nat (attempt - 1)"] by (auto simp: ws_def)
    have "kw_loop fn rnd o' attempt calls waits le
        = kw_loop fn rnd o' (attempt + 1) (calls + 1) ws (Some e)"
      using True e by (subst kw_loop.simps) (simp add: Let_def ws_def)
    with 1(1) [OF _ e(1) _ ws_def 1(2-4) ws] True e show ?thesis by simp
  qed
qed

section \<open>Escalated errors\<close>

lemma to_lower_append [str_simps]: "to_lower (u @ v) = to_lower u @ to_lower v"
  by (simp add: to_lower_def)

lemma network_message_infix: "network_message m \<Longrightarrow> network_message (u @ m @ v)"
  unfolding network_message_def Let_def to_lower_append by (metis str_includes_append)

section \<open>Properties\<close>

text \<open>
  C14: each retry loop makes at least one call and at most its limit (the keeper counts calls in
  \<open>maxRetries\<close>, the API and the SDK count repetitions after the first call), and succeeds
  exactly when some call within the limit succeeds after only retryable failures.
\<close>

theorem retry_loops_bounded:
  fixes fn :: "nat \<Rightarrow> thrown + 'a" and net :: "nat \<Rightarrow> thrown + sdk_response"
  assumes "0 < kr_maxRetries ko" "0 \<le> ar_maxRetries ao" "0 \<le> mr"
  shows "(let (r, n, w) = kw_withRetry fn rnd ko in
            1 \<le> n \<and> n \<le> nat (kr_maxRetries ko)
            \<and> is_ok r = (\<exists>k < nat (kr_maxRetries ko). is_ok (fn k)
                 \<and> (\<forall>j < k. retried isNetworkError (fn j))))
       \<and> (let (r, n, w) = aw_withRetry fn rnd ao in
            1 \<le> n \<and> n \<le> nat (ar_maxRetries ao + 1)
            \<and> is_ok r = (\<exists>k < nat (ar_maxRetries ao + 1). is_ok (fn k)
                 \<and> (\<forall>j < k. retried (\<lambda>e. isRetryableError (as_error e)) (fn j))))
       \<and> (let (r, n, w) = requestWithRetry net rnd mr in
            1 \<le> n \<and> n \<le> nat (mr + 1)
            \<and> is_ok r = (\<exists>k < nat (mr + 1). is_ok (sdk_request (net k))
                 \<and> (\<forall>j < k. retried isRetryable (sdk_request (net j)))))"
proof -
  have k: "0 < nat (kr_maxRetries ko)" "0 < nat (ar_maxRetries ao + 1)" "0 < nat (mr + 1)"
    using assms by auto
  show ?thesis
    using kw.calls_bounded [OF k(1), where fn = fn and rnd = rnd]
      kw.success_iff [OF k(1), where fn = fn and rnd = rnd]
      aw.calls_bounded [OF k(2), where fn = fn and rnd = rnd]
      aw.success_iff [OF k(2), where fn = fn and rnd = rnd]
      sdk.calls_bounded [OF k(3), where fn = "\<lambda>k. sdk_request (net k)" and rnd = rnd]
      sdk.success_iff [OF k(3), where fn = "\<lambda>k. sdk_request (net k)" and rnd = rnd]
    by (simp add: requestWithRetry_def split_beta Let_def)
qed

theorem retry_loops_bounded_witness:
  "fst (snd (kw_withRetry (\<lambda>k. if k = 0 then Inl (js_Error ''timeout'') else Inr ())
      (\<lambda>_. 0) (kretry_defaults None None None None))) \<le> 3
   \<and> fst (snd (aw_withRetry (\<lambda>k. Inr ()) (\<lambda>_. 0) (aretry_defaults None None None None))) \<le> 4"
  using retry_loops_bounded [of "kretry_defaults None None None None"
      "aretry_defaults None None None None" 2
      "\<lambda>k. if k = 0 then Inl (js_Error ''timeout'') else Inr ()" "\<lambda>_. 0" "\<lambda>_. Inl (Prim [])"]
    retry_loops_bounded [of "kretry_defaults None None None None"
      "aretry_defaults None None None None" 2 "\<lambda>k. Inr ()" "\<lambda>_. 0" "\<lambda>_. Inl (Prim [])"]
  by (simp add: kretry_defaults_def aretry_defaults_def split_beta Let_def)

text \<open>
  With random numbers in the unit interval, every delay the keeper's loop waits lies between
  zero and \<open>maxDelay\<close>, whatever the number of attempts.
\<close>

theorem keeper_delays_bounded:
  assumes "\<forall>k. 0 \<le> rnd k \<and> rnd k < 1" "0 \<le> kr_baseDelay opts" "0 \<le> kr_maxDelay opts"
    and "w \<in> set (snd (snd (kw_withRetry fn rnd opts)))"
  shows "0 \<le> w \<and> w \<le> kr_maxDelay opts"
  using kw_loop_waits [OF assms(1-3), of "[]" fn 1 0 None] assms(4) by (simp add: kw_withRetry_def)

theorem keeper_delays_bounded_witness:
  "\<exists>w. snd (snd (kw_withRetry (\<lambda>_. Inl (js_TypeError ''fetch failed'') :: thrown + unit) (\<lambda>_. 1 / 2)
      (kretry_defaults (Some 2) (Some 40000) None None))) = [w] \<and> 0 \<le> w \<and> w \<le> 30000"
proof -
  let ?fn = "\<lambda>_ :: nat. Inl (js_TypeError ''fetch failed'') :: thrown + unit"
  let ?o = "kretry_defaults (Some 2) (Some 40000) None None"
  have "isNetworkError (js_TypeError ''fetch failed'')"
    by (simp add: isNetworkError_def js_TypeError_def plain_error_def inst_of_def proto_chain_simps)
  then have eq: "snd (snd (kw_withRetry ?fn (\<lambda>_. 1 / 2) ?o)) = [jittered 30000 (1 / 2)]"
    by (simp add: kw_withRetry_def kw_loop.simps kretry_defaults_def)
  show ?thesis
    using keeper_delays_bounded [of "\<lambda>_. 1 / 2" ?o "jittered 30000 (1 / 2)" ?fn] eq
    by (simp add: kretry_defaults_def)
qed

text \<open>
  Job errors are retryable by default: an error is final only when it is not a network error
  and its message matches a non-retryable pattern; the list of retryable patterns decides nothing.
\<close>

theorem job_error_classification:
  "isRetryableJobError t \<longleftrightarrow>
     isNetworkError t \<or> (\<exists>s. t = Prim s) \<or>
     (\<exists>e c. t = ErrObj e c \<and> \<not> list_ex (\<lambda>p. regex_test p (e_msg e)) non_retryable_patterns)"
  by (cases t) (auto simp: isRetryableJobError_def)

text \<open>
  An error that was retried because of its message stays a network error after its retries
  are exhausted: the escalated error carries the persistent class but keeps the message, so an
  outer loop retries it again.
\<close>

theorem escalated_message_still_retried:
  assumes "network_message (e_msg e)"
  shows "\<exists>f. kescalate (ErrObj e c) op = ErrObj f (Some (ErrObj e c))
      \<and> e_class f = Some FPersistent
      \<and> isNetworkError (ErrObj f (Some (ErrObj e c)))
      \<and> isRetryableJobError (ErrObj f (Some (ErrObj e c)))"
proof -
  let ?m = "op @ '': '' @ e_msg e @ '' (retries exhausted)''"
  have "network_message ((op @ '': '') @ e_msg e @ '' (retries exhausted)'')"
    using assms by (rule network_message_infix)
  then have "isNetworkError (ErrObj ((plain_error ?m)\<lparr>e_class := Some FPersistent\<rparr>) (Some (ErrObj e c)))"
    by (simp add: isNetworkError_def plain_error_def)
  then show ?thesis
    by (simp add: kescalate_def inst_of_Error_iff isRetryableJobError_def plain_error_def)
qed

theorem escalated_message_still_retried_witness:
  "isNetworkError (kescalate (js_Error ''Request timeout'') ''vault.scan'')"
proof -
  have "network_message (e_msg (plain_error ''Request timeout''))"
    by (simp add: network_message_def plain_error_def to_lower_def lower_char_def)
  from escalated_message_still_retried [OF this, of None "''vault.scan''"]
  show ?thesis by (auto simp: js_Error_def)
qed

text \<open>
  The SDK retries client errors other than 400, 401 and 422: a request that is answered with
  such a status every time is sent \<open>maxRetries + 1\<close> times.
\<close>

theorem sdk_retries_other_client_errors:
  assumes "0 \<le> mr"
    and "\<forall>k. \<exists>r. net k = Inr r \<and> 300 \<le> rs_status r \<and> rs_status r < 500
           \<and> rs_status r \<notin> {400, 401, 422}"
  shows "int (fst (snd (requestWithRetry net rnd mr))) = mr + 1
    \<and> \<not> is_ok (fst (requestWithRetry net rnd mr))"
proof -
  have "retried isRetryable (sdk_request (net k))" for k
    using assms(2) [rule_format, of k] by (auto simp: sdk_request_def isRetryable_def Let_def)
  then have all: "\<forall>j < nat (mr + 1). retried isRetryable (sdk_request (net j))" by blast
  have n: "0 < nat (mr + 1)" using assms(1) by simp
  from all n obtain e where "sdk_request (net (nat (mr + 1) - 1)) = Inl e"
    by (cases "sdk_request (net (nat (mr + 1) - 1))") (auto dest: spec [of _ "nat (mr + 1) - 1"])
  with sdk.exhausts [OF n all, of rnd] assms(1) show ?thesis
    by (simp add: requestWithRetry_def)
qed

theorem sdk_retries_other_client_errors_witness:
  "int (fst (snd (requestWithRetry
      (\<lambda>_. Inr \<lparr>rs_status = 404, rs_statusText = ''Not Found'', rs_body = None\<rparr>) (\<lambda>_. 0) 2))) = 3"
  using sdk_retries_other_client_errors
      [of 2 "\<lambda>_. Inr \<lparr>rs_status = 404, rs_statusText = ''Not Found'', rs_body = None\<rparr>" "\<lambda>_. 0"]
  by simp

end
