(* ===== verification/Db.thy ===== *)
theory Db
  imports Prelude Complex_Main
begin

text \<open>
  The tables of \<open>api/src/db/schema.ts\<close> that the modelled operations read or write, one record per
  table with its columns in order. A nullable column is an option, a timestamp the number of
  milliseconds since the epoch, a numeric column a rational. A table is the list of its rows in
  insertion order, so that \<open>LIMIT 1\<close> without an order is the first row that matches.
\<close>

section \<open>Rows\<close>

record blob_row =
  bl_id :: string
  bl_orgId :: string
  bl_projectId :: string
  bl_walletId :: "string option"
  bl_blobId :: string
  bl_name :: "string option"
  bl_sizeBytes :: "int option"
  bl_contentType :: "string option"
  bl_status :: string
  bl_uploadDate :: "int option"
  bl_expiryEpoch :: "int option"
  bl_metadata :: "json option"
  bl_tags :: "string list option"
  bl_suiVaultId :: "string option"
  bl_ownerAddress :: "string option"
  bl_discoveredAt :: int
  bl_verifiedAt :: "int option"
  bl_trackedAt :: "int option"
  bl_protectedAt :: "int option"
  bl_expiringAt :: "int option"
  bl_renewingAt :: "int option"
  bl_renewedAt :: "int option"
  bl_expiredAt :: "int option"
  bl_archivedAt :: "int option"
  bl_deletedAt :: "int option"
  bl_createdAt :: int
  bl_updatedAt :: int

record audit_row =
  au_id :: string
  au_orgId :: string
  au_userId :: "string option"
  au_action :: string
  au_resourceType :: string
  au_resourceId :: "string option"
  au_details :: "json option"
  au_ipAddress :: "string option"
  au_traceId :: "string option"
  au_createdAt :: int

record feed_row =
  fd_id :: string
  fd_orgId :: string
  fd_actorType :: string
  fd_actorId :: "string option"
  fd_action :: string
  fd_resourceType :: string
  fd_resourceId :: "string option"
  fd_summary :: string
  fd_details :: "json option"
  fd_traceId :: "string option"
  fd_createdAt :: int

record policy_row =
  po_id :: string
  po_orgId :: string
  po_name :: string
  po_description :: "string option"
  po_rules :: json
  po_renewThreshold :: int
  po_renewExtension :: int
  po_maxTotalEpochs :: "int option"
  po_autoRenewalEnabled :: bool
  po_active :: bool
  po_scope :: "string option"
  po_scopeTargetId :: "string option"
  po_budgetId :: "string option"
  po_spendingLimitId :: "string option"
  po_publisherPriorityOverride :: "int option"
  po_maxRetries :: "int option"
  po_status :: string
  po_deletedAt :: "int option"
  po_createdAt :: int
  po_updatedAt :: int

record wallet_row =
  wa_id :: string
  wa_orgId :: string
  wa_projectId :: "string option"
  wa_address :: string
  wa_label :: "string option"
  wa_type :: string
  wa_isDefault :: bool
  wa_spendingLimit :: "int option"
  wa_balance :: int
  wa_status :: string
  wa_delegationRevokedAt :: "int option"
  wa_deletedAt :: "int option"
  wa_lastCheckedAt :: "int option"
  wa_createdAt :: int

record delegation_row =
  de_id :: string
  de_orgId :: string
  de_walletId :: string
  de_delegateAddress :: string
  de_scope :: string
  de_scopeTargets :: "json option"
  de_spendCeiling :: string
  de_timeBoundStart :: int
  de_timeBoundEnd :: "int option"
  de_isRevoked :: "bool option"
  de_createdBy :: string
  de_revokedAt :: "int option"
  de_createdAt :: int
  de_updatedAt :: int

record assignment_row =
  pa_policyId :: string
  pa_blobRegistrationId :: string

record channel_row =
  nc_id :: string
  nc_orgId :: string
  nc_type :: string
  nc_name :: string
  nc_config :: json
  nc_enabled :: bool
  nc_status :: string
  nc_keyVersion :: int
  nc_deletedAt :: "int option"
  nc_createdAt :: int

record rule_row =
  ru_id :: string
  ru_orgId :: string
  ru_name :: string
  ru_trigger :: string
  ru_conditions :: "json option"
  ru_channelIds :: "string list"
  ru_projectIds :: "string list option"
  ru_enabled :: bool
  ru_status :: string
  ru_dedupWindowSeconds :: "int option"
  ru_escalationChannels :: "json option"
  ru_pausedAt :: "int option"
  ru_deletedAt :: "int option"
  ru_createdAt :: int

record publisher_row =
  pb_id :: string
  pb_orgId :: string
  pb_name :: string
  pb_description :: "string option"
  pb_endpoint :: "string option"
  pb_walletAddress :: "string option"
  pb_suiVaultId :: "string option"
  pb_status :: string
  pb_lastHeartbeatAt :: "int option"
  pb_deletedAt :: "int option"
  pb_createdAt :: int
  pb_updatedAt :: int

record project_publisher_row =
  pp_id :: string
  pp_projectId :: string
  pp_publisherId :: string
  pp_priority :: int
  pp_status :: string
  pp_createdAt :: int
  pp_updatedAt :: int

record budget_row =
  bu_id :: string
  bu_orgId :: string
  bu_projectId :: "string option"
  bu_name :: string
  bu_amount :: int
  bu_period :: string
  bu_spent :: int
  bu_currency :: string
  bu_status :: string
  bu_alertThreshold :: "int option"
  bu_windowStart :: int
  bu_windowEnd :: "int option"
  bu_deletedAt :: "int option"
  bu_archivedAt :: "int option"
  bu_createdAt :: int
  bu_updatedAt :: int

record limit_row =
  sl_id :: string
  sl_orgId :: string
  sl_scope :: string
  sl_scopeTargetId :: string
  sl_name :: "string option"
  sl_amount :: int
  sl_period :: string
  sl_spent :: int
  sl_status :: string
  sl_pausedAt :: "int option"
  sl_deletedAt :: "int option"
  sl_createdAt :: int
  sl_updatedAt :: int

record job_row =
  rj_id :: string
  rj_orgId :: string
  rj_blobRegistrationId :: string
  rj_policyId :: "string option"
  rj_status :: string
  rj_attempt :: int
  rj_maxAttempts :: int
  rj_lastError :: "string option"
  rj_estimatedCost :: "int option"
  rj_actualCost :: "rat option"
  rj_txDigest :: "string option"
  rj_blockedByLimitId :: "string option"
  rj_supersedes :: "string option"
  rj_priority :: "int option"
  rj_spendingLimitOverridden :: "bool option"
  rj_metadata :: "json option"
  rj_scheduledFor :: "int option"
  rj_estimatedAt :: "int option"
  rj_startedAt :: "int option"
  rj_heartbeatAt :: "int option"
  rj_completedAt :: "int option"
  rj_deletedAt :: "int option"
  rj_createdAt :: int
  rj_updatedAt :: int

record cost_row =
  cr_id :: string
  cr_blobRegistrationId :: "string option"
  cr_renewalJobId :: "string option"
  cr_estimatedCost :: "rat option"
  cr_actualCost :: "rat option"
  cr_windowId :: "string option"
  cr_recordedAt :: "int option"
  cr_orgId :: string
  cr_projectId :: "string option"

record webhook_row =
  wh_id :: string
  wh_orgId :: string
  wh_name :: string
  wh_url :: string
  wh_secret :: "string option"
  wh_events :: "string list"
  wh_status :: string
  wh_lastSuccessAt :: "int option"
  wh_lastFailureAt :: "int option"
  wh_failureCount :: int
  wh_deletedAt :: "int option"
  wh_createdAt :: int
  wh_updatedAt :: int

record event_row =
  ev_id :: string
  ev_orgId :: string
  ev_alertRuleId :: "string option"
  ev_blobRegistrationId :: "string option"
  ev_renewalJobId :: "string option"
  ev_eventType :: string
  ev_severity :: string
  ev_message :: string
  ev_details :: "json option"
  ev_status :: string
  ev_channelId :: "string option"
  ev_linkToEntity :: "string option"
  ev_firedAt :: int
  ev_deliveredAt :: "int option"
  ev_acknowledgedAt :: "int option"
  ev_escalatedAt :: "int option"
  ev_createdAt :: int

record notification_row =
  nt_id :: string
  nt_orgId :: string
  nt_alertEventId :: string
  nt_channelId :: "string option"
  nt_status :: string
  nt_error :: "string option"
  nt_sentAt :: "int option"
  nt_createdAt :: int

record schedule_row =
  sc_id :: string
  sc_orgId :: string
  sc_name :: string
  sc_type :: string
  sc_cronExpr :: string
  sc_lastRunAt :: "int option"
  sc_lastCompletedAt :: "int option"
  sc_enabled :: bool
  sc_minIntervalMs :: "int option"
  sc_maxStalenessMs :: "int option"
  sc_config :: "json option"
  sc_status :: string
  sc_deletedAt :: "int option"
  sc_createdAt :: int
  sc_updatedAt :: int

record run_row =
  sr_id :: string
  sr_scheduleId :: string
  sr_orgId :: string
  sr_status :: string
  sr_startedAt :: int
  sr_completedAt :: "int option"
  sr_durationMs :: "int option"
  sr_error :: "string option"
  sr_details :: "json option"
  sr_createdAt :: int

record log_row =
  lg_id :: string
  lg_eventName :: string
  lg_payload :: "json option"
  lg_actorId :: "string option"
  lg_entityId :: "string option"
  lg_entityType :: "string option"
  lg_recordedAt :: "int option"
  lg_orgId :: "string option"
  lg_processed :: "bool option"
  lg_traceId :: "string option"

section \<open>The database\<close>

record db =
  db_blobs :: "blob_row list"
  db_policies :: "policy_row list"
  db_assignments :: "assignment_row list"
  db_wallets :: "wallet_row list"
  db_jobs :: "job_row list"
  db_costs :: "cost_row list"
  db_budgets :: "budget_row list"
  db_limits :: "limit_row list"
  db_publishers :: "publisher_row list"
  db_project_publishers :: "project_publisher_row list"
  db_events :: "event_row list"
  db_audits :: "audit_row list"
  db_feed :: "feed_row list"
  db_log :: "log_row list"
  db_webhooks :: "webhook_row list"

definition empty_db :: db where
  "empty_db =
     \<lparr>db_blobs = [], db_policies = [], db_assignments = [], db_wallets = [], db_jobs = [],
      db_costs = [], db_budgets = [], db_limits = [], db_publishers = [],
      db_project_publishers = [], db_events = [], db_audits = [], db_feed = [], db_log = [],
      db_webhooks = []\<rparr>"

section \<open>Inserts\<close>

text \<open>
  The values that \<open>INSERT\<close> fills in for absent columns; identifiers and \<open>now()\<close> are arguments.
\<close>

definition new_job :: "string \<Rightarrow> int \<Rightarrow> string \<Rightarrow> string \<Rightarrow> job_row" where
  "new_job i now org blob =
     \<lparr>rj_id = i, rj_orgId = org, rj_blobRegistrationId = blob, rj_policyId = None,
      rj_status = ''estimated'', rj_attempt = 0, rj_maxAttempts = 5, rj_lastError = None,
      rj_estimatedCost = None, rj_actualCost = None, rj_txDigest = None,
      rj_blockedByLimitId = None, rj_supersedes = None, rj_priority = Some 50,
      rj_spendingLimitOverridden = Some False, rj_metadata = Some (JObj []),
      rj_scheduledFor = None, rj_estimatedAt = None, rj_startedAt = None, rj_heartbeatAt = None,
      rj_completedAt = None, rj_deletedAt = None, rj_createdAt = now, rj_updatedAt = now\<rparr>"

definition new_blob :: "string \<Rightarrow> int \<Rightarrow> string \<Rightarrow> string \<Rightarrow> string \<Rightarrow> blob_row" where
  "new_blob i now org project blob =
     \<lparr>bl_id = i, bl_orgId = org, bl_projectId = project, bl_walletId = None, bl_blobId = blob,
      bl_name = None, bl_sizeBytes = None, bl_contentType = None, bl_status = ''discovered'',
      bl_uploadDate = None, bl_expiryEpoch = None, bl_metadata = Some (JObj []),
      bl_tags = Some [], bl_suiVaultId = None, bl_ownerAddress = None, bl_discoveredAt = now,
      bl_verifiedAt = None, bl_trackedAt = None, bl_protectedAt = None, bl_expiringAt = None,
      bl_renewingAt = None, bl_renewedAt = None, bl_expiredAt = None, bl_archivedAt = None,
      bl_deletedAt = None, bl_createdAt = now, bl_updatedAt = now\<rparr>"

definition new_policy :: "string \<Rightarrow> int \<Rightarrow> string \<Rightarrow> string \<Rightarrow> int \<Rightarrow> int \<Rightarrow> policy_row" where
  "new_policy i now org name threshold extension =
     \<lparr>po_id = i, po_orgId = org, po_name = name, po_description = None, po_rules = JArr [],
      po_renewThreshold = threshold, po_renewExtension = extension, po_maxTotalEpochs = None,
      po_autoRenewalEnabled = True, po_active = True, po_scope = None, po_scopeTargetId = None,
      po_budgetId = None, po_spendingLimitId = None, po_publisherPriorityOverride = None,
      po_maxRetries = Some 5, po_status = ''draft'', po_deletedAt = None, po_createdAt = now,
      po_updatedAt = now\<rparr>"

definition new_webhook :: "string \<Rightarrow> int \<Rightarrow> string \<Rightarrow> string \<Rightarrow> string \<Rightarrow> webhook_row" where
  "new_webhook i now org name url =
     \<lparr>wh_id = i, wh_orgId = org, wh_name = name, wh_url = url, wh_secret = None, wh_events = [],
      wh_status = ''created'', wh_lastSuccessAt = None, wh_lastFailureAt = None,
      wh_failureCount = 0, wh_deletedAt = None, wh_createdAt = now, wh_updatedAt = now\<rparr>"

definition new_event :: "string \<Rightarrow> int \<Rightarrow> string \<Rightarrow> string \<Rightarrow> string \<Rightarrow> event_row" where
  "new_event i now org ty msg =
     \<lparr>ev_id = i, ev_orgId = org, ev_alertRuleId = None, ev_blobRegistrationId = None,
      ev_renewalJobId = None, ev_eventType = ty, ev_severity = ''info'', ev_message = msg,
      ev_details = Some (JObj []), ev_status = ''fired'', ev_channelId = None,
      ev_linkToEntity = None, ev_firedAt = now, ev_deliveredAt = None, ev_acknowledgedAt = None,
      ev_escalatedAt = None, ev_createdAt = now\<rparr>"

definition new_audit :: "string \<Rightarrow> int \<Rightarrow> string \<Rightarrow> string \<Rightarrow> string \<Rightarrow> audit_row" where
  "new_audit i now org action rty =
     \<lparr>au_id = i, au_orgId = org, au_userId = None, au_action = action, au_resourceType = rty,
      au_resourceId = None, au_details = Some (JObj []), au_ipAddress = None, au_traceId = None,
      au_createdAt = now\<rparr>"

definition new_feed ::
    "string \<Rightarrow> int \<Rightarrow> string \<Rightarrow> string \<Rightarrow> string \<Rightarrow> string \<Rightarrow> string \<Rightarrow> feed_row" where
  "new_feed i now org actor action rty summary =
     \<lparr>fd_id = i, fd_orgId = org, fd_actorType = actor, fd_actorId = None, fd_action = action,
      fd_resourceType = rty, fd_resourceId = None, fd_summary = summary,
      fd_details = Some (JObj []), fd_traceId = None, fd_createdAt = now\<rparr>"

definition new_budget :: "string \<Rightarrow> int \<Rightarrow> string \<Rightarrow> string \<Rightarrow> int \<Rightarrow> budget_row" where
  "new_budget i now org name amount =
     \<lparr>bu_id = i, bu_orgId = org, bu_projectId = None, bu_name = name, bu_amount = amount,
      bu_period = ''monthly'', bu_spent = 0, bu_currency = ''usd'', bu_status = ''defined'',
      bu_alertThreshold = Some 80, bu_windowStart = now, bu_windowEnd = None,
      bu_deletedAt = None, bu_archivedAt = None, bu_createdAt = now, bu_updatedAt = now\<rparr>"

definition new_publisher :: "string \<Rightarrow> int \<Rightarrow> string \<Rightarrow> string \<Rightarrow> publisher_row" where
  "new_publisher i now org name =
     \<lparr>pb_id = i, pb_orgId = org, pb_name = name, pb_description = None, pb_endpoint = None,
      pb_walletAddress = None, pb_suiVaultId = None, pb_status = ''active'',
      pb_lastHeartbeatAt = None, pb_deletedAt = None, pb_createdAt = now, pb_updatedAt = now\<rparr>"

text \<open>Updates of one table leave the others alone; a row update by id keeps the ids.\<close>

definition upd_jobs :: "(job_row \<Rightarrow> bool) \<Rightarrow> (job_row \<Rightarrow> job_row) \<Rightarrow> db \<Rightarrow> db" where
  "upd_jobs p f d = d\<lparr>db_jobs := sql_update p f (db_jobs d)\<rparr>"

definition upd_blobs :: "(blob_row \<Rightarrow> bool) \<Rightarrow> (blob_row \<Rightarrow> blob_row) \<Rightarrow> db \<Rightarrow> db" where
  "upd_blobs p f d = d\<lparr>db_blobs := sql_update p f (db_blobs d)\<rparr>"

lemma upd_jobs_sel [table_simps, simp]:
  "db_jobs (upd_jobs p f d) = sql_update p f (db_jobs d)"
  "db_blobs (upd_jobs p f d) = db_blobs d"
  "db_policies (upd_jobs p f d) = db_policies d"
  "db_events (upd_jobs p f d) = db_events d"
  by (simp_all add: upd_jobs_def)

lemma upd_blobs_sel [table_simps, simp]:
  "db_blobs (upd_blobs p f d) = sql_update p f (db_blobs d)"
  "db_jobs (upd_blobs p f d) = db_jobs d"
  "db_policies (upd_blobs p f d) = db_policies d"
  "db_events (upd_blobs p f d) = db_events d"
  by (simp_all add: upd_blobs_def)

end
