(* ===== verification/Event_Bus.thy ===== *)
theory Event_Bus
  imports Db App_Errors
begin

text \<open>
  The event bus, \<open>api/src/lib/event-bus.ts\<close>: subscriptions, the durable log, the built-in
  subscribers that persist alerts and the activity feed, and webhook delivery. A handler is a
  function on the database that also says whether it failed; the handlers of one event run in
  subscription order. Identifiers that the database generates are arguments, and so are the URL
  parser, the DNS lookup and the outcome of the HTTP request.
\<close>

section \<open>Event names\<close>

definition EventNames :: "(string \<times> string) list" where
  "EventNames =
     [(''BLOB_DISCOVERED'', ''blob.discovered''),
      (''BLOB_VERIFIED'', ''blob.verified''),
      (''BLOB_TRACKED'', ''blob.tracked''),
      (''BLOB_PROTECTED'', ''blob.protected''),
      (''BLOB_UNPROTECTED'', ''blob.unprotected''),
      (''BLOB_EXPIRING'', ''blob.expiring''),
      (''BLOB_RENEWING'', ''blob.renewing''),
      (''BLOB_RENEWED'', ''blob.renewed''),
      (''BLOB_EXPIRED'', ''blob.expired''),
      (''BLOB_ARCHIVED'', ''blob.archived''),
      (''BLOB_DELETED'', ''blob.deleted''),
      (''RENEWAL_ESTIMATED'', ''renewal.estimated''),
      (''RENEWAL_STARTED'', ''renewal.started''),
      (''RENEWAL_SUCCEEDED'', ''renewal.succeeded''),
      (''RENEWAL_RETRYING'', ''renewal.retrying''),
      (''RENEWAL_FAILED_FINAL'', ''renewal.failed_final''),
      (''RENEWAL_BLOCKED_BY_BUDGET'', ''renewal.blocked_by_budget''),
      (''RENEWAL_MANUAL_OVERRIDE'', ''renewal.manual_override''),
      (''RENEWAL_OVERRIDE_CREATED'', ''renewal.override_created''),
      (''POLICY_CREATED'', ''policy.created''),
      (''POLICY_ACTIVATED'', ''policy.activated''),
      (''POLICY_PAUSED'', ''policy.paused''),
      (''POLICY_ARCHIVED'', ''policy.archived''),
      (''POLICY_THRESHOLD_BREACHED'', ''policy.threshold_breached''),
      (''BUDGET_CREATED'', ''budget.created''),
      (''BUDGET_ACTIVATED'', ''budget.activated''),
      (''BUDGET_ARCHIVED'', ''budget.archived''),
      (''BUDGET_THRESHOLD_CROSSED'', ''budget.threshold_crossed''),
      (''BUDGET_WINDOW_CLOSED'', ''budget.window_closed''),
      (''BUDGET_WINDOW_ROLLED_OVER'', ''budget.window_rolled_over''),
      (''SPENDING_LIMIT_BLOCKED'', ''spending_limit.blocked''),
      (''SPENDING_LIMIT_CREATED'', ''spending_limit.created''),
      (''SPENDING_LIMIT_ACTIVATED'', ''spending_limit.activated''),
      (''SPENDING_LIMIT_PAUSED'', ''spending_limit.paused''),
      (''SPENDING_LIMIT_ARCHIVED'', ''spending_limit.archived''),
      (''ALERT_RULE_CREATED'', ''alert_rule.created''),
      (''ALERT_RULE_PAUSED'', ''alert_rule.paused''),
      (''ALERT_RULE_DELETED'', ''alert_rule.deleted''),
      (''ALERT_EVENT_FIRED'', ''alert_event.fired''),
      (''ALERT_EVENT_DELIVERED'', ''alert_event.delivered''),
      (''ALERT_EVENT_DELIVERY_FAILED'', ''alert_event.delivery_failed''),
      (''ALERT_EVENT_ESCALATED'', ''alert_event.escalated''),
      (''ALERT_EVENT_ACKNOWLEDGED'', ''alert_event.acknowledged''),
      (''WEBHOOK_CREATED'', ''webhook.created''),
      (''WEBHOOK_FAILING'', ''webhook.failing''),
      (''WEBHOOK_DISABLED'', ''webhook.disabled''),
      (''WEBHOOK_REENABLED'', ''webhook.reenabled''),
      (''WEBHOOK_DELETED'', ''webhook.deleted''),
      (''API_KEY_CREATED'', ''api_key.created''),
      (''API_KEY_ROTATED'', ''api_key.rotated''),
      (''API_KEY_REVOKED'', ''api_key.revoked''),
      (''MEMBER_INVITED'', ''member.invited''),
      (''MEMBER_ROLE_CHANGED'', ''member.role_changed''),
      (''MEMBER_REMOVED'', ''member.removed''),
      (''DELEGATION_GRANTED'', ''delegation.granted''),
      (''DELEGATION_REVOKED'', ''delegation.revoked''),
      (''DELEGATION_USED'', ''delegation.used''),
      (''JOB_COMPLETED'', ''job.completed''),
      (''JOB_FAILED_FINAL'', ''job.failed_final''),
      (''SCHEDULE_MISSED'', ''schedule.missed''),
      (''SCHEDULE_MISSED_CRITICAL'', ''schedule.missed_critical''),
      (''SCHEDULE_CAUGHT_UP'', ''schedule.caught_up''),
      (''SYSTEM_DEGRADED'', ''system.degraded''),
      (''SYSTEM_RECOVERED'', ''system.recovered''),
      (''SYSTEM_SCAN_TRIGGERED'', ''system.scan_triggered'')]"

section \<open>Payloads\<close>

datatype event_actor =
    ActSystem
  | ActHuman string
  | ActApiKey string string
  | ActAdmin string "string option"

record event_payload =
  ep_eventName :: string
  ep_timestamp :: int
  ep_actor :: event_actor
  ep_orgId :: string
  ep_entityType :: string
  ep_entityId :: string
  ep_details :: "json option"
  ep_traceId :: "string option"

definition createEvent ::
    "int \<Rightarrow> string \<Rightarrow> string \<Rightarrow> string \<Rightarrow> string \<Rightarrow> event_actor \<Rightarrow> json option \<Rightarrow> string option
     \<Rightarrow> event_payload" where
  "createEvent now name org ety eid actor details trace =
     \<lparr>ep_eventName = name, ep_timestamp = now, ep_actor = actor, ep_orgId = org,
      ep_entityType = ety, ep_entityId = eid, ep_details = details, ep_traceId = trace\<rparr>"

fun actor_json :: "event_actor \<Rightarrow> json" where
  "actor_json ActSystem = JObj [(''type'', JStr ''system'')]"
| "actor_json (ActHuman u) = JObj [(''type'', JStr ''human''), (''userId'', JStr u)]"
| "actor_json (ActApiKey k p) =
     JObj [(''type'', JStr ''api_key''), (''keyId'', JStr k), (''keyPrefix'', JStr p)]"
| "actor_json (ActAdmin a r) =
     JObj ([(''type'', JStr ''admin''), (''adminId'', JStr a)]
       @ (case r of Some x \<Rightarrow> [(''reason'', JStr x)] | None \<Rightarrow> []))"

fun actor_id :: "event_actor \<Rightarrow> string option" where
  "actor_id ActSystem = None"
| "actor_id (ActHuman u) = Some u"
| "actor_id (ActApiKey k p) = Some k"
| "actor_id (ActAdmin a r) = Some a"

text \<open>\<open>{ ...old, k: v }\<close>: the new fields override the old ones.\<close>

definition json_spread :: "json option \<Rightarrow> (string \<times> json) list \<Rightarrow> json" where
  "json_spread old new =
     JObj (new @ (case old of Some (JObj fs) \<Rightarrow> filter (\<lambda>f. fst f \<notin> fst ` set new) fs | _ \<Rightarrow> []))"

definition detail :: "event_payload \<Rightarrow> string \<Rightarrow> json option" where
  "detail e k = (case ep_details e of Some j \<Rightarrow> jget j k | None \<Rightarrow> None)"

definition event_trace :: "event_payload \<Rightarrow> string option" where
  "event_trace e =
     (case ep_traceId e of
        Some t \<Rightarrow> Some t
      | None \<Rightarrow> (case detail e ''traceId'' of Some (JStr t) \<Rightarrow> Some t | _ \<Rightarrow> None))"

section \<open>Subscriptions and dispatch\<close>

type_synonym handler = "event_payload \<Rightarrow> db \<Rightarrow> bool \<times> db"

record subscription =
  su_id :: nat
  su_eventNames :: "string list"
  su_handler :: handler

record event_bus =
  bus_counter :: nat
  bus_subs :: "subscription list"
  bus_initialized :: bool

definition subscribe :: "string list \<Rightarrow> handler \<Rightarrow> event_bus \<Rightarrow> nat \<times> event_bus" where
  "subscribe names h bus =
     (let i = bus_counter bus + 1 in
      (i, bus\<lparr>bus_counter := i,
              bus_subs := bus_subs bus @ [\<lparr>su_id = i, su_eventNames = names, su_handler = h\<rparr>]\<rparr>))"

definition unsubscribe :: "nat \<Rightarrow> event_bus \<Rightarrow> event_bus" where
  "unsubscribe i bus = bus\<lparr>bus_subs := filter (\<lambda>s. su_id s \<noteq> i) (bus_subs bus)\<rparr>"

definition clearSubscribers :: "event_bus \<Rightarrow> event_bus" where
  "clearSubscribers bus = bus\<lparr>bus_subs := []\<rparr>"

definition sub_matches :: "event_payload \<Rightarrow> subscription \<Rightarrow> bool" where
  "sub_matches e s = (ep_eventName e \<in> set (su_eventNames s) \<or> ''*'' \<in> set (su_eventNames s))"

definition log_event :: "string \<Rightarrow> event_payload \<Rightarrow> db \<Rightarrow> db" where
  "log_event i e d =
     d\<lparr>db_log := db_log d @
        [\<lparr>lg_id = i, lg_eventName = ep_eventName e, lg_payload = ep_details e,
          lg_actorId = actor_id (ep_actor e), lg_entityId = Some (ep_entityId e),
          lg_entityType = Some (ep_entityType e), lg_recordedAt = Some (ep_timestamp e),
          lg_orgId = Some (ep_orgId e), lg_processed = Some False,
          lg_traceId = event_trace e\<rparr>]\<rparr>"

text \<open>The loop over the subscribers; the third result lists the handlers run and whether each failed.\<close>

fun dispatch ::
    "event_payload \<Rightarrow> subscription list \<Rightarrow> db \<Rightarrow> db \<times> (nat \<times> bool) list" where
  "dispatch e [] d = (d, [])"
| "dispatch e (s # ss) d =
     (if sub_matches e s
      then (let (failed, d1) = su_handler s e d; (d2, tr) = dispatch e ss d1
            in (d2, (su_id s, failed) # tr))
      else dispatch e ss d)"

text \<open>\<open>log_ok\<close> says whether the insert into the log succeeds; its failure is only printed.\<close>

definition emit ::
    "bool \<Rightarrow> string \<Rightarrow> event_bus \<Rightarrow> event_payload \<Rightarrow> db \<Rightarrow> db \<times> (nat \<times> bool) list" where
  "emit log_ok i bus e d = dispatch e (bus_subs bus) (if log_ok then log_event i e d else d)"

section \<open>Persistence\<close>

definition alert_message :: "event_payload \<Rightarrow> string" where
  "alert_message e = ep_entityType e @ ''.'' @ ep_entityId e @ '': '' @ ep_eventName e"

definition determineSeverity :: "string \<Rightarrow> string" where
  "determineSeverity n =
     (if str_includes n ''failed'' \<or> str_includes n ''blocked'' \<or> str_includes n ''degraded''
         \<or> str_includes n ''missed'' then ''error''
      else if str_includes n ''expiring'' \<or> str_includes n ''threshold'' \<or> str_includes n ''warning''
         \<or> str_includes n ''failing'' then ''warning''
      else if str_includes n ''deleted'' \<or> str_includes n ''revoked'' \<or> str_includes n ''removed''
      then ''info''
      else ''info'')"

definition persistAlertEvent :: "string \<Rightarrow> int \<Rightarrow> event_payload \<Rightarrow> db \<Rightarrow> db" where
  "persistAlertEvent i now e d =
     (let message = alert_message e in
      case first_row (filter (\<lambda>r. ev_eventType r = ep_eventName e \<and> ev_orgId r = ep_orgId e
                               \<and> ev_message r = message) (db_events d)) of
        Some _ \<Rightarrow> d
      | None \<Rightarrow>
          d\<lparr>db_events := db_events d @
             [(new_event i now (ep_orgId e) (ep_eventName e) message)
                \<lparr>ev_severity := determineSeverity (ep_eventName e),
                 ev_details := Some (json_spread (ep_details e)
                   [(''actor'', actor_json (ep_actor e)), (''entityType'', JStr (ep_entityType e)),
                    (''entityId'', JStr (ep_entityId e))]),
                 ev_status := ''fired'', ev_firedAt := ep_timestamp e\<rparr>]\<rparr>)"

definition char_replace :: "char \<Rightarrow> char \<Rightarrow> string \<Rightarrow> string" where
  "char_replace a b s = map (\<lambda>c. if c = a then b else c) s"

text \<open>The text of a JSON value in a template literal, for the values that names and addresses take.\<close>

fun json_text :: "json \<Rightarrow> string" where
  "json_text (JStr s) = s"
| "json_text (JNum n) = show_int n"
| "json_text (JBool b) = (if b then ''true'' else ''false'')"
| "json_text JNull = ''null''"
| "json_text (JArr _) = ''''"
| "json_text (JObj _) = ''[object Object]''"

definition truthy_detail :: "event_payload \<Rightarrow> string \<Rightarrow> json option" where
  "truthy_detail e k =
     (case detail e k of Some j \<Rightarrow> if json_truthy (Some j) then Some j else None | None \<Rightarrow> None)"

definition buildFeedSummary :: "event_payload \<Rightarrow> string" where
  "buildFeedSummary e =
     (let resourceLabel = char_replace CHR ''_'' CHR '' '' (ep_entityType e);
          actionWords = char_replace CHR ''.'' CHR '' '' (ep_eventName e)
      in case truthy_detail e ''name'' of
           Some j \<Rightarrow> actionWords @ '' '' @ em_dash @ '' '' @ json_text j
         | None \<Rightarrow>
             (case truthy_detail e ''address'' of
                Some j \<Rightarrow> actionWords @ '' '' @ em_dash @ '' '' @ json_text j
              | None \<Rightarrow> actionWords @ '' on '' @ resourceLabel))"

definition feed_actor_type :: "event_actor \<Rightarrow> string" where
  "feed_actor_type a =
     (case a of ActHuman _ \<Rightarrow> ''human'' | ActAdmin _ _ \<Rightarrow> ''admin'' | _ \<Rightarrow> ''system'')"

definition feed_actor_id :: "event_actor \<Rightarrow> string option" where
  "feed_actor_id a = (case a of ActHuman u \<Rightarrow> Some u | ActApiKey k _ \<Rightarrow> Some k | _ \<Rightarrow> None)"

definition persistActivityFeed :: "string \<Rightarrow> int \<Rightarrow> event_payload \<Rightarrow> db \<Rightarrow> db" where
  "persistActivityFeed i now e d =
     (case first_row (filter (\<lambda>r. fd_action r = ep_eventName e \<and> fd_orgId r = ep_orgId e
                               \<and> fd_resourceId r = Some (ep_entityId e)) (db_feed d)) of
        Some _ \<Rightarrow> d
      | None \<Rightarrow>
          d\<lparr>db_feed := db_feed d @
             [(new_feed i now (ep_orgId e) (feed_actor_type (ep_actor e)) (ep_eventName e)
                 (ep_entityType e) (buildFeedSummary e))
                \<lparr>fd_resourceId := Some (ep_entityId e), fd_actorId := feed_actor_id (ep_actor e),
                 fd_details := Some (or_default (ep_details e) (JObj [])),
                 fd_traceId := event_trace e\<rparr>]\<rparr>)"

section \<open>Webhook delivery\<close>

definition octet_str :: "string \<Rightarrow> bool" where
  "octet_str p = (p \<noteq> [] \<and> length p \<le> 3 \<and> list_all is_digit p)"

definition second_octet_172 :: "string \<Rightarrow> bool" where
  "second_octet_172 b =
     (case b of
        [x, y] \<Rightarrow> (x = CHR ''1'' \<and> y \<in> set ''6789'') \<or> (x = CHR ''2'' \<and> is_digit y)
                  \<or> (x = CHR ''3'' \<and> y \<in> set ''01'')
      | _ \<Rightarrow> False)"

definition isPrivateIP :: "string \<Rightarrow> bool" where
  "isPrivateIP ip =
     ((case split_on CHR ''.'' ip of
         [a, b, c, d] \<Rightarrow>
           octet_str b \<and> octet_str c \<and> octet_str d \<and>
           (a = ''10'' \<or> (a = ''172'' \<and> second_octet_172 b) \<or> (a = ''192'' \<and> b = ''168'')
            \<or> a = ''127'' \<or> a = ''0'' \<or> (a = ''169'' \<and> b = ''254''))
       | _ \<Rightarrow> False)
      \<or> ip = ''::1'' \<or> starts_with ''fc00:'' ip \<or> starts_with ''fe80:'' ip)"

text \<open>\<open>is_ip\<close> and \<open>lookup\<close> are the runtime's; a lookup that fails counts as external.\<close>

definition isInternalHostname :: "(string \<Rightarrow> bool) \<Rightarrow> (string \<Rightarrow> string option) \<Rightarrow> string \<Rightarrow> bool" where
  "isInternalHostname is_ip lookup h =
     (if is_ip h then isPrivateIP h
      else (case lookup h of Some a \<Rightarrow> isPrivateIP a | None \<Rightarrow> False))"

record net_env =
  ne_parse_url :: "string \<Rightarrow> url option"
  ne_is_ip :: "string \<Rightarrow> bool"
  ne_lookup :: "string \<Rightarrow> string option"
  ne_hmac :: "string \<Rightarrow> json \<Rightarrow> string"
  ne_http :: "string \<Rightarrow> int option"

record webhook_request =
  wq_url :: string
  wq_headers :: "(string \<times> string) list"
  wq_body :: json

definition webhook_payload :: "event_payload \<Rightarrow> json" where
  "webhook_payload e =
     JObj [(''event'', JStr (ep_eventName e)), (''timestamp'', JNum (ep_timestamp e)),
           (''actor'', actor_json (ep_actor e)),
           (''entity'', JObj [(''type'', JStr (ep_entityType e)), (''id'', JStr (ep_entityId e))]),
           (''details'', or_default (ep_details e) (JObj []))]"

definition upd_webhook :: "string \<Rightarrow> (webhook_row \<Rightarrow> webhook_row) \<Rightarrow> db \<Rightarrow> db" where
  "upd_webhook i f d = d\<lparr>db_webhooks := sql_update (\<lambda>w. wh_id w = i) f (db_webhooks d)\<rparr>"

text \<open>The outcome of the request is its status, or \<open>None\<close> when \<open>fetch\<close> throws.\<close>

definition deliverWebhook ::
    "net_env \<Rightarrow> int \<Rightarrow> webhook_row \<Rightarrow> event_payload \<Rightarrow> db \<Rightarrow> webhook_request list \<times> db" where
  "deliverWebhook env now w e d =
     (case ne_parse_url env (wh_url w) of
        None \<Rightarrow> ([], d)
      | Some parsed \<Rightarrow>
          if u_protocol parsed \<noteq> ''https:'' then ([], d)
          else if isInternalHostname (ne_is_ip env) (ne_lookup env) (u_hostname parsed) then ([], d)
          else
            (let payload = webhook_payload e;
                 headers = [(''Content-Type'', ''application/json''),
                            (''User-Agent'', ''AutoRenewalKeeper/1.0'')]
                   @ (case truthy (wh_secret w) of
                        Some s \<Rightarrow> [(''X-Signature-256'', ne_hmac env s payload)] | None \<Rightarrow> []);
                 req = \<lparr>wq_url = wh_url w, wq_headers = headers, wq_body = payload\<rparr>
             in case ne_http env (wh_url w) of
                  None \<Rightarrow> ([req], d)
                | Some status \<Rightarrow>
                    ([req],
                     if status < 200 \<or> status > 299
                     then upd_webhook (wh_id w)
                            (\<lambda>r. r\<lparr>wh_lastFailureAt := Some now, wh_failureCount := wh_failureCount r + 1\<rparr>) d
                     else upd_webhook (wh_id w)
                            (\<lambda>r. r\<lparr>wh_lastSuccessAt := Some now, wh_failureCount := 0\<rparr>) d)))"

fun deliver_all ::
    "net_env \<Rightarrow> int \<Rightarrow> webhook_row list \<Rightarrow> event_payload \<Rightarrow> db \<Rightarrow> webhook_request list \<times> db" where
  "deliver_all env now [] e d = ([], d)"
| "deliver_all env now (w # ws) e d =
     (let (rs, d1) = deliverWebhook env now w e d; (rs', d2) = deliver_all env now ws e d1
      in (rs @ rs', d2))"

definition dispatchToWebhooks ::
    "net_env \<Rightarrow> int \<Rightarrow> event_payload \<Rightarrow> db \<Rightarrow> webhook_request list \<times> db" where
  "dispatchToWebhooks env now e d =
     deliver_all env now
       (filter (\<lambda>w. wh_orgId w = ep_orgId e \<and> wh_status w = ''active''
                    \<and> ep_eventName e \<in> set (wh_events w)) (db_webhooks d)) e d"

text \<open>The three default subscribers, each on all events; their errors are caught inside.\<close>

definition initEventBus :: "net_env \<Rightarrow> (string \<Rightarrow> string) \<Rightarrow> int \<Rightarrow> event_bus \<Rightarrow> event_bus" where
  "initEventBus env ids now bus =
     (if bus_initialized bus then bus
      else let (_, b1) = subscribe [''*''] (\<lambda>e d. (False, snd (dispatchToWebhooks env now e d))) bus;
          (_, b2) = subscribe [''*''] (\<lambda>e d. (False, persistAlertEvent (ids ''alert_events'') now e d)) b1;
          (_, b3) = subscribe [''*''] (\<lambda>e d. (False, persistActivityFeed (ids ''activity_feed'') now e d)) b2
      in b3\<lparr>bus_initialized := True\<rparr>)"

section \<open>Facts\<close>

lemma dispatch_trace:
  "map fst (snd (dispatch e ss d)) = map su_id (filter (sub_matches e) ss)"
  by (induction ss arbitrary: d) (auto simp: split_beta Let_def)

text \<open>A property of the database that every handler keeps is kept by the dispatch.\<close>

lemma dispatch_invariant:
  "(\<And>s d. s \<in> set ss \<Longrightarrow> I d \<Longrightarrow> I (snd (su_handler s e d))) \<Longrightarrow> I d \<Longrightarrow> I (fst (dispatch e ss d))"
proof (induction ss arbitrary: d)
  case Nil
  then show ?case by simp
next
  case (Cons s ss)
  have head: "I (snd (su_handler s e d))" using Cons.prems by simp
  show ?case using Cons.IH [OF _ head] Cons.IH [OF _ Cons.prems(2)] Cons.prems(1)
    by (auto simp: split_beta Let_def)
qed

lemma persist_same_key:
  assumes "ep_eventName e' = ep_eventName e" "ep_orgId e' = ep_orgId e"
    "ep_entityType e' = ep_entityType e" "ep_entityId e' = ep_entityId e"
  shows "persistAlertEvent j t' e' (persistAlertEvent i t e d) = persistAlertEvent i t e d"
proof -
  let ?P = "\<lambda>r. ev_eventType r = ep_eventName e \<and> ev_orgId r = ep_orgId e \<and> ev_message r = alert_message e"
  let ?d = "persistAlertEvent i t e d"
  have "first_row (filter ?P (db_events ?d)) \<noteq> None"
    by (auto simp: persistAlertEvent_def Let_def new_event_def first_row_None split: option.splits)
  then obtain r where "first_row (filter ?P (db_events ?d)) = Some r" by auto
  moreover have "alert_message e' = alert_message e" using assms by (simp add: alert_message_def)
  ultimately show ?thesis using assms by (simp add: persistAlertEvent_def [of j t' e' ?d] Let_def)
qed

lemma feed_same_key:
  assumes "ep_eventName e' = ep_eventName e" "ep_orgId e' = ep_orgId e" "ep_entityId e' = ep_entityId e"
  shows "persistActivityFeed j t' e' (persistActivityFeed i t e d) = persistActivityFeed i t e d"
proof -
  let ?P = "\<lambda>r. fd_action r = ep_eventName e \<and> fd_orgId r = ep_orgId e \<and> fd_resourceId r = Some (ep_entityId e)"
  let ?d = "persistActivityFeed i t e d"
  have "first_row (filter ?P (db_feed ?d)) \<noteq> None"
    by (auto simp: persistActivityFeed_def new_feed_def first_row_None split: option.splits)
  then obtain r where "first_row (filter ?P (db_feed ?d)) = Some r" by auto
  with assms show ?thesis by (simp add: persistActivityFeed_def [of j t' e' ?d])
qed

text \<open>An IPv4 address as text, and the networks that no webhook may reach, by the first two octets.\<close>

definition dotted :: "nat \<Rightarrow> nat \<Rightarrow> nat \<Rightarrow> nat \<Rightarrow> string" where
  "dotted a b c x = show_nat a @ ''.'' @ show_nat b @ ''.'' @ show_nat c @ ''.'' @ show_nat x"

definition internal_range :: "nat \<Rightarrow> nat \<Rightarrow> bool" where
  "internal_range a b \<longleftrightarrow> a \<in> {0, 10, 127} \<or> a = 172 \<and> b div 16 = 1 \<or> a = 192 \<and> b = 168 \<or> a = 169 \<and> b = 254"

lemma octet_texts: "n < 256 \<Longrightarrow> octet_str (show_nat n)"
  by (subst show_nat.simps, subst show_nat.simps, subst show_nat.simps) (auto simp: octet_str_def is_digit_char_of)

lemma octet_172: "\<forall>n \<in> set [16..<32]. second_octet_172 (show_nat n)"
  by code_simp

lemma octet_values:
  "show_nat 0 = ''0''" "show_nat 10 = ''10''" "show_nat 127 = ''127''" "show_nat 172 = ''172''" "show_nat 192 = ''192''"
  "show_nat 168 = ''168''" "show_nat 169 = ''169''" "show_nat 254 = ''254''"
  by code_simp+

lemma private_dotted:
  assumes "a < 256" "b < 256" "c < 256" "x < 256"
    and "internal_range a b"
  shows "isPrivateIP (dotted a b c x)"
proof -
  note octet = octet_texts
  then have free: "CHR ''.'' \<notin> set (show_nat n)" if "n < 256" for n
    using that by (fastforce simp: octet_str_def list_all_iff is_digit_def less_eq_char_def)
  have "split_on CHR ''.'' (dotted a b c x) = [show_nat a, show_nat b, show_nat c, show_nat x]"
    using assms(1-4) by (simp add: dotted_def split_on_append split_on_free free)
  moreover have "second_octet_172 (show_nat b)" if "b div 16 = 1"
  proof -
    from that have "16 \<le> b \<and> b < 32" by presburger
    then have "b \<in> set [16..<32]" by (simp only: set_upt atLeastLessThan_iff)
    with octet_172 show ?thesis by blast
  qed
  ultimately show ?thesis using assms octet by (auto simp: isPrivateIP_def octet_values internal_range_def)
qed

lemma deliver_requests:
  "q \<in> set (fst (deliverWebhook env now w e d)) \<Longrightarrow>
   wq_url q = wh_url w \<and> (\<exists>u. ne_parse_url env (wh_url w) = Some u \<and> u_protocol u = ''https:''
     \<and> \<not> isInternalHostname (ne_is_ip env) (ne_lookup env) (u_hostname u))"
  by (auto simp: deliverWebhook_def Let_def split: option.splits if_splits)

lemma deliver_all_requests:
  "q \<in> set (fst (deliver_all env now ws e d)) \<Longrightarrow>
   \<exists>w \<in> set ws. wq_url q = wh_url w \<and> (\<exists>u. ne_parse_url env (wh_url w) = Some u \<and> u_protocol u = ''https:''
     \<and> \<not> isInternalHostname (ne_is_ip env) (ne_lookup env) (u_hostname u))"
  by (induction ws arbitrary: d) (auto simp: split_beta Let_def dest!: deliver_requests)

lemma deliver_status_frame:
  "map wh_status (db_webhooks (snd (deliverWebhook env now w e d))) = map wh_status (db_webhooks d)"
  by (auto simp: deliverWebhook_def Let_def upd_webhook_def map_sql_update_frame split: option.splits)

lemma deliver_all_status_frame:
  "map wh_status (db_webhooks (snd (deliver_all env now ws e d))) = map wh_status (db_webhooks d)"
  by (induction ws arbitrary: d) (auto simp: split_beta Let_def deliver_status_frame)

text \<open>What the bus may not touch: the tables of the domain.\<close>

definition domain_of :: "db \<Rightarrow> db" where
  "domain_of d = d\<lparr>db_events := [], db_feed := [], db_log := [], db_webhooks := []\<rparr>"

lemma domain_log: "domain_of (log_event i e d) = domain_of d"
  by (simp add: domain_of_def log_event_def)

lemma domain_persist: "domain_of (persistAlertEvent i t e d) = domain_of d"
  "domain_of (persistActivityFeed i t e d) = domain_of d"
  by (auto simp: domain_of_def persistAlertEvent_def persistActivityFeed_def Let_def split: option.splits)

lemma domain_deliver: "domain_of (snd (deliverWebhook env now w e d)) = domain_of d"
  by (auto simp: domain_of_def deliverWebhook_def Let_def upd_webhook_def split: option.splits)

lemma domain_deliver_all: "domain_of (snd (deliver_all env now ws e d)) = domain_of d"
  by (induction ws arbitrary: d) (auto simp: split_beta Let_def domain_deliver)

definition started_bus :: "net_env \<Rightarrow> (string \<Rightarrow> string) \<Rightarrow> int \<Rightarrow> event_bus" where
  "started_bus env ids now = initEventBus env ids now
     \<lparr>bus_counter = 0, bus_subs = [], bus_initialized = False\<rparr>"

lemma started_subs:
  "bus_subs (started_bus env ids now) =
     [\<lparr>su_id = 1, su_eventNames = [''*''],
       su_handler = (\<lambda>e d. (False, snd (dispatchToWebhooks env now e d)))\<rparr>,
      \<lparr>su_id = 2, su_eventNames = [''*''],
       su_handler = (\<lambda>e d. (False, persistAlertEvent (ids ''alert_events'') now e d))\<rparr>,
      \<lparr>su_id = 3, su_eventNames = [''*''],
       su_handler = (\<lambda>e d. (False, persistActivityFeed (ids ''activity_feed'') now e d))\<rparr>]"
  by (simp add: started_bus_def initEventBus_def subscribe_def Let_def)

lemma emit_started_domain: "domain_of (fst (emit lok i (started_bus env ids now) e d)) = domain_of d"
proof -
  have "domain_of (fst (dispatch e (bus_subs (started_bus env ids now)) d')) = domain_of d"
    if "domain_of d' = domain_of d" for d'
    by (rule dispatch_invariant)
      (auto simp: started_subs that domain_persist dispatchToWebhooks_def domain_deliver_all)
  then show ?thesis by (simp add: emit_def domain_log)
qed

section \<open>Properties\<close>

text \<open>
  Emitting an event on the started bus runs the three default subscribers once each, in order,
  even when the insert into the log fails, and changes no table of the domain: only alerts, feed,
  log and webhook counters.
\<close>

theorem emit_isolated:
  "map fst (snd (emit log_ok i (started_bus env ids now) e d)) = [1, 2, 3]
   \<and> domain_of (fst (emit log_ok i (started_bus env ids now) e d)) = domain_of d"
  using emit_started_domain
  by (simp add: emit_def dispatch_trace started_subs sub_matches_def)

text \<open>
  Alerts are deduplicated for ever: once an alert is stored for an event name, organization and
  entity, a later event with the same key is dropped, whatever its time, details and actor. The
  deduplication was meant for double writes of one event.
\<close>

theorem alert_dedup_forever:
  assumes "ep_eventName e' = ep_eventName e" "ep_orgId e' = ep_orgId e"
    "ep_entityType e' = ep_entityType e" "ep_entityId e' = ep_entityId e"
  shows "persistAlertEvent j t' e' (persistAlertEvent i t e d) = persistAlertEvent i t e d
    \<and> persistActivityFeed j t' e' (persistActivityFeed i t e d) = persistActivityFeed i t e d"
  using persist_same_key [OF assms] feed_same_key [OF assms(1,2,4)] by simp

theorem alert_dedup_forever_witness:
  "length (db_events (persistAlertEvent ''2'' 900
      (createEvent 900 ''blob.expiring'' ''o'' ''blob_registration'' ''b'' ActSystem None None)
      (persistAlertEvent ''1'' 10
        (createEvent 10 ''blob.expiring'' ''o'' ''blob_registration'' ''b'' ActSystem None None)
        empty_db))) = 1"
proof -
  let ?e = "\<lambda>t. createEvent t ''blob.expiring'' ''o'' ''blob_registration'' ''b'' ActSystem None None"
  have eq: "persistAlertEvent ''2'' 900 (?e 900) (persistAlertEvent ''1'' 10 (?e 10) empty_db)
      = persistAlertEvent ''1'' 10 (?e 10) empty_db"
    by (rule conjunct1 [OF alert_dedup_forever]) (simp_all add: createEvent_def)
  have "length (db_events (persistAlertEvent ''1'' 10 (?e 10) empty_db)) = 1"
    by (simp add: persistAlertEvent_def Let_def empty_db_def)
  then show ?thesis unfolding eq .
qed

text \<open>
  C15: every webhook request goes to an active subscription of the event's organization over https. The address that the check
  sees, the host itself or what a lookup gives for it, is no IPv4 address of a private network (10/8, 172.16/12, 192.168/16), of
  the own host (127/8, 0/8) or of the own link (169.254/16), and not the IPv6 loopback. The delivery never changes the status of
  a webhook, however often it fails.
\<close>

theorem webhooks_external_only:
  assumes "q \<in> set (fst (dispatchToWebhooks env now e d))"
  shows "(\<exists>w \<in> set (db_webhooks d). wq_url q = wh_url w \<and> wh_orgId w = ep_orgId e
      \<and> wh_status w = ''active'' \<and> ep_eventName e \<in> set (wh_events w)
      \<and> (\<exists>u. ne_parse_url env (wh_url w) = Some u \<and> u_protocol u = ''https:''
           \<and> (let seen = (if ne_is_ip env (u_hostname u) then Some (u_hostname u) else ne_lookup env (u_hostname u))
              in seen \<noteq> Some ''::1''
                 \<and> (\<nexists>a b c x. a < 256 \<and> b < 256 \<and> c < 256 \<and> x < 256 \<and> internal_range a b \<and> seen = Some (dotted a b c x)))))
    \<and> map wh_status (db_webhooks (snd (dispatchToWebhooks env now e d))) = map wh_status (db_webhooks d)"
proof -
  from deliver_all_requests [OF assms [unfolded dispatchToWebhooks_def]] obtain w u where
    w: "w \<in> set (db_webhooks d)" "wh_orgId w = ep_orgId e" "wh_status w = ''active''" "ep_eventName e \<in> set (wh_events w)"
    and q: "wq_url q = wh_url w" and u: "ne_parse_url env (wh_url w) = Some u" "u_protocol u = ''https:''"
      "\<not> isInternalHostname (ne_is_ip env) (ne_lookup env) (u_hostname u)" by auto
  define seen where "seen = (if ne_is_ip env (u_hostname u) then Some (u_hostname u) else ne_lookup env (u_hostname u))"
  have not_private: "\<not> isPrivateIP s" if "seen = Some s" for s
    using u(3) that by (simp add: isInternalHostname_def seen_def split: if_splits)
  have "seen \<noteq> Some ''::1''" using not_private [of "''::1''"] by (auto simp: isPrivateIP_def)
  moreover have "\<nexists>a b c x. a < 256 \<and> b < 256 \<and> c < 256 \<and> x < 256 \<and> internal_range a b \<and> seen = Some (dotted a b c x)"
    using not_private private_dotted by blast
  ultimately show ?thesis
    unfolding dispatchToWebhooks_def deliver_all_status_frame Let_def seen_def using w q u by blast
qed

theorem webhooks_external_only_witness:
  "\<exists>env w d. db_webhooks d = [w] \<and> wh_status w = ''active'' \<and> ne_http env (wh_url w) = Some 500 \<and>
     map wh_status (db_webhooks (snd (dispatchToWebhooks env 5
       (createEvent 5 ''budget.created'' ''o'' ''budget'' ''b'' ActSystem None None) d))) = [''active'']"
proof -
  define w where "w = (new_webhook ''w'' 0 ''o'' ''n'' ''https://hooks.example'')
    \<lparr>wh_status := ''active'', wh_events := [''budget.created'']\<rparr>"
  define env where "env = \<lparr>ne_parse_url = (\<lambda>_. Some \<lparr>u_protocol = ''https:'', u_hostname = ''hooks.example''\<rparr>),
    ne_is_ip = (\<lambda>_. False), ne_lookup = (\<lambda>_. None), ne_hmac = (\<lambda>_ _. []), ne_http = (\<lambda>_. Some 500)\<rparr>"
  define d where "d = empty_db\<lparr>db_webhooks := [w]\<rparr>"
  let ?e = "createEvent 5 ''budget.created'' ''o'' ''budget'' ''b'' ActSystem None None"
  have "fst (dispatchToWebhooks env 5 ?e d) \<noteq> []"
    by (simp add: dispatchToWebhooks_def d_def w_def new_webhook_def createEvent_def env_def
        deliverWebhook_def isInternalHostname_def Let_def)
  then obtain q where "q \<in> set (fst (dispatchToWebhooks env 5 ?e d))" by (meson last_in_set)
  from conjunct2 [OF webhooks_external_only [OF this]] show ?thesis
    by (intro exI [of _ env] exI [of _ w] exI [of _ d])
      (simp add: d_def w_def env_def new_webhook_def)
qed

text \<open>
  The check has gaps: a host whose lookup fails counts as external, and so does the IPv6 loopback as a URL writes it, in
  brackets, since that is no address for the runtime and has no entry in the DNS; and of the unique local addresses of IPv6, fc00::/7, only
  those that begin with \<open>fc00:\<close> are known.
\<close>

theorem webhook_check_gaps:
  assumes "\<not> ne_is_ip env h \<and> ne_lookup env h = None \<or> ne_is_ip env h \<and> starts_with ''fd'' h"
    and "ne_parse_url env (wh_url w) = Some \<lparr>u_protocol = ''https:'', u_hostname = h\<rparr>"
  shows "\<exists>q. fst (deliverWebhook env now w e d) = [q] \<and> wq_url q = wh_url w"
proof -
  have "\<not> isPrivateIP h" if "starts_with ''fd'' h"
    using that by (cases h; cases "tl h") (auto simp: isPrivateIP_def split: list.split)
  with assms have "\<not> isInternalHostname (ne_is_ip env) (ne_lookup env) h" by (auto simp: isInternalHostname_def)
  with assms(2) show ?thesis by (auto simp: deliverWebhook_def Let_def split: option.split)
qed

theorem webhook_check_gaps_witness:
  "\<exists>env w. ne_parse_url env (wh_url w) = Some \<lparr>u_protocol = ''https:'', u_hostname = ''[::1]''\<rparr>
     \<and> (\<forall>e d. \<exists>q. fst (deliverWebhook env 5 w e d) = [q] \<and> wq_url q = ''https://[::1]/'')"
proof -
  define w where "w = new_webhook ''w'' 0 ''o'' ''n'' ''https://[::1]/''"
  define env where "env = \<lparr>ne_parse_url = (\<lambda>u. Some \<lparr>u_protocol = ''https:'', u_hostname = ''[::1]''\<rparr>), ne_is_ip = (\<lambda>h. False),
       ne_lookup = (\<lambda>h. None), ne_hmac = (\<lambda>k p. k), ne_http = (\<lambda>u. Some 200)\<rparr>"
  have env: "\<not> ne_is_ip env ''[::1]''" "ne_lookup env ''[::1]'' = None"
    "ne_parse_url env (wh_url w) = Some \<lparr>u_protocol = ''https:'', u_hostname = ''[::1]''\<rparr>"
    and w: "wh_url w = ''https://[::1]/''"
    by (simp_all add: env_def w_def new_webhook_def)
  from env(1,2) have "\<not> ne_is_ip env ''[::1]'' \<and> ne_lookup env ''[::1]'' = None
      \<or> ne_is_ip env ''[::1]'' \<and> starts_with ''fd'' ''[::1]''" by (rule disjI1 [OF conjI])
  from webhook_check_gaps [OF this env(3)] w env(3) show ?thesis by metis
qed

text \<open>
  The event names are distinct, and the substring rules of \<open>determineSeverity\<close> sort them as
  intended: exactly the eight failure, block, miss and degradation events are errors and exactly
  four are warnings.
\<close>

theorem event_name_severities:
  "distinct (map snd EventNames)
   \<and> filter (\<lambda>n. determineSeverity n = ''error'') (map snd EventNames) =
       [''renewal.failed_final'', ''renewal.blocked_by_budget'', ''spending_limit.blocked'',
        ''alert_event.delivery_failed'', ''job.failed_final'', ''schedule.missed'',
        ''schedule.missed_critical'', ''system.degraded'']
   \<and> filter (\<lambda>n. determineSeverity n = ''warning'') (map snd EventNames) =
       [''blob.expiring'', ''policy.threshold_breached'', ''budget.threshold_crossed'',
        ''webhook.failing'']"
  by code_simp

end
