(* ===== verification/Publisher_Selector.thy ===== *)
theory Publisher_Selector
  imports Db App_Errors
begin

text \<open>
  The choice of a publisher for a renewal, \<open>keeper/src/publisher-selector.ts\<close>: the healthy
  publisher of least priority among those assigned to the project, with an optional override, and
  the organization's publisher as the fallback. Rows of equal priority keep their insertion order.
\<close>

section \<open>Selection\<close>

record publisher_info =
  pi_id :: string
  pi_name :: string
  pi_endpoint :: "string option"
  pi_walletAddress :: "string option"
  pi_suiVaultId :: "string option"
  pi_status :: string
  pi_lastHeartbeatAt :: "int option"
  pi_priority :: int

text \<open>\<open>parseInt\<close> of the environment variable; \<open>None\<close> is \<open>NaN\<close>.\<close>

definition STALE_HEARTBEAT_MS :: "string option \<Rightarrow> int option" where
  "STALE_HEARTBEAT_MS env = parse_int (or_default (truthy env) ''300000'')"

definition isPublisherHealthy :: "int option \<Rightarrow> int \<Rightarrow> publisher_row \<Rightarrow> bool" where
  "isPublisherHealthy stale now row =
     (let lastHb = or_default (pb_lastHeartbeatAt row) 0;
          healthMs = now - lastHb
      in pb_status row \<noteq> ''degraded''
         \<and> (case stale of Some ms \<Rightarrow> healthMs < ms | None \<Rightarrow> False))"

definition toPublisherInfo :: "publisher_row \<Rightarrow> int \<Rightarrow> publisher_info" where
  "toPublisherInfo p priority =
     \<lparr>pi_id = pb_id p, pi_name = pb_name p, pi_endpoint = pb_endpoint p,
      pi_walletAddress = pb_walletAddress p, pi_suiVaultId = pb_suiVaultId p,
      pi_status = pb_status p, pi_lastHeartbeatAt = pb_lastHeartbeatAt p, pi_priority = priority\<rparr>"

text \<open>The join of \<open>project_publishers\<close> and \<open>publishers\<close>, ordered by priority.\<close>

definition project_join :: "db \<Rightarrow> string \<Rightarrow> (publisher_row \<times> int) list" where
  "project_join d projectId =
     concat (map (\<lambda>pp. map (\<lambda>p. (p, pp_priority pp))
               (filter (\<lambda>p. pb_id p = pp_publisherId pp
                            \<and> (pb_status p = ''active'' \<or> pb_status p = ''degraded''))
                  (db_publishers d)))
             (filter (\<lambda>pp. pp_projectId pp = projectId \<and> pp_status pp = ''active'')
                (db_project_publishers d)))"

definition assigned_publishers :: "db \<Rightarrow> string \<Rightarrow> (publisher_row \<times> int) list" where
  "assigned_publishers d projectId = sort_by (\<lambda>x y. snd x \<le> snd y) (project_join d projectId)"

definition selectPublisherForProject ::
    "int option \<Rightarrow> int \<Rightarrow> db \<Rightarrow> string \<Rightarrow> int option \<Rightarrow> publisher_info option" where
  "selectPublisherForProject stale now d projectId override =
     (let assigned = assigned_publishers d projectId;
          healthy = (\<lambda>(p, _). isPublisherHealthy stale now p);
          first_healthy = map_option (\<lambda>(p, pr). toPublisherInfo p pr) (find healthy assigned)
      in if assigned = [] then None
         else (case override of
                 None \<Rightarrow> first_healthy
               | Some o_prio \<Rightarrow>
                   (case find (\<lambda>(_, pr). pr = o_prio) assigned of
                      None \<Rightarrow> first_healthy
                    | Some (p, pr) \<Rightarrow>
                        if isPublisherHealthy stale now p then Some (toPublisherInfo p pr)
                        else first_healthy)))"

text \<open>\<open>ORDER BY last_heartbeat_at DESC NULLS LAST LIMIT 1\<close>.\<close>

definition heartbeat_le :: "publisher_row \<Rightarrow> publisher_row \<Rightarrow> bool" where
  "heartbeat_le x y =
     (case (pb_lastHeartbeatAt x, pb_lastHeartbeatAt y) of
        (_, None) \<Rightarrow> True
      | (None, Some _) \<Rightarrow> False
      | (Some a, Some b) \<Rightarrow> b \<le> a)"

definition org_publishers :: "db \<Rightarrow> string \<Rightarrow> publisher_row list" where
  "org_publishers d orgId =
     filter (\<lambda>p. pb_orgId p = orgId \<and> (pb_status p = ''active'' \<or> pb_status p = ''degraded'')
                 \<and> pb_deletedAt p = None) (db_publishers d)"

definition selectPublisherForOrg ::
    "int option \<Rightarrow> int \<Rightarrow> db \<Rightarrow> string \<Rightarrow> publisher_info option" where
  "selectPublisherForOrg stale now d orgId =
     (case first_row (sort_by heartbeat_le (org_publishers d orgId)) of
        None \<Rightarrow> None
      | Some pub \<Rightarrow>
          if isPublisherHealthy stale now pub then Some (toPublisherInfo pub 0) else None)"

definition resolvePublisher ::
    "int option \<Rightarrow> int \<Rightarrow> db \<Rightarrow> string option \<Rightarrow> string \<Rightarrow> int option \<Rightarrow> publisher_info option" where
  "resolvePublisher stale now d projectId orgId override =
     (case truthy projectId of
        Some pid \<Rightarrow>
          (case selectPublisherForProject stale now d pid override of
             Some p \<Rightarrow> Some p
           | None \<Rightarrow> selectPublisherForOrg stale now d orgId)
      | None \<Rightarrow> selectPublisherForOrg stale now d orgId)"

section \<open>Facts\<close>

interpretation heartbeat: sort_order heartbeat_le
  by unfold_locales (auto simp: heartbeat_le_def split: option.splits)

lemma find_sorted_least:
  assumes "sorted_wrt le xs" and "\<And>x. le x x" and "find P xs = Some x" and "y \<in> set xs" and "P y"
  shows "le x y"
  using assms
proof (induction xs)
  case (Cons a xs)
  then show ?case by (auto split: if_splits)
qed simp

lemma find_memD: "find P xs = Some x \<Longrightarrow> x \<in> set xs \<and> P x"
  by (induction xs) (auto split: if_splits)

lemma set_assigned [table_simps]:
  "(p, pr) \<in> set (assigned_publishers d pid) \<longleftrightarrow>
     p \<in> set (db_publishers d) \<and> (pb_status p = ''active'' \<or> pb_status p = ''degraded'')
     \<and> (\<exists>pp \<in> set (db_project_publishers d). pp_projectId pp = pid \<and> pp_status pp = ''active''
          \<and> pp_publisherId pp = pb_id p \<and> pp_priority pp = pr)"
  by (auto simp: assigned_publishers_def project_join_def)

text \<open>The specification: who may serve a project, and who has the least priority among them.\<close>

definition serves :: "int option \<Rightarrow> int \<Rightarrow> db \<Rightarrow> string \<Rightarrow> publisher_row \<Rightarrow> int \<Rightarrow> bool" where
  "serves stale now d pid p pr \<longleftrightarrow>
     (p, pr) \<in> set (assigned_publishers d pid) \<and> isPublisherHealthy stale now p"

lemma first_healthy_spec:
  assumes "find (\<lambda>(p, _). isPublisherHealthy stale now p) (assigned_publishers d pid) = Some (p, pr)"
  shows "serves stale now d pid p pr" and "serves stale now d pid q r \<Longrightarrow> pr \<le> r"
proof -
  show "serves stale now d pid p pr"
    using find_memD [OF assms] by (simp add: serves_def)
next
  assume q: "serves stale now d pid q r"
  have "(\<lambda>x y :: publisher_row \<times> int. snd x \<le> snd y) (p, pr) (q, r)"
    by (rule find_sorted_least [OF _ _ assms])
      (use q in \<open>auto simp: serves_def assigned_publishers_def key_asc.sorted_sort\<close>)
  then show "pr \<le> r" by simp
qed

lemma first_healthy_none:
  assumes "find (\<lambda>(p, _). isPublisherHealthy stale now p) (assigned_publishers d pid) = None"
  shows "\<not> serves stale now d pid p pr"
  using assms by (auto simp: find_None_iff serves_def)

lemma select_project_cases:
  "selectPublisherForProject stale now d pid override =
     (case override of
        Some k \<Rightarrow>
          (case find (\<lambda>(_, pr). pr = k) (assigned_publishers d pid) of
             Some (p, pr) \<Rightarrow>
               if isPublisherHealthy stale now p then Some (toPublisherInfo p pr)
               else map_option (\<lambda>(p, pr). toPublisherInfo p pr)
                      (find (\<lambda>(p, _). isPublisherHealthy stale now p) (assigned_publishers d pid))
           | None \<Rightarrow> map_option (\<lambda>(p, pr). toPublisherInfo p pr)
                      (find (\<lambda>(p, _). isPublisherHealthy stale now p) (assigned_publishers d pid)))
      | None \<Rightarrow> map_option (\<lambda>(p, pr). toPublisherInfo p pr)
                  (find (\<lambda>(p, _). isPublisherHealthy stale now p) (assigned_publishers d pid)))"
  by (auto simp: selectPublisherForProject_def Let_def split: option.splits)

lemma select_project_some:
  assumes "selectPublisherForProject stale now d pid override = Some i"
  shows "\<exists>p pr. i = toPublisherInfo p pr \<and> serves stale now d pid p pr
    \<and> (override = Some pr \<or> (\<forall>q r. serves stale now d pid q r \<longrightarrow> pr \<le> r))"
proof -
  let ?first = "find (\<lambda>(p, _). isPublisherHealthy stale now p) (assigned_publishers d pid)"
  from assms consider
      k p pr where "override = Some k" "find (\<lambda>(_, pr). pr = k) (assigned_publishers d pid) = Some (p, pr)"
        "isPublisherHealthy stale now p" "i = toPublisherInfo p pr"
    | p pr where "?first = Some (p, pr)" "i = toPublisherInfo p pr"
    by (auto simp: select_project_cases split: option.splits if_splits)
  then show ?thesis
  proof cases
    case 1
    then show ?thesis using find_memD [OF 1(2)] by (auto simp: serves_def)
  next
    case 2
    then show ?thesis using first_healthy_spec [OF 2(1)] by blast
  qed
qed

lemma select_project_none:
  "selectPublisherForProject stale now d pid override = None \<longleftrightarrow> (\<nexists>p pr. serves stale now d pid p pr)"
proof
  assume "selectPublisherForProject stale now d pid override = None"
  then have "find (\<lambda>(p, _). isPublisherHealthy stale now p) (assigned_publishers d pid) = None"
    by (auto simp: select_project_cases split: option.splits if_splits)
  then show "\<nexists>p pr. serves stale now d pid p pr" using first_healthy_none by blast
next
  assume none: "\<nexists>p pr. serves stale now d pid p pr"
  then show "selectPublisherForProject stale now d pid override = None"
    by (metis not_None_eq select_project_some)
qed

section \<open>Properties\<close>

text \<open>
  C12: the publisher of a project is an assigned, active and recently seen one; without a matching
  override none that could serve has a lower priority; and the search fails only when no assigned
  publisher could serve.
\<close>

theorem publisher_choice_spec:
  "(selectPublisherForProject stale now d pid override = None \<longleftrightarrow> (\<nexists>p pr. serves stale now d pid p pr))
   \<and> (case selectPublisherForProject stale now d pid override of
        None \<Rightarrow> True
      | Some i \<Rightarrow> \<exists>p pr. i = toPublisherInfo p pr \<and> serves stale now d pid p pr
          \<and> (override = Some pr \<or> \<not> (\<exists>q r. serves stale now d pid q r \<and> r < pr)))"
proof -
  have "case selectPublisherForProject stale now d pid override of
        None \<Rightarrow> True
      | Some i \<Rightarrow> \<exists>p pr. i = toPublisherInfo p pr \<and> serves stale now d pid p pr
          \<and> (override = Some pr \<or> \<not> (\<exists>q r. serves stale now d pid q r \<and> r < pr))"
  proof (cases "selectPublisherForProject stale now d pid override")
    case (Some i)
    from select_project_some [OF this] obtain p pr where
      "i = toPublisherInfo p pr" "serves stale now d pid p pr"
      "override = Some pr \<or> (\<forall>q r. serves stale now d pid q r \<longrightarrow> pr \<le> r)" by blast
    with Some show ?thesis by (auto simp: not_less intro!: exI [of _ p] exI [of _ pr])
  qed simp
  with select_project_none show ?thesis by blast
qed

theorem publisher_choice_spec_witness:
  "\<exists>d p q pr. db_publishers d = [q, p] \<and> serves (Some 300) 1000 d ''pr'' q 5
     \<and> serves (Some 300) 1000 d ''pr'' p 2 \<and> pr < 5
     \<and> map_option pi_priority (selectPublisherForProject (Some 300) 1000 d ''pr'' None) = Some pr"
proof -
  let ?q = "(new_publisher ''q'' 0 ''o'' ''Q'')\<lparr>pb_lastHeartbeatAt := Some 900\<rparr>"
  let ?p = "(new_publisher ''p'' 0 ''o'' ''P'')\<lparr>pb_lastHeartbeatAt := Some 950\<rparr>"
  let ?link = "\<lambda>i k. \<lparr>pp_id = i, pp_projectId = ''pr'', pp_publisherId = i, pp_priority = k,
                     pp_status = ''active'', pp_createdAt = 0, pp_updatedAt = 0\<rparr>"
  define d where "d = empty_db\<lparr>db_publishers := [?q, ?p],
                       db_project_publishers := [?link ''q'' 5, ?link ''p'' 2]\<rparr>"
  have join: "set (project_join d ''pr'') = {(?q, 5), (?p, 2)}"
    by (simp add: d_def project_join_def new_publisher_def)
  have serving: "serves (Some 300) 1000 d ''pr'' ?q 5" "serves (Some 300) 1000 d ''pr'' ?p 2"
    unfolding serves_def assigned_publishers_def set_sort_by join
    by (simp_all add: isPublisherHealthy_def new_publisher_def)
  from serving publisher_choice_spec [of "Some 300" 1000 d "''pr''" None] obtain i pr where
      "selectPublisherForProject (Some 300) 1000 d ''pr'' None = Some i" "pi_priority i = pr" "pr \<le> 2"
    by (fastforce simp: toPublisherInfo_def not_less)
  with serving show ?thesis
    by (intro exI [of _ d] exI [of _ ?p] exI [of _ ?q] exI [of _ pr]) (simp add: d_def)
qed

text \<open>
  The fallback of the organization looks only at the publisher with the latest heartbeat: when
  that one is degraded it answers that no publisher is available, whatever healthy publishers the
  organization has.
\<close>

theorem org_fallback_blind:
  assumes "p \<in> set (org_publishers d org)" and "pb_status p = ''degraded''"
    and "pb_lastHeartbeatAt p = Some t"
    and "\<forall>q \<in> set (org_publishers d org). q = p \<or> or_default (pb_lastHeartbeatAt q) (t - 1) < t"
  shows "selectPublisherForOrg stale now d org = None
    \<and> resolvePublisher stale now d None org override = None"
proof -
  let ?s = "sort_by heartbeat_le (org_publishers d org)"
  from assms(1) have ne: "org_publishers d org \<noteq> []" by auto
  from heartbeat.hd_sort_mem [OF ne] have mem: "hd ?s \<in> set (org_publishers d org)" .
  from heartbeat.hd_sort_least [OF ne assms(1)] have "heartbeat_le (hd ?s) p" .
  with assms(3) have "or_default (pb_lastHeartbeatAt (hd ?s)) (t - 1) \<ge> t"
    by (auto simp: heartbeat_le_def split: option.splits)
  with assms(4) mem have "hd ?s = p" by fastforce
  moreover have "?s \<noteq> []" using ne by simp
  ultimately have "first_row ?s = Some p" by (metis first_row_simps(2) list.collapse)
  then have "selectPublisherForOrg stale now d org = None"
    using assms(2) by (simp add: selectPublisherForOrg_def isPublisherHealthy_def Let_def)
  then show ?thesis by (simp add: resolvePublisher_def truthy_def)
qed

theorem org_fallback_blind_witness:
  "\<exists>d q. q \<in> set (org_publishers d ''o'') \<and> isPublisherHealthy (Some 300000) 1000 q
     \<and> selectPublisherForOrg (Some 300000) 1000 d ''o'' = None"
proof -
  let ?q = "(new_publisher ''q'' 0 ''o'' ''Q'')\<lparr>pb_lastHeartbeatAt := Some 900\<rparr>"
  let ?p = "(new_publisher ''p'' 0 ''o'' ''P'')\<lparr>pb_status := ''degraded'', pb_lastHeartbeatAt := Some 950\<rparr>"
  let ?d = "empty_db\<lparr>db_publishers := [?q, ?p]\<rparr>"
  have eq: "org_publishers ?d ''o'' = [?q, ?p]"
    by (simp add: org_publishers_def new_publisher_def)
  have "selectPublisherForOrg (Some 300000) 1000 ?d ''o'' = None"
    by (rule conjunct1 [OF org_fallback_blind [of ?p _ _ 950]], unfold eq)
      (simp_all add: new_publisher_def)
  with eq show ?thesis
    by (intro exI [of _ ?d] exI [of _ ?q]) (simp add: isPublisherHealthy_def new_publisher_def)
qed

end
