(* ===== verification/Executor.thy ===== *)
theory Executor
  imports Scanner Retry Event_Bus Publisher_Selector
begin

text \<open>
  Renewal of one vault, \<open>keeper/src/executor.ts\<close>: the cache of the fee configuration, the renewal
  transaction, its events, and the loop that submits it up to three times and consults the chain
  before a repetition. The RPC calls, the aggregator and the random numbers are parameters; the
  trace of a run lists the attempts submitted, the waits and the events emitted.
\<close>

section \<open>The fee configuration\<close>

record fee_entry =
  fe_objectId :: string
  fe_cachedAt :: int

type_synonym fee_cache = "string \<rightharpoonup> fee_entry"

definition FEE_CONFIG_CACHE_TTL_MS :: "string option \<Rightarrow> int option" where
  "FEE_CONFIG_CACHE_TTL_MS env = parse_int (or_default (truthy env) ''300000'')"

text \<open>An expired entry is deleted; with a TTL that is not a number nothing expires.\<close>

definition fc_get :: "int option \<Rightarrow> int \<Rightarrow> string \<Rightarrow> fee_cache \<Rightarrow> string option \<times> fee_cache" where
  "fc_get ttl now packageId cache =
     (case cache packageId of
        None \<Rightarrow> (None, cache)
      | Some entry \<Rightarrow>
          if (case ttl of Some ms \<Rightarrow> now - fe_cachedAt entry > ms | None \<Rightarrow> False)
          then (None, cache(packageId := None))
          else (Some (fe_objectId entry), cache))"

definition fc_set :: "int \<Rightarrow> string \<Rightarrow> string \<Rightarrow> fee_cache \<Rightarrow> fee_cache" where
  "fc_set now packageId objectId cache =
     cache(packageId \<mapsto> \<lparr>fe_objectId = objectId, fe_cachedAt = now\<rparr>)"

definition fc_invalidate :: "string \<Rightarrow> fee_cache \<Rightarrow> fee_cache" where
  "fc_invalidate packageId cache = cache(packageId := None)"

text \<open>An object of the query is its type and id, or \<open>None\<close> without data.\<close>

type_synonym fee_object = "(string option \<times> string) option"

definition fee_matches :: "string \<Rightarrow> fee_object \<Rightarrow> bool" where
  "fee_matches packageId obj =
     (case obj of Some (Some ty, _) \<Rightarrow> str_includes ty packageId | _ \<Rightarrow> False)"

definition findFeeConfigObject ::
    "int option \<Rightarrow> int \<Rightarrow> (nat \<Rightarrow> thrown + fee_object list) \<Rightarrow> (nat \<Rightarrow> rat) \<Rightarrow> string \<Rightarrow> fee_cache
     \<Rightarrow> (thrown + string) \<times> fee_cache" where
  "findFeeConfigObject ttl now query rnd packageId cache =
     (let (cached, cache1) = fc_get ttl now packageId cache in
      case truthy cached of
        Some o_id \<Rightarrow> (Inr o_id, cache1)
      | None \<Rightarrow>
          (let feeConfigType = packageId @ ''::vault::FeeConfig'' in
           case fst (kw_withRetry query rnd
                  (kretry_defaults (Some 3) (Some 2000) None (Some ''findFeeConfigObject''))) of
             Inl e \<Rightarrow> (Inl e, cache1)
           | Inr data \<Rightarrow>
               if data = [] then
                 (Inl (js_Error (''FeeConfig shared object not found for type '' @ feeConfigType
                    @ ''. Make sure the contract has been deployed and init() has run.'')), cache1)
               else
                 (case filter (fee_matches packageId) data of
                    Some (_, objectId) # _ \<Rightarrow>
                      (Inr objectId, fc_set now packageId objectId cache1)
                  | _ \<Rightarrow>
                      (Inl (js_Error (''FeeConfig shared object found but none match package ''
                         @ packageId @ ''. Ensure the deployed package ID is correct.'')), cache1))))"

section \<open>The transaction and its events\<close>

record move_call =
  mc_target :: string
  mc_arguments :: "string list"
  mc_sender :: string

definition buildTransaction :: "string \<Rightarrow> due_vault \<Rightarrow> string \<Rightarrow> string \<Rightarrow> string \<Rightarrow> move_call" where
  "buildTransaction sender vault packageId systemObjectId feeConfigObjectId =
     \<lparr>mc_target = packageId @ ''::vault::execute_renewal'',
      mc_arguments = [dv_objectId vault, feeConfigObjectId, systemObjectId], mc_sender = sender\<rparr>"

datatype alert_type = InsufficientBalance | PolicyExhausted | RenewalExecuted

record alert_event =
  al_type :: alert_type
  al_vaultId :: string
  al_blobId :: string
  al_beneficiary :: string
  al_timestamp :: int
  al_required :: "int option"
  al_available :: "int option"
  al_maxTotalEpochs :: "int option"
  al_actualCost :: "int option"
  al_keeperFeePaid :: "int option"

record sui_event =
  se_type :: string
  se_parsedJson :: "json option"

record tx_effects =
  fx_success :: bool
  fx_error :: "string option"
  fx_computationCost :: "string option"

record tx_response =
  tx_digest :: string
  tx_effects :: "tx_effects option"
  tx_events :: "sui_event list"

record renewal_result =
  rr_vaultId :: string
  rr_digest :: string
  rr_gasUsed :: int
  rr_alerts :: "alert_event list"

definition bigint_error :: "string \<Rightarrow> thrown" where
  "bigint_error s =
     ErrObj ((plain_error (''Cannot convert '' @ s @ '' to a BigInt''))\<lparr>e_name := ''SyntaxError''\<rparr>) None"

definition to_bigint :: "string \<Rightarrow> thrown + int" where
  "to_bigint s = (case parse_bigint s of Some n \<Rightarrow> Inr n | None \<Rightarrow> Inl (bigint_error s))"

text \<open>\<open>BigInt(String(parsed.k || '0'))\<close>.\<close>

definition big_field :: "json \<Rightarrow> string \<Rightarrow> thrown + int" where
  "big_field parsed k =
     to_bigint (if json_truthy (jget parsed k) then js_String (the (jget parsed k)) else ''0'')"

text \<open>\<open>Number(v)\<close> of a number or a decimal string; \<open>None\<close> is \<open>NaN\<close>.\<close>

definition js_number :: "json \<Rightarrow> int option" where
  "js_number j = (case j of JNum n \<Rightarrow> Some n | JStr s \<Rightarrow> parse_bigint s | JNull \<Rightarrow> Some 0 | _ \<Rightarrow> None)"

definition plain_alert :: "alert_type \<Rightarrow> due_vault \<Rightarrow> string \<Rightarrow> int \<Rightarrow> alert_event" where
  "plain_alert ty vault blob now =
     \<lparr>al_type = ty, al_vaultId = dv_id vault, al_blobId = blob, al_beneficiary = dv_beneficiary vault,
      al_timestamp = now, al_required = None, al_available = None, al_maxTotalEpochs = None,
      al_actualCost = None, al_keeperFeePaid = None\<rparr>"

definition event_blob :: "due_vault \<Rightarrow> json \<Rightarrow> string" where
  "event_blob vault parsed =
     (case jget parsed ''blob_id'' of
        Some (JStr (c # cs)) \<Rightarrow> c # cs
      | _ \<Rightarrow> dv_blobId vault)"

definition event_alerts :: "due_vault \<Rightarrow> int \<Rightarrow> string \<Rightarrow> json \<Rightarrow> thrown + alert_event list" where
  "event_alerts vault now ty parsed =
     bindE (if ends_with ty ''::vault::RenewalExecuted''
            then bindE (big_field parsed ''actual_cost'') (\<lambda>c.
                 bindE (big_field parsed ''keeper_fee_paid'') (\<lambda>f.
                   Inr [(plain_alert RenewalExecuted vault (event_blob vault parsed) now)
                          \<lparr>al_actualCost := Some c, al_keeperFeePaid := Some f\<rparr>]))
            else Inr []) (\<lambda>a1.
     bindE (if ends_with ty ''::vault::InsufficientBalance''
            then bindE (big_field parsed ''required'') (\<lambda>r.
                 bindE (big_field parsed ''available'') (\<lambda>a.
                   Inr [(plain_alert InsufficientBalance vault (dv_blobId vault) now)
                          \<lparr>al_required := Some r, al_available := Some a\<rparr>]))
            else Inr []) (\<lambda>a2.
     Inr (a1 @ a2 @
       (if ends_with ty ''::vault::PolicyExhausted''
        then [(plain_alert PolicyExhausted vault (event_blob vault parsed) now)
                \<lparr>al_maxTotalEpochs := js_number
                   (if json_truthy (jget parsed ''max_total_epochs'')
                    then the (jget parsed ''max_total_epochs'') else JNum 0)\<rparr>]
        else []))))"

fun parseEvents :: "due_vault \<Rightarrow> int \<Rightarrow> sui_event list \<Rightarrow> thrown + alert_event list" where
  "parseEvents vault now [] = Inr []"
| "parseEvents vault now (e # es) =
     (if \<not> json_truthy (se_parsedJson e) then parseEvents vault now es
      else bindE (event_alerts vault now (se_type e) (the (se_parsedJson e))) (\<lambda>a.
             bindE (parseEvents vault now es) (\<lambda>as. Inr (a @ as))))"

section \<open>The executor\<close>

record executor =
  ex_retryDelayMs :: int
  ex_maxRetries :: nat
  ex_packageId :: string
  ex_systemObjectId :: string
  ex_aggregatorUrl :: string
  ex_sender :: string
  ex_selectedPublisher :: "publisher_info option"
  ex_lastOrgId :: string

definition executor_new ::
    "string \<Rightarrow> int option \<Rightarrow> string option \<Rightarrow> string option \<Rightarrow> string option \<Rightarrow> string option
     \<Rightarrow> string option \<Rightarrow> executor" where
  "executor_new sender retryDelayMs packageId aggregatorUrl env_package env_system env_aggregator =
     \<lparr>ex_retryDelayMs = or_default retryDelayMs 5000, ex_maxRetries = 3,
      ex_packageId = (case truthy packageId of Some p \<Rightarrow> p | None \<Rightarrow> or_default env_package []),
      ex_systemObjectId = or_default env_system [],
      ex_aggregatorUrl = (case truthy aggregatorUrl of Some u \<Rightarrow> u | None \<Rightarrow> or_default env_aggregator []),
      ex_sender = sender, ex_selectedPublisher = None, ex_lastOrgId = []\<rparr>"

definition resolvePublisherForRenewal ::
    "int option \<Rightarrow> int \<Rightarrow> db \<Rightarrow> string option \<Rightarrow> string \<Rightarrow> int option \<Rightarrow> executor \<Rightarrow> bool \<times> executor" where
  "resolvePublisherForRenewal stale now d projectId orgId override ex =
     (let p = resolvePublisher stale now d projectId orgId override
      in (p \<noteq> None, ex\<lparr>ex_lastOrgId := orgId, ex_selectedPublisher := p\<rparr>))"

text \<open>
  What the outside does: the outcome of submitting a transaction at an attempt, of an HTTP request
  to the aggregator after an attempt, and the random numbers.
\<close>

record exec_env =
  xe_submit :: "nat \<Rightarrow> move_call \<Rightarrow> thrown + tx_response"
  xe_http :: "nat \<Rightarrow> string \<Rightarrow> thrown + json"
  xe_random :: "nat \<Rightarrow> rat"
  xe_now :: int

definition status_url :: "string \<Rightarrow> string \<Rightarrow> string" where
  "status_url aggregatorUrl blobId = aggregatorUrl @ ''/v1/blobs/'' @ blobId @ ''/status''"

definition verifyOnChainStateBeforeRetry ::
    "(string \<Rightarrow> thrown + json) \<Rightarrow> string \<Rightarrow> string \<Rightarrow> bool \<times> json" where
  "verifyOnChainStateBeforeRetry http blobId aggregatorUrl =
     (case http (status_url aggregatorUrl blobId) of
        Inr state \<Rightarrow> (True, state)
      | Inl _ \<Rightarrow> (False, JNull))"

definition nullish :: "json option \<Rightarrow> bool" where
  "nullish v = (v = None \<or> v = Some JNull)"

text \<open>\<open>Number(state?.epoch ?? state?.expiry_epoch ?? 0)\<close>.\<close>

definition state_epoch :: "json \<Rightarrow> int option" where
  "state_epoch state =
     js_number (if \<not> nullish (jget state ''epoch'') then the (jget state ''epoch'')
                else if \<not> nullish (jget state ''expiry_epoch'') then the (jget state ''expiry_epoch'')
                else JNum 0)"

definition already_extended :: "due_vault \<Rightarrow> json \<Rightarrow> bool" where
  "already_extended vault state =
     (case state_epoch state of
        Some e \<Rightarrow> e \<ge> dv_currentEndEpoch vault + dv_renewByEpochs vault
      | None \<Rightarrow> False)"

definition delegation_used :: "int \<Rightarrow> executor \<Rightarrow> due_vault \<Rightarrow> string \<Rightarrow> event_payload" where
  "delegation_used now ex vault digest =
     createEvent now ''delegation.used'' (or_default (truthy (Some (ex_lastOrgId ex))) ''system'')
       ''wallet'' (dv_id vault) ActSystem
       (Some (JObj [(''beneficiary'', JStr (dv_beneficiary vault)), (''digest'', JStr digest)])) None"

text \<open>The body of \<open>try\<close>, after the submission.\<close>

definition settle_tx :: "int \<Rightarrow> due_vault \<Rightarrow> tx_response \<Rightarrow> thrown + renewal_result" where
  "settle_tx now vault r =
     bindE (parseEvents vault now (tx_events r)) (\<lambda>alerts.
       case tx_effects r of
         None \<Rightarrow> Inl (js_Error ''Transaction effects missing from RPC response'')
       | Some fx \<Rightarrow>
           (let result = bindE (to_bigint (or_default (truthy (fx_computationCost fx)) ''0''))
                  (\<lambda>gas. Inr \<lparr>rr_vaultId = dv_id vault, rr_digest = tx_digest r, rr_gasUsed = gas,
                              rr_alerts = alerts\<rparr>)
            in if \<not> fx_success fx
               then (if length alerts > 0 then result
                     else Inl (js_Error (''Transaction failed: ''
                            @ or_default (truthy (fx_error fx)) ''Unknown failure'')))
               else result))"

record exec_trace =
  xt_submitted :: "nat list"
  xt_waits :: "int list"
  xt_events :: "event_payload list"

definition retry_delay :: "exec_env \<Rightarrow> executor \<Rightarrow> nat \<Rightarrow> int" where
  "retry_delay env ex attempt =
     jittered (min (ex_retryDelayMs ex * 2 ^ (attempt - 1)) 30000) (xe_random env attempt)"

definition previously_committed :: "due_vault \<Rightarrow> renewal_result" where
  "previously_committed vault =
     \<lparr>rr_vaultId = dv_id vault, rr_digest = ''(previously committed)'', rr_gasUsed = 0, rr_alerts = []\<rparr>"

text \<open>
  One round of the loop: it finishes, or asks for another attempt and says whether it waits first.
  \<open>left\<close> is the number of attempts that remain.
\<close>

datatype round = Finished "thrown + renewal_result" | Again thrown bool

definition run_round ::
    "exec_env \<Rightarrow> executor \<Rightarrow> due_vault \<Rightarrow> nat \<Rightarrow> nat \<Rightarrow> thrown + tx_response \<Rightarrow> round" where
  "run_round env ex vault left attempt outcome =
     (case bindE outcome (settle_tx (xe_now env) vault) of
        Inr r \<Rightarrow> Finished (Inr r)
      | Inl e \<Rightarrow>
          if \<not> isRetryableJobError e then Finished (Inl e)
          else if ex_aggregatorUrl ex \<noteq> [] \<and> left > 0 then
            (case verifyOnChainStateBeforeRetry (xe_http env attempt) (dv_blobId vault)
                    (ex_aggregatorUrl ex) of
               (verified, state) \<Rightarrow>
                 if \<not> verified then Again e True
                 else if already_extended vault state then Finished (Inr (previously_committed vault))
                 else Again e True)
          else Again e (left > 0))"

definition submitted :: "exec_env \<Rightarrow> executor \<Rightarrow> due_vault \<Rightarrow> nat \<Rightarrow> thrown + tx_response \<Rightarrow> exec_trace \<Rightarrow> exec_trace" where
  "submitted env ex vault attempt outcome t =
     t\<lparr>xt_submitted := xt_submitted t @ [attempt],
       xt_events := xt_events t @
         (case outcome of
            Inr r \<Rightarrow> [delegation_used (xe_now env) ex vault (tx_digest r)] | Inl _ \<Rightarrow> [])\<rparr>"

fun exec_loop ::
    "exec_env \<Rightarrow> executor \<Rightarrow> due_vault \<Rightarrow> move_call \<Rightarrow> nat \<Rightarrow> nat \<Rightarrow> thrown option \<Rightarrow> exec_trace
     \<Rightarrow> (thrown + renewal_result) \<times> exec_trace" where
  "exec_loop env ex vault tx 0 attempt lastError t =
     (Inl (or_default lastError (js_Error ''Max retries exceeded'')), t)"
| "exec_loop env ex vault tx (Suc left) attempt lastError t =
     (let outcome = xe_submit env attempt tx;
          t1 = submitted env ex vault attempt outcome t
      in case run_round env ex vault left attempt outcome of
           Finished r \<Rightarrow> (r, t1)
         | Again e wait \<Rightarrow>
             exec_loop env ex vault tx left (attempt + 1) (Some e)
               (if wait then t1\<lparr>xt_waits := xt_waits t1 @ [retry_delay env ex attempt]\<rparr> else t1))"

definition no_trace :: exec_trace where
  "no_trace = \<lparr>xt_submitted = [], xt_waits = [], xt_events = []\<rparr>"

definition executeRenewal ::
    "exec_env \<Rightarrow> (thrown + string) \<Rightarrow> executor \<Rightarrow> due_vault \<Rightarrow> (thrown + renewal_result) \<times> exec_trace" where
  "executeRenewal env fee ex vault =
     (if ex_packageId ex = []
      then (Inl (js_Error ''PACKAGE_ID environment variable is required to execute renewals''), no_trace)
      else if ex_systemObjectId ex = []
      then (Inl (js_Error ''SYSTEM_OBJECT_ID environment variable is required to execute renewals''), no_trace)
      else case fee of
        Inl e \<Rightarrow> (Inl e, no_trace)
      | Inr feeConfig \<Rightarrow>
          exec_loop env ex vault
            (buildTransaction (ex_sender ex) vault (ex_packageId ex) (ex_systemObjectId ex) feeConfig)
            (ex_maxRetries ex) 1 None no_trace)"

section \<open>Facts\<close>

text \<open>What justifies a result: a settled transaction, or the chain already holding the extension.\<close>

definition settled :: "exec_env \<Rightarrow> due_vault \<Rightarrow> move_call \<Rightarrow> nat \<Rightarrow> renewal_result \<Rightarrow> bool" where
  "settled env vault tx k r \<longleftrightarrow>
     (\<exists>resp fx. xe_submit env k tx = Inr resp \<and> tx_effects resp = Some fx \<and> rr_digest r = tx_digest resp
        \<and> parseEvents vault (xe_now env) (tx_events resp) = Inr (rr_alerts r)
        \<and> (fx_success fx \<or> rr_alerts r \<noteq> []))"

definition found_extended :: "exec_env \<Rightarrow> executor \<Rightarrow> due_vault \<Rightarrow> nat \<Rightarrow> renewal_result \<Rightarrow> bool" where
  "found_extended env ex vault k r \<longleftrightarrow>
     r = previously_committed vault \<and> ex_aggregatorUrl ex \<noteq> []
     \<and> (\<exists>state. xe_http env k (status_url (ex_aggregatorUrl ex) (dv_blobId vault)) = Inr state
          \<and> already_extended vault state)"

lemma settle_tx_ok:
  assumes "settle_tx now vault resp = Inr r"
  shows "\<exists>fx. tx_effects resp = Some fx \<and> rr_digest r = tx_digest resp
    \<and> parseEvents vault now (tx_events resp) = Inr (rr_alerts r) \<and> (fx_success fx \<or> rr_alerts r \<noteq> [])"
proof -
  from assms obtain as where as: "parseEvents vault now (tx_events resp) = Inr as"
    by (auto simp: settle_tx_def bindE_Inr_iff)
  with assms obtain fx where fx: "tx_effects resp = Some fx"
    by (cases "tx_effects resp") (simp_all add: settle_tx_def)
  with assms as show ?thesis
    by (cases "fx_success fx") (auto simp: settle_tx_def Let_def bindE_Inr_iff split: if_splits)
qed

lemma settle_ok:
  "bindE (xe_submit env k tx) (settle_tx (xe_now env) vault) = Inr r \<Longrightarrow> settled env vault tx k r"
  using settle_tx_ok [of "xe_now env" vault _ r] by (auto simp: settled_def bindE_Inr_iff)

lemma verify_cases:
  "verifyOnChainStateBeforeRetry http b u = (True, st) \<Longrightarrow> http (status_url u b) = Inr st"
  by (auto simp: verifyOnChainStateBeforeRetry_def split: sum.splits)

lemma round_ok:
  assumes "run_round env ex vault left k (xe_submit env k tx) = Finished (Inr r)"
  shows "settled env vault tx k r \<or> found_extended env ex vault k r"
proof (cases "bindE (xe_submit env k tx) (settle_tx (xe_now env) vault)")
  case (Inr r')
  with assms settle_ok [OF Inr] show ?thesis by (simp add: run_round_def)
next
  case (Inl e)
  obtain v st where v: "verifyOnChainStateBeforeRetry (xe_http env k) (dv_blobId vault) (ex_aggregatorUrl ex) = (v, st)"
    by fastforce
  with Inl assms have c: "v" "already_extended vault st" "r = previously_committed vault"
      "ex_aggregatorUrl ex \<noteq> []"
    by (auto simp: run_round_def split: if_splits)
  with v have "xe_http env k (status_url (ex_aggregatorUrl ex) (dv_blobId vault)) = Inr st"
    by (simp add: verify_cases)
  with c show ?thesis by (auto simp: found_extended_def)
qed

lemma submitted_sel [simp]:
  "xt_submitted (submitted env ex vault k oc t) = xt_submitted t @ [k]"
  "xt_waits (submitted env ex vault k oc t) = xt_waits t"
  by (simp_all add: submitted_def)

lemma exec_loop_trace:
  "exec_loop env ex vault tx left a le t = (r, t') \<Longrightarrow>
     \<exists>n ks. n \<le> left \<and> xt_submitted t' = xt_submitted t @ [a..<a + n] \<and> set ks \<subseteq> {a..<a + n}
       \<and> xt_waits t' = xt_waits t @ map (retry_delay env ex) ks"
proof (induction left arbitrary: a le t)
  case 0
  then show ?case by (auto intro: exI [of _ "[]"])
next
  case (Suc left)
  let ?o = "xe_submit env a tx"
  show ?case
  proof (cases "run_round env ex vault left a ?o")
    case (Finished r')
    with Suc.prems show ?thesis by (intro exI [of _ 1] exI [of _ "[]"]) auto
  next
    case (Again e w)
    let ?t1 = "submitted env ex vault a ?o t"
    let ?t = "if w then ?t1\<lparr>xt_waits := xt_waits ?t1 @ [retry_delay env ex a]\<rparr> else ?t1"
    from Suc.prems Again have "exec_loop env ex vault tx left (a + 1) (Some e) ?t = (r, t')"
      by (simp add: Let_def)
    from Suc.IH [OF this] obtain n ks where n: "n \<le> left"
      "xt_submitted t' = xt_submitted ?t @ [a + 1..<a + 1 + n]" "set ks \<subseteq> {a + 1..<a + 1 + n}"
      "xt_waits t' = xt_waits ?t @ map (retry_delay env ex) ks" by blast
    have "[a..<a + Suc n] = a # [a + 1..<a + 1 + n]" by (simp add: upt_rec)
    with n show ?thesis
      by (intro exI [of _ "Suc n"] exI [of _ "(if w then [a] else []) @ ks"]) auto
  qed
qed

lemma exec_loop_sound:
  "exec_loop env ex vault tx left a le t = (Inr r, t') \<Longrightarrow>
     \<exists>k. a \<le> k \<and> k < a + left \<and> (settled env vault tx k r \<or> found_extended env ex vault k r)"
proof (induction left arbitrary: a le t)
  case (Suc left)
  show ?case
  proof (cases "run_round env ex vault left a (xe_submit env a tx)")
    case (Finished r')
    with Suc.prems have "run_round env ex vault left a (xe_submit env a tx) = Finished (Inr r)"
      by (simp add: Let_def)
    from round_ok [OF this] show ?thesis by (intro exI [of _ a]) simp
  next
    case (Again e w)
    with Suc.prems obtain t1 where "exec_loop env ex vault tx left (a + 1) (Some e) t1 = (Inr r, t')"
      by (auto simp: Let_def)
    from Suc.IH [OF this] show ?thesis by (metis Suc_eq_plus1 Suc_leD add_Suc_shift)
  qed
qed simp

lemma exec_loop_retries:
  assumes "\<And>k. \<exists>e. xe_submit env k tx = Inl e \<and> isRetryableJobError e"
    and "ex_aggregatorUrl ex = [] \<or> (\<forall>k u. \<not> is_ok (xe_http env k u))"
  shows "xt_submitted (snd (exec_loop env ex vault tx left a le t)) = xt_submitted t @ [a..<a + left]"
proof (induction left arbitrary: a le t)
  case (Suc left)
  from assms(1) [of a] obtain e where e: "xe_submit env a tx = Inl e" "isRetryableJobError e" by blast
  have "fst (verifyOnChainStateBeforeRetry (xe_http env a) b u) = False" if "ex_aggregatorUrl ex \<noteq> []" for b u
    using assms(2) that
    by (auto simp: verifyOnChainStateBeforeRetry_def split: sum.splits) (metis is_ok_simps(1))
  then obtain w where "run_round env ex vault left a (Inl e) = Again e w"
    using e(2)
    by (cases "ex_aggregatorUrl ex = []"; cases "0 < left") (auto simp: run_round_def split_beta)
  then show ?case using e Suc.IH by (simp add: Let_def upt_rec [of a])
qed simp

section \<open>Properties\<close>

text \<open>
  C6: a reported renewal is justified: one of the at most three attempts, submitted in order, was
  answered by a transaction of the reported digest that succeeded or left alerts, or the chain
  already held the extension; and every wait lies between 0 and 30 seconds.
\<close>

theorem execute_renewal_sound:
  assumes "executeRenewal env (Inr fee) ex vault = (Inr r, t)"
    and "\<forall>k. 0 \<le> xe_random env k \<and> xe_random env k < 1" and "0 \<le> ex_retryDelayMs ex"
  shows "(\<exists>k. 1 \<le> k \<and> k \<le> ex_maxRetries ex \<and>
       (settled env vault (buildTransaction (ex_sender ex) vault (ex_packageId ex) (ex_systemObjectId ex) fee) k r
        \<or> found_extended env ex vault k r))
    \<and> (\<exists>n \<le> ex_maxRetries ex. xt_submitted t = [1..<n + 1])
    \<and> list_all (\<lambda>w. 0 \<le> w \<and> w \<le> 30000) (xt_waits t)"
proof -
  let ?tx = "buildTransaction (ex_sender ex) vault (ex_packageId ex) (ex_systemObjectId ex) fee"
  from assms(1) have run: "exec_loop env ex vault ?tx (ex_maxRetries ex) 1 None no_trace = (Inr r, t)"
    by (auto simp: executeRenewal_def split: if_splits)
  from exec_loop_sound [OF run] have just: "\<exists>k. 1 \<le> k \<and> k \<le> ex_maxRetries ex \<and>
      (settled env vault ?tx k r \<or> found_extended env ex vault k r)" by auto
  from exec_loop_trace [OF run] obtain n ks where n: "n \<le> ex_maxRetries ex" "xt_submitted t = [1..<n + 1]"
    "xt_waits t = map (retry_delay env ex) ks" by (auto simp: no_trace_def)
  have "0 \<le> retry_delay env ex k \<and> retry_delay env ex k \<le> 30000" for k
    using jittered_bounds [of "xe_random env k" "min (ex_retryDelayMs ex * 2 ^ (k - 1)) 30000"] assms(2,3)
    by (auto simp: retry_delay_def)
  with n have "list_all (\<lambda>w. 0 \<le> w \<and> w \<le> 30000) (xt_waits t)" by (simp add: list_all_iff)
  with just n show ?thesis by blast
qed

text \<open>A small vault, executor and answer for the examples.\<close>

definition sample_vault :: due_vault where
  "sample_vault =
     \<lparr>dv_id = ''0xa'', dv_objectId = ''0xa'', dv_beneficiary = ''0xb'', dv_blobId = ''7'',
      dv_walBalance = 5, dv_renewThresholdEpochs = 2, dv_renewByEpochs = 3, dv_maxTotalEpochs = None,
      dv_active = True, dv_currentEndEpoch = 50\<rparr>"

definition sample_executor :: executor where
  "sample_executor = executor_new ''0xs'' None (Some ''0x1'') None None (Some ''0x6'') None"

definition low_balance_event :: sui_event where
  "low_balance_event =
     \<lparr>se_type = ''0x1::vault::InsufficientBalance'',
      se_parsedJson = Some (JObj [(''required'', JStr ''9''), (''available'', JStr ''5'')])\<rparr>"

definition sample_env :: "thrown + tx_response \<Rightarrow> exec_env" where
  "sample_env resp =
     \<lparr>xe_submit = (\<lambda>_ _. resp), xe_http = (\<lambda>_ _. Inl (js_Error ''down'')), xe_random = (\<lambda>_. 0),
      xe_now = 1\<rparr>"

lemma sample_executor_sel [simp]:
  "ex_packageId sample_executor = ''0x1''" "ex_systemObjectId sample_executor = ''0x6''"
  "ex_aggregatorUrl sample_executor = []" "ex_maxRetries sample_executor = 3"
  "ex_retryDelayMs sample_executor = 5000"
  by (simp_all add: sample_executor_def executor_new_def truthy_def)

theorem execute_renewal_sound_witness:
  "\<exists>r t. executeRenewal (sample_env (Inr \<lparr>tx_digest = ''D'', tx_effects = Some
        \<lparr>fx_success = True, fx_error = None, fx_computationCost = Some ''12''\<rparr>, tx_events = []\<rparr>))
      (Inr ''0xf'') sample_executor sample_vault = (Inr r, t)
    \<and> rr_gasUsed r = 12 \<and> list_all (\<lambda>w. 0 \<le> w \<and> w \<le> 30000) (xt_waits t)"
proof -
  let ?env = "sample_env (Inr \<lparr>tx_digest = ''D'', tx_effects = Some
        \<lparr>fx_success = True, fx_error = None, fx_computationCost = Some ''12''\<rparr>, tx_events = []\<rparr>)"
  have "to_bigint ''12'' = Inr 12"
    by (simp add: to_bigint_def parse_bigint_def is_digit_def digits_val_def digit_val_def)
  then obtain r t where
    r: "executeRenewal ?env (Inr ''0xf'') sample_executor sample_vault = (Inr r, t)" and g: "rr_gasUsed r = 12"
    by (simp add: executeRenewal_def numeral_3_eq_3 sample_env_def run_round_def settle_tx_def Let_def truthy_def)
  from execute_renewal_sound [OF r] have "list_all (\<lambda>w. 0 \<le> w \<and> w \<le> 30000) (xt_waits t)"
    by (simp add: sample_env_def)
  with r g show ?thesis by blast
qed

text \<open>
  A transaction that failed on chain is reported as a renewal when it left an alert: the first
  answer with failed effects and a parsed alert ends the loop with a result.
\<close>

theorem failed_tx_reported_renewed:
  assumes "ex_packageId ex \<noteq> []" "ex_systemObjectId ex \<noteq> []" "0 < ex_maxRetries ex"
    and "xe_submit env 1 (buildTransaction (ex_sender ex) vault (ex_packageId ex) (ex_systemObjectId ex) fee)
      = Inr resp"
    and "tx_effects resp = Some fx" "\<not> fx_success fx"
    and "parseEvents vault (xe_now env) (tx_events resp) = Inr (a # as)"
    and "to_bigint (or_default (truthy (fx_computationCost fx)) ''0'') = Inr gas"
  shows "\<exists>t. executeRenewal env (Inr fee) ex vault =
    (Inr \<lparr>rr_vaultId = dv_id vault, rr_digest = tx_digest resp, rr_gasUsed = gas, rr_alerts = a # as\<rparr>, t)"
proof -
  obtain n where "ex_maxRetries ex = Suc n" using assms(3) gr0_conv_Suc by blast
  with assms show ?thesis
    by (simp add: executeRenewal_def run_round_def settle_tx_def Let_def)
qed

theorem failed_tx_reported_renewed_witness:
  "\<exists>r t. executeRenewal (sample_env (Inr \<lparr>tx_digest = ''D'', tx_effects = Some
        \<lparr>fx_success = False, fx_error = Some ''EInsufficientBalance'', fx_computationCost = None\<rparr>,
        tx_events = [low_balance_event]\<rparr>)) (Inr ''0xf'') sample_executor sample_vault = (Inr r, t)
    \<and> map al_required (rr_alerts r) = [Some 9]"
proof -
  let ?resp = "\<lparr>tx_digest = ''D'', tx_effects = Some
        \<lparr>fx_success = False, fx_error = Some ''EInsufficientBalance'', fx_computationCost = None\<rparr>,
        tx_events = [low_balance_event]\<rparr>"
  have b: "to_bigint ''9'' = Inr 9" "to_bigint ''5'' = Inr 5" "to_bigint ''0'' = Inr 0"
    by (simp_all add: to_bigint_def parse_bigint_def is_digit_def digits_val_def digit_val_def)
  obtain a where a: "parseEvents sample_vault 1 [low_balance_event] = Inr [a]" "al_required a = Some 9"
    by (simp add: low_balance_event_def event_alerts_def ends_with_def big_field_def b plain_alert_def)
  have "\<exists>t. executeRenewal (sample_env (Inr ?resp)) (Inr ''0xf'') sample_executor sample_vault =
      (Inr \<lparr>rr_vaultId = dv_id sample_vault, rr_digest = tx_digest ?resp, rr_gasUsed = 0, rr_alerts = [a]\<rparr>, t)"
    by (rule failed_tx_reported_renewed [where fx = "\<lparr>fx_success = False,
          fx_error = Some ''EInsufficientBalance'', fx_computationCost = None\<rparr>"])
      (simp_all add: sample_env_def a b truthy_def del: parseEvents.simps)
  with a(2) show ?thesis by auto
qed

text \<open>
  Without an answer from the aggregator a submission whose outcome is unknown is repeated
  blindly: a transaction that fails with retryable errors is submitted \<open>maxRetries\<close> times, although
  an earlier submission may have been committed.
\<close>

theorem unknown_outcome_resubmitted:
  assumes "ex_packageId ex \<noteq> []" "ex_systemObjectId ex \<noteq> []"
    and "\<And>k. \<exists>e. xe_submit env k
        (buildTransaction (ex_sender ex) vault (ex_packageId ex) (ex_systemObjectId ex) fee) = Inl e
        \<and> isRetryableJobError e"
    and "ex_aggregatorUrl ex = [] \<or> (\<forall>k u. \<not> is_ok (xe_http env k u))"
  shows "xt_submitted (snd (executeRenewal env (Inr fee) ex vault)) = [1..<ex_maxRetries ex + 1]"
  using assms(1,2) exec_loop_retries [OF assms(3,4), of vault "ex_maxRetries ex" 1 None no_trace]
  by (simp add: executeRenewal_def no_trace_def)

theorem unknown_outcome_resubmitted_witness:
  "xt_submitted (snd (executeRenewal (sample_env (Inl (js_Error ''Request timeout''))) (Inr ''0xf'')
      sample_executor sample_vault)) = [1, 2, 3]"
proof -
  have "isNetworkError (js_Error ''Request timeout'')"
    by (simp add: isNetworkError_def js_Error_def plain_error_def network_message_def to_lower_def lower_char_def)
  then have "isRetryableJobError (js_Error ''Request timeout'')" by (simp add: isRetryableJobError_def)
  then have "xt_submitted (snd (executeRenewal (sample_env (Inl (js_Error ''Request timeout''))) (Inr ''0xf'')
      sample_executor sample_vault)) = [1..<ex_maxRetries sample_executor + 1]"
    by (intro unknown_outcome_resubmitted) (simp_all add: sample_env_def)
  then show ?thesis by (simp add: upt_rec)
qed

end
