(* ===== verification/Policy_Engine.thy ===== *)
theory Policy_Engine
  imports Db App_Errors
begin

text \<open>
  Policy resolution, \<open>api/src/lib/policy-engine.ts\<close>: the policy that governs a blob is the one of the
  most specific scope, and within a scope the latest. The abstract specification at the end orders
  the candidate policies by scope rank and recency; the resolution is shown to pick its maximum.
\<close>

section \<open>Resolved policies\<close>

record resolved_policy =
  rp_policyId :: "string option"
  rp_policyName :: "string option"
  rp_renewThreshold :: int
  rp_renewExtension :: int
  rp_maxTotalEpochs :: "int option"
  rp_autoRenewalEnabled :: bool
  rp_budgetId :: "string option"
  rp_spendingLimitId :: "string option"
  rp_publisherPriorityOverride :: "int option"
  rp_maxRetries :: int
  rp_scope :: string
  rp_resolutionPath :: "string list"

definition SYSTEM_DEFAULT_POLICY :: resolved_policy where
  "SYSTEM_DEFAULT_POLICY =
     \<lparr>rp_policyId = None, rp_policyName = None, rp_renewThreshold = 7, rp_renewExtension = 30,
      rp_maxTotalEpochs = None, rp_autoRenewalEnabled = False, rp_budgetId = None,
      rp_spendingLimitId = None, rp_publisherPriorityOverride = None, rp_maxRetries = 5,
      rp_scope = ''default'', rp_resolutionPath = [''default'']\<rparr>"

definition toResolvedPolicy :: "policy_row \<Rightarrow> string list \<Rightarrow> resolved_policy" where
  "toResolvedPolicy p path =
     \<lparr>rp_policyId = Some (po_id p), rp_policyName = Some (po_name p),
      rp_renewThreshold = po_renewThreshold p, rp_renewExtension = po_renewExtension p,
      rp_maxTotalEpochs = po_maxTotalEpochs p, rp_autoRenewalEnabled = po_autoRenewalEnabled p,
      rp_budgetId = po_budgetId p, rp_spendingLimitId = po_spendingLimitId p,
      rp_publisherPriorityOverride = po_publisherPriorityOverride p,
      rp_maxRetries = or_default (po_maxRetries p) 5,
      rp_scope = (case truthy (po_scope p) of Some s \<Rightarrow> s | None \<Rightarrow> ''unknown''),
      rp_resolutionPath = path\<rparr>"

section \<open>The Latest rule\<close>

text \<open>
  The comparator of the three \<open>sort\<close> calls: the later creation time first, then the greater id.
\<close>

definition latest_le :: "policy_row \<Rightarrow> policy_row \<Rightarrow> bool" where
  "latest_le = lex_le (\<lambda>p. - po_createdAt p) (\<lambda>a b. po_id b \<le> po_id a)"

interpretation latest: sort_order latest_le
  unfolding latest_le_def by (rule sort_order_lex) (rule key_desc.sort_order_axioms)

definition tag_le :: "policy_row \<times> nat \<Rightarrow> policy_row \<times> nat \<Rightarrow> bool" where
  "tag_le = lex_le (\<lambda>m. - int (snd m)) (\<lambda>a b. latest_le (fst a) (fst b))"

interpretation tag_order: sort_order tag_le
  unfolding tag_le_def
proof (rule sort_order_lex)
  show "sort_order (\<lambda>a b :: policy_row \<times> nat. latest_le (fst a) (fst b))"
    by unfold_locales (use latest.total latest.trans in blast)+
qed

section \<open>Queries\<close>

definition getPoliciesForScope :: "db \<Rightarrow> string \<Rightarrow> string \<Rightarrow> string \<Rightarrow> policy_row list" where
  "getPoliciesForScope d org scope target =
     sort_by (\<lambda>a b. po_createdAt b \<le> po_createdAt a)
       (filter (\<lambda>p. po_orgId p = org \<and> po_scope p = Some scope \<and> po_scopeTargetId p = Some target
                    \<and> po_status p = ''active'') (db_policies d))"

definition resolveWithinScope :: "policy_row list \<Rightarrow> string list \<Rightarrow> resolved_policy" where
  "resolveWithinScope ps path =
     (if length ps = 1 then toResolvedPolicy (hd ps) path
      else toResolvedPolicy (hd (sort_by latest_le ps)) (path @ [''latest'']))"

text \<open>The left join yields the assignment's policy, whose row exists by the foreign key.\<close>

definition explicitPolicies :: "db \<Rightarrow> string \<Rightarrow> policy_row list" where
  "explicitPolicies d blobId =
     filter (\<lambda>p. po_status p = ''active'')
       (concat (map (\<lambda>a. filter (\<lambda>p. po_id p = pa_policyId a) (db_policies d))
          (filter (\<lambda>a. pa_blobRegistrationId a = blobId) (db_assignments d))))"

definition findExplicitBlobAssignment :: "db \<Rightarrow> string \<Rightarrow> policy_row option" where
  "findExplicitBlobAssignment d blobId =
     (let rows = explicitPolicies d blobId in
      if length rows = 0 then None else Some (hd (sort_by latest_le rows)))"

text \<open>
  The first rule whose field is \<open>tag\<close> and whose value is an array. Values that are not strings
  match no tag of a blob, so only the strings are kept. A null rule makes the loop throw, which is
  caught and gives no tags.
\<close>

definition json_strings :: "json list \<Rightarrow> string list" where
  "json_strings js = concat (map (\<lambda>j. case j of JStr s \<Rightarrow> [s] | _ \<Rightarrow> []) js)"

fun first_tag_rule :: "json list \<Rightarrow> string list" where
  "first_tag_rule [] = []"
| "first_tag_rule (r # rs) =
     (if r = JNull then []
      else if jget r ''field'' = Some (JStr ''tag'')
      then (case jget r ''value'' of Some (JArr vs) \<Rightarrow> json_strings vs | _ \<Rightarrow> first_tag_rule rs)
      else first_tag_rule rs)"

definition extractPolicyTags :: "policy_row \<Rightarrow> string list" where
  "extractPolicyTags p = (case po_rules p of JArr rules \<Rightarrow> first_tag_rule rules | _ \<Rightarrow> [])"

definition tagMatches :: "db \<Rightarrow> string \<Rightarrow> string list \<Rightarrow> (policy_row \<times> nat) list" where
  "tagMatches d org tags =
     filter (\<lambda>m. snd m > 0)
       (map (\<lambda>p. (p, length (filter (\<lambda>t. t \<in> set tags) (extractPolicyTags p))))
         (filter (\<lambda>p. po_orgId p = org \<and> po_scope p = Some ''tag'' \<and> po_status p = ''active'')
           (db_policies d)))"

definition resolveTagPoliciesByTags :: "db \<Rightarrow> string \<Rightarrow> string list \<Rightarrow> resolved_policy option" where
  "resolveTagPoliciesByTags d org tags =
     (let matching = tagMatches d org tags in
      if length matching = 0 then None
      else Some (toResolvedPolicy (fst (hd (sort_by tag_le matching))) [''tag'']))"

definition resolveTagPolicies :: "db \<Rightarrow> blob_row \<Rightarrow> resolved_policy option" where
  "resolveTagPolicies d b =
     (let tags = or_default (bl_tags b) [] in
      if length tags = 0 then None else resolveTagPoliciesByTags d (bl_orgId b) tags)"

section \<open>Resolution\<close>

text \<open>The part that \<open>resolveEffectivePolicy\<close> and \<open>resolveFromScope\<close> share: wallet, project,
  organization, default.\<close>

definition wallet_level :: "db \<Rightarrow> string \<Rightarrow> string option \<Rightarrow> policy_row list" where
  "wallet_level d org wallet =
     (case truthy wallet of Some w \<Rightarrow> getPoliciesForScope d org ''wallet'' w | None \<Rightarrow> [])"

definition resolveBroadScopes :: "db \<Rightarrow> string \<Rightarrow> string option \<Rightarrow> string \<Rightarrow> resolved_policy" where
  "resolveBroadScopes d org wallet project =
     (let walletPolicies = wallet_level d org wallet in
      if length walletPolicies > 0 then resolveWithinScope walletPolicies [''wallet'']
      else
     (let projectPolicies = getPoliciesForScope d org ''project'' project in
      if length projectPolicies > 0 then resolveWithinScope projectPolicies [''project'']
      else
     (let orgPolicies = getPoliciesForScope d org ''organization'' org in
      if length orgPolicies > 0 then resolveWithinScope orgPolicies [''organization'']
      else SYSTEM_DEFAULT_POLICY)))"

definition resolveEffectivePolicy :: "db \<Rightarrow> string \<Rightarrow> thrown + resolved_policy" where
  "resolveEffectivePolicy d blobId =
     (case first_row (filter (\<lambda>b. bl_id b = blobId) (db_blobs d)) of
        None \<Rightarrow>
          Inl (ErrObj (AppError (''Blob '' @ blobId @ '' not found'') 404 (Some ''NOT_FOUND'') None) None)
      | Some b \<Rightarrow> Inr
          (case findExplicitBlobAssignment d blobId of
             Some p \<Rightarrow> toResolvedPolicy p [''blob'', ''explicit'']
           | None \<Rightarrow>
          (let blobScope = getPoliciesForScope d (bl_orgId b) ''blob'' (bl_id b) in
           if length blobScope > 0 then resolveWithinScope blobScope [''blob'', ''scope'']
           else
          (case resolveTagPolicies d b of
             Some r \<Rightarrow> r
           | None \<Rightarrow> resolveBroadScopes d (bl_orgId b) (bl_walletId b) (bl_projectId b)))))"

definition resolveFromScope ::
    "db \<Rightarrow> string \<Rightarrow> string \<Rightarrow> string option \<Rightarrow> string list option \<Rightarrow> resolved_policy" where
  "resolveFromScope d org project wallet tags =
     (case (case tags of
              Some (t # ts) \<Rightarrow> resolveTagPoliciesByTags d org (t # ts) | _ \<Rightarrow> None) of
        Some r \<Rightarrow> r
      | None \<Rightarrow> resolveBroadScopes d org wallet project)"

section \<open>Specification\<close>

text \<open>The six levels at which a policy can apply to a blob, most specific first.\<close>

definition scoped_to :: "blob_row \<Rightarrow> string \<Rightarrow> string \<Rightarrow> policy_row \<Rightarrow> bool" where
  "scoped_to b scope target p =
     (po_orgId p = bl_orgId b \<and> po_scope p = Some scope \<and> po_scopeTargetId p = Some target)"

definition tag_count :: "blob_row \<Rightarrow> policy_row \<Rightarrow> nat" where
  "tag_count b p = length (filter (\<lambda>t. t \<in> set (or_default (bl_tags b) [])) (extractPolicyTags p))"

definition applies_at :: "db \<Rightarrow> blob_row \<Rightarrow> nat \<Rightarrow> policy_row \<Rightarrow> bool" where
  "applies_at d b k p =
     (p \<in> set (db_policies d) \<and> po_status p = ''active'' \<and>
      (if k = 0 then \<lparr>pa_policyId = po_id p, pa_blobRegistrationId = bl_id b\<rparr> \<in> set (db_assignments d)
       else if k = 1 then scoped_to b ''blob'' (bl_id b) p
       else if k = 2 then po_orgId p = bl_orgId b \<and> po_scope p = Some ''tag'' \<and> tag_count b p > 0
       else if k = 3 then bl_walletId b \<noteq> Some [] \<and>
              (\<exists>w. bl_walletId b = Some w \<and> scoped_to b ''wallet'' w p)
       else if k = 4 then scoped_to b ''project'' (bl_projectId b) p
       else if k = 5 then scoped_to b ''organization'' (bl_orgId b) p
       else False))"

text \<open>Within a level the later policy wins; among tag policies the one with more matching tags.\<close>

definition wins_at :: "blob_row \<Rightarrow> nat \<Rightarrow> policy_row \<Rightarrow> policy_row \<Rightarrow> bool" where
  "wins_at b k p q =
     (if k = 2 then tag_count b q < tag_count b p \<or> (tag_count b q = tag_count b p \<and> latest_le p q)
      else latest_le p q)"

definition governs :: "db \<Rightarrow> blob_row \<Rightarrow> nat \<Rightarrow> policy_row \<Rightarrow> bool" where
  "governs d b k p =
     (applies_at d b k p \<and> (\<forall>j < k. \<forall>q. \<not> applies_at d b j q)
      \<and> (\<forall>q. applies_at d b k q \<longrightarrow> wins_at b k p q))"

lemma resolveWithinScope_pick:
  assumes "ps \<noteq> []"
  shows "\<exists>p \<in> set ps. \<exists>path'. resolveWithinScope ps path = toResolvedPolicy p path'
    \<and> (\<forall>q \<in> set ps. latest_le p q)"
proof (cases "length ps = 1")
  case True
  then obtain p where "ps = [p]" by (cases ps) auto
  then show ?thesis using latest.refl [of p] by (auto simp: resolveWithinScope_def)
next
  case False
  then show ?thesis
    using latest.hd_sort_mem [OF assms] latest.hd_sort_least [OF assms]
    by (auto simp: resolveWithinScope_def)
qed

lemma set_scope_level:
  "set (getPoliciesForScope d (bl_orgId b) scope target) =
     {p \<in> set (db_policies d). po_status p = ''active'' \<and> scoped_to b scope target p}"
  by (auto simp: getPoliciesForScope_def scoped_to_def)

lemma set_explicit:
  "set (explicitPolicies d i) =
     {p \<in> set (db_policies d). po_status p = ''active'' \<and>
        \<lparr>pa_policyId = po_id p, pa_blobRegistrationId = i\<rparr> \<in> set (db_assignments d)}"
  by (auto simp: explicitPolicies_def) (metis assignment_row.surjective old.unit.exhaust)

lemma scope_governs:
  assumes "getPoliciesForScope d (bl_orgId b) scope target \<noteq> []"
    and "\<And>p. applies_at d b k p \<longleftrightarrow> p \<in> set (getPoliciesForScope d (bl_orgId b) scope target)"
    and "\<forall>j < k. \<forall>q. \<not> applies_at d b j q" and "k \<noteq> 2"
  shows "\<exists>p path'. governs d b k p
    \<and> resolveWithinScope (getPoliciesForScope d (bl_orgId b) scope target) path = toResolvedPolicy p path'"
  using resolveWithinScope_pick [OF assms(1), of path] assms(2-4)
  by (auto simp: governs_def wins_at_def)

lemma explicit_governs:
  assumes "findExplicitBlobAssignment d (bl_id b) = Some p"
  shows "governs d b 0 p"
proof -
  let ?ps = "explicitPolicies d (bl_id b)"
  from assms have ne: "?ps \<noteq> []" and p: "p = hd (sort_by latest_le ?ps)"
    by (auto simp: findExplicitBlobAssignment_def Let_def split: if_splits)
  have "applies_at d b 0 q \<longleftrightarrow> q \<in> set ?ps" for q by (auto simp: applies_at_def set_explicit)
  with latest.hd_sort_mem [OF ne] latest.hd_sort_least [OF ne] p show ?thesis
    by (auto simp: governs_def wins_at_def)
qed

lemma explicit_None:
  "findExplicitBlobAssignment d (bl_id b) = None \<Longrightarrow> \<not> applies_at d b 0 q"
  using set_explicit [of d "bl_id b"]
  by (auto simp: findExplicitBlobAssignment_def Let_def applies_at_def split: if_splits)

lemma set_tagMatches:
  "set (tagMatches d (bl_orgId b) (or_default (bl_tags b) [])) =
     {(p, tag_count b p) | p. applies_at d b 2 p}"
  by (auto simp: tagMatches_def applies_at_def tag_count_def)

lemma resolveTagPolicies_eq:
  "resolveTagPolicies d b =
     (let m = tagMatches d (bl_orgId b) (or_default (bl_tags b) []) in
      if m = [] then None else Some (toResolvedPolicy (fst (hd (sort_by tag_le m))) [''tag'']))"
  by (auto simp: resolveTagPolicies_def resolveTagPoliciesByTags_def tagMatches_def Let_def
           filter_empty_conv)

lemma tag_governs:
  assumes "resolveTagPolicies d b = Some r" and "\<forall>j < 2. \<forall>q. \<not> applies_at d b j q"
  shows "\<exists>p path'. governs d b 2 p \<and> r = toResolvedPolicy p path'"
proof -
  let ?m = "tagMatches d (bl_orgId b) (or_default (bl_tags b) [])"
  from assms(1) have ne: "?m \<noteq> []" and r: "r = toResolvedPolicy (fst (hd (sort_by tag_le ?m))) [''tag'']"
    by (auto simp: resolveTagPolicies_eq Let_def split: if_splits)
  from tag_order.hd_sort_mem [OF ne] obtain p where
    p: "hd (sort_by tag_le ?m) = (p, tag_count b p)" "applies_at d b 2 p"
    unfolding set_tagMatches by auto
  have "wins_at b 2 p q" if "applies_at d b 2 q" for q
  proof -
    from that have "(q, tag_count b q) \<in> set ?m" unfolding set_tagMatches by auto
    from tag_order.hd_sort_least [OF ne this] p(1) show ?thesis
      by (auto simp: tag_le_def lex_le_def wins_at_def)
  qed
  with p assms(2) r show ?thesis by (auto simp: governs_def)
qed

lemma tag_None: "resolveTagPolicies d b = None \<Longrightarrow> \<not> applies_at d b 2 q"
  using set_tagMatches [of d b] by (auto simp: resolveTagPolicies_eq Let_def split: if_splits)

lemma truthy_Some: "truthy x = Some w \<longleftrightarrow> x = Some w \<and> w \<noteq> []"
  by (auto simp: truthy_def split: option.splits list.splits)

lemma truthy_None: "truthy x = None \<longleftrightarrow> x = None \<or> x = Some []"
  by (auto simp: truthy_def split: option.splits list.splits)

lemma wallet_governs:
  assumes "wallet_level d (bl_orgId b) (bl_walletId b) \<noteq> []" and "\<forall>j < 3. \<forall>q. \<not> applies_at d b j q"
  shows "\<exists>p path'. governs d b 3 p
    \<and> resolveWithinScope (wallet_level d (bl_orgId b) (bl_walletId b)) path = toResolvedPolicy p path'"
proof -
  from assms(1) obtain w where w: "truthy (bl_walletId b) = Some w"
    by (auto simp: wallet_level_def split: option.splits)
  then have eq: "wallet_level d (bl_orgId b) (bl_walletId b) = getPoliciesForScope d (bl_orgId b) ''wallet'' w"
    by (simp add: wallet_level_def)
  have "applies_at d b 3 p \<longleftrightarrow> p \<in> set (getPoliciesForScope d (bl_orgId b) ''wallet'' w)" for p
    using w unfolding set_scope_level by (auto simp: applies_at_def truthy_Some)
  from scope_governs [OF _ this assms(2)] assms(1) show ?thesis unfolding eq by simp
qed

lemma scope_None:
  "getPoliciesForScope d (bl_orgId b) scope target = [] \<Longrightarrow> p \<in> set (db_policies d) \<Longrightarrow>
   po_status p = ''active'' \<Longrightarrow> \<not> scoped_to b scope target p"
  using set_scope_level [of d b scope target] by auto

lemma wallet_None:
  "wallet_level d (bl_orgId b) (bl_walletId b) = [] \<Longrightarrow> \<not> applies_at d b 3 q"
  by (auto simp: wallet_level_def applies_at_def truthy_None truthy_Some dest: scope_None
           split: option.splits)

lemma below_Suc: "\<forall>j < k. \<forall>q. \<not> applies_at d b j q \<Longrightarrow> (\<And>q. \<not> applies_at d b k q) \<Longrightarrow>
  \<forall>j < Suc k. \<forall>q. \<not> applies_at d b j q"
  by (auto simp: less_Suc_eq)

definition resolved_ok :: "db \<Rightarrow> blob_row \<Rightarrow> resolved_policy \<Rightarrow> bool" where
  "resolved_ok d b r \<longleftrightarrow>
     (\<exists>k p path. governs d b k p \<and> r = toResolvedPolicy p path)
     \<or> (r = SYSTEM_DEFAULT_POLICY \<and> (\<forall>k p. \<not> applies_at d b k p))"

lemma broad_scopes_ok:
  assumes l3: "\<forall>j < 3. \<forall>q. \<not> applies_at d b j q"
  shows "resolved_ok d b (resolveBroadScopes d (bl_orgId b) (bl_walletId b) (bl_projectId b))"
proof (cases "wallet_level d (bl_orgId b) (bl_walletId b) = []")
  case False
  with wallet_governs [OF False l3, of "[''wallet'']"] show ?thesis
    by (auto simp: resolved_ok_def resolveBroadScopes_def Let_def)
next
  case nowallet: True
  let ?s = "getPoliciesForScope d (bl_orgId b)"
  have l4: "\<forall>j < 4. \<forall>q. \<not> applies_at d b j q"
    using below_Suc [OF l3 wallet_None [OF nowallet]] by simp
  show ?thesis
  proof (cases "?s ''project'' (bl_projectId b) = []")
    case False
    have "applies_at d b 4 p \<longleftrightarrow> p \<in> set (?s ''project'' (bl_projectId b))" for p
      unfolding set_scope_level by (auto simp: applies_at_def)
    from scope_governs [OF False this l4, of "[''project'']"] False nowallet show ?thesis
      by (auto simp: resolved_ok_def resolveBroadScopes_def Let_def)
  next
    case noproject: True
    have "\<not> applies_at d b 4 q" for q using scope_None [OF noproject] by (auto simp: applies_at_def)
    from below_Suc [OF l4 this] have l5: "\<forall>j < 5. \<forall>q. \<not> applies_at d b j q" by simp
    show ?thesis
    proof (cases "?s ''organization'' (bl_orgId b) = []")
      case False
      have "applies_at d b 5 p \<longleftrightarrow> p \<in> set (?s ''organization'' (bl_orgId b))" for p
        unfolding set_scope_level by (auto simp: applies_at_def)
      from scope_governs [OF False this l5, of "[''organization'']"] False nowallet noproject
      show ?thesis by (auto simp: resolved_ok_def resolveBroadScopes_def Let_def)
    next
      case True
      have "\<not> applies_at d b 5 q" for q using scope_None [OF True] by (auto simp: applies_at_def)
      from below_Suc [OF l5 this] have "\<not> applies_at d b k q" for k q
        by (cases "k < 6") (auto simp: applies_at_def)
      with True nowallet noproject show ?thesis
        by (auto simp: resolved_ok_def resolveBroadScopes_def Let_def)
    qed
  qed
qed

lemma resolve_found:
  assumes "first_row (filter (\<lambda>b. bl_id b = i) (db_blobs d)) = Some b"
  shows "\<exists>r. resolveEffectivePolicy d i = Inr r \<and> resolved_ok d b r"
proof -
  have i: "bl_id b = i" using first_row_filter_SomeD [OF assms] by simp
  note res = resolveEffectivePolicy_def assms resolved_ok_def Let_def
  show ?thesis
  proof (cases "findExplicitBlobAssignment d i")
    case (Some p)
    with explicit_governs [of d b p] i show ?thesis by (auto simp: res)
  next
    case None
    with explicit_None [of d b] i have l1: "\<forall>j < 1. \<forall>q. \<not> applies_at d b j q" by auto
    let ?bs = "getPoliciesForScope d (bl_orgId b) ''blob'' (bl_id b)"
    show ?thesis
    proof (cases "?bs = []")
      case False
      have "applies_at d b 1 p \<longleftrightarrow> p \<in> set ?bs" for p
        unfolding set_scope_level by (auto simp: applies_at_def)
      from scope_governs [OF False this l1, of "[''blob'', ''scope'']"] False i None show ?thesis
        by (auto simp: res)
    next
      case True
      from l1 have l2: "\<forall>j < 2. \<forall>q. \<not> applies_at d b j q"
        using below_Suc [of 1 d b] scope_None [OF True] by (auto simp: applies_at_def numeral_2_eq_2)
      show ?thesis
      proof (cases "resolveTagPolicies d b")
        case (Some r)
        with tag_governs [OF Some l2] i None True show ?thesis by (auto simp: res)
      next
        case notag: None
        have "\<forall>j < 3. \<forall>q. \<not> applies_at d b j q"
          using below_Suc [OF l2 tag_None [OF notag]] by (simp add: numeral_3_eq_3)
        from broad_scopes_ok [OF this] notag i None True show ?thesis
          by (simp add: resolveEffectivePolicy_def assms Let_def)
      qed
    qed
  qed
qed

section \<open>Properties\<close>

text \<open>
  C2: the resolved policy of a blob is the active policy of its most specific level (explicit
  assignment, blob scope, tag, wallet, project, organization) that wins within that level, by
  number of matching tags and then by recency; the system default is returned exactly when no
  policy applies at any level.
\<close>

theorem policy_resolution_spec:
  assumes "first_row (filter (\<lambda>b. bl_id b = i) (db_blobs d)) = Some b"
  shows "\<exists>r. resolveEffectivePolicy d i = Inr r \<and>
    ((\<exists>k p path. governs d b k p \<and> r = toResolvedPolicy p path)
     \<or> (r = SYSTEM_DEFAULT_POLICY \<and> (\<forall>k p. \<not> applies_at d b k p)))"
  using resolve_found [OF assms] by (simp add: resolved_ok_def)

theorem policy_resolution_spec_witness:
  "\<exists>d b. db_blobs d = [b] \<and> bl_tags b = Some [''hot''] \<and> length (db_policies d) = 2 \<and>
     (\<exists>k p path. governs d b k p \<and>
        resolveEffectivePolicy d ''b1'' = Inr (toResolvedPolicy p path))"
proof -
  define b where "b = (new_blob ''b1'' 0 ''o1'' ''pr1'' ''0xb'')\<lparr>bl_tags := Some [''hot'']\<rparr>"
  define p where "p = (new_policy ''p1'' 5 ''o1'' ''org-wide'' 7 30)
    \<lparr>po_scope := Some ''organization'', po_scopeTargetId := Some ''o1'', po_status := ''active''\<rparr>"
  define q where "q = p\<lparr>po_id := ''p2'', po_createdAt := 6\<rparr>"
  define d where "d = empty_db\<lparr>db_blobs := [b], db_policies := [p, q]\<rparr>"
  have f: "first_row (filter (\<lambda>b. bl_id b = ''b1'') (db_blobs d)) = Some b"
    by (simp add: d_def b_def new_blob_def)
  have "applies_at d b 5 p"
    by (simp add: applies_at_def d_def b_def p_def new_blob_def new_policy_def scoped_to_def)
  with policy_resolution_spec [OF f] obtain k p' path where
    "governs d b k p'" "resolveEffectivePolicy d ''b1'' = Inr (toResolvedPolicy p' path)" by blast
  then show ?thesis
    by (intro exI [of _ d] exI [of _ b]) (auto simp: d_def b_def)
qed

end
