(* ===== verification/Job_Writer.thy ===== *)
theory Job_Writer
  imports Policy_Engine
begin

text \<open>
  The keeper's writes to the job table, \<open>keeper/src/db-writer.ts\<close>, and the lookups of
  \<open>keeper/src/vault-mapper.ts\<close>. The SQL client returns rows keyed by column name; a field read
  under a camel-case name is \<open>undefined\<close> (\<open>None\<close>), and the client rejects a statement
  with an \<open>undefined\<close> parameter. Identifiers of new rows are arguments.
\<close>

section \<open>Rows as the keeper reads them\<close>

record registration_row =
  rg_id :: string
  rg_orgId :: "string option"
  rg_projectId :: "string option"
  rg_walletId :: "string option"
  rg_blobId :: "string option"
  rg_status :: string
  rg_suiVaultId :: "string option"

text \<open>
  The columns selected are \<open>id, org_id, project_id, wallet_id, blob_id, status, sui_vault_id\<close>; read
  through the interface, only \<open>id\<close> and \<open>status\<close> have the names of columns.
\<close>

definition as_registration :: "blob_row \<Rightarrow> registration_row" where
  "as_registration b =
     \<lparr>rg_id = bl_id b, rg_orgId = None, rg_projectId = None, rg_walletId = None, rg_blobId = None,
      rg_status = bl_status b, rg_suiVaultId = None\<rparr>"

definition findBlobRegistrationByBlobId :: "db \<Rightarrow> string \<Rightarrow> registration_row option" where
  "findBlobRegistrationByBlobId d blobId =
     map_option as_registration
       (first_row (filter (\<lambda>b. bl_blobId b = blobId \<and> bl_status b \<notin> {''archived'', ''deleted''})
          (db_blobs d)))"

definition updateBlobSuiVaultId :: "int \<Rightarrow> string \<Rightarrow> string \<Rightarrow> db \<Rightarrow> db" where
  "updateBlobSuiVaultId now blobId vaultId d =
     upd_blobs (\<lambda>b. bl_blobId b = blobId)
       (\<lambda>b. b\<lparr>bl_suiVaultId := Some vaultId, bl_updatedAt := now\<rparr>) d"

section \<open>Writing jobs\<close>

record renewal_job_record =
  jr_orgId :: "string option"
  jr_blobRegistrationId :: string
  jr_policyId :: "string option"
  jr_status :: string
  jr_attempt :: int
  jr_maxAttempts :: int
  jr_lastError :: "string option"
  jr_estimatedCost :: "int option"
  jr_blockedByLimitId :: "string option"
  jr_startedAt :: "int option"
  jr_completedAt :: "int option"
  jr_estimatedAt :: "int option"
  jr_scheduledFor :: "int option"
  jr_priority :: "int option"

definition undefined_value :: thrown where
  "undefined_value = js_Error ''UNDEFINED_VALUE: Undefined values are not allowed''"

definition coalesce :: "'a option \<Rightarrow> 'a option \<Rightarrow> 'a option" where
  "coalesce a b = (case a of Some x \<Rightarrow> Some x | None \<Rightarrow> b)"

definition open_status :: "string \<Rightarrow> bool" where
  "open_status s = (s = ''estimated'' \<or> s = ''pending'' \<or> s = ''retrying'')"

text \<open>\<open>ORDER BY created_at DESC LIMIT 1\<close>.\<close>

definition newest_open :: "db \<Rightarrow> string \<Rightarrow> job_row option" where
  "newest_open d blob =
     first_row (sort_by (\<lambda>x y. rj_createdAt y \<le> rj_createdAt x)
       (filter (\<lambda>j. rj_blobRegistrationId j = blob \<and> open_status (rj_status j)) (db_jobs d)))"

definition insert_job :: "string \<Rightarrow> int \<Rightarrow> renewal_job_record \<Rightarrow> db \<Rightarrow> thrown + string \<times> db" where
  "insert_job i now job d =
     (case jr_orgId job of
        None \<Rightarrow> Inl undefined_value
      | Some org \<Rightarrow> Inr (i,
          d\<lparr>db_jobs := db_jobs d @
             [(new_job i now org (jr_blobRegistrationId job))
                \<lparr>rj_policyId := jr_policyId job, rj_status := jr_status job,
                 rj_attempt := jr_attempt job, rj_maxAttempts := jr_maxAttempts job,
                 rj_lastError := jr_lastError job, rj_estimatedCost := jr_estimatedCost job,
                 rj_blockedByLimitId := jr_blockedByLimitId job,
                 rj_startedAt := jr_startedAt job, rj_completedAt := jr_completedAt job,
                 rj_estimatedAt := jr_estimatedAt job, rj_scheduledFor := jr_scheduledFor job,
                 rj_priority := Some (or_default (jr_priority job) 50)\<rparr>]\<rparr>))"

definition touch_job :: "int \<Rightarrow> renewal_job_record \<Rightarrow> job_row \<Rightarrow> job_row" where
  "touch_job now job r =
     r\<lparr>rj_attempt := jr_attempt job, rj_maxAttempts := jr_maxAttempts job,
       rj_estimatedAt := coalesce (jr_estimatedAt job) (rj_estimatedAt r),
       rj_scheduledFor := coalesce (jr_scheduledFor job) (rj_scheduledFor r),
       rj_lastError := jr_lastError job, rj_updatedAt := now\<rparr>"

definition createRenewalJob ::
    "string \<Rightarrow> int \<Rightarrow> renewal_job_record \<Rightarrow> db \<Rightarrow> thrown + string \<times> db" where
  "createRenewalJob i now job d =
     (case (if jr_status job = ''estimated'' \<or> jr_status job = ''pending''
            then newest_open d (jr_blobRegistrationId job) else None) of
        Some existing \<Rightarrow>
          Inr (rj_id existing, upd_jobs (\<lambda>r. rj_id r = rj_id existing) (touch_job now job) d)
      | None \<Rightarrow>
          (case (if jr_status job = ''succeeded''
                 then first_row (filter (\<lambda>j. rj_blobRegistrationId j = jr_blobRegistrationId job
                                          \<and> rj_status j = ''succeeded'') (db_jobs d)) else None) of
             Some existing \<Rightarrow> Inr (rj_id existing, d)
           | None \<Rightarrow> insert_job i now job d))"

definition updateRenewalJobStatus :: "int \<Rightarrow> string \<Rightarrow> string \<Rightarrow> string option \<Rightarrow> db \<Rightarrow> db" where
  "updateRenewalJobStatus now jobId status err d =
     upd_jobs (\<lambda>j. rj_id j = jobId)
       (\<lambda>j. j\<lparr>rj_status := status, rj_lastError := err, rj_updatedAt := now\<rparr>) d"

text \<open>The keeper's own cost writer: an unknown job is updated nowhere and reported as a success.\<close>

definition kw_recordActualCost ::
    "string \<Rightarrow> int \<Rightarrow> string \<Rightarrow> int \<Rightarrow> string \<Rightarrow> db \<Rightarrow> thrown + db" where
  "kw_recordActualCost i now jobId actual digest d =
     (let rows = filter (\<lambda>j. rj_id j = jobId) (db_jobs d) in
      if (case first_row rows of Some j \<Rightarrow> rj_actualCost j \<noteq> None | None \<Rightarrow> False)
      then Inl (js_Error (''Actual cost already recorded for renewal job '' @ jobId))
      else
        (let d1 = upd_jobs (\<lambda>j. rj_id j = jobId)
                    (\<lambda>j. j\<lparr>rj_actualCost := Some (of_int actual), rj_txDigest := Some digest,
                           rj_completedAt := Some now, rj_updatedAt := now\<rparr>) d
         in case first_row rows of
              None \<Rightarrow> Inr d1
            | Some job \<Rightarrow> Inr (d1\<lparr>db_costs := db_costs d1 @
                [\<lparr>cr_id = i, cr_blobRegistrationId = Some (rj_blobRegistrationId job),
                  cr_renewalJobId = Some (rj_id job),
                  cr_estimatedCost = map_option of_int (rj_estimatedCost job),
                  cr_actualCost = Some (of_int actual), cr_windowId = None,
                  cr_recordedAt = Some now, cr_orgId = rj_orgId job,
                  cr_projectId = (case first_row (filter (\<lambda>b. bl_id b = rj_blobRegistrationId job)
                                     (db_blobs d)) of
                                    Some b \<Rightarrow> Some (bl_projectId b) | None \<Rightarrow> None)\<rparr>]\<rparr>)))"

section \<open>Feeding the queue from a scan\<close>

text \<open>\<open>keeper/src/index.ts\<close>: the policy of a blob, and the jobs written for the due vaults.\<close>

definition no_policy :: resolved_policy where
  "no_policy =
     \<lparr>rp_policyId = None, rp_policyName = None, rp_renewThreshold = 0, rp_renewExtension = 0,
      rp_maxTotalEpochs = None, rp_autoRenewalEnabled = False, rp_budgetId = None,
      rp_spendingLimitId = None, rp_publisherPriorityOverride = None, rp_maxRetries = 5,
      rp_scope = ''default'', rp_resolutionPath = [''default'']\<rparr>"

definition resolvePolicyForBlob :: "db \<Rightarrow> string \<Rightarrow> thrown + resolved_policy" where
  "resolvePolicyForBlob d blobId =
     (case first_row (filter (\<lambda>b. bl_blobId b = blobId) (db_blobs d)) of
        Some b \<Rightarrow> resolveEffectivePolicy d (bl_id b)
      | None \<Rightarrow> Inr no_policy)"

definition queued_record :: "int \<Rightarrow> registration_row \<Rightarrow> resolved_policy \<Rightarrow> renewal_job_record" where
  "queued_record now reg policy =
     \<lparr>jr_orgId = rg_orgId reg, jr_blobRegistrationId = rg_id reg, jr_policyId = rp_policyId policy,
      jr_status = ''estimated'', jr_attempt = 0, jr_maxAttempts = rp_maxRetries policy,
      jr_lastError = None, jr_estimatedCost = None, jr_blockedByLimitId = None,
      jr_startedAt = None, jr_completedAt = None, jr_estimatedAt = Some now,
      jr_scheduledFor = None, jr_priority = Some 10\<rparr>"

definition queue_vault :: "string \<Rightarrow> int \<Rightarrow> string \<Rightarrow> db \<Rightarrow> thrown + db" where
  "queue_vault i now blobId d =
     (case findBlobRegistrationByBlobId d blobId of
        None \<Rightarrow> Inr d
      | Some reg \<Rightarrow>
          bindE (resolvePolicyForBlob d blobId) (\<lambda>policy.
            bindE (createRenewalJob i now (queued_record now reg policy) d) (\<lambda>(_, d'). Inr d')))"

text \<open>The loop logs a failed write and goes on with the next vault.\<close>

fun queue_due_vaults :: "(nat \<Rightarrow> string) \<Rightarrow> int \<Rightarrow> string list \<Rightarrow> db \<Rightarrow> db" where
  "queue_due_vaults ids now [] d = d"
| "queue_due_vaults ids now (b # bs) d =
     queue_due_vaults (\<lambda>n. ids (Suc n)) now bs
       (case queue_vault (ids 0) now b d of Inr d' \<Rightarrow> d' | Inl _ \<Rightarrow> d)"

section \<open>Facts\<close>

lemma newest_openD:
  "newest_open d blob = Some j \<Longrightarrow>
     j \<in> set (db_jobs d) \<and> rj_blobRegistrationId j = blob \<and> open_status (rj_status j)"
  by (auto simp: newest_open_def dest!: first_row_SomeD)

lemma newest_open_None:
  "newest_open d blob = None \<longleftrightarrow>
     (\<forall>j \<in> set (db_jobs d). rj_blobRegistrationId j = blob \<longrightarrow> \<not> open_status (rj_status j))"
  by (auto simp: newest_open_def first_row_None filter_empty_conv)

definition open_jobs :: "string \<Rightarrow> job_row list \<Rightarrow> job_row list" where
  "open_jobs blob js =
     filter (\<lambda>j. rj_blobRegistrationId j = blob \<and> rj_status j \<in> {''estimated'', ''pending'', ''retrying''}) js"

lemma open_jobs_status: "open_jobs blob js = filter (\<lambda>j. rj_blobRegistrationId j = blob \<and> open_status (rj_status j)) js"
  by (simp add: open_jobs_def open_status_def)

definition succeeded_jobs :: "string \<Rightarrow> job_row list \<Rightarrow> job_row list" where
  "succeeded_jobs blob js =
     filter (\<lambda>j. rj_blobRegistrationId j = blob \<and> rj_status j = ''succeeded'') js"

text \<open>The table invariant of the writer: at most one open and one succeeded job per blob.\<close>

definition jobs_unique :: "db \<Rightarrow> bool" where
  "jobs_unique d \<longleftrightarrow>
     (\<forall>blob. length (open_jobs blob (db_jobs d)) \<le> 1 \<and> length (succeeded_jobs blob (db_jobs d)) \<le> 1)"

lemma touch_job_keeps [simp]:
  "rj_id (touch_job now job r) = rj_id r"
  "rj_blobRegistrationId (touch_job now job r) = rj_blobRegistrationId r"
  "rj_status (touch_job now job r) = rj_status r"
  "rj_createdAt (touch_job now job r) = rj_createdAt r"
  by (simp_all add: touch_job_def)

lemma length_filter_sql_update:
  "(\<And>r. q (f r) = q r) \<Longrightarrow> length (filter q (sql_update p f rows)) = length (filter q rows)"
  by (induction rows) auto

lemma create_job_cases:
  assumes "createRenewalJob i now job d = Inr (k, d')"
  obtains (touched) existing where
      "jr_status job = ''estimated'' \<or> jr_status job = ''pending''"
      "newest_open d (jr_blobRegistrationId job) = Some existing" "k = rj_id existing"
      "db_jobs d' = sql_update (\<lambda>r. rj_id r = k) (touch_job now job) (db_jobs d)"
    | (skipped) existing where
      "jr_status job = ''succeeded''" "existing \<in> set (succeeded_jobs (jr_blobRegistrationId job) (db_jobs d))"
      "k = rj_id existing" "d' = d"
    | (inserted) r where
      "jr_status job = ''estimated'' \<or> jr_status job = ''pending''
         \<Longrightarrow> newest_open d (jr_blobRegistrationId job) = None"
      "jr_status job = ''succeeded'' \<Longrightarrow> succeeded_jobs (jr_blobRegistrationId job) (db_jobs d) = []"
      "db_jobs d' = db_jobs d @ [r]" "k = i" "rj_id r = i"
      "rj_blobRegistrationId r = jr_blobRegistrationId job" "rj_status r = jr_status job"
      "rj_createdAt r = now" "jr_orgId job \<noteq> None"
proof -
  consider e where "jr_status job = ''estimated'' \<or> jr_status job = ''pending''"
      "newest_open d (jr_blobRegistrationId job) = Some e"
    | e where "jr_status job = ''succeeded''"
      "first_row (succeeded_jobs (jr_blobRegistrationId job) (db_jobs d)) = Some e"
    | "(if jr_status job = ''estimated'' \<or> jr_status job = ''pending''
            then newest_open d (jr_blobRegistrationId job) else None) = None"
      "(if jr_status job = ''succeeded''
        then first_row (succeeded_jobs (jr_blobRegistrationId job) (db_jobs d)) else None) = None"
    by (metis not_None_eq)
  then show thesis
  proof cases
    case (1 e)
    then have "createRenewalJob i now job d =
        Inr (rj_id e, upd_jobs (\<lambda>r. rj_id r = rj_id e) (touch_job now job) d)"
      by (simp add: createRenewalJob_def)
    with assms have "k = rj_id e" "d' = upd_jobs (\<lambda>r. rj_id r = rj_id e) (touch_job now job) d" by auto
    with 1 show thesis by (intro touched [of e]) simp_all
  next
    case (2 e)
    then have "createRenewalJob i now job d = Inr (rj_id e, d)"
      by (simp add: createRenewalJob_def succeeded_jobs_def)
    with assms have "k = rj_id e" "d' = d" by simp_all
    with 2 first_row_SomeD [OF 2(2)] show thesis by (intro skipped [of e])
  next
    case 3
    then have eq: "createRenewalJob i now job d = insert_job i now job d"
      unfolding createRenewalJob_def succeeded_jobs_def by (simp only: option.case)
    from 3 have "jr_status job = ''estimated'' \<or> jr_status job = ''pending''
        \<Longrightarrow> newest_open d (jr_blobRegistrationId job) = None"
      "jr_status job = ''succeeded'' \<Longrightarrow> succeeded_jobs (jr_blobRegistrationId job) (db_jobs d) = []"
      by (auto simp: first_row_None split: if_splits)
    moreover obtain org where "jr_orgId job = Some org"
      using assms eq by (auto simp: insert_job_def split: option.splits)
    moreover from this have "k = i" "\<exists>r. db_jobs d' = db_jobs d @ [r] \<and> rj_id r = i
        \<and> rj_blobRegistrationId r = jr_blobRegistrationId job \<and> rj_status r = jr_status job
        \<and> rj_createdAt r = now"
      using assms eq by (auto simp: insert_job_def new_job_def)
    ultimately show thesis using inserted by blast
  qed
qed

lemma insert_without_org: "jr_orgId job = None \<Longrightarrow> insert_job i now job d = Inl undefined_value"
  by (simp add: insert_job_def)

lemma queue_vault_ids:
  "queue_vault i now b d = Inr d' \<Longrightarrow> map rj_id (db_jobs d') = map rj_id (db_jobs d)"
  by (auto simp: queue_vault_def findBlobRegistrationByBlobId_def as_registration_def
      queued_record_def result_simps map_sql_update_frame
      elim!: create_job_cases split: option.splits)

lemma create_job_keeps_unique:
  assumes "createRenewalJob i now job d = Inr (k, d')" and "jobs_unique d"
    and "jr_status job \<noteq> ''retrying''"
  shows "jobs_unique d'"
  using assms(1)
proof (cases rule: create_job_cases)
  case (touched e)
  with assms(2) show ?thesis
    by (simp add: jobs_unique_def open_jobs_status succeeded_jobs_def length_filter_sql_update)
next
  case (skipped e)
  with assms(2) show ?thesis by simp
next
  case (inserted r)
  from assms(2) have u: "length (open_jobs b (db_jobs d)) \<le> 1" "length (succeeded_jobs b (db_jobs d)) \<le> 1" for b
    by (auto simp: jobs_unique_def)
  have "length (open_jobs b (db_jobs d')) \<le> 1" for b
  proof (cases "rj_blobRegistrationId r = b \<and> open_status (rj_status r)")
    case True
    with inserted assms(3) have "newest_open d b = None" by (auto simp: open_status_def)
    then have "open_jobs b (db_jobs d) = []" by (auto simp: open_jobs_status newest_open_None filter_empty_conv)
    with True inserted(3) show ?thesis by (simp add: open_jobs_status)
  next
    case False
    then have "open_jobs b (db_jobs d') = open_jobs b (db_jobs d)"
      unfolding inserted(3) open_jobs_status by simp
    with u(1) [of b] show ?thesis by simp
  qed
  moreover have "length (succeeded_jobs b (db_jobs d')) \<le> 1" for b
    using u inserted by (cases "rj_blobRegistrationId r = b \<and> rj_status r = ''succeeded''")
      (auto simp: succeeded_jobs_def)
  ultimately show ?thesis by (simp add: jobs_unique_def)
qed

lemma retrying_beside_open:
  assumes "createRenewalJob i now job d = Inr (k, d')" and "jr_status job = ''retrying''"
    and "open_jobs (jr_blobRegistrationId job) (db_jobs d) \<noteq> []"
  shows "\<not> jobs_unique d'"
proof -
  from assms(1,2) obtain r where "db_jobs d' = db_jobs d @ [r]" "rj_blobRegistrationId r = jr_blobRegistrationId job" "rj_status r = ''retrying''"
    by (cases rule: create_job_cases) auto
  then have "open_jobs (jr_blobRegistrationId job) (db_jobs d') = open_jobs (jr_blobRegistrationId job) (db_jobs d) @ [r]"
    by (simp add: open_jobs_status open_status_def)
  moreover have "length (open_jobs (jr_blobRegistrationId job) (db_jobs d) @ [r]) > 1" using assms(3) by simp
  ultimately show ?thesis unfolding jobs_unique_def by (metis not_le)
qed

lemma retrying_alone:
  assumes "createRenewalJob i now job d = Inr (k, d')" and "jobs_unique d" and "jr_status job = ''retrying''"
    and "open_jobs (jr_blobRegistrationId job) (db_jobs d) = []"
  shows "jobs_unique d'"
proof -
  from assms(1,3) obtain r where r: "db_jobs d' = db_jobs d @ [r]" "rj_blobRegistrationId r = jr_blobRegistrationId job" "rj_status r = ''retrying''"
    by (cases rule: create_job_cases) auto
  with assms(2,4) show ?thesis by (auto simp: jobs_unique_def open_jobs_status succeeded_jobs_def)
qed

lemma create_job_unique_iff:
  assumes "createRenewalJob i now job d = Inr (k, d')" and "jobs_unique d"
  shows "jobs_unique d' \<longleftrightarrow> \<not> (jr_status job = ''retrying'' \<and> open_jobs (jr_blobRegistrationId job) (db_jobs d) \<noteq> [])"
  using create_job_keeps_unique [OF assms] retrying_beside_open [OF assms(1)] retrying_alone [OF assms] by blast

lemma queue_due_vaults_unique: "jobs_unique d \<Longrightarrow> jobs_unique (queue_due_vaults ids now bs d)"
proof (induction ids now bs d rule: queue_due_vaults.induct)
  case (2 ids now b bs d)
  have "jobs_unique d'" if "queue_vault (ids 0) now b d = Inr d'" for d'
    using that 2(2) by (auto simp: queue_vault_def result_simps queued_record_def dest!: create_job_keeps_unique split: option.splits)
  with 2 show ?case by (auto split: sum.split)
qed simp

section \<open>Properties\<close>

text \<open>
  Writing an open job is idempotent: when a job of status estimated or pending has been written
  for a blob, writing it again, with whatever other fields, updates that same kind of row and adds
  none.
\<close>

theorem create_job_idempotent:
  assumes "createRenewalJob i now job d = Inr (k, d1)"
    and "jr_status job \<in> {''estimated'', ''pending''}"
    and "jr_status job2 \<in> {''estimated'', ''pending''}"
    and "jr_blobRegistrationId job2 = jr_blobRegistrationId job"
  shows "\<exists>k2 d2. createRenewalJob i2 now2 job2 d1 = Inr (k2, d2)
    \<and> k2 \<in> rj_id ` set (open_jobs (jr_blobRegistrationId job) (db_jobs d1))
    \<and> map rj_id (db_jobs d2) = map rj_id (db_jobs d1)"
proof -
  have "\<exists>j \<in> set (db_jobs d1). rj_blobRegistrationId j = jr_blobRegistrationId job \<and> open_status (rj_status j)"
    using assms(1)
  proof (cases rule: create_job_cases)
    case (touched e)
    with newest_openD [OF touched(2)] have "touch_job now job e \<in> set (db_jobs d1)"
      by (auto simp: set_sql_update image_iff intro!: bexI [of _ e])
    with newest_openD [OF touched(2)] show ?thesis by (intro bexI) auto
  qed (use assms(2) in \<open>auto simp: open_status_def\<close>)
  then obtain e where e: "newest_open d1 (jr_blobRegistrationId job) = Some e"
    using newest_open_None [of d1 "jr_blobRegistrationId job"] by auto
  with assms(3,4) have "createRenewalJob i2 now2 job2 d1 =
      Inr (rj_id e, upd_jobs (\<lambda>r. rj_id r = rj_id e) (touch_job now2 job2) d1)"
    by (auto simp: createRenewalJob_def)
  with newest_openD [OF e] show ?thesis
    by (auto simp: open_jobs_status map_sql_update_frame)
qed

theorem create_job_idempotent_witness:
  "\<exists>job k d1 k2 d2. createRenewalJob ''a'' 1 job empty_db = Inr (k, d1)
     \<and> createRenewalJob ''b'' 2 job d1 = Inr (k2, d2) \<and> length (db_jobs d2) = 1"
proof -
  let ?job = "(queued_record 0 (as_registration (new_blob ''r'' 0 ''o'' ''p'' ''x'')) no_policy)
    \<lparr>jr_orgId := Some ''o''\<rparr>"
  have st: "jr_status ?job \<in> {''estimated'', ''pending''}" by (simp add: queued_record_def)
  obtain k d1 where c: "createRenewalJob ''a'' 1 ?job empty_db = Inr (k, d1)" and l: "length (db_jobs d1) = 1"
    by (simp add: createRenewalJob_def queued_record_def newest_open_def empty_db_def insert_job_def)
  from create_job_idempotent [OF c st st refl, of "''b''" 2] obtain k2 d2 where
    c2: "createRenewalJob ''b'' 2 ?job d1 = Inr (k2, d2)" and
    m: "map rj_id (db_jobs d2) = map rj_id (db_jobs d1)" by blast
  from m l have "length (db_jobs d2) = 1" by (metis length_map)
  with c c2 show ?thesis by blast
qed

text \<open>
  C5: createRenewalJob keeps it true that a blob has at most one job that is estimated, pending or retrying and at most one that
  is succeeded, except that a record of status retrying is inserted beside an open job; and so does the queueing of the vaults
  of a scan, which writes estimated jobs only.
\<close>

theorem create_job_unique:
  assumes "jobs_unique d"
  shows "(createRenewalJob i now job d = Inr (k, d') \<longrightarrow>
      (jobs_unique d' \<longleftrightarrow> \<not> (jr_status job = ''retrying'' \<and> open_jobs (jr_blobRegistrationId job) (db_jobs d) \<noteq> [])))
    \<and> jobs_unique (queue_due_vaults ids now bs d)"
  using create_job_unique_iff [OF _ assms] queue_due_vaults_unique [OF assms] by blast

theorem create_job_unique_witness:
  "\<exists>job k d. createRenewalJob ''a'' 1 job empty_db = Inr (k, d) \<and> jobs_unique d \<and> db_jobs d \<noteq> []"
proof -
  let ?job = "(queued_record 0 (as_registration (new_blob ''r'' 0 ''o'' ''p'' ''x'')) no_policy)
    \<lparr>jr_orgId := Some ''o''\<rparr>"
  obtain k d where c: "createRenewalJob ''a'' 1 ?job empty_db = Inr (k, d)" and n: "db_jobs d \<noteq> []"
    by (simp add: createRenewalJob_def queued_record_def newest_open_def empty_db_def insert_job_def)
  have "jobs_unique d"
    using create_job_unique [of empty_db "''a''" 1 ?job k d] c
    by (simp add: jobs_unique_def open_jobs_status succeeded_jobs_def empty_db_def queued_record_def)
  with c n show ?thesis by blast
qed

text \<open>
  A second success of a blob is not recorded: once the blob has a succeeded job, writing another
  succeeded job leaves the database unchanged and answers with the id of the old one, although
  terminal jobs are documented to be inserted always.
\<close>

theorem second_success_dropped:
  assumes "jr_status job = ''succeeded''"
    and "succeeded_jobs (jr_blobRegistrationId job) (db_jobs d) = e # es"
  shows "createRenewalJob i now job d = Inr (rj_id e, d)"
  using assms by (simp add: createRenewalJob_def succeeded_jobs_def)

theorem second_success_dropped_witness:
  "\<exists>job d. jr_completedAt job = Some 99 \<and> jr_status job = ''succeeded''
     \<and> createRenewalJob ''new'' 99 job d = Inr (''old'', d)"
proof -
  let ?job = "(queued_record 0 (as_registration (new_blob ''r'' 0 ''o'' ''p'' ''x'')) no_policy)
    \<lparr>jr_status := ''succeeded'', jr_completedAt := Some 99\<rparr>"
  let ?old = "(new_job ''old'' 0 ''o'' ''r'')\<lparr>rj_status := ''succeeded''\<rparr>"
  let ?d = "empty_db\<lparr>db_jobs := [?old]\<rparr>"
  have "createRenewalJob ''new'' 99 ?job ?d = Inr (rj_id ?old, ?d)"
    by (rule second_success_dropped [of _ _ _ "[]"])
      (simp_all add: succeeded_jobs_def queued_record_def as_registration_def new_blob_def new_job_def)
  then show ?thesis
    by (intro exI [of _ ?job] exI [of _ ?d]) (simp add: new_job_def queued_record_def)
qed

text \<open>
  A scan never adds a job to the queue: the registration is read under names its columns do not
  have, so the insert is rejected, and only rows that exist already are refreshed.
\<close>

theorem scan_queues_nothing:
  "map rj_id (db_jobs (queue_due_vaults ids now blobs d)) = map rj_id (db_jobs d)"
proof (induction blobs arbitrary: d ids)
  case (Cons b bs)
  then show ?case by (auto split: sum.splits dest: queue_vault_ids)
qed simp

end
