(* ===== verification/Cost_Engine.thy ===== *)
theory Cost_Engine
  imports Event_Bus
begin

text \<open>
  Cost estimation, spending limits and budgets: \<open>api/src/lib/cost-engine.ts\<close>. Amounts are rationals.
  A query is run on the tables after its column references are resolved: a qualified column whose
  qualifier is not a table or alias of the \<open>FROM\<close> clause is an error of the database, as in
  PostgreSQL. Events that are emitted without being awaited are returned beside the result.
\<close>

section \<open>Estimates\<close>

record cost_estimate =
  ce_estimatedCost :: int
  ce_estimatedAt :: int
  ce_stalenessMs :: int
  ce_fresh :: bool
  ce_blobSizeBytes :: int
  ce_extensionEpochs :: int
  ce_baseCost :: int
  ce_publisherPremium :: int

definition DEFAULT_MAX_ESTIMATE_STALENESS_MS :: int where
  "DEFAULT_MAX_ESTIMATE_STALENESS_MS = 5 * 60 * 1000"

text \<open>\<open>parseInt\<close> of the environment variable or of the default; \<open>None\<close> is \<open>NaN\<close>.\<close>

definition max_staleness :: "string option \<Rightarrow> int option" where
  "max_staleness env =
     (case truthy env of Some s \<Rightarrow> parse_int s
      | None \<Rightarrow> parse_int (show_int DEFAULT_MAX_ESTIMATE_STALENESS_MS))"

definition isEstimateFresh :: "string option \<Rightarrow> int \<Rightarrow> int \<Rightarrow> bool" where
  "isEstimateFresh env now estimatedAt =
     (case max_staleness env of None \<Rightarrow> False | Some m \<Rightarrow> now - estimatedAt \<le> m)"

definition assertEstimateFresh :: "string option \<Rightarrow> int \<Rightarrow> int \<Rightarrow> thrown + unit" where
  "assertEstimateFresh env now estimatedAt =
     (case max_staleness env of
        None \<Rightarrow> Inr ()
      | Some m \<Rightarrow>
          if now - estimatedAt > m
          then Inl (ErrObj (AppError (''Cost estimate is too stale ('' @ show_int (now - estimatedAt)
                 @ ''ms old > max '' @ show_int m @ ''ms). Re-estimate required.'') 422
                 (Some ''VALIDATION_ERROR'') None) None)
          else Inr ())"

definition estimateRenewalCost ::
    "db \<Rightarrow> string option \<Rightarrow> int \<Rightarrow> string \<Rightarrow> int \<Rightarrow> string option \<Rightarrow> thrown + cost_estimate" where
  "estimateRenewalCost d env now blobId extensionEpochs publisherEndpoint =
     (case first_row (filter (\<lambda>b. bl_id b = blobId) (db_blobs d)) of
        None \<Rightarrow> Inl (js_Error (''Blob registration not found: '' @ blobId))
      | Some blob \<Rightarrow>
          (let blobSizeBytes = or_default (bl_sizeBytes blob) 0;
               baseCost = blobSizeBytes * extensionEpochs;
               publisher =
                 (case truthy publisherEndpoint of
                    None \<Rightarrow> None
                  | Some ep \<Rightarrow>
                      first_row (filter (\<lambda>p. pb_orgId p = bl_orgId blob \<and> pb_endpoint p = Some ep
                                          \<and> pb_status p = ''active'') (db_publishers d)));
               publisherPremium =
                 (case publisher of
                    Some p \<Rightarrow> if truthy (pb_suiVaultId p) \<noteq> None then baseCost div 10 else 0
                  | None \<Rightarrow> 0)
           in Inr \<lparr>ce_estimatedCost = baseCost + publisherPremium, ce_estimatedAt = now,
                   ce_stalenessMs = 0, ce_fresh = isEstimateFresh env now now,
                   ce_blobSizeBytes = blobSizeBytes, ce_extensionEpochs = extensionEpochs,
                   ce_baseCost = baseCost, ce_publisherPremium = publisherPremium\<rparr>))"

section \<open>Spending limits\<close>

definition getEffectiveSpendingLimits ::
    "db \<Rightarrow> string \<Rightarrow> string option \<Rightarrow> string option \<Rightarrow> string option \<Rightarrow> limit_row list" where
  "getEffectiveSpendingLimits d org project wallet policy =
     filter (\<lambda>l. sl_orgId l = org \<and> sl_status l = ''active'' \<and>
        ((truthy wallet \<noteq> None \<and> sl_scope l = ''wallet'' \<and> Some (sl_scopeTargetId l) = wallet)
         \<or> (truthy project \<noteq> None \<and> sl_scope l = ''project'' \<and> Some (sl_scopeTargetId l) = project)
         \<or> (sl_scope l = ''organization'' \<and> sl_scopeTargetId l = org)
         \<or> (truthy policy \<noteq> None \<and> sl_scope l = ''policy'' \<and> Some (sl_scopeTargetId l) = policy)))
       (db_limits d)"

definition periodStart :: "int \<Rightarrow> string \<Rightarrow> int option" where
  "periodStart now period =
     (if period = ''daily'' then Some (now - 86400000)
      else if period = ''weekly'' then Some (now - 7 * 86400000)
      else if period = ''monthly'' then Some (now - 30 * 86400000)
      else None)"

definition in_period :: "int \<Rightarrow> string \<Rightarrow> cost_row \<Rightarrow> bool" where
  "in_period now period c =
     (case periodStart now period of
        None \<Rightarrow> True
      | Some t \<Rightarrow> (case cr_recordedAt c of Some r \<Rightarrow> r \<ge> t | None \<Rightarrow> False))"

text \<open>\<open>CAST(COALESCE(SUM(q.actual_cost), 0) AS FLOAT8)\<close> over the selected rows.\<close>

definition sum_actual :: "string option \<Rightarrow> string list \<Rightarrow> cost_row list \<Rightarrow> thrown + rat" where
  "sum_actual qualifier from_tables rows =
     (case qualifier of
        Some q \<Rightarrow>
          if q \<in> set from_tables
          then Inr (sum_list (map (\<lambda>c. or_default (cr_actualCost c) 0) rows))
          else Inl (js_Error (''missing FROM-clause entry for table '' @ dq q))
      | None \<Rightarrow> Inr (sum_list (map (\<lambda>c. or_default (cr_actualCost c) 0) rows)))"

text \<open>Inner joins yield one row per matching combination.\<close>

definition cost_jobs :: "db \<Rightarrow> cost_row list \<Rightarrow> (cost_row \<times> job_row) list" where
  "cost_jobs d cs =
     concat (map (\<lambda>c. map (Pair c) (filter (\<lambda>j. cr_renewalJobId c = Some (rj_id j)) (db_jobs d))) cs)"

definition getSpendingLimitSpent :: "db \<Rightarrow> int \<Rightarrow> limit_row \<Rightarrow> thrown + rat" where
  "getSpendingLimitSpent d now l =
     (let costs = filter (in_period now (sl_period l)) (db_costs d) in
      if sl_scope l = ''wallet'' then
        sum_actual (Some ''cr'') [''cost_records'', ''renewal_jobs'', ''blob_registrations'']
          (concat (map (\<lambda>(c, j). map (\<lambda>_. c)
             (filter (\<lambda>b. rj_blobRegistrationId j = bl_id b
                         \<and> bl_walletId b = Some (sl_scopeTargetId l)) (db_blobs d)))
             (cost_jobs d (filter (\<lambda>c. cr_orgId c = sl_orgId l) costs))))
      else if sl_scope l = ''project'' then
        sum_actual (Some ''cr'') [''cost_records'']
          (filter (\<lambda>c. cr_projectId c = Some (sl_scopeTargetId l) \<and> cr_orgId c = sl_orgId l) costs)
      else if sl_scope l = ''policy'' then
        sum_actual (Some ''cr'') [''cost_records'', ''renewal_jobs'', ''policy_assignments'']
          (concat (map (\<lambda>(c, j). map (\<lambda>_. c)
             (filter (\<lambda>a. rj_blobRegistrationId j = pa_blobRegistrationId a
                         \<and> pa_policyId a = sl_scopeTargetId l) (db_assignments d)))
             (cost_jobs d (filter (\<lambda>c. cr_orgId c = sl_orgId l) costs))))
      else
        sum_actual (Some ''cr'') [''cost_records'']
          (filter (\<lambda>c. cr_orgId c = sl_scopeTargetId l) costs))"

section \<open>Budgets\<close>

definition getBudgetSpent :: "db \<Rightarrow> budget_row \<Rightarrow> thrown + rat" where
  "getBudgetSpent d bu =
     sum_actual None [''cost_records'']
       (filter (\<lambda>c. cr_orgId c = bu_orgId bu
           \<and> (case cr_recordedAt c of Some r \<Rightarrow> r \<ge> bu_windowStart bu | None \<Rightarrow> False)
           \<and> (case truthy (bu_projectId bu) of
                Some p \<Rightarrow> cr_projectId c = Some p | None \<Rightarrow> cr_projectId c = None)
           \<and> (case bu_windowEnd bu of
                Some e \<Rightarrow> (case cr_recordedAt c of Some r \<Rightarrow> r \<le> e | None \<Rightarrow> False)
              | None \<Rightarrow> True)) (db_costs d))"

text \<open>\<open>((spent + estimated) / amount) * 100 >= threshold\<close> in floating point: a zero amount gives
  plus infinity, minus infinity or \<open>NaN\<close>.\<close>

definition percent_reached :: "rat \<Rightarrow> int \<Rightarrow> int \<Rightarrow> bool" where
  "percent_reached projected amount threshold =
     (if amount = 0 then projected > 0
      else projected / rat_of_int amount * 100 \<ge> rat_of_int threshold)"

definition budget_crossed :: "db \<Rightarrow> rat \<Rightarrow> budget_row \<Rightarrow> bool" where
  "budget_crossed d estimated bu =
     (case bu_alertThreshold bu of
        None \<Rightarrow> False
      | Some t \<Rightarrow>
          if t = 0 then False
          else (case getBudgetSpent d bu of
                  Inr spent \<Rightarrow> percent_reached (spent + estimated) (bu_amount bu) t
                | Inl _ \<Rightarrow> False))"

section \<open>The check before execution\<close>

record budget_check =
  bc_allowed :: bool
  bc_softThresholdCrossed :: bool
  bc_hardLimitBlocked :: bool
  bc_blockingLimitId :: "string option"
  bc_message :: "string option"

definition limit_name :: "limit_row \<Rightarrow> string" where
  "limit_name l = (case truthy (sl_name l) of Some n \<Rightarrow> n | None \<Rightarrow> ''Unnamed'')"

definition json_opt :: "string option \<Rightarrow> json" where
  "json_opt x = (case x of Some s \<Rightarrow> JStr s | None \<Rightarrow> JNull)"

definition cost_details :: "string option \<Rightarrow> string option \<Rightarrow> int \<Rightarrow> (string \<times> json) list" where
  "cost_details project wallet estimated =
     [(''estimatedCost'', JNum estimated), (''walletId'', json_opt wallet),
      (''projectId'', json_opt project)]"

fun check_limits ::
    "db \<Rightarrow> int \<Rightarrow> string \<Rightarrow> string option \<Rightarrow> string option \<Rightarrow> int \<Rightarrow> limit_row list
     \<Rightarrow> thrown + (budget_check \<times> event_payload list) option" where
  "check_limits d now org project wallet estimated [] = Inr None"
| "check_limits d now org project wallet estimated (l # ls) =
     bindE (getSpendingLimitSpent d now l) (\<lambda>currentSpent.
       if currentSpent + rat_of_int estimated > rat_of_int (sl_amount l)
       then Inr (Some (\<lparr>bc_allowed = False, bc_softThresholdCrossed = False, bc_hardLimitBlocked = True,
                  bc_blockingLimitId = Some (sl_id l),
                  bc_message = Some (''Would exceed '' @ sl_scope l @ '' spending limit ''
                                 @ sq (limit_name l))\<rparr>,
               [createEvent now ''spending_limit.blocked'' org ''spending_limit'' (sl_id l) ActSystem
                  (Some (JObj (cost_details project wallet estimated
                                @ [(''limitName'', JStr (limit_name l))]))) None]))
       else check_limits d now org project wallet estimated ls)"

definition checkBudgetBeforeExecution ::
    "db \<Rightarrow> int \<Rightarrow> string \<Rightarrow> string option \<Rightarrow> string option \<Rightarrow> string option \<Rightarrow> int \<Rightarrow> bool
     \<Rightarrow> thrown + budget_check \<times> event_payload list" where
  "checkBudgetBeforeExecution d now org project wallet policy estimated overridden =
     (if overridden
      then Inr (\<lparr>bc_allowed = True, bc_softThresholdCrossed = False, bc_hardLimitBlocked = False,
                 bc_blockingLimitId = None, bc_message = None\<rparr>, [])
      else
        bindE (check_limits d now org project wallet estimated
                 (getEffectiveSpendingLimits d org project wallet policy)) (\<lambda>blocked.
          case blocked of
            Some r \<Rightarrow> Inr r
          | None \<Rightarrow>
              (let projectBudgets =
                     (if truthy project \<noteq> None
                      then filter (\<lambda>bu. bu_orgId bu = org \<and> bu_projectId bu = project
                                       \<and> bu_status bu = ''active'') (db_budgets d)
                      else []);
                   orgBudgets =
                     filter (\<lambda>bu. bu_orgId bu = org \<and> bu_projectId bu = None
                                 \<and> bu_status bu = ''active'') (db_budgets d);
                   soft = list_ex (budget_crossed d (rat_of_int estimated)) (projectBudgets @ orgBudgets);
                   details = Some (JObj (cost_details project wallet estimated))
               in Inr (\<lparr>bc_allowed = True, bc_softThresholdCrossed = soft, bc_hardLimitBlocked = False,
                        bc_blockingLimitId = None, bc_message = None\<rparr>,
                       if soft
                       then [createEvent now ''budget.threshold_crossed'' org ''budget'' org ActSystem
                               details None,
                             createEvent now ''policy.threshold_breached'' org ''budget'' org ActSystem
                               details None]
                       else []))))"

section \<open>Recording costs\<close>

text \<open>The message of the conflict is given without the stored amount that the code appends.\<close>

definition recordActualCost ::
    "string \<Rightarrow> int \<Rightarrow> string \<Rightarrow> rat \<Rightarrow> string \<Rightarrow> string option \<Rightarrow> db \<Rightarrow> thrown + db" where
  "recordActualCost i now jobId actual txDigest project d =
     (case first_row (filter (\<lambda>j. rj_id j = jobId) (db_jobs d)) of
        None \<Rightarrow> Inl (js_Error (''Renewal job not found: '' @ jobId))
      | Some job \<Rightarrow>
          if rj_actualCost job \<noteq> None
          then Inl (ErrObj (AppError (''Actual cost already recorded for renewal job '' @ jobId) 409
                      (Some ''CONFLICT'') None) None)
          else Inr
            ((upd_jobs (\<lambda>j. rj_id j = jobId)
                (\<lambda>j. j\<lparr>rj_actualCost := Some actual, rj_txDigest := Some txDigest,
                       rj_completedAt := Some now, rj_updatedAt := now\<rparr>) d)
              \<lparr>db_costs := db_costs d @
                 [\<lparr>cr_id = i, cr_blobRegistrationId = Some (rj_blobRegistrationId job),
                   cr_renewalJobId = Some (rj_id job),
                   cr_estimatedCost = map_option rat_of_int (rj_estimatedCost job),
                   cr_actualCost = Some actual, cr_windowId = None, cr_recordedAt = Some now,
                   cr_orgId = rj_orgId job, cr_projectId = project\<rparr>]\<rparr>))"

section \<open>Window rollover\<close>

definition upd_budgets :: "string \<Rightarrow> (budget_row \<Rightarrow> budget_row) \<Rightarrow> db \<Rightarrow> db" where
  "upd_budgets i f d = d\<lparr>db_budgets := sql_update (\<lambda>b. bu_id b = i) f (db_budgets d)\<rparr>"

definition rolloverBudgetWindow ::
    "string \<Rightarrow> int \<Rightarrow> string \<Rightarrow> db \<Rightarrow> thrown + db \<times> event_payload" where
  "rolloverBudgetWindow i now budgetId d =
     (case first_row (filter (\<lambda>b. bu_id b = budgetId) (db_budgets d)) of
        None \<Rightarrow> Inl (js_Error (''Budget '' @ budgetId @ '' not found''))
      | Some bu \<Rightarrow>
          (case bu_windowEnd bu of
             None \<Rightarrow> Inl (js_Error (''Budget '' @ budgetId @ '' has no windowEnd''))
           | Some wend \<Rightarrow>
               (let duration = wend - bu_windowStart bu;
                    newStart = wend;
                    newEnd = newStart + duration;
                    d1 = upd_budgets budgetId (\<lambda>b. b\<lparr>bu_status := ''window_closed''\<rparr>) d;
                    d2 = upd_budgets budgetId (\<lambda>b. b\<lparr>bu_status := ''active'', bu_windowStart := newStart,
                                                    bu_windowEnd := Some newEnd\<rparr>) d1;
                    details = JObj [(''previousWindowEnd'', JNum wend), (''newWindowStart'', JNum newStart),
                                    (''newWindowEnd'', JNum newEnd)];
                    d3 = d2\<lparr>db_audits := db_audits d2 @
                           [(new_audit i now (bu_orgId bu) ''budget.window_rolled_over'' ''budget'')
                              \<lparr>au_resourceId := Some budgetId, au_details := Some details\<rparr>]\<rparr>
                in Inr (d3, createEvent now ''budget.window_rolled_over'' (bu_orgId bu) ''budget''
                              budgetId ActSystem (Some (json_spread (Some details)
                                [(''budgetId'', JStr budgetId)])) None))))"

section \<open>Facts\<close>

lemma limit_spent_fails:
  "getSpendingLimitSpent d now l = Inl (js_Error (''missing FROM-clause entry for table '' @ dq ''cr''))"
  by (simp add: getSpendingLimitSpent_def sum_actual_def Let_def)

lemma check_limits_fails:
  "check_limits d now org project wallet estimated (l # ls) =
     Inl (js_Error (''missing FROM-clause entry for table '' @ dq ''cr''))"
  by (simp add: limit_spent_fails)

lemma budget_spent_ok: "\<exists>s. getBudgetSpent d bu = Inr s"
  by (simp add: getBudgetSpent_def sum_actual_def)

text \<open>The abstract specification of a soft budget.\<close>

definition active_budgets :: "db \<Rightarrow> string \<Rightarrow> string option \<Rightarrow> budget_row set" where
  "active_budgets d org project =
     {bu \<in> set (db_budgets d). bu_orgId bu = org \<and> bu_status bu = ''active''
        \<and> (bu_projectId bu = None \<or> (truthy project \<noteq> None \<and> bu_projectId bu = project))}"

lemma check_budget_no_limits:
  assumes "getEffectiveSpendingLimits d org project wallet policy = []"
  shows "\<exists>r evs. checkBudgetBeforeExecution d now org project wallet policy est False = Inr (r, evs)
    \<and> bc_allowed r \<and> \<not> bc_hardLimitBlocked r
    \<and> (bc_softThresholdCrossed r \<longleftrightarrow>
        (\<exists>bu \<in> active_budgets d org project. budget_crossed d (rat_of_int est) bu))"
  using assms
  by (auto simp: checkBudgetBeforeExecution_def Let_def active_budgets_def list_ex_iff
           split: if_splits)

lemma record_cost_ok:
  assumes "recordActualCost i now jobId c tx pr d = Inr d'"
  shows "\<exists>j. first_row (filter (\<lambda>j. rj_id j = jobId) (db_jobs d)) = Some j \<and> rj_actualCost j = None
    \<and> (\<exists>r. db_costs d' = db_costs d @ [r] \<and> cr_actualCost r = Some c \<and> cr_renewalJobId r = Some jobId)
    \<and> db_jobs d' = sql_update (\<lambda>j. rj_id j = jobId)
         (\<lambda>j. j\<lparr>rj_actualCost := Some c, rj_txDigest := Some tx, rj_completedAt := Some now,
                rj_updatedAt := now\<rparr>) (db_jobs d)"
  using assms by (auto simp: recordActualCost_def split: option.splits if_splits dest!: first_row_filter_SomeD)

lemma first_row_update:
  "(\<And>r. p r \<Longrightarrow> p (f r)) \<Longrightarrow>
   first_row (filter p (sql_update p f rows)) = map_option f (first_row (filter p rows))"
  by (induction rows) auto

section \<open>Properties\<close>

text \<open>
  Spending limits are never enforced by blocking. When an active limit applies, the check
  throws, because the sum over the cost records names an alias that the query does not declare;
  when none applies or the job is overridden, the check allows the renewal. No result forbids one.
\<close>

theorem budget_check_never_blocks:
  "case checkBudgetBeforeExecution d now org project wallet policy est overridden of
     Inl e \<Rightarrow> \<not> overridden \<and> getEffectiveSpendingLimits d org project wallet policy \<noteq> []
       \<and> e = js_Error (''missing FROM-clause entry for table '' @ dq ''cr'')
   | Inr (r, evs) \<Rightarrow> bc_allowed r \<and> \<not> bc_hardLimitBlocked r
       \<and> (overridden \<or> getEffectiveSpendingLimits d org project wallet policy = [])"
proof (cases "overridden")
  case True
  then show ?thesis by (simp add: checkBudgetBeforeExecution_def)
next
  case False
  show ?thesis
  proof (cases "getEffectiveSpendingLimits d org project wallet policy")
    case Nil
    from check_budget_no_limits [OF Nil, of now est] False Nil show ?thesis by auto
  next
    case (Cons l ls)
    then have "checkBudgetBeforeExecution d now org project wallet policy est overridden
        = Inl (js_Error (''missing FROM-clause entry for table '' @ dq ''cr''))"
      using False by (simp add: checkBudgetBeforeExecution_def limit_spent_fails)
    with Cons False show ?thesis by simp
  qed
qed

text \<open>
  Without an applicable limit the check reports a crossed soft threshold exactly when some
  active budget of the organization or of the project would reach its alert threshold with the
  estimate added, and it never blocks for a budget.
\<close>

theorem soft_threshold_spec:
  assumes "getEffectiveSpendingLimits d org project wallet policy = []"
  shows "\<exists>r evs. checkBudgetBeforeExecution d now org project wallet policy est False = Inr (r, evs)
    \<and> bc_allowed r
    \<and> (bc_softThresholdCrossed r \<longleftrightarrow>
        (\<exists>bu \<in> active_budgets d org project. budget_crossed d (rat_of_int est) bu))"
  using check_budget_no_limits [OF assms] by blast

theorem soft_threshold_spec_witness:
  "\<exists>r evs. checkBudgetBeforeExecution empty_db 0 ''o'' None None None 5 False = Inr (r, evs)
    \<and> bc_allowed r \<and> \<not> bc_softThresholdCrossed r"
  using soft_threshold_spec [of empty_db "''o''" None None None 0 5]
  by (auto simp: getEffectiveSpendingLimits_def empty_db_def active_budgets_def)

text \<open>
  Actual costs are immutable: a successful recording appends one cost record and keeps all
  earlier ones, and every later recording for the same job is rejected with a conflict.
\<close>

theorem actual_cost_immutable:
  assumes "recordActualCost i now jobId c tx pr d = Inr d'"
  shows "(\<exists>r. db_costs d' = db_costs d @ [r] \<and> cr_actualCost r = Some c)
    \<and> (\<exists>e. recordActualCost i2 now2 jobId c2 tx2 pr2 d' = Inl (ErrObj e None) \<and> e_status e = Some 409)"
proof -
  from record_cost_ok [OF assms] obtain j where
    j: "first_row (filter (\<lambda>j. rj_id j = jobId) (db_jobs d)) = Some j" and
    jobs: "db_jobs d' = sql_update (\<lambda>j. rj_id j = jobId)
         (\<lambda>j. j\<lparr>rj_actualCost := Some c, rj_txDigest := Some tx, rj_completedAt := Some now,
                rj_updatedAt := now\<rparr>) (db_jobs d)" by blast
  have "first_row (filter (\<lambda>j. rj_id j = jobId) (db_jobs d')) =
      Some (j\<lparr>rj_actualCost := Some c, rj_txDigest := Some tx, rj_completedAt := Some now,
              rj_updatedAt := now\<rparr>)"
    using j unfolding jobs by (subst first_row_update) simp_all
  then have "\<exists>e. recordActualCost i2 now2 jobId c2 tx2 pr2 d' = Inl (ErrObj e None) \<and> e_status e = Some 409"
    by (simp add: recordActualCost_def AppError_def)
  with record_cost_ok [OF assms] show ?thesis by blast
qed

theorem actual_cost_immutable_witness:
  "\<exists>d'. recordActualCost ''c1'' 5 ''j'' 7 ''0x'' None (empty_db\<lparr>db_jobs := [new_job ''j'' 0 ''o'' ''b'']\<rparr>) = Inr d'
     \<and> \<not> is_ok (recordActualCost ''c2'' 6 ''j'' 9 ''0y'' None d')"
proof -
  obtain d' where d: "recordActualCost ''c1'' 5 ''j'' 7 ''0x'' None
      (empty_db\<lparr>db_jobs := [new_job ''j'' 0 ''o'' ''b'']\<rparr>) = Inr d'"
    by (simp add: recordActualCost_def new_job_def)
  with actual_cost_immutable [OF d, of "''c2''" 6 9 "''0y''" None] show ?thesis by auto
qed

text \<open>
  A window rollover is contiguous and keeps the duration: the budget is active again, its new
  window starts where the old one ended and is as long, and one audit entry is written.
\<close>

theorem rollover_contiguous:
  assumes "rolloverBudgetWindow i now b d = Inr (d', ev)"
    and "first_row (filter (\<lambda>r. bu_id r = b) (db_budgets d)) = Some old"
  shows "\<exists>new wend. first_row (filter (\<lambda>r. bu_id r = b) (db_budgets d')) = Some new
    \<and> bu_windowEnd old = Some wend \<and> bu_status new = ''active'' \<and> bu_windowStart new = wend
    \<and> bu_windowEnd new = Some (wend + (wend - bu_windowStart old))
    \<and> bu_amount new = bu_amount old \<and> length (db_audits d') = length (db_audits d) + 1"
proof -
  from assms obtain wend where w: "bu_windowEnd old = Some wend"
    by (auto simp: rolloverBudgetWindow_def split: option.splits)
  with assms show ?thesis
    by (auto simp: rolloverBudgetWindow_def Let_def upd_budgets_def first_row_update)
qed

theorem rollover_contiguous_witness:
  "\<exists>d' ev. rolloverBudgetWindow ''a'' 90 ''b''
      (empty_db\<lparr>db_budgets := [(new_budget ''b'' 10 ''o'' ''n'' 100)\<lparr>bu_windowEnd := Some 50\<rparr>]\<rparr>) = Inr (d', ev)
     \<and> (\<exists>new. first_row (filter (\<lambda>r. bu_id r = ''b'') (db_budgets d')) = Some new
          \<and> bu_windowStart new = 50 \<and> bu_windowEnd new = Some 90)"
proof -
  let ?b = "(new_budget ''b'' 10 ''o'' ''n'' 100)\<lparr>bu_windowEnd := Some 50\<rparr>"
  obtain d' ev where d: "rolloverBudgetWindow ''a'' 90 ''b'' (empty_db\<lparr>db_budgets := [?b]\<rparr>) = Inr (d', ev)"
    by (simp add: rolloverBudgetWindow_def new_budget_def Let_def)
  have b: "first_row (filter (\<lambda>r. bu_id r = ''b'') (db_budgets (empty_db\<lparr>db_budgets := [?b]\<rparr>))) = Some ?b"
    by (simp add: new_budget_def)
  from rollover_contiguous [OF d b] d show ?thesis by (auto simp: new_budget_def)
qed

end
