(* ===== verification/Lifecycle.thy ===== *)
theory Lifecycle
  imports App_Errors
begin

text \<open>
  The state machines of \<open>api/src/lib/state-machine.ts\<close>: the registry the module fills while it
  loads, the validation of a transition, and the machines of the fifteen stateful entities.
  A locale states what the callers rely on (declared states stay declared, terminal states are
  absorbing) and is interpreted on every registered machine.
\<close>

section \<open>Machines and the registry\<close>

datatype transition_type = Automatic | Manual

datatype machine_name =
    SM_blob | SM_renewal | SM_policy | SM_alert_rule | SM_alert_event | SM_webhook
  | SM_notification | SM_wallet | SM_project | SM_organization | SM_api_key | SM_budget
  | SM_spending_limit | SM_schedule | SM_subscription

record transition =
  tr_from :: string
  tr_to :: string
  tr_type :: transition_type
  tr_description :: "string option"

record machine_def =
  sm_name :: machine_name
  sm_initial :: string
  sm_states :: "string list"
  sm_terminal :: "string list"
  sm_transitions :: "transition list"

fun name_str :: "machine_name \<Rightarrow> string" where
  "name_str SM_blob = ''blob''"
| "name_str SM_renewal = ''renewal''"
| "name_str SM_policy = ''policy''"
| "name_str SM_alert_rule = ''alert_rule''"
| "name_str SM_alert_event = ''alert_event''"
| "name_str SM_webhook = ''webhook''"
| "name_str SM_notification = ''notification''"
| "name_str SM_wallet = ''wallet''"
| "name_str SM_project = ''project''"
| "name_str SM_organization = ''organization''"
| "name_str SM_api_key = ''api_key''"
| "name_str SM_budget = ''budget''"
| "name_str SM_spending_limit = ''spending_limit''"
| "name_str SM_schedule = ''schedule''"
| "name_str SM_subscription = ''subscription''"

type_synonym registry = "machine_name \<Rightarrow> machine_def option"

definition StateTransitionError :: "string \<Rightarrow> string \<Rightarrow> string \<Rightarrow> string option \<Rightarrow> err_fields" where
  "StateTransitionError entity from to reason =
     (let base = ''Invalid state transition for '' @ entity @ '': '' @ from @ '' -> '' @ to;
          msg = (case reason of
                   Some r \<Rightarrow> if r = [] then base else base @ '' ('' @ r @ '')''
                 | None \<Rightarrow> base)
      in (AppError msg 400 (Some ''VALIDATION_ERROR'') None)
           \<lparr>e_ctor := CStateTransitionError, e_name := ''StateTransitionError''\<rparr>)"

definition registerMachine :: "machine_def \<Rightarrow> registry \<Rightarrow> thrown + registry" where
  "registerMachine d ms =
     (if ms (sm_name d) \<noteq> None
      then Inl (js_Error (''State machine '' @ sq (name_str (sm_name d)) @ '' is already registered''))
      else Inr (ms(sm_name d \<mapsto> d)))"

definition getMachine :: "registry \<Rightarrow> machine_name \<Rightarrow> thrown + machine_def" where
  "getMachine ms n =
     (case ms n of
        None \<Rightarrow> Inl (js_Error (''State machine '' @ sq (name_str n) @ '' not found ''
                        @ em_dash @ '' did you register it?''))
      | Some d \<Rightarrow> Inr d)"

definition validateTransition ::
    "registry \<Rightarrow> machine_name \<Rightarrow> string \<Rightarrow> string \<Rightarrow> bool \<Rightarrow> thrown + transition" where
  "validateTransition ms n from to allow_terminal_override =
     bindE (getMachine ms n) (\<lambda>m.
       let fail = (\<lambda>reason. Inl (ErrObj (StateTransitionError (name_str n) from to (Some reason)) None))
       in if from \<notin> set (sm_states m) then fail (sq from @ '' is not a valid state'')
          else if to \<notin> set (sm_states m) then fail (sq to @ '' is not a valid state'')
          else if from \<in> set (sm_terminal m) \<and> \<not> allow_terminal_override
          then fail (sq from @ '' is a terminal state '' @ em_dash @ '' no transitions allowed'')
          else (case find (\<lambda>t. tr_from t = from \<and> tr_to t = to) (sm_transitions m) of
                  None \<Rightarrow> fail ''transition not defined in spec''
                | Some t \<Rightarrow> Inr t))"

definition validNextStates ::
    "registry \<Rightarrow> machine_name \<Rightarrow> string \<Rightarrow> thrown + (string \<times> transition_type) list" where
  "validNextStates ms n current =
     bindE (getMachine ms n) (\<lambda>m.
       Inr (map (\<lambda>t. (tr_to t, tr_type t))
              (filter (\<lambda>t. tr_from t = current) (sm_transitions m))))"

definition isTerminal :: "registry \<Rightarrow> machine_name \<Rightarrow> string \<Rightarrow> thrown + bool" where
  "isTerminal ms n s = bindE (getMachine ms n) (\<lambda>m. Inr (s \<in> set (sm_terminal m)))"

definition tr :: "string \<Rightarrow> string \<Rightarrow> transition_type \<Rightarrow> string option \<Rightarrow> transition" where
  "tr from to ty desc = \<lparr>tr_from = from, tr_to = to, tr_type = ty, tr_description = desc\<rparr>"

lemma tr_simps [simp]:
  "tr_from (tr a b ty d) = a" "tr_to (tr a b ty d) = b" "tr_type (tr a b ty d) = ty"
  by (simp_all add: tr_def)

section \<open>The registered machines\<close>

definition blob_machine :: machine_def where
  "blob_machine =
     \<lparr>sm_name = SM_blob, sm_initial = ''discovered'',
      sm_states = [''discovered'', ''verified'', ''tracked'', ''protected'', ''expiring'',
        ''renewing'', ''renewed'', ''expired'', ''archived'', ''deleted''],
      sm_terminal = [''deleted''],
      sm_transitions =
        [tr ''discovered'' ''verified'' Automatic (Some ''On first successful verification''),
         tr ''verified'' ''tracked'' Automatic None,
         tr ''tracked'' ''protected'' Automatic (Some ''Policy match''),
         tr ''protected'' ''tracked'' Automatic (Some ''Policy unmatch''),
         tr ''protected'' ''expiring'' Automatic (Some ''Threshold crossed''),
         tr ''expiring'' ''renewing'' Automatic (Some (''If protected '' @ em_dash @ '' auto-renewal'')),
         tr ''expiring'' ''renewing'' Manual (Some (''If tracked '' @ em_dash @ '' manual request'')),
         tr ''renewing'' ''renewed'' Automatic (Some ''Renewal succeeded''),
         tr ''renewing'' ''expiring'' Automatic (Some ''Renewal terminal failure''),
         tr ''renewed'' ''tracked'' Automatic None,
         tr ''renewed'' ''protected'' Automatic None,
         tr ''expiring'' ''expired'' Automatic (Some ''Epoch passed without renewal''),
         tr ''tracked'' ''archived'' Manual None,
         tr ''protected'' ''archived'' Manual None,
         tr ''discovered'' ''archived'' Manual None,
         tr ''verified'' ''archived'' Manual None,
         tr ''expiring'' ''archived'' Manual None,
         tr ''renewing'' ''archived'' Manual None,
         tr ''renewed'' ''archived'' Manual None,
         tr ''expired'' ''archived'' Manual None,
         tr ''tracked'' ''deleted'' Manual None,
         tr ''protected'' ''deleted'' Manual None,
         tr ''archived'' ''deleted'' Manual None,
         tr ''expired'' ''deleted'' Manual None]\<rparr>"

definition renewal_machine :: machine_def where
  "renewal_machine =
     \<lparr>sm_name = SM_renewal, sm_initial = ''estimated'',
      sm_states = [''estimated'', ''pending'', ''in_progress'', ''succeeded'', ''retrying'',
        ''failed_final'', ''blocked_by_budget''],
      sm_terminal = [''succeeded'', ''failed_final'', ''blocked_by_budget''],
      sm_transitions =
        [tr ''estimated'' ''pending'' Automatic (Some ''Cost check passed (spec 25)''),
         tr ''pending'' ''in_progress'' Automatic (Some ''Dequeued for execution''),
         tr ''pending'' ''blocked_by_budget'' Automatic (Some ''Hard spending limit would be exceeded''),
         tr ''in_progress'' ''succeeded'' Automatic (Some ''Renewal completed''),
         tr ''in_progress'' ''retrying'' Automatic (Some ''Transient failure, retry budget remaining''),
         tr ''in_progress'' ''failed_final'' Automatic (Some ''Retries exhausted''),
         tr ''retrying'' ''in_progress'' Automatic (Some ''Next attempt'')]\<rparr>"

definition policy_machine :: machine_def where
  "policy_machine =
     \<lparr>sm_name = SM_policy, sm_initial = ''draft'',
      sm_states = [''draft'', ''active'', ''paused'', ''archived''],
      sm_terminal = [''archived''],
      sm_transitions =
        [tr ''draft'' ''active'' Manual (Some ''Published''),
         tr ''active'' ''paused'' Manual None,
         tr ''paused'' ''active'' Manual None,
         tr ''active'' ''archived'' Manual None,
         tr ''paused'' ''archived'' Manual None]\<rparr>"

definition alert_rule_machine :: machine_def where
  "alert_rule_machine =
     \<lparr>sm_name = SM_alert_rule, sm_initial = ''active'',
      sm_states = [''active'', ''paused'', ''deleted''],
      sm_terminal = [''deleted''],
      sm_transitions =
        [tr ''active'' ''paused'' Manual None,
         tr ''paused'' ''active'' Manual None,
         tr ''active'' ''deleted'' Manual None,
         tr ''paused'' ''deleted'' Manual None]\<rparr>"

definition alert_event_machine :: machine_def where
  "alert_event_machine =
     \<lparr>sm_name = SM_alert_event, sm_initial = ''fired'',
      sm_states = [''fired'', ''delivered'', ''acknowledged'', ''delivery_failed'',
        ''delivery_failed_final'', ''escalated''],
      sm_terminal = [''acknowledged'', ''escalated''],
      sm_transitions =
        [tr ''fired'' ''delivered'' Automatic (Some ''All channels delivered''),
         tr ''fired'' ''delivery_failed'' Automatic (Some ''All channels failed''),
         tr ''delivery_failed'' ''delivered'' Automatic (Some ''Retry succeeded''),
         tr ''delivery_failed'' ''delivery_failed_final'' Automatic (Some ''Retries exhausted''),
         tr ''delivery_failed_final'' ''escalated'' Automatic (Some ''Escalated for human intervention''),
         tr ''delivered'' ''acknowledged'' Manual (Some ''User acknowledged'')]\<rparr>"

definition webhook_machine :: machine_def where
  "webhook_machine =
     \<lparr>sm_name = SM_webhook, sm_initial = ''created'',
      sm_states = [''created'', ''active'', ''failing'', ''disabled'', ''deleted''],
      sm_terminal = [''deleted''],
      sm_transitions =
        [tr ''created'' ''active'' Manual None,
         tr ''created'' ''deleted'' Manual (Some ''Delete before activation''),
         tr ''active'' ''failing'' Automatic (Some ''Delivery failures cross threshold''),
         tr ''failing'' ''active'' Automatic (Some ''Subsequent delivery succeeds''),
         tr ''failing'' ''disabled'' Automatic (Some ''Threshold exhausted''),
         tr ''disabled'' ''active'' Manual (Some ''Re-enabled after fix''),
         tr ''active'' ''deleted'' Manual None,
         tr ''disabled'' ''deleted'' Manual None]\<rparr>"

definition api_key_machine :: machine_def where
  "api_key_machine =
     \<lparr>sm_name = SM_api_key, sm_initial = ''created'',
      sm_states = [''created'', ''active'', ''rotated'', ''revoked''],
      sm_terminal = [''revoked''],
      sm_transitions =
        [tr ''created'' ''active'' Manual (Some ''Activated for use''),
         tr ''active'' ''rotated'' Manual (Some ''New key issued, old key in overlap window''),
         tr ''active'' ''revoked'' Manual (Some ''Immediate revocation''),
         tr ''rotated'' ''revoked'' Automatic (Some ''Overlap window expired'')]\<rparr>"

definition budget_machine :: machine_def where
  "budget_machine =
     \<lparr>sm_name = SM_budget, sm_initial = ''defined'',
      sm_states = [''defined'', ''active'', ''window_closed'', ''archived''],
      sm_terminal = [''archived''],
      sm_transitions =
        [tr ''defined'' ''active'' Manual (Some ''Published''),
         tr ''active'' ''window_closed'' Automatic (Some ''Period end''),
         tr ''window_closed'' ''active'' Automatic (Some ''Next window rollover''),
         tr ''active'' ''archived'' Manual None,
         tr ''window_closed'' ''archived'' Manual None,
         tr ''defined'' ''archived'' Manual None]\<rparr>"

definition spending_limit_machine :: machine_def where
  "spending_limit_machine =
     \<lparr>sm_name = SM_spending_limit, sm_initial = ''defined'',
      sm_states = [''defined'', ''active'', ''paused'', ''archived''],
      sm_terminal = [''archived''],
      sm_transitions =
        [tr ''defined'' ''active'' Manual (Some ''Published''),
         tr ''active'' ''paused'' Manual None,
         tr ''paused'' ''active'' Manual None,
         tr ''active'' ''archived'' Manual None,
         tr ''paused'' ''archived'' Manual None,
         tr ''defined'' ''archived'' Manual None]\<rparr>"

definition organization_machine :: machine_def where
  "organization_machine =
     \<lparr>sm_name = SM_organization, sm_initial = ''active'',
      sm_states = [''active'', ''suspended'', ''deleted''],
      sm_terminal = [''deleted''],
      sm_transitions =
        [tr ''active'' ''suspended'' Manual (Some ''Suspend organization''),
         tr ''suspended'' ''active'' Manual (Some ''Unsuspend organization''),
         tr ''active'' ''deleted'' Manual (Some ''Delete organization''),
         tr ''suspended'' ''deleted'' Manual (Some ''Delete suspended organization'')]\<rparr>"

definition project_machine :: machine_def where
  "project_machine =
     \<lparr>sm_name = SM_project, sm_initial = ''active'',
      sm_states = [''active'', ''archived'', ''deleted''],
      sm_terminal = [''deleted''],
      sm_transitions =
        [tr ''active'' ''archived'' Manual (Some ''Archive project''),
         tr ''archived'' ''active'' Manual (Some ''Unarchive project''),
         tr ''active'' ''deleted'' Manual (Some ''Delete project''),
         tr ''archived'' ''deleted'' Manual (Some ''Delete archived project'')]\<rparr>"

definition wallet_machine :: machine_def where
  "wallet_machine =
     \<lparr>sm_name = SM_wallet, sm_initial = ''active'',
      sm_states = [''active'', ''delegation_revoked'', ''deleted''],
      sm_terminal = [''deleted''],
      sm_transitions =
        [tr ''active'' ''delegation_revoked'' Manual (Some ''Revoke delegation''),
         tr ''delegation_revoked'' ''active'' Manual (Some ''Reconnect delegation''),
         tr ''active'' ''deleted'' Manual (Some ''Delete wallet'')]\<rparr>"

definition notification_machine :: machine_def where
  "notification_machine =
     \<lparr>sm_name = SM_notification, sm_initial = ''queued'',
      sm_states = [''queued'', ''sent'', ''delivered'', ''failed''],
      sm_terminal = [''delivered'', ''failed''],
      sm_transitions =
        [tr ''queued'' ''sent'' Automatic (Some ''Delivery attempt started''),
         tr ''sent'' ''delivered'' Automatic (Some ''Delivery confirmed''),
         tr ''sent'' ''failed'' Automatic (Some ''Permanent delivery failure'')]\<rparr>"

definition schedule_machine :: machine_def where
  "schedule_machine =
     \<lparr>sm_name = SM_schedule, sm_initial = ''active'',
      sm_states = [''active'', ''paused'', ''deleted''],
      sm_terminal = [''deleted''],
      sm_transitions =
        [tr ''active'' ''paused'' Manual None,
         tr ''paused'' ''active'' Manual None,
         tr ''active'' ''deleted'' Manual None,
         tr ''paused'' ''deleted'' Manual None]\<rparr>"

definition subscription_machine :: machine_def where
  "subscription_machine =
     \<lparr>sm_name = SM_subscription, sm_initial = ''free'',
      sm_states = [''free'', ''pro'', ''team'', ''enterprise''],
      sm_terminal = [],
      sm_transitions =
        [tr ''free'' ''pro'' Manual (Some ''Upgrade''),
         tr ''pro'' ''team'' Manual (Some ''Upgrade''),
         tr ''team'' ''enterprise'' Manual (Some ''Upgrade''),
         tr ''enterprise'' ''team'' Manual (Some ''Downgrade''),
         tr ''team'' ''pro'' Manual (Some ''Downgrade''),
         tr ''pro'' ''free'' Manual (Some ''Downgrade / cancel''),
         tr ''enterprise'' ''free'' Manual (Some ''Cancel''),
         tr ''team'' ''free'' Manual (Some ''Cancel'')]\<rparr>"

text \<open>The registrations in the order of the module.\<close>

definition machine_defs :: "machine_def list" where
  "machine_defs =
     [blob_machine, renewal_machine, policy_machine, alert_rule_machine, alert_event_machine,
      webhook_machine, api_key_machine, budget_machine, spending_limit_machine,
      organization_machine, project_machine, wallet_machine, notification_machine,
      schedule_machine, subscription_machine]"

fun register_all :: "machine_def list \<Rightarrow> registry \<Rightarrow> thrown + registry" where
  "register_all [] ms = Inr ms"
| "register_all (d # ds) ms = bindE (registerMachine d ms) (register_all ds)"

definition loaded_machines :: registry where
  "loaded_machines = (case register_all machine_defs (\<lambda>_. None) of Inr ms \<Rightarrow> ms | Inl _ \<Rightarrow> \<lambda>_. None)"

lemmas machine_table_defs = blob_machine_def renewal_machine_def policy_machine_def
  alert_rule_machine_def alert_event_machine_def webhook_machine_def api_key_machine_def
  budget_machine_def spending_limit_machine_def organization_machine_def project_machine_def
  wallet_machine_def notification_machine_def schedule_machine_def subscription_machine_def

section \<open>Facts about the loaded registry\<close>

fun machine_of :: "machine_name \<Rightarrow> machine_def" where
  "machine_of SM_blob = blob_machine"
| "machine_of SM_renewal = renewal_machine"
| "machine_of SM_policy = policy_machine"
| "machine_of SM_alert_rule = alert_rule_machine"
| "machine_of SM_alert_event = alert_event_machine"
| "machine_of SM_webhook = webhook_machine"
| "machine_of SM_notification = notification_machine"
| "machine_of SM_wallet = wallet_machine"
| "machine_of SM_project = project_machine"
| "machine_of SM_organization = organization_machine"
| "machine_of SM_api_key = api_key_machine"
| "machine_of SM_budget = budget_machine"
| "machine_of SM_spending_limit = spending_limit_machine"
| "machine_of SM_schedule = schedule_machine"
| "machine_of SM_subscription = subscription_machine"

lemma sm_name_machine_of: "sm_name (machine_of n) = n"
  by (cases n) (simp_all add: machine_table_defs)

lemma register_all_ok:
  "distinct (map sm_name ds) \<Longrightarrow> \<forall>d \<in> set ds. ms (sm_name d) = None
   \<Longrightarrow> register_all ds ms = Inr (ms ++ map_of (rev (map (\<lambda>d. (sm_name d, d)) ds)))"
proof (induction ds arbitrary: ms)
  case Nil
  then show ?case by simp
next
  case (Cons d ds)
  have "registerMachine d ms = Inr (ms(sm_name d \<mapsto> d))"
    using Cons.prems by (simp add: registerMachine_def)
  moreover have "register_all ds (ms(sm_name d \<mapsto> d))
      = Inr (ms(sm_name d \<mapsto> d) ++ map_of (rev (map (\<lambda>d. (sm_name d, d)) ds)))"
    using Cons.prems by (intro Cons.IH) (auto simp: image_iff)
  ultimately show ?case by simp
qed

lemma machine_defs_names:
  "map sm_name machine_defs =
     [SM_blob, SM_renewal, SM_policy, SM_alert_rule, SM_alert_event, SM_webhook, SM_api_key,
      SM_budget, SM_spending_limit, SM_organization, SM_project, SM_wallet, SM_notification,
      SM_schedule, SM_subscription]"
  by (simp add: machine_defs_def machine_table_defs)

lemma machine_defs_mem: "machine_of n \<in> set machine_defs"
  by (cases n) (simp_all add: machine_defs_def)

lemma register_all_machine_defs:
  "register_all machine_defs (\<lambda>_. None) =
     Inr (map_of (rev (map (\<lambda>d. (sm_name d, d)) machine_defs)))"
  by (subst register_all_ok) (simp_all add: machine_defs_names)

lemma loaded_machines_eq: "loaded_machines n = Some (machine_of n)"
proof -
  have "distinct (rev (map sm_name machine_defs))"
    by (simp add: machine_defs_names)
  then have "distinct (map fst (rev (map (\<lambda>d. (sm_name d, d)) machine_defs)))"
    by (simp add: rev_map o_def)
  moreover have "(n, machine_of n) \<in> set (rev (map (\<lambda>d. (sm_name d, d)) machine_defs))"
    using machine_defs_mem [of n] sm_name_machine_of [of n] by force
  ultimately show ?thesis
    by (simp add: loaded_machines_def register_all_machine_defs)
qed

lemma getMachine_loaded [simp]: "getMachine loaded_machines n = Inr (machine_of n)"
  by (simp add: getMachine_def loaded_machines_eq)

text \<open>The steps the validation admits.\<close>

definition step_ok :: "machine_name \<Rightarrow> string \<Rightarrow> string \<Rightarrow> bool" where
  "step_ok n a b = is_ok (validateTransition loaded_machines n a b False)"

definition edges :: "machine_name \<Rightarrow> (string \<times> string) list" where
  "edges n = map (\<lambda>t. (tr_from t, tr_to t)) (sm_transitions (machine_of n))"

text \<open>Each table is closed: it joins declared states, and nothing leaves a terminal state.\<close>

definition machine_wf :: "machine_def \<Rightarrow> bool" where
  "machine_wf m =
     (distinct (sm_states m) \<and> sm_initial m \<in> set (sm_states m)
      \<and> list_all (\<lambda>s. s \<in> set (sm_states m)) (sm_terminal m)
      \<and> list_all (\<lambda>t. tr_from t \<in> set (sm_states m) \<and> tr_to t \<in> set (sm_states m)
                   \<and> tr_from t \<notin> set (sm_terminal m)) (sm_transitions m))"

lemma machine_of_wf: "machine_wf (machine_of n)"
  by (cases n) (simp_all add: machine_table_defs machine_wf_def)

lemma edge_states:
  assumes "(a, b) \<in> set (edges n)"
  shows "a \<in> set (sm_states (machine_of n))" "b \<in> set (sm_states (machine_of n))"
    "a \<notin> set (sm_terminal (machine_of n))"
  using assms machine_of_wf [of n] by (auto simp: edges_def machine_wf_def list_all_iff)

lemma find_edge:
  "(find (\<lambda>t. tr_from t = a \<and> tr_to t = b) ts = None)
     \<longleftrightarrow> (a, b) \<notin> set (map (\<lambda>t. (tr_from t, tr_to t)) ts)"
  by (induction ts) auto

text \<open>On the loaded registry the validation succeeds exactly on the edges of the table.\<close>

lemma validate_ok_iff:
  "is_ok (validateTransition loaded_machines n a b ov) \<longleftrightarrow> (a, b) \<in> set (edges n)"
proof (cases "(a, b) \<in> set (edges n)")
  case True
  then have "find (\<lambda>t. tr_from t = a \<and> tr_to t = b) (sm_transitions (machine_of n)) \<noteq> None"
    by (subst find_edge) (simp add: edges_def)
  with True edge_states [OF True] show ?thesis
    by (auto simp: validateTransition_def Let_def split: option.splits)
next
  case False
  then have "find (\<lambda>t. tr_from t = a \<and> tr_to t = b) (sm_transitions (machine_of n)) = None"
    by (subst find_edge) (simp add: edges_def)
  with False show ?thesis
    by (auto simp: validateTransition_def Let_def)
qed

lemma step_ok_iff: "step_ok n a b \<longleftrightarrow> (a, b) \<in> set (edges n)"
  by (simp add: step_ok_def validate_ok_iff)

lemma validate_error:
  assumes "validateTransition loaded_machines n a b ov = Inl e"
  shows "\<exists>r. e = ErrObj (StateTransitionError (name_str n) a b (Some r)) None"
  using assms by (auto simp: validateTransition_def Let_def split: if_splits option.splits)

lemma validate_ok_transition:
  assumes "validateTransition loaded_machines n a b ov = Inr t"
  shows "tr_from t = a \<and> tr_to t = b \<and> t \<in> set (sm_transitions (machine_of n))"
  using assms
  by (auto simp: validateTransition_def Let_def find_Some_iff split: if_splits option.splits)

section \<open>Reachability\<close>

text \<open>What the callers of a lifecycle rely on, for any validated step relation.\<close>

locale lifecycle =
  fixes step :: "'s \<Rightarrow> 's \<Rightarrow> bool" and init :: 's and states :: "'s set" and terminal :: "'s set"
  assumes init_declared: "init \<in> states"
    and closed: "step a b \<Longrightarrow> b \<in> states"
    and stuck: "a \<in> terminal \<Longrightarrow> \<not> step a b"
begin

lemma reach_declared: "step\<^sup>*\<^sup>* init s \<Longrightarrow> s \<in> states"
  by (induction rule: rtranclp_induct) (auto intro: init_declared closed)

lemma terminal_absorbing: "step\<^sup>*\<^sup>* a b \<Longrightarrow> a \<in> terminal \<Longrightarrow> b = a"
  by (induction rule: rtranclp_induct) (auto dest: stuck)

lemma terminal_last:
  assumes "step\<^sup>*\<^sup>* init a" "step\<^sup>*\<^sup>* a b" "a \<in> terminal"
  shows "b \<in> terminal"
  using assms terminal_absorbing by blast

end

interpretation lc: lifecycle "step_ok n" "sm_initial (machine_of n)"
    "set (sm_states (machine_of n))" "set (sm_terminal (machine_of n))" for n
proof
  show "sm_initial (machine_of n) \<in> set (sm_states (machine_of n))"
    using machine_of_wf [of n] by (simp add: machine_wf_def)
next
  fix a b
  assume "step_ok n a b"
  then show "b \<in> set (sm_states (machine_of n))" by (auto simp: step_ok_iff dest: edge_states)
next
  fix a b
  assume "a \<in> set (sm_terminal (machine_of n))"
  then show "\<not> step_ok n a b" by (auto simp: step_ok_iff dest: edge_states)
qed

text \<open>
  A certificate of reachability: in the list, each state is entered by an edge from a state that
  was listed before it.
\<close>

fun chained :: "('a \<times> 'a) list \<Rightarrow> 'a list \<Rightarrow> 'a list \<Rightarrow> bool" where
  "chained es seen [] = True"
| "chained es seen (s # ss) =
     (list_ex (\<lambda>e. snd e = s \<and> fst e \<in> set seen) es \<and> chained es (s # seen) ss)"

lemma chained_reach:
  assumes "chained es seen ss" and "\<forall>x \<in> set seen. \<exists>a \<in> A. (\<lambda>x y. (x, y) \<in> set es)\<^sup>*\<^sup>* a x"
    and "s \<in> set seen \<union> set ss"
  shows "\<exists>a \<in> A. (\<lambda>x y. (x, y) \<in> set es)\<^sup>*\<^sup>* a s"
  using assms
proof (induction es seen ss rule: chained.induct)
  case (1 es seen)
  then show ?case by simp
next
  case (2 es seen s ss)
  then obtain x where "(x, s) \<in> set es" "x \<in> set seen" by (auto simp: list_ex_iff)
  with 2 have "\<exists>a \<in> A. (\<lambda>x y. (x, y) \<in> set es)\<^sup>*\<^sup>* a s"
    by (meson rtranclp.rtrancl_into_rtrancl)
  with 2 show ?case by auto
qed

lemma step_ok_edges: "step_ok n = (\<lambda>a b. (a, b) \<in> set (edges n))"
  by (intro ext) (simp add: step_ok_iff)

lemma machine_chained:
  "chained (edges n) [sm_initial (machine_of n)] (tl (sm_states (machine_of n)))
   \<and> hd (sm_states (machine_of n)) = sm_initial (machine_of n)"
  by (cases n) (simp_all add: edges_def machine_table_defs)

text \<open>An order in which the states of each machine drain into its terminal states.\<close>

fun drain_order :: "machine_name \<Rightarrow> string list" where
  "drain_order SM_blob =
     [''archived'', ''expired'', ''protected'', ''tracked'', ''verified'', ''discovered'',
      ''renewed'', ''renewing'', ''expiring'']"
| "drain_order SM_renewal = [''in_progress'', ''retrying'', ''pending'', ''estimated'']"
| "drain_order SM_policy = [''active'', ''paused'', ''draft'']"
| "drain_order SM_alert_rule = [''active'', ''paused'']"
| "drain_order SM_alert_event =
     [''delivered'', ''delivery_failed_final'', ''delivery_failed'', ''fired'']"
| "drain_order SM_webhook = [''created'', ''active'', ''disabled'', ''failing'']"
| "drain_order SM_notification = [''sent'', ''queued'']"
| "drain_order SM_wallet = [''active'', ''delegation_revoked'']"
| "drain_order SM_project = [''active'', ''archived'']"
| "drain_order SM_organization = [''active'', ''suspended'']"
| "drain_order SM_api_key = [''active'', ''rotated'', ''created'']"
| "drain_order SM_budget = [''active'', ''window_closed'', ''defined'']"
| "drain_order SM_spending_limit = [''active'', ''paused'', ''defined'']"
| "drain_order SM_schedule = [''active'', ''paused'']"
| "drain_order SM_subscription = []"

lemma machine_drains:
  "chained (map prod.swap (edges n)) (sm_terminal (machine_of n)) (drain_order n)"
  by (cases n) (simp_all add: edges_def machine_table_defs)

lemma drain_order_covers:
  "sm_terminal (machine_of n) = [] \<or>
   list_all (\<lambda>s. s \<in> set (sm_terminal (machine_of n) @ drain_order n)) (sm_states (machine_of n))"
  by (cases n) (simp_all add: machine_table_defs)

lemma swap_reach:
  "(\<lambda>x y. (x, y) \<in> set (map prod.swap es))\<^sup>*\<^sup>* a b \<Longrightarrow> (\<lambda>x y. (x, y) \<in> set es)\<^sup>*\<^sup>* b a"
proof (induction rule: rtranclp_induct)
  case base
  then show ?case by simp
next
  case (step y z)
  then have "(z, y) \<in> set es" by auto
  with step.IH show ?case by (meson converse_rtranclp_into_rtranclp)
qed

section \<open>Properties\<close>

text \<open>
  On the registry the module loads, a transition validates exactly when the table of its
  machine lists it; the transition returned goes from and to the requested states, and every
  rejection is a StateTransitionError with status 400 that names the two states.
\<close>

theorem validate_transition_spec:
  "case validateTransition loaded_machines n a b ov of
     Inr t \<Rightarrow> tr_from t = a \<and> tr_to t = b \<and> t \<in> set (sm_transitions (machine_of n))
   | Inl e \<Rightarrow> (a, b) \<notin> set (edges n) \<and>
       (\<exists>r. e = ErrObj (StateTransitionError (name_str n) a b (Some r)) None)"
proof (cases "validateTransition loaded_machines n a b ov")
  case (Inl e)
  with validate_ok_iff [of n a b ov] validate_error [OF Inl] show ?thesis by auto
next
  case (Inr t)
  with validate_ok_transition [OF Inr] show ?thesis by auto
qed

text \<open>
  C4: a terminal state is final for every machine: no sequence of validated transitions leaves
  it, and the override option does not open one.
\<close>

theorem terminal_states_final:
  assumes "a \<in> set (sm_terminal (machine_of n))"
  shows "((step_ok n)\<^sup>*\<^sup>* a b \<longleftrightarrow> b = a)
    \<and> \<not> is_ok (validateTransition loaded_machines n a b True)"
proof
  show "(step_ok n)\<^sup>*\<^sup>* a b \<longleftrightarrow> b = a"
    using assms lc.terminal_absorbing [of n a b] by auto
  show "\<not> is_ok (validateTransition loaded_machines n a b True)"
    using assms by (auto simp: validate_ok_iff dest: edge_states)
qed

theorem terminal_states_final_witness:
  "\<not> is_ok (validateTransition loaded_machines SM_renewal ''blocked_by_budget'' ''pending'' True)"
  using terminal_states_final [of "''blocked_by_budget''" SM_renewal "''pending''"]
  by (simp add: renewal_machine_def)

lemma declared_reachable:
  assumes "s \<in> set (sm_states (machine_of n))"
  shows "(step_ok n)\<^sup>*\<^sup>* (sm_initial (machine_of n)) s"
proof -
  have "s \<in> set [sm_initial (machine_of n)] \<union> set (tl (sm_states (machine_of n)))"
    using assms machine_chained [of n] by (cases "sm_states (machine_of n)") auto
  then show ?thesis
    using chained_reach [of "edges n" "[sm_initial (machine_of n)]"
        "tl (sm_states (machine_of n))" "{sm_initial (machine_of n)}"] machine_chained [of n]
    by (auto simp: step_ok_edges)
qed

lemma declared_drains:
  assumes s: "s \<in> set (sm_states (machine_of n))" and t: "sm_terminal (machine_of n) \<noteq> []"
  shows "\<exists>b \<in> set (sm_terminal (machine_of n)). (step_ok n)\<^sup>*\<^sup>* s b"
proof -
  from assms drain_order_covers [of n]
  have "s \<in> set (sm_terminal (machine_of n)) \<union> set (drain_order n)" by (auto simp: list_all_iff)
  then have "\<exists>b \<in> set (sm_terminal (machine_of n)).
      (\<lambda>x y. (x, y) \<in> set (map prod.swap (edges n)))\<^sup>*\<^sup>* b s"
    by (intro chained_reach [OF machine_drains]) auto
  then obtain b where b: "b \<in> set (sm_terminal (machine_of n))"
    and r: "(\<lambda>x y. (x, y) \<in> set (map prod.swap (edges n)))\<^sup>*\<^sup>* b s" by blast
  have "(step_ok n)\<^sup>*\<^sup>* s b"
    unfolding step_ok_edges by (rule swap_reach [OF r])
  with b show ?thesis by blast
qed

text \<open>
  The states reachable from the initial state of a machine are exactly the declared ones,
  and from every reachable state of a machine that has terminal states one of them can still be
  reached.
\<close>

theorem machine_states_live:
  "((step_ok n)\<^sup>*\<^sup>* (sm_initial (machine_of n)) s \<longleftrightarrow> s \<in> set (sm_states (machine_of n)))
   \<and> (s \<notin> set (sm_states (machine_of n)) \<or> sm_terminal (machine_of n) = [] \<or>
      (\<exists>b \<in> set (sm_terminal (machine_of n)). (step_ok n)\<^sup>*\<^sup>* s b))"
  using declared_reachable lc.reach_declared declared_drains by blast

theorem machine_states_live_witness:
  "\<exists>b \<in> set (sm_terminal (machine_of SM_renewal)). (step_ok SM_renewal)\<^sup>*\<^sup>* ''retrying'' b"
  using machine_states_live [of SM_renewal "''retrying''"] by (simp add: renewal_machine_def)

end
