(* ===== verification/Renewal_Queue.thy ===== *)
theory Renewal_Queue
  imports Executor Job_Writer Cost_Engine Lifecycle
begin

text \<open>
  The queue-driven part of the keeper, \<open>keeper/src/index.ts\<close>: the events of jobs and blobs, the
  recovery of stale jobs, and the processing of one job and of the whole queue. An exception is a
  value of the outcome, which carries the database as it was left. Direct SQL and the event bus
  write to the same tables; the keeper's process has no bus subscribers, so emitting only writes
  the log. Identifiers come from the supply \<open>qe_id\<close>, by table and row number. Log lines and
  metrics are left out.
\<close>

section \<open>Environment\<close>

record queue_env =
  qe_now :: int
  qe_id :: "string \<Rightarrow> nat \<Rightarrow> string"
  qe_trace :: "string \<Rightarrow> string"
  qe_staleness :: "string option"
  qe_heartbeat :: "int option"
  qe_chain :: chain
  qe_exec :: "string \<Rightarrow> exec_env"
  qe_fee :: "string \<Rightarrow> thrown + string"
  qe_executor :: executor
  qe_random :: "string \<Rightarrow> rat"

section \<open>Events\<close>

type_synonym details = "(string \<times> json) list option"

definition with_trace :: "details \<Rightarrow> string option \<Rightarrow> json" where
  "with_trace details trace =
     (case truthy trace of
        Some t \<Rightarrow> json_spread (map_option JObj details) [(''traceId'', JStr t)]
      | None \<Rightarrow> JObj (or_default details []))"

text \<open>The three inserts: alert, audit entry and feed entry.\<close>

definition record_event ::
    "queue_env \<Rightarrow> string \<Rightarrow> string \<Rightarrow> string \<Rightarrow> string \<Rightarrow> string \<Rightarrow> string \<Rightarrow> string \<Rightarrow> details
     \<Rightarrow> json \<Rightarrow> string option \<Rightarrow> db \<Rightarrow> db" where
  "record_event env org name severity link rty rid summary details attributed trace d =
     d\<lparr>db_events := db_events d @
          [(new_event (qe_id env ''alert_events'' (length (db_events d))) (qe_now env) org name
              (rty @ ''.'' @ rid @ '': '' @ name))
             \<lparr>ev_severity := severity, ev_details := Some (with_trace details trace),
              ev_status := ''fired'', ev_linkToEntity := Some link\<rparr>],
       db_audits := db_audits d @
          [(new_audit (qe_id env ''audit_logs'' (length (db_audits d))) (qe_now env) org name rty)
             \<lparr>au_resourceId := Some rid, au_details := Some attributed, au_traceId := trace\<rparr>],
       db_feed := db_feed d @
          [(new_feed (qe_id env ''activity_feed'' (length (db_feed d))) (qe_now env) org ''system''
              name rty summary)
             \<lparr>fd_resourceId := Some rid, fd_details := Some attributed, fd_traceId := trace\<rparr>]\<rparr>"

definition emitRenewalEvent ::
    "queue_env \<Rightarrow> string \<Rightarrow> string \<Rightarrow> string \<Rightarrow> details \<Rightarrow> string option \<Rightarrow> db \<Rightarrow> db" where
  "emitRenewalEvent env subState org jobId details trace d =
     (let severity = (if subState = ''failed_final'' \<or> subState = ''blocked_by_budget''
                      then ''error'' else ''info'');
          blob = (case details of Some fs \<Rightarrow> jget (JObj fs) ''blobRegistrationId'' | None \<Rightarrow> None);
          link = (if json_truthy blob
                  then ''https://walwatch.app/dashboard/blobs/'' @ js_String (the blob)
                  else ''https://walwatch.app/dashboard/renewals/'' @ jobId);
          attributed = json_spread (map_option JObj details)
            [(''triggeredBy'', JObj [(''cause'', JStr ''system:renewal_engine''),
               (''renewalJobId'', JStr jobId), (''state'', JStr subState)])]
      in record_event env org (''renewal.'' @ subState) severity link ''renewal_job'' jobId
           (''Renewal '' @ subState @ '' for job '' @ jobId) details attributed trace d)"

definition emitBlobEvent ::
    "queue_env \<Rightarrow> string \<Rightarrow> string \<Rightarrow> string \<Rightarrow> details \<Rightarrow> string option \<Rightarrow> db \<Rightarrow> db" where
  "emitBlobEvent env state org blobId details trace d =
     (let attributed = json_spread (map_option JObj details)
            [(''triggeredBy'', JObj [(''cause'', JStr ''system:blob_lifecycle''),
               (''blobRegistrationId'', JStr blobId), (''state'', JStr state)])]
      in record_event env org (''blob.'' @ state) ''info''
           (''https://walwatch.app/dashboard/blobs/'' @ blobId) ''blob_registration'' blobId
           (''Blob '' @ state @ '': '' @ blobId) details attributed trace d)"

text \<open>\<open>emit(createEvent(name, org, entity, id, system, details, trace))\<close> without subscribers.\<close>

definition keeper_bus :: event_bus where
  "keeper_bus = \<lparr>bus_counter = 0, bus_subs = [], bus_initialized = False\<rparr>"

definition bus_emit ::
    "queue_env \<Rightarrow> string \<Rightarrow> string \<Rightarrow> string \<Rightarrow> string \<Rightarrow> (string \<times> json) list \<Rightarrow> string \<Rightarrow> db \<Rightarrow> db" where
  "bus_emit env name org ety eid details trace d =
     fst (emit True (qe_id env ''event_log'' (length (db_log d))) keeper_bus
       (createEvent (qe_now env) name org ety eid ActSystem (Some (JObj details)) (Some trace)) d)"

section \<open>Recovery of stale jobs\<close>

definition STALE_JOB_THRESHOLD_MS :: "string option \<Rightarrow> int option" where
  "STALE_JOB_THRESHOLD_MS env = parse_int (or_default (truthy env) ''600000'')"

definition is_stale :: "int \<Rightarrow> job_row \<Rightarrow> bool" where
  "is_stale threshold j \<longleftrightarrow>
     rj_status j = ''in_progress'' \<and>
     (case rj_heartbeatAt j of
        Some h \<Rightarrow> h < threshold
      | None \<Rightarrow> (case rj_startedAt j of Some s \<Rightarrow> s < threshold | None \<Rightarrow> False))"

definition recover_job :: "int \<Rightarrow> job_row \<Rightarrow> job_row" where
  "recover_job now j =
     j\<lparr>rj_status := ''pending'',
       rj_lastError := Some ''Job recovered from stale in_progress status (worker may have crashed)'',
       rj_attempt := rj_attempt j + 1, rj_updatedAt := now\<rparr>"

definition expire_renewing :: "int \<Rightarrow> string \<Rightarrow> db \<Rightarrow> db" where
  "expire_renewing now blob d =
     upd_blobs (\<lambda>b. bl_id b = blob \<and> bl_status b = ''renewing'')
       (\<lambda>b. b\<lparr>bl_status := ''expiring'', bl_expiringAt := Some now, bl_updatedAt := now\<rparr>) d"

text \<open>A threshold that is not a number makes the date invalid: the statement fails, nothing changes.\<close>

definition recoverStaleInProgressJobs :: "int option \<Rightarrow> int \<Rightarrow> db \<Rightarrow> db" where
  "recoverStaleInProgressJobs ms now d =
     (case ms of
        None \<Rightarrow> d
      | Some t \<Rightarrow>
          (let p = is_stale (now - t);
               recovered = res_rows (update_returning p (recover_job now) (db_jobs d));
               d1 = upd_jobs p (recover_job now) d
           in fold (\<lambda>r. expire_renewing now (rj_blobRegistrationId r)) recovered d1))"

section \<open>Processing one job\<close>

record outcome =
  oc_error :: "thrown option"
  oc_db :: db
  oc_runs :: "(string \<times> nat list) list"

definition stopped :: "db \<Rightarrow> outcome" where
  "stopped d = \<lparr>oc_error = None, oc_db = d, oc_runs = []\<rparr>"

definition aborted :: "thrown \<Rightarrow> db \<Rightarrow> outcome" where
  "aborted e d = \<lparr>oc_error = Some e, oc_db = d, oc_runs = []\<rparr>"

definition add_runs :: "(string \<times> nat list) list \<Rightarrow> outcome \<Rightarrow> outcome" where
  "add_runs rs oc = oc\<lparr>oc_runs := rs @ oc_runs oc\<rparr>"

definition set_job :: "string \<Rightarrow> (job_row \<Rightarrow> job_row) \<Rightarrow> db \<Rightarrow> db" where
  "set_job i f d = upd_jobs (\<lambda>j. rj_id j = i) f d"

text \<open>\<open>validateTransition\<close> before a statement: a rejected transition throws.\<close>

definition checked :: "machine_name \<Rightarrow> string \<Rightarrow> string \<Rightarrow> db \<Rightarrow> (db \<Rightarrow> outcome) \<Rightarrow> outcome" where
  "checked m from to d k =
     (case validateTransition loaded_machines m from to False of
        Inl e \<Rightarrow> aborted e d
      | Inr _ \<Rightarrow> k d)"

definition job_trace :: "queue_env \<Rightarrow> job_row \<Rightarrow> string" where
  "job_trace env job =
     (case rj_metadata job of
        Some m \<Rightarrow> (case jget m ''traceId'' of
                     Some (JStr (c # cs)) \<Rightarrow> c # cs | _ \<Rightarrow> qe_trace env (rj_id job))
      | None \<Rightarrow> qe_trace env (rj_id job))"

definition find_blob :: "db \<Rightarrow> string \<Rightarrow> blob_row option" where
  "find_blob d i = first_row (filter (\<lambda>b. bl_id b = i) (db_blobs d))"

text \<open>A terminal failure: the row is closed, the event recorded and emitted.\<close>

definition fail_job ::
    "queue_env \<Rightarrow> job_row \<Rightarrow> string \<Rightarrow> string \<Rightarrow> (string \<times> json) list \<Rightarrow> (string \<times> json) list \<Rightarrow> db \<Rightarrow> db" where
  "fail_job env job status msg details bus_details d =
     (let trace = job_trace env job;
          d1 = set_job (rj_id job) (\<lambda>j. j\<lparr>rj_status := status, rj_lastError := Some msg,
                                          rj_completedAt := Some (qe_now env)\<rparr>) d;
          d2 = emitRenewalEvent env status (rj_orgId job) (rj_id job) (Some details) (Some trace) d1
      in bus_emit env (''renewal.'' @ status) (rj_orgId job) ''renewal_job'' (rj_id job) bus_details trace d2)"

subsection \<open>The budget phase\<close>

text \<open>The database after the phase and the job, with the new estimate if it was stale.\<close>

definition refresh_estimate :: "queue_env \<Rightarrow> job_row \<Rightarrow> db \<Rightarrow> thrown + job_row \<times> db" where
  "refresh_estimate env job d =
     (case rj_estimatedAt job of
        None \<Rightarrow> Inr (job, d)
      | Some estimated_at \<Rightarrow>
          if isEstimateFresh (qe_staleness env) (qe_now env) estimated_at then Inr (job, d)
          else bindE (estimateRenewalCost d (qe_staleness env) (qe_now env)
                        (rj_blobRegistrationId job) 1 None) (\<lambda>est.
                 Inr (job\<lparr>rj_estimatedCost := Some (ce_estimatedCost est)\<rparr>,
                   set_job (rj_id job) (\<lambda>j. j\<lparr>rj_estimatedCost := Some (ce_estimatedCost est),
                                              rj_estimatedAt := Some (qe_now env)\<rparr>) d)))"

definition block_job :: "queue_env \<Rightarrow> job_row \<Rightarrow> budget_check \<Rightarrow> db \<Rightarrow> outcome" where
  "block_job env job check d =
     checked SM_renewal (rj_status job) ''blocked_by_budget'' d (\<lambda>d.
       let msg = or_default (bc_message check) ''Budget check failed'';
           d1 = fail_job env job ''blocked_by_budget'' msg
                  [(''message'', JStr msg), (''trigger'', JStr ''keeper'')]
                  (case bc_message check of Some m \<Rightarrow> [(''message'', JStr m)] | None \<Rightarrow> []) d
       in stopped
            (case truthy (bc_blockingLimitId check) of
               Some l \<Rightarrow> bus_emit env ''spending_limit.blocked'' (rj_orgId job) ''spending_limit'' l
                 [(''renewalJobId'', JStr (rj_id job)), (''blobId'', JStr (rj_blobRegistrationId job))]
                 (job_trace env job) d1
             | None \<Rightarrow> d1))"

definition soft_event :: "queue_env \<Rightarrow> job_row \<Rightarrow> budget_check \<Rightarrow> db \<Rightarrow> db" where
  "soft_event env job check d =
     (if bc_softThresholdCrossed check
      then emitRenewalEvent env ''budget_soft_threshold_crossed'' (rj_orgId job) (rj_id job)
             (Some [(''trigger'', JStr ''keeper''),
                    (''estimatedCost'', case rj_estimatedCost job of Some c \<Rightarrow> JStr (show_int c) | None \<Rightarrow> JNull)])
             (Some (job_trace env job)) d
      else d)"

definition log_payloads :: "queue_env \<Rightarrow> event_payload list \<Rightarrow> db \<Rightarrow> db" where
  "log_payloads env evs d =
     fold (\<lambda>e d. fst (emit True (qe_id env ''event_log'' (length (db_log d))) keeper_bus e d)) evs d"

definition budget_phase ::
    "queue_env \<Rightarrow> job_row \<Rightarrow> db \<Rightarrow> (job_row \<Rightarrow> db \<Rightarrow> outcome) \<Rightarrow> outcome" where
  "budget_phase env job d k =
     (if \<not> (rj_status job = ''estimated'' \<or> rj_status job = ''pending'') then k job d
      else case find_blob d (rj_blobRegistrationId job) of
        None \<Rightarrow>
          stopped (fail_job env job ''failed_final'' ''Blob registration not found''
            [(''error'', JStr ''Blob registration not found'')]
            [(''error'', JStr ''Blob registration not found'')] d)
      | Some reg \<Rightarrow>
          (case refresh_estimate env job d of
             Inl e \<Rightarrow> aborted e d
           | Inr (job1, d1) \<Rightarrow>
               (case checkBudgetBeforeExecution d1 (qe_now env) (bl_orgId reg) (Some (bl_projectId reg))
                       (bl_walletId reg) None (or_default (rj_estimatedCost job1) 0)
                       (or_default (rj_spendingLimitOverridden job1) False) of
                  Inl e \<Rightarrow> aborted e d1
                | Inr (check, evs) \<Rightarrow>
                    (let d2 = log_payloads env evs d1 in
                     if \<not> bc_allowed check then block_job env job1 check d2
                     else
                       (let d3 = soft_event env job1 check d2 in
                        if rj_status job1 = ''estimated''
                        then checked SM_renewal ''estimated'' ''pending'' d3 (\<lambda>d3.
                          k job1 (emitRenewalEvent env ''estimated'' (rj_orgId job1) (rj_id job1)
                            (Some [(''trigger'', JStr ''keeper'')]) (Some (job_trace env job1))
                            (set_job (rj_id job1) (\<lambda>j. j\<lparr>rj_status := ''pending'',
                               rj_updatedAt := qe_now env\<rparr>) d3)))
                        else k job1 d3)))))"

subsection \<open>The guards before execution\<close>

definition sibling :: "db \<Rightarrow> job_row \<Rightarrow> string \<Rightarrow> job_row option" where
  "sibling d job status =
     first_row (filter (\<lambda>j. rj_blobRegistrationId j = rj_blobRegistrationId job \<and> rj_status j = status
                            \<and> rj_id j \<noteq> rj_id job) (db_jobs d))"

definition guard_phase ::
    "queue_env \<Rightarrow> job_row \<Rightarrow> db \<Rightarrow> (db \<Rightarrow> outcome) \<Rightarrow> outcome" where
  "guard_phase env job d k =
     (if sibling d job ''succeeded'' \<noteq> None
      then stopped (bus_emit env ''renewal.succeeded'' (rj_orgId job) ''renewal_job'' (rj_id job) []
             (job_trace env job)
             (set_job (rj_id job) (\<lambda>j. j\<lparr>rj_status := ''succeeded'',
                                         rj_completedAt := Some (qe_now env)\<rparr>) d))
      else if sibling d job ''in_progress'' \<noteq> None
      then stopped (set_job (rj_id job) (\<lambda>j. j\<lparr>rj_status := ''in_progress'',
                                               rj_startedAt := Some (qe_now env)\<rparr>) d)
      else checked SM_renewal ''pending'' ''in_progress'' d (\<lambda>d.
        let p = (\<lambda>j. rj_id j = rj_id job \<and> rj_status j = ''pending'');
            f = (\<lambda>j. j\<lparr>rj_status := ''in_progress'', rj_startedAt := Some (qe_now env)\<rparr>);
            res = update_returning p f (db_jobs d);
            d1 = upd_jobs p f d
        in if first_row (res_rows res) = None then stopped d1
           else
             (let d2 = emitRenewalEvent env ''started'' (rj_orgId job) (rj_id job)
                         (Some [(''trigger'', JStr ''keeper'')]) (Some (job_trace env job)) d1;
                  d3 = set_job (rj_id job) (\<lambda>j. j\<lparr>rj_heartbeatAt := Some (qe_now env)\<rparr>) d2
              in checked SM_blob ''expiring'' ''renewing'' d3 (\<lambda>d3.
                   k (emitBlobEvent env ''renewing'' (rj_orgId job) (rj_blobRegistrationId job) None
                        (Some (job_trace env job))
                        (upd_blobs (\<lambda>b. bl_id b = rj_blobRegistrationId job \<and> bl_status b = ''expiring'')
                           (\<lambda>b. b\<lparr>bl_status := ''renewing'', bl_renewingAt := Some (qe_now env),
                                  bl_updatedAt := qe_now env\<rparr>) d3))))))"

subsection \<open>Execution\<close>

definition rollbackBlobToExpiring ::
    "queue_env \<Rightarrow> job_row \<Rightarrow> db \<Rightarrow> (db \<Rightarrow> outcome) \<Rightarrow> outcome" where
  "rollbackBlobToExpiring env job d k =
     checked SM_blob ''renewing'' ''expiring'' d (\<lambda>d.
       k (emitBlobEvent env ''expiring'' (rj_orgId job) (rj_blobRegistrationId job)
            (Some [(''reason'', JStr ''renewal_failed'')]) (Some (job_trace env job))
            (expire_renewing (qe_now env) (rj_blobRegistrationId job) d)))"

definition renewed_to ::
    "queue_env \<Rightarrow> job_row \<Rightarrow> string \<Rightarrow> (blob_row \<Rightarrow> blob_row) \<Rightarrow> details \<Rightarrow> db \<Rightarrow> outcome" where
  "renewed_to env job state stamp details d =
     checked SM_blob ''renewed'' state d (\<lambda>d.
       stopped (emitBlobEvent env state (rj_orgId job) (rj_blobRegistrationId job) details
         (Some (job_trace env job))
         (upd_blobs (\<lambda>b. bl_id b = rj_blobRegistrationId job \<and> bl_status b = ''renewed'')
            (\<lambda>b. (stamp b)\<lparr>bl_status := state, bl_updatedAt := qe_now env\<rparr>) d)))"

definition transitionRenewedBlob :: "queue_env \<Rightarrow> job_row \<Rightarrow> string \<Rightarrow> db \<Rightarrow> outcome" where
  "transitionRenewedBlob env job blobId d =
     (case resolvePolicyForBlob d blobId of
        Inl e \<Rightarrow> aborted e d
      | Inr policy \<Rightarrow>
          (case (if rp_autoRenewalEnabled policy then truthy (rp_policyId policy) else None) of
             Some pid \<Rightarrow>
               renewed_to env job ''protected'' (\<lambda>b. b\<lparr>bl_protectedAt := Some (qe_now env)\<rparr>)
                 (Some [(''policyId'', JStr pid)]) d
           | None \<Rightarrow>
               renewed_to env job ''tracked'' (\<lambda>b. b\<lparr>bl_trackedAt := Some (qe_now env)\<rparr>) None d))"

definition succeed_job :: "queue_env \<Rightarrow> job_row \<Rightarrow> string \<Rightarrow> renewal_result \<Rightarrow> db \<Rightarrow> outcome" where
  "succeed_job env job blobId res d =
     (let now = qe_now env; trace = job_trace env job;
          d1 = set_job (rj_id job) (\<lambda>j. j\<lparr>rj_heartbeatAt := Some now\<rparr>) d
      in checked SM_renewal ''in_progress'' ''succeeded'' d1 (\<lambda>d1.
        let d2 = set_job (rj_id job) (\<lambda>j. j\<lparr>rj_status := ''succeeded'', rj_completedAt := Some now,
                                               rj_txDigest := Some (rr_digest res)\<rparr>) d1;
            d3 = emitRenewalEvent env ''succeeded'' (rj_orgId job) (rj_id job)
                   (Some [(''txDigest'', JStr (rr_digest res)), (''trigger'', JStr ''keeper'')])
                   (Some trace) d2;
            d4 = bus_emit env ''renewal.succeeded'' (rj_orgId job) ''renewal_job'' (rj_id job) [] trace d3
        in checked SM_blob ''renewing'' ''renewed'' d4 (\<lambda>d4.
             transitionRenewedBlob env job blobId
               (emitBlobEvent env ''renewed'' (rj_orgId job) (rj_blobRegistrationId job) None (Some trace)
                  (upd_blobs (\<lambda>b. bl_id b = rj_blobRegistrationId job \<and> bl_status b = ''renewing'')
                     (\<lambda>b. b\<lparr>bl_status := ''renewed'', bl_renewedAt := Some now, bl_updatedAt := now\<rparr>) d4)))))"

definition fail_after_rollback ::
    "queue_env \<Rightarrow> job_row \<Rightarrow> string \<Rightarrow> string \<Rightarrow> string \<Rightarrow> db \<Rightarrow> outcome" where
  "fail_after_rollback env job status msg bus_key d =
     rollbackBlobToExpiring env job d (\<lambda>d.
       stopped (fail_job env job status msg [(''error'', JStr msg)] [(bus_key, JStr msg)] d))"

text \<open>The body of \<open>try\<close>; its error is the exception the handler gets.\<close>

definition try_renewal :: "queue_env \<Rightarrow> job_row \<Rightarrow> db \<Rightarrow> outcome" where
  "try_renewal env job d =
     (case find_blob d (rj_blobRegistrationId job) of
        None \<Rightarrow>
          checked SM_renewal ''in_progress'' ''failed_final'' d
            (fail_after_rollback env job ''failed_final'' ''Blob registration not found'' ''error'')
      | Some reg \<Rightarrow>
          (case resolvePolicyForBlob d (bl_blobId reg) of
             Inl e \<Rightarrow> aborted e d
           | Inr policy \<Rightarrow>
               if \<not> rp_autoRenewalEnabled policy
               then fail_after_rollback env job ''blocked_by_budget''
                      ''Auto-renewal disabled by policy'' ''message'' d
               else
                 (case (case bl_suiVaultId reg of
                          Some v \<Rightarrow> findVaultByObjectId (qe_chain env) v | None \<Rightarrow> None) of
                    None \<Rightarrow>
                      checked SM_renewal ''in_progress'' ''failed_final'' d
                        (fail_after_rollback env job ''failed_final'' ''Vault not found on chain'' ''error'')
                  | Some vault \<Rightarrow>
                      (case resolvePublisherForRenewal (qe_heartbeat env) (qe_now env) d
                              (Some (bl_projectId reg)) (bl_orgId reg) None (qe_executor env) of
                         (False, _) \<Rightarrow>
                           fail_after_rollback env job ''failed_final'' ''No available publisher'' ''error'' d
                       | (True, ex) \<Rightarrow>
                           (case executeRenewal (qe_exec env (rj_id job)) (qe_fee env (rj_id job)) ex vault of
                              (Inl e, t) \<Rightarrow>
                                add_runs [(rj_id job, xt_submitted t)]
                                  (aborted e (log_payloads env (xt_events t) d))
                            | (Inr res, t) \<Rightarrow>
                                add_runs [(rj_id job, xt_submitted t)]
                                  (succeed_job env job (bl_blobId reg) res
                                     (log_payloads env (xt_events t) d)))))))"

subsection \<open>The handler\<close>

definition job_metadata :: "job_row \<Rightarrow> json option" where
  "job_metadata job =
     (case rj_metadata job of Some (JObj fs) \<Rightarrow> Some (JObj fs) | _ \<Rightarrow> None)"

text \<open>The metadata with one more entry in its history of attempts.\<close>

definition with_attempt :: "job_row \<Rightarrow> (string \<times> json) list \<Rightarrow> json" where
  "with_attempt job entry =
     json_spread (job_metadata job)
       [(''attempts'',
         JArr ((case (case job_metadata job of Some m \<Rightarrow> jget m ''attempts'' | None \<Rightarrow> None) of
                  Some (JArr as) \<Rightarrow> as | _ \<Rightarrow> [])
               @ [JObj entry]))]"

definition next_attempt :: "job_row \<Rightarrow> int" where
  "next_attempt job = rj_attempt job + 1"

definition max_attempts :: "job_row \<Rightarrow> int" where
  "max_attempts job = (if rj_maxAttempts job = 0 then 5 else rj_maxAttempts job)"

definition retry_backoff :: "queue_env \<Rightarrow> job_row \<Rightarrow> int" where
  "retry_backoff env job =
     jittered (min (5000 * 2 ^ nat (next_attempt job - 1)) 60000) (qe_random env (rj_id job))"

definition final_failure ::
    "queue_env \<Rightarrow> job_row \<Rightarrow> string \<Rightarrow> string \<Rightarrow> (string \<times> json) list \<Rightarrow> (string \<times> json) list \<Rightarrow> db \<Rightarrow> outcome" where
  "final_failure env job msg stored entry_extra details_extra d =
     checked SM_renewal ''in_progress'' ''failed_final'' d (\<lambda>d.
       rollbackBlobToExpiring env job d (\<lambda>d.
         let now = qe_now env; trace = job_trace env job; attempt = next_attempt job;
             d1 = set_job (rj_id job) (\<lambda>j. j\<lparr>rj_status := ''failed_final'', rj_attempt := attempt,
                    rj_lastError := Some stored, rj_completedAt := Some now,
                    rj_metadata := Some (with_attempt job
                      ([(''attempt'', JNum attempt), (''timestamp'', JNum now), (''error'', JStr msg),
                        (''final'', JBool True)] @ entry_extra))\<rparr>) d;
             d2 = emitRenewalEvent env ''failed_final'' (rj_orgId job) (rj_id job)
                    (Some ([(''attempt'', JNum attempt), (''error'', JStr msg), (''trigger'', JStr ''keeper'')]
                           @ details_extra)) (Some trace) d1
         in stopped (bus_emit env ''renewal.failed_final'' (rj_orgId job) ''renewal_job'' (rj_id job)
              [(''error'', JStr msg)] trace d2)))"

definition schedule_retry :: "queue_env \<Rightarrow> job_row \<Rightarrow> string \<Rightarrow> db \<Rightarrow> outcome" where
  "schedule_retry env job msg d =
     checked SM_renewal ''in_progress'' ''retrying'' d (\<lambda>d.
       let now = qe_now env; trace = job_trace env job; attempt = next_attempt job;
           scheduledFor = now + retry_backoff env job;
           d1 = set_job (rj_id job) (\<lambda>j. j\<lparr>rj_status := ''retrying'', rj_attempt := attempt,
                  rj_lastError := Some msg, rj_scheduledFor := Some scheduledFor,
                  rj_metadata := Some (with_attempt job
                    [(''attempt'', JNum attempt), (''timestamp'', JNum now), (''error'', JStr msg),
                     (''scheduledFor'', JNum scheduledFor)]),
                  rj_updatedAt := now\<rparr>) d;
           d2 = emitRenewalEvent env ''retrying'' (rj_orgId job) (rj_id job)
                  (Some [(''attempt'', JNum attempt), (''error'', JStr msg),
                         (''scheduledFor'', JNum scheduledFor), (''trigger'', JStr ''keeper'')])
                  (Some trace) d1
       in stopped (bus_emit env ''renewal.retrying'' (rj_orgId job) ''renewal_job'' (rj_id job)
            [(''error'', JStr msg)] trace d2))"

text \<open>A thrown primitive has no message: the update gets an undefined parameter and throws.\<close>

definition handle_error :: "queue_env \<Rightarrow> job_row \<Rightarrow> thrown \<Rightarrow> db \<Rightarrow> outcome" where
  "handle_error env job e d =
     (case err_message e of
        None \<Rightarrow>
          (if next_attempt job < max_attempts job
           then checked SM_renewal ''in_progress'' ''retrying'' d (aborted undefined_value)
           else checked SM_renewal ''in_progress'' ''failed_final'' d (\<lambda>d.
                  rollbackBlobToExpiring env job d (aborted undefined_value)))
      | Some msg \<Rightarrow>
          if \<not> isRetryableJobError e
          then final_failure env job msg (''[non-retryable] '' @ msg) [(''nonRetryable'', JBool True)]
                 [(''nonRetryable'', JBool True)] d
          else if next_attempt job < max_attempts job then schedule_retry env job msg d
          else final_failure env job msg msg [] [(''maxAttemptsExhausted'', JBool True)] d)"

definition execute_phase :: "queue_env \<Rightarrow> job_row \<Rightarrow> db \<Rightarrow> outcome" where
  "execute_phase env job d =
     (let oc = try_renewal env job d in
      case oc_error oc of
        None \<Rightarrow> oc
      | Some e \<Rightarrow> add_runs (oc_runs oc) (handle_error env job e (oc_db oc)))"

definition process_job :: "queue_env \<Rightarrow> job_row \<Rightarrow> db \<Rightarrow> outcome" where
  "process_job env job d =
     budget_phase env job d (\<lambda>job d. guard_phase env job d (execute_phase env job))"

section \<open>Processing the queue\<close>

text \<open>\<open>ORDER BY priority ASC, scheduled_for ASC NULLS FIRST, created_at ASC\<close>; an absent priority
  comes last.\<close>

definition queue_le :: "job_row \<Rightarrow> job_row \<Rightarrow> bool" where
  "queue_le =
     lex_le (\<lambda>j. if rj_priority j = None then 1 else 0 :: int) (lex_le (\<lambda>j. or_default (rj_priority j) 0)
       (lex_le (\<lambda>j. if rj_scheduledFor j = None then 0 else 1 :: int)
         (lex_le (\<lambda>j. or_default (rj_scheduledFor j) 0) (\<lambda>x y. rj_createdAt x \<le> rj_createdAt y))))"

definition runnable :: "int \<Rightarrow> job_row \<Rightarrow> bool" where
  "runnable now j \<longleftrightarrow>
     open_status (rj_status j)
     \<and> (case rj_scheduledFor j of None \<Rightarrow> True | Some t \<Rightarrow> t \<le> now)"

definition pendingJobs :: "int \<Rightarrow> db \<Rightarrow> job_row list" where
  "pendingJobs now d = take 20 (sort_by queue_le (filter (runnable now) (db_jobs d)))"

text \<open>The jobs are the rows as they were selected, whatever earlier jobs have changed since.\<close>

fun queue_loop :: "queue_env \<Rightarrow> job_row list \<Rightarrow> db \<Rightarrow> outcome" where
  "queue_loop env [] d = stopped d"
| "queue_loop env (job # jobs) d =
     (let oc = process_job env job d in
      case oc_error oc of
        Some e \<Rightarrow> oc
      | None \<Rightarrow> add_runs (oc_runs oc) (queue_loop env jobs (oc_db oc)))"

text \<open>The error of the outcome is what \<open>handleSystemicError\<close> gets; the queue itself never throws.\<close>

definition processRenewalQueue :: "queue_env \<Rightarrow> string option \<Rightarrow> db \<Rightarrow> outcome" where
  "processRenewalQueue env stale_env d =
     (let d1 = recoverStaleInProgressJobs (STALE_JOB_THRESHOLD_MS stale_env) (qe_now env) d
      in queue_loop env (pendingJobs (qe_now env) d1) d1)"

section \<open>Facts\<close>

subsection \<open>What events leave alone\<close>

text \<open>The tables that decide what a renewal does, apart from jobs and blobs.\<close>

definition config_of :: "db \<Rightarrow> db" where
  "config_of d =
     d\<lparr>db_jobs := [], db_blobs := [], db_events := [], db_audits := [], db_feed := [], db_log := []\<rparr>"

lemma config_policies:
  "config_of d' = config_of d \<Longrightarrow>
     db_policies d' = db_policies d \<and> db_assignments d' = db_assignments d
     \<and> db_publishers d' = db_publishers d \<and> db_project_publishers d' = db_project_publishers d"
  by (cases d; cases d') (simp add: config_of_def)

lemma record_event_frame [simp]:
  "db_jobs (record_event env org name sev link rty rid summ det att tc d) = db_jobs d"
  "db_blobs (record_event env org name sev link rty rid summ det att tc d) = db_blobs d"
  "config_of (record_event env org name sev link rty rid summ det att tc d) = config_of d"
  by (simp_all add: record_event_def config_of_def)

lemma emitRenewalEvent_frame [simp]:
  "db_jobs (emitRenewalEvent env st org i det tc d) = db_jobs d"
  "db_blobs (emitRenewalEvent env st org i det tc d) = db_blobs d"
  "config_of (emitRenewalEvent env st org i det tc d) = config_of d"
  by (simp_all add: emitRenewalEvent_def Let_def)

lemma emitBlobEvent_frame [simp]:
  "db_jobs (emitBlobEvent env st org i det tc d) = db_jobs d"
  "db_blobs (emitBlobEvent env st org i det tc d) = db_blobs d"
  "config_of (emitBlobEvent env st org i det tc d) = config_of d"
  by (simp_all add: emitBlobEvent_def Let_def)

lemma keeper_emit: "fst (emit True i keeper_bus e d) = log_event i e d"
  by (simp add: emit_def keeper_bus_def)

lemma log_event_frame [simp]:
  "db_jobs (log_event i e d) = db_jobs d" "db_blobs (log_event i e d) = db_blobs d"
  "config_of (log_event i e d) = config_of d" "db_events (log_event i e d) = db_events d"
  by (simp_all add: log_event_def config_of_def)

lemma bus_emit_frame [simp]:
  "db_jobs (bus_emit env n org ety eid det tc d) = db_jobs d"
  "db_blobs (bus_emit env n org ety eid det tc d) = db_blobs d"
  "config_of (bus_emit env n org ety eid det tc d) = config_of d"
  "db_events (bus_emit env n org ety eid det tc d) = db_events d"
  by (simp_all add: bus_emit_def keeper_emit)

lemma log_payloads_frame [simp]:
  "db_jobs (log_payloads env evs d) = db_jobs d" "db_blobs (log_payloads env evs d) = db_blobs d"
  "config_of (log_payloads env evs d) = config_of d"
proof -
  have "db_jobs (log_payloads env evs d) = db_jobs d \<and> db_blobs (log_payloads env evs d) = db_blobs d
      \<and> config_of (log_payloads env evs d) = config_of d"
    by (induction evs arbitrary: d) (simp_all add: log_payloads_def keeper_emit)
  then show "db_jobs (log_payloads env evs d) = db_jobs d" "db_blobs (log_payloads env evs d) = db_blobs d"
    "config_of (log_payloads env evs d) = config_of d" by simp_all
qed

lemma upd_frame [simp]:
  "config_of (upd_jobs p f d) = config_of d" "config_of (upd_blobs q g d) = config_of d"
  by (simp_all add: config_of_def upd_jobs_def upd_blobs_def)

lemma set_job_sel [simp]:
  "db_jobs (set_job i f d) = sql_update (\<lambda>j. rj_id j = i) f (db_jobs d)"
  "db_blobs (set_job i f d) = db_blobs d" "config_of (set_job i f d) = config_of d"
  by (simp_all add: set_job_def)

lemma expire_renewing_sel [simp]:
  "db_jobs (expire_renewing now b d) = db_jobs d" "config_of (expire_renewing now b d) = config_of d"
  by (simp_all add: expire_renewing_def)

lemma soft_event_frame [simp]:
  "db_jobs (soft_event env job c d) = db_jobs d" "db_blobs (soft_event env job c d) = db_blobs d"
  "config_of (soft_event env job c d) = config_of d"
  by (simp_all add: soft_event_def)

lemma fail_job_frame [simp]:
  "db_jobs (fail_job env job st m det bd d) = sql_update (\<lambda>j. rj_id j = rj_id job)
     (\<lambda>j. j\<lparr>rj_status := st, rj_lastError := Some m, rj_completedAt := Some (qe_now env)\<rparr>) (db_jobs d)"
  "db_blobs (fail_job env job st m det bd d) = db_blobs d"
  "config_of (fail_job env job st m det bd d) = config_of d"
  by (simp_all add: fail_job_def Let_def)

lemma outcome_sel [simp]:
  "oc_error (stopped d) = None" "oc_db (stopped d) = d" "oc_runs (stopped d) = []"
  "oc_error (aborted e d) = Some e" "oc_db (aborted e d) = d" "oc_runs (aborted e d) = []"
  "oc_error (add_runs rs oc) = oc_error oc" "oc_db (add_runs rs oc) = oc_db oc"
  "oc_runs (add_runs rs oc) = rs @ oc_runs oc"
  by (simp_all add: stopped_def aborted_def add_runs_def)

lemma checked_edge: "(a, b) \<in> set (edges m) \<Longrightarrow> checked m a b d k = k d"
  using validate_ok_iff [of m a b False]
  by (cases "validateTransition loaded_machines m a b False") (simp_all add: checked_def)

lemma checked_steps [simp]:
  "checked SM_renewal ''estimated'' ''pending'' d k = k d"
  "checked SM_renewal ''pending'' ''in_progress'' d k = k d"
  "checked SM_renewal ''in_progress'' ''succeeded'' d k = k d"
  "checked SM_renewal ''in_progress'' ''retrying'' d k = k d"
  "checked SM_renewal ''in_progress'' ''failed_final'' d k = k d"
  "checked SM_blob ''expiring'' ''renewing'' d k = k d"
  "checked SM_blob ''renewing'' ''expiring'' d k = k d"
  "checked SM_blob ''renewing'' ''renewed'' d k = k d"
  "checked SM_blob ''renewed'' ''protected'' d k = k d"
  "checked SM_blob ''renewed'' ''tracked'' d k = k d"
  by (rule checked_edge, simp add: edges_def renewal_machine_def blob_machine_def)+

subsection \<open>Frame: other jobs and other blobs\<close>

text \<open>Two databases that differ, among jobs, blobs and configuration, at most in the rows of one
  job and one blob, with the keys and the policy-relevant columns of the blobs kept.\<close>

definition blob_key :: "blob_row \<Rightarrow> string \<times> string \<times> string \<times> string \<times> string option \<times> string list option \<times> string option" where
  "blob_key b =
     (bl_id b, bl_blobId b, bl_orgId b, bl_projectId b, bl_walletId b, bl_tags b, bl_suiVaultId b)"

definition job_key :: "job_row \<Rightarrow> string \<times> string \<times> string" where
  "job_key j = (rj_id j, rj_orgId j, rj_blobRegistrationId j)"

definition touches_only :: "string \<Rightarrow> string \<Rightarrow> db \<Rightarrow> db \<Rightarrow> bool" where
  "touches_only i b d d' \<longleftrightarrow>
     config_of d' = config_of d
     \<and> map job_key (db_jobs d') = map job_key (db_jobs d)
     \<and> filter (\<lambda>j. rj_id j \<noteq> i) (db_jobs d') = filter (\<lambda>j. rj_id j \<noteq> i) (db_jobs d)
     \<and> map blob_key (db_blobs d') = map blob_key (db_blobs d)
     \<and> filter (\<lambda>r. bl_id r \<noteq> b) (db_blobs d') = filter (\<lambda>r. bl_id r \<noteq> b) (db_blobs d)"

lemma touches_refl [simp]: "touches_only i b d d"
  by (simp add: touches_only_def)

lemma touches_trans: "touches_only i b d d1 \<Longrightarrow> touches_only i b d1 d2 \<Longrightarrow> touches_only i b d d2"
  by (simp add: touches_only_def)

lemma touches_events:
  "db_jobs d2 = db_jobs d1 \<Longrightarrow> db_blobs d2 = db_blobs d1 \<Longrightarrow> config_of d2 = config_of d1 \<Longrightarrow>
     touches_only i b d d2 = touches_only i b d d1"
  by (simp add: touches_only_def)

lemma filter_update_out:
  "(\<And>r. p r \<Longrightarrow> \<not> q r \<and> \<not> q (f r)) \<Longrightarrow> filter q (sql_update p f rows) = filter q rows"
  by (induction rows) auto

lemma touches_jobs:
  assumes "\<And>j. p j \<Longrightarrow> rj_id j = i" "\<And>j. job_key (f j) = job_key j"
  shows "touches_only i b d (upd_jobs p f d)"
proof -
  have "rj_id (f j) = rj_id j" for j using assms(2) [of j] by (simp add: job_key_def)
  with assms have "filter (\<lambda>j. rj_id j \<noteq> i) (sql_update p f (db_jobs d)) = filter (\<lambda>j. rj_id j \<noteq> i) (db_jobs d)"
    by (intro filter_update_out) simp
  with assms(2) show ?thesis by (simp add: touches_only_def map_sql_update_frame)
qed

lemma touches_blobs:
  assumes "\<And>r. p r \<Longrightarrow> bl_id r = b" "\<And>r. blob_key (f r) = blob_key r"
  shows "touches_only i b d (upd_blobs p f d)"
proof -
  have "bl_id (f r) = bl_id r" for r using assms(2) [of r] by (simp add: blob_key_def)
  with assms have "filter (\<lambda>r. bl_id r \<noteq> b) (sql_update p f (db_blobs d)) = filter (\<lambda>r. bl_id r \<noteq> b) (db_blobs d)"
    by (intro filter_update_out) simp
  with assms(2) show ?thesis by (simp add: touches_only_def map_sql_update_frame)
qed

lemma touches_set_job:
  "(\<And>j. job_key (f j) = job_key j) \<Longrightarrow> touches_only i b d (set_job i f d)"
  unfolding set_job_def by (rule touches_jobs) simp_all

lemma touches_expire [simp]: "touches_only i b d (expire_renewing now b d)"
  unfolding expire_renewing_def by (rule touches_blobs) (simp_all add: blob_key_def)

lemma touches_step_events [simp]:
  "touches_only i b d (emitRenewalEvent env st org k det tc d1) = touches_only i b d d1"
  "touches_only i b d (emitBlobEvent env st org k det tc d1) = touches_only i b d d1"
  "touches_only i b d (bus_emit env n org ety eid det2 tc2 d1) = touches_only i b d d1"
  "touches_only i b d (log_payloads env evs d1) = touches_only i b d d1"
  "touches_only i b d (soft_event env job c d1) = touches_only i b d d1"
  by (rule touches_events; simp)+

lemma touches_then_job:
  "touches_only i b d0 d \<Longrightarrow> (\<And>j. job_key (f j) = job_key j) \<Longrightarrow> touches_only i b d0 (set_job i f d)"
  by (rule touches_trans [OF _ touches_set_job])

lemma touches_then_blobs:
  "touches_only i b d0 d \<Longrightarrow> (\<And>r. p r \<Longrightarrow> bl_id r = b) \<Longrightarrow> (\<And>r. blob_key (f r) = blob_key r)
     \<Longrightarrow> touches_only i b d0 (upd_blobs p f d)"
  by (rule touches_trans [OF _ touches_blobs])

lemma touches_then_expire: "touches_only i b d0 d \<Longrightarrow> touches_only i b d0 (expire_renewing now b d)"
  by (rule touches_trans [OF _ touches_expire])

lemma touches_fail_job:
  "touches_only (rj_id job) b d0 d \<Longrightarrow> touches_only (rj_id job) b d0 (fail_job env job st m det bd d)"
  by (simp add: fail_job_def Let_def touches_then_job job_key_def)

lemma touches_checked:
  "touches_only i b d0 d \<Longrightarrow> touches_only i b d0 (oc_db (k d)) \<Longrightarrow> touches_only i b d0 (oc_db (checked m x y d k))"
  by (simp add: checked_def split: sum.split)

lemmas touches_intros = touches_then_job touches_then_blobs touches_then_expire touches_fail_job

lemma touches_rollback:
  assumes "touches_only i (rj_blobRegistrationId job) d0 d"
    and "\<And>d'. touches_only i (rj_blobRegistrationId job) d0 d' \<Longrightarrow>
           touches_only i (rj_blobRegistrationId job) d0 (oc_db (k d'))"
  shows "touches_only i (rj_blobRegistrationId job) d0 (oc_db (rollbackBlobToExpiring env job d k))"
  using assms by (simp add: rollbackBlobToExpiring_def touches_then_expire)

abbreviation job_frame :: "job_row \<Rightarrow> db \<Rightarrow> db \<Rightarrow> bool" where
  "job_frame job d0 d \<equiv> touches_only (rj_id job) (rj_blobRegistrationId job) d0 d"

lemma frame_fail_after_rollback:
  "job_frame job d0 d \<Longrightarrow> job_frame job d0 (oc_db (fail_after_rollback env job st m bk d))"
  unfolding fail_after_rollback_def by (rule touches_rollback) (simp_all add: touches_fail_job)

lemma frame_final_failure:
  "job_frame job d0 d \<Longrightarrow> job_frame job d0 (oc_db (final_failure env job m st ex dx d))"
  unfolding final_failure_def
  by (intro touches_checked touches_rollback) (simp_all add: Let_def touches_then_job job_key_def)

lemma frame_schedule_retry:
  "job_frame job d0 d \<Longrightarrow> job_frame job d0 (oc_db (schedule_retry env job m d))"
  by (simp add: schedule_retry_def Let_def touches_then_job job_key_def)

lemma frame_handle_error:
  "job_frame job d0 d \<Longrightarrow> job_frame job d0 (oc_db (handle_error env job e d))"
  by (auto simp: handle_error_def frame_final_failure frame_schedule_retry
      intro!: touches_rollback split: option.split)

lemma frame_renewed_to:
  assumes "\<And>b. blob_key (stamp b) = blob_key b" and "job_frame job d0 d"
  shows "job_frame job d0 (oc_db (renewed_to env job st stamp det d))"
  unfolding renewed_to_def
  by (rule touches_checked) (use assms in \<open>auto simp: blob_key_def intro!: touches_then_blobs\<close>)

lemma frame_transitionRenewedBlob:
  "job_frame job d0 d \<Longrightarrow> job_frame job d0 (oc_db (transitionRenewedBlob env job b d))"
  by (auto simp: transitionRenewedBlob_def blob_key_def intro!: frame_renewed_to
      split: sum.split option.split)

lemma frame_succeed_job:
  "job_frame job d0 d \<Longrightarrow> job_frame job d0 (oc_db (succeed_job env job b res d))"
  by (auto simp: succeed_job_def Let_def job_key_def blob_key_def
      intro!: frame_transitionRenewedBlob touches_then_blobs touches_then_job)

lemma frame_try_renewal:
  assumes "job_frame job d0 d"
  shows "job_frame job d0 (oc_db (try_renewal env job d))"
  using assms
  by (auto simp: try_renewal_def split_beta frame_fail_after_rollback frame_succeed_job
      intro!: touches_checked split: option.split sum.split bool.split)

lemma frame_execute_phase:
  "job_frame job d0 d \<Longrightarrow> job_frame job d0 (oc_db (execute_phase env job d))"
  by (auto simp: execute_phase_def Let_def frame_try_renewal frame_handle_error split: option.split)

lemma frame_guard_phase:
  assumes "job_frame job d0 d" and "\<And>d'. job_frame job d0 d' \<Longrightarrow> job_frame job d0 (oc_db (k d'))"
  shows "job_frame job d0 (oc_db (guard_phase env job d k))"
proof -
  have claim: "job_frame job d0 (upd_jobs (\<lambda>j. rj_id j = rj_id job \<and> rj_status j = ''pending'')
      (\<lambda>j. j\<lparr>rj_status := ''in_progress'', rj_startedAt := Some (qe_now env)\<rparr>) d)"
    by (rule touches_trans [OF assms(1)], rule touches_jobs) (simp_all add: job_key_def)
  show ?thesis
    using assms(1)
    by (auto simp: guard_phase_def Let_def job_key_def blob_key_def claim
        intro!: touches_then_job touches_then_blobs assms(2))
qed

lemma refresh_estimate_keeps:
  assumes "refresh_estimate env job d = Inr (job1, d1)"
  shows "rj_id job1 = rj_id job \<and> rj_blobRegistrationId job1 = rj_blobRegistrationId job
    \<and> rj_status job1 = rj_status job \<and> rj_orgId job1 = rj_orgId job
    \<and> rj_metadata job1 = rj_metadata job \<and> job_frame job d d1"
  using assms
  by (auto simp: refresh_estimate_def bindE_Inr_iff job_key_def intro!: touches_set_job
      split: option.splits if_splits)

lemma frame_block_job:
  assumes "job_frame job d0 d"
  shows "job_frame job d0 (oc_db (block_job env job c d))"
  unfolding block_job_def
  by (rule touches_checked) (use assms in \<open>auto simp: Let_def touches_fail_job split: option.split\<close>)

lemma frame_budget_phase:
  assumes "job_frame job d0 d"
    and "\<And>j d'. rj_id j = rj_id job \<Longrightarrow> rj_blobRegistrationId j = rj_blobRegistrationId job
           \<Longrightarrow> job_frame job d0 d' \<Longrightarrow> job_frame job d0 (oc_db (k j d'))"
  shows "job_frame job d0 (oc_db (budget_phase env job d k))"
proof (cases "refresh_estimate env job d")
  case (Inl e)
  with assms show ?thesis by (auto simp: budget_phase_def touches_fail_job split: option.split)
next
  case (Inr r)
  obtain job1 d1 where r: "r = (job1, d1)" by (cases r)
  note kp = refresh_estimate_keeps [OF Inr [unfolded r]]
  from kp touches_trans [OF assms(1)] have f1: "job_frame job d0 d1" by blast
  have pend: "job_frame job d0 (set_job (rj_id job) (\<lambda>j. j\<lparr>rj_status := ''pending'', rj_updatedAt := qe_now env\<rparr>) x)"
    if "job_frame job d0 x" for x using that kp by (simp add: touches_then_job job_key_def)
  show ?thesis
    using assms(1) Inr r kp f1 frame_block_job [of job1 d0]
    by (auto simp: budget_phase_def touches_fail_job Let_def pend intro!: assms(2)
        split: option.split sum.split)
qed

lemma frame_process_job: "job_frame job d (oc_db (process_job env job d))"
  unfolding process_job_def
proof (rule frame_budget_phase)
  fix j :: job_row and d' assume "rj_id j = rj_id job" "rj_blobRegistrationId j = rj_blobRegistrationId job" "job_frame job d d'"
  then show "job_frame job d (oc_db (guard_phase env j d' (execute_phase env j)))"
    using frame_guard_phase [of j d d' "execute_phase env j" env] frame_execute_phase [of j d] by simp
qed simp

subsection \<open>The policy of the blob is not affected\<close>

lemma first_row_map: "first_row (map f xs) = map_option f (first_row xs)"
  by (cases xs) simp_all

lemma filter_by_key:
  "map k xs' = map k xs \<Longrightarrow>
     map_option k (first_row (filter (\<lambda>x. g (k x)) xs')) = map_option k (first_row (filter (\<lambda>x. g (k x)) xs))"
  by (metis (mono_tags, lifting) filter_cong filter_map comp_apply first_row_map)

lemma touches_find_blob:
  assumes "touches_only i b d d'"
  shows "map_option blob_key (find_blob d' k) = map_option blob_key (find_blob d k)"
proof -
  have k: "bl_id r = fst (blob_key r)" for r by (simp add: blob_key_def)
  show ?thesis
    using assms filter_by_key [of blob_key "db_blobs d'" "db_blobs d" "\<lambda>x. fst x = k"]
    by (simp add: touches_only_def find_blob_def k)
qed

lemma policy_lookup_cong:
  assumes "db_policies d' = db_policies d" "db_assignments d' = db_assignments d"
  shows "findExplicitBlobAssignment d' b = findExplicitBlobAssignment d b"
    "getPoliciesForScope d' org sc t = getPoliciesForScope d org sc t"
    "resolveTagPolicies d' r = resolveTagPolicies d r"
    "resolveBroadScopes d' org w p = resolveBroadScopes d org w p"
  by (simp_all only: assms findExplicitBlobAssignment_def explicitPolicies_def getPoliciesForScope_def
      resolveTagPolicies_def resolveTagPoliciesByTags_def tagMatches_def resolveBroadScopes_def
      wallet_level_def)

lemma effective_policy_cong:
  assumes "touches_only i b d d'"
  shows "resolveEffectivePolicy d' k = resolveEffectivePolicy d k"
proof -
  from assms config_policies [of d' d] have p: "db_policies d' = db_policies d" "db_assignments d' = db_assignments d"
    by (simp_all add: touches_only_def)
  have tags: "resolveTagPolicies d x = resolveTagPolicies d y" if "blob_key x = blob_key y" for x y
    using that by (simp add: blob_key_def resolveTagPolicies_def Let_def)
  note eqs = resolveEffectivePolicy_def find_blob_def [symmetric] policy_lookup_cong [OF p]
  show ?thesis
  proof (cases "find_blob d k")
    case None
    with touches_find_blob [OF assms, of k] show ?thesis unfolding eqs by simp
  next
    case (Some y)
    with touches_find_blob [OF assms, of k] obtain x where x: "find_blob d' k = Some x" "blob_key x = blob_key y"
      by auto
    from x(2) have e: "bl_id x = bl_id y" "bl_orgId x = bl_orgId y" "bl_projectId x = bl_projectId y"
      "bl_walletId x = bl_walletId y" by (simp_all add: blob_key_def)
    show ?thesis unfolding eqs by (simp only: x(1) Some option.case e tags [OF x(2)])
  qed
qed

lemma blob_policy_cong:
  assumes "touches_only i b d d'"
  shows "resolvePolicyForBlob d' x = resolvePolicyForBlob d x"
proof -
  let ?f = "\<lambda>d. first_row (filter (\<lambda>r. bl_blobId r = x) (db_blobs d))"
  have k: "bl_blobId r = fst (snd (blob_key r))" for r by (simp add: blob_key_def)
  have "map_option blob_key (?f d') = map_option blob_key (?f d)"
    using assms filter_by_key [of blob_key "db_blobs d'" "db_blobs d" "\<lambda>y. fst (snd y) = x"]
    by (simp add: touches_only_def k)
  then show ?thesis
    using effective_policy_cong [OF assms]
    by (cases "?f d'"; cases "?f d") (auto simp: resolvePolicyForBlob_def blob_key_def)
qed

lemma blob_policy_found:
  assumes "find_blob d k = Some reg"
  shows "\<exists>p. resolvePolicyForBlob d (bl_blobId reg) = Inr p"
proof -
  have "reg \<in> set (db_blobs d)" using assms by (auto simp: find_blob_def dest: first_row_filter_SomeD)
  then obtain r where r: "first_row (filter (\<lambda>r. bl_blobId r = bl_blobId reg) (db_blobs d)) = Some r"
    by (metis (mono_tags, lifting) first_row_filter_None not_Some_eq)
  then have "r \<in> set (db_blobs d)" by (auto dest: first_row_filter_SomeD)
  then obtain s where "first_row (filter (\<lambda>b. bl_id b = bl_id r) (db_blobs d)) = Some s"
    by (metis (mono_tags, lifting) first_row_filter_None not_Some_eq)
  with r show ?thesis by (simp add: resolvePolicyForBlob_def resolveEffectivePolicy_def)
qed

subsection \<open>How an execution ends\<close>

definition job_state :: "job_row \<Rightarrow> string \<Rightarrow> db \<Rightarrow> bool" where
  "job_state job st d \<longleftrightarrow> (\<forall>j \<in> set (db_jobs d). rj_id j = rj_id job \<longrightarrow> rj_status j = st)"

definition blob_state :: "job_row \<Rightarrow> string \<Rightarrow> db \<Rightarrow> bool" where
  "blob_state job st d \<longleftrightarrow>
     (\<forall>b \<in> set (db_blobs d). bl_id b = rj_blobRegistrationId job \<longrightarrow> bl_status b = st)"

lemma job_state_events [simp]:
  "job_state job st (emitRenewalEvent env s org i det tc d) = job_state job st d"
  "job_state job st (emitBlobEvent env s org i det tc d) = job_state job st d"
  "job_state job st (bus_emit env n org ety eid bd t d) = job_state job st d"
  "job_state job st (log_payloads env evs d) = job_state job st d"
  "job_state job st (upd_blobs p f d) = job_state job st d"
  "job_state job st (expire_renewing now b d) = job_state job st d"
  by (simp_all add: job_state_def)

lemma blob_state_events [simp]:
  "blob_state job st (emitRenewalEvent env s org i det tc d) = blob_state job st d"
  "blob_state job st (emitBlobEvent env s org i det tc d) = blob_state job st d"
  "blob_state job st (bus_emit env n org ety eid be t d) = blob_state job st d"
  "blob_state job st (log_payloads env evs d) = blob_state job st d"
  "blob_state job st (set_job i f d) = blob_state job st d"
  "blob_state job st (fail_job env job2 s m dt bd d) = blob_state job st d"
  by (simp_all add: blob_state_def)

lemma job_state_set:
  "(\<And>j. rj_status (f j) = st \<and> rj_id (f j) = rj_id j) \<Longrightarrow> job_state job st (set_job (rj_id job) f d)"
  by (auto simp: job_state_def set_sql_update)

lemma job_state_fail [simp]: "job_state job st (fail_job env job st m det bd d)"
  by (simp add: fail_job_def Let_def job_state_set)

lemma blob_state_step:
  assumes "blob_state job bs d"
    and "\<And>b. p b \<longleftrightarrow> bl_id b = rj_blobRegistrationId job \<and> bl_status b = a"
    and "\<And>b. bl_status (f b) = c \<and> bl_id (f b) = bl_id b"
  shows "blob_state job (if bs = a then c else bs) (upd_blobs p f d)"
  using assms by (auto simp: blob_state_def set_sql_update)

text \<open>The updates of an execution find only a blob that is renewing, or that they have made renewed; they leave any other alone.\<close>

definition blob_end :: "string \<Rightarrow> string \<Rightarrow> string" where
  "blob_end bs v = (if bs = ''renewing'' \<or> (bs = ''renewed'' \<and> v \<in> {''protected'', ''tracked''}) then v else bs)"

lemma blob_end_same [simp]: "blob_end bs ''renewing'' = bs"
  by (simp add: blob_end_def)

lemma blob_state_expire:
  assumes "blob_state job bs d"
  shows "blob_state job (blob_end bs ''expiring'') (expire_renewing now (rj_blobRegistrationId job) d)"
proof -
  have "blob_end bs ''expiring'' = (if bs = ''renewing'' then ''expiring'' else bs)" by (simp add: blob_end_def)
  then show ?thesis unfolding expire_renewing_def by (simp add: blob_state_step [OF assms])
qed

definition ends :: "job_row \<Rightarrow> string \<Rightarrow> string \<Rightarrow> outcome \<Rightarrow> bool" where
  "ends job st bs oc \<longleftrightarrow> oc_error oc = None \<and> job_state job st (oc_db oc) \<and> blob_state job bs (oc_db oc)"

lemma ends_add_runs [simp]: "ends job st bs (add_runs rs oc) = ends job st bs oc"
  by (simp add: ends_def)

lemma ends_fail_after_rollback:
  "blob_state job bs d \<Longrightarrow> ends job st (blob_end bs ''expiring'') (fail_after_rollback env job st m bk d)"
  by (simp add: fail_after_rollback_def rollbackBlobToExpiring_def ends_def blob_state_expire)

lemma ends_final_failure:
  "blob_state job bs d \<Longrightarrow> ends job ''failed_final'' (blob_end bs ''expiring'') (final_failure env job m st ex dx d)"
  by (simp add: final_failure_def rollbackBlobToExpiring_def ends_def blob_state_expire Let_def job_state_set)

lemma ends_schedule_retry:
  "blob_state job bs d \<Longrightarrow> ends job ''retrying'' bs (schedule_retry env job m d)"
  by (simp add: schedule_retry_def ends_def Let_def job_state_set)

lemma ends_succeed_job:
  assumes "blob_state job bs d" and "resolvePolicyForBlob d b = Inr policy"
    and "rp_autoRenewalEnabled policy"
  shows "ends job ''succeeded'' (blob_end bs (if truthy (rp_policyId policy) = None then ''tracked'' else ''protected''))
    (succeed_job env job b res d)"
proof -
  let ?now = "qe_now env"
  let ?d1 = "set_job (rj_id job) (\<lambda>j. j\<lparr>rj_heartbeatAt := Some ?now\<rparr>) d"
  let ?d2 = "set_job (rj_id job) (\<lambda>j. j\<lparr>rj_status := ''succeeded'', rj_completedAt := Some ?now,
               rj_txDigest := Some (rr_digest res)\<rparr>) ?d1"
  let ?d4 = "bus_emit env ''renewal.succeeded'' (rj_orgId job) ''renewal_job'' (rj_id job) [] (job_trace env job)
     (emitRenewalEvent env ''succeeded'' (rj_orgId job) (rj_id job)
        (Some [(''txDigest'', JStr (rr_digest res)), (''trigger'', JStr ''keeper'')])
        (Some (job_trace env job)) ?d2)"
  let ?d5 = "emitBlobEvent env ''renewed'' (rj_orgId job) (rj_blobRegistrationId job) None (Some (job_trace env job))
      (upd_blobs (\<lambda>b. bl_id b = rj_blobRegistrationId job \<and> bl_status b = ''renewing'')
         (\<lambda>b. b\<lparr>bl_status := ''renewed'', bl_renewedAt := Some ?now, bl_updatedAt := ?now\<rparr>) ?d4)"
  have run: "succeed_job env job b res d = transitionRenewedBlob env job b ?d5"
    by (simp add: succeed_job_def Let_def)
  have js: "job_state job ''succeeded'' ?d5" by (simp add: job_state_set)
  let ?s = "if bs = ''renewing'' then ''renewed'' else bs"
  have bs: "blob_state job ?s ?d5" using assms(1) by (simp add: blob_state_step)
  have final: "blob_state job (blob_end bs st) (upd_blobs p f ?d5)"
    if "\<And>b. p b \<longleftrightarrow> bl_id b = rj_blobRegistrationId job \<and> bl_status b = ''renewed''"
      "\<And>b. bl_status (f b) = st \<and> bl_id (f b) = bl_id b" "st \<in> {''protected'', ''tracked''}" for p f st
    using blob_state_step [OF bs that(1,2)] that(3) by (auto simp: blob_end_def split: if_splits)
  have "job_frame job d ?d5"
    by (auto simp: job_key_def blob_key_def intro!: touches_then_blobs touches_then_job)
  from blob_policy_cong [OF this, of b] assms(2) have "resolvePolicyForBlob ?d5 b = Inr policy" by simp
  with assms(3) js show ?thesis
    unfolding run transitionRenewedBlob_def
    by (cases "truthy (rp_policyId policy)") (simp_all add: renewed_to_def ends_def final)
qed

text \<open>
  The abstract outcome of an execution: the exception that escapes, the final status of the job, if it gets one, and that of a
  blob that is renewing.
\<close>

definition verdict :: "queue_env \<Rightarrow> job_row \<Rightarrow> db \<Rightarrow> thrown option \<times> string option \<times> string" where
  "verdict env job d =
     (case find_blob d (rj_blobRegistrationId job) of
        None \<Rightarrow> (None, Some ''failed_final'', ''expiring'')
      | Some reg \<Rightarrow>
          (let policy = projr (resolvePolicyForBlob d (bl_blobId reg));
               vault = (case bl_suiVaultId reg of
                          Some v \<Rightarrow> findVaultByObjectId (qe_chain env) v | None \<Rightarrow> None);
               (published, ex) = resolvePublisherForRenewal (qe_heartbeat env) (qe_now env) d
                  (Some (bl_projectId reg)) (bl_orgId reg) None (qe_executor env);
               again = (next_attempt job < max_attempts job)
           in if \<not> rp_autoRenewalEnabled policy then (None, Some ''blocked_by_budget'', ''expiring'')
              else if vault = None \<or> \<not> published then (None, Some ''failed_final'', ''expiring'')
              else
                (case fst (executeRenewal (qe_exec env (rj_id job)) (qe_fee env (rj_id job)) ex (the vault)) of
                   Inr _ \<Rightarrow> (None, Some ''succeeded'',
                              if truthy (rp_policyId policy) = None then ''tracked'' else ''protected'')
                 | Inl e \<Rightarrow>
                     if err_message e = None
                     then (Some undefined_value, None, if again then ''renewing'' else ''expiring'')
                     else if isRetryableJobError e \<and> again then (None, Some ''retrying'', ''renewing'')
                     else (None, Some ''failed_final'', ''expiring''))))"

definition ends_as :: "job_row \<Rightarrow> string \<Rightarrow> string \<Rightarrow> thrown option \<times> string option \<times> string \<Rightarrow> outcome \<Rightarrow> bool" where
  "ends_as job js bs v oc \<longleftrightarrow>
     oc_error oc = fst v \<and> job_state job (or_default (fst (snd v)) js) (oc_db oc)
     \<and> blob_state job (blob_end bs (snd (snd v))) (oc_db oc)"

lemma ends_as_ends: "ends_as job js bs (None, Some st, b) oc \<longleftrightarrow> ends job st (blob_end bs b) oc"
  by (simp add: ends_as_def ends_def)

lemma ends_handle_error:
  assumes "blob_state job bs d" and "job_state job js d"
  shows "ends_as job js bs
    (if err_message e = None
     then (Some undefined_value, None, if next_attempt job < max_attempts job then ''renewing'' else ''expiring'')
     else if isRetryableJobError e \<and> next_attempt job < max_attempts job then (None, Some ''retrying'', ''renewing'')
     else (None, Some ''failed_final'', ''expiring'')) (handle_error env job e d)"
proof (cases "err_message e")
  case None
  with assms show ?thesis
    by (simp add: handle_error_def ends_as_def rollbackBlobToExpiring_def blob_state_expire)
next
  case (Some msg)
  with assms show ?thesis by (simp add: handle_error_def ends_as_ends ends_final_failure ends_schedule_retry)
qed

lemma ends_no_error: "ends job st bs (try_renewal env job d) \<Longrightarrow> ends job st bs (execute_phase env job d)"
  by (simp add: execute_phase_def ends_def Let_def)

lemma execute_ends:
  assumes "blob_state job bs d" and "job_state job js d"
  shows "ends_as job js bs (verdict env job d) (execute_phase env job d)"
proof (cases "find_blob d (rj_blobRegistrationId job)")
  case None
  with assms(1) show ?thesis
    by (simp add: verdict_def ends_as_ends) (intro ends_no_error, simp add: try_renewal_def ends_fail_after_rollback)
next
  case (Some reg)
  from blob_policy_found [OF this] obtain policy where
    p: "resolvePolicyForBlob d (bl_blobId reg) = Inr policy" by blast
  define vault where "vault = (case bl_suiVaultId reg of
      Some v \<Rightarrow> findVaultByObjectId (qe_chain env) v | None \<Rightarrow> None)"
  obtain pub ex where pub: "resolvePublisherForRenewal (qe_heartbeat env) (qe_now env) d
      (Some (bl_projectId reg)) (bl_orgId reg) None (qe_executor env) = (pub, ex)" by fastforce
  note base = Some p pub vault_def [symmetric]
  show ?thesis
  proof (cases "rp_autoRenewalEnabled policy \<and> vault \<noteq> None \<and> pub")
    case False
    let ?st = "if rp_autoRenewalEnabled policy then ''failed_final'' else ''blocked_by_budget''"
    have "verdict env job d = (None, Some ?st, ''expiring'')" using False by (auto simp: verdict_def base)
    moreover have "ends job ?st (blob_end bs ''expiring'') (try_renewal env job d)"
      using False assms(1) by (auto simp: try_renewal_def base ends_fail_after_rollback split: option.split bool.split)
    ultimately show ?thesis by (simp add: ends_as_ends ends_no_error)
  next
    case True
    then obtain v where v: "vault = Some v" by auto
    obtain r t where ex: "executeRenewal (qe_exec env (rj_id job)) (qe_fee env (rj_id job)) ex v = (r, t)"
      by fastforce
    show ?thesis
    proof (cases r)
      case (Inr res)
      have "resolvePolicyForBlob (log_payloads env (xt_events t) d) (bl_blobId reg) = Inr policy"
        using p blob_policy_cong [of "rj_id job" "rj_blobRegistrationId job" d "log_payloads env (xt_events t) d"]
        by simp
      from ends_succeed_job [OF _ this, of job bs env res] assms(1)
      have "ends job ''succeeded'' (blob_end bs (if truthy (rp_policyId policy) = None then ''tracked'' else ''protected''))
          (execute_phase env job d)"
        using True v ex Inr by (intro ends_no_error) (simp add: try_renewal_def base)
      moreover have "verdict env job d = (None, Some ''succeeded'',
          if truthy (rp_policyId policy) = None then ''tracked'' else ''protected'')"
        using True v ex Inr by (simp add: verdict_def base)
      ultimately show ?thesis by (simp add: ends_as_ends)
    next
      case (Inl e)
      with True v ex have "try_renewal env job d = add_runs [(rj_id job, xt_submitted t)]
          (aborted e (log_payloads env (xt_events t) d))" by (simp add: try_renewal_def base)
      then have "ends_as job js bs vd (execute_phase env job d) =
          ends_as job js bs vd (handle_error env job e (log_payloads env (xt_events t) d))" for vd
        by (simp add: execute_phase_def Let_def ends_as_def)
      with ends_handle_error [of job bs "log_payloads env (xt_events t) d" js e env] assms True v ex Inl show ?thesis
        by (simp add: verdict_def base Let_def)
    qed
  qed
qed

subsection \<open>Selection and guards\<close>

interpretation queue_order: sort_order queue_le
  unfolding queue_le_def by (intro sort_order_lex) (rule key_asc.sort_order_axioms)

lemma retrying_not_claimed:
  assumes "rj_status job = ''retrying''"
    and "sibling d job ''succeeded'' = None" "sibling d job ''in_progress'' = None"
    and "job_state job ''retrying'' d"
  shows "process_job env job d = stopped d"
proof -
  let ?p = "\<lambda>j. rj_id j = rj_id job \<and> rj_status j = ''pending''"
  have none: "\<forall>j \<in> set (db_jobs d). \<not> ?p j" using assms(4) by (auto simp: job_state_def)
  then have "filter ?p (db_jobs d) = []" by (simp add: filter_empty_conv)
  moreover have "upd_jobs ?p f d = d" for f
    using sql_update_none [OF none] by (simp add: upd_jobs_def)
  ultimately show ?thesis
    using assms(1-3)
    by (simp add: process_job_def budget_phase_def guard_phase_def update_returning_def Let_def)
qed

lemma guard_sibling_succeeded:
  "sibling d job ''succeeded'' \<noteq> None \<Longrightarrow>
     ends job ''succeeded'' st (guard_phase env job d k) = blob_state job st d
     \<and> oc_runs (guard_phase env job d k) = []"
  by (simp add: guard_phase_def ends_def job_state_set)

lemma sibling_cong:
  assumes "filter (\<lambda>j. rj_id j \<noteq> rj_id job) (db_jobs d') = filter (\<lambda>j. rj_id j \<noteq> rj_id job) (db_jobs d)"
    and "rj_id j1 = rj_id job" "rj_blobRegistrationId j1 = rj_blobRegistrationId job"
  shows "sibling d' j1 st = sibling d job st"
proof -
  have eq: "sibling x y st = first_row (filter (\<lambda>j. rj_blobRegistrationId j = rj_blobRegistrationId y
      \<and> rj_status j = st) (filter (\<lambda>j. rj_id j \<noteq> rj_id y) (db_jobs x)))" for x and y :: job_row
    by (simp add: sibling_def conj_comms)
  show ?thesis unfolding eq assms ..
qed

lemma budget_phase_runs:
  assumes "\<And>j d'. rj_id j = rj_id job \<Longrightarrow> rj_blobRegistrationId j = rj_blobRegistrationId job
      \<Longrightarrow> job_frame job d d' \<Longrightarrow> oc_runs (k j d') = []"
  shows "oc_runs (budget_phase env job d k) = []"
proof (cases "refresh_estimate env job d")
  case (Inl e)
  with assms [of job d] show ?thesis by (auto simp: budget_phase_def split: option.split)
next
  case (Inr r)
  obtain job1 d1 where r: "r = (job1, d1)" by (cases r)
  note kp = refresh_estimate_keeps [OF Inr [unfolded r]]
  have pend: "job_frame job d (set_job (rj_id job) (\<lambda>j. j\<lparr>rj_status := ''pending'', rj_updatedAt := qe_now env\<rparr>) x)"
    if "job_frame job d x" for x using that by (simp add: touches_then_job job_key_def)
  have blocked: "oc_runs (block_job env job1 c x) = []" for c x
    by (auto simp: block_job_def checked_def Let_def split: sum.split option.split)
  show ?thesis
    using Inr r kp assms [of job d]
    by (auto simp: budget_phase_def Let_def pend blocked intro!: assms split: option.split sum.split)
qed

lemma stale_blobs:
  "db_jobs (fold (\<lambda>r. expire_renewing now (rj_blobRegistrationId r)) rs d) = db_jobs d
   \<and> config_of (fold (\<lambda>r. expire_renewing now (rj_blobRegistrationId r)) rs d) = config_of d
   \<and> map bl_status (db_blobs (fold (\<lambda>r. expire_renewing now (rj_blobRegistrationId r)) rs d)) =
      map (\<lambda>b. if bl_status b = ''renewing'' \<and> bl_id b \<in> rj_blobRegistrationId ` set rs
               then ''expiring'' else bl_status b) (db_blobs d)"
proof (induction rs arbitrary: d)
  case (Cons r rs)
  let ?d = "expire_renewing now (rj_blobRegistrationId r) d"
  have "map (\<lambda>b. if bl_status b = ''renewing'' \<and> bl_id b \<in> rj_blobRegistrationId ` set rs
               then ''expiring'' else bl_status b) (db_blobs ?d) =
      map (\<lambda>b. if bl_status b = ''renewing'' \<and> bl_id b \<in> rj_blobRegistrationId ` set (r # rs)
               then ''expiring'' else bl_status b) (db_blobs d)"
    by (simp add: expire_renewing_def sql_update_def)
  with Cons.IH [of ?d] show ?case by simp
qed simp

section \<open>Properties\<close>

text \<open>
  C1: an execution refines the verdict, whatever the executor answers or throws, the handler of errors included. A blob that is
  renewing ends protected or tracked after a success, stays renewing when a retry is scheduled, which takes a retryable error
  with attempts left, and goes back to expiring after a terminal failure; the job gets the matching status. A blob in another
  status is left alone whatever becomes of the job, even after a success; only one that is renewed already may still become
  protected or tracked. When the value thrown has no message the handler itself throws, and the job keeps its status.
\<close>

theorem execution_refines_verdict:
  assumes "blob_state job bs d" and "job_state job js d"
  shows "oc_error (execute_phase env job d) = fst (verdict env job d)
    \<and> job_state job (or_default (fst (snd (verdict env job d))) js) (oc_db (execute_phase env job d))
    \<and> blob_state job (blob_end bs (snd (snd (verdict env job d)))) (oc_db (execute_phase env job d))"
  using execute_ends [OF assms] by (simp add: ends_as_def)

text \<open>An environment for the examples: one vault on chain and one answer to every submission.\<close>

definition sample_queue :: "thrown + tx_response \<Rightarrow> queue_env" where
  "sample_queue resp =
     \<lparr>qe_now = 1000, qe_id = (\<lambda>t n. t @ show_nat n), qe_trace = (\<lambda>i. i), qe_staleness = None,
      qe_heartbeat = Some 300000,
      qe_chain = \<lparr>ch_query = (\<lambda>_ _. Inl (js_Error ''unused'')), ch_events = Inr [],
         ch_get = (\<lambda>_. Inr [encode_vault sample_vault]), ch_seq = Inr ''1'', ch_checkpoint = (\<lambda>_. Inr 9)\<rparr>,
      qe_exec = (\<lambda>_. sample_env resp), qe_fee = (\<lambda>_. Inr ''0xf''), qe_executor = sample_executor,
      qe_random = (\<lambda>_. 0)\<rparr>"

definition sample_job :: job_row where
  "sample_job = (new_job ''j'' 0 ''o'' ''r'')\<lparr>rj_status := ''in_progress''\<rparr>"

definition sample_queue_db :: db where
  "sample_queue_db = empty_db
     \<lparr>db_blobs := [(new_blob ''r'' 0 ''o'' ''p'' ''7'')\<lparr>bl_status := ''renewing'', bl_suiVaultId := Some ''0xa''\<rparr>],
      db_policies := [(new_policy ''pol'' 0 ''o'' ''n'' 7 30)\<lparr>po_status := ''active''\<rparr>],
      db_assignments := [\<lparr>pa_policyId = ''pol'', pa_blobRegistrationId = ''r''\<rparr>],
      db_publishers := [(new_publisher ''q'' 0 ''o'' ''Q'')\<lparr>pb_lastHeartbeatAt := Some 900\<rparr>],
      db_jobs := [sample_job]\<rparr>"

theorem execution_refines_verdict_witness:
  "blob_state sample_job ''protected'' (oc_db (execute_phase
      (sample_queue (Inr \<lparr>tx_digest = ''D'', tx_effects = Some
        \<lparr>fx_success = True, fx_error = None, fx_computationCost = None\<rparr>, tx_events = []\<rparr>))
      sample_job sample_queue_db))"
proof -
  let ?resp = "\<lparr>tx_digest = ''D'', tx_effects = Some
        \<lparr>fx_success = True, fx_error = None, fx_computationCost = None\<rparr>, tx_events = []\<rparr>"
  let ?env = "sample_queue (Inr ?resp)"
  have z: "to_bigint ''0'' = Inr 0"
    by (simp add: to_bigint_def parse_bigint_def is_digit_def digits_val_def digit_val_def)
  have st: "is_ok (settle_tx now v ?resp)" for now v by (simp add: settle_tx_def Let_def truthy_def z)
  have bs: "blob_state sample_job ''renewing'' sample_queue_db"
    by (simp add: blob_state_def sample_queue_db_def sample_job_def new_job_def)
  have js: "job_state sample_job ''in_progress'' sample_queue_db"
    by (simp add: job_state_def sample_queue_db_def sample_job_def new_job_def)
  have reg: "find_blob sample_queue_db ''r'' = Some ((new_blob ''r'' 0 ''o'' ''p'' ''7'')
      \<lparr>bl_status := ''renewing'', bl_suiVaultId := Some ''0xa''\<rparr>)"
    by (simp add: find_blob_def sample_queue_db_def new_blob_def)
  have pol: "\<exists>p. resolvePolicyForBlob sample_queue_db ''7'' = Inr p \<and> rp_autoRenewalEnabled p
      \<and> rp_policyId p = Some ''pol''"
    by (simp add: resolvePolicyForBlob_def resolveEffectivePolicy_def sample_queue_db_def new_blob_def
        findExplicitBlobAssignment_def explicitPolicies_def new_policy_def toResolvedPolicy_def Let_def)
  have vault: "findVaultByObjectId (qe_chain ?env) ''0xa'' = Some sample_vault"
    by (simp add: findVaultByObjectId_def fetchVaultsByIds_def sample_queue_def List.map_filter_def
        parse_encoded vault_in_range_def sample_vault_def)
  have pub: "fst (resolvePublisherForRenewal (qe_heartbeat ?env) (qe_now ?env) sample_queue_db
      (Some ''p'') ''o'' None (qe_executor ?env))"
    by (simp add: resolvePublisherForRenewal_def resolvePublisher_def sample_queue_def sample_queue_db_def
        truthy_def selectPublisherForProject_def assigned_publishers_def project_join_def
        selectPublisherForOrg_def org_publishers_def new_publisher_def isPublisherHealthy_def Let_def
        toPublisherInfo_def empty_db_def)
  have run: "is_ok (fst (executeRenewal (qe_exec ?env i) (qe_fee ?env i)
      (snd (resolvePublisherForRenewal a b c dd oo e (qe_executor ?env))) v))" for i a b c dd oo e v
    using st [of 1 v]
    by (auto simp: executeRenewal_def sample_queue_def sample_env_def resolvePublisherForRenewal_def
        numeral_3_eq_3 run_round_def Let_def is_ok_def split: sum.splits)
  define env where "env = ?env"
  define pr where "pr = resolvePublisherForRenewal (qe_heartbeat env) (qe_now env) sample_queue_db
      (Some ''p'') ''o'' None (qe_executor env)"
  obtain res where res: "fst (executeRenewal (qe_exec env ''j'') (qe_fee env ''j'') (snd pr) sample_vault) = Inr res"
    using run [of "''j''" "qe_heartbeat env" "qe_now env" sample_queue_db "Some ''p''" "''o''" None sample_vault]
    by (auto simp: is_ok_def pr_def env_def split: sum.splits)
  obtain p where p: "resolvePolicyForBlob sample_queue_db ''7'' = Inr p" "rp_autoRenewalEnabled p"
    "rp_policyId p = Some ''pol''" using pol by blast
  have sel: "rj_blobRegistrationId sample_job = ''r''" "rj_id sample_job = ''j''"
    by (simp_all add: sample_job_def new_job_def)
  have "verdict env sample_job sample_queue_db = (None, Some ''succeeded'', ''protected'')"
    using reg p vault pub res
    by (simp add: verdict_def sel new_blob_def split_beta truthy_def env_def [symmetric] pr_def [symmetric] Let_def)
  with execution_refines_verdict [OF bs js, of env] show ?thesis by (simp add: env_def blob_end_def)
qed

text \<open>
  C3: processing a job touches nothing else: the rows of other jobs and of other blobs, the
  configuration (policies, assignments, wallets, budgets, limits, publishers, costs) and the keys of
  all rows are as before, whatever the executor does and wherever an exception is thrown.
\<close>

theorem process_job_touches_only_job:
  "touches_only (rj_id job) (rj_blobRegistrationId job) d (oc_db (process_job env job d))"
  by (rule frame_process_job)

text \<open>
  A scheduled retry is never run: a job whose row is retrying passes the selection but not the
  claim, which only takes pending rows, so that processing it submits nothing and changes nothing.
\<close>

theorem retrying_job_never_runs:
  assumes "rj_status job = ''retrying''" and "job_state job ''retrying'' d"
    and "sibling d job ''succeeded'' = None" and "sibling d job ''in_progress'' = None"
  shows "oc_db (process_job env job d) = d \<and> oc_runs (process_job env job d) = []
    \<and> oc_error (process_job env job d) = None"
  using retrying_not_claimed [OF assms(1,3,4,2), of env] by simp

theorem retrying_job_never_runs_witness:
  "\<exists>env job. runnable 1000 job
     \<and> oc_runs (process_job env job (empty_db\<lparr>db_jobs := [job]\<rparr>)) = []"
proof -
  let ?job = "sample_job\<lparr>rj_status := ''retrying'', rj_scheduledFor := Some 900\<rparr>"
  have "oc_runs (process_job (sample_queue (Inl (js_Error ''x''))) ?job (empty_db\<lparr>db_jobs := [?job]\<rparr>)) = []"
    by (rule conjunct1 [OF conjunct2 [OF retrying_job_never_runs]])
      (simp_all add: job_state_def sibling_def)
  moreover have "runnable 1000 ?job" by (simp add: runnable_def open_status_def)
  ultimately show ?thesis by blast
qed

text \<open>
  Once a blob has a succeeded job, no later job of it submits anything: processing it never
  reaches the executor, although every renewal period needs a transaction of its own.
\<close>

theorem renewed_blob_never_renewed_again:
  assumes "sibling d job ''succeeded'' \<noteq> None"
  shows "oc_runs (process_job env job d) = []"
  unfolding process_job_def
proof (rule budget_phase_runs)
  fix j :: job_row and d'
  assume j: "rj_id j = rj_id job" "rj_blobRegistrationId j = rj_blobRegistrationId job" "job_frame job d d'"
  then have "sibling d' j ''succeeded'' \<noteq> None"
    using assms sibling_cong [of job d' d j "''succeeded''"] by (simp add: touches_only_def)
  then show "oc_runs (guard_phase env j d' (execute_phase env j)) = []"
    using guard_sibling_succeeded by blast
qed

theorem renewed_blob_never_renewed_again_witness:
  "\<exists>d old job. db_jobs d = [old, job] \<and> rj_completedAt old = Some 1 \<and> rj_createdAt job = 999999999
     \<and> (\<forall>env. oc_runs (process_job env job d) = [])"
proof -
  let ?old = "sample_job\<lparr>rj_status := ''succeeded'', rj_completedAt := Some 1\<rparr>"
  let ?job = "sample_job\<lparr>rj_id := ''k'', rj_status := ''pending'', rj_createdAt := 999999999\<rparr>"
  let ?d = "empty_db\<lparr>db_jobs := [?old, ?job]\<rparr>"
  have "sibling ?d ?job ''succeeded'' \<noteq> None"
    by (simp add: sibling_def sample_job_def new_job_def)
  from renewed_blob_never_renewed_again [OF this]
  show ?thesis by (intro exI [of _ ?d] exI [of _ ?old] exI [of _ ?job]) simp
qed

text \<open>
  C7: the recovery resets exactly the stale jobs, counting an attempt, moves exactly the renewing
  blobs of these jobs back to expiring, and touches nothing else.
\<close>

theorem stale_recovery_spec:
  "db_jobs (recoverStaleInProgressJobs (Some ms) now d) =
       map (\<lambda>j. if is_stale (now - ms) j then recover_job now j else j) (db_jobs d)
   \<and> map bl_status (db_blobs (recoverStaleInProgressJobs (Some ms) now d)) =
       map (\<lambda>b. if bl_status b = ''renewing''
                    \<and> list_ex (\<lambda>j. is_stale (now - ms) j \<and> rj_blobRegistrationId j = bl_id b) (db_jobs d)
                then ''expiring'' else bl_status b) (db_blobs d)
   \<and> config_of (recoverStaleInProgressJobs (Some ms) now d) = config_of d
   \<and> filter (is_stale (now - ms)) (db_jobs (recoverStaleInProgressJobs (Some ms) now d)) = []"
proof -
  let ?p = "is_stale (now - ms)"
  let ?rs = "res_rows (update_returning ?p (recover_job now) (db_jobs d))"
  have blobs: "rj_blobRegistrationId ` set ?rs = rj_blobRegistrationId ` {j \<in> set (db_jobs d). ?p j}"
    by (auto simp: update_returning_def recover_job_def image_iff)
  then have mem: "bl_id b \<in> rj_blobRegistrationId ` set ?rs
      \<longleftrightarrow> list_ex (\<lambda>j. ?p j \<and> rj_blobRegistrationId j = bl_id b) (db_jobs d)" for b
    by (auto simp: list_ex_iff image_iff)
  have jobs: "db_jobs (recoverStaleInProgressJobs (Some ms) now d) =
      map (\<lambda>j. if ?p j then recover_job now j else j) (db_jobs d)"
    by (simp add: recoverStaleInProgressJobs_def Let_def stale_blobs sql_update_def)
  have "\<not> ?p (recover_job now j)" for j by (simp add: is_stale_def recover_job_def)
  then have "filter ?p (map (\<lambda>j. if ?p j then recover_job now j else j) (db_jobs d)) = []"
    by (auto simp: filter_empty_conv)
  with jobs show ?thesis
    unfolding mem [symmetric]
    by (simp add: recoverStaleInProgressJobs_def Let_def stale_blobs)
qed

text \<open>
  C8: a queue run takes at most twenty of the jobs that are estimated, pending or retrying and not scheduled for
  later, and the others that it could take come after them. A job comes after another only if its priority is not smaller, where
  a job without one counts as last; with the same priority, only if it is not scheduled earlier, where a job without a time
  counts as first; and with the same time, only if it was not created before.
\<close>

theorem queue_selection_spec:
  "\<exists>rest. mset (pendingJobs now d @ rest) = mset (filter (\<lambda>j.
        rj_status j \<in> {''estimated'', ''pending'', ''retrying''} \<and> pred_option (\<lambda>t. t \<le> now) (rj_scheduledFor j)) (db_jobs d))
     \<and> length (pendingJobs now d) \<le> 20 \<and> (rest \<noteq> [] \<longrightarrow> length (pendingJobs now d) = 20)
     \<and> sorted_wrt (\<lambda>a b.
         (\<forall>p. rj_priority b = Some p \<longrightarrow> (\<exists>q \<le> p. rj_priority a = Some q))
         \<and> (rj_priority a = rj_priority b \<longrightarrow>
             (\<forall>t. rj_scheduledFor a = Some t \<longrightarrow> (\<exists>u \<ge> t. rj_scheduledFor b = Some u))
             \<and> (rj_scheduledFor a = rj_scheduledFor b \<longrightarrow> rj_createdAt a \<le> rj_createdAt b))) (pendingJobs now d @ rest)"
proof -
  let ?s = "sort_by queue_le (filter (runnable now) (db_jobs d))"
  have eq: "pendingJobs now d @ drop 20 ?s = ?s" by (simp add: pendingJobs_def)
  have run: "filter (runnable now) (db_jobs d) = filter (\<lambda>j. rj_status j \<in> {''estimated'', ''pending'', ''retrying''}
      \<and> pred_option (\<lambda>t. t \<le> now) (rj_scheduledFor j)) (db_jobs d)"
    by (rule filter_cong) (auto simp: runnable_def open_status_def split: option.split)
  have order: "sorted_wrt (\<lambda>a b.
         (\<forall>p. rj_priority b = Some p \<longrightarrow> (\<exists>q \<le> p. rj_priority a = Some q))
         \<and> (rj_priority a = rj_priority b \<longrightarrow>
             (\<forall>t. rj_scheduledFor a = Some t \<longrightarrow> (\<exists>u \<ge> t. rj_scheduledFor b = Some u))
             \<and> (rj_scheduledFor a = rj_scheduledFor b \<longrightarrow> rj_createdAt a \<le> rj_createdAt b))) ?s"
    by (rule sorted_wrt_mono_rel [OF _ queue_order.sorted_sort])
      (auto simp: queue_le_def lex_le_def split: if_splits option.splits)
  have size: "length (pendingJobs now d) \<le> 20" "drop 20 ?s \<noteq> [] \<Longrightarrow> length (pendingJobs now d) = 20"
    by (simp_all add: pendingJobs_def)
  from order size show ?thesis unfolding run [symmetric] by (intro exI [of _ "drop 20 ?s"]) (simp add: eq)
qed

theorem queue_selection_spec_witness:
  "pendingJobs 5 (empty_db\<lparr>db_jobs := [(new_job ''a'' 0 ''o'' ''r'')\<lparr>rj_status := ''pending'', rj_priority := None\<rparr>,
       (new_job ''b'' 9 ''o'' ''s'')\<lparr>rj_status := ''estimated'', rj_priority := Some 7\<rparr>]\<rparr>)
   = [(new_job ''b'' 9 ''o'' ''s'')\<lparr>rj_status := ''estimated'', rj_priority := Some 7\<rparr>,
      (new_job ''a'' 0 ''o'' ''r'')\<lparr>rj_status := ''pending'', rj_priority := None\<rparr>]"
proof -
  define a where "a = (new_job ''a'' 0 ''o'' ''r'')\<lparr>rj_status := ''pending'', rj_priority := None\<rparr>"
  define b where "b = (new_job ''b'' 9 ''o'' ''s'')\<lparr>rj_status := ''estimated'', rj_priority := Some 7\<rparr>"
  let ?d = "empty_db\<lparr>db_jobs := [a, b]\<rparr>"
  have fs: "rj_status a = ''pending''" "rj_status b = ''estimated''" "rj_scheduledFor a = None" "rj_scheduledFor b = None"
    "rj_priority a = None" "rj_priority b = Some 7" by (simp_all add: a_def b_def new_job_def)
  have two: "xs = [a, b] \<or> xs = [b, a]" if "mset xs = {#a, b#}" for xs
  proof -
    from that have "length xs = 2" by (metis size_mset size_add_mset size_empty numeral_2_eq_2)
    then obtain x y where "xs = [x, y]" by (auto simp: length_Suc_conv numeral_2_eq_2)
    with that show ?thesis by (auto simp: add_eq_conv_ex)
  qed
  have runs: "filter (\<lambda>j. rj_status j \<in> {''estimated'', ''pending'', ''retrying''}
      \<and> pred_option (\<lambda>t. t \<le> 5) (rj_scheduledFor j)) (db_jobs ?d) = [a, b]" by (simp add: fs)
  obtain rest where rest: "mset (pendingJobs 5 ?d @ rest) = {#a, b#}" "rest \<noteq> [] \<longrightarrow> length (pendingJobs 5 ?d) = 20"
    "pendingJobs 5 ?d @ rest \<noteq> [a, b]"
  proof -
    from queue_selection_spec [of 5 ?d, unfolded runs] obtain r where r: "mset (pendingJobs 5 ?d @ r) = mset [a, b]"
      "r \<noteq> [] \<longrightarrow> length (pendingJobs 5 ?d) = 20" and s: "sorted_wrt (\<lambda>a b.
         (\<forall>p. rj_priority b = Some p \<longrightarrow> (\<exists>q \<le> p. rj_priority a = Some q))
         \<and> (rj_priority a = rj_priority b \<longrightarrow>
             (\<forall>t. rj_scheduledFor a = Some t \<longrightarrow> (\<exists>u \<ge> t. rj_scheduledFor b = Some u))
             \<and> (rj_scheduledFor a = rj_scheduledFor b \<longrightarrow> rj_createdAt a \<le> rj_createdAt b))) (pendingJobs 5 ?d @ r)"
      by blast
    have "pendingJobs 5 ?d @ r \<noteq> [a, b]"
    proof
      assume "pendingJobs 5 ?d @ r = [a, b]"
      from s [unfolded this] show False by (simp add: fs)
    qed
    with r that show thesis by simp
  qed
  from two [OF rest(1)] rest(3) have "pendingJobs 5 ?d @ rest = [b, a]" by blast
  moreover from arg_cong [OF this, of length] rest(2) have "rest = []" by auto
  ultimately show ?thesis by (simp add: a_def b_def)
qed

text \<open>
  The queue itself gives a blob a second succeeded job: one that finds another success of its blob is marked as succeeded too,
  although nothing was renewed for it.
\<close>

theorem second_success_marked:
  assumes "sibling d job ''succeeded'' = Some r" and "j \<in> set (db_jobs d)" and "rj_id j = rj_id job"
    and "rj_blobRegistrationId j = rj_blobRegistrationId job"
  shows "2 \<le> length (succeeded_jobs (rj_blobRegistrationId job) (db_jobs (oc_db (guard_phase env job d k))))"
proof -
  let ?f = "\<lambda>j. j\<lparr>rj_status := ''succeeded'', rj_completedAt := Some (qe_now env)\<rparr>"
  let ?js = "succeeded_jobs (rj_blobRegistrationId job) (sql_update (\<lambda>j. rj_id j = rj_id job) ?f (db_jobs d))"
  from assms(1) have r: "r \<in> set (db_jobs d)" "rj_blobRegistrationId r = rj_blobRegistrationId job" "rj_status r = ''succeeded''"
    "rj_id r \<noteq> rj_id job" by (auto simp: sibling_def dest!: first_row_filter_SomeD)
  then have "r \<in> set ?js" "?f j \<in> set ?js" "r \<noteq> ?f j"
    using assms(2-4) by (auto simp: succeeded_jobs_def set_sql_update image_iff intro: bexI [of _ r] bexI [of _ j])
  then have "card {r, ?f j} \<le> card (set ?js)" by (intro card_mono) auto
  also have "\<dots> \<le> length ?js" by (rule card_length)
  finally show ?thesis using \<open>r \<noteq> ?f j\<close> assms(1) by (simp add: guard_phase_def)
qed

text \<open>
  One job under a spending limit stops the whole queue: when the first selected job is waiting
  for its budget check and an active limit applies to it, the run is aborted before any job is
  executed and nothing changes, so that the same job leads the next run again.
\<close>

theorem limited_job_stops_queue:
  assumes "pendingJobs (qe_now env) d = job # rest"
    and "rj_status job = ''estimated'' \<or> rj_status job = ''pending''"
    and "find_blob d (rj_blobRegistrationId job) = Some reg"
    and "rj_estimatedAt job = None" and "rj_spendingLimitOverridden job \<noteq> Some True"
    and "getEffectiveSpendingLimits d (bl_orgId reg) (Some (bl_projectId reg)) (bl_walletId reg) None = l # ls"
  shows "oc_db (queue_loop env (pendingJobs (qe_now env) d) d) = d
    \<and> oc_runs (queue_loop env (pendingJobs (qe_now env) d) d) = []
    \<and> oc_error (queue_loop env (pendingJobs (qe_now env) d) d) \<noteq> None"
proof -
  have "or_default (rj_spendingLimitOverridden job) False = False"
    using assms(5) by (cases "rj_spendingLimitOverridden job") auto
  with assms have "process_job env job d =
      aborted (js_Error (''missing FROM-clause entry for table '' @ dq ''cr'')) d"
    by (auto simp: process_job_def budget_phase_def refresh_estimate_def checkBudgetBeforeExecution_def
        check_limits_fails simp del: check_limits.simps)
  with assms(1) show ?thesis by (simp add: Let_def)
qed

theorem limited_job_stops_queue_witness:
  "\<exists>env d. length (pendingJobs (qe_now env) d) = 2
     \<and> oc_runs (queue_loop env (pendingJobs (qe_now env) d) d) = []
     \<and> oc_error (queue_loop env (pendingJobs (qe_now env) d) d) \<noteq> None"
proof -
  let ?env = "sample_queue (Inl (js_Error ''x''))"
  let ?l = "\<lparr>sl_id = ''l'', sl_orgId = ''o'', sl_scope = ''organization'', sl_scopeTargetId = ''o'',
    sl_name = None, sl_amount = 1000000, sl_period = ''monthly'', sl_spent = 0, sl_status = ''active'',
    sl_pausedAt = None, sl_deletedAt = None, sl_createdAt = 0, sl_updatedAt = 0\<rparr>"
  let ?j = "sample_job\<lparr>rj_status := ''pending''\<rparr>"
  let ?k = "sample_job\<lparr>rj_id := ''k'', rj_status := ''pending'', rj_blobRegistrationId := ''other'', rj_priority := Some 90\<rparr>"
  let ?b = "new_blob ''r'' 0 ''o'' ''p'' ''7''"
  let ?d = "empty_db\<lparr>db_jobs := [?j, ?k], db_blobs := [?b], db_limits := [?l]\<rparr>"
  have p: "pendingJobs (qe_now ?env) ?d = [?j, ?k]"
    by (simp add: pendingJobs_def runnable_def open_status_def sample_job_def new_job_def queue_le_def lex_le_def)
  have "getEffectiveSpendingLimits ?d (bl_orgId ?b) (Some (bl_projectId ?b)) (bl_walletId ?b) None = [?l]"
    by (simp add: getEffectiveSpendingLimits_def new_blob_def empty_db_def truthy_def)
  from limited_job_stops_queue [OF p _ _ _ _ this]
  have "oc_runs (queue_loop ?env (pendingJobs (qe_now ?env) ?d) ?d) = []
     \<and> oc_error (queue_loop ?env (pendingJobs (qe_now ?env) ?d) ?d) \<noteq> None"
    by (simp add: find_blob_def sample_job_def new_job_def new_blob_def)
  with p show ?thesis by (intro exI [of _ ?env] exI [of _ ?d]) simp
qed

text \<open>
  The delay of a scheduled retry doubles from five seconds up to a minute: with random numbers
  in the unit interval it lies between half of this bound and the bound.
\<close>

theorem retry_backoff_bounds:
  assumes "0 \<le> qe_random env (rj_id job)" "qe_random env (rj_id job) < 1" "0 \<le> rj_attempt job"
  shows "2500 \<le> retry_backoff env job \<and> retry_backoff env job \<le> 60000
    \<and> retry_backoff env job \<le> 5000 * 2 ^ nat (rj_attempt job)"
proof -
  define b where "b = min (5000 * 2 ^ nat (rj_attempt job)) (60000 :: int)"
  have pow: "(1 :: int) \<le> 2 ^ nat (rj_attempt job)" by simp
  then have b: "5000 \<le> b" "b \<le> 60000" "b \<le> 5000 * 2 ^ nat (rj_attempt job)" by (simp_all add: b_def)
  have eq: "retry_backoff env job = jittered b (qe_random env (rj_id job))"
    by (simp add: retry_backoff_def next_attempt_def b_def)
  have "rat_of_int b * (1 / 2) \<le> rat_of_int b * (1 / 2 + qe_random env (rj_id job) * (1 / 2))"
    by (rule mult_left_mono) (use assms b in auto)
  moreover have "(2500 :: rat) \<le> rat_of_int b * (1 / 2)" using b(1) by simp
  ultimately have "2500 \<le> rat_of_int b * (1 / 2 + qe_random env (rj_id job) * (1 / 2)) + 1 / 2" by linarith
  then have "2500 \<le> jittered b (qe_random env (rj_id job))"
    unfolding jittered_def le_floor_iff by simp
  with jittered_bounds [of "qe_random env (rj_id job)" b] assms b show ?thesis by (simp add: eq)
qed

theorem retry_backoff_bounds_witness:
  "2500 \<le> retry_backoff (sample_queue (Inl (js_Error ''x''))) (sample_job\<lparr>rj_attempt := 9\<rparr>)"
  by (rule conjunct1 [OF retry_backoff_bounds]) (simp_all add: sample_queue_def)

end
