(* ===== verification/Circuit_Breaker.thy ===== *)
theory Circuit_Breaker
  imports App_Errors
begin

text \<open>
  The circuit breakers of \<open>keeper/src/circuit-breaker.ts\<close> and \<open>api/src/lib/circuit-breaker.ts\<close>.
  A call runs synchronously up to the protected function and again when that function settles, so
  each breaker is given by the two halves \<open>start\<close> and \<open>finish\<close>; a sequential call is their
  composition and interleaved calls are a step relation over the halves. The abstract breaker at the end is
  the contract both implement when calls do not overlap.
\<close>

section \<open>The keeper's breaker\<close>

datatype circuit_state = CLOSED | HALF_OPEN | OPEN

fun circuit_state_str :: "circuit_state \<Rightarrow> string" where
  "circuit_state_str CLOSED = ''CLOSED''"
| "circuit_state_str HALF_OPEN = ''HALF_OPEN''"
| "circuit_state_str OPEN = ''OPEN''"

fun state_to_num :: "circuit_state \<Rightarrow> int" where
  "state_to_num CLOSED = 0"
| "state_to_num HALF_OPEN = 1"
| "state_to_num OPEN = 2"

text \<open>
  The threshold and the timeout come from the configuration or from \<open>parseInt\<close> of an
  environment variable; \<open>None\<close> is \<open>NaN\<close>, which every comparison rejects. The metrics
  collector counts the transitions and keeps the last reported state.
\<close>

record kbreaker =
  kb_state :: circuit_state
  kb_failures :: int
  kb_last :: int
  kb_probing :: bool
  kb_threshold :: "int option"
  kb_timeout :: "int option"
  kb_transitions :: nat
  kb_gauge :: int

definition ge_num :: "int \<Rightarrow> int option \<Rightarrow> bool" where
  "ge_num x t = (case t of None \<Rightarrow> False | Some v \<Rightarrow> x \<ge> v)"

lemma ge_num_simps [simp]: "ge_num x None = False" "ge_num x (Some v) = (x \<ge> v)"
  by (simp_all add: ge_num_def)

definition env_num :: "int option \<Rightarrow> string option \<Rightarrow> string \<Rightarrow> int option" where
  "env_num cfg env dflt =
     (case cfg of Some v \<Rightarrow> Some v
      | None \<Rightarrow> parse_int (case truthy env of Some s \<Rightarrow> s | None \<Rightarrow> dflt))"

definition kb_new :: "int option \<Rightarrow> int option \<Rightarrow> string option \<Rightarrow> string option \<Rightarrow> kbreaker" where
  "kb_new threshold timeout env_threshold env_timeout =
     \<lparr>kb_state = CLOSED, kb_failures = 0, kb_last = 0, kb_probing = False,
      kb_threshold = env_num threshold env_threshold ''5'',
      kb_timeout = env_num timeout env_timeout ''30000'',
      kb_transitions = 0, kb_gauge = 0\<rparr>"

definition kb_transitionTo :: "circuit_state \<Rightarrow> kbreaker \<Rightarrow> kbreaker" where
  "kb_transitionTo s b =
     b\<lparr>kb_state := s, kb_transitions := kb_transitions b + 1, kb_gauge := state_to_num s\<rparr>"

definition kb_open_error :: "kbreaker \<Rightarrow> thrown" where
  "kb_open_error b =
     js_Error (''Circuit breaker is OPEN ('' @ show_int (kb_failures b) @ '' consecutive failures)'')"

definition kb_probing_error :: thrown where
  "kb_probing_error = js_Error ''Circuit breaker is currently probing. Try again later.''"

text \<open>The part of \<open>call\<close> before \<open>await fn()\<close>.\<close>

definition kb_start :: "int \<Rightarrow> kbreaker \<Rightarrow> (thrown + unit) \<times> kbreaker" where
  "kb_start now b =
     (let b1 = (if kb_state b = OPEN \<and> ge_num (now - kb_last b) (kb_timeout b)
                then kb_transitionTo HALF_OPEN b else b)
      in if kb_state b1 = OPEN then (Inl (kb_open_error b1), b1)
         else if kb_state b1 = HALF_OPEN
         then (if kb_probing b1 then (Inl kb_probing_error, b1)
               else (Inr (), b1\<lparr>kb_probing := True\<rparr>))
         else (Inr (), b1))"

text \<open>The part after \<open>fn\<close> settles, with the \<open>finally\<close> clause.\<close>

definition kb_finish :: "bool \<Rightarrow> int \<Rightarrow> kbreaker \<Rightarrow> kbreaker" where
  "kb_finish ok now b =
     (let b' =
        (if ok then
           (let b1 = (if kb_state b = HALF_OPEN then kb_transitionTo CLOSED b else b)
            in b1\<lparr>kb_failures := 0, kb_gauge := state_to_num (kb_state b1)\<rparr>)
         else
           (let b1 = b\<lparr>kb_failures := kb_failures b + 1\<rparr>;
                b2 = (if ge_num (kb_failures b1) (kb_threshold b1) \<and> kb_state b1 \<noteq> OPEN
                      then kb_transitionTo OPEN (b1\<lparr>kb_last := now\<rparr>) else b1)
            in b2\<lparr>kb_gauge := state_to_num (kb_state b2)\<rparr>))
      in b'\<lparr>kb_probing := False\<rparr>)"

definition kb_reset :: "kbreaker \<Rightarrow> kbreaker" where
  "kb_reset b =
     b\<lparr>kb_state := CLOSED, kb_failures := 0, kb_last := 0, kb_probing := False,
       kb_transitions := kb_transitions b + 1, kb_gauge := state_to_num CLOSED\<rparr>"

text \<open>A call with nothing in between: it starts at \<open>t0\<close>, and \<open>fn\<close> settles at \<open>t1\<close>.\<close>

definition kb_call :: "int \<Rightarrow> int \<Rightarrow> (thrown + 'a) \<Rightarrow> kbreaker \<Rightarrow> (thrown + 'a) \<times> kbreaker" where
  "kb_call t0 t1 r b =
     (case kb_start t0 b of
        (Inl e, b1) \<Rightarrow> (Inl e, b1)
      | (Inr _, b1) \<Rightarrow> (r, kb_finish (is_ok r) t1 b1))"

lemmas kb_defs = kb_start_def kb_finish_def kb_transitionTo_def kb_reset_def Let_def

section \<open>The API's breaker\<close>

record abreaker =
  ab_state :: circuit_state
  ab_failures :: int
  ab_last :: int
  ab_probing :: bool
  ab_threshold :: int
  ab_timeout :: int
  ab_label :: string

definition ab_new :: "int option \<Rightarrow> int option \<Rightarrow> string option \<Rightarrow> abreaker" where
  "ab_new threshold timeout label =
     \<lparr>ab_state = CLOSED, ab_failures = 0, ab_last = 0, ab_probing = False,
      ab_threshold = or_default threshold 5, ab_timeout = or_default timeout 30000,
      ab_label = or_default label ''default''\<rparr>"

definition ab_start :: "int \<Rightarrow> abreaker \<Rightarrow> (thrown + unit) \<times> abreaker" where
  "ab_start now b =
     (let b1 = (if ab_state b = OPEN \<and> now - ab_last b \<ge> ab_timeout b
                then b\<lparr>ab_state := HALF_OPEN\<rparr> else b)
      in if ab_state b1 = OPEN then
           (Inl (js_Error (''Circuit breaker is open for \"'' @ ab_label b1 @ ''\". Retry in ''
                   @ show_int (max 0 (ab_timeout b1 - (now - ab_last b1))) @ ''ms'')), b1)
         else if ab_state b1 = HALF_OPEN \<and> ab_probing b1 then
           (Inl (js_Error (''Circuit breaker is probing for \"'' @ ab_label b1
                   @ ''\". Try again later.'')), b1)
         else if ab_state b1 = HALF_OPEN then (Inr (), b1\<lparr>ab_probing := True\<rparr>)
         else (Inr (), b1))"

definition ab_onSuccess :: "abreaker \<Rightarrow> abreaker" where
  "ab_onSuccess b = b\<lparr>ab_state := CLOSED, ab_failures := 0\<rparr>"

definition ab_onFailure :: "int \<Rightarrow> abreaker \<Rightarrow> abreaker" where
  "ab_onFailure now b =
     (let b1 = b\<lparr>ab_failures := ab_failures b + 1, ab_last := now\<rparr>
      in if ab_state b1 = HALF_OPEN then b1\<lparr>ab_state := OPEN\<rparr>
         else if ab_failures b1 \<ge> ab_threshold b1 then b1\<lparr>ab_state := OPEN\<rparr>
         else b1)"

definition ab_finish :: "bool \<Rightarrow> int \<Rightarrow> abreaker \<Rightarrow> abreaker" where
  "ab_finish ok now b = (if ok then ab_onSuccess b else ab_onFailure now b)\<lparr>ab_probing := False\<rparr>"

definition ab_reset :: "abreaker \<Rightarrow> abreaker" where
  "ab_reset b = b\<lparr>ab_state := CLOSED, ab_failures := 0, ab_probing := False\<rparr>"

definition ab_execute ::
    "int \<Rightarrow> int \<Rightarrow> (thrown + 'a) \<Rightarrow> abreaker \<Rightarrow> (thrown + 'a) \<times> abreaker" where
  "ab_execute t0 t1 r b =
     (case ab_start t0 b of
        (Inl e, b1) \<Rightarrow> (Inl e, b1)
      | (Inr _, b1) \<Rightarrow> (r, ab_finish (is_ok r) t1 b1))"

lemmas ab_defs = ab_start_def ab_finish_def ab_onSuccess_def ab_onFailure_def ab_reset_def Let_def

section \<open>Overlapping calls\<close>

text \<open>
  Calls in flight are counted: a start that is admitted adds one, and any of them may settle next.
\<close>

inductive kb_step :: "kbreaker \<times> nat \<Rightarrow> kbreaker \<times> nat \<Rightarrow> bool" where
  kb_admit: "kb_start now b = (Inr (), b') \<Longrightarrow> kb_step (b, n) (b', n + 1)"
| kb_reject: "kb_start now b = (Inl e, b') \<Longrightarrow> kb_step (b, n) (b', n)"
| kb_settle: "kb_step (b, n + 1) (kb_finish ok now b, n)"
| kb_manual: "kb_step (b, n) (kb_reset b, n)"

inductive ab_step :: "abreaker \<times> nat \<Rightarrow> abreaker \<times> nat \<Rightarrow> bool" where
  ab_admit: "ab_start now b = (Inr (), b') \<Longrightarrow> ab_step (b, n) (b', n + 1)"
| ab_reject: "ab_start now b = (Inl e, b') \<Longrightarrow> ab_step (b, n) (b', n)"
| ab_settle: "ab_step (b, n + 1) (ab_finish ok now b, n)"
| ab_manual: "ab_step (b, n) (ab_reset b, n)"

text \<open>What holds however the calls overlap.\<close>

definition kb_inv :: "int \<Rightarrow> kbreaker \<Rightarrow> bool" where
  "kb_inv th b =
     (kb_threshold b = Some th \<and> 0 \<le> kb_failures b
      \<and> (kb_state b = CLOSED \<longrightarrow> kb_failures b < th)
      \<and> (kb_probing b \<longrightarrow> kb_state b = HALF_OPEN))"

definition ab_inv :: "abreaker \<Rightarrow> bool" where
  "ab_inv b =
     (0 < ab_threshold b \<and> 0 \<le> ab_failures b
      \<and> (ab_state b = CLOSED \<longrightarrow> ab_failures b < ab_threshold b)
      \<and> (ab_probing b \<longrightarrow> ab_state b = HALF_OPEN))"

text \<open>A step relation over a breaker and its calls in flight keeps an invariant of the breaker.\<close>

locale breaker_steps =
  fixes step :: "'b \<times> nat \<Rightarrow> 'b \<times> nat \<Rightarrow> bool"
    and start :: "int \<Rightarrow> 'b \<Rightarrow> (thrown + unit) \<times> 'b"
    and finish :: "bool \<Rightarrow> int \<Rightarrow> 'b \<Rightarrow> 'b"
    and reset :: "'b \<Rightarrow> 'b"
    and inv :: "'b \<Rightarrow> bool"
  assumes step_cases: "step (b, n) (b', n') \<Longrightarrow>
      (\<exists>now. b' = snd (start now b)) \<or> (\<exists>ok now. b' = finish ok now b) \<or> b' = reset b"
    and inv_start: "inv b \<Longrightarrow> inv (snd (start now b))"
    and inv_finish: "inv b \<Longrightarrow> inv (finish ok now b)"
    and inv_reset: "inv b \<Longrightarrow> inv (reset b)"
begin

lemma inv_step: "step s s' \<Longrightarrow> inv (fst s) \<Longrightarrow> inv (fst s')"
  using step_cases [of "fst s" "snd s" "fst s'" "snd s'"]
  by (auto intro: inv_start inv_finish inv_reset)

lemma inv_reachable: "step\<^sup>*\<^sup>* s s' \<Longrightarrow> inv (fst s) \<Longrightarrow> inv (fst s')"
  by (induction rule: rtranclp_induct) (auto dest: inv_step)

end

inductive_cases kb_stepE: "kb_step (b, n) (b', n')"
inductive_cases ab_stepE: "ab_step (b, n) (b', n')"

interpretation kb_run: breaker_steps kb_step kb_start kb_finish kb_reset
    "\<lambda>b. kb_inv th b \<and> 0 < th" for th
proof
  fix b n b' n'
  assume "kb_step (b, n) (b', n')"
  then show "(\<exists>now. b' = snd (kb_start now b)) \<or> (\<exists>ok now. b' = kb_finish ok now b) \<or> b' = kb_reset b"
    by (elim kb_stepE) (metis snd_conv, metis snd_conv, blast, blast)
next
  fix b now
  assume "kb_inv th b \<and> 0 < th"
  then show "kb_inv th (snd (kb_start now b)) \<and> 0 < th"
    by (auto simp: kb_inv_def kb_defs)
next
  fix b ok now
  assume "kb_inv th b \<and> 0 < th"
  then show "kb_inv th (kb_finish ok now b) \<and> 0 < th"
    by (cases "kb_state b") (auto simp: kb_inv_def kb_defs)
next
  fix b
  assume "kb_inv th b \<and> 0 < th"
  then show "kb_inv th (kb_reset b) \<and> 0 < th"
    by (auto simp: kb_inv_def kb_defs)
qed

interpretation ab_run: breaker_steps ab_step ab_start ab_finish ab_reset ab_inv
proof
  fix b n b' n'
  assume "ab_step (b, n) (b', n')"
  then show "(\<exists>now. b' = snd (ab_start now b)) \<or> (\<exists>ok now. b' = ab_finish ok now b) \<or> b' = ab_reset b"
    by (elim ab_stepE) (metis snd_conv, metis snd_conv, blast, blast)
next
  fix b now
  assume "ab_inv b"
  then show "ab_inv (snd (ab_start now b))"
    by (auto simp: ab_inv_def ab_defs)
next
  fix b ok now
  assume "ab_inv b"
  then show "ab_inv (ab_finish ok now b)"
    by (cases "ab_state b") (auto simp: ab_inv_def ab_defs)
next
  fix b
  assume "ab_inv b"
  then show "ab_inv (ab_reset b)"
    by (auto simp: ab_inv_def ab_defs)
qed

lemma kb_new_inv: "0 < th \<Longrightarrow> kb_inv th (kb_new (Some th) to e1 e2) \<and> 0 < th"
  by (simp add: kb_inv_def kb_new_def env_num_def)

lemma ab_new_inv: "0 < or_default th 5 \<Longrightarrow> ab_inv (ab_new th to l)"
  by (simp add: ab_inv_def ab_new_def)

text \<open>The probe flag is only up while some call is in flight.\<close>

lemma kb_probing_step:
  "kb_step s s' \<Longrightarrow> kb_probing (fst s) \<longrightarrow> 0 < snd s \<Longrightarrow> kb_probing (fst s') \<longrightarrow> 0 < snd s'"
  by (induction rule: kb_step.induct) (auto simp: kb_defs split: if_splits)

lemma kb_probing_reach:
  "kb_step\<^sup>*\<^sup>* s s' \<Longrightarrow> kb_probing (fst s) \<longrightarrow> 0 < snd s \<Longrightarrow> kb_probing (fst s') \<longrightarrow> 0 < snd s'"
  by (induction rule: rtranclp_induct) (auto dest: kb_probing_step)

lemma kb_timeout_step: "kb_step s s' \<Longrightarrow> kb_timeout (fst s') = kb_timeout (fst s)"
  by (induction rule: kb_step.induct) (auto simp: kb_defs split: if_splits)

lemma kb_timeout_reach: "kb_step\<^sup>*\<^sup>* s s' \<Longrightarrow> kb_timeout (fst s') = kb_timeout (fst s)"
  by (induction rule: rtranclp_induct) (auto dest: kb_timeout_step)

section \<open>The abstract breaker\<close>

text \<open>
  Closed with a number of consecutive failures, or open since a time. A call at \<open>t0\<close> whose
  function settles at \<open>t1\<close> is admitted or rejected.
\<close>

datatype abs_breaker = Closed int | Opened int

fun abs_call :: "int \<Rightarrow> int \<Rightarrow> int \<Rightarrow> int \<Rightarrow> bool \<Rightarrow> abs_breaker \<Rightarrow> bool \<times> abs_breaker" where
  "abs_call th tmo t0 t1 ok (Closed n) =
     (True, if ok then Closed 0 else if n + 1 \<ge> th then Opened t1 else Closed (n + 1))"
| "abs_call th tmo t0 t1 ok (Opened s) =
     (if t0 - s \<ge> tmo then (True, if ok then Closed 0 else Opened t1) else (False, Opened s))"

definition kb_try :: "int \<Rightarrow> int \<Rightarrow> bool \<Rightarrow> kbreaker \<Rightarrow> bool \<times> kbreaker" where
  "kb_try t0 t1 ok b =
     (is_ok (fst (kb_start t0 b)),
      snd (kb_call t0 t1 (if ok then Inr () else Inl (Prim [])) b))"

definition ab_try :: "int \<Rightarrow> int \<Rightarrow> bool \<Rightarrow> abreaker \<Rightarrow> bool \<times> abreaker" where
  "ab_try t0 t1 ok b =
     (is_ok (fst (ab_start t0 b)),
      snd (ab_execute t0 t1 (if ok then Inr () else Inl (Prim [])) b))"

fun run_calls ::
    "(int \<Rightarrow> int \<Rightarrow> bool \<Rightarrow> 'b \<Rightarrow> bool \<times> 'b) \<Rightarrow> (int \<times> int \<times> bool) list \<Rightarrow> 'b \<Rightarrow> bool list \<times> 'b" where
  "run_calls f [] b = ([], b)"
| "run_calls f ((t0, t1, ok) # cs) b =
     (let (adm, b') = f t0 t1 ok b; (adms, b'') = run_calls f cs b' in (adm # adms, b''))"

locale breaker_impl =
  fixes call :: "int \<Rightarrow> int \<Rightarrow> bool \<Rightarrow> 'b \<Rightarrow> bool \<times> 'b"
    and abs :: "'b \<Rightarrow> abs_breaker" and wf :: "'b \<Rightarrow> bool" and th :: int and tmo :: int
  assumes wf_call: "wf b \<Longrightarrow> wf (snd (call t0 t1 ok b))"
    and sim: "wf b \<Longrightarrow> abs_call th tmo t0 t1 ok (abs b) =
                (fst (call t0 t1 ok b), abs (snd (call t0 t1 ok b)))"
begin

lemma run_sim:
  "wf b \<Longrightarrow> run_calls (abs_call th tmo) cs (abs b) =
     (fst (run_calls call cs b), abs (snd (run_calls call cs b)))
   \<and> wf (snd (run_calls call cs b))"
proof (induction cs arbitrary: b)
  case Nil
  then show ?case by simp
next
  case (Cons c cs)
  obtain t0 t1 ok where c: "c = (t0, t1, ok)" by (cases c)
  have "wf (snd (call t0 t1 ok b))" using Cons.prems by (rule wf_call)
  from Cons.IH [OF this] sim [OF Cons.prems, of t0 t1 ok] c show ?case
    by (simp add: split_beta Let_def)
qed

end

definition kb_abs :: "kbreaker \<Rightarrow> abs_breaker" where
  "kb_abs b = (if kb_state b = CLOSED then Closed (kb_failures b) else Opened (kb_last b))"

definition kb_wf :: "int \<Rightarrow> int \<Rightarrow> kbreaker \<Rightarrow> bool" where
  "kb_wf th tmo b =
     (kb_threshold b = Some th \<and> kb_timeout b = Some tmo \<and> \<not> kb_probing b
      \<and> kb_state b \<noteq> HALF_OPEN
      \<and> (kb_state b = CLOSED \<longrightarrow> kb_failures b < th) \<and> (kb_state b = OPEN \<longrightarrow> th \<le> kb_failures b)
      \<and> 0 < th)"

definition ab_abs :: "abreaker \<Rightarrow> abs_breaker" where
  "ab_abs b = (if ab_state b = CLOSED then Closed (ab_failures b) else Opened (ab_last b))"

definition ab_wf :: "int \<Rightarrow> int \<Rightarrow> abreaker \<Rightarrow> bool" where
  "ab_wf th tmo b =
     (ab_threshold b = th \<and> ab_timeout b = tmo \<and> \<not> ab_probing b \<and> ab_state b \<noteq> HALF_OPEN
      \<and> (ab_state b = CLOSED \<longrightarrow> ab_failures b < th) \<and> 0 < th)"

interpretation kb_seq: breaker_impl kb_try kb_abs "kb_wf th tmo" th tmo for th tmo
proof
  fix b t0 t1 ok
  assume "kb_wf th tmo b"
  then show "kb_wf th tmo (snd (kb_try t0 t1 ok b))"
    by (cases "kb_state b") (auto simp: kb_wf_def kb_try_def kb_call_def kb_defs)
next
  fix b t0 t1 ok
  assume "kb_wf th tmo b"
  then show "abs_call th tmo t0 t1 ok (kb_abs b) =
      (fst (kb_try t0 t1 ok b), kb_abs (snd (kb_try t0 t1 ok b)))"
    by (cases "kb_state b") (auto simp: kb_wf_def kb_abs_def kb_try_def kb_call_def kb_defs)
qed

interpretation ab_seq: breaker_impl ab_try ab_abs "ab_wf th tmo" th tmo for th tmo
proof
  fix b t0 t1 ok
  assume "ab_wf th tmo b"
  then show "ab_wf th tmo (snd (ab_try t0 t1 ok b))"
    by (cases "ab_state b") (auto simp: ab_wf_def ab_try_def ab_execute_def ab_defs)
next
  fix b t0 t1 ok
  assume "ab_wf th tmo b"
  then show "abs_call th tmo t0 t1 ok (ab_abs b) =
      (fst (ab_try t0 t1 ok b), ab_abs (snd (ab_try t0 t1 ok b)))"
    by (cases "ab_state b") (auto simp: ab_wf_def ab_abs_def ab_try_def ab_execute_def ab_defs)
qed

lemma kb_new_wf: "0 < th \<Longrightarrow> kb_wf th tmo (kb_new (Some th) (Some tmo) e1 e2)"
  by (simp add: kb_wf_def kb_new_def env_num_def)

lemma ab_new_wf: "0 < th \<Longrightarrow> ab_wf th tmo (ab_new (Some th) (Some tmo) l)"
  by (simp add: ab_wf_def ab_new_def)

lemma kb_call_result: "fst (kb_call t0 t1 r b) = (case fst (kb_start t0 b) of Inl e \<Rightarrow> Inl e | Inr _ \<Rightarrow> r)"
  by (simp add: kb_call_def split: prod.split sum.split)

lemma kb_call_try: "snd (kb_call t0 t1 r b) = snd (kb_try t0 t1 (is_ok r) b)"
  by (simp add: kb_call_def kb_try_def split: prod.split sum.split)

lemma three_steps: "r a b \<Longrightarrow> r b c \<Longrightarrow> r c d \<Longrightarrow> r\<^sup>*\<^sup>* a d"
  by (meson rtranclp.rtrancl_into_rtrancl rtranclp.rtrancl_refl)

section \<open>Properties\<close>

text \<open>
  C9: as long as their calls do not overlap, the keeper's breaker and the API's breaker with the
  same positive threshold and the same timeout admit exactly the same calls and end in the same
  abstract state, which is the one of the abstract breaker.
\<close>

theorem breakers_refine:
  assumes "0 < th"
  shows "run_calls (abs_call th tmo) cs (Closed 0) =
           (fst (run_calls kb_try cs (kb_new (Some th) (Some tmo) e1 e2)),
            kb_abs (snd (run_calls kb_try cs (kb_new (Some th) (Some tmo) e1 e2))))
       \<and> run_calls (abs_call th tmo) cs (Closed 0) =
           (fst (run_calls ab_try cs (ab_new (Some th) (Some tmo) l)),
            ab_abs (snd (run_calls ab_try cs (ab_new (Some th) (Some tmo) l))))"
proof -
  let ?k = "kb_new (Some th) (Some tmo) e1 e2" and ?a = "ab_new (Some th) (Some tmo) l"
  have "kb_abs ?k = Closed 0" "ab_abs ?a = Closed 0"
    by (simp_all add: kb_abs_def ab_abs_def kb_new_def ab_new_def)
  then show ?thesis
    using kb_seq.run_sim [of th tmo ?k cs] ab_seq.run_sim [of th tmo ?a cs]
      kb_new_wf [OF assms] ab_new_wf [OF assms] by metis
qed

theorem breakers_refine_witness:
  "run_calls (abs_call 2 100) [(0, 1, False), (2, 3, False), (50, 51, True), (103, 104, True)] (Closed 0)
     = ([True, True, False, True], Closed 0)
   \<and> fst (run_calls kb_try [(0, 1, False), (2, 3, False), (50, 51, True), (103, 104, True)]
       (kb_new (Some 2) (Some 100) None None)) = [True, True, False, True]"
proof -
  let ?cs = "[(0, 1, False), (2, 3, False), (50, 51, True), (103, 104, True)]"
  have "run_calls (abs_call 2 100) ?cs (Closed 0) = ([True, True, False, True], Closed 0)" by simp
  with breakers_refine [of 2 100 ?cs None None None] show ?thesis by (metis fst_conv zero_less_numeral)
qed

text \<open>
  C13: however calls overlap and are reset, the keeper's breaker is closed only below its
  threshold, and once no call is in flight a call made at least the timeout after the last
  recorded failure is admitted: the breaker cannot stay wedged.
\<close>

theorem keeper_breaker_safe_live:
  assumes "0 < th" and "kb_step\<^sup>*\<^sup>* (kb_new (Some th) (Some tmo) e1 e2, 0) (b, n)"
  shows "(kb_state b = CLOSED \<longrightarrow> kb_failures b < th)
    \<and> (n = 0 \<and> now - kb_last b \<ge> tmo \<longrightarrow> is_ok (fst (kb_start now b)))"
proof -
  from kb_run.inv_reachable [OF assms(2)] kb_new_inv [OF assms(1)]
  have inv: "kb_inv th b" by simp
  have to: "kb_timeout b = Some tmo"
    using kb_timeout_reach [OF assms(2)] by (simp add: kb_new_def env_num_def)
  have pr: "kb_probing b \<longrightarrow> 0 < n"
    using kb_probing_reach [OF assms(2)] by (simp add: kb_new_def)
  show ?thesis
    using inv to pr by (cases "kb_state b") (auto simp: kb_inv_def kb_start_def kb_transitionTo_def Let_def)
qed

theorem keeper_breaker_safe_live_witness:
  "is_ok (fst (kb_start 200 (kb_finish False 7 (kb_new (Some 1) (Some 100) None None))))"
proof -
  let ?b = "kb_new (Some 1) (Some 100) None None"
  have "kb_step (?b, 0) (?b, 0 + 1)"
    by (rule kb_admit [of 0]) (simp add: kb_start_def kb_new_def)
  moreover have "kb_step (?b, 0 + 1) (kb_finish False 7 ?b, 0)" by (rule kb_settle)
  ultimately have "kb_step\<^sup>*\<^sup>* (?b, 0) (kb_finish False 7 ?b, 0)" by auto
  from keeper_breaker_safe_live [OF _ this, of 200] show ?thesis
    by (simp add: kb_finish_def kb_new_def env_num_def kb_transitionTo_def)
qed

text \<open>
  With overlapping calls a failed probe need not reopen the keeper's breaker: a call that was
  admitted earlier and succeeds while the breaker is open clears the failure count, and the
  failure of the next probe then leaves the breaker in HALF_OPEN, where it keeps admitting calls.
\<close>

theorem failed_probe_stays_half_open:
  "\<exists>b b'. kb_step\<^sup>*\<^sup>* (kb_new (Some 2) (Some 100) e1 e2, 0) (b, 1)
     \<and> kb_probing b \<and> kb_step (b, 1) (b', 0) \<and> b' = kb_finish False 205 b
     \<and> kb_state b' = HALF_OPEN \<and> is_ok (fst (kb_start 206 b'))"
proof -
  let ?b0 = "kb_new (Some 2) (Some 100) e1 e2"
  let ?b1 = "kb_finish True 3 (kb_finish False 2 (kb_finish False 1 ?b0))"
  let ?b2 = "snd (kb_start 200 ?b1)"
  have a: "kb_step (?b0, n) (?b0, n + 1)" for n
    by (rule kb_admit [of 0]) (simp add: kb_start_def kb_new_def)
  let ?c1 = "kb_finish False 1 ?b0"
  let ?c2 = "kb_finish False 2 ?c1"
  have x1: "kb_step\<^sup>*\<^sup>* (?b0, 0) (?b0, 0 + 1 + 1 + 1)"
    by (rule three_steps [of kb_step "(?b0, 0)" "(?b0, 0 + 1)" "(?b0, 0 + 1 + 1)", OF a a a])
  have x2: "kb_step\<^sup>*\<^sup>* (?b0, 0 + 1 + 1 + 1) (?b1, 0)"
    by (rule three_steps [of kb_step "(?b0, 0 + 1 + 1 + 1)" "(?c1, 0 + 1 + 1)" "(?c2, 0 + 1)",
          OF kb_settle kb_settle kb_settle])
  have x3: "kb_step (?b1, 0) (?b2, 0 + 1)"
    by (rule kb_admit [of 200])
      (simp add: kb_start_def kb_finish_def kb_new_def env_num_def kb_transitionTo_def)
  have "kb_step\<^sup>*\<^sup>* (?b0, 0) (?b2, 0 + 1)"
    by (rule rtranclp.rtrancl_into_rtrancl [OF rtranclp_trans [OF x1 x2] x3])
  then have r: "kb_step\<^sup>*\<^sup>* (?b0, 0) (?b2, 1)" by simp
  have "kb_probing ?b2 \<and> kb_state (kb_finish False 205 ?b2) = HALF_OPEN
      \<and> is_ok (fst (kb_start 206 (kb_finish False 205 ?b2)))"
    by (simp add: kb_start_def kb_finish_def kb_new_def env_num_def kb_transitionTo_def)
  moreover have "kb_step (?b2, 1) (kb_finish False 205 ?b2, 0)"
    using kb_settle [of ?b2 0] by simp
  ultimately show ?thesis using r by blast
qed

end
