(* ===== verification/Rpc_Pool.thy ===== *)
theory Rpc_Pool
  imports Circuit_Breaker "HOL-Library.Word"
begin

text \<open>
  The RPC endpoint pools: \<open>keeper/src/sui-pool.ts\<close>, which wraps each endpoint in the keeper's
  circuit breaker, and \<open>api/src/lib/sui-pool.ts\<close>, which keeps its own counters. The URL parser of
  the runtime is a parameter, the RPC client is the outcome it gives at each endpoint. A locale
  states what the failover loop needs of a breaker; it is interpreted on the keeper's breaker.
\<close>

unbundle bit_operations_syntax

section \<open>URL validation\<close>

definition PRIVATE_RANGES :: "(32 word \<times> 32 word) list" where
  "PRIVATE_RANGES =
     [(0x00000000, 0x00ffffff),
      (0x0a000000, 0x0affffff),
      (0x12700000, 0x127fffff),
      (0x64400000, 0x647fffff),
      (0x7f000000, 0x7fffffff),
      (0xa9fe0000, 0xa9feffff),
      (0xac100000, 0xac1fffff),
      (0xc0a80000, 0xc0a8ffff),
      (0xffff0000, 0xffffffff)]"

definition ip_numeric :: "int \<Rightarrow> int \<Rightarrow> int \<Rightarrow> int \<Rightarrow> 32 word" where
  "ip_numeric a b c d =
     (((push_bit 24 (word_of_int a) OR push_bit 16 (word_of_int b))
        OR push_bit 8 (word_of_int c)) OR word_of_int d)"

text \<open>The test on the four numbers; the dotted string is split and read by the caller below.\<close>

definition isPrivateIPv4 :: "int list \<Rightarrow> bool" where
  "isPrivateIPv4 parts =
     (case parts of
        [a, b, c, d] \<Rightarrow>
          (if list_ex (\<lambda>n. n < 0 \<or> n > 255) [a, b, c, d] then False
           else list_ex (\<lambda>(s, e). ip_numeric a b c d \<ge> s \<and> ip_numeric a b c d \<le> e) PRIVATE_RANGES)
      | _ \<Rightarrow> False)"

text \<open>\<open>/^\d{1,3}(\.\d{1,3}){3}$/\<close> and \<open>ip.split('.').map(Number)\<close>.\<close>

definition dotted_parts :: "string \<Rightarrow> string list" where
  "dotted_parts h = split_on CHR ''.'' h"

definition isIP :: "string \<Rightarrow> bool" where
  "isIP h =
     (let ps = dotted_parts h in
      length ps = 4 \<and> list_all (\<lambda>p. p \<noteq> [] \<and> length p \<le> 3 \<and> list_all is_digit p) ps)"

definition validateRpcUrl :: "(string \<Rightarrow> url option) \<Rightarrow> string \<Rightarrow> thrown + url" where
  "validateRpcUrl parse_url urlStr =
     (case parse_url urlStr of
        None \<Rightarrow> Inl (js_Error (''Invalid RPC URL: '' @ dq urlStr @ '' '' @ em_dash @ '' not a valid URL''))
      | Some parsed \<Rightarrow>
          (let hostname = u_hostname parsed in
           if u_protocol parsed \<noteq> ''https:'' \<and> hostname \<noteq> ''localhost'' \<and> hostname \<noteq> ''127.0.0.1''
           then Inl (js_Error (''Insecure RPC URL scheme '' @ dq (u_protocol parsed) @ '' for '' @ dq urlStr
                  @ ''. Only HTTPS is allowed (use localhost for local development).''))
           else if isIP hostname \<and> isPrivateIPv4 (map digits_val (dotted_parts hostname))
           then Inl (js_Error (''RPC URL '' @ dq urlStr @ '' resolves to a private IP range ''
                  @ em_dash @ '' blocked for SSRF protection.''))
           else Inr parsed))"

text \<open>\<open>s.trim()\<close> and the comma-separated environment variable.\<close>

definition trim_str :: "string \<Rightarrow> string" where
  "trim_str s =
     (let sp = (\<lambda>c. c \<in> {CHR '' '', CHR 0x09, CHR 0x0A, CHR 0x0B, CHR 0x0C, CHR 0x0D})
      in rev (dropWhile sp (rev (dropWhile sp s))))"

fun validate_all :: "(string \<Rightarrow> url option) \<Rightarrow> string list \<Rightarrow> thrown + string list" where
  "validate_all parse_url [] = Inr []"
| "validate_all parse_url (u # us) =
     bindE (validateRpcUrl parse_url u) (\<lambda>_.
       bindE (validate_all parse_url us) (\<lambda>vs. Inr (u # vs)))"

definition parseUrlsFromEnv ::
    "(string \<Rightarrow> url option) \<Rightarrow> string option \<Rightarrow> string option \<Rightarrow> thrown + string list" where
  "parseUrlsFromEnv parse_url env_urls env_url =
     (case truthy env_urls of
        Some raw \<Rightarrow>
          validate_all parse_url
            (filter (\<lambda>s. s \<noteq> []) (map trim_str (split_on CHR '','' raw)))
      | None \<Rightarrow>
          (let single = (case truthy env_url of Some s \<Rightarrow> s
                         | None \<Rightarrow> ''https://fullnode.testnet.sui.io:443'')
           in bindE (validateRpcUrl parse_url single) (\<lambda>_. Inr [single])))"

section \<open>The keeper's pool\<close>

record 'b pool_entry =
  pe_url :: string
  pe_breaker :: 'b

record 'b client_pool =
  cp_entries :: "'b pool_entry list"
  cp_index :: nat

definition kp_new ::
    "string list \<Rightarrow> int option \<Rightarrow> int option \<Rightarrow> thrown + kbreaker client_pool" where
  "kp_new urls threshold timeout =
     (if length urls = 0 then Inl (js_Error ''At least one RPC URL is required'')
      else Inr \<lparr>cp_entries = map (\<lambda>u. \<lparr>pe_url = u,
                   pe_breaker = kb_new (Some (or_default threshold 5))
                                  (Some (or_default timeout 30000)) None None\<rparr>) urls,
                cp_index = 0\<rparr>)"

definition kp_createPoolFromEnv ::
    "(string \<Rightarrow> url option) \<Rightarrow> string option \<Rightarrow> string option \<Rightarrow> string list option
     \<Rightarrow> int option \<Rightarrow> int option \<Rightarrow> thrown + kbreaker client_pool" where
  "kp_createPoolFromEnv parse_url env_urls env_url urls threshold timeout =
     bindE (case urls of Some us \<Rightarrow> Inr us | None \<Rightarrow> parseUrlsFromEnv parse_url env_urls env_url)
       (\<lambda>us. kp_new us threshold timeout)"

text \<open>
  The failover loop over the endpoint indices, in the order it visits them. \<open>brk_call i\<close> is the
  endpoint's breaker applied to the call of \<open>fn\<close> at endpoint \<open>i\<close>; the third result lists
  the endpoints whose breaker was asked.
\<close>

fun pool_loop ::
    "('b \<Rightarrow> bool) \<Rightarrow> ('b pool_entry \<Rightarrow> thrown) \<Rightarrow> (nat \<Rightarrow> 'b \<Rightarrow> (thrown + 'a) \<times> 'b) \<Rightarrow> nat list
     \<Rightarrow> 'b client_pool \<Rightarrow> thrown option \<Rightarrow> nat list \<Rightarrow> (thrown + 'a) \<times> 'b client_pool \<times> nat list" where
  "pool_loop is_open open_err brk_call [] p lastError asked =
     (Inl (case lastError of Some e \<Rightarrow> e | None \<Rightarrow> js_Error ''All Sui RPC endpoints failed''), p, asked)"
| "pool_loop is_open open_err brk_call (idx # rest) p lastError asked =
     (let entry = cp_entries p ! idx in
      if is_open (pe_breaker entry)
      then pool_loop is_open open_err brk_call rest p (Some (open_err entry)) asked
      else
        (let (r, b') = brk_call idx (pe_breaker entry);
             p' = p\<lparr>cp_entries := (cp_entries p)[idx := entry\<lparr>pe_breaker := b'\<rparr>]\<rparr>
         in case r of
              Inr v \<Rightarrow> (Inr v, p'\<lparr>cp_index := (idx + 1) mod length (cp_entries p)\<rparr>, asked @ [idx])
            | Inl e \<Rightarrow> pool_loop is_open open_err brk_call rest p' (Some e) (asked @ [idx])))"

definition visit_order :: "nat \<Rightarrow> nat \<Rightarrow> nat list" where
  "visit_order start n = map (\<lambda>i. (start + i) mod n) [0..<n]"

definition kp_open_error :: "kbreaker pool_entry \<Rightarrow> thrown" where
  "kp_open_error entry =
     js_Error (''Circuit breaker OPEN for '' @ pe_url entry @ '' (''
       @ show_int (kb_failures (pe_breaker entry)) @ '' failures)'')"

text \<open>What the RPC client does at an endpoint: when the call starts and settles, and its outcome.\<close>

type_synonym 'a rpc_run = "nat \<Rightarrow> int \<times> int \<times> (thrown + 'a)"

definition kp_brk_call :: "'a rpc_run \<Rightarrow> nat \<Rightarrow> kbreaker \<Rightarrow> (thrown + 'a) \<times> kbreaker" where
  "kp_brk_call run idx b = (let (t0, t1, r) = run idx in kb_call t0 t1 r b)"

definition kb_is_open :: "kbreaker \<Rightarrow> bool" where
  "kb_is_open b = (kb_state b = OPEN)"

definition kp_call ::
    "'a rpc_run \<Rightarrow> kbreaker client_pool \<Rightarrow> (thrown + 'a) \<times> kbreaker client_pool \<times> nat list" where
  "kp_call run p =
     pool_loop kb_is_open kp_open_error (kp_brk_call run)
       (visit_order (cp_index p) (length (cp_entries p))) p None []"

definition kp_resetAll :: "kbreaker client_pool \<Rightarrow> kbreaker client_pool" where
  "kp_resetAll p =
     p\<lparr>cp_entries := map (\<lambda>e. e\<lparr>pe_breaker := kb_reset (pe_breaker e)\<rparr>) (cp_entries p)\<rparr>"

section \<open>The API's pool\<close>

text \<open>The API compares the addresses as signed 32-bit numbers.\<close>

definition api_private_ranges :: "((int \<times> int \<times> int \<times> int) \<times> (int \<times> int \<times> int \<times> int)) list" where
  "api_private_ranges =
     [((10, 0, 0, 0), (10, 255, 255, 255)),
      ((172, 16, 0, 0), (172, 31, 255, 255)),
      ((192, 168, 0, 0), (192, 168, 255, 255)),
      ((127, 0, 0, 0), (127, 255, 255, 255)),
      ((169, 254, 0, 0), (169, 254, 255, 255))]"

fun ipToNum :: "int \<times> int \<times> int \<times> int \<Rightarrow> int" where
  "ipToNum (a, b, c, d) = sint (ip_numeric a b c d)"

definition api_isPrivateIPv4 :: "int \<times> int \<times> int \<times> int \<Rightarrow> bool" where
  "api_isPrivateIPv4 ip =
     list_ex (\<lambda>(s, e). ipToNum ip \<ge> ipToNum s \<and> ipToNum ip \<le> ipToNum e) api_private_ranges"

definition api_isIPv4 :: "string \<Rightarrow> bool" where
  "api_isIPv4 h =
     (let ps = dotted_parts h in
      length ps = 4 \<and> list_all (\<lambda>p. p \<noteq> [] \<and> list_all is_digit p) ps)"

definition api_validateRpcUrl :: "(string \<Rightarrow> url option) \<Rightarrow> string \<Rightarrow> thrown + string" where
  "api_validateRpcUrl parse_url u =
     (case parse_url u of
        None \<Rightarrow> Inl (js_Error (''Invalid RPC URL: '' @ u @ '' '' @ em_dash @ '' must be a valid URL''))
      | Some parsed \<Rightarrow>
          (let hostname = u_hostname parsed;
               ps = map digits_val (dotted_parts hostname)
           in if u_protocol parsed \<noteq> ''https:''
              then Inl (js_Error (''Invalid RPC URL: '' @ u @ '' '' @ em_dash
                           @ '' only HTTPS URLs are allowed''))
              else if hostname = ''localhost'' \<or> hostname = ''0.0.0.0''
              then Inl (js_Error (''Invalid RPC URL: '' @ u @ '' '' @ em_dash
                           @ '' localhost/private IPs are not allowed''))
              else if api_isIPv4 hostname \<and> api_isPrivateIPv4 (ps ! 0, ps ! 1, ps ! 2, ps ! 3)
              then Inl (js_Error (''Invalid RPC URL: '' @ u @ '' '' @ em_dash
                           @ '' private IPs are not allowed''))
              else Inr u))"

record api_entry =
  ae_url :: string
  ae_state :: circuit_state
  ae_failures :: int
  ae_last :: int

record api_pool =
  ap_entries :: "api_entry list"
  ap_threshold :: int
  ap_timeout :: int
  ap_index :: nat

fun ap_add_urls :: "(string \<Rightarrow> url option) \<Rightarrow> string list \<Rightarrow> api_entry list \<Rightarrow> thrown + api_entry list" where
  "ap_add_urls parse_url [] entries = Inr entries"
| "ap_add_urls parse_url (u # us) entries =
     (let trimmed = trim_str u in
      if trimmed = [] then ap_add_urls parse_url us entries
      else bindE (api_validateRpcUrl parse_url trimmed) (\<lambda>validated.
             ap_add_urls parse_url us
               (entries @ [\<lparr>ae_url = validated, ae_state = CLOSED, ae_failures = 0, ae_last = 0\<rparr>])))"

definition ap_new ::
    "(string \<Rightarrow> url option) \<Rightarrow> string list \<Rightarrow> int option \<Rightarrow> int option \<Rightarrow> thrown + api_pool" where
  "ap_new parse_url urls threshold timeout =
     bindE (ap_add_urls parse_url urls []) (\<lambda>entries.
       Inr \<lparr>ap_entries =
              (if entries = []
               then [\<lparr>ae_url = ''https://fullnode.testnet.sui.io:443'', ae_state = CLOSED,
                       ae_failures = 0, ae_last = 0\<rparr>]
               else entries),
            ap_threshold = or_default threshold 3, ap_timeout = or_default timeout 30000,
            ap_index = 0\<rparr>)"

text \<open>The environment variables as the API's factory reads them.\<close>

definition ap_createPoolFromEnv ::
    "(string \<Rightarrow> url option) \<Rightarrow> string option \<Rightarrow> string option \<Rightarrow> thrown + api_pool" where
  "ap_createPoolFromEnv parse_url env_urls env_url =
     (let raw = (case truthy env_urls of Some s \<Rightarrow> s | None \<Rightarrow> or_default (truthy env_url) [])
      in ap_new parse_url (filter (\<lambda>s. s \<noteq> []) (map trim_str (split_on CHR '','' raw))) None None)"

definition ap_available :: "int \<Rightarrow> api_pool \<Rightarrow> api_entry \<Rightarrow> bool" where
  "ap_available now p e = (ae_state e = CLOSED \<or> now - ae_last e \<ge> ap_timeout p)"

text \<open>Entries whose cool-down has passed are closed again while they are collected.\<close>

definition ap_getAvailable :: "int \<Rightarrow> api_pool \<Rightarrow> nat list \<times> api_pool" where
  "ap_getAvailable now p =
     (filter (\<lambda>i. ap_available now p (ap_entries p ! i)) [0..<length (ap_entries p)],
      p\<lparr>ap_entries := map (\<lambda>e. if ap_available now p e then e\<lparr>ae_state := CLOSED\<rparr> else e)
                         (ap_entries p)\<rparr>)"

definition ap_recordFailure :: "int \<Rightarrow> int \<Rightarrow> api_entry \<Rightarrow> api_entry" where
  "ap_recordFailure threshold now e =
     (let e1 = e\<lparr>ae_failures := ae_failures e + 1, ae_last := now\<rparr>
      in if ae_failures e1 \<ge> threshold then e1\<lparr>ae_state := OPEN\<rparr> else e1)"

definition ap_update :: "nat \<Rightarrow> (api_entry \<Rightarrow> api_entry) \<Rightarrow> api_pool \<Rightarrow> api_pool" where
  "ap_update i f p = p\<lparr>ap_entries := (ap_entries p)[i := f (ap_entries p ! i)]\<rparr>"

text \<open>\<open>run i\<close> is the time at which the call at endpoint \<open>i\<close> settles, its outcome, and whether
  the caller's signal is aborted then. A failed call yields the errors collected.\<close>

datatype pool_error = CircuitBroken | Aborted | Aggregate "thrown list"

fun ap_loop ::
    "(nat \<Rightarrow> int \<times> (thrown + 'a) \<times> bool) \<Rightarrow> nat list \<Rightarrow> api_pool \<Rightarrow> thrown list
     \<Rightarrow> (pool_error + 'a) \<times> api_pool" where
  "ap_loop run [] p errors = (Inl (Aggregate errors), p)"
| "ap_loop run (i # rest) p errors =
     (let (t, r, aborted) = run i in
      case r of
        Inr v \<Rightarrow>
          (Inr v, (ap_update i (\<lambda>e. e\<lparr>ae_failures := 0, ae_state := CLOSED\<rparr>) p)
                    \<lparr>ap_index := (ap_index p + 1) mod length (ap_entries p)\<rparr>)
      | Inl e \<Rightarrow>
          (let p' = ap_update i (ap_recordFailure (ap_threshold p) t) p
           in if aborted then (Inl Aborted, p')
              else ap_loop run rest p' (errors @ [as_error e])))"

definition ap_call ::
    "int \<Rightarrow> (nat \<Rightarrow> int \<times> (thrown + 'a) \<times> bool) \<Rightarrow> api_pool \<Rightarrow> (pool_error + 'a) \<times> api_pool" where
  "ap_call now run p =
     (let (avail, p1) = ap_getAvailable now p in
      if avail = [] then (Inl CircuitBroken, p1)
      else
        ap_loop run
          (map (\<lambda>k. avail ! k) (visit_order (ap_index p1 mod length avail) (length avail))) p1 [])"

section \<open>The address arithmetic\<close>

lemma bit_small_int: "0 \<le> b \<Longrightarrow> b < 2 ^ k \<Longrightarrow> k \<le> n \<Longrightarrow> \<not> bit (b :: int) n"
  by (metis bit_take_bit_iff not_less take_bit_int_eq_self)

lemma ip_numeric_sum:
  assumes "0 \<le> a" "a \<le> 255" "0 \<le> b" "b \<le> 255" "0 \<le> c" "c \<le> 255" "0 \<le> d" "d \<le> 255"
  shows "ip_numeric a b c d = word_of_int (a * 2 ^ 24 + b * 2 ^ 16 + c * 2 ^ 8 + d)"
proof -
  have b: "\<not> bit b n" "\<not> bit c n" "\<not> bit d n" if "8 \<le> n" for n
    using assms that bit_small_int [of b 8 n] bit_small_int [of c 8 n] bit_small_int [of d 8 n]
    by auto
  have "push_bit 24 a OR push_bit 16 b = push_bit 24 a + push_bit 16 (b :: int)"
    by (rule disjunctive_add [symmetric]) (auto simp: bit_push_bit_iff b)
  moreover have "(push_bit 24 a OR push_bit 16 b) OR push_bit 8 c
      = (push_bit 24 a OR push_bit 16 b) + push_bit 8 (c :: int)"
    by (rule disjunctive_add [symmetric]) (auto simp: bit_push_bit_iff bit_or_iff b)
  moreover have "((push_bit 24 a OR push_bit 16 b) OR push_bit 8 c) OR d
      = ((push_bit 24 a OR push_bit 16 b) OR push_bit 8 c) + (d :: int)"
    by (rule disjunctive_add [symmetric]) (auto simp: bit_push_bit_iff bit_or_iff b)
  ultimately have "((push_bit 24 a OR push_bit 16 b) OR push_bit 8 c) OR d
      = a * 2 ^ 24 + b * 2 ^ 16 + c * 2 ^ 8 + d"
    by (simp add: push_bit_eq_mult)
  moreover have "ip_numeric a b c d = word_of_int (((push_bit 24 a OR push_bit 16 b) OR push_bit 8 c) OR d)"
    by (simp only: ip_numeric_def of_int_or_eq push_bit_of_int)
  ultimately show ?thesis by simp
qed

lemma uint_ip_numeric:
  assumes "0 \<le> a" "a \<le> 255" "0 \<le> b" "b \<le> 255" "0 \<le> c" "c \<le> 255" "0 \<le> d" "d \<le> 255"
  shows "uint (ip_numeric a b c d) = a * 2 ^ 24 + b * 2 ^ 16 + c * 2 ^ 8 + d"
proof -
  have "(a * 2 ^ 24 + b * 2 ^ 16 + c * 2 ^ 8 + d) mod 2 ^ 32 = a * 2 ^ 24 + b * 2 ^ 16 + c * 2 ^ 8 + d"
    using assms by (intro mod_pos_pos_trivial) auto
  then show ?thesis by (simp only: ip_numeric_sum [OF assms] uint_word_of_int len_num1 len_bit0 len_num0) simp
qed

definition octet :: "int \<Rightarrow> bool" where
  "octet n = (0 \<le> n \<and> n \<le> 255)"

lemma ip_le_iff:
  assumes "octet a" "octet b" "octet c" "octet d"
  shows "w \<le> ip_numeric a b c d \<longleftrightarrow> uint w \<le> a * 16777216 + b * 65536 + c * 256 + d"
    "ip_numeric a b c d \<le> w \<longleftrightarrow> a * 16777216 + b * 65536 + c * 256 + d \<le> uint w"
  using assms uint_ip_numeric [of a b c d] by (simp_all add: word_le_def octet_def)

lemma range8:
  assumes "octet a" "octet b" "octet c" "octet d"
  shows "s * 16777216 \<le> a * 16777216 + b * 65536 + c * 256 + d
     \<and> a * 16777216 + b * 65536 + c * 256 + d \<le> s * 16777216 + 16777215 \<longleftrightarrow> a = s"
  using assms unfolding octet_def by (intro iffI conjI; linarith)

lemma range_second:
  assumes "octet a" "octet b" "octet c" "octet d" "octet l" "octet h"
  shows "s * 16777216 + l * 65536 \<le> a * 16777216 + b * 65536 + c * 256 + d
     \<and> a * 16777216 + b * 65536 + c * 256 + d \<le> s * 16777216 + h * 65536 + 65535
     \<longleftrightarrow> a = s \<and> l \<le> b \<and> b \<le> h"
proof -
  have "a = s" if "s * 16777216 + l * 65536 \<le> a * 16777216 + b * 65536 + c * 256 + d"
    "a * 16777216 + b * 65536 + c * 256 + d \<le> s * 16777216 + h * 65536 + 65535"
    using assms that unfolding octet_def by linarith
  moreover have "a = s \<Longrightarrow> ?thesis"
    using assms unfolding octet_def by (intro iffI conjI; (elim conjE)?; linarith)
  ultimately show ?thesis by blast
qed

lemma private_ipv4_iff:
  assumes "octet a" "octet b" "octet c" "octet d"
  shows "isPrivateIPv4 [a, b, c, d] \<longleftrightarrow>
     a = 0 \<or> a = 10 \<or> (a = 18 \<and> 112 \<le> b \<and> b \<le> 127) \<or> (a = 100 \<and> 64 \<le> b \<and> b \<le> 127)
     \<or> a = 127 \<or> (a = 169 \<and> b = 254) \<or> (a = 172 \<and> 16 \<le> b \<and> b \<le> 31) \<or> (a = 192 \<and> b = 168)
     \<or> (a = 255 \<and> b = 255)"
proof -
  note r8 = range8 [OF assms] and rs = range_second [OF assms]
  have o: "octet 112" "octet 127" "octet 64" "octet 254" "octet 16" "octet 31" "octet 168" "octet 255"
    by (simp_all add: octet_def)
  have main: "isPrivateIPv4 [a, b, c, d] \<longleftrightarrow>
      a = 0 \<or> a = 10 \<or> (a = 18 \<and> 112 \<le> b \<and> b \<le> 127) \<or> (a = 100 \<and> 64 \<le> b \<and> b \<le> 127)
      \<or> a = 127 \<or> (a = 169 \<and> 254 \<le> b \<and> b \<le> 254) \<or> (a = 172 \<and> 16 \<le> b \<and> b \<le> 31)
      \<or> (a = 192 \<and> 168 \<le> b \<and> b \<le> 168) \<or> (a = 255 \<and> 255 \<le> b)"
    using assms r8 [of 0] r8 [of 10] r8 [of 127] rs [OF o(1,2), of 18] rs [OF o(3,2), of 100]
      rs [OF o(4,4), of 169] rs [OF o(5,6), of 172] rs [OF o(7,7), of 192] rs [OF o(8,8), of 255]
    unfolding isPrivateIPv4_def PRIVATE_RANGES_def
    by (simp add: ip_le_iff [OF assms] octet_def)
  have e: "(254 \<le> b \<and> b \<le> 254) = (b = 254)" "(168 \<le> b \<and> b \<le> 168) = (b = 168)"
    "(255 \<le> b) = (b = 255)"
    using assms(2) by (auto simp: octet_def)
  show ?thesis unfolding main e ..
qed

lemma dotted_loopback:
  "isIP ''127.0.0.1'' \<and> isPrivateIPv4 (map digits_val (dotted_parts ''127.0.0.1''))"
proof -
  have p: "dotted_parts ''127.0.0.1'' = [''127'', ''0'', ''0'', ''1'']"
    by (simp add: dotted_parts_def)
  have "map digits_val [''127'', ''0'', ''0'', ''1''] = [127, 0, 0, 1]"
    by (simp add: digits_val_def digit_val_def)
  moreover have "isPrivateIPv4 [127, 0, 0, 1]"
    using private_ipv4_iff [of 127 0 0 1] by (simp add: octet_def)
  moreover have "isIP ''127.0.0.1''"
    by (simp add: isIP_def p is_digit_def)
  ultimately show ?thesis by (simp add: p)
qed

section \<open>The failover loop\<close>

text \<open>What the loop needs of a breaker: it does not make up a success.\<close>

locale endpoint_breaker =
  fixes is_open :: "'b \<Rightarrow> bool" and open_err :: "'b pool_entry \<Rightarrow> thrown"
    and admits :: "'b \<Rightarrow> bool"
    and brk_call :: "nat \<Rightarrow> 'b \<Rightarrow> (thrown + 'a) \<times> 'b" and outcome :: "nat \<Rightarrow> thrown + 'a"
  assumes no_invention: "fst (brk_call i b) = Inr v \<Longrightarrow> outcome i = Inr v"
    and admitted: "admits b \<Longrightarrow> \<not> is_open b \<and> fst (brk_call i b) = outcome i"
begin

lemma loop_succeeds:
  "\<lbrakk>distinct idxs; i \<in> set idxs; admits (pe_breaker (cp_entries p ! i)); is_ok (outcome i)\<rbrakk>
   \<Longrightarrow> is_ok (fst (pool_loop is_open open_err brk_call idxs p le asked))"
proof (induction idxs arbitrary: p le asked)
  case Nil
  then show ?case by simp
next
  case (Cons k idxs)
  obtain q b' where c: "brk_call k (pe_breaker (cp_entries p ! k)) = (q, b')" by fastforce
  show ?case
  proof (cases "k = i")
    case True
    with Cons.prems(3) c have "q = outcome i" "\<not> is_open (pe_breaker (cp_entries p ! k))"
      using admitted [of "pe_breaker (cp_entries p ! k)" k] by auto
    with Cons.prems(4) c True show ?thesis by (cases "outcome i") (auto simp: Let_def)
  next
    case False
    with Cons.prems have "i \<in> set idxs" by simp
    with Cons False c show ?thesis
      by (cases q) (simp_all add: Let_def)
  qed
qed

lemma loop_frame:
  assumes "pool_loop is_open open_err brk_call idxs p le asked = (r, p', asked')"
    and "is_open (pe_breaker (cp_entries p ! j))"
  shows "cp_entries p' ! j = cp_entries p ! j \<and> (j \<in> set asked' \<longrightarrow> j \<in> set asked)
    \<and> length (cp_entries p') = length (cp_entries p)"
  using assms
proof (induction idxs arbitrary: p le asked)
  case Nil
  then show ?case by simp
next
  case (Cons i idxs)
  show ?case
  proof (cases "is_open (pe_breaker (cp_entries p ! i))")
    case True
    with Cons show ?thesis by simp
  next
    case False
    then have ij: "i \<noteq> j" using Cons.prems(2) by auto
    obtain q b' where c: "brk_call i (pe_breaker (cp_entries p ! i)) = (q, b')" by fastforce
    let ?p = "p\<lparr>cp_entries := (cp_entries p)[i := (cp_entries p ! i)\<lparr>pe_breaker := b'\<rparr>]\<rparr>"
    show ?thesis
    proof (cases q)
      case (Inr v)
      with Cons.prems c False ij show ?thesis by (auto simp: Let_def)
    next
      case (Inl e)
      with Cons.prems c False
      have "pool_loop is_open open_err brk_call idxs ?p (Some e) (asked @ [i]) = (r, p', asked')"
        by (simp add: Let_def)
      from Cons.IH [OF this] Cons.prems(2) ij show ?thesis by auto
    qed
  qed
qed

lemma loop_first:
  "pool_loop is_open open_err brk_call idxs p le asked = (Inr v, p', asked') \<Longrightarrow> distinct idxs \<Longrightarrow>
   \<exists>xs i ys. idxs = xs @ i # ys \<and> \<not> is_open (pe_breaker (cp_entries p ! i)) \<and> outcome i = Inr v
     \<and> cp_index p' = (i + 1) mod length (cp_entries p)
     \<and> (\<forall>k \<in> set xs. admits (pe_breaker (cp_entries p ! k)) \<longrightarrow> \<not> is_ok (outcome k))"
proof (induction idxs arbitrary: p le asked)
  case Nil
  then show ?case by simp
next
  case (Cons i idxs)
  show ?case
  proof (cases "is_open (pe_breaker (cp_entries p ! i))")
    case True
    with Cons.prems have "pool_loop is_open open_err brk_call idxs p (Some (open_err (cp_entries p ! i))) asked = (Inr v, p', asked')"
      by simp
    from Cons.IH [OF this] Cons.prems(2) obtain xs k ys where "idxs = xs @ k # ys" "\<not> is_open (pe_breaker (cp_entries p ! k))"
      "outcome k = Inr v" "cp_index p' = (k + 1) mod length (cp_entries p)"
      "\<forall>k \<in> set xs. admits (pe_breaker (cp_entries p ! k)) \<longrightarrow> \<not> is_ok (outcome k)" by auto
    with True admitted show ?thesis by (intro exI [of _ "i # xs"] exI [of _ k] exI [of _ ys]) auto
  next
    case False
    obtain q b' where c: "brk_call i (pe_breaker (cp_entries p ! i)) = (q, b')" by fastforce
    let ?p = "p\<lparr>cp_entries := (cp_entries p)[i := (cp_entries p ! i)\<lparr>pe_breaker := b'\<rparr>]\<rparr>"
    show ?thesis
    proof (cases q)
      case (Inr w)
      with Cons.prems c False have "w = v" "cp_index p' = (i + 1) mod length (cp_entries p)"
        by (auto simp: Let_def)
      moreover have "outcome i = Inr w" using no_invention [of i "pe_breaker (cp_entries p ! i)" w] c Inr by simp
      ultimately show ?thesis using False by (intro exI [of _ "[]"] exI [of _ i] exI [of _ idxs]) simp
    next
      case (Inl e)
      with Cons.prems c False
      have "pool_loop is_open open_err brk_call idxs ?p (Some e) (asked @ [i]) = (Inr v, p', asked')"
        by (simp add: Let_def)
      from Cons.IH [OF this] Cons.prems(2) obtain xs k ys where k: "idxs = xs @ k # ys"
        "\<not> is_open (pe_breaker (cp_entries ?p ! k))" "outcome k = Inr v" "cp_index p' = (k + 1) mod length (cp_entries p)"
        "\<forall>k \<in> set xs. admits (pe_breaker (cp_entries ?p ! k)) \<longrightarrow> \<not> is_ok (outcome k)" by auto
      have same: "cp_entries ?p ! l = cp_entries p ! l" if "l \<in> set idxs" for l
        using that Cons.prems(2) by (cases "l = i") auto
      have "\<not> is_ok (outcome i)" if "admits (pe_breaker (cp_entries p ! i))"
        using admitted [OF that, of i] c Inl by (metis fst_conv is_ok_simps(2))
      with k same show ?thesis by (intro exI [of _ "i # xs"] exI [of _ k] exI [of _ ys]) auto
    qed
  qed
qed

end

interpretation kp: endpoint_breaker kb_is_open kp_open_error "\<lambda>b. kb_state b = CLOSED" "kp_brk_call run"
    "\<lambda>i. snd (snd (run i))" for run
proof
  fix i b v
  assume "fst (kp_brk_call run i b) = Inr v"
  then show "snd (snd (run i)) = Inr v"
    by (auto simp: kp_brk_call_def kb_call_def split: prod.splits sum.splits)
next
  fix i and b :: kbreaker
  assume "kb_state b = CLOSED"
  then show "\<not> kb_is_open b \<and> fst (kp_brk_call run i b) = snd (snd (run i))"
    by (auto simp: kb_is_open_def kp_brk_call_def kb_call_def kb_start_def split: prod.splits)
qed

fun kp_calls :: "'a rpc_run list \<Rightarrow> kbreaker client_pool \<Rightarrow> kbreaker client_pool" where
  "kp_calls [] p = p"
| "kp_calls (run # runs) p = kp_calls runs (fst (snd (kp_call run p)))"

lemma kp_calls_frame:
  "kb_is_open (pe_breaker (cp_entries p ! j)) \<Longrightarrow> cp_entries (kp_calls runs p) ! j = cp_entries p ! j"
proof (induction runs arbitrary: p)
  case Nil
  then show ?case by simp
next
  case (Cons run runs)
  obtain r p' a where c: "kp_call run p = (r, p', a)" by (cases "kp_call run p") auto
  from kp.loop_frame [OF c [unfolded kp_call_def] Cons.prems]
  have "cp_entries p' ! j = cp_entries p ! j" by blast
  with Cons c show ?case by simp
qed

lemma visit_order_perm: "0 < n \<Longrightarrow> distinct (visit_order s n) \<and> set (visit_order s n) = {0..<n}"
proof -
  assume n: "0 < n"
  have inj: "inj_on (\<lambda>i. (s + i) mod n) {0..<n}"
  proof (rule inj_onI)
    fix x y
    assume "x \<in> {0..<n}" "y \<in> {0..<n}" "(s + x) mod n = (s + y) mod n"
    then obtain q1 q2 where "s + x + n * q1 = s + y + n * q2" by (auto simp: nat_mod_eq_iff)
    then have "x + n * q1 = y + n * q2" by simp
    then have "x mod n = y mod n" by (metis mod_mult_self2)
    then show "x = y" using \<open>x \<in> {0..<n}\<close> \<open>y \<in> {0..<n}\<close> by simp
  qed
  have "(\<lambda>i. (s + i) mod n) ` {0..<n} = {0..<n}"
  proof (rule card_subset_eq)
    show "(\<lambda>i. (s + i) mod n) ` {0..<n} \<subseteq> {0..<n}" using n by auto
    show "card ((\<lambda>i. (s + i) mod n) ` {0..<n}) = card {0..<n}" by (rule card_image [OF inj])
  qed simp
  with inj show ?thesis by (simp add: visit_order_def distinct_map)
qed

lemma ap_loop_succeeds:
  "i \<in> set idxs \<Longrightarrow> is_ok (fst (snd (run i))) \<Longrightarrow> \<forall>k. \<not> snd (snd (run k)) \<Longrightarrow>
   is_ok (fst (ap_loop run idxs p errs))"
proof (induction idxs arbitrary: p errs)
  case Nil
  then show ?case by simp
next
  case (Cons k idxs)
  obtain t r a where c: "run k = (t, r, a)" by (cases "run k")
  moreover have "\<not> a" using Cons.prems(3) c by (metis snd_conv)
  ultimately show ?case using Cons by (cases r) (auto simp: Let_def)
qed

lemma all_open_call:
  assumes "list_all (\<lambda>e. kb_is_open (pe_breaker e)) (cp_entries p)"
  shows "\<not> is_ok (fst (kp_call run p)) \<and> snd (snd (kp_call run p)) = []"
proof -
  have skip: "\<forall>i \<in> set idxs. kb_is_open (pe_breaker (cp_entries p ! i)) \<Longrightarrow>
      \<not> is_ok (fst (pool_loop kb_is_open kp_open_error (kp_brk_call run) idxs p le asked))
      \<and> snd (snd (pool_loop kb_is_open kp_open_error (kp_brk_call run) idxs p le asked)) = asked"
    for idxs le asked
    by (induction idxs arbitrary: le) (auto simp: Let_def)
  have "\<forall>i \<in> set (visit_order (cp_index p) (length (cp_entries p))).
      kb_is_open (pe_breaker (cp_entries p ! i))"
    using assms visit_order_perm [of "length (cp_entries p)" "cp_index p"]
    by (cases "cp_entries p = []") (auto simp: list_all_length visit_order_def)
  from skip [OF this] show ?thesis by (simp add: kp_call_def)
qed

lemma kp_calls_length:
  "kb_is_open (pe_breaker (cp_entries p ! j)) \<Longrightarrow>
   length (cp_entries (kp_calls runs p)) = length (cp_entries p)"
proof (induction runs arbitrary: p)
  case Nil
  then show ?case by simp
next
  case (Cons run runs)
  obtain r p' a where c: "kp_call run p = (r, p', a)" by (cases "kp_call run p") auto
  from kp.loop_frame [OF c [unfolded kp_call_def] Cons.prems]
  have "cp_entries p' ! j = cp_entries p ! j" "length (cp_entries p') = length (cp_entries p)"
    by blast+
  with Cons c show ?case by simp
qed

lemma all_open_calls:
  assumes "list_all (\<lambda>e. kb_is_open (pe_breaker e)) (cp_entries p)"
  shows "cp_entries (kp_calls runs p) = cp_entries p"
proof (cases "cp_entries p = []")
  case True
  then show ?thesis
    by (induction runs arbitrary: p) (auto simp: kp_call_def visit_order_def)
next
  case False
  with assms have "kb_is_open (pe_breaker (cp_entries p ! 0))" by (auto simp: list_all_length)
  note len = kp_calls_length [OF this, of runs]
  show ?thesis
  proof (rule nth_equalityI)
    fix j
    assume "j < length (cp_entries (kp_calls runs p))"
    with assms len have "kb_is_open (pe_breaker (cp_entries p ! j))" by (simp add: list_all_length)
    then show "cp_entries (kp_calls runs p) ! j = cp_entries p ! j" by (rule kp_calls_frame)
  qed (rule len)
qed

section \<open>Properties\<close>

text \<open>
  C10: the keeper's pool fails over in round-robin order. When some endpoint with a closed breaker answers, the call succeeds with
  the answer of an endpoint whose breaker is not open, and the position moves past it; every endpoint that comes before it,
  counting from the position of the pool, had failed, unless its breaker was not closed.
\<close>

theorem keeper_pool_failover:
  assumes "i < length (cp_entries p)" "kb_state (pe_breaker (cp_entries p ! i)) = CLOSED"
    and "is_ok (snd (snd (run i)))"
  shows "\<exists>v m. m < length (cp_entries p) \<and> fst (kp_call run p) = Inr v
    \<and> (let k = (cp_index p + m) mod length (cp_entries p)
       in snd (snd (run k)) = Inr v \<and> kb_state (pe_breaker (cp_entries p ! k)) \<noteq> OPEN
          \<and> cp_index (fst (snd (kp_call run p))) = (k + 1) mod length (cp_entries p))
    \<and> (\<forall>l < m. let k = (cp_index p + l) mod length (cp_entries p)
       in kb_state (pe_breaker (cp_entries p ! k)) = CLOSED \<longrightarrow> \<not> is_ok (snd (snd (run k))))"
proof -
  let ?n = "length (cp_entries p)" and ?order = "visit_order (cp_index p) (length (cp_entries p))"
  have n: "0 < ?n" using assms(1) by linarith
  note vo = visit_order_perm [OF n, of "cp_index p"]
  have "is_ok (fst (kp_call run p))"
    unfolding kp_call_def using vo assms by (intro kp.loop_succeeds [where i = i]) auto
  then obtain v p' a where c: "kp_call run p = (Inr v, p', a)" by (cases "kp_call run p"; cases "fst (kp_call run p)") auto
  from kp.loop_first [OF c [unfolded kp_call_def]] vo obtain xs k ys where k: "?order = xs @ k # ys"
    "\<not> kb_is_open (pe_breaker (cp_entries p ! k))" "snd (snd (run k)) = Inr v" "cp_index p' = (k + 1) mod ?n"
    "\<forall>k \<in> set xs. kb_state (pe_breaker (cp_entries p ! k)) = CLOSED \<longrightarrow> \<not> is_ok (snd (snd (run k)))" by blast
  let ?m = "length xs"
  have len: "length ?order = ?n" by (simp add: visit_order_def)
  have at: "?order ! l = (cp_index p + l) mod ?n" if "l < ?n" for l using that by (simp add: visit_order_def)
  have m: "?m < ?n" using len unfolding k(1) by simp
  have "k = (cp_index p + ?m) mod ?n" using at [OF m] unfolding k(1) by simp
  moreover have "(cp_index p + l) mod ?n \<in> set xs" if "l < ?m" for l
    using at [of l] m that unfolding k(1) by (simp add: nth_append) (metis nth_mem)
  ultimately show ?thesis using c k(2-5) m by (intro exI [of _ v] exI [of _ ?m]) (auto simp: Let_def kb_is_open_def)
qed

theorem keeper_pool_failover_witness:
  "\<exists>v p. kp_new [''https://a'', ''https://b''] None None = Inr p
     \<and> fst (kp_call (\<lambda>i. (0, 1, if i = 0 then Inl (js_Error ''down'') else Inr i)) p) = Inr v"
proof -
  obtain p where p: "kp_new [''https://a'', ''https://b''] None None = Inr p"
    by (simp add: kp_new_def)
  then have "1 < length (cp_entries p)" "kb_state (pe_breaker (cp_entries p ! 1)) = CLOSED"
    by (auto simp: kp_new_def kb_new_def)
  from keeper_pool_failover [OF this, of "\<lambda>i. (0, 1, if i = 0 then Inl (js_Error ''down'') else Inr i)"] p
  show ?thesis by auto
qed

text \<open>
  The keeper's pool never gives an open endpoint its probe: the failover loop skips it before
  its breaker can compare the time, so the endpoint keeps its state through any sequence of
  calls, and once every endpoint is open each later call fails, at any time, without a request.
\<close>

theorem keeper_pool_open_forever:
  assumes "list_all (\<lambda>e. kb_is_open (pe_breaker e)) (cp_entries p)"
  shows "cp_entries (kp_calls runs p) = cp_entries p
    \<and> \<not> is_ok (fst (kp_call run (kp_calls runs p)))
    \<and> snd (snd (kp_call run (kp_calls runs p))) = []"
  using all_open_calls [OF assms, of runs] all_open_call [of "kp_calls runs p" run] assms by simp

theorem keeper_pool_open_forever_witness:
  "\<not> is_ok (fst (kp_call (\<lambda>_. (1000000, 1000001, Inr ()))
      (kp_calls [] \<lparr>cp_entries = [\<lparr>pe_url = ''https://a'',
         pe_breaker = kb_finish False 5 (kb_new (Some 1) (Some 30000) None None)\<rparr>], cp_index = 0\<rparr>)))"
  using keeper_pool_open_forever [of "\<lparr>cp_entries = [\<lparr>pe_url = ''https://a'',
         pe_breaker = kb_finish False 5 (kb_new (Some 1) (Some 30000) None None)\<rparr>], cp_index = 0\<rparr>"
      "[]" "\<lambda>_. (1000000, 1000001, Inr ())"]
  by (simp add: kb_is_open_def kb_finish_def kb_new_def env_num_def kb_transitionTo_def)

text \<open>
  The API's pool recovers: an endpoint that was tripped is asked again once its cool-down has
  passed, so a call succeeds when such an endpoint answers and the caller does not abort.
\<close>

theorem api_pool_recovers:
  assumes "i < length (ap_entries p)" "now - ae_last (ap_entries p ! i) \<ge> ap_timeout p"
    and "is_ok (fst (snd (run i)))" "\<forall>k. \<not> snd (snd (run k))"
  shows "is_ok (fst (ap_call now run p))"
proof -
  define avail where "avail = fst (ap_getAvailable now p)"
  have i: "i \<in> set avail" using assms(1,2) by (auto simp: avail_def ap_getAvailable_def ap_available_def)
  then have n: "0 < length avail" by (cases avail) auto
  from i obtain k where k: "k < length avail" "avail ! k = i" by (auto simp: in_set_conv_nth)
  with visit_order_perm [OF n]
  have "i \<in> set (map (\<lambda>k. avail ! k) (visit_order s (length avail)))" for s by force
  with n assms(3,4) show ?thesis
    by (auto simp: ap_call_def split_beta Let_def avail_def intro!: ap_loop_succeeds [where i = i])
qed

theorem api_pool_recovers_witness:
  "is_ok (fst (ap_call 30005 (\<lambda>_. (30006, Inr (), False))
     \<lparr>ap_entries = [\<lparr>ae_url = ''https://a'', ae_state = OPEN, ae_failures = 3, ae_last = 5\<rparr>],
      ap_threshold = 3, ap_timeout = 30000, ap_index = 0\<rparr>))"
  by (rule api_pool_recovers [where i = 0]) simp_all

text \<open>
  The keeper's private-address test on four octets is membership in nine blocks; the block
  commented as 127.0.0.0/8 is really 18.112.0.0/12 (the true loopback block is listed separately).
\<close>

theorem private_ranges_decoded:
  assumes "octet a" "octet b" "octet c" "octet d"
  shows "isPrivateIPv4 [a, b, c, d] \<longleftrightarrow>
     a = 0 \<or> a = 10 \<or> (a = 18 \<and> 112 \<le> b \<and> b \<le> 127) \<or> (a = 100 \<and> 64 \<le> b \<and> b \<le> 127)
     \<or> a = 127 \<or> (a = 169 \<and> b = 254) \<or> (a = 172 \<and> 16 \<le> b \<and> b \<le> 31) \<or> (a = 192 \<and> b = 168)
     \<or> (a = 255 \<and> b = 255)"
  by (rule private_ipv4_iff [OF assms])

theorem private_ranges_decoded_witness:
  "isPrivateIPv4 [18, 112, 0, 1] \<and> \<not> isPrivateIPv4 [8, 8, 8, 8]"
  using private_ranges_decoded [of 18 112 0 1] private_ranges_decoded [of 8 8 8 8]
  by (simp add: octet_def)

text \<open>
  An RPC URL on host 127.0.0.1 is always rejected, whatever its scheme: the exception that the
  scheme check makes for local development is undone by the private-address check.
\<close>

theorem loopback_url_rejected:
  "parse_url u \<noteq> Some \<lparr>u_protocol = pr, u_hostname = ''127.0.0.1''\<rparr>
   \<or> \<not> is_ok (validateRpcUrl parse_url u)"
  using dotted_loopback by (auto simp: validateRpcUrl_def Let_def)

theorem loopback_url_rejected_witness:
  "\<not> is_ok (validateRpcUrl (\<lambda>_. Some \<lparr>u_protocol = ''http:'', u_hostname = ''127.0.0.1''\<rparr>)
      ''http://127.0.0.1:9000'')"
  using loopback_url_rejected [of "\<lambda>_. Some \<lparr>u_protocol = ''http:'', u_hostname = ''127.0.0.1''\<rparr>"
      "''http://127.0.0.1:9000''" "''http:''"] by simp

end
