(* ===== verification/Worker_Pool.thy ===== *)
theory Worker_Pool
  imports App_Errors
begin

text \<open>
  \<open>mapConcurrent\<close> of \<open>keeper/src/index.ts\<close>: workers that share one cursor over the items. JavaScript
  runs a worker without interruption from one \<open>await\<close> to the next, so a step is the completion of
  one call together with the taking of the next item; the steps of the workers interleave freely.
\<close>

section \<open>The pool\<close>

text \<open>A worker awaits the call for an index, has left its loop, or was rejected by its call.\<close>

datatype worker_state = Awaiting nat | Done | Rejected thrown

text \<open>\<open>wp_results\<close> is the array, with its holes; \<open>wp_calls\<close> logs the calls made.\<close>

record 'r pool =
  wp_next :: nat
  wp_results :: "'r option list"
  wp_workers :: "worker_state list"
  wp_calls :: "nat list"

text \<open>The head of the loop: the condition, the increment and the call.\<close>

definition take_item :: "nat \<Rightarrow> 'r pool \<Rightarrow> worker_state \<times> 'r pool" where
  "take_item n p =
     (if wp_next p < n
      then (Awaiting (wp_next p),
            p\<lparr>wp_next := wp_next p + 1, wp_calls := wp_calls p @ [wp_next p]\<rparr>)
      else (Done, p))"

fun spawn_workers :: "nat \<Rightarrow> nat \<Rightarrow> 'r pool \<Rightarrow> 'r pool" where
  "spawn_workers n 0 p = p"
| "spawn_workers n (Suc k) p =
     (let (w, p') = take_item n p in spawn_workers n k (p'\<lparr>wp_workers := wp_workers p' @ [w]\<rparr>))"

text \<open>
  \<open>Array.from({ length: Math.min(concurrency, items.length) })\<close>: \<open>None\<close> is \<open>NaN\<close>, whose minimum is
  \<open>NaN\<close> and whose array is empty, as is that of a negative length.
\<close>

definition worker_count :: "int option \<Rightarrow> nat \<Rightarrow> nat" where
  "worker_count concurrency n =
     (case concurrency of None \<Rightarrow> 0 | Some c \<Rightarrow> nat (min c (int n)))"

definition start_pool :: "int option \<Rightarrow> nat \<Rightarrow> 'r pool" where
  "start_pool concurrency n =
     spawn_workers n (worker_count concurrency n)
       \<lparr>wp_next = 0, wp_results = replicate n None, wp_workers = [], wp_calls = []\<rparr>"

text \<open>The call awaited by worker \<open>w\<close> settles.\<close>

definition settle_worker :: "nat \<Rightarrow> (nat \<Rightarrow> thrown + 'r) \<Rightarrow> nat \<Rightarrow> nat \<Rightarrow> 'r pool \<Rightarrow> 'r pool" where
  "settle_worker n fn w i p =
     (case fn i of
        Inl e \<Rightarrow> p\<lparr>wp_workers := (wp_workers p)[w := Rejected e]\<rparr>
      | Inr r \<Rightarrow>
          (let (s, p') = take_item n (p\<lparr>wp_results := (wp_results p)[i := Some r]\<rparr>)
           in p'\<lparr>wp_workers := (wp_workers p')[w := s]\<rparr>))"

inductive pool_step :: "nat \<Rightarrow> (nat \<Rightarrow> thrown + 'r) \<Rightarrow> 'r pool \<Rightarrow> 'r pool \<Rightarrow> bool"
  for n :: nat and fn :: "nat \<Rightarrow> thrown + 'r" where
  settle: "w < length (wp_workers p) \<Longrightarrow> wp_workers p ! w = Awaiting i \<Longrightarrow>
    pool_step n fn p (settle_worker n fn w i p)"

inductive_cases pool_stepE: "pool_step n fn p p'"

text \<open>\<open>Promise.all\<close>: rejected as soon as one worker is, resolved when all have left their loops.\<close>

fun awaited_by :: "worker_state \<Rightarrow> nat list" where
  "awaited_by (Awaiting i) = [i]"
| "awaited_by Done = []"
| "awaited_by (Rejected e) = []"

definition awaiting :: "'r pool \<Rightarrow> nat list" where
  "awaiting p = concat (map awaited_by (wp_workers p))"

definition pool_result :: "'r pool \<Rightarrow> (thrown set + 'r option list) option" where
  "pool_result p =
     (let errs = {e. Rejected e \<in> set (wp_workers p)} in
      if errs \<noteq> {} then Some (Inl errs)
      else if awaiting p = [] then Some (Inr (wp_results p)) else None)"

section \<open>Invariant\<close>

text \<open>
  The calls so far are the first indices, once each and in order; each of them is either still
  awaited, by one worker only, or has left its result in its place, or was rejected.
\<close>

definition pool_inv :: "nat \<Rightarrow> (nat \<Rightarrow> thrown + 'r) \<Rightarrow> nat \<Rightarrow> 'r pool \<Rightarrow> bool" where
  "pool_inv n fn c p \<longleftrightarrow>
     wp_calls p = [0..<wp_next p] \<and> wp_next p \<le> n \<and> length (wp_results p) = n
     \<and> length (wp_workers p) = c \<and> distinct (awaiting p) \<and> set (awaiting p) \<subseteq> {..<wp_next p}
     \<and> (\<forall>i < n. wp_results p ! i =
          (if i < wp_next p \<and> i \<notin> set (awaiting p)
           then (case fn i of Inr r \<Rightarrow> Some r | Inl _ \<Rightarrow> None) else None))
     \<and> (Done \<in> set (wp_workers p) \<longrightarrow> wp_next p = n)
     \<and> (\<forall>e. Rejected e \<in> set (wp_workers p) \<longrightarrow> (\<exists>i < wp_next p. fn i = Inl e))"

lemma length_awaited: "length (concat (map awaited_by ws)) \<le> length ws"
proof (induction ws)
  case (Cons s ws)
  then show ?case by (cases s) simp_all
qed simp

text \<open>Replacing the state of an awaiting worker replaces its index.\<close>

lemma awaited_update:
  assumes "w < length ws" and "ws ! w = Awaiting i"
  obtains a b where "concat (map awaited_by ws) = a @ [i] @ b"
    "\<And>s. concat (map awaited_by (ws[w := s])) = a @ awaited_by s @ b"
    "\<And>s. set (ws[w := s]) \<subseteq> insert s (set ws)"
proof -
  let ?a = "concat (map awaited_by (take w ws))" and ?b = "concat (map awaited_by (drop (Suc w) ws))"
  have "ws = take w ws @ Awaiting i # drop (Suc w) ws"
    using id_take_nth_drop [OF assms(1)] assms(2) by simp
  then have "concat (map awaited_by ws) = ?a @ [i] @ ?b"
    by (metis append_Cons append_Nil awaited_by.simps(1) concat.simps(2) concat_append list.simps(9) map_append)
  moreover have "concat (map awaited_by (ws[w := s])) = ?a @ awaited_by s @ ?b" for s
    using assms(1) by (simp add: upd_conv_take_nth_drop)
  ultimately show thesis using that set_update_subset_insert by metis
qed

text \<open>What the invariant says when the call of \<open>i\<close> is awaited between the calls \<open>a\<close> and \<open>b\<close>.\<close>

lemma settle_facts:
  assumes "pool_inv n fn c p" and "concat (map awaited_by (wp_workers p)) = a @ [i] @ b"
  shows "i < wp_next p" "wp_next p \<le> n" "i \<notin> set a" "i \<notin> set b" "distinct (a @ b)" "set (a @ b) \<subseteq> {..<wp_next p}"
    "\<And>k. k < n \<Longrightarrow> wp_results p ! k =
      (if k < wp_next p \<and> k \<notin> set (a @ b) \<and> k \<noteq> i
       then (case fn k of Inr r \<Rightarrow> Some r | Inl _ \<Rightarrow> None) else None)"
  using assms by (auto simp: pool_inv_def awaiting_def)

lemma settle_takes_next:
  assumes inv: "pool_inv n fn c p"
    and ab: "concat (map awaited_by (wp_workers p)) = a @ [i] @ b"
      "\<And>s. concat (map awaited_by ((wp_workers p)[w := s])) = a @ awaited_by s @ b"
      "\<And>s. set ((wp_workers p)[w := s]) \<subseteq> insert s (set (wp_workers p))"
    and Inr: "fn i = Inr r" and True: "wp_next p < n"
  shows "pool_inv n fn c (settle_worker n fn w i p)"
proof -
  note i = settle_facts(1-6) [OF inv ab(1)] and old = settle_facts(7) [OF inv ab(1)]
  have len: "length (wp_results p) = n" using inv by (simp add: pool_inv_def)
  have eqs: "settle_worker n fn w i p =
      p\<lparr>wp_results := (wp_results p)[i := Some r], wp_next := Suc (wp_next p),
        wp_calls := wp_calls p @ [wp_next p], wp_workers := (wp_workers p)[w := Awaiting (wp_next p)]\<rparr>"
    "awaiting (settle_worker n fn w i p) = a @ wp_next p # b"
    using Inr True by (simp_all add: settle_worker_def take_item_def awaiting_def ab(2))
  have "(wp_results p)[i := Some r] ! k =
      (if k < Suc (wp_next p) \<and> k \<notin> set (a @ wp_next p # b)
       then (case fn k of Inr r \<Rightarrow> Some r | Inl _ \<Rightarrow> None) else None)" if "k < n" for k
    using old [OF that] i that Inr len by (auto simp: nth_list_update less_Suc_eq)
  moreover have "Rejected e \<in> set (wp_workers p)" if "Rejected e \<in> set ((wp_workers p)[w := Awaiting (wp_next p)])" for e
    using ab(3) [of "Awaiting (wp_next p)"] that by auto
  then have "\<exists>k < Suc (wp_next p). fn k = Inl e" if "Rejected e \<in> set ((wp_workers p)[w := Awaiting (wp_next p)])" for e
    using that inv unfolding pool_inv_def by (meson less_SucI)
  moreover have "Done \<notin> set ((wp_workers p)[w := Awaiting (wp_next p)])"
    using ab(3) [of "Awaiting (wp_next p)"] inv True by (auto simp: pool_inv_def)
  moreover have "distinct (a @ wp_next p # b)" "set (a @ wp_next p # b) \<subseteq> {..<Suc (wp_next p)}"
    using i(5,6) by auto
  ultimately show ?thesis
    unfolding pool_inv_def eqs(2) unfolding eqs(1) using inv True by (simp add: pool_inv_def)
qed

lemma pool_inv_settle:
  assumes inv: "pool_inv n fn c p" and w: "w < length (wp_workers p)" "wp_workers p ! w = Awaiting i"
  shows "pool_inv n fn c (settle_worker n fn w i p)"
proof -
  obtain a b where ab: "concat (map awaited_by (wp_workers p)) = a @ [i] @ b"
    "\<And>s. concat (map awaited_by ((wp_workers p)[w := s])) = a @ awaited_by s @ b"
    "\<And>s. set ((wp_workers p)[w := s]) \<subseteq> insert s (set (wp_workers p))"
    using awaited_update [OF w] by metis
  note i = settle_facts(1-6) [OF inv ab(1)] and old = settle_facts(7) [OF inv ab(1)]
  show ?thesis
  proof (cases "fn i")
    case (Inl e)
    have eqs: "settle_worker n fn w i p = p\<lparr>wp_workers := (wp_workers p)[w := Rejected e]\<rparr>"
      "awaiting (settle_worker n fn w i p) = a @ b"
      using Inl by (simp_all add: settle_worker_def awaiting_def ab(2))
    have "wp_results p ! k = (if k < wp_next p \<and> k \<notin> set (a @ b)
        then (case fn k of Inr r \<Rightarrow> Some r | Inl _ \<Rightarrow> None) else None)" if "k < n" for k
      using old [OF that] Inl by auto
    moreover have "Done \<in> set ((wp_workers p)[w := Rejected e]) \<Longrightarrow> wp_next p = n"
      "Rejected e' \<in> set ((wp_workers p)[w := Rejected e]) \<Longrightarrow> \<exists>k < wp_next p. fn k = Inl e'" for e'
      using ab(3) [of "Rejected e"] inv Inl i(1) by (auto simp: pool_inv_def)
    ultimately show ?thesis
      unfolding pool_inv_def eqs(2) unfolding eqs(1) using inv i by (simp add: pool_inv_def)
  next
    case (Inr r)
    have len: "length (wp_results p) = n" using inv by (simp add: pool_inv_def)
    show ?thesis
    proof (cases "wp_next p < n")
      case True
      show ?thesis by (rule settle_takes_next [OF inv ab Inr True])
    next
      case False
      have eqs: "settle_worker n fn w i p =
          p\<lparr>wp_results := (wp_results p)[i := Some r], wp_workers := (wp_workers p)[w := Done]\<rparr>"
        "awaiting (settle_worker n fn w i p) = a @ b"
        using Inr False by (simp_all add: settle_worker_def take_item_def awaiting_def ab(2))
      have "(wp_results p)[i := Some r] ! k =
          (if k < wp_next p \<and> k \<notin> set (a @ b)
           then (case fn k of Inr r \<Rightarrow> Some r | Inl _ \<Rightarrow> None) else None)" if "k < n" for k
        using old [OF that] i that Inr len by (auto simp: nth_list_update)
      moreover have "Rejected e \<in> set ((wp_workers p)[w := Done]) \<Longrightarrow> \<exists>k < wp_next p. fn k = Inl e" for e
        using ab(3) [of Done] inv by (auto simp: pool_inv_def)
      ultimately show ?thesis
        unfolding pool_inv_def eqs(2) unfolding eqs(1) using inv i False by (simp add: pool_inv_def)
    qed
  qed
qed

interpretation pool_run: step_invariant "pool_step n fn" "pool_inv n fn c" for n fn c
  by unfold_locales (auto elim!: pool_stepE intro: pool_inv_settle)

text \<open>What is left to do: the items not taken and the calls awaited. Every step settles one call.\<close>

definition pool_work :: "nat \<Rightarrow> 'r pool \<Rightarrow> nat" where
  "pool_work n p = (n - wp_next p) + length (awaiting p)"

lemma pool_work_step:
  assumes "pool_step n fn p p'"
  shows "pool_work n p = Suc (pool_work n p')"
  using assms
proof cases
  case (settle w i)
  then obtain a b where "concat (map awaited_by (wp_workers p)) = a @ [i] @ b"
    "\<And>s. concat (map awaited_by ((wp_workers p)[w := s])) = a @ awaited_by s @ b"
    using awaited_update by metis
  with settle show ?thesis
    by (auto simp: pool_work_def awaiting_def settle_worker_def take_item_def split: sum.split)
qed

lemma pool_work_run: "(pool_step n fn ^^ k) p p' \<Longrightarrow> pool_work n p = k + pool_work n p'"
  by (induction k arbitrary: p') (auto dest!: pool_work_step)

text \<open>The workers start with the first indices.\<close>

lemma spawn_start:
  assumes "wp_next p + k \<le> n"
  shows "spawn_workers n k p =
    p\<lparr>wp_next := wp_next p + k, wp_calls := wp_calls p @ [wp_next p..<wp_next p + k],
      wp_workers := wp_workers p @ map Awaiting [wp_next p..<wp_next p + k]\<rparr>"
  using assms
proof (induction k arbitrary: p)
  case (Suc k)
  then show ?case by (simp add: take_item_def upt_rec [of "wp_next p"])
qed simp

lemma awaited_map [simp]: "concat (map awaited_by (map Awaiting is)) = is"
  by (induction "is") simp_all

lemma worker_count_le: "worker_count c n \<le> n"
  by (auto simp: worker_count_def min_def split: option.split)

lemma start_pool_eq:
  "start_pool c n =
     \<lparr>wp_next = worker_count c n, wp_results = replicate n None,
      wp_workers = map Awaiting [0..<worker_count c n], wp_calls = [0..<worker_count c n]\<rparr>"
  by (simp add: start_pool_def spawn_start worker_count_le)

lemma start_inv: "pool_inv n fn (worker_count c n) (start_pool c n)"
  using worker_count_le [of c n]
  by (auto simp: start_pool_eq pool_inv_def awaiting_def simp del: map_map)

text \<open>Where calls succeed no worker is rejected, a result is there once no call is awaited, and it is the sequential one.\<close>

lemma no_rejection:
  assumes "pool_inv n fn c p" and "\<And>i. i < n \<Longrightarrow> is_ok (fn i)"
  shows "Rejected e \<notin> set (wp_workers p)"
proof
  assume "Rejected e \<in> set (wp_workers p)"
  with assms(1) obtain i where "i < wp_next p" "wp_next p \<le> n" "fn i = Inl e"
    unfolding pool_inv_def by blast
  with assms(2) [of i] show False by simp
qed

lemma pool_progress:
  assumes "\<And>e. Rejected e \<notin> set (wp_workers p)"
  shows "pool_result p = None \<longleftrightarrow> (\<exists>p'. pool_step n fn p p')"
proof
  assume "pool_result p = None"
  with assms have "awaiting p \<noteq> []" by (simp add: pool_result_def split: if_splits)
  then obtain s where "s \<in> set (wp_workers p)" "awaited_by s \<noteq> []"
    by (auto simp: awaiting_def)
  then obtain w i where "w < length (wp_workers p)" "wp_workers p ! w = Awaiting i"
    by (metis awaited_by.elims in_set_conv_nth)
  then show "\<exists>p'. pool_step n fn p p'" by (blast intro: settle)
next
  assume "\<exists>p'. pool_step n fn p p'"
  then obtain w i where "w < length (wp_workers p)" "wp_workers p ! w = Awaiting i"
    by (auto elim: pool_stepE)
  then have "awaiting p \<noteq> []" by (auto simp: awaiting_def) (metis awaited_by.simps(1) list.distinct(1) nth_mem)
  with assms show "pool_result p = None" by (simp add: pool_result_def)
qed

lemma pool_answer:
  assumes inv: "pool_inv n fn (worker_count (Some c) n) p" and "1 \<le> c"
    and ok: "\<And>i. i < n \<Longrightarrow> is_ok (fn i)" and r: "pool_result p = Some r"
  shows "r = Inr (map (\<lambda>i. Some (projr (fn i))) [0..<n])"
proof -
  note no_err = no_rejection [OF inv ok]
  from r no_err have a: "awaiting p = []" "r = Inr (wp_results p)"
    by (simp_all add: pool_result_def split: if_splits)
  have all: "wp_next p = n"
  proof (cases "wp_workers p")
    case Nil
    with inv assms(2) show ?thesis by (auto simp: pool_inv_def worker_count_def min_def split: if_splits)
  next
    case (Cons s ws)
    with a(1) no_err [of "case s of Rejected e \<Rightarrow> e | _ \<Rightarrow> undefined"] have "s = Done"
      by (cases s) (auto simp: awaiting_def)
    with Cons inv show ?thesis by (simp add: pool_inv_def)
  qed
  have "wp_results p ! i = Some (projr (fn i))" if "i < n" for i
  proof (cases "fn i")
    case Inl
    with ok [OF that] show ?thesis by simp
  qed (use inv a(1) all that in \<open>simp add: pool_inv_def\<close>)
  with inv have "wp_results p = map (\<lambda>i. Some (projr (fn i))) [0..<n]"
    by (intro nth_equalityI) (simp_all add: pool_inv_def)
  with a(2) show ?thesis by simp
qed

section \<open>Properties\<close>

text \<open>
  C20: with a concurrency of at least one and calls that succeed, every interleaving makes the calls in
  the order of the items, each once and at most the given number at a time, ends after at most one
  step per item, and then answers what the sequential loop over the items answers.
\<close>

theorem map_concurrent_equiv:
  assumes "(pool_step n fn ^^ k) (start_pool (Some c) n) p" and "1 \<le> c"
    and "list_all (\<lambda>i. is_ok (fn i)) [0..<n]"
  shows "wp_calls p = [0..<wp_next p] \<and> length (awaiting p) \<le> nat c \<and> k \<le> n
    \<and> (pool_result p = None \<longleftrightarrow> (\<exists>p'. pool_step n fn p p'))
    \<and> (case pool_result p of None \<Rightarrow> True | Some r \<Rightarrow> r = Inr (map (\<lambda>i. Some (projr (fn i))) [0..<n]))"
proof -
  have "(pool_step n fn)\<^sup>*\<^sup>* (start_pool (Some c) n) p" using assms(1) by (rule relpowp_imp_rtranclp)
  from pool_run.reachable [OF this start_inv] have inv: "pool_inv n fn (worker_count (Some c) n) p" .
  have ok: "\<And>i. i < n \<Longrightarrow> is_ok (fn i)" using assms(3) by (simp add: list_all_iff)
  have "pool_work n (start_pool (Some c) n :: 'a pool) = n"
    by (simp add: start_pool_eq pool_work_def awaiting_def worker_count_def del: map_map)
  with pool_work_run [OF assms(1)] have "k \<le> n" by simp
  moreover have "length (awaiting p) \<le> nat c"
    using length_awaited [of "wp_workers p"] inv
    by (simp add: pool_inv_def awaiting_def worker_count_def)
  ultimately show ?thesis
    using inv pool_progress [OF no_rejection [OF inv ok]] pool_answer [OF inv assms(2) ok]
    by (auto simp: pool_inv_def split: option.split)
qed

theorem map_concurrent_equiv_witness:
  "\<exists>k p. (pool_step 1 (\<lambda>i. Inr (i + 5) :: thrown + nat) ^^ k) (start_pool (Some 4) 1) p
     \<and> k = 1 \<and> pool_result p = Some (Inr [Some 5])"
proof -
  let ?fn = "\<lambda>i. Inr (i + 5) :: thrown + nat"
  let ?p = "settle_worker 1 ?fn 0 0 (start_pool (Some 4) 1)"
  have "pool_step 1 ?fn (start_pool (Some 4) 1) ?p"
    by (rule settle) (simp_all add: start_pool_eq worker_count_def)
  then have run: "(pool_step 1 ?fn ^^ 1) (start_pool (Some 4) 1) ?p" by auto
  have "pool_result ?p \<noteq> None"
    by (simp add: start_pool_eq worker_count_def settle_worker_def take_item_def pool_result_def awaiting_def)
  then obtain r where "pool_result ?p = Some r" by blast
  with map_concurrent_equiv [OF run] run show ?thesis by (intro exI [of _ 1] exI [of _ ?p]) simp
qed

text \<open>
  A concurrency that is no number starts no worker: the map answers at once with an array of holes
  and calls nothing.
\<close>

theorem nan_concurrency_calls_nothing:
  "wp_calls (start_pool None n :: 'r pool) = []
   \<and> pool_result (start_pool None n :: 'r pool) = Some (Inr (replicate n None))"
  by (simp add: start_pool_eq worker_count_def pool_result_def awaiting_def)

end
