(* ===== verification/Leader.thy ===== *)
theory Leader
  imports App_Errors
begin

text \<open>
  Leader election, \<open>keeper/src/leader.ts\<close>, and the flag of \<open>keeper/src/index.ts\<close> it drives. The lock
  is a PostgreSQL advisory lock: it belongs to a session, its holder may take it again, and it is
  released when the session unlocks it as often or ends. Each instance runs its statements on any
  connection of its pool, and the pool closes idle connections. An awaited statement is two steps, the server's and the one
  that its answer allows, and between them the steps of all instances interleave.
\<close>

section \<open>The advisory lock\<close>

text \<open>A session is a connection of an instance; the lock counts how often its holder took it.\<close>

type_synonym session = "nat \<times> nat"
type_synonym adv_lock = "(session \<times> nat) option"

definition try_lock :: "session \<Rightarrow> adv_lock \<Rightarrow> bool \<times> adv_lock" where
  "try_lock s l =
     (case l of
        None \<Rightarrow> (True, Some (s, 1))
      | Some (h, n) \<Rightarrow> if h = s then (True, Some (s, n + 1)) else (False, l))"

definition unlock :: "session \<Rightarrow> adv_lock \<Rightarrow> adv_lock" where
  "unlock s l =
     (case l of
        None \<Rightarrow> None
      | Some (h, n) \<Rightarrow> if h \<noteq> s then l else if n \<le> 1 then None else Some (h, n - 1))"

definition end_session :: "session \<Rightarrow> adv_lock \<Rightarrow> adv_lock" where
  "end_session s l = (case l of Some (h, n) \<Rightarrow> if h = s then None else l | None \<Rightarrow> None)"

definition held_by :: "nat \<Rightarrow> adv_lock \<Rightarrow> bool" where
  "held_by i l = (case l of Some ((j, c), n) \<Rightarrow> j = i | None \<Rightarrow> False)"

section \<open>The elector\<close>

record election_config =
  ec_lockId :: int
  ec_ttlMs :: int
  ec_renewIntervalMs :: int

definition default_election :: election_config where
  "default_election = \<lparr>ec_lockId = 20240722, ec_ttlMs = 60000, ec_renewIntervalMs = 30000\<rparr>"

text \<open>
  The fields of a \<open>LeaderElector\<close>; \<open>el_active\<close>, the variable \<open>isLeader\<close> of the keeper, which starts as true and which
  the two callbacks set; its \<open>shuttingDown\<close>; whether its pool is closed; and the asynchronous calls that are under way. A call
  of \<open>tryAcquire\<close> has asked for the lock, has its answer, or has recorded the leadership; a call of \<open>stop\<close> has asked for
  the release or has its answer; and the pool is being closed.
\<close>

datatype caller = ByStart | ByTimer | ByConfirm

datatype flight =
    Asked caller
  | Answered caller bool
  | Recorded caller
  | Unlocking
  | Unlocked
  | Closing

record elector =
  el_isLeader :: bool
  el_stopped :: bool
  el_confirmedAt :: int
  el_active :: bool
  el_shutting :: bool
  el_closed :: bool
  el_flight :: "flight list"

definition new_elector :: elector where
  "new_elector = \<lparr>el_isLeader = False, el_stopped = False, el_confirmedAt = 0, el_active = True,
     el_shutting = False, el_closed = False, el_flight = []\<rparr>"

record lock_row =
  lk_instance :: nat
  lk_lockId :: int
  lk_acquiredAt :: int
  lk_expiresAt :: int

record cluster =
  cl_electors :: "nat \<Rightarrow> elector"
  cl_lock :: adv_lock
  cl_rows :: "lock_row list"

definition on_elector :: "nat \<Rightarrow> (elector \<Rightarrow> elector) \<Rightarrow> cluster \<Rightarrow> cluster" where
  "on_elector i f s = s\<lparr>cl_electors := (cl_electors s)(i := f (cl_electors s i))\<rparr>"

text \<open>A call moves on: it is no longer where it was, and perhaps somewhere else.\<close>

definition move_call :: "flight list \<Rightarrow> flight list \<Rightarrow> elector \<Rightarrow> elector" where
  "move_call xs ys e = e\<lparr>el_flight := ys @ fold remove1 xs (el_flight e)\<rparr>"

definition setLeader :: "bool \<Rightarrow> elector \<Rightarrow> elector" where
  "setLeader b e =
     (if el_isLeader e \<noteq> b then e\<lparr>el_isLeader := b, el_active := b\<rparr> else e)"

text \<open>
  The row that records the leadership, and the two clean-ups of the table: the first \<open>k\<close> of the three statements succeed and
  the failure of the next is caught.
\<close>

definition recordLeadership :: "election_config \<Rightarrow> nat \<Rightarrow> int \<Rightarrow> nat \<Rightarrow> lock_row list \<Rightarrow> lock_row list" where
  "recordLeadership cfg i now k rows =
     fold (\<lambda>f. f) (take k
       [\<lambda>rs. rs @ [\<lparr>lk_instance = i, lk_lockId = ec_lockId cfg, lk_acquiredAt = now, lk_expiresAt = now + ec_ttlMs cfg\<rparr>],
        filter (\<lambda>r. \<not> lk_acquiredAt r < now - 3600000),
        filter (\<lambda>r. \<not> (lk_lockId r = ec_lockId cfg \<and> lk_instance r \<noteq> i \<and> lk_expiresAt r < now))]) rows"

subsection \<open>The steps of \<open>tryAcquire\<close>\<close>

text \<open>
  The server's part: \<open>ok\<close> says whether the statement for the lock succeeds on connection \<open>c\<close>; a failure, which a closed pool
  always gives, is caught and counts as a refusal.
\<close>

definition lock_query :: "nat \<Rightarrow> nat \<Rightarrow> bool \<Rightarrow> caller \<Rightarrow> cluster \<Rightarrow> cluster" where
  "lock_query i c ok w s =
     (case (if ok \<and> \<not> el_closed (cl_electors s i) then try_lock (i, c) (cl_lock s) else (False, cl_lock s)) of
        (acquired, l) \<Rightarrow> on_elector i (move_call [Asked w] [Answered w acquired]) (s\<lparr>cl_lock := l\<rparr>))"

definition record_call :: "election_config \<Rightarrow> nat \<Rightarrow> int \<Rightarrow> nat \<Rightarrow> caller \<Rightarrow> cluster \<Rightarrow> cluster" where
  "record_call cfg i now k w s =
     on_elector i (move_call [Answered w True] [Recorded w]) (s\<lparr>cl_rows := recordLeadership cfg i now k (cl_rows s)\<rparr>)"

definition tryAcquire_acquired :: "nat \<Rightarrow> int \<Rightarrow> caller \<Rightarrow> cluster \<Rightarrow> cluster" where
  "tryAcquire_acquired i now w s =
     on_elector i (\<lambda>e. (setLeader True (move_call [Recorded w] [] e))\<lparr>el_confirmedAt := now\<rparr>) s"

text \<open>
  What the callers do when the lock was refused: the start only logs it, the timer and the confirmation give the leadership up.
\<close>

definition tryAcquire_refused :: "nat \<Rightarrow> caller \<Rightarrow> cluster \<Rightarrow> cluster" where
  "tryAcquire_refused i w s =
     on_elector i (\<lambda>e. let e' = move_call [Answered w False] [] e
                      in if w = ByStart then e' else setLeader False e') s"

subsection \<open>The callers\<close>

definition start_election :: "nat \<Rightarrow> cluster \<Rightarrow> cluster" where
  "start_election i s = on_elector i (move_call [] [Asked ByStart]) s"

text \<open>The body of the renewal timer.\<close>

definition renew_election :: "nat \<Rightarrow> cluster \<Rightarrow> cluster" where
  "renew_election i s =
     (if el_stopped (cl_electors s i) then s else on_elector i (move_call [] [Asked ByTimer]) s)"

text \<open>A confirmation answers at once, or \<open>None\<close>: its answer is that of the call it makes.\<close>

definition confirmLeadership :: "election_config \<Rightarrow> nat \<Rightarrow> int \<Rightarrow> cluster \<Rightarrow> bool option \<times> cluster" where
  "confirmLeadership cfg i now s =
     (let e = cl_electors s i in
      if \<not> el_isLeader e then (Some False, s)
      else if el_stopped e then (Some False, s)
      else if 2 * (now - el_confirmedAt e) < ec_renewIntervalMs cfg then (Some True, s)
      else (None, on_elector i (move_call [] [Asked ByConfirm]) s))"

text \<open>\<open>msSinceLastConfirmation\<close>; \<open>None\<close> is \<open>Infinity\<close>.\<close>

definition msSinceLastConfirmation :: "int \<Rightarrow> elector \<Rightarrow> int option" where
  "msSinceLastConfirmation now e =
     (if el_confirmedAt e = 0 then None else Some (now - el_confirmedAt e))"

subsection \<open>The steps of \<open>stop\<close>, and the shutdown of the keeper\<close>

definition close_pool :: "nat \<Rightarrow> adv_lock \<Rightarrow> adv_lock" where
  "close_pool i l = (if held_by i l then None else l)"

definition stop_election :: "nat \<Rightarrow> cluster \<Rightarrow> cluster" where
  "stop_election i s =
     on_elector i (\<lambda>e. let e' = e\<lparr>el_stopped := True\<rparr>
                      in if el_isLeader e then move_call [] [Unlocking] e'
                         else move_call [] [Closing] (e'\<lparr>el_isLeader := False\<rparr>)) s"

definition unlock_query :: "nat \<Rightarrow> nat \<Rightarrow> bool \<Rightarrow> cluster \<Rightarrow> cluster" where
  "unlock_query i c ok s =
     on_elector i (move_call [Unlocking] [Unlocked])
       (s\<lparr>cl_lock := (if ok \<and> \<not> el_closed (cl_electors s i) then unlock (i, c) (cl_lock s) else cl_lock s)\<rparr>)"

definition stop_unlocked :: "nat \<Rightarrow> cluster \<Rightarrow> cluster" where
  "stop_unlocked i s = on_elector i (\<lambda>e. move_call [Unlocked] [Closing] (e\<lparr>el_isLeader := False\<rparr>)) s"

definition closeDb :: "nat \<Rightarrow> cluster \<Rightarrow> cluster" where
  "closeDb i s = on_elector i (\<lambda>e. move_call [Closing] [] (e\<lparr>el_closed := True\<rparr>)) (s\<lparr>cl_lock := close_pool i (cl_lock s)\<rparr>)"

text \<open>The keeper does not call \<open>stop\<close>: on a signal it clears its flag and closes the pool, and the elector is left as it is.\<close>

definition shutdown_keeper :: "nat \<Rightarrow> cluster \<Rightarrow> cluster" where
  "shutdown_keeper i s =
     on_elector i (\<lambda>e. if el_shutting e then e
                      else move_call [] [Closing] (e\<lparr>el_shutting := True, el_active := False\<rparr>)) s"

text \<open>The scan cycle of the keeper runs only while the flag is set.\<close>

definition runs_cycles :: "nat \<Rightarrow> cluster \<Rightarrow> bool" where
  "runs_cycles i s = el_active (cl_electors s i)"

section \<open>Instances side by side\<close>

definition fresh_cluster :: cluster where
  "fresh_cluster = \<lparr>cl_electors = (\<lambda>_. new_elector), cl_lock = None, cl_rows = []\<rparr>"

definition running :: "elector \<Rightarrow> bool" where
  "running e \<longleftrightarrow> \<not> el_stopped e \<and> \<not> el_shutting e"

text \<open>
  The steps of the cluster. \<open>drops\<close> says whether a connection may end otherwise than by the closing of its pool: idle for 20
  seconds, or lost. The timer may fire at any time, which is more than the code's interval allows.
\<close>

inductive cluster_step :: "election_config \<Rightarrow> bool \<Rightarrow> cluster \<Rightarrow> cluster \<Rightarrow> bool"
  for cfg :: election_config and drops :: bool where
  cl_start: "running (cl_electors s i) \<Longrightarrow> cluster_step cfg drops s (start_election i s)"
| cl_renew: "cluster_step cfg drops s (renew_election i s)"
| cl_confirm: "cluster_step cfg drops s (snd (confirmLeadership cfg i now s))"
| cl_query: "Asked w \<in> set (el_flight (cl_electors s i)) \<Longrightarrow> cluster_step cfg drops s (lock_query i c ok w s)"
| cl_record: "Answered w True \<in> set (el_flight (cl_electors s i)) \<Longrightarrow> cluster_step cfg drops s (record_call cfg i now k w s)"
| cl_acquired: "Recorded w \<in> set (el_flight (cl_electors s i)) \<Longrightarrow> cluster_step cfg drops s (tryAcquire_acquired i now w s)"
| cl_refused: "Answered w False \<in> set (el_flight (cl_electors s i)) \<Longrightarrow> cluster_step cfg drops s (tryAcquire_refused i w s)"
| cl_stop: "cluster_step cfg drops s (stop_election i s)"
| cl_unlock: "Unlocking \<in> set (el_flight (cl_electors s i)) \<Longrightarrow> cluster_step cfg drops s (unlock_query i c ok s)"
| cl_unlocked: "Unlocked \<in> set (el_flight (cl_electors s i)) \<Longrightarrow> cluster_step cfg drops s (stop_unlocked i s)"
| cl_close: "Closing \<in> set (el_flight (cl_electors s i)) \<Longrightarrow> cluster_step cfg drops s (closeDb i s)"
| cl_shutdown: "cluster_step cfg drops s (shutdown_keeper i s)"
| cl_drop: "drops \<Longrightarrow> cluster_step cfg drops s (s\<lparr>cl_lock := end_session (i, c) (cl_lock s)\<rparr>)"

inductive_cases cluster_stepE: "cluster_step cfg drops s s'"

section \<open>Facts\<close>

named_theorems leader_simps

lemmas lock_ops [leader_simps] = try_lock_def unlock_def end_session_def held_by_def close_pool_def

lemma setLeader_fields [simp]:
  "el_isLeader (setLeader b e) = b" "el_stopped (setLeader b e) = el_stopped e" "el_shutting (setLeader b e) = el_shutting e"
  "el_closed (setLeader b e) = el_closed e" "el_flight (setLeader b e) = el_flight e"
  by (simp_all add: setLeader_def)

lemma move_call_fields [simp]:
  "el_isLeader (move_call xs ys e) = el_isLeader e" "el_stopped (move_call xs ys e) = el_stopped e"
  "el_shutting (move_call xs ys e) = el_shutting e" "el_closed (move_call xs ys e) = el_closed e"
  "el_active (move_call xs ys e) = el_active e" "el_confirmedAt (move_call xs ys e) = el_confirmedAt e"
  "el_flight (move_call xs ys e) = ys @ fold remove1 xs (el_flight e)"
  by (simp_all add: move_call_def)

lemma on_elector_fields [simp]:
  "cl_lock (on_elector i f s) = cl_lock s" "cl_rows (on_elector i f s) = cl_rows s"
  "cl_electors (on_elector i f s) = (cl_electors s)(i := f (cl_electors s i))"
  by (simp_all add: on_elector_def)

lemma held_unique: "held_by i l \<Longrightarrow> held_by j l \<Longrightarrow> i = j"
  by (auto simp: held_by_def split: option.splits)

lemma try_lock_held:
  assumes "try_lock (i, c) l = (a, l')"
  shows "if a then held_by i l' else l' = l" and "held_by j l \<Longrightarrow> held_by j l'"
  using assms by (cases l; force simp: leader_simps split: if_splits)+

lemma held_kept:
  "j \<noteq> i \<Longrightarrow> held_by j l \<Longrightarrow> held_by j (unlock (i, c) l)"
  "j \<noteq> i \<Longrightarrow> held_by j l \<Longrightarrow> held_by j (close_pool i l)"
  by (auto simp: leader_simps split: option.splits if_splits)

text \<open>
  Whoever runs and calls itself the leader, or has been given the lock and will, has a session that holds it; the steps
  that release the lock are taken only by an instance that has begun to stop.
\<close>

definition given :: "elector \<Rightarrow> bool" where
  "given e \<longleftrightarrow> el_isLeader e \<or> (\<exists>w. Answered w True \<in> set (el_flight e) \<or> Recorded w \<in> set (el_flight e))"

definition leaving :: "elector \<Rightarrow> bool" where
  "leaving e \<longleftrightarrow> set (el_flight e) \<inter> {Unlocking, Unlocked, Closing} \<noteq> {}"

definition elector_ok :: "nat \<Rightarrow> adv_lock \<Rightarrow> elector \<Rightarrow> bool" where
  "elector_ok i l e \<longleftrightarrow> (running e \<longrightarrow> \<not> leaving e \<and> (given e \<longrightarrow> held_by i l))"

lemmas elector_defs = elector_ok_def running_def leaving_def given_def

definition leaders_hold :: "cluster \<Rightarrow> bool" where
  "leaders_hold s \<longleftrightarrow> (\<forall>i. elector_ok i (cl_lock s) (cl_electors s i))"

lemma leaders_hold_change:
  assumes "leaders_hold s" and "elector_ok i (cl_lock s') (f (cl_electors s i))"
    and "\<And>j. j \<noteq> i \<Longrightarrow> held_by j (cl_lock s) \<Longrightarrow> held_by j (cl_lock s')" and "cl_electors s' = cl_electors s"
  shows "leaders_hold (on_elector i f s')"
  using assms by (auto simp: leaders_hold_def elector_ok_def)

lemma elector_ok_fewer:
  assumes "elector_ok i l e" and "set (el_flight e') \<subseteq> set (el_flight e) \<union> range Asked"
    and "running e' \<Longrightarrow> running e" and "running e' \<Longrightarrow> el_isLeader e' \<Longrightarrow> given e"
  shows "elector_ok i l e'"
  using assms unfolding elector_ok_def leaving_def given_def by blast

lemma query_holds:
  assumes "leaders_hold s"
  shows "leaders_hold (lock_query i c ok w s)"
proof -
  have ok: "elector_ok i (cl_lock s) (cl_electors s i)" using assms by (simp add: leaders_hold_def)
  have refused: "elector_ok i (cl_lock s) (move_call [Asked w] [Answered w False] (cl_electors s i))"
    using ok by (auto simp: elector_defs dest: notin_set_remove1)
  have acquired: "elector_ok i l (move_call [Asked w] [Answered w True] (cl_electors s i))" if "held_by i l" for l
    using ok that by (auto simp: elector_defs dest: notin_set_remove1)
  show ?thesis
  proof (cases "if ok \<and> \<not> el_closed (cl_electors s i) then try_lock (i, c) (cl_lock s) else (False, cl_lock s)")
    case (Pair a l)
    have l: "if a then held_by i l else l = cl_lock s" "held_by j (cl_lock s) \<Longrightarrow> held_by j l" for j
      using Pair try_lock_held [of i c "cl_lock s" a l] by (auto split: if_splits)
    show ?thesis
      unfolding lock_query_def Pair prod.case
      by (rule leaders_hold_change [OF assms]) (use l refused acquired in \<open>auto split: if_splits\<close>)
  qed
qed

lemma calls_hold:
  assumes "leaders_hold s"
  shows "leaders_hold (start_election i s)" "leaders_hold (renew_election i s)"
    "leaders_hold (snd (confirmLeadership cfg i now s))" "leaders_hold (stop_election i s)"
    "leaders_hold (shutdown_keeper i s)"
proof -
  have asked: "leaders_hold (on_elector i (move_call [] [Asked w]) s)" for w
    by (rule leaders_hold_change [OF assms elector_ok_fewer [where e = "cl_electors s i"]])
      (use assms in \<open>auto simp: leaders_hold_def running_def given_def\<close>)
  then show "leaders_hold (start_election i s)" "leaders_hold (renew_election i s)"
    "leaders_hold (snd (confirmLeadership cfg i now s))"
    using assms by (simp_all add: start_election_def renew_election_def confirmLeadership_def Let_def)
  have leaving: "leaders_hold (on_elector i f s)"
    if "\<not> running (f (cl_electors s i)) \<or> f (cl_electors s i) = cl_electors s i" for f
    by (rule leaders_hold_change [OF assms]) (use assms that in \<open>auto simp: leaders_hold_def elector_ok_def\<close>)
  show "leaders_hold (stop_election i s)" "leaders_hold (shutdown_keeper i s)"
    unfolding stop_election_def shutdown_keeper_def by (rule leaving, simp add: running_def Let_def)+
qed

lemma settle_holds:
  assumes "leaders_hold s"
  shows "Answered w True \<in> set (el_flight (cl_electors s i)) \<Longrightarrow> leaders_hold (record_call cfg i now k w s)"
    and "Recorded w \<in> set (el_flight (cl_electors s i)) \<Longrightarrow> leaders_hold (tryAcquire_acquired i now w s)"
    and "leaders_hold (tryAcquire_refused i w s)"
proof -
  have ok: "elector_ok i (cl_lock s) (cl_electors s i)" using assms by (simp add: leaders_hold_def)
  have "elector_ok i (cl_lock s) (move_call [Answered w True] [Recorded w] (cl_electors s i))"
    if "Answered w True \<in> set (el_flight (cl_electors s i))"
    using ok that by (auto simp: elector_defs dest: notin_set_remove1)
  then show "leaders_hold (record_call cfg i now k w s)" if "Answered w True \<in> set (el_flight (cl_electors s i))"
    unfolding record_call_def by (intro leaders_hold_change [OF assms]) (use that in auto)
  show "leaders_hold (tryAcquire_acquired i now w s)" if "Recorded w \<in> set (el_flight (cl_electors s i))"
    unfolding tryAcquire_acquired_def
    by (rule leaders_hold_change [OF assms elector_ok_fewer [OF ok]])
      (use that in \<open>auto simp: running_def given_def dest: notin_set_remove1\<close>)
  show "leaders_hold (tryAcquire_refused i w s)"
    unfolding tryAcquire_refused_def
    by (rule leaders_hold_change [OF assms elector_ok_fewer [OF ok]])
      (auto simp: running_def given_def Let_def split: if_splits dest: notin_set_remove1)
qed

lemma leave_holds:
  assumes "leaders_hold s"
  shows "Unlocking \<in> set (el_flight (cl_electors s i)) \<Longrightarrow> leaders_hold (unlock_query i c ok s)"
    and "Unlocked \<in> set (el_flight (cl_electors s i)) \<Longrightarrow> leaders_hold (stop_unlocked i s)"
    and "Closing \<in> set (el_flight (cl_electors s i)) \<Longrightarrow> leaders_hold (closeDb i s)"
proof -
  have gone: "\<not> running (cl_electors s i)" if "x \<in> set (el_flight (cl_electors s i))" "x \<in> {Unlocking, Unlocked, Closing}" for x
    using assms that unfolding leaders_hold_def elector_ok_def leaving_def by blast
  have change: "leaders_hold (on_elector i f (s\<lparr>cl_lock := l\<rparr>))"
    if "x \<in> set (el_flight (cl_electors s i))" "x \<in> {Unlocking, Unlocked, Closing}"
      and "\<And>e. running (f e) \<Longrightarrow> running e" and "\<And>j. j \<noteq> i \<Longrightarrow> held_by j (cl_lock s) \<Longrightarrow> held_by j l" for f l x
    by (rule leaders_hold_change [OF assms]) (use gone that in \<open>auto simp: elector_ok_def\<close>)
  show "leaders_hold (unlock_query i c ok s)" if "Unlocking \<in> set (el_flight (cl_electors s i))"
    unfolding unlock_query_def by (rule change [OF that]) (auto simp: running_def intro: held_kept)
  show "leaders_hold (closeDb i s)" if "Closing \<in> set (el_flight (cl_electors s i))"
    unfolding closeDb_def by (rule change [OF that]) (auto simp: running_def intro: held_kept)
  show "leaders_hold (stop_unlocked i s)" if "Unlocked \<in> set (el_flight (cl_electors s i))"
    using change [OF that, of "\<lambda>e. move_call [Unlocked] [Closing] (e\<lparr>el_isLeader := False\<rparr>)" "cl_lock s"]
    by (simp add: stop_unlocked_def running_def)
qed

interpretation election_run: step_invariant "cluster_step cfg False" leaders_hold for cfg
  by unfold_locales
    (auto elim!: cluster_stepE intro: query_holds calls_hold settle_holds leave_holds)

text \<open>A start and a firing of the timer that run to their end with nothing in between.\<close>

definition elected :: "election_config \<Rightarrow> nat \<Rightarrow> nat \<Rightarrow> int \<Rightarrow> cluster \<Rightarrow> cluster" where
  "elected cfg i c now s =
     tryAcquire_acquired i now ByStart (record_call cfg i now 3 ByStart (lock_query i c True ByStart (start_election i s)))"

definition refused_start :: "nat \<Rightarrow> nat \<Rightarrow> bool \<Rightarrow> cluster \<Rightarrow> cluster" where
  "refused_start i c ok s = tryAcquire_refused i ByStart (lock_query i c ok ByStart (start_election i s))"

definition refused_renewal :: "nat \<Rightarrow> nat \<Rightarrow> bool \<Rightarrow> cluster \<Rightarrow> cluster" where
  "refused_renewal i c ok s = tryAcquire_refused i ByTimer (lock_query i c ok ByTimer (renew_election i s))"

lemma elected_steps:
  assumes "running (cl_electors s j)" and "\<not> el_closed (cl_electors s j)" and "cl_lock s = None"
  shows "(cluster_step cfg drops)\<^sup>*\<^sup>* s (elected cfg j c now s)" (is ?run)
    and "el_isLeader (cl_electors (elected cfg j c now s) j)"
    and "running (cl_electors (elected cfg j c now s) j)"
    and "cl_electors (elected cfg j c now s) = (cl_electors s)(j := cl_electors (elected cfg j c now s) j)"
    and "cl_lock (elected cfg j c now s) = Some ((j, c), 1)"
proof -
  let ?s1 = "start_election j s" and ?s2 = "lock_query j c True ByStart (start_election j s)"
  let ?s3 = "record_call cfg j now 3 ByStart ?s2"
  have in_flight: "Asked ByStart \<in> set (el_flight (cl_electors ?s1 j))" "Answered ByStart True \<in> set (el_flight (cl_electors ?s2 j))"
    "Recorded ByStart \<in> set (el_flight (cl_electors ?s3 j))"
    using assms(2,3) by (simp_all add: start_election_def lock_query_def record_call_def leader_simps)
  have "cluster_step cfg drops s ?s1" by (rule cl_start) (rule assms(1))
  moreover have "cluster_step cfg drops ?s1 ?s2" using in_flight(1) by (rule cl_query)
  moreover have "cluster_step cfg drops ?s2 ?s3" using in_flight(2) by (rule cl_record)
  moreover have "cluster_step cfg drops ?s3 (elected cfg j c now s)"
    unfolding elected_def using in_flight(3) by (rule cl_acquired)
  ultimately show ?run by (meson converse_rtranclp_into_rtranclp rtranclp.rtrancl_refl)
qed (use assms in \<open>simp_all add: elected_def tryAcquire_acquired_def record_call_def lock_query_def start_election_def
      running_def leader_simps\<close>)

lemma query_refused:
  assumes "held_by j (cl_lock s)" and "j \<noteq> i"
  shows "lock_query i c ok w s = on_elector i (move_call [Asked w] [Answered w False]) s"
  using assms by (auto simp: lock_query_def leader_simps split: option.splits)

lemma refused_nothing:
  assumes "held_by j (cl_lock s)" and "j \<noteq> i" and "cl_electors s i = new_elector"
  shows "refused_start i c ok s = s" and "refused_renewal i c ok s = s"
  using assms(2,3)
  by (auto simp: refused_start_def refused_renewal_def start_election_def renew_election_def new_elector_def
      query_refused [of j] assms(1) tryAcquire_refused_def on_elector_def move_call_def setLeader_def Let_def fun_upd_idem_iff)

section \<open>Properties\<close>

text \<open>
  C22: however the statements and answers of the instances interleave, as long as no connection is lost or closed for being
  idle, at most one instance that has not begun to stop or to shut down calls itself the leader, and it does so only while one
  of its sessions holds the lock.
\<close>

theorem leader_unique:
  assumes "(cluster_step cfg False)\<^sup>*\<^sup>* fresh_cluster s"
    and "running (cl_electors s i)" and "el_isLeader (cl_electors s i)"
    and "running (cl_electors s j)" and "el_isLeader (cl_electors s j)"
  shows "i = j \<and> held_by i (cl_lock s)"
proof -
  have "leaders_hold fresh_cluster"
    by (simp add: leaders_hold_def elector_defs fresh_cluster_def new_elector_def)
  from election_run.reachable [OF assms(1) this] have "leaders_hold s" .
  with assms(2-5) have "held_by i (cl_lock s)" "held_by j (cl_lock s)"
    by (auto simp: leaders_hold_def elector_ok_def given_def)
  then show ?thesis using held_unique by blast
qed

text \<open>
  During a stop two instances are leaders: the lock is released on the server before the answer lets the stopping instance
  clear its flag, and another one can be elected in between.
\<close>

theorem leaders_overlap_at_stop:
  assumes "cl_lock s = Some ((i, c), 1)" and "el_isLeader (cl_electors s i)" and "\<not> el_closed (cl_electors s i)"
    and "i \<noteq> j" and "running (cl_electors s j)" and "\<not> el_closed (cl_electors s j)"
  shows "\<exists>s'. (cluster_step cfg False)\<^sup>*\<^sup>* s s' \<and> el_isLeader (cl_electors s' i)
    \<and> running (cl_electors s' j) \<and> el_isLeader (cl_electors s' j)"
proof -
  let ?s1 = "stop_election i s" and ?s2 = "unlock_query i c True (stop_election i s)"
  have "cluster_step cfg False s ?s1" by (rule cl_stop)
  moreover have "cluster_step cfg False ?s1 ?s2"
    by (rule cl_unlock) (use assms(2) in \<open>simp add: stop_election_def Let_def\<close>)
  ultimately have "(cluster_step cfg False)\<^sup>*\<^sup>* s ?s2" by simp
  moreover have s2: "cl_lock ?s2 = None" "running (cl_electors ?s2 j)" "\<not> el_closed (cl_electors ?s2 j)"
    "el_isLeader (cl_electors ?s2 i)"
    using assms by (simp_all add: unlock_query_def stop_election_def leader_simps Let_def)
  note elected = elected_steps [OF s2(2,3,1), where cfg = cfg and c = 0 and now = 0]
  ultimately have "(cluster_step cfg False)\<^sup>*\<^sup>* s (elected cfg j 0 0 ?s2)" by (meson rtranclp_trans)
  moreover have "el_isLeader (cl_electors (elected cfg j 0 0 ?s2) i)"
    using s2(4) assms(4) by (subst elected(4)) simp
  ultimately show ?thesis using elected(2,3) by blast
qed

text \<open>
  An instance that loses the election still runs the scan cycles: its flag starts as true, the
  callback that clears it is called only when leadership is lost, and neither the start nor any
  renewal changes anything while another instance holds the lock.
\<close>

theorem standby_runs_cycles:
  assumes "held_by j (cl_lock s)" and "j \<noteq> i" and "cl_electors s i = new_elector"
  shows "(let s' = fold (\<lambda>(c, ok). refused_renewal i c ok) ticks (refused_start i c0 ok0 s)
          in s' = s \<and> \<not> el_isLeader (cl_electors s' i) \<and> runs_cycles i s')"
proof -
  have "fold (\<lambda>(c, ok). refused_renewal i c ok) ticks s = s"
    by (induction ticks) (auto simp: refused_nothing(2) [OF assms])
  then show ?thesis
    by (simp add: refused_nothing(1) [OF assms] runs_cycles_def assms(3) new_elector_def)
qed

text \<open>
  When the pool closes the idle connection that took the lock (it does so after 20 seconds, the
  renewal comes after 30), another instance is elected while the first one still calls itself the
  leader, and goes on confirming itself without asking for half a renewal interval.
\<close>

theorem two_leaders_after_idle:
  assumes "cl_lock s = Some ((i, c), n)" and "el_isLeader (cl_electors s i)" and "i \<noteq> j"
    and "running (cl_electors s i)" and "running (cl_electors s j)" and "\<not> el_closed (cl_electors s j)"
    and "2 * (now - el_confirmedAt (cl_electors s i)) < ec_renewIntervalMs cfg"
  shows "\<exists>s'. (cluster_step cfg True)\<^sup>*\<^sup>* s s' \<and> el_isLeader (cl_electors s' i) \<and> running (cl_electors s' i)
    \<and> el_isLeader (cl_electors s' j) \<and> running (cl_electors s' j)
    \<and> fst (confirmLeadership cfg i now s') = Some True \<and> \<not> held_by i (cl_lock s')"
proof -
  let ?s1 = "s\<lparr>cl_lock := end_session (i, c) (cl_lock s)\<rparr>"
  have "cluster_step cfg True s ?s1" by (rule cl_drop) simp
  moreover have s1: "cl_lock ?s1 = None" "running (cl_electors ?s1 j)" "\<not> el_closed (cl_electors ?s1 j)"
    using assms by (simp_all add: leader_simps)
  note elected = elected_steps [OF s1(2,3,1), where cfg = cfg and c = 0 and now = now]
  ultimately have "(cluster_step cfg True)\<^sup>*\<^sup>* s (elected cfg j 0 now ?s1)"
    by (meson converse_rtranclp_into_rtranclp)
  moreover have i: "cl_electors (elected cfg j 0 now ?s1) i = cl_electors s i"
    using assms(3) by (subst elected(4)) simp
  moreover have "fst (confirmLeadership cfg i now (elected cfg j 0 now ?s1)) = Some True"
    using assms(2,4,7) by (simp add: confirmLeadership_def i Let_def running_def)
  moreover have "\<not> held_by i (cl_lock (elected cfg j 0 now ?s1))"
    using assms(3) elected(5) by (simp add: held_by_def)
  ultimately show ?thesis
    using elected(2,3) assms(2,4) by (intro exI [of _ "elected cfg j 0 now ?s1"]) simp
qed

text \<open>
  The leader deposes itself when its renewal runs on another connection of its pool than the one
  that took the lock; the lock stays with the idle connection, so that then nobody can be elected.
\<close>

theorem leader_deposes_itself:
  assumes "cl_lock s = Some ((i, c), n)" and "c' \<noteq> c" and "\<not> el_stopped (cl_electors s i)"
    and "i \<noteq> j"
  shows "(let s' = refused_renewal i c' True s
          in \<not> el_isLeader (cl_electors s' i) \<and> cl_lock s' = cl_lock s
             \<and> lock_query j c'' ok w s' = on_elector j (move_call [Asked w] [Answered w False]) s')"
proof -
  have lock: "cl_lock (refused_renewal i c' True s) = cl_lock s"
    and "\<not> el_isLeader (cl_electors (refused_renewal i c' True s) i)"
    using assms(1-3)
    by (simp_all add: refused_renewal_def renew_election_def lock_query_def tryAcquire_refused_def leader_simps Let_def)
  moreover have "held_by i (cl_lock (refused_renewal i c' True s))" using lock assms(1) by (simp add: held_by_def)
  ultimately show ?thesis using query_refused [of i _ j] assms(4) by (simp add: Let_def)
qed

text \<open>The second instance after the first has been elected.\<close>

definition sample_cluster :: cluster where
  "sample_cluster = elected default_election 0 0 1000 fresh_cluster"

lemma sample_cluster_facts:
  "cl_lock sample_cluster = Some ((0, 0), 1)" "el_isLeader (cl_electors sample_cluster 0)"
  "cl_electors sample_cluster 1 = new_elector" "running (cl_electors sample_cluster 0)"
  "\<not> el_stopped (cl_electors sample_cluster 0)" "\<not> el_closed (cl_electors sample_cluster 0)"
  "el_confirmedAt (cl_electors sample_cluster 0) = 1000"
  by (simp_all add: sample_cluster_def elected_def tryAcquire_acquired_def record_call_def lock_query_def start_election_def
      leader_simps fresh_cluster_def new_elector_def running_def)

lemma new_elector_facts [simp]:
  "running new_elector" "\<not> el_closed new_elector" "\<not> el_isLeader new_elector" "el_active new_elector"
  by (simp_all add: new_elector_def running_def)

lemma sample_cluster_reached: "(cluster_step default_election b)\<^sup>*\<^sup>* fresh_cluster sample_cluster"
  unfolding sample_cluster_def by (rule elected_steps) (simp_all add: fresh_cluster_def)

theorem leader_unique_witness:
  "held_by 0 (cl_lock sample_cluster)"
  using leader_unique [OF sample_cluster_reached, of 0 0] sample_cluster_facts by simp

theorem leaders_overlap_at_stop_witness:
  "\<exists>s. (cluster_step default_election False)\<^sup>*\<^sup>* fresh_cluster s
     \<and> el_isLeader (cl_electors s 0) \<and> el_isLeader (cl_electors s 1)"
  using leaders_overlap_at_stop [of sample_cluster 0 0 1 default_election] sample_cluster_facts sample_cluster_reached [of False]
  by (auto intro: rtranclp_trans)

theorem standby_runs_cycles_witness:
  "runs_cycles 1 (refused_start 1 0 True sample_cluster)"
  using standby_runs_cycles [of 0 sample_cluster 1 "[]" 0 True]
    sample_cluster_facts by (auto simp: held_by_def Let_def)

theorem two_leaders_after_idle_witness:
  "\<exists>s. (cluster_step default_election True)\<^sup>*\<^sup>* fresh_cluster s
     \<and> el_isLeader (cl_electors s 0) \<and> el_isLeader (cl_electors s 1)"
  using two_leaders_after_idle [of sample_cluster 0 0 1 1 1001 default_election]
    sample_cluster_facts sample_cluster_reached [of True]
  by (auto simp: default_election_def intro: rtranclp_trans)

theorem leader_deposes_itself_witness:
  "\<not> el_isLeader (cl_electors (refused_renewal 0 1 True sample_cluster) 0)"
  using leader_deposes_itself [of sample_cluster 0 0 1 1 1]
    sample_cluster_facts by (simp add: Let_def)

end
