(* ===== verification/Monitoring.thy ===== *)
theory Monitoring
  imports Executor Circuit_Breaker
begin

text \<open>
  What the keeper records about itself: the job monitor (\<open>keeper/src/job-monitor.ts\<close>), the metrics
  (\<open>metrics.ts\<close>), the anomaly detector (\<open>anomaly-detector.ts\<close>), the latency thresholds
  (\<open>latency-monitor.ts\<close>) and the handler of systemic errors (\<open>systemic-alert-handler.ts\<close>). Log lines
  are left out. Several of its tables have \<open>uuid\<close> columns, so the text syntax of uuids is modelled.
\<close>

section \<open>The text syntax of uuids\<close>

text \<open>
  PostgreSQL reads 32 hexadecimal digits of either case, with an optional hyphen after each group of
  four but the last, all optionally in braces; it rejects every other text.
\<close>

definition hex_digit :: "char \<Rightarrow> bool" where
  "hex_digit c =
     (is_digit c \<or> (CHR ''a'' \<le> c \<and> c \<le> CHR ''f'') \<or> (CHR ''A'' \<le> c \<and> c \<le> CHR ''F''))"

fun uuid_digits :: "nat \<Rightarrow> string \<Rightarrow> bool" where
  "uuid_digits k [] = (k = 32)"
| "uuid_digits k (c # cs) =
     (if hex_digit c then k < 32 \<and> uuid_digits (k + 1) cs
      else c = CHR ''-'' \<and> 0 < k \<and> k < 32 \<and> k mod 4 = 0
           \<and> (case cs of [] \<Rightarrow> False | d # ds \<Rightarrow> hex_digit d \<and> uuid_digits (k + 1) ds))"

definition is_uuid :: "string \<Rightarrow> bool" where
  "is_uuid s =
     (if s \<noteq> [] \<and> hd s = CHR ''{'' then last s = CHR ''}'' \<and> uuid_digits 0 (butlast (tl s))
      else uuid_digits 0 s)"

text \<open>How PostgreSQL writes the value that such a text denotes: in lower case and in groups of 8, 4, 4, 4 and 12.\<close>

definition hex_lower :: "char \<Rightarrow> char" where
  "hex_lower c = (if CHR ''A'' \<le> c \<and> c \<le> CHR ''F'' then char_of (of_char c + 32 :: nat) else c)"

definition uuid_text :: "string \<Rightarrow> string" where
  "uuid_text s =
     (let ds = map hex_lower (filter hex_digit s)
      in take 8 ds @ ''-'' @ take 4 (drop 8 ds) @ ''-'' @ take 4 (drop 12 ds) @ ''-'' @ take 4 (drop 16 ds)
         @ ''-'' @ drop 20 ds)"

definition uuid_error :: "string \<Rightarrow> thrown" where
  "uuid_error s = js_Error (''invalid input syntax for type uuid: '' @ dq s)"

text \<open>A parameter of a nullable \<open>uuid\<close> column.\<close>

definition uuid_param :: "string option \<Rightarrow> thrown + unit" where
  "uuid_param p = (case p of Some s \<Rightarrow> if is_uuid s then Inr () else Inl (uuid_error s) | None \<Rightarrow> Inr ())"

text \<open>\<open>Math.round\<close>.\<close>

definition js_round :: "rat \<Rightarrow> int" where
  "js_round x = \<lfloor>x + 1 / 2\<rfloor>"

section \<open>The job monitor\<close>

record job_record =
  mj_id :: string
  mj_type :: string
  mj_status :: string
  mj_startedAt :: int
  mj_completedAt :: "int option"
  mj_durationMs :: "int option"
  mj_entityType :: "string option"
  mj_entityId :: "string option"
  mj_details :: "json option"
  mj_error :: "string option"
  mj_orgId :: "string option"
  mj_traceId :: "string option"

text \<open>The rows of \<open>job_executions\<close>.\<close>

record execution_row =
  jx_id :: string
  jx_jobType :: string
  jx_entityType :: "string option"
  jx_entityId :: "string option"
  jx_status :: string
  jx_startedAt :: int
  jx_completedAt :: "int option"
  jx_durationMs :: "int option"
  jx_error :: "string option"
  jx_metadata :: "json option"
  jx_traceId :: "string option"
  jx_orgId :: "string option"

record job_monitor =
  mo_jobs :: "job_record list"
  mo_maxRecords :: nat
  mo_table :: "execution_row list"

definition new_monitor :: "nat \<Rightarrow> execution_row list \<Rightarrow> job_monitor" where
  "new_monitor n rows = \<lparr>mo_jobs = [], mo_maxRecords = n, mo_table = rows\<rparr>"

definition trimRecords :: "job_monitor \<Rightarrow> job_monitor" where
  "trimRecords m =
     (if length (mo_jobs m) > mo_maxRecords m
      then m\<lparr>mo_jobs := drop (length (mo_jobs m) - mo_maxRecords m) (mo_jobs m)\<rparr> else m)"

definition findJob :: "string \<Rightarrow> job_monitor \<Rightarrow> job_record option" where
  "findJob i m = find (\<lambda>j. mj_id j = i) (mo_jobs m)"

text \<open>\<open>find\<close> returns the first record of the id, which the callers then change in place.\<close>

fun upd_first :: "('a \<Rightarrow> bool) \<Rightarrow> ('a \<Rightarrow> 'a) \<Rightarrow> 'a list \<Rightarrow> 'a list" where
  "upd_first p f [] = []"
| "upd_first p f (x # xs) = (if p x then f x # xs else x # upd_first p f xs)"

definition startJob ::
    "string \<Rightarrow> int \<Rightarrow> string \<Rightarrow> string option \<Rightarrow> string option \<Rightarrow> string option \<Rightarrow> string option
     \<Rightarrow> job_monitor \<Rightarrow> thrown + string \<times> job_monitor" where
  "startJob i now ty ety eid org trace m =
     bindE (uuid_param eid) (\<lambda>_. bindE (uuid_param org) (\<lambda>_.
       Inr (i, trimRecords (m
         \<lparr>mo_table := mo_table m @
            [\<lparr>jx_id = i, jx_jobType = ty, jx_entityType = ety, jx_entityId = eid,
              jx_status = ''running'', jx_startedAt = now, jx_completedAt = None,
              jx_durationMs = None, jx_error = None, jx_metadata = None, jx_traceId = trace,
              jx_orgId = org\<rparr>],
          mo_jobs := mo_jobs m @
            [\<lparr>mj_id = i, mj_type = ty, mj_status = ''running'', mj_startedAt = now,
              mj_completedAt = None, mj_durationMs = None, mj_entityType = ety,
              mj_entityId = eid, mj_details = None, mj_error = None, mj_orgId = org,
              mj_traceId = trace\<rparr>]\<rparr>))))"

text \<open>The end of a job: the row first, then the record, if the row exists.\<close>

definition finish_job ::
    "int \<Rightarrow> string \<Rightarrow> (execution_row \<Rightarrow> execution_row) \<Rightarrow> (job_record \<Rightarrow> job_record)
     \<Rightarrow> job_monitor \<Rightarrow> job_monitor" where
  "finish_job now i f g m =
     (let p = (\<lambda>r. jx_id r = i);
          f' = (\<lambda>r. f (r\<lparr>jx_completedAt := Some now, jx_durationMs := Some (now - jx_startedAt r)\<rparr>));
          res = update_returning p f' (mo_table m);
          m1 = m\<lparr>mo_table := sql_update p f' (mo_table m)\<rparr>
      in if first_row (res_rows res) = None then m1
         else m1\<lparr>mo_jobs := upd_first (\<lambda>j. mj_id j = i)
                (\<lambda>j. g (j\<lparr>mj_completedAt := Some now, mj_durationMs := Some (now - mj_startedAt j)\<rparr>))
                (mo_jobs m1)\<rparr>)"

definition completeMonitorJob :: "int \<Rightarrow> string \<Rightarrow> json option \<Rightarrow> job_monitor \<Rightarrow> job_monitor" where
  "completeMonitorJob now i metadata m =
     finish_job now i
       (\<lambda>r. r\<lparr>jx_status := ''completed'',
              jx_metadata := (case metadata of Some d \<Rightarrow> Some d | None \<Rightarrow> jx_metadata r)\<rparr>)
       (\<lambda>j. j\<lparr>mj_status := ''success'',
              mj_details := (if json_truthy metadata then metadata else mj_details j)\<rparr>) m"

definition failMonitorJob :: "int \<Rightarrow> string \<Rightarrow> string \<Rightarrow> job_monitor \<Rightarrow> job_monitor" where
  "failMonitorJob now i e m =
     finish_job now i (\<lambda>r. r\<lparr>jx_status := ''failed'', jx_error := Some e\<rparr>)
       (\<lambda>j. j\<lparr>mj_status := ''failed'', mj_error := Some e\<rparr>) m"

text \<open>\<open>slice(0, limit)\<close>: a negative limit cuts from the end; zero and \<open>undefined\<close> mean no limit.\<close>

definition getRecentJobs :: "int option \<Rightarrow> job_monitor \<Rightarrow> job_record list" where
  "getRecentJobs limit m =
     (let sorted = rev (mo_jobs m) in
      case limit of
        None \<Rightarrow> sorted
      | Some k \<Rightarrow> if k = 0 then sorted
                  else if k > 0 then take (nat k) sorted
                  else take (length sorted - nat (- k)) sorted)"

record job_stats =
  js_total :: nat
  js_success :: nat
  js_failed :: nat
  js_running :: nat

definition stats_of :: "job_record list \<Rightarrow> job_stats" where
  "stats_of js =
     \<lparr>js_total = length js, js_success = length (filter (\<lambda>j. mj_status j = ''success'') js),
      js_failed = length (filter (\<lambda>j. mj_status j = ''failed'') js),
      js_running = length (filter (\<lambda>j. mj_status j = ''running'') js)\<rparr>"

definition getStats :: "job_monitor \<Rightarrow> job_stats \<times> int" where
  "getStats m =
     (let completed = filter (\<lambda>j. mj_status j \<noteq> ''running'' \<and> mj_durationMs j \<noteq> None) (mo_jobs m);
          total = sum_list (map (\<lambda>j. or_default (mj_durationMs j) 0) completed)
      in (stats_of (mo_jobs m),
          if length completed > 0 then js_round (rat_of_int total / rat_of_nat (length completed)) else 0))"

text \<open>The counters per type, as the loop fills them.\<close>

definition count_job :: "job_record \<Rightarrow> job_stats \<Rightarrow> job_stats" where
  "count_job j c =
     (let c1 = c\<lparr>js_total := js_total c + 1\<rparr> in
      if mj_status j = ''success'' then c1\<lparr>js_success := js_success c1 + 1\<rparr>
      else if mj_status j = ''failed'' then c1\<lparr>js_failed := js_failed c1 + 1\<rparr>
      else if mj_status j = ''running'' then c1\<lparr>js_running := js_running c1 + 1\<rparr> else c1)"

definition zero_stats :: job_stats where
  "zero_stats = \<lparr>js_total = 0, js_success = 0, js_failed = 0, js_running = 0\<rparr>"

fun stats_loop :: "job_record list \<Rightarrow> (string \<rightharpoonup> job_stats) \<Rightarrow> string \<rightharpoonup> job_stats" where
  "stats_loop [] t = t"
| "stats_loop (j # js) t =
     stats_loop js (t(mj_type j \<mapsto> count_job j (or_default (t (mj_type j)) zero_stats)))"

definition getStatsByType :: "job_monitor \<Rightarrow> string \<rightharpoonup> job_stats" where
  "getStatsByType m = stats_loop (mo_jobs m) Map.empty"

definition getLatestJob :: "string \<Rightarrow> job_monitor \<Rightarrow> job_record option" where
  "getLatestJob ty m =
     (let filtered = filter (\<lambda>j. mj_type j = ty) (mo_jobs m) in
      if filtered = [] then None else Some (last filtered))"

definition reset_monitor :: "job_monitor \<Rightarrow> job_monitor" where
  "reset_monitor m = m\<lparr>mo_jobs := []\<rparr>"

section \<open>Metrics\<close>

text \<open>Insertion-ordered maps: setting a key that is present keeps its place.\<close>

fun map_set :: "'k \<Rightarrow> 'v \<Rightarrow> ('k \<times> 'v) list \<Rightarrow> ('k \<times> 'v) list" where
  "map_set k v [] = [(k, v)]"
| "map_set k v (x # xs) = (if fst x = k then (k, v) # xs else x # map_set k v xs)"

record metrics =
  mt_results :: "renewal_result list"
  mt_errors :: "(string \<times> thrown) list"
  mt_startTimes :: "string \<rightharpoonup> int"
  mt_latencies :: "int list"
  mt_transitions :: nat
  mt_state :: int
  mt_retries :: nat
  mt_queueDepth :: int
  mt_notifications :: "string \<rightharpoonup> nat"
  mt_attempted :: nat
  mt_succeeded :: nat
  mt_failed :: nat
  mt_poolSize :: int
  mt_queueLatencies :: "int list"
  mt_accuracy :: "rat list"

definition maxResults :: nat where
  "maxResults = 1000"

definition new_metrics :: metrics where
  "new_metrics =
     \<lparr>mt_results = [], mt_errors = [], mt_startTimes = Map.empty, mt_latencies = [],
      mt_transitions = 0, mt_state = 0, mt_retries = 0, mt_queueDepth = 0,
      mt_notifications = Map.empty, mt_attempted = 0, mt_succeeded = 0, mt_failed = 0,
      mt_poolSize = 0, mt_queueLatencies = [], mt_accuracy = []\<rparr>"

text \<open>\<open>push\<close> followed by \<open>shift\<close> when the list has grown past its limit.\<close>

definition push_capped :: "nat \<Rightarrow> 'a \<Rightarrow> 'a list \<Rightarrow> 'a list" where
  "push_capped n x xs = (let ys = xs @ [x] in if length ys > n then tl ys else ys)"

definition recordStart :: "int \<Rightarrow> string \<Rightarrow> metrics \<Rightarrow> metrics" where
  "recordStart now v m = m\<lparr>mt_startTimes := (mt_startTimes m)(v \<mapsto> now)\<rparr>"

definition recordCompletion :: "int \<Rightarrow> string \<Rightarrow> metrics \<Rightarrow> metrics" where
  "recordCompletion now v m =
     (case mt_startTimes m v of
        Some t \<Rightarrow> m\<lparr>mt_latencies := push_capped 1000 (now - t) (mt_latencies m),
                    mt_startTimes := (mt_startTimes m)(v := None)\<rparr>
      | None \<Rightarrow> m)"

definition recordSuccess :: "int \<Rightarrow> renewal_result \<Rightarrow> metrics \<Rightarrow> metrics" where
  "recordSuccess now r m =
     (let m1 = recordCompletion now (rr_vaultId r) m
      in m1\<lparr>mt_results := push_capped maxResults r (mt_results m1)\<rparr>)"

definition recordFailure :: "int \<Rightarrow> string \<Rightarrow> thrown \<Rightarrow> metrics \<Rightarrow> metrics" where
  "recordFailure now v e m =
     (let m1 = recordCompletion now v m;
          errs = map_set v e (mt_errors m1)
      in m1\<lparr>mt_errors := (if length errs > 1000 then tl errs else errs)\<rparr>)"

definition recordCircuitBreakerTransition :: "metrics \<Rightarrow> metrics" where
  "recordCircuitBreakerTransition m = m\<lparr>mt_transitions := mt_transitions m + 1\<rparr>"

definition setCircuitBreakerState :: "circuit_state \<Rightarrow> metrics \<Rightarrow> metrics" where
  "setCircuitBreakerState st m =
     m\<lparr>mt_state := (if st = CLOSED then 0 else if st = HALF_OPEN then 1 else 2)\<rparr>"

definition recordRetryAttempt :: "metrics \<Rightarrow> metrics" where
  "recordRetryAttempt m = m\<lparr>mt_retries := mt_retries m + 1\<rparr>"

definition setQueueDepth :: "int \<Rightarrow> metrics \<Rightarrow> metrics" where
  "setQueueDepth n m = m\<lparr>mt_queueDepth := n\<rparr>"

definition recordNotificationSent :: "string \<Rightarrow> metrics \<Rightarrow> metrics" where
  "recordNotificationSent p m =
     m\<lparr>mt_notifications := (mt_notifications m)(p \<mapsto> or_default (mt_notifications m p) 0 + 1)\<rparr>"

definition recordRenewalAttempted :: "metrics \<Rightarrow> metrics" where
  "recordRenewalAttempted m = m\<lparr>mt_attempted := mt_attempted m + 1\<rparr>"

definition recordRenewalSucceeded :: "metrics \<Rightarrow> metrics" where
  "recordRenewalSucceeded m = m\<lparr>mt_succeeded := mt_succeeded m + 1\<rparr>"

definition recordRenewalFailed :: "metrics \<Rightarrow> metrics" where
  "recordRenewalFailed m = m\<lparr>mt_failed := mt_failed m + 1\<rparr>"

definition recordQueueProcessingLatency :: "int \<Rightarrow> metrics \<Rightarrow> metrics" where
  "recordQueueProcessingLatency t m =
     m\<lparr>mt_queueLatencies := push_capped 1000 t (mt_queueLatencies m)\<rparr>"

definition recordEstimateAccuracy :: "rat \<Rightarrow> metrics \<Rightarrow> metrics" where
  "recordEstimateAccuracy q m = m\<lparr>mt_accuracy := push_capped 1000 q (mt_accuracy m)\<rparr>"

definition setDbConnectionPoolSize :: "int \<Rightarrow> metrics \<Rightarrow> metrics" where
  "setDbConnectionPoolSize n m = m\<lparr>mt_poolSize := n\<rparr>"

text \<open>The summary; the counters that are copied as they are stay fields of the collector.\<close>

record metrics_summary =
  ms_attempted :: nat
  ms_succeeded :: nat
  ms_failed :: nat
  ms_totalGasUsed :: int
  ms_avgLatencyMs :: int
  ms_avgQueueLatencyMs :: int
  ms_avgEstimateAccuracy :: rat
  ms_collector :: metrics

definition rounded_mean :: "int list \<Rightarrow> int" where
  "rounded_mean xs =
     (if length xs > 0 then js_round (rat_of_int (sum_list xs) / rat_of_nat (length xs)) else 0)"

definition summarize :: "metrics \<Rightarrow> metrics_summary" where
  "summarize m =
     \<lparr>ms_attempted = length (mt_results m) + length (mt_errors m),
      ms_succeeded = length (mt_results m), ms_failed = length (mt_errors m),
      ms_totalGasUsed = sum_list (map rr_gasUsed (mt_results m)),
      ms_avgLatencyMs = rounded_mean (mt_latencies m),
      ms_avgQueueLatencyMs = rounded_mean (mt_queueLatencies m),
      ms_avgEstimateAccuracy =
        (if length (mt_accuracy m) > 0
         then rat_of_int (js_round (sum_list (mt_accuracy m) / rat_of_nat (length (mt_accuracy m)) * 1000)) / 1000
         else 0),
      ms_collector = m\<rparr>"

definition reset_metrics :: "metrics \<Rightarrow> metrics" where
  "reset_metrics m = new_metrics"

section \<open>Latency thresholds\<close>

text \<open>
  The threshold of an operation, looked up under its name with \<open>Ms\<close> appended, and whether a duration
  violates it. \<open>overrides\<close> are the fields the caller supplies.
\<close>

definition latency_threshold :: "(string \<rightharpoonup> int) \<Rightarrow> string \<Rightarrow> int" where
  "latency_threshold overrides operation =
     (let t = [''interactiveReadMs'' \<mapsto> 1000, ''dashboardLoadMs'' \<mapsto> 2000,
               ''renewalExecutionMs'' \<mapsto> 30000] ++ overrides
      in case t (operation @ ''Ms'') of Some v \<Rightarrow> v | None \<Rightarrow> or_default (t ''interactiveReadMs'') 1000)"

definition recordLatency :: "(string \<rightharpoonup> int) \<Rightarrow> string \<Rightarrow> int \<Rightarrow> bool" where
  "recordLatency overrides operation durationMs = (durationMs > latency_threshold overrides operation)"

section \<open>Anomalies\<close>

text \<open>The creation times and organizations of the API keys are a table of their own.\<close>

type_synonym key_rows = "(string \<times> int) list"

definition caused :: "(string \<times> json) list \<Rightarrow> json" where
  "caused details =
     JObj (filter (\<lambda>f. fst f \<noteq> ''triggeredBy'') details
       @ [(''triggeredBy'', JObj [(''cause'', JStr ''system:anomaly-detector'')])])"

text \<open>Three inserts; the ids come from the tables, an error is caught and logged.\<close>

definition createAlertEvent ::
    "(string \<Rightarrow> nat \<Rightarrow> string) \<Rightarrow> int \<Rightarrow> string \<Rightarrow> string \<Rightarrow> string \<Rightarrow> string \<Rightarrow> (string \<times> json) list
     \<Rightarrow> db \<Rightarrow> db" where
  "createAlertEvent ids now org eventType severity msg details d =
     (if \<not> is_uuid org then d
      else d\<lparr>db_events := db_events d @
               [(new_event (ids ''alert_events'' (length (db_events d))) now org eventType msg)
                  \<lparr>ev_severity := severity, ev_details := Some (caused details)\<rparr>],
             db_audits := db_audits d @
               [(new_audit (ids ''audit_logs'' (length (db_audits d))) now org eventType
                   ''anomaly_detection'')\<lparr>au_details := Some (caused details)\<rparr>],
             db_feed := db_feed d @
               [(new_feed (ids ''activity_feed'' (length (db_feed d))) now org ''system'' eventType
                   ''anomaly_detection''
                   (''Anomaly detected: '' @ eventType @ '' '' @ em_dash @ '' '' @ msg))
                  \<lparr>fd_details := Some (caused details)\<rparr>]\<rparr>)"

definition anomaly_check ::
    "(string \<Rightarrow> nat \<Rightarrow> string) \<Rightarrow> int \<Rightarrow> string \<Rightarrow> string \<Rightarrow> string \<Rightarrow> nat \<Rightarrow> int \<Rightarrow> (db \<Rightarrow> nat)
     \<Rightarrow> db \<Rightarrow> thrown + db" where
  "anomaly_check ids now org eventType label threshold windowSeconds cnt d =
     bindE (uuid_param (Some org)) (\<lambda>_.
       Inr (if cnt d > threshold
            then createAlertEvent ids now org eventType ''warning''
                   (label @ '': '' @ show_nat (cnt d) @ '' in '' @ show_int windowSeconds
                    @ ''s (threshold: '' @ show_nat threshold @ '')'')
                   [(''actual'', JNum (int (cnt d))), (''threshold'', JNum (int threshold)),
                    (''windowSeconds'', JNum windowSeconds)] d
            else d))"

definition checkExcessiveManualRenewals ::
    "(string \<Rightarrow> nat \<Rightarrow> string) \<Rightarrow> int \<Rightarrow> string \<Rightarrow> nat \<Rightarrow> int \<Rightarrow> db \<Rightarrow> thrown + db" where
  "checkExcessiveManualRenewals ids now org threshold w =
     anomaly_check ids now org ''anomaly.excessive_manual_renewals'' ''Manual renewals'' threshold w
       (\<lambda>d. length (filter (\<lambda>j. rj_orgId j = org \<and> rj_createdAt j > now - 1000 * w) (db_jobs d)))"

definition checkExcessiveFailedRenewals ::
    "(string \<Rightarrow> nat \<Rightarrow> string) \<Rightarrow> int \<Rightarrow> string \<Rightarrow> nat \<Rightarrow> int \<Rightarrow> db \<Rightarrow> thrown + db" where
  "checkExcessiveFailedRenewals ids now org threshold w =
     anomaly_check ids now org ''anomaly.excessive_failed_renewals'' ''Failed renewals'' threshold w
       (\<lambda>d. length (filter (\<lambda>j. rj_orgId j = org \<and> rj_status j = ''failed_final''
                               \<and> rj_createdAt j > now - 1000 * w) (db_jobs d)))"

definition checkExcessiveApiKeyCreations ::
    "(string \<Rightarrow> nat \<Rightarrow> string) \<Rightarrow> int \<Rightarrow> key_rows \<Rightarrow> string \<Rightarrow> nat \<Rightarrow> int \<Rightarrow> db \<Rightarrow> thrown + db" where
  "checkExcessiveApiKeyCreations ids now apiKeys org threshold w =
     anomaly_check ids now org ''anomaly.excessive_api_key_creations'' ''API key creations'' threshold w
       (\<lambda>d. length (filter (\<lambda>(o', t). o' = org \<and> t > now - 1000 * w) apiKeys))"

fun anomaly_loop ::
    "(string \<Rightarrow> nat \<Rightarrow> string) \<Rightarrow> int \<Rightarrow> key_rows \<Rightarrow> string list \<Rightarrow> db \<Rightarrow> thrown + db" where
  "anomaly_loop ids now apiKeys [] d = Inr d"
| "anomaly_loop ids now apiKeys (org # orgs) d =
     bindE (checkExcessiveManualRenewals ids now org 10 60 d) (\<lambda>d1.
     bindE (checkExcessiveFailedRenewals ids now org 20 3600 d1) (\<lambda>d2.
     bindE (checkExcessiveApiKeyCreations ids now apiKeys org 5 300 d2) (\<lambda>d3.
       anomaly_loop ids now apiKeys orgs d3)))"

definition active_orgs :: "int \<Rightarrow> db \<Rightarrow> string list" where
  "active_orgs now d =
     remdups (map rj_orgId (filter (\<lambda>j. rj_createdAt j > now - 3600000) (db_jobs d)))"

definition runAnomalyDetection ::
    "(string \<Rightarrow> nat \<Rightarrow> string) \<Rightarrow> int \<Rightarrow> key_rows \<Rightarrow> db \<Rightarrow> thrown + db" where
  "runAnomalyDetection ids now apiKeys d =
     (let activeOrgs = active_orgs now d;
          orgs = (if length activeOrgs > 0 then activeOrgs else [''system''])
      in anomaly_loop ids now apiKeys orgs d)"

section \<open>Systemic errors\<close>

record systemic_context =
  sy_affectedOrgCount :: "int option"
  sy_affectedTenantCount :: "int option"
  sy_component :: string
  sy_remediation :: "string option"
  sy_traceId :: "string option"

text \<open>The counters of alerts per component and error name, with the start of their window.\<close>

type_synonym alert_counts = "string \<rightharpoonup> nat \<times> int"

definition rate_limited ::
    "int \<Rightarrow> string \<Rightarrow> alert_counts \<Rightarrow> bool \<times> alert_counts" where
  "rate_limited now key counts =
     (case counts key of
        Some (n, start) \<Rightarrow>
          if now - start < 300000 then (n + 1 > 3, counts(key \<mapsto> (n + 1, start)))
          else (False, counts(key \<mapsto> (1, now)))
      | None \<Rightarrow> (False, counts(key \<mapsto> (1, now))))"

definition opt_field :: "string \<Rightarrow> ('a \<Rightarrow> json) \<Rightarrow> 'a option \<Rightarrow> (string \<times> json) list" where
  "opt_field k f v = (case v of Some x \<Rightarrow> [(k, f x)] | None \<Rightarrow> [])"

text \<open>The rows are inserted for the organization \<open>system\<close>; the columns are uuids.\<close>

definition insert_for ::
    "string \<Rightarrow> (db \<Rightarrow> db) \<Rightarrow> db \<Rightarrow> thrown + db" where
  "insert_for org f d = bindE (uuid_param (Some org)) (\<lambda>_. Inr (f d))"

definition handleSystemicError ::
    "(string \<Rightarrow> nat \<Rightarrow> string) \<Rightarrow> int \<Rightarrow> string \<Rightarrow> string \<Rightarrow> string option \<Rightarrow> systemic_context
     \<Rightarrow> alert_counts \<Rightarrow> db \<Rightarrow> (thrown + unit) \<times> alert_counts \<times> db" where
  "handleSystemicError ids now name msg stack ctx counts d =
     (case rate_limited now (sy_component ctx @ '':'' @ name) counts of
        (limited, counts') \<Rightarrow>
          if limited then (Inr (), counts', d)
          else
            (let eventType = (if name = ''SystemicError'' \<or> sy_component ctx = ''system''
                              then ''system.degraded'' else ''system.error'');
                 text = sy_component ctx @ '': '' @ msg;
                 remediation = or_default (truthy (sy_remediation ctx)) ''Investigate logs'';
                 details = JObj ([(''component'', JStr (sy_component ctx))]
                   @ opt_field ''affectedOrgCount'' JNum (sy_affectedOrgCount ctx)
                   @ opt_field ''affectedTenantCount'' JNum (sy_affectedTenantCount ctx)
                   @ [(''suggestedRemediation'', JStr remediation)]
                   @ opt_field ''stack'' JStr (map_option (take 1000) stack)
                   @ opt_field ''traceId'' JStr (sy_traceId ctx));
                 event = (\<lambda>d. d\<lparr>db_events := db_events d @
                   [(new_event (ids ''alert_events'' (length (db_events d))) now ''system'' eventType text)
                      \<lparr>ev_severity := ''error'', ev_details := Some details\<rparr>]\<rparr>);
                 audit = (\<lambda>d. d\<lparr>db_audits := db_audits d @
                   [(new_audit (ids ''audit_logs'' (length (db_audits d))) now ''system'' eventType
                       ''systemic_error'')
                      \<lparr>au_details := Some (JObj ([(''component'', JStr (sy_component ctx)),
                         (''message'', JStr msg)] @ opt_field ''traceId'' JStr (sy_traceId ctx)))\<rparr>]\<rparr>);
                 feed = (\<lambda>d. d\<lparr>db_feed := db_feed d @
                   [(new_feed (ids ''activity_feed'' (length (db_feed d))) now ''system'' ''system''
                       eventType ''system'' text)
                      \<lparr>fd_actorId := Some ''systemic-alert-handler'', fd_traceId := truthy (sy_traceId ctx),
                       fd_details := Some (JObj ([(''component'', JStr (sy_component ctx))]
                         @ opt_field ''suggestedRemediation'' JStr (sy_remediation ctx)))\<rparr>]\<rparr>)
             in case insert_for ''system'' event d of
                  Inl e \<Rightarrow> (Inl e, counts', d)
                | Inr d1 \<Rightarrow>
                    (case insert_for ''system'' audit d1 of
                       Inl e \<Rightarrow> (Inl e, counts', d1)
                     | Inr d2 \<Rightarrow>
                         (case insert_for ''system'' feed d2 of
                            Inl e \<Rightarrow> (Inl e, counts', d2)
                          | Inr d3 \<Rightarrow> (Inr (), counts', d3)))))"

section \<open>Facts\<close>

lemma length_push_capped: "length xs \<le> n \<Longrightarrow> length (push_capped n x xs) = min n (length xs + 1)"
  by (auto simp: push_capped_def Let_def)

lemma length_map_set: "length (map_set k v xs) \<le> length xs + 1"
  by (induction xs) auto

lemma completion_frame [simp]:
  "mt_results (recordCompletion now v m) = mt_results m"
  "mt_errors (recordCompletion now v m) = mt_errors m"
  by (simp_all add: recordCompletion_def split: option.split)

lemma upd_first_length [simp]: "length (upd_first p f xs) = length xs"
  by (induction xs) auto

lemma upd_first_all:
  "list_all Q xs \<Longrightarrow> (\<And>x. Q x \<Longrightarrow> p x \<Longrightarrow> Q (f x)) \<Longrightarrow> list_all Q (upd_first p f xs)"
  by (induction xs) auto

lemma not_uuid_system: "\<not> is_uuid ''system''"
  by (simp add: is_uuid_def hex_digit_def is_digit_def)

lemma insert_for_system: "insert_for ''system'' f d = Inl (uuid_error ''system'')"
  by (simp add: insert_for_def uuid_param_def not_uuid_system)

text \<open>Every operation of the monitor as one relation, for invariants.\<close>

inductive monitor_step :: "job_monitor \<Rightarrow> job_monitor \<Rightarrow> bool" where
  mon_start: "startJob i now ty ety eid org trace m = Inr (i, m') \<Longrightarrow> monitor_step m m'"
| mon_complete: "monitor_step m (completeMonitorJob now i metadata m)"
| mon_fail: "monitor_step m (failMonitorJob now i e m)"
| mon_reset: "monitor_step m (reset_monitor m)"

inductive_cases monitor_stepE: "monitor_step m m'"

definition record_typed :: "job_record \<Rightarrow> bool" where
  "record_typed j \<longleftrightarrow>
     (if mj_status j = ''running'' then mj_completedAt j = None \<and> mj_durationMs j = None
      else mj_status j \<in> {''success'', ''failed''} \<and> mj_completedAt j \<noteq> None \<and> mj_durationMs j \<noteq> None)"

definition row_typed :: "execution_row \<Rightarrow> bool" where
  "row_typed r \<longleftrightarrow>
     (if jx_status r = ''running'' then jx_completedAt r = None \<and> jx_durationMs r = None
      else jx_status r \<in> {''completed'', ''failed''} \<and> jx_completedAt r \<noteq> None \<and> jx_durationMs r \<noteq> None)"

definition monitor_typed :: "nat \<Rightarrow> job_monitor \<Rightarrow> bool" where
  "monitor_typed n m \<longleftrightarrow>
     mo_maxRecords m = n \<and> length (mo_jobs m) \<le> n
     \<and> list_all record_typed (mo_jobs m) \<and> list_all row_typed (mo_table m)"

lemma sql_update_all:
  "list_all Q xs \<Longrightarrow> (\<And>x. Q x \<Longrightarrow> p x \<Longrightarrow> Q (f x)) \<Longrightarrow> list_all Q (sql_update p f xs)"
  by (induction xs) auto

lemma finish_typed:
  assumes "monitor_typed n m"
    and "\<And>r. row_typed r \<Longrightarrow>
      row_typed (f (r\<lparr>jx_completedAt := Some now, jx_durationMs := Some (now - jx_startedAt r)\<rparr>))"
    and "\<And>j. record_typed j \<Longrightarrow>
      record_typed (g (j\<lparr>mj_completedAt := Some now, mj_durationMs := Some (now - mj_startedAt j)\<rparr>))"
  shows "monitor_typed n (finish_job now i f g m)"
  using assms by (auto simp: monitor_typed_def finish_job_def Let_def intro!: sql_update_all upd_first_all)

lemma start_typed:
  assumes "monitor_typed n m" and "startJob i now ty ety eid org trace m = Inr (i, m')"
  shows "monitor_typed n m'"
proof -
  have "list_all Q (drop k xs)" if "list_all Q xs" for Q k and xs :: "job_record list"
    using that by (auto simp: list_all_iff dest: in_set_dropD)
  with assms show ?thesis
    by (auto simp: monitor_typed_def startJob_def trimRecords_def bindE_Inr_iff record_typed_def row_typed_def)
qed

lemma startJob_rows:
  "startJob i now ty ety eid org trace m = Inr (j, m') \<Longrightarrow> j = i \<and> length (mo_table m') = Suc (length (mo_table m))"
  by (auto simp: startJob_def trimRecords_def bindE_Inr_iff)

interpretation monitor_run: step_invariant monitor_step "monitor_typed n" for n
proof
  fix m m'
  assume typed: "monitor_typed n m" and "monitor_step m m'"
  from this(2) show "monitor_typed n m'"
  proof cases
    case mon_start
    with typed show ?thesis by (blast intro: start_typed)
  next
    case mon_complete
    show ?thesis unfolding mon_complete completeMonitorJob_def
      by (rule finish_typed [OF typed]) (auto simp: record_typed_def row_typed_def)
  next
    case mon_fail
    show ?thesis unfolding mon_fail failMonitorJob_def
      by (rule finish_typed [OF typed]) (auto simp: record_typed_def row_typed_def)
  qed (use typed in \<open>simp add: monitor_typed_def reset_monitor_def\<close>)
qed

lemma stats_snoc: "stats_of (js @ [j]) = count_job j (stats_of js)"
  by (simp add: stats_of_def count_job_def Let_def)

lemma stats_loop_spec:
  assumes "\<And>ty. t ty = (if filter (\<lambda>j. mj_type j = ty) pre = [] then None
                         else Some (stats_of (filter (\<lambda>j. mj_type j = ty) pre)))"
  shows "stats_loop js t ty =
    (if filter (\<lambda>j. mj_type j = ty) (pre @ js) = [] then None
     else Some (stats_of (filter (\<lambda>j. mj_type j = ty) (pre @ js))))"
  using assms
proof (induction js arbitrary: pre t)
  case (Cons j js)
  have z: "stats_of [] = zero_stats" by (simp add: stats_of_def zero_stats_def)
  let ?t = "t(mj_type j \<mapsto> count_job j (or_default (t (mj_type j)) zero_stats))"
  have "?t ty = (if filter (\<lambda>j. mj_type j = ty) (pre @ [j]) = [] then None
      else Some (stats_of (filter (\<lambda>j. mj_type j = ty) (pre @ [j]))))" for ty
    using Cons.prems [of ty] stats_snoc [of "filter (\<lambda>j. mj_type j = ty) pre" j]
    by (auto simp: z [symmetric])
  from Cons.IH [of ?t "pre @ [j]", OF this] show ?case by (simp only: stats_loop.simps append_assoc append.simps)
qed simp

section \<open>Properties\<close>

text \<open>
  C24: the records of the monitor stay well-formed: it holds at most its maximum, a record is running,
  succeeded or failed, and has a completion time and a duration exactly when it is not running; so do
  the rows of the table, and the counters of the statistics add up. The maximum bounds the records in memory only: a start
  that succeeds adds a row to the table, whatever it trims, and no operation removes one.
\<close>

theorem monitor_well_typed:
  assumes "monitor_step\<^sup>*\<^sup>* (new_monitor n []) m"
  shows "monitor_typed n m
    \<and> js_total (fst (getStats m))
        = js_success (fst (getStats m)) + js_failed (fst (getStats m)) + js_running (fst (getStats m))
    \<and> (case startJob i now ty ety eid org trace m of
         Inl e \<Rightarrow> True
       | Inr (j, m') \<Rightarrow> length (mo_jobs m') \<le> n \<and> length (mo_table m') = Suc (length (mo_table m)))"
proof -
  have "monitor_typed n (new_monitor n [])" by (simp add: monitor_typed_def new_monitor_def)
  from monitor_run.reachable [OF assms this] have typed: "monitor_typed n m" .
  have sum: "length js = length (filter (\<lambda>j. mj_status j = ''success'') js)
      + length (filter (\<lambda>j. mj_status j = ''failed'') js) + length (filter (\<lambda>j. mj_status j = ''running'') js)"
    if "list_all record_typed js" for js
    using that by (induction js) (auto simp: record_typed_def split: if_splits)
  have "list_all record_typed (mo_jobs m)" using typed by (simp add: monitor_typed_def)
  note counts = typed sum [OF this]
  have "case startJob i now ty ety eid org trace m of
         Inl e \<Rightarrow> True
       | Inr (j, m') \<Rightarrow> length (mo_jobs m') \<le> n \<and> length (mo_table m') = Suc (length (mo_table m))"
    using start_typed [OF typed, of i now ty ety eid org trace] startJob_rows [of i now ty ety eid org trace m]
    by (auto simp: monitor_typed_def split: sum.split)
  with counts show ?thesis by (simp only: getStats_def stats_of_def Let_def fst_conv job_stats.simps)
qed

theorem monitor_well_typed_witness:
  "\<exists>m. monitor_step\<^sup>*\<^sup>* (new_monitor 2 []) m \<and> monitor_typed 2 m \<and> mo_jobs m \<noteq> []"
proof -
  obtain m where m: "startJob ''i'' 5 ''scan'' None None None None (new_monitor 2 []) = Inr (''i'', m)"
    "mo_jobs m \<noteq> []"
    by (simp add: startJob_def uuid_param_def trimRecords_def new_monitor_def)
  then have "monitor_step\<^sup>*\<^sup>* (new_monitor 2 []) m" by (blast intro: mon_start)
  with monitor_well_typed [OF this] m(2) show ?thesis by blast
qed

text \<open>
  The counters that the loop collects per type are those of the records of that type, and a type
  without records has none.
\<close>

theorem stats_by_type_equiv:
  "getStatsByType m ty =
     (if filter (\<lambda>j. mj_type j = ty) (mo_jobs m) = [] then None
      else Some (stats_of (filter (\<lambda>j. mj_type j = ty) (mo_jobs m))))"
  unfolding getStatsByType_def by (subst stats_loop_spec [where pre = "[]"]) simp_all

text \<open>
  The numbers of attempts, successes and failures of the summary are bounded by the size of the
  lists they count: after \<open>n\<close> successes it reports \<open>n\<close> only up to 1000, though the metrics are never
  reset so as to be cumulative.
\<close>

theorem metrics_saturate:
  "ms_succeeded (summarize (fold (\<lambda>(now, r). recordSuccess now r) rs new_metrics)) = min 1000 (length rs)
   \<and> ms_failed (summarize (fold (\<lambda>(now, v, e). recordFailure now v e) fs new_metrics)) \<le> min 1000 (length fs)"
proof -
  have s: "length (mt_results (fold (\<lambda>(now, r). recordSuccess now r) rs m)) = min 1000 (length (mt_results m) + length rs)"
    if "length (mt_results m) \<le> 1000" for m
    using that
    by (induction rs arbitrary: m)
      (auto simp: recordSuccess_def Let_def length_push_capped maxResults_def)
  have "length (mt_errors (recordFailure now v e m)) \<le> min 1000 (length (mt_errors m) + 1)"
    if "length (mt_errors m) \<le> 1000" for now v e m
    using that length_map_set [of v e "mt_errors m"] by (auto simp: recordFailure_def Let_def)
  then have f: "length (mt_errors (fold (\<lambda>(now, v, e). recordFailure now v e) fs m))
      \<le> min 1000 (length (mt_errors m) + length fs)" if "length (mt_errors m) \<le> 1000" for m
    using that
  proof (induction fs arbitrary: m)
    case (Cons x fs)
    obtain now v e where x: "x = (now, v, e)" by (cases x)
    from Cons.prems(1) [OF Cons.prems(2), of now v e]
      Cons.IH [OF Cons.prems(1), of "recordFailure now v e m"]
    show ?case by (simp add: x min_def split: if_splits)
  qed simp
  from s [of new_metrics] f [of new_metrics] show ?thesis
    by (simp add: summarize_def new_metrics_def)
qed

text \<open>
  No systemic alert is ever stored: the rows are inserted for the organization \<open>system\<close>, which is
  no uuid, so that the handler throws unless the alert was over the rate limit, and changes nothing
  but its counters.
\<close>

theorem systemic_alert_never_stored:
  "fst (snd (handleSystemicError ids now name msg stack ctx counts d))
      = snd (rate_limited now (sy_component ctx @ '':'' @ name) counts)
   \<and> snd (snd (handleSystemicError ids now name msg stack ctx counts d)) = d
   \<and> (is_ok (fst (handleSystemicError ids now name msg stack ctx counts d))
      \<longleftrightarrow> fst (rate_limited now (sy_component ctx @ '':'' @ name) counts))"
  by (simp add: handleSystemicError_def insert_for_system split_beta Let_def)

end
