(* ===== verification/Schedule_Handlers.thy ===== *)
theory Schedule_Handlers
  imports Renewal_Queue
begin

text \<open>
  The work a schedule does: the built-in handlers of \<open>keeper/src/scheduler.ts\<close>, the policy reconciler
  (\<open>policy-reconciler.ts\<close>) and the clean-up (\<open>cleanup-jobs.ts\<close>). A handler returns or throws, and in
  either case leaves the database as its statements have changed it. The epoch of the chain and the
  deletion of old rows, with its cascades, are parameters.
\<close>

section \<open>Environment\<close>

record sched_env =
  se_now :: int
  se_id :: "string \<Rightarrow> nat \<Rightarrow> string"
  se_epoch :: "thrown + int"
  se_delete :: "string \<Rightarrow> int \<Rightarrow> db \<Rightarrow> thrown + nat \<times> db"

record schedule_config =
  sk_id :: string
  sk_orgId :: string
  sk_name :: string
  sk_cronExpr :: string
  sk_lastRunAt :: "int option"
  sk_lastCompletedAt :: "int option"
  sk_enabled :: bool
  sk_status :: "string option"
  sk_minIntervalMs :: "int option"
  sk_maxStalenessMs :: "int option"
  sk_config :: json
  sk_critical :: "bool option"
  sk_updatedAt :: int

type_synonym handler_result = "(thrown + bool) \<times> db"
type_synonym sched_handler = "sched_env \<Rightarrow> schedule_config \<Rightarrow> db \<Rightarrow> handler_result"

text \<open>\<open>emit\<close> of a system event; the process has no subscribers, so only the log is written.\<close>

definition sys_emit ::
    "sched_env \<Rightarrow> string \<Rightarrow> string \<Rightarrow> string \<Rightarrow> string \<Rightarrow> (string \<times> json) list option \<Rightarrow> db \<Rightarrow> db" where
  "sys_emit env name org ety eid details d =
     fst (emit True (se_id env ''event_log'' (length (db_log d))) keeper_bus
       (createEvent (se_now env) name org ety eid ActSystem (map_option JObj details) None) d)"

text \<open>
  One validated move of a blob: the check of the machine, the guarded update, and the event. With
  \<open>returning\<close> the event is emitted only when a row was updated.
\<close>

definition move_blob ::
    "sched_env \<Rightarrow> bool \<Rightarrow> string \<Rightarrow> string \<Rightarrow> (blob_row \<Rightarrow> blob_row) \<Rightarrow> string
     \<Rightarrow> (string \<times> json) list option \<Rightarrow> string \<Rightarrow> string \<Rightarrow> db \<Rightarrow> (thrown + bool) \<times> db" where
  "move_blob env returning src dst stamp ev details org i d =
     (case validateTransition loaded_machines SM_blob src dst False of
        Inl e \<Rightarrow> (Inl e, d)
      | Inr _ \<Rightarrow>
          (let p = (\<lambda>b. bl_id b = i \<and> bl_status b = src);
               f = (\<lambda>b. stamp (b\<lparr>bl_status := dst, bl_updatedAt := se_now env\<rparr>));
               hit = (first_row (res_rows (update_returning p f (db_blobs d))) \<noteq> None);
               d1 = upd_blobs p f d
           in (Inr hit,
               if \<not> returning \<or> hit then sys_emit env ev org ''blob_registration'' i details d1 else d1)))"

section \<open>Expiry\<close>

text \<open>The policy of each candidate decides; a candidate whose policy cannot be resolved is skipped.\<close>

definition near_expiry :: "db \<Rightarrow> int \<Rightarrow> blob_row \<Rightarrow> bool" where
  "near_expiry d epoch b =
     (case resolveEffectivePolicy d (bl_id b) of
        Inl _ \<Rightarrow> False
      | Inr r \<Rightarrow> or_default (bl_expiryEpoch b) 0 - epoch < max 1 (rp_renewThreshold r))"

definition expiry_check :: sched_handler where
  "expiry_check env schedule d =
     (case se_epoch env of
        Inl e \<Rightarrow> (Inl e, d)
      | Inr currentEpoch \<Rightarrow>
          (let candidates = filter (\<lambda>b. (bl_status b = ''tracked'' \<or> bl_status b = ''protected'')
                                \<and> bl_expiryEpoch b \<noteq> None \<and> bl_orgId b = sk_orgId schedule) (db_blobs d);
               toExpire = map bl_id (filter (near_expiry d currentEpoch) candidates)
           in (Inr True,
               if length toExpire > 0
               then upd_blobs (\<lambda>b. bl_id b \<in> set toExpire
                                 \<and> (bl_status b = ''tracked'' \<or> bl_status b = ''protected''))
                      (\<lambda>b. b\<lparr>bl_status := ''expiring'', bl_expiringAt := Some (se_now env),
                             bl_updatedAt := se_now env\<rparr>) d
               else d)))"

section \<open>Verification of discovered blobs\<close>

definition verify_blob :: "sched_env \<Rightarrow> blob_row \<Rightarrow> db \<Rightarrow> (thrown + unit) \<times> db" where
  "verify_blob env b d =
     (let now = Some (se_now env) in
      if length (bl_blobId b) > 0
      then (case move_blob env False ''discovered'' ''verified'' (\<lambda>b. b\<lparr>bl_verifiedAt := now\<rparr>)
                   ''blob.verified'' None (bl_orgId b) (bl_id b) d of
              (Inl e, d1) \<Rightarrow> (Inl e, d1)
            | (Inr _, d1) \<Rightarrow>
                (case move_blob env False ''verified'' ''tracked'' (\<lambda>b. b\<lparr>bl_trackedAt := now\<rparr>)
                        ''blob.tracked'' None (bl_orgId b) (bl_id b) d1 of
                   (Inl e, d2) \<Rightarrow> (Inl e, d2)
                 | (Inr _, d2) \<Rightarrow> (Inr (), d2)))
      else (case move_blob env False ''discovered'' ''archived'' (\<lambda>b. b\<lparr>bl_archivedAt := now\<rparr>)
                   ''blob.archived'' (Some [(''reason'', JStr ''blob_not_found'')]) (bl_orgId b) (bl_id b) d of
              (Inl e, d1) \<Rightarrow> (Inl e, d1)
            | (Inr _, d1) \<Rightarrow> (Inr (), d1)))"

text \<open>A loop over rows whose body may throw.\<close>

fun each_row :: "('r \<Rightarrow> db \<Rightarrow> (thrown + unit) \<times> db) \<Rightarrow> 'r list \<Rightarrow> db \<Rightarrow> (thrown + unit) \<times> db" where
  "each_row f [] d = (Inr (), d)"
| "each_row f (r # rs) d =
     (case f r d of (Inl e, d1) \<Rightarrow> (Inl e, d1) | (Inr _, d1) \<Rightarrow> each_row f rs d1)"

definition returns_true :: "(thrown + unit) \<times> db \<Rightarrow> handler_result" where
  "returns_true r = (case r of (Inl e, d) \<Rightarrow> (Inl e, d) | (Inr _, d) \<Rightarrow> (Inr True, d))"

definition blob_verification :: sched_handler where
  "blob_verification env schedule d =
     returns_true (each_row (verify_blob env)
       (filter (\<lambda>b. bl_status b = ''discovered'') (db_blobs d)) d)"

section \<open>Budget windows\<close>

text \<open>The two updates run in one transaction; the loop catches what an iteration throws.\<close>

definition roll_budget :: "sched_env \<Rightarrow> budget_row \<Rightarrow> db \<Rightarrow> (thrown + unit) \<times> db" where
  "roll_budget env bu d =
     (case bu_windowEnd bu of
        None \<Rightarrow> (Inr (), d)
      | Some wend \<Rightarrow>
          (let windowDuration = wend - bu_windowStart bu;
               newStart = wend;
               newEnd = newStart + windowDuration;
               d1 = upd_budgets (bu_id bu) (\<lambda>b. b\<lparr>bu_status := ''window_closed''\<rparr>) d;
               d2 = upd_budgets (bu_id bu) (\<lambda>b. b\<lparr>bu_status := ''active'', bu_windowStart := newStart,
                                                bu_windowEnd := Some newEnd\<rparr>) d1
           in (Inr (), sys_emit env ''budget.window_rolled_over'' (bu_orgId bu) ''budget'' (bu_id bu)
                (Some [(''budgetId'', JStr (bu_id bu)), (''previousWindowEnd'', JNum wend),
                       (''newWindowStart'', JNum newStart), (''newWindowEnd'', JNum newEnd)]) d2)))"

definition budget_rollover :: sched_handler where
  "budget_rollover env schedule d =
     returns_true (each_row (roll_budget env)
       (filter (\<lambda>b. bu_orgId b = sk_orgId schedule \<and> bu_status b = ''active''
                    \<and> (case bu_windowEnd b of Some e \<Rightarrow> e \<le> se_now env | None \<Rightarrow> False)) (db_budgets d)) d)"

section \<open>Clean-up\<close>

definition GRACE_PERIOD_DAYS :: int where
  "GRACE_PERIOD_DAYS = 30"

definition CLEANUP_TABLES :: "string list" where
  "CLEANUP_TABLES =
     [''blob_registrations'', ''wallets'', ''policies'', ''alert_rules'', ''notification_channels'',
      ''api_keys'', ''projects'', ''organizations'']"

fun cleanup_loop ::
    "sched_env \<Rightarrow> int \<Rightarrow> string list \<Rightarrow> db \<Rightarrow> (string \<times> nat) list \<times> db" where
  "cleanup_loop env cutoff [] d = ([], d)"
| "cleanup_loop env cutoff (t # ts) d =
     (case se_delete env t cutoff d of
        Inl _ \<Rightarrow> cleanup_loop env cutoff ts d
      | Inr (n, d1) \<Rightarrow> (let (rs, d2) = cleanup_loop env cutoff ts d1 in ((t, n) # rs, d2)))"

definition runCleanup :: "sched_env \<Rightarrow> db \<Rightarrow> (string \<times> nat) list \<times> db" where
  "runCleanup env d = cleanup_loop env (se_now env - GRACE_PERIOD_DAYS * 24 * 60 * 60 * 1000) CLEANUP_TABLES d"

definition cleanup_handler :: sched_handler where
  "cleanup_handler env schedule d = (Inr True, snd (runCleanup env d))"

section \<open>Policy reconciliation\<close>

text \<open>Each loop catches what an iteration throws and goes on; the counter counts the updated rows.\<close>

definition wants_protection :: "resolved_policy \<Rightarrow> bool" where
  "wants_protection r \<longleftrightarrow> truthy (rp_policyId r) \<noteq> None \<and> rp_autoRenewalEnabled r"

definition protect_blob :: "sched_env \<Rightarrow> blob_row \<Rightarrow> nat \<times> db \<Rightarrow> nat \<times> db" where
  "protect_blob env b s =
     (let d = snd s in
      case resolveEffectivePolicy d (bl_id b) of
        Inl _ \<Rightarrow> s
      | Inr r \<Rightarrow>
          if wants_protection r
          then (case move_blob env True ''tracked'' ''protected'' (\<lambda>b. b\<lparr>bl_protectedAt := Some (se_now env)\<rparr>)
                       ''blob.protected'' (Some [(''policyId'', JStr (or_default (rp_policyId r) []))])
                       (bl_orgId b) (bl_id b) d of
                  (Inl _, d1) \<Rightarrow> (fst s, d1)
                | (Inr hit, d1) \<Rightarrow> (if hit then fst s + 1 else fst s, d1))
          else s)"

definition unprotect_blob :: "sched_env \<Rightarrow> blob_row \<Rightarrow> nat \<times> db \<Rightarrow> nat \<times> db" where
  "unprotect_blob env b s =
     (let d = snd s in
      case resolveEffectivePolicy d (bl_id b) of
        Inl _ \<Rightarrow> s
      | Inr r \<Rightarrow>
          if \<not> wants_protection r
          then (case move_blob env True ''protected'' ''tracked'' (\<lambda>b. b\<lparr>bl_trackedAt := Some (se_now env)\<rparr>)
                       ''blob.unprotected''
                       (Some [(''previousPolicyId'', case rp_policyId r of Some p \<Rightarrow> JStr p | None \<Rightarrow> JNull)])
                       (bl_orgId b) (bl_id b) d of
                  (Inl _, d1) \<Rightarrow> (fst s, d1)
                | (Inr hit, d1) \<Rightarrow> (if hit then fst s + 1 else fst s, d1))
          else s)"

definition in_org :: "string option \<Rightarrow> blob_row \<Rightarrow> bool" where
  "in_org org b = (case truthy org of Some o' \<Rightarrow> bl_orgId b = o' | None \<Rightarrow> True)"

definition reconcilePolicies :: "sched_env \<Rightarrow> string option \<Rightarrow> db \<Rightarrow> nat \<times> nat \<times> db" where
  "reconcilePolicies env org d =
     (let tracked = filter (\<lambda>b. bl_status b = ''tracked'' \<and> in_org org b) (db_blobs d);
          (matched, d1) = fold (protect_blob env) tracked (0, d);
          protected = filter (\<lambda>b. bl_status b = ''protected'' \<and> in_org org b) (db_blobs d1);
          (unmatched, d2) = fold (unprotect_blob env) protected (0, d1)
      in (matched, unmatched, d2))"

definition policy_reconciliation :: sched_handler where
  "policy_reconciliation env schedule d =
     (case reconcilePolicies env (Some (sk_orgId schedule)) d of (m, u, d1) \<Rightarrow> (Inr True, d1))"

section \<open>Expired and orphaned blobs\<close>

definition expire_blobs :: sched_handler where
  "expire_blobs env schedule d =
     (case se_epoch env of
        Inl e \<Rightarrow> (Inl e, d)
      | Inr currentEpoch \<Rightarrow>
          returns_true (each_row
            (\<lambda>b d. (case move_blob env False ''expiring'' ''expired'' (\<lambda>b. b\<lparr>bl_expiredAt := Some (se_now env)\<rparr>)
                          ''blob.expired'' (Some [(''currentEpoch'', JNum currentEpoch)])
                          (bl_orgId b) (bl_id b) d of
                     (Inl e, d1) \<Rightarrow> (Inl e, d1) | (Inr _, d1) \<Rightarrow> (Inr (), d1)))
            (filter (\<lambda>b. bl_status b = ''expiring'' \<and> bl_orgId b = sk_orgId schedule
                \<and> (case bl_expiryEpoch b of Some x \<Rightarrow> x < currentEpoch | None \<Rightarrow> False)) (db_blobs d)) d))"

text \<open>The join finds no wallet also for a blob that names none; the update checks no machine.\<close>

definition orphaned :: "db \<Rightarrow> blob_row \<Rightarrow> bool" where
  "orphaned d b \<longleftrightarrow>
     (case bl_walletId b of None \<Rightarrow> True | Some w \<Rightarrow> w \<notin> wa_id ` set (db_wallets d))
     \<and> bl_deletedAt b = None \<and> bl_status b \<noteq> ''archived''"

definition archive_orphan :: "sched_env \<Rightarrow> blob_row \<Rightarrow> db \<Rightarrow> (thrown + unit) \<times> db" where
  "archive_orphan env b d =
     (Inr (), sys_emit env ''blob.archived'' (bl_orgId b) ''blob_registration'' (bl_id b)
        (Some [(''reason'', JStr ''orphaned_wallet'')])
        (upd_blobs (\<lambda>r. bl_id r = bl_id b \<and> bl_status r \<noteq> ''archived'')
           (\<lambda>r. r\<lparr>bl_status := ''archived'', bl_archivedAt := Some (se_now env),
                  bl_updatedAt := se_now env\<rparr>) d))"

definition orphan_check :: sched_handler where
  "orphan_check env schedule d =
     returns_true (each_row (archive_orphan env) (filter (orphaned d) (db_blobs d)) d)"

section \<open>The registry\<close>

definition registerScheduleHandler ::
    "string \<Rightarrow> sched_handler \<Rightarrow> (string \<rightharpoonup> sched_handler) \<Rightarrow> string \<rightharpoonup> sched_handler" where
  "registerScheduleHandler ty h reg = reg(ty \<mapsto> h)"

definition built_in_handlers :: "string \<rightharpoonup> sched_handler" where
  "built_in_handlers =
     fold (\<lambda>(ty, h). registerScheduleHandler ty h)
       [(''expiry_check'', expiry_check), (''blob_verification'', blob_verification),
        (''budget_rollover'', budget_rollover), (''cleanup'', cleanup_handler),
        (''policy_reconciliation'', policy_reconciliation), (''expire_blobs'', expire_blobs),
        (''orphan_check'', orphan_check)] Map.empty"

section \<open>Facts\<close>

lemma sys_emit_frame [simp]:
  "db_blobs (sys_emit env n org ety eid det d) = db_blobs d"
  "db_jobs (sys_emit env n org ety eid det d) = db_jobs d"
  "config_of (sys_emit env n org ety eid det d) = config_of d"
  by (simp_all add: sys_emit_def keeper_emit)

lemma sys_emit_tables [simp]:
  "db_budgets (sys_emit env n org ety eid det d) = db_budgets d"
  "db_audits (sys_emit env n org ety eid det d) = db_audits d"
  "db_wallets (sys_emit env n org ety eid det d) = db_wallets d"
  by (simp_all add: sys_emit_def keeper_emit log_event_def)

definition moved :: "sched_env \<Rightarrow> string \<Rightarrow> string \<Rightarrow> (blob_row \<Rightarrow> blob_row) \<Rightarrow> string \<Rightarrow> db \<Rightarrow> db" where
  "moved env src dst stamp i =
     upd_blobs (\<lambda>b. bl_id b = i \<and> bl_status b = src)
       (\<lambda>b. stamp (b\<lparr>bl_status := dst, bl_updatedAt := se_now env\<rparr>))"

text \<open>A move along an edge of the machine succeeds and changes the row as its update says.\<close>

lemma edge_valid:
  "(src, dst) \<in> set (edges SM_blob) \<Longrightarrow> \<exists>t. validateTransition loaded_machines SM_blob src dst False = Inr t"
  using validate_ok_iff [of SM_blob src dst False]
  by (cases "validateTransition loaded_machines SM_blob src dst False") auto

lemma move_edge:
  assumes "(src, dst) \<in> set (edges SM_blob)"
  shows "fst (move_blob env rt src dst stamp ev det org i d) =
           Inr (\<exists>b \<in> set (db_blobs d). bl_id b = i \<and> bl_status b = src)"
    and "db_blobs (snd (move_blob env rt src dst stamp ev det org i d)) = db_blobs (moved env src dst stamp i d)"
    and "db_jobs (snd (move_blob env rt src dst stamp ev det org i d)) = db_jobs d"
    and "config_of (snd (move_blob env rt src dst stamp ev det org i d)) = config_of d"
proof -
  have u: "db_jobs (upd_blobs p f d) = db_jobs d" for p f by (simp add: upd_blobs_def)
  from edge_valid [OF assms] obtain t where t: "validateTransition loaded_machines SM_blob src dst False = Inr t" by blast
  show "fst (move_blob env rt src dst stamp ev det org i d) =
      Inr (\<exists>b \<in> set (db_blobs d). bl_id b = i \<and> bl_status b = src)"
    by (auto simp: t move_blob_def Let_def update_returning_def first_row_None filter_empty_conv)
  show "db_blobs (snd (move_blob env rt src dst stamp ev det org i d)) = db_blobs (moved env src dst stamp i d)"
    "db_jobs (snd (move_blob env rt src dst stamp ev det org i d)) = db_jobs d"
    "config_of (snd (move_blob env rt src dst stamp ev det org i d)) = config_of d"
    by (simp_all add: t move_blob_def moved_def Let_def u)
qed

lemma handler_edges [simp]:
  "(''discovered'', ''verified'') \<in> set (edges SM_blob)"
  "(''verified'', ''tracked'') \<in> set (edges SM_blob)"
  "(''discovered'', ''archived'') \<in> set (edges SM_blob)"
  "(''tracked'', ''protected'') \<in> set (edges SM_blob)"
  "(''protected'', ''tracked'') \<in> set (edges SM_blob)"
  "(''expiring'', ''expired'') \<in> set (edges SM_blob)"
  by (simp_all add: edges_def blob_machine_def)

text \<open>What a stamp leaves alone.\<close>

definition stamp_ok :: "(blob_row \<Rightarrow> blob_row) \<Rightarrow> bool" where
  "stamp_ok stamp \<longleftrightarrow> (\<forall>b. blob_key (stamp b) = blob_key b \<and> bl_status (stamp b) = bl_status b)"

lemma stamps [simp]:
  "stamp_ok (\<lambda>b. b\<lparr>bl_verifiedAt := t\<rparr>)" "stamp_ok (\<lambda>b. b\<lparr>bl_trackedAt := t\<rparr>)"
  "stamp_ok (\<lambda>b. b\<lparr>bl_archivedAt := t\<rparr>)" "stamp_ok (\<lambda>b. b\<lparr>bl_protectedAt := t\<rparr>)"
  "stamp_ok (\<lambda>b. b\<lparr>bl_expiredAt := t\<rparr>)"
  by (simp_all add: stamp_ok_def blob_key_def)

lemma stamped:
  assumes "stamp_ok stamp"
  shows "blob_key (stamp (b\<lparr>bl_status := dst, bl_updatedAt := t\<rparr>)) = blob_key b"
    "bl_status (stamp (b\<lparr>bl_status := dst, bl_updatedAt := t\<rparr>)) = dst"
  using assms by (simp_all add: stamp_ok_def blob_key_def)

lemma move_touches:
  assumes "(src, dst) \<in> set (edges SM_blob)" and "stamp_ok stamp"
  shows "touches_only j i d (snd (move_blob env rt src dst stamp ev det org i d))"
proof -
  have "touches_only j i d (moved env src dst stamp i d)"
    unfolding moved_def by (rule touches_blobs) (use assms(2) in \<open>auto simp: stamped\<close>)
  moreover have "db_jobs (moved env src dst stamp i d) = db_jobs d"
    "config_of (moved env src dst stamp i d) = config_of d"
    by (simp_all add: moved_def upd_blobs_def config_of_def)
  ultimately show ?thesis
    using touches_events [of "snd (move_blob env rt src dst stamp ev det org i d)" "moved env src dst stamp i d"]
      move_edge(2-4) [OF assms(1)] by simp
qed

subsection \<open>Moves along the machine\<close>

definition blobs_follow :: "db \<Rightarrow> db \<Rightarrow> bool" where
  "blobs_follow d d' \<longleftrightarrow>
     list_all2 (\<lambda>b b'. blob_key b' = blob_key b \<and> (step_ok SM_blob)\<^sup>*\<^sup>* (bl_status b) (bl_status b'))
       (db_blobs d) (db_blobs d')"

lemma follow_refl: "db_blobs d' = db_blobs d \<Longrightarrow> blobs_follow d d'"
  by (simp add: blobs_follow_def list_all2_refl)

lemma follow_trans:
  assumes "blobs_follow d d1" and "blobs_follow d1 d2"
  shows "blobs_follow d d2"
  using list_all2_trans [OF _ assms [unfolded blobs_follow_def]]
  unfolding blobs_follow_def by (rule meta_mp) (auto intro: rtranclp_trans)

lemma follow_keys:
  assumes "blobs_follow d d'"
  shows "map blob_key (db_blobs d') = map blob_key (db_blobs d)"
  using assms unfolding blobs_follow_def by (induction rule: list_all2_induct) auto

lemma follow_move:
  assumes "(src, dst) \<in> set (edges SM_blob)" and "stamp_ok stamp"
  shows "blobs_follow d (snd (move_blob env rt src dst stamp ev det org i d))"
proof -
  have "step_ok SM_blob src dst" using assms(1) by (simp add: step_ok_iff)
  then show ?thesis
    unfolding blobs_follow_def move_edge(2) [OF assms(1)]
    using stamped [OF assms(2)]
    by (auto simp: moved_def upd_blobs_def sql_update_def list_all2_map2 intro!: list_all2_refl)
qed

lemma follow_each:
  assumes "\<And>r d. blobs_follow d (snd (f r d))"
  shows "blobs_follow d (snd (each_row f rs d))"
proof (induction rs arbitrary: d)
  case Nil
  then show ?case by (simp add: follow_refl)
next
  case (Cons r rs)
  have "blobs_follow d (snd (f r d))" by (rule assms)
  with Cons [of "snd (f r d)"] show ?case
    by (cases "f r d"; cases "fst (f r d)") (auto intro: follow_trans)
qed

lemma snd_returns_true [simp]: "snd (returns_true r) = snd r"
  by (cases r; cases "fst r") (auto simp: returns_true_def)

lemma follow_verify: "blobs_follow d (snd (verify_blob env b d))"
proof (cases "length (bl_blobId b) > 0")
  case True
  then show ?thesis
    by (simp add: verify_blob_def Let_def split_beta move_edge(1))
      (rule follow_trans [OF follow_move follow_move], simp_all)
next
  case False
  then show ?thesis
    by (simp add: verify_blob_def Let_def split_beta move_edge(1)) (rule follow_move, simp_all)
qed

lemma follow_fold:
  assumes "\<And>b s. blobs_follow (snd s) (snd (f b s))"
  shows "blobs_follow (snd s) (snd (fold f bs s))"
proof (induction bs arbitrary: s)
  case Nil
  then show ?case by (simp add: follow_refl)
next
  case (Cons b bs)
  from assms [of s b] Cons [of "f b s"] show ?case by (auto intro: follow_trans)
qed

lemma follow_protect:
  "blobs_follow (snd s) (snd (protect_blob env b s))" "blobs_follow (snd s) (snd (unprotect_blob env b s))"
  by (auto simp: protect_blob_def unprotect_blob_def Let_def split_beta move_edge(1)
      intro: follow_refl follow_move split: sum.split)

lemma follow_reconcile: "blobs_follow d (snd (snd (reconcilePolicies env org d)))"
proof -
  let ?s1 = "fold (protect_blob env) (filter (\<lambda>b. bl_status b = ''tracked'' \<and> in_org org b) (db_blobs d)) (0, d)"
  have "blobs_follow d (snd ?s1)" using follow_fold [OF follow_protect(1), of "(0, d)"] by simp
  moreover have "blobs_follow (snd ?s1) (snd (fold (unprotect_blob env) bs (0, snd ?s1)))" for bs
    using follow_fold [OF follow_protect(2), of "(0, snd ?s1)"] by simp
  ultimately show ?thesis
    by (simp add: reconcilePolicies_def Let_def split_beta) (blast intro: follow_trans)
qed

subsection \<open>Statuses\<close>

definition blob_statuses :: "db \<Rightarrow> (string \<times> string) list" where
  "blob_statuses d = map (\<lambda>b. (bl_id b, bl_status b)) (db_blobs d)"

text \<open>Whether the policy of a blob asks for its protection; an unresolved policy does not.\<close>

definition governed :: "db \<Rightarrow> string \<Rightarrow> bool" where
  "governed d i = (case resolveEffectivePolicy d i of Inr r \<Rightarrow> wants_protection r | Inl _ \<Rightarrow> False)"

lemma resolve_present:
  assumes "i \<in> bl_id ` set (db_blobs d)"
  shows "\<exists>r. resolveEffectivePolicy d i = Inr r \<and> governed d i = wants_protection r"
proof -
  from assms have "first_row (filter (\<lambda>b. bl_id b = i) (db_blobs d)) \<noteq> None"
    by (auto simp: first_row_filter_None)
  then obtain b where "first_row (filter (\<lambda>b. bl_id b = i) (db_blobs d)) = Some b" by blast
  from resolve_found [OF this] show ?thesis by (auto simp: governed_def)
qed

lemma statuses_move:
  assumes "(src, dst) \<in> set (edges SM_blob)" and "stamp_ok stamp"
  shows "blob_statuses (snd (move_blob env rt src dst stamp ev det org i d)) =
    map (\<lambda>(k, s). (k, if k = i \<and> s = src then dst else s)) (blob_statuses d)"
proof -
  have "bl_id (stamp (b\<lparr>bl_status := dst, bl_updatedAt := t\<rparr>)) = bl_id b" for b t
    using stamped(1) [OF assms(2)] by (simp add: blob_key_def)
  then show ?thesis
    unfolding blob_statuses_def move_edge(2) [OF assms(1)]
    using stamped(2) [OF assms(2)] by (auto simp: moved_def upd_blobs_def sql_update_def)
qed

lemma governed_move:
  assumes "(src, dst) \<in> set (edges SM_blob)" and "stamp_ok stamp"
  shows "governed (snd (move_blob env rt src dst stamp ev det org i d)) k = governed d k"
  unfolding governed_def effective_policy_cong [OF move_touches [OF assms]] ..

lemma ids_of_statuses: "bl_id ` set (db_blobs d) = fst ` set (blob_statuses d)"
  by (force simp: blob_statuses_def)

lemma protect_statuses:
  assumes "bl_id b \<in> fst ` set (blob_statuses (snd s))"
  shows "blob_statuses (snd (protect_blob env b s)) =
      map (\<lambda>(k, t). (k, if k = bl_id b \<and> t = ''tracked'' \<and> governed (snd s) k then ''protected'' else t))
        (blob_statuses (snd s))"
    and "governed (snd (protect_blob env b s)) k = governed (snd s) k"
proof -
  from assms resolve_present [of "bl_id b" "snd s"] obtain r where
    r: "resolveEffectivePolicy (snd s) (bl_id b) = Inr r" "governed (snd s) (bl_id b) = wants_protection r"
    by (auto simp: ids_of_statuses)
  then show "blob_statuses (snd (protect_blob env b s)) =
      map (\<lambda>(k, t). (k, if k = bl_id b \<and> t = ''tracked'' \<and> governed (snd s) k then ''protected'' else t))
        (blob_statuses (snd s))"
    by (auto simp: protect_blob_def Let_def split_beta move_edge(1) statuses_move intro!: map_idI [symmetric])
  from r show "governed (snd (protect_blob env b s)) k = governed (snd s) k"
    by (simp add: protect_blob_def Let_def split_beta move_edge(1) governed_move)
qed

lemma unprotect_statuses:
  assumes "bl_id b \<in> fst ` set (blob_statuses (snd s))"
  shows "blob_statuses (snd (unprotect_blob env b s)) =
      map (\<lambda>(k, t). (k, if k = bl_id b \<and> t = ''protected'' \<and> \<not> governed (snd s) k then ''tracked'' else t))
        (blob_statuses (snd s))"
    and "governed (snd (unprotect_blob env b s)) k = governed (snd s) k"
proof -
  from assms resolve_present [of "bl_id b" "snd s"] obtain r where
    r: "resolveEffectivePolicy (snd s) (bl_id b) = Inr r" "governed (snd s) (bl_id b) = wants_protection r"
    by (auto simp: ids_of_statuses)
  then show "blob_statuses (snd (unprotect_blob env b s)) =
      map (\<lambda>(k, t). (k, if k = bl_id b \<and> t = ''protected'' \<and> \<not> governed (snd s) k then ''tracked'' else t))
        (blob_statuses (snd s))"
    by (auto simp: unprotect_blob_def Let_def split_beta move_edge(1) statuses_move intro!: map_idI [symmetric])
  from r show "governed (snd (unprotect_blob env b s)) k = governed (snd s) k"
    by (simp add: unprotect_blob_def Let_def split_beta move_edge(1) governed_move)
qed

text \<open>A fold of guarded moves changes exactly the rows it visits.\<close>

lemma fold_statuses:
  fixes f :: "blob_row \<Rightarrow> nat \<times> db \<Rightarrow> nat \<times> db" and g :: "bool \<Rightarrow> bool"
  assumes step: "\<And>b s. bl_id b \<in> fst ` set (blob_statuses (snd s)) \<Longrightarrow>
      blob_statuses (snd (f b s)) =
        map (\<lambda>(k, t). (k, if k = bl_id b \<and> t = src \<and> g (governed (snd s) k) then dst else t)) (blob_statuses (snd s))
      \<and> (\<forall>k. governed (snd (f b s)) k = governed (snd s) k)"
    and "bl_id ` set bs \<subseteq> fst ` set (blob_statuses (snd s))" and "src \<noteq> dst"
  shows "blob_statuses (snd (fold f bs s)) =
      map (\<lambda>(k, t). (k, if k \<in> bl_id ` set bs \<and> t = src \<and> g (governed (snd s) k) then dst else t))
        (blob_statuses (snd s))
    \<and> (\<forall>k. governed (snd (fold f bs s)) k = governed (snd s) k)"
  using assms(2)
proof (induction bs arbitrary: s)
  case Nil
  then show ?case by (auto intro!: map_idI [symmetric])
next
  case (Cons b bs)
  from Cons.prems step [of b s] have b: "blob_statuses (snd (f b s)) =
      map (\<lambda>(k, t). (k, if k = bl_id b \<and> t = src \<and> g (governed (snd s) k) then dst else t)) (blob_statuses (snd s))"
    "\<And>k. governed (snd (f b s)) k = governed (snd s) k" by auto
  then have "fst ` set (blob_statuses (snd (f b s))) = fst ` set (blob_statuses (snd s))"
    by (force simp: image_iff)
  with Cons.prems Cons.IH [of "f b s"] have IH: "blob_statuses (snd (fold f bs (f b s))) =
      map (\<lambda>(k, t). (k, if k \<in> bl_id ` set bs \<and> t = src \<and> g (governed (snd (f b s)) k) then dst else t))
        (blob_statuses (snd (f b s)))"
    "\<forall>k. governed (snd (fold f bs (f b s))) k = governed (snd (f b s)) k" by auto
  show ?case using IH(2) b(2) by (auto simp: IH(1) b assms(3))
qed

lemma row_unique:
  "distinct (map bl_id bs) \<Longrightarrow> bl_id b = bl_id c \<Longrightarrow> b \<in> set bs \<Longrightarrow> c \<in> set bs \<Longrightarrow> b = c"
  by (auto simp: distinct_map dest: inj_onD)

lemma map_two_keys:
  assumes "map k ys = map k xs" and "map s ys = map t xs"
    and "\<And>x y. x \<in> set xs \<Longrightarrow> k y = k x \<Longrightarrow> s y = t x \<Longrightarrow> f y = g x"
  shows "map f ys = map g xs"
  using assms
proof (induction xs arbitrary: ys)
  case Nil
  then show ?case by simp
next
  case (Cons x xs)
  then obtain y ys' where "ys = y # ys'" by (cases ys) auto
  with Cons show ?case by auto
qed

lemma pass_statuses:
  fixes f :: "blob_row \<Rightarrow> nat \<times> db \<Rightarrow> nat \<times> db" and g :: "bool \<Rightarrow> bool"
  assumes step: "\<And>b s. bl_id b \<in> fst ` set (blob_statuses (snd s)) \<Longrightarrow>
      blob_statuses (snd (f b s)) =
        map (\<lambda>(k, t). (k, if k = bl_id b \<and> t = src \<and> g (governed (snd s) k) then dst else t)) (blob_statuses (snd s))
      \<and> (\<forall>k. governed (snd (f b s)) k = governed (snd s) k)"
    and "distinct (map bl_id (db_blobs d))" and "src \<noteq> dst"
  shows "blob_statuses (snd (fold f (filter (\<lambda>b. bl_status b = src \<and> p b) (db_blobs d)) (n, d))) =
      map (\<lambda>b. (bl_id b, if bl_status b = src \<and> p b \<and> g (governed d (bl_id b)) then dst else bl_status b)) (db_blobs d)"
    and "governed (snd (fold f (filter (\<lambda>b. bl_status b = src \<and> p b) (db_blobs d)) (n, d))) k = governed d k"
proof -
  let ?bs = "filter (\<lambda>b. bl_status b = src \<and> p b) (db_blobs d)"
  have sub: "bl_id ` set ?bs \<subseteq> fst ` set (blob_statuses (snd (n, d)))"
    by (auto simp: ids_of_statuses [symmetric])
  note all = fold_statuses [where f = f and g = g and src = src and dst = dst, OF step sub assms(3)]
  from all show "governed (snd (fold f ?bs (n, d))) k = governed d k" by simp
  show "blob_statuses (snd (fold f ?bs (n, d))) =
      map (\<lambda>b. (bl_id b, if bl_status b = src \<and> p b \<and> g (governed d (bl_id b)) then dst else bl_status b)) (db_blobs d)"
    by (rule trans [OF conjunct1 [OF all]]) (auto simp: blob_statuses_def dest: row_unique [OF assms(2)])
qed

lemma orphan_statuses:
  "blob_statuses (snd (each_row (archive_orphan env) bs d)) =
     map (\<lambda>(k, t). (k, if k \<in> bl_id ` set bs then ''archived'' else t)) (blob_statuses d)"
proof (induction bs arbitrary: d)
  case Nil
  then show ?case by (simp add: case_prod_beta')
next
  case (Cons b bs)
  have "blob_statuses (snd (archive_orphan env b d)) =
      map (\<lambda>(k, t). (k, if k = bl_id b then ''archived'' else t)) (blob_statuses d)"
    by (auto simp: archive_orphan_def blob_statuses_def upd_blobs_def sql_update_def)
  moreover have "each_row (archive_orphan env) (b # bs) d =
      each_row (archive_orphan env) bs (snd (archive_orphan env b d))"
    by (simp add: archive_orphan_def)
  ultimately show ?case by (auto simp: Cons)
qed

lemma ungoverned:
  assumes "db_policies d = []" and "db_assignments d = []"
  shows "\<not> governed d k"
proof (cases "k \<in> bl_id ` set (db_blobs d)")
  case True
  then have "first_row (filter (\<lambda>b. bl_id b = k) (db_blobs d)) \<noteq> None" by (auto simp: first_row_filter_None)
  then obtain b where "first_row (filter (\<lambda>b. bl_id b = k) (db_blobs d)) = Some b" by blast
  from resolve_found [OF this] assms show ?thesis
    by (auto simp: governed_def resolved_ok_def wants_protection_def governs_def applies_at_def
        SYSTEM_DEFAULT_POLICY_def truthy_def)
next
  case False
  then have "first_row (filter (\<lambda>b. bl_id b = k) (db_blobs d)) = None" by (auto simp: first_row_filter_None)
  then show ?thesis by (simp add: governed_def resolveEffectivePolicy_def)
qed

definition sample_sched :: sched_env where
  "sample_sched = \<lparr>se_now = 90, se_id = (\<lambda>t n. t), se_epoch = Inr 7, se_delete = (\<lambda>t c d. Inr (0, d))\<rparr>"

definition sample_schedule :: schedule_config where
  "sample_schedule =
     \<lparr>sk_id = ''s1'', sk_orgId = ''o'', sk_name = ''expiry'', sk_cronExpr = ''0 */5 * * *'', sk_lastRunAt = None,
      sk_lastCompletedAt = None, sk_enabled = True, sk_status = Some ''active'', sk_minIntervalMs = None,
      sk_maxStalenessMs = None, sk_config = JObj [(''type'', JStr ''expiry_check'')], sk_critical = None,
      sk_updatedAt = 0\<rparr>"

section \<open>Properties\<close>

text \<open>
  C19: reconciling an organization leaves each of its tracked and protected blobs protected exactly when
  its effective policy exists and renews automatically, and tracked otherwise, whatever order the
  loops take; every other blob keeps its status.
\<close>

theorem reconcile_spec:
  assumes "distinct (map bl_id (db_blobs d))"
  shows "blob_statuses (snd (snd (reconcilePolicies env org d))) =
    map (\<lambda>b. (bl_id b,
        if in_org org b \<and> bl_status b \<in> {''tracked'', ''protected''}
        then (if governed d (bl_id b) then ''protected'' else ''tracked'') else bl_status b)) (db_blobs d)"
proof -
  let ?d1 = "snd (fold (protect_blob env) (filter (\<lambda>b. bl_status b = ''tracked'' \<and> in_org org b) (db_blobs d)) (0, d))"
  have one: "blob_statuses ?d1 = map (\<lambda>b. (bl_id b, if bl_status b = ''tracked'' \<and> in_org org b
        \<and> governed d (bl_id b) then ''protected'' else bl_status b)) (db_blobs d)"
    "governed ?d1 k = governed d k" for k
    by (rule pass_statuses [where g = "\<lambda>x. x" and dst = "''protected''"]; use protect_statuses assms in simp)+
  have "blobs_follow d ?d1" using follow_fold [OF follow_protect(1), of "(0, d)"] by simp
  then have keys: "map blob_key (db_blobs ?d1) = map blob_key (db_blobs d)" by (rule follow_keys)
  have ids: "map bl_id (db_blobs ?d1) = map bl_id (db_blobs d)"
    using arg_cong [where f = "map fst", OF keys] by (simp add: blob_key_def o_def)
  with assms have two: "blob_statuses (snd (fold (unprotect_blob env)
      (filter (\<lambda>b. bl_status b = ''protected'' \<and> in_org org b) (db_blobs ?d1)) (0, ?d1))) =
      map (\<lambda>b. (bl_id b, if bl_status b = ''protected'' \<and> in_org org b \<and> \<not> governed ?d1 (bl_id b)
        then ''tracked'' else bl_status b)) (db_blobs ?d1)"
    by (intro pass_statuses(1) [where g = Not and dst = "''tracked''"]; use unprotect_statuses in simp)
  have st: "map bl_status (db_blobs ?d1) = map (\<lambda>b. if bl_status b = ''tracked'' \<and> in_org org b
      \<and> governed d (bl_id b) then ''protected'' else bl_status b) (db_blobs d)"
    using arg_cong [where f = "map snd", OF one(1)] by (simp add: blob_statuses_def o_def)
  have "blob_statuses (snd (snd (reconcilePolicies env org d))) =
      map (\<lambda>b. (bl_id b, if bl_status b = ''protected'' \<and> in_org org b \<and> \<not> governed d (bl_id b)
        then ''tracked'' else bl_status b)) (db_blobs ?d1)"
    using two by (simp add: reconcilePolicies_def Let_def split_beta one(2))
  also have "\<dots> = map (\<lambda>b. (bl_id b, if in_org org b \<and> bl_status b \<in> {''tracked'', ''protected''}
        then (if governed d (bl_id b) then ''protected'' else ''tracked'') else bl_status b)) (db_blobs d)"
    by (rule map_two_keys [OF keys st]) (auto simp: blob_key_def in_org_def split: option.splits)
  finally show ?thesis .
qed

theorem reconcile_spec_witness:
  "\<exists>d. blob_statuses d = [(''b1'', ''tracked''), (''b2'', ''protected'')]
     \<and> blob_statuses (snd (snd (reconcilePolicies sample_sched None d))) = [(''b1'', ''tracked''), (''b2'', ''tracked'')]"
proof -
  obtain b1 :: blob_row where b1: "bl_id b1 = ''b1''" "bl_status b1 = ''tracked''"
    by (rule that [of "(new_blob ''b1'' 0 [] [] [])\<lparr>bl_status := ''tracked''\<rparr>"]) (simp_all add: new_blob_def)
  obtain b2 :: blob_row where b2: "bl_id b2 = ''b2''" "bl_status b2 = ''protected''"
    by (rule that [of "(new_blob ''b2'' 0 [] [] [])\<lparr>bl_status := ''protected''\<rparr>"]) (simp_all add: new_blob_def)
  let ?d = "empty_db\<lparr>db_blobs := [b1, b2]\<rparr>"
  have d: "distinct (map bl_id (db_blobs ?d))" by (simp add: b1 b2)
  have "\<not> governed ?d k" for k by (rule ungoverned) (simp_all add: empty_db_def)
  with reconcile_spec [OF d, of sample_sched None] show ?thesis
    by (intro exI [of _ ?d]) (simp add: blob_statuses_def b1 b2 in_org_def truthy_def)
qed

text \<open>
  The expiry check moves exactly the tracked and protected blobs of the organization of the schedule
  that are closer to their expiry epoch than the threshold of their policy, and at least one epoch; for
  a tracked blob that is a move the blob machine does not have.
\<close>

theorem expiry_check_spec:
  assumes "se_epoch env = Inr e" and "distinct (map bl_id (db_blobs d))"
  shows "blob_statuses (snd (expiry_check env sc d)) =
      map (\<lambda>b. (bl_id b,
          if bl_status b \<in> {''tracked'', ''protected''} \<and> bl_expiryEpoch b \<noteq> None
             \<and> bl_orgId b = sk_orgId sc \<and> near_expiry d e b
          then ''expiring'' else bl_status b)) (db_blobs d)
    \<and> \<not> step_ok SM_blob ''tracked'' ''expiring''"
proof -
  define due where "due b \<longleftrightarrow> bl_status b \<in> {''tracked'', ''protected''} \<and> bl_expiryEpoch b \<noteq> None
      \<and> bl_orgId b = sk_orgId sc \<and> near_expiry d e b" for b
  define cs where "cs = filter (near_expiry d e) (filter (\<lambda>b. (bl_status b = ''tracked'' \<or> bl_status b = ''protected'')
      \<and> bl_expiryEpoch b \<noteq> None \<and> bl_orgId b = sk_orgId sc) (db_blobs d))"
  have cs: "b \<in> set cs \<longleftrightarrow> b \<in> set (db_blobs d) \<and> due b" for b
    unfolding cs_def due_def by (simp only: set_filter mem_Collect_eq insert_iff empty_iff) blast
  have ids: "(if bl_id b \<in> bl_id ` set cs \<and> (bl_status b = ''tracked'' \<or> bl_status b = ''protected'')
        then ''expiring'' else bl_status b) = (if due b then ''expiring'' else bl_status b)"
    if "b \<in> set (db_blobs d)" for b
  proof -
    have "bl_id b \<in> bl_id ` set cs \<longleftrightarrow> due b" using that row_unique [OF assms(2)] cs by blast
    moreover have "due b \<Longrightarrow> bl_status b = ''tracked'' \<or> bl_status b = ''protected''"
      unfolding due_def by blast
    ultimately show ?thesis by (intro if_cong) blast+
  qed
  have "blob_statuses (snd (expiry_check env sc d)) =
      map (\<lambda>b. (bl_id b, if bl_id b \<in> bl_id ` set cs
          \<and> (bl_status b = ''tracked'' \<or> bl_status b = ''protected'') then ''expiring'' else bl_status b)) (db_blobs d)"
    unfolding expiry_check_def assms(1) Let_def sum.case cs_def [symmetric] snd_conv
    by (cases "cs = []") (auto simp: blob_statuses_def upd_blobs_def sql_update_def)
  also have "\<dots> = map (\<lambda>b. (bl_id b, if due b then ''expiring'' else bl_status b)) (db_blobs d)"
    by (rule map_cong [OF refl]) (simp only: ids)
  finally show ?thesis unfolding due_def by (simp add: step_ok_iff edges_def blob_machine_def)
qed

theorem expiry_check_spec_witness:
  "\<exists>d. blob_statuses d = [(''b1'', ''tracked''), (''b2'', ''protected'')]
     \<and> blob_statuses (snd (expiry_check sample_sched sample_schedule d)) = [(''b1'', ''expiring''), (''b2'', ''protected'')]"
proof -
  obtain b1 :: blob_row where b1: "bl_id b1 = ''b1''" "bl_status b1 = ''tracked''" "bl_expiryEpoch b1 = Some 7" "bl_orgId b1 = ''o''"
    by (rule that [of "(new_blob ''b1'' 0 ''o'' [] [])\<lparr>bl_status := ''tracked'', bl_expiryEpoch := Some 7\<rparr>"])
      (simp_all add: new_blob_def)
  obtain b2 :: blob_row where b2: "bl_id b2 = ''b2''" "bl_status b2 = ''protected''" "bl_expiryEpoch b2 = None"
    by (rule that [of "(new_blob ''b2'' 0 ''o'' [] [])\<lparr>bl_status := ''protected''\<rparr>"]) (simp_all add: new_blob_def)
  let ?d = "empty_db\<lparr>db_blobs := [b1, b2]\<rparr>"
  have d: "distinct (map bl_id (db_blobs ?d))" by (simp add: b1 b2)
  have e: "se_epoch sample_sched = Inr 7" by (simp add: sample_sched_def)
  obtain r where "resolveEffectivePolicy ?d (bl_id b1) = Inr r"
    using resolve_present [of "bl_id b1" ?d] by (auto simp: b1)
  then have "near_expiry ?d 7 b1" by (simp add: near_expiry_def b1)
  with expiry_check_spec [OF e d, of sample_schedule] show ?thesis
    by (intro exI [of _ ?d]) (simp add: blob_statuses_def b1 b2 sample_schedule_def)
qed

text \<open>
  The handlers that verify discovered blobs, reconcile policies and expire blobs move every blob
  only along the edges of the blob machine, and change no blob's identity, owner or place.
\<close>

theorem handlers_follow_machine:
  "blobs_follow d (snd (blob_verification env sc d))
   \<and> blobs_follow d (snd (policy_reconciliation env sc d))
   \<and> blobs_follow d (snd (expire_blobs env sc d))"
proof -
  have e: "blobs_follow d (snd (case move_blob env False ''expiring'' ''expired''
      (\<lambda>b. b\<lparr>bl_expiredAt := Some (se_now env)\<rparr>) ev det (bl_orgId b) (bl_id b) d of
        (Inl e, d1) \<Rightarrow> (Inl e, d1) | (Inr _, d1) \<Rightarrow> (Inr (), d1)))" for b d ev det
    using follow_move [of "''expiring''" "''expired''" "\<lambda>b. b\<lparr>bl_expiredAt := Some (se_now env)\<rparr>" d env False ev det
        "bl_orgId b" "bl_id b"] by (auto split: prod.splits sum.splits)
  have "blobs_follow d (snd (expire_blobs env sc d))"
    by (cases "se_epoch env") (auto simp: expire_blobs_def follow_refl intro!: follow_each e)
  moreover have "blobs_follow d (snd (blob_verification env sc d))"
    by (simp add: blob_verification_def follow_each follow_verify)
  moreover have "blobs_follow d (snd (policy_reconciliation env sc d))"
    using follow_reconcile [of d env "Some (sk_orgId sc)"] by (simp add: policy_reconciliation_def split_beta)
  ultimately show ?thesis by simp
qed

text \<open>
  The keeper's rollover of a budget is the cost engine's: whenever the engine rolls a window over,
  the handler leaves the same budgets; the engine also records an audit entry, the handler does not.
\<close>

theorem rollover_equiv:
  assumes "rolloverBudgetWindow i now (bu_id bu) d = Inr (d', ev)"
    and "first_row (filter (\<lambda>b. bu_id b = bu_id bu) (db_budgets d)) = Some bu"
  shows "fst (roll_budget env bu d) = Inr () \<and> db_budgets (snd (roll_budget env bu d)) = db_budgets d'
    \<and> length (db_audits d') = length (db_audits d) + 1 \<and> db_audits (snd (roll_budget env bu d)) = db_audits d"
  using assms by (auto simp: rolloverBudgetWindow_def roll_budget_def Let_def upd_budgets_def split: option.splits)

theorem rollover_equiv_witness:
  "\<exists>bu d d' ev. rolloverBudgetWindow ''a'' 90 (bu_id bu) d = Inr (d', ev) \<and> db_budgets d = [bu]
     \<and> db_budgets (snd (roll_budget sample_sched bu d)) = db_budgets d'"
proof -
  define bu where "bu = (new_budget ''b'' 10 ''o'' ''n'' 100)\<lparr>bu_windowEnd := Some 50\<rparr>"
  define d where "d = empty_db\<lparr>db_budgets := [bu]\<rparr>"
  have f: "first_row (filter (\<lambda>b. bu_id b = bu_id bu) (db_budgets d)) = Some bu" by (simp add: d_def)
  obtain d' ev where r: "rolloverBudgetWindow ''a'' 90 (bu_id bu) d = Inr (d', ev)"
    by (simp add: rolloverBudgetWindow_def d_def bu_def new_budget_def Let_def)
  from rollover_equiv [OF r f, of sample_sched] r show ?thesis
    by (intro exI [of _ bu] exI [of _ d] exI [of _ d'] exI [of _ ev]) (simp add: d_def)
qed

text \<open>
  The orphan check archives exactly the blobs that are not deleted and whose wallet is unknown, and
  a blob that names no wallet counts as such; it does so from any status, a renewal in flight included,
  without asking the blob machine.
\<close>

theorem orphan_check_spec:
  assumes "distinct (map bl_id (db_blobs d))"
  shows "blob_statuses (snd (orphan_check env sc d)) =
    map (\<lambda>b. (bl_id b, if orphaned d b then ''archived'' else bl_status b)) (db_blobs d)"
  unfolding orphan_check_def snd_returns_true orphan_statuses
  by (auto simp: blob_statuses_def dest: row_unique [OF assms])

theorem orphan_check_spec_witness:
  "\<exists>d. blob_statuses d = [(''b1'', ''renewing'')]
     \<and> blob_statuses (snd (orphan_check sample_sched sample_schedule d)) = [(''b1'', ''archived'')]"
proof -
  obtain b1 :: blob_row where b1: "bl_id b1 = ''b1''" "bl_status b1 = ''renewing''" "bl_walletId b1 = None" "bl_deletedAt b1 = None"
    by (rule that [of "(new_blob ''b1'' 0 ''o'' [] [])\<lparr>bl_status := ''renewing''\<rparr>"]) (simp_all add: new_blob_def)
  let ?d = "empty_db\<lparr>db_blobs := [b1]\<rparr>"
  have d: "distinct (map bl_id (db_blobs ?d))" by simp
  from orphan_check_spec [OF d, of sample_sched sample_schedule] show ?thesis
    by (intro exI [of _ ?d]) (simp add: blob_statuses_def b1 orphaned_def)
qed

end
