(* ===== verification/Schedule_Windows.thy ===== *)
theory Schedule_Windows
  imports App_Errors Complex_Main "HOL-Library.Word"
begin

text \<open>
  The pure part of the scheduler, \<open>keeper/src/scheduler.ts\<close>: the interval a cron expression implies,
  the number of windows missed since the last completion, and the hash that keys the advisory lock.
\<close>

unbundle bit_operations_syntax

section \<open>Cron intervals\<close>

definition is_space :: "char \<Rightarrow> bool" where
  "is_space c \<longleftrightarrow> (of_char c :: nat) = 32 \<or> (9 \<le> (of_char c :: nat) \<and> (of_char c :: nat) \<le> 13)"

definition str_trim :: "string \<Rightarrow> string" where
  "str_trim s = rev (dropWhile is_space (rev (dropWhile is_space s)))"

text \<open>\<open>split(/\s+/)\<close>.\<close>

function split_spaces :: "string \<Rightarrow> string list" where
  "split_spaces [] = [[]]"
| "split_spaces (c # cs) =
     (if is_space c then [] # split_spaces (dropWhile is_space cs)
      else (case split_spaces cs of [] \<Rightarrow> [[c]] | w # ws \<Rightarrow> (c # w) # ws))"
  by pat_completeness auto

termination split_spaces
  by (relation "measure length") (auto simp: le_imp_less_Suc length_dropWhile_le)

text \<open>The match of a field with a star, a slash and digits: the digits as a number.\<close>

definition every_n :: "string \<Rightarrow> int option" where
  "every_n s =
     (case s of
        c # d # ds \<Rightarrow>
          if c = CHR ''*'' \<and> d = CHR ''/'' \<and> ds \<noteq> [] \<and> list_all is_digit ds
          then Some (digits_val ds) else None
      | _ \<Rightarrow> None)"

text \<open>
  \<open>Number\<close> on a field of a minute list: decimal digits with an optional sign, the empty text is
  zero, and every other text counts as \<open>NaN\<close> (a cron list holds no fractions or exponents).
\<close>

definition minute_number :: "string \<Rightarrow> int option" where
  "minute_number s =
     (let ds = (if s \<noteq> [] \<and> (hd s = CHR ''-'' \<or> hd s = CHR ''+'') then tl s else s) in
      if s = [] then Some 0
      else if ds \<noteq> [] \<and> list_all is_digit ds
      then Some (if hd s = CHR ''-'' then - digits_val ds else digits_val ds) else None)"

text \<open>The gaps between neighbours, closed by the gap from the last to the first of the next hour.\<close>

fun gaps :: "int list \<Rightarrow> int list" where
  "gaps (x # y # zs) = (y - x) # gaps (y # zs)"
| "gaps _ = []"

definition average_gap :: "int list \<Rightarrow> rat" where
  "average_gap parts =
     (let gs = gaps parts @ [60 - last parts + hd parts]
      in rat_of_int (sum_list gs) / rat_of_nat (length gs))"

text \<open>The result is in milliseconds, 0 for an expression that is not understood.\<close>

definition parseCronInterval :: "string \<Rightarrow> rat" where
  "parseCronInterval cronExpr =
     (let parts = split_spaces (str_trim cronExpr) in
      if length parts < 5 then 0
      else
        (let minute = parts ! 0; hour = parts ! 1; dayOfMonth = parts ! 2; dayOfWeek = parts ! 4 in
         case every_n minute of
           Some n \<Rightarrow> rat_of_int (n * 60000)
         | None \<Rightarrow>
             if every_n hour \<noteq> None \<and> minute = ''0'' then rat_of_int (the (every_n hour) * 3600000)
             else
               (let ns = List.map_filter minute_number (split_on (CHR '','') minute) in
                if CHR '','' \<in> set minute \<and> length ns \<ge> 2 then average_gap (sort ns) * 60000
                else if minute = ''*'' \<and> hour = ''*'' \<and> dayOfMonth = ''*'' \<and> dayOfWeek = ''*'' then 60000
                else if minute = ''0'' \<and> hour = ''*'' then 3600000
                else if minute = ''0'' \<and> hour \<noteq> ''*'' \<and> CHR ''/'' \<notin> set hour then 86400000
                else 0)))"

section \<open>Missed windows\<close>

definition computeMissedWindows :: "string \<Rightarrow> int option \<Rightarrow> int \<Rightarrow> int" where
  "computeMissedWindows cronExpr lastCompletedAt now =
     (case lastCompletedAt of
        None \<Rightarrow> 0
      | Some t \<Rightarrow>
          (let elapsedMs = now - t in
           if elapsedMs \<le> 0 then 0
           else
             (let intervalMs = parseCronInterval cronExpr in
              if intervalMs \<le> 0 then 1
              else max 0 (\<lfloor>rat_of_int elapsedMs / intervalMs\<rfloor> - 1))))"

section \<open>The lock key\<close>

text \<open>
  JavaScript numbers with 32-bit operators: \<open>^\<close> and \<open>Math.imul\<close> convert their operands to signed
  32-bit integers and return one, \<open>>>> 0\<close> converts to unsigned.
\<close>

definition js_xor :: "int \<Rightarrow> int \<Rightarrow> int" where
  "js_xor a b = sint ((word_of_int a XOR word_of_int b) :: 32 word)"

definition math_imul :: "int \<Rightarrow> int \<Rightarrow> int" where
  "math_imul a b = sint ((word_of_int a * word_of_int b) :: 32 word)"

definition to_unsigned :: "int \<Rightarrow> int" where
  "to_unsigned a = uint (word_of_int a :: 32 word)"

fun hash_loop :: "int \<Rightarrow> string \<Rightarrow> int" where
  "hash_loop h [] = h"
| "hash_loop h (c # cs) = hash_loop (math_imul (js_xor h (int (of_char c))) 16777619) cs"

definition hashScheduleId :: "string \<Rightarrow> int" where
  "hashScheduleId i = to_unsigned (hash_loop 2166136261 i)"

section \<open>Facts\<close>

text \<open>The reference: the 32-bit FNV-1a hash on machine words.\<close>

definition fnv1a :: "string \<Rightarrow> 32 word" where
  "fnv1a s = foldl (\<lambda>h c. (h XOR word_of_int (int (of_char c))) * 16777619) 2166136261 s"

lemma hash_loop_words:
  "(word_of_int (hash_loop h s) :: 32 word) =
     foldl (\<lambda>h c. (h XOR word_of_int (int (of_char c))) * 16777619) (word_of_int h) s"
  by (induction s arbitrary: h) (simp_all add: math_imul_def js_xor_def)

lemma sum_gaps: "xs \<noteq> [] \<Longrightarrow> sum_list (gaps xs) = last xs - hd xs"
  by (induction xs rule: gaps.induct) auto

lemma length_gaps: "xs \<noteq> [] \<Longrightarrow> length (gaps xs) = length xs - 1"
  by (induction xs rule: gaps.induct) auto

lemma average_gap_eq: "xs \<noteq> [] \<Longrightarrow> average_gap xs = 60 / rat_of_nat (length xs)"
  by (cases xs) (simp_all add: average_gap_def sum_gaps length_gaps Let_def)

lemma digit_val_nonneg: "is_digit c \<Longrightarrow> 0 \<le> digit_val c"
  by (simp add: is_digit_def digit_val_def less_eq_char_def)

lemma digits_val_nonneg: "list_all is_digit ds \<Longrightarrow> 0 \<le> digits_val ds"
proof -
  have "list_all is_digit ds \<Longrightarrow> 0 \<le> n \<Longrightarrow> 0 \<le> foldl (\<lambda>n d. n * 10 + digit_val d) n ds" for n
    by (induction ds arbitrary: n) (auto simp: digit_val_nonneg)
  then show "list_all is_digit ds \<Longrightarrow> 0 \<le> digits_val ds" by (simp add: digits_val_def)
qed

lemma every_n_nonneg: "every_n s = Some n \<Longrightarrow> 0 \<le> n"
  by (auto simp: every_n_def digits_val_nonneg split: list.splits if_splits)

lemma cron_interval_nonneg: "0 \<le> parseCronInterval s"
proof -
  have "0 \<le> average_gap ns" if "length ns \<ge> 2" for ns
  proof -
    from that have "ns \<noteq> []" by auto
    then show ?thesis by (simp add: average_gap_eq)
  qed
  then show ?thesis
    by (auto simp: parseCronInterval_def Let_def every_n_nonneg split: option.split)
qed

section \<open>Properties\<close>

text \<open>
  The hash computed with JavaScript's signed 32-bit operators is the FNV-1a hash of the text on
  unsigned 32-bit words, wrap-around included, and so a key between 0 and \<open>2 ^ 32\<close>.
\<close>

theorem lock_key_is_fnv1a:
  "hashScheduleId s = uint (fnv1a s) \<and> 0 \<le> hashScheduleId s \<and> hashScheduleId s < 2 ^ 32"
proof -
  have "hashScheduleId s = uint (fnv1a s)"
    by (simp add: hashScheduleId_def to_unsigned_def fnv1a_def hash_loop_words)
  moreover have "uint (fnv1a s) < 2 ^ 32" using uint_lt2p [of "fnv1a s"] by simp
  ultimately show ?thesis by simp
qed

text \<open>
  For an expression whose interval is understood, the number of missed windows \<open>m\<close> is the
  greatest for which \<open>m + 1\<close> intervals have passed since the last completion, and none when less than
  two have.
\<close>

theorem missed_windows_spec:
  assumes "t < now" and "parseCronInterval cron = iv" and "0 < iv"
  shows "(let m = computeMissedWindows cron (Some t) now in
      0 \<le> m \<and> rat_of_int (now - t) < (rat_of_int m + 2) * iv
      \<and> (m = 0 \<or> (rat_of_int m + 1) * iv \<le> rat_of_int (now - t)))"
proof -
  let ?q = "rat_of_int (now - t) / iv"
  have m: "computeMissedWindows cron (Some t) now = max 0 (\<lfloor>?q\<rfloor> - 1)"
    using assms by (simp add: computeMissedWindows_def Let_def)
  have "rat_of_int \<lfloor>?q\<rfloor> \<le> ?q" "?q < rat_of_int \<lfloor>?q\<rfloor> + 1" by linarith+
  then have lo: "rat_of_int \<lfloor>?q\<rfloor> * iv \<le> rat_of_int (now - t)"
    and hi: "rat_of_int (now - t) < (rat_of_int \<lfloor>?q\<rfloor> + 1) * iv"
    using assms(3) by (simp_all only: pos_le_divide_eq pos_divide_less_eq)
  show ?thesis
  proof (cases "\<lfloor>?q\<rfloor> \<le> 1")
    case True
    then have "(rat_of_int \<lfloor>?q\<rfloor> + 1) * iv \<le> 2 * iv"
      using assms(3) by (intro mult_right_mono) auto
    with hi True m show ?thesis by (simp add: Let_def)
  next
    case False
    with lo hi m show ?thesis by (simp add: Let_def max_def add.commute)
  qed
qed

theorem missed_windows_spec_witness:
  "0 \<le> computeMissedWindows ''*/5 * * * *'' (Some 0) 1000000
   \<and> rat_of_int 1000000 < (rat_of_int (computeMissedWindows ''*/5 * * * *'' (Some 0) 1000000) + 2) * 300000"
proof -
  have "parseCronInterval ''*/5 * * * *'' = 300000" by code_simp
  from missed_windows_spec [OF _ this, of 0 1000000] show ?thesis by (simp add: Let_def)
qed

end
