(* ===== verification/Job_Queue.thy ===== *)
theory Job_Queue
  imports App_Errors
begin

text \<open>
  The job queue of the API: the table operations of \<open>api/src/lib/queue.ts\<close> and the worker
  \<open>processNextJob\<close> of \<open>api/src/lib/background-jobs.ts\<close>, alone and with several workers whose
  statements interleave. Handlers are parameters: registered functions that return or throw. What
  they do outside the queue is not part of it.
\<close>

section \<open>Rows\<close>

record queue_row =
  qj_id :: string
  qj_type :: string
  qj_payload :: json
  qj_entityType :: string
  qj_entityId :: string
  qj_priority :: "int option"
  qj_status :: string
  qj_scheduledFor :: "int option"
  qj_createdAt :: "int option"
  qj_startedAt :: "int option"
  qj_completedAt :: "int option"
  qj_error :: "string option"
  qj_attempts :: "int option"
  qj_maxAttempts :: "int option"
  qj_traceId :: "string option"
  qj_orgId :: "string option"

record dlq_row =
  dl_job :: queue_row
  dl_status :: string
  dl_reason :: string
  dl_dlqgedAt :: int

record queue_store =
  qs_jobs :: "queue_row list"
  qs_dlq :: "dlq_row list"

definition empty_queue :: queue_store where
  "empty_queue = \<lparr>qs_jobs = [], qs_dlq = []\<rparr>"

text \<open>The argument of \<open>publishJob\<close>; the caller supplies no organization.\<close>

record job_message =
  jm_type :: string
  jm_payload :: json
  jm_entityType :: string
  jm_entityId :: string
  jm_priority :: int
  jm_scheduledFor :: "int option"
  jm_maxAttempts :: int
  jm_traceId :: "string option"

definition upd_queue :: "string \<Rightarrow> (queue_row \<Rightarrow> queue_row) \<Rightarrow> queue_store \<Rightarrow> queue_store" where
  "upd_queue i f st = st\<lparr>qs_jobs := sql_update (\<lambda>j. qj_id j = i) f (qs_jobs st)\<rparr>"

section \<open>Operations of the queue\<close>

definition publishJob :: "string \<Rightarrow> int \<Rightarrow> job_message \<Rightarrow> queue_store \<Rightarrow> string \<times> queue_store" where
  "publishJob i now m st =
     (i, st\<lparr>qs_jobs := qs_jobs st @
        [\<lparr>qj_id = i, qj_type = jm_type m, qj_payload = jm_payload m,
          qj_entityType = jm_entityType m, qj_entityId = jm_entityId m,
          qj_priority = Some (jm_priority m), qj_status = ''queued'',
          qj_scheduledFor = Some (or_default (jm_scheduledFor m) now), qj_createdAt = Some now,
          qj_startedAt = None, qj_completedAt = None, qj_error = None, qj_attempts = Some 0,
          qj_maxAttempts = Some (jm_maxAttempts m), qj_traceId = jm_traceId m,
          qj_orgId = None\<rparr>]\<rparr>)"

text \<open>\<open>ORDER BY priority ASC, scheduled_for ASC\<close>, with null last.\<close>

definition claim_le :: "queue_row \<Rightarrow> queue_row \<Rightarrow> bool" where
  "claim_le =
     lex_le (\<lambda>j. if qj_priority j = None then 1 else 0 :: int)
       (lex_le (\<lambda>j. or_default (qj_priority j) 0)
         (lex_le (\<lambda>j. if qj_scheduledFor j = None then 1 else 0 :: int)
           (\<lambda>x y. or_default (qj_scheduledFor x) 0 \<le> or_default (qj_scheduledFor y) 0)))"

text \<open>The two statements of \<open>claimNextJob\<close>; the second one names the row only by its id.\<close>

definition claim_select :: "queue_store \<Rightarrow> queue_row option" where
  "claim_select st = first_row (sort_by claim_le (filter (\<lambda>j. qj_status j = ''queued'') (qs_jobs st)))"

definition claim_mark :: "int \<Rightarrow> string \<Rightarrow> queue_store \<Rightarrow> queue_store" where
  "claim_mark now i = upd_queue i (\<lambda>j. j\<lparr>qj_status := ''processing'', qj_startedAt := Some now\<rparr>)"

definition claimNextJob :: "int \<Rightarrow> queue_store \<Rightarrow> queue_row option \<times> queue_store" where
  "claimNextJob now st =
     (case claim_select st of
        None \<Rightarrow> (None, st)
      | Some job \<Rightarrow> (Some job, claim_mark now (qj_id job) st))"

definition completeJob :: "int \<Rightarrow> string \<Rightarrow> queue_store \<Rightarrow> queue_store" where
  "completeJob now i = upd_queue i (\<lambda>j. j\<lparr>qj_status := ''completed'', qj_completedAt := Some now\<rparr>)"

text \<open>An undefined error leaves the column alone.\<close>

definition failJob :: "int \<Rightarrow> string \<Rightarrow> string option \<Rightarrow> queue_store \<Rightarrow> queue_store" where
  "failJob now i e =
     upd_queue i (\<lambda>j. j\<lparr>qj_status := ''failed'', qj_completedAt := Some now,
       qj_error := (case e of Some m \<Rightarrow> Some m | None \<Rightarrow> qj_error j)\<rparr>)"

text \<open>The reason column is not nullable: an undefined reason makes the insert fail and rolls back.\<close>

definition dlq_null_reason :: thrown where
  "dlq_null_reason = js_Error ''null value in column dlq_reason violates not-null constraint''"

definition sendToDLQ :: "int \<Rightarrow> string \<Rightarrow> string option \<Rightarrow> queue_store \<Rightarrow> thrown + queue_store" where
  "sendToDLQ now i reason st =
     (case first_row (filter (\<lambda>j. qj_id j = i) (qs_jobs st)) of
        None \<Rightarrow> Inr st
      | Some job \<Rightarrow>
          (case reason of
             None \<Rightarrow> Inl dlq_null_reason
           | Some r \<Rightarrow>
               Inr \<lparr>qs_jobs = filter (\<lambda>j. qj_id j \<noteq> i) (qs_jobs st),
                    qs_dlq = qs_dlq st @
                      [\<lparr>dl_job = job, dl_status = ''dlq'', dl_reason = r, dl_dlqgedAt = now\<rparr>]\<rparr>))"

section \<open>The worker\<close>

text \<open>A handler returns (\<open>None\<close>) or throws.\<close>

type_synonym job_handlers = "string \<rightharpoonup> (queue_row \<Rightarrow> thrown option)"

definition registerHandler ::
    "string \<Rightarrow> (queue_row \<Rightarrow> thrown option) \<Rightarrow> job_handlers \<Rightarrow> thrown + job_handlers" where
  "registerHandler ty h hs =
     (if hs ty \<noteq> None
      then Inl (js_Error (''Handler for job type '' @ sq ty @ '' is already registered''))
      else Inr (hs(ty \<mapsto> h)))"

definition publish ::
    "string \<Rightarrow> int \<Rightarrow> string option \<Rightarrow> string \<Rightarrow> json \<Rightarrow> string \<Rightarrow> string \<Rightarrow> int option \<Rightarrow> int option
     \<Rightarrow> int option \<Rightarrow> string option \<Rightarrow> queue_store \<Rightarrow> string \<times> queue_store" where
  "publish i now ctx ty payload ety eid priority scheduledFor maxAttempts trace st =
     publishJob i now
       \<lparr>jm_type = ty, jm_payload = payload, jm_entityType = ety, jm_entityId = eid,
        jm_priority = or_default priority 50, jm_scheduledFor = Some (or_default scheduledFor now),
        jm_maxAttempts = or_default maxAttempts 5,
        jm_traceId = (case trace of Some t \<Rightarrow> Some t | None \<Rightarrow> ctx)\<rparr> st"

text \<open>The events a worker emits, with the organization read off the row.\<close>

record queue_event =
  je_name :: string
  je_orgId :: "string option"
  je_entityType :: string
  je_entityId :: string
  je_details :: json
  je_traceId :: "string option"

definition job_event :: "string option \<Rightarrow> queue_row \<Rightarrow> string \<Rightarrow> json \<Rightarrow> queue_event" where
  "job_event ctx job name details =
     \<lparr>je_name = name, je_orgId = qj_orgId job, je_entityType = qj_entityType job,
      je_entityId = qj_entityId job, je_details = details,
      je_traceId = (case qj_traceId job of Some t \<Rightarrow> Some t | None \<Rightarrow> ctx)\<rparr>"

text \<open>
  What a worker does with the row it holds: the row is the one read before the claim, so its attempts
  are those of the selection. The first result says whether an error leaves the worker.
\<close>

definition settle_job ::
    "int \<Rightarrow> string option \<Rightarrow> job_handlers \<Rightarrow> queue_row \<Rightarrow> queue_store
     \<Rightarrow> (thrown + queue_event list) \<times> queue_store" where
  "settle_job now ctx hs job st =
     (case hs (qj_type job) of
        None \<Rightarrow> (Inr [], failJob now (qj_id job)
                   (Some (''No handler registered for job type '' @ sq (qj_type job))) st)
      | Some h \<Rightarrow>
          (case h job of
             None \<Rightarrow>
               (Inr [job_event ctx job ''job.completed'' (JObj [(''jobType'', JStr (qj_type job))])],
                completeJob now (qj_id job) st)
           | Some err \<Rightarrow>
               (let errMsg = err_message err in
                if or_default (qj_attempts job) 0 + 1 \<ge> or_default (qj_maxAttempts job) 0
                then (case sendToDLQ now (qj_id job) errMsg st of
                        Inl e \<Rightarrow> (Inl e, st)
                      | Inr st' \<Rightarrow>
                          (Inr [job_event ctx job ''job.failed_final''
                             (JObj ([(''jobType'', JStr (qj_type job))]
                               @ (case errMsg of Some m \<Rightarrow> [(''error'', JStr m)] | None \<Rightarrow> [])))], st'))
                else (Inr [], failJob now (qj_id job) errMsg st))))"

definition processNextJob ::
    "int \<Rightarrow> string option \<Rightarrow> job_handlers \<Rightarrow> queue_store
     \<Rightarrow> (thrown + bool \<times> queue_event list) \<times> queue_store" where
  "processNextJob now ctx hs st =
     (case claimNextJob now st of
        (None, st1) \<Rightarrow> (Inr (False, []), st1)
      | (Some job, st1) \<Rightarrow>
          (case settle_job now ctx hs job st1 of
             (Inl e, st2) \<Rightarrow> (Inl e, st2)
           | (Inr evs, st2) \<Rightarrow> (Inr (True, evs), st2)))"

section \<open>Interleaved workers\<close>

text \<open>
  Several processes poll one table. Each statement is atomic, so a worker is idle, has selected a
  row, or has marked it and runs its handler; the store also grows by published jobs.
\<close>

datatype worker = Idle | Selected queue_row | Working queue_row

inductive queue_step ::
    "job_handlers \<Rightarrow> queue_store \<times> (nat \<Rightarrow> worker) \<Rightarrow> queue_store \<times> (nat \<Rightarrow> worker) \<Rightarrow> bool"
  for hs :: job_handlers where
  q_publish: "i \<notin> qj_id ` set (qs_jobs st) \<Longrightarrow> i \<notin> (qj_id \<circ> dl_job) ` set (qs_dlq st) \<Longrightarrow>
    queue_step hs (st, ws) (snd (publishJob i now m st), ws)"
| q_select: "ws w = Idle \<Longrightarrow> claim_select st = Some job \<Longrightarrow>
    queue_step hs (st, ws) (st, ws(w := Selected job))"
| q_mark: "ws w = Selected job \<Longrightarrow>
    queue_step hs (st, ws) (claim_mark now (qj_id job) st, ws(w := Working job))"
| q_settle: "ws w = Working job \<Longrightarrow>
    queue_step hs (st, ws) (snd (settle_job now ctx hs job st), ws(w := Idle))"

inductive_cases queue_stepE: "queue_step hs (st, ws) s'"

section \<open>Facts about the operations\<close>

interpretation claim_order: sort_order claim_le
  unfolding claim_le_def by (intro sort_order_lex) (unfold_locales, auto)

lemmas queue_ops = claim_mark_def completeJob_def failJob_def upd_queue_def

lemma claim_select_spec:
  "claim_select st = Some job \<Longrightarrow>
     job \<in> set (qs_jobs st) \<and> qj_status job = ''queued''
     \<and> (\<forall>j \<in> set (qs_jobs st). qj_status j = ''queued'' \<longrightarrow> claim_le job j)"
proof -
  let ?q = "filter (\<lambda>j. qj_status j = ''queued'') (qs_jobs st)"
  assume "claim_select st = Some job"
  then obtain xs where eq: "sort_by claim_le ?q = job # xs"
    by (auto simp: claim_select_def first_row_def split: list.splits)
  then have ne: "?q \<noteq> []" by (metis list.distinct(1) sort_by.simps(1))
  from claim_order.hd_sort_mem [OF ne] claim_order.hd_sort_least [OF ne] show ?thesis
    by (simp add: eq)
qed

lemma claim_select_None:
  "claim_select st = None \<longleftrightarrow> (\<forall>j \<in> set (qs_jobs st). qj_status j \<noteq> ''queued'')"
  by (auto simp: claim_select_def first_row_None filter_empty_conv)

text \<open>The verdict on a claimed row, as an abstract function of the row and its handler.\<close>

definition job_verdict :: "job_handlers \<Rightarrow> queue_row \<Rightarrow> string" where
  "job_verdict hs job =
     (case hs (qj_type job) of
        None \<Rightarrow> ''failed''
      | Some h \<Rightarrow>
          if h job = None then ''completed''
          else if or_default (qj_maxAttempts job) 0 - or_default (qj_attempts job) 0 \<le> 1 then ''dlq''
          else ''failed'')"

text \<open>The statuses of the table and of the dead letters, by id.\<close>

definition statuses :: "queue_store \<Rightarrow> (string \<times> string) list" where
  "statuses st = map (\<lambda>j. (qj_id j, qj_status j)) (qs_jobs st)"

definition with_status :: "string \<Rightarrow> string \<Rightarrow> (string \<times> string) list \<Rightarrow> (string \<times> string) list" where
  "with_status i s = map (\<lambda>(k, t). (k, if k = i then s else t))"

lemma statuses_upd:
  "(\<And>j. qj_id (f j) = qj_id j \<and> qj_status (f j) = s) \<Longrightarrow>
     statuses (upd_queue i f st) = with_status i s (statuses st)"
  by (auto simp: statuses_def with_status_def upd_queue_def sql_update_def)

lemma statuses_ops:
  "statuses (claim_mark now i st) = with_status i ''processing'' (statuses st)"
  "statuses (completeJob now i st) = with_status i ''completed'' (statuses st)"
  "statuses (failJob now i e st) = with_status i ''failed'' (statuses st)"
  by (simp_all add: claim_mark_def completeJob_def failJob_def statuses_upd)

lemma with_status_twice [simp]: "with_status i s (with_status i t xs) = with_status i s xs"
  by (auto simp: with_status_def)

lemma dlq_ops [simp]:
  "qs_dlq (claim_mark now i st) = qs_dlq st"
  "qs_dlq (completeJob now i st) = qs_dlq st"
  "qs_dlq (failJob now i e st) = qs_dlq st"
  by (simp_all add: queue_ops)

lemma dlq_spec:
  assumes "job \<in> set (qs_jobs st)"
  shows "\<exists>st' d. sendToDLQ now (qj_id job) (Some m) st = Inr st'
    \<and> statuses st' = filter (\<lambda>(k, t). k \<noteq> qj_id job) (statuses st)
    \<and> qs_dlq st' = qs_dlq st @ [d] \<and> dl_reason d = m \<and> qj_id (dl_job d) = qj_id job"
proof -
  from assms have "first_row (filter (\<lambda>j. qj_id j = qj_id job) (qs_jobs st)) \<noteq> None"
    by (auto simp: first_row_filter_None)
  then obtain r where r: "first_row (filter (\<lambda>j. qj_id j = qj_id job) (qs_jobs st)) = Some r" by blast
  with first_row_filter_SomeD [OF r] show ?thesis
    by (auto simp: sendToDLQ_def statuses_def filter_map o_def)
qed

lemma settle_spec:
  assumes "qj_id job \<in> qj_id ` set (qs_jobs st)"
    and "\<And>h e. hs (qj_type job) = Some h \<Longrightarrow> h job = Some e \<Longrightarrow> err_message e \<noteq> None"
  shows "\<exists>evs st'. settle_job now ctx hs job st = (Inr evs, st')
    \<and> statuses st' =
        (if job_verdict hs job = ''dlq'' then filter (\<lambda>(k, t). k \<noteq> qj_id job) (statuses st)
         else with_status (qj_id job) (job_verdict hs job) (statuses st))
    \<and> map (qj_id \<circ> dl_job) (qs_dlq st') =
        map (qj_id \<circ> dl_job) (qs_dlq st) @ (if job_verdict hs job = ''dlq'' then [qj_id job] else [])"
proof -
  from assms(1) obtain j where j: "j \<in> set (qs_jobs st)" "qj_id j = qj_id job" by auto
  show ?thesis
  proof (cases "hs (qj_type job)")
    case None
    then show ?thesis by (simp add: settle_job_def job_verdict_def statuses_ops)
  next
    case (Some h)
    show ?thesis
    proof (cases "h job")
      case None
      with Some show ?thesis by (simp add: settle_job_def job_verdict_def statuses_ops)
    next
      case (Some e)
      with assms(2) \<open>hs (qj_type job) = Some h\<close> obtain m where m: "err_message e = Some m" by blast
      show ?thesis
      proof (cases "or_default (qj_attempts job) 0 + 1 \<ge> or_default (qj_maxAttempts job) 0")
        case True
        with \<open>hs (qj_type job) = Some h\<close> Some have "job_verdict hs job = ''dlq''"
          by (simp add: job_verdict_def)
        with True \<open>hs (qj_type job) = Some h\<close> Some m dlq_spec [OF j(1), of now m] j(2)
        show ?thesis by (auto simp: settle_job_def)
      next
        case False
        with \<open>hs (qj_type job) = Some h\<close> Some m show ?thesis
          by (simp add: settle_job_def job_verdict_def statuses_ops)
      qed
    qed
  qed
qed

lemma filter_with_status [simp]:
  "filter (\<lambda>(k, t). k \<noteq> i) (with_status i s xs) = filter (\<lambda>(k, t). k \<noteq> i) xs"
  by (induction xs) (auto simp: with_status_def)

section \<open>Invariants of interleaved workers\<close>

definition held :: "worker \<Rightarrow> queue_row option" where
  "held w = (case w of Idle \<Rightarrow> None | Selected j \<Rightarrow> Some j | Working j \<Rightarrow> Some j)"

lemma held_simps [simp]:
  "held Idle = None" "held (Selected j) = Some j" "held (Working j) = Some j"
  by (simp_all add: held_def)

definition known :: "queue_store \<Rightarrow> string \<Rightarrow> bool" where
  "known st i \<longleftrightarrow> i \<in> qj_id ` set (qs_jobs st) \<or> i \<in> (qj_id \<circ> dl_job) ` set (qs_dlq st)"

text \<open>Ids are unique, a row and a copy of it agree on the limit, and no row has counted an attempt.\<close>

definition queue_inv :: "queue_store \<times> (nat \<Rightarrow> worker) \<Rightarrow> bool" where
  "queue_inv s \<longleftrightarrow>
     distinct (map qj_id (qs_jobs (fst s)))
     \<and> (\<forall>j \<in> set (qs_jobs (fst s)). qj_attempts j = Some 0)
     \<and> (\<forall>w k. held (snd s w) = Some k \<longrightarrow> qj_attempts k = Some 0 \<and> known (fst s) (qj_id k)
          \<and> (\<forall>j \<in> set (qs_jobs (fst s)). qj_id j = qj_id k \<longrightarrow> qj_maxAttempts j = qj_maxAttempts k))
     \<and> (\<forall>r \<in> set (qs_dlq (fst s)). or_default (qj_maxAttempts (dl_job r)) 0 \<le> 1)"

definition spent :: "string \<Rightarrow> queue_store \<times> (nat \<Rightarrow> worker) \<Rightarrow> bool" where
  "spent i s \<longleftrightarrow>
     known (fst s) i \<and> (\<forall>j \<in> set (qs_jobs (fst s)). qj_id j = i \<longrightarrow> qj_status j \<noteq> ''queued'')"

text \<open>What a settled job may do to the store.\<close>

lemma settle_cases:
  obtains (same) "snd (settle_job now ctx hs job st) = st"
  | (upd) f where "snd (settle_job now ctx hs job st) = upd_queue (qj_id job) f st"
      "\<And>j. qj_id (f j) = qj_id j \<and> qj_attempts (f j) = qj_attempts j
         \<and> qj_maxAttempts (f j) = qj_maxAttempts j \<and> qj_status (f j) \<noteq> ''queued''"
  | (dlq) r d where "r \<in> set (qs_jobs st)" "qj_id r = qj_id job"
      "or_default (qj_attempts job) 0 + 1 \<ge> or_default (qj_maxAttempts job) 0"
      "qs_jobs (snd (settle_job now ctx hs job st)) = filter (\<lambda>j. qj_id j \<noteq> qj_id job) (qs_jobs st)"
      "qs_dlq (snd (settle_job now ctx hs job st)) = qs_dlq st @ [d]" "dl_job d = r"
proof -
  have fj: "\<exists>f. failJob now (qj_id job) e st = upd_queue (qj_id job) f st \<and>
      (\<forall>j. qj_id (f j) = qj_id j \<and> qj_attempts (f j) = qj_attempts j
         \<and> qj_maxAttempts (f j) = qj_maxAttempts j \<and> qj_status (f j) \<noteq> ''queued'')" for e
    unfolding failJob_def by (rule exI, rule conjI, rule refl) simp
  have cj: "\<exists>f. completeJob now (qj_id job) st = upd_queue (qj_id job) f st \<and>
      (\<forall>j. qj_id (f j) = qj_id j \<and> qj_attempts (f j) = qj_attempts j
         \<and> qj_maxAttempts (f j) = qj_maxAttempts j \<and> qj_status (f j) \<noteq> ''queued'')"
    unfolding completeJob_def by (rule exI, rule conjI, rule refl) simp
  show thesis
  proof (cases "hs (qj_type job)")
    case None
    with fj upd show thesis by (auto simp: settle_job_def)
  next
    case h: (Some h)
    show thesis
    proof (cases "h job")
      case None
      with h have "snd (settle_job now ctx hs job st) = completeJob now (qj_id job) st"
        by (simp add: settle_job_def)
      with cj upd show thesis by metis
    next
      case e: (Some e)
      show thesis
      proof (cases "or_default (qj_attempts job) 0 + 1 \<ge> or_default (qj_maxAttempts job) 0")
        case False
        with h e have "snd (settle_job now ctx hs job st) = failJob now (qj_id job) (err_message e) st"
          by (simp add: settle_job_def)
        with fj upd show thesis by metis
      next
        case lim: True
        show thesis
        proof (cases "first_row (filter (\<lambda>j. qj_id j = qj_id job) (qs_jobs st))")
          case None
          with h e lim have "snd (settle_job now ctx hs job st) = st"
            by (simp add: settle_job_def sendToDLQ_def)
          then show thesis by (rule same)
        next
          case r: (Some r)
          show thesis
          proof (cases "err_message e")
            case None
            with h e lim r have "snd (settle_job now ctx hs job st) = st"
              by (simp add: settle_job_def sendToDLQ_def)
            then show thesis by (rule same)
          next
            case (Some m)
            with h e lim r first_row_filter_SomeD [OF r] show thesis
              by (intro dlq [of r "\<lparr>dl_job = r, dl_status = ''dlq'', dl_reason = m, dl_dlqgedAt = now\<rparr>"])
                (simp_all add: settle_job_def sendToDLQ_def)
          qed
        qed
      qed
    qed
  qed
qed

lemma ids_upd [simp]:
  assumes "\<And>j. qj_id (f j) = qj_id j"
  shows "qj_id ` set (qs_jobs (upd_queue i f st)) = qj_id ` set (qs_jobs st)"
proof -
  have "map qj_id (qs_jobs (upd_queue i f st)) = map qj_id (qs_jobs st)"
    by (simp add: upd_queue_def map_sql_update_frame assms)
  then show ?thesis by (metis set_map)
qed

lemma known_upd [simp]:
  assumes "\<And>j. qj_id (f j) = qj_id j"
  shows "known (upd_queue i f st) k = known st k"
  using ids_upd [of f i st, OF assms] by (simp add: known_def upd_queue_def)

lemma upd_row:
  assumes "j \<in> set (qs_jobs (upd_queue i f st))"
    and "\<And>j. qj_id (f j) = qj_id j \<and> qj_attempts (f j) = qj_attempts j
           \<and> qj_maxAttempts (f j) = qj_maxAttempts j"
  obtains k where "k \<in> set (qs_jobs st)" "qj_id j = qj_id k" "qj_attempts j = qj_attempts k"
    "qj_maxAttempts j = qj_maxAttempts k" "j = (if qj_id k = i then f k else k)"
proof -
  from assms(1) obtain k where k: "k \<in> set (qs_jobs st)" "j = (if qj_id k = i then f k else k)"
    by (auto simp: upd_queue_def set_sql_update)
  with assms(2) [of k] show thesis by (cases "qj_id k = i") (auto intro: that)
qed

lemma queue_inv_upd:
  assumes inv: "queue_inv (st, ws)" and held: "\<And>w k. held (ws' w) = Some k \<Longrightarrow> \<exists>v. held (ws v) = Some k"
    and f: "\<And>j. qj_id (f j) = qj_id j \<and> qj_attempts (f j) = qj_attempts j
           \<and> qj_maxAttempts (f j) = qj_maxAttempts j"
  shows "queue_inv (upd_queue i f st, ws')"
proof -
  have "qj_attempts j = Some 0" if "j \<in> set (qs_jobs (upd_queue i f st))" for j
    using that by (rule upd_row [OF _ f]) (use inv in \<open>simp add: queue_inv_def\<close>)
  moreover have "qj_attempts k = Some 0 \<and> known (upd_queue i f st) (qj_id k)
      \<and> (\<forall>j \<in> set (qs_jobs (upd_queue i f st)). qj_id j = qj_id k \<longrightarrow> qj_maxAttempts j = qj_maxAttempts k)"
    if "held (ws' w) = Some k" for w k
  proof -
    from held [OF that] inv have k: "qj_attempts k = Some 0" "known st (qj_id k)"
      "\<forall>j \<in> set (qs_jobs st). qj_id j = qj_id k \<longrightarrow> qj_maxAttempts j = qj_maxAttempts k"
      by (auto simp: queue_inv_def)
    have "qj_maxAttempts j = qj_maxAttempts k"
      if "j \<in> set (qs_jobs (upd_queue i f st))" "qj_id j = qj_id k" for j
      using that(1) by (rule upd_row [OF _ f]) (use k(3) that(2) in simp)
    with k f show ?thesis by simp
  qed
  moreover have "qs_dlq (upd_queue i f st) = qs_dlq st"
    and "map qj_id (qs_jobs (upd_queue i f st)) = map qj_id (qs_jobs st)"
    using f by (simp_all add: upd_queue_def map_sql_update_frame)
  ultimately show ?thesis using inv by (simp add: queue_inv_def)
qed

lemma settle_inv:
  assumes inv: "queue_inv (st, ws)" and w: "held (ws w) = Some job"
  shows "queue_inv (snd (settle_job now ctx hs job st), ws(w := Idle))"
proof (cases rule: settle_cases [of now ctx hs job st])
  case same
  with inv show ?thesis by (simp add: queue_inv_def)
next
  case (upd f)
  show ?thesis unfolding upd(1)
    by (rule queue_inv_upd [OF inv]) (use upd(2) in \<open>auto split: if_splits\<close>)
next
  case (dlq r d)
  let ?st = "snd (settle_job now ctx hs job st)"
  from inv w have job: "qj_attempts job = Some 0"
    "\<forall>j \<in> set (qs_jobs st). qj_id j = qj_id job \<longrightarrow> qj_maxAttempts j = qj_maxAttempts job"
    by (auto simp: queue_inv_def)
  have "known ?st k = known st k" for k
    using dlq(1,2,4,5,6) by (auto simp: known_def image_iff) metis+
  moreover have "or_default (qj_maxAttempts (dl_job d)) 0 \<le> 1"
    using dlq(1,2,3,6) job by simp
  ultimately show ?thesis using inv dlq(4,5) by (auto simp: queue_inv_def distinct_map_filter)
qed

lemma publish_inv:
  assumes inv: "queue_inv (st, ws)" and fresh: "\<not> known st i"
  shows "queue_inv (snd (publishJob i now m st), ws)"
proof -
  have "known (snd (publishJob i now m st)) k \<longleftrightarrow> k = i \<or> known st k" for k
    by (auto simp: known_def publishJob_def)
  moreover have "qj_id k \<noteq> i" if "held (ws w) = Some k" for w k
    using inv fresh that by (auto simp: queue_inv_def)
  moreover have "i \<notin> qj_id ` set (qs_jobs st)" using fresh by (simp add: known_def)
  ultimately show ?thesis using inv by (auto simp: queue_inv_def publishJob_def)
qed

interpretation queue_run: step_invariant "queue_step hs" queue_inv for hs
proof
  fix s s' :: "queue_store \<times> (nat \<Rightarrow> worker)"
  assume inv: "queue_inv s" and "queue_step hs s s'"
  from this(2) show "queue_inv s'"
  proof cases
    case (q_publish i st ws now m)
    with inv show ?thesis by (auto simp: known_def intro: publish_inv)
  next
    case (q_select ws w st job)
    from claim_select_spec [OF q_select(4)] have job: "job \<in> set (qs_jobs st)" by simp
    with inv q_select(1) have "\<forall>j \<in> set (qs_jobs st). qj_id j = qj_id job \<longrightarrow> j = job"
      by (auto simp: queue_inv_def distinct_map dest: inj_onD)
    with inv q_select job show ?thesis by (auto simp: queue_inv_def known_def)
  qed (use inv in \<open>auto intro: settle_inv simp: claim_mark_def intro!: queue_inv_upd split: if_splits\<close>)
qed

lemma spent_step:
  assumes "spent i s" and "queue_step hs s s'" and "\<And>w k. held (snd s w) = Some k \<Longrightarrow> known (fst s) (qj_id k)"
  shows "spent i s'"
  using assms(2)
proof cases
  case (q_publish k st ws now m)
  with assms(1) show ?thesis by (auto simp: spent_def known_def publishJob_def)
next
  case (q_select ws w st job)
  with assms(1) show ?thesis by (simp add: spent_def)
next
  case (q_mark ws w job st now)
  with assms(1) show ?thesis
    by (simp add: spent_def claim_mark_def) (auto simp: upd_queue_def set_sql_update)
next
  case (q_settle ws w job st now ctx)
  then have "spent i (snd (settle_job now ctx hs job st), ws')" for ws'
  proof (cases rule: settle_cases [of now ctx hs job st])
    case same
    with assms(1) q_settle show ?thesis by (simp add: spent_def)
  next
    case (upd f)
    have "qj_status j \<noteq> ''queued''" if "j \<in> set (qs_jobs (upd_queue (qj_id job) f st))" "qj_id j = i" for j
      using that(1) by (rule upd_row) (use upd(2) assms(1) q_settle that(2) in \<open>auto simp: spent_def\<close>)
    with upd assms(1) q_settle show ?thesis by (simp add: spent_def)
  next
    case (dlq r d)
    then have "known (snd (settle_job now ctx hs job st)) i = known st i"
      by (auto simp: known_def image_iff) metis+
    with dlq assms(1) q_settle show ?thesis by (simp add: spent_def)
  qed
  with q_settle show ?thesis by simp
qed

lemma spent_run:
  assumes "(queue_step hs)\<^sup>*\<^sup>* s s'" and "queue_inv s" and "spent i s"
  shows "spent i s'"
  using assms
proof (induction rule: rtranclp_induct)
  case (step t u)
  with queue_run.reachable [OF step.hyps(1)] have inv: "queue_inv t" by blast
  show ?case by (rule spent_step [OF step.IH step.hyps(2)]) (use step.prems inv in \<open>auto simp: queue_inv_def\<close>)
qed simp

section \<open>Properties\<close>

text \<open>
  One worker alone takes the queued row that comes first in the order of priority and schedule
  (whether or not its time has come) and leaves exactly that row completed, failed or moved to the
  dead letters, as its handler decides; without a queued row it does nothing.
\<close>

theorem worker_step_spec:
  assumes "\<forall>ty h job e. hs ty = Some h \<and> h job = Some e \<longrightarrow> err_message e \<noteq> None"
  shows "case claim_select st of
      None \<Rightarrow> processNextJob now ctx hs st = (Inr (False, []), st)
    | Some job \<Rightarrow>
        (\<exists>evs st'. processNextJob now ctx hs st = (Inr (True, evs), st')
           \<and> job \<in> set (qs_jobs st) \<and> qj_status job = ''queued''
           \<and> list_all (\<lambda>j. qj_status j \<noteq> ''queued'' \<or> claim_le job j) (qs_jobs st)
           \<and> statuses st' =
               (if job_verdict hs job = ''dlq'' then filter (\<lambda>(k, t). k \<noteq> qj_id job) (statuses st)
                else with_status (qj_id job) (job_verdict hs job) (statuses st))
           \<and> map (qj_id \<circ> dl_job) (qs_dlq st') = map (qj_id \<circ> dl_job) (qs_dlq st)
               @ (if job_verdict hs job = ''dlq'' then [qj_id job] else []))"
proof (cases "claim_select st")
  case None
  then show ?thesis by (simp add: processNextJob_def claimNextJob_def)
next
  case (Some job)
  let ?st = "claim_mark now (qj_id job) st"
  note sel = claim_select_spec [OF Some]
  have id: "qj_id job \<in> qj_id ` set (qs_jobs ?st)"
    using sel by (simp add: claim_mark_def)
  obtain evs st' where s: "settle_job now ctx hs job ?st = (Inr evs, st')"
    "statuses st' =
       (if job_verdict hs job = ''dlq'' then filter (\<lambda>(k, t). k \<noteq> qj_id job) (statuses ?st)
        else with_status (qj_id job) (job_verdict hs job) (statuses ?st))"
    "map (qj_id \<circ> dl_job) (qs_dlq st') =
       map (qj_id \<circ> dl_job) (qs_dlq ?st) @ (if job_verdict hs job = ''dlq'' then [qj_id job] else [])"
    using settle_spec [OF id, of hs now ctx] assms by blast
  have "processNextJob now ctx hs st = (Inr (True, evs), st')"
    using Some s(1) by (simp add: processNextJob_def claimNextJob_def)
  with Some sel s(2,3) show ?thesis by (auto simp: statuses_ops list_all_iff)
qed

text \<open>
  A job is tried once: however the workers interleave, no attempt is ever counted, a job that has
  failed is never selected again, and only jobs whose limit is one reach the dead letters.
\<close>

theorem failed_job_never_retried:
  assumes "(queue_step hs)\<^sup>*\<^sup>* (empty_queue, \<lambda>_. Idle) (st, ws)"
    and "j \<in> set (qs_jobs st)" and "qj_status j = ''failed''"
    and "(queue_step hs)\<^sup>*\<^sup>* (st, ws) (st', ws')"
  shows "(case claim_select st' of None \<Rightarrow> True | Some k \<Rightarrow> qj_id k \<noteq> qj_id j)
    \<and> list_all (\<lambda>k. qj_attempts k = Some 0) (qs_jobs st')
    \<and> list_all (\<lambda>r. or_default (qj_maxAttempts (dl_job r)) 0 \<le> 1) (qs_dlq st')"
proof -
  have "queue_inv (empty_queue, \<lambda>_. Idle)" by (simp add: queue_inv_def empty_queue_def)
  from queue_run.reachable [OF assms(1) this] have inv: "queue_inv (st, ws)" .
  have "k = j" if "k \<in> set (qs_jobs st)" "qj_id k = qj_id j" for k
    using assms(2) inv that by (auto simp: queue_inv_def distinct_map dest: inj_onD)
  with assms(2,3) have "spent (qj_id j) (st, ws)" by (force simp: spent_def known_def)
  from spent_run [OF assms(4) inv this] have spent: "spent (qj_id j) (st', ws')" .
  from queue_run.reachable [OF assms(4) inv] have "queue_inv (st', ws')" .
  with spent show ?thesis
    by (auto simp: queue_inv_def spent_def list_all_iff split: option.split dest!: claim_select_spec)
qed

text \<open>
  The claim is not exclusive: whenever two workers are idle and a row is queued, both can come to
  work on that same row, since the second statement of the claim does not check that the row is
  still queued.
\<close>

theorem claim_not_exclusive:
  assumes "ws a = Idle" and "ws b = Idle" and "a \<noteq> b" and "claim_select st = Some job"
  shows "\<exists>st' ws'. (queue_step hs)\<^sup>*\<^sup>* (st, ws) (st', ws')
    \<and> ws' a = Working job \<and> ws' b = Working job"
proof -
  let ?m = "claim_mark 0 (qj_id job)"
  let ?w1 = "ws(a := Selected job)" let ?w2 = "?w1(b := Selected job)"
  let ?w3 = "?w2(a := Working job)" let ?w4 = "?w3(b := Working job)"
  have "queue_step hs (st, ws) (st, ?w1)" "queue_step hs (st, ?w1) (st, ?w2)"
    "queue_step hs (st, ?w2) (?m st, ?w3)" "queue_step hs (?m st, ?w3) (?m (?m st), ?w4)"
    using assms q_mark [of ?w2 a job hs st 0] q_mark [of ?w3 b job hs "?m st" 0]
    by (auto intro!: q_select)
  then have "(queue_step hs)\<^sup>*\<^sup>* (st, ws) (?m (?m st), ?w4)" by (meson converse_rtranclp_into_rtranclp rtranclp.rtrancl_refl)
  with assms(3) show ?thesis by fastforce
qed

text \<open>A published job for the examples.\<close>

definition sample_message :: job_message where
  "sample_message =
     \<lparr>jm_type = ''mail'', jm_payload = JNull, jm_entityType = ''blob'', jm_entityId = ''b'',
      jm_priority = 5, jm_scheduledFor = Some 900, jm_maxAttempts = 3, jm_traceId = None\<rparr>"

definition sample_row :: queue_row where
  "sample_row = hd (qs_jobs (snd (publishJob ''q1'' 10 sample_message empty_queue)))"

lemma sample_published:
  "snd (publishJob ''q1'' 10 sample_message empty_queue) = \<lparr>qs_jobs = [sample_row], qs_dlq = []\<rparr>"
  by (simp add: sample_row_def publishJob_def empty_queue_def)

lemma sample_row_fields [simp]:
  "qj_id sample_row = ''q1''" "qj_status sample_row = ''queued''" "qj_type sample_row = ''mail''"
  "qj_attempts sample_row = Some 0" "qj_maxAttempts sample_row = Some 3"
  by (simp_all add: sample_row_def publishJob_def empty_queue_def sample_message_def)

lemma sample_select: "claim_select \<lparr>qs_jobs = [sample_row], qs_dlq = []\<rparr> = Some sample_row"
  by (simp add: claim_select_def)

theorem worker_step_spec_witness:
  "\<exists>evs st'. processNextJob 20 None [''mail'' \<mapsto> (\<lambda>_. Some (js_Error ''down''))]
       \<lparr>qs_jobs = [sample_row], qs_dlq = []\<rparr> = (Inr (True, evs), st')
     \<and> statuses st' = [(''q1'', ''failed'')]"
proof -
  let ?hs = "[''mail'' \<mapsto> (\<lambda>_. Some (js_Error ''down''))]"
  have m: "\<forall>ty h job e. ?hs ty = Some h \<and> h job = Some e \<longrightarrow> err_message e \<noteq> None"
    by (auto simp: err_message_def js_Error_def split: if_splits)
  from worker_step_spec [where hs = ?hs and st = "\<lparr>qs_jobs = [sample_row], qs_dlq = []\<rparr>"
      and now = 20 and ctx = None, OF m]
  show ?thesis
    by (auto simp: sample_select job_verdict_def with_status_def statuses_def)
qed

theorem failed_job_never_retried_witness:
  "\<exists>st ws j. (queue_step Map.empty)\<^sup>*\<^sup>* (empty_queue, \<lambda>_. Idle) (st, ws)
     \<and> qs_jobs st = [j] \<and> qj_status j = ''failed'' \<and> qj_maxAttempts j = Some 3
     \<and> claim_select st = None"
proof -
  let ?s1 = "\<lparr>qs_jobs = [sample_row], qs_dlq = []\<rparr>"
  let ?w = "(\<lambda>_. Idle) :: nat \<Rightarrow> worker"
  let ?s2 = "claim_mark 20 ''q1'' ?s1"
  let ?s3 = "snd (settle_job 30 None Map.empty sample_row ?s2)"
  have "queue_step Map.empty (empty_queue, ?w) (?s1, ?w)"
    using q_publish [of "''q1''" empty_queue Map.empty ?w 10 sample_message] sample_published
    by (simp add: empty_queue_def)
  moreover have "queue_step Map.empty (?s1, ?w) (?s1, ?w(0 := Selected sample_row))"
    by (rule q_select) (simp_all add: sample_select)
  moreover have "queue_step Map.empty (?s1, ?w(0 := Selected sample_row)) (?s2, ?w(0 := Selected sample_row, 0 := Working sample_row))"
    using q_mark [of "?w(0 := Selected sample_row)" 0 sample_row Map.empty ?s1 20] by simp
  moreover have "queue_step Map.empty (?s2, ?w(0 := Working sample_row)) (?s3, ?w(0 := Working sample_row, 0 := Idle))"
    by (rule q_settle) simp
  ultimately have run: "(queue_step Map.empty)\<^sup>*\<^sup>* (empty_queue, ?w) (?s3, ?w)"
    by (simp add: fun_upd_idem)
  obtain j where j: "qs_jobs ?s3 = [j]" "qj_status j = ''failed''" "qj_id j = ''q1''" "qj_maxAttempts j = Some 3"
    by (simp add: settle_job_def failJob_def claim_mark_def upd_queue_def)
  then have "case claim_select ?s3 of None \<Rightarrow> True | Some k \<Rightarrow> qj_id k \<noteq> qj_id j"
    using failed_job_never_retried [OF run _ _ rtranclp.rtrancl_refl, of j] by simp
  with j have "claim_select ?s3 = None"
    by (cases "claim_select ?s3") (auto dest: claim_select_spec)
  with run j show ?thesis by blast
qed

theorem claim_not_exclusive_witness:
  "\<exists>st' ws'. (queue_step Map.empty)\<^sup>*\<^sup>* (\<lparr>qs_jobs = [sample_row], qs_dlq = []\<rparr>, \<lambda>_. Idle) (st', ws')
     \<and> ws' 0 = Working sample_row \<and> ws' 1 = Working sample_row"
  by (rule claim_not_exclusive) (simp_all add: sample_select)

end
