(* ===== verification/Scheduler.thy ===== *)
theory Scheduler
  imports Schedule_Handlers Schedule_Windows Job_Queue
begin

text \<open>
  The scheduler engine of \<open>keeper/src/scheduler.ts\<close>: missed-run detection at start, the execution of
  one schedule under its advisory lock, and the consumer of catch-up jobs. Whether the lock is free
  and whether \<open>node-cron\<close> accepts an expression are parameters; a tick of a task is a step.
\<close>

section \<open>State\<close>

record sched_state =
  ss_db :: db
  ss_schedules :: "schedule_config list"
  ss_runs :: "run_row list"
  ss_queue :: queue_store

definition upd_schedules ::
    "(schedule_config \<Rightarrow> bool) \<Rightarrow> (schedule_config \<Rightarrow> schedule_config) \<Rightarrow> sched_state \<Rightarrow> sched_state" where
  "upd_schedules p f st = st\<lparr>ss_schedules := sql_update p f (ss_schedules st)\<rparr>"

section \<open>Events and runs\<close>

definition emitScheduleEvent ::
    "sched_env \<Rightarrow> string \<Rightarrow> string \<Rightarrow> string \<Rightarrow> (string \<times> json) list option \<Rightarrow> sched_state \<Rightarrow> sched_state" where
  "emitScheduleEvent env eventName scheduleId org details st =
     st\<lparr>ss_db := sys_emit env eventName org ''schedule'' scheduleId details (ss_db st)\<rparr>"

definition recordRunStart :: "sched_env \<Rightarrow> string \<Rightarrow> string \<Rightarrow> sched_state \<Rightarrow> string \<times> sched_state" where
  "recordRunStart env scheduleId org st =
     (let i = se_id env ''schedule_runs'' (length (ss_runs st)) in
      (i, st\<lparr>ss_runs := ss_runs st @
            [\<lparr>sr_id = i, sr_scheduleId = scheduleId, sr_orgId = org, sr_status = ''running'',
              sr_startedAt = se_now env, sr_completedAt = None, sr_durationMs = None, sr_error = None,
              sr_details = Some (JObj []), sr_createdAt = se_now env\<rparr>]\<rparr>))"

definition recordRunComplete ::
    "sched_env \<Rightarrow> string \<Rightarrow> string \<Rightarrow> string option \<Rightarrow> sched_state \<Rightarrow> sched_state" where
  "recordRunComplete env runId status e st =
     st\<lparr>ss_runs := sql_update (\<lambda>r. sr_id r = runId)
          (\<lambda>r. r\<lparr>sr_status := status, sr_completedAt := Some (se_now env),
                 sr_durationMs := Some (se_now env - sr_startedAt r), sr_error := e\<rparr>) (ss_runs st)\<rparr>"

text \<open>
  \<open>schedule.config?.type || 'unknown'\<close>. Handlers are registered under texts, so a type that is not a
  text has no handler either.
\<close>

definition config_type :: "schedule_config \<Rightarrow> string" where
  "config_type schedule =
     (case jget (sk_config schedule) ''type'' of
        Some (JStr ty) \<Rightarrow> if ty \<noteq> [] then ty else ''unknown''
      | _ \<Rightarrow> ''unknown'')"

section \<open>Missed runs\<close>

definition MISSED_WINDOW_ESCALATION_THRESHOLD :: int where
  "MISSED_WINDOW_ESCALATION_THRESHOLD = 3"

definition MISSED_WINDOW_CATCHUP_BATCH_LIMIT :: int where
  "MISSED_WINDOW_CATCHUP_BATCH_LIMIT = 50"

definition NON_CRITICAL_ESCALATION_THRESHOLD :: int where
  "NON_CRITICAL_ESCALATION_THRESHOLD = 10"

definition CRITICAL_SCHEDULE_TYPES :: "string set" where
  "CRITICAL_SCHEDULE_TYPES = {''expiry_check'', ''budget_rollover'', ''expire_blobs''}"

definition CATCHUP_PRIORITY :: int where
  "CATCHUP_PRIORITY = 50"

text \<open>\<open>new Date(x)\<close> drops the fraction of a number.\<close>

definition date_of :: "rat \<Rightarrow> int" where
  "date_of x = (if x < 0 then \<lceil>x\<rceil> else \<lfloor>x\<rfloor>)"

definition is_critical :: "schedule_config \<Rightarrow> bool" where
  "is_critical schedule = or_default (sk_critical schedule) (config_type schedule \<in> CRITICAL_SCHEDULE_TYPES)"

definition catchup_message :: "sched_env \<Rightarrow> schedule_config \<Rightarrow> int \<Rightarrow> job_message" where
  "catchup_message env schedule missedAt =
     \<lparr>jm_type = ''schedule_catchup'',
      jm_payload = JObj [(''scheduleId'', JStr (sk_id schedule)), (''type'', JStr (config_type schedule)),
                         (''orgId'', JStr (sk_orgId schedule)), (''missedAt'', JNum missedAt)],
      jm_entityType = ''schedule'', jm_entityId = sk_id schedule, jm_priority = CATCHUP_PRIORITY,
      jm_scheduledFor = Some (se_now env), jm_maxAttempts = 3, jm_traceId = None\<rparr>"

text \<open>\<open>for (let i = missedCount; i > 0; i--)\<close>, on the counter.\<close>

fun queue_missed :: "sched_env \<Rightarrow> schedule_config \<Rightarrow> rat \<Rightarrow> nat \<Rightarrow> queue_store \<Rightarrow> queue_store" where
  "queue_missed env schedule intervalMs 0 q = q"
| "queue_missed env schedule intervalMs (Suc i) q =
     (let missedAt = date_of (rat_of_int (se_now env) - rat_of_nat i * intervalMs);
          (k, q1) = publishJob (se_id env ''job_queue'' (length (qs_jobs q))) (se_now env)
                      (catchup_message env schedule missedAt) q
      in queue_missed env schedule intervalMs i q1)"

definition handleMissedRuns :: "sched_env \<Rightarrow> schedule_config \<Rightarrow> sched_state \<Rightarrow> sched_state" where
  "handleMissedRuns env schedule st =
     (case sk_lastCompletedAt schedule of
        None \<Rightarrow> st
      | Some completed \<Rightarrow>
          (let elapsedMs = se_now env - completed;
               stalenessThreshold = or_default (sk_maxStalenessMs schedule) 300000;
               missedWindows = computeMissedWindows (sk_cronExpr schedule) (Some completed) (se_now env)
           in if missedWindows \<le> 0 \<and> elapsedMs < stalenessThreshold then st
              else
                (let nums = [(''elapsedMs'', JNum elapsedMs), (''missedWindows'', JNum missedWindows)];
                     st1 = emitScheduleEvent env ''schedule.missed'' (sk_id schedule) (sk_orgId schedule) (Some nums) st;
                     escalationThreshold = (if is_critical schedule then MISSED_WINDOW_ESCALATION_THRESHOLD
                                            else NON_CRITICAL_ESCALATION_THRESHOLD);
                     st2 = (if missedWindows \<ge> escalationThreshold \<and> is_critical schedule
                            then emitScheduleEvent env ''schedule.missed_critical'' (sk_id schedule) (sk_orgId schedule)
                                   (Some (nums @ [(''threshold'', JNum escalationThreshold)])) st1
                            else st1);
                     missedCount = min missedWindows MISSED_WINDOW_CATCHUP_BATCH_LIMIT;
                     intervalMs = (if parseCronInterval (sk_cronExpr schedule) = 0 then 60000
                                   else parseCronInterval (sk_cronExpr schedule));
                     st3 = st2\<lparr>ss_queue := queue_missed env schedule intervalMs (nat missedCount) (ss_queue st2)\<rparr>
                 in emitScheduleEvent env ''schedule.caught_up'' (sk_id schedule) (sk_orgId schedule)
                      (Some (nums @ [(''catchupCount'', JNum missedCount)])) st3)))"

section \<open>The execution of a schedule\<close>

text \<open>The dispatch: the handler by its type; a handler that throws counts as one that failed.\<close>

definition dispatch_handler ::
    "sched_env \<Rightarrow> (string \<rightharpoonup> sched_handler) \<Rightarrow> schedule_config \<Rightarrow> db \<Rightarrow> bool \<times> db" where
  "dispatch_handler env reg schedule d =
     (case reg (config_type schedule) of
        Some h \<Rightarrow> (case h env schedule d of (Inr ok, d1) \<Rightarrow> (ok, d1) | (Inl _, d1) \<Rightarrow> (False, d1))
      | None \<Rightarrow> (False, d))"

definition run_schedule ::
    "sched_env \<Rightarrow> (string \<rightharpoonup> sched_handler) \<Rightarrow> schedule_config \<Rightarrow> sched_state \<Rightarrow> sched_state" where
  "run_schedule env reg schedule st =
     (let (runId, st1) = recordRunStart env (sk_id schedule) (sk_orgId schedule) st;
          (success, d) = dispatch_handler env reg schedule (ss_db st1);
          st2 = st1\<lparr>ss_db := d\<rparr>
      in if success
         then recordRunComplete env runId ''completed'' None
                (upd_schedules (\<lambda>r. sk_id r = sk_id schedule)
                   (\<lambda>r. r\<lparr>sk_lastCompletedAt := Some (se_now env), sk_updatedAt := se_now env\<rparr>) st2)
         else recordRunComplete env runId ''failed'' (Some ''Handler returned false or threw'') st2)"

definition no_count :: thrown where
  "no_count = js_TypeError ''Cannot read properties of undefined (reading count)''"

definition deferred :: "sched_env \<Rightarrow> schedule_config \<Rightarrow> bool" where
  "deferred env schedule \<longleftrightarrow>
     (case (sk_lastRunAt schedule, sk_minIntervalMs schedule) of
        (Some t, Some m) \<Rightarrow> m \<noteq> 0 \<and> se_now env - t < m
      | _ \<Rightarrow> False)"

text \<open>
  The body between lock and unlock, with what it throws. The guard destructures the rows of an
  update without \<open>RETURNING\<close>; a row, if there were one, would have no property \<open>count\<close> either, so
  only its absence is told apart.
\<close>

definition execute_locked ::
    "sched_env \<Rightarrow> (string \<rightharpoonup> sched_handler) \<Rightarrow> string \<Rightarrow> sched_state \<Rightarrow> (thrown + unit) \<times> sched_state" where
  "execute_locked env reg scheduleId st =
     (case first_row (filter (\<lambda>r. sk_id r = scheduleId) (ss_schedules st)) of
        None \<Rightarrow> (Inr (), st)
      | Some schedule \<Rightarrow>
          if deferred env schedule then (Inr (), st)
          else
            (let p = (\<lambda>r. sk_id r = sk_id schedule
                       \<and> (case sk_lastRunAt r of None \<Rightarrow> True | Some t \<Rightarrow> t < se_now env));
                 updated = first_row (res_rows (update_plain p (ss_schedules st)));
                 st1 = upd_schedules p (\<lambda>r. r\<lparr>sk_lastRunAt := Some (se_now env), sk_updatedAt := se_now env\<rparr>) st
             in case updated of
                  None \<Rightarrow> (Inl no_count, st1)
                | Some _ \<Rightarrow> (Inr (), run_schedule env reg schedule st1)))"

text \<open>What the body throws is logged; the lock is released in any case.\<close>

definition executeSchedule ::
    "sched_env \<Rightarrow> (string \<rightharpoonup> sched_handler) \<Rightarrow> bool \<Rightarrow> string \<Rightarrow> sched_state \<Rightarrow> sched_state" where
  "executeSchedule env reg locked scheduleId st =
     (if \<not> locked then st else snd (execute_locked env reg scheduleId st))"

section \<open>Tasks\<close>

record cron_task =
  tk_expr :: string
  tk_live :: bool

type_synonym cron_tasks = "string \<rightharpoonup> cron_task"

text \<open>An existing task is stopped first; an invalid expression throws and leaves the stopped one.\<close>

definition scheduleTask :: "(string \<Rightarrow> bool) \<Rightarrow> schedule_config \<Rightarrow> cron_tasks \<Rightarrow> (thrown + unit) \<times> cron_tasks" where
  "scheduleTask valid schedule ts =
     (let ts1 = (case ts (sk_id schedule) of Some t \<Rightarrow> ts(sk_id schedule \<mapsto> t\<lparr>tk_live := False\<rparr>) | None \<Rightarrow> ts) in
      if valid (sk_cronExpr schedule)
      then (Inr (), ts1(sk_id schedule \<mapsto> \<lparr>tk_expr = sk_cronExpr schedule, tk_live = True\<rparr>))
      else (Inl (js_Error (sk_cronExpr schedule @ '' is not a valid cron expression'')), ts1))"

definition scheduleTaskSafe :: "(string \<Rightarrow> bool) \<Rightarrow> schedule_config \<Rightarrow> cron_tasks \<Rightarrow> cron_tasks" where
  "scheduleTaskSafe valid schedule ts = snd (scheduleTask valid schedule ts)"

definition active_schedule :: "schedule_config \<Rightarrow> bool" where
  "active_schedule r \<longleftrightarrow> sk_enabled r \<and> (sk_status r = None \<or> sk_status r \<noteq> Some ''deleted'')"

record engine =
  en_tasks :: cron_tasks
  en_running :: bool

definition loadAndStart ::
    "(string \<Rightarrow> bool) \<Rightarrow> sched_env \<Rightarrow> engine \<Rightarrow> sched_state \<Rightarrow> engine \<times> sched_state" where
  "loadAndStart valid env en st =
     (let activeSchedules = filter active_schedule (ss_schedules st) in
      (\<lparr>en_tasks = fold (scheduleTaskSafe valid) activeSchedules (en_tasks en), en_running = True\<rparr>,
       fold (handleMissedRuns env) activeSchedules st))"

definition reloadSchedule :: "(string \<Rightarrow> bool) \<Rightarrow> string \<Rightarrow> sched_state \<Rightarrow> engine \<Rightarrow> engine" where
  "reloadSchedule valid scheduleId st en =
     (case filter (\<lambda>r. sk_id r = scheduleId) (ss_schedules st) of
        [] \<Rightarrow> en
      | r # _ \<Rightarrow> en\<lparr>en_tasks := scheduleTaskSafe valid r (en_tasks en)\<rparr>)"

definition stop_scheduler :: "engine \<Rightarrow> engine" where
  "stop_scheduler en = \<lparr>en_tasks = Map.empty, en_running = False\<rparr>"

section \<open>The catch-up consumer\<close>

definition thrown_text :: "thrown \<Rightarrow> string" where
  "thrown_text t = (case t of ErrObj e _ \<Rightarrow> if e_msg e = [] then e_name e else e_name e @ '': '' @ e_msg e | Prim s \<Rightarrow> s)"

definition is_catchup :: "queue_row \<Rightarrow> bool" where
  "is_catchup j \<longleftrightarrow> qj_status j = ''queued'' \<and> qj_type j = ''schedule_catchup''"

text \<open>The parsing of a payload that is stored as text is a parameter; the ids are those of schedules.\<close>

definition catchup_row ::
    "sched_env \<Rightarrow> (string \<rightharpoonup> sched_handler) \<Rightarrow> string \<Rightarrow> json \<Rightarrow> sched_state \<Rightarrow> (thrown + unit) \<times> sched_state" where
  "catchup_row env reg i payload st =
     (let failing = (\<lambda>e st. (Inr (), st\<lparr>ss_queue := failJob (se_now env) i (Some e) (ss_queue st)\<rparr>)) in
      case jget payload ''scheduleId'' of
        Some (JStr sid) \<Rightarrow>
          (case first_row (filter (\<lambda>r. sk_id r = sid) (ss_schedules st)) of
             None \<Rightarrow> failing ''Schedule not found'' st
           | Some schedule \<Rightarrow>
               (let ty = (case jget payload ''type'' of Some (JStr ty) \<Rightarrow> ty | _ \<Rightarrow> ''undefined'') in
                case reg ty of
                  None \<Rightarrow> failing (''No handler for type: '' @ ty) st
                | Some h \<Rightarrow>
                    (case h env schedule (ss_db st) of
                       (Inl e, d) \<Rightarrow> failing (thrown_text e) (st\<lparr>ss_db := d\<rparr>)
                     | (Inr ok, d) \<Rightarrow>
                         if ok
                         then (Inr (), upd_schedules (\<lambda>r. sk_id r = sk_id schedule)
                                 (\<lambda>r. r\<lparr>sk_lastCompletedAt := Some (se_now env), sk_updatedAt := se_now env\<rparr>)
                                 (st\<lparr>ss_db := d, ss_queue := completeJob (se_now env) i (ss_queue st)\<rparr>))
                         else failing ''Handler returned false'' (st\<lparr>ss_db := d\<rparr>))))
      | _ \<Rightarrow> (Inl (js_Error ''UNDEFINED_VALUE: Undefined values are not allowed''), st))"

definition catchup_poll ::
    "sched_env \<Rightarrow> (string \<Rightarrow> thrown + json) \<Rightarrow> (string \<rightharpoonup> sched_handler) \<Rightarrow> sched_state \<Rightarrow> sched_state" where
  "catchup_poll env parse reg st =
     (case first_row (sort_by claim_le (filter is_catchup (qs_jobs (ss_queue st)))) of
        None \<Rightarrow> st
      | Some j \<Rightarrow>
          (case (case qj_payload j of JStr s \<Rightarrow> parse s | p \<Rightarrow> Inr p) of
             Inl _ \<Rightarrow> st
           | Inr payload \<Rightarrow>
               snd (catchup_row env reg (qj_id j) payload
                 (st\<lparr>ss_queue := (ss_queue st)\<lparr>qs_jobs :=
                    sql_update (\<lambda>r. qj_id r = qj_id j \<and> qj_status r = ''queued'')
                      (\<lambda>r. r\<lparr>qj_status := ''processing'', qj_startedAt := Some (se_now env)\<rparr>)
                      (qs_jobs (ss_queue st))\<rparr>\<rparr>))))"

section \<open>The engine over time\<close>

text \<open>
  The steps of a keeper and of the writers beside it: a start, a tick, a poll, a reload, a stop, and
  the publication of other jobs.
\<close>

inductive sched_step ::
    "(string \<Rightarrow> bool) \<Rightarrow> (string \<Rightarrow> thrown + json) \<Rightarrow> (string \<rightharpoonup> sched_handler)
     \<Rightarrow> engine \<times> sched_state \<Rightarrow> engine \<times> sched_state \<Rightarrow> bool"
  for valid parse reg where
  sched_start: "sched_step valid parse reg (en, st) (loadAndStart valid env en st)"
| sched_tick: "en_tasks en i = Some t \<Longrightarrow> tk_live t \<Longrightarrow>
    sched_step valid parse reg (en, st) (en, executeSchedule env reg locked i st)"
| sched_poll: "en_running en \<Longrightarrow> sched_step valid parse reg (en, st) (en, catchup_poll env parse reg st)"
| sched_reload: "sched_step valid parse reg (en, st) (reloadSchedule valid i st en, st)"
| sched_stop: "sched_step valid parse reg (en, st) (stop_scheduler en, st)"
| sched_publish: "jm_type m \<noteq> ''schedule_catchup'' \<Longrightarrow>
    sched_step valid parse reg (en, st) (en, st\<lparr>ss_queue := snd (publishJob i now m (ss_queue st))\<rparr>)"

section \<open>Facts\<close>

subsection \<open>A fresh engine\<close>

text \<open>No schedule has ever completed and no catch-up job waits.\<close>

definition never_completed :: "sched_state \<Rightarrow> bool" where
  "never_completed st \<longleftrightarrow>
     (\<forall>r \<in> set (ss_schedules st). sk_lastCompletedAt r = None)
     \<and> (\<forall>j \<in> set (qs_jobs (ss_queue st)). \<not> is_catchup j)"

text \<open>A tick changes only the time stamps of its row: the update returns no row to read the count of.\<close>

lemma execute_frame:
  "ss_db (executeSchedule env reg locked i st) = ss_db st"
  "ss_runs (executeSchedule env reg locked i st) = ss_runs st"
  "ss_queue (executeSchedule env reg locked i st) = ss_queue st"
  "map sk_lastCompletedAt (ss_schedules (executeSchedule env reg locked i st)) =
     map sk_lastCompletedAt (ss_schedules st)"
  by (simp_all add: executeSchedule_def execute_locked_def update_plain_def upd_schedules_def Let_def
      map_sql_update_frame split: option.splits)

lemma missed_fresh: "sk_lastCompletedAt r = None \<Longrightarrow> handleMissedRuns env r st = st"
  by (simp add: handleMissedRuns_def)

lemma start_fresh:
  assumes "\<forall>r \<in> set (ss_schedules st). sk_lastCompletedAt r = None"
  shows "snd (loadAndStart valid env en st) = st"
proof -
  have "fold (handleMissedRuns env) rs st = st" if "\<forall>r \<in> set rs. sk_lastCompletedAt r = None" for rs
    using that by (induction rs) (simp_all add: missed_fresh)
  with assms show ?thesis by (simp add: loadAndStart_def Let_def)
qed

lemma poll_idle:
  assumes "\<forall>j \<in> set (qs_jobs (ss_queue st)). \<not> is_catchup j"
  shows "catchup_poll env parse reg st = st"
proof -
  have "filter is_catchup (qs_jobs (ss_queue st)) = []" using assms by (simp add: filter_empty_conv)
  then show ?thesis by (simp add: catchup_poll_def)
qed

definition fresh_inv :: "sched_state \<Rightarrow> engine \<times> sched_state \<Rightarrow> bool" where
  "fresh_inv st0 s \<longleftrightarrow> never_completed (snd s) \<and> ss_db (snd s) = ss_db st0 \<and> ss_runs (snd s) = ss_runs st0"

lemma tick_fresh:
  assumes "never_completed st"
  shows "never_completed (executeSchedule env reg locked i st)"
proof -
  have "set (map sk_lastCompletedAt (ss_schedules (executeSchedule env reg locked i st))) \<subseteq> {None}"
    unfolding execute_frame(4) using assms by (auto simp: never_completed_def)
  with assms show ?thesis by (auto simp: never_completed_def execute_frame(3))
qed

lemma never_completed_fixes:
  assumes "never_completed st"
  shows "snd (loadAndStart valid env en st) = st" and "catchup_poll env parse reg st = st"
  using assms by (auto simp: never_completed_def start_fresh poll_idle)

lemma fresh_step:
  assumes "fresh_inv st0 s" and "sched_step valid parse reg s s'"
  shows "fresh_inv st0 s'"
  using assms(2,1)
proof (cases rule: sched_step.cases)
  case sched_publish
  with assms(1) show ?thesis by (auto simp: fresh_inv_def never_completed_def publishJob_def is_catchup_def)
qed (auto simp: fresh_inv_def never_completed_fixes tick_fresh execute_frame(1-3))

interpretation fresh: step_invariant "sched_step valid parse reg" "fresh_inv st0" for valid parse reg st0
  by unfold_locales (rule fresh_step)

subsection \<open>Catch-up jobs\<close>

text \<open>An update that takes the rows of one id out of the queue.\<close>

lemma filter_catchup_update:
  assumes "\<And>j. qj_id j = i \<Longrightarrow> is_catchup j \<Longrightarrow> p j" and "\<And>j. p j \<Longrightarrow> qj_id j = i"
    and "\<And>j. qj_status (f j) \<noteq> ''queued''"
  shows "filter is_catchup (sql_update p f js) = filter (\<lambda>r. is_catchup r \<and> qj_id r \<noteq> i) js"
  using assms by (induction js) (auto simp: is_catchup_def)

definition settles :: "string \<Rightarrow> queue_store \<Rightarrow> queue_store \<Rightarrow> bool" where
  "settles i q q' \<longleftrightarrow>
     qs_jobs q' = qs_jobs q
     \<or> (\<exists>f. (\<forall>j. qj_status (f j) \<noteq> ''queued'') \<and> qs_jobs q' = sql_update (\<lambda>j. qj_id j = i) f (qs_jobs q))"

lemma settles_ops [simp]:
  "settles i q q" "settles i q (failJob now i e q)" "settles i q (completeJob now i q)"
proof -
  show "settles i q q" by (simp add: settles_def)
  have *: "settles i q (upd_queue i f q)" if "\<forall>j. qj_status (f j) \<noteq> ''queued''" for f
    unfolding settles_def using that by (intro disjI2 exI [of _ f]) (simp add: upd_queue_def)
  show "settles i q (failJob now i e q)" "settles i q (completeJob now i q)"
    unfolding failJob_def completeJob_def by (rule *, simp)+
qed

lemma catchup_row_queue: "settles i (ss_queue st) (ss_queue (snd (catchup_row env reg i payload st)))"
proof -
  have q: "ss_queue (upd_schedules p f s) = ss_queue s" for p f s by (simp add: upd_schedules_def)
  show ?thesis
    unfolding catchup_row_def Let_def
    by (simp add: q split: option.split json.split sum.split prod.split)
qed

definition waiting :: "sched_state \<Rightarrow> queue_row list" where
  "waiting st = filter is_catchup (qs_jobs (ss_queue st))"

lemma poll_waiting:
  assumes "first_row (sort_by claim_le (waiting st)) = Some j" and "\<forall>s. qj_payload j \<noteq> JStr s"
  shows "waiting (catchup_poll env parse reg st) = filter (\<lambda>r. qj_id r \<noteq> qj_id j) (waiting st)"
proof -
  let ?m = "sql_update (\<lambda>r. qj_id r = qj_id j \<and> qj_status r = ''queued'')
      (\<lambda>r. r\<lparr>qj_status := ''processing'', qj_startedAt := Some (se_now env)\<rparr>) (qs_jobs (ss_queue st))"
  let ?st = "st\<lparr>ss_queue := (ss_queue st)\<lparr>qs_jobs := ?m\<rparr>\<rparr>"
  have m: "filter is_catchup ?m = filter (\<lambda>r. is_catchup r \<and> qj_id r \<noteq> qj_id j) (qs_jobs (ss_queue st))"
    by (rule filter_catchup_update) (auto simp: is_catchup_def)
  from assms have "catchup_poll env parse reg st = snd (catchup_row env reg (qj_id j) (qj_payload j) ?st)"
    by (simp add: catchup_poll_def waiting_def split: json.splits)
  moreover have "filter is_catchup (qs_jobs (ss_queue (snd (catchup_row env reg (qj_id j) (qj_payload j) ?st)))) =
      filter (\<lambda>r. is_catchup r \<and> qj_id r \<noteq> qj_id j) (qs_jobs (ss_queue st))"
    using catchup_row_queue [of "qj_id j" ?st env reg "qj_payload j"] unfolding settles_def
  proof
    assume "qs_jobs (ss_queue (snd (catchup_row env reg (qj_id j) (qj_payload j) ?st))) = qs_jobs (ss_queue ?st)"
    with m show ?thesis by simp
  next
    assume "\<exists>f. (\<forall>j. qj_status (f j) \<noteq> ''queued'')
        \<and> qs_jobs (ss_queue (snd (catchup_row env reg (qj_id j) (qj_payload j) ?st))) =
            sql_update (\<lambda>r. qj_id r = qj_id j) f (qs_jobs (ss_queue ?st))"
    then obtain f where f: "\<And>j. qj_status (f j) \<noteq> ''queued''"
      "qs_jobs (ss_queue (snd (catchup_row env reg (qj_id j) (qj_payload j) ?st))) =
         sql_update (\<lambda>r. qj_id r = qj_id j) f ?m" by auto
    have "filter is_catchup (sql_update (\<lambda>r. qj_id r = qj_id j) f ?m) =
        filter (\<lambda>r. is_catchup r \<and> qj_id r \<noteq> qj_id j) ?m"
      by (rule filter_catchup_update) (auto simp: f(1))
    also have "\<dots> = filter (\<lambda>r. qj_id r \<noteq> qj_id j) (filter is_catchup ?m)"
      by (simp add: conj_commute)
    finally show ?thesis by (simp add: f(2) m conj_ac)
  qed
  ultimately show ?thesis by (simp add: waiting_def conj_commute)
qed

text \<open>The jobs \<open>queue_missed\<close> appends.\<close>

definition missed_at :: "sched_env \<Rightarrow> rat \<Rightarrow> nat \<Rightarrow> int" where
  "missed_at env iv i = date_of (rat_of_int (se_now env) - rat_of_nat i * iv)"

lemma queue_missed_spec:
  "\<exists>new. qs_jobs (queue_missed env sc iv n q) = qs_jobs q @ new
     \<and> map qj_payload new = map (\<lambda>i. jm_payload (catchup_message env sc (missed_at env iv i))) (rev [0..<n])
     \<and> (\<forall>j \<in> set new. is_catchup j \<and> qj_priority j = Some 50 \<and> qj_scheduledFor j = Some (se_now env))
     \<and> qs_dlq (queue_missed env sc iv n q) = qs_dlq q"
proof (induction n arbitrary: q)
  case 0
  then show ?case by simp
next
  case (Suc n)
  let ?q = "snd (publishJob (se_id env ''job_queue'' (length (qs_jobs q))) (se_now env)
      (catchup_message env sc (missed_at env iv n)) q)"
  from Suc [of ?q] obtain new where new: "qs_jobs (queue_missed env sc iv n ?q) = qs_jobs ?q @ new"
    "map qj_payload new = map (\<lambda>i. jm_payload (catchup_message env sc (missed_at env iv i))) (rev [0..<n])"
    "\<forall>j \<in> set new. is_catchup j \<and> qj_priority j = Some 50 \<and> qj_scheduledFor j = Some (se_now env)"
    "qs_dlq (queue_missed env sc iv n ?q) = qs_dlq ?q" by blast
  then show ?case
    by (simp add: missed_at_def [symmetric] split_beta)
      (auto simp: publishJob_def catchup_message_def is_catchup_def CATCHUP_PRIORITY_def)
qed

lemma date_of_mono: "x \<le> y \<Longrightarrow> date_of x \<le> date_of y"
proof -
  assume le: "x \<le> y"
  have "\<lceil>x\<rceil> \<le> \<lfloor>y\<rfloor>" if "x < 0" "\<not> y < 0"
  proof -
    from that have "\<lceil>x\<rceil> \<le> 0" "0 \<le> \<lfloor>y\<rfloor>" by simp_all
    then show ?thesis by (rule order_trans)
  qed
  with le show ?thesis by (auto simp: date_of_def intro: floor_mono ceiling_mono)
qed

lemma missed_at_antimono: "0 \<le> iv \<Longrightarrow> i \<le> k \<Longrightarrow> missed_at env iv k \<le> missed_at env iv i"
  unfolding missed_at_def by (intro date_of_mono diff_left_mono mult_right_mono) simp_all

lemma missed_sorted: "0 \<le> iv \<Longrightarrow> sorted (map (missed_at env iv) (rev [0..<n]))"
  by (induction n) (auto simp: missed_at_antimono)

definition missed_time :: "queue_row \<Rightarrow> int" where
  "missed_time j = (case jget (qj_payload j) ''missedAt'' of Some (JNum t) \<Rightarrow> t | _ \<Rightarrow> 0)"

definition sample_state :: sched_state where
  "sample_state = \<lparr>ss_db = empty_db, ss_schedules = [sample_schedule], ss_runs = [], ss_queue = empty_queue\<rparr>"

section \<open>Properties\<close>

text \<open>
  C18: whatever keepers start, ticks fire, polls run and other jobs are published, an engine whose
  schedules have never completed does no work: the database and the run history stay as they were, no
  schedule ever completes and no catch-up job is ever queued.
\<close>

theorem fresh_scheduler_idle:
  assumes "(sched_step valid parse reg)\<^sup>*\<^sup>* (en, st) (en', st')" and "never_completed st"
  shows "ss_db st' = ss_db st \<and> ss_runs st' = ss_runs st \<and> never_completed st'"
  using fresh.reachable [OF assms(1), of st] assms(2) by (simp add: fresh_inv_def)

theorem fresh_scheduler_idle_witness:
  "\<exists>en' st'. (sched_step (\<lambda>e. True) (\<lambda>s. Inl (Prim s)) built_in_handlers)\<^sup>*\<^sup>*
       (\<lparr>en_tasks = Map.empty, en_running = False\<rparr>, sample_state) (en', st')
     \<and> en_running en' \<and> map sk_lastRunAt (ss_schedules st') = [Some 90]
     \<and> ss_db st' = ss_db sample_state \<and> ss_runs st' = []"
proof -
  let ?step = "sched_step (\<lambda>e. True) (\<lambda>s. Inl (Prim s)) built_in_handlers"
  let ?en = "\<lparr>en_tasks = Map.empty, en_running = False\<rparr>"
  let ?en' = "\<lparr>en_tasks = [''s1'' \<mapsto> \<lparr>tk_expr = ''0 */5 * * *'', tk_live = True\<rparr>], en_running = True\<rparr>"
  let ?st' = "executeSchedule sample_sched built_in_handlers True ''s1'' sample_state"
  have fresh: "never_completed sample_state"
    by (simp add: never_completed_def sample_state_def sample_schedule_def empty_queue_def)
  have "loadAndStart (\<lambda>e. True) sample_sched ?en sample_state = (?en', sample_state)"
    by (simp add: loadAndStart_def Let_def sample_state_def sample_schedule_def active_schedule_def
        scheduleTaskSafe_def scheduleTask_def handleMissedRuns_def)
  then have "?step (?en, sample_state) (?en', sample_state)"
    using sched_start [of "\<lambda>e. True" "\<lambda>s. Inl (Prim s)" built_in_handlers ?en sample_state sample_sched] by simp
  moreover have "?step (?en', sample_state) (?en', ?st')"
    by (rule sched_tick [where t = "\<lparr>tk_expr = ''0 */5 * * *'', tk_live = True\<rparr>"]) simp_all
  ultimately have r: "?step\<^sup>*\<^sup>* (?en, sample_state) (?en', ?st')"
    by (meson converse_rtranclp_into_rtranclp rtranclp.rtrancl_refl)
  have run: "map sk_lastRunAt (ss_schedules ?st') = [Some 90]"
    by (simp add: executeSchedule_def execute_locked_def sample_state_def sample_schedule_def deferred_def Let_def
        update_plain_def upd_schedules_def sample_sched_def)
  have none: "ss_runs sample_state = []" by (simp add: sample_state_def)
  from fresh_scheduler_idle [OF r fresh] r run none show ?thesis
    by (intro exI [of _ ?en'] exI [of _ ?st']) simp
qed

text \<open>
  The work a tick is meant to do: the handler of the configured type runs once; one run is recorded,
  completed or failed as the handler answers, an exception counting as a failure; and the schedule
  gets its completion time exactly on success.
\<close>

theorem run_schedule_spec:
  assumes "se_id env ''schedule_runs'' (length (ss_runs st)) \<notin> sr_id ` set (ss_runs st)"
    and "dispatch_handler env reg sc (ss_db st) = (ok, d)"
  shows "ss_db (run_schedule env reg sc st) = d
    \<and> (\<exists>r. ss_runs (run_schedule env reg sc st) = ss_runs st @ [r] \<and> sr_scheduleId r = sk_id sc
         \<and> sr_status r = (if ok then ''completed'' else ''failed'') \<and> sr_completedAt r = Some (se_now env)
         \<and> (sr_error r = None \<longleftrightarrow> ok))
    \<and> map sk_lastCompletedAt (ss_schedules (run_schedule env reg sc st)) =
        map (\<lambda>r. if ok \<and> sk_id r = sk_id sc then Some (se_now env) else sk_lastCompletedAt r) (ss_schedules st)
    \<and> ss_queue (run_schedule env reg sc st) = ss_queue st"
proof -
  let ?i = "se_id env ''schedule_runs'' (length (ss_runs st))"
  have other: "sql_update (\<lambda>r. sr_id r = ?i) f (ss_runs st) = ss_runs st" for f
    by (rule sql_update_none) (use assms(1) in force)
  have app: "sql_update p f (xs @ ys) = sql_update p f xs @ sql_update p f ys" for p f and xs ys :: "run_row list"
    by (simp add: sql_update_def)
  show ?thesis
    using assms(2) by (cases ok) (simp_all add: run_schedule_def recordRunStart_def recordRunComplete_def
      upd_schedules_def Let_def other app, simp_all add: sql_update_def)
qed

theorem run_schedule_spec_witness:
  "ss_runs sample_state = [] \<and> map sr_status (ss_runs (run_schedule sample_sched built_in_handlers sample_schedule sample_state))
     = [''completed'']"
proof -
  have fresh: "se_id sample_sched ''schedule_runs'' (length (ss_runs sample_state)) \<notin> sr_id ` set (ss_runs sample_state)"
    by (simp add: sample_state_def)
  have "dispatch_handler sample_sched built_in_handlers sample_schedule (ss_db sample_state) = (True, empty_db)"
    by (simp add: dispatch_handler_def built_in_handlers_def registerScheduleHandler_def config_type_def
        sample_schedule_def sample_state_def expiry_check_def sample_sched_def empty_db_def)
  from run_schedule_spec [OF fresh this] show ?thesis by (auto simp: sample_state_def)
qed

text \<open>
  C25: a restart after \<open>m\<close> missed windows queues one catch-up job for each of them, at most fifty, all at
  one priority and one time, and the oldest window first.
\<close>

theorem missed_runs_spec:
  assumes "sk_lastCompletedAt sc = Some t" and "computeMissedWindows (sk_cronExpr sc) (Some t) (se_now env) = m" and "0 < m"
  shows "\<exists>new. qs_jobs (ss_queue (handleMissedRuns env sc st)) = qs_jobs (ss_queue st) @ new
    \<and> int (length new) = min m 50 \<and> sorted (map missed_time new)
    \<and> (\<forall>j \<in> set new. is_catchup j \<and> qj_priority j = Some 50 \<and> qj_scheduledFor j = Some (se_now env))
    \<and> ss_runs (handleMissedRuns env sc st) = ss_runs st \<and> ss_schedules (handleMissedRuns env sc st) = ss_schedules st"
proof -
  define iv where "iv = (if parseCronInterval (sk_cronExpr sc) = 0 then 60000 else parseCronInterval (sk_cronExpr sc))"
  have iv: "0 \<le> iv" by (simp add: iv_def cron_interval_nonneg)
  let ?n = "nat (min m 50)"
  have q: "ss_queue (handleMissedRuns env sc st) = queue_missed env sc iv ?n (ss_queue st)"
    and rest: "ss_runs (handleMissedRuns env sc st) = ss_runs st"
      "ss_schedules (handleMissedRuns env sc st) = ss_schedules st"
    using assms by (simp_all add: handleMissedRuns_def Let_def emitScheduleEvent_def iv_def
        MISSED_WINDOW_CATCHUP_BATCH_LIMIT_def)
  from queue_missed_spec [of env sc iv ?n "ss_queue st"] obtain new where
    new: "qs_jobs (queue_missed env sc iv ?n (ss_queue st)) = qs_jobs (ss_queue st) @ new"
    "map qj_payload new = map (\<lambda>i. jm_payload (catchup_message env sc (missed_at env iv i))) (rev [0..<?n])"
    "\<forall>j \<in> set new. is_catchup j \<and> qj_priority j = Some 50 \<and> qj_scheduledFor j = Some (se_now env)" by blast
  have len: "length new = ?n" using arg_cong [where f = length, OF new(2)] by simp
  have "map missed_time new = map (missed_at env iv) (rev [0..<?n])"
    using arg_cong [where f = "map (\<lambda>p. case jget p ''missedAt'' of Some (JNum t) \<Rightarrow> t | _ \<Rightarrow> 0)", OF new(2)]
    by (simp add: missed_time_def [abs_def] catchup_message_def o_def)
  then have "sorted (map missed_time new)" by (simp only: missed_sorted [OF iv])
  with q rest new len assms(3) show ?thesis by (intro exI [of _ new]) simp
qed

theorem missed_runs_spec_witness:
  "\<exists>new. qs_jobs (ss_queue (handleMissedRuns (sample_sched\<lparr>se_now := 36000000\<rparr>)
        (sample_schedule\<lparr>sk_lastCompletedAt := Some 0, sk_cronExpr := ''0 * * * *''\<rparr>) sample_state)) = new
     \<and> length new = 9 \<and> sorted (map missed_time new)"
proof -
  let ?sc = "sample_schedule\<lparr>sk_lastCompletedAt := Some 0, sk_cronExpr := ''0 * * * *''\<rparr>"
  let ?env = "sample_sched\<lparr>se_now := 36000000\<rparr>"
  have "computeMissedWindows ''0 * * * *'' (Some 0) 36000000 = 9" by code_simp
  then have m: "computeMissedWindows (sk_cronExpr ?sc) (Some 0) (se_now ?env) = 9" by simp
  have t: "sk_lastCompletedAt ?sc = Some 0" by simp
  from missed_runs_spec [OF t m, of sample_state] show ?thesis by (auto simp: sample_state_def empty_queue_def)
qed

text \<open>
  C23: the consumer empties its backlog: after as many polls as catch-up jobs wait, whatever their
  handlers answer or throw, none waits any more.
\<close>

theorem catchup_drains:
  assumes "length (waiting st) \<le> length envs" and "\<forall>j \<in> set (waiting st). \<forall>s. qj_payload j \<noteq> JStr s"
  shows "waiting (fold (\<lambda>env. catchup_poll env parse reg) envs st) = []"
  using assms
proof (induction envs arbitrary: st)
  case Nil
  then show ?case by simp
next
  case (Cons env envs)
  show ?case
  proof (cases "waiting st = []")
    case True
    then have "catchup_poll env parse reg st = st"
      by (intro poll_idle) (simp add: waiting_def filter_empty_conv)
    with True Cons.IH [of st] show ?thesis by simp
  next
    case False
    then obtain j where j: "first_row (sort_by claim_le (waiting st)) = Some j"
      using claim_order.hd_sort_mem [OF False] by (cases "sort_by claim_le (waiting st)") auto
    then have mem: "j \<in> set (waiting st)"
      using claim_order.hd_sort_mem [OF False] by (cases "sort_by claim_le (waiting st)") auto
    with Cons.prems(2) have w: "waiting (catchup_poll env parse reg st) = filter (\<lambda>r. qj_id r \<noteq> qj_id j) (waiting st)"
      by (intro poll_waiting [OF j]) auto
    have "length (filter (\<lambda>r. qj_id r \<noteq> qj_id j) (waiting st)) < length (waiting st)"
      using mem by (intro length_filter_less [of j]) auto
    with w Cons.prems Cons.IH [of "catchup_poll env parse reg st"] show ?thesis by simp
  qed
qed

theorem catchup_drains_witness:
  "\<exists>st. length (waiting st) = 2 \<and>
     waiting (catchup_poll sample_sched (\<lambda>s. Inl (Prim s)) built_in_handlers (catchup_poll sample_sched (\<lambda>s. Inl (Prim s)) built_in_handlers st)) = []"
proof -
  define st where "st = sample_state\<lparr>ss_queue := queue_missed sample_sched sample_schedule 60000 2 empty_queue\<rparr>"
  from queue_missed_spec [of sample_sched sample_schedule 60000 2 empty_queue] obtain new where
    new: "qs_jobs (ss_queue st) = new"
    "map qj_payload new = map (\<lambda>i. jm_payload (catchup_message sample_sched sample_schedule (missed_at sample_sched 60000 i))) (rev [0..<2])"
    "\<forall>j \<in> set new. is_catchup j" by (auto simp: st_def empty_queue_def)
  have w: "waiting st = new" using new(1,3) by (simp add: waiting_def)
  have len: "length new = 2" using arg_cong [where f = length, OF new(2)] by simp
  have "set (map qj_payload new) \<subseteq> range JObj" unfolding new(2) by (auto simp: catchup_message_def)
  then have p: "\<forall>j \<in> set (waiting st). \<forall>s. qj_payload j \<noteq> JStr s" unfolding w by force
  from catchup_drains [of st "[sample_sched, sample_sched]", OF _ p] len w show ?thesis
    by (intro exI [of _ st]) simp
qed

end
