(* ===== verification/Notification_Engine.thy ===== *)
theory Notification_Engine
  imports Schedule_Handlers
begin

text \<open>
  The delivery of alert events: \<open>keeper/src/notification-engine.ts\<close> and \<open>processFiredAlerts\<close> of
  \<open>keeper/src/index.ts\<close>. The channels and the decryption of their settings are parameters. The
  statements of a transaction see its changes; an error aborts it, after which every statement fails
  and the changes are rolled back. What has been sent is not.
\<close>

section \<open>State\<close>

record payload =
  pl_id :: string
  pl_alertEventId :: string
  pl_orgId :: string
  pl_eventType :: string
  pl_severity :: string
  pl_message :: string
  pl_details :: json
  pl_linkToEntity :: string
  pl_traceId :: "json option"

record delivery_result =
  dr_success :: bool
  dr_statusCode :: "int option"
  dr_error :: "string option"

text \<open>A channel answers or throws, and may answer each attempt differently.\<close>

type_synonym channel_impl = "payload \<Rightarrow> (string \<times> json) list \<Rightarrow> nat \<Rightarrow> thrown + delivery_result"

record notif_env =
  ne_now :: int
  ne_id :: "string \<Rightarrow> nat \<Rightarrow> string"
  ne_channels :: "string \<rightharpoonup> channel_impl"
  ne_decrypt :: "string \<Rightarrow> thrown + string"

record flapping_state =
  fp_count :: nat
  fp_eventNames :: "string set"
  fp_firstSeen :: int
  fp_lastSeen :: int

text \<open>The tables, the tracker of the process, and the log of what was handed to channels.\<close>

record notif_state =
  nf_db :: db
  nf_rules :: "rule_row list"
  nf_channels :: "channel_row list"
  nf_notifications :: "notification_row list"
  nf_flapping :: "string \<rightharpoonup> flapping_state"
  nf_sends :: "(channel_row \<times> payload) list"

section \<open>Flapping\<close>

definition FLAPPING_WINDOW_MS :: int where
  "FLAPPING_WINDOW_MS = 5 * 60 * 1000"

definition FLAPPING_THRESHOLD :: nat where
  "FLAPPING_THRESHOLD = 3"

definition checkFlapping ::
    "int \<Rightarrow> string \<Rightarrow> string \<Rightarrow> (string \<rightharpoonup> flapping_state) \<Rightarrow> bool \<times> (string \<rightharpoonup> flapping_state)" where
  "checkFlapping now entityId eventName t =
     (let fresh = (False, t(entityId \<mapsto> \<lparr>fp_count = 1, fp_eventNames = {eventName},
                                    fp_firstSeen = now, fp_lastSeen = now\<rparr>)) in
      case t entityId of
        None \<Rightarrow> fresh
      | Some e \<Rightarrow>
          if now - fp_lastSeen e > FLAPPING_WINDOW_MS then fresh
          else (fp_count e + 1 \<ge> FLAPPING_THRESHOLD,
                t(entityId \<mapsto> e\<lparr>fp_count := fp_count e + 1,
                                fp_eventNames := insert eventName (fp_eventNames e), fp_lastSeen := now\<rparr>)))"

text \<open>The timer that drops the entries that have not been seen for a window.\<close>

definition sweep_flapping :: "int \<Rightarrow> (string \<rightharpoonup> flapping_state) \<Rightarrow> string \<rightharpoonup> flapping_state" where
  "sweep_flapping now t = (\<lambda>k. case t k of
     Some e \<Rightarrow> if now - fp_lastSeen e > FLAPPING_WINDOW_MS then None else Some e | None \<Rightarrow> None)"

section \<open>Delivery with retries\<close>

definition MAX_RETRIES :: nat where
  "MAX_RETRIES = 3"

definition attempt_error :: "thrown + delivery_result \<Rightarrow> string option" where
  "attempt_error r =
     (case r of
        Inl e \<Rightarrow> err_message e
      | Inr d \<Rightarrow> Some (case truthy (dr_error d) of
          Some m \<Rightarrow> m
        | None \<Rightarrow> ''Delivery returned status ''
            @ (case dr_statusCode d of Some c \<Rightarrow> show_int c | None \<Rightarrow> ''unknown'')))"

text \<open>The loop over the attempts that are left; the second result counts the calls.\<close>

fun retry_loop ::
    "(nat \<Rightarrow> thrown + delivery_result) \<Rightarrow> nat \<Rightarrow> nat \<Rightarrow> string option \<Rightarrow> delivery_result \<times> nat" where
  "retry_loop send 0 attempt lastError =
     (\<lparr>dr_success = False, dr_statusCode = None, dr_error = Some (or_default lastError ''Max retries exceeded'')\<rparr>, 0)"
| "retry_loop send (Suc k) attempt lastError =
     (let r = send attempt in
      case r of
        Inr d \<Rightarrow>
          if dr_success d then (d, 1)
          else (let (d', n) = retry_loop send k (attempt + 1) (attempt_error r) in (d', n + 1))
      | Inl e \<Rightarrow> (let (d', n) = retry_loop send k (attempt + 1) (attempt_error r) in (d', n + 1)))"

definition retryDelivery :: "(nat \<Rightarrow> thrown + delivery_result) \<Rightarrow> delivery_result \<times> nat" where
  "retryDelivery send = retry_loop send MAX_RETRIES 1 None"

text \<open>The wait after a failed attempt, for a random number of the unit interval.\<close>

definition delivery_delay :: "nat \<Rightarrow> rat \<Rightarrow> int" where
  "delivery_delay attempt rnd =
     \<lfloor>rat_of_int (min (1000 * 2 ^ (attempt - 1)) 30000) * (1 / 2 + rnd / 2) + 1 / 2\<rfloor>"

section \<open>Transactions\<close>

type_synonym 'a tx = "notif_state \<times> bool \<Rightarrow> (thrown + 'a) \<times> notif_state \<times> bool"

definition treturn :: "'a \<Rightarrow> 'a tx" where
  "treturn a = (\<lambda>s. (Inr a, s))"

definition tthrow :: "thrown \<Rightarrow> 'a tx" where
  "tthrow e = (\<lambda>s. (Inl e, s))"

definition tbind :: "'a tx \<Rightarrow> ('a \<Rightarrow> 'b tx) \<Rightarrow> 'b tx" where
  "tbind m f = (\<lambda>s. case m s of (Inl e, s1) \<Rightarrow> (Inl e, s1) | (Inr a, s1) \<Rightarrow> f a s1)"

definition tcatch :: "'a tx \<Rightarrow> (thrown \<Rightarrow> 'a tx) \<Rightarrow> 'a tx" where
  "tcatch m h = (\<lambda>s. case m s of (Inl e, s1) \<Rightarrow> h e s1 | (Inr a, s1) \<Rightarrow> (Inr a, s1))"

definition tget :: "(notif_state \<Rightarrow> 'a) \<Rightarrow> 'a tx" where
  "tget f = (\<lambda>s. (Inr (f (fst s)), s))"

definition tx_aborted :: thrown where
  "tx_aborted = js_Error ''current transaction is aborted, commands ignored until end of transaction block''"

definition stmt :: "(notif_state \<Rightarrow> thrown + notif_state) \<Rightarrow> unit tx" where
  "stmt f = (\<lambda>(s, dead).
     if dead then (Inl tx_aborted, s, True)
     else (case f s of Inl e \<Rightarrow> (Inl e, s, True) | Inr s1 \<Rightarrow> (Inr (), s1, False)))"

text \<open>A query of the transaction.\<close>

definition query :: "(notif_state \<Rightarrow> 'a) \<Rightarrow> 'a tx" where
  "query f = (\<lambda>(s, dead). if dead then (Inl tx_aborted, s, True) else (Inr (f s), s, False))"

text \<open>A commit of an aborted transaction is a rollback; the log of sends stays in any case.\<close>

definition transaction :: "'a tx \<Rightarrow> notif_state \<Rightarrow> (thrown + 'a) \<times> notif_state" where
  "transaction m s =
     (case m (s, False) of
        (Inl e, s1, _) \<Rightarrow> (Inl e, s\<lparr>nf_sends := nf_sends s1\<rparr>)
      | (Inr a, s1, dead) \<Rightarrow> (Inr a, if dead then s\<lparr>nf_sends := nf_sends s1\<rparr> else s1))"

section \<open>Statements\<close>

text \<open>The columns of the table \<open>notifications\<close>; a statement that names another one fails.\<close>

definition notification_columns :: "string list" where
  "notification_columns =
     [''id'', ''org_id'', ''alert_event_id'', ''channel_id'', ''status'', ''error'', ''sent_at'', ''created_at'']"

definition upd_notification ::
    "string list \<Rightarrow> string \<Rightarrow> (notification_row \<Rightarrow> notification_row) \<Rightarrow> notif_state \<Rightarrow> thrown + notif_state" where
  "upd_notification cols i f s =
     (case filter (\<lambda>c. c \<notin> set notification_columns) cols of
        c # _ \<Rightarrow> Inl (js_Error (''column '' @ dq c @ '' of relation '' @ dq ''notifications'' @ '' does not exist''))
      | [] \<Rightarrow> Inr (s\<lparr>nf_notifications := sql_update (\<lambda>n. nt_id n = i) f (nf_notifications s)\<rparr>))"

definition insert_notification :: "notif_env \<Rightarrow> event_row \<Rightarrow> string \<Rightarrow> string tx" where
  "insert_notification env ev channelId =
     tbind (query (\<lambda>s. ne_id env ''notifications'' (length (nf_notifications s)))) (\<lambda>i.
     tbind (stmt (\<lambda>s. Inr (s\<lparr>nf_notifications := nf_notifications s @
       [\<lparr>nt_id = i, nt_orgId = ev_orgId ev, nt_alertEventId = ev_id ev, nt_channelId = Some channelId,
         nt_status = ''queued'', nt_error = None, nt_sentAt = None, nt_createdAt = ne_now env\<rparr>]\<rparr>))) (\<lambda>_.
       treturn i))"

definition mark_sent :: "notif_env \<Rightarrow> string \<Rightarrow> unit tx" where
  "mark_sent env i =
     stmt (upd_notification [''status'', ''sent_at''] i (\<lambda>n. n\<lparr>nt_status := ''sent'', nt_sentAt := Some (ne_now env)\<rparr>))"

text \<open>\<open>SET status = 'delivered', delivered_at = NOW()\<close>; there is no field for the second column.\<close>

definition mark_delivered :: "string \<Rightarrow> unit tx" where
  "mark_delivered i = stmt (upd_notification [''status'', ''delivered_at''] i (\<lambda>n. n\<lparr>nt_status := ''delivered''\<rparr>))"

text \<open>An undefined message is no parameter.\<close>

definition mark_failed :: "string \<Rightarrow> string option \<Rightarrow> unit tx" where
  "mark_failed i e =
     (case e of
        None \<Rightarrow> stmt (\<lambda>s. Inl (js_Error ''UNDEFINED_VALUE: Undefined values are not allowed''))
      | Some m \<Rightarrow> stmt (upd_notification [''status'', ''error''] i (\<lambda>n. n\<lparr>nt_status := ''failed'', nt_error := Some m\<rparr>)))"

definition insert_audit ::
    "notif_env \<Rightarrow> event_row \<Rightarrow> string \<Rightarrow> string \<Rightarrow> string \<Rightarrow> (string \<times> json) list \<Rightarrow> unit tx" where
  "insert_audit env ev action rty rid details =
     stmt (\<lambda>s. Inr (s\<lparr>nf_db := (nf_db s)\<lparr>db_audits := db_audits (nf_db s) @
       [(new_audit (ne_id env ''audit_logs'' (length (db_audits (nf_db s)))) (ne_now env) (ev_orgId ev) action rty)
          \<lparr>au_resourceId := Some rid, au_details := Some (JObj details)\<rparr>]\<rparr>\<rparr>))"

definition insert_feed ::
    "notif_env \<Rightarrow> event_row \<Rightarrow> string \<Rightarrow> string \<Rightarrow> string \<Rightarrow> (string \<times> json) list \<Rightarrow> unit tx" where
  "insert_feed env ev action nid summary details =
     stmt (\<lambda>s. Inr (s\<lparr>nf_db := (nf_db s)\<lparr>db_feed := db_feed (nf_db s) @
       [(new_feed (ne_id env ''activity_feed'' (length (db_feed (nf_db s)))) (ne_now env) (ev_orgId ev)
           ''system'' action ''notification'' summary)
          \<lparr>fd_actorId := Some ''notification-engine'', fd_resourceId := Some nid,
           fd_details := Some (JObj details), fd_traceId := Some (ev_id ev)\<rparr>]\<rparr>\<rparr>))"

definition set_event :: "string \<Rightarrow> (event_row \<Rightarrow> event_row) \<Rightarrow> unit tx" where
  "set_event i f =
     stmt (\<lambda>s. Inr (s\<lparr>nf_db := (nf_db s)\<lparr>db_events := sql_update (\<lambda>e. ev_id e = i) f (db_events (nf_db s))\<rparr>\<rparr>))"

definition check_step :: "string \<Rightarrow> string \<Rightarrow> unit tx" where
  "check_step src dst =
     (case validateTransition loaded_machines SM_notification src dst False of
        Inl e \<Rightarrow> tthrow e | Inr _ \<Rightarrow> treturn ())"

section \<open>Settings and payloads\<close>

definition lower_hex :: "char \<Rightarrow> bool" where
  "lower_hex c \<longleftrightarrow> is_digit c \<or> (CHR ''a'' \<le> c \<and> c \<le> CHR ''f'') \<or> (CHR ''A'' \<le> c \<and> c \<le> CHR ''F'')"

definition isEncrypted :: "string \<Rightarrow> bool" where
  "isEncrypted v =
     (case split_on (CHR '':'') v of
        [a, b, c] \<Rightarrow> length a = 32 \<and> length b = 32 \<and> c \<noteq> [] \<and> list_all lower_hex (a @ b @ c)
      | _ \<Rightarrow> False)"

definition decrypt_config :: "notif_env \<Rightarrow> json \<Rightarrow> (string \<times> json) list" where
  "decrypt_config env raw =
     map (\<lambda>(k, v). (k, case v of
         JStr s \<Rightarrow> if isEncrypted s then (case ne_decrypt env s of Inr t \<Rightarrow> JStr t | Inl _ \<Rightarrow> v) else v
       | _ \<Rightarrow> v))
       (case raw of JObj fs \<Rightarrow> fs | _ \<Rightarrow> [])"

definition event_details :: "event_row \<Rightarrow> json" where
  "event_details ev = (case ev_details ev of None \<Rightarrow> JObj [] | Some JNull \<Rightarrow> JObj [] | Some d \<Rightarrow> d)"

definition make_payload :: "event_row \<Rightarrow> string \<Rightarrow> string \<Rightarrow> payload" where
  "make_payload ev suffix msg =
     \<lparr>pl_id = ev_id ev @ ''-'' @ suffix, pl_alertEventId = ev_id ev, pl_orgId = ev_orgId ev,
      pl_eventType = ev_eventType ev, pl_severity = ev_severity ev, pl_message = msg,
      pl_details = event_details ev,
      pl_linkToEntity = or_default (truthy (ev_linkToEntity ev)) (''https://walwatch.app/dashboard/alerts/'' @ ev_id ev),
      pl_traceId = (case ev_details ev of Some d \<Rightarrow> jget d ''traceId'' | None \<Rightarrow> None)\<rparr>"

section \<open>One notification\<close>

text \<open>The calls of a channel, recorded, with the result of the last one.\<close>

definition send_all :: "notif_env \<Rightarrow> channel_row \<Rightarrow> channel_impl \<Rightarrow> payload \<Rightarrow> delivery_result tx" where
  "send_all env ch impl p = (\<lambda>(s, ab).
     (case retryDelivery (impl p (decrypt_config env (nc_config ch))) of
        (r, n) \<Rightarrow> (Inr r, s\<lparr>nf_sends := nf_sends s @ replicate n (ch, p)\<rparr>, ab)))"

definition send_once :: "notif_env \<Rightarrow> channel_row \<Rightarrow> channel_impl \<Rightarrow> payload \<Rightarrow> delivery_result tx" where
  "send_once env ch impl p = (\<lambda>(s, ab).
     (impl p (decrypt_config env (nc_config ch)) 1, s\<lparr>nf_sends := nf_sends s @ [(ch, p)]\<rparr>, ab))"

text \<open>From the insertion of the row to its final status; \<open>won\<close> and \<open>lost\<close> are what the callers add.\<close>

definition notify ::
    "notif_env \<Rightarrow> event_row \<Rightarrow> channel_row \<Rightarrow> channel_impl \<Rightarrow> payload \<Rightarrow> string
     \<Rightarrow> (string \<Rightarrow> unit tx) \<Rightarrow> (string \<Rightarrow> string option \<Rightarrow> unit tx) \<Rightarrow> bool tx" where
  "notify env ev ch impl p failure won lost =
     tbind (insert_notification env ev (nc_id ch)) (\<lambda>i.
     tbind (check_step ''queued'' ''sent'') (\<lambda>_.
     tbind (mark_sent env i) (\<lambda>_.
       tcatch
         (tbind (send_all env ch impl p) (\<lambda>r.
            if \<not> dr_success r then tthrow (js_Error (or_default (truthy (dr_error r)) failure))
            else tbind (check_step ''sent'' ''delivered'') (\<lambda>_.
                 tbind (mark_delivered i) (\<lambda>_.
                 tbind (won i) (\<lambda>_. treturn True)))))
         (\<lambda>e. tbind (check_step ''sent'' ''failed'') (\<lambda>_.
              tbind (mark_failed i (err_message e)) (\<lambda>_.
              tbind (lost i (err_message e)) (\<lambda>_. treturn False)))))))"

definition text_of :: "string option \<Rightarrow> string" where
  "text_of m = or_default m ''undefined''"

definition primary_notify :: "notif_env \<Rightarrow> event_row \<Rightarrow> channel_row \<Rightarrow> channel_impl \<Rightarrow> bool tx" where
  "primary_notify env ev ch impl =
     notify env ev ch impl (make_payload ev (nc_id ch) (ev_message ev)) ''Delivery failed after retries''
       (\<lambda>i. insert_feed env ev ''notification.delivered'' i
              (''Notification delivered via '' @ nc_type ch @ '' channel'') [(''channelType'', JStr (nc_type ch))])
       (\<lambda>i m. tbind (insert_audit env ev ''notification.delivery_failed'' ''notification'' i
                [(''alertEventId'', JStr (ev_id ev)), (''channelId'', JStr (nc_id ch)), (''error'', JStr (text_of m)),
                 (''triggeredBy'', JObj
                    [(''alertRuleId'', case ev_alertRuleId ev of Some r \<Rightarrow> JStr r | None \<Rightarrow> JNull),
                     (''cause'', JStr ''system:notification_engine''),
                     (''trace'', JStr (''alert_event:'' @ ev_id ev @ '' -> notification:'' @ i))])]) (\<lambda>_.
              insert_feed env ev ''notification.delivery_failed'' i
                (''Notification delivery failed for '' @ nc_type ch @ '' channel: '' @ text_of m)
                [(''channelType'', JStr (nc_type ch)), (''error'', JStr (text_of m)), (''attempts'', JNum 3),
                 (''alertEventId'', JStr (ev_id ev))]))"

definition escalation_notify :: "notif_env \<Rightarrow> event_row \<Rightarrow> channel_row \<Rightarrow> channel_impl \<Rightarrow> bool tx" where
  "escalation_notify env ev ch impl =
     notify env ev ch impl (make_payload ev (nc_id ch) (''[ESCALATED] '' @ ev_message ev)) ''Escalation delivery failed''
       (\<lambda>i. insert_feed env ev ''notification.delivered'' i
              (''Escalation notification delivered via '' @ nc_type ch @ '' channel'')
              [(''channelType'', JStr (nc_type ch)), (''escalated'', JBool True)])
       (\<lambda>i m. treturn ())"

text \<open>The last resort, without retries.\<close>

definition fallback_notify :: "notif_env \<Rightarrow> event_row \<Rightarrow> channel_row \<Rightarrow> channel_impl \<Rightarrow> unit tx" where
  "fallback_notify env ev ch impl =
     tbind (insert_notification env ev (nc_id ch)) (\<lambda>i.
     tbind (check_step ''queued'' ''sent'') (\<lambda>_.
     tbind (mark_sent env i) (\<lambda>_.
       tcatch
         (tbind (send_once env ch impl (make_payload ev ''escalation'' (''[ESCALATED] '' @ ev_message ev))) (\<lambda>r.
            if dr_success r
            then tbind (check_step ''sent'' ''delivered'') (\<lambda>_. mark_delivered i)
            else tbind (check_step ''sent'' ''failed'') (\<lambda>_.
                 mark_failed i (Some (or_default (truthy (dr_error r)) ''Escalation email failed'')))))
         (\<lambda>e. tbind (check_step ''sent'' ''failed'') (\<lambda>_. mark_failed i (err_message e))))))"

section \<open>Channels of an alert\<close>

definition active_channel :: "event_row \<Rightarrow> string \<Rightarrow> notif_state \<Rightarrow> channel_row option" where
  "active_channel ev i s =
     first_row (filter (\<lambda>c. nc_id c = i \<and> nc_status c = ''active'' \<and> nc_orgId c = ev_orgId ev) (nf_channels s))"

definition recently_notified :: "notif_env \<Rightarrow> event_row \<Rightarrow> int \<Rightarrow> string \<Rightarrow> notif_state \<Rightarrow> bool" where
  "recently_notified env ev window i s \<longleftrightarrow>
     (\<exists>n \<in> set (nf_notifications s). nt_alertEventId n = ev_id ev \<and> nt_channelId n = Some i
        \<and> nt_createdAt n > ne_now env - 1000 * window)"

text \<open>The loop over the channels of the rule, with the results so far.\<close>

fun channel_loop ::
    "notif_env \<Rightarrow> event_row \<Rightarrow> int \<Rightarrow> string list \<Rightarrow> (string \<times> bool) list \<Rightarrow> notif_state
     \<Rightarrow> (thrown + (string \<times> bool) list) \<times> notif_state" where
  "channel_loop env ev window [] results s = (Inr results, s)"
| "channel_loop env ev window (i # is) results s =
     (case active_channel ev i s of
        None \<Rightarrow> channel_loop env ev window is results s
      | Some ch \<Rightarrow>
          (case ne_channels env (nc_type ch) of
             None \<Rightarrow> channel_loop env ev window is results s
           | Some impl \<Rightarrow>
               if recently_notified env ev window i s then channel_loop env ev window is results s
               else (case transaction (primary_notify env ev ch impl) s of
                       (Inl e, s1) \<Rightarrow> (Inl e, s1)
                     | (Inr ok, s1) \<Rightarrow> channel_loop env ev window is (results @ [(i, ok)]) s1)))"

text \<open>The escalation channels in their order, those of the rule skipped, until one succeeds.\<close>

primrec escalate :: "notif_env \<Rightarrow> event_row \<Rightarrow> string list \<Rightarrow> string list \<Rightarrow> bool tx" where
  "escalate env ev primary [] = treturn False"
| "escalate env ev primary (i # is) =
     (if i \<in> set primary then escalate env ev primary is
      else tbind (query (active_channel ev i)) (\<lambda>c.
             case c of
               None \<Rightarrow> escalate env ev primary is
             | Some ch \<Rightarrow>
                 (case ne_channels env (nc_type ch) of
                    None \<Rightarrow> escalate env ev primary is
                  | Some impl \<Rightarrow>
                      tbind (escalation_notify env ev ch impl) (\<lambda>ok.
                        if ok then treturn True else escalate env ev primary is))))"

definition escalation_ids :: "rule_row option \<Rightarrow> string list" where
  "escalation_ids rule =
     (case rule of
        Some r \<Rightarrow>
          (case ru_escalationChannels r of
             Some (JArr xs) \<Rightarrow> List.map_filter (\<lambda>x. case x of JStr i \<Rightarrow> Some i | _ \<Rightarrow> None) xs
           | _ \<Rightarrow> [])
      | None \<Rightarrow> [])"

definition email_channel :: "event_row \<Rightarrow> notif_state \<Rightarrow> channel_row option" where
  "email_channel ev s =
     first_row (filter (\<lambda>c. nc_orgId c = ev_orgId ev \<and> nc_type c = ''email'' \<and> nc_status c = ''active'') (nf_channels s))"

section \<open>The final status of an alert\<close>

definition results_json :: "(string \<times> bool) list \<Rightarrow> json" where
  "results_json rs = JArr (map (\<lambda>(i, ok). JObj [(''channelId'', JStr i), (''success'', JBool ok)]) rs)"

definition emit_event :: "notif_env \<Rightarrow> event_row \<Rightarrow> string \<Rightarrow> (string \<times> json) list \<Rightarrow> unit tx" where
  "emit_event env ev name details = (\<lambda>(s, dead).
     (Inr (), s\<lparr>nf_db := fst (emit True (ne_id env ''event_log'' (length (db_log (nf_db s)))) keeper_bus
        (createEvent (ne_now env) name (ev_orgId ev) ''alert_event'' (ev_id ev) ActSystem (Some (JObj details))
           (case ev_details ev of Some d \<Rightarrow> (case jget d ''traceId'' of Some (JStr t) \<Rightarrow> Some t | _ \<Rightarrow> None) | None \<Rightarrow> None))
        (nf_db s))\<rparr>, dead))"

definition triggered_by :: "event_row \<Rightarrow> string \<Rightarrow> string \<times> json" where
  "triggered_by ev trace =
     (''triggeredBy'', JObj [(''alertRuleId'', case ev_alertRuleId ev of Some r \<Rightarrow> JStr r | None \<Rightarrow> JNull),
        (''cause'', JStr ''system:notification_engine''), (''trace'', JStr (trace @ ev_id ev))])"

definition mark_event_delivered :: "notif_env \<Rightarrow> event_row \<Rightarrow> string \<Rightarrow> unit tx" where
  "mark_event_delivered env ev status =
     set_event (ev_id ev) (\<lambda>e. e\<lparr>ev_status := status, ev_deliveredAt := Some (ne_now env)\<rparr>)"

definition mark_event_failed :: "notif_env \<Rightarrow> event_row \<Rightarrow> unit tx" where
  "mark_event_failed env ev =
     set_event (ev_id ev) (\<lambda>e. e\<lparr>ev_status := ''delivery_failed_final'', ev_escalatedAt := Some (ne_now env)\<rparr>)"

definition last_resort :: "notif_env \<Rightarrow> event_row \<Rightarrow> unit tx" where
  "last_resort env ev =
     tbind (query (email_channel ev)) (\<lambda>c.
       case c of
         None \<Rightarrow> treturn ()
       | Some ch \<Rightarrow>
           (case ne_channels env ''email'' of
              None \<Rightarrow> treturn ()
            | Some impl \<Rightarrow> fallback_notify env ev ch impl))"

definition settle_failed ::
    "notif_env \<Rightarrow> event_row \<Rightarrow> rule_row option \<Rightarrow> string list \<Rightarrow> (string \<times> bool) list \<Rightarrow> unit tx" where
  "settle_failed env ev rule channelIds results =
     tbind (escalate env ev channelIds (escalation_ids rule)) (\<lambda>ok.
       if ok
       then tbind (mark_event_delivered env ev ''delivered'') (\<lambda>_.
            emit_event env ev ''alert_event.delivered'' [(''channelResults'', results_json results)])
       else
         tbind (mark_event_failed env ev) (\<lambda>_.
         tbind (insert_audit env ev ''alert_event.escalated'' ''alert_event'' (ev_id ev)
                  [(''reason'', JStr ''All delivery and escalation channels failed''),
                   (''channelResults'', results_json results), triggered_by ev ''alertEvent:'']) (\<lambda>_.
         tbind (last_resort env ev) (\<lambda>_.
           emit_event env ev ''alert_event.delivery_failed''
             [(''channelResults'', results_json results),
              (''error'', JStr ''All delivery channels and escalation channels failed'')]))))"

definition finalize_event ::
    "notif_env \<Rightarrow> event_row \<Rightarrow> rule_row option \<Rightarrow> string list \<Rightarrow> (string \<times> bool) list \<Rightarrow> unit tx" where
  "finalize_event env ev rule channelIds results =
     (if length results = 0
      then tbind (mark_event_failed env ev) (\<lambda>_.
           insert_audit env ev ''alert_event.no_channels'' ''alert_event'' (ev_id ev)
             [(''reason'', JStr ''No valid channels available for delivery''), triggered_by ev ''alert_event:''])
      else if list_all (\<lambda>r. \<not> snd r) results
      then settle_failed env ev rule channelIds results
      else
        (let emitted = emit_event env ev ''alert_event.delivered'' [(''channelResults'', results_json results)] in
         if length results = 1 \<or> list_all snd results
         then tbind (mark_event_delivered env ev ''delivered'') (\<lambda>_. emitted)
         else tbind (mark_event_delivered env ev ''partial_delivery'') (\<lambda>_.
              tbind (insert_audit env ev ''alert_event.partial_delivery'' ''alert_event'' (ev_id ev)
                       [(''reason'', JStr ''Some channels failed delivery''),
                        (''channelResults'', results_json results), triggered_by ev ''alert_event:'']) (\<lambda>_. emitted))))"

section \<open>The engine\<close>

definition alert_rule :: "event_row \<Rightarrow> notif_state \<Rightarrow> rule_row option" where
  "alert_rule ev s =
     (case truthy (ev_alertRuleId ev) of
        None \<Rightarrow> None
      | Some i \<Rightarrow> first_row (filter (\<lambda>r. ru_id r = i \<and> ru_orgId r = ev_orgId ev) (nf_rules s)))"

definition flapping_entity :: "event_row \<Rightarrow> string" where
  "flapping_entity ev =
     (case truthy (ev_blobRegistrationId ev) of
        Some b \<Rightarrow> b
      | None \<Rightarrow> (case truthy (ev_renewalJobId ev) of Some j \<Rightarrow> j | None \<Rightarrow> ev_id ev))"

definition dedup_window :: "rule_row option \<Rightarrow> int" where
  "dedup_window rule = (case rule of Some r \<Rightarrow> or_default (ru_dedupWindowSeconds r) 300 | None \<Rightarrow> 300)"

definition rule_channels :: "rule_row option \<Rightarrow> string list" where
  "rule_channels rule = (case rule of Some r \<Rightarrow> ru_channelIds r | None \<Rightarrow> [])"

definition deliver_event :: "notif_env \<Rightarrow> event_row \<Rightarrow> notif_state \<Rightarrow> (thrown + unit) \<times> notif_state" where
  "deliver_event env ev s =
     (let rule = alert_rule ev s in
      case channel_loop env ev (dedup_window rule) (rule_channels rule) [] s of
        (Inl e, s1) \<Rightarrow> (Inl e, s1)
      | (Inr results, s1) \<Rightarrow> transaction (finalize_event env ev rule (rule_channels rule) results) s1)"

definition processAlertEvent :: "notif_env \<Rightarrow> string \<Rightarrow> notif_state \<Rightarrow> (thrown + unit) \<times> notif_state" where
  "processAlertEvent env i s =
     (case first_row (filter (\<lambda>e. ev_id e = i) (db_events (nf_db s))) of
        None \<Rightarrow> (Inr (), s)
      | Some ev \<Rightarrow>
          if ev_status ev \<in> {''acknowledged'', ''escalated'', ''delivered''} then (Inr (), s)
          else (case checkFlapping (ne_now env) (flapping_entity ev) (ev_eventType ev) (nf_flapping s) of
                  (flaps, t) \<Rightarrow>
                    if flaps then (Inr (), s\<lparr>nf_flapping := t\<rparr>)
                    else deliver_event env ev (s\<lparr>nf_flapping := t\<rparr>)))"

text \<open>The cycle of the keeper: an event that throws is logged and the next one is processed.\<close>

definition processFiredAlerts :: "notif_env \<Rightarrow> notif_state \<Rightarrow> notif_state" where
  "processFiredAlerts env s =
     fold (\<lambda>i s. snd (processAlertEvent env i s))
       (map ev_id (take 50 (filter (\<lambda>e. ev_status e = ''fired'') (db_events (nf_db s))))) s"

section \<open>Facts\<close>

subsection \<open>Retries\<close>

definition accepts :: "thrown + delivery_result \<Rightarrow> bool" where
  "accepts r \<longleftrightarrow> (case r of Inr d \<Rightarrow> dr_success d | Inl _ \<Rightarrow> False)"

lemma retry_loop_spec:
  "retry_loop send k a l = (d, n) \<Longrightarrow>
     n \<le> k \<and> (dr_success d \<longleftrightarrow> (\<exists>j < k. accepts (send (a + j))))
     \<and> (if dr_success d then 0 < n \<and> send (a + (n - 1)) = Inr d \<and> (\<forall>j < n - 1. \<not> accepts (send (a + j))) else n = k)"
proof (induction k arbitrary: a l d n)
  case 0
  then show ?case by auto
next
  case (Suc k)
  show ?case
  proof (cases "accepts (send a)")
    case True
    then obtain r where "send a = Inr r" "dr_success r" by (auto simp: accepts_def split: sum.splits)
    with Suc.prems True show ?thesis by (auto intro!: exI [of _ 0])
  next
    case False
    then obtain n' l' where n: "retry_loop send k (a + 1) l' = (d, n')" "n = n' + 1"
      using Suc.prems by (auto simp: accepts_def Let_def split: sum.splits prod.splits if_splits)
    from Suc.IH [OF n(1)] False n(2) have
      "n' \<le> k" "dr_success d \<longleftrightarrow> (\<exists>j < k. accepts (send (a + 1 + j)))"
      "if dr_success d then 0 < n' \<and> send (a + 1 + (n' - 1)) = Inr d \<and> (\<forall>j < n' - 1. \<not> accepts (send (a + 1 + j))) else n' = k"
      by auto
    moreover have "(\<exists>j < Suc k. accepts (send (a + j))) \<longleftrightarrow> (\<exists>j < k. accepts (send (a + 1 + j)))"
      using False by (simp add: Ex_less_Suc2)
    moreover have "(\<forall>j < n'. \<not> accepts (send (a + j))) \<longleftrightarrow> (\<forall>j < n' - 1. \<not> accepts (send (a + 1 + j)))" if "0 < n'"
      using that False by (cases n') (simp_all add: All_less_Suc2)
    ultimately show ?thesis using n(2) by (auto split: if_splits)
  qed
qed

subsection \<open>Successes are never recorded\<close>

lemma mark_delivered_fails: "\<exists>e m. mark_delivered i (s, dead) = (Inl e, s, True) \<and> err_message e = Some m"
  by (simp add: mark_delivered_def stmt_def upd_notification_def notification_columns_def tx_aborted_def
      js_Error_def plain_error_def err_message_def)

lemma check_step_cases: "check_step a b s = (Inr (), s) \<or> (\<exists>e. check_step a b s = (Inl e, s))"
  by (cases "validateTransition loaded_machines SM_notification a b False")
    (auto simp: check_step_def tthrow_def treturn_def)

lemma dead_stays: "stmt f (s, True) = (Inl tx_aborted, s, True)"
  by (simp add: stmt_def)

lemma mark_failed_dead: "fst (mark_failed i m (s, True)) = Inl tx_aborted"
  by (cases m) (simp_all add: mark_failed_def dead_stays)

text \<open>A notification is never a success: either it is recorded as failed or its transaction throws.\<close>

lemma notify_not_True: "fst (notify env ev ch impl p f won lost x) \<noteq> Inr True"
proof -
  have "fst (tcatch
         (tbind (send_all env ch impl p) (\<lambda>r.
            if \<not> dr_success r then tthrow (js_Error (or_default (truthy (dr_error r)) f))
            else tbind (check_step ''sent'' ''delivered'') (\<lambda>_.
                 tbind (mark_delivered i) (\<lambda>_.
                 tbind (won i) (\<lambda>_. treturn True)))))
         (\<lambda>e. tbind (check_step ''sent'' ''failed'') (\<lambda>_.
              tbind (mark_failed i (err_message e)) (\<lambda>_.
              tbind (lost i (err_message e)) (\<lambda>_. treturn False)))) (s, d)) \<noteq> Inr True" for i s d
  proof -
    have "\<exists>r s1. send_all env ch impl p (s, d) = (Inr r, s1, d)"
      by (simp add: send_all_def split: prod.split)
    then obtain r s1 where r: "send_all env ch impl p (s, d) = (Inr r, s1, d)" by blast
    have late: "fst (tbind (check_step ''sent'' ''failed'') (\<lambda>_. tbind (mark_failed i m) (\<lambda>_.
        tbind (lost i m) (\<lambda>_. treturn False))) t) \<noteq> Inr True" for m t
      by (auto simp: tbind_def treturn_def split: sum.splits prod.splits)
    from r late mark_delivered_fails [of i s1 d] check_step_cases [of "''sent''" "''delivered''" "(s1, d)"] show ?thesis
      by (auto simp: tcatch_def tbind_def tthrow_def split: sum.splits prod.splits)
  qed
  then show ?thesis
    unfolding notify_def by (auto simp: tbind_def split: sum.splits prod.splits)
qed

lemma escalate_not_True: "fst (escalate env ev primary is x) \<noteq> Inr True"
proof (induction "is" arbitrary: x)
  case Nil
  then show ?case by (simp add: treturn_def)
next
  case (Cons i "is")
  have e: "escalation_notify env ev ch impl y \<noteq> (Inr True, z)" for ch impl y z
    unfolding escalation_notify_def by (metis fst_conv notify_not_True)
  show ?case
    using Cons e by (auto simp: tbind_def split: sum.splits prod.splits option.splits if_splits)
qed

lemma transaction_not_True: "transaction (primary_notify env ev ch impl) s \<noteq> (Inr True, s1)"
proof -
  obtain r y where m: "primary_notify env ev ch impl (s, False) = (r, y)" by (rule prod.exhaust)
  have "fst (primary_notify env ev ch impl x) \<noteq> Inr True" for x
    unfolding primary_notify_def by (rule notify_not_True)
  from this [of "(s, False)"] m have "r \<noteq> Inr True" by simp
  then show ?thesis by (auto simp: transaction_def m split: prod.splits sum.splits)
qed

lemma loop_results_False:
  "channel_loop env ev w is rs s = (Inr rs', s1) \<Longrightarrow> list_all (\<lambda>r. \<not> snd r) rs \<Longrightarrow> list_all (\<lambda>r. \<not> snd r) rs'"
proof (induction env ev w "is" rs s rule: channel_loop.induct)
  case (1 env ev w rs s)
  then show ?case by simp
next
  case (2 env ev w i "is" rs s)
  show ?case
  proof (cases "active_channel ev i s")
    case None
    with 2 show ?thesis by simp
  next
    case (Some ch)
    show ?thesis
    proof (cases "ne_channels env (nc_type ch)")
      case None
      with 2 Some show ?thesis by simp
    next
      case impl: (Some impl)
      obtain r t where t: "transaction (primary_notify env ev ch impl) s = (r, t)" by (rule prod.exhaust)
      with transaction_not_True [of env ev ch impl s t] have "r \<noteq> Inr True" by auto
      with 2 Some impl t show ?thesis by (cases r) (auto split: if_splits)
    qed
  qed
qed

subsection \<open>Invariants of transactions\<close>

definition keeps :: "(notif_state \<Rightarrow> bool) \<Rightarrow> 'a tx \<Rightarrow> bool" where
  "keeps I m \<longleftrightarrow> (\<forall>s dead. I s \<longrightarrow> I (fst (snd (m (s, dead)))))"

lemma keepsI: "(\<And>s dead. I s \<Longrightarrow> I (fst (snd (m (s, dead))))) \<Longrightarrow> keeps I m"
  by (simp add: keeps_def)

lemma keepsD: "keeps I m \<Longrightarrow> m x = (r, y) \<Longrightarrow> I (fst x) \<Longrightarrow> I (fst y)"
  unfolding keeps_def by (metis prod.collapse snd_conv)

named_theorems keeping

lemma keeps_pure [keeping]: "keeps I (treturn a)" "keeps I (tthrow e)"
  by (simp_all add: keeps_def treturn_def tthrow_def)

lemma keeps_check [keeping]: "keeps I (check_step a b)"
  by (auto simp: check_step_def keeps_pure split: sum.split)

lemma keeps_query [keeping]: "keeps I (query f)"
  by (auto simp: keeps_def query_def)

lemma keeps_bind [keeping]:
  assumes "keeps I m" and "\<And>a x y. m x = (Inr a, y) \<Longrightarrow> keeps I (f a)"
  shows "keeps I (tbind m f)"
proof (rule keepsI)
  fix s dead assume s: "I s"
  obtain r y where m: "m (s, dead) = (r, y)" by (rule prod.exhaust)
  with keepsD [OF assms(1) m] s have y: "I (fst y)" by simp
  show "I (fst (snd (tbind m f (s, dead))))"
  proof (cases r)
    case (Inr a)
    with m have "keeps I (f a)" by (auto intro: assms(2))
    with y have "I (fst (snd (f a y)))" by (cases y) (simp add: keeps_def)
    with m Inr show ?thesis by (simp add: tbind_def)
  qed (use m y in \<open>simp add: tbind_def\<close>)
qed

lemma keeps_catch [keeping]:
  assumes "keeps I m" and "\<And>e. keeps I (h e)"
  shows "keeps I (tcatch m h)"
proof (rule keepsI)
  fix s dead assume s: "I s"
  obtain r y where m: "m (s, dead) = (r, y)" by (rule prod.exhaust)
  with keepsD [OF assms(1) m] s have y: "I (fst y)" by simp
  show "I (fst (snd (tcatch m h (s, dead))))"
  proof (cases r)
    case (Inl e)
    with y assms(2) [of e] have "I (fst (snd (h e y)))" by (cases y) (simp add: keeps_def)
    with m Inl show ?thesis by (simp add: tcatch_def)
  qed (use m y in \<open>simp add: tcatch_def\<close>)
qed

lemma keeps_stmt: "(\<And>s s1. I s \<Longrightarrow> f s = Inr s1 \<Longrightarrow> I s1) \<Longrightarrow> keeps I (stmt f)"
  by (auto simp: keeps_def stmt_def split: sum.split)

lemma active_channelD:
  "active_channel ev i s = Some ch \<Longrightarrow> nc_id ch = i \<and> nc_status ch = ''active'' \<and> nc_orgId ch = ev_orgId ev"
  unfolding active_channel_def by (drule first_row_filter_SomeD) simp

lemma queryD: "query f x = (Inr a, y) \<Longrightarrow> a = f (fst x)"
  by (cases x) (auto simp: query_def split: if_splits)

text \<open>What an invariant of the engine has to survive.\<close>

locale tx_invariant =
  fixes I :: "notif_state \<Rightarrow> bool"
  assumes sends: "I s \<Longrightarrow> nc_status ch = ''active'' \<Longrightarrow> nc_orgId ch = pl_orgId p
      \<Longrightarrow> I (s\<lparr>nf_sends := nf_sends s @ replicate n (ch, p)\<rparr>)"
    and insert: "I s \<Longrightarrow> nt_status r = ''queued'' \<Longrightarrow> I (s\<lparr>nf_notifications := nf_notifications s @ [r]\<rparr>)"
    and update: "I s \<Longrightarrow> (\<And>n. nt_status (f n) \<in> {''sent'', ''failed''})
      \<Longrightarrow> I (s\<lparr>nf_notifications := sql_update q f (nf_notifications s)\<rparr>)"
    and tables: "I s \<Longrightarrow> db_events d = db_events (nf_db s) \<Longrightarrow> I (s\<lparr>nf_db := d\<rparr>)"
    and event_failed: "I s \<Longrightarrow> (\<And>e. ev_status (g e) = ''delivery_failed_final'')
      \<Longrightarrow> I (s\<lparr>nf_db := (nf_db s)\<lparr>db_events := sql_update c g (db_events (nf_db s))\<rparr>\<rparr>)"
    and rollback: "I s \<Longrightarrow> I s1 \<Longrightarrow> I (s\<lparr>nf_sends := nf_sends s1\<rparr>)"
    and tracker: "I s \<Longrightarrow> I (s\<lparr>nf_flapping := t\<rparr>)"
begin

lemma keeps_insert: "keeps I (insert_notification env ev i)"
  unfolding insert_notification_def
  by (intro keeping keeps_stmt) (auto intro: insert)

lemma keeps_marks: "keeps I (mark_sent env i)" "keeps I (mark_failed i m)" "keeps I (mark_delivered i)"
  unfolding mark_sent_def mark_failed_def mark_delivered_def
  by (cases m; auto intro!: keeps_stmt update simp: upd_notification_def notification_columns_def)+

lemma keeps_logs: "keeps I (insert_audit env ev a rt ri det)" "keeps I (insert_feed env ev a ni su det)"
  unfolding insert_audit_def insert_feed_def by (rule keeps_stmt; auto intro: tables)+

lemma keeps_failed: "keeps I (mark_event_failed env ev)"
  unfolding mark_event_failed_def set_event_def by (rule keeps_stmt) (auto intro: event_failed)

lemma keeps_emit: "keeps I (emit_event env ev name det)"
  unfolding emit_event_def by (rule keepsI) (auto intro!: tables simp: keeper_emit log_event_def)

lemma keeps_send:
  assumes "nc_status ch = ''active''" and "nc_orgId ch = pl_orgId p"
  shows "keeps I (send_all env ch impl p)" and "keeps I (send_once env ch impl p)"
  using sends [OF _ assms] sends [OF _ assms, of _ 1]
  by (auto simp: keeps_def send_all_def send_once_def split: prod.split)

lemma keeps_notify:
  assumes "nc_status ch = ''active''" and "nc_orgId ch = pl_orgId p"
    and "\<And>i. keeps I (won i)" and "\<And>i m. keeps I (lost i m)"
  shows "keeps I (notify env ev ch impl p f won lost)"
  unfolding notify_def
  by (intro keeping keeps_insert keeps_marks keeps_send assms) (auto intro!: keeping keeps_marks assms)

lemma keeps_primary:
  assumes "nc_status ch = ''active''" and "nc_orgId ch = ev_orgId ev"
  shows "keeps I (primary_notify env ev ch impl)"
  unfolding primary_notify_def using assms
  by (intro keeps_notify keeping keeps_logs) (simp_all add: make_payload_def)

lemma keeps_escalate: "keeps I (escalate env ev primary is)"
proof (induction "is")
  case Nil
  then show ?case by (simp add: keeping)
next
  case (Cons i "is")
  have n: "keeps I (escalation_notify env ev ch impl)" if "nc_status ch = ''active''" "nc_orgId ch = ev_orgId ev" for ch impl
    unfolding escalation_notify_def using that
    by (intro keeps_notify keeping keeps_logs) (simp_all add: make_payload_def)
  show ?case
  proof (cases "i \<in> set primary")
    case False
    have "keeps I (case c of None \<Rightarrow> escalate env ev primary is
        | Some ch \<Rightarrow> (case ne_channels env (nc_type ch) of None \<Rightarrow> escalate env ev primary is
            | Some impl \<Rightarrow> tbind (escalation_notify env ev ch impl) (\<lambda>ok. if ok then treturn True else escalate env ev primary is)))"
      if "query (active_channel ev i) x = (Inr c, y)" for c x y
      using queryD [OF that] active_channelD [of ev i "fst x"] Cons.IH
      by (auto split: option.split intro!: keeping n)
    with False show ?thesis by (auto intro!: keeping)
  qed (simp add: Cons.IH)
qed

lemma keeps_last_resort: "keeps I (last_resort env ev)"
proof -
  have "keeps I (fallback_notify env ev ch impl)" if "nc_status ch = ''active''" "nc_orgId ch = ev_orgId ev" for ch impl
    unfolding fallback_notify_def
    by (intro keeping keeps_insert keeps_marks keeps_send)
      (use that in \<open>auto simp: make_payload_def intro!: keeping keeps_marks\<close>)
  moreover have "email_channel ev s = Some ch \<Longrightarrow> nc_status ch = ''active'' \<and> nc_orgId ch = ev_orgId ev" for s ch
    unfolding email_channel_def by (drule first_row_filter_SomeD) simp
  ultimately show ?thesis
    unfolding last_resort_def by (intro keeping) (auto split: option.split intro!: keeping dest: queryD)
qed

lemma keeps_finalize:
  assumes "list_all (\<lambda>r. \<not> snd r) results"
  shows "keeps I (finalize_event env ev rule ids results)"
proof -
  have "keeps I (settle_failed env ev rule ids results)"
    unfolding settle_failed_def
  proof (rule keeps_bind [OF keeps_escalate])
    fix ok x y assume "escalate env ev ids (escalation_ids rule) x = (Inr ok, y)"
    with escalate_not_True [of env ev ids "escalation_ids rule" x] have "\<not> ok" by auto
    then show "keeps I (if ok then tbind (mark_event_delivered env ev ''delivered'') (\<lambda>_.
          emit_event env ev ''alert_event.delivered'' [(''channelResults'', results_json results)])
        else tbind (mark_event_failed env ev) (\<lambda>_.
         tbind (insert_audit env ev ''alert_event.escalated'' ''alert_event'' (ev_id ev)
                  [(''reason'', JStr ''All delivery and escalation channels failed''),
                   (''channelResults'', results_json results), triggered_by ev ''alertEvent:'']) (\<lambda>_.
         tbind (last_resort env ev) (\<lambda>_.
           emit_event env ev ''alert_event.delivery_failed''
             [(''channelResults'', results_json results),
              (''error'', JStr ''All delivery channels and escalation channels failed'')]))))"
      by (simp add: keeping keeps_failed keeps_logs keeps_last_resort keeps_emit)
  qed
  with assms show ?thesis
    by (simp add: finalize_event_def keeping keeps_failed keeps_logs)
qed

lemma transaction_keeps:
  assumes "keeps I m" and "I s"
  shows "I (snd (transaction m s))"
  using assms keepsD [OF assms(1), of "(s, False)"] rollback [of s]
  by (cases "m (s, False)"; cases "fst (m (s, False))") (auto simp: transaction_def)

lemma loop_keeps: "I s \<Longrightarrow> I (snd (channel_loop env ev w is rs s))"
proof (induction "is" arbitrary: rs s)
  case Nil
  then show ?case by simp
next
  case (Cons i "is")
  have "I (snd (transaction (primary_notify env ev ch impl) s))" if "active_channel ev i s = Some ch" for ch impl
    using transaction_keeps [OF keeps_primary Cons.prems] active_channelD [OF that] by blast
  with Cons show ?case
    by (auto split: option.split prod.split sum.split) (metis snd_conv)+
qed

lemma deliver_keeps: "I s \<Longrightarrow> I (snd (deliver_event env ev s))"
  using loop_keeps [of s env ev "dedup_window (alert_rule ev s)" "rule_channels (alert_rule ev s)" "[]"]
    loop_results_False [of env ev "dedup_window (alert_rule ev s)" "rule_channels (alert_rule ev s)" "[]" s]
    transaction_keeps [OF keeps_finalize]
  by (auto simp: deliver_event_def Let_def split: prod.split sum.split)

lemma run_keeps: "I s \<Longrightarrow> I (snd (processAlertEvent env i s))"
  by (auto simp: processAlertEvent_def deliver_keeps tracker split: option.split prod.split)

lemma cycle_keeps: "I s \<Longrightarrow> I (processFiredAlerts env s)"
proof -
  have "I s \<Longrightarrow> I (fold (\<lambda>i s. snd (processAlertEvent env i s)) is s)" for "is"
    by (induction "is" arbitrary: s) (simp_all add: run_keeps)
  then show "I s \<Longrightarrow> I (processFiredAlerts env s)" by (simp add: processFiredAlerts_def)
qed

end

subsection \<open>The two invariants\<close>

definition delivered_rows :: "notif_state \<Rightarrow> event_row set \<times> notification_row set" where
  "delivered_rows s =
     ({e \<in> set (db_events (nf_db s)). ev_status e \<in> {''delivered'', ''partial_delivery''}},
      {n \<in> set (nf_notifications s). nt_status n = ''delivered''})"

definition undelivered :: "notif_state \<Rightarrow> notif_state \<Rightarrow> bool" where
  "undelivered s0 s \<longleftrightarrow>
     fst (delivered_rows s) \<subseteq> fst (delivered_rows s0) \<and> snd (delivered_rows s) \<subseteq> snd (delivered_rows s0)"

definition own_sends :: "(channel_row \<times> payload) set" where
  "own_sends = {(c, p). nc_status c = ''active'' \<and> nc_orgId c = pl_orgId p}"

definition isolated :: "notif_state \<Rightarrow> notif_state \<Rightarrow> bool" where
  "isolated s0 s \<longleftrightarrow> set (nf_sends s) \<subseteq> set (nf_sends s0) \<union> own_sends"

interpretation undelivered: tx_invariant "undelivered s0" for s0
proof (unfold_locales, goal_cases)
  case (3 s f q)
  have "nt_status (f n) \<noteq> ''delivered''" for n using 3(2) [of n] by auto
  with 3(1) show ?case by (auto simp: undelivered_def delivered_rows_def set_sql_update)
next
  case (5 s g c)
  then show ?case by (auto simp: undelivered_def delivered_rows_def set_sql_update)
qed (auto simp: undelivered_def delivered_rows_def)

interpretation isolated: tx_invariant "isolated s0" for s0
  by unfold_locales (auto simp: isolated_def own_sends_def split: if_splits)

subsection \<open>A delivery that is accepted\<close>

lemma check_ok: "check_step ''queued'' ''sent'' = treturn ()" "check_step ''sent'' ''delivered'' = treturn ()"
  "check_step ''sent'' ''failed'' = treturn ()"
proof -
  have "check_step a b = treturn ()" if "(a, b) \<in> set (edges SM_notification)" for a b
    using that validate_ok_iff [of SM_notification a b False]
    by (cases "validateTransition loaded_machines SM_notification a b False") (auto simp: check_step_def)
  then show "check_step ''queued'' ''sent'' = treturn ()" "check_step ''sent'' ''delivered'' = treturn ()"
    "check_step ''sent'' ''failed'' = treturn ()" by (simp_all add: edges_def notification_machine_def)
qed

lemma retry_first:
  assumes "accepts (send 1)"
  shows "\<exists>d. retryDelivery send = (d, 1) \<and> dr_success d"
proof -
  from assms obtain d where "send (Suc 0) = Inr d" "dr_success d" by (auto simp: accepts_def split: sum.splits)
  then show ?thesis by (simp add: retryDelivery_def MAX_RETRIES_def eval_nat_numeral)
qed

lemma accepted_tx:
  assumes "\<And>p cfg. accepts (impl p cfg 1)"
  shows "transaction (primary_notify env ev ch impl) s =
    (Inl tx_aborted, s\<lparr>nf_sends := nf_sends s @ [(ch, make_payload ev (nc_id ch) (ev_message ev))]\<rparr>)"
proof -
  let ?p = "make_payload ev (nc_id ch) (ev_message ev)"
  obtain d where d: "retryDelivery (impl ?p (decrypt_config env (nc_config ch))) = (d, 1)" "dr_success d"
    using retry_first [of "impl ?p (decrypt_config env (nc_config ch))"] assms by blast
  show ?thesis
    unfolding primary_notify_def notify_def check_ok
    using d mark_delivered_fails [of "ne_id env ''notifications'' (length (nf_notifications s))"]
    by (auto simp: transaction_def tbind_def tcatch_def treturn_def query_def stmt_def insert_notification_def
        mark_sent_def upd_notification_def notification_columns_def send_all_def mark_failed_def mark_delivered_def
        js_Error_def plain_error_def err_message_def)
qed

definition sample_channel :: channel_row where
  "sample_channel =
     \<lparr>nc_id = ''c'', nc_orgId = ''o'', nc_type = ''slack'', nc_name = ''n'', nc_config = JObj [], nc_enabled = True,
      nc_status = ''active'', nc_keyVersion = 1, nc_deletedAt = None, nc_createdAt = 0\<rparr>"

definition sample_rule :: rule_row where
  "sample_rule =
     \<lparr>ru_id = ''r'', ru_orgId = ''o'', ru_name = ''n'', ru_trigger = ''t'', ru_conditions = None, ru_channelIds = [''c''],
      ru_projectIds = None, ru_enabled = True, ru_status = ''active'', ru_dedupWindowSeconds = None,
      ru_escalationChannels = None, ru_pausedAt = None, ru_deletedAt = None, ru_createdAt = 0\<rparr>"

definition sample_notif_env :: notif_env where
  "sample_notif_env =
     \<lparr>ne_now = 90, ne_id = (\<lambda>t n. t),
      ne_channels = [''slack'' \<mapsto> \<lambda>p cfg n. Inr \<lparr>dr_success = True, dr_statusCode = Some 200, dr_error = None\<rparr>],
      ne_decrypt = Inr\<rparr>"

section \<open>Properties\<close>

text \<open>
  Nothing is ever recorded as delivered: a cycle of the keeper adds no delivered or partially
  delivered alert and no delivered notification, whatever the channels answer.
\<close>

theorem nothing_recorded_delivered:
  "fst (delivered_rows (processFiredAlerts env s)) \<subseteq> fst (delivered_rows s)
   \<and> snd (delivered_rows (processFiredAlerts env s)) \<subseteq> snd (delivered_rows s)"
  using undelivered.cycle_keeps [of s s env] by (simp add: undelivered_def)

text \<open>
  An alert whose first channel accepts the message at once is sent and then lost: the update that
  records the success names a missing column, the transaction is rolled back and the error leaves the
  handler, so every table is as before and the alert is still fired.
\<close>

theorem accepted_delivery_lost:
  assumes "first_row (filter (\<lambda>e. ev_id e = i) (db_events (nf_db s))) = Some ev" and "ev_status ev = ''fired''"
    and "nf_flapping s (flapping_entity ev) = None"
    and "alert_rule ev s = Some r" and "ru_channelIds r = c # cs"
    and "active_channel ev c s = Some ch" and "ne_channels env (nc_type ch) = Some impl"
    and "\<not> recently_notified env ev (dedup_window (Some r)) c s"
    and "\<forall>p cfg. accepts (impl p cfg 1)"
  shows "\<exists>e p s'. processAlertEvent env i s = (Inl e, s') \<and> nf_db s' = nf_db s
    \<and> nf_notifications s' = nf_notifications s \<and> nf_sends s' = nf_sends s @ [(ch, p)] \<and> pl_alertEventId p = ev_id ev"
proof -
  let ?t = "snd (checkFlapping (ne_now env) (flapping_entity ev) (ev_eventType ev) (nf_flapping s))"
  let ?s = "s\<lparr>nf_flapping := ?t\<rparr>"
  have same: "alert_rule ev ?s = alert_rule ev s" "active_channel ev c ?s = active_channel ev c s"
    "recently_notified env ev w c ?s = recently_notified env ev w c s" for w
    by (simp_all add: alert_rule_def active_channel_def recently_notified_def split: option.split)
  have "processAlertEvent env i s = deliver_event env ev ?s"
    using assms(1-3) by (simp add: processAlertEvent_def checkFlapping_def Let_def)
  also have "\<dots> = (Inl tx_aborted, ?s\<lparr>nf_sends := nf_sends s @ [(ch, make_payload ev (nc_id ch) (ev_message ev))]\<rparr>)"
    using assms(4-8) accepted_tx [of impl env ev ch ?s] assms(9)
    by (simp add: deliver_event_def same rule_channels_def Let_def)
  finally show ?thesis by (simp add: make_payload_def)
qed

theorem accepted_delivery_lost_witness:
  "\<exists>s e p s'. processAlertEvent sample_notif_env ''e'' s = (Inl e, s') \<and> nf_sends s = []
     \<and> map ev_status (db_events (nf_db s')) = [''fired''] \<and> nf_sends s' = [(sample_channel, p)]"
proof -
  define ev where "ev = (new_event ''e'' 0 ''o'' ''t'' ''m'')\<lparr>ev_alertRuleId := Some ''r''\<rparr>"
  have ev: "ev_id ev = ''e''" "ev_status ev = ''fired''" "ev_orgId ev = ''o''" "ev_alertRuleId ev = Some ''r''"
    by (simp_all add: ev_def new_event_def)
  define s where "s = \<lparr>nf_db = empty_db\<lparr>db_events := [ev]\<rparr>, nf_rules = [sample_rule], nf_channels = [sample_channel],
      nf_notifications = [], nf_flapping = Map.empty, nf_sends = []\<rparr>"
  have 1: "first_row (filter (\<lambda>e. ev_id e = ''e'') (db_events (nf_db s))) = Some ev"
    by (simp add: s_def ev)
  have 2: "nf_flapping s (flapping_entity ev) = None" by (simp add: s_def)
  have 3: "alert_rule ev s = Some sample_rule" by (simp add: alert_rule_def ev truthy_def s_def sample_rule_def)
  have 4: "ru_channelIds sample_rule = ''c'' # []" by (simp add: sample_rule_def)
  have 5: "active_channel ev ''c'' s = Some sample_channel"
    by (simp add: active_channel_def s_def sample_channel_def ev)
  have 6: "ne_channels sample_notif_env (nc_type sample_channel) =
      Some (\<lambda>p cfg n. Inr \<lparr>dr_success = True, dr_statusCode = Some 200, dr_error = None\<rparr>)"
    by (simp add: sample_notif_env_def sample_channel_def)
  have 7: "\<not> recently_notified sample_notif_env ev (dedup_window (Some sample_rule)) ''c'' s"
    by (simp add: recently_notified_def s_def)
  have 8: "\<forall>(p :: payload) (cfg :: (string \<times> json) list).
      accepts ((\<lambda>p cfg (n :: nat). Inr \<lparr>dr_success = True, dr_statusCode = Some 200, dr_error = None\<rparr>) p cfg 1)"
    by (simp add: accepts_def)
  from accepted_delivery_lost [OF 1 ev(2) 2 3 4 5 6 7 8] show ?thesis
    by (intro exI [of _ s]) (auto simp: s_def ev)
qed

text \<open>
  A delivery makes at most three attempts; it succeeds exactly when one of them is accepted, stops at
  the first such attempt, and otherwise makes all three.
\<close>

theorem retry_delivery_spec:
  assumes "retryDelivery send = (d, n)"
  shows "n \<le> 3 \<and> (dr_success d \<longleftrightarrow> (\<exists>j < 3. accepts (send (1 + j))))
    \<and> (if dr_success d then send n = Inr d \<and> (\<forall>j < n - 1. \<not> accepts (send (1 + j))) else n = 3)"
  using retry_loop_spec [of send 3 1 None d n] assms
  by (auto simp: retryDelivery_def MAX_RETRIES_def split: if_splits)

theorem retry_delivery_spec_witness:
  "\<exists>d. retryDelivery (\<lambda>j. if j = 2 then Inr \<lparr>dr_success = True, dr_statusCode = None, dr_error = None\<rparr>
      else Inl (Prim ''down'')) = (d, 2) \<and> dr_success d"
proof -
  let ?send = "\<lambda>j :: nat. if j = 2 then Inr \<lparr>dr_success = True, dr_statusCode = None, dr_error = None\<rparr>
      else Inl (Prim ''down'')"
  obtain d n where r: "retryDelivery ?send = (d, n)" by (rule prod.exhaust)
  have "\<exists>j < 3. accepts (?send (1 + j))" by (intro exI [of _ 1]) (simp add: accepts_def)
  with retry_delivery_spec [OF r] have "dr_success d" "?send n = Inr d" by auto
  moreover from this(2) have "n = 2" by (cases "n = 2") auto
  ultimately show ?thesis using r by blast
qed

text \<open>
  C28: an alert only reaches active channels of its own organization, through the rule, the escalation and
  the last resort alike.
\<close>

theorem alerts_stay_in_org:
  "set (nf_sends (processFiredAlerts env s)) \<subseteq>
     set (nf_sends s) \<union> {(c, p). nc_status c = ''active'' \<and> nc_orgId c = pl_orgId p}"
  using isolated.cycle_keeps [of s s env] by (simp add: isolated_def own_sends_def)

end
