(* ===== verification/Access.thy ===== *)
theory Access
  imports Monitoring
begin

text \<open>
  Who may call the API: \<open>api/src/middleware/auth.ts\<close>, \<open>org-scope.ts\<close>, \<open>capability.ts\<close>,
  \<open>admin-auth.ts\<close>, \<open>requireProjectOrg\<close> of \<open>api/src/routes/projects.ts\<close> and the capabilities of
  \<open>api/src/lib/permissions.ts\<close>. A middleware reads the request and the variables of the request and
  either answers, throws, or passes with new variables. Verifying a token and hashing are parameters;
  identifiers are the canonical text of their uuid, and a text that is no uuid fails its query.
\<close>

section \<open>Rows\<close>

record organization_row =
  og_id :: string
  og_name :: string
  og_slug :: string
  og_status :: string
  og_deletedAt :: "int option"
  og_suspendedAt :: "int option"
  og_createdAt :: int
  og_updatedAt :: int

record member_row =
  me_orgId :: string
  me_userId :: string
  me_role :: string
  me_joinedAt :: int

record project_member_row =
  pm_projectId :: string
  pm_userId :: string
  pm_role :: string

datatype capability =
    MANAGE_POLICIES | MANAGE_BUDGETS | TRIGGER_RENEWALS | MANAGE_WALLETS
  | MANAGE_ALERTS | MANAGE_WEBHOOKS | MANAGE_API_KEYS | VIEW_AUDIT_LOG

record grant_row =
  cg_orgId :: string
  cg_projectId :: "string option"
  cg_userId :: string
  cg_capability :: capability

record api_key_row =
  ak_id :: string
  ak_orgId :: string
  ak_userId :: string
  ak_name :: string
  ak_keyHash :: string
  ak_previousKeyHash :: "string option"
  ak_keyPrefix :: string
  ak_role :: "string option"
  ak_permissions :: "string list"
  ak_status :: string
  ak_rotatedAt :: "int option"
  ak_expiresAt :: "int option"
  ak_lastUsedAt :: "int option"
  ak_deletedAt :: "int option"
  ak_createdAt :: int

record access_db =
  ac_orgs :: "organization_row list"
  ac_members :: "member_row list"
  ac_projectMembers :: "project_member_row list"
  ac_grants :: "grant_row list"
  ac_apiKeys :: "api_key_row list"

section \<open>Requests\<close>

record request =
  rq_method :: string
  rq_path :: string
  rq_param :: "string \<Rightarrow> string option"
  rq_header :: "string \<Rightarrow> string option"

text \<open>The variables that the middleware sets for the handlers behind it.\<close>

record request_vars =
  cx_requestId :: "string option"
  cx_userId :: "string option"
  cx_orgId :: "string option"
  cx_role :: "string option"
  cx_authMethod :: "string option"

record access_env =
  ae_now :: int
  ae_verify :: "string \<Rightarrow> thrown + string option"
  ae_sha256 :: "string \<Rightarrow> string"
  ae_adminKey :: "string option"

datatype 'a outcome = Respond http_response | Throws thrown | Pass 'a

fun next_mw :: "'a outcome \<Rightarrow> ('a \<Rightarrow> 'b outcome) \<Rightarrow> 'b outcome" where
  "next_mw (Respond r) k = Respond r"
| "next_mw (Throws e) k = Throws e"
| "next_mw (Pass a) k = k a"

text \<open>The error object of the middleware: its class is \<open>persistent\<close>.\<close>

definition refuse :: "request_vars \<Rightarrow> int \<Rightarrow> string \<Rightarrow> string \<Rightarrow> 'a outcome" where
  "refuse cx status code msg =
     Respond (errorResponse (cx_requestId cx) status code msg None None (Some FPersistent) None)"

section \<open>Capabilities\<close>

definition all_capabilities :: "capability list" where
  "all_capabilities =
     [MANAGE_POLICIES, MANAGE_BUDGETS, TRIGGER_RENEWALS, MANAGE_WALLETS,
      MANAGE_ALERTS, MANAGE_WEBHOOKS, MANAGE_API_KEYS, VIEW_AUDIT_LOG]"

definition ROLE_CAPABILITIES :: "string \<Rightarrow> capability list option" where
  "ROLE_CAPABILITIES =
     [''owner'' \<mapsto> all_capabilities, ''admin'' \<mapsto> all_capabilities,
      ''member'' \<mapsto> [MANAGE_POLICIES, MANAGE_BUDGETS, TRIGGER_RENEWALS, MANAGE_WALLETS],
      ''viewer'' \<mapsto> [VIEW_AUDIT_LOG]]"

definition getCapabilitiesForRole :: "string \<Rightarrow> capability list" where
  "getCapabilitiesForRole role = or_default (ROLE_CAPABILITIES role) []"

text \<open>\<open>[...new Set(xs)]\<close>: the first occurrences, in order.\<close>

definition js_set :: "'a list \<Rightarrow> 'a list" where
  "js_set xs = rev (remdups (rev xs))"

definition org_member :: "access_db \<Rightarrow> string \<Rightarrow> string \<Rightarrow> member_row option" where
  "org_member d org user =
     first_row (filter (\<lambda>m. me_orgId m = org \<and> me_userId m = user) (ac_members d))"

text \<open>The role in the project is read and not used.\<close>

definition project_role :: "access_db \<Rightarrow> string \<Rightarrow> string option \<Rightarrow> string option" where
  "project_role d user project =
     (case truthy project of
        None \<Rightarrow> None
      | Some p \<Rightarrow> map_option pm_role
          (first_row (filter (\<lambda>m. pm_userId m = user \<and> pm_projectId m = p) (ac_projectMembers d))))"

definition granted :: "access_db \<Rightarrow> string \<Rightarrow> string \<Rightarrow> string option \<Rightarrow> capability list" where
  "granted d user org project =
     map cg_capability (filter (\<lambda>g. cg_userId g = user \<and> cg_orgId g = org
        \<and> (cg_projectId g = None \<or> truthy project \<noteq> None \<and> cg_projectId g = project)) (ac_grants d))"

definition resolveEffectivePermissions ::
    "access_db \<Rightarrow> string \<Rightarrow> string \<Rightarrow> string option \<Rightarrow> string \<times> capability list" where
  "resolveEffectivePermissions d user org project =
     (let orgRole = (case org_member d org user of Some m \<Rightarrow> me_role m | None \<Rightarrow> ''viewer'')
      in (orgRole, js_set (getCapabilitiesForRole orgRole @ granted d user org project)))"

section \<open>Authentication\<close>

text \<open>The token of \<open>Authorization: Bearer\<close>.\<close>

definition bearer_token :: "request \<Rightarrow> string option" where
  "bearer_token rq =
     (case rq_header rq ''Authorization'' of
        Some h \<Rightarrow> if starts_with ''Bearer '' h then Some (drop 7 h) else None
      | None \<Rightarrow> None)"

definition accept_token :: "access_env \<Rightarrow> request_vars \<Rightarrow> string \<Rightarrow> request_vars outcome" where
  "accept_token env cx tok =
     (case ae_verify env tok of
        Inl _ \<Rightarrow> refuse cx 401 ''UNAUTHORIZED'' ''Invalid or expired token''
      | Inr u \<Rightarrow> Pass (cx\<lparr>cx_userId := u\<rparr>))"

definition requireAuth :: "access_env \<Rightarrow> request \<Rightarrow> request_vars \<Rightarrow> request_vars outcome" where
  "requireAuth env rq cx =
     (case bearer_token rq of
        None \<Rightarrow> refuse cx 401 ''UNAUTHORIZED'' ''Missing or invalid Authorization header''
      | Some tok \<Rightarrow> accept_token env cx tok)"

definition key_expired :: "int \<Rightarrow> api_key_row \<Rightarrow> bool" where
  "key_expired now k = (case ak_expiresAt k of Some t \<Rightarrow> t < now | None \<Rightarrow> False)"

definition accept_key :: "access_env \<Rightarrow> access_db \<Rightarrow> request_vars \<Rightarrow> string \<Rightarrow> request_vars outcome \<times> access_db" where
  "accept_key env d cx apiKey =
     (case first_row (filter (\<lambda>k. ak_keyHash k = ae_sha256 env apiKey) (ac_apiKeys d)) of
        None \<Rightarrow> (refuse cx 401 ''UNAUTHORIZED'' ''Invalid API key'', d)
      | Some key \<Rightarrow>
          if ak_status key \<in> {''revoked'', ''rotated''}
          then (refuse cx 401 ''UNAUTHORIZED'' ''API key is no longer active'', d)
          else if ak_status key \<noteq> ''active''
          then (refuse cx 401 ''UNAUTHORIZED'' ''API key is not active'', d)
          else if key_expired (ae_now env) key
          then (refuse cx 401 ''UNAUTHORIZED'' ''API key expired'', d)
          else (Pass (cx\<lparr>cx_userId := Some (ak_userId key), cx_orgId := Some (ak_orgId key),
                         cx_role := Some (or_default (ak_role key) ''member''), cx_authMethod := Some ''api-key''\<rparr>),
                d\<lparr>ac_apiKeys := sql_update (\<lambda>k. ak_id k = ak_id key)
                    (\<lambda>k. k\<lparr>ak_lastUsedAt := Some (ae_now env)\<rparr>) (ac_apiKeys d)\<rparr>))"

definition requireAuthOrApiKey ::
    "access_env \<Rightarrow> access_db \<Rightarrow> request \<Rightarrow> request_vars \<Rightarrow> request_vars outcome \<times> access_db" where
  "requireAuthOrApiKey env d rq cx =
     (case bearer_token rq of
        Some tok \<Rightarrow> (accept_token env cx tok, d)
      | None \<Rightarrow>
          (case truthy (rq_header rq ''X-API-Key'') of
             Some apiKey \<Rightarrow> accept_key env d cx apiKey
           | None \<Rightarrow> (refuse cx 401 ''UNAUTHORIZED'' ''Missing Authorization header or X-API-Key'', d)))"

definition requireAdmin :: "access_env \<Rightarrow> request \<Rightarrow> request_vars \<Rightarrow> request_vars outcome" where
  "requireAdmin env rq cx =
     (case truthy (rq_header rq ''X-Admin-Key'') of
        None \<Rightarrow> Respond (errorResponse None 401 ''UNAUTHORIZED'' ''Unauthorized'' None None None None)
      | Some k \<Rightarrow>
          if ae_adminKey env \<noteq> Some k
          then Respond (errorResponse None 401 ''UNAUTHORIZED'' ''Unauthorized'' None None None None)
          else Pass cx)"

section \<open>Organizations, roles, capabilities\<close>

text \<open>The organization of a request: its parameter \<open>id\<close>, or the header.\<close>

definition requested_org :: "request \<Rightarrow> string option" where
  "requested_org rq =
     (case truthy (rq_param rq ''id'') of Some i \<Rightarrow> Some i | None \<Rightarrow> truthy (rq_header rq ''X-Org-Id''))"

definition find_org :: "access_db \<Rightarrow> string \<Rightarrow> organization_row option" where
  "find_org d org = first_row (filter (\<lambda>g. og_id g = org) (ac_orgs d))"

text \<open>A parameter of a query that is undefined, or compared with a uuid column.\<close>

definition uuid_arg :: "string option \<Rightarrow> (string \<Rightarrow> 'a outcome) \<Rightarrow> 'a outcome" where
  "uuid_arg p k =
     (case p of
        None \<Rightarrow> Throws (js_Error ''UNDEFINED_VALUE: Undefined values are not allowed'')
      | Some s \<Rightarrow> if is_uuid s then k s else Throws (uuid_error s))"

text \<open>The role of an API key stays that of the key.\<close>

definition member_vars :: "request_vars \<Rightarrow> string \<Rightarrow> member_row \<Rightarrow> request_vars" where
  "member_vars cx org m =
     cx\<lparr>cx_orgId := Some org,
        cx_role := (if cx_authMethod cx \<noteq> Some ''api-key'' then Some (me_role m) else cx_role cx)\<rparr>"

definition requireOrg :: "access_db \<Rightarrow> request \<Rightarrow> request_vars \<Rightarrow> request_vars outcome" where
  "requireOrg d rq cx =
     (case requested_org rq of
        None \<Rightarrow> refuse cx 400 ''VALIDATION_ERROR'' ''Organization ID is required''
      | Some i \<Rightarrow>
          uuid_arg (Some i) (\<lambda>org.
            case find_org d org of
              None \<Rightarrow> refuse cx 404 ''NOT_FOUND'' ''Organization not found''
            | Some g \<Rightarrow>
                if og_status g = ''suspended'' then refuse cx 403 ''FORBIDDEN'' ''Organization is suspended''
                else uuid_arg (cx_userId cx) (\<lambda>user.
                  case org_member d org user of
                    None \<Rightarrow> refuse cx 403 ''FORBIDDEN'' ''Not a member of this organization''
                  | Some m \<Rightarrow>
                      Pass (member_vars cx org m))))"

definition join_comma :: "string list \<Rightarrow> string" where
  "join_comma xs = concat (case xs of [] \<Rightarrow> [] | y # ys \<Rightarrow> y # map (\<lambda>x. '', '' @ x) ys)"

definition requireRole :: "string list \<Rightarrow> request_vars \<Rightarrow> request_vars outcome" where
  "requireRole roles cx =
     (if \<exists>r. cx_role cx = Some r \<and> r \<in> set roles then Pass cx
      else refuse cx 403 ''FORBIDDEN'' (''Requires one of roles: '' @ join_comma roles))"

definition requireCapability :: "access_db \<Rightarrow> capability list \<Rightarrow> request_vars \<Rightarrow> request_vars outcome" where
  "requireCapability d caps cx =
     uuid_arg (cx_userId cx) (\<lambda>user. uuid_arg (cx_orgId cx) (\<lambda>org.
       if \<exists>c \<in> set caps. c \<in> set (snd (resolveEffectivePermissions d user org None)) then Pass cx
       else refuse cx 403 ''FORBIDDEN'' ''Forbidden: insufficient permissions''))"

text \<open>The check of the projects router: the header alone, and the time of suspension.\<close>

definition project_refuse :: "int \<Rightarrow> string \<Rightarrow> string \<Rightarrow> 'a outcome" where
  "project_refuse status code msg = Respond (errorResponse None status code msg None None None None)"

definition requireProjectOrg :: "access_db \<Rightarrow> request \<Rightarrow> request_vars \<Rightarrow> request_vars outcome" where
  "requireProjectOrg d rq cx =
     (case truthy (rq_header rq ''X-Org-Id'') of
        None \<Rightarrow> project_refuse 400 ''VALIDATION_ERROR'' ''Organization ID is required''
      | Some i \<Rightarrow>
          uuid_arg (Some i) (\<lambda>org.
            case find_org d org of
              None \<Rightarrow> project_refuse 404 ''NOT_FOUND'' ''Organization not found''
            | Some g \<Rightarrow>
                if og_suspendedAt g \<noteq> None then project_refuse 403 ''FORBIDDEN'' ''Organization is suspended''
                else uuid_arg (cx_userId cx) (\<lambda>user.
                  case org_member d org user of
                    None \<Rightarrow> project_refuse 403 ''FORBIDDEN'' ''Not a member of this organization''
                  | Some m \<Rightarrow> Pass (cx\<lparr>cx_orgId := Some org, cx_role := Some (me_role m)\<rparr>))))"

section \<open>Chains of middleware\<close>

text \<open>The middleware a route names before its handler, in order; only one of them writes.\<close>

datatype guard =
    GAuth | GAuthOrKey | GOrg | GProjectOrg | GRole "string list" | GCap "capability list" | GAdmin

fun run_guard ::
    "access_env \<Rightarrow> request \<Rightarrow> guard \<Rightarrow> request_vars \<times> access_db \<Rightarrow> (request_vars \<times> access_db) outcome" where
  "run_guard env rq GAuth (cx, d) = next_mw (requireAuth env rq cx) (\<lambda>cx'. Pass (cx', d))"
| "run_guard env rq GAuthOrKey (cx, d) =
     (case requireAuthOrApiKey env d rq cx of (r, d') \<Rightarrow> next_mw r (\<lambda>cx'. Pass (cx', d')))"
| "run_guard env rq GOrg (cx, d) = next_mw (requireOrg d rq cx) (\<lambda>cx'. Pass (cx', d))"
| "run_guard env rq GProjectOrg (cx, d) = next_mw (requireProjectOrg d rq cx) (\<lambda>cx'. Pass (cx', d))"
| "run_guard env rq (GRole rs) (cx, d) = next_mw (requireRole rs cx) (\<lambda>cx'. Pass (cx', d))"
| "run_guard env rq (GCap cs) (cx, d) = next_mw (requireCapability d cs cx) (\<lambda>cx'. Pass (cx', d))"
| "run_guard env rq GAdmin (cx, d) = next_mw (requireAdmin env rq cx) (\<lambda>cx'. Pass (cx', d))"

primrec run_guards ::
    "access_env \<Rightarrow> request \<Rightarrow> guard list \<Rightarrow> request_vars \<times> access_db \<Rightarrow> (request_vars \<times> access_db) outcome" where
  "run_guards env rq [] s = Pass s"
| "run_guards env rq (g # gs) s = next_mw (run_guard env rq g s) (run_guards env rq gs)"

text \<open>The variables of a request that no middleware has seen.\<close>

definition fresh_vars :: "string \<Rightarrow> request_vars" where
  "fresh_vars rid =
     \<lparr>cx_requestId = Some rid, cx_userId = None, cx_orgId = None, cx_role = None, cx_authMethod = None\<rparr>"

section \<open>Who passes\<close>

lemma next_mw_Pass [result_simps]: "next_mw m k = Pass b \<longleftrightarrow> (\<exists>a. m = Pass a \<and> k a = Pass b)"
  by (cases m) auto

lemma refuse_not_Pass [simp]: "refuse cx st code msg \<noteq> Pass a"
  by (simp add: refuse_def)

lemma uuid_arg_Pass [result_simps]:
  "uuid_arg p k = Pass a \<longleftrightarrow> (\<exists>s. p = Some s \<and> is_uuid s \<and> k s = Pass a)"
  by (auto simp: uuid_arg_def split: option.split)

lemma requireAuth_Pass [result_simps]:
  "requireAuth env rq cx = Pass cx' \<longleftrightarrow>
     (\<exists>tok u. bearer_token rq = Some tok \<and> ae_verify env tok = Inr u \<and> cx' = cx\<lparr>cx_userId := u\<rparr>)"
  by (auto simp: requireAuth_def accept_token_def split: option.split sum.split)

lemma requireOrg_Pass [result_simps]:
  "requireOrg d rq cx = Pass cx' \<longleftrightarrow>
     (\<exists>org g u m. requested_org rq = Some org \<and> is_uuid org \<and> find_org d org = Some g
        \<and> og_status g \<noteq> ''suspended'' \<and> cx_userId cx = Some u \<and> is_uuid u \<and> org_member d org u = Some m
        \<and> cx' = member_vars cx org m)"
proof (cases "requested_org rq")
  case (Some org)
  then show ?thesis
    by (cases "find_org d org") (auto simp: requireOrg_def result_simps split: option.splits)
qed (simp add: requireOrg_def)

lemma requireRole_Pass [result_simps]:
  "requireRole roles cx = Pass cx' \<longleftrightarrow> cx' = cx \<and> (\<exists>r. cx_role cx = Some r \<and> r \<in> set roles)"
  by (auto simp: requireRole_def)

lemma set_js_set [simp]: "set (js_set xs) = set xs" and distinct_js_set: "distinct (js_set xs)"
  by (simp_all add: js_set_def)

lemma requireCapability_Pass [result_simps]:
  "requireCapability d caps cx = Pass cx' \<longleftrightarrow>
     cx' = cx \<and> (\<exists>u org. cx_userId cx = Some u \<and> cx_orgId cx = Some org \<and> is_uuid u \<and> is_uuid org
       \<and> (\<exists>c \<in> set caps. c \<in> set (snd (resolveEffectivePermissions d u org None))))"
  by (auto simp: requireCapability_def result_simps split: if_splits)

lemma run_guard_read_Pass [result_simps]:
  "run_guard env rq GAuth (cx, d) = Pass s \<longleftrightarrow> (\<exists>cx'. requireAuth env rq cx = Pass cx' \<and> s = (cx', d))"
  "run_guard env rq GOrg (cx, d) = Pass s \<longleftrightarrow> (\<exists>cx'. requireOrg d rq cx = Pass cx' \<and> s = (cx', d))"
  "run_guard env rq (GRole rs) (cx, d) = Pass s \<longleftrightarrow> requireRole rs cx = Pass cx \<and> s = (cx, d)"
  "run_guard env rq (GCap cs) (cx, d) = Pass s \<longleftrightarrow> requireCapability d cs cx = Pass cx \<and> s = (cx, d)"
  by (auto simp: next_mw_Pass requireRole_Pass requireCapability_Pass)

text \<open>The keys of the tables, and that identifiers are uuids.\<close>

definition access_wf :: "access_db \<Rightarrow> bool" where
  "access_wf d \<longleftrightarrow>
     distinct (map og_id (ac_orgs d)) \<and> distinct (map (\<lambda>m. (me_orgId m, me_userId m)) (ac_members d))
     \<and> (\<forall>g \<in> set (ac_orgs d). is_uuid (og_id g)) \<and> (\<forall>m \<in> set (ac_members d). is_uuid (me_userId m))"

lemma first_row_unique:
  assumes "distinct (map k rows)" and "r \<in> set rows"
  shows "first_row (filter (\<lambda>x. k x = k r) rows) = Some r"
  using assms by (induction rows) (auto simp: filter_empty_conv rev_image_eqI)

lemma first_row_keyed:
  assumes "distinct (map k rows)"
  shows "first_row (filter (\<lambda>x. k x = a) rows) = Some r \<longleftrightarrow> r \<in> set rows \<and> k r = a"
  using first_row_unique [OF assms] first_row_filter_SomeD [of "\<lambda>x. k x = a" rows r] by blast

lemma wf_find_org: "access_wf d \<Longrightarrow> find_org d i = Some g \<longleftrightarrow> g \<in> set (ac_orgs d) \<and> og_id g = i"
  unfolding find_org_def access_wf_def using first_row_keyed [of og_id] by blast

lemma wf_org_member:
  "access_wf d \<Longrightarrow> org_member d i u = Some m \<longleftrightarrow> m \<in> set (ac_members d) \<and> me_orgId m = i \<and> me_userId m = u"
  using first_row_keyed [of "\<lambda>m. (me_orgId m, me_userId m)" "ac_members d" "(i, u)" m]
  by (simp add: org_member_def access_wf_def)

text \<open>What the guards promise: the caller is a member, of the wanted standing, of an organization that is not suspended.\<close>

definition may_act :: "access_db \<Rightarrow> string \<Rightarrow> string \<Rightarrow> (member_row \<Rightarrow> bool) \<Rightarrow> bool" where
  "may_act d org user standing \<longleftrightarrow>
     (\<exists>g \<in> set (ac_orgs d). og_id g = org \<and> og_status g \<noteq> ''suspended'')
     \<and> (\<exists>m \<in> set (ac_members d). me_orgId m = org \<and> me_userId m = user \<and> standing m)"

definition has_capability :: "access_db \<Rightarrow> capability list \<Rightarrow> member_row \<Rightarrow> bool" where
  "has_capability d caps m \<longleftrightarrow>
     (\<exists>c \<in> set caps. c \<in> set (getCapabilitiesForRole (me_role m))
        \<or> (\<exists>g \<in> set (ac_grants d). cg_userId g = me_userId m \<and> cg_orgId g = me_orgId m
              \<and> cg_projectId g = None \<and> cg_capability g = c))"

definition caller :: "access_env \<Rightarrow> request \<Rightarrow> string \<Rightarrow> bool" where
  "caller env rq u \<longleftrightarrow> (\<exists>tok. bearer_token rq = Some tok \<and> ae_verify env tok = Inr (Some u))"

definition passes :: "access_env \<Rightarrow> access_db \<Rightarrow> request \<Rightarrow> string \<Rightarrow> guard list \<Rightarrow> bool" where
  "passes env d rq rid gs \<longleftrightarrow> (\<exists>s. run_guards env rq gs (fresh_vars rid, d) = Pass s)"

lemma permissions_of_member:
  assumes "org_member d org u = Some m"
  shows "set (snd (resolveEffectivePermissions d u org None))
    = set (getCapabilitiesForRole (me_role m)) \<union> set (granted d u org None)"
  using assms by (simp add: resolveEffectivePermissions_def Let_def)

text \<open>A stranger to the organization has the capabilities of a viewer.\<close>

lemma stranger_views_audit_log:
  assumes "org_member d org u = None"
  shows "VIEW_AUDIT_LOG \<in> set (snd (resolveEffectivePermissions d u org p))"
  using assms by (simp add: resolveEffectivePermissions_def Let_def getCapabilitiesForRole_def ROLE_CAPABILITIES_def
    or_default_def)

lemma auth_org_passes:
  assumes wf: "access_wf d"
  shows "passes env d rq rid (GAuth # GOrg # gs) \<longleftrightarrow>
    (\<exists>u org m. caller env rq u \<and> requested_org rq = Some org \<and> may_act d org u (\<lambda>x. x = m)
       \<and> (\<exists>s. run_guards env rq gs (member_vars ((fresh_vars rid)\<lparr>cx_userId := Some u\<rparr>) org m, d) = Pass s))"
    (is "?L \<longleftrightarrow> ?R")
proof
  assume ?L
  then obtain tok u org g m s where *: "bearer_token rq = Some tok" "ae_verify env tok = Inr (Some u)"
      "requested_org rq = Some org" "find_org d org = Some g" "og_status g \<noteq> ''suspended''"
      "org_member d org u = Some m"
      "run_guards env rq gs (member_vars ((fresh_vars rid)\<lparr>cx_userId := Some u\<rparr>) org m, d) = Pass s"
    by (auto simp: passes_def next_mw_Pass run_guard_read_Pass requireAuth_Pass requireOrg_Pass)
  then have "caller env rq u" "may_act d org u (\<lambda>x. x = m)"
    by (auto simp: caller_def may_act_def wf_find_org [OF wf] wf_org_member [OF wf])
  with * show ?R by blast
next
  assume ?R
  then obtain u org m s where *: "caller env rq u" "requested_org rq = Some org" "may_act d org u (\<lambda>x. x = m)"
      "run_guards env rq gs (member_vars ((fresh_vars rid)\<lparr>cx_userId := Some u\<rparr>) org m, d) = Pass s" by blast
  from *(3) obtain g where g: "find_org d org = Some g" "og_status g \<noteq> ''suspended''"
    and m: "org_member d org u = Some m" and "is_uuid org" "is_uuid u"
    using wf by (auto simp: may_act_def wf_find_org [OF wf] wf_org_member [OF wf] access_wf_def)
  with * show ?L
    by (auto simp: passes_def caller_def next_mw_Pass run_guard_read_Pass requireAuth_Pass requireOrg_Pass)
qed

lemma member_vars_simps [simp]:
  "cx_userId (member_vars cx org m) = cx_userId cx" "cx_orgId (member_vars cx org m) = Some org"
  "cx_authMethod (member_vars cx org m) = cx_authMethod cx"
  "cx_role (member_vars cx org m) =
     (if cx_authMethod cx \<noteq> Some ''api-key'' then Some (me_role m) else cx_role cx)"
  by (simp_all add: member_vars_def)

lemma capability_of_member:
  assumes wf: "access_wf d" and m: "may_act d org u (\<lambda>x. x = m)"
  shows "(\<exists>cx. requireCapability d caps (member_vars ((fresh_vars rid)\<lparr>cx_userId := Some u\<rparr>) org m) = Pass cx)
    \<longleftrightarrow> has_capability d caps m"
proof -
  from m have "org_member d org u = Some m" and ids: "me_orgId m = org" "me_userId m = u" "is_uuid org" "is_uuid u"
    using wf by (auto simp: may_act_def wf_org_member [OF wf] access_wf_def)
  from permissions_of_member [OF this(1)] ids show ?thesis
    by (auto simp: requireCapability_Pass has_capability_def granted_def truthy_def)
qed

lemma may_act_some: "may_act d org u P \<longleftrightarrow> (\<exists>m. may_act d org u (\<lambda>x. x = m) \<and> P m)"
  by (auto simp: may_act_def)

section \<open>A sample organization\<close>

definition sample_uuid :: "char \<Rightarrow> string" where
  "sample_uuid c = ''00000000-0000-0000-0000-00000000000'' @ [c]"

lemma sample_uuid_ok: "is_uuid (sample_uuid CHR ''1'')" "is_uuid (sample_uuid CHR ''2'')"
  by (simp_all add: is_uuid_def sample_uuid_def hex_digit_def is_digit_def less_eq_char_def)

lemma sample_uuid_inj [simp]: "sample_uuid a = sample_uuid b \<longleftrightarrow> a = b"
  by (simp add: sample_uuid_def)

definition sample_org :: organization_row where
  "sample_org = \<lparr>og_id = sample_uuid CHR ''1'', og_name = ''org'', og_slug = ''org'', og_status = ''active'',
     og_deletedAt = None, og_suspendedAt = None, og_createdAt = 0, og_updatedAt = 0\<rparr>"

definition sample_access :: access_db where
  "sample_access =
     \<lparr>ac_orgs = [sample_org],
      ac_members = [\<lparr>me_orgId = sample_uuid CHR ''1'', me_userId = sample_uuid CHR ''2'', me_role = ''viewer'', me_joinedAt = 0\<rparr>],
      ac_projectMembers = [], ac_grants = [],
      ac_apiKeys = [\<lparr>ak_id = ''k'', ak_orgId = sample_uuid CHR ''2'', ak_userId = sample_uuid CHR ''2'',
        ak_name = ''key'', ak_keyHash = ''secret'', ak_previousKeyHash = None, ak_keyPrefix = ''sec'',
        ak_role = Some ''admin'', ak_permissions = [], ak_status = ''active'', ak_rotatedAt = None, ak_expiresAt = None,
        ak_lastUsedAt = None, ak_deletedAt = None, ak_createdAt = 0\<rparr>]\<rparr>"

definition sample_access_env :: access_env where
  "sample_access_env = \<lparr>ae_now = 0, ae_verify = (\<lambda>t. Inr (Some (sample_uuid CHR ''2''))), ae_sha256 = (\<lambda>s. s),
     ae_adminKey = None\<rparr>"

definition sample_request :: "string option \<Rightarrow> request" where
  "sample_request item =
     \<lparr>rq_method = ''GET'', rq_path = ''/'', rq_param = (\<lambda>p. if p = ''id'' then item else None),
      rq_header = [''Authorization'' \<mapsto> ''Bearer t'', ''X-Org-Id'' \<mapsto> sample_uuid CHR ''1'']\<rparr>"

lemma sample_access_wf: "access_wf sample_access"
  by (simp add: access_wf_def sample_access_def sample_org_def sample_uuid_ok)

lemma sample_caller: "caller sample_access_env (sample_request item) (sample_uuid CHR ''2'')"
  by (simp add: caller_def bearer_token_def sample_request_def sample_access_env_def)

section \<open>Properties\<close>

text \<open>
  C26: the guards of a route implement their contract: a request passes authentication, organization and
  role or capability exactly when its token names a user who is a member, of a listed role or with a
  listed capability of the role or of an own grant, of a requested organization that is not suspended.
\<close>

theorem guards_refine:
  assumes "access_wf d"
  shows "(passes env d rq rid [GAuth, GOrg, GRole roles] \<longleftrightarrow>
      (\<exists>u org. caller env rq u \<and> requested_org rq = Some org \<and> may_act d org u (\<lambda>m. me_role m \<in> set roles)))
    \<and> (passes env d rq rid [GAuth, GOrg, GCap caps] \<longleftrightarrow>
      (\<exists>u org. caller env rq u \<and> requested_org rq = Some org \<and> may_act d org u (has_capability d caps)))"
proof (rule conjI)
  show "passes env d rq rid [GAuth, GOrg, GRole roles] \<longleftrightarrow>
      (\<exists>u org. caller env rq u \<and> requested_org rq = Some org \<and> may_act d org u (\<lambda>m. me_role m \<in> set roles))"
    by (subst may_act_some)
      (auto simp: auth_org_passes [OF assms] next_mw_Pass run_guard_read_Pass requireRole_Pass fresh_vars_def)
  show "passes env d rq rid [GAuth, GOrg, GCap caps] \<longleftrightarrow>
      (\<exists>u org. caller env rq u \<and> requested_org rq = Some org \<and> may_act d org u (has_capability d caps))"
    using capability_of_member [OF assms]
    by (subst may_act_some) (simp add: auth_org_passes [OF assms] next_mw_Pass, blast)
qed

theorem guards_refine_witness:
  "passes sample_access_env sample_access (sample_request None) ''r'' [GAuth, GOrg, GRole [''viewer'']]
   \<and> \<not> passes sample_access_env sample_access (sample_request None) ''r'' [GAuth, GOrg, GCap [MANAGE_POLICIES]]"
proof -
  have org: "requested_org (sample_request None) = Some (sample_uuid CHR ''1'')"
    by (simp add: requested_org_def sample_request_def truthy_def sample_uuid_def)
  have user: "caller sample_access_env (sample_request None) u \<longleftrightarrow> u = sample_uuid CHR ''2''" for u
    by (auto simp: caller_def bearer_token_def sample_request_def sample_access_env_def)
  have "may_act sample_access (sample_uuid CHR ''1'') (sample_uuid CHR ''2'') (\<lambda>m. me_role m \<in> {''viewer''})"
    by (simp add: may_act_def sample_access_def sample_org_def)
  moreover have "\<not> may_act sample_access (sample_uuid CHR ''1'') u (has_capability sample_access [MANAGE_POLICIES])" for u
    by (auto simp: may_act_def sample_access_def has_capability_def getCapabilitiesForRole_def ROLE_CAPABILITIES_def)
  ultimately show ?thesis
    using guards_refine [OF sample_access_wf, of sample_access_env "sample_request None" "''r''"
        "[''viewer'']" "[MANAGE_POLICIES]"] org user by simp
qed

lemma item_route_refused:
  assumes "caller env rq u" and "rq_param rq ''id'' = Some i" and "is_uuid i"
    and "\<forall>g \<in> set (ac_orgs d). og_id g \<noteq> i"
  shows "run_guards env rq (GAuth # GOrg # gs) (fresh_vars rid, d) =
    Respond (errorResponse (Some rid) 404 ''NOT_FOUND'' ''Organization not found'' None None (Some FPersistent) None)"
proof -
  from assms(1) obtain tok where t: "bearer_token rq = Some tok" "ae_verify env tok = Inr (Some u)"
    by (auto simp: caller_def)
  from assms(3) have "i \<noteq> []" by (auto simp: is_uuid_def)
  then have "requested_org rq = Some i"
    using assms(2) by (cases i) (simp_all add: requested_org_def truthy_def)
  moreover have "find_org d i = None" using assms(4) by (simp add: find_org_def first_row_filter_None)
  ultimately show ?thesis
    using t assms(3)
    by (simp add: requireAuth_def accept_token_def requireOrg_def uuid_arg_def refuse_def fresh_vars_def)
qed

text \<open>
  A route with a parameter \<open>id\<close> behind the organization guard is unreachable unless the parameter is
  the identifier of an organization: whatever header names the organization, the answer is 404.
\<close>

theorem item_route_unreachable:
  assumes "caller env rq u" and "rq_param rq ''id'' = Some i" and "is_uuid i"
    and "\<forall>g \<in> set (ac_orgs d). og_id g \<noteq> i"
  shows "run_guards env rq (GAuth # GOrg # gs) (fresh_vars rid, d) =
    Respond (errorResponse (Some rid) 404 ''NOT_FOUND'' ''Organization not found'' None None (Some FPersistent) None)"
  by (rule item_route_refused [OF assms])

theorem item_route_unreachable_witness:
  "\<exists>r. run_guards sample_access_env (sample_request (Some (sample_uuid CHR ''2''))) [GAuth, GOrg] (fresh_vars ''r'', sample_access)
     = Respond r \<and> hr_status r = 404"
  using item_route_unreachable [OF sample_caller, of "Some (sample_uuid CHR ''2'')" "sample_uuid CHR ''2''" sample_access "[]" "''r''"]
    sample_uuid_ok
  by (simp add: sample_request_def sample_access_def sample_org_def errorResponse_def)

text \<open>
  An API key carries its role into every organization its user is a member of: whatever the role of
  the membership, a request with the key of another organization passes the guards of the role of the key.
\<close>

theorem api_key_role_elsewhere:
  assumes "rq_header rq ''Authorization'' = None" and "truthy (rq_header rq ''X-API-Key'') = Some secret"
    and "first_row (filter (\<lambda>k. ak_keyHash k = ae_sha256 env secret) (ac_apiKeys d)) = Some key"
    and "ak_status key = ''active''" and "\<not> key_expired (ae_now env) key" and "ak_role key = Some r"
    and "access_wf d" and "requested_org rq = Some org" and "may_act d org (ak_userId key) (\<lambda>m. True)"
  shows "\<exists>cx d'. run_guards env rq [GAuthOrKey, GOrg, GRole [r]] (fresh_vars rid, d) = Pass (cx, d')
    \<and> cx_orgId cx = Some org \<and> cx_role cx = Some r"
proof -
  let ?cx = "(fresh_vars rid)\<lparr>cx_userId := Some (ak_userId key), cx_orgId := Some (ak_orgId key),
    cx_role := Some r, cx_authMethod := Some ''api-key''\<rparr>"
  let ?d = "d\<lparr>ac_apiKeys := sql_update (\<lambda>k. ak_id k = ak_id key)
    (\<lambda>k. k\<lparr>ak_lastUsedAt := Some (ae_now env)\<rparr>) (ac_apiKeys d)\<rparr>"
  from assms(1-6) have key: "requireAuthOrApiKey env d rq (fresh_vars rid) = (Pass ?cx, ?d)"
    by (simp add: requireAuthOrApiKey_def bearer_token_def accept_key_def)
  from assms(7,9) obtain g m where "find_org d org = Some g" "og_status g \<noteq> ''suspended''"
      "org_member d org (ak_userId key) = Some m" "is_uuid org" "is_uuid (ak_userId key)"
    by (auto simp: may_act_def wf_find_org wf_org_member access_wf_def)
  then have "requireOrg ?d rq ?cx = Pass (member_vars ?cx org m)"
    using assms(8) by (auto simp: requireOrg_Pass find_org_def org_member_def)
  then show ?thesis by (simp add: key requireRole_def)
qed

theorem api_key_role_elsewhere_witness:
  "\<exists>rq cx d'. run_guards sample_access_env rq [GAuthOrKey, GOrg, GRole [''admin'']] (fresh_vars ''r'', sample_access) = Pass (cx, d')
    \<and> cx_orgId cx = Some (sample_uuid CHR ''1'')"
proof -
  define rq where "rq = \<lparr>rq_method = ''GET'', rq_path = ''/'', rq_param = (\<lambda>p. None),
      rq_header = [''X-API-Key'' \<mapsto> ''secret'', ''X-Org-Id'' \<mapsto> sample_uuid CHR ''1'']\<rparr>"
  have 1: "rq_header rq ''Authorization'' = None" by (simp add: rq_def)
  have 2: "truthy (rq_header rq ''X-API-Key'') = Some ''secret''" by (simp add: rq_def truthy_def)
  have 3: "first_row (filter (\<lambda>k. ak_keyHash k = ae_sha256 sample_access_env ''secret'') (ac_apiKeys sample_access))
      = Some (hd (ac_apiKeys sample_access))"
    by (simp add: sample_access_def sample_access_env_def)
  have 4: "requested_org rq = Some (sample_uuid CHR ''1'')"
    by (simp add: requested_org_def rq_def truthy_def sample_uuid_def)
  from api_key_role_elsewhere [OF 1 2 3 _ _ _ sample_access_wf 4, of "''admin''" "''r''"]
  have "\<exists>cx d'. run_guards sample_access_env rq [GAuthOrKey, GOrg, GRole [''admin'']] (fresh_vars ''r'', sample_access)
      = Pass (cx, d') \<and> cx_orgId cx = Some (sample_uuid CHR ''1'')"
    by (auto simp: sample_access_def key_expired_def may_act_def sample_org_def)
  then show ?thesis by blast
qed

end
