(* ===== verification/Request_Limits.thy ===== *)
theory Request_Limits
  imports Access
begin

text \<open>
  What stands in front of every route: \<open>api/src/middleware/rate-limit.ts\<close> with both of its stores,
  \<open>api/src/middleware/idempotency.ts\<close>, and their mounting in \<open>api/src/index.ts\<close>. Times are
  milliseconds; the hash is a parameter, and so is the handler behind the middleware.
\<close>

section \<open>The in-memory store\<close>

record rate_entry =
  re_count :: nat
  re_windowStart :: int

text \<open>One map per window and maximum, from keys to entries.\<close>

type_synonym memory_store = "string \<Rightarrow> string \<Rightarrow> rate_entry option"

definition store_name :: "int \<Rightarrow> nat \<Rightarrow> string" where
  "store_name windowMs maxi = ''rl_'' @ show_int windowMs @ ''_'' @ show_nat maxi"

definition put_entry :: "string \<Rightarrow> string \<Rightarrow> rate_entry \<Rightarrow> memory_store \<Rightarrow> memory_store" where
  "put_entry name key e st = st(name := (st name)(key \<mapsto> e))"

definition increment :: "int \<Rightarrow> string \<Rightarrow> int \<Rightarrow> nat \<Rightarrow> memory_store \<Rightarrow> (nat \<times> int) \<times> memory_store" where
  "increment now key windowMs maxi st =
     (let name = store_name windowMs maxi;
          fresh = ((1, windowMs), put_entry name key \<lparr>re_count = 1, re_windowStart = now\<rparr> st) in
      case st name key of
        None \<Rightarrow> fresh
      | Some e \<Rightarrow>
          if now - re_windowStart e > windowMs then fresh
          else ((re_count e + 1, max 0 (windowMs - (now - re_windowStart e))),
                put_entry name key (e\<lparr>re_count := re_count e + 1\<rparr>) st))"

text \<open>The timer of a store drops the entries whose window is over.\<close>

definition sweep_store :: "int \<Rightarrow> int \<Rightarrow> nat \<Rightarrow> memory_store \<Rightarrow> memory_store" where
  "sweep_store now windowMs maxi st =
     (let name = store_name windowMs maxi in
      st(name := (\<lambda>k. case st name k of
        Some e \<Rightarrow> if now - re_windowStart e > windowMs then None else Some e | None \<Rightarrow> None)))"

section \<open>The Redis store\<close>

text \<open>
  The script of the store on a Redis database, whose keys carry a value and the time they expire at: the
  first increment of a key sets its time to live. The fallback store serves when no client could be made.
\<close>

record redis_value =
  rv_value :: nat
  rv_expiresAt :: "int option"

type_synonym redis_db = "string \<Rightarrow> redis_value option"

definition redis_get :: "int \<Rightarrow> string \<Rightarrow> redis_db \<Rightarrow> redis_value option" where
  "redis_get now key r =
     (case r key of
        Some v \<Rightarrow> (case rv_expiresAt v of Some t \<Rightarrow> if t \<le> now then None else Some v | None \<Rightarrow> Some v)
      | None \<Rightarrow> None)"

definition incr_script :: "int \<Rightarrow> string \<Rightarrow> int \<Rightarrow> redis_db \<Rightarrow> (nat \<times> int) \<times> redis_db" where
  "incr_script now key windowMs r =
     (let v = (case redis_get now key r of
                 Some v \<Rightarrow> v\<lparr>rv_value := rv_value v + 1\<rparr>
               | None \<Rightarrow> \<lparr>rv_value = 1, rv_expiresAt = None\<rparr>);
          v' = (if rv_value v = 1 then v\<lparr>rv_expiresAt := Some (now + windowMs)\<rparr> else v)
      in ((rv_value v', case rv_expiresAt v' of Some t \<Rightarrow> t - now | None \<Rightarrow> -1), r(key \<mapsto> v')))"

datatype rate_store = Memory memory_store | Redis bool redis_db memory_store

text \<open>The flag of a Redis store says whether its client connected.\<close>

definition store_increment :: "int \<Rightarrow> string \<Rightarrow> int \<Rightarrow> nat \<Rightarrow> rate_store \<Rightarrow> (nat \<times> int) \<times> rate_store" where
  "store_increment now key windowMs maxi store =
     (case store of
        Memory st \<Rightarrow> (case increment now key windowMs maxi st of (r, st') \<Rightarrow> (r, Memory st'))
      | Redis up r st \<Rightarrow>
          if \<not> up
          then (case increment now key windowMs maxi st of (x, st') \<Rightarrow> (x, Redis up r st'))
          else (case incr_script now key windowMs r of ((c, ttl), r') \<Rightarrow> ((c, max 0 ttl), Redis up r' st)))"

definition new_store :: "string option \<Rightarrow> bool \<Rightarrow> rate_store" where
  "new_store storeType up =
     (if or_default (truthy storeType) ''memory'' = ''redis'' then Redis up Map.empty (\<lambda>n. Map.empty)
      else Memory (\<lambda>n. Map.empty))"

section \<open>Keys\<close>

definition trim_char :: "char \<Rightarrow> bool" where
  "trim_char c \<longleftrightarrow> c \<in> {CHR '' '', CHR 0x09, CHR 0x0A, CHR 0x0B, CHR 0x0C, CHR 0x0D, CHR 0xA0}"

definition js_trim :: "string \<Rightarrow> string" where
  "js_trim s = rev (dropWhile trim_char (rev (dropWhile trim_char s)))"

definition client_ip :: "request \<Rightarrow> string" where
  "client_ip rq =
     (let forwarded = (case truthy (rq_header rq ''x-forwarded-for'') of
            Some f \<Rightarrow> truthy (Some (js_trim (hd (split_on (CHR '','') f)))) | None \<Rightarrow> None)
      in case forwarded of
           Some ip \<Rightarrow> ip
         | None \<Rightarrow> or_default (truthy (rq_header rq ''x-real-ip'')) ''unknown'')"

definition defaultKeyFn :: "(string \<Rightarrow> string) \<Rightarrow> request \<Rightarrow> request_vars \<Rightarrow> string" where
  "defaultKeyFn sha rq cx =
     (case truthy (rq_header rq ''X-API-Key'') of
        Some k \<Rightarrow> ''apikey:'' @ sha k
      | None \<Rightarrow>
          (case truthy (cx_orgId cx) of
             Some i \<Rightarrow> ''org:'' @ i
           | None \<Rightarrow> (case truthy (cx_userId cx) of Some u \<Rightarrow> ''user:'' @ u | None \<Rightarrow> client_ip rq)))"

section \<open>The middleware\<close>

definition ceil_div :: "int \<Rightarrow> int \<Rightarrow> int" where
  "ceil_div a b = - ((- a) div b)"

record limit_headers =
  lh_limit :: nat
  lh_remaining :: nat
  lh_reset :: int

definition too_many :: "int \<Rightarrow> http_response" where
  "too_many ttl =
     (errorResponse None 429 ''RATE_LIMITED''
        ''Too many requests. Please slow down and retry after the specified time.'' None None (Some FTransient) None)
       \<lparr>hr_retry_after := Some (show_int (ceil_div ttl 1000))\<rparr>"

text \<open>The headers are put on the response once the handlers behind have answered.\<close>

definition rateLimit :: "int \<Rightarrow> int \<Rightarrow> nat \<Rightarrow> string \<Rightarrow> rate_store \<Rightarrow> limit_headers outcome \<times> rate_store" where
  "rateLimit now windowMs maxi key store =
     (case store_increment now key windowMs maxi store of
        ((hits, ttl), store') \<Rightarrow>
          (if hits > maxi then Respond (too_many ttl)
           else Pass \<lparr>lh_limit = maxi, lh_remaining = maxi - hits, lh_reset = ceil_div (now + ttl) 1000\<rparr>,
           store'))"

text \<open>The two limiters mounted for all routes; both patterns match a path below \<open>/api/v1\<close>.\<close>

definition under :: "string \<Rightarrow> string \<Rightarrow> bool" where
  "under prefix path \<longleftrightarrow> path = prefix \<or> starts_with (prefix @ ''/'') path"

definition mounted_limits :: "string \<Rightarrow> (int \<times> nat) list" where
  "mounted_limits path =
     (if under ''/api'' path then [(60 * 1000, 1000)] else []) @ (if under ''/api/v1'' path then [(60 * 1000, 1000)] else [])"

primrec run_limits :: "int \<Rightarrow> string \<Rightarrow> (int \<times> nat) list \<Rightarrow> rate_store \<Rightarrow> bool \<times> rate_store" where
  "run_limits now key [] store = (True, store)"
| "run_limits now key (l # ls) store =
     (case rateLimit now (fst l) (snd l) key store of
        (Pass _, store') \<Rightarrow> run_limits now key ls store'
      | (_, store') \<Rightarrow> (False, store'))"

text \<open>The limiters of the authentication routes, behind the mounted ones.\<close>

definition register_limit :: "int \<times> nat" where
  "register_limit = (15 * 60 * 1000, 5)"

definition login_limit :: "int \<times> nat" where
  "login_limit = (15 * 60 * 1000, 10)"

text \<open>Requests at the given times, each with its key; the answers say which are admitted.\<close>

fun admissions :: "(int \<times> nat) list \<Rightarrow> (int \<times> string) list \<Rightarrow> rate_store \<Rightarrow> bool list" where
  "admissions ls [] store = []"
| "admissions ls ((t, key) # ts) store =
     (case run_limits t key ls store of (ok, store') \<Rightarrow> ok # admissions ls ts store')"

section \<open>Idempotency\<close>

record cache_row =
  ic_key :: string
  ic_status :: int
  ic_body :: json
  ic_createdAt :: int

text \<open>What a handler leaves: a JSON answer, or one the middleware does not see.\<close>

datatype handler_answer = JsonAnswer int json | OtherAnswer

definition TTL_MS :: int where
  "TTL_MS = 24 * 60 * 60 * 1000"

definition compositeKey :: "(string \<Rightarrow> string) \<Rightarrow> request \<Rightarrow> request_vars \<Rightarrow> string \<Rightarrow> string" where
  "compositeKey sha rq cx rawKey =
     (let actor = or_default (truthy (cx_userId cx)) ''anonymous''; org = or_default (truthy (cx_orgId cx)) ''''
      in sha (actor @ '':'' @ org) @ '':'' @ rq_method rq @ '':'' @ rq_path rq @ '':'' @ rawKey)"

definition cached :: "int \<Rightarrow> string \<Rightarrow> cache_row list \<Rightarrow> cache_row option" where
  "cached now key rows = first_row (filter (\<lambda>r. ic_key r = key \<and> ic_createdAt r > now - TTL_MS) rows)"

text \<open>The key is the primary key of the table; a failed insert is ignored.\<close>

definition store_answer :: "int \<Rightarrow> string \<Rightarrow> handler_answer \<Rightarrow> cache_row list \<Rightarrow> cache_row list" where
  "store_answer now key a rows =
     (case a of
        JsonAnswer st body \<Rightarrow>
          if 200 \<le> st \<and> st < 300 \<and> (\<forall>r \<in> set rows. ic_key r \<noteq> key)
          then rows @ [\<lparr>ic_key = key, ic_status = st, ic_body = body, ic_createdAt = now\<rparr>]
          else rows
      | OtherAnswer \<Rightarrow> rows)"

definition idempotencyMiddleware ::
    "(string \<Rightarrow> string) \<Rightarrow> int \<Rightarrow> request \<Rightarrow> request_vars \<Rightarrow> ('s \<Rightarrow> handler_answer \<times> 's)
     \<Rightarrow> cache_row list \<times> 's \<Rightarrow> handler_answer \<times> cache_row list \<times> 's" where
  "idempotencyMiddleware sha now rq cx handler st =
     (if rq_method rq \<in> {''GET'', ''HEAD'', ''OPTIONS''}
      then (case handler (snd st) of (a, s) \<Rightarrow> (a, fst st, s))
      else
        (case truthy (rq_header rq ''Idempotency-Key'') of
           None \<Rightarrow> (case handler (snd st) of (a, s) \<Rightarrow> (a, fst st, s))
         | Some rawKey \<Rightarrow>
             (let key = compositeKey sha rq cx rawKey in
              case cached now key (fst st) of
                Some r \<Rightarrow> (JsonAnswer (ic_status r) (ic_body r), st)
              | None \<Rightarrow> (case handler (snd st) of (a, s) \<Rightarrow> (a, store_answer now key a (fst st), s)))))"

text \<open>The hourly clean-up.\<close>

definition clean_cache :: "int \<Rightarrow> cache_row list \<Rightarrow> cache_row list" where
  "clean_cache now rows = filter (\<lambda>r. \<not> ic_createdAt r < now - TTL_MS) rows"

section \<open>Fixed windows\<close>

text \<open>
  The contract of a store for one key: \<open>entry\<close> is the count and the start of the window that is open at a
  time, as far as the store still knows it. A hit counts on or opens a window, which stays known for its
  length.
\<close>

locale fixed_window =
  fixes hit :: "int \<Rightarrow> 's \<Rightarrow> nat \<times> 's"
    and entry :: "int \<Rightarrow> 's \<Rightarrow> (nat \<times> int) option"
    and inv :: "'s \<Rightarrow> bool"
    and W :: int
  assumes keeps_inv: "inv s \<Longrightarrow> inv (snd (hit now s))"
    and counts: "inv s \<Longrightarrow> fst (hit now s) = (case entry now s of Some (c, t) \<Rightarrow> c + 1 | None \<Rightarrow> 1)"
    and stays: "inv s \<Longrightarrow> now \<le> now' \<Longrightarrow>
      ne = (case entry now s of Some (c, t) \<Rightarrow> (c + 1, t) | None \<Rightarrow> (1, now)) \<Longrightarrow>
      (entry now' (snd (hit now s)) = None \<or> entry now' (snd (hit now s)) = Some ne)
      \<and> (now' < snd ne + W \<longrightarrow> entry now' (snd (hit now s)) = Some ne)"

text \<open>One request through a limiter with maximum \<open>M\<close>, and through two of them in a row.\<close>

definition once :: "(int \<Rightarrow> 's \<Rightarrow> nat \<times> 's) \<Rightarrow> nat \<Rightarrow> int \<Rightarrow> 's \<Rightarrow> bool \<times> 's" where
  "once hit M now s = (case hit now s of (c, s') \<Rightarrow> (c \<le> M, s'))"

definition twice :: "(int \<Rightarrow> 's \<Rightarrow> nat \<times> 's) \<Rightarrow> nat \<Rightarrow> int \<Rightarrow> 's \<Rightarrow> bool \<times> 's" where
  "twice hit M now s =
     (case once hit M now s of (ok, s') \<Rightarrow> if ok then once hit M now s' else (False, s'))"

primrec admitted :: "(int \<Rightarrow> 's \<Rightarrow> bool \<times> 's) \<Rightarrow> int list \<Rightarrow> 's \<Rightarrow> nat" where
  "admitted f [] s = 0"
| "admitted f (t # ts) s = (case f t s of (ok, s') \<Rightarrow> (if ok then 1 else 0) + admitted f ts s')"

lemma admitted_once_Cons:
  "admitted (once hit M) (t # ts) s =
     (if fst (hit t s) \<le> M then 1 else 0) + admitted (once hit M) ts (snd (hit t s))"
  by (cases "hit t s") (simp, simp add: once_def)

lemma admitted_twice_Cons:
  "admitted (twice hit M) (t # ts) s =
     (if fst (hit t s) \<le> M
      then (if fst (hit t (snd (hit t s))) \<le> M then 1 else 0) + admitted (twice hit M) ts (snd (hit t (snd (hit t s))))
      else admitted (twice hit M) ts (snd (hit t s)))"
  by (cases "hit t s"; cases "hit t (snd (hit t s))") (simp, simp add: twice_def once_def)

lemma min_step: "Suc c \<le> M \<Longrightarrow> Suc (min (M - Suc c) n) = min (M - c) (Suc n)"
  by auto

lemma half_step:
  assumes "Suc (Suc c) \<le> M"
  shows "Suc (min ((M - Suc (Suc c)) div 2) n) = min ((M - c) div 2) (Suc n)"
proof -
  from assms have "M - c = 2 + (M - Suc (Suc c))" by simp
  then have "(M - c) div 2 = Suc ((M - Suc (Suc c)) div 2)" by simp
  then show ?thesis by simp
qed

context fixed_window
begin

text \<open>From \<open>now\<close> on the store knows the window, at least for its length.\<close>

definition tracked_client :: "int \<Rightarrow> 's \<Rightarrow> nat \<times> int \<Rightarrow> bool" where
  "tracked_client now s e \<longleftrightarrow> inv s \<and> (\<forall>x \<ge> now. (entry x s = None \<or> entry x s = Some e) \<and> (x < snd e + W \<longrightarrow> entry x s = Some e))"

lemma known_later: "tracked_client now s e \<Longrightarrow> now \<le> x \<Longrightarrow> tracked_client x s e"
  by (simp add: tracked_client_def)

lemma hit_known: "tracked_client now s (c, t) \<Longrightarrow> now \<le> x \<Longrightarrow> x < t + W \<Longrightarrow> fst (hit x s) = c + 1 \<and> tracked_client x (snd (hit x s)) (c + 1, t)"
  using counts [of s x] keeps_inv [of s x] stays [of s x] by (simp add: tracked_client_def)

lemma hit_opens: "inv s \<Longrightarrow> entry x s = None \<Longrightarrow> fst (hit x s) = 1 \<and> tracked_client x (snd (hit x s)) (1, x)"
  using counts [of s x] keeps_inv [of s x] stays [of s x] by (simp add: tracked_client_def)

lemma admitted_once:
  "tracked_client now s (c, t) \<Longrightarrow> sorted ts \<Longrightarrow> \<forall>x \<in> set ts. now \<le> x \<and> x < t + W
   \<Longrightarrow> admitted (once hit M) ts s = min (M - c) (length ts)"
proof (induction ts arbitrary: now s c)
  case (Cons x xs)
  from hit_known [OF Cons.prems(1), of x] Cons.prems(3)
  have h: "fst (hit x s) = c + 1" "tracked_client x (snd (hit x s)) (c + 1, t)" by auto
  from Cons.IH [OF h(2)] Cons.prems
  have "admitted (once hit M) xs (snd (hit x s)) = min (M - (c + 1)) (length xs)" by auto
  with h(1) show ?case by (auto simp: admitted_once_Cons min_step min_def simp del: admitted.simps(2))
qed simp

lemma admitted_twice:
  "tracked_client now s (c, t) \<Longrightarrow> sorted ts \<Longrightarrow> \<forall>x \<in> set ts. now \<le> x \<and> x < t + W
   \<Longrightarrow> admitted (twice hit M) ts s = min ((M - c) div 2) (length ts)"
proof (induction ts arbitrary: now s c)
  case (Cons x xs)
  have x: "now \<le> x" "x < t + W" using Cons.prems(3) by auto
  from hit_known [OF Cons.prems(1) x] have h: "fst (hit x s) = c + 1" "tracked_client x (snd (hit x s)) (c + 1, t)" by auto
  from hit_known [OF h(2) order_refl x(2)]
  have h2: "fst (hit x (snd (hit x s))) = c + 2" "tracked_client x (snd (hit x (snd (hit x s)))) (c + 2, t)" by auto
  have rest: "sorted xs" "\<forall>y \<in> set xs. x \<le> y \<and> y < t + W" using Cons.prems by auto
  show ?case
  proof (cases "c + 1 \<le> M")
    case True
    with h(1) h2(1) Cons.IH [OF h2(2) rest] show ?thesis by (auto simp: admitted_twice_Cons half_step half_step [of 0, simplified] simp del: admitted.simps(2))
  next
    case False
    with h(1) Cons.IH [OF h(2) rest] show ?thesis by (auto simp: admitted_twice_Cons half_step half_step [of 0, simplified] simp del: admitted.simps(2))
  qed
qed simp

text \<open>Within the length of a window at most two windows are open, so at most twice the maximum passes.\<close>

lemma admitted_known:
  "tracked_client now s (c, t) \<Longrightarrow> sorted ts \<Longrightarrow> \<forall>x \<in> set ts. now \<le> x \<and> a \<le> x \<and> x < a + W
   \<Longrightarrow> admitted (once hit M) ts s \<le> (M - c) + M"
proof (induction ts arbitrary: now s c)
  case (Cons x xs)
  have inv: "inv s" using Cons.prems(1) by (simp add: tracked_client_def)
  have rest: "sorted xs" "\<forall>y \<in> set xs. x \<le> y \<and> a \<le> y \<and> y < a + W" and x: "now \<le> x" "a \<le> x"
    using Cons.prems by auto
  show ?case
  proof (cases "entry x s")
    case None
    from hit_opens [OF inv None] have h: "fst (hit x s) = 1" "tracked_client x (snd (hit x s)) (1, x)" by auto
    have "\<forall>y \<in> set xs. x \<le> y \<and> y < x + W" using rest(2) x(2) by fastforce
    from admitted_once [OF h(2) rest(1) this, of M] h(1) show ?thesis by (auto simp: admitted_once_Cons min_step min_def simp del: admitted.simps(2))
  next
    case (Some e)
    with Cons.prems(1) x have e: "entry x s = Some (c, t)" by (auto simp: tracked_client_def)
    with counts [OF inv, of x] keeps_inv [OF inv, of x] stays [OF inv, of x]
    have h: "fst (hit x s) = c + 1" "tracked_client x (snd (hit x s)) (c + 1, t)" by (simp_all add: tracked_client_def)
    from Cons.IH [OF h(2) rest] h(1) show ?thesis by (auto simp: admitted_once_Cons min_step min_def simp del: admitted.simps(2))
  qed
qed simp

lemma admitted_bound:
  assumes "inv s" and "sorted ts" and "\<forall>x \<in> set ts. a \<le> x \<and> x < a + W"
  shows "admitted (once hit M) ts s \<le> 2 * M"
proof (cases ts)
  case (Cons x xs)
  obtain c t where ct: "(case entry x s of Some (c, t) \<Rightarrow> (c + 1, t) | None \<Rightarrow> (1, x)) = (c + 1, t)"
    by (cases "entry x s") auto
  with counts [OF assms(1), of x] keeps_inv [OF assms(1), of x] stays [OF assms(1), of x]
  have h: "fst (hit x s) = c + 1" "tracked_client x (snd (hit x s)) (c + 1, t)"
    by (auto simp: tracked_client_def split: option.splits prod.splits)
  from admitted_known [OF h(2), of xs a M] assms Cons h(1) show ?thesis by (auto simp: admitted_once_Cons min_step min_def simp del: admitted.simps(2))
qed simp

lemma fresh_twice:
  assumes "inv s" and "entry x s = None" and "sorted (x # xs)" and "\<forall>y \<in> set xs. y < x + W" and "0 < W"
  shows "admitted (twice hit M) (x # xs) s = min (M div 2) (Suc (length xs))"
proof -
  from hit_opens [OF assms(1,2)] have h: "fst (hit x s) = 1" "tracked_client x (snd (hit x s)) (1, x)" by auto
  from hit_known [OF h(2) order_refl] assms(5)
  have h2: "fst (hit x (snd (hit x s))) = Suc (Suc 0)" "tracked_client x (snd (hit x (snd (hit x s)))) (Suc (Suc 0), x)"
    by auto
  have rest: "sorted xs" "\<forall>y \<in> set xs. x \<le> y \<and> y < x + W" using assms(3,4) by auto
  show ?thesis
  proof (cases "1 \<le> M")
    case True
    with h(1) h2(1) admitted_twice [OF h2(2) rest, of M] show ?thesis by (auto simp: admitted_twice_Cons half_step half_step [of 0, simplified] simp del: admitted.simps(2))
  next
    case False
    with h(1) admitted_twice [OF h(2) rest, of M] show ?thesis by (auto simp: admitted_twice_Cons half_step half_step [of 0, simplified] simp del: admitted.simps(2))
  qed
qed

end

section \<open>Both stores keep fixed windows\<close>

definition rs_hit :: "string \<Rightarrow> int \<Rightarrow> nat \<Rightarrow> int \<Rightarrow> rate_store \<Rightarrow> nat \<times> rate_store" where
  "rs_hit key w M now store = (case store_increment now key w M store of ((c, _), store') \<Rightarrow> (c, store'))"

definition memory_window :: "string \<Rightarrow> int \<Rightarrow> nat \<Rightarrow> int \<Rightarrow> memory_store \<Rightarrow> (nat \<times> int) option" where
  "memory_window key w M now st =
     (case st (store_name w M) key of
        Some e \<Rightarrow> if now - re_windowStart e > w then None else Some (re_count e, re_windowStart e)
      | None \<Rightarrow> None)"

definition open_window :: "string \<Rightarrow> int \<Rightarrow> nat \<Rightarrow> int \<Rightarrow> rate_store \<Rightarrow> (nat \<times> int) option" where
  "open_window key w M now store =
     (case store of
        Memory st \<Rightarrow> memory_window key w M now st
      | Redis up r st \<Rightarrow>
          if \<not> up then memory_window key w M now st
          else map_option (\<lambda>v. (rv_value v, or_default (rv_expiresAt v) 0 - w)) (redis_get now key r))"

text \<open>A key the script has written counts from one and expires.\<close>

definition store_ok :: "string \<Rightarrow> rate_store \<Rightarrow> bool" where
  "store_ok key store =
     (case store of
        Memory st \<Rightarrow> True
      | Redis up r st \<Rightarrow> (case r key of Some v \<Rightarrow> 0 < rv_value v \<and> rv_expiresAt v \<noteq> None | None \<Rightarrow> True))"

lemma memory_step:
  assumes "ne = (case memory_window key w M now st of Some (c, t) \<Rightarrow> (c + 1, t) | None \<Rightarrow> (1, now))"
  shows "fst (fst (increment now key w M st)) = fst ne
    \<and> (now \<le> now' \<longrightarrow> memory_window key w M now' (snd (increment now key w M st))
        = (if now' - snd ne > w then None else Some ne))"
  using assms by (auto simp: memory_window_def increment_def Let_def put_entry_def split: option.splits if_splits)

lemma redis_step:
  assumes "store_ok key (Redis True r st)"
    and "ne = (case open_window key w M now (Redis True r st) of Some (c, t) \<Rightarrow> (c + 1, t) | None \<Rightarrow> (1, now))"
  shows "fst (fst (incr_script now key w r)) = fst ne \<and> store_ok key (Redis True (snd (incr_script now key w r)) st)
    \<and> (now \<le> now' \<longrightarrow> open_window key w M now' (Redis True (snd (incr_script now key w r)) st)
        = (if now' < snd ne + w then Some ne else None))"
  using assms
  by (auto simp: open_window_def store_ok_def incr_script_def Let_def redis_get_def split: option.splits if_splits)

lemma store_step:
  assumes ok: "store_ok key store"
    and ne: "ne = (case open_window key w M now store of Some (c, t) \<Rightarrow> (c + 1, t) | None \<Rightarrow> (1, now))"
  shows "fst (rs_hit key w M now store) = fst ne \<and> store_ok key (snd (rs_hit key w M now store))
    \<and> (now \<le> now' \<longrightarrow>
        (open_window key w M now' (snd (rs_hit key w M now store)) = None
          \<or> open_window key w M now' (snd (rs_hit key w M now store)) = Some ne)
        \<and> (now' < snd ne + w \<longrightarrow> open_window key w M now' (snd (rs_hit key w M now store)) = Some ne))"
proof (cases store)
  case (Memory st)
  with ne have "ne = (case memory_window key w M now st of Some (c, t) \<Rightarrow> (c + 1, t) | None \<Rightarrow> (1, now))"
    by (simp add: open_window_def)
  from memory_step [OF this, where now' = now'] Memory show ?thesis
    by (cases "increment now key w M st")
      (auto simp: rs_hit_def store_increment_def open_window_def store_ok_def split: prod.splits)
next
  case (Redis up r st)
  show ?thesis
  proof (cases up)
    case True
    from redis_step [where key = key and r = r and st = st and ne = ne and w = w and M = M and now = now and now' = now'] ok ne Redis True show ?thesis
      by (cases "incr_script now key w r")
        (auto simp: rs_hit_def store_increment_def split: prod.splits)
  next
    case False
    with ne Redis have "ne = (case memory_window key w M now st of Some (c, t) \<Rightarrow> (c + 1, t) | None \<Rightarrow> (1, now))"
      by (simp add: open_window_def)
    from memory_step [OF this, where now' = now'] ok Redis False show ?thesis
      by (cases "increment now key w M st")
        (auto simp: rs_hit_def store_increment_def open_window_def store_ok_def split: prod.splits)
  qed
qed

interpretation limiter: fixed_window "rs_hit key w M" "open_window key w M" "store_ok key" w for key w M
proof
  fix store now assume "store_ok key store"
  from store_step [OF this refl, where now = now and w = w and M = M]
  show "store_ok key (snd (rs_hit key w M now store))"
    and "fst (rs_hit key w M now store) = (case open_window key w M now store of Some (c, t) \<Rightarrow> c + 1 | None \<Rightarrow> 1)"
    by (auto split: option.splits)
next
  fix store now now' ne
  assume "store_ok key store" "now \<le> now'"
    "ne = (case open_window key w M now store of Some (c, t) \<Rightarrow> (c + 1, t) | None \<Rightarrow> (1, now))"
  with store_step [where key = key and store = store and ne = ne and w = w and M = M and now = now and now' = now']
  show "(open_window key w M now' (snd (rs_hit key w M now store)) = None
      \<or> open_window key w M now' (snd (rs_hit key w M now store)) = Some ne)
    \<and> (now' < snd ne + w \<longrightarrow> open_window key w M now' (snd (rs_hit key w M now store)) = Some ne)"
    by blast
qed

text \<open>The middleware in terms of the contract.\<close>

lemma one_limit: "run_limits now key [(w, M)] store = once (rs_hit key w M) M now store"
  by (auto simp: rateLimit_def rs_hit_def once_def split: prod.splits)

lemma two_limits: "run_limits now key [(w, M), (w, M)] store = twice (rs_hit key w M) M now store"
  by (auto simp: rateLimit_def rs_hit_def once_def twice_def split: prod.splits)

lemma admissions_admitted:
  assumes "\<And>now store. run_limits now key ls store = f now store"
  shows "length (filter id (admissions ls (map (\<lambda>t. (t, key)) ts) store)) = admitted f ts store"
  by (induction ts arbitrary: store) (auto simp: assms split: prod.splits)

lemma new_store_ok: "store_ok key (new_store ty up)"
  by (simp add: new_store_def store_ok_def)

lemma new_store_closed: "open_window key w M now (new_store ty up) = None"
  by (simp add: new_store_def open_window_def memory_window_def redis_get_def)

text \<open>A key no request has used is not in the store, and requests with other keys leave it out.\<close>

definition key_free :: "string \<Rightarrow> rate_store \<Rightarrow> bool" where
  "key_free key store =
     (case store of
        Memory st \<Rightarrow> \<forall>n. st n key = None
      | Redis up r st \<Rightarrow> r key = None \<and> (\<forall>n. st n key = None))"

lemma new_store_free: "key_free key (new_store ty up)"
  by (simp add: key_free_def new_store_def)

lemma free_closed: "key_free key store \<Longrightarrow> store_ok key store \<and> open_window key w M now store = None"
  by (cases store) (auto simp: key_free_def store_ok_def open_window_def memory_window_def redis_get_def)

lemma other_key_free: "key_free k store \<Longrightarrow> k \<noteq> key \<Longrightarrow> key_free k (snd (rs_hit key w M now store))"
  by (cases store)
    (auto simp: key_free_def rs_hit_def store_increment_def increment_def incr_script_def Let_def put_entry_def
      split: prod.splits option.splits if_splits)

lemma distinct_keys_admitted:
  assumes "0 < M" and "distinct (map snd ks)" and "\<forall>k \<in> set (map snd ks). key_free k store"
  shows "admissions [(w, M)] ks store = replicate (length ks) True"
  using assms(2,3)
proof (induction ks arbitrary: store)
  case (Cons x xs)
  obtain t k where x: "x = (t, k)" by (rule prod.exhaust)
  from Cons.prems x have free: "key_free k store" and new: "k \<notin> set (map snd xs)" by auto
  from limiter.hit_opens [of k store w M t] free_closed [OF free]
  have "fst (rs_hit k w M t store) = 1" by auto
  then have run: "run_limits t k [(w, M)] store = (True, snd (rs_hit k w M t store))"
    using \<open>0 < M\<close> by (cases "rs_hit k w M t store") (simp add: one_limit once_def del: run_limits.simps)
  have "\<forall>j \<in> set (map snd xs). key_free j (snd (rs_hit k w M t store))"
    using Cons.prems(2) x new other_key_free [of _ store k w M t] by auto
  from Cons.IH [OF _ this] Cons.prems(1) show ?case
    unfolding x admissions.simps run by simp
qed simp

section \<open>Several limiters on one store\<close>

text \<open>
  Requests at their times, each counted by a limiter (its window and maximum) under a key: how many the limiter
  \<open>(w, M)\<close> admits of those with \<open>key\<close>.
\<close>

fun own_admitted :: "int \<Rightarrow> nat \<Rightarrow> string \<Rightarrow> (int \<times> int \<times> nat \<times> string) list \<Rightarrow> rate_store \<Rightarrow> nat" where
  "own_admitted w M key [] store = 0"
| "own_admitted w M key ((t, w', M', k) # xs) store =
     (case rateLimit t w' M' k store of
        (out, store') \<Rightarrow>
          (if (w', M', k) = (w, M, key) \<and> (case out of Pass _ \<Rightarrow> True | _ \<Rightarrow> False) then 1 else 0)
          + own_admitted w M key xs store')"

definition on_redis :: "rate_store \<Rightarrow> bool" where
  "on_redis store = (case store of Memory _ \<Rightarrow> False | Redis up _ _ \<Rightarrow> up)"

text \<open>What the store keeps for a limiter and a key.\<close>

definition kept_for :: "string \<Rightarrow> int \<Rightarrow> nat \<Rightarrow> rate_store \<Rightarrow> bool \<times> rate_entry option \<times> redis_value option" where
  "kept_for key w M store =
     (case store of
        Memory st \<Rightarrow> (False, st (store_name w M) key, None)
      | Redis up r st \<Rightarrow> if up then (True, None, r key) else (False, st (store_name w M) key, None))"

lemma show_int_plain: "CHR ''_'' \<notin> set (show_int i)"
proof -
  have "CHR ''_'' \<notin> set (show_nat n)" for n
    using show_nat_digits [of n] by (auto simp: list_all_iff is_digit_def less_eq_char_def)
  then show ?thesis by (simp add: show_int_def)
qed

lemma store_name_inj: "store_name w M = store_name w' M' \<longleftrightarrow> w = w' \<and> M = M'"
proof
  assume eq: "store_name w M = store_name w' M'"
  have "split_on CHR ''_'' (show_int v @ CHR ''_'' # show_nat n) = [show_int v, show_nat n]" for v n
    using show_int_plain [of v] show_int_plain [of "int n"]
    by (simp add: split_on_append split_on_free show_int_def)
  with eq have "show_int w = show_int w'" "show_nat M = show_nat M'"
    by (simp_all add: store_name_def) (metis list.inject)+
  then have "parse_int (show_int w) = parse_int (show_int w')" "digits_val (show_nat M) = digits_val (show_nat M')" by simp_all
  then show "w = w' \<and> M = M'" using show_nat_digits by (simp add: parse_int_show)
qed simp

lemma kept_hit:
  assumes "kept_for key w M s = kept_for key w M s'"
  shows "fst (rs_hit key w M t s) = fst (rs_hit key w M t s')"
    and "kept_for key w M (snd (rs_hit key w M t s)) = kept_for key w M (snd (rs_hit key w M t s'))"
  using assms
  by (cases s; cases s'; auto simp: kept_for_def rs_hit_def store_increment_def increment_def incr_script_def redis_get_def
      put_entry_def Let_def split: if_splits option.splits prod.splits)+

lemma kept_other:
  assumes "(w', M', k) \<noteq> (w, M, key)" and "on_redis s \<Longrightarrow> k \<noteq> key"
  shows "kept_for key w M (snd (rs_hit k w' M' t s)) = kept_for key w M s"
  using assms store_name_inj [of w M w' M']
  by (cases s) (auto simp: kept_for_def on_redis_def rs_hit_def store_increment_def increment_def incr_script_def redis_get_def
      put_entry_def Let_def split: if_splits option.splits prod.splits)

lemma on_redis_kept: "on_redis s = fst (kept_for key w M s)"
  by (cases s) (auto simp: on_redis_def kept_for_def)

lemma rateLimit_hit:
  "snd (rateLimit t w M key s) = snd (rs_hit key w M t s)"
  "(case fst (rateLimit t w M key s) of Pass _ \<Rightarrow> True | _ \<Rightarrow> False) \<longleftrightarrow> fst (rs_hit key w M t s) \<le> M"
  by (auto simp: rateLimit_def rs_hit_def split: prod.splits)

lemma own_admitted_eq:
  assumes "kept_for key w M s = kept_for key w M s'"
    and "\<not> on_redis s \<or> (\<forall>(t, w', M', k) \<in> set xs. k = key \<longrightarrow> (w', M') = (w, M))"
  shows "own_admitted w M key xs s = admitted (once (rs_hit key w M) M) (map fst (filter (\<lambda>x. snd x = (w, M, key)) xs)) s'"
  using assms
proof (induction xs arbitrary: s s')
  case (Cons x xs)
  obtain t w' M' k where x: "x = (t, w', M', k)" by (metis prod.exhaust)
  let ?s = "snd (rs_hit k w' M' t s)"
  have step: "own_admitted w M key (x # xs) s =
      (if (w', M', k) = (w, M, key) \<and> fst (rs_hit k w' M' t s) \<le> M' then 1 else 0) + own_admitted w M key xs ?s"
    using rateLimit_hit [of t w' M' k s] unfolding x by (cases "rateLimit t w' M' k s") simp
  show ?case
  proof (cases "(w', M', k) = (w, M, key)")
    case True
    from kept_hit [OF Cons.prems(1), where t = t] True
    have k: "fst (rs_hit key w M t s) = fst (rs_hit key w M t s')"
      "kept_for key w M ?s = kept_for key w M (snd (rs_hit key w M t s'))" by simp_all
    have "on_redis ?s = on_redis s"
      using True by (simp add: rs_hit_def store_increment_def on_redis_def split: rate_store.split prod.split)
    with Cons.IH [OF k(2)] Cons.prems(2) step k(1) True show ?thesis
      by (simp add: x admitted_once_Cons del: admitted.simps(2))
  next
    case False
    have "on_redis s \<Longrightarrow> k \<noteq> key" using Cons.prems(2) False by (auto simp: x)
    from kept_other [OF False this, where t = t] have kept: "kept_for key w M ?s = kept_for key w M s" .
    then have "on_redis ?s = on_redis s" by (simp add: on_redis_kept [of _ key w M])
    with Cons.IH [of ?s s'] Cons.prems step False kept show ?thesis by (auto simp: x)
  qed
qed simp

section \<open>Properties\<close>

text \<open>
  C29: a limiter admits of the requests with one key at most twice its maximum within any stretch of time of the length of its
  window, whatever other limiters count on the same store in between: in memory each window and maximum has a map of its own.
  On Redis it takes that no other limiter counts the same key, since the keys there carry no name of their limiter.
\<close>

theorem limiter_window_bound:
  assumes "store_ok key store" and "sorted (map fst xs)" and "\<forall>x \<in> set xs. a \<le> fst x \<and> fst x < a + w"
    and "\<not> on_redis store \<or> (\<forall>(t, w', M', k) \<in> set xs. k = key \<longrightarrow> (w', M') = (w, M))"
  shows "own_admitted w M key xs store \<le> 2 * M"
proof -
  have "own_admitted w M key xs store
      = admitted (once (rs_hit key w M) M) (map fst (filter (\<lambda>x. snd x = (w, M, key)) xs)) store"
    by (rule own_admitted_eq [OF refl]) (use assms(4) in auto)
  also have "\<dots> \<le> 2 * M"
    by (rule limiter.admitted_bound [OF assms(1)]) (use assms(2,3) in \<open>auto intro: sorted_filter\<close>)
  finally show ?thesis .
qed

theorem limiter_window_bound_witness:
  "own_admitted 1000 1 ''k'' [(0, 1000, 1, ''k''), (1, 1000, 7, ''k''), (999, 1000, 1, ''k'')] (new_store None False) \<le> 2"
  using limiter_window_bound [OF new_store_ok [of "''k''" None False], where xs = "[(0, 1000, 1, ''k''), (1, 1000, 7, ''k''), (999, 1000, 1, ''k'')]"
      and a = 0 and w = 1000 and M = 1]
  by (simp add: new_store_def on_redis_def truthy_def)

text \<open>
  Both mounted limiters count a request to \<open>/api/v1\<close> in one store, so of any number of requests in
  the first minute only 500 are admitted where the limit is 1000.
\<close>

theorem v1_half_rate:
  assumes "under ''/api/v1'' path" and "sorted (t # ts)" and "\<forall>x \<in> set ts. x < t + 60000"
  shows "length (filter id (admissions (mounted_limits path) (map (\<lambda>x. (x, key)) (t # ts)) (new_store ty up)))
    = min 500 (length (t # ts))"
proof -
  have "under ''/api'' path" using assms(1) by (cases path) (auto simp: under_def starts_with_iff)
  with assms(1) have l: "mounted_limits path = [(60000, 1000), (60000, 1000)]" by (simp add: mounted_limits_def)
  show ?thesis
    unfolding l admissions_admitted [of key _ "twice (rs_hit key 60000 1000) 1000", OF two_limits]
    using limiter.fresh_twice [OF new_store_ok new_store_closed assms(2)] assms(3) by simp
qed

theorem v1_half_rate_witness:
  "length (filter id (admissions (mounted_limits ''/api/v1/blobs'') (map (\<lambda>x. (x, ''k'')) (0 # replicate 999 1))
     (new_store None False))) = 500"
  using v1_half_rate [of "''/api/v1/blobs''" 0 "replicate 999 1" "''k''" None False]
  by (simp add: under_def)

text \<open>
  The limiter of the login is keyed by a header it does not check: attempts that each send another
  \<open>X-API-Key\<close> are all admitted, however many there are.
\<close>

theorem login_limit_evaded:
  assumes "inj sha" and "distinct (map snd attempts)" and "\<forall>k \<in> set (map snd attempts). k \<noteq> []"
  shows "admissions [login_limit]
      (map (\<lambda>(t, k). (t, defaultKeyFn sha (rq\<lparr>rq_header := (rq_header rq)(''X-API-Key'' \<mapsto> k)\<rparr>) (fresh_vars rid))) attempts)
      (new_store ty up) = replicate (length attempts) True"
proof -
  define req where "req k = rq\<lparr>rq_header := (rq_header rq)(''X-API-Key'' \<mapsto> k)\<rparr>" for k
  define asked where "asked = map (\<lambda>(t, k). (t, defaultKeyFn sha (req k) (fresh_vars rid))) attempts"
  have key: "defaultKeyFn sha (req k) (fresh_vars rid) = ''apikey:'' @ sha k" if "k \<noteq> []" for k
    using that by (cases k) (simp_all add: req_def defaultKeyFn_def truthy_def)
  have keys: "map snd asked = map ((@) ''apikey:'' \<circ> sha) (map snd attempts)"
    using assms(3) key by (auto simp: asked_def)
  have "inj ((@) ''apikey:'' \<circ> sha)" using assms(1) by (intro inj_compose) (auto simp: inj_def)
  then have "inj_on ((@) ''apikey:'' \<circ> sha) (set (map snd attempts))" by (rule inj_on_subset) simp
  then have "distinct (map snd asked)"
    unfolding keys using assms(2) by (simp only: distinct_map [of _ "map snd attempts"] simp_thms)
  moreover have "length asked = length attempts" by (simp add: asked_def)
  ultimately have "admissions [(15 * 60 * 1000, 10)] asked (new_store ty up) = replicate (length attempts) True"
    using distinct_keys_admitted [of 10 asked "new_store ty up" "15 * 60 * 1000"] new_store_free by simp
  then show ?thesis by (simp add: asked_def req_def login_limit_def)
qed

theorem login_limit_evaded_witness:
  "\<exists>rq. admissions [login_limit] (map (\<lambda>k. (0, defaultKeyFn id (rq k) (fresh_vars ''r''))) (map (\<lambda>i. replicate (Suc i) CHR ''x'') [0..<50]))
     (new_store None False) = replicate 50 True"
proof -
  let ?as = "map (\<lambda>i. (0 :: int, replicate (Suc i) CHR ''x'')) [0..<50]"
  have "distinct (map snd ?as)" "\<forall>k \<in> set (map snd ?as). k \<noteq> []"
    by (auto simp: distinct_map inj_on_def replicate_eq_replicate)
  from login_limit_evaded [OF inj_on_id this, of "sample_request None" "''r''" None False]
  show ?thesis by (intro exI) (simp add: comp_def del: upt_rec_numeral)
qed

text \<open>
  The counters of the Redis store carry no name of their limiter. A login counts three times on one
  key, whose window the mounted limiter opens for a minute; so of four logins in a minute the last is
  refused, which the store in memory admits, while twelve logins in four minutes all pass the limit of ten
  in a quarter of an hour.
\<close>

theorem redis_login_limit:
  "admissions (mounted_limits ''/api/v1/auth/login'' @ [login_limit])
      (map (\<lambda>t. (t, key)) [0, 1, 2, 3]) (new_store (Some ''redis'') True) = [True, True, True, False]
   \<and> admissions (mounted_limits ''/api/v1/auth/login'' @ [login_limit])
      (map (\<lambda>t. (t, key)) [0, 1, 2, 3]) (new_store None up) = [True, True, True, True]
   \<and> admissions (mounted_limits ''/api/v1/auth/login'' @ [login_limit])
      (map (\<lambda>t. (t, key)) [0, 1, 2, 60000, 60001, 60002, 120000, 120001, 120002, 180000, 180001, 180002])
      (new_store (Some ''redis'') True)
    = [True, True, True, True, True, True, True, True, True, True, True, True]"
proof -
  have l: "mounted_limits ''/api/v1/auth/login'' @ [login_limit] = [(60000, 1000), (60000, 1000), (900000, 10)]"
    by (simp add: mounted_limits_def under_def login_limit_def)
  have n: "store_name 60000 1000 \<noteq> store_name 900000 10"
    by (simp add: store_name_def show_int_def show_nat.simps)
  note [simp] = rateLimit_def store_increment_def new_store_def truthy_def
  show ?thesis
    unfolding l using n n [symmetric]
    by (simp add: incr_script_def redis_get_def increment_def put_entry_def Let_def)
qed

section \<open>Replies from the cache\<close>

text \<open>
  The middleware runs before any authentication, so its key does not depend on the caller: after a
  request whose handler answered with success, every request with the same method, path and
  \<open>Idempotency-Key\<close> within a day gets that answer and its handler does not run, whoever sends it and
  whatever its body.
\<close>

theorem idempotency_any_caller:
  assumes "rq_method rq \<notin> {''GET'', ''HEAD'', ''OPTIONS''}" and "truthy (rq_header rq ''Idempotency-Key'') = Some k"
    and "\<forall>r \<in> set rows. ic_key r \<noteq> compositeKey sha rq (fresh_vars rid) k"
    and "handler s = (JsonAnswer st body, s')" and "200 \<le> st" and "st < 300"
    and "idempotencyMiddleware sha now rq (fresh_vars rid) handler (rows, s) = (a, rows', s1)"
    and "rq_method rq' = rq_method rq" and "rq_path rq' = rq_path rq"
    and "rq_header rq' ''Idempotency-Key'' = rq_header rq ''Idempotency-Key''"
    and "now \<le> later" and "later < now + TTL_MS"
  shows "idempotencyMiddleware sha later rq' (fresh_vars rid') handler' (rows', s2) = (JsonAnswer st body, rows', s2)"
proof -
  let ?key = "compositeKey sha rq (fresh_vars rid) k"
  let ?row = "\<lparr>ic_key = ?key, ic_status = st, ic_body = body, ic_createdAt = now\<rparr>"
  have same: "compositeKey sha rq' (fresh_vars rid') k = ?key"
    using assms(8,9) by (simp add: compositeKey_def fresh_vars_def Let_def)
  have none: "cached x ?key rows = None" for x
    using assms(3) by (simp add: cached_def first_row_filter_None)
  from assms(1-7) none have "rows' = rows @ [?row]"
    by (auto simp: idempotencyMiddleware_def store_answer_def Let_def)
  moreover have "filter (\<lambda>r. ic_key r = ?key \<and> later - TTL_MS < ic_createdAt r) rows = []"
    using assms(3) by (simp add: filter_empty_conv)
  ultimately have "cached later ?key rows' = Some ?row"
    using assms(12) by (simp add: cached_def)
  then show ?thesis
    using assms(1,2,8,10) same by (simp add: idempotencyMiddleware_def Let_def)
qed

definition post_request :: "string \<Rightarrow> request" where
  "post_request auth =
     \<lparr>rq_method = ''POST'', rq_path = ''/api/v1/orgs'', rq_param = (\<lambda>p. None),
      rq_header = [''Authorization'' \<mapsto> auth, ''Idempotency-Key'' \<mapsto> ''1'']\<rparr>"

theorem idempotency_any_caller_witness:
  "\<exists>rows. idempotencyMiddleware id 5 (post_request ''Bearer bob'') (fresh_vars ''r2'') (\<lambda>s. (JsonAnswer 201 (JStr ''bob''), s)) (rows, ())
     = (JsonAnswer 201 (JStr ''alice''), rows, ())"
proof -
  obtain a rows' s1 where run: "idempotencyMiddleware id 0 (post_request ''Bearer alice'') (fresh_vars ''r1'')
      (\<lambda>s. (JsonAnswer 201 (JStr ''alice''), s)) ([], ()) = (a, rows', s1)"
    by (metis prod.exhaust)
  from idempotency_any_caller [OF _ _ _ _ _ _ this, of "''1''" 201 "JStr ''alice''" "()" "post_request ''Bearer bob''" 5]
  show ?thesis by (intro exI [of _ rows']) (simp add: post_request_def truthy_def TTL_MS_def)
qed

text \<open>
  An expired answer that the hourly clean-up has not deleted yet keeps the new answer out of the
  table: every repetition of the request runs the handler again.
\<close>

theorem expired_answer_repeats:
  assumes "rq_method rq \<notin> {''GET'', ''HEAD'', ''OPTIONS''}" and "truthy (rq_header rq ''Idempotency-Key'') = Some k"
    and "\<exists>r \<in> set rows. ic_key r = compositeKey sha rq cx k"
    and "\<forall>r \<in> set rows. ic_key r = compositeKey sha rq cx k \<longrightarrow> ic_createdAt r \<le> now - TTL_MS"
  shows "idempotencyMiddleware sha now rq cx handler (rows, s) = (fst (handler s), rows, snd (handler s))"
proof -
  have "cached now (compositeKey sha rq cx k) rows = None"
    using assms(4) by (auto simp: cached_def first_row_filter_None)
  moreover have "store_answer now (compositeKey sha rq cx k) a rows = rows" for a
    using assms(3) by (cases a) (auto simp: store_answer_def)
  ultimately show ?thesis
    using assms(1,2) by (simp add: idempotencyMiddleware_def Let_def split: prod.splits)
qed

theorem expired_answer_repeats_witness:
  "\<exists>row. idempotencyMiddleware id TTL_MS (post_request ''Bearer a'') (fresh_vars ''r'') (\<lambda>n. (JsonAnswer 201 (JNum n), n + 1)) ([row], 7)
     = (JsonAnswer 201 (JNum 7), [row], 8)"
proof -
  let ?row = "\<lparr>ic_key = compositeKey id (post_request ''Bearer a'') (fresh_vars ''r'') ''1'', ic_status = 200,
    ic_body = JNull, ic_createdAt = 0\<rparr>"
  have 1: "rq_method (post_request ''Bearer a'') \<notin> {''GET'', ''HEAD'', ''OPTIONS''}"
    and 2: "truthy (rq_header (post_request ''Bearer a'') ''Idempotency-Key'') = Some ''1''"
    by (simp_all add: post_request_def truthy_def)
  from expired_answer_repeats [OF 1 2, of "[?row]" id "fresh_vars ''r''" TTL_MS "\<lambda>n. (JsonAnswer 201 (JNum n), n + 1)" 7]
  show ?thesis by (intro exI [of _ ?row]) simp
qed

end
