(* ===== verification/Org_Routes.thy ===== *)
theory Org_Routes
  imports Access Lifecycle
begin

text \<open>
  Organizations and their members: \<open>api/src/routes/orgs.ts\<close> with \<open>withAudit\<close> of
  \<open>api/src/lib/audit-helper.ts\<close> and the error handler of \<open>api/src/index.ts\<close>. A request runs the
  guards of its route, the validation of its body and the handler; the statements of a handler are one
  transaction. The lists of a route are left out, as are the limiter of creation and the delivery of the
  events, which are recorded.
\<close>

section \<open>State\<close>

record org_state =
  os_access :: access_db
  os_users :: "(string \<times> string) list"
  os_schedules :: "schedule_row list"
  os_audits :: "audit_row list"
  os_events :: "event_payload list"

record org_env =
  oe_access :: access_env
  oe_id :: "string \<Rightarrow> nat \<Rightarrow> string"
  oe_email_ok :: "string \<Rightarrow> bool"

type_synonym answer = "int \<times> json"

type_synonym 'a org_tx = "org_state \<Rightarrow> thrown + 'a \<times> org_state"

definition error_answer :: "int \<Rightarrow> string \<Rightarrow> string \<Rightarrow> answer" where
  "error_answer status msg code =
     (status, JObj [(''error'', JObj [(''message'', JStr msg), (''code'', JStr code)])])"

definition message_answer :: "int \<Rightarrow> string \<Rightarrow> answer" where
  "message_answer status msg = (status, JObj [(''message'', JStr msg)])"

definition undefined_arg :: thrown where
  "undefined_arg = js_Error ''UNDEFINED_VALUE: Undefined values are not allowed''"

abbreviation oe_now :: "org_env \<Rightarrow> int" where
  "oe_now env \<equiv> ae_now (oe_access env)"

section \<open>Audited transactions\<close>

record audit_spec =
  as_event :: string
  as_entityType :: string
  as_details :: "json option"

definition client_address :: "request \<Rightarrow> string option" where
  "client_address rq =
     (case truthy (rq_header rq ''x-forwarded-for'') of
        Some a \<Rightarrow> Some a | None \<Rightarrow> truthy (rq_header rq ''x-real-ip''))"

text \<open>The entry needs the organization of the request.\<close>

definition audit_entry ::
    "string \<Rightarrow> int \<Rightarrow> request \<Rightarrow> request_vars \<Rightarrow> audit_spec \<Rightarrow> string \<Rightarrow> thrown + audit_row" where
  "audit_entry i now rq cx spec entityId =
     (case cx_orgId cx of
        None \<Rightarrow> Inl (js_Error ''null value in column org_id violates not-null constraint'')
      | Some org \<Rightarrow>
          Inr ((new_audit i now org (as_event spec) (as_entityType spec))
             \<lparr>au_userId := truthy (cx_userId cx), au_resourceId := truthy (Some entityId),
              au_details := Some (or_default (as_details spec) (JObj [])),
              au_ipAddress := client_address rq, au_traceId := truthy (cx_requestId cx)\<rparr>))"

text \<open>
  The function runs first and may set the organization of the request; the entry is written in the same
  transaction, so an error of either leaves everything as it was.
\<close>

definition withAudit ::
    "org_env \<Rightarrow> request \<Rightarrow> request_vars \<Rightarrow> ('a \<times> request_vars) org_tx \<Rightarrow> audit_spec \<Rightarrow> ('a \<Rightarrow> string)
     \<Rightarrow> 'a org_tx" where
  "withAudit env rq cx fn spec entityId st =
     bindE (fn st) (\<lambda>((a, cx'), st1).
       bindE (audit_entry (oe_id env ''audit_logs'' (length (os_audits st1))) (oe_now env) rq cx' spec (entityId a))
         (\<lambda>row. Inr (a, st1\<lparr>os_audits := os_audits st1 @ [row]\<rparr>)))"

text \<open>An answer that follows a transaction; an error leaves the handler.\<close>

definition audited ::
    "org_env \<Rightarrow> request \<Rightarrow> request_vars \<Rightarrow> (org_state \<Rightarrow> org_state) \<Rightarrow> audit_spec \<Rightarrow> string
     \<Rightarrow> event_payload list \<Rightarrow> answer \<Rightarrow> org_state \<Rightarrow> (thrown + answer) \<times> org_state" where
  "audited env rq cx f spec entityId events ans st =
     (case withAudit env rq cx (\<lambda>s. Inr (((), cx), f s)) spec (\<lambda>_. entityId) st of
        Inl e \<Rightarrow> (Inl e, st)
      | Inr (_, st1) \<Rightarrow> (Inr ans, st1\<lparr>os_events := os_events st1 @ events\<rparr>))"

section \<open>Statements\<close>

definition upd_org :: "string \<Rightarrow> (organization_row \<Rightarrow> organization_row) \<Rightarrow> org_state \<Rightarrow> org_state" where
  "upd_org org f st =
     st\<lparr>os_access := (os_access st)\<lparr>ac_orgs := sql_update (\<lambda>g. og_id g = org) f (ac_orgs (os_access st))\<rparr>\<rparr>"

definition upd_members :: "(member_row list \<Rightarrow> member_row list) \<Rightarrow> org_state \<Rightarrow> org_state" where
  "upd_members f st = st\<lparr>os_access := (os_access st)\<lparr>ac_members := f (ac_members (os_access st))\<rparr>\<rparr>"

definition owners :: "access_db \<Rightarrow> string \<Rightarrow> member_row list" where
  "owners d org = filter (\<lambda>m. me_orgId m = org \<and> me_role m = ''owner'') (ac_members d)"

definition duplicate_key :: "string \<Rightarrow> thrown" where
  "duplicate_key c = js_Error (''duplicate key value violates unique constraint '' @ dq c)"

text \<open>The two schedules every organization starts with.\<close>

definition first_schedules :: "org_env \<Rightarrow> string \<Rightarrow> nat \<Rightarrow> schedule_row list" where
  "first_schedules env org n =
     map (\<lambda>(i, name, cron, ty, desc).
        \<lparr>sc_id = oe_id env ''schedules'' (n + i), sc_orgId = org, sc_name = name, sc_type = ''system'',
         sc_cronExpr = cron, sc_lastRunAt = None, sc_lastCompletedAt = None, sc_enabled = True,
         sc_minIntervalMs = None, sc_maxStalenessMs = None,
         sc_config = Some (JObj [(''type'', JStr ty), (''description'', JStr desc)]), sc_status = ''active'',
         sc_deletedAt = None, sc_createdAt = oe_now env, sc_updatedAt = oe_now env\<rparr>)
       [(0, ''expiry-threshold-check'', ''*/5 * * * *'', ''expiry_check'', ''Check blobs approaching expiry threshold''),
        (1, ''budget-window-rollover'', ''0 0 * * *'', ''budget_rollover'', ''Roll over budget windows'')]"

section \<open>Handlers\<close>

datatype org_op =
    CreateOrg string string
  | GetOrg
  | PatchOrg "string option" "string option"
  | DeleteOrg
  | RestoreOrg
  | SuspendOrg
  | UnsuspendOrg
  | AddMember string string
  | SetMemberRole string string
  | RemoveMember string

definition insert_org :: "org_env \<Rightarrow> request_vars \<Rightarrow> string \<Rightarrow> string \<Rightarrow> (organization_row \<times> request_vars) org_tx" where
  "insert_org env cx name slug st =
     (let d = os_access st; org = oe_id env ''organizations'' (length (ac_orgs d));
          g = \<lparr>og_id = org, og_name = name, og_slug = slug, og_status = ''active'', og_deletedAt = None,
               og_suspendedAt = None, og_createdAt = oe_now env, og_updatedAt = oe_now env\<rparr>
      in if \<exists>x \<in> set (ac_orgs d). og_id x = org then Inl (duplicate_key ''organizations_pkey'')
         else if \<exists>x \<in> set (ac_orgs d). og_slug x = slug then Inl (duplicate_key ''orgs_slug_unique'')
         else (case cx_userId cx of
                 None \<Rightarrow> Inl undefined_arg
               | Some user \<Rightarrow>
                   if user \<notin> fst ` set (os_users st)
                   then Inl (js_Error ''insert on table org_members violates foreign key constraint'')
                   else Inr ((g, cx\<lparr>cx_orgId := Some org\<rparr>),
                     st\<lparr>os_access := d\<lparr>ac_orgs := ac_orgs d @ [g],
                          ac_members := ac_members d @
                            [\<lparr>me_orgId = org, me_userId = user, me_role = ''owner'', me_joinedAt = oe_now env\<rparr>]\<rparr>,
                        os_schedules := os_schedules st @ first_schedules env org (length (os_schedules st))\<rparr>)))"

definition organization_json :: "organization_row \<Rightarrow> json" where
  "organization_json g =
     JObj [(''organization'', JObj [(''id'', JStr (og_id g)), (''name'', JStr (og_name g)),
       (''slug'', JStr (og_slug g)), (''status'', JStr (og_status g))])]"

text \<open>Delete, restore, suspend and unsuspend: the transition is validated, then the row is updated.\<close>

definition change_status ::
    "org_env \<Rightarrow> request \<Rightarrow> request_vars \<Rightarrow> string \<Rightarrow> string \<Rightarrow> (organization_row \<Rightarrow> organization_row)
     \<Rightarrow> (org_state \<Rightarrow> answer option) \<Rightarrow> string \<Rightarrow> string \<Rightarrow> org_state \<Rightarrow> (thrown + answer) \<times> org_state" where
  "change_status env rq cx org target upd denied event msg st =
     (case find_org (os_access st) org of
        None \<Rightarrow> (Inr (error_answer 404 ''Organization not found'' ''NOT_FOUND''), st)
      | Some g \<Rightarrow>
          (case validateTransition loaded_machines SM_organization (og_status g) target False of
             Inl e \<Rightarrow> (Inl e, st)
           | Inr _ \<Rightarrow>
               (case denied st of
                  Some ans \<Rightarrow> (Inr ans, st)
                | None \<Rightarrow>
                    audited env rq cx (upd_org org (\<lambda>x. (upd x)\<lparr>og_status := target, og_updatedAt := oe_now env\<rparr>))
                      \<lparr>as_event = event, as_entityType = ''organization'', as_details = None\<rparr> org []
                      (message_answer 200 msg) st)))"

definition only_owner :: "string \<Rightarrow> org_state \<Rightarrow> answer option" where
  "only_owner org st =
     (if length (owners (os_access st) org) \<le> 1
      then Some (error_answer 403 ''Cannot delete organization: you are the only owner'' ''FORBIDDEN'')
      else None)"

text \<open>
  \<open>owners.length <= 1 && owners[0].userId === userId\<close>: without an owner the read of the first one throws. The parameter of the
  request is compared as a text here and as a \<open>uuid\<close>, which PostgreSQL reads in several spellings, by the statements below.
\<close>

definition last_owner :: "access_db \<Rightarrow> string \<Rightarrow> string \<Rightarrow> thrown + bool" where
  "last_owner d org user =
     (case owners d org of
        [] \<Rightarrow> Inl (js_TypeError ''Cannot read properties of undefined'')
      | [m] \<Rightarrow> Inr (me_userId m = user)
      | _ \<Rightarrow> Inr False)"

definition member_spec :: "string \<Rightarrow> (string \<times> json) list \<Rightarrow> audit_spec" where
  "member_spec event details =
     \<lparr>as_event = event, as_entityType = ''organization'', as_details = Some (JObj details)\<rparr>"

definition member_event ::
    "org_env \<Rightarrow> request_vars \<Rightarrow> string \<Rightarrow> string \<Rightarrow> string \<Rightarrow> (string \<times> json) list \<Rightarrow> event_payload" where
  "member_event env cx org name user details =
     createEvent (oe_now env) name org ''member'' user (ActHuman (or_default (cx_userId cx) ''undefined''))
       (Some (JObj details)) None"

definition add_member ::
    "org_env \<Rightarrow> request \<Rightarrow> request_vars \<Rightarrow> string \<Rightarrow> string \<Rightarrow> string \<Rightarrow> org_state
     \<Rightarrow> (thrown + answer) \<times> org_state" where
  "add_member env rq cx org email role st =
     (case first_row (filter (\<lambda>u. snd u = email) (os_users st)) of
        None \<Rightarrow> (Inr (error_answer 404 ''User not found'' ''NOT_FOUND''), st)
      | Some u \<Rightarrow>
          if org_member (os_access st) org (fst u) \<noteq> None
          then (Inr (error_answer 409 ''User is already a member'' ''CONFLICT''), st)
          else audited env rq cx
                 (upd_members (\<lambda>ms. ms @ [\<lparr>me_orgId = org, me_userId = fst u, me_role = role, me_joinedAt = oe_now env\<rparr>]))
                 (member_spec ''member.invited'' [(''userId'', JStr (fst u)), (''role'', JStr role)]) org
                 [member_event env cx org ''member.invited'' (fst u) [(''email'', JStr email), (''role'', JStr role)]]
                 (message_answer 201 ''Member added'') st)"

definition write_role :: "string \<Rightarrow> string \<Rightarrow> string \<Rightarrow> org_state \<Rightarrow> org_state" where
  "write_role org user role =
     upd_members (sql_update (\<lambda>m. me_orgId m = org \<and> me_userId m = user) (\<lambda>m. m\<lparr>me_role := role\<rparr>))"

definition set_member_role ::
    "org_env \<Rightarrow> request \<Rightarrow> request_vars \<Rightarrow> string \<Rightarrow> string \<Rightarrow> string \<Rightarrow> org_state
     \<Rightarrow> (thrown + answer) \<times> org_state" where
  "set_member_role env rq cx org user role st =
     (if cx_role cx \<noteq> Some ''owner'' \<and> role = ''owner''
      then (Inr (error_answer 403 ''Only owners can assign the owner role'' ''FORBIDDEN''), st)
      else
        (case (if role \<noteq> ''owner'' then last_owner (os_access st) org user else Inr False) of
           Inl e \<Rightarrow> (Inl e, st)
         | Inr True \<Rightarrow> (Inr (error_answer 400 ''Cannot demote the last owner'' ''VALIDATION_ERROR''), st)
         | Inr False \<Rightarrow>
             if \<not> is_uuid user then (Inl (uuid_error user), st)
             else audited env rq cx (write_role org (uuid_text user) role)
                    (member_spec ''member.role_changed'' [(''userId'', JStr user), (''role'', JStr role)]) org
                    [member_event env cx org ''member.role_changed'' user [(''role'', JStr role)]]
                    (message_answer 200 ''Role updated'') st))"

definition active_keys :: "access_db \<Rightarrow> string \<Rightarrow> string \<Rightarrow> nat" where
  "active_keys d org user =
     length (filter (\<lambda>k. ak_orgId k = org \<and> ak_userId k = user \<and> ak_status k = ''active'') (ac_apiKeys d))"

definition delete_member :: "string \<Rightarrow> string \<Rightarrow> org_state \<Rightarrow> org_state" where
  "delete_member org user = upd_members (filter (\<lambda>m. \<not> (me_orgId m = org \<and> me_userId m = user)))"

definition remove_member ::
    "org_env \<Rightarrow> request \<Rightarrow> request_vars \<Rightarrow> string \<Rightarrow> string \<Rightarrow> org_state \<Rightarrow> (thrown + answer) \<times> org_state" where
  "remove_member env rq cx org user st =
     (case last_owner (os_access st) org user of
        Inl e \<Rightarrow> (Inl e, st)
      | Inr True \<Rightarrow> (Inr (error_answer 400 ''Cannot remove the last owner'' ''VALIDATION_ERROR''), st)
      | Inr False \<Rightarrow>
          if \<not> is_uuid user then (Inl (uuid_error user), st)
          else
            (let n = active_keys (os_access st) org (uuid_text user);
                 note = show_nat n @ '' active API key(s)''
             in audited env rq cx (delete_member org (uuid_text user))
                  (member_spec ''member.removed''
                     ([(''userId'', JStr user), (''activeApiKeys'', JNum (int n))]
                      @ (if n > 0 then [(''apiKeysNote'', JStr (note @ '' remain valid '' @ em_dash
                            @ '' revoke explicitly via DELETE /api/keys/:id if needed''))] else []))) org
                  [member_event env cx org ''member.removed'' user [(''activeApiKeys'', JNum (int n))]]
                  (200, JObj ([(''message'', JStr ''Member removed'')]
                     @ (if n > 0 then [(''warning'', JStr (note
                          @ '' created by this member remain valid. Revoke explicitly if needed.''))] else []))) st))"

definition create_org ::
    "org_env \<Rightarrow> request \<Rightarrow> request_vars \<Rightarrow> string \<Rightarrow> string \<Rightarrow> org_state \<Rightarrow> (thrown + answer) \<times> org_state" where
  "create_org env rq cx name slug st =
     (case withAudit env rq cx (insert_org env cx name slug)
             \<lparr>as_event = ''org.created'', as_entityType = ''organization'', as_details = None\<rparr> og_id st of
        Inl e \<Rightarrow> (Inl e, st)
      | Inr (g, st1) \<Rightarrow> (Inr (201, organization_json g), st1))"

definition patch_org ::
    "org_env \<Rightarrow> request \<Rightarrow> request_vars \<Rightarrow> string \<Rightarrow> string option \<Rightarrow> string option \<Rightarrow> org_state
     \<Rightarrow> (thrown + answer) \<times> org_state" where
  "patch_org env rq cx org name slug st =
     (let f = (\<lambda>g. g\<lparr>og_name := or_default name (og_name g), og_slug := or_default slug (og_slug g),
                     og_updatedAt := oe_now env\<rparr>);
          details = (case name of Some n \<Rightarrow> [(''name'', JStr n)] | None \<Rightarrow> [])
            @ (case slug of Some x \<Rightarrow> [(''slug'', JStr x)] | None \<Rightarrow> [])
      in if \<exists>g \<in> set (ac_orgs (os_access st)). og_id g \<noteq> org \<and> slug = Some (og_slug g)
         then (Inl (duplicate_key ''orgs_slug_unique''), st)
         else audited env rq cx (upd_org org f)
                \<lparr>as_event = ''org.updated'', as_entityType = ''organization'', as_details = Some (JObj details)\<rparr> org []
                (200, case find_org (os_access (upd_org org f st)) org of
                        Some g \<Rightarrow> organization_json g | None \<Rightarrow> JObj []) st)"

text \<open>The handlers behind \<open>requireOrg\<close> act on the organization it has set.\<close>

definition on_org ::
    "request_vars \<Rightarrow> (string \<Rightarrow> org_state \<Rightarrow> (thrown + answer) \<times> org_state) \<Rightarrow> org_state
     \<Rightarrow> (thrown + answer) \<times> org_state" where
  "on_org cx k st = (case cx_orgId cx of None \<Rightarrow> (Inl undefined_arg, st) | Some org \<Rightarrow> k org st)"

fun org_handler ::
    "org_env \<Rightarrow> request \<Rightarrow> request_vars \<Rightarrow> org_op \<Rightarrow> org_state \<Rightarrow> (thrown + answer) \<times> org_state" where
  "org_handler env rq cx (CreateOrg name slug) st = create_org env rq cx name slug st"
| "org_handler env rq cx GetOrg st =
     on_org cx (\<lambda>org st. (Inr (case find_org (os_access st) org of
        None \<Rightarrow> error_answer 404 ''Organization not found'' ''NOT_FOUND'' | Some g \<Rightarrow> (200, organization_json g)), st)) st"
| "org_handler env rq cx (PatchOrg name slug) st = on_org cx (\<lambda>org. patch_org env rq cx org name slug) st"
| "org_handler env rq cx DeleteOrg st =
     on_org cx (\<lambda>org. change_status env rq cx org ''deleted'' (\<lambda>g. g\<lparr>og_deletedAt := Some (oe_now env)\<rparr>)
       (only_owner org) ''org.deleted'' ''Organization deleted'') st"
| "org_handler env rq cx RestoreOrg st =
     on_org cx (\<lambda>org. change_status env rq cx org ''active'' (\<lambda>g. g\<lparr>og_deletedAt := None\<rparr>)
       (\<lambda>_. None) ''org.restored'' ''Organization restored'') st"
| "org_handler env rq cx SuspendOrg st =
     on_org cx (\<lambda>org. change_status env rq cx org ''suspended'' (\<lambda>g. g\<lparr>og_suspendedAt := Some (oe_now env)\<rparr>)
       (\<lambda>_. None) ''org.suspended'' ''Organization suspended'') st"
| "org_handler env rq cx UnsuspendOrg st =
     on_org cx (\<lambda>org. change_status env rq cx org ''active'' (\<lambda>g. g\<lparr>og_suspendedAt := None\<rparr>)
       (\<lambda>_. None) ''org.unsuspended'' ''Organization unsuspended'') st"
| "org_handler env rq cx (AddMember email role) st = on_org cx (\<lambda>org. add_member env rq cx org email role) st"
| "org_handler env rq cx (SetMemberRole user role) st = on_org cx (\<lambda>org. set_member_role env rq cx org user role) st"
| "org_handler env rq cx (RemoveMember user) st = on_org cx (\<lambda>org. remove_member env rq cx org user) st"

section \<open>Routes\<close>

fun org_guards :: "org_op \<Rightarrow> guard list" where
  "org_guards (CreateOrg _ _) = [GAuth]"
| "org_guards GetOrg = [GAuth, GOrg]"
| "org_guards (PatchOrg _ _) = [GAuth, GOrg, GRole [''owner'', ''admin'']]"
| "org_guards DeleteOrg = [GAuth, GOrg, GRole [''owner'']]"
| "org_guards RestoreOrg = [GAuth, GOrg, GRole [''owner'']]"
| "org_guards SuspendOrg = [GAuth, GOrg, GRole [''owner'']]"
| "org_guards UnsuspendOrg = [GAuth, GOrg, GRole [''owner'']]"
| "org_guards (AddMember _ _) = [GAuth, GOrg, GRole [''owner'', ''admin'']]"
| "org_guards (SetMemberRole _ _) = [GAuth, GOrg, GRole [''owner'', ''admin'']]"
| "org_guards (RemoveMember _) = [GAuth, GOrg, GRole [''owner'', ''admin'']]"

definition slug_ok :: "string \<Rightarrow> bool" where
  "slug_ok s \<longleftrightarrow> 1 \<le> length s \<and> length s \<le> 50
     \<and> list_all (\<lambda>c. (CHR ''a'' \<le> c \<and> c \<le> CHR ''z'') \<or> is_digit c \<or> c = CHR ''-'') s"

definition name_ok :: "string \<Rightarrow> bool" where
  "name_ok s \<longleftrightarrow> 1 \<le> length s \<and> length s \<le> 100"

text \<open>The schemas of the bodies; the syntax of email addresses is a parameter.\<close>

fun org_body_ok :: "org_env \<Rightarrow> org_op \<Rightarrow> bool" where
  "org_body_ok env (CreateOrg name slug) = (name_ok name \<and> slug_ok slug)"
| "org_body_ok env (PatchOrg name slug) = (pred_option name_ok name \<and> pred_option slug_ok slug)"
| "org_body_ok env (AddMember email role) = (oe_email_ok env email \<and> role \<in> {''admin'', ''member'', ''viewer''})"
| "org_body_ok env (SetMemberRole user role) = (role \<in> {''owner'', ''admin'', ''member'', ''viewer''})"
| "org_body_ok env _ = True"

datatype 'a reply = Refused http_response | Invalid | Failed thrown | Answered "int \<times> 'a"

fun org_request ::
    "org_env \<Rightarrow> string \<Rightarrow> request \<times> org_op \<Rightarrow> org_state \<Rightarrow> json reply \<times> org_state" where
  "org_request env rid (rq, op) st =
     (case run_guards (oe_access env) rq (org_guards op) (fresh_vars rid, os_access st) of
        Respond r \<Rightarrow> (Refused r, st)
      | Throws e \<Rightarrow> (Failed e, st)
      | Pass (cx, d) \<Rightarrow>
          if \<not> org_body_ok env op then (Invalid, st\<lparr>os_access := d\<rparr>)
          else (case org_handler env rq cx op (st\<lparr>os_access := d\<rparr>) of
                  (Inl e, st1) \<Rightarrow> (Failed e, st1)
                | (Inr a, st1) \<Rightarrow> (Answered a, st1)))"

text \<open>The status of the reply; an error that is none of the hierarchy is a 500.\<close>

fun reply_status :: "'a reply \<Rightarrow> int" where
  "reply_status (Refused r) = hr_status r"
| "reply_status Invalid = 400"
| "reply_status (Failed e) =
     (case e of ErrObj f _ \<Rightarrow> if inst_of e CAppError then or_default (e_status f) 500 else 500 | Prim _ \<Rightarrow> 500)"
| "reply_status (Answered a) = fst a"

text \<open>A sequence of requests, each with its identifier.\<close>

definition run_org :: "org_env \<Rightarrow> (string \<times> request \<times> org_op) list \<Rightarrow> org_state \<Rightarrow> org_state" where
  "run_org env xs st = fold (\<lambda>(rid, x) st. snd (org_request env rid x st)) xs st"

section \<open>What the routes may do\<close>

text \<open>
  The abstract contract: the changes of organizations and members that the routes allow. \<open>exact\<close> says that the members are
  named as the database writes their ids; otherwise the check for the last owner may be about another text than the change.
\<close>

inductive org_change :: "bool \<Rightarrow> access_db \<Rightarrow> access_db \<Rightarrow> bool" for exact :: bool where
  keep: "org_change exact d d"
| create: "og_status g = ''active'' \<Longrightarrow> me_role m = ''owner'' \<Longrightarrow> me_orgId m = og_id g \<Longrightarrow>
    og_id g \<notin> og_id ` set (ac_orgs d) \<Longrightarrow>
    org_change exact d (d\<lparr>ac_orgs := ac_orgs d @ [g], ac_members := ac_members d @ [m]\<rparr>)"
| rename: "(\<And>x. og_id (f x) = og_id x \<and> og_status (f x) = og_status x) \<Longrightarrow>
    org_change exact d (d\<lparr>ac_orgs := sql_update (\<lambda>g. og_id g = org) f (ac_orgs d)\<rparr>)"
| move: "find_org d org = Some g \<Longrightarrow> og_status g \<noteq> ''suspended'' \<Longrightarrow>
    (og_status g, s) \<in> set (edges SM_organization) \<Longrightarrow> (\<And>x. og_id (f x) = og_id x \<and> og_status (f x) = s) \<Longrightarrow>
    org_change exact d (d\<lparr>ac_orgs := sql_update (\<lambda>g. og_id g = org) f (ac_orgs d)\<rparr>)"
| join: "find_org d (me_orgId m) \<noteq> None \<Longrightarrow> org_member d (me_orgId m) (me_userId m) = None \<Longrightarrow> me_role m \<noteq> ''owner'' \<Longrightarrow>
    org_change exact d (d\<lparr>ac_members := ac_members d @ [m]\<rparr>)"
| promote: "r = ''owner'' \<or> last_owner d org v = Inr False \<Longrightarrow> (exact \<Longrightarrow> v = u) \<Longrightarrow>
    org_change exact d (d\<lparr>ac_members := sql_update (\<lambda>m. me_orgId m = org \<and> me_userId m = u)
      (\<lambda>m. m\<lparr>me_role := r\<rparr>) (ac_members d)\<rparr>)"
| leave: "last_owner d org v = Inr False \<Longrightarrow> (exact \<Longrightarrow> v = u) \<Longrightarrow>
    org_change exact d (d\<lparr>ac_members := filter (\<lambda>m. \<not> (me_orgId m = org \<and> me_userId m = u)) (ac_members d)\<rparr>)"

inductive_cases org_changeE: "org_change exact d d'"

definition names_exactly :: "org_op \<Rightarrow> bool" where
  "names_exactly op =
     (case op of SetMemberRole user _ \<Rightarrow> uuid_text user = user | RemoveMember user \<Rightarrow> uuid_text user = user | _ \<Rightarrow> True)"

lemma audited_access:
  "os_access (snd (audited env rq cx f spec i evs ans st)) = os_access st
   \<or> os_access (snd (audited env rq cx f spec i evs ans st)) = os_access (f st)"
  by (auto simp: audited_def withAudit_def audit_entry_def bindE_def split: option.splits)

lemma change_status_change:
  assumes "find_org (os_access st) org = Some g" and "og_status g \<noteq> ''suspended''"
    and "\<And>x. og_id (upd x) = og_id x"
  shows "org_change exact (os_access st) (os_access (snd (change_status env rq cx org target upd denied ev msg st)))"
proof (cases "validateTransition loaded_machines SM_organization (og_status g) target False")
  case (Inl e)
  with assms(1) show ?thesis by (simp add: change_status_def org_change.keep)
next
  case (Inr t)
  then have edge: "(og_status g, target) \<in> set (edges SM_organization)"
    by (metis is_ok_simps(1) validate_ok_iff)
  let ?f = "\<lambda>x. (upd x)\<lparr>og_status := target, og_updatedAt := oe_now env\<rparr>"
  have "org_change exact (os_access st) (os_access (upd_org org ?f st))"
    unfolding upd_org_def using org_change.move [OF assms(1,2) edge, of ?f exact] assms(3) by simp
  with Inr assms(1) show ?thesis
    using audited_access [of env rq cx "upd_org org ?f" "\<lparr>as_event = ev, as_entityType = ''organization'', as_details = None\<rparr>"
        org "[]" "message_answer 200 msg" st]
    by (auto simp: change_status_def org_change.keep split: option.split)
qed

lemma audited_change:
  assumes "org_change exact (os_access st) (os_access (f st))"
  shows "org_change exact (os_access st) (os_access (snd (audited env rq cx f spec i evs ans st)))"
  using audited_access [of env rq cx f spec i evs ans st] assms by (auto simp: org_change.keep)

lemma add_member_change:
  assumes "find_org (os_access st) org \<noteq> None" and "role \<noteq> ''owner''"
  shows "org_change exact (os_access st) (os_access (snd (add_member env rq cx org email role st)))"
proof -
  have "org_change exact (os_access st) (os_access (upd_members
      (\<lambda>ms. ms @ [\<lparr>me_orgId = org, me_userId = u, me_role = role, me_joinedAt = oe_now env\<rparr>]) st))"
    if "org_member (os_access st) org u = None" for u
    unfolding upd_members_def
    using org_change.join [of "os_access st" "\<lparr>me_orgId = org, me_userId = u, me_role = role, me_joinedAt = oe_now env\<rparr>"]
      that assms by simp
  then show ?thesis
    by (auto simp: add_member_def org_change.keep intro!: audited_change split: option.split)
qed

lemma set_member_role_change:
  assumes "exact \<Longrightarrow> uuid_text user = user"
  shows "org_change exact (os_access st) (os_access (snd (set_member_role env rq cx org user role st)))"
proof -
  have "org_change exact (os_access st) (os_access (write_role org (uuid_text user) role st))"
    if "role = ''owner'' \<or> last_owner (os_access st) org user = Inr False"
    unfolding write_role_def upd_members_def using org_change.promote [OF that, of exact] assms by simp
  then show ?thesis
    by (auto simp: set_member_role_def org_change.keep intro!: audited_change split: sum.splits bool.splits)
qed

lemma remove_member_change:
  assumes "exact \<Longrightarrow> uuid_text user = user"
  shows "org_change exact (os_access st) (os_access (snd (remove_member env rq cx org user st)))"
proof -
  have "org_change exact (os_access st) (os_access (delete_member org (uuid_text user) st))"
    if "last_owner (os_access st) org user = Inr False"
    unfolding delete_member_def upd_members_def using org_change.leave [OF that, of exact] assms by simp
  then show ?thesis
    by (auto simp: remove_member_def Let_def org_change.keep intro!: audited_change split: sum.splits bool.splits)
qed

lemma patch_org_change: "org_change exact (os_access st) (os_access (snd (patch_org env rq cx org name slug st)))"
proof -
  let ?f = "\<lambda>g. g\<lparr>og_name := or_default name (og_name g), og_slug := or_default slug (og_slug g),
                     og_updatedAt := oe_now env\<rparr>"
  have "org_change exact (os_access st) (os_access (upd_org org ?f st))"
    unfolding upd_org_def using org_change.rename [of ?f exact "os_access st" org] by simp
  then show ?thesis by (auto simp: patch_org_def Let_def org_change.keep intro!: audited_change)
qed

lemma create_org_change: "org_change exact (os_access st) (os_access (snd (create_org env rq cx name slug st)))"
  by (auto simp: create_org_def withAudit_def audit_entry_def bindE_def insert_org_def Let_def
    intro!: org_change.keep org_change.create split: option.splits)

lemma org_guards_pass:
  assumes "run_guards env rq (org_guards op) (fresh_vars rid, d) = Pass (cx, d')"
  shows "d' = d \<and> (\<forall>org. cx_orgId cx = Some org \<longrightarrow> (\<exists>g. find_org d org = Some g \<and> og_status g \<noteq> ''suspended''))"
  using assms
  by (cases op) (auto simp: next_mw_Pass fresh_vars_def requireAuth_Pass requireOrg_Pass requireRole_Pass)

lemma org_handler_change:
  assumes "\<And>org. cx_orgId cx = Some org \<Longrightarrow> \<exists>g. find_org (os_access st) org = Some g \<and> og_status g \<noteq> ''suspended''"
    and "org_body_ok env op" and "exact \<Longrightarrow> names_exactly op"
  shows "org_change exact (os_access st) (os_access (snd (org_handler env rq cx op st)))"
proof (cases "cx_orgId cx")
  case None
  then show ?thesis
    by (cases op) (auto simp: on_org_def create_org_change org_change.keep)
next
  case (Some org)
  with assms(1) obtain g where g: "find_org (os_access st) org = Some g" "og_status g \<noteq> ''suspended''" by blast
  show ?thesis
    using Some assms(2,3)
    by (cases op) (auto simp: on_org_def create_org_change patch_org_change org_change.keep g(1) names_exactly_def
        intro!: set_member_role_change remove_member_change change_status_change [OF g] add_member_change)
qed

lemma org_request_change:
  assumes "exact \<Longrightarrow> names_exactly (snd x)"
  shows "org_change exact (os_access st) (os_access (snd (org_request env rid x st)))"
proof -
  obtain rq op where x: "x = (rq, op)" by (rule prod.exhaust)
  show ?thesis
  proof (cases "run_guards (oe_access env) rq (org_guards op) (fresh_vars rid, os_access st)")
    case (Pass p)
    obtain cx d where p: "p = (cx, d)" by (rule prod.exhaust)
    from org_guards_pass [OF Pass [unfolded p]] have d: "d = os_access st"
      and g: "\<And>org. cx_orgId cx = Some org \<Longrightarrow> \<exists>g. find_org (os_access st) org = Some g \<and> og_status g \<noteq> ''suspended''"
      by auto
    have same: "st\<lparr>os_access := os_access st\<rparr> = st" by simp
    show ?thesis
    proof (cases "org_body_ok env op")
      case True
      from org_handler_change [where cx = cx and rq = rq and exact = exact, OF g this] assms Pass p d x True show ?thesis
        by (auto simp: same split: prod.split sum.split)
    qed (use Pass p d x in \<open>simp add: org_change.keep\<close>)
  qed (simp_all add: x org_change.keep)
qed

section \<open>Invariants\<close>

definition status_of :: "access_db \<Rightarrow> string \<Rightarrow> string option" where
  "status_of d i = map_option og_status (find_org d i)"

lemma find_org_update:
  assumes "\<And>x. og_id (f x) = og_id x"
  shows "find_org (d\<lparr>ac_orgs := sql_update (\<lambda>g. og_id g = org) f (ac_orgs d)\<rparr>) i
    = (if i = org then map_option f (find_org d i) else find_org d i)"
proof -
  have "first_row (filter (\<lambda>g. og_id g = i) (sql_update (\<lambda>g. og_id g = org) f rows))
      = (if i = org then map_option f (first_row (filter (\<lambda>g. og_id g = i) rows))
         else first_row (filter (\<lambda>g. og_id g = i) rows))" for rows
    by (induction rows) (auto simp: assms)
  then show ?thesis by (simp add: find_org_def)
qed

lemma find_org_append: "find_org d i = Some g \<Longrightarrow> find_org (d\<lparr>ac_orgs := ac_orgs d @ gs, ac_members := ms\<rparr>) i = Some g"
  by (cases "filter (\<lambda>g. og_id g = i) (ac_orgs d)") (auto simp: find_org_def)

lemma find_org_members [simp]: "find_org (d\<lparr>ac_members := ms\<rparr>) i = find_org d i"
  by (simp add: find_org_def)

lemma organization_edges:
  "edges SM_organization =
     [(''active'', ''suspended''), (''suspended'', ''active''), (''active'', ''deleted''), (''suspended'', ''deleted'')]"
  by (simp add: edges_def organization_machine_def)

interpretation frozen: step_invariant "org_change exact" "\<lambda>d. status_of d i = Some s \<and> s \<noteq> ''active''" for exact i s
proof
  fix d d' assume i: "status_of d i = Some s \<and> s \<noteq> ''active''" and "org_change exact d d'"
  from this(2) i show "status_of d' i = Some s \<and> s \<noteq> ''active''"
  proof cases
    case (move org g t f)
    show ?thesis
    proof (cases "i = org")
      case True
      with move(2-4) i show ?thesis by (auto simp: status_of_def organization_edges)
    next
      case False
      with move i show ?thesis by (simp add: status_of_def find_org_update)
    qed
  next
    case (create g m)
    then show ?thesis using i find_org_append [of d i] by (auto simp: status_of_def)
  qed (auto simp: status_of_def find_org_update option.map_comp comp_def split: if_splits)
qed

text \<open>Members are unique and of known organizations; the organization has an owner.\<close>

definition owned :: "string \<Rightarrow> access_db \<Rightarrow> bool" where
  "owned i d \<longleftrightarrow>
     distinct (map (\<lambda>m. (me_orgId m, me_userId m)) (ac_members d))
     \<and> me_orgId ` set (ac_members d) \<subseteq> og_id ` set (ac_orgs d) \<and> owners d i \<noteq> []"

lemma other_owner:
  assumes "distinct (map (\<lambda>m. (me_orgId m, me_userId m)) (ac_members d))" and "last_owner d org u = Inr False"
  shows "\<exists>m \<in> set (owners d org). me_userId m \<noteq> u"
proof -
  have d: "distinct (map me_userId (owners d org))"
    using assms(1) unfolding owners_def by (induction "ac_members d" arbitrary: d) (force simp: distinct_map inj_on_def)+
  show ?thesis
    using assms(2) d by (auto simp: last_owner_def split: list.splits)
qed

text \<open>An owner that a change of the member \<open>u\<close> of \<open>org\<close> leaves alone.\<close>

lemma spared_owner:
  assumes "owned i d" and "last_owner d org u = Inr False"
  shows "\<exists>m \<in> set (ac_members d). me_orgId m = i \<and> me_role m = ''owner'' \<and> \<not> (me_orgId m = org \<and> me_userId m = u)"
proof (cases "i = org")
  case True
  with other_owner [of d org u] assms show ?thesis by (auto simp: owned_def owners_def)
next
  case False
  with assms(1) show ?thesis by (fastforce simp: owned_def owners_def filter_empty_conv)
qed

lemma find_org_known: "find_org d i \<noteq> None \<Longrightarrow> i \<in> og_id ` set (ac_orgs d)"
proof -
  assume "find_org d i \<noteq> None"
  then obtain g where "find_org d i = Some g" by blast
  then have "g \<in> set (ac_orgs d)" "og_id g = i" by (auto simp: find_org_def dest!: first_row_filter_SomeD)
  then show ?thesis by blast
qed

lemma image_update: "(\<And>x. k (f x) = k x) \<Longrightarrow> k ` set (sql_update p f rows) = k ` set rows"
  by (simp only: set_map [symmetric] map_sql_update_frame)

lemma owners_nonempty: "owners d i \<noteq> [] \<longleftrightarrow> (\<exists>m \<in> set (ac_members d). me_orgId m = i \<and> me_role m = ''owner'')"
  by (auto simp: owners_def filter_empty_conv)

interpretation owners_kept: step_invariant "org_change True" "owned i" for i
proof
  fix d d' assume inv: "owned i d" and "org_change True d d'"
  from this(2) inv show "owned i d'"
  proof cases
    case (promote r org v u)
    let ?p = "\<lambda>m. me_orgId m = org \<and> me_userId m = u" and ?f = "\<lambda>m. m\<lparr>me_role := r\<rparr>"
    obtain m where m: "m \<in> set (ac_members d)" "me_orgId m = i" "me_role m = ''owner''" "\<not> ?p m \<or> r = ''owner''"
      using promote(2,3) spared_owner [OF inv, of org u] inv by (auto simp: owned_def owners_nonempty)
    from m(1) have "(if ?p m then ?f m else m) \<in> set (sql_update ?p ?f (ac_members d))"
      unfolding set_sql_update by (rule imageI)
    with m have "owners d' i \<noteq> []" unfolding owners_nonempty promote(1)
      by (intro bexI [of _ "if ?p m then ?f m else m"]) auto
    moreover have "map (\<lambda>m. (me_orgId m, me_userId m)) (sql_update ?p ?f (ac_members d))
        = map (\<lambda>m. (me_orgId m, me_userId m)) (ac_members d)"
      by (rule map_sql_update_frame) simp
    moreover have "me_orgId ` set (sql_update ?p ?f (ac_members d)) = me_orgId ` set (ac_members d)"
      by (rule image_update) simp
    ultimately show ?thesis using inv promote(1) by (simp add: owned_def)
  next
    case (leave org v u)
    from spared_owner [OF inv leave(2) [unfolded leave(3) [OF TrueI]]] show ?thesis
      using inv leave(1) by (auto simp: owned_def owners_nonempty distinct_map inj_on_def)
  next
    case (join m)
    then have "(me_orgId m, me_userId m) \<notin> (\<lambda>m. (me_orgId m, me_userId m)) ` set (ac_members d)"
      by (auto simp: org_member_def first_row_filter_None)
    moreover have "me_orgId m \<in> og_id ` set (ac_orgs d)"
      using join(2) find_org_known by blast
    ultimately show ?thesis using inv join(1) by (auto simp: owned_def owners_nonempty)
  next
    case (create g m)
    then have "me_orgId m \<notin> me_orgId ` set (ac_members d)" using inv by (auto simp: owned_def)
    then show ?thesis using inv create by (auto simp: owned_def owners_nonempty rev_image_eqI)
  next
    case (rename f org)
    then show ?thesis using inv by (simp add: owned_def owners_def image_update [of og_id f])
  next
    case (move org g t f)
    then show ?thesis using inv by (simp add: owned_def owners_def image_update [of og_id f])
  qed simp
qed

lemma run_org_reach:
  assumes "exact \<Longrightarrow> list_all (\<lambda>(rid, rq, op). names_exactly op) xs"
  shows "(org_change exact)\<^sup>*\<^sup>* (os_access st) (os_access (run_org env xs st))"
  using assms
proof (induction xs arbitrary: st)
  case (Cons x xs)
  obtain rid y where x: "x = (rid, y)" by (rule prod.exhaust)
  have "run_org env (x # xs) st = run_org env xs (snd (org_request env rid y st))" by (simp add: run_org_def x)
  moreover have "org_change exact (os_access st) (os_access (snd (org_request env rid y st)))"
    by (rule org_request_change) (use Cons.prems in \<open>auto simp: x split: prod.splits\<close>)
  moreover have "(org_change exact)\<^sup>*\<^sup>* (os_access (snd (org_request env rid y st)))
      (os_access (run_org env xs (snd (org_request env rid y st))))"
    by (rule Cons.IH) (use Cons.prems in auto)
  ultimately show ?case by (simp add: converse_rtranclp_into_rtranclp)
qed (simp add: run_org_def)

lemma write_role_owners:
  "r \<noteq> ''owner'' \<Longrightarrow> owners (os_access (write_role org u r st)) org = filter (\<lambda>m. me_userId m \<noteq> u) (owners (os_access st) org)"
proof -
  assume r: "r \<noteq> ''owner''"
  have "filter (\<lambda>m. me_orgId m = org \<and> me_role m = ''owner'') (sql_update (\<lambda>m. me_orgId m = org \<and> me_userId m = u)
        (\<lambda>m. m\<lparr>me_role := r\<rparr>) ms)
      = filter (\<lambda>m. me_userId m \<noteq> u) (filter (\<lambda>m. me_orgId m = org \<and> me_role m = ''owner'') ms)" for ms
    by (induction ms) (auto simp: r)
  then show ?thesis by (simp add: owners_def write_role_def upd_members_def)
qed

text \<open>The owners of an organization by their keys, and who may add to them.\<close>

definition owner_ids :: "access_db \<Rightarrow> string \<Rightarrow> string set" where
  "owner_ids d i = me_userId ` set (owners d i)"

lemma audited_owner_ids:
  assumes "owner_ids (os_access (f st)) i \<subseteq> owner_ids (os_access st) i"
  shows "owner_ids (os_access (snd (audited env rq cx f spec k evs ans st))) i \<subseteq> owner_ids (os_access st) i"
  using audited_access [of env rq cx f spec k evs ans st] assms by auto

lemma owner_ids_steps:
  "owner_ids (os_access (upd_org org f st)) i = owner_ids (os_access st) i"
  "me_role m \<noteq> ''owner'' \<Longrightarrow> owner_ids (os_access (upd_members (\<lambda>ms. ms @ [m]) st)) i = owner_ids (os_access st) i"
  "owner_ids (os_access (delete_member org u st)) i \<subseteq> owner_ids (os_access st) i"
  "r \<noteq> ''owner'' \<or> org \<noteq> i \<Longrightarrow> owner_ids (os_access (write_role org u r st)) i \<subseteq> owner_ids (os_access st) i"
  by (auto simp: owner_ids_def owners_def upd_org_def upd_members_def delete_member_def write_role_def set_sql_update
      image_iff split: if_splits)

lemma org_handler_owner_ids:
  assumes "\<forall>name slug. op \<noteq> CreateOrg name slug" and "org_body_ok env op"
    and "cx_role cx \<noteq> Some ''owner'' \<or> cx_orgId cx \<noteq> Some i"
  shows "owner_ids (os_access (snd (org_handler env rq cx op st))) i \<subseteq> owner_ids (os_access st) i"
proof (cases op)
  case (SetMemberRole u r)
  show ?thesis
    using assms(3)
    by (auto simp: SetMemberRole on_org_def set_member_role_def intro!: audited_owner_ids
        dest: subsetD [OF owner_ids_steps(4), rotated] split: option.split sum.split bool.split)
next
  case (AddMember email r)
  with assms(2) have "r \<noteq> ''owner''" by auto
  then show ?thesis
    by (auto simp: AddMember on_org_def add_member_def owner_ids_steps intro!: audited_owner_ids split: option.split)
next
  case (RemoveMember u)
  show ?thesis
    using owner_ids_steps(3) [of _ "uuid_text u" st i]
    by (auto simp: RemoveMember on_org_def remove_member_def Let_def intro!: audited_owner_ids
        split: option.split sum.split bool.split)
qed (use assms(1) in \<open>auto simp: on_org_def patch_org_def change_status_def Let_def owner_ids_steps
      intro!: audited_owner_ids split: option.splits sum.splits\<close>)

text \<open>An organization with two owners.\<close>

definition sample_orgs :: "string \<Rightarrow> org_state" where
  "sample_orgs status =
     \<lparr>os_access = sample_access\<lparr>ac_orgs := [sample_org\<lparr>og_status := status\<rparr>],
        ac_members := map (\<lambda>c. \<lparr>me_orgId = sample_uuid CHR ''1'', me_userId = sample_uuid c, me_role = ''owner'', me_joinedAt = 0\<rparr>)
          [CHR ''2'', CHR ''3'']\<rparr>,
      os_users = [], os_schedules = [], os_audits = [], os_events = []\<rparr>"

lemma hex_lower_A: "hex_lower CHR ''A'' = CHR ''a''"
  by code_simp

lemma hex_lower_digit: "is_digit c \<Longrightarrow> hex_lower c = c"
  by (auto simp: hex_lower_def is_digit_def less_eq_char_def)

lemma sample_uuid_text: "c \<in> {CHR ''1'', CHR ''2'', CHR ''3''} \<Longrightarrow> uuid_text (sample_uuid c) = sample_uuid c"
  by (auto simp: sample_uuid_def uuid_text_def hex_lower_def hex_digit_def is_digit_def less_eq_char_def Let_def)

definition sample_org_env :: org_env where
  "sample_org_env = \<lparr>oe_access = sample_access_env, oe_id = (\<lambda>t n. t), oe_email_ok = (\<lambda>e. True)\<rparr>"

lemma sample_owned: "owned (sample_uuid CHR ''1'') (os_access (sample_orgs status))"
  by (simp add: owned_def owners_def sample_orgs_def sample_access_def sample_org_def)

section \<open>Properties\<close>

text \<open>
  An organization that is suspended or deleted stays so whatever requests follow: the guard refuses
  every request of a suspended one, the request to unsuspend it included, and no transition leads from
  deleted.
\<close>

theorem org_never_returns:
  assumes "status_of (os_access st) i = Some s" and "s \<noteq> ''active''"
  shows "status_of (os_access (run_org env xs st)) i = Some s"
  using frozen.reachable [OF run_org_reach [of False xs st env], of i s] assms by simp

theorem org_never_returns_witness:
  "status_of (os_access (run_org sample_org_env [(''r'', sample_request (Some (sample_uuid CHR ''1'')), UnsuspendOrg)]
     (sample_orgs ''suspended''))) (sample_uuid CHR ''1'') = Some ''suspended''"
  by (rule org_never_returns)
    (simp_all add: status_of_def find_org_def sample_orgs_def sample_org_def)

text \<open>
  C27: an organization with an owner keeps one through every sequence of requests that name the members by the texts the
  database writes for their ids, in lower case and with hyphens.
\<close>

theorem owner_kept:
  assumes "owned i (os_access st)" and "list_all (\<lambda>(rid, rq, op). names_exactly op) xs"
  shows "owners (os_access (run_org env xs st)) i \<noteq> []"
  using owners_kept.reachable [OF run_org_reach assms(1), of xs env] assms(2) by (simp add: owned_def)

theorem owner_kept_witness:
  "owners (os_access (run_org sample_org_env
     [(''r'', sample_request (Some (sample_uuid CHR ''1'')), RemoveMember (sample_uuid CHR ''2'')),
      (''s'', sample_request (Some (sample_uuid CHR ''1'')), RemoveMember (sample_uuid CHR ''3''))]
     (sample_orgs ''active''))) (sample_uuid CHR ''1'') \<noteq> []"
  by (rule owner_kept [OF sample_owned]) (simp add: names_exactly_def sample_uuid_text)

text \<open>
  Named in another spelling the last owner is removed: the check compares the texts, the statement the ids, so that the
  organization is left without an owner.
\<close>

theorem last_owner_respelled:
  assumes "owners (os_access st) org = [m]" and "is_uuid user" and "uuid_text user = me_userId m" and "user \<noteq> me_userId m"
    and "cx_orgId cx = Some org"
  shows "\<exists>body. fst (org_handler env rq cx (RemoveMember user) st) = Inr (200, body)
    \<and> owners (os_access (snd (org_handler env rq cx (RemoveMember user) st))) org = []"
proof -
  have last: "last_owner (os_access st) org user = Inr False"
    using assms(1,4) by (simp add: last_owner_def)
  have "owners (os_access (delete_member org u s)) org = filter (\<lambda>m. me_userId m \<noteq> u) (owners (os_access s) org)" for u s
    by (auto simp: owners_def delete_member_def upd_members_def intro: filter_cong)
  then have "owners (os_access (delete_member org (uuid_text user) st)) org = []"
    using assms(1,3) by simp
  with last assms(2,5) show ?thesis
    by (simp add: on_org_def remove_member_def audited_def withAudit_def audit_entry_def Let_def)
qed

theorem last_owner_respelled_witness:
  "\<exists>st rq cx user. owners (os_access st) (sample_uuid CHR ''1'') \<noteq> []
     \<and> owners (os_access (snd (org_handler sample_org_env rq cx (RemoveMember user) st))) (sample_uuid CHR ''1'') = []"
proof -
  let ?st = "(sample_orgs ''active'')\<lparr>os_access := (os_access (sample_orgs ''active''))
    \<lparr>ac_members := [\<lparr>me_orgId = sample_uuid CHR ''1'', me_userId = sample_uuid CHR ''a'', me_role = ''owner'', me_joinedAt = 0\<rparr>]\<rparr>\<rparr>"
  have respelled: "is_uuid (sample_uuid CHR ''A'')" "uuid_text (sample_uuid CHR ''A'') = sample_uuid CHR ''a''"
    by (simp_all add: sample_uuid_def is_uuid_def uuid_text_def hex_lower_A hex_lower_digit hex_digit_def is_digit_def
        less_eq_char_def Let_def)
  have one: "owners (os_access ?st) (sample_uuid CHR ''1'')
      = [\<lparr>me_orgId = sample_uuid CHR ''1'', me_userId = sample_uuid CHR ''a'', me_role = ''owner'', me_joinedAt = 0\<rparr>]"
    by (simp add: owners_def)
  have cx: "cx_orgId ((fresh_vars ''r'')\<lparr>cx_orgId := Some (sample_uuid CHR ''1'')\<rparr>) = Some (sample_uuid CHR ''1'')"
    by simp
  from last_owner_respelled [OF one respelled(1) _ _ cx, of sample_org_env "sample_request None"] respelled(2) one
  show ?thesis by (intro exI [of _ ?st]) auto
qed

text \<open>
  The check for the last owner and the write are separate statements: when the two owners of an
  organization are demoted at once, both checks pass before either write, and no owner is left.
\<close>

theorem last_owner_race:
  assumes "map me_userId (owners (os_access st) org) = [a, b]" and "a \<noteq> b" and "r \<noteq> ''owner''"
  shows "last_owner (os_access st) org a = Inr False \<and> last_owner (os_access st) org b = Inr False
    \<and> owners (os_access (write_role org b r (write_role org a r st))) org = []"
proof -
  have "owners (os_access (write_role org b r (write_role org a r st))) org
      = filter (\<lambda>m. me_userId m \<noteq> a \<and> me_userId m \<noteq> b) (owners (os_access st) org)"
    using assms(3) by (simp add: write_role_owners)
  also have "\<dots> = []"
  proof -
    have "me_userId ` set (owners (os_access st) org) = {a, b}"
      using assms(1) by (metis list.set_map list.simps(15) list.set(1))
    then show ?thesis by (auto simp: filter_empty_conv)
  qed
  finally have "owners (os_access (write_role org b r (write_role org a r st))) org = []" .
  with assms(1,2) show ?thesis by (auto simp: last_owner_def map_eq_Cons_conv)
qed

theorem last_owner_race_witness:
  "\<exists>a b st. last_owner (os_access st) (sample_uuid CHR ''1'') a = Inr False
    \<and> owners (os_access (write_role (sample_uuid CHR ''1'') b ''viewer'' (write_role (sample_uuid CHR ''1'') a ''viewer'' st)))
        (sample_uuid CHR ''1'') = []"
  using last_owner_race [of "sample_orgs ''active''" "sample_uuid CHR ''1''" "sample_uuid CHR ''2''" "sample_uuid CHR ''3''" "''viewer''"]
  by (fastforce simp: owners_def sample_orgs_def)

text \<open>
  Only an owner of an organization makes an owner: a request other than a creation adds to the owners
  only when its caller is one of them.
\<close>

theorem only_owners_make_owners:
  assumes "\<forall>name slug. op \<noteq> CreateOrg name slug"
  shows "owner_ids (os_access (snd (org_request env rid (rq, op) st))) i
    \<subseteq> owner_ids (os_access st) i \<union> {v. \<exists>u. caller (oe_access env) rq u \<and> u \<in> owner_ids (os_access st) i}"
proof (rule ccontr)
  let ?d = "os_access st"
  assume "\<not> ?thesis"
  then have new: "\<not> owner_ids (os_access (snd (org_request env rid (rq, op) st))) i \<subseteq> owner_ids ?d i"
    and no: "\<nexists>u. caller (oe_access env) rq u \<and> u \<in> owner_ids ?d i" by blast+
  from new obtain p where p: "run_guards (oe_access env) rq (org_guards op) (fresh_vars rid, ?d) = Pass p"
    by (cases "run_guards (oe_access env) rq (org_guards op) (fresh_vars rid, ?d)") auto
  obtain cx d where cxd: "p = (cx, d)" by (rule prod.exhaust)
  note pass = p [unfolded cxd]
  from org_guards_pass [OF pass] have d: "d = ?d" by simp
  with new pass have ok: "org_body_ok env op" by (auto split: if_splits)
  have "\<not> owner_ids (os_access (snd (org_handler env rq cx op st))) i \<subseteq> owner_ids ?d i"
    using new pass ok d by (auto split: prod.splits sum.splits)
  with org_handler_owner_ids [OF assms(1) ok] have cx: "cx_role cx = Some ''owner''" "cx_orgId cx = Some i" by blast+
  from pass assms(1) obtain tok u m where "bearer_token rq = Some tok" "ae_verify (oe_access env) tok = Inr (Some u)"
      "org_member ?d i u = Some m" "me_role m = ''owner''"
    using cx by (cases op) (auto simp: next_mw_Pass requireAuth_Pass requireOrg_Pass requireRole_Pass fresh_vars_def)
  then have "caller (oe_access env) rq u" "u \<in> owner_ids ?d i"
    by (auto simp: caller_def owner_ids_def owners_def org_member_def dest!: first_row_filter_SomeD)
  with no show False by blast
qed

theorem only_owners_make_owners_witness:
  "owner_ids (os_access (snd (org_request sample_org_env ''r'' (sample_request None, SetMemberRole ''x'' ''owner'')
        (sample_orgs ''active'')))) ''y'' = {}"
proof -
  have "owner_ids (os_access (sample_orgs ''active'')) ''y'' = {}"
    by (auto simp: owner_ids_def owners_def sample_orgs_def sample_uuid_def)
  with only_owners_make_owners [of "SetMemberRole ''x'' ''owner''" sample_org_env "''r''" "sample_request None"
      "sample_orgs ''active''" "''y''"]
  show ?thesis by auto
qed

end
