(* ===== verification/Pagination.thy ===== *)
theory Pagination
  imports App_Errors
begin

text \<open>
  The cursor pagination of the lists of the API, \<open>api/src/lib/cursor-pagination.ts\<close>, and the query
  every list route builds with it. Times are microseconds, as the columns keep them; a cursor carries
  the ISO text of a JavaScript date, which ends at milliseconds. The encoding of a cursor as base64url of
  JSON is left out: a cursor is the pair it carries.
\<close>

section \<open>Parameters\<close>

text \<open>\<open>Math.min(100, Math.max(1, parseInt(limitStr || '50', 10) || 50))\<close>.\<close>

definition parse_limit :: "string option \<Rightarrow> int" where
  "parse_limit limitStr =
     (let n = (case parse_int (or_default (truthy limitStr) ''50'') of Some i \<Rightarrow> if i = 0 then 50 else i | None \<Rightarrow> 50)
      in min 100 (max 1 n))"

section \<open>Cursors\<close>

datatype sort_direction = Asc | Desc

record cursor_value =
  cu_id :: string
  cu_sortValue :: int

text \<open>\<open>toISOString\<close> of the date read from a column.\<close>

definition iso_ms :: "int \<Rightarrow> int" where
  "iso_ms t = t div 1000 * 1000"

text \<open>A row by what a list sorts with: the time of the sort column and the identifier.\<close>

type_synonym sort_key = "int \<times> string"

definition before :: "sort_direction \<Rightarrow> 'a::linorder \<Rightarrow> 'a \<Rightarrow> bool" where
  "before dir a b \<longleftrightarrow> (case dir of Asc \<Rightarrow> a < b | Desc \<Rightarrow> b < a)"

definition buildCursorWhere :: "cursor_value option \<Rightarrow> sort_direction \<Rightarrow> sort_key \<Rightarrow> bool" where
  "buildCursorWhere cursor dir k =
     (case cursor of
        None \<Rightarrow> True
      | Some c \<Rightarrow> before dir (cu_sortValue c) (fst k)
          \<or> fst k = cu_sortValue c \<and> before dir (cu_id c) (snd k))"

text \<open>The identifier breaks ties in ascending order whatever the direction.\<close>

definition buildCursorOrderBy :: "sort_direction \<Rightarrow> sort_key \<Rightarrow> sort_key \<Rightarrow> bool" where
  "buildCursorOrderBy dir a b \<longleftrightarrow> before dir (fst a) (fst b) \<or> fst a = fst b \<and> snd a \<le> snd b"

record 'a page =
  pg_data :: "'a list"
  pg_nextCursor :: "cursor_value option"
  pg_hasMore :: bool

definition wrapPaginatedResponse ::
    "'a list \<Rightarrow> nat \<Rightarrow> ('a \<Rightarrow> string) \<Rightarrow> ('a \<Rightarrow> int) \<Rightarrow> 'a page" where
  "wrapPaginatedResponse items limit encodeId encodeSortValue =
     (let hasMore = length items > limit;
          rows = (if hasMore then take limit items else items)
      in \<lparr>pg_data = rows,
          pg_nextCursor = (if hasMore \<and> length rows > 0
            then Some \<lparr>cu_id = encodeId (last rows), cu_sortValue = encodeSortValue (last rows)\<rparr> else None),
          pg_hasMore = hasMore\<rparr>)"

section \<open>A list route\<close>

text \<open>The rows of the route, one more than the limit, in the order of the query.\<close>

definition list_page :: "('a \<Rightarrow> sort_key) \<Rightarrow> sort_direction \<Rightarrow> nat \<Rightarrow> 'a list \<Rightarrow> cursor_value option \<Rightarrow> 'a page" where
  "list_page key dir limit rows cursor =
     wrapPaginatedResponse
       (take (limit + 1) (sort_by (\<lambda>a b. buildCursorOrderBy dir (key a) (key b))
          (filter (\<lambda>r. buildCursorWhere cursor dir (key r)) rows)))
       limit (snd \<circ> key) (iso_ms \<circ> fst \<circ> key)"

text \<open>A client that follows the cursors, for at most the given number of pages.\<close>

fun follow :: "('a \<Rightarrow> sort_key) \<Rightarrow> sort_direction \<Rightarrow> nat \<Rightarrow> 'a list \<Rightarrow> nat \<Rightarrow> cursor_value option \<Rightarrow> 'a list" where
  "follow key dir limit rows 0 cursor = []"
| "follow key dir limit rows (Suc n) cursor =
     (let p = list_page key dir limit rows cursor in
      pg_data p @ (case pg_nextCursor p of None \<Rightarrow> [] | Some c \<Rightarrow> follow key dir limit rows n (Some c)))"

section \<open>Lists with distinct times\<close>

lemma sorted_wrt_unique:
  assumes "sorted_wrt R xs" and "sorted_wrt R ys" and "set xs = set ys"
    and asym: "\<And>a b. R a b \<Longrightarrow> \<not> R b a" 
  shows "xs = ys"
  using assms(1-3)
proof (induction xs arbitrary: ys)
  case (Cons x xs)
  have irr: "\<not> R a a" for a using asym by blast
  from Cons.prems(3) obtain y zs where ys: "ys = y # zs" by (cases ys) auto
  have xy: "x = y"
  proof (rule ccontr)
    assume "x \<noteq> y"
    with Cons.prems ys have "x \<in> set zs" "y \<in> set xs" by auto
    with Cons.prems ys have "R y x" "R x y" by auto
    with asym show False by blast
  qed
  have "x \<notin> set xs" "x \<notin> set zs" using Cons.prems irr xy ys by auto
  with Cons.prems(3) ys xy have "set xs = set zs" by auto
  with Cons.IH [of zs] Cons.prems ys xy show ?case by simp
qed simp

lemma before_asym: "before dir a b \<Longrightarrow> \<not> before dir b a"
  by (auto simp: before_def split: sort_direction.splits)

interpretation cursor_order: sort_order "\<lambda>a b. buildCursorOrderBy dir (key a) (key b)" for dir key
  by unfold_locales (auto simp: buildCursorOrderBy_def before_def split: sort_direction.splits)

text \<open>
  Lists a cursor can carry: no two rows in one millisecond, and for ascending lists no fractions of one.
\<close>

definition keyed :: "('a \<Rightarrow> sort_key) \<Rightarrow> sort_direction \<Rightarrow> 'a list \<Rightarrow> bool" where
  "keyed key dir rows \<longleftrightarrow>
     distinct (map (iso_ms \<circ> fst \<circ> key) rows) \<and> (dir = Asc \<longrightarrow> (\<forall>r \<in> set rows. iso_ms (fst (key r)) = fst (key r)))"

definition in_order :: "('a \<Rightarrow> sort_key) \<Rightarrow> sort_direction \<Rightarrow> 'a list \<Rightarrow> 'a list" where
  "in_order key dir rows = sort_by (\<lambda>a b. buildCursorOrderBy dir (key a) (key b)) rows"

lemma in_order_sorted:
  assumes "keyed key dir rows"
  shows "sorted_wrt (\<lambda>a b. before dir (fst (key a)) (fst (key b))) (in_order key dir rows)"
proof -
  have d: "distinct (in_order key dir rows)" "inj_on (fst \<circ> key) (set rows)"
    using assms by (auto simp: keyed_def in_order_def distinct_map inj_on_def)
  have s: "sorted_wrt (\<lambda>a b. buildCursorOrderBy dir (key a) (key b)) (in_order key dir rows)"
    unfolding in_order_def by (rule cursor_order.sorted_sort)
  have "before dir (fst (key (in_order key dir rows ! i))) (fst (key (in_order key dir rows ! j)))"
    if "i < j" "j < length (in_order key dir rows)" for i j
  proof -
    let ?a = "in_order key dir rows ! i" and ?b = "in_order key dir rows ! j"
    have "?a \<noteq> ?b" using d(1) that by (simp add: nth_eq_iff_index_eq)
    moreover have "?a \<in> set rows" "?b \<in> set rows"
      using that nth_mem [of i "in_order key dir rows"] nth_mem [of j "in_order key dir rows"]
      by (simp_all add: in_order_def)
    ultimately have "fst (key ?a) \<noteq> fst (key ?b)" using d(2) by (auto simp: inj_on_def)
    moreover have "buildCursorOrderBy dir (key ?a) (key ?b)" using s that by (simp add: sorted_wrt_iff_nth_less)
    ultimately show ?thesis by (simp add: buildCursorOrderBy_def)
  qed
  then show ?thesis by (simp add: sorted_wrt_iff_nth_less)
qed

lemma iso_ms_le: "iso_ms t \<le> t" "t < iso_ms t + 1000"
  by (simp_all add: iso_ms_def)

text \<open>The cursor behind the first \<open>k\<close> rows selects the rows behind them.\<close>

definition cursor_at :: "('a \<Rightarrow> sort_key) \<Rightarrow> 'a list \<Rightarrow> nat \<Rightarrow> cursor_value option" where
  "cursor_at key rows k =
     (if k = 0 then None
      else Some \<lparr>cu_id = snd (key (rows ! (k - 1))), cu_sortValue = iso_ms (fst (key (rows ! (k - 1))))\<rparr>)"

lemma cursor_selects:
  assumes "keyed key dir rows" and "r \<in> set rows" and "x \<in> set rows"
  shows "buildCursorWhere (Some \<lparr>cu_id = snd (key x), cu_sortValue = iso_ms (fst (key x))\<rparr>) dir (key r)
    \<longleftrightarrow> before dir (fst (key x)) (fst (key r))"
proof (cases "r = x")
  case True
  with assms(1,2) iso_ms_le(1) [of "fst (key x)"] show ?thesis
    by (auto simp: buildCursorWhere_def before_def keyed_def split: sort_direction.splits)
next
  case False
  then have "iso_ms (fst (key r)) \<noteq> iso_ms (fst (key x))"
    using assms by (auto simp: keyed_def distinct_map inj_on_def)
  then show ?thesis
    using assms iso_ms_le [of "fst (key x)"] iso_ms_le [of "fst (key r)"]
    by (auto simp: buildCursorWhere_def before_def keyed_def iso_ms_def split: sort_direction.splits)
qed

text \<open>In a list sorted by an asymmetric relation the rows behind a row are the ones it is related to.\<close>

lemma behind:
  assumes sorted: "sorted_wrt R L" and asym: "\<And>a b. R a b \<Longrightarrow> \<not> R b a" and k: "0 < k" "k \<le> length L"
  shows "r \<in> set (drop k L) \<longleftrightarrow> r \<in> set L \<and> R (L ! (k - 1)) r"
proof
  assume "r \<in> set (drop k L)"
  then obtain j where j: "j < length L - k" "L ! (k + j) = r" by (auto simp: in_set_conv_nth)
  then have "R (L ! (k - 1)) r" using sorted k by (auto simp: sorted_wrt_iff_nth_less)
  with j show "r \<in> set L \<and> R (L ! (k - 1)) r" using nth_mem [of "k + j" L] by simp
next
  assume r: "r \<in> set L \<and> R (L ! (k - 1)) r"
  then obtain j where j: "j < length L" "L ! j = r" by (auto simp: in_set_conv_nth)
  have "\<not> j < k - 1"
  proof
    assume "j < k - 1"
    then have "R (L ! j) (L ! (k - 1))" using sorted k by (simp add: sorted_wrt_iff_nth_less)
    with asym r j show False by blast
  qed
  moreover have "j \<noteq> k - 1" using asym r j by blast
  ultimately have "k \<le> j" using k by linarith
  with j show "r \<in> set (drop k L)" by (auto simp: in_set_conv_nth intro!: exI [of _ "j - k"])
qed

lemma selected_rows:
  assumes "keyed key dir rows" and "k \<le> length rows"
  shows "in_order key dir (filter (\<lambda>r. buildCursorWhere (cursor_at key (in_order key dir rows) k) dir (key r)) rows)
    = drop k (in_order key dir rows)"
proof -
  let ?L = "in_order key dir rows" and ?R = "\<lambda>a b. before dir (fst (key a)) (fst (key b))"
  let ?F = "filter (\<lambda>r. buildCursorWhere (cursor_at key ?L k) dir (key r)) rows"
  have L: "set ?L = set rows" "length ?L = length rows" by (simp_all add: in_order_def)
  note sorted = in_order_sorted [OF assms(1)]
  have asym: "\<And>a b. ?R a b \<Longrightarrow> \<not> ?R b a" by (rule before_asym)
  have "keyed key dir ?F" using assms(1) by (auto simp: keyed_def distinct_map inj_on_def)
  moreover have "set ?F = set (drop k ?L)"
  proof (cases "k = 0")
    case True
    then show ?thesis using L by (simp add: cursor_at_def buildCursorWhere_def)
  next
    case False
    then have x: "?L ! (k - 1) \<in> set rows" using assms(2) L nth_mem [of "k - 1" ?L] by simp
    with False cursor_selects [OF assms(1) _ x] behind [OF sorted asym, of k] assms(2) L
    show ?thesis by (auto simp: cursor_at_def)
  qed
  ultimately show ?thesis
    using in_order_sorted [of key dir ?F] sorted_wrt_drop [OF sorted, of k] asym
    by (intro sorted_wrt_unique [of ?R]) (auto simp: in_order_def)
qed

lemma page_at:
  assumes "keyed key dir rows" and "k \<le> length rows" and "0 < limit"
  defines "L \<equiv> in_order key dir rows"
  shows "pg_data (list_page key dir limit rows (cursor_at key L k)) = take limit (drop k L)"
    and "pg_nextCursor (list_page key dir limit rows (cursor_at key L k))
      = (if k + limit < length rows then cursor_at key L (k + limit) else None)"
proof -
  have sel: "sort_by (\<lambda>a b. buildCursorOrderBy dir (key a) (key b))
      (filter (\<lambda>r. buildCursorWhere (cursor_at key L k) dir (key r)) rows) = drop k L"
    using selected_rows [OF assms(1,2)] by (simp add: L_def in_order_def)
  have len: "length L = length rows" by (simp add: L_def in_order_def)
  show "pg_data (list_page key dir limit rows (cursor_at key L k)) = take limit (drop k L)"
    unfolding list_page_def sel wrapPaginatedResponse_def by (simp add: Let_def min_def)
  show "pg_nextCursor (list_page key dir limit rows (cursor_at key L k))
      = (if k + limit < length rows then cursor_at key L (k + limit) else None)"
    unfolding list_page_def sel wrapPaginatedResponse_def
    using assms(2,3) len by (auto simp: Let_def cursor_at_def last_conv_nth)
qed

lemma follow_from:
  assumes "keyed key dir rows" and "0 < limit"
  shows "k \<le> length rows \<Longrightarrow> length rows < k + n * limit \<or> length rows = k \<and> 0 < n \<Longrightarrow>
    follow key dir limit rows n (cursor_at key (in_order key dir rows) k) = drop k (in_order key dir rows)"
proof (induction n arbitrary: k)
  case (Suc n)
  note page = page_at [OF assms(1) Suc.prems(1) assms(2)]
  show ?case
  proof (cases "k + limit < length rows")
    case True
    with Suc.IH [of "k + limit"] Suc.prems
    have "follow key dir limit rows n (cursor_at key (in_order key dir rows) (k + limit))
        = drop (k + limit) (in_order key dir rows)" by (simp add: add.assoc)
    moreover have "cursor_at key (in_order key dir rows) (k + limit) \<noteq> None"
      using assms(2) by (simp add: cursor_at_def)
    ultimately have "follow key dir limit rows (Suc n) (cursor_at key (in_order key dir rows) k)
        = take limit (drop k (in_order key dir rows)) @ drop (k + limit) (in_order key dir rows)"
      using page True by (auto simp: Let_def simp del: drop_drop)
    then show ?thesis by (metis add.commute append_take_drop_id drop_drop)
  next
    case False
    then show ?thesis using page by (simp add: Let_def in_order_def)
  qed
qed simp

section \<open>What cursors lose\<close>

lemma page_rows: "set (pg_data (list_page key dir limit rows c)) \<subseteq> {r \<in> set rows. buildCursorWhere c dir (key r)}"
  by (auto simp: list_page_def wrapPaginatedResponse_def Let_def dest!: in_set_takeD)

lemma page_cursor:
  "pg_nextCursor (list_page key dir limit rows c) = Some c' \<Longrightarrow>
     \<exists>x \<in> set (pg_data (list_page key dir limit rows c)). c' = \<lparr>cu_id = snd (key x), cu_sortValue = iso_ms (fst (key x))\<rparr>"
  by (auto simp: list_page_def wrapPaginatedResponse_def Let_def split: if_splits intro!: bexI [OF _ last_in_set])

text \<open>A row a descending cursor has passed without selecting it is never selected again.\<close>

definition passed :: "cursor_value \<Rightarrow> sort_key \<Rightarrow> bool" where
  "passed c k \<longleftrightarrow> cu_sortValue c < fst k \<or> cu_sortValue c = fst k \<and> cu_id c < snd k"

lemma passed_not_selected: "passed c k \<Longrightarrow> \<not> buildCursorWhere (Some c) Desc k"
  by (auto simp: passed_def buildCursorWhere_def before_def)

lemma passed_stays:
  assumes "passed c k" and "buildCursorWhere (Some c) Desc (key x)"
  shows "passed \<lparr>cu_id = snd (key x), cu_sortValue = iso_ms (fst (key x))\<rparr> k"
  using assms iso_ms_le(1) [of "fst (key x)"] by (auto simp: passed_def buildCursorWhere_def before_def)

lemma passed_never_listed: "passed c (key r) \<Longrightarrow> r \<notin> set (follow key Desc limit rows n (Some c))"
proof (induction n arbitrary: c)
  case (Suc n)
  let ?p = "list_page key Desc limit rows (Some c)"
  have "r \<notin> set (pg_data ?p)"
    using page_rows [of key Desc limit rows "Some c"] passed_not_selected [OF Suc.prems] by blast
  moreover have "r \<notin> set (follow key Desc limit rows n (Some c'))" if "pg_nextCursor ?p = Some c'" for c'
  proof -
    from page_cursor [OF that] obtain x where x: "x \<in> set (pg_data ?p)"
      "c' = \<lparr>cu_id = snd (key x), cu_sortValue = iso_ms (fst (key x))\<rparr>" by blast
    have "buildCursorWhere (Some c) Desc (key x)" using page_rows x(1) by fastforce
    from passed_stays [where x = x and key = key, OF Suc.prems this] show ?thesis unfolding x(2) by (rule Suc.IH)
  qed
  ultimately show ?case by (cases "pg_nextCursor ?p") (simp_all add: Let_def)
qed simp

lemma first_page:
  assumes "0 < limit" and "limit < length rows"
  shows "pg_data (list_page key dir limit rows None) = take limit (in_order key dir rows)"
    and "pg_nextCursor (list_page key dir limit rows None) = cursor_at key (in_order key dir rows) limit"
proof -
  have ne: "rows \<noteq> []" and pos: "limit \<noteq> 0" using assms by auto
  let ?L = "sort_by (\<lambda>a b. buildCursorOrderBy dir (key a) (key b)) rows"
  have "?L \<noteq> []" "length ?L = length rows" using ne by (metis length_sort_by length_0_conv) (rule length_sort_by)
  with assms pos have last: "last (take limit ?L) = ?L ! (limit - 1)" by (simp add: last_conv_nth)
  show "pg_data (list_page key dir limit rows None) = take limit (in_order key dir rows)"
    using assms by (simp add: list_page_def wrapPaginatedResponse_def Let_def buildCursorWhere_def in_order_def min_def)
  show "pg_nextCursor (list_page key dir limit rows None) = cursor_at key (in_order key dir rows) limit"
    using assms ne pos last
    by (simp add: list_page_def wrapPaginatedResponse_def Let_def buildCursorWhere_def in_order_def cursor_at_def min_def)
qed

section \<open>Properties\<close>

text \<open>
  Following the cursors gives the list itself: when no two rows fall into one millisecond, and in
  ascending lists none into a fraction of one, the pages of any positive limit joined are the rows in the
  order of the query, each once, after at most one page per row and one more.
\<close>

theorem pages_cover:
  assumes "keyed key dir rows" and "0 < limit"
  shows "follow key dir limit rows (length rows + 1) None = in_order key dir rows"
proof -
  have "length rows < 0 + (length rows + 1) * limit" using assms(2) by (cases limit) auto
  with follow_from [OF assms, of 0 "length rows + 1"] show ?thesis by (simp add: cursor_at_def)
qed

theorem pages_cover_witness:
  "follow (\<lambda>i. (int i * 1000, [])) Desc 2 [0, 2, 1] 4 None = [2, 1, 0]"
proof -
  have "keyed (\<lambda>i. (int i * 1000, [])) Desc [0, 2, 1]" by (simp add: keyed_def iso_ms_def)
  from pages_cover [OF this, of 2]
  have "follow (\<lambda>i. (int i * 1000, [])) Desc 2 [0, 2, 1] (length [0, 2, 1 :: nat] + 1) None
      = in_order (\<lambda>i. (int i * 1000, [])) Desc [0, 2, 1]" by simp
  moreover have "length [0, 2, 1 :: nat] + 1 = 4" by simp
  ultimately show ?thesis
    by (simp only:) (simp add: in_order_def buildCursorOrderBy_def before_def)
qed

text \<open>
  A cursor has lost the fraction of its millisecond: in an ascending list a page of one row whose time
  has one is followed by the same page, for ever.
\<close>

theorem ascending_page_repeats:
  assumes "in_order key Asc rows = r # x # rest" and "iso_ms (fst (key r)) < fst (key r)"
  shows "follow key Asc 1 rows n None = replicate n r"
proof -
  let ?c = "\<lparr>cu_id = snd (key r), cu_sortValue = iso_ms (fst (key r))\<rparr>"
  have len: "1 < length rows"
    using arg_cong [OF assms(1), of length] by (simp add: in_order_def)
  have least: "fst (key r) \<le> fst (key y)" if "y \<in> set rows" for y
  proof -
    have "sorted_wrt (\<lambda>a b. buildCursorOrderBy Asc (key a) (key b)) (r # x # rest)" "y \<in> set (r # x # rest)"
      using assms(1) cursor_order.sorted_sort [of Asc key rows] that set_sort_by
      by (auto simp: in_order_def simp flip: assms(1))
    then show ?thesis by (auto simp: buildCursorOrderBy_def before_def)
  qed
  have "filter (\<lambda>y. buildCursorWhere (Some ?c) Asc (key y)) rows = rows"
    using least assms(2) by (fastforce simp: buildCursorWhere_def before_def filter_id_conv)
  then have same: "list_page key Asc 1 rows (Some ?c) = list_page key Asc 1 rows None"
    by (simp add: list_page_def buildCursorWhere_def)
  have page: "pg_data (list_page key Asc 1 rows None) = [r]" "pg_nextCursor (list_page key Asc 1 rows None) = Some ?c"
    using first_page [OF _ len, of key Asc] assms(1) by (simp_all add: cursor_at_def)
  have "follow key Asc 1 rows n (Some ?c) = replicate n r" for n
    by (induction n) (simp_all add: Let_def same page del: One_nat_def)
  then show ?thesis by (cases n) (simp_all add: Let_def page del: One_nat_def)
qed

theorem ascending_page_repeats_witness:
  "follow (\<lambda>i. (int i + 500, [])) Asc 1 [0, 1, 2] 9 None = replicate 9 0"
  using ascending_page_repeats [of "\<lambda>i. (int i + 500, [])" "[0, 1, 2]" 0 1 "[2]" 9]
  by (simp add: in_order_def buildCursorOrderBy_def before_def iso_ms_def)

text \<open>
  Rows with one time are listed by ascending identifiers, but a descending cursor selects the smaller
  ones: a row with the time of the last row of the first page and a greater identifier is on no page.
\<close>

theorem descending_ties_skipped:
  assumes "0 < limit" and "limit < length rows"
    and "fst (key r) = fst (key (in_order key Desc rows ! (limit - 1)))"
    and "snd (key (in_order key Desc rows ! (limit - 1))) < snd (key r)"
  shows "r \<notin> set (follow key Desc limit rows n None)"
proof -
  let ?L = "in_order key Desc rows"
  let ?x = "?L ! (limit - 1)"
  let ?c = "\<lparr>cu_id = snd (key ?x), cu_sortValue = iso_ms (fst (key ?x))\<rparr>"
  have len: "length ?L = length rows" by (simp add: in_order_def)
  have sorted: "sorted_wrt (\<lambda>a b. buildCursorOrderBy Desc (key a) (key b)) ?L"
    unfolding in_order_def by (rule cursor_order.sorted_sort)
  have first: "r \<notin> set (take limit ?L)"
  proof
    assume "r \<in> set (take limit ?L)"
    then obtain j where "j < limit" "?L ! j = r" using assms(2) len by (auto simp: in_set_conv_nth)
    then have "buildCursorOrderBy Desc (key r) (key ?x)"
      using sorted assms(2) len cursor_order.refl [of Desc key r]
      by (cases "j = limit - 1") (auto simp: sorted_wrt_iff_nth_less)
    with assms(3,4) show False by (auto simp: buildCursorOrderBy_def before_def)
  qed
  have "passed ?c (key r)" using assms(3,4) iso_ms_le(1) [of "fst (key r)"] by (auto simp: passed_def)
  from passed_never_listed [of ?c key r limit rows, OF this] first first_page [OF assms(1,2), of key Desc]
  show ?thesis using assms(1) by (cases n) (auto simp: Let_def cursor_at_def)
qed

theorem descending_ties_skipped_witness:
  "(2 :: int) \<notin> set (follow (\<lambda>i. (0, if i = 1 then ''a'' else ''b'')) Desc 1 [1, 2] 9 None)"
  using descending_ties_skipped [of 1 "[1, 2 :: int]" "\<lambda>i. (0, if i = 1 then ''a'' else ''b'')" 2 9]
  by (simp add: in_order_def buildCursorOrderBy_def before_def)

text \<open>
  Whatever the client sends, a page has between one and a hundred rows.
\<close>

theorem limit_bounds: "1 \<le> parse_limit s \<and> parse_limit s \<le> 100"
  by (simp add: parse_limit_def Let_def)

end
