(* ===== verification/Route_Base.thy ===== *)
theory Route_Base
  imports Org_Routes Cost_Engine
begin

text \<open>
  What the entity routers of the API share: the state they work on, their answers, the statements that
  find a row by its identifier and organization, validate a transition and write it with its audit entry
  (\<open>api/src/lib/audit-helper.ts\<close>, \<open>api/src/middleware/audit.ts\<close>), and the pipeline of a request. The
  abstract contract \<open>key_step\<close> says what a router may do to the statuses of its table; a locale proves
  it for every table whose update writes the rows of one identifier.
\<close>

section \<open>Times as text\<close>

text \<open>\<open>toISOString\<close>, for the years 0 to 9999: the civil date of a day, counted from the first of March.\<close>

definition civil_date :: "int \<Rightarrow> int \<times> int \<times> int" where
  "civil_date days =
     (let z = days + 719468; era = z div 146097; doe = z mod 146097;
          yoe = (doe - doe div 1460 + doe div 36524 - doe div 146096) div 365;
          doy = doe - (365 * yoe + yoe div 4 - yoe div 100);
          mp = (5 * doy + 2) div 153;
          m = (if mp < 10 then mp + 3 else mp - 9)
      in (yoe + era * 400 + (if m \<le> 2 then 1 else 0), m, doy - (153 * mp + 2) div 5 + 1))"

definition pad_int :: "nat \<Rightarrow> int \<Rightarrow> string" where
  "pad_int w n = (let s = show_int n in replicate (w - length s) CHR ''0'' @ s)"

definition iso_text :: "int \<Rightarrow> string" where
  "iso_text t =
     (let (y, m, d) = civil_date (t div 86400000); r = t mod 86400000
      in pad_int 4 y @ ''-'' @ pad_int 2 m @ ''-'' @ pad_int 2 d @ ''T'' @ pad_int 2 (r div 3600000) @ '':''
         @ pad_int 2 (r div 60000 mod 60) @ '':'' @ pad_int 2 (r div 1000 mod 60) @ ''.'' @ pad_int 3 (r mod 1000)
         @ ''Z'')"

section \<open>State and answers\<close>

record project_row =
  pj_id :: string
  pj_orgId :: string
  pj_name :: string
  pj_slug :: string
  pj_description :: "string option"
  pj_environment :: "string option"
  pj_defaultWalletId :: "string option"
  pj_status :: string
  pj_archivedAt :: "int option"
  pj_deletedAt :: "int option"
  pj_createdAt :: int
  pj_updatedAt :: int

record invitation_row =
  iv_id :: string
  iv_orgId :: string
  iv_email :: string
  iv_role :: string
  iv_token :: string
  iv_status :: string
  iv_expiresAt :: int
  iv_acceptedAt :: "int option"
  iv_deletedAt :: "int option"
  iv_createdAt :: int

record api_state =
  ap_access :: access_db
  ap_db :: db
  ap_projects :: "project_row list"
  ap_delegations :: "delegation_row list"
  ap_events :: "event_payload list"
  ap_invitations :: "invitation_row list"

record api_env =
  av_access :: access_env
  av_id :: "string \<Rightarrow> nat \<Rightarrow> string"
  av_staleness :: "string option"

abbreviation av_now :: "api_env \<Rightarrow> int" where
  "av_now env \<equiv> ae_now (av_access env)"

text \<open>A body is JSON, a row, or a message beside a row.\<close>

datatype 'b body = Json json | Row 'b | Noted string 'b

type_synonym 'b handled = "(thrown + int \<times> 'b body) \<times> api_state"

definition api_error :: "(string \<times> json) list \<Rightarrow> int \<Rightarrow> string \<Rightarrow> string \<Rightarrow> int \<times> 'b body" where
  "api_error extra status msg code =
     (status, Json (JObj [(''error'', JObj ([(''message'', JStr msg), (''code'', JStr code)] @ extra))]))"

text \<open>Some routers add the failure class and the request to their errors.\<close>

definition class_extra :: "request_vars \<Rightarrow> (string \<times> json) list" where
  "class_extra cx =
     (''failureClass'', JStr ''persistent'')
       # (case cx_requestId cx of Some r \<Rightarrow> [(''requestId'', JStr r)] | None \<Rightarrow> [])"

definition say :: "string \<Rightarrow> int \<times> 'b body" where
  "say msg = (200, Json (JObj [(''message'', JStr msg)]))"

text \<open>The routers that catch the errors of the hierarchy themselves.\<close>

definition catch_app :: "'b handled \<Rightarrow> 'b handled" where
  "catch_app h =
     (case h of
        (Inl (ErrObj f c), st) \<Rightarrow>
          if inst_of (ErrObj f c) CAppError
          then (Inr (or_default (e_status f) 500,
                  Json (JObj [(''error'', JObj ((''message'', JStr (e_msg f))
                    # (case e_code f of Some k \<Rightarrow> [(''code'', JStr k)] | None \<Rightarrow> [])))])), st)
          else h
      | _ \<Rightarrow> h)"

definition record_events :: "event_payload list \<Rightarrow> api_state \<Rightarrow> api_state" where
  "record_events es st = st\<lparr>ap_events := ap_events st @ es\<rparr>"

definition write_db :: "(db \<Rightarrow> db) \<Rightarrow> api_state \<Rightarrow> api_state" where
  "write_db f st = st\<lparr>ap_db := f (ap_db st)\<rparr>"

section \<open>Values the routers share\<close>

definition json_int :: "int option \<Rightarrow> json" where
  "json_int x = (case x of Some n \<Rightarrow> JNum n | None \<Rightarrow> JNull)"

definition defined :: "string \<Rightarrow> string option \<Rightarrow> (string \<times> json) list" where
  "defined k v = (case v of Some s \<Rightarrow> [(k, JStr s)] | None \<Rightarrow> [])"

fun type_name :: "transition_type \<Rightarrow> string" where
  "type_name Automatic = ''automatic''"
| "type_name Manual = ''manual''"

definition foreign_key_error :: "string \<Rightarrow> thrown" where
  "foreign_key_error t = js_Error (''insert on table '' @ dq t @ '' violates foreign key constraint'')"

text \<open>The columns of a policy that are not null make the defaults of the code unreachable.\<close>

definition snapshotPolicyOnStart :: "int \<Rightarrow> policy_row \<Rightarrow> json" where
  "snapshotPolicyOnStart now p =
     JObj [(''policyId'', JStr (po_id p)), (''policyName'', JStr (po_name p)),
       (''renewThreshold'', JNum (po_renewThreshold p)), (''renewExtension'', JNum (po_renewExtension p)),
       (''maxTotalEpochs'', json_int (po_maxTotalEpochs p)),
       (''autoRenewalEnabled'', JBool (po_autoRenewalEnabled p)), (''active'', JBool (po_active p)),
       (''scope'', json_opt (po_scope p)), (''scopeTargetId'', json_opt (po_scopeTargetId p)),
       (''budgetId'', json_opt (po_budgetId p)), (''spendingLimitId'', json_opt (po_spendingLimitId p)),
       (''publisherPriorityOverride'', json_int (po_publisherPriorityOverride p)),
       (''status'', JStr (po_status p)), (''snapshotAt'', JStr (iso_text now))]"

definition invalid :: "string \<Rightarrow> api_state \<Rightarrow> 'b handled" where
  "invalid msg st = (Inr (api_error [] 400 msg ''VALIDATION_ERROR''), st)"

text \<open>Invariant 8: an entity traces to exactly one organization.\<close>

definition verifyOrgChain :: "string option \<Rightarrow> thrown + string" where
  "verifyOrgChain org =
     (case truthy org of
        None \<Rightarrow> Inl (ErrObj (AppError ''Entity must have an orgId'' 400 (Some ''VALIDATION_ERROR'') None) None)
      | Some i \<Rightarrow> Inr i)"

definition owner_event ::
    "api_env \<Rightarrow> request_vars \<Rightarrow> string \<Rightarrow> string \<Rightarrow> string \<Rightarrow> string \<Rightarrow> json option \<Rightarrow> event_payload" where
  "owner_event env cx org name ty i details =
     createEvent (av_now env) name org ty i (ActHuman (or_default (cx_userId cx) '''')) details None"

definition entity_spec :: "string \<Rightarrow> string \<Rightarrow> json option \<Rightarrow> audit_spec" where
  "entity_spec ty event details = \<lparr>as_event = event, as_entityType = ty, as_details = details\<rparr>"

section \<open>Audit\<close>

definition next_audit_id :: "api_env \<Rightarrow> api_state \<Rightarrow> string" where
  "next_audit_id env st = av_id env ''audit_logs'' (length (db_audits (ap_db st)))"

definition add_audit :: "audit_row \<Rightarrow> api_state \<Rightarrow> api_state" where
  "add_audit row = write_db (\<lambda>d. d\<lparr>db_audits := db_audits d @ [row]\<rparr>)"

text \<open>\<open>withAudit\<close> on a statement: its error, or that of the entry, undoes both.\<close>

definition with_audit ::
    "api_env \<Rightarrow> request \<Rightarrow> request_vars \<Rightarrow> (api_state \<Rightarrow> thrown + api_state) \<Rightarrow> audit_spec \<Rightarrow> string \<Rightarrow> api_state
     \<Rightarrow> thrown + api_state" where
  "with_audit env rq cx fn spec entityId st =
     bindE (fn st) (\<lambda>st1.
       bindE (audit_entry (next_audit_id env st1) (av_now env) rq cx spec entityId) (\<lambda>row. Inr (add_audit row st1)))"

text \<open>\<open>logAudit\<close> writes no entry without an organization and never fails.\<close>

definition logAudit ::
    "api_env \<Rightarrow> request \<Rightarrow> request_vars \<Rightarrow> string \<Rightarrow> string \<Rightarrow> string option \<Rightarrow> json option \<Rightarrow> api_state \<Rightarrow> api_state" where
  "logAudit env rq cx action rty rid details st =
     (case audit_entry (next_audit_id env st) (av_now env) rq cx
             \<lparr>as_event = action, as_entityType = rty, as_details = details\<rparr> (or_default rid '''') of
        Inl _ \<Rightarrow> st
      | Inr row \<Rightarrow> add_audit row st)"

definition logAuditSystem ::
    "api_env \<Rightarrow> string \<Rightarrow> string \<Rightarrow> string \<Rightarrow> string option \<Rightarrow> json \<Rightarrow> api_state \<Rightarrow> api_state" where
  "logAuditSystem env org action rty rid details st =
     (if is_uuid org
      then add_audit ((new_audit (next_audit_id env st) (av_now env) org action rty)
             \<lparr>au_resourceId := truthy rid, au_details := Some details\<rparr>) st
      else st)"

section \<open>Tables of entities with a state machine\<close>

record 'r entity_table =
  et_rows :: "api_state \<Rightarrow> 'r list"
  et_id :: "'r \<Rightarrow> string"
  et_org :: "'r \<Rightarrow> string"
  et_status :: "'r \<Rightarrow> string"
  et_update :: "string \<Rightarrow> ('r \<Rightarrow> 'r) \<Rightarrow> api_state \<Rightarrow> api_state"
  et_machine :: machine_name

definition find_entity :: "'r entity_table \<Rightarrow> api_state \<Rightarrow> string \<Rightarrow> string \<Rightarrow> 'r option" where
  "find_entity T st org i = first_row (filter (\<lambda>r. et_id T r = i \<and> et_org T r = org) (et_rows T st))"

text \<open>The start of every item route: the row with the identifier of the path in the organization.\<close>

definition on_item ::
    "'r entity_table \<Rightarrow> string \<Rightarrow> (request_vars \<Rightarrow> (string \<times> json) list) \<Rightarrow> request \<Rightarrow> request_vars
     \<Rightarrow> (string \<Rightarrow> string \<Rightarrow> 'r \<Rightarrow> api_state \<Rightarrow> 'b handled) \<Rightarrow> api_state \<Rightarrow> 'b handled" where
  "on_item T name extra rq cx k st =
     (case truthy (rq_param rq ''id'') of
        None \<Rightarrow> (Inr (api_error (extra cx) 400 (name @ '' ID is required'') ''VALIDATION_ERROR''), st)
      | Some i \<Rightarrow>
          (case cx_orgId cx of
             None \<Rightarrow> (Inl undefined_arg, st)
           | Some org \<Rightarrow>
               if \<not> is_uuid i then (Inl (uuid_error i), st)
               else (case find_entity T st org i of
                       None \<Rightarrow> (Inr (api_error (extra cx) 404 (name @ '' not found'') ''NOT_FOUND''), st)
                     | Some r \<Rightarrow> k org i r st)))"

text \<open>A validated transition, written with its audit entry; events and answer follow the transaction.\<close>

definition move_item ::
    "'r entity_table \<Rightarrow> api_env \<Rightarrow> request \<Rightarrow> request_vars \<Rightarrow> string \<Rightarrow> 'r \<Rightarrow> string \<Rightarrow> ('r \<Rightarrow> 'r) \<Rightarrow> audit_spec
     \<Rightarrow> api_state \<Rightarrow> thrown + api_state" where
  "move_item T env rq cx i r target upd spec st =
     bindE (validateTransition loaded_machines (et_machine T) (et_status T r) target False)
       (\<lambda>_. with_audit env rq cx (\<lambda>s. Inr (et_update T i upd s)) spec i st)"

definition conclude :: "thrown + api_state \<Rightarrow> event_payload list \<Rightarrow> int \<times> 'b body \<Rightarrow> api_state \<Rightarrow> 'b handled" where
  "conclude res es ans st =
     (case res of Inl e \<Rightarrow> (Inl e, st) | Inr st' \<Rightarrow> (Inr ans, record_events es st'))"

section \<open>The pipeline of a request\<close>

definition serve ::
    "api_env \<Rightarrow> string \<Rightarrow> guard list \<Rightarrow> request \<Rightarrow> bool \<Rightarrow> (request_vars \<Rightarrow> api_state \<Rightarrow> 'b handled)
     \<Rightarrow> api_state \<Rightarrow> 'b body reply \<times> api_state" where
  "serve env rid guards rq body_ok h st =
     (case run_guards (av_access env) rq guards (fresh_vars rid, ap_access st) of
        Respond r \<Rightarrow> (Refused r, st)
      | Throws e \<Rightarrow> (Failed e, st)
      | Pass (cx, d) \<Rightarrow>
          let st' = st\<lparr>ap_access := d\<rparr>
          in if \<not> body_ok then (Invalid, st')
             else (case h cx st' of (Inl e, st1) \<Rightarrow> (Failed e, st1) | (Inr a, st1) \<Rightarrow> (Answered a, st1)))"

section \<open>What a router may do to its table\<close>

text \<open>
  The abstract contract, over the identifiers and statuses of a table: a status moves along the edges of
  the machine, and new rows start in one of the given statuses.
\<close>

type_synonym keys = "(string \<times> string) list"

definition set_key :: "string \<Rightarrow> string \<Rightarrow> keys \<Rightarrow> keys" where
  "set_key i t ks = map (\<lambda>k. if fst k = i then (i, t) else k) ks"

inductive key_step :: "machine_name \<Rightarrow> string set \<Rightarrow> keys \<Rightarrow> keys \<Rightarrow> bool" for n S where
  move: "(i, s) \<in> set ks \<Longrightarrow> step_ok n s t \<Longrightarrow> key_step n S ks (set_key i t ks)"
| add: "i \<notin> fst ` set ks \<Longrightarrow> s \<in> S \<Longrightarrow> key_step n S ks (ks @ [(i, s)])"

inductive_cases key_stepE: "key_step n S ks ks'"

abbreviation key_steps :: "machine_name \<Rightarrow> string set \<Rightarrow> keys \<Rightarrow> keys \<Rightarrow> bool" where
  "key_steps n S \<equiv> (key_step n S)\<^sup>*\<^sup>*"

lemma set_key_fst [simp]: "map fst (set_key i t ks) = map fst ks"
  by (auto simp: set_key_def)

lemma set_key_mem: "(j, s) \<in> set (set_key i t ks) \<longleftrightarrow>
    (if j = i then s = t \<and> j \<in> fst ` set ks else (j, s) \<in> set ks)"
  by (induction ks) (auto simp: set_key_def split: if_splits)

lemma key_in: "(i, s) \<in> set ks \<Longrightarrow> i \<in> fst ` set ks"
  by force

interpretation keys_distinct: step_invariant "key_step n S" "\<lambda>ks. distinct (map fst ks)" for n S
  by unfold_locales (auto elim!: key_stepE)

text \<open>A row in a terminal status stays in it.\<close>

interpretation keys_final: step_invariant "key_step n S"
    "\<lambda>ks. distinct (map fst ks) \<and> (i, s) \<in> set ks \<and> s \<in> set (sm_terminal (machine_of n))" for n S i s
proof
  fix ks ks' assume inv: "distinct (map fst ks) \<and> (i, s) \<in> set ks \<and> s \<in> set (sm_terminal (machine_of n))"
    and step: "key_step n S ks ks'"
  from step show "distinct (map fst ks') \<and> (i, s) \<in> set ks' \<and> s \<in> set (sm_terminal (machine_of n))"
  proof cases
    case (move j u t)
    with inv have "u = s" if "j = i" using that by (auto dest: eq_key_imp_eq_value)
    with move inv have "j \<noteq> i" using lc.stuck [of s n t] by auto
    with move inv show ?thesis by (auto simp: set_key_mem)
  next
    case (add j u)
    with inv show ?thesis by auto
  qed
qed

section \<open>Tables under the contract\<close>

definition keys_of :: "'r entity_table \<Rightarrow> api_state \<Rightarrow> keys" where
  "keys_of T st = map (\<lambda>r. (et_id T r, et_status T r)) (et_rows T st)"

lemma find_entity_key: "find_entity T st org i = Some r \<Longrightarrow> (i, et_status T r) \<in> set (keys_of T st)"
  by (auto simp: find_entity_def keys_of_def dest!: first_row_filter_SomeD)

lemma snd_catch_app [simp]: "snd (catch_app h) = snd h"
  by (auto simp: catch_app_def split: prod.split sum.split thrown.split)

lemma ap_record_events [simp]:
  "ap_db (record_events es st) = ap_db st" "ap_access (record_events es st) = ap_access st"
  "ap_projects (record_events es st) = ap_projects st" "ap_delegations (record_events es st) = ap_delegations st"
  "ap_invitations (record_events es st) = ap_invitations st"
  by (simp_all add: record_events_def)

lemma ap_write_db [simp]:
  "ap_db (write_db f st) = f (ap_db st)" "ap_access (write_db f st) = ap_access st"
  "ap_projects (write_db f st) = ap_projects st" "ap_delegations (write_db f st) = ap_delegations st"
  "ap_invitations (write_db f st) = ap_invitations st"
  by (simp_all add: write_db_def)

lemma ap_add_audit [simp]:
  "ap_access (add_audit row st) = ap_access st"
  "ap_projects (add_audit row st) = ap_projects st" "ap_delegations (add_audit row st) = ap_delegations st"
  "ap_invitations (add_audit row st) = ap_invitations st"
  by (simp_all add: add_audit_def)

lemma audit_rows [simp]:
  "db_blobs (ap_db (add_audit row st)) = db_blobs (ap_db st)" "db_wallets (ap_db (add_audit row st)) = db_wallets (ap_db st)"
  "db_blobs (ap_db (logAudit env rq cx a ty i ds st)) = db_blobs (ap_db st)"
  by (simp_all add: add_audit_def logAudit_def split: sum.split)

lemma with_audit_ok:
  "with_audit env rq cx fn spec i st = Inr st' \<Longrightarrow> \<exists>st1 row. fn st = Inr st1 \<and> st' = add_audit row st1"
  by (auto simp: with_audit_def bindE_def split: sum.splits)

lemma conclude_access:
  assumes "\<And>st1. fn st = Inr st1 \<Longrightarrow> ap_access st1 = ap_access st"
  shows "ap_access (snd (conclude (with_audit env rq cx fn spec i st) es ans st)) = ap_access st"
proof (cases "with_audit env rq cx fn spec i st")
  case (Inr st')
  then obtain st1 row where "fn st = Inr st1" "st' = add_audit row st1" using with_audit_ok by blast
  with Inr assms show ?thesis by (simp add: conclude_def)
qed (simp add: conclude_def)

lemma move_item_access:
  assumes "\<And>s. ap_access (et_update T i upd s) = ap_access s"
  shows "ap_access (snd (conclude (move_item T env rq cx i r target upd spec st) es ans st)) = ap_access st"
proof (cases "validateTransition loaded_machines (et_machine T) (et_status T r) target False")
  case (Inr t)
  have "ap_access (snd (conclude (with_audit env rq cx (\<lambda>s. Inr (et_update T i upd s)) spec i st) es ans st)) = ap_access st"
    using assms by (intro conclude_access) auto
  with Inr show ?thesis by (simp add: move_item_def)
qed (simp add: move_item_def conclude_def)

lemma move_item_cases:
  assumes "P st" and "P (snd (conclude (with_audit env rq cx (\<lambda>s. Inr (et_update T i upd s)) spec i st) es ans st))"
  shows "P (snd (conclude (move_item T env rq cx i r target upd spec st) es ans st))"
  using assms by (cases "validateTransition loaded_machines (et_machine T) (et_status T r) target False")
    (simp_all add: move_item_def conclude_def)

text \<open>
  What a table promises: an update writes the rows of one identifier, and the audit log, the events and the
  tables of the guards are others.
\<close>

locale entity_laws =
  fixes T :: "'r entity_table"
  assumes rows_update: "et_rows T (et_update T i f st) = sql_update (\<lambda>r. et_id T r = i) f (et_rows T st)"
    and rows_audit: "et_rows T (add_audit a st) = et_rows T st"
    and rows_events: "et_rows T (record_events es st) = et_rows T st"
    and rows_access: "et_rows T (st\<lparr>ap_access := d\<rparr>) = et_rows T st"
begin

lemma keys_frames [simp]:
  "keys_of T (add_audit a st) = keys_of T st" "keys_of T (record_events es st) = keys_of T st"
  "keys_of T (st\<lparr>ap_access := d\<rparr>) = keys_of T st"
  by (simp_all add: keys_of_def rows_audit rows_events rows_access)

lemma keys_update:
  assumes "\<And>x. et_id T (f x) = et_id T x \<and> et_status T (f x) = t"
  shows "keys_of T (et_update T i f st) = set_key i t (keys_of T st)"
  using assms by (simp add: keys_of_def rows_update sql_update_def set_key_def)

lemma keys_frame:
  assumes "\<And>x. et_id T (f x) = et_id T x \<and> et_status T (f x) = et_status T x"
  shows "keys_of T (et_update T i f st) = keys_of T st"
  unfolding keys_of_def rows_update using assms by (intro map_sql_update_frame) simp

lemma keys_with_audit:
  "with_audit env rq cx fn spec i st = Inr st' \<Longrightarrow> \<exists>st1. fn st = Inr st1 \<and> keys_of T st' = keys_of T st1"
  by (auto dest!: with_audit_ok)

lemma keys_logAudit [simp]: "keys_of T (logAudit env rq cx a ty i ds st) = keys_of T st"
  by (simp add: logAudit_def split: sum.split)

lemma keys_logAuditSystem [simp]: "keys_of T (logAuditSystem env org a ty i ds st) = keys_of T st"
  by (simp add: logAuditSystem_def)

text \<open>Writes with an audit entry, by what the statement does.\<close>

lemma write_steps:
  assumes "\<And>st1. fn st = Inr st1 \<Longrightarrow> key_steps n S (keys_of T st) (keys_of T st1)"
  shows "key_steps n S (keys_of T st) (keys_of T (snd (conclude (with_audit env rq cx fn spec i st) es ans st)))"
  using keys_with_audit [of env rq cx fn spec i st] assms by (auto simp: conclude_def split: sum.split)

lemma conclude_rows:
  assumes "Q (et_rows T st)" and "\<And>st1. fn st = Inr st1 \<Longrightarrow> Q (et_rows T st1)"
  shows "Q (et_rows T (snd (conclude (with_audit env rq cx fn spec i st) es ans st)))"
proof (cases "with_audit env rq cx fn spec i st")
  case (Inr st')
  then obtain st1 row where "fn st = Inr st1" "st' = add_audit row st1" using with_audit_ok by blast
  with Inr assms(2) show ?thesis by (simp add: conclude_def rows_audit rows_events)
qed (simp add: conclude_def assms(1))

lemma append_steps:
  assumes "et_rows T st' = et_rows T st @ [r]" and "et_id T r \<notin> et_id T ` set (et_rows T st)" and "et_status T r \<in> S"
  shows "key_steps n S (keys_of T st) (keys_of T st')"
  using assms key_step.add [of "et_id T r" "keys_of T st" "et_status T r" S n]
  by (auto simp: keys_of_def image_image)

lemma move_steps:
  assumes "find_entity T st org i = Some r"
    and "\<And>x. et_id T (upd x) = et_id T x \<and> et_status T (upd x) = target"
  shows "key_steps (et_machine T) S (keys_of T st)
    (keys_of T (snd (conclude (move_item T env rq cx i r target upd spec st) es ans st)))"
proof (cases "move_item T env rq cx i r target upd spec st")
  case (Inr st')
  then have edge: "step_ok (et_machine T) (et_status T r) target"
    and "keys_of T st' = keys_of T (et_update T i upd st)"
    by (auto simp: move_item_def bindE_def step_ok_def dest: keys_with_audit split: sum.splits)
  with Inr keys_update [OF assms(2)] key_step.move [OF find_entity_key [OF assms(1)] edge]
  show ?thesis by (simp add: conclude_def r_into_rtranclp)
qed (simp add: conclude_def)

lemma frame_steps:
  assumes "\<And>x. et_id T (f x) = et_id T x \<and> et_status T (f x) = et_status T x"
  shows "key_steps n S (keys_of T st)
    (keys_of T (snd (conclude (with_audit env rq cx (\<lambda>s. Inr (et_update T i f s)) spec i st) es ans st)))"
  using keys_frame [OF assms] by (intro write_steps) auto

end

lemma truthy_SomeD: "truthy x = Some s \<Longrightarrow> x = Some s"
  by (auto simp: truthy_def split: option.splits list.splits)

lemma on_item_cases:
  assumes "P st" and "\<And>org i r. cx_orgId cx = Some org \<Longrightarrow> rq_param rq ''id'' = Some i \<Longrightarrow>
    find_entity T st org i = Some r \<Longrightarrow> P (snd (k org i r st))"
  shows "P (snd (on_item T name extra rq cx k st))"
  using assms by (auto simp: on_item_def dest: truthy_SomeD split: option.split)

lemma serve_cases:
  assumes "P st" and "\<And>cx d. run_guards (av_access env) rq gs (fresh_vars rid, ap_access st) = Pass (cx, d) \<Longrightarrow>
    P (st\<lparr>ap_access := d\<rparr>) \<and> P (snd (h cx (st\<lparr>ap_access := d\<rparr>)))"
  shows "P (snd (serve env rid gs rq ok h st))"
  using assms by (auto simp: serve_def Let_def split: outcome.split prod.split sum.split)

lemma serve_ok_cases:
  assumes "P st" and "\<And>d. P (st\<lparr>ap_access := d\<rparr>)" and "\<And>cx d. ok \<Longrightarrow> P (snd (h cx (st\<lparr>ap_access := d\<rparr>)))"
  shows "P (snd (serve env rid gs rq ok h st))"
  using assms by (auto simp: serve_def Let_def split: outcome.split prod.split sum.split) (metis snd_conv)+

lemma on_item_steps:
  assumes "\<And>org i r. find_entity T st org i = Some r \<Longrightarrow>
    key_steps n S (keys_of T' st) (keys_of T' (snd (k org i r st)))"
  shows "key_steps n S (keys_of T' st) (keys_of T' (snd (on_item T name extra rq cx k st)))"
  by (rule on_item_cases) (auto intro: assms)

lemma on_item_access:
  assumes "\<And>org i r. ap_access (snd (k org i r st)) = ap_access st"
  shows "ap_access (snd (on_item T name extra rq cx k st)) = ap_access st"
  by (rule on_item_cases) (auto intro: assms)

context entity_laws
begin

lemma serve_steps:
  assumes "\<And>cx s. key_steps n S (keys_of T s) (keys_of T (snd (h cx s)))"
  shows "key_steps n S (keys_of T st) (keys_of T (snd (serve env rid gs rq ok h st)))"
proof (rule serve_cases)
  fix cx d
  show "key_steps n S (keys_of T st) (keys_of T (st\<lparr>ap_access := d\<rparr>))
    \<and> key_steps n S (keys_of T st) (keys_of T (snd (h cx (st\<lparr>ap_access := d\<rparr>))))"
    using assms [of "st\<lparr>ap_access := d\<rparr>" cx] by simp
qed simp

end

section \<open>Item routes behind the organization guard\<close>

text \<open>Guards that read the variables of a request and do not set them.\<close>

fun reads_vars :: "guard \<Rightarrow> bool" where
  "reads_vars (GRole rs) = True"
| "reads_vars (GCap cs) = True"
| "reads_vars _ = False"

lemma reads_vars_pass: "list_all reads_vars gs \<Longrightarrow> run_guards env rq gs s = Pass s' \<Longrightarrow> s' = s"
proof (induction gs arbitrary: s)
  case (Cons g gs)
  then show ?case
    by (cases g; cases s) (auto simp: requireRole_def requireCapability_def result_simps split: if_splits)
qed simp

lemma run_guards_orgs: "run_guards env rq gs s = Pass s' \<Longrightarrow> ac_orgs (snd s') = ac_orgs (snd s)"
proof (induction gs arbitrary: s)
  case (Cons g gs)
  from Cons.prems obtain s1 where s1: "run_guard env rq g s = Pass s1" "run_guards env rq gs s1 = Pass s'"
    by (auto simp: next_mw_Pass)
  from s1(1) have "ac_orgs (snd s1) = ac_orgs (snd s)"
    by (cases g; cases s) (auto simp: next_mw_Pass requireAuthOrApiKey_def accept_key_def
        split: option.splits if_splits prod.splits)
  with Cons.IH [OF s1(2)] show ?case by simp
qed simp

lemma ap_access_logAudit [simp]:
  "ap_access (logAudit env rq cx a ty i ds st) = ap_access st"
  "ap_access (logAuditSystem env org a ty i js st) = ap_access st"
  by (simp_all add: logAudit_def logAuditSystem_def split: sum.split)

text \<open>\<open>requireOrg\<close> takes the identifier of the item for the organization, so the item is never found.\<close>

definition ids_apart :: "'r entity_table \<Rightarrow> api_state \<Rightarrow> bool" where
  "ids_apart T st \<longleftrightarrow> (\<forall>r \<in> set (et_rows T st). \<forall>g \<in> set (ac_orgs (ap_access st)). et_id T r \<noteq> og_id g)"

lemma item_guards_org:
  assumes "run_guards env rq (GAuth # GOrg # gs) (fresh_vars rid, d) = Pass (cx, d')" and "list_all reads_vars gs"
    and "truthy (rq_param rq ''id'') = Some i"
  shows "d' = d \<and> cx_orgId cx = Some i \<and> (\<exists>g \<in> set (ac_orgs d). og_id g = i)"
proof -
  from assms(1) obtain s where s: "run_guards env rq [GAuth, GOrg] (fresh_vars rid, d) = Pass s"
    "run_guards env rq gs s = Pass (cx, d')" by (auto simp: result_simps)
  have "s = (cx, d')" using reads_vars_pass [OF assms(2) s(2)] by simp
  with s(1) assms(3) show ?thesis
    by (auto simp: result_simps requested_org_def member_vars_def find_org_def dest!: first_row_filter_SomeD)
qed

context entity_laws
begin

lemma serve_item_inert:
  assumes "ids_apart T st" and "list_all reads_vars gs"
    and "\<And>cx s. snd (h cx s) = snd (on_item T name extra rq cx (k cx) s)"
  shows "\<exists>d. snd (serve env rid (GAuth # GOrg # gs) rq ok h st) = st\<lparr>ap_access := d\<rparr>"
proof (rule serve_cases)
  fix cx d assume pass: "run_guards (av_access env) rq (GAuth # GOrg # gs) (fresh_vars rid, ap_access st) = Pass (cx, d)"
  have "snd (h cx (st\<lparr>ap_access := d\<rparr>)) = st\<lparr>ap_access := d\<rparr>"
  proof (cases "truthy (rq_param rq ''id'')")
    case None
    with assms(3) show ?thesis by (simp add: on_item_def)
  next
    case (Some i)
    from item_guards_org [OF pass assms(2) Some] assms(1)
    have "find_entity T (st\<lparr>ap_access := d\<rparr>) i i = None" "cx_orgId cx = Some i"
      by (auto simp: ids_apart_def find_entity_def first_row_filter_None rows_access)
    with assms(3) Some show ?thesis by (simp add: on_item_def)
  qed
  then show "(\<exists>d'. st\<lparr>ap_access := d\<rparr> = st\<lparr>ap_access := d'\<rparr>)
    \<and> (\<exists>d'. snd (h cx (st\<lparr>ap_access := d\<rparr>)) = st\<lparr>ap_access := d'\<rparr>)" by metis
qed (rule exI [of _ "ap_access st"], simp)

end

text \<open>How a route extends the table: not at all behind the guard, else by what its handler appends.\<close>

context entity_laws
begin

lemma serve_item_appends:
  assumes "ids_apart T st" and "list_all reads_vars gs"
    and "\<And>cx s. snd (h cx s) = snd (on_item T name extra rq cx (k cx) s)"
  shows "\<exists>new. et_rows T (snd (serve env rid (GAuth # GOrg # gs) rq ok h st)) = et_rows T st @ new \<and> (\<forall>r \<in> set new. Q r)"
proof -
  obtain d where "snd (serve env rid (GAuth # GOrg # gs) rq ok h st) = st\<lparr>ap_access := d\<rparr>"
    using serve_item_inert [OF assms] by blast
  then show ?thesis by (simp add: rows_access)
qed

lemma serve_new_appends:
  assumes "\<And>cx s. \<exists>new. et_rows T (snd (h cx s)) = et_rows T s @ new \<and> (\<forall>r \<in> set new. Q r)"
  shows "\<exists>new. et_rows T (snd (serve env rid gs rq ok h st)) = et_rows T st @ new \<and> (\<forall>r \<in> set new. Q r)"
proof (rule serve_cases)
  fix cx d
  from assms [of cx "st\<lparr>ap_access := d\<rparr>"]
  show "(\<exists>new. et_rows T (st\<lparr>ap_access := d\<rparr>) = et_rows T st @ new \<and> (\<forall>r \<in> set new. Q r))
    \<and> (\<exists>new. et_rows T (snd (h cx (st\<lparr>ap_access := d\<rparr>))) = et_rows T st @ new \<and> (\<forall>r \<in> set new. Q r))"
    by (simp add: rows_access)
qed simp

end

lemma serve_orgs:
  assumes "\<And>cx s. ap_access (snd (h cx s)) = ap_access s"
  shows "ac_orgs (ap_access (snd (serve env rid gs rq ok h st))) = ac_orgs (ap_access st)"
  by (rule serve_cases) (auto simp: assms dest!: run_guards_orgs)

text \<open>Identifiers that name no organization, now and for the rows to come.\<close>

definition ids_stay_apart :: "api_env \<Rightarrow> string \<Rightarrow> 'r entity_table \<Rightarrow> api_state \<Rightarrow> bool" where
  "ids_stay_apart env t T st \<longleftrightarrow>
     ids_apart T st \<and> (\<forall>n. \<forall>g \<in> set (ac_orgs (ap_access st)). av_id env t n \<noteq> og_id g)"

section \<open>Sequences of requests\<close>

definition run_requests :: "(string \<Rightarrow> 'x \<Rightarrow> 's \<Rightarrow> 'y \<times> 's) \<Rightarrow> (string \<times> 'x) list \<Rightarrow> 's \<Rightarrow> 's" where
  "run_requests req xs st = fold (\<lambda>(rid, x) st. snd (req rid x st)) xs st"

lemma run_requests_invariant:
  assumes "\<And>rid x st. I st \<Longrightarrow> I (snd (req rid x st))" and "I st"
  shows "I (run_requests req xs st)"
  using assms(2) unfolding run_requests_def by (induction xs arbitrary: st) (auto intro: assms(1))

text \<open>A router whose requests keep the contract of its table.\<close>

locale router = entity_laws T for T :: "'r entity_table" +
  fixes req :: "string \<Rightarrow> 'x \<Rightarrow> api_state \<Rightarrow> 'y \<times> api_state" and S :: "string set"
  assumes request_steps: "key_steps (et_machine T) S (keys_of T st) (keys_of T (snd (req rid x st)))"
begin

lemma run_steps: "key_steps (et_machine T) S (keys_of T st) (keys_of T (run_requests req xs st))"
  unfolding run_requests_def
proof (induction xs arbitrary: st)
  case (Cons x xs)
  from rtranclp_trans [OF request_steps Cons.IH] show ?case by (cases x) simp
qed simp

lemma run_final:
  assumes "distinct (map fst (keys_of T st))" and "(i, s) \<in> set (keys_of T st)"
    and "s \<in> set (sm_terminal (machine_of (et_machine T)))"
  shows "(i, s) \<in> set (keys_of T (run_requests req xs st))"
  using keys_final.reachable [OF run_steps] assms by blast

end

text \<open>A router whose item routes never find their item: the table only grows, by rows of the creation.\<close>

locale closed_router = entity_laws T for T :: "'r entity_table" +
  fixes env :: api_env and t :: string and req :: "string \<Rightarrow> 'x \<Rightarrow> api_state \<Rightarrow> 'y \<times> api_state" and P :: "'r \<Rightarrow> bool"
  assumes request_orgs: "ac_orgs (ap_access (snd (req rid x st))) = ac_orgs (ap_access st)"
    and request_appends: "ids_apart T st \<Longrightarrow>
      \<exists>new. et_rows T (snd (req rid x st)) = et_rows T st @ new \<and> (\<forall>r \<in> set new. P r \<and> et_id T r \<in> range (av_id env t))"
begin

lemma request_stays_apart:
  assumes "ids_stay_apart env t T st"
  shows "ids_stay_apart env t T (snd (req rid x st))"
proof -
  from assms obtain new where "et_rows T (snd (req rid x st)) = et_rows T st @ new"
    "\<forall>r \<in> set new. P r \<and> et_id T r \<in> range (av_id env t)"
    using request_appends [of st rid x] by (auto simp: ids_stay_apart_def)
  with assms request_orgs [of rid x st] show ?thesis by (auto simp: ids_stay_apart_def ids_apart_def)
qed

lemma run_appends:
  assumes "ids_stay_apart env t T st"
  shows "\<exists>new. et_rows T (run_requests req xs st) = et_rows T st @ new \<and> (\<forall>r \<in> set new. P r)"
  using assms unfolding run_requests_def
proof (induction xs arbitrary: st)
  case (Cons x xs)
  obtain rid y where x: "x = (rid, y)" by (cases x)
  from Cons.prems obtain new where new: "et_rows T (snd (req rid y st)) = et_rows T st @ new"
    "\<forall>r \<in> set new. P r"
    using request_appends [of st rid y] by (auto simp: ids_stay_apart_def)
  from Cons.IH [OF request_stays_apart [OF Cons.prems, of rid y]] new show ?case by (auto simp: x)
qed simp

lemma run_invariant:
  assumes "ids_stay_apart env t T st" and "I st"
    and "\<And>rid x s. ids_apart T s \<Longrightarrow> I s \<Longrightarrow> I (snd (req rid x s))"
  shows "I (run_requests req xs st)"
proof -
  have "ids_stay_apart env t T (run_requests req xs st) \<and> I (run_requests req xs st)"
    by (rule run_requests_invariant [where I = "\<lambda>s. ids_stay_apart env t T s \<and> I s"])
      (use assms request_stays_apart in \<open>auto simp: ids_stay_apart_def\<close>)
  then show ?thesis ..
qed

end

section \<open>A caller for the witnesses\<close>

lemma sample_uuid_truthy: "truthy (Some (sample_uuid c)) = Some (sample_uuid c)"
  by (simp add: truthy_def sample_uuid_def)

lemma sample_uuid_eq: "sample_uuid c = sample_uuid c' \<longleftrightarrow> c = c'"
  by (simp add: sample_uuid_def)

lemma no_truthy [simp]: "truthy None = None"
  by (simp add: truthy_def)

abbreviation owner_vars :: request_vars where
  "owner_vars \<equiv> (fresh_vars ''r'')\<lparr>cx_userId := Some (sample_uuid CHR ''2''), cx_orgId := Some (sample_uuid CHR ''1''),
     cx_role := Some ''owner''\<rparr>"

abbreviation sample_db :: access_db where
  "sample_db \<equiv> os_access (sample_orgs ''active'')"

lemmas sample_guards = requireAuth_def bearer_token_def accept_token_def sample_request_def
  sample_access_env_def requireOrg_def requested_org_def uuid_arg_def find_org_def org_member_def sample_orgs_def
  sample_access_def sample_org_def fresh_vars_def member_vars_def

lemma sample_org_passes:
  "run_guards sample_access_env (sample_request None) [GAuth, GOrg] (fresh_vars ''r'', sample_db) = Pass (owner_vars, sample_db)"
  using sample_uuid_ok by (simp add: sample_uuid_truthy sample_uuid_eq sample_guards)

lemma sample_owner_passes:
  "run_guards sample_access_env (sample_request None) [GAuth, GOrg, GCap [c]] (fresh_vars ''r'', sample_db)
     = Pass (owner_vars, sample_db)"
  "run_guards sample_access_env (sample_request None) [GAuth, GOrg, GRole [''owner'', ''admin'']] (fresh_vars ''r'', sample_db)
     = Pass (owner_vars, sample_db)"
  using sample_uuid_ok
  by (cases c; simp add: sample_uuid_truthy sample_uuid_eq sample_guards requireCapability_def requireRole_def
      resolveEffectivePermissions_def getCapabilitiesForRole_def ROLE_CAPABILITIES_def all_capabilities_def js_set_def
      granted_def)+

end
