(* ===== verification/Renewal_Routes.thy ===== *)
theory Renewal_Routes
  imports Route_Base Renewal_Queue
begin

text \<open>
  Renewal jobs over the API: \<open>api/src/routes/renewal-jobs.ts\<close> with the snapshots of
  \<open>api/src/lib/edge-cases.ts\<close> and the checks of \<open>api/src/lib/invariant-check.ts\<close>, and the retry of an
  operator, \<open>api/src/lib/admin-actions.ts\<close> behind \<open>api/src/routes/admin.ts\<close>. The routes are composed
  with the cost engine they ask and with the queue that runs what they write. The list is in Pagination.
\<close>

section \<open>Checks and snapshots\<close>

definition job_table :: "job_row entity_table" where
  "job_table =
     \<lparr>et_rows = (\<lambda>st. db_jobs (ap_db st)), et_id = rj_id, et_org = rj_orgId, et_status = rj_status,
      et_update = (\<lambda>i f. write_db (upd_jobs (\<lambda>j. rj_id j = i) f)), et_machine = SM_renewal\<rparr>"

interpretation jobs: entity_laws job_table
  by unfold_locales (simp_all add: job_table_def upd_jobs_def add_audit_def)

text \<open>Invariant 4: at most one renewal in progress per blob.\<close>

definition ensureNoActiveRenewal :: "db \<Rightarrow> string \<Rightarrow> thrown + unit" where
  "ensureNoActiveRenewal d blob =
     (case first_row (filter (\<lambda>j. rj_blobRegistrationId j = blob \<and> rj_status j = ''in_progress'') (db_jobs d)) of
        Some _ \<Rightarrow> Inl (ErrObj (AppError (''Blob '' @ blob @ '' already has an in_progress renewal'') 409
                        (Some ''CONFLICT'') None) None)
      | None \<Rightarrow> Inr ())"

definition check_fields :: "budget_check \<Rightarrow> (string \<times> json) list" where
  "check_fields c =
     [(''allowed'', JBool (bc_allowed c)), (''softThresholdCrossed'', JBool (bc_softThresholdCrossed c)),
      (''hardLimitBlocked'', JBool (bc_hardLimitBlocked c))]
     @ defined ''blockingLimitId'' (bc_blockingLimitId c) @ defined ''message'' (bc_message c)"

definition freezeBudgetCheck :: "budget_check \<Rightarrow> int \<Rightarrow> json" where
  "freezeBudgetCheck c t = JObj (check_fields c @ [(''checkedAt'', JStr (iso_text t))])"

definition find_policy :: "db \<Rightarrow> string option \<Rightarrow> policy_row option" where
  "find_policy d p = (case truthy p of None \<Rightarrow> None | Some i \<Rightarrow> first_row (filter (\<lambda>q. po_id q = i) (db_policies d)))"

definition policy_field :: "int \<Rightarrow> policy_row option \<Rightarrow> (string \<times> json) list" where
  "policy_field now p = (case p of Some q \<Rightarrow> [(''policySnapshot'', snapshotPolicyOnStart now q)] | None \<Rightarrow> [])"

section \<open>Inserting a job\<close>

definition insert_renewal_job :: "job_row \<Rightarrow> db \<Rightarrow> thrown + db" where
  "insert_renewal_job j d =
     (if \<exists>x \<in> set (db_jobs d). rj_id x = rj_id j then Inl (duplicate_key ''renewal_jobs_pkey'')
      else if (\<forall>b \<in> set (db_blobs d). bl_id b \<noteq> rj_blobRegistrationId j)
        \<or> (\<exists>p. rj_policyId j = Some p \<and> (\<forall>q \<in> set (db_policies d). po_id q \<noteq> p))
      then Inl (foreign_key_error ''renewal_jobs'')
      else Inr (d\<lparr>db_jobs := db_jobs d @ [j]\<rparr>))"

definition next_job_id :: "api_env \<Rightarrow> api_state \<Rightarrow> string" where
  "next_job_id env st = av_id env ''renewal_jobs'' (length (db_jobs (ap_db st)))"

text \<open>The job that supersedes another one.\<close>

definition superseding :: "api_env \<Rightarrow> api_state \<Rightarrow> job_row \<Rightarrow> int option \<Rightarrow> (string \<times> json) list \<Rightarrow> job_row" where
  "superseding env st job cost metadata =
     (new_job (next_job_id env st) (av_now env) (rj_orgId job) (rj_blobRegistrationId job))
       \<lparr>rj_policyId := rj_policyId job, rj_maxAttempts := rj_maxAttempts job, rj_supersedes := Some (rj_id job),
        rj_estimatedCost := cost, rj_estimatedAt := Some (av_now env), rj_metadata := Some (JObj metadata)\<rparr>"

section \<open>Creation\<close>

record job_body =
  jb_blobRegistrationId :: string
  jb_walletId :: "string option"
  jb_projectId :: "string option"
  jb_policyId :: "string option"
  jb_extensionEpochs :: "int option"
  jb_maxAttempts :: "int option"

definition confidence :: "cost_estimate \<Rightarrow> string" where
  "confidence e = (if ce_fresh e then ''fresh'' else ''stale'')"

definition requested_job ::
    "api_env \<Rightarrow> api_state \<Rightarrow> string \<Rightarrow> job_body \<Rightarrow> cost_estimate \<Rightarrow> budget_check \<Rightarrow> job_row" where
  "requested_job env st org b e c =
     (new_job (next_job_id env st) (av_now env) org (jb_blobRegistrationId b))
       \<lparr>rj_policyId := jb_policyId b,
        rj_status := (if bc_allowed c then ''estimated'' else ''blocked_by_budget''),
        rj_estimatedCost := Some (ce_estimatedCost e), rj_attempt := 0,
        rj_maxAttempts := or_default (jb_maxAttempts b) 5, rj_estimatedAt := Some (av_now env),
        rj_blockedByLimitId := bc_blockingLimitId c,
        rj_metadata := Some (JObj (policy_field (av_now env) (find_policy (ap_db st) (jb_policyId b))
          @ [(''budgetSnapshot'', freezeBudgetCheck c (av_now env)),
             (''estimateConfidence'', JStr (confidence e))]))\<rparr>"

text \<open>The events of the budget check are on their way before the insert.\<close>

definition create_job :: "api_env \<Rightarrow> request \<Rightarrow> request_vars \<Rightarrow> job_body \<Rightarrow> api_state \<Rightarrow> job_row handled" where
  "create_job env rq cx b st =
     (case bindE (verifyOrgChain (cx_orgId cx)) (\<lambda>org.
             bindE (ensureNoActiveRenewal (ap_db st) (jb_blobRegistrationId b)) (\<lambda>_.
             bindE (estimateRenewalCost (ap_db st) (av_staleness env) (av_now env) (jb_blobRegistrationId b)
                     (or_default (jb_extensionEpochs b) 1) None) (\<lambda>e.
             bindE (checkBudgetBeforeExecution (ap_db st) (av_now env) org (truthy (jb_projectId b))
                     (Some (or_default (jb_walletId b) '''')) (truthy (jb_policyId b)) (ce_estimatedCost e) False)
               (\<lambda>(c, es). Inr (org, e, c, es))))) of
        Inl err \<Rightarrow> (Inl err, st)
      | Inr (org, e, c, es) \<Rightarrow>
          (let st1 = record_events es st; j = requested_job env st org b e c
           in case insert_renewal_job j (ap_db st1) of
                Inl err \<Rightarrow> (Inl err, st1)
              | Inr d \<Rightarrow>
                  (let st2 = logAudit env rq cx ''renewal_job.created'' ''renewal_job'' (Some (rj_id j))
                         (Some (JObj [(''estimatedCost'', JNum (ce_estimatedCost e)), (''budgetCheck'', JObj (check_fields c))]))
                         (st1\<lparr>ap_db := d\<rparr>)
                   in (Inr (if bc_allowed c then (201, Row j)
                            else api_error [] 422 (or_default (bc_message c) '''') ''BLOCKED_BY_BUDGET''), st2))))"

section \<open>Items\<close>

definition renewal_event ::
    "api_env \<Rightarrow> request_vars \<Rightarrow> string \<Rightarrow> string \<Rightarrow> string \<Rightarrow> json option \<Rightarrow> event_payload" where
  "renewal_event env cx org sub_state i details =
     createEvent (av_now env) (''renewal.'' @ sub_state) org ''renewal_job'' i
       (ActHuman (or_default (cx_userId cx) '''')) details None"

text \<open>A stale estimate is computed again; a cost of zero becomes absent.\<close>

definition refreshed :: "api_env \<Rightarrow> db \<Rightarrow> job_row \<Rightarrow> thrown + int option \<times> bool" where
  "refreshed env d job =
     (case rj_estimatedAt job of
        Some t \<Rightarrow>
          if isEstimateFresh (av_staleness env) (av_now env) t then Inr (rj_estimatedCost job, False)
          else bindE (estimateRenewalCost d (av_staleness env) (av_now env) (rj_blobRegistrationId job) 1 None)
                 (\<lambda>e. Inr (Some (ce_estimatedCost e), True))
      | None \<Rightarrow> Inr (rj_estimatedCost job, False))"

definition nonzero :: "int option \<Rightarrow> int option" where
  "nonzero c = (if c = Some 0 then None else c)"

text \<open>The insert of the new job, its audit entry and its event, as retry and override end.\<close>

definition supersede ::
    "api_env \<Rightarrow> request \<Rightarrow> request_vars \<Rightarrow> string \<Rightarrow> job_row \<Rightarrow> job_row \<Rightarrow> string \<Rightarrow> (string \<times> json) list \<Rightarrow> string
     \<Rightarrow> api_state \<Rightarrow> job_row handled" where
  "supersede env rq cx org job j sub_state facts msg st =
     (let details = JObj ([(''supersedes'', JStr (rj_id job)), (''previousStatus'', JStr (rj_status job))] @ facts)
      in case insert_renewal_job j (ap_db st) of
           Inl err \<Rightarrow> (Inl err, st)
         | Inr d \<Rightarrow>
             (Inr (201, Noted msg j),
              record_events [renewal_event env cx org sub_state (rj_id j) (Some details)]
                (logAudit env rq cx (''renewal_job.'' @ sub_state) ''renewal_job'' (Some (rj_id j))
                   (Some details) (st\<lparr>ap_db := d\<rparr>))))"

definition retry_job :: "api_env \<Rightarrow> request \<Rightarrow> request_vars \<Rightarrow> string \<Rightarrow> string \<Rightarrow> job_row \<Rightarrow> api_state \<Rightarrow> job_row handled" where
  "retry_job env rq cx org i job st =
     (case isTerminal loaded_machines SM_renewal (rj_status job) of
        Inl err \<Rightarrow> (Inl err, st)
      | Inr False \<Rightarrow>
          (Inr (api_error [] 400 (''Cannot retry a job in state '' @ sq (rj_status job) @ '' '' @ em_dash
             @ '' manual override only applies to terminal states (failed_final, blocked_by_budget).''
             @ '' Let the job progress through its normal flow.'') ''VALIDATION_ERROR''), st)
      | Inr True \<Rightarrow>
          if rj_status job = ''succeeded''
          then (Inr (api_error [] 400 ''Cannot retry a succeeded job'' ''VALIDATION_ERROR''), st)
          else
            (case bindE (ensureNoActiveRenewal (ap_db st) (rj_blobRegistrationId job)) (\<lambda>_. refreshed env (ap_db st) job) of
               Inl err \<Rightarrow> (Inl err, st)
             | Inr (cost, recomputed) \<Rightarrow>
                 supersede env rq cx org job
                   (superseding env st job (nonzero cost)
                      (policy_field (av_now env) (find_policy (ap_db st) (rj_policyId job))
                        @ [(''estimateConfidence'', JStr (if recomputed then ''recomputed'' else ''fresh''))]))
                   ''manual_override'' (defined ''blockedByLimitId'' (truthy (rj_blockedByLimitId job)))
                   (''Manual override created '' @ em_dash @ '' new renewal job'') st))"

definition cancel_job :: "api_env \<Rightarrow> request \<Rightarrow> request_vars \<Rightarrow> string \<Rightarrow> string \<Rightarrow> job_row \<Rightarrow> api_state \<Rightarrow> job_row handled" where
  "cancel_job env rq cx org i job st =
     (case validateTransition loaded_machines SM_renewal (rj_status job) ''blocked_by_budget'' False of
        Inl err \<Rightarrow> (Inl err, st)
      | Inr _ \<Rightarrow>
          (Inr (say ''Renewal job cancelled''),
           record_events [renewal_event env cx org ''blocked_by_budget'' i None]
             (logAudit env rq cx ''renewal_job.cancelled'' ''renewal_job'' (Some i) None
               (et_update job_table i (\<lambda>j. j\<lparr>rj_status := ''blocked_by_budget'', rj_updatedAt := av_now env\<rparr>) st))))"

definition override_job ::
    "api_env \<Rightarrow> request \<Rightarrow> request_vars \<Rightarrow> string \<Rightarrow> string \<Rightarrow> string \<Rightarrow> job_row \<Rightarrow> api_state \<Rightarrow> job_row handled" where
  "override_job env rq cx reason org i job st =
     (case estimateRenewalCost (ap_db st) (av_staleness env) (av_now env) (rj_blobRegistrationId job) 1 None of
        Inl err \<Rightarrow> (Inl err, st)
      | Inr e \<Rightarrow>
          supersede env rq cx org job
            ((superseding env st job (Some (ce_estimatedCost e))
                [(''estimateConfidence'', JStr (confidence e)), (''overrideReason'', JStr reason)])
               \<lparr>rj_spendingLimitOverridden := Some True\<rparr>)
            ''override_created'' [(''reason'', JStr reason)]
            (''Spending limit override created '' @ em_dash @ '' new renewal job'') st)"

definition job_transitions :: "string \<Rightarrow> string \<Rightarrow> job_row \<Rightarrow> api_state \<Rightarrow> job_row handled" where
  "job_transitions org i job st =
     (bindE (validNextStates loaded_machines SM_renewal (rj_status job)) (\<lambda>nexts.
      bindE (isTerminal loaded_machines SM_renewal (rj_status job)) (\<lambda>t.
        Inr (200, Json (JObj [(''currentState'', JStr (rj_status job)), (''isTerminal'', JBool t),
          (''availableTransitions'', JArr (map (\<lambda>(s, ty). JObj [(''to'', JStr s), (''type'', JStr (type_name ty))]) nexts))])))), st)"

section \<open>Routes\<close>

datatype job_op =
    CreateJob job_body
  | GetJob
  | RetryJob
  | CancelJob
  | OverrideJob string
  | JobTransitions

fun job_handler :: "api_env \<Rightarrow> request \<Rightarrow> job_op \<Rightarrow> request_vars \<Rightarrow> api_state \<Rightarrow> job_row handled" where
  "job_handler env rq (CreateJob b) cx st = create_job env rq cx b st"
| "job_handler env rq GetJob cx st =
     on_item job_table ''Renewal job'' (\<lambda>_. []) rq cx (\<lambda>org i j st. (Inr (200, Row j), st)) st"
| "job_handler env rq RetryJob cx st =
     catch_app (on_item job_table ''Renewal job'' (\<lambda>_. []) rq cx (retry_job env rq cx) st)"
| "job_handler env rq CancelJob cx st =
     catch_app (on_item job_table ''Renewal job'' (\<lambda>_. []) rq cx (cancel_job env rq cx) st)"
| "job_handler env rq (OverrideJob reason) cx st =
     catch_app (on_item job_table ''Renewal job'' (\<lambda>_. []) rq cx (override_job env rq cx reason) st)"
| "job_handler env rq JobTransitions cx st =
     on_item job_table ''Renewal job'' (\<lambda>_. []) rq cx job_transitions st"

fun job_guards :: "job_op \<Rightarrow> guard list" where
  "job_guards GetJob = [GAuth, GOrg]"
| "job_guards JobTransitions = [GAuth, GOrg]"
| "job_guards _ = [GAuth, GOrg, GRole [''owner'', ''admin'']]"

fun job_body_ok :: "job_op \<Rightarrow> bool" where
  "job_body_ok (CreateJob b) =
     (is_uuid (jb_blobRegistrationId b) \<and> pred_option is_uuid (jb_walletId b) \<and> pred_option is_uuid (jb_projectId b)
      \<and> pred_option is_uuid (jb_policyId b) \<and> pred_option (\<lambda>n. n > 0) (jb_extensionEpochs b)
      \<and> pred_option (\<lambda>n. n > 0) (jb_maxAttempts b))"
| "job_body_ok (OverrideJob reason) = (1 \<le> length reason \<and> length reason \<le> 500)"
| "job_body_ok _ = True"

definition job_request :: "api_env \<Rightarrow> string \<Rightarrow> request \<times> job_op \<Rightarrow> api_state \<Rightarrow> job_row body reply \<times> api_state" where
  "job_request env rid x st =
     (case x of (rq, op) \<Rightarrow> serve env rid (job_guards op) rq (job_body_ok op) (job_handler env rq op) st)"

section \<open>The retry of an operator\<close>

record admin_operator =
  ao_adminId :: string
  ao_justification :: string
  ao_ticketId :: "string option"

definition getAdminOperator :: "request \<Rightarrow> admin_operator" where
  "getAdminOperator rq =
     \<lparr>ao_adminId = ''admin:'' @ take 8 (or_default (truthy (rq_header rq ''X-Admin-Key'')) ''unknown''),
      ao_justification = ''admin action'', ao_ticketId = None\<rparr>"

definition override_event :: "api_env \<Rightarrow> admin_operator \<Rightarrow> string \<Rightarrow> string \<Rightarrow> (string \<times> json) list \<Rightarrow> event_payload" where
  "override_event env p org i facts =
     createEvent (av_now env) ''renewal.manual_override'' org ''renewal_job'' i
       (ActAdmin (ao_adminId p) (Some (ao_justification p)))
       (Some (JObj (facts @ [(''triggeredBy'', JStr ''admin'')]))) None"

definition adminRetryRenewalJob :: "api_env \<Rightarrow> string \<Rightarrow> admin_operator \<Rightarrow> api_state \<Rightarrow> (thrown + job_row) \<times> api_state" where
  "adminRetryRenewalJob env jobId p st =
     (if \<not> is_uuid jobId then (Inl (uuid_error jobId), st)
      else case first_row (filter (\<lambda>j. rj_id j = jobId) (db_jobs (ap_db st))) of
        None \<Rightarrow> (Inl (ErrObj (AppError ''Renewal job not found'' 404 (Some ''NOT_FOUND'') None) None), st)
      | Some job \<Rightarrow>
          if rj_status job = ''succeeded''
          then (Inl (ErrObj (AppError ''Cannot retry a succeeded job'' 400 (Some ''VALIDATION_ERROR'') None) None), st)
          else if rj_status job \<noteq> ''failed_final'' \<and> rj_status job \<noteq> ''blocked_by_budget''
          then (Inl (ErrObj (AppError (''Cannot retry a job in status '' @ dq (rj_status job)) 400
                  (Some ''STATE_TRANSITION_ERROR'') None) None), st)
          else
            (case bindE (ensureNoActiveRenewal (ap_db st) (rj_blobRegistrationId job)) (\<lambda>_.
                    bindE (refreshed env (ap_db st) job) (\<lambda>(cost, _).
                    bindE (checkBudgetBeforeExecution (ap_db st) (av_now env) (rj_orgId job) None (Some '''')
                            (truthy (rj_policyId job)) (or_default cost 0) False) (\<lambda>(c, es). Inr (cost, c, es)))) of
               Inl err \<Rightarrow> (Inl err, st)
             | Inr (cost, c, es) \<Rightarrow>
                 (let st1 = record_events es st;
                      j = (superseding env st job (nonzero cost)
                             (policy_field (av_now env) (find_policy (ap_db st) (rj_policyId job))
                               @ [(''budgetSnapshot'', freezeBudgetCheck c (av_now env))]))
                          \<lparr>rj_status := (if bc_allowed c then ''estimated'' else ''blocked_by_budget''),
                           rj_blockedByLimitId := bc_blockingLimitId c\<rparr>;
                      previous = [(''previousStatus'', JStr (rj_status job))];
                      limited = truthy (rj_blockedByLimitId job)
                  in case insert_renewal_job j (ap_db st1) of
                       Inl err \<Rightarrow> (Inl err, st1)
                     | Inr d \<Rightarrow>
                         (Inr j, record_events
                            (override_event env p (rj_orgId job) (rj_id j) ((''supersedes'', JStr (rj_id job)) # previous)
                             # (case limited of
                                  Some l \<Rightarrow> [override_event env p (rj_orgId job) (rj_id j)
                                     [(''supersededJobId'', JStr (rj_id job)), (''originalLimitId'', JStr l)]]
                                | None \<Rightarrow> []))
                            (logAuditSystem env (rj_orgId job) ''renewal_job.admin_retry'' ''renewal_job'' (Some (rj_id j))
                               (JObj ((''supersedes'', JStr (rj_id job)) # previous @ defined ''blockedByLimitId'' limited
                                 @ [(''adminId'', JStr (ao_adminId p)), (''justification'', JStr (ao_justification p))]
                                 @ defined ''ticketId'' (ao_ticketId p)))
                               (st1\<lparr>ap_db := d\<rparr>))))))"

definition admin_retry ::
    "api_env \<Rightarrow> string \<Rightarrow> request \<Rightarrow> request_vars \<Rightarrow> string option \<Rightarrow> string option \<Rightarrow> api_state \<Rightarrow> job_row handled" where
  "admin_retry env jobId rq cx justification ticketId st =
     (case truthy justification of
        None \<Rightarrow> (Inr (api_error (class_extra cx) 400 ''Justification is required for admin actions'' ''VALIDATION_ERROR''), st)
      | Some why \<Rightarrow>
          (let p = (getAdminOperator rq)\<lparr>ao_justification := why\<rparr>
           in catch_app
                (case adminRetryRenewalJob env jobId p st of
                   (Inl err, st1) \<Rightarrow> (Inl err, st1)
                 | (Inr j, st1) \<Rightarrow>
                     (Inr (200, Noted ''Job retry enqueued'' j),
                      logAuditSystem env (rj_orgId j) ''admin.retry_job'' ''renewal_job'' (Some (rj_id j))
                        (JObj ([(''adminId'', JStr (ao_adminId p)), (''justification'', JStr why)]
                          @ defined ''ticketId'' ticketId @ [(''supersedes'', JStr jobId)])) st1))))"

definition admin_retry_request ::
    "api_env \<Rightarrow> string \<Rightarrow> request \<Rightarrow> string \<Rightarrow> string option \<Rightarrow> string option \<Rightarrow> api_state
     \<Rightarrow> job_row body reply \<times> api_state" where
  "admin_retry_request env rid rq jobId justification ticketId st =
     serve env rid [GAdmin] rq True (\<lambda>cx. admin_retry env jobId rq cx justification ticketId) st"

section \<open>Facts\<close>

lemma insert_renewal_job_ok:
  "insert_renewal_job j d = Inr d' \<Longrightarrow> d' = d\<lparr>db_jobs := db_jobs d @ [j]\<rparr> \<and> rj_id j \<notin> rj_id ` set (db_jobs d)"
  by (auto simp: insert_renewal_job_def split: if_splits)

lemma insert_renewal_job_steps:
  assumes "insert_renewal_job j (ap_db st) = Inr d" and "rj_status j \<in> S"
  shows "key_steps SM_renewal S (keys_of job_table st) (keys_of job_table (st\<lparr>ap_db := d\<rparr>))"
  using insert_renewal_job_ok [OF assms(1)] key_step.add [of "rj_id j" "keys_of job_table st" "rj_status j" S SM_renewal] assms(2)
  by (auto simp: keys_of_def job_table_def image_image)

lemma keys_inserted [simp]:
  "keys_of job_table ((record_events es st)\<lparr>ap_db := d\<rparr>) = keys_of job_table (st\<lparr>ap_db := d\<rparr>)"
  by (simp add: keys_of_def job_table_def)

lemma job_machine [simp]: "et_machine job_table = SM_renewal"
  by (simp add: job_table_def)

abbreviation new_statuses :: "string set" where
  "new_statuses \<equiv> {''estimated'', ''blocked_by_budget''}"

lemma superseding_simps [simp]:
  "rj_id (superseding env st job c m) = next_job_id env st" "rj_status (superseding env st job c m) = ''estimated''"
  "rj_blobRegistrationId (superseding env st job c m) = rj_blobRegistrationId job"
  "rj_supersedes (superseding env st job c m) = Some (rj_id job)" "rj_orgId (superseding env st job c m) = rj_orgId job"
  "rj_scheduledFor (superseding env st job c m) = None"
  by (simp_all add: superseding_def new_job_def)

lemma requested_job_simps [simp]:
  "rj_id (requested_job env st org b e c) = next_job_id env st" "rj_orgId (requested_job env st org b e c) = org"
  "rj_status (requested_job env st org b e c) = (if bc_allowed c then ''estimated'' else ''blocked_by_budget'')"
  "rj_blobRegistrationId (requested_job env st org b e c) = jb_blobRegistrationId b"
  "rj_supersedes (requested_job env st org b e c) = None" "rj_scheduledFor (requested_job env st org b e c) = None"
  by (simp_all add: requested_job_def new_job_def)

lemma create_job_steps:
  "key_steps SM_renewal new_statuses (keys_of job_table st) (keys_of job_table (snd (create_job env rq cx b st)))"
  by (auto simp: create_job_def Let_def intro!: insert_renewal_job_steps
      split: sum.split)

lemma supersede_steps:
  "rj_status j = ''estimated'' \<Longrightarrow> key_steps SM_renewal new_statuses (keys_of job_table st)
     (keys_of job_table (snd (supersede env rq cx org job j sub facts msg st)))"
  by (auto simp: supersede_def Let_def intro!: insert_renewal_job_steps split: sum.split)

lemma retry_job_steps:
  "key_steps SM_renewal new_statuses (keys_of job_table st) (keys_of job_table (snd (retry_job env rq cx org i job st)))"
  by (simp add: retry_job_def supersede_steps split: sum.split bool.split)

lemma override_job_steps:
  "key_steps SM_renewal new_statuses (keys_of job_table st) (keys_of job_table (snd (override_job env rq cx reason org i job st)))"
  by (simp add: override_job_def supersede_steps split: sum.split)

lemma cancel_job_steps:
  assumes "find_entity job_table st org i = Some job"
  shows "key_steps SM_renewal S (keys_of job_table st) (keys_of job_table (snd (cancel_job env rq cx org i job st)))"
proof (cases "validateTransition loaded_machines SM_renewal (rj_status job) ''blocked_by_budget'' False")
  case (Inr t)
  then have "step_ok SM_renewal (rj_status job) ''blocked_by_budget''" by (simp add: step_ok_def)
  moreover have "(i, rj_status job) \<in> set (keys_of job_table st)"
    using find_entity_key [OF assms] by (simp add: job_table_def)
  ultimately have "key_steps SM_renewal S (keys_of job_table st)
      (set_key i ''blocked_by_budget'' (keys_of job_table st))"
    by (intro r_into_rtranclp key_step.move)
  moreover have "keys_of job_table (et_update job_table i
      (\<lambda>j. j\<lparr>rj_status := ''blocked_by_budget'', rj_updatedAt := av_now env\<rparr>) st)
      = set_key i ''blocked_by_budget'' (keys_of job_table st)"
    by (rule jobs.keys_update) (simp add: job_table_def)
  ultimately show ?thesis using Inr by (simp add: cancel_job_def)
qed (simp add: cancel_job_def)

lemma job_handler_steps:
  "key_steps SM_renewal new_statuses (keys_of job_table st) (keys_of job_table (snd (job_handler env rq op cx st)))"
  by (cases op) (simp_all add: create_job_steps retry_job_steps override_job_steps cancel_job_steps job_transitions_def on_item_steps)

lemma job_request_steps:
  "key_steps SM_renewal new_statuses (keys_of job_table st) (keys_of job_table (snd (job_request env rid x st)))"
  unfolding job_request_def by (cases x) (auto intro!: jobs.serve_steps job_handler_steps)


lemma no_active_iff [result_simps]:
  "ensureNoActiveRenewal d blob = Inr u \<longleftrightarrow>
     (\<forall>j \<in> set (db_jobs d). rj_blobRegistrationId j = blob \<longrightarrow> rj_status j \<noteq> ''in_progress'')"
  by (auto simp: ensureNoActiveRenewal_def first_row_filter_None split: option.split dest!: first_row_filter_SomeD)

lemma estimate_ok: "bl_id b = i \<Longrightarrow> b \<in> set (db_blobs d) \<Longrightarrow> \<exists>e. estimateRenewalCost d env now i n None = Inr e"
  using first_row_filter_None [of "\<lambda>b. bl_id b = i" "db_blobs d"]
  by (auto simp: estimateRenewalCost_def Let_def truthy_def split: option.split)

text \<open>The rows a job refers to, and an identifier that is free.\<close>

definition insertable :: "api_env \<Rightarrow> api_state \<Rightarrow> string \<Rightarrow> string option \<Rightarrow> bool" where
  "insertable env st blob policy \<longleftrightarrow>
     next_job_id env st \<notin> rj_id ` set (db_jobs (ap_db st)) \<and> blob \<in> bl_id ` set (db_blobs (ap_db st))
     \<and> (\<forall>p. policy = Some p \<longrightarrow> p \<in> po_id ` set (db_policies (ap_db st)))"

lemma insertable_insert:
  assumes "insertable env st (rj_blobRegistrationId j) (rj_policyId j)" and "rj_id j = next_job_id env st"
  shows "insert_renewal_job j (ap_db st) = Inr ((ap_db st)\<lparr>db_jobs := db_jobs (ap_db st) @ [j]\<rparr>)"
proof -
  from assms have "\<not> (\<exists>x \<in> set (db_jobs (ap_db st)). rj_id x = rj_id j)"
    unfolding insertable_def by (metis image_eqI)
  moreover from assms(1) have "\<not> ((\<forall>b \<in> set (db_blobs (ap_db st)). bl_id b \<noteq> rj_blobRegistrationId j)
      \<or> (\<exists>p. rj_policyId j = Some p \<and> (\<forall>q \<in> set (db_policies (ap_db st)). po_id q \<noteq> p)))"
    unfolding insertable_def by (auto simp: image_iff)
  ultimately show ?thesis by (simp only: insert_renewal_job_def if_False)
qed

lemma insertable_estimate:
  assumes "insertable env st blob policy"
  obtains e where "estimateRenewalCost (ap_db st) s now blob n None = Inr e"
  using assms estimate_ok by (auto simp: insertable_def) blast

lemma jobs_logAudit [simp]:
  "db_jobs (ap_db (logAudit env rq cx a ty i ds st)) = db_jobs (ap_db st)"
  "db_jobs (ap_db (logAuditSystem env org a ty i js st)) = db_jobs (ap_db st)"
  by (simp_all add: logAudit_def logAuditSystem_def add_audit_def split: sum.split)

lemma supersede_ok:
  assumes "insertable env st (rj_blobRegistrationId j) (rj_policyId j)" and "rj_id j = next_job_id env st"
  shows "fst (supersede env rq cx org job j sub facts msg st) = Inr (201, Noted msg j)"
    and "db_jobs (ap_db (snd (supersede env rq cx org job j sub facts msg st))) = db_jobs (ap_db st) @ [j]"
  using insertable_insert [OF assms] by (simp_all add: supersede_def Let_def)

lemma requested_policy [simp]: "rj_policyId (requested_job env st org b e c) = jb_policyId b"
  by (simp add: requested_job_def)

lemma superseding_policy [simp]: "rj_policyId (superseding env st job c m) = rj_policyId job"
  by (simp add: superseding_def)

lemma new_job_runnable: "runnable now (superseding env st job c m)"
  by (simp add: runnable_def open_status_def)

lemma create_job_access: "ap_access (snd (create_job env rq cx b st)) = ap_access st"
  by (simp add: create_job_def Let_def split: sum.split)

lemma supersede_access: "ap_access (snd (supersede env rq cx org job j sub facts msg st)) = ap_access st"
  by (simp add: supersede_def Let_def split: sum.split)

lemma retry_job_access: "ap_access (snd (retry_job env rq cx org i job st)) = ap_access st"
  by (simp add: retry_job_def supersede_access split: sum.split bool.split)

lemma override_job_access: "ap_access (snd (override_job env rq cx reason org i job st)) = ap_access st"
  by (simp add: override_job_def supersede_access split: sum.split)

lemma cancel_job_access: "ap_access (snd (cancel_job env rq cx org i job st)) = ap_access st"
  by (simp add: cancel_job_def job_table_def split: sum.split)

lemma job_request_access:
  "ac_orgs (ap_access (snd (job_request env rid x st))) = ac_orgs (ap_access st)"
proof -
  obtain rq op where x: "x = (rq, op)" by (cases x)
  have keep: "ap_access (snd (job_handler env rq op cx s)) = ap_access s" for cx s
    by (cases op) (simp_all add: on_item_access create_job_access retry_job_access override_job_access
        cancel_job_access job_transitions_def)
  have "ac_orgs (ap_access (snd (serve env rid (job_guards op) rq (job_body_ok op) (job_handler env rq op) st)))
      = ac_orgs (ap_access st)"
    by (rule serve_cases) (auto simp: keep dest!: run_guards_orgs)
  then show ?thesis by (simp add: job_request_def x)
qed

lemma create_job_appends:
  "\<exists>new. db_jobs (ap_db (snd (create_job env rq cx b st))) = db_jobs (ap_db st) @ new
    \<and> (\<forall>j \<in> set new. rj_status j \<in> new_statuses \<and> rj_supersedes j = None \<and> rj_id j = next_job_id env st)"
  by (auto simp: create_job_def Let_def split: sum.split prod.split dest!: insert_renewal_job_ok)

lemma item_request_inert:
  assumes "ids_apart job_table st" and "\<And>b. op \<noteq> CreateJob b"
  shows "\<exists>d. snd (job_request env rid (rq, op) st) = st\<lparr>ap_access := d\<rparr>"
  by (cases op)
    (use assms(2) in \<open>simp_all only: job_request_def prod.case job_guards.simps\<close>,
     (rule jobs.serve_item_inert [OF assms(1)], simp, simp)+)

abbreviation created_job :: "job_row \<Rightarrow> bool" where
  "created_job j \<equiv> rj_status j \<in> new_statuses \<and> rj_supersedes j = None"

lemma job_request_appends:
  assumes "ids_apart job_table st"
  shows "\<exists>new. db_jobs (ap_db (snd (job_request env rid x st))) = db_jobs (ap_db st) @ new
    \<and> (\<forall>j \<in> set new. created_job j \<and> rj_id j \<in> range (av_id env ''renewal_jobs''))"
proof -
  obtain rq op where x: "x = (rq, op)" by (cases x)
  show ?thesis
  proof (cases "\<exists>b. op = CreateJob b")
    case False
    then obtain d where "snd (job_request env rid x st) = st\<lparr>ap_access := d\<rparr>"
      using item_request_inert [OF assms, of op env rid rq] by (auto simp: x)
    then show ?thesis by simp
  next
    case True
    then obtain b where op: "op = CreateJob b" by blast
    let ?P = "\<lambda>s. \<exists>new. db_jobs (ap_db s) = db_jobs (ap_db st) @ new
      \<and> (\<forall>j \<in> set new. created_job j \<and> rj_id j \<in> range (av_id env ''renewal_jobs''))"
    have "?P (snd (serve env rid (job_guards op) rq (job_body_ok op) (job_handler env rq op) st))"
    proof (rule serve_cases)
      fix cx d
      show "?P (st\<lparr>ap_access := d\<rparr>) \<and> ?P (snd (job_handler env rq op cx (st\<lparr>ap_access := d\<rparr>)))"
        using create_job_appends [of env rq cx b "st\<lparr>ap_access := d\<rparr>"] by (auto simp: op next_job_id_def)
    qed auto
    then show ?thesis by (simp add: job_request_def x)
  qed
qed

interpretation job_router: router job_table "job_request env" new_statuses for env
  by unfold_locales (simp add: job_request_steps)

interpretation job_creations: closed_router job_table env "''renewal_jobs''" "job_request env" created_job for env
proof
  fix rid x st
  show "ac_orgs (ap_access (snd (job_request env rid x st))) = ac_orgs (ap_access st)" by (rule job_request_access)
  assume "ids_apart job_table st"
  from job_request_appends [OF this, of env rid x]
  show "\<exists>new. et_rows job_table (snd (job_request env rid x st)) = et_rows job_table st @ new
      \<and> (\<forall>r \<in> set new. created_job r \<and> et_id job_table r \<in> range (av_id env ''renewal_jobs''))"
    by (simp add: job_table_def)
qed

text \<open>A job of the first organization for a blob of the second one.\<close>

definition sample_api_env :: api_env where
  "sample_api_env = \<lparr>av_access = sample_access_env, av_id = (\<lambda>t n. t), av_staleness = None\<rparr>"

definition sample_api :: "string \<Rightarrow> limit_row list \<Rightarrow> api_state" where
  "sample_api status limits =
     \<lparr>ap_access = os_access (sample_orgs ''active''),
      ap_db = empty_db\<lparr>
        db_blobs := [new_blob (sample_uuid CHR ''b'') 0 (sample_uuid CHR ''4'') ''p'' ''blob''],
        db_jobs := [(new_job (sample_uuid CHR ''a'') 0 (sample_uuid CHR ''1'') (sample_uuid CHR ''b''))\<lparr>rj_status := status\<rparr>],
        db_limits := limits\<rparr>,
      ap_projects = [], ap_delegations = [], ap_events = [], ap_invitations = []\<rparr>"

lemma sample_insertable: "insertable sample_api_env (sample_api status limits) (sample_uuid CHR ''b'') None"
  by (simp add: insertable_def next_job_id_def sample_api_env_def sample_api_def new_job_def new_blob_def sample_uuid_def)

lemma sample_ids_apart: "ids_stay_apart sample_api_env ''renewal_jobs'' job_table (sample_api status limits)"
  by (simp add: ids_stay_apart_def ids_apart_def job_table_def sample_api_env_def sample_api_def new_job_def
      sample_orgs_def sample_org_def sample_uuid_def)

section \<open>Properties\<close>

text \<open>
  Every sequence of requests to the renewal jobs moves their statuses only along the edges of the
  state machine, and the jobs it adds start estimated or blocked by a budget.
\<close>

theorem job_requests_follow_machine:
  "key_steps SM_renewal {''estimated'', ''blocked_by_budget''}
     (keys_of job_table st) (keys_of job_table (run_requests (job_request env) xs st))"
  using job_router.run_steps [of st env xs] by simp

text \<open>
  While no job has the identifier of an organization, the requests of the API only add jobs, whatever
  the callers send: no job is ever retried, cancelled or overridden, because the organization guard takes
  the identifier of the job for that of the organization.
\<close>

theorem api_only_adds_jobs:
  assumes "ids_stay_apart env ''renewal_jobs'' job_table st"
  shows "\<exists>new. db_jobs (ap_db (run_requests (job_request env) xs st)) = db_jobs (ap_db st) @ new
    \<and> (\<forall>j \<in> set new. rj_status j \<in> {''estimated'', ''blocked_by_budget''} \<and> rj_supersedes j = None)"
  using job_creations.run_appends [OF assms, of xs] by (simp add: job_table_def)

theorem api_only_adds_jobs_witness:
  "\<exists>new. db_jobs (ap_db (run_requests (job_request sample_api_env)
        [(''r'', sample_request (Some (sample_uuid CHR ''a'')), CancelJob),
         (''s'', sample_request (Some (sample_uuid CHR ''a'')), OverrideJob ''urgent'')] (sample_api ''pending'' [])))
     = db_jobs (ap_db (sample_api ''pending'' [])) @ new \<and> (\<forall>j \<in> set new. rj_supersedes j = None)"
  using api_only_adds_jobs [OF sample_ids_apart] by fast

text \<open>
  The retry of a member ignores every spending limit: a job that one blocked is queued again, while
  the retry of an operator, which asks the cost engine, fails as soon as a limit applies.
\<close>

theorem retry_bypasses_limits:
  assumes "first_row (filter (\<lambda>j. rj_id j = i) (db_jobs (ap_db st))) = Some job" and "is_uuid i"
    and "rj_status job \<in> {''failed_final'', ''blocked_by_budget''}"
    and "\<forall>j \<in> set (db_jobs (ap_db st)). rj_blobRegistrationId j = rj_blobRegistrationId job \<longrightarrow> rj_status j \<noteq> ''in_progress''"
    and "insertable env st (rj_blobRegistrationId job) (rj_policyId job)"
    and "getEffectiveSpendingLimits (ap_db st) (rj_orgId job) None (Some '''') (truthy (rj_policyId job)) \<noteq> []"
  shows "\<exists>j msg. fst (retry_job env rq cx org i job st) = Inr (201, Noted msg j)
      \<and> db_jobs (ap_db (snd (retry_job env rq cx org i job st))) = db_jobs (ap_db st) @ [j]
      \<and> runnable (av_now env) j \<and> rj_supersedes j = Some (rj_id job)"
    and "\<exists>e. adminRetryRenewalJob env i p st = (Inl e, st)"
proof -
  obtain e where e: "estimateRenewalCost (ap_db st) (av_staleness env) (av_now env) (rj_blobRegistrationId job) 1 None = Inr e"
    using insertable_estimate [OF assms(5)] by blast
  then have "\<exists>c. refreshed env (ap_db st) job = Inr c"
    by (auto simp: refreshed_def split: option.split)
  then obtain cost b where r: "refreshed env (ap_db st) job = Inr (cost, b)" by auto
  have active: "ensureNoActiveRenewal (ap_db st) (rj_blobRegistrationId job) = Inr ()"
    using assms(4) by (simp add: no_active_iff)
  have terminal: "isTerminal loaded_machines SM_renewal (rj_status job) = Inr True" "rj_status job \<noteq> ''succeeded''"
    using assms(3) by (auto simp: isTerminal_def renewal_machine_def)
  let ?j = "superseding env st job (nonzero cost) (policy_field (av_now env) (find_policy (ap_db st) (rj_policyId job))
    @ [(''estimateConfidence'', JStr (if b then ''recomputed'' else ''fresh''))])"
  have "retry_job env rq cx org i job st = supersede env rq cx org job ?j ''manual_override''
      (defined ''blockedByLimitId'' (truthy (rj_blockedByLimitId job)))
      (''Manual override created '' @ em_dash @ '' new renewal job'') st"
    using terminal active r by (simp add: retry_job_def)
  with supersede_ok [of env st ?j] assms(5) new_job_runnable
  show "\<exists>j msg. fst (retry_job env rq cx org i job st) = Inr (201, Noted msg j)
      \<and> db_jobs (ap_db (snd (retry_job env rq cx org i job st))) = db_jobs (ap_db st) @ [j]
      \<and> runnable (av_now env) j \<and> rj_supersedes j = Some (rj_id job)" by simp
  obtain l ls where "getEffectiveSpendingLimits (ap_db st) (rj_orgId job) None (Some '''') (truthy (rj_policyId job)) = l # ls"
    using assms(6) by (cases "getEffectiveSpendingLimits (ap_db st) (rj_orgId job) None (Some '''') (truthy (rj_policyId job))") auto
  then have "\<exists>e. checkBudgetBeforeExecution (ap_db st) (av_now env) (rj_orgId job) None (Some '''')
      (truthy (rj_policyId job)) (or_default cost 0) False = Inl e"
    by (simp add: checkBudgetBeforeExecution_def check_limits_fails del: check_limits.simps)
  with assms(1-3) active r show "\<exists>e. adminRetryRenewalJob env i p st = (Inl e, st)"
    by (auto simp: adminRetryRenewalJob_def)
qed

definition sample_limit :: limit_row where
  "sample_limit =
     \<lparr>sl_id = ''l'', sl_orgId = sample_uuid CHR ''1'', sl_scope = ''organization'', sl_scopeTargetId = sample_uuid CHR ''1'',
      sl_name = None, sl_amount = 10, sl_period = ''daily'', sl_spent = 0, sl_status = ''active'', sl_pausedAt = None,
      sl_deletedAt = None, sl_createdAt = 0, sl_updatedAt = 0\<rparr>"

theorem retry_bypasses_limits_witness:
  "\<exists>job e. rj_status job = ''blocked_by_budget''
     \<and> (\<exists>j msg. fst (retry_job sample_api_env (sample_request None) (fresh_vars ''r'') (sample_uuid CHR ''1'')
           (sample_uuid CHR ''a'') job (sample_api ''blocked_by_budget'' [sample_limit])) = Inr (201, Noted msg j))
     \<and> adminRetryRenewalJob sample_api_env (sample_uuid CHR ''a'') (getAdminOperator (sample_request None))
         (sample_api ''blocked_by_budget'' [sample_limit]) = (Inl e, sample_api ''blocked_by_budget'' [sample_limit])"
proof -
  let ?st = "sample_api ''blocked_by_budget'' [sample_limit]" and ?i = "sample_uuid CHR ''a''"
  let ?job = "(new_job ?i 0 (sample_uuid CHR ''1'') (sample_uuid CHR ''b''))\<lparr>rj_status := ''blocked_by_budget''\<rparr>"
  have 1: "first_row (filter (\<lambda>j. rj_id j = ?i) (db_jobs (ap_db ?st))) = Some ?job"
    by (simp add: sample_api_def new_job_def)
  have 2: "is_uuid ?i" by (simp add: is_uuid_def sample_uuid_def hex_digit_def is_digit_def less_eq_char_def)
  have 3: "rj_status ?job \<in> {''failed_final'', ''blocked_by_budget''}"
    "\<forall>j \<in> set (db_jobs (ap_db ?st)). rj_blobRegistrationId j = rj_blobRegistrationId ?job \<longrightarrow> rj_status j \<noteq> ''in_progress''"
    by (simp_all add: sample_api_def)
  have 4: "insertable sample_api_env ?st (rj_blobRegistrationId ?job) (rj_policyId ?job)"
    using sample_insertable by (simp add: new_job_def)
  have 5: "getEffectiveSpendingLimits (ap_db ?st) (rj_orgId ?job) None (Some []) (truthy (rj_policyId ?job)) \<noteq> []"
    by (simp add: getEffectiveSpendingLimits_def sample_api_def sample_limit_def new_job_def)
  from retry_bypasses_limits [OF 1 2 3 4 5] show ?thesis
    by (intro exI [of _ ?job]) (simp, blast)
qed

text \<open>
  The override opens a second job whatever the status of the first: an open job and the one that
  supersedes it are both selected by the queue of the keeper, for one blob.
\<close>

theorem override_opens_second_job:
  assumes "job \<in> set (db_jobs (ap_db st))" and "runnable (av_now env) job"
    and "insertable env st (rj_blobRegistrationId job) (rj_policyId job)"
  shows "\<exists>j. j \<noteq> job \<and> rj_blobRegistrationId j = rj_blobRegistrationId job
    \<and> {job, j} \<subseteq> set (filter (runnable (av_now env)) (db_jobs (ap_db (snd (override_job env rq cx reason org i job st)))))"
proof -
  obtain e where e: "estimateRenewalCost (ap_db st) (av_staleness env) (av_now env) (rj_blobRegistrationId job) 1 None = Inr e"
    using insertable_estimate [OF assms(3)] by blast
  let ?j = "(superseding env st job (Some (ce_estimatedCost e))
    [(''estimateConfidence'', JStr (confidence e)), (''overrideReason'', JStr reason)])\<lparr>rj_spendingLimitOverridden := Some True\<rparr>"
  have "db_jobs (ap_db (snd (override_job env rq cx reason org i job st))) = db_jobs (ap_db st) @ [?j]"
    using e supersede_ok(2) [of env st ?j] assms(3) by (simp add: override_job_def)
  moreover have "runnable (av_now env) ?j" by (simp add: runnable_def open_status_def)
  moreover have "rj_id ?j \<noteq> rj_id job" using assms(1,3) by (auto simp: insertable_def image_iff)
  then have "?j \<noteq> job" by metis
  ultimately show ?thesis using assms(1,2) by (intro exI [of _ ?j]) simp
qed

theorem override_opens_second_job_witness:
  "\<exists>job j. j \<noteq> job \<and> rj_status job = ''pending''
     \<and> {job, j} \<subseteq> set (filter (runnable 0) (db_jobs (ap_db (snd (override_job sample_api_env (sample_request None)
         (fresh_vars ''r'') ''urgent'' (sample_uuid CHR ''1'') (sample_uuid CHR ''a'') job (sample_api ''pending'' []))))))"
proof -
  let ?job = "(new_job (sample_uuid CHR ''a'') 0 (sample_uuid CHR ''1'') (sample_uuid CHR ''b''))\<lparr>rj_status := ''pending''\<rparr>"
  have "?job \<in> set (db_jobs (ap_db (sample_api ''pending'' [])))" by (simp add: sample_api_def)
  moreover have "runnable (av_now sample_api_env) ?job"
    by (simp add: runnable_def open_status_def new_job_def)
  moreover have "insertable sample_api_env (sample_api ''pending'' []) (rj_blobRegistrationId ?job) (rj_policyId ?job)"
    using sample_insertable by (simp add: new_job_def)
  ultimately obtain j where "j \<noteq> ?job" "{?job, j} \<subseteq> set (filter (runnable (av_now sample_api_env))
      (db_jobs (ap_db (snd (override_job sample_api_env (sample_request None) (fresh_vars ''r'') ''urgent''
         (sample_uuid CHR ''1'') (sample_uuid CHR ''a'') ?job (sample_api ''pending'' []))))))"
    using override_opens_second_job by blast
  moreover have "av_now sample_api_env = 0" by (simp add: sample_api_env_def sample_access_env_def)
  moreover have "rj_status ?job = ''pending''" by simp
  ultimately show ?thesis by metis
qed

text \<open>
  The creation of a job does not ask whose blob it is: an organization without spending limits gets a
  runnable job for a blob of any other organization.
\<close>

theorem job_for_foreign_blob:
  assumes "cx_orgId cx = Some org" and "org \<noteq> []" and "jb_policyId b = None" and "jb_projectId b = None"
    and "blob \<in> set (db_blobs (ap_db st))" and "bl_id blob = jb_blobRegistrationId b" and "bl_orgId blob \<noteq> org"
    and "insertable env st (bl_id blob) None"
    and "\<forall>j \<in> set (db_jobs (ap_db st)). rj_blobRegistrationId j = bl_id blob \<longrightarrow> rj_status j \<noteq> ''in_progress''"
    and "getEffectiveSpendingLimits (ap_db st) org None (Some (or_default (jb_walletId b) '''')) None = []"
  shows "\<exists>j. fst (create_job env rq cx b st) = Inr (201, Row j) \<and> rj_orgId j = org
    \<and> rj_blobRegistrationId j = bl_id blob \<and> runnable (av_now env) j
    \<and> db_jobs (ap_db (snd (create_job env rq cx b st))) = db_jobs (ap_db st) @ [j]"
proof -
  obtain e where e: "estimateRenewalCost (ap_db st) (av_staleness env) (av_now env) (jb_blobRegistrationId b)
      (or_default (jb_extensionEpochs b) 1) None = Inr e"
    using insertable_estimate [OF assms(8)] assms(6) by metis
  obtain c es where c: "checkBudgetBeforeExecution (ap_db st) (av_now env) org None (Some (or_default (jb_walletId b) ''''))
      None (ce_estimatedCost e) False = Inr (c, es)" "bc_allowed c"
    using check_budget_no_limits [OF assms(10), of "av_now env" "ce_estimatedCost e"] by blast
  have org: "verifyOrgChain (cx_orgId cx) = Inr org"
    using assms(1,2) by (cases org) (simp_all add: verifyOrgChain_def truthy_def)
  have active: "ensureNoActiveRenewal (ap_db st) (jb_blobRegistrationId b) = Inr ()"
    using assms(6,9) by (simp add: no_active_iff)
  let ?j = "requested_job env st org b e c"
  have none: "truthy (jb_projectId b) = None" "truthy (jb_policyId b) = None" using assms(3,4) by (simp_all add: truthy_def)
  have "insert_renewal_job ?j (ap_db (record_events es st)) = Inr ((ap_db st)\<lparr>db_jobs := db_jobs (ap_db st) @ [?j]\<rparr>)"
    using insertable_insert [of env st ?j] assms(3,6,8) by simp
  moreover have "runnable (av_now env) ?j" using c(2) by (simp add: runnable_def open_status_def)
  ultimately show ?thesis
    using org active e c assms(6) by (simp add: create_job_def none Let_def)
qed

theorem job_for_foreign_blob_witness:
  "\<exists>b j. fst (create_job sample_api_env (sample_request None) ((fresh_vars ''r'')\<lparr>cx_orgId := Some (sample_uuid CHR ''1'')\<rparr>) b
       (sample_api ''failed_final'' [])) = Inr (201, Row j) \<and> rj_orgId j = sample_uuid CHR ''1''"
proof -
  let ?b = "\<lparr>jb_blobRegistrationId = sample_uuid CHR ''b'', jb_walletId = None, jb_projectId = None, jb_policyId = None,
    jb_extensionEpochs = None, jb_maxAttempts = None\<rparr>"
  let ?blob = "new_blob (sample_uuid CHR ''b'') 0 (sample_uuid CHR ''4'') ''p'' ''blob''"
  let ?st = "sample_api ''failed_final'' []" and ?cx = "(fresh_vars ''r'')\<lparr>cx_orgId := Some (sample_uuid CHR ''1'')\<rparr>"
  have 1: "insertable sample_api_env ?st (bl_id ?blob) None" using sample_insertable by (simp add: new_blob_def)
  have 2: "\<forall>j \<in> set (db_jobs (ap_db ?st)). rj_blobRegistrationId j = bl_id ?blob \<longrightarrow> rj_status j \<noteq> ''in_progress''"
    "getEffectiveSpendingLimits (ap_db ?st) (sample_uuid CHR ''1'') None (Some (or_default (jb_walletId ?b) [])) None = []"
    by (simp_all add: sample_api_def getEffectiveSpendingLimits_def empty_db_def)
  have 3: "?blob \<in> set (db_blobs (ap_db ?st))" "bl_id ?blob = jb_blobRegistrationId ?b" "bl_orgId ?blob \<noteq> sample_uuid CHR ''1''"
    "sample_uuid CHR ''1'' \<noteq> []"
    by (simp_all add: sample_api_def new_blob_def sample_uuid_def)
  have 4: "cx_orgId ?cx = Some (sample_uuid CHR ''1'')" "jb_policyId ?b = None" "jb_projectId ?b = None" by simp_all
  from job_for_foreign_blob [OF 4(1) 3(4) 4(2,3) 3(1-3) 1 2, of "sample_request None"] show ?thesis by blast
qed

end
