(* ===== verification/Policy_Routes.thy ===== *)
theory Policy_Routes
  imports Route_Base Policy_Engine
begin

text \<open>
  Policies over the API, \<open>api/src/routes/policies.ts\<close>: the body of a request is the list of its fields, a
  create or patch writes them in turn. The routes are composed with the policy engine, which says what
  a written policy governs. The list is in Pagination.
\<close>

section \<open>Fields\<close>

datatype policy_input =
    PName string
  | PDescription string
  | PRules "json list"
  | PRenewThreshold int
  | PRenewExtension int
  | PMaxTotalEpochs int
  | PAutoRenewal bool
  | PActive bool
  | PScope string
  | PScopeTarget string
  | PBudget string
  | PLimit string
  | PPriority int
  | PMaxRetries int

fun policy_key :: "policy_input \<Rightarrow> string" where
  "policy_key (PName _) = ''name''"
| "policy_key (PDescription _) = ''description''"
| "policy_key (PRules _) = ''rules''"
| "policy_key (PRenewThreshold _) = ''renewThreshold''"
| "policy_key (PRenewExtension _) = ''renewExtension''"
| "policy_key (PMaxTotalEpochs _) = ''maxTotalEpochs''"
| "policy_key (PAutoRenewal _) = ''autoRenewalEnabled''"
| "policy_key (PActive _) = ''active''"
| "policy_key (PScope _) = ''scope''"
| "policy_key (PScopeTarget _) = ''scopeTargetId''"
| "policy_key (PBudget _) = ''budgetId''"
| "policy_key (PLimit _) = ''spendingLimitId''"
| "policy_key (PPriority _) = ''publisherPriorityOverride''"
| "policy_key (PMaxRetries _) = ''maxRetries''"

fun policy_new :: "policy_input \<Rightarrow> json" where
  "policy_new (PName s) = JStr s"
| "policy_new (PDescription s) = JStr s"
| "policy_new (PRules rs) = JArr rs"
| "policy_new (PRenewThreshold n) = JNum n"
| "policy_new (PRenewExtension n) = JNum n"
| "policy_new (PMaxTotalEpochs n) = JNum n"
| "policy_new (PAutoRenewal b) = JBool b"
| "policy_new (PActive b) = JBool b"
| "policy_new (PScope s) = JStr s"
| "policy_new (PScopeTarget s) = JStr s"
| "policy_new (PBudget s) = JStr s"
| "policy_new (PLimit s) = JStr s"
| "policy_new (PPriority n) = JNum n"
| "policy_new (PMaxRetries n) = JNum n"

fun policy_old :: "policy_row \<Rightarrow> policy_input \<Rightarrow> json" where
  "policy_old p (PName _) = JStr (po_name p)"
| "policy_old p (PDescription _) = json_opt (po_description p)"
| "policy_old p (PRules _) = po_rules p"
| "policy_old p (PRenewThreshold _) = JNum (po_renewThreshold p)"
| "policy_old p (PRenewExtension _) = JNum (po_renewExtension p)"
| "policy_old p (PMaxTotalEpochs _) = json_int (po_maxTotalEpochs p)"
| "policy_old p (PAutoRenewal _) = JBool (po_autoRenewalEnabled p)"
| "policy_old p (PActive _) = JBool (po_active p)"
| "policy_old p (PScope _) = json_opt (po_scope p)"
| "policy_old p (PScopeTarget _) = json_opt (po_scopeTargetId p)"
| "policy_old p (PBudget _) = json_opt (po_budgetId p)"
| "policy_old p (PLimit _) = json_opt (po_spendingLimitId p)"
| "policy_old p (PPriority _) = json_int (po_publisherPriorityOverride p)"
| "policy_old p (PMaxRetries _) = json_int (po_maxRetries p)"

fun set_policy_field :: "policy_input \<Rightarrow> policy_row \<Rightarrow> policy_row" where
  "set_policy_field (PName s) p = p\<lparr>po_name := s\<rparr>"
| "set_policy_field (PDescription s) p = p\<lparr>po_description := Some s\<rparr>"
| "set_policy_field (PRules rs) p = p\<lparr>po_rules := JArr rs\<rparr>"
| "set_policy_field (PRenewThreshold n) p = p\<lparr>po_renewThreshold := n\<rparr>"
| "set_policy_field (PRenewExtension n) p = p\<lparr>po_renewExtension := n\<rparr>"
| "set_policy_field (PMaxTotalEpochs n) p = p\<lparr>po_maxTotalEpochs := Some n\<rparr>"
| "set_policy_field (PAutoRenewal b) p = p\<lparr>po_autoRenewalEnabled := b\<rparr>"
| "set_policy_field (PActive b) p = p\<lparr>po_active := b\<rparr>"
| "set_policy_field (PScope s) p = p\<lparr>po_scope := Some s\<rparr>"
| "set_policy_field (PScopeTarget s) p = p\<lparr>po_scopeTargetId := Some s\<rparr>"
| "set_policy_field (PBudget s) p = p\<lparr>po_budgetId := Some s\<rparr>"
| "set_policy_field (PLimit s) p = p\<lparr>po_spendingLimitId := Some s\<rparr>"
| "set_policy_field (PPriority n) p = p\<lparr>po_publisherPriorityOverride := Some n\<rparr>"
| "set_policy_field (PMaxRetries n) p = p\<lparr>po_maxRetries := Some n\<rparr>"

text \<open>\<open>createPolicySchema\<close> and its partial form.\<close>

fun policy_field_ok :: "policy_input \<Rightarrow> bool" where
  "policy_field_ok (PName s) = (1 \<le> length s \<and> length s \<le> 255)"
| "policy_field_ok (PDescription s) = True"
| "policy_field_ok (PRules rs) = list_all (\<lambda>r. case r of JObj _ \<Rightarrow> True | _ \<Rightarrow> False) rs"
| "policy_field_ok (PRenewThreshold n) = (n \<ge> 0)"
| "policy_field_ok (PRenewExtension n) = (n \<ge> 0)"
| "policy_field_ok (PMaxTotalEpochs n) = (n \<ge> 0)"
| "policy_field_ok (PAutoRenewal b) = True"
| "policy_field_ok (PActive b) = True"
| "policy_field_ok (PScope s) = (s \<in> {''organization'', ''project'', ''wallet'', ''blob'', ''tag''})"
| "policy_field_ok (PScopeTarget s) = is_uuid s"
| "policy_field_ok (PBudget s) = is_uuid s"
| "policy_field_ok (PLimit s) = is_uuid s"
| "policy_field_ok (PPriority n) = (n \<ge> 0)"
| "policy_field_ok (PMaxRetries n) = (n \<ge> 0)"

definition policy_patch_ok :: "policy_input list \<Rightarrow> bool" where
  "policy_patch_ok fs \<longleftrightarrow> list_all policy_field_ok fs \<and> distinct (map policy_key fs)"

definition policy_body_ok :: "policy_input list \<Rightarrow> bool" where
  "policy_body_ok fs \<longleftrightarrow> policy_patch_ok fs
     \<and> {''name'', ''renewThreshold'', ''renewExtension''} \<subseteq> set (map policy_key fs)"

text \<open>The scope of a body, and whether it names a target.\<close>

fun scope_of :: "policy_input list \<Rightarrow> string option" where
  "scope_of [] = None"
| "scope_of (PScope s # fs) = Some s"
| "scope_of (_ # fs) = scope_of fs"

definition targets :: "policy_input list \<Rightarrow> bool" where
  "targets fs \<longleftrightarrow> (\<exists>f \<in> set fs. policy_key f = ''scopeTargetId'')"

section \<open>Statements\<close>

definition upd_policies :: "string \<Rightarrow> (policy_row \<Rightarrow> policy_row) \<Rightarrow> db \<Rightarrow> db" where
  "upd_policies i f d = d\<lparr>db_policies := sql_update (\<lambda>p. po_id p = i) f (db_policies d)\<rparr>"

definition policy_table :: "policy_row entity_table" where
  "policy_table =
     \<lparr>et_rows = (\<lambda>st. db_policies (ap_db st)), et_id = po_id, et_org = po_orgId, et_status = po_status,
      et_update = (\<lambda>i f. write_db (upd_policies i f)), et_machine = SM_policy\<rparr>"

interpretation policies: entity_laws policy_table
  by unfold_locales (simp_all add: policy_table_def upd_policies_def add_audit_def)

text \<open>The references of a policy to budgets and spending limits.\<close>

definition refs_ok :: "policy_row \<Rightarrow> db \<Rightarrow> bool" where
  "refs_ok p d \<longleftrightarrow>
     (\<forall>b. po_budgetId p = Some b \<longrightarrow> b \<in> bu_id ` set (db_budgets d))
     \<and> (\<forall>l. po_spendingLimitId p = Some l \<longrightarrow> l \<in> sl_id ` set (db_limits d))"

definition insert_policy :: "policy_row \<Rightarrow> api_state \<Rightarrow> thrown + api_state" where
  "insert_policy p st =
     (if po_id p \<in> po_id ` set (db_policies (ap_db st)) then Inl (duplicate_key ''policies_pkey'')
      else if \<not> refs_ok p (ap_db st) then Inl (foreign_key_error ''policies'')
      else Inr (write_db (\<lambda>d. d\<lparr>db_policies := db_policies d @ [p]\<rparr>) st))"

definition policy_event ::
    "api_env \<Rightarrow> request_vars \<Rightarrow> string \<Rightarrow> string \<Rightarrow> string \<Rightarrow> event_payload" where
  "policy_event env cx org name i =
     createEvent (av_now env) name org ''policy'' i (ActHuman (or_default (cx_userId cx) '''')) None None"

definition policy_spec :: "string \<Rightarrow> json option \<Rightarrow> audit_spec" where
  "policy_spec event details = \<lparr>as_event = event, as_entityType = ''policy'', as_details = details\<rparr>"

section \<open>Handlers\<close>

datatype policy_answer =
    PolicyRow policy_row
  | WithSnapshot policy_row json
  | WithAssignments policy_row "assignment_row list"
  | Resolved resolved_policy

definition scope_error :: "string \<Rightarrow> int \<times> 'b body" where
  "scope_error s = api_error [] 400 (''scopeTargetId is required for scope '' @ sq s) ''VALIDATION_ERROR''"

text \<open>A scope other than the organization needs a target, in the body or in the row.\<close>

definition missing_target :: "policy_input list \<Rightarrow> bool \<Rightarrow> string option" where
  "missing_target fs target =
     (case scope_of fs of
        Some s \<Rightarrow> if s \<noteq> ''organization'' \<and> \<not> targets fs \<and> \<not> target then Some s else None
      | None \<Rightarrow> None)"

definition create_policy ::
    "api_env \<Rightarrow> request \<Rightarrow> request_vars \<Rightarrow> policy_input list \<Rightarrow> api_state \<Rightarrow> policy_answer handled" where
  "create_policy env rq cx fs st =
     (case missing_target fs False of
        Some s \<Rightarrow> (Inr (scope_error s), st)
      | None \<Rightarrow>
          (case cx_orgId cx of
             None \<Rightarrow> (Inl undefined_arg, st)
           | Some org \<Rightarrow>
               (let i = av_id env ''policies'' (length (db_policies (ap_db st)));
                    p = fold set_policy_field fs (new_policy i (av_now env) org '''' 0 0)
                in conclude
                     (with_audit env rq cx (insert_policy p)
                        (policy_spec ''policy.created'' (Some (JObj [(''name'', JStr (po_name p))]))) i st)
                     [policy_event env cx org ''policy.created'' i]
                     (201, Row (WithSnapshot p (snapshotPolicyOnStart (av_now env) p))) st)))"

definition get_policy :: "string \<Rightarrow> string \<Rightarrow> policy_row \<Rightarrow> api_state \<Rightarrow> policy_answer handled" where
  "get_policy org i p st =
     (Inr (200, Row (WithAssignments p (filter (\<lambda>a. pa_policyId a = i) (db_assignments (ap_db st))))), st)"

text \<open>The audit entry has the old and the new value of every field.\<close>

definition patch_details :: "policy_row \<Rightarrow> policy_input list \<Rightarrow> json" where
  "patch_details p fs =
     JObj [(''changes'', JObj (map (\<lambda>f. (policy_key f, JObj [(''from'', policy_old p f), (''to'', policy_new f)])) fs)),
           (''input'', JObj (map (\<lambda>f. (policy_key f, policy_new f)) fs))]"

definition patch_policy ::
    "api_env \<Rightarrow> request \<Rightarrow> request_vars \<Rightarrow> policy_input list \<Rightarrow> string \<Rightarrow> string \<Rightarrow> policy_row \<Rightarrow> api_state
     \<Rightarrow> policy_answer handled" where
  "patch_policy env rq cx fs org i p st =
     (case missing_target fs (truthy (po_scopeTargetId p) \<noteq> None) of
        Some s \<Rightarrow> (Inr (scope_error s), st)
      | None \<Rightarrow>
          (let f = (\<lambda>q. (fold set_policy_field fs q)\<lparr>po_updatedAt := av_now env\<rparr>)
           in conclude
                (with_audit env rq cx
                   (\<lambda>s. if refs_ok (f p) (ap_db s) then Inr (et_update policy_table i f s) else Inl (foreign_key_error ''policies''))
                   (policy_spec ''policy.updated'' (Some (patch_details p fs))) i st)
                [] (200, Row (PolicyRow (f p))) st))"

definition move_policy ::
    "api_env \<Rightarrow> request \<Rightarrow> request_vars \<Rightarrow> string \<Rightarrow> (policy_row \<Rightarrow> policy_row) \<Rightarrow> string \<Rightarrow> string \<Rightarrow> string
     \<Rightarrow> string \<Rightarrow> string \<Rightarrow> policy_row \<Rightarrow> api_state \<Rightarrow> policy_answer handled" where
  "move_policy env rq cx target upd audit_name event_name msg org i p st =
     conclude
       (move_item policy_table env rq cx i p target
          (\<lambda>q. (upd q)\<lparr>po_status := target, po_updatedAt := av_now env\<rparr>) (policy_spec audit_name None) st)
       [policy_event env cx org event_name i] (say msg) st"

definition pause_policy where
  "pause_policy env rq cx = move_policy env rq cx ''paused'' (\<lambda>q. q\<lparr>po_active := False\<rparr>) ''policy.paused'' ''policy.paused''
     ''Policy paused. In-progress renewals continue.''"

definition activate_policy where
  "activate_policy env rq cx = move_policy env rq cx ''active'' (\<lambda>q. q\<lparr>po_active := True\<rparr>) ''policy.activated'' ''policy.activated''
     ''Policy activated''"

definition archive_policy where
  "archive_policy env rq cx = move_policy env rq cx ''archived'' (\<lambda>q. q\<lparr>po_active := False\<rparr>) ''policy.archived'' ''policy.archived''
     ''Policy archived''"

definition delete_policy where
  "delete_policy env rq cx = move_policy env rq cx ''archived''
     (\<lambda>q. q\<lparr>po_active := False, po_deletedAt := Some (av_now env)\<rparr>) ''policy.deleted'' ''policy.archived''
     ''Policy deleted''"

text \<open>The insert ignores conflicts, also among its own rows; the blobs must exist.\<close>

definition new_assignments :: "db \<Rightarrow> string \<Rightarrow> string list \<Rightarrow> assignment_row list" where
  "new_assignments d i blobs =
     filter (\<lambda>a. a \<notin> set (db_assignments d))
       (map (\<lambda>b. \<lparr>pa_policyId = i, pa_blobRegistrationId = b\<rparr>) (js_set blobs))"

definition blob_ids_json :: "string list \<Rightarrow> json option" where
  "blob_ids_json blobs = Some (JObj [(''blob_ids'', JArr (map JStr blobs))])"

definition assign_policy ::
    "api_env \<Rightarrow> request \<Rightarrow> request_vars \<Rightarrow> string list \<Rightarrow> string \<Rightarrow> string \<Rightarrow> policy_row \<Rightarrow> api_state
     \<Rightarrow> policy_answer handled" where
  "assign_policy env rq cx blobs org i p st =
     (let new = new_assignments (ap_db st) i blobs
      in conclude
           (with_audit env rq cx
              (\<lambda>s. if set blobs \<subseteq> bl_id ` set (db_blobs (ap_db s))
                   then Inr (write_db (\<lambda>d. d\<lparr>db_assignments := db_assignments d @ new\<rparr>) s)
                   else Inl (foreign_key_error ''policy_assignments''))
              (policy_spec ''policy.assign'' (blob_ids_json blobs)) i st)
           [] (200, Json (JObj [(''assigned'', JNum (int (length new)))])) st)"

definition unassign_policy ::
    "api_env \<Rightarrow> request \<Rightarrow> request_vars \<Rightarrow> string list \<Rightarrow> string \<Rightarrow> string \<Rightarrow> policy_row \<Rightarrow> api_state
     \<Rightarrow> policy_answer handled" where
  "unassign_policy env rq cx blobs org i p st =
     conclude
       (with_audit env rq cx
          (\<lambda>s. Inr (write_db (\<lambda>d. d\<lparr>db_assignments :=
             filter (\<lambda>a. \<not> (pa_policyId a = i \<and> pa_blobRegistrationId a \<in> set blobs)) (db_assignments d)\<rparr>) s))
          (policy_spec ''policy.unassign'' (blob_ids_json blobs)) i st)
       [] (200, Json (JObj [(''unassigned'', JNum (int (length blobs)))])) st"

record scope_query =
  qs_orgId :: string
  qs_projectId :: string
  qs_walletId :: "string option"
  qs_tags :: "string list option"

text \<open>The organization of the query is that of the body, not that of the request.\<close>

definition resolve_scope :: "scope_query \<Rightarrow> api_state \<Rightarrow> policy_answer handled" where
  "resolve_scope q st =
     (Inr (200, Row (Resolved (resolveFromScope (ap_db st) (qs_orgId q) (qs_projectId q) (qs_walletId q) (qs_tags q)))), st)"

definition resolve_blob :: "string \<Rightarrow> api_state \<Rightarrow> policy_answer handled" where
  "resolve_blob blobId st =
     (if \<not> is_uuid blobId then (Inl (uuid_error blobId), st)
      else case resolveEffectivePolicy (ap_db st) blobId of
             Inl e \<Rightarrow> (Inl e, st) | Inr r \<Rightarrow> (Inr (200, Row (Resolved r)), st))"

section \<open>Routes\<close>

datatype policy_op =
    CreatePolicy "policy_input list"
  | GetPolicy
  | PatchPolicy "policy_input list"
  | PausePolicy
  | ActivatePolicy
  | ArchivePolicy
  | DeletePolicy
  | AssignPolicy "string list"
  | UnassignPolicy "string list"
  | ResolveScope scope_query
  | ResolveBlob string

definition on_policy ::
    "request \<Rightarrow> request_vars \<Rightarrow> (string \<Rightarrow> string \<Rightarrow> policy_row \<Rightarrow> api_state \<Rightarrow> policy_answer handled)
     \<Rightarrow> api_state \<Rightarrow> policy_answer handled" where
  "on_policy rq cx k st = on_item policy_table ''Policy'' (\<lambda>_. []) rq cx k st"

fun policy_handler :: "api_env \<Rightarrow> request \<Rightarrow> policy_op \<Rightarrow> request_vars \<Rightarrow> api_state \<Rightarrow> policy_answer handled" where
  "policy_handler env rq (CreatePolicy fs) cx st = catch_app (create_policy env rq cx fs st)"
| "policy_handler env rq GetPolicy cx st = catch_app (on_policy rq cx get_policy st)"
| "policy_handler env rq (PatchPolicy fs) cx st = catch_app (on_policy rq cx (patch_policy env rq cx fs) st)"
| "policy_handler env rq PausePolicy cx st = catch_app (on_policy rq cx (pause_policy env rq cx) st)"
| "policy_handler env rq ActivatePolicy cx st = catch_app (on_policy rq cx (activate_policy env rq cx) st)"
| "policy_handler env rq ArchivePolicy cx st = catch_app (on_policy rq cx (archive_policy env rq cx) st)"
| "policy_handler env rq DeletePolicy cx st = catch_app (on_policy rq cx (delete_policy env rq cx) st)"
| "policy_handler env rq (AssignPolicy blobs) cx st = catch_app (on_policy rq cx (assign_policy env rq cx blobs) st)"
| "policy_handler env rq (UnassignPolicy blobs) cx st = catch_app (on_policy rq cx (unassign_policy env rq cx blobs) st)"
| "policy_handler env rq (ResolveScope q) cx st = catch_app (resolve_scope q st)"
| "policy_handler env rq (ResolveBlob i) cx st = catch_app (resolve_blob i st)"

fun policy_guards :: "policy_op \<Rightarrow> guard list" where
  "policy_guards GetPolicy = [GAuth, GOrg]"
| "policy_guards (ResolveBlob _) = [GAuth, GAuth, GOrg]"
| "policy_guards _ = [GAuth, GOrg, GCap [MANAGE_POLICIES]]"

fun policy_op_ok :: "policy_op \<Rightarrow> bool" where
  "policy_op_ok (CreatePolicy fs) = policy_body_ok fs"
| "policy_op_ok (PatchPolicy fs) = policy_patch_ok fs"
| "policy_op_ok (AssignPolicy blobs) = (blobs \<noteq> [] \<and> list_all is_uuid blobs)"
| "policy_op_ok (UnassignPolicy blobs) = (blobs \<noteq> [] \<and> list_all is_uuid blobs)"
| "policy_op_ok (ResolveScope q) =
     (is_uuid (qs_orgId q) \<and> is_uuid (qs_projectId q) \<and> pred_option is_uuid (qs_walletId q))"
| "policy_op_ok _ = True"

definition policy_request ::
    "api_env \<Rightarrow> string \<Rightarrow> request \<times> policy_op \<Rightarrow> api_state \<Rightarrow> policy_answer body reply \<times> api_state" where
  "policy_request env rid x st =
     (case x of (rq, op) \<Rightarrow> serve env rid (policy_guards op) rq (policy_op_ok op) (policy_handler env rq op) st)"

section \<open>Facts\<close>

lemma set_policy_field_frame [simp]:
  "po_id (set_policy_field f p) = po_id p" "po_status (set_policy_field f p) = po_status p"
  "po_orgId (set_policy_field f p) = po_orgId p"
  by (cases f; simp)+

lemma fold_policy_frame [simp]:
  "po_id (fold set_policy_field fs p) = po_id p" "po_status (fold set_policy_field fs p) = po_status p"
  "po_orgId (fold set_policy_field fs p) = po_orgId p"
  by (induction fs arbitrary: p) simp_all

lemma new_policy_simps [simp]:
  "po_id (new_policy i now org n t e) = i" "po_status (new_policy i now org n t e) = ''draft''"
  "po_orgId (new_policy i now org n t e) = org"
  by (simp_all add: new_policy_def)

lemma policy_table_simps [simp]:
  "et_machine policy_table = SM_policy" "et_id policy_table = po_id" "et_status policy_table = po_status"
  "et_rows policy_table s = db_policies (ap_db s)" "et_update policy_table i f = write_db (upd_policies i f)"
  by (simp_all add: policy_table_def)

lemma insert_policy_ok:
  "insert_policy p st = Inr st' \<Longrightarrow> po_id p \<notin> po_id ` set (db_policies (ap_db st))
     \<and> st' = write_db (\<lambda>d. d\<lparr>db_policies := db_policies d @ [p]\<rparr>) st"
  by (auto simp: insert_policy_def split: if_splits)

lemma insert_policy_steps:
  assumes "insert_policy p st = Inr st'" and "po_status p \<in> S"
  shows "key_steps SM_policy S (keys_of policy_table st) (keys_of policy_table st')"
  using insert_policy_ok [OF assms(1)] key_step.add [of "po_id p" "keys_of policy_table st" "po_status p" S SM_policy] assms(2)
  by (auto simp: keys_of_def policy_table_def image_image)

lemma create_policy_steps:
  "key_steps SM_policy {''draft''} (keys_of policy_table st) (keys_of policy_table (snd (create_policy env rq cx fs st)))"
  by (auto simp: create_policy_def Let_def intro!: policies.write_steps insert_policy_steps split: option.split)

lemma keys_assignments [simp]:
  "keys_of policy_table (write_db (\<lambda>d. d\<lparr>db_assignments := f d\<rparr>) st) = keys_of policy_table st"
  by (simp add: keys_of_def policy_table_def)

lemma patch_policy_steps:
  "key_steps SM_policy {''draft''} (keys_of policy_table st) (keys_of policy_table (snd (patch_policy env rq cx fs org i p st)))"
proof -
  have "keys_of policy_table (et_update policy_table i (\<lambda>q. (fold set_policy_field fs q)\<lparr>po_updatedAt := av_now env\<rparr>) s)
      = keys_of policy_table s" for s
    by (rule policies.keys_frame) (simp add: policy_table_def)
  then show ?thesis
    by (auto simp: patch_policy_def Let_def intro!: policies.write_steps split: option.split if_splits)
qed

lemma assign_steps:
  "key_steps SM_policy {''draft''} (keys_of policy_table st) (keys_of policy_table (snd (assign_policy env rq cx bs org i p st)))"
  "key_steps SM_policy {''draft''} (keys_of policy_table st) (keys_of policy_table (snd (unassign_policy env rq cx bs org i p st)))"
  by (auto simp: assign_policy_def unassign_policy_def Let_def intro!: policies.write_steps split: if_splits)

lemmas policy_moves = pause_policy_def activate_policy_def archive_policy_def delete_policy_def

lemma move_policy_steps:
  assumes "find_entity policy_table st org i = Some p" and "\<And>q. po_id (upd q) = po_id q"
  shows "key_steps SM_policy {''draft''} (keys_of policy_table st)
    (keys_of policy_table (snd (move_policy env rq cx target upd a e m org i p st)))"
  unfolding move_policy_def using assms(2)
  by (intro policies.move_steps [OF assms(1), simplified policy_table_simps]) simp

lemma policy_handler_steps:
  "key_steps SM_policy {''draft''} (keys_of policy_table st) (keys_of policy_table (snd (policy_handler env rq op cx st)))"
  by (cases op)
    (simp_all add: create_policy_steps on_policy_def on_item_steps patch_policy_steps assign_steps get_policy_def
      policy_moves move_policy_steps resolve_scope_def resolve_blob_def split: sum.split)

interpretation policy_router: router policy_table "policy_request env" "{''draft''}" for env
proof
  fix st rid x
  show "key_steps (et_machine policy_table) {''draft''} (keys_of policy_table st)
      (keys_of policy_table (snd (policy_request env rid x st)))"
    unfolding policy_request_def by (cases x) (auto intro!: policies.serve_steps policy_handler_steps)
qed

subsection \<open>What the organization guard leaves of the router\<close>

lemma create_policy_appends:
  "\<exists>new. db_policies (ap_db (snd (create_policy env rq cx fs st))) = db_policies (ap_db st) @ new
    \<and> (\<forall>p \<in> set new. po_status p = ''draft'' \<and> po_id p \<in> range (av_id env ''policies''))"
  by (auto simp: create_policy_def Let_def conclude_def with_audit_def bindE_def add_audit_def
      split: option.split sum.splits dest!: insert_policy_ok)

lemma resolve_state [simp]: "snd (resolve_scope q st) = st" "snd (resolve_blob i st) = st"
  by (simp_all add: resolve_scope_def resolve_blob_def split: sum.split)

lemma policy_request_appends:
  assumes "ids_apart policy_table st"
  shows "\<exists>new. et_rows policy_table (snd (policy_request env rid (rq, op) st)) = et_rows policy_table st @ new
    \<and> (\<forall>p \<in> set new. po_status p = ''draft'' \<and> po_id p \<in> range (av_id env ''policies''))"
  unfolding policy_request_def prod.case
  by (cases op)
    (simp_all only: policy_guards.simps,
      (rule policies.serve_item_appends [OF assms], simp, (simp add: on_policy_def; fail)
       | rule policies.serve_new_appends, simp add: create_policy_appends)+)

lemma insert_policy_access: "insert_policy p st = Inr st1 \<Longrightarrow> ap_access st1 = ap_access st"
  by (auto dest: insert_policy_ok)

lemma create_policy_access: "ap_access (snd (create_policy env rq cx fs st)) = ap_access st"
  by (simp add: create_policy_def Let_def conclude_access [OF insert_policy_access] split: option.split)

lemma patch_policy_access: "ap_access (snd (patch_policy env rq cx fs org i p st)) = ap_access st"
  by (auto simp: patch_policy_def Let_def intro!: conclude_access split: option.split if_splits)

lemma move_policy_access: "ap_access (snd (move_policy env rq cx target upd a e m org i p st)) = ap_access st"
  unfolding move_policy_def by (rule move_item_access) simp

lemma assign_policy_access:
  "ap_access (snd (assign_policy env rq cx bs org i p st)) = ap_access st"
  "ap_access (snd (unassign_policy env rq cx bs org i p st)) = ap_access st"
  by (auto simp: assign_policy_def unassign_policy_def Let_def intro!: conclude_access split: if_splits)

lemma policy_handler_access: "ap_access (snd (policy_handler env rq op cx st)) = ap_access st"
  by (cases op)
    (simp_all add: on_policy_def on_item_access policy_moves get_policy_def create_policy_access patch_policy_access
      move_policy_access assign_policy_access)

interpretation policy_creations: closed_router policy_table env "''policies''" "policy_request env" "\<lambda>p. po_status p = ''draft''" for env
proof
  fix rid and x :: "request \<times> policy_op" and st
  obtain rq op where x: "x = (rq, op)" by (cases x)
  show "ac_orgs (ap_access (snd (policy_request env rid x st))) = ac_orgs (ap_access st)"
    unfolding x policy_request_def prod.case by (rule serve_orgs) (rule policy_handler_access)
  assume "ids_apart policy_table st"
  from policy_request_appends [OF this, of env rid rq op]
  show "\<exists>new. et_rows policy_table (snd (policy_request env rid x st)) = et_rows policy_table st @ new
      \<and> (\<forall>r \<in> set new. po_status r = ''draft'' \<and> et_id policy_table r \<in> range (av_id env ''policies''))" by (simp add: x)
qed

subsection \<open>What a policy governs\<close>

lemma no_active_default:
  assumes "\<forall>p \<in> set (db_policies d). po_status p \<noteq> ''active''" and "resolveEffectivePolicy d i = Inr r"
  shows "r = SYSTEM_DEFAULT_POLICY"
proof -
  obtain b where b: "first_row (filter (\<lambda>b. bl_id b = i) (db_blobs d)) = Some b"
    using assms(2) by (auto simp: resolveEffectivePolicy_def split: option.splits)
  have "\<not> applies_at d b k p" for k p using assms(1) by (auto simp: applies_at_def)
  with resolve_found [OF b] assms(2) show ?thesis by (auto simp: resolved_ok_def governs_def)
qed

lemma filter_keyed: "distinct (map k rows) \<Longrightarrow> p \<in> set rows \<Longrightarrow> filter (\<lambda>q. k q = k p) rows = [p]"
  by (induction rows) (auto simp: filter_empty_conv rev_image_eqI)

lemma explicit_single:
  assumes "\<forall>a \<in> set (db_assignments d). pa_blobRegistrationId a \<noteq> blob"
    and "first_row (filter (\<lambda>q. po_id q = po_id p) (db_policies d)) = Some p" and "distinct (map po_id (db_policies d))"
    and "po_status p = ''active''"
  shows "explicitPolicies (d\<lparr>db_assignments := db_assignments d @ [\<lparr>pa_policyId = po_id p, pa_blobRegistrationId = blob\<rparr>]\<rparr>) blob = [p]"
proof -
  have "filter (\<lambda>a. pa_blobRegistrationId a = blob) (db_assignments d) = []" using assms(1) by (simp add: filter_empty_conv)
  moreover have "filter (\<lambda>q. po_id q = po_id p) (db_policies d) = [p]"
    using filter_keyed [OF assms(3)] assms(2) by (auto dest: first_row_filter_SomeD)
  ultimately show ?thesis using assms(4) by (simp add: explicitPolicies_def)
qed

section \<open>Properties\<close>

text \<open>
  Every sequence of requests to the policies moves their statuses only along the edges of the state
  machine, and new policies are drafts.
\<close>

theorem policy_requests_follow_machine:
  "key_steps SM_policy {''draft''} (keys_of policy_table st)
     (keys_of policy_table (run_requests (policy_request env) xs st))"
  using policy_router.run_steps [of st env xs] by simp

text \<open>
  No policy written through the API ever governs a blob: from a database without active policies,
  after any requests of any callers, whatever the resolution returns is the system default, which never renews.
\<close>

theorem api_policies_never_govern:
  assumes "ids_stay_apart env ''policies'' policy_table st"
    and "\<forall>p \<in> set (db_policies (ap_db st)). po_status p \<noteq> ''active''"
    and "resolveEffectivePolicy (ap_db (run_requests (policy_request env) xs st)) blob = Inr r"
  shows "r = SYSTEM_DEFAULT_POLICY \<and> \<not> rp_autoRenewalEnabled r"
proof -
  obtain new where "db_policies (ap_db (run_requests (policy_request env) xs st)) = db_policies (ap_db st) @ new"
    "\<forall>p \<in> set new. po_status p = ''draft''"
    using policy_creations.run_appends [OF assms(1), of xs] by auto
  with assms(2) have "\<forall>p \<in> set (db_policies (ap_db (run_requests (policy_request env) xs st))). po_status p \<noteq> ''active''"
    by auto
  from no_active_default [OF this assms(3)] show ?thesis by (simp add: SYSTEM_DEFAULT_POLICY_def)
qed

theorem api_policies_never_govern_witness:
  "\<exists>r. resolveEffectivePolicy (ap_db (run_requests
       (policy_request \<lparr>av_access = sample_access_env, av_id = (\<lambda>t n. t), av_staleness = None\<rparr>) []
       \<lparr>ap_access = sample_access, ap_db = empty_db\<lparr>db_blobs := [new_blob ''b'' 0 ''o'' ''p'' ''0x'']\<rparr>, ap_projects = [],
        ap_delegations = [], ap_events = [], ap_invitations = []\<rparr>)) ''b'' = Inr r \<and> \<not> rp_autoRenewalEnabled r"
proof -
  let ?env = "\<lparr>av_access = sample_access_env, av_id = (\<lambda>t n. t), av_staleness = None\<rparr>"
  let ?st = "\<lparr>ap_access = sample_access, ap_db = empty_db\<lparr>db_blobs := [new_blob ''b'' 0 ''o'' ''p'' ''0x'']\<rparr>, ap_projects = [],
    ap_delegations = [], ap_events = [], ap_invitations = []\<rparr>"
  have "ids_stay_apart ?env ''policies'' policy_table ?st"
    by (simp add: ids_stay_apart_def ids_apart_def empty_db_def sample_access_def sample_org_def sample_uuid_def)
  moreover have "\<forall>p \<in> set (db_policies (ap_db ?st)). po_status p \<noteq> ''active''" by (simp add: empty_db_def)
  moreover obtain r where r: "resolveEffectivePolicy (ap_db (run_requests (policy_request ?env) [] ?st)) ''b'' = Inr r"
    by (simp add: run_requests_def resolveEffectivePolicy_def new_blob_def)
  ultimately show ?thesis using api_policies_never_govern [of ?env ?st "[]" "''b''" r] by blast
qed

text \<open>
  The assignment asks for the organization of the policy only: an active policy assigned to a blob that
  has no assignment yet governs it, whatever organization the blob belongs to.
\<close>

theorem assigned_policy_governs_any_blob:
  assumes "first_row (filter (\<lambda>q. po_id q = po_id p) (db_policies (ap_db st))) = Some p"
    and "distinct (map po_id (db_policies (ap_db st)))" and "po_status p = ''active''"
    and "b \<in> set (db_blobs (ap_db st))" and "cx_orgId cx = Some org"
    and "\<forall>a \<in> set (db_assignments (ap_db st)). pa_blobRegistrationId a \<noteq> bl_id b"
  shows "\<exists>path. resolveEffectivePolicy (ap_db (snd (assign_policy env rq cx [bl_id b] org (po_id p) p st))) (bl_id b)
    = Inr (toResolvedPolicy p path)"
proof -
  let ?a = "\<lparr>pa_policyId = po_id p, pa_blobRegistrationId = bl_id b\<rparr>"
  let ?d = "(ap_db st)\<lparr>db_assignments := db_assignments (ap_db st) @ [?a]\<rparr>"
  have new: "new_assignments (ap_db st) (po_id p) [bl_id b] = [?a]"
    using assms(6) by (auto simp: new_assignments_def js_set_def)
  obtain row where st': "ap_db (snd (assign_policy env rq cx [bl_id b] org (po_id p) p st))
      = ?d\<lparr>db_audits := db_audits (ap_db st) @ [row]\<rparr>"
    using assms(4,5) by (auto simp: assign_policy_def new Let_def conclude_def with_audit_def bindE_def audit_entry_def
        add_audit_def policy_spec_def split: sum.splits if_splits)
  have "explicitPolicies ?d (bl_id b) = [p]" using explicit_single [OF assms(6,1-3)] by simp
  then have "explicitPolicies (?d\<lparr>db_audits := db_audits (ap_db st) @ [row]\<rparr>) (bl_id b) = [p]"
    by (simp add: explicitPolicies_def)
  moreover have "first_row (filter (\<lambda>x. bl_id x = bl_id b) (db_blobs (ap_db st))) \<noteq> None"
    using assms(4) by (auto simp: first_row_filter_None)
  ultimately show ?thesis
    unfolding st' by (auto simp: resolveEffectivePolicy_def findExplicitBlobAssignment_def)
qed

theorem assigned_policy_governs_any_blob_witness:
  "\<exists>st p (b :: blob_row) path. po_orgId p \<noteq> bl_orgId b
     \<and> resolveEffectivePolicy (ap_db (snd (assign_policy \<lparr>av_access = sample_access_env, av_id = (\<lambda>t n. t), av_staleness = None\<rparr>
          (sample_request None) ((fresh_vars ''r'')\<lparr>cx_orgId := Some ''o''\<rparr>) [bl_id b] ''o'' (po_id p) p st))) (bl_id b)
        = Inr (toResolvedPolicy p path)"
proof -
  let ?p = "(new_policy ''p'' 0 ''o'' ''mine'' 7 30)\<lparr>po_status := ''active''\<rparr>" and ?b = "new_blob ''b'' 0 ''other'' ''pr'' ''0x''"
  let ?st = "\<lparr>ap_access = sample_access, ap_db = empty_db\<lparr>db_blobs := [?b], db_policies := [?p]\<rparr>, ap_projects = [],
    ap_delegations = [], ap_events = [], ap_invitations = []\<rparr>" and ?cx = "(fresh_vars ''r'')\<lparr>cx_orgId := Some ''o''\<rparr>"
  have 1: "first_row (filter (\<lambda>q. po_id q = po_id ?p) (db_policies (ap_db ?st))) = Some ?p"
    "distinct (map po_id (db_policies (ap_db ?st)))" "po_status ?p = ''active''" by simp_all
  have 2: "?b \<in> set (db_blobs (ap_db ?st))" "cx_orgId ?cx = Some ''o''"
    "\<forall>a \<in> set (db_assignments (ap_db ?st)). pa_blobRegistrationId a \<noteq> bl_id ?b" by (simp_all add: empty_db_def)
  have foreign: "po_orgId ?p \<noteq> bl_orgId ?b" by (simp add: new_blob_def)
  from assigned_policy_governs_any_blob [OF 1 2, of "\<lparr>av_access = sample_access_env, av_id = (\<lambda>t n. t), av_staleness = None\<rparr>" "sample_request None"]
  show ?thesis
    by (elim exE) (rule exI [of _ ?st], rule exI [of _ ?p], rule exI [of _ ?b], rule exI, rule conjI [OF foreign])
qed

text \<open>
  A resolution by scope answers for the organization its body names: a member who passes the guards for
  one organization reads the policy that governs a scope of any other.
\<close>

theorem resolve_any_organization:
  assumes "run_guards (av_access env) rq [GAuth, GOrg, GCap [MANAGE_POLICIES]] (fresh_vars rid, ap_access st) = Pass (cx, d)"
    and "policy_op_ok (ResolveScope q)"
  shows "fst (policy_request env rid (rq, ResolveScope q) st) =
    Answered (200, Row (Resolved (resolveFromScope (ap_db st) (qs_orgId q) (qs_projectId q) (qs_walletId q) (qs_tags q))))"
  using assms by (simp add: policy_request_def serve_def resolve_scope_def catch_app_def Let_def)

theorem resolve_any_organization_witness:
  "\<exists>r. fst (policy_request \<lparr>av_access = sample_access_env, av_id = (\<lambda>t n. t), av_staleness = None\<rparr> ''r''
     (sample_request None, ResolveScope \<lparr>qs_orgId = sample_uuid CHR ''2'', qs_projectId = sample_uuid CHR ''1'', qs_walletId = None, qs_tags = None\<rparr>)
     \<lparr>ap_access = sample_db, ap_db = empty_db, ap_projects = [], ap_delegations = [], ap_events = [], ap_invitations = []\<rparr>)
   = Answered (200, Row (Resolved r))"
proof -
  let ?env = "\<lparr>av_access = sample_access_env, av_id = (\<lambda>t n. t), av_staleness = None\<rparr>"
  let ?st = "\<lparr>ap_access = sample_db, ap_db = empty_db, ap_projects = [], ap_delegations = [], ap_events = [], ap_invitations = []\<rparr>"
  let ?q = "\<lparr>qs_orgId = sample_uuid CHR ''2'', qs_projectId = sample_uuid CHR ''1'', qs_walletId = None, qs_tags = None\<rparr>"
  have "\<exists>cx d. run_guards (av_access ?env) (sample_request None) [GAuth, GOrg, GCap [MANAGE_POLICIES]] (fresh_vars ''r'', ap_access ?st) = Pass (cx, d)"
    using sample_owner_passes by simp
  moreover have "policy_op_ok (ResolveScope ?q)" using sample_uuid_ok by simp
  ultimately show ?thesis using resolve_any_organization [of ?env "sample_request None" "''r''" ?st _ _ ?q] by blast
qed

end
