(* ===== verification/Limit_Routes.thy ===== *)
theory Limit_Routes
  imports Route_Base
begin

text \<open>
  Budgets and spending limits over the API, \<open>api/src/routes/budgets.ts\<close> and
  \<open>api/src/routes/spending-limits.ts\<close>, composed with the cost engine that enforces what they write. The lists are
  in Pagination.
\<close>

section \<open>Budgets\<close>

datatype budget_input =
    BProject string
  | BName string
  | BAmount int
  | BPeriod string
  | BCurrency string
  | BThreshold int

fun budget_key :: "budget_input \<Rightarrow> string" where
  "budget_key (BProject _) = ''projectId''"
| "budget_key (BName _) = ''name''"
| "budget_key (BAmount _) = ''amount''"
| "budget_key (BPeriod _) = ''period''"
| "budget_key (BCurrency _) = ''currency''"
| "budget_key (BThreshold _) = ''alertThreshold''"

fun budget_new :: "budget_input \<Rightarrow> json" where
  "budget_new (BProject s) = JStr s"
| "budget_new (BName s) = JStr s"
| "budget_new (BAmount n) = JNum n"
| "budget_new (BPeriod s) = JStr s"
| "budget_new (BCurrency s) = JStr s"
| "budget_new (BThreshold n) = JNum n"

fun budget_old :: "budget_row \<Rightarrow> budget_input \<Rightarrow> json" where
  "budget_old b (BProject _) = json_opt (bu_projectId b)"
| "budget_old b (BName _) = JStr (bu_name b)"
| "budget_old b (BAmount _) = JNum (bu_amount b)"
| "budget_old b (BPeriod _) = JStr (bu_period b)"
| "budget_old b (BCurrency _) = JStr (bu_currency b)"
| "budget_old b (BThreshold _) = json_int (bu_alertThreshold b)"

fun set_budget_field :: "budget_input \<Rightarrow> budget_row \<Rightarrow> budget_row" where
  "set_budget_field (BProject s) b = b\<lparr>bu_projectId := Some s\<rparr>"
| "set_budget_field (BName s) b = b\<lparr>bu_name := s\<rparr>"
| "set_budget_field (BAmount n) b = b\<lparr>bu_amount := n\<rparr>"
| "set_budget_field (BPeriod s) b = b\<lparr>bu_period := s\<rparr>"
| "set_budget_field (BCurrency s) b = b\<lparr>bu_currency := s\<rparr>"
| "set_budget_field (BThreshold n) b = b\<lparr>bu_alertThreshold := Some n\<rparr>"

fun budget_field_ok :: "budget_input \<Rightarrow> bool" where
  "budget_field_ok (BProject s) = is_uuid s"
| "budget_field_ok (BName s) = (1 \<le> length s \<and> length s \<le> 255)"
| "budget_field_ok (BAmount n) = (n \<ge> 0)"
| "budget_field_ok (BPeriod s) = (s \<in> {''daily'', ''weekly'', ''monthly'', ''quarterly'', ''yearly''})"
| "budget_field_ok (BCurrency s) = True"
| "budget_field_ok (BThreshold n) = (1 \<le> n \<and> n \<le> 100)"

definition budget_patch_ok :: "budget_input list \<Rightarrow> bool" where
  "budget_patch_ok fs \<longleftrightarrow> list_all budget_field_ok fs \<and> distinct (map budget_key fs)"

definition budget_body_ok :: "budget_input list \<Rightarrow> bool" where
  "budget_body_ok fs \<longleftrightarrow> budget_patch_ok fs \<and> {''name'', ''amount''} \<subseteq> set (map budget_key fs)"

definition budget_table :: "budget_row entity_table" where
  "budget_table =
     \<lparr>et_rows = (\<lambda>st. db_budgets (ap_db st)), et_id = bu_id, et_org = bu_orgId, et_status = bu_status,
      et_update = (\<lambda>i f. write_db (upd_budgets i f)), et_machine = SM_budget\<rparr>"

interpretation budgets: entity_laws budget_table
  by unfold_locales (simp_all add: budget_table_def upd_budgets_def add_audit_def)

text \<open>The project of a budget must exist, in whatever organization.\<close>

definition budget_project_ok :: "budget_row \<Rightarrow> api_state \<Rightarrow> bool" where
  "budget_project_ok b st \<longleftrightarrow> (\<forall>p. bu_projectId b = Some p \<longrightarrow> p \<in> pj_id ` set (ap_projects st))"

definition insert_budget :: "budget_row \<Rightarrow> api_state \<Rightarrow> thrown + api_state" where
  "insert_budget b st =
     (if bu_id b \<in> bu_id ` set (db_budgets (ap_db st)) then Inl (duplicate_key ''budgets_pkey'')
      else if \<not> budget_project_ok b st then Inl (foreign_key_error ''budgets'')
      else Inr (write_db (\<lambda>d. d\<lparr>db_budgets := db_budgets d @ [b]\<rparr>) st))"

definition create_budget ::
    "api_env \<Rightarrow> request \<Rightarrow> request_vars \<Rightarrow> budget_input list \<Rightarrow> api_state \<Rightarrow> budget_row handled" where
  "create_budget env rq cx fs st =
     (case cx_orgId cx of
        None \<Rightarrow> (Inl undefined_arg, st)
      | Some org \<Rightarrow>
          (let i = av_id env ''budgets'' (length (db_budgets (ap_db st)));
               b = fold set_budget_field fs (new_budget i (av_now env) org '''' 0);
               details = Some (JObj [(''name'', JStr (bu_name b)), (''amount'', JNum (bu_amount b))])
           in conclude
                (with_audit env rq cx (insert_budget b) (entity_spec ''budget'' ''budget.created'' details) i st)
                [owner_event env cx org ''budget.created'' ''budget'' i details] (201, Row b) st))"

definition budget_changes :: "budget_row \<Rightarrow> budget_input list \<Rightarrow> json" where
  "budget_changes b fs =
     JObj [(''changes'', JObj (map (\<lambda>f. (budget_key f, JObj [(''from'', budget_old b f), (''to'', budget_new f)])) fs)),
           (''input'', JObj (map (\<lambda>f. (budget_key f, budget_new f)) fs))]"

definition patch_budget ::
    "api_env \<Rightarrow> request \<Rightarrow> request_vars \<Rightarrow> budget_input list \<Rightarrow> string \<Rightarrow> string \<Rightarrow> budget_row \<Rightarrow> api_state
     \<Rightarrow> budget_row handled" where
  "patch_budget env rq cx fs org i b st =
     (let f = (\<lambda>q. (fold set_budget_field fs q)\<lparr>bu_updatedAt := av_now env\<rparr>)
      in conclude
           (with_audit env rq cx
              (\<lambda>s. if budget_project_ok (f b) s then Inr (et_update budget_table i f s) else Inl (foreign_key_error ''budgets''))
              (entity_spec ''budget'' ''budget.updated'' (Some (budget_changes b fs))) i st)
           [] (200, Row (f b)) st)"

definition move_budget ::
    "api_env \<Rightarrow> request \<Rightarrow> request_vars \<Rightarrow> string \<Rightarrow> (budget_row \<Rightarrow> budget_row) \<Rightarrow> string \<Rightarrow> string
     \<Rightarrow> string \<Rightarrow> string \<Rightarrow> budget_row \<Rightarrow> api_state \<Rightarrow> budget_row handled" where
  "move_budget env rq cx target upd name msg org i b st =
     conclude
       (move_item budget_table env rq cx i b target
          (\<lambda>q. (upd q)\<lparr>bu_status := target, bu_updatedAt := av_now env\<rparr>) (entity_spec ''budget'' name None) st)
       [owner_event env cx org name ''budget'' i None] (say msg) st"

text \<open>Delete and archive differ in the time of the archive only.\<close>

definition archive_budget where
  "archive_budget env rq cx upd org i b st =
     (if bu_status b = ''archived'' then invalid ''Budget already archived'' st
      else move_budget env rq cx ''archived'' upd ''budget.archived'' ''Budget archived'' org i b st)"

definition delete_budget where
  "delete_budget env rq cx = archive_budget env rq cx (\<lambda>q. q\<lparr>bu_archivedAt := Some (av_now env)\<rparr>)"

definition close_budget_window where
  "close_budget_window env rq cx org i b st =
     (if bu_status b \<noteq> ''active'' then invalid ''Only active budgets can have their window closed'' st
      else move_budget env rq cx ''window_closed'' id ''budget.window_closed'' ''Budget window closed'' org i b st)"

definition activate_budget where
  "activate_budget env rq cx org i b st =
     (if bu_status b \<noteq> ''defined'' \<and> bu_status b \<noteq> ''window_closed''
      then invalid (''Budget in '' @ sq (bu_status b) @ '' cannot be activated '' @ em_dash @ '' only '' @ sq ''defined''
             @ '' or '' @ sq ''window_closed'' @ '' budgets can be activated'') st
      else move_budget env rq cx ''active'' id ''budget.activated'' ''Budget activated'' org i b st)"

datatype budget_op =
    CreateBudget "budget_input list"
  | GetBudget
  | PatchBudget "budget_input list"
  | DeleteBudget
  | CloseWindow
  | ActivateBudget
  | ArchiveBudget

definition on_budget ::
    "request \<Rightarrow> request_vars \<Rightarrow> (string \<Rightarrow> string \<Rightarrow> budget_row \<Rightarrow> api_state \<Rightarrow> budget_row handled)
     \<Rightarrow> api_state \<Rightarrow> budget_row handled" where
  "on_budget rq cx k st = on_item budget_table ''Budget'' (\<lambda>_. []) rq cx k st"

fun budget_handler :: "api_env \<Rightarrow> request \<Rightarrow> budget_op \<Rightarrow> request_vars \<Rightarrow> api_state \<Rightarrow> budget_row handled" where
  "budget_handler env rq (CreateBudget fs) cx st = catch_app (create_budget env rq cx fs st)"
| "budget_handler env rq GetBudget cx st = on_budget rq cx (\<lambda>org i b s. (Inr (200, Row b), s)) st"
| "budget_handler env rq (PatchBudget fs) cx st = catch_app (on_budget rq cx (patch_budget env rq cx fs) st)"
| "budget_handler env rq DeleteBudget cx st = catch_app (on_budget rq cx (delete_budget env rq cx) st)"
| "budget_handler env rq CloseWindow cx st = catch_app (on_budget rq cx (close_budget_window env rq cx) st)"
| "budget_handler env rq ActivateBudget cx st = catch_app (on_budget rq cx (activate_budget env rq cx) st)"
| "budget_handler env rq ArchiveBudget cx st = catch_app (on_budget rq cx (archive_budget env rq cx id) st)"

fun budget_guards :: "budget_op \<Rightarrow> guard list" where
  "budget_guards GetBudget = [GAuth, GOrg]"
| "budget_guards _ = [GAuth, GOrg, GCap [MANAGE_BUDGETS]]"

fun budget_op_ok :: "budget_op \<Rightarrow> bool" where
  "budget_op_ok (CreateBudget fs) = budget_body_ok fs"
| "budget_op_ok (PatchBudget fs) = budget_patch_ok fs"
| "budget_op_ok _ = True"

definition budget_request ::
    "api_env \<Rightarrow> string \<Rightarrow> request \<times> budget_op \<Rightarrow> api_state \<Rightarrow> budget_row body reply \<times> api_state" where
  "budget_request env rid x st =
     (case x of (rq, op) \<Rightarrow> serve env rid (budget_guards op) rq (budget_op_ok op) (budget_handler env rq op) st)"

section \<open>Spending limits\<close>

datatype limit_input =
    LScope string
  | LTarget string
  | LName string
  | LAmount int
  | LPeriod string

fun limit_key :: "limit_input \<Rightarrow> string" where
  "limit_key (LScope _) = ''scope''"
| "limit_key (LTarget _) = ''scopeTargetId''"
| "limit_key (LName _) = ''name''"
| "limit_key (LAmount _) = ''amount''"
| "limit_key (LPeriod _) = ''period''"

fun limit_new :: "limit_input \<Rightarrow> json" where
  "limit_new (LScope s) = JStr s"
| "limit_new (LTarget s) = JStr s"
| "limit_new (LName s) = JStr s"
| "limit_new (LAmount n) = JNum n"
| "limit_new (LPeriod s) = JStr s"

fun set_limit_field :: "limit_input \<Rightarrow> limit_row \<Rightarrow> limit_row" where
  "set_limit_field (LScope s) l = l\<lparr>sl_scope := s\<rparr>"
| "set_limit_field (LTarget s) l = l\<lparr>sl_scopeTargetId := s\<rparr>"
| "set_limit_field (LName s) l = l\<lparr>sl_name := Some s\<rparr>"
| "set_limit_field (LAmount n) l = l\<lparr>sl_amount := n\<rparr>"
| "set_limit_field (LPeriod s) l = l\<lparr>sl_period := s\<rparr>"

fun limit_field_ok :: "limit_input \<Rightarrow> bool" where
  "limit_field_ok (LScope s) = (s \<in> {''organization'', ''project'', ''wallet'', ''policy''})"
| "limit_field_ok (LTarget s) = is_uuid s"
| "limit_field_ok (LName s) = True"
| "limit_field_ok (LAmount n) = (n \<ge> 0)"
| "limit_field_ok (LPeriod s) = (s \<in> {''daily'', ''weekly'', ''monthly''})"

definition limit_patch_ok :: "limit_input list \<Rightarrow> bool" where
  "limit_patch_ok fs \<longleftrightarrow> list_all limit_field_ok fs \<and> distinct (map limit_key fs)"

definition limit_body_ok :: "limit_input list \<Rightarrow> bool" where
  "limit_body_ok fs \<longleftrightarrow> limit_patch_ok fs \<and> {''scope'', ''scopeTargetId'', ''amount''} \<subseteq> set (map limit_key fs)"

definition upd_limits :: "string \<Rightarrow> (limit_row \<Rightarrow> limit_row) \<Rightarrow> db \<Rightarrow> db" where
  "upd_limits i f d = d\<lparr>db_limits := sql_update (\<lambda>l. sl_id l = i) f (db_limits d)\<rparr>"

definition limit_table :: "limit_row entity_table" where
  "limit_table =
     \<lparr>et_rows = (\<lambda>st. db_limits (ap_db st)), et_id = sl_id, et_org = sl_orgId, et_status = sl_status,
      et_update = (\<lambda>i f. write_db (upd_limits i f)), et_machine = SM_spending_limit\<rparr>"

interpretation limits: entity_laws limit_table
  by unfold_locales (simp_all add: limit_table_def upd_limits_def add_audit_def)

definition new_limit :: "string \<Rightarrow> int \<Rightarrow> string \<Rightarrow> limit_row" where
  "new_limit i now org =
     \<lparr>sl_id = i, sl_orgId = org, sl_scope = ''organization'', sl_scopeTargetId = '''', sl_name = None, sl_amount = 0,
      sl_period = ''daily'', sl_spent = 0, sl_status = ''defined'', sl_pausedAt = None, sl_deletedAt = None,
      sl_createdAt = now, sl_updatedAt = now\<rparr>"

text \<open>The target of a new limit is one of the organization, checked in the transaction of the insert.\<close>

definition in_org_error :: "string \<Rightarrow> thrown" where
  "in_org_error what = ErrObj (AppError (what @ '' not found in org'') 404 (Some ''NOT_FOUND'') None) None"

definition check_target :: "string \<Rightarrow> limit_row \<Rightarrow> api_state \<Rightarrow> thrown + unit" where
  "check_target org l st =
     (let here = (\<lambda>rows. (sl_scopeTargetId l, org) \<in> set rows); d = ap_db st
      in if sl_scope l = ''wallet''
         then if here (map (\<lambda>w. (wa_id w, wa_orgId w)) (db_wallets d)) then Inr () else Inl (in_org_error ''Wallet'')
         else if sl_scope l = ''project''
         then if here (map (\<lambda>p. (pj_id p, pj_orgId p)) (ap_projects st)) then Inr () else Inl (in_org_error ''Project'')
         else if sl_scope l = ''organization''
         then if sl_scopeTargetId l = org then Inr ()
              else Inl (ErrObj (AppError ''Organization scope target must match current org'' 400
                          (Some ''VALIDATION_ERROR'') None) None)
         else if sl_scope l = ''policy''
         then if here (map (\<lambda>p. (po_id p, po_orgId p)) (db_policies d)) then Inr () else Inl (in_org_error ''Policy'')
         else Inr ())"

definition insert_limit :: "string \<Rightarrow> limit_row \<Rightarrow> api_state \<Rightarrow> thrown + api_state" where
  "insert_limit org l st =
     bindE (check_target org l st) (\<lambda>_.
       if sl_id l \<in> sl_id ` set (db_limits (ap_db st)) then Inl (duplicate_key ''spending_limits_pkey'')
       else Inr (write_db (\<lambda>d. d\<lparr>db_limits := db_limits d @ [l]\<rparr>) st))"

definition create_limit ::
    "api_env \<Rightarrow> request \<Rightarrow> request_vars \<Rightarrow> limit_input list \<Rightarrow> api_state \<Rightarrow> limit_row handled" where
  "create_limit env rq cx fs st =
     (case cx_orgId cx of
        None \<Rightarrow> (Inl undefined_arg, st)
      | Some org \<Rightarrow>
          (let i = av_id env ''spending_limits'' (length (db_limits (ap_db st)));
               l = fold set_limit_field fs (new_limit i (av_now env) org);
               details = Some (JObj [(''scope'', JStr (sl_scope l)), (''scopeTargetId'', JStr (sl_scopeTargetId l)),
                                     (''amount'', JNum (sl_amount l))])
           in conclude
                (with_audit env rq cx (insert_limit org l) (entity_spec ''spending_limit'' ''spending_limit.created'' details) i st)
                [owner_event env cx org ''spending_limit.created'' ''spending_limit'' i details] (201, Row l) st))"

text \<open>A patch checks no target.\<close>

definition patch_limit ::
    "api_env \<Rightarrow> request \<Rightarrow> request_vars \<Rightarrow> limit_input list \<Rightarrow> string \<Rightarrow> string \<Rightarrow> limit_row \<Rightarrow> api_state
     \<Rightarrow> limit_row handled" where
  "patch_limit env rq cx fs org i l st =
     (let f = (\<lambda>q. (fold set_limit_field fs q)\<lparr>sl_updatedAt := av_now env\<rparr>)
      in conclude
           (with_audit env rq cx (\<lambda>s. Inr (et_update limit_table i f s))
              (entity_spec ''spending_limit'' ''spending_limit.updated''
                 (Some (JObj (map (\<lambda>f. (limit_key f, limit_new f)) fs)))) i st)
           [] (200, Row (f l)) st)"

definition move_limit ::
    "api_env \<Rightarrow> request \<Rightarrow> request_vars \<Rightarrow> string \<Rightarrow> (limit_row \<Rightarrow> limit_row) \<Rightarrow> string \<Rightarrow> string
     \<Rightarrow> int \<times> limit_row body \<Rightarrow> string \<Rightarrow> string \<Rightarrow> limit_row \<Rightarrow> api_state \<Rightarrow> limit_row handled" where
  "move_limit env rq cx target upd audit_name event_name ans org i l st =
     conclude
       (move_item limit_table env rq cx i l target
          (\<lambda>q. (upd q)\<lparr>sl_status := target, sl_updatedAt := av_now env\<rparr>)
          (entity_spec ''spending_limit'' audit_name None) st)
       [owner_event env cx org event_name ''spending_limit'' i None] ans st"

definition delete_limit where
  "delete_limit env rq cx org i l st =
     (if sl_status l = ''deleted'' then invalid ''Spending limit already deleted'' st
      else move_limit env rq cx ''archived'' (\<lambda>q. q\<lparr>sl_deletedAt := Some (av_now env)\<rparr>) ''spending_limit.deleted''
             ''spending_limit.archived'' (say ''Spending limit archived'') org i l st)"

definition set_limit_status where
  "set_limit_status env rq cx target name org i l =
     move_limit env rq cx target id name name
       (200, Row (l\<lparr>sl_status := target, sl_updatedAt := av_now env\<rparr>)) org i l"

definition activate_limit where
  "activate_limit env rq cx = set_limit_status env rq cx ''active'' ''spending_limit.activated''"

definition pause_limit where
  "pause_limit env rq cx = set_limit_status env rq cx ''paused'' ''spending_limit.paused''"

datatype limit_op =
    CreateLimit "limit_input list"
  | GetLimit
  | PatchLimit "limit_input list"
  | DeleteLimit
  | ActivateLimit
  | PauseLimit

definition on_limit ::
    "request \<Rightarrow> request_vars \<Rightarrow> (string \<Rightarrow> string \<Rightarrow> limit_row \<Rightarrow> api_state \<Rightarrow> limit_row handled)
     \<Rightarrow> api_state \<Rightarrow> limit_row handled" where
  "on_limit rq cx k st = on_item limit_table ''Spending limit'' (\<lambda>_. []) rq cx k st"

fun limit_handler :: "api_env \<Rightarrow> request \<Rightarrow> limit_op \<Rightarrow> request_vars \<Rightarrow> api_state \<Rightarrow> limit_row handled" where
  "limit_handler env rq (CreateLimit fs) cx st = catch_app (create_limit env rq cx fs st)"
| "limit_handler env rq GetLimit cx st = on_limit rq cx (\<lambda>org i l s. (Inr (200, Row l), s)) st"
| "limit_handler env rq (PatchLimit fs) cx st = catch_app (on_limit rq cx (patch_limit env rq cx fs) st)"
| "limit_handler env rq DeleteLimit cx st = catch_app (on_limit rq cx (delete_limit env rq cx) st)"
| "limit_handler env rq ActivateLimit cx st = catch_app (on_limit rq cx (activate_limit env rq cx) st)"
| "limit_handler env rq PauseLimit cx st = catch_app (on_limit rq cx (pause_limit env rq cx) st)"

fun limit_guards :: "limit_op \<Rightarrow> guard list" where
  "limit_guards GetLimit = [GAuth, GOrg]"
| "limit_guards _ = [GAuth, GOrg, GRole [''owner'', ''admin'']]"

fun limit_op_ok :: "limit_op \<Rightarrow> bool" where
  "limit_op_ok (CreateLimit fs) = limit_body_ok fs"
| "limit_op_ok (PatchLimit fs) = limit_patch_ok fs"
| "limit_op_ok _ = True"

definition limit_request ::
    "api_env \<Rightarrow> string \<Rightarrow> request \<times> limit_op \<Rightarrow> api_state \<Rightarrow> limit_row body reply \<times> api_state" where
  "limit_request env rid x st =
     (case x of (rq, op) \<Rightarrow> serve env rid (limit_guards op) rq (limit_op_ok op) (limit_handler env rq op) st)"

section \<open>Both routers\<close>

datatype spend_op = BudgetOp budget_op | LimitOp limit_op

definition spend_request ::
    "api_env \<Rightarrow> string \<Rightarrow> request \<times> spend_op \<Rightarrow> api_state
     \<Rightarrow> (budget_row body reply + limit_row body reply) \<times> api_state" where
  "spend_request env rid x st =
     (case x of
        (rq, BudgetOp op) \<Rightarrow> map_prod Inl id (budget_request env rid (rq, op) st)
      | (rq, LimitOp op) \<Rightarrow> map_prod Inr id (limit_request env rid (rq, op) st))"

section \<open>Facts\<close>

lemma set_budget_field_frame [simp]:
  "bu_id (fold set_budget_field fs b) = bu_id b" "bu_status (fold set_budget_field fs b) = bu_status b"
proof -
  have "bu_id (set_budget_field f c) = bu_id c" "bu_status (set_budget_field f c) = bu_status c" for f c
    by (cases f; simp)+
  then show "bu_id (fold set_budget_field fs b) = bu_id b" "bu_status (fold set_budget_field fs b) = bu_status b"
    by (induction fs arbitrary: b) simp_all
qed

lemma set_limit_field_frame [simp]:
  "sl_id (fold set_limit_field fs l) = sl_id l" "sl_status (fold set_limit_field fs l) = sl_status l"
proof -
  have "sl_id (set_limit_field f c) = sl_id c" "sl_status (set_limit_field f c) = sl_status c" for f c
    by (cases f; simp)+
  then show "sl_id (fold set_limit_field fs l) = sl_id l" "sl_status (fold set_limit_field fs l) = sl_status l"
    by (induction fs arbitrary: l) simp_all
qed

lemma budget_table_simps [simp]:
  "et_machine budget_table = SM_budget" "et_id budget_table = bu_id" "et_status budget_table = bu_status"
  "et_rows budget_table s = db_budgets (ap_db s)" "et_update budget_table i f = write_db (upd_budgets i f)"
  by (simp_all add: budget_table_def)

lemma limit_table_simps [simp]:
  "et_machine limit_table = SM_spending_limit" "et_id limit_table = sl_id" "et_status limit_table = sl_status"
  "et_rows limit_table s = db_limits (ap_db s)" "et_update limit_table i f = write_db (upd_limits i f)"
  by (simp_all add: limit_table_def)

lemma new_rows [simp]:
  "bu_id (new_budget i now org n a) = i" "bu_status (new_budget i now org n a) = ''defined''"
  "sl_id (new_limit i now org) = i" "sl_status (new_limit i now org) = ''defined''"
  by (simp_all add: new_budget_def new_limit_def)

lemma insert_budget_ok:
  "insert_budget b st = Inr st' \<Longrightarrow> bu_id b \<notin> bu_id ` set (db_budgets (ap_db st))
     \<and> st' = write_db (\<lambda>d. d\<lparr>db_budgets := db_budgets d @ [b]\<rparr>) st"
  by (auto simp: insert_budget_def split: if_splits)

lemma insert_limit_ok:
  "insert_limit org l st = Inr st' \<Longrightarrow> sl_id l \<notin> sl_id ` set (db_limits (ap_db st))
     \<and> st' = write_db (\<lambda>d. d\<lparr>db_limits := db_limits d @ [l]\<rparr>) st"
  by (auto simp: insert_limit_def bindE_def split: if_splits sum.splits)

subsection \<open>The machines\<close>

lemma create_budget_steps:
  "key_steps SM_budget {''defined''} (keys_of budget_table st) (keys_of budget_table (snd (create_budget env rq cx fs st)))"
proof -
  have "key_steps SM_budget {''defined''} (keys_of budget_table st) (keys_of budget_table st1)"
    if "insert_budget b st = Inr st1" "bu_status b = ''defined''" for b st1
    using insert_budget_ok [OF that(1)] that(2) by (intro budgets.append_steps [of _ _ b]) auto
  then show ?thesis by (auto simp: create_budget_def Let_def intro!: budgets.write_steps split: option.split)
qed

lemma create_limit_steps:
  "key_steps SM_spending_limit {''defined''} (keys_of limit_table st) (keys_of limit_table (snd (create_limit env rq cx fs st)))"
proof -
  have "key_steps SM_spending_limit {''defined''} (keys_of limit_table st) (keys_of limit_table st1)"
    if "insert_limit org l st = Inr st1" "sl_status l = ''defined''" for org l st1
    using insert_limit_ok [OF that(1)] that(2) by (intro limits.append_steps [of _ _ l]) auto
  then show ?thesis by (auto simp: create_limit_def Let_def intro!: limits.write_steps split: option.split)
qed

lemma patch_budget_steps:
  "key_steps n S (keys_of budget_table st) (keys_of budget_table (snd (patch_budget env rq cx fs org i b st)))"
proof -
  have "keys_of budget_table (et_update budget_table i (\<lambda>q. (fold set_budget_field fs q)\<lparr>bu_updatedAt := av_now env\<rparr>) s)
      = keys_of budget_table s" for s
    by (rule budgets.keys_frame) (simp add: budget_table_def)
  then show ?thesis by (auto simp: patch_budget_def Let_def intro!: budgets.write_steps split: if_splits)
qed

lemma patch_limit_steps:
  "key_steps n S (keys_of limit_table st) (keys_of limit_table (snd (patch_limit env rq cx fs org i l st)))"
  unfolding patch_limit_def Let_def by (rule limits.frame_steps) simp

lemma move_budget_steps:
  assumes "find_entity budget_table st org i = Some b" and "\<And>q. bu_id (upd q) = bu_id q"
  shows "key_steps SM_budget S (keys_of budget_table st)
    (keys_of budget_table (snd (move_budget env rq cx target upd name msg org i b st)))"
  unfolding move_budget_def using assms(2)
  by (intro budgets.move_steps [OF assms(1), simplified budget_table_simps]) simp

lemma move_limit_steps:
  assumes "find_entity limit_table st org i = Some l" and "\<And>q. sl_id (upd q) = sl_id q"
  shows "key_steps SM_spending_limit S (keys_of limit_table st)
    (keys_of limit_table (snd (move_limit env rq cx target upd a e ans org i l st)))"
  unfolding move_limit_def using assms(2)
  by (intro limits.move_steps [OF assms(1), simplified limit_table_simps]) simp

lemmas budget_moves = delete_budget_def archive_budget_def close_budget_window_def activate_budget_def invalid_def
lemmas limit_moves = delete_limit_def set_limit_status_def activate_limit_def pause_limit_def invalid_def

lemma budget_handler_steps:
  "key_steps SM_budget {''defined''} (keys_of budget_table st) (keys_of budget_table (snd (budget_handler env rq op cx st)))"
  by (cases op)
    (simp_all add: create_budget_steps on_budget_def on_item_steps patch_budget_steps budget_moves move_budget_steps)

lemma limit_handler_steps:
  "key_steps SM_spending_limit {''defined''} (keys_of limit_table st) (keys_of limit_table (snd (limit_handler env rq op cx st)))"
  by (cases op)
    (simp_all add: create_limit_steps on_limit_def on_item_steps patch_limit_steps limit_moves move_limit_steps)

interpretation budget_router: router budget_table "budget_request env" "{''defined''}" for env
proof
  fix st rid x
  show "key_steps (et_machine budget_table) {''defined''} (keys_of budget_table st)
      (keys_of budget_table (snd (budget_request env rid x st)))"
    unfolding budget_request_def by (cases x) (auto intro!: budgets.serve_steps budget_handler_steps)
qed

interpretation limit_router: router limit_table "limit_request env" "{''defined''}" for env
proof
  fix st rid x
  show "key_steps (et_machine limit_table) {''defined''} (keys_of limit_table st)
      (keys_of limit_table (snd (limit_request env rid x st)))"
    unfolding limit_request_def by (cases x) (auto intro!: limits.serve_steps limit_handler_steps)
qed

subsection \<open>What the organization guard leaves of the routers\<close>

lemma create_budget_appends:
  "\<exists>new. db_budgets (ap_db (snd (create_budget env rq cx fs st))) = db_budgets (ap_db st) @ new
    \<and> (\<forall>b \<in> set new. bu_status b = ''defined'' \<and> bu_id b \<in> range (av_id env ''budgets''))"
  by (auto simp: create_budget_def Let_def conclude_def with_audit_def bindE_def add_audit_def
      split: option.split sum.splits dest!: insert_budget_ok)

lemma create_limit_appends:
  "\<exists>new. db_limits (ap_db (snd (create_limit env rq cx fs st))) = db_limits (ap_db st) @ new
    \<and> (\<forall>l \<in> set new. sl_status l = ''defined'' \<and> sl_id l \<in> range (av_id env ''spending_limits''))"
  by (auto simp: create_limit_def Let_def conclude_def with_audit_def bindE_def add_audit_def
      split: option.split sum.splits dest!: insert_limit_ok)

lemma budget_request_appends:
  assumes "ids_apart budget_table st"
  shows "\<exists>new. et_rows budget_table (snd (budget_request env rid (rq, op) st)) = et_rows budget_table st @ new
    \<and> (\<forall>b \<in> set new. bu_status b = ''defined'' \<and> bu_id b \<in> range (av_id env ''budgets''))"
  unfolding budget_request_def prod.case
  by (cases op)
    (simp_all only: budget_guards.simps,
      (rule budgets.serve_item_appends [OF assms], simp, (simp add: on_budget_def; fail)
       | rule budgets.serve_new_appends, simp add: create_budget_appends)+)

lemma limit_request_appends:
  assumes "ids_apart limit_table st"
  shows "\<exists>new. et_rows limit_table (snd (limit_request env rid (rq, op) st)) = et_rows limit_table st @ new
    \<and> (\<forall>l \<in> set new. sl_status l = ''defined'' \<and> sl_id l \<in> range (av_id env ''spending_limits''))"
  unfolding limit_request_def prod.case
  by (cases op)
    (simp_all only: limit_guards.simps,
      (rule limits.serve_item_appends [OF assms], simp, (simp add: on_limit_def; fail)
       | rule limits.serve_new_appends, simp add: create_limit_appends)+)

text \<open>Neither router writes the table of the other, nor those of the guards.\<close>

lemma upd_frames [simp]:
  "db_limits (upd_budgets i f d) = db_limits d" "db_budgets (upd_limits i g d) = db_budgets d"
  by (simp_all add: upd_budgets_def upd_limits_def)

lemma budget_handler_frame:
  "db_limits (ap_db (snd (budget_handler env rq op cx st))) = db_limits (ap_db st)
    \<and> ap_access (snd (budget_handler env rq op cx st)) = ap_access st"
proof -
  define P where "P s' \<longleftrightarrow> db_limits (ap_db s') = db_limits (ap_db st) \<and> ap_access s' = ap_access st" for s' :: api_state
  have start: "P st" by (simp add: P_def)
  have inserted: "P st1" if "insert_budget b st = Inr st1" for b st1 using that by (auto simp: P_def dest: insert_budget_ok)
  have updated: "P (write_db (upd_budgets i f) st)" for i f by (simp add: P_def)
  have writes: "P (snd (conclude (with_audit env rq cx fn spec i st) es ans st))"
    if "\<And>st1. fn st = Inr st1 \<Longrightarrow> P st1" for fn spec i es and ans :: "int \<times> budget_row body"
    using that unfolding P_def
    by (intro conjI conclude_access limits.conclude_rows [of "\<lambda>r. r = db_limits (ap_db st)" st, simplified limit_table_simps]) blast+
  have move: "P (snd (move_budget env rq cx target upd name msg org i r st))" for target upd name msg org i r
    unfolding move_budget_def by (rule move_item_cases, rule start) (rule writes, auto intro: updated)
  have "P (snd (budget_handler env rq op cx st))"
    by (cases op)
      (auto simp: create_budget_def patch_budget_def Let_def on_budget_def budget_moves split: option.split if_splits
        intro!: writes on_item_cases [of P] start move updated intro: inserted)
  then show ?thesis by (simp add: P_def)
qed

lemma limit_handler_frame:
  "db_budgets (ap_db (snd (limit_handler env rq op cx st))) = db_budgets (ap_db st)
    \<and> ap_access (snd (limit_handler env rq op cx st)) = ap_access st"
proof -
  define P where "P s' \<longleftrightarrow> db_budgets (ap_db s') = db_budgets (ap_db st) \<and> ap_access s' = ap_access st" for s' :: api_state
  have start: "P st" by (simp add: P_def)
  have inserted: "P st1" if "insert_limit org l st = Inr st1" for org l st1 using that by (auto simp: P_def dest: insert_limit_ok)
  have updated: "P (write_db (upd_limits i f) st)" for i f by (simp add: P_def)
  have writes: "P (snd (conclude (with_audit env rq cx fn spec i st) es ans st))"
    if "\<And>st1. fn st = Inr st1 \<Longrightarrow> P st1" for fn spec i es and ans :: "int \<times> limit_row body"
    using that unfolding P_def
    by (intro conjI conclude_access budgets.conclude_rows [of "\<lambda>r. r = db_budgets (ap_db st)" st, simplified budget_table_simps]) blast+
  have move: "P (snd (move_limit env rq cx target upd a e ans org i r st))" for target upd a e ans org i r
    unfolding move_limit_def by (rule move_item_cases, rule start) (rule writes, auto intro: updated)
  have "P (snd (limit_handler env rq op cx st))"
    by (cases op)
      (auto simp: create_limit_def patch_limit_def Let_def on_limit_def limit_moves split: option.split if_splits
        intro!: writes on_item_cases [of P] start move updated intro: inserted)
  then show ?thesis by (simp add: P_def)
qed

subsection \<open>Both routers\<close>

lemma snd_spend_request [simp]:
  "snd (spend_request env rid (rq, BudgetOp op) st) = snd (budget_request env rid (rq, op) st)"
  "snd (spend_request env rid (rq, LimitOp lop) st) = snd (limit_request env rid (rq, lop) st)"
  by (simp_all add: spend_request_def)

lemma spend_request_orgs:
  "ac_orgs (ap_access (snd (spend_request env rid (rq, op) st))) = ac_orgs (ap_access st)"
  by (cases op) (simp_all add: budget_request_def limit_request_def serve_orgs budget_handler_frame limit_handler_frame)

lemma other_table:
  "et_rows budget_table (snd (limit_request env rid (rq, lop) st)) = et_rows budget_table st"
  "et_rows limit_table (snd (budget_request env rid (rq, op) st)) = et_rows limit_table st"
proof -
  show "et_rows budget_table (snd (limit_request env rid (rq, lop) st)) = et_rows budget_table st"
    unfolding limit_request_def prod.case by (rule serve_cases) (simp_all add: limit_handler_frame)
  show "et_rows limit_table (snd (budget_request env rid (rq, op) st)) = et_rows limit_table st"
    unfolding budget_request_def prod.case by (rule serve_cases) (simp_all add: budget_handler_frame)
qed

interpretation spend_budgets: closed_router budget_table env "''budgets''" "spend_request env" "\<lambda>b. bu_status b = ''defined''" for env
proof
  fix rid and x :: "request \<times> spend_op" and st
  obtain rq op where x: "x = (rq, op)" by (cases x)
  show "ac_orgs (ap_access (snd (spend_request env rid x st))) = ac_orgs (ap_access st)"
    by (simp add: x spend_request_orgs)
  assume "ids_apart budget_table st"
  then show "\<exists>new. et_rows budget_table (snd (spend_request env rid x st)) = et_rows budget_table st @ new
      \<and> (\<forall>b \<in> set new. bu_status b = ''defined'' \<and> et_id budget_table b \<in> range (av_id env ''budgets''))"
    unfolding x by (cases op) (use budget_request_appends other_table(1) in \<open>fastforce+\<close>)
qed

interpretation spend_limits: closed_router limit_table env "''spending_limits''" "spend_request env" "\<lambda>l. sl_status l = ''defined''" for env
proof
  fix rid and x :: "request \<times> spend_op" and st
  obtain rq op where x: "x = (rq, op)" by (cases x)
  show "ac_orgs (ap_access (snd (spend_request env rid x st))) = ac_orgs (ap_access st)"
    by (simp add: x spend_request_orgs)
  assume "ids_apart limit_table st"
  then show "\<exists>new. et_rows limit_table (snd (spend_request env rid x st)) = et_rows limit_table st @ new
      \<and> (\<forall>l \<in> set new. sl_status l = ''defined'' \<and> et_id limit_table l \<in> range (av_id env ''spending_limits''))"
    unfolding x by (cases op) (use limit_request_appends other_table(2) in \<open>fastforce+\<close>)
qed

lemma check_budget_nothing_active:
  assumes "\<forall>l \<in> set (db_limits d). sl_status l \<noteq> ''active''" and "\<forall>b \<in> set (db_budgets d). bu_status b \<noteq> ''active''"
  shows "checkBudgetBeforeExecution d now org project wallet policy cost overridden
    = Inr (\<lparr>bc_allowed = True, bc_softThresholdCrossed = False, bc_hardLimitBlocked = False,
        bc_blockingLimitId = None, bc_message = None\<rparr>, [])"
proof -
  have "getEffectiveSpendingLimits d org project wallet policy = []"
    using assms(1) by (auto simp: getEffectiveSpendingLimits_def filter_empty_conv)
  moreover have "filter (\<lambda>b. bu_orgId b = org \<and> P b \<and> bu_status b = ''active'') (db_budgets d) = []" for P
    using assms(2) by (auto simp: filter_empty_conv)
  ultimately show ?thesis by (simp add: checkBudgetBeforeExecution_def Let_def)
qed

lemma create_limit_ok:
  assumes "fst (create_limit env rq cx fs st) = Inr (201, Row l)" and "cx_orgId cx = Some org"
  shows "check_target org l st = Inr () \<and> l \<in> set (db_limits (ap_db (snd (create_limit env rq cx fs st))))
    \<and> sl_orgId l = org \<and> sl_status l = ''defined''"
proof -
  have org: "sl_orgId (fold set_limit_field fs m) = sl_orgId m" for m
  proof (induction fs arbitrary: m)
    case (Cons f fs) then show ?case by (cases f) simp_all
  qed simp
  define m where "m = fold set_limit_field fs (new_limit (av_id env ''spending_limits'' (length (db_limits (ap_db st)))) (av_now env) org)"
  from assms have m: "l = m" "\<exists>st1. insert_limit org m st = Inr st1 \<and> db_limits (ap_db (snd (create_limit env rq cx fs st))) = db_limits (ap_db st1)"
    by (auto simp: create_limit_def m_def Let_def conclude_def with_audit_def bindE_def add_audit_def split: sum.splits)
  moreover have "sl_orgId m = org" "sl_status m = ''defined''" by (simp_all add: m_def org) (simp add: new_limit_def)
  ultimately show ?thesis by (auto simp: insert_limit_def bindE_def split: sum.splits if_splits)
qed

section \<open>Properties\<close>

text \<open>
  Every sequence of requests moves the statuses of budgets and of spending limits only along the
  edges of their state machines, and new ones are defined only.
\<close>

theorem spend_requests_follow_machines:
  "key_steps SM_budget {''defined''} (keys_of budget_table st) (keys_of budget_table (run_requests (budget_request env) xs st))
   \<and> key_steps SM_spending_limit {''defined''} (keys_of limit_table st)
       (keys_of limit_table (run_requests (limit_request env) ys st))"
  using budget_router.run_steps [of st env xs] limit_router.run_steps [of st env ys] by simp

text \<open>
  No budget and no spending limit written through the API ever has an effect: from a database without active
  ones, after any requests of any callers, the check before an execution allows every cost and
  raises no event, because the routes that activate take the identifier of the row for the organization.
\<close>

theorem api_limits_never_block:
  assumes "ids_stay_apart env ''budgets'' budget_table st" and "ids_stay_apart env ''spending_limits'' limit_table st"
    and "\<forall>l \<in> set (db_limits (ap_db st)). sl_status l \<noteq> ''active''"
    and "\<forall>b \<in> set (db_budgets (ap_db st)). bu_status b \<noteq> ''active''"
  shows "checkBudgetBeforeExecution (ap_db (run_requests (spend_request env) xs st)) now org project wallet policy cost False
    = Inr (\<lparr>bc_allowed = True, bc_softThresholdCrossed = False, bc_hardLimitBlocked = False,
        bc_blockingLimitId = None, bc_message = None\<rparr>, [])"
proof (rule check_budget_nothing_active)
  show "\<forall>l \<in> set (db_limits (ap_db (run_requests (spend_request env) xs st))). sl_status l \<noteq> ''active''"
    using spend_limits.run_appends [OF assms(2), of xs] assms(3) by auto
  show "\<forall>b \<in> set (db_budgets (ap_db (run_requests (spend_request env) xs st))). bu_status b \<noteq> ''active''"
    using spend_budgets.run_appends [OF assms(1), of xs] assms(4) by auto
qed

definition sample_spend :: api_state where
  "sample_spend =
     \<lparr>ap_access = sample_db, ap_db = empty_db\<lparr>db_limits := [(new_limit ''l'' 0 ''o'')\<lparr>sl_scopeTargetId := ''o''\<rparr>]\<rparr>,
      ap_projects = [project_row.make ''pr'' ''other'' ''name'' ''slug'' None None None ''active'' None None 0 0],
      ap_delegations = [], ap_events = [], ap_invitations = []\<rparr>"

abbreviation sample_spend_env :: api_env where
  "sample_spend_env \<equiv> \<lparr>av_access = sample_access_env, av_id = (\<lambda>t n. t), av_staleness = None\<rparr>"

theorem api_limits_never_block_witness:
  "\<exists>r. checkBudgetBeforeExecution (ap_db (run_requests (spend_request sample_spend_env)
       [(''r'', sample_request (Some ''l''), LimitOp ActivateLimit)] sample_spend)) 0 ''o'' None None None 5 False = Inr (r, [])
     \<and> bc_allowed r"
proof -
  have 1: "ids_stay_apart sample_spend_env ''budgets'' budget_table sample_spend"
    "ids_stay_apart sample_spend_env ''spending_limits'' limit_table sample_spend"
    by (simp_all add: ids_stay_apart_def ids_apart_def sample_spend_def empty_db_def sample_orgs_def sample_org_def sample_uuid_def)
  have 2: "\<forall>l \<in> set (db_limits (ap_db sample_spend)). sl_status l \<noteq> ''active''"
    "\<forall>b \<in> set (db_budgets (ap_db sample_spend)). bu_status b \<noteq> ''active''"
    by (simp_all add: sample_spend_def empty_db_def)
  show ?thesis using api_limits_never_block [OF 1 2] by simp
qed

text \<open>
  A spending limit that is created has a target of its organization: the organization itself, or a wallet, a
  project or a policy of it.
\<close>

theorem created_limit_target:
  assumes "fst (create_limit env rq cx fs st) = Inr (201, Row l)" and "cx_orgId cx = Some org" and "limit_body_ok fs"
  shows "l \<in> set (db_limits (ap_db (snd (create_limit env rq cx fs st)))) \<and> sl_orgId l = org
    \<and> ((sl_scope l = ''wallet'' \<and> (\<exists>w \<in> set (db_wallets (ap_db st)). wa_id w = sl_scopeTargetId l \<and> wa_orgId w = org))
       \<or> (sl_scope l = ''project'' \<and> (\<exists>p \<in> set (ap_projects st). pj_id p = sl_scopeTargetId l \<and> pj_orgId p = org))
       \<or> (sl_scope l = ''organization'' \<and> sl_scopeTargetId l = org)
       \<or> (sl_scope l = ''policy'' \<and> (\<exists>p \<in> set (db_policies (ap_db st)). po_id p = sl_scopeTargetId l \<and> po_orgId p = org)))"
proof -
  have fields: "sl_scope (fold set_limit_field fs m) \<in> {''organization'', ''project'', ''wallet'', ''policy''}"
    if "list_all limit_field_ok fs" "sl_scope m \<in> {''organization'', ''project'', ''wallet'', ''policy''}" for m
    using that
  proof (induction fs arbitrary: m)
    case (Cons f fs) then show ?case by (cases f) simp_all
  qed simp
  from assms(1,2) have "\<exists>m. sl_scope m = ''organization'' \<and> l = fold set_limit_field fs m"
    by (auto simp: create_limit_def Let_def conclude_def split: sum.splits intro: exI [of _ "new_limit _ _ _"] simp: new_limit_def)
  then have "sl_scope l \<in> {''organization'', ''project'', ''wallet'', ''policy''}"
    using fields assms(3) by (auto simp: limit_body_ok_def limit_patch_ok_def)
  with create_limit_ok [OF assms(1,2)] show ?thesis
    by (auto simp: check_target_def Let_def split: if_splits)
qed

theorem created_limit_target_witness:
  "\<exists>l. fst (create_limit sample_spend_env (sample_request None) ((fresh_vars ''r'')\<lparr>cx_orgId := Some (sample_uuid CHR ''1'')\<rparr>)
       [LScope ''organization'', LTarget (sample_uuid CHR ''1''), LAmount 10] sample_spend) = Inr (201, Row l)
     \<and> sl_orgId l = sample_uuid CHR ''1'' \<and> sl_scopeTargetId l = sample_uuid CHR ''1''"
proof -
  let ?cx = "(fresh_vars ''r'')\<lparr>cx_orgId := Some (sample_uuid CHR ''1'')\<rparr>"
    and ?fs = "[LScope ''organization'', LTarget (sample_uuid CHR ''1''), LAmount 10]"
  obtain l where l: "fst (create_limit sample_spend_env (sample_request None) ?cx ?fs sample_spend) = Inr (201, Row l)"
    "sl_scope l = ''organization''"
    by (simp add: create_limit_def Let_def conclude_def with_audit_def bindE_def insert_limit_def check_target_def
        audit_entry_def sample_spend_def new_limit_def)
  moreover have "limit_body_ok ?fs" using sample_uuid_ok by (simp add: limit_body_ok_def limit_patch_ok_def)
  ultimately show ?thesis using created_limit_target [OF l(1)] by auto
qed

text \<open>A budget is created for a project of any organization.\<close>

theorem budget_for_foreign_project:
  assumes "cx_orgId cx = Some org" and "p \<in> set (ap_projects st)" and "pj_orgId p \<noteq> org"
    and "av_id env ''budgets'' (length (db_budgets (ap_db st))) \<notin> bu_id ` set (db_budgets (ap_db st))"
  shows "\<exists>b. fst (create_budget env rq cx [BProject (pj_id p), BName name, BAmount n] st) = Inr (201, Row b)
    \<and> bu_orgId b = org \<and> bu_projectId b = Some (pj_id p)
    \<and> db_budgets (ap_db (snd (create_budget env rq cx [BProject (pj_id p), BName name, BAmount n] st)))
        = db_budgets (ap_db st) @ [b]"
  using assms(1,2,4)
  by (simp add: create_budget_def Let_def insert_budget_def budget_project_ok_def with_audit_def bindE_def
      audit_entry_def conclude_def add_audit_def) (simp add: new_budget_def)

theorem budget_for_foreign_project_witness:
  "\<exists>b. fst (create_budget sample_spend_env (sample_request None) ((fresh_vars ''r'')\<lparr>cx_orgId := Some ''o''\<rparr>)
       [BProject ''pr'', BName ''n'', BAmount 1] sample_spend) = Inr (201, Row b) \<and> bu_orgId b = ''o''"
proof -
  let ?p = "project_row.make ''pr'' ''other'' ''name'' ''slug'' None None None ''active'' None None 0 0"
  have "?p \<in> set (ap_projects sample_spend)" "pj_orgId ?p \<noteq> ''o''"
    "av_id sample_spend_env ''budgets'' (length (db_budgets (ap_db sample_spend))) \<notin> bu_id ` set (db_budgets (ap_db sample_spend))"
    by (simp_all add: sample_spend_def empty_db_def project_row.make_def)
  from budget_for_foreign_project [OF _ this, of "(fresh_vars ''r'')\<lparr>cx_orgId := Some ''o''\<rparr>" "sample_request None" "''n''" 1]
  show ?thesis by (auto simp: project_row.make_def)
qed

end
