(* ===== verification/Wallet_Routes.thy ===== *)
theory Wallet_Routes
  imports Route_Base Rpc_Pool
begin

text \<open>
  Wallets and delegations over the API: \<open>api/src/routes/wallets.ts\<close>, \<open>api/src/lib/delegation.ts\<close>, the disconnection of
  a wallet in \<open>api/src/lib/edge-cases.ts\<close> and the checks of \<open>api/src/lib/invariant-check.ts\<close>. The list of
  wallets is in Pagination. References to users are not checked.
\<close>

section \<open>Inputs\<close>

text \<open>\<open>/^0x[0-9a-fA-F]{lo,64}$/\<close>\<close>

definition sui_address :: "nat \<Rightarrow> string \<Rightarrow> bool" where
  "sui_address lo s \<longleftrightarrow>
     take 2 s = ''0x'' \<and> lo \<le> length (drop 2 s) \<and> length (drop 2 s) \<le> 64 \<and> list_all hex_digit (drop 2 s)"

record wallet_body =
  wb_address :: string
  wb_projectId :: "string option"
  wb_label :: "string option"
  wb_type :: "string option"
  wb_isDefault :: "bool option"
  wb_spendingLimit :: "int option"

definition wallet_body_ok :: "wallet_body \<Rightarrow> bool" where
  "wallet_body_ok b \<longleftrightarrow> sui_address 1 (wb_address b) \<and> pred_option is_uuid (wb_projectId b)
     \<and> pred_option (\<lambda>t. t \<in> {''owned'', ''watch-only''}) (wb_type b) \<and> pred_option (\<lambda>n. n \<ge> 0) (wb_spendingLimit b)"

datatype wallet_input = WLabel string | WDefault bool | WLimit int

fun wallet_pair :: "wallet_input \<Rightarrow> string \<times> json" where
  "wallet_pair (WLabel s) = (''label'', JStr s)"
| "wallet_pair (WDefault b) = (''isDefault'', JBool b)"
| "wallet_pair (WLimit n) = (''spendingLimit'', JNum n)"

fun set_wallet_field :: "wallet_input \<Rightarrow> wallet_row \<Rightarrow> wallet_row" where
  "set_wallet_field (WLabel s) w = w\<lparr>wa_label := Some s\<rparr>"
| "set_wallet_field (WDefault b) w = w\<lparr>wa_isDefault := b\<rparr>"
| "set_wallet_field (WLimit n) w = w\<lparr>wa_spendingLimit := Some n\<rparr>"

definition wallet_patch_ok :: "wallet_input list \<Rightarrow> bool" where
  "wallet_patch_ok fs \<longleftrightarrow> distinct (map (fst \<circ> wallet_pair) fs)
     \<and> list_all (\<lambda>f. case f of WLimit n \<Rightarrow> n \<ge> 0 | _ \<Rightarrow> True) fs"

record delegation_body =
  dl_delegateAddress :: string
  dl_scope :: string
  dl_scopeTargets :: "string list option"
  dl_spendCeiling :: "string option"
  dl_timeBoundEnd :: "int option"

definition delegation_body_ok :: "delegation_body \<Rightarrow> bool" where
  "delegation_body_ok b \<longleftrightarrow> sui_address 64 (dl_delegateAddress b) \<and> dl_scope b \<in> {''blob_ids'', ''policy'', ''all''}"

section \<open>Wallets\<close>

definition upd_wallets :: "string \<Rightarrow> (wallet_row \<Rightarrow> wallet_row) \<Rightarrow> db \<Rightarrow> db" where
  "upd_wallets i f d = d\<lparr>db_wallets := sql_update (\<lambda>w. wa_id w = i) f (db_wallets d)\<rparr>"

definition wallet_table :: "wallet_row entity_table" where
  "wallet_table =
     \<lparr>et_rows = (\<lambda>st. db_wallets (ap_db st)), et_id = wa_id, et_org = wa_orgId, et_status = wa_status,
      et_update = (\<lambda>i f. write_db (upd_wallets i f)), et_machine = SM_wallet\<rparr>"

interpretation wallets: entity_laws wallet_table
  by unfold_locales (simp_all add: wallet_table_def upd_wallets_def add_audit_def)

text \<open>Invariant 2: one active wallet per organization, project and address.\<close>

definition holds_address :: "string \<Rightarrow> string option \<Rightarrow> string \<Rightarrow> wallet_row \<Rightarrow> bool" where
  "holds_address org project address w \<longleftrightarrow>
     wa_orgId w = org \<and> wa_address w = address \<and> wa_projectId w = project
     \<and> wa_status w \<in> {''active'', ''connected''} \<and> wa_deletedAt w = None"

definition ensureUniqueWalletAddress :: "string \<Rightarrow> string option \<Rightarrow> string \<Rightarrow> api_state \<Rightarrow> thrown + unit" where
  "ensureUniqueWalletAddress org project address st =
     (case first_row (filter (holds_address org (truthy project) address) (db_wallets (ap_db st))) of
        Some _ \<Rightarrow> Inl (ErrObj (AppError (''Wallet with address '' @ address @ '' already exists in this project'') 409
                        (Some ''CONFLICT'') None) None)
      | None \<Rightarrow> Inr ())"

definition new_wallet :: "string \<Rightarrow> int \<Rightarrow> string \<Rightarrow> wallet_body \<Rightarrow> wallet_row" where
  "new_wallet i now org b =
     \<lparr>wa_id = i, wa_orgId = org, wa_projectId = wb_projectId b, wa_address = wb_address b, wa_label = wb_label b,
      wa_type = or_default (wb_type b) ''owned'', wa_isDefault = or_default (wb_isDefault b) False,
      wa_spendingLimit = wb_spendingLimit b, wa_balance = 0, wa_status = ''active'', wa_delegationRevokedAt = None,
      wa_deletedAt = None, wa_lastCheckedAt = None, wa_createdAt = now\<rparr>"

text \<open>The partial unique index; rows without a project never conflict.\<close>

definition address_conflict :: "wallet_row \<Rightarrow> wallet_row \<Rightarrow> bool" where
  "address_conflict w x \<longleftrightarrow> wa_orgId x = wa_orgId w \<and> wa_projectId x = wa_projectId w \<and> wa_projectId w \<noteq> None
     \<and> wa_address x = wa_address w \<and> wa_deletedAt x = None"

definition insert_wallet :: "wallet_row \<Rightarrow> api_state \<Rightarrow> thrown + api_state" where
  "insert_wallet w st =
     (if wa_id w \<in> wa_id ` set (db_wallets (ap_db st)) then Inl (duplicate_key ''wallets_pkey'')
      else if list_ex (address_conflict w) (db_wallets (ap_db st)) then Inl (duplicate_key ''wallets_org_address_unique'')
      else if \<not> pred_option (\<lambda>p. p \<in> pj_id ` set (ap_projects st)) (wa_projectId w) then Inl (foreign_key_error ''wallets'')
      else Inr (write_db (\<lambda>d. d\<lparr>db_wallets := db_wallets d @ [w]\<rparr>) st))"

text \<open>The route answers a violation of a unique index itself.\<close>

definition catch_duplicate :: "request_vars \<Rightarrow> 'b handled \<Rightarrow> 'b handled" where
  "catch_duplicate cx h =
     (case h of
        (Inl e, st) \<Rightarrow>
          if e \<in> {duplicate_key ''wallets_pkey'', duplicate_key ''wallets_org_address_unique''}
          then (Inr (api_error (class_extra cx) 409 ''Wallet with this address already exists in the organization'' ''CONFLICT''), st)
          else h
      | _ \<Rightarrow> h)"

datatype wallet_answer = WalletRow wallet_row | DelegationRow delegation_row | DelegationRows "delegation_row list"

definition create_wallet :: "api_env \<Rightarrow> request \<Rightarrow> request_vars \<Rightarrow> wallet_body \<Rightarrow> api_state \<Rightarrow> wallet_answer handled" where
  "create_wallet env rq cx b st =
     (case bindE (verifyOrgChain (cx_orgId cx)) (\<lambda>org.
             bindE (ensureUniqueWalletAddress org (wb_projectId b) (wb_address b) st) (\<lambda>_. Inr org)) of
        Inl e \<Rightarrow> (Inl e, st)
      | Inr org \<Rightarrow>
          (let i = av_id env ''wallets'' (length (db_wallets (ap_db st))); w = new_wallet i (av_now env) org b
           in catch_duplicate cx
                (conclude
                   (with_audit env rq cx (insert_wallet w)
                      (entity_spec ''wallet'' ''wallet.created'' (Some (JObj [(''address'', JStr (wb_address b))]))) i st)
                   [] (201, Row (WalletRow w)) st)))"

text \<open>An update without columns is an error of the query builder.\<close>

definition patch_wallet ::
    "api_env \<Rightarrow> request \<Rightarrow> request_vars \<Rightarrow> wallet_input list \<Rightarrow> string \<Rightarrow> string \<Rightarrow> wallet_row \<Rightarrow> api_state
     \<Rightarrow> wallet_answer handled" where
  "patch_wallet env rq cx fs org i w st =
     conclude
       (with_audit env rq cx
          (\<lambda>s. if fs = [] then Inl (js_Error ''No values to set'') else Inr (et_update wallet_table i (fold set_wallet_field fs) s))
          (entity_spec ''wallet'' ''wallet.updated'' (Some (JObj (map wallet_pair fs)))) i st)
       [] (200, Row (WalletRow (fold set_wallet_field fs w))) st"

definition move_wallet ::
    "api_env \<Rightarrow> request \<Rightarrow> request_vars \<Rightarrow> string \<Rightarrow> (wallet_row \<Rightarrow> wallet_row) \<Rightarrow> string \<Rightarrow> event_payload list \<Rightarrow> string
     \<Rightarrow> string \<Rightarrow> wallet_row \<Rightarrow> api_state \<Rightarrow> wallet_answer handled" where
  "move_wallet env rq cx target upd name es msg i w st =
     conclude
       (move_item wallet_table env rq cx i w target (\<lambda>q. (upd q)\<lparr>wa_status := target\<rparr>) (entity_spec ''wallet'' name None) st)
       es (say msg) st"

definition delete_wallet where
  "delete_wallet env rq cx (org :: string) i w =
     move_wallet env rq cx ''deleted'' (\<lambda>q. q\<lparr>wa_deletedAt := Some (av_now env)\<rparr>) ''wallet.deleted'' [] ''Wallet removed'' i w"

definition restore_wallet where
  "restore_wallet env rq cx (org :: string) i w =
     move_wallet env rq cx ''active'' (\<lambda>q. q\<lparr>wa_deletedAt := None\<rparr>) ''wallet.restored'' [] ''Wallet restored'' i w"

definition address_details :: "wallet_row \<Rightarrow> json option" where
  "address_details w = Some (JObj [(''address'', JStr (wa_address w))])"

definition reconnect_wallet where
  "reconnect_wallet env rq cx org i w =
     move_wallet env rq cx ''active'' (\<lambda>q. q\<lparr>wa_delegationRevokedAt := None\<rparr>) ''wallet.reconnected''
       [owner_event env cx org ''delegation.granted'' ''wallet'' i (address_details w)]
       ''Delegation restored. Auto-renewal resumed.'' i w"

section \<open>A wallet is disconnected\<close>

definition untrack_blob :: "api_env \<Rightarrow> string \<Rightarrow> blob_row \<Rightarrow> api_state \<Rightarrow> api_state" where
  "untrack_blob env walletId b st =
     (let reason = (''reason'', JStr ''wallet_disconnected''); old = (''previousStatus'', JStr (bl_status b));
          st1 = write_db (upd_blobs (\<lambda>x. bl_id x = bl_id b) (\<lambda>x. x\<lparr>bl_status := ''tracked'', bl_updatedAt := av_now env\<rparr>)) st;
          row = (new_audit (next_audit_id env st1) (av_now env) (bl_orgId b) ''blob.compensated_wallet_disconnect'' ''blob_registration'')
             \<lparr>au_resourceId := Some (bl_id b),
              au_details := Some (JObj [old, (''newStatus'', JStr ''tracked''), reason, (''walletId'', JStr walletId)])\<rparr>
      in record_events
           [createEvent (av_now env) ''blob.tracked'' (bl_orgId b) ''blob_registration'' (bl_id b) ActSystem
              (Some (JObj [old, reason, (''compensatingAction'', JBool True)])) None]
           (add_audit row st1))"

fun untrack_blobs :: "api_env \<Rightarrow> string \<Rightarrow> blob_row list \<Rightarrow> api_state \<Rightarrow> (thrown + unit) \<times> api_state" where
  "untrack_blobs env walletId [] st = (Inr (), st)"
| "untrack_blobs env walletId (b # bs) st =
     (case validateTransition loaded_machines SM_blob (bl_status b) ''tracked'' False of
        Inl e \<Rightarrow> (Inl e, st)
      | Inr _ \<Rightarrow> untrack_blobs env walletId bs (untrack_blob env walletId b st))"

definition handleWalletDisconnected :: "api_env \<Rightarrow> string \<Rightarrow> api_state \<Rightarrow> (thrown + unit) \<times> api_state" where
  "handleWalletDisconnected env walletId st =
     untrack_blobs env walletId
       (filter (\<lambda>b. bl_walletId b = Some walletId \<and> bl_status b = ''protected'') (db_blobs (ap_db st))) st"

definition revoke_wallet where
  "revoke_wallet env rq cx org i w st =
     (case move_wallet env rq cx ''delegation_revoked'' (\<lambda>q. q\<lparr>wa_delegationRevokedAt := Some (av_now env)\<rparr>)
             ''wallet.delegation_revoked'' [owner_event env cx org ''delegation.revoked'' ''wallet'' i (address_details w)]
             ''Delegation revoked. Monitoring continues but auto-renewal stopped.'' i w st of
        (Inl e, st1) \<Rightarrow> (Inl e, st1)
      | (Inr ans, st1) \<Rightarrow> (Inr ans, snd (handleWalletDisconnected env i st1)))"

section \<open>Delegations\<close>

definition delegation_event :: "api_env \<Rightarrow> string \<Rightarrow> event_actor \<Rightarrow> delegation_row \<Rightarrow> (string \<times> json) list \<Rightarrow> event_payload" where
  "delegation_event env name actor d details =
     createEvent (av_now env) name (de_orgId d) ''delegation'' (de_id d) actor (Some (JObj details)) None"

definition createDelegation ::
    "api_env \<Rightarrow> string \<Rightarrow> string \<Rightarrow> string \<Rightarrow> delegation_body \<Rightarrow> api_state \<Rightarrow> thrown + delegation_row \<times> api_state" where
  "createDelegation env org walletId createdBy b st =
     (let d = \<lparr>de_id = av_id env ''delegations'' (length (ap_delegations st)), de_orgId = org, de_walletId = walletId,
               de_delegateAddress = dl_delegateAddress b, de_scope = dl_scope b,
               de_scopeTargets = Some (JArr (map JStr (or_default (dl_scopeTargets b) []))),
               de_spendCeiling = or_default (dl_spendCeiling b) ''0'', de_timeBoundStart = av_now env,
               de_timeBoundEnd = dl_timeBoundEnd b, de_isRevoked = Some False, de_createdBy = createdBy,
               de_revokedAt = None, de_createdAt = av_now env, de_updatedAt = av_now env\<rparr>
      in if de_id d \<in> de_id ` set (ap_delegations st) then Inl (duplicate_key ''delegations_pkey'')
         else if walletId \<notin> wa_id ` set (db_wallets (ap_db st)) then Inl (foreign_key_error ''delegations'')
         else Inr (d, record_events
                [delegation_event env ''delegation.granted'' (ActHuman createdBy) d
                   [(''walletId'', JStr walletId), (''delegateAddress'', JStr (dl_delegateAddress b)), (''scope'', JStr (dl_scope b))]]
                (st\<lparr>ap_delegations := ap_delegations st @ [d]\<rparr>)))"

definition delegate_wallet where
  "delegate_wallet env cx b org i w st =
     (case createDelegation env org i (or_default (cx_userId cx) '''') b st of
        Inl e \<Rightarrow> (Inl e, st)
      | Inr (d, st') \<Rightarrow> (Inr (201, Row (DelegationRow d)), st'))"

definition revoked :: "int \<Rightarrow> delegation_row \<Rightarrow> delegation_row" where
  "revoked now d = d\<lparr>de_isRevoked := Some True, de_revokedAt := Some now, de_updatedAt := now\<rparr>"

definition revokeDelegation :: "api_env \<Rightarrow> string \<Rightarrow> string \<Rightarrow> string \<Rightarrow> api_state \<Rightarrow> (thrown + unit) \<times> api_state" where
  "revokeDelegation env i org userId st =
     (if \<not> is_uuid i then (Inl (uuid_error i), st)
      else (let hit = (\<lambda>d. de_id d = i \<and> de_orgId d = org);
                st1 = st\<lparr>ap_delegations := sql_update hit (revoked (av_now env)) (ap_delegations st)\<rparr>
            in case first_row (filter hit (ap_delegations st)) of
                 None \<Rightarrow> (Inr (), st1)
               | Some d \<Rightarrow>
                   (Inr (), record_events
                      [delegation_event env ''delegation.revoked'' (ActHuman userId) d
                         [(''walletId'', JStr (de_walletId d)), (''delegateAddress'', JStr (de_delegateAddress d))]] st1)))"

definition find_delegation ::
    "string \<Rightarrow> (delegation_row \<Rightarrow> bool) \<Rightarrow> api_state \<Rightarrow> thrown + delegation_row option" where
  "find_delegation i p st =
     (if is_uuid i then Inr (first_row (filter (\<lambda>d. de_id d = i \<and> p d) (ap_delegations st))) else Inl (uuid_error i))"

definition checkDelegationValidity :: "int \<Rightarrow> string \<Rightarrow> string \<Rightarrow> string \<Rightarrow> api_state \<Rightarrow> thrown + bool" where
  "checkDelegationValidity now i org action st =
     bindE (find_delegation i (\<lambda>d. de_orgId d = org) st) (\<lambda>row. Inr (case row of
        None \<Rightarrow> False
      | Some d \<Rightarrow>
          de_isRevoked d \<noteq> Some True
          \<and> (case de_timeBoundEnd d of Some t \<Rightarrow> \<not> t < now | None \<Rightarrow> True)
          \<and> (de_scope d = ''all'' \<or> (de_scope d = ''blob_ids'' \<and> action = ''renew'')
             \<or> (de_scope d = ''policy'' \<and> action = ''policy_execute'') \<or> de_scope d = action)))"

text \<open>\<open>BigInt(s)\<close>: signed decimal digits, or an unsigned literal with a base.\<close>

definition base_digit :: "char \<Rightarrow> int" where
  "base_digit c = (let n = int (of_char c) in if n < 58 then n - 48 else if n < 91 then n - 55 else n - 87)"

definition base_value :: "int \<Rightarrow> string \<Rightarrow> int option" where
  "base_value b ds =
     (if ds \<noteq> [] \<and> list_all (\<lambda>c. hex_digit c \<and> base_digit c < b) ds
      then Some (fold (\<lambda>c n. n * b + base_digit c) ds 0) else None)"

definition js_BigInt :: "string \<Rightarrow> int option" where
  "js_BigInt s =
     (let t = trim_str s; tail = drop 2 t
      in if t = [] then Some 0
         else if take 2 t \<in> {''0x'', ''0X''} then base_value 16 tail
         else if take 2 t \<in> {''0o'', ''0O''} then base_value 8 tail
         else if take 2 t \<in> {''0b'', ''0B''} then base_value 2 tail
         else if hd t = CHR ''-'' then map_option uminus (base_value 10 (tl t))
         else if hd t = CHR ''+'' then base_value 10 (tl t)
         else base_value 10 t)"

definition parse_BigInt :: "string \<Rightarrow> thrown + int" where
  "parse_BigInt s = (case js_BigInt s of Some n \<Rightarrow> Inr n | None \<Rightarrow> Inl (js_Error (''Cannot convert '' @ s @ '' to a BigInt'')))"

text \<open>The use of a delegation is an event; the ceiling is compared with each cost alone.\<close>

definition recordDelegationUsage :: "api_env \<Rightarrow> string \<Rightarrow> string \<Rightarrow> api_state \<Rightarrow> thrown + api_state" where
  "recordDelegationUsage env i cost st =
     bindE (find_delegation i (\<lambda>d. True) st) (\<lambda>row. case row of
        None \<Rightarrow> Inr st
      | Some d \<Rightarrow>
          bindE (parse_BigInt (de_spendCeiling d)) (\<lambda>ceiling.
          bindE (if ceiling > 0 then bindE (parse_BigInt cost) (\<lambda>c. Inr (c > ceiling)) else Inr False) (\<lambda>over.
            if over
            then Inl (js_Error (''Delegation '' @ i @ '' spend ceiling of '' @ de_spendCeiling d @ '' exceeded''))
            else Inr (record_events
                   [delegation_event env ''delegation.used'' ActSystem d
                      [(''cost'', JStr cost), (''walletId'', JStr (de_walletId d))]] st))))"

fun record_usages :: "api_env \<Rightarrow> string \<Rightarrow> string list \<Rightarrow> api_state \<Rightarrow> thrown + api_state" where
  "record_usages env i [] st = Inr st"
| "record_usages env i (c # cs) st = bindE (recordDelegationUsage env i c st) (record_usages env i cs)"

section \<open>Routes\<close>

datatype wallet_op =
    CreateWallet wallet_body
  | GetWallet
  | PatchWallet "wallet_input list"
  | DeleteWallet
  | RestoreWallet
  | RevokeWallet
  | ReconnectWallet
  | RefreshBalance
  | DelegateWallet delegation_body
  | ListDelegations
  | RevokeDelegation string

definition on_wallet ::
    "request \<Rightarrow> request_vars \<Rightarrow> (string \<Rightarrow> string \<Rightarrow> wallet_row \<Rightarrow> api_state \<Rightarrow> wallet_answer handled)
     \<Rightarrow> api_state \<Rightarrow> wallet_answer handled" where
  "on_wallet rq cx k st = on_item wallet_table ''Wallet'' class_extra rq cx k st"

definition list_delegations :: "string \<Rightarrow> string \<Rightarrow> wallet_row \<Rightarrow> api_state \<Rightarrow> wallet_answer handled" where
  "list_delegations org i w st =
     (Inr (200, Row (DelegationRows (sort_by (\<lambda>a b. de_createdAt a < de_createdAt b)
        (filter (\<lambda>d. de_walletId d = i \<and> de_orgId d = org) (ap_delegations st))))), st)"

definition revoke_delegation :: "api_env \<Rightarrow> request_vars \<Rightarrow> string \<Rightarrow> api_state \<Rightarrow> wallet_answer handled" where
  "revoke_delegation env cx i st =
     (if i = [] then (Inr (api_error (class_extra cx) 400 ''Delegation ID is required'' ''VALIDATION_ERROR''), st)
      else case cx_orgId cx of
             None \<Rightarrow> (Inl undefined_arg, st)
           | Some org \<Rightarrow>
               (case revokeDelegation env i org (or_default (cx_userId cx) '''') st of
                  (Inl e, st1) \<Rightarrow> (Inl e, st1)
                | (Inr _, st1) \<Rightarrow> (Inr (say ''Delegation revoked''), st1)))"

fun wallet_handler :: "api_env \<Rightarrow> request \<Rightarrow> wallet_op \<Rightarrow> request_vars \<Rightarrow> api_state \<Rightarrow> wallet_answer handled" where
  "wallet_handler env rq (CreateWallet b) cx st = create_wallet env rq cx b st"
| "wallet_handler env rq GetWallet cx st = on_wallet rq cx (\<lambda>org i w s. (Inr (200, Row (WalletRow w)), s)) st"
| "wallet_handler env rq (PatchWallet fs) cx st = on_wallet rq cx (patch_wallet env rq cx fs) st"
| "wallet_handler env rq DeleteWallet cx st = on_wallet rq cx (delete_wallet env rq cx) st"
| "wallet_handler env rq RestoreWallet cx st = on_wallet rq cx (restore_wallet env rq cx) st"
| "wallet_handler env rq RevokeWallet cx st = on_wallet rq cx (revoke_wallet env rq cx) st"
| "wallet_handler env rq ReconnectWallet cx st = on_wallet rq cx (reconnect_wallet env rq cx) st"
| "wallet_handler env rq RefreshBalance cx st =
     on_wallet rq cx (\<lambda>org i w s. (Inr (200, Json (JObj [(''message'', JStr ''Balance refreshed''), (''balance'', JNum 0)])), s)) st"
| "wallet_handler env rq (DelegateWallet b) cx st = on_wallet rq cx (delegate_wallet env cx b) st"
| "wallet_handler env rq ListDelegations cx st = on_wallet rq cx list_delegations st"
| "wallet_handler env rq (RevokeDelegation i) cx st = revoke_delegation env cx i st"

fun wallet_guards :: "wallet_op \<Rightarrow> guard list" where
  "wallet_guards GetWallet = [GAuth, GOrg]"
| "wallet_guards ListDelegations = [GAuth, GOrg]"
| "wallet_guards _ = [GAuth, GOrg, GCap [MANAGE_WALLETS]]"

fun wallet_op_ok :: "wallet_op \<Rightarrow> bool" where
  "wallet_op_ok (CreateWallet b) = wallet_body_ok b"
| "wallet_op_ok (PatchWallet fs) = wallet_patch_ok fs"
| "wallet_op_ok (DelegateWallet b) = delegation_body_ok b"
| "wallet_op_ok _ = True"

definition wallet_request ::
    "api_env \<Rightarrow> string \<Rightarrow> request \<times> wallet_op \<Rightarrow> api_state \<Rightarrow> wallet_answer body reply \<times> api_state" where
  "wallet_request env rid x st =
     (case x of (rq, op) \<Rightarrow> serve env rid (wallet_guards op) rq (wallet_op_ok op) (wallet_handler env rq op) st)"

section \<open>Facts\<close>

lemma wallet_table_simps [simp]:
  "et_machine wallet_table = SM_wallet" "et_id wallet_table = wa_id" "et_status wallet_table = wa_status"
  "et_rows wallet_table s = db_wallets (ap_db s)" "et_update wallet_table i f = write_db (upd_wallets i f)"
  by (simp_all add: wallet_table_def)

lemma set_wallet_field_frame [simp]:
  "wa_id (fold set_wallet_field fs w) = wa_id w" "wa_status (fold set_wallet_field fs w) = wa_status w"
proof -
  have "wa_id (set_wallet_field f c) = wa_id c" "wa_status (set_wallet_field f c) = wa_status c" for f c
    by (cases f; simp)+
  then show "wa_id (fold set_wallet_field fs w) = wa_id w" "wa_status (fold set_wallet_field fs w) = wa_status w"
    by (induction fs arbitrary: w) simp_all
qed

lemma insert_wallet_ok:
  "insert_wallet w st = Inr st' \<Longrightarrow> wa_id w \<notin> wa_id ` set (db_wallets (ap_db st))
     \<and> st' = write_db (\<lambda>d. d\<lparr>db_wallets := db_wallets d @ [w]\<rparr>) st"
  by (auto simp: insert_wallet_def split: if_splits)

lemma snd_catch_duplicate [simp]: "snd (catch_duplicate cx h) = snd h"
  by (auto simp: catch_duplicate_def split: prod.split sum.split)

lemma upd_blobs_frames [simp]:
  "db_wallets (upd_blobs p f d) = db_wallets d" "db_blobs (upd_wallets i g d) = db_blobs d"
  by (simp_all add: upd_blobs_def upd_wallets_def)

lemma untrack_frames [simp]:
  "db_wallets (ap_db (snd (untrack_blobs env w bs st))) = db_wallets (ap_db st)"
  "ap_access (snd (untrack_blobs env w bs st)) = ap_access st"
  "ap_delegations (snd (untrack_blobs env w bs st)) = ap_delegations st"
  by (induction bs arbitrary: st) (simp_all add: untrack_blob_def Let_def add_audit_def split: sum.split)

subsection \<open>The machine\<close>

lemma create_wallet_steps:
  "key_steps SM_wallet {''active''} (keys_of wallet_table st) (keys_of wallet_table (snd (create_wallet env rq cx b st)))"
proof -
  have "key_steps SM_wallet {''active''} (keys_of wallet_table st) (keys_of wallet_table st1)"
    if "insert_wallet w st = Inr st1" "wa_status w = ''active''" for w st1
    using insert_wallet_ok [OF that(1)] that(2) by (intro wallets.append_steps [of _ _ w]) auto
  then show ?thesis
    by (auto simp: create_wallet_def Let_def new_wallet_def intro!: wallets.write_steps split: sum.split)
qed

lemma patch_wallet_steps:
  "key_steps n S (keys_of wallet_table st) (keys_of wallet_table (snd (patch_wallet env rq cx fs org i w st)))"
proof -
  have "keys_of wallet_table (et_update wallet_table i (fold set_wallet_field fs) s) = keys_of wallet_table s" for s
    by (rule wallets.keys_frame) simp
  then show ?thesis by (auto simp: patch_wallet_def intro!: wallets.write_steps split: if_splits)
qed

lemma move_wallet_steps:
  assumes "find_entity wallet_table st org i = Some w" and "\<And>q. wa_id (upd q) = wa_id q"
  shows "key_steps SM_wallet S (keys_of wallet_table st)
    (keys_of wallet_table (snd (move_wallet env rq cx target upd name es msg i w st)))"
  unfolding move_wallet_def using assms(2)
  by (intro wallets.move_steps [OF assms(1), simplified wallet_table_simps]) simp

lemma revoke_wallet_state:
  "db_wallets (ap_db (snd (revoke_wallet env rq cx org i w st)))
    = db_wallets (ap_db (snd (move_wallet env rq cx ''delegation_revoked'' (\<lambda>q. q\<lparr>wa_delegationRevokedAt := Some (av_now env)\<rparr>)
        ''wallet.delegation_revoked'' [owner_event env cx org ''delegation.revoked'' ''wallet'' i (address_details w)]
        ''Delegation revoked. Monitoring continues but auto-renewal stopped.'' i w st)))"
  by (simp add: revoke_wallet_def handleWalletDisconnected_def split: prod.split sum.split)

lemma revoke_wallet_access:
  "ap_access (snd (revoke_wallet env rq cx org i w st))
    = ap_access (snd (move_wallet env rq cx ''delegation_revoked'' (\<lambda>q. q\<lparr>wa_delegationRevokedAt := Some (av_now env)\<rparr>)
        ''wallet.delegation_revoked'' [owner_event env cx org ''delegation.revoked'' ''wallet'' i (address_details w)]
        ''Delegation revoked. Monitoring continues but auto-renewal stopped.'' i w st))"
  by (simp add: revoke_wallet_def handleWalletDisconnected_def split: prod.split sum.split)

lemma revoke_wallet_steps:
  assumes "find_entity wallet_table st org i = Some w"
  shows "key_steps SM_wallet S (keys_of wallet_table st) (keys_of wallet_table (snd (revoke_wallet env rq cx org i w st)))"
  using move_wallet_steps [OF assms] by (simp add: keys_of_def revoke_wallet_state)

lemma delegations_frames:
  "db_wallets (ap_db (snd (delegate_wallet env cx b org i w st))) = db_wallets (ap_db st)"
  "db_wallets (ap_db (snd (revoke_delegation env cx j st))) = db_wallets (ap_db st)"
  "db_blobs (ap_db (snd (revoke_delegation env cx j st))) = db_blobs (ap_db st)"
  "ap_access (snd (delegate_wallet env cx b org i w st)) = ap_access st"
  "ap_access (snd (revoke_delegation env cx j st)) = ap_access st"
  "map de_id (ap_delegations (snd (revoke_delegation env cx j st))) = map de_id (ap_delegations st)"
  by (auto simp: delegate_wallet_def createDelegation_def revoke_delegation_def revokeDelegation_def Let_def revoked_def
      map_sql_update_frame split: sum.split option.split)

lemma keys_same: "db_wallets (ap_db s') = db_wallets (ap_db s) \<Longrightarrow> key_steps n S (keys_of wallet_table s) (keys_of wallet_table s')"
  by (simp add: keys_of_def)

lemmas wallet_moves = delete_wallet_def restore_wallet_def reconnect_wallet_def

lemma wallet_handler_steps:
  "key_steps SM_wallet {''active''} (keys_of wallet_table st) (keys_of wallet_table (snd (wallet_handler env rq op cx st)))"
  by (cases op)
    (simp_all add: create_wallet_steps on_wallet_def on_item_steps patch_wallet_steps wallet_moves move_wallet_steps
      revoke_wallet_steps keys_same delegations_frames list_delegations_def)

interpretation wallet_router: router wallet_table "wallet_request env" "{''active''}" for env
proof
  fix st rid x
  show "key_steps (et_machine wallet_table) {''active''} (keys_of wallet_table st)
      (keys_of wallet_table (snd (wallet_request env rid x st)))"
    unfolding wallet_request_def by (cases x) (auto intro!: wallets.serve_steps wallet_handler_steps)
qed

subsection \<open>What the organization guard leaves of the router\<close>

lemma wallet_item_inert:
  assumes "ids_apart wallet_table st" and "\<And>b. op \<noteq> CreateWallet b" and "\<And>i. op \<noteq> RevokeDelegation i"
  shows "\<exists>d. snd (wallet_request env rid (rq, op) st) = st\<lparr>ap_access := d\<rparr>"
  unfolding wallet_request_def prod.case
  by (cases op)
    (use assms(2,3) in \<open>simp_all only: wallet_guards.simps\<close>,
      (rule wallets.serve_item_inert [OF assms(1)], simp, simp add: on_wallet_def)+)

lemma create_wallet_cases:
  obtains "snd (create_wallet env rq cx b st) = st"
  | org a where "ensureUniqueWalletAddress org (wb_projectId b) (wb_address b) st = Inr ()"
    "snd (create_wallet env rq cx b st) = record_events [] (add_audit a (write_db (\<lambda>d. d\<lparr>db_wallets := db_wallets d
       @ [new_wallet (av_id env ''wallets'' (length (db_wallets (ap_db st)))) (av_now env) org b]\<rparr>) st))"
proof (cases "bindE (verifyOrgChain (cx_orgId cx)) (\<lambda>org. bindE (ensureUniqueWalletAddress org (wb_projectId b) (wb_address b) st) (\<lambda>_. Inr org))")
  case (Inl e)
  then show ?thesis using that(1) by (simp add: create_wallet_def)
next
  case (Inr org)
  let ?w = "new_wallet (av_id env ''wallets'' (length (db_wallets (ap_db st)))) (av_now env) org b"
  let ?res = "with_audit env rq cx (insert_wallet ?w) (entity_spec ''wallet'' ''wallet.created''
    (Some (JObj [(''address'', JStr (wb_address b))]))) (av_id env ''wallets'' (length (db_wallets (ap_db st)))) st"
  from Inr have unique: "ensureUniqueWalletAddress org (wb_projectId b) (wb_address b) st = Inr ()"
    by (auto simp: bindE_def split: sum.splits)
  have snd: "snd (create_wallet env rq cx b st) = snd (conclude ?res [] (201, Row (WalletRow ?w)) st)"
    using Inr by (simp add: create_wallet_def Let_def)
  show ?thesis
  proof (cases ?res)
    case (Inl e)
    with snd show ?thesis by (intro that(1)) (simp add: conclude_def)
  next
    case (Inr st')
    then obtain st1 a where "insert_wallet ?w st = Inr st1" "st' = add_audit a st1" using with_audit_ok by blast
    with insert_wallet_ok Inr snd unique show ?thesis by (intro that(2)) (auto simp: conclude_def)
  qed
qed

lemma create_wallet_appends:
  "\<exists>new. db_wallets (ap_db (snd (create_wallet env rq cx b st))) = db_wallets (ap_db st) @ new
    \<and> (\<forall>w \<in> set new. wa_status w = ''active'' \<and> wa_id w \<in> range (av_id env ''wallets''))"
  by (rule create_wallet_cases [of env rq cx b st]) (auto simp: new_wallet_def)

lemma create_wallet_frames:
  "db_blobs (ap_db (snd (create_wallet env rq cx b st))) = db_blobs (ap_db st)"
  "ap_delegations (snd (create_wallet env rq cx b st)) = ap_delegations st"
  "ap_access (snd (create_wallet env rq cx b st)) = ap_access st"
  by (rule create_wallet_cases [of env rq cx b st]; simp)+

lemma wallet_request_appends:
  assumes "ids_apart wallet_table st"
  shows "\<exists>new. et_rows wallet_table (snd (wallet_request env rid (rq, op) st)) = et_rows wallet_table st @ new
    \<and> (\<forall>w \<in> set new. wa_status w = ''active'' \<and> wa_id w \<in> range (av_id env ''wallets''))"
proof (cases "(\<exists>b. op = CreateWallet b) \<or> (\<exists>i. op = RevokeDelegation i)")
  case True
  then show ?thesis unfolding wallet_request_def prod.case
    by (intro wallets.serve_new_appends) (auto simp: create_wallet_appends delegations_frames)
next
  case False
  then obtain d where "snd (wallet_request env rid (rq, op) st) = st\<lparr>ap_access := d\<rparr>"
    using wallet_item_inert [OF assms, of op env rid rq] by auto
  then show ?thesis by simp
qed

lemma wallet_request_frames:
  assumes "ids_apart wallet_table st"
  shows "db_blobs (ap_db (snd (wallet_request env rid (rq, op) st))) = db_blobs (ap_db st)
    \<and> map de_id (ap_delegations (snd (wallet_request env rid (rq, op) st))) = map de_id (ap_delegations st)"
proof (cases "(\<exists>b. op = CreateWallet b) \<or> (\<exists>i. op = RevokeDelegation i)")
  case True
  then show ?thesis unfolding wallet_request_def prod.case
    by (intro serve_cases [where P = "\<lambda>s. db_blobs (ap_db s) = db_blobs (ap_db st)
        \<and> map de_id (ap_delegations s) = map de_id (ap_delegations st)"])
      (auto simp: create_wallet_frames delegations_frames)
next
  case False
  then obtain d where "snd (wallet_request env rid (rq, op) st) = st\<lparr>ap_access := d\<rparr>"
    using wallet_item_inert [OF assms, of op env rid rq] by auto
  then show ?thesis by simp
qed

lemma wallet_request_orgs:
  "ac_orgs (ap_access (snd (wallet_request env rid (rq, op) st))) = ac_orgs (ap_access st)"
proof -
  have move: "ap_access (snd (move_wallet env rq cx target upd name es msg i w s)) = ap_access s" for cx target upd name es msg i w s
    unfolding move_wallet_def by (rule move_item_access) simp
  have patch: "ap_access (snd (patch_wallet env rq cx fs org i w s)) = ap_access s" for cx fs org i w s
    unfolding patch_wallet_def by (rule conclude_access) (auto split: if_splits)
  have revoke: "ap_access (snd (revoke_wallet env rq cx org i w s)) = ap_access s" for cx org i w s
    unfolding revoke_wallet_access by (rule move)
  have "ap_access (snd (wallet_handler env rq op cx s)) = ap_access s" for cx s
    by (cases op)
      (simp_all add: create_wallet_frames on_wallet_def on_item_access patch wallet_moves move revoke delegations_frames
        list_delegations_def)
  then show ?thesis unfolding wallet_request_def prod.case by (rule serve_orgs)
qed

interpretation wallet_creations: closed_router wallet_table env "''wallets''" "wallet_request env" "\<lambda>w. wa_status w = ''active''" for env
proof
  fix rid and x :: "request \<times> wallet_op" and st
  obtain rq op where x: "x = (rq, op)" by (cases x)
  show "ac_orgs (ap_access (snd (wallet_request env rid x st))) = ac_orgs (ap_access st)"
    by (simp add: x wallet_request_orgs)
  assume "ids_apart wallet_table st"
  from wallet_request_appends [OF this, of env rid rq op]
  show "\<exists>new. et_rows wallet_table (snd (wallet_request env rid x st)) = et_rows wallet_table st @ new
      \<and> (\<forall>r \<in> set new. wa_status r = ''active'' \<and> et_id wallet_table r \<in> range (av_id env ''wallets''))" by (simp add: x)
qed

subsection \<open>One active wallet per address\<close>

definition wallets_unique :: "wallet_row list \<Rightarrow> bool" where
  "wallets_unique rows \<longleftrightarrow> (\<forall>org p a. length (filter (holds_address org p a) rows) \<le> 1)"

lemma uuid_truthy: "is_uuid p \<Longrightarrow> truthy (Some p) = Some p"
  by (cases p) (auto simp: is_uuid_def truthy_def)

lemma create_wallet_unique:
  assumes "wallets_unique (db_wallets (ap_db st))" and "wallet_body_ok b"
  shows "wallets_unique (db_wallets (ap_db (snd (create_wallet env rq cx b st))))"
proof (rule create_wallet_cases [of env rq cx b st])
  fix org a
  let ?w = "new_wallet (av_id env ''wallets'' (length (db_wallets (ap_db st)))) (av_now env) org b"
  assume ensured: "ensureUniqueWalletAddress org (wb_projectId b) (wb_address b) st = Inr ()"
    and st': "snd (create_wallet env rq cx b st)
      = record_events [] (add_audit a (write_db (\<lambda>d. d\<lparr>db_wallets := db_wallets d @ [?w]\<rparr>) st))"
  have "truthy (wb_projectId b) = wb_projectId b"
    using assms(2) uuid_truthy by (cases "wb_projectId b") (auto simp: wallet_body_ok_def)
  with ensured have free: "filter (holds_address org (wb_projectId b) (wb_address b)) (db_wallets (ap_db st)) = []"
    by (auto simp: ensureUniqueWalletAddress_def first_row_filter_None filter_empty_conv split: option.splits)
  have "length (filter (holds_address o' p a') (db_wallets (ap_db st) @ [?w])) \<le> 1" for o' p a'
  proof (cases "holds_address o' p a' ?w")
    case True
    then have "o' = org" "p = wb_projectId b" "a' = wb_address b" by (auto simp: holds_address_def new_wallet_def)
    with free show ?thesis by simp
  next
    case False
    with assms(1) show ?thesis by (simp add: wallets_unique_def)
  qed
  then show ?thesis unfolding st' wallets_unique_def by (simp del: filter_append)
qed (simp add: assms(1))

lemma wallet_request_unique:
  assumes "ids_apart wallet_table st" and "wallets_unique (db_wallets (ap_db st))"
  shows "wallets_unique (db_wallets (ap_db (snd (wallet_request env rid (rq, op) st))))"
proof (cases "(\<exists>b. op = CreateWallet b) \<or> (\<exists>i. op = RevokeDelegation i)")
  case True
  then show ?thesis unfolding wallet_request_def prod.case
    by (intro serve_ok_cases [where P = "\<lambda>s. wallets_unique (db_wallets (ap_db s))"])
      (auto simp: assms(2) create_wallet_unique delegations_frames)
next
  case False
  then obtain d where "snd (wallet_request env rid (rq, op) st) = st\<lparr>ap_access := d\<rparr>"
    using wallet_item_inert [OF assms(1), of op env rid rq] by auto
  with assms(2) show ?thesis by simp
qed

subsection \<open>Disconnection\<close>

abbreviation untracked :: "api_env \<Rightarrow> blob_row \<Rightarrow> blob_row" where
  "untracked env b \<equiv> b\<lparr>bl_status := ''tracked'', bl_updatedAt := av_now env\<rparr>"

lemma protected_to_tracked: "\<exists>t. validateTransition loaded_machines SM_blob ''protected'' ''tracked'' False = Inr t"
  using validate_ok_iff [of SM_blob "''protected''" "''tracked''" False]
  by (simp add: edges_def blob_machine_def tr_def is_ok_def split: sum.splits)

lemma untrack_blobs_rows:
  assumes "\<forall>b \<in> set bs. bl_status b = ''protected''"
  shows "fst (untrack_blobs env w bs st) = Inr () \<and> db_blobs (ap_db (snd (untrack_blobs env w bs st)))
    = map (\<lambda>x. if bl_id x \<in> bl_id ` set bs then untracked env x else x) (db_blobs (ap_db st))"
  using assms
proof (induction bs arbitrary: st)
  case (Cons b bs)
  have "db_blobs (ap_db (untrack_blob env w b st)) = map (\<lambda>x. if bl_id x = bl_id b then untracked env x else x) (db_blobs (ap_db st))"
    by (simp add: untrack_blob_def Let_def upd_blobs_def sql_update_def)
  with Cons protected_to_tracked show ?case by (auto simp: image_iff)
qed simp

subsection \<open>The ceiling of a delegation\<close>

lemma usages_accepted:
  assumes "first_row (filter (\<lambda>d. de_id d = i) (ap_delegations st)) = Some d" and "is_uuid i"
    and "js_BigInt (de_spendCeiling d) = Some m" and "\<forall>c \<in> set costs. \<exists>n. js_BigInt c = Some n \<and> n \<le> m"
  shows "\<exists>st'. record_usages env i costs st = Inr st' \<and> ap_delegations st' = ap_delegations st \<and> ap_db st' = ap_db st
    \<and> length (ap_events st') = length (ap_events st) + length costs"
  using assms(1,4)
proof (induction costs arbitrary: st)
  case (Cons c cs)
  then obtain n where n: "js_BigInt c = Some n" "n \<le> m" by auto
  let ?e = "delegation_event env ''delegation.used'' ActSystem d [(''cost'', JStr c), (''walletId'', JStr (de_walletId d))]"
  from Cons.prems(1) n have "recordDelegationUsage env i c st = Inr (record_events [?e] st)"
    by (simp add: recordDelegationUsage_def find_delegation_def assms(2,3) parse_BigInt_def bindE_def)
  with Cons.IH [of "record_events [?e] st"] Cons.prems show ?case by (auto simp: bindE_def record_events_def)
qed simp

section \<open>Properties\<close>

text \<open>
  Every sequence of requests to the wallets moves their statuses only along the edges of the state
  machine, and new wallets are active.
\<close>

theorem wallet_requests_follow_machine:
  "key_steps SM_wallet {''active''} (keys_of wallet_table st) (keys_of wallet_table (run_requests (wallet_request env) xs st))"
  using wallet_router.run_steps [of st env xs] by simp

text \<open>
  No sequence of requests gives an organization two active wallets of one address in one project, or of one
  address outside the projects.
\<close>

theorem active_wallets_unique:
  assumes "ids_stay_apart env ''wallets'' wallet_table st" and "wallets_unique (db_wallets (ap_db st))"
  shows "wallets_unique (db_wallets (ap_db (run_requests (wallet_request env) xs st)))"
  by (rule wallet_creations.run_invariant [where I = "\<lambda>s. wallets_unique (db_wallets (ap_db s))", OF assms])
    (use wallet_request_unique in auto)

text \<open>
  Through the API wallets are only added and delegations only revoked: no request changes an existing wallet,
  disconnects one from its blobs, or grants a delegation.
\<close>

theorem api_never_delegates:
  assumes "ids_stay_apart env ''wallets'' wallet_table st"
  shows "\<exists>new. db_wallets (ap_db (run_requests (wallet_request env) xs st)) = db_wallets (ap_db st) @ new
      \<and> (\<forall>w \<in> set new. wa_status w = ''active'')"
    and "db_blobs (ap_db (run_requests (wallet_request env) xs st)) = db_blobs (ap_db st)"
    and "map de_id (ap_delegations (run_requests (wallet_request env) xs st)) = map de_id (ap_delegations st)"
proof -
  let ?I = "\<lambda>s. db_blobs (ap_db s) = db_blobs (ap_db st) \<and> map de_id (ap_delegations s) = map de_id (ap_delegations st)"
  show "\<exists>new. db_wallets (ap_db (run_requests (wallet_request env) xs st)) = db_wallets (ap_db st) @ new
      \<and> (\<forall>w \<in> set new. wa_status w = ''active'')"
    using wallet_creations.run_appends [OF assms, of xs] by simp
  have "?I (run_requests (wallet_request env) xs st)"
    by (rule wallet_creations.run_invariant [where I = ?I, OF assms]) (use wallet_request_frames in auto)
  then show "db_blobs (ap_db (run_requests (wallet_request env) xs st)) = db_blobs (ap_db st)"
    and "map de_id (ap_delegations (run_requests (wallet_request env) xs st)) = map de_id (ap_delegations st)" by simp_all
qed

text \<open>
  The disconnection of a wallet moves exactly its protected blobs back to tracked and cannot fail; all other blobs
  stay as they are.
\<close>

theorem disconnect_spec:
  assumes "distinct (map bl_id (db_blobs (ap_db st)))"
  shows "fst (handleWalletDisconnected env w st) = Inr ()"
    and "db_blobs (ap_db (snd (handleWalletDisconnected env w st)))
      = map (\<lambda>b. if bl_walletId b = Some w \<and> bl_status b = ''protected'' then untracked env b else b) (db_blobs (ap_db st))"
proof -
  let ?p = "\<lambda>b. bl_walletId b = Some w \<and> bl_status b = ''protected''"
  note rows = untrack_blobs_rows [of "filter ?p (db_blobs (ap_db st))" env w st]
  from rows show "fst (handleWalletDisconnected env w st) = Inr ()" by (simp add: handleWalletDisconnected_def)
  have "bl_id b \<in> bl_id ` set (filter ?p (db_blobs (ap_db st))) \<longleftrightarrow> ?p b" if "b \<in> set (db_blobs (ap_db st))" for b
    using that assms by (auto simp: distinct_map inj_on_def)
  with rows show "db_blobs (ap_db (snd (handleWalletDisconnected env w st)))
      = map (\<lambda>b. if ?p b then untracked env b else b) (db_blobs (ap_db st))"
    by (simp add: handleWalletDisconnected_def cong: map_cong)
qed

text \<open>
  A delegation that its organization revoked is not valid for any action at any later time.
\<close>

theorem revoked_delegation_invalid:
  assumes "is_uuid i"
  shows "checkDelegationValidity now i org action (snd (revokeDelegation env i org user st)) = Inr False"
proof -
  define st' where "st' = snd (revokeDelegation env i org user st)"
  define hit where "hit = (\<lambda>d :: delegation_row. de_id d = i \<and> de_orgId d = org)"
  have "ap_delegations st' = sql_update hit (revoked (av_now env)) (ap_delegations st)"
    using assms by (simp add: st'_def revokeDelegation_def Let_def hit_def record_events_def split: option.split)
  then have "\<exists>r. d = revoked (av_now env) r \<or> d = r \<and> \<not> hit r" if "d \<in> set (ap_delegations st')" for d
    using that by (auto simp: sql_update_def)
  then have gone: "de_isRevoked d = Some True" if "d \<in> set (ap_delegations st')" "de_id d = i" "de_orgId d = org" for d
    using that unfolding hit_def revoked_def by fastforce
  show ?thesis
  proof (cases "first_row (filter (\<lambda>d. de_id d = i \<and> de_orgId d = org) (ap_delegations st'))")
    case (Some d)
    then have "de_isRevoked d = Some True" using gone by (auto dest: first_row_filter_SomeD)
    with Some assms show ?thesis
      unfolding st'_def [symmetric] checkDelegationValidity_def find_delegation_def by (simp add: bindE_def)
  qed (use assms in \<open>simp add: checkDelegationValidity_def find_delegation_def bindE_def st'_def\<close>)
qed

text \<open>
  The targets of a delegation bound nothing: its validity is the same whatever they are.
\<close>

theorem scope_targets_ignored:
  "checkDelegationValidity now i org action (st\<lparr>ap_delegations := map (\<lambda>d. d\<lparr>de_scopeTargets := t d\<rparr>) (ap_delegations st)\<rparr>)
    = checkDelegationValidity now i org action st"
proof -
  have "first_row (filter (\<lambda>d. de_id d = i \<and> de_orgId d = org) (map (\<lambda>d. d\<lparr>de_scopeTargets := t d\<rparr>) ds))
    = map_option (\<lambda>d. d\<lparr>de_scopeTargets := t d\<rparr>) (first_row (filter (\<lambda>d. de_id d = i \<and> de_orgId d = org) ds))" for ds
    by (induction ds) (auto simp: first_row_def)
  then show ?thesis
    by (auto simp: checkDelegationValidity_def find_delegation_def bindE_def split: option.split)
qed

text \<open>
  The spend ceiling bounds each use of a delegation and not their sum: uses that each stay under it are all
  accepted, however many there are, and leave the delegation as it was.
\<close>

theorem ceiling_per_use_only:
  assumes "first_row (filter (\<lambda>d. de_id d = i) (ap_delegations st)) = Some d" and "is_uuid i"
    and "js_BigInt (de_spendCeiling d) = Some m" and "js_BigInt cost = Some c" and "c \<le> m"
  shows "\<exists>st'. record_usages env i (replicate n cost) st = Inr st' \<and> ap_delegations st' = ap_delegations st
    \<and> length (ap_events st') = length (ap_events st) + n"
  using usages_accepted [OF assms(1-3), of "replicate n cost" env] assms(4,5) by auto

text \<open>
  A deleted wallet is never restored: the route of that name fails on it with the error of the state machine.
\<close>

theorem restore_never_restores:
  assumes "wa_status w = ''deleted''"
  shows "\<exists>e. restore_wallet env rq cx org i w st = (Inl e, st)"
proof -
  have "\<not> is_ok (validateTransition loaded_machines SM_wallet ''deleted'' ''active'' False)"
    by (simp add: validate_ok_iff edges_def wallet_machine_def tr_def)
  with assms show ?thesis
    by (auto simp: restore_wallet_def move_wallet_def move_item_def conclude_def is_ok_def split: sum.splits)
qed

subsection \<open>Witnesses\<close>

definition sample_wallet_state :: api_state where
  "sample_wallet_state =
     \<lparr>ap_access = sample_db,
      ap_db = empty_db
        \<lparr>db_wallets := [new_wallet ''w'' 0 ''o'' \<lparr>wb_address = ''0x1'', wb_projectId = None, wb_label = None, wb_type = None,
            wb_isDefault = None, wb_spendingLimit = None\<rparr>],
         db_blobs := [(new_blob ''b'' 0 ''o'' ''p'' ''0x'')\<lparr>bl_walletId := Some ''w'', bl_status := ''protected''\<rparr>]\<rparr>,
      ap_projects = [],
      ap_delegations = [\<lparr>de_id = sample_uuid CHR ''d'', de_orgId = ''o'', de_walletId = ''w'', de_delegateAddress = ''0x2'',
          de_scope = ''all'', de_scopeTargets = None, de_spendCeiling = ''10'', de_timeBoundStart = 0, de_timeBoundEnd = None,
          de_isRevoked = Some False, de_createdBy = ''u'', de_revokedAt = None, de_createdAt = 0, de_updatedAt = 0\<rparr>],
      ap_events = [], ap_invitations = []\<rparr>"

abbreviation sample_wallet_env :: api_env where
  "sample_wallet_env \<equiv> \<lparr>av_access = sample_access_env, av_id = (\<lambda>t n. t), av_staleness = None\<rparr>"

lemma sample_wallets_apart: "ids_stay_apart sample_wallet_env ''wallets'' wallet_table sample_wallet_state"
  by (simp add: ids_stay_apart_def ids_apart_def sample_wallet_state_def new_wallet_def sample_orgs_def sample_org_def
      sample_uuid_def)

lemma sample_delegation_uuid: "is_uuid (sample_uuid CHR ''d'')"
  by (simp add: is_uuid_def sample_uuid_def hex_digit_def is_digit_def less_eq_char_def)

theorem active_wallets_unique_witness:
  "wallets_unique (db_wallets (ap_db (run_requests (wallet_request sample_wallet_env)
     [(''r'', sample_request None, CreateWallet \<lparr>wb_address = ''0x1'', wb_projectId = None, wb_label = None, wb_type = None,
        wb_isDefault = None, wb_spendingLimit = None\<rparr>)] sample_wallet_state)))"
  by (rule active_wallets_unique [OF sample_wallets_apart]) (simp add: wallets_unique_def sample_wallet_state_def)

theorem api_never_delegates_witness:
  "db_blobs (ap_db (run_requests (wallet_request sample_wallet_env) [(''r'', sample_request (Some ''w''), RevokeWallet)]
     sample_wallet_state)) = db_blobs (ap_db sample_wallet_state)"
  by (rule api_never_delegates(2) [OF sample_wallets_apart])

theorem disconnect_spec_witness:
  "map bl_status (db_blobs (ap_db (snd (handleWalletDisconnected sample_wallet_env ''w'' sample_wallet_state)))) = [''tracked'']"
proof -
  have "distinct (map bl_id (db_blobs (ap_db sample_wallet_state)))" by (simp add: sample_wallet_state_def)
  from disconnect_spec(2) [OF this, of sample_wallet_env "''w''"] show ?thesis by (simp add: sample_wallet_state_def)
qed

theorem revoked_delegation_invalid_witness:
  "checkDelegationValidity 5 (sample_uuid CHR ''d'') ''o'' ''renew'' sample_wallet_state = Inr True
   \<and> checkDelegationValidity 5 (sample_uuid CHR ''d'') ''o'' ''renew''
       (snd (revokeDelegation sample_wallet_env (sample_uuid CHR ''d'') ''o'' ''u'' sample_wallet_state)) = Inr False"
  using revoked_delegation_invalid [OF sample_delegation_uuid] sample_delegation_uuid
  by (simp add: checkDelegationValidity_def find_delegation_def sample_wallet_state_def bindE_def)

theorem ceiling_per_use_only_witness:
  "\<exists>st'. record_usages sample_wallet_env (sample_uuid CHR ''d'') (replicate 3 ''10'') sample_wallet_state = Inr st'
     \<and> length (ap_events st') = 3"
proof -
  obtain d where d: "first_row (filter (\<lambda>d. de_id d = sample_uuid CHR ''d'') (ap_delegations sample_wallet_state)) = Some d"
    "de_spendCeiling d = ''10''" by (simp add: sample_wallet_state_def)
  have "js_BigInt ''10'' = Some 10"
    by (simp add: js_BigInt_def trim_str_def base_value_def base_digit_def hex_digit_def is_digit_def less_eq_char_def)
  with ceiling_per_use_only [OF d(1) sample_delegation_uuid, of 10 "''10''" 10 sample_wallet_env 3] d(2)
  show ?thesis by (auto simp: sample_wallet_state_def)
qed

theorem restore_never_restores_witness:
  "\<exists>w e. wa_status w = ''deleted'' \<and> restore_wallet sample_wallet_env (sample_request None) (fresh_vars ''r'') ''o'' ''w'' w
     sample_wallet_state = (Inl e, sample_wallet_state)"
proof -
  let ?w = "(hd (db_wallets (ap_db sample_wallet_state)))\<lparr>wa_status := ''deleted''\<rparr>"
  have d: "wa_status ?w = ''deleted''" by simp
  obtain e where "restore_wallet sample_wallet_env (sample_request None) (fresh_vars ''r'') ''o'' ''w'' ?w sample_wallet_state
      = (Inl e, sample_wallet_state)" using restore_never_restores [OF d] by blast
  with d show ?thesis by blast
qed

end
