(* ===== verification/Blob_Routes.thy ===== *)
theory Blob_Routes
  imports Route_Base
begin

text \<open>
  Blob registrations over the API, \<open>api/src/routes/blobs.ts\<close>: registration, the item routes, the export and the bulk
  actions with their report per item. How the query builder binds an array in a raw condition is a parameter of
  the bulk route. The list is in Pagination.
\<close>

section \<open>Inputs\<close>

datatype blob_input =
    BlProject string
  | BlName string
  | BlSize int
  | BlContentType string
  | BlStatus string
  | BlUploadDate int
  | BlExpiry int
  | BlMetadata "(string \<times> json) list"
  | BlTags "string list"
  | BlVault string
  | BlOwner string

fun blob_pair :: "blob_input \<Rightarrow> string \<times> json" where
  "blob_pair (BlProject s) = (''projectId'', JStr s)"
| "blob_pair (BlName s) = (''name'', JStr s)"
| "blob_pair (BlSize n) = (''sizeBytes'', JNum n)"
| "blob_pair (BlContentType s) = (''contentType'', JStr s)"
| "blob_pair (BlStatus s) = (''status'', JStr s)"
| "blob_pair (BlUploadDate t) = (''uploadDate'', JStr (iso_text t))"
| "blob_pair (BlExpiry n) = (''expiryEpoch'', JNum n)"
| "blob_pair (BlMetadata m) = (''metadata'', JObj m)"
| "blob_pair (BlTags ts) = (''tags'', JArr (map JStr ts))"
| "blob_pair (BlVault s) = (''suiVaultId'', JStr s)"
| "blob_pair (BlOwner s) = (''ownerAddress'', JStr s)"

fun set_blob_field :: "blob_input \<Rightarrow> blob_row \<Rightarrow> blob_row" where
  "set_blob_field (BlProject s) b = b\<lparr>bl_projectId := s\<rparr>"
| "set_blob_field (BlName s) b = b\<lparr>bl_name := Some s\<rparr>"
| "set_blob_field (BlSize n) b = b\<lparr>bl_sizeBytes := Some n\<rparr>"
| "set_blob_field (BlContentType s) b = b\<lparr>bl_contentType := Some s\<rparr>"
| "set_blob_field (BlStatus s) b = b\<lparr>bl_status := s\<rparr>"
| "set_blob_field (BlUploadDate t) b = b\<lparr>bl_uploadDate := Some t\<rparr>"
| "set_blob_field (BlExpiry n) b = b\<lparr>bl_expiryEpoch := Some n\<rparr>"
| "set_blob_field (BlMetadata m) b = b\<lparr>bl_metadata := Some (JObj m)\<rparr>"
| "set_blob_field (BlTags ts) b = b\<lparr>bl_tags := Some ts\<rparr>"
| "set_blob_field (BlVault s) b = b\<lparr>bl_suiVaultId := Some s\<rparr>"
| "set_blob_field (BlOwner s) b = b\<lparr>bl_ownerAddress := Some s\<rparr>"

definition status_names :: "string list" where
  "status_names =
     [''discovered'', ''verified'', ''tracked'', ''protected'', ''expiring'', ''renewing'', ''renewed'', ''expired'',
      ''archived'', ''deleted'']"

fun blob_field_ok :: "blob_input \<Rightarrow> bool" where
  "blob_field_ok (BlProject s) = is_uuid s"
| "blob_field_ok (BlName s) = (length s \<le> 255)"
| "blob_field_ok (BlSize n) = (n \<ge> 0)"
| "blob_field_ok (BlContentType s) = (length s \<le> 100)"
| "blob_field_ok (BlStatus s) = (s \<in> set status_names)"
| "blob_field_ok (BlExpiry n) = (n \<ge> 0)"
| "blob_field_ok _ = True"

definition blob_patch_ok :: "blob_input list \<Rightarrow> bool" where
  "blob_patch_ok fs \<longleftrightarrow> list_all blob_field_ok fs \<and> distinct (map (fst \<circ> blob_pair) fs)"

text \<open>A new blob names its project; its status is not a field of the body.\<close>

definition blob_body_ok :: "string \<Rightarrow> blob_input list \<Rightarrow> bool" where
  "blob_body_ok blobId fs \<longleftrightarrow> blobId \<noteq> [] \<and> blob_patch_ok fs \<and> ''projectId'' \<in> set (map (fst \<circ> blob_pair) fs)
     \<and> ''status'' \<notin> set (map (fst \<circ> blob_pair) fs)"

fun asked_status :: "blob_input list \<Rightarrow> string option" where
  "asked_status [] = None"
| "asked_status (BlStatus s # fs) = Some s"
| "asked_status (_ # fs) = asked_status fs"

text \<open>\<open>TRANSITION_TIMESTAMP_MAP\<close>\<close>

definition stamp :: "string \<Rightarrow> int \<Rightarrow> blob_row \<Rightarrow> blob_row" where
  "stamp s now b =
     (if s = ''discovered'' then b\<lparr>bl_discoveredAt := now\<rparr>
      else if s = ''verified'' then b\<lparr>bl_verifiedAt := Some now\<rparr>
      else if s = ''tracked'' then b\<lparr>bl_trackedAt := Some now\<rparr>
      else if s = ''protected'' then b\<lparr>bl_protectedAt := Some now\<rparr>
      else if s = ''expiring'' then b\<lparr>bl_expiringAt := Some now\<rparr>
      else if s = ''renewing'' then b\<lparr>bl_renewingAt := Some now\<rparr>
      else if s = ''renewed'' then b\<lparr>bl_renewedAt := Some now\<rparr>
      else if s = ''expired'' then b\<lparr>bl_expiredAt := Some now\<rparr>
      else if s = ''archived'' then b\<lparr>bl_archivedAt := Some now\<rparr>
      else if s = ''deleted'' then b\<lparr>bl_deletedAt := Some now\<rparr>
      else b)"

section \<open>Statements\<close>

definition blob_table :: "blob_row entity_table" where
  "blob_table =
     \<lparr>et_rows = (\<lambda>st. db_blobs (ap_db st)), et_id = bl_id, et_org = bl_orgId, et_status = bl_status,
      et_update = (\<lambda>i f. write_db (upd_blobs (\<lambda>b. bl_id b = i) f)), et_machine = SM_blob\<rparr>"

interpretation blobs: entity_laws blob_table
  by unfold_locales (simp_all add: blob_table_def upd_blobs_def add_audit_def)

definition project_exists :: "string \<Rightarrow> api_state \<Rightarrow> bool" where
  "project_exists p st \<longleftrightarrow> p \<in> pj_id ` set (ap_projects st)"

text \<open>A blob is registered once, in whatever organization; its project may be any.\<close>

definition insert_blob :: "blob_row \<Rightarrow> api_state \<Rightarrow> thrown + api_state" where
  "insert_blob b st =
     (if bl_id b \<in> bl_id ` set (db_blobs (ap_db st)) then Inl (duplicate_key ''blob_registrations_pkey'')
      else if bl_blobId b \<in> bl_blobId ` set (db_blobs (ap_db st)) then Inl (duplicate_key ''blob_registrations_blob_id_idx'')
      else if \<not> project_exists (bl_projectId b) st then Inl (foreign_key_error ''blob_registrations'')
      else Inr (write_db (\<lambda>d. d\<lparr>db_blobs := db_blobs d @ [b]\<rparr>) st))"

definition emitApiBlobEvent ::
    "api_env \<Rightarrow> request_vars \<Rightarrow> string \<Rightarrow> string \<Rightarrow> string \<Rightarrow> json option \<Rightarrow> event_payload" where
  "emitApiBlobEvent env cx s org i details =
     createEvent (av_now env) (''blob.'' @ s) org ''blob_registration'' i (ActHuman (or_default (cx_userId cx) '''')) details None"

definition previous_status :: "blob_row \<Rightarrow> json option" where
  "previous_status b = Some (JObj [(''previousStatus'', JStr (bl_status b))])"

section \<open>Handlers\<close>

datatype blob_answer =
    BlobRow blob_row
  | BlobExport "blob_row list" "int option"
  | BulkDone string "item_result list" int int
  | BulkPartial http_response
  | BulkFailed string "item_result list"

definition create_blob ::
    "api_env \<Rightarrow> request \<Rightarrow> request_vars \<Rightarrow> string \<Rightarrow> blob_input list \<Rightarrow> api_state \<Rightarrow> blob_answer handled" where
  "create_blob env rq cx blobId fs st =
     (case verifyOrgChain (cx_orgId cx) of
        Inl e \<Rightarrow> (Inl e, st)
      | Inr org \<Rightarrow>
          (let i = av_id env ''blob_registrations'' (length (db_blobs (ap_db st)));
               b = fold set_blob_field fs (new_blob i (av_now env) org '''' blobId);
               spec = entity_spec ''blob_registration'' ''blob.created''
                 (Some (JObj ([(''blobId'', JStr blobId)] @ defined ''name'' (bl_name b))))
           in conclude (with_audit env rq cx (insert_blob b) spec i st)
                [emitApiBlobEvent env cx ''discovered'' org i None] (201, Row (BlobRow b)) st))"

definition get_blob :: "string \<Rightarrow> string \<Rightarrow> blob_row \<Rightarrow> api_state \<Rightarrow> blob_answer handled" where
  "get_blob org i b st = (Inr (200, Row (BlobRow b)), st)"

text \<open>The status a patch asks for, unless it is that of the row; the event precedes the update.\<close>

definition wanted_status :: "blob_input list \<Rightarrow> blob_row \<Rightarrow> string option" where
  "wanted_status fs b =
     (case truthy (asked_status fs) of Some s \<Rightarrow> if s \<noteq> bl_status b then Some s else None | None \<Rightarrow> None)"

definition manual_transition :: "string \<Rightarrow> string \<Rightarrow> thrown + unit" where
  "manual_transition from to =
     bindE (validateTransition loaded_machines SM_blob from to False) (\<lambda>t.
       if tr_type t = Manual then Inr ()
       else Inl (ErrObj (StateTransitionError ''blob'' from to
              (Some (''Transition '' @ sq (from @ '' -> '' @ to) @ '' is '' @ sq ''automatic''
                 @ '' and cannot be triggered via API '' @ em_dash @ '' it must be performed by the system''))) None))"

definition patched :: "api_env \<Rightarrow> blob_input list \<Rightarrow> string option \<Rightarrow> blob_row \<Rightarrow> blob_row" where
  "patched env fs target b =
     (let b1 = (fold set_blob_field fs b)\<lparr>bl_updatedAt := av_now env\<rparr>
      in case target of Some s \<Rightarrow> stamp s (av_now env) b1 | None \<Rightarrow> b1)"

definition update_blob ::
    "api_env \<Rightarrow> request \<Rightarrow> request_vars \<Rightarrow> blob_input list \<Rightarrow> string option \<Rightarrow> string \<Rightarrow> blob_row \<Rightarrow> api_state
     \<Rightarrow> blob_answer handled" where
  "update_blob env rq cx fs target i b st =
     conclude
       (with_audit env rq cx
          (\<lambda>s. if project_exists (bl_projectId (patched env fs target b)) s
               then Inr (et_update blob_table i (patched env fs target) s) else Inl (foreign_key_error ''blob_registrations''))
          (entity_spec ''blob_registration'' ''blob.updated'' (Some (JObj (map blob_pair fs)))) i st)
       [] (200, Row (BlobRow (patched env fs target b))) st"

definition patch_blob ::
    "api_env \<Rightarrow> request \<Rightarrow> request_vars \<Rightarrow> blob_input list \<Rightarrow> string \<Rightarrow> string \<Rightarrow> blob_row \<Rightarrow> api_state
     \<Rightarrow> blob_answer handled" where
  "patch_blob env rq cx fs org i b st =
     (case wanted_status fs b of
        None \<Rightarrow> update_blob env rq cx fs None i b st
      | Some s \<Rightarrow>
          (case manual_transition (bl_status b) s of
             Inl e \<Rightarrow> (Inl e, st)
           | Inr _ \<Rightarrow>
               update_blob env rq cx fs (Some s) i b
                 (record_events [emitApiBlobEvent env cx s org i (previous_status b)] st)))"

definition delete_blob ::
    "api_env \<Rightarrow> request \<Rightarrow> request_vars \<Rightarrow> string \<Rightarrow> string \<Rightarrow> blob_row \<Rightarrow> api_state \<Rightarrow> blob_answer handled" where
  "delete_blob env rq cx org i b st =
     (let f = (\<lambda>q. q\<lparr>bl_status := ''deleted'', bl_deletedAt := Some (av_now env), bl_updatedAt := av_now env\<rparr>)
      in conclude
           (move_item blob_table env rq cx i b ''deleted'' f (entity_spec ''blob_registration'' ''blob.deleted'' None) st)
           [emitApiBlobEvent env cx ''deleted'' org i (previous_status b)] (200, Row (BlobRow (f b))) st)"

definition blob_transitions :: "string \<Rightarrow> string \<Rightarrow> blob_row \<Rightarrow> api_state \<Rightarrow> blob_answer handled" where
  "blob_transitions org i b st =
     (bindE (validNextStates loaded_machines SM_blob (bl_status b)) (\<lambda>nexts.
      bindE (isTerminal loaded_machines SM_blob (bl_status b)) (\<lambda>t.
        Inr (200, Json (JObj [(''currentState'', JStr (bl_status b)), (''isTerminal'', JBool t),
          (''availableTransitions'', JArr (map (\<lambda>(s, ty). JObj [(''to'', JStr s), (''type'', JStr (type_name ty))]) nexts))])))), st)"

definition export_blobs :: "string option \<Rightarrow> api_state \<Rightarrow> blob_answer handled" where
  "export_blobs org st =
     (let rows = filter (\<lambda>b. Some (bl_orgId b) = org) (db_blobs (ap_db st))
      in (Inr (200, Row (if length rows > 10000 then BlobExport (take 10000 rows) (Some (int (length rows)))
                         else BlobExport rows None)), st))"

section \<open>Bulk actions\<close>

datatype bulk_action = BulkArchive | BulkActivate | BulkDelete

fun action_name :: "bulk_action \<Rightarrow> string" where
  "action_name BulkArchive = ''archive''"
| "action_name BulkActivate = ''activate''"
| "action_name BulkDelete = ''delete''"

fun bulkActionToTransition :: "bulk_action \<Rightarrow> string" where
  "bulkActionToTransition BulkArchive = ''archived''"
| "bulkActionToTransition BulkActivate = ''tracked''"
| "bulkActionToTransition BulkDelete = ''deleted''"

definition moved_blob :: "api_env \<Rightarrow> string \<Rightarrow> blob_row \<Rightarrow> blob_row" where
  "moved_blob env target b = stamp target (av_now env) (b\<lparr>bl_status := target, bl_updatedAt := av_now env\<rparr>)"

record bulk_state =
  bk_results :: "item_result list"
  bk_succeeded :: "string list"
  bk_failed :: "(string \<times> string) list"
  bk_state :: api_state

fun error_text :: "thrown \<Rightarrow> string" where
  "error_text (ErrObj f c) = e_msg f"
| "error_text _ = ''Unknown error''"

definition set_result :: "string \<Rightarrow> string option \<Rightarrow> item_result list \<Rightarrow> item_result list" where
  "set_result i err = upd_first (\<lambda>r. ir_item_id r = i) (\<lambda>r. r\<lparr>ir_success := (err = None), ir_error := err\<rparr>)"

definition bulk_item :: "api_env \<Rightarrow> request_vars \<Rightarrow> string \<Rightarrow> string \<Rightarrow> blob_row \<Rightarrow> bulk_state \<Rightarrow> bulk_state" where
  "bulk_item env cx org target b s =
     (case validateTransition loaded_machines SM_blob (bl_status b) target False of
        Inl e \<Rightarrow> s\<lparr>bk_failed := bk_failed s @ [(bl_id b, error_text e)],
                   bk_results := set_result (bl_id b) (Some (error_text e)) (bk_results s)\<rparr>
      | Inr _ \<Rightarrow> s\<lparr>bk_state := record_events [emitApiBlobEvent env cx target org (bl_id b) (previous_status b)]
                       (et_update blob_table (bl_id b) (moved_blob env target) (bk_state s)),
                   bk_succeeded := bk_succeeded s @ [bl_id b],
                   bk_results := set_result (bl_id b) None (bk_results s)\<rparr>)"

definition first_results :: "string list \<Rightarrow> string set \<Rightarrow> item_result list" where
  "first_results ids found =
     map (\<lambda>i. \<lparr>ir_item_id = i, ir_success = (i \<in> found),
               ir_error = (if i \<in> found then None else Some ''Not found in organization'')\<rparr>) ids"

definition bulk_details :: "bulk_state \<Rightarrow> nat \<Rightarrow> json" where
  "bulk_details s n =
     JObj [(''succeeded'', JArr (map JStr (bk_succeeded s))),
           (''failed'', JArr (map (\<lambda>(i, e). JObj [(''id'', JStr i), (''error'', JStr e)]) (bk_failed s))),
           (''total'', JNum (int n))]"

text \<open>The answer of the database to the condition with the array is a parameter.\<close>

definition bulk_blobs ::
    "(string list \<Rightarrow> thrown + (string \<Rightarrow> bool)) \<Rightarrow> api_env \<Rightarrow> request \<Rightarrow> request_vars \<Rightarrow> bulk_action \<Rightarrow> string list
     \<Rightarrow> api_state \<Rightarrow> blob_answer handled" where
  "bulk_blobs any_of env rq cx action ids st =
     (case cx_orgId cx of
        None \<Rightarrow> (Inl undefined_arg, st)
      | Some org \<Rightarrow>
     (case any_of ids of
        Inl e \<Rightarrow> (Inl e, st)
      | Inr sel \<Rightarrow>
          (let rows = filter (\<lambda>b. bl_orgId b = org \<and> sel (bl_id b)) (db_blobs (ap_db st));
               name = action_name action
           in if rows = []
              then (Inr (207, Row (BulkPartial (partialFailure (cx_requestId cx)
                      (''No matching blobs found for action: '' @ name) (first_results ids {})))), st)
              else
                (let s = fold (bulk_item env cx org (bulkActionToTransition action)) rows
                       \<lparr>bk_results = first_results ids (bl_id ` set rows), bk_succeeded = [], bk_failed = [], bk_state = st\<rparr>;
                     st' = logAudit env rq cx (''blob.bulk.'' @ name) ''blob_registration'' None
                       (Some (bulk_details s (length ids))) (bk_state s);
                     ok = length (bk_succeeded s); bad = length (bk_failed s)
                 in (Inr (if bad = 0
                          then (202, Row (BulkDone (''Bulk '' @ name @ '' completed for '' @ show_nat ok @ '' blobs'')
                                  (bk_results s) (int ok) (int (length ids) - int ok)))
                          else if ok > 0
                          then (207, Row (BulkPartial (partialFailure (cx_requestId cx)
                                  (''Bulk '' @ name @ '': '' @ show_nat ok @ '' succeeded, '' @ show_nat bad @ '' failed'')
                                  (bk_results s))))
                          else (400, Row (BulkFailed (''Bulk '' @ name @ '': all '' @ show_nat bad @ '' items failed'')
                                  (bk_results s)))), st')))))"

section \<open>Routes\<close>

datatype blob_op =
    CreateBlob string "blob_input list"
  | GetBlob
  | PatchBlob "blob_input list"
  | DeleteBlob
  | BlobTransitions
  | ExportBlobs
  | BulkBlobs bulk_action "string list"

definition on_blob ::
    "request \<Rightarrow> request_vars \<Rightarrow> (string \<Rightarrow> string \<Rightarrow> blob_row \<Rightarrow> api_state \<Rightarrow> blob_answer handled)
     \<Rightarrow> api_state \<Rightarrow> blob_answer handled" where
  "on_blob rq cx k st = on_item blob_table ''Blob registration'' class_extra rq cx k st"

text \<open>A patch verifies the organization before it looks for the blob.\<close>

fun blob_handler ::
    "(string list \<Rightarrow> thrown + (string \<Rightarrow> bool)) \<Rightarrow> api_env \<Rightarrow> request \<Rightarrow> blob_op \<Rightarrow> request_vars \<Rightarrow> api_state
     \<Rightarrow> blob_answer handled" where
  "blob_handler any_of env rq (CreateBlob i fs) cx st = create_blob env rq cx i fs st"
| "blob_handler any_of env rq GetBlob cx st = on_blob rq cx get_blob st"
| "blob_handler any_of env rq (PatchBlob fs) cx st =
     (case verifyOrgChain (cx_orgId cx) of
        Inl e \<Rightarrow> (Inl e, st) | Inr _ \<Rightarrow> on_blob rq cx (patch_blob env rq cx fs) st)"
| "blob_handler any_of env rq DeleteBlob cx st = on_blob rq cx (delete_blob env rq cx) st"
| "blob_handler any_of env rq BlobTransitions cx st = on_blob rq cx blob_transitions st"
| "blob_handler any_of env rq ExportBlobs cx st = export_blobs (cx_orgId cx) st"
| "blob_handler any_of env rq (BulkBlobs a ids) cx st = bulk_blobs any_of env rq cx a ids st"

fun blob_guards :: "blob_op \<Rightarrow> guard list" where
  "blob_guards (CreateBlob _ _) = [GAuth, GOrg, GRole [''owner'', ''admin'', ''member'']]"
| "blob_guards (PatchBlob _) = [GAuth, GOrg, GRole [''owner'', ''admin'', ''member'']]"
| "blob_guards GetBlob = [GAuth, GOrg]"
| "blob_guards BlobTransitions = [GAuth, GOrg]"
| "blob_guards _ = [GAuth, GOrg, GRole [''owner'', ''admin'']]"

fun blob_op_ok :: "blob_op \<Rightarrow> bool" where
  "blob_op_ok (CreateBlob i fs) = blob_body_ok i fs"
| "blob_op_ok (PatchBlob fs) = blob_patch_ok fs"
| "blob_op_ok (BulkBlobs a ids) = (list_all is_uuid ids \<and> 1 \<le> length ids \<and> length ids \<le> 100)"
| "blob_op_ok _ = True"

definition blob_request ::
    "(string list \<Rightarrow> thrown + (string \<Rightarrow> bool)) \<Rightarrow> api_env \<Rightarrow> string \<Rightarrow> request \<times> blob_op \<Rightarrow> api_state
     \<Rightarrow> blob_answer body reply \<times> api_state" where
  "blob_request any_of env rid x st =
     (case x of (rq, op) \<Rightarrow> serve env rid (blob_guards op) rq (blob_op_ok op) (blob_handler any_of env rq op) st)"

section \<open>Facts\<close>

lemma blob_table_simps [simp]:
  "et_machine blob_table = SM_blob" "et_id blob_table = bl_id" "et_status blob_table = bl_status"
  "et_rows blob_table s = db_blobs (ap_db s)" "et_update blob_table i f = write_db (upd_blobs (\<lambda>b. bl_id b = i) f)"
  by (simp_all add: blob_table_def)

lemma stamp_frame [simp]:
  "bl_id (stamp s t b) = bl_id b" "bl_status (stamp s t b) = bl_status b" "bl_orgId (stamp s t b) = bl_orgId b"
  "bl_blobId (stamp s t b) = bl_blobId b"
  by (simp_all add: stamp_def)

lemma set_blob_field_frame [simp]:
  "bl_id (fold set_blob_field fs b) = bl_id b" "bl_blobId (fold set_blob_field fs b) = bl_blobId b"
  "bl_orgId (fold set_blob_field fs b) = bl_orgId b"
proof -
  have "bl_id (set_blob_field f c) = bl_id c" "bl_blobId (set_blob_field f c) = bl_blobId c"
    "bl_orgId (set_blob_field f c) = bl_orgId c" for f c
    by (cases f; simp)+
  then show "bl_id (fold set_blob_field fs b) = bl_id b" "bl_blobId (fold set_blob_field fs b) = bl_blobId b"
    "bl_orgId (fold set_blob_field fs b) = bl_orgId b"
    by (induction fs arbitrary: b) simp_all
qed

lemma status_keys: "''status'' \<notin> set (map (fst \<circ> blob_pair) fs) \<Longrightarrow> asked_status fs = None"
proof (induction fs)
  case (Cons f fs) then show ?case by (cases f) simp_all
qed simp

lemma fold_status:
  assumes "distinct (map (fst \<circ> blob_pair) fs)"
  shows "bl_status (fold set_blob_field fs b) = (case asked_status fs of Some s \<Rightarrow> s | None \<Rightarrow> bl_status b)"
  using assms
proof (induction fs arbitrary: b)
  case (Cons f fs)
  then show ?case by (cases f) (simp_all add: status_keys split: option.split)
qed simp

lemma wanted_status_fold:
  assumes "blob_patch_ok fs"
  shows "bl_status (fold set_blob_field fs b) = (case wanted_status fs b of Some s \<Rightarrow> s | None \<Rightarrow> bl_status b)"
proof -
  have "s \<noteq> []" if "asked_status fs = Some s" for s
  proof -
    have "list_all blob_field_ok fs" using assms by (simp add: blob_patch_ok_def)
    then show ?thesis using that
    proof (induction fs)
      case (Cons f fs) then show ?case by (cases f) (auto simp: status_names_def)
    qed simp
  qed
  moreover have "bl_status (fold set_blob_field fs b) = (case asked_status fs of Some s \<Rightarrow> s | None \<Rightarrow> bl_status b)"
    using assms by (simp add: fold_status blob_patch_ok_def)
  ultimately show ?thesis
    by (cases "asked_status fs") (auto simp: wanted_status_def truthy_def split: list.split)
qed

lemma patched_frame [simp]:
  "bl_id (patched env fs target b) = bl_id b" "bl_blobId (patched env fs target b) = bl_blobId b"
  "bl_status (patched env fs target b) = bl_status (fold set_blob_field fs b)"
  by (simp_all add: patched_def Let_def split: option.split)

lemma moved_simps [simp]:
  "bl_id (moved_blob env t b) = bl_id b" "bl_status (moved_blob env t b) = t" "bl_blobId (moved_blob env t b) = bl_blobId b"
  "bl_orgId (moved_blob env t b) = bl_orgId b"
  by (simp_all add: moved_blob_def)

lemma insert_blob_ok:
  "insert_blob b st = Inr st' \<Longrightarrow> bl_id b \<notin> bl_id ` set (db_blobs (ap_db st))
     \<and> bl_blobId b \<notin> bl_blobId ` set (db_blobs (ap_db st)) \<and> st' = write_db (\<lambda>d. d\<lparr>db_blobs := db_blobs d @ [b]\<rparr>) st"
  by (auto simp: insert_blob_def split: if_splits)

lemma manual_transition_ok: "manual_transition a b = Inr u \<Longrightarrow> step_ok SM_blob a b"
  by (auto simp: manual_transition_def bindE_def step_ok_def split: sum.splits)

subsection \<open>The machine\<close>

lemma create_blob_steps:
  assumes "blob_body_ok i fs"
  shows "key_steps SM_blob {''discovered''} (keys_of blob_table st) (keys_of blob_table (snd (create_blob env rq cx i fs st)))"
proof -
  have "key_steps SM_blob {''discovered''} (keys_of blob_table st) (keys_of blob_table st1)"
    if "insert_blob b st = Inr st1" "bl_status b = ''discovered''" for b st1
    using insert_blob_ok [OF that(1)] that(2) by (intro blobs.append_steps [of _ _ b]) auto
  moreover have "bl_status (fold set_blob_field fs (new_blob j now org p k)) = ''discovered''" for j now org p k
    using assms by (simp add: fold_status status_keys blob_body_ok_def blob_patch_ok_def) (simp add: new_blob_def)
  ultimately show ?thesis
    by (auto simp: create_blob_def Let_def intro!: blobs.write_steps split: sum.split)
qed

lemma update_blob_keys:
  assumes "distinct (map bl_id (db_blobs (ap_db st)))" and "find_entity blob_table st org i = Some b"
    and "blob_patch_ok fs" and "target = wanted_status fs b"
  shows "keys_of blob_table (write_db (upd_blobs (\<lambda>b. bl_id b = i) (patched env fs target)) st)
    = (case target of Some s \<Rightarrow> set_key i s (keys_of blob_table st) | None \<Rightarrow> keys_of blob_table st)"
proof -
  have "x = b" if "x \<in> set (db_blobs (ap_db st))" "bl_id x = i" for x
    using that assms(1,2) by (auto simp: find_entity_def distinct_map inj_on_def dest!: first_row_filter_SomeD)
  then have "bl_status (fold set_blob_field fs x) = (case target of Some s \<Rightarrow> s | None \<Rightarrow> bl_status x)"
    if "x \<in> set (db_blobs (ap_db st))" "bl_id x = i" for x
    using that wanted_status_fold [OF assms(3)] assms(4) by simp
  then show ?thesis
    by (cases target) (auto simp: keys_of_def upd_blobs_def sql_update_def set_key_def)
qed

lemma patch_blob_steps:
  assumes "distinct (map bl_id (db_blobs (ap_db st)))" and "find_entity blob_table st org i = Some b" and "blob_patch_ok fs"
  shows "key_steps SM_blob S (keys_of blob_table st) (keys_of blob_table (snd (patch_blob env rq cx fs org i b st)))"
proof -
  have writes: "key_steps SM_blob S (keys_of blob_table s) (keys_of blob_table (snd (update_blob env rq cx fs target i b s)))"
    if "target = wanted_status fs b" "\<And>t. target = Some t \<Longrightarrow> step_ok SM_blob (bl_status b) t"
      "distinct (map bl_id (db_blobs (ap_db s)))" "find_entity blob_table s org i = Some b" for target s
    unfolding update_blob_def
  proof (rule blobs.write_steps)
    fix st1 assume "(if project_exists (bl_projectId (patched env fs target b)) s
      then Inr (et_update blob_table i (patched env fs target) s) else Inl (foreign_key_error ''blob_registrations'')) = Inr st1"
    then have st1: "st1 = write_db (upd_blobs (\<lambda>b. bl_id b = i) (patched env fs target)) s" by (auto split: if_splits)
    have key: "(i, bl_status b) \<in> set (keys_of blob_table s)" using find_entity_key [OF that(4)] by simp
    show "key_steps SM_blob S (keys_of blob_table s) (keys_of blob_table st1)"
      unfolding st1 update_blob_keys [OF that(3,4) assms(3) that(1)]
      using that(2) key_step.move [OF key] by (cases target) auto
  qed
  have "find_entity blob_table (record_events es st) org i = Some b" for es
    using assms(2) by (simp add: find_entity_def blobs.rows_events del: blob_table_simps)
  then show ?thesis
    using writes [of None st] writes [of _ "record_events _ st"] assms(1,2) manual_transition_ok
    by (auto simp: patch_blob_def split: option.split sum.split)
qed

subsection \<open>Bulk actions\<close>

lemma bulk_item_simps:
  "step_ok SM_blob (bl_status b) target \<Longrightarrow> bulk_item env cx org target b s =
     s\<lparr>bk_state := record_events [emitApiBlobEvent env cx target org (bl_id b) (previous_status b)]
          (et_update blob_table (bl_id b) (moved_blob env target) (bk_state s)),
       bk_succeeded := bk_succeeded s @ [bl_id b], bk_results := set_result (bl_id b) None (bk_results s)\<rparr>"
  "\<not> step_ok SM_blob (bl_status b) target \<Longrightarrow> \<exists>e. bulk_item env cx org target b s =
     s\<lparr>bk_failed := bk_failed s @ [(bl_id b, e)], bk_results := set_result (bl_id b) (Some e) (bk_results s)\<rparr>"
  by (auto simp: bulk_item_def step_ok_def is_ok_def split: sum.splits)

lemma bulk_items_steps:
  assumes "distinct (map bl_id rows)" and "\<forall>b \<in> set rows. (bl_id b, bl_status b) \<in> set (keys_of blob_table (bk_state s))"
  shows "key_steps SM_blob S (keys_of blob_table (bk_state s))
    (keys_of blob_table (bk_state (fold (bulk_item env cx org target) rows s)))"
  using assms
proof (induction rows arbitrary: s)
  case (Cons b rows)
  let ?s = "bulk_item env cx org target b s"
  show ?case
  proof (cases "step_ok SM_blob (bl_status b) target")
    case True
    then have keys: "keys_of blob_table (bk_state ?s) = set_key (bl_id b) target (keys_of blob_table (bk_state s))"
      by (simp add: bulk_item_simps blobs.keys_update [simplified blob_table_simps])
    have step: "key_step SM_blob S (keys_of blob_table (bk_state s)) (keys_of blob_table (bk_state ?s))"
      unfolding keys using Cons.prems(2) True by (intro key_step.move [of _ "bl_status b"]) auto
    have "(bl_id x, bl_status x) \<in> set (keys_of blob_table (bk_state ?s))" if "x \<in> set rows" for x
    proof -
      have "bl_id x \<noteq> bl_id b" using Cons.prems(1) that by (auto simp: rev_image_eqI)
      with Cons.prems(2) that show ?thesis unfolding keys by (simp add: set_key_mem)
    qed
    with Cons.IH [of ?s] Cons.prems(1) step show ?thesis by (auto intro: converse_rtranclp_into_rtranclp)
  next
    case False
    then have "bk_state ?s = bk_state s" using bulk_item_simps(2) [of b target env cx org s] by auto
    with Cons.IH [of ?s] Cons.prems show ?thesis by auto
  qed
qed simp

lemma bulk_blobs_steps:
  assumes "distinct (map bl_id (db_blobs (ap_db st)))"
  shows "key_steps SM_blob S (keys_of blob_table st) (keys_of blob_table (snd (bulk_blobs any_of env rq cx action ids st)))"
proof -
  have "key_steps SM_blob S (keys_of blob_table st) (keys_of blob_table (bk_state
      (fold (bulk_item env cx org t) (filter p (db_blobs (ap_db st)))
         \<lparr>bk_results = rs, bk_succeeded = [], bk_failed = [], bk_state = st\<rparr>)))" for org t p rs
    using bulk_items_steps [of "filter p (db_blobs (ap_db st))" "\<lparr>bk_results = rs, bk_succeeded = [], bk_failed = [], bk_state = st\<rparr>"]
      assms by (auto simp: distinct_map_filter keys_of_def)
  then show ?thesis by (auto simp: bulk_blobs_def Let_def split: option.split sum.split)
qed

text \<open>The effect of the loop on the rows and on the report.\<close>

lemma moved_again: "moved_blob env t (moved_blob env t b) = moved_blob env t b"
  by (simp add: moved_blob_def stamp_def)

lemma bulk_items_rows:
  "db_blobs (ap_db (bk_state (fold (bulk_item env cx org target) rows s)))
    = map (\<lambda>x. if \<exists>b \<in> set rows. bl_id b = bl_id x \<and> step_ok SM_blob (bl_status b) target then moved_blob env target x else x)
        (db_blobs (ap_db (bk_state s)))"
proof (induction rows arbitrary: s)
  case (Cons b rows)
  show ?case
  proof (cases "step_ok SM_blob (bl_status b) target")
    case True
    then show ?thesis
      by (auto simp: Cons.IH bulk_item_simps upd_blobs_def sql_update_def moved_again)
  next
    case False
    then have "bk_state (bulk_item env cx org target b s) = bk_state s"
      using bulk_item_simps(2) [of b target env cx org s] by auto
    with False show ?thesis by (auto simp: Cons.IH)
  qed
qed simp

lemma upd_first_key:
  assumes "distinct (map k xs)" and "\<And>x. k (f x) = k x"
  shows "upd_first (\<lambda>x. k x = i) f xs = map (\<lambda>x. if k x = i then f x else x) xs"
  using assms(1)
proof (induction xs)
  case (Cons x xs)
  have "map (\<lambda>y. if k y = i then f y else y) xs = xs" if "k x = i"
    using Cons.prems that by (intro map_idI) (auto simp: rev_image_eqI)
  with Cons show ?case by simp
qed simp

definition report :: "item_result list \<Rightarrow> (string \<times> bool) list" where
  "report rs = map (\<lambda>r. (ir_item_id r, ir_success r)) rs"

lemma report_set_result:
  assumes "distinct (map fst (report rs))"
  shows "report (set_result i err rs) = map (\<lambda>(j, s). (j, if j = i then err = None else s)) (report rs)"
proof -
  have "distinct (map ir_item_id rs)" using assms by (simp add: report_def comp_def)
  then show ?thesis by (auto simp: set_result_def upd_first_key report_def)
qed

lemma bulk_items_report:
  assumes "distinct (map bl_id rows)" and "distinct (map fst (report (bk_results s)))"
  shows "report (bk_results (fold (bulk_item env cx org target) rows s))
    = map (\<lambda>(i, ok). (i, if i \<in> bl_id ` set rows
        then \<exists>b \<in> set rows. bl_id b = i \<and> step_ok SM_blob (bl_status b) target else ok)) (report (bk_results s))"
  using assms
proof (induction rows arbitrary: s)
  case (Cons b rows)
  let ?s = "bulk_item env cx org target b s"
  have r: "report (bk_results ?s) = map (\<lambda>(j, ok). (j, if j = bl_id b then step_ok SM_blob (bl_status b) target else ok)) (report (bk_results s))"
  proof (cases "step_ok SM_blob (bl_status b) target")
    case True
    then show ?thesis using Cons.prems(2) by (auto simp: bulk_item_simps report_set_result)
  next
    case False
    then obtain e where "bk_results ?s = set_result (bl_id b) (Some e) (bk_results s)"
      using bulk_item_simps(2) [of b target env cx org s] by auto
    with False Cons.prems(2) show ?thesis by (auto simp: report_set_result)
  qed
  have d: "distinct (map fst (report (bk_results ?s)))"
    using Cons.prems(2) by (simp add: r comp_def case_prod_beta)
  have fresh: "bl_id b \<notin> bl_id ` set rows" using Cons.prems(1) by simp
  have elem: "(if i \<in> bl_id ` set rows then \<exists>x \<in> set rows. bl_id x = i \<and> step_ok SM_blob (bl_status x) target
         else if i = bl_id b then step_ok SM_blob (bl_status b) target else ok)
      = (if i \<in> bl_id ` set (b # rows) then \<exists>x \<in> set (b # rows). bl_id x = i \<and> step_ok SM_blob (bl_status x) target else ok)" for i ok
  proof (cases "i = bl_id b")
    case True
    with fresh have "\<not> (\<exists>x \<in> set rows. bl_id x = i \<and> step_ok SM_blob (bl_status x) target)" by (metis image_eqI)
    with True fresh show ?thesis by (simp, blast)
  next
    case False
    then show ?thesis by auto
  qed
  let ?F = "\<lambda>rows (i, ok). (i, if i \<in> bl_id ` set rows
      then \<exists>b \<in> set rows. bl_id b = i \<and> step_ok SM_blob (bl_status b) target else ok)"
  have "report (bk_results (fold (bulk_item env cx org target) (b # rows) s)) = map (?F rows) (report (bk_results ?s))"
    using Cons.IH [OF _ d] Cons.prems(1) by simp
  also have "\<dots> = map (?F (b # rows)) (report (bk_results s))"
    unfolding r map_map
  proof (rule map_cong [OF refl])
    fix x :: "string \<times> bool"
    obtain i ok where x: "x = (i, ok)" by (cases x)
    show "(?F rows \<circ> (\<lambda>(j, ok). (j, if j = bl_id b then step_ok SM_blob (bl_status b) target else ok))) x = ?F (b # rows) x"
      unfolding x comp_def prod.case elem ..
  qed
  finally show ?case .
qed (simp add: report_def)

lemma bulk_items_length:
  "length (bk_succeeded (fold (bulk_item env cx org target) rows s)) + length (bk_failed (fold (bulk_item env cx org target) rows s))
    = length (bk_succeeded s) + length (bk_failed s) + length rows"
proof (induction rows arbitrary: s)
  case (Cons b rows)
  have "length (bk_succeeded (bulk_item env cx org target b s)) + length (bk_failed (bulk_item env cx org target b s))
      = Suc (length (bk_succeeded s) + length (bk_failed s))"
    using bulk_item_simps [of b target env cx org s] by (cases "step_ok SM_blob (bl_status b) target") auto
  then show ?case by (simp add: Cons.IH)
qed simp

subsection \<open>Requests\<close>

lemma delete_blob_steps:
  assumes "find_entity blob_table st org i = Some b"
  shows "key_steps SM_blob S (keys_of blob_table st) (keys_of blob_table (snd (delete_blob env rq cx org i b st)))"
  unfolding delete_blob_def Let_def by (rule blobs.move_steps [OF assms, simplified blob_table_simps]) simp

lemma blob_handler_steps:
  assumes "blob_op_ok op" and "distinct (map bl_id (db_blobs (ap_db st)))"
  shows "key_steps SM_blob {''discovered''} (keys_of blob_table st) (keys_of blob_table (snd (blob_handler any_of env rq op cx st)))"
proof (cases op)
  case (PatchBlob fs)
  with assms(1) have "key_steps SM_blob {''discovered''} (keys_of blob_table st)
      (keys_of blob_table (snd (on_blob rq cx (patch_blob env rq cx fs) st)))"
    unfolding on_blob_def by (intro on_item_steps patch_blob_steps [OF assms(2)]) auto
  with PatchBlob show ?thesis by (simp split: sum.split)
qed (use assms in \<open>simp_all add: create_blob_steps delete_blob_steps bulk_blobs_steps on_blob_def on_item_steps get_blob_def
      blob_transitions_def export_blobs_def Let_def\<close>)

lemma blob_request_steps:
  assumes "distinct (map bl_id (db_blobs (ap_db st)))"
  shows "key_steps SM_blob {''discovered''} (keys_of blob_table st) (keys_of blob_table (snd (blob_request any_of env rid (rq, op) st)))"
proof -
  have frame: "keys_of blob_table (st\<lparr>ap_access := d\<rparr>) = keys_of blob_table st" for d by (rule blobs.keys_frames(3))
  have "key_steps SM_blob {''discovered''} (keys_of blob_table st)
      (keys_of blob_table (snd (blob_handler any_of env rq op cx (st\<lparr>ap_access := d\<rparr>))))" if "blob_op_ok op" for cx d
    using blob_handler_steps [OF that, of "st\<lparr>ap_access := d\<rparr>"] assms by (simp add: frame)
  then show ?thesis unfolding blob_request_def prod.case
    by (intro serve_ok_cases [where P = "\<lambda>s. key_steps SM_blob {''discovered''} (keys_of blob_table st) (keys_of blob_table s)"])
      (auto simp: frame)
qed

lemma keys_distinct_blobs: "distinct (map fst (keys_of blob_table s)) \<longleftrightarrow> distinct (map bl_id (db_blobs (ap_db s)))"
  by (simp add: keys_of_def comp_def)

subsection \<open>One registration per blob\<close>

lemma blob_ids_update: "(\<And>b. bl_blobId (f b) = bl_blobId b) \<Longrightarrow>
    map bl_blobId (db_blobs (upd_blobs p f d)) = map bl_blobId (db_blobs d)"
  by (simp add: upd_blobs_def sql_update_def)

lemma manual_targets:
  "\<forall>t \<in> set (sm_transitions blob_machine). tr_type t = Manual \<longrightarrow>
    tr_to t \<in> {''archived'', ''deleted''} \<or> tr_from t = ''expiring'' \<and> tr_to t = ''renewing''"
  by (simp add: blob_machine_def)

lemma manual_edges: "manual_transition a b = Inr u \<Longrightarrow> b \<in> {''archived'', ''deleted''}"
proof -
  assume "manual_transition a b = Inr u"
  then obtain t where t: "validateTransition loaded_machines SM_blob a b False = Inr t" "tr_type t = Manual"
    by (auto simp: manual_transition_def bindE_def split: sum.splits if_splits)
  from t(1) have found: "find (\<lambda>t. tr_from t = a \<and> tr_to t = b) (sm_transitions blob_machine) = Some t"
    by (auto simp: validateTransition_def bindE_def Let_def split: if_splits option.splits sum.splits)
  then have "t \<in> set (sm_transitions blob_machine)" "tr_from t = a" "tr_to t = b"
    by (auto simp: find_Some_iff in_set_conv_nth)
  moreover have "\<not> (a = ''expiring'' \<and> b = ''renewing'')"
    using found t(2) by (auto simp: blob_machine_def)
  ultimately show ?thesis using manual_targets t(2) by blast
qed

text \<open>What one route adds or moves keeps the blob identifiers distinct.\<close>

definition registered_once :: "api_state \<Rightarrow> bool" where
  "registered_once st \<longleftrightarrow> distinct (map bl_blobId (db_blobs (ap_db st)))"

lemma registered_once_frames [simp]:
  "registered_once (add_audit a st) = registered_once st" "registered_once (record_events es st) = registered_once st"
  "registered_once (st\<lparr>ap_access := d\<rparr>) = registered_once st"
  by (simp_all add: registered_once_def add_audit_def)

lemma registered_once_update:
  "(\<And>b. bl_blobId (f b) = bl_blobId b) \<Longrightarrow> registered_once (write_db (upd_blobs p f) st) = registered_once st"
  by (simp only: registered_once_def ap_write_db blob_ids_update)

lemma registered_once_insert: "insert_blob b st = Inr st1 \<Longrightarrow> registered_once st \<Longrightarrow> registered_once st1"
  by (auto simp: registered_once_def dest!: insert_blob_ok)

lemma registered_once_write:
  assumes "registered_once st" and "\<And>st1. fn st = Inr st1 \<Longrightarrow> registered_once st1"
  shows "registered_once (snd (conclude (with_audit env rq cx fn spec i st) es ans st))"
proof (cases "with_audit env rq cx fn spec i st")
  case (Inr st')
  then obtain st1 row where "fn st = Inr st1" "st' = add_audit row st1" using with_audit_ok by blast
  with Inr assms(2) show ?thesis by (simp add: conclude_def)
qed (simp add: conclude_def assms(1))

lemma registered_once_bulk_items:
  "registered_once (bk_state (fold (bulk_item env cx org target) rows s)) = registered_once (bk_state s)"
proof (induction rows arbitrary: s)
  case (Cons b rows)
  have "registered_once (bk_state (bulk_item env cx org target b s)) = registered_once (bk_state s)"
    by (simp add: bulk_item_def registered_once_update split: sum.split)
  then show ?case by (simp add: Cons.IH)
qed simp

lemma registered_once_logAudit [simp]: "registered_once (logAudit env rq cx a ty i ds st) = registered_once st"
  by (simp add: logAudit_def split: sum.split)

lemma registered_once_update_blob: "registered_once st \<Longrightarrow> registered_once (snd (update_blob env rq cx fs target i b st))"
  unfolding update_blob_def by (rule registered_once_write) (auto simp: registered_once_update split: if_splits)

lemma registered_once_delete: "registered_once st \<Longrightarrow> registered_once (snd (delete_blob env rq cx org i b st))"
  unfolding delete_blob_def Let_def
  by (rule move_item_cases, assumption, rule registered_once_write) (auto simp: registered_once_update)

lemma blob_handler_registered_once:
  assumes "registered_once st"
  shows "registered_once (snd (blob_handler any_of env rq op cx st))"
proof -
  have patch: "registered_once (snd (patch_blob env rq cx fs org i b st))" for fs org i b
    using assms by (auto simp: patch_blob_def registered_once_update_blob split: option.split sum.split)
  have create: "registered_once (snd (create_blob env rq cx i fs st))" for i fs
    using assms by (auto simp: create_blob_def Let_def intro: registered_once_write registered_once_insert split: sum.split)
  have bulk: "registered_once (snd (bulk_blobs any_of env rq cx a ids st))" for a ids
    using assms by (simp add: bulk_blobs_def Let_def registered_once_bulk_items split: option.split sum.split)
  show ?thesis
    by (cases op)
      (auto simp: create bulk on_blob_def get_blob_def blob_transitions_def export_blobs_def Let_def assms
        intro!: on_item_cases [of registered_once] patch registered_once_delete split: sum.split)
qed

fun answer_results :: "blob_answer \<Rightarrow> item_result list" where
  "answer_results (BulkDone m rs p k) = rs"
| "answer_results (BulkFailed m rs) = rs"
| "answer_results (BulkPartial r) = or_default (eb_results (hr_body r)) []"
| "answer_results _ = []"

definition bulk_hits :: "bulk_action \<Rightarrow> string \<Rightarrow> string list \<Rightarrow> blob_row \<Rightarrow> bool" where
  "bulk_hits action org ids b \<longleftrightarrow>
     bl_orgId b = org \<and> bl_id b \<in> set ids \<and> step_ok SM_blob (bl_status b) (bulkActionToTransition action)"

definition bulk_rows :: "string \<Rightarrow> string list \<Rightarrow> api_state \<Rightarrow> blob_row list" where
  "bulk_rows org ids st = filter (\<lambda>b. bl_orgId b = org \<and> bl_id b \<in> set ids) (db_blobs (ap_db st))"

lemma bulk_moves:
  assumes "any_of ids = Inr (\<lambda>i. i \<in> set ids)" and "cx_orgId cx = Some org" and "distinct (map bl_id (db_blobs (ap_db st)))"
  shows "db_blobs (ap_db (snd (bulk_blobs any_of env rq cx action ids st)))
      = map (\<lambda>b. if bulk_hits action org ids b then moved_blob env (bulkActionToTransition action) b else b) (db_blobs (ap_db st))"
proof -
  let ?t = "bulkActionToTransition action" and ?rows = "bulk_rows org ids st"
  let ?last = "fold (bulk_item env cx org ?t) ?rows
    \<lparr>bk_results = first_results ids (bl_id ` set ?rows), bk_succeeded = [], bk_failed = [], bk_state = st\<rparr>"
  have same: "x = b" if "x \<in> set (db_blobs (ap_db st))" "b \<in> set (db_blobs (ap_db st))" "bl_id b = bl_id x" for x b
    using that assms(3) by (auto simp: distinct_map inj_on_def)
  have rows: "db_blobs (ap_db (bk_state ?last)) = map (\<lambda>b. if bulk_hits action org ids b then moved_blob env ?t b else b) (db_blobs (ap_db st))"
    unfolding bulk_items_rows using same by (auto simp: bulk_hits_def bulk_rows_def)
  have none: "map (\<lambda>b. if bulk_hits action org ids b then moved_blob env ?t b else b) (db_blobs (ap_db st)) = db_blobs (ap_db st)" if "?rows = []"
    using that by (intro map_idI) (auto simp: bulk_hits_def bulk_rows_def filter_empty_conv)
  have "db_blobs (ap_db (snd (bulk_blobs any_of env rq cx action ids st)))
      = (if ?rows = [] then db_blobs (ap_db st) else db_blobs (ap_db (bk_state ?last)))"
    using assms(1,2) by (simp add: bulk_blobs_def Let_def bulk_rows_def)
  with rows none show ?thesis by presburger
qed

lemma bulk_reports:
  assumes "any_of ids = Inr (\<lambda>i. i \<in> set ids)" and "cx_orgId cx = Some org"
    and "distinct (map bl_id (db_blobs (ap_db st)))" and "distinct ids"
  shows "\<exists>code a. fst (bulk_blobs any_of env rq cx action ids st) = Inr (code, Row a)
      \<and> report (answer_results a) = map (\<lambda>i. (i, \<exists>b \<in> set (db_blobs (ap_db st)). bl_id b = i \<and> bulk_hits action org ids b)) ids"
proof -
  let ?t = "bulkActionToTransition action" and ?rows = "bulk_rows org ids st"
  let ?init = "\<lparr>bk_results = first_results ids (bl_id ` set ?rows), bk_succeeded = [], bk_failed = [], bk_state = st\<rparr>"
  let ?last = "fold (bulk_item env cx org ?t) ?rows ?init"
  let ?verdicts = "map (\<lambda>i. (i, \<exists>b \<in> set (db_blobs (ap_db st)). bl_id b = i \<and> bulk_hits action org ids b)) ids"
  have "distinct (map bl_id ?rows)" "distinct (map fst (report (bk_results ?init)))"
    using assms(3,4) by (simp_all add: bulk_rows_def distinct_map_filter report_def first_results_def comp_def)
  from bulk_items_report [OF this, of env cx org ?t]
  have report: "report (bk_results ?last) = ?verdicts"
    by (auto simp: report_def first_results_def bulk_hits_def bulk_rows_def)
  have none: "report (first_results ids {}) = ?verdicts" if "?rows = []"
    using that by (auto simp: report_def first_results_def bulk_hits_def bulk_rows_def filter_empty_conv)
  show ?thesis
  proof (cases "?rows = []")
    case True
    with none assms(1,2) show ?thesis by (simp add: bulk_blobs_def partialFailure_def bulk_rows_def)
  next
    case False
    with report assms(1,2) show ?thesis by (simp add: bulk_blobs_def Let_def partialFailure_def bulk_rows_def)
  qed
qed

section \<open>Properties\<close>

text \<open>
  C33: every sequence of requests to the blobs moves their statuses only along the edges of the state
  machine, the bulk actions included, and new blobs are discovered.
\<close>

theorem blob_requests_follow_machine:
  assumes "distinct (map bl_id (db_blobs (ap_db st)))"
  shows "key_steps SM_blob {''discovered''} (keys_of blob_table st)
    (keys_of blob_table (run_requests (blob_request any_of env) xs st))"
proof (rule run_requests_invariant [where I = "\<lambda>s. key_steps SM_blob {''discovered''} (keys_of blob_table st) (keys_of blob_table s)"])
  fix rid and x :: "request \<times> blob_op" and s
  obtain rq op where x: "x = (rq, op)" by (cases x)
  assume steps: "key_steps SM_blob {''discovered''} (keys_of blob_table st) (keys_of blob_table s)"
  have "distinct (map bl_id (db_blobs (ap_db s)))"
    using keys_distinct.reachable [OF steps] assms by (simp add: keys_distinct_blobs)
  from rtranclp_trans [OF steps blob_request_steps [OF this]]
  show "key_steps SM_blob {''discovered''} (keys_of blob_table st) (keys_of blob_table (snd (blob_request any_of env rid x s)))"
    by (simp add: x)
qed simp

theorem blob_requests_follow_machine_witness:
  "key_steps SM_blob {''discovered''} [(''b'', ''protected'')]
     (keys_of blob_table (run_requests (blob_request (\<lambda>ids. Inr (\<lambda>i. i \<in> set ids))
        \<lparr>av_access = sample_access_env, av_id = (\<lambda>t n. t), av_staleness = None\<rparr>) []
       \<lparr>ap_access = sample_db, ap_db = empty_db\<lparr>db_blobs := [(new_blob ''b'' 0 ''o'' ''p'' ''0x'')\<lparr>bl_status := ''protected''\<rparr>]\<rparr>,
        ap_projects = [], ap_delegations = [], ap_events = [], ap_invitations = []\<rparr>))"
  using blob_requests_follow_machine [of "\<lparr>ap_access = sample_db,
      ap_db = empty_db\<lparr>db_blobs := [(new_blob ''b'' 0 ''o'' ''p'' ''0x'')\<lparr>bl_status := ''protected''\<rparr>]\<rparr>,
      ap_projects = [], ap_delegations = [], ap_events = [], ap_invitations = []\<rparr>"
    "\<lambda>ids. Inr (\<lambda>i. i \<in> set ids)" "\<lparr>av_access = sample_access_env, av_id = (\<lambda>t n. t), av_staleness = None\<rparr>" "[]"]
  by (simp add: keys_of_def new_blob_def)

text \<open>
  No sequence of requests registers a blob twice, in whatever organizations.
\<close>

theorem blobs_registered_once:
  assumes "registered_once st"
  shows "registered_once (run_requests (blob_request any_of env) xs st)"
proof (rule run_requests_invariant [where I = registered_once, OF _ assms])
  fix rid and x :: "request \<times> blob_op" and s
  obtain rq op where x: "x = (rq, op)" by (cases x)
  assume "registered_once s"
  then show "registered_once (snd (blob_request any_of env rid x s))"
    unfolding x blob_request_def prod.case
    by (intro serve_cases [where P = registered_once]) (auto intro: blob_handler_registered_once)
qed

theorem blobs_registered_once_witness:
  "registered_once (run_requests (blob_request (\<lambda>ids. Inr (\<lambda>i. i \<in> set ids))
     \<lparr>av_access = sample_access_env, av_id = (\<lambda>t n. t), av_staleness = None\<rparr>)
     [(''r'', sample_request None, CreateBlob ''0x'' [BlProject (sample_uuid CHR ''1'')])]
     \<lparr>ap_access = sample_db, ap_db = empty_db\<lparr>db_blobs := [new_blob ''b'' 0 ''o'' ''p'' ''0x'']\<rparr>,
      ap_projects = [], ap_delegations = [], ap_events = [], ap_invitations = []\<rparr>)"
  by (rule blobs_registered_once) (simp add: registered_once_def)

text \<open>
  A bulk action moves exactly the requested blobs of the organization whose status has an edge to the target,
  by an automatic edge as well as by a manual one, and its report says so for every item.
\<close>

theorem bulk_spec:
  assumes "any_of ids = Inr (\<lambda>i. i \<in> set ids)" and "cx_orgId cx = Some org"
    and "distinct (map bl_id (db_blobs (ap_db st)))" and "distinct ids"
  shows "db_blobs (ap_db (snd (bulk_blobs any_of env rq cx action ids st)))
      = map (\<lambda>b. if bulk_hits action org ids b then moved_blob env (bulkActionToTransition action) b else b) (db_blobs (ap_db st))
    \<and> (\<exists>code a. fst (bulk_blobs any_of env rq cx action ids st) = Inr (code, Row a)
      \<and> report (answer_results a) = map (\<lambda>i. (i, \<exists>b \<in> set (db_blobs (ap_db st)). bl_id b = i \<and> bulk_hits action org ids b)) ids)"
  using bulk_moves [where any_of = any_of and ids = ids, OF assms(1-3)] bulk_reports [where any_of = any_of and ids = ids, OF assms] by simp

definition sample_blob_state :: api_state where
  "sample_blob_state =
     \<lparr>ap_access = sample_db,
      ap_db = empty_db\<lparr>db_blobs := [(new_blob ''a'' 0 ''o'' ''p'' ''0x1'')\<lparr>bl_status := ''protected''\<rparr>,
                                  (new_blob ''b'' 0 ''o'' ''p'' ''0x2'')\<lparr>bl_status := ''archived''\<rparr>]\<rparr>,
      ap_projects = [], ap_delegations = [], ap_events = [], ap_invitations = []\<rparr>"

abbreviation sample_blob_env :: api_env where
  "sample_blob_env \<equiv> \<lparr>av_access = sample_access_env, av_id = (\<lambda>t n. t), av_staleness = None\<rparr>"

abbreviation sample_any :: "string list \<Rightarrow> thrown + (string \<Rightarrow> bool)" where
  "sample_any \<equiv> \<lambda>ids. Inr (\<lambda>i. i \<in> set ids)"

abbreviation sample_member_vars :: request_vars where
  "sample_member_vars \<equiv> (fresh_vars ''r'')\<lparr>cx_orgId := Some ''o''\<rparr>"

lemma sample_blob_edges: "step_ok SM_blob ''protected'' ''tracked''" "\<not> step_ok SM_blob ''archived'' ''tracked''"
  by (simp_all add: step_ok_iff edges_def blob_machine_def)

theorem bulk_spec_witness:
  "map bl_status (db_blobs (ap_db (snd (bulk_blobs sample_any sample_blob_env (sample_request None) sample_member_vars
      BulkActivate [''a'', ''b'', ''c''] sample_blob_state)))) = [''tracked'', ''archived'']
   \<and> (\<exists>code a. fst (bulk_blobs sample_any sample_blob_env (sample_request None) sample_member_vars
        BulkActivate [''a'', ''b'', ''c''] sample_blob_state) = Inr (code, Row a)
      \<and> report (answer_results a) = [(''a'', True), (''b'', False), (''c'', False)])"
proof -
  have any: "sample_any [''a'', ''b'', ''c''] = Inr (\<lambda>i. i \<in> set [''a'', ''b'', ''c''])" by simp
  have org: "cx_orgId sample_member_vars = Some ''o''" by simp
  have d: "distinct (map bl_id (db_blobs (ap_db sample_blob_state)))" "distinct [''a'', ''b'', ''c'']"
    by (simp_all add: sample_blob_state_def new_blob_def)
  note spec = bulk_spec [where any_of = sample_any and ids = "[''a'', ''b'', ''c'']", OF any org d, of sample_blob_env "sample_request None" BulkActivate]
  show ?thesis using spec sample_blob_edges
    by (simp add: bulk_hits_def sample_blob_state_def new_blob_def)
qed

text \<open>
  The bulk activation is the reverse of what its name says: it moves protected, renewed and verified blobs to
  tracked, which takes protected blobs out of automatic renewal, and leaves archived and expired ones as they are.
\<close>

theorem bulk_activate_untracks:
  assumes "any_of ids = Inr (\<lambda>i. i \<in> set ids)" and "cx_orgId cx = Some org"
    and "distinct (map bl_id (db_blobs (ap_db st)))" and "distinct ids"
  shows "db_blobs (ap_db (snd (bulk_blobs any_of env rq cx BulkActivate ids st)))
    = map (\<lambda>b. if bl_orgId b = org \<and> bl_id b \<in> set ids \<and> bl_status b \<in> {''verified'', ''protected'', ''renewed''}
        then moved_blob env ''tracked'' b else b) (db_blobs (ap_db st))"
proof -
  have edges: "step_ok SM_blob s ''tracked'' \<longleftrightarrow> s \<in> {''verified'', ''protected'', ''renewed''}" for s
    by (auto simp: step_ok_iff edges_def blob_machine_def)
  have target: "bulkActionToTransition BulkActivate = ''tracked''" by simp
  show ?thesis
    unfolding bulk_moves [where any_of = any_of and ids = ids and action = BulkActivate, OF assms(1-3)]
      bulk_hits_def target edges ..
qed

theorem bulk_activate_untracks_witness:
  "map bl_status (db_blobs (ap_db (snd (bulk_blobs sample_any sample_blob_env (sample_request None) sample_member_vars
      BulkActivate [''a'', ''b''] sample_blob_state)))) = [''tracked'', ''archived'']"
proof -
  have any: "sample_any [''a'', ''b''] = Inr (\<lambda>i. i \<in> set [''a'', ''b''])" by simp
  have org: "cx_orgId sample_member_vars = Some ''o''" by simp
  have d: "distinct (map bl_id (db_blobs (ap_db sample_blob_state)))" "distinct [''a'', ''b'']"
    by (simp_all add: sample_blob_state_def new_blob_def)
  show ?thesis using bulk_activate_untracks [where any_of = sample_any and ids = "[''a'', ''b'']", OF any org d, of sample_blob_env "sample_request None"]
    by (simp add: sample_blob_state_def new_blob_def)
qed

text \<open>
  The transitions a caller may ask for by a patch are the archive and the deletion: the manual renewal of an
  expiring blob, which the table lists behind the automatic one, is refused as automatic.
\<close>

theorem patch_archives_or_deletes:
  "manual_transition a b = Inr () \<Longrightarrow> b \<in> {''archived'', ''deleted''}"
  and "\<exists>e. manual_transition ''expiring'' ''renewing'' = Inl e"
proof -
  show "manual_transition a b = Inr () \<Longrightarrow> b \<in> {''archived'', ''deleted''}" by (rule manual_edges)
  show "\<exists>e. manual_transition ''expiring'' ''renewing'' = Inl e"
  proof (cases "manual_transition ''expiring'' ''renewing''")
    case (Inr u)
    from manual_edges [OF this] show ?thesis by simp
  qed blast
qed

theorem patch_archives_or_deletes_witness:
  "manual_transition ''tracked'' ''archived'' = Inr () \<and> (''archived'' :: string) \<in> {''archived'', ''deleted''}"
proof -
  have ok: "manual_transition ''tracked'' ''archived'' = Inr ()"
    by (simp add: manual_transition_def validateTransition_def bindE_def Let_def blob_machine_def)
  show ?thesis using ok patch_archives_or_deletes(1) [OF ok] by blast
qed

text \<open>An export is at most ten thousand rows, all of them rows of the organization.\<close>

theorem export_bounded:
  "\<exists>rows n. fst (export_blobs (Some org) st) = Inr (200, Row (BlobExport rows n)) \<and> length rows \<le> 10000
    \<and> (\<forall>b \<in> set rows. b \<in> set (db_blobs (ap_db st)) \<and> bl_orgId b = org)
    \<and> (n = None \<longrightarrow> rows = filter (\<lambda>b. bl_orgId b = org) (db_blobs (ap_db st)))"
  by (auto simp: export_blobs_def Let_def dest: in_set_takeD)

end
