(* ===== verification/Project_Routes.thy ===== *)
theory Project_Routes
  imports Route_Base
begin

text \<open>
  Projects over the API, \<open>api/src/routes/projects.ts\<close>: creation, the item routes behind the router's own check of
  the organization, and the archive, deletion and restoration. The two lists are in List\_Routes.
\<close>

section \<open>Inputs\<close>

datatype project_input =
    PjName string
  | PjSlug string
  | PjDescription string
  | PjEnvironment string

fun project_pair :: "project_input \<Rightarrow> string \<times> json" where
  "project_pair (PjName s) = (''name'', JStr s)"
| "project_pair (PjSlug s) = (''slug'', JStr s)"
| "project_pair (PjDescription s) = (''description'', JStr s)"
| "project_pair (PjEnvironment s) = (''environment'', JStr s)"

fun set_project_field :: "project_input \<Rightarrow> project_row \<Rightarrow> project_row" where
  "set_project_field (PjName s) p = p\<lparr>pj_name := s\<rparr>"
| "set_project_field (PjSlug s) p = p\<lparr>pj_slug := s\<rparr>"
| "set_project_field (PjDescription s) p = p\<lparr>pj_description := Some s\<rparr>"
| "set_project_field (PjEnvironment s) p = p\<lparr>pj_environment := Some s\<rparr>"

definition slug_char :: "char \<Rightarrow> bool" where
  "slug_char c \<longleftrightarrow> is_digit c \<or> c = CHR ''-'' \<or> CHR ''a'' \<le> c \<and> c \<le> CHR ''z''"

fun project_field_ok :: "project_input \<Rightarrow> bool" where
  "project_field_ok (PjName s) = (1 \<le> length s \<and> length s \<le> 100)"
| "project_field_ok (PjSlug s) = (1 \<le> length s \<and> length s \<le> 50 \<and> list_all slug_char s)"
| "project_field_ok (PjDescription s) = True"
| "project_field_ok (PjEnvironment s) = (s \<in> {''production'', ''staging'', ''development'', ''personal''})"

definition project_patch_ok :: "project_input list \<Rightarrow> bool" where
  "project_patch_ok fs \<longleftrightarrow> list_all project_field_ok fs \<and> distinct (map (fst \<circ> project_pair) fs)"

text \<open>A new project names itself; the description and the environment are optional.\<close>

record project_body =
  pb_name :: string
  pb_slug :: string
  pb_optional :: "project_input list"

definition project_body_ok :: "project_body \<Rightarrow> bool" where
  "project_body_ok b \<longleftrightarrow> project_patch_ok (PjName (pb_name b) # PjSlug (pb_slug b) # pb_optional b)"

section \<open>Statements\<close>

definition upd_projects :: "string \<Rightarrow> (project_row \<Rightarrow> project_row) \<Rightarrow> api_state \<Rightarrow> api_state" where
  "upd_projects i f st = st\<lparr>ap_projects := sql_update (\<lambda>p. pj_id p = i) f (ap_projects st)\<rparr>"

definition project_table :: "project_row entity_table" where
  "project_table =
     \<lparr>et_rows = ap_projects, et_id = pj_id, et_org = pj_orgId, et_status = pj_status,
      et_update = upd_projects, et_machine = SM_project\<rparr>"

interpretation projects: entity_laws project_table
  by unfold_locales (simp_all add: project_table_def upd_projects_def)

text \<open>The unique index over organization and slug.\<close>

definition same_slug :: "project_row \<Rightarrow> project_row \<Rightarrow> bool" where
  "same_slug p q \<longleftrightarrow> pj_orgId p = pj_orgId q \<and> pj_slug p = pj_slug q"

definition new_project :: "string \<Rightarrow> int \<Rightarrow> string \<Rightarrow> project_body \<Rightarrow> project_row" where
  "new_project i now org b =
     fold set_project_field (pb_optional b)
       \<lparr>pj_id = i, pj_orgId = org, pj_name = pb_name b, pj_slug = pb_slug b, pj_description = None,
        pj_environment = Some ''development'', pj_defaultWalletId = None, pj_status = ''active'', pj_archivedAt = None,
        pj_deletedAt = None, pj_createdAt = now, pj_updatedAt = now\<rparr>"

definition insert_project :: "project_row \<Rightarrow> api_state \<Rightarrow> thrown + api_state" where
  "insert_project p st =
     (if pj_id p \<in> pj_id ` set (ap_projects st) then Inl (duplicate_key ''projects_pkey'')
      else if list_ex (same_slug p) (ap_projects st) then Inl (duplicate_key ''projects_org_slug_unique'')
      else Inr (st\<lparr>ap_projects := ap_projects st @ [p]\<rparr>))"

definition edited :: "int \<Rightarrow> project_input list \<Rightarrow> project_row \<Rightarrow> project_row" where
  "edited now fs p = (fold set_project_field fs p)\<lparr>pj_updatedAt := now\<rparr>"

definition edit_project :: "string \<Rightarrow> (project_row \<Rightarrow> project_row) \<Rightarrow> project_row \<Rightarrow> api_state \<Rightarrow> thrown + api_state" where
  "edit_project i f p st =
     (if list_ex (\<lambda>q. pj_id q \<noteq> i \<and> same_slug (f p) q) (ap_projects st)
      then Inl (duplicate_key ''projects_org_slug_unique'')
      else Inr (et_update project_table i f st))"

section \<open>Handlers\<close>

definition create_project ::
    "api_env \<Rightarrow> request \<Rightarrow> request_vars \<Rightarrow> project_body \<Rightarrow> api_state \<Rightarrow> project_row handled" where
  "create_project env rq cx b st =
     (case cx_orgId cx of
        None \<Rightarrow> (Inl undefined_arg, st)
      | Some org \<Rightarrow>
          (let i = av_id env ''projects'' (length (ap_projects st)); p = new_project i (av_now env) org b
           in conclude
                (with_audit env rq cx (insert_project p)
                   (entity_spec ''project'' ''project.created''
                      (Some (JObj [(''name'', JStr (pb_name b)), (''slug'', JStr (pb_slug b))]))) i st)
                [] (201, Row p) st))"

definition get_project :: "string \<Rightarrow> string \<Rightarrow> project_row \<Rightarrow> api_state \<Rightarrow> project_row handled" where
  "get_project org i p st = (Inr (200, Row p), st)"

definition patch_project ::
    "api_env \<Rightarrow> request \<Rightarrow> request_vars \<Rightarrow> project_input list \<Rightarrow> string \<Rightarrow> string \<Rightarrow> project_row \<Rightarrow> api_state
     \<Rightarrow> project_row handled" where
  "patch_project env rq cx fs org i p st =
     conclude
       (with_audit env rq cx (edit_project i (edited (av_now env) fs) p)
          (entity_spec ''project'' ''project.updated'' (Some (JObj (map project_pair fs)))) i st)
       [] (200, Row (edited (av_now env) fs p)) st"

definition move_project ::
    "api_env \<Rightarrow> request \<Rightarrow> request_vars \<Rightarrow> string \<Rightarrow> (project_row \<Rightarrow> project_row) \<Rightarrow> string \<Rightarrow> string \<Rightarrow> string \<Rightarrow> string
     \<Rightarrow> project_row \<Rightarrow> api_state \<Rightarrow> project_row handled" where
  "move_project env rq cx target upd name msg org i p st =
     conclude
       (move_item project_table env rq cx i p target (\<lambda>q. (upd q)\<lparr>pj_status := target, pj_updatedAt := av_now env\<rparr>)
          (entity_spec ''project'' name None) st)
       [] (say msg) st"

definition archive_project where
  "archive_project env rq cx =
     move_project env rq cx ''archived'' (\<lambda>q. q\<lparr>pj_archivedAt := Some (av_now env)\<rparr>) ''project.archived'' ''Project archived''"

definition unarchive_project where
  "unarchive_project env rq cx =
     move_project env rq cx ''active'' (\<lambda>q. q\<lparr>pj_archivedAt := None\<rparr>) ''project.unarchived'' ''Project unarchived''"

definition delete_project where
  "delete_project env rq cx =
     move_project env rq cx ''deleted'' (\<lambda>q. q\<lparr>pj_deletedAt := Some (av_now env)\<rparr>) ''project.deleted'' ''Project deleted''"

text \<open>Restoring checks the status and not the state machine.\<close>

definition restored :: "int \<Rightarrow> project_row \<Rightarrow> project_row" where
  "restored now p = p\<lparr>pj_status := ''active'', pj_deletedAt := None, pj_updatedAt := now\<rparr>"

definition restore_project ::
    "api_env \<Rightarrow> request \<Rightarrow> request_vars \<Rightarrow> string \<Rightarrow> string \<Rightarrow> project_row \<Rightarrow> api_state \<Rightarrow> project_row handled" where
  "restore_project env rq cx org i p st =
     (if pj_status p \<noteq> ''deleted'' then invalid ''Project is not deleted'' st
      else conclude
             (with_audit env rq cx (\<lambda>s. Inr (et_update project_table i (restored (av_now env)) s))
                (entity_spec ''project'' ''project.restored'' None) i st)
             [] (say ''Project restored'') st)"

section \<open>Routes\<close>

datatype project_op =
    CreateProject project_body
  | GetProject
  | PatchProject "project_input list"
  | ArchiveProject
  | UnarchiveProject
  | DeleteProject
  | RestoreProject

definition on_project ::
    "request \<Rightarrow> request_vars \<Rightarrow> (string \<Rightarrow> string \<Rightarrow> project_row \<Rightarrow> api_state \<Rightarrow> project_row handled)
     \<Rightarrow> api_state \<Rightarrow> project_row handled" where
  "on_project rq cx k st = on_item project_table ''Project'' (\<lambda>_. []) rq cx k st"

fun project_handler ::
    "api_env \<Rightarrow> request \<Rightarrow> project_op \<Rightarrow> request_vars \<Rightarrow> api_state \<Rightarrow> project_row handled" where
  "project_handler env rq (CreateProject b) cx st = create_project env rq cx b st"
| "project_handler env rq GetProject cx st = on_project rq cx get_project st"
| "project_handler env rq (PatchProject fs) cx st = on_project rq cx (patch_project env rq cx fs) st"
| "project_handler env rq ArchiveProject cx st = on_project rq cx (archive_project env rq cx) st"
| "project_handler env rq UnarchiveProject cx st = on_project rq cx (unarchive_project env rq cx) st"
| "project_handler env rq DeleteProject cx st = on_project rq cx (delete_project env rq cx) st"
| "project_handler env rq RestoreProject cx st = on_project rq cx (restore_project env rq cx) st"

fun project_guards :: "project_op \<Rightarrow> guard list" where
  "project_guards (CreateProject b) = [GAuth, GOrg, GRole [''owner'', ''admin'']]"
| "project_guards GetProject = [GAuth, GProjectOrg]"
| "project_guards _ = [GAuth, GProjectOrg, GRole [''owner'', ''admin'']]"

fun project_op_ok :: "project_op \<Rightarrow> bool" where
  "project_op_ok (CreateProject b) = project_body_ok b"
| "project_op_ok (PatchProject fs) = project_patch_ok fs"
| "project_op_ok _ = True"

definition project_request ::
    "api_env \<Rightarrow> string \<Rightarrow> request \<times> project_op \<Rightarrow> api_state \<Rightarrow> project_row body reply \<times> api_state" where
  "project_request env rid x st =
     (case x of (rq, op) \<Rightarrow>
        serve env rid (project_guards op) rq (project_op_ok op) (\<lambda>cx s. catch_app (project_handler env rq op cx s)) st)"

section \<open>Facts\<close>

lemma project_table_simps [simp]:
  "et_machine project_table = SM_project" "et_id project_table = pj_id" "et_org project_table = pj_orgId"
  "et_status project_table = pj_status" "et_rows project_table = ap_projects" "et_update project_table = upd_projects"
  by (simp_all add: project_table_def)

lemma ap_upd_projects [simp]:
  "ap_projects (upd_projects i f st) = sql_update (\<lambda>p. pj_id p = i) f (ap_projects st)"
  "ap_db (upd_projects i f st) = ap_db st" "ap_access (upd_projects i f st) = ap_access st"
  by (simp_all add: upd_projects_def)

lemma project_fields_frame [simp]:
  "pj_id (fold set_project_field fs p) = pj_id p" "pj_orgId (fold set_project_field fs p) = pj_orgId p"
  "pj_status (fold set_project_field fs p) = pj_status p"
proof -
  have "pj_id (set_project_field f c) = pj_id c" "pj_orgId (set_project_field f c) = pj_orgId c"
    "pj_status (set_project_field f c) = pj_status c" for f c
    by (cases f; simp)+
  then show "pj_id (fold set_project_field fs p) = pj_id p" "pj_orgId (fold set_project_field fs p) = pj_orgId p"
    "pj_status (fold set_project_field fs p) = pj_status p"
    by (induction fs arbitrary: p) simp_all
qed

lemma insert_project_ok:
  "insert_project p st = Inr st1 \<Longrightarrow> pj_id p \<notin> pj_id ` set (ap_projects st) \<and> \<not> list_ex (same_slug p) (ap_projects st)
     \<and> st1 = st\<lparr>ap_projects := ap_projects st @ [p]\<rparr>"
  by (auto simp: insert_project_def split: if_splits)

lemma edit_project_ok:
  "edit_project i f p st = Inr st1 \<Longrightarrow> (\<forall>q \<in> set (ap_projects st). pj_id q \<noteq> i \<longrightarrow> \<not> same_slug (f p) q)
     \<and> st1 = upd_projects i f st"
  by (auto simp: edit_project_def list_ex_iff split: if_splits)

lemmas project_moves = archive_project_def unarchive_project_def delete_project_def

text \<open>One induction over the handlers: what holds of the state, the creation and the rewrites of an item holds after them.\<close>

lemma project_handler_cases:
  assumes same: "P st"
    and created: "\<And>org b i st1. insert_project (new_project i (av_now env) org b) st = Inr st1 \<Longrightarrow> cx_orgId cx = Some org
      \<Longrightarrow> P st1"
    and edit: "\<And>org i p fs st1. cx_orgId cx = Some org \<Longrightarrow> find_entity project_table st org i = Some p
      \<Longrightarrow> edit_project i (edited (av_now env) fs) p st = Inr st1 \<Longrightarrow> P st1"
    and move: "\<And>org i p target f. cx_orgId cx = Some org \<Longrightarrow> find_entity project_table st org i = Some p
      \<Longrightarrow> step_ok SM_project (pj_status p) target \<or> pj_status p = ''deleted'' \<and> target = ''active''
      \<Longrightarrow> (\<And>q. pj_id (f q) = pj_id q \<and> pj_orgId (f q) = pj_orgId q \<and> pj_slug (f q) = pj_slug q \<and> pj_status (f q) = target)
      \<Longrightarrow> P (upd_projects i f st)"
    and frames: "\<And>s row. P s \<Longrightarrow> P (add_audit row s)" "\<And>s. P s \<Longrightarrow> P (record_events [] s)"
  shows "P (snd (project_handler env rq op cx st))"
proof -
  have ends: "P (snd (conclude (with_audit env rq cx fn spec i st) [] ans st))"
    if "\<And>st1. fn st = Inr st1 \<Longrightarrow> P st1" for fn spec i and ans :: "int \<times> project_row body"
  proof (cases "with_audit env rq cx fn spec i st")
    case (Inr st')
    then obtain st1 row where "fn st = Inr st1" "st' = add_audit row st1" using with_audit_ok by blast
    with that frames Inr show ?thesis by (simp add: conclude_def)
  qed (simp add: conclude_def same)
  have moves: "P (snd (move_project env rq cx target upd name msg org i p st))"
    if "cx_orgId cx = Some org" "find_entity project_table st org i = Some p"
      "\<And>q. pj_id (upd q) = pj_id q \<and> pj_orgId (upd q) = pj_orgId q \<and> pj_slug (upd q) = pj_slug q"
    for target upd name msg org i p
  proof (cases "validateTransition loaded_machines SM_project (pj_status p) target False")
    case (Inl e)
    then show ?thesis by (simp add: move_project_def move_item_def conclude_def same)
  next
    case (Inr t)
    then have "step_ok SM_project (pj_status p) target" by (simp add: step_ok_def)
    from move [OF that(1,2) disjI1 [OF this]] that(3) Inr show ?thesis
      by (auto simp: move_project_def move_item_def intro!: ends)
  qed
  have "P (snd (create_project env rq cx b st))" for b
    using created by (auto simp: create_project_def Let_def same intro!: ends split: option.split)
  moreover have "P (snd (restore_project env rq cx org i p st))"
    if "cx_orgId cx = Some org" "find_entity project_table st org i = Some p" for org i p
    using move [OF that, of "''active''"] by (auto simp: restore_project_def invalid_def restored_def same intro!: ends)
  moreover have "P (snd (patch_project env rq cx fs org i p st))"
    if "cx_orgId cx = Some org" "find_entity project_table st org i = Some p" for fs org i p
    using edit [OF that] by (auto simp: patch_project_def intro!: ends)
  ultimately show ?thesis
    by (cases op)
      (auto simp: on_project_def project_moves get_project_def same intro!: on_item_cases [where P = P] moves)
qed

section \<open>What the requests do\<close>

text \<open>
  The abstract contract of the projects: the edges of the state machine, and the restoration of a deleted project,
  which the machine does not have.
\<close>

inductive project_step :: "keys \<Rightarrow> keys \<Rightarrow> bool" where
  machine: "key_step SM_project {''active''} ks ks' \<Longrightarrow> project_step ks ks'"
| restore: "(i, ''deleted'') \<in> set ks \<Longrightarrow> project_step ks (set_key i ''active'' ks)"

inductive_cases project_stepE: "project_step ks ks'"

abbreviation project_steps :: "keys \<Rightarrow> keys \<Rightarrow> bool" where
  "project_steps \<equiv> project_step\<^sup>*\<^sup>*"

interpretation project_ids: step_invariant project_step "\<lambda>ks. distinct (map fst ks)"
proof
  fix ks ks' :: keys assume "distinct (map fst ks)" and "project_step ks ks'"
  then show "distinct (map fst ks')"
    by (auto elim!: project_stepE key_stepE simp: set_key_def comp_def if_distrib cong: if_cong)
qed

lemma upd_projects_keys:
  assumes "\<And>q. pj_id (f q) = pj_id q \<and> pj_status (f q) = t"
  shows "keys_of project_table (upd_projects i f st) = set_key i t (keys_of project_table st)"
  using projects.keys_update [of f t i st] assms by simp

lemma project_handler_steps:
  "project_steps (keys_of project_table st) (keys_of project_table (snd (project_handler env rq op cx st)))"
proof (rule project_handler_cases)
  fix org b i st1
  assume "insert_project (new_project i (av_now env) org b) st = Inr st1"
  from insert_project_ok [OF this] have "key_steps SM_project {''active''} (keys_of project_table st) (keys_of project_table st1)"
    by (intro projects.append_steps [of _ _ "new_project i (av_now env) org b"]) (auto simp: new_project_def)
  then show "project_steps (keys_of project_table st) (keys_of project_table st1)"
    by (rule rtranclp_mono [THEN predicate2D, rotated]) (auto intro: project_step.machine)
next
  fix org i p fs st1
  assume "edit_project i (edited (av_now env) fs) p st = Inr st1"
  from edit_project_ok [OF this] have "keys_of project_table st1 = keys_of project_table st"
    using projects.keys_frame [of "edited (av_now env) fs" i st] by (simp add: edited_def)
  then show "project_steps (keys_of project_table st) (keys_of project_table st1)" by simp
next
  fix org i p target and f :: "project_row \<Rightarrow> project_row"
  assume found: "find_entity project_table st org i = Some p"
    and step: "step_ok SM_project (pj_status p) target \<or> pj_status p = ''deleted'' \<and> target = ''active''"
    and f: "\<And>q. pj_id (f q) = pj_id q \<and> pj_orgId (f q) = pj_orgId q \<and> pj_slug (f q) = pj_slug q \<and> pj_status (f q) = target"
  have keys: "keys_of project_table (upd_projects i f st) = set_key i target (keys_of project_table st)"
    using f by (intro upd_projects_keys) simp
  from find_entity_key [OF found] have key: "(i, pj_status p) \<in> set (keys_of project_table st)" by simp
  have "project_step (keys_of project_table st) (set_key i target (keys_of project_table st))"
    using step key by (auto intro: project_step.intros key_step.move)
  then show "project_steps (keys_of project_table st) (keys_of project_table (upd_projects i f st))"
    unfolding keys by (rule r_into_rtranclp)
qed simp_all

lemma project_request_steps:
  "project_steps (keys_of project_table st) (keys_of project_table (snd (project_request env rid x st)))"
proof -
  obtain rq op where x: "x = (rq, op)" by (cases x)
  show ?thesis unfolding x project_request_def prod.case
  proof (rule serve_ok_cases [where P = "\<lambda>s. project_steps (keys_of project_table st) (keys_of project_table s)"])
    fix cx d
    show "project_steps (keys_of project_table st)
        (keys_of project_table (snd (catch_app (project_handler env rq op cx (st\<lparr>ap_access := d\<rparr>)))))"
      using project_handler_steps [of "st\<lparr>ap_access := d\<rparr>" env rq op cx] by simp
  qed simp_all
qed

subsection \<open>One project per slug\<close>

definition slugs_unique :: "api_state \<Rightarrow> bool" where
  "slugs_unique st \<longleftrightarrow> distinct (map pj_id (ap_projects st))
     \<and> (\<forall>p \<in> set (ap_projects st). \<forall>q \<in> set (ap_projects st). same_slug p q \<longrightarrow> pj_id p = pj_id q)"

lemma slugs_unique_frames [simp]:
  "slugs_unique (add_audit a st) = slugs_unique st" "slugs_unique (record_events es st) = slugs_unique st"
  "slugs_unique (st\<lparr>ap_access := d\<rparr>) = slugs_unique st"
  by (simp_all add: slugs_unique_def)

lemma same_slug_sym: "same_slug p q = same_slug q p"
  by (auto simp: same_slug_def)

lemma upd_projects_unique:
  assumes "slugs_unique st" and "\<And>q. pj_id (f q) = pj_id q"
    and "\<And>p q. p \<in> set (ap_projects st) \<Longrightarrow> q \<in> set (ap_projects st) \<Longrightarrow> pj_id p = i \<Longrightarrow> pj_id q \<noteq> i \<Longrightarrow> \<not> same_slug (f p) q"
  shows "slugs_unique (upd_projects i f st)"
proof -
  have "map pj_id (sql_update (\<lambda>p. pj_id p = i) f (ap_projects st)) = map pj_id (ap_projects st)"
    by (rule map_sql_update_frame) (rule assms(2))
  moreover have "pj_id p = pj_id q" if "p \<in> set (sql_update (\<lambda>p. pj_id p = i) f (ap_projects st))"
    "q \<in> set (sql_update (\<lambda>p. pj_id p = i) f (ap_projects st))" "same_slug p q" for p q
  proof -
    from that obtain p0 q0 where p0: "p0 \<in> set (ap_projects st)" "p = (if pj_id p0 = i then f p0 else p0)"
      and q0: "q0 \<in> set (ap_projects st)" "q = (if pj_id q0 = i then f q0 else q0)" by (auto simp: set_sql_update)
    consider "pj_id p0 = i" "pj_id q0 = i" | "pj_id p0 = i" "pj_id q0 \<noteq> i" | "pj_id p0 \<noteq> i" "pj_id q0 = i"
      | "pj_id p0 \<noteq> i" "pj_id q0 \<noteq> i" by blast
    then show ?thesis
    proof cases
      case 1
      with p0(2) q0(2) assms(2) show ?thesis by simp
    next
      case 2
      with p0 q0 assms(3) that(3) show ?thesis by simp
    next
      case 3
      with p0 q0 assms(3) [of q0 p0] that(3) show ?thesis by (simp add: same_slug_sym [of p0])
    next
      case 4
      with p0 q0 assms(1) that(3) show ?thesis by (simp add: slugs_unique_def)
    qed
  qed
  ultimately show ?thesis using assms(1) by (simp add: slugs_unique_def)
qed

lemma find_project_unique:
  assumes "slugs_unique st" and "find_entity project_table st org i = Some p" and "q \<in> set (ap_projects st)" and "pj_id q = i"
  shows "q = p"
proof -
  have "p \<in> set (ap_projects st)" "pj_id p = i"
    using assms(2) by (auto simp: find_entity_def dest!: first_row_filter_SomeD)
  with assms(1,3,4) show ?thesis by (auto simp: slugs_unique_def distinct_map inj_on_def)
qed

lemma project_handler_unique:
  assumes "slugs_unique st"
  shows "slugs_unique (snd (project_handler env rq op cx st))"
proof (rule project_handler_cases [of slugs_unique])
  fix org b i st1
  assume "insert_project (new_project i (av_now env) org b) st = Inr st1"
  from insert_project_ok [OF this] assms same_slug_sym show "slugs_unique st1"
    unfolding slugs_unique_def list_ex_iff by fastforce
next
  fix org i p fs st1
  assume found: "find_entity project_table st org i = Some p"
    and edit: "edit_project i (edited (av_now env) fs) p st = Inr st1"
  from edit_project_ok [OF edit] find_project_unique [OF assms found]
  show "slugs_unique st1" by (auto intro!: upd_projects_unique [OF assms] simp: edited_def)
next
  fix org i p target and f :: "project_row \<Rightarrow> project_row"
  assume f: "\<And>q. pj_id (f q) = pj_id q \<and> pj_orgId (f q) = pj_orgId q \<and> pj_slug (f q) = pj_slug q \<and> pj_status (f q) = target"
  show "slugs_unique (upd_projects i f st)"
  proof (rule upd_projects_unique [OF assms])
    fix p q assume "p \<in> set (ap_projects st)" "q \<in> set (ap_projects st)" "pj_id p = i" "pj_id q \<noteq> i"
    then have "\<not> same_slug p q" using assms unfolding slugs_unique_def by auto
    then show "\<not> same_slug (f p) q" using f [of p] by (simp add: same_slug_def)
  qed (use f in simp)
qed (simp_all add: assms)

subsection \<open>Who changes a project\<close>

lemma project_handler_others:
  assumes "q \<in> set (ap_projects st)"
    and "\<And>org p. cx_orgId cx = Some org \<Longrightarrow> find_entity project_table st org (pj_id q) \<noteq> Some p"
  shows "q \<in> set (ap_projects (snd (project_handler env rq op cx st)))"
proof (rule project_handler_cases [of "\<lambda>s. q \<in> set (ap_projects s)"])
  fix org b i st1
  assume "insert_project (new_project i (av_now env) org b) st = Inr st1"
  from insert_project_ok [OF this] assms(1) show "q \<in> set (ap_projects st1)" by simp
next
  fix org i p fs st1
  assume "cx_orgId cx = Some org" "find_entity project_table st org i = Some p"
    and edit: "edit_project i (edited (av_now env) fs) p st = Inr st1"
  with assms(2) have "pj_id q \<noteq> i" by auto
  with edit_project_ok [OF edit] assms(1) show "q \<in> set (ap_projects st1)" by (auto simp: set_sql_update)
next
  fix org i p target and f :: "project_row \<Rightarrow> project_row"
  assume "cx_orgId cx = Some org" "find_entity project_table st org i = Some p"
  with assms(2) have "pj_id q \<noteq> i" by auto
  with assms(1) show "q \<in> set (ap_projects (upd_projects i f st))" by (auto simp: set_sql_update)
qed (simp_all add: assms(1))

lemma get_project_inert: "snd (on_project rq cx get_project st) = st"
  by (simp add: on_project_def on_item_def get_project_def split: option.split)

lemma create_project_stays:
  "q \<in> set (ap_projects st) \<Longrightarrow> q \<in> set (ap_projects (snd (create_project env rq cx b st)))"
  by (auto simp: create_project_def Let_def conclude_def dest!: with_audit_ok insert_project_ok split: option.split sum.split)

lemma requireProjectOrg_Pass:
  "requireProjectOrg d rq cx = Pass cx' \<Longrightarrow>
     \<exists>org g u m. rq_header rq ''X-Org-Id'' = Some org \<and> find_org d org = Some g \<and> og_suspendedAt g = None
       \<and> cx_userId cx = Some u \<and> org_member d org u = Some m \<and> cx' = cx\<lparr>cx_orgId := Some org, cx_role := Some (me_role m)\<rparr>"
  by (auto simp: requireProjectOrg_def project_refuse_def result_simps dest: truthy_SomeD split: option.splits if_splits)

text \<open>The callers that the check of the router and the roles let through.\<close>

definition manages :: "access_env \<Rightarrow> access_db \<Rightarrow> request \<Rightarrow> string \<Rightarrow> bool" where
  "manages env d rq org \<longleftrightarrow> rq_header rq ''X-Org-Id'' = Some org
     \<and> (\<exists>g u m. find_org d org = Some g \<and> og_suspendedAt g = None \<and> caller env rq u \<and> org_member d org u = Some m
          \<and> me_role m \<in> {''owner'', ''admin''})"

lemma project_guards_manage:
  assumes "run_guards env rq [GAuth, GProjectOrg, GRole [''owner'', ''admin'']] (fresh_vars rid, d) = Pass (cx, d')"
  shows "\<exists>org. cx_orgId cx = Some org \<and> manages env d rq org"
proof -
  from assms obtain tok u cx1 where auth: "bearer_token rq = Some tok" "ae_verify env tok = Inr u"
    and org: "requireProjectOrg d rq ((fresh_vars rid)\<lparr>cx_userId := u\<rparr>) = Pass cx1"
    and role: "requireRole [''owner'', ''admin''] cx1 = Pass cx" "cx = cx1"
    by (auto simp: result_simps requireRole_def split: if_splits)
  from requireProjectOrg_Pass [OF org] auth role show ?thesis
    by (auto simp: manages_def caller_def requireRole_def split: if_splits)
qed

section \<open>Properties\<close>

text \<open>
  Every sequence of requests moves the projects along the edges of the state machine or restores a deleted one, and
  new projects are active.
\<close>

theorem project_requests_follow_spec:
  "project_steps (keys_of project_table st) (keys_of project_table (run_requests (project_request env) xs st))"
  by (rule run_requests_invariant [where I = "\<lambda>s. project_steps (keys_of project_table st) (keys_of project_table s)"])
    (auto intro: rtranclp_trans project_request_steps)

text \<open>
  No sequence of requests gives two projects of one organization the same slug.
\<close>

theorem project_slugs_unique:
  assumes "slugs_unique st"
  shows "slugs_unique (run_requests (project_request env) xs st)"
proof (rule run_requests_invariant [where I = slugs_unique, OF _ assms])
  fix rid and x :: "request \<times> project_op" and s
  obtain rq op where x: "x = (rq, op)" by (cases x)
  assume "slugs_unique s"
  then show "slugs_unique (snd (project_request env rid x s))"
    unfolding x project_request_def prod.case
    by (intro serve_ok_cases [where P = slugs_unique]) (simp_all add: project_handler_unique)
qed

definition sample_project :: project_row where
  "sample_project = new_project (sample_uuid CHR ''p'') 0 (sample_uuid CHR ''1'') \<lparr>pb_name = ''n'', pb_slug = ''s'', pb_optional = []\<rparr>"

definition sample_project_state :: api_state where
  "sample_project_state =
     \<lparr>ap_access = sample_db, ap_db = empty_db,
      ap_projects = [sample_project\<lparr>pj_status := ''deleted'', pj_archivedAt := Some 1, pj_deletedAt := Some 2\<rparr>],
      ap_delegations = [], ap_events = [], ap_invitations = []\<rparr>"

abbreviation sample_project_env :: api_env where
  "sample_project_env \<equiv> \<lparr>av_access = sample_access_env, av_id = (\<lambda>t n. t), av_staleness = None\<rparr>"

theorem project_slugs_unique_witness:
  "slugs_unique (run_requests (project_request sample_project_env)
     [(''r'', sample_request None, CreateProject \<lparr>pb_name = ''n'', pb_slug = ''s'', pb_optional = []\<rparr>)] sample_project_state)"
  by (rule project_slugs_unique) (simp add: slugs_unique_def sample_project_state_def)

text \<open>
  C34: a request that changes a project comes from an owner or admin of its organization, which the header names and
  which is not suspended: neither a viewer nor the admin of another organization can touch it.
\<close>

theorem projects_changed_by_managers:
  assumes "slugs_unique st" and "q \<in> set (ap_projects st)"
    and "q \<notin> set (ap_projects (snd (project_request env rid (rq, op) st)))"
  shows "manages (av_access env) (ap_access st) rq (pj_orgId q)"
proof (rule ccontr)
  assume other: "\<not> manages (av_access env) (ap_access st) rq (pj_orgId q)"
  have "q \<in> set (ap_projects (snd (project_request env rid (rq, op) st)))"
    unfolding project_request_def prod.case
  proof (rule serve_cases [where P = "\<lambda>s. q \<in> set (ap_projects s)"])
    fix cx d
    assume pass: "run_guards (av_access env) rq (project_guards op) (fresh_vars rid, ap_access st) = Pass (cx, d)"
    let ?st = "st\<lparr>ap_access := d\<rparr>"
    have "q \<in> set (ap_projects (snd (project_handler env rq op cx ?st)))"
    proof (cases "op = GetProject \<or> (\<exists>b. op = CreateProject b)")
      case True
      with assms(2) show ?thesis
        by (auto simp: get_project_inert create_project_stays)
    next
      case False
      then have "project_guards op = [GAuth, GProjectOrg, GRole [''owner'', ''admin'']]" by (cases op) auto
      with pass obtain org where org: "cx_orgId cx = Some org" "manages (av_access env) (ap_access st) rq org"
        using project_guards_manage by metis
      with other have "org \<noteq> pj_orgId q" by auto
      moreover have "pj_orgId p = org \<and> p = q" if "find_entity project_table ?st org (pj_id q) = Some p" for p
        using find_project_unique [of ?st org "pj_id q" p q] assms(1,2) that
        by (auto simp: find_entity_def dest!: first_row_filter_SomeD)
      ultimately have "find_entity project_table ?st org' (pj_id q) \<noteq> Some p" if "cx_orgId cx = Some org'" for org' p
        using that org(1) by auto
      then show ?thesis using assms(2) by (intro project_handler_others) auto
    qed
    with assms(2) show "q \<in> set (ap_projects ?st) \<and> q \<in> set (ap_projects (snd (catch_app (project_handler env rq op cx ?st))))"
      by simp
  qed (rule assms(2))
  with assms(3) show False ..
qed

theorem projects_changed_by_managers_witness:
  "manages sample_access_env sample_db (sample_request (Some (sample_uuid CHR ''a''))) (sample_uuid CHR ''1'')"
proof -
  let ?q = "sample_project\<lparr>pj_id := sample_uuid CHR ''a'', pj_status := ''deleted''\<rparr>"
  let ?st = "sample_project_state\<lparr>ap_projects := [?q]\<rparr>"
  have uuid: "is_uuid (sample_uuid CHR ''a'')"
    by (simp add: is_uuid_def sample_uuid_def hex_digit_def is_digit_def less_eq_char_def)
  have guards: "run_guards sample_access_env (sample_request (Some (sample_uuid CHR ''a'')))
      [GAuth, GProjectOrg, GRole [''owner'', ''admin'']] (fresh_vars ''r'', sample_db) = Pass (owner_vars, sample_db)"
    using sample_uuid_ok
    by (simp add: sample_uuid_truthy sample_guards requireProjectOrg_def requireRole_def)
  have param: "rq_param (sample_request (Some (sample_uuid CHR ''a''))) ''id'' = Some (sample_uuid CHR ''a'')"
    by (simp add: sample_request_def)
  have "?q \<notin> set (ap_projects (snd (project_request sample_project_env ''r''
      (sample_request (Some (sample_uuid CHR ''a'')), RestoreProject) ?st)))"
    using guards uuid sample_uuid_ok
    by (simp add: project_request_def serve_def sample_project_state_def sample_project_def new_project_def on_project_def
        on_item_def param sample_uuid_truthy find_entity_def restore_project_def conclude_def with_audit_def
        bindE_def audit_entry_def restored_def Let_def catch_app_def del: run_guards.simps run_guard.simps)
  from projects_changed_by_managers [OF _ _ this] show ?thesis
    by (simp add: slugs_unique_def sample_project_state_def sample_project_def new_project_def)
qed

lemma active_not_unarchived: "\<exists>e. validateTransition loaded_machines SM_project ''active'' ''active'' False = Inl e"
proof -
  have "\<not> step_ok SM_project ''active'' ''active''" by (simp add: step_ok_iff edges_def project_machine_def)
  then show ?thesis by (cases "validateTransition loaded_machines SM_project ''active'' ''active'' False") (simp_all add: step_ok_def)
qed

lemma restore_project_rows:
  assumes "fst (restore_project env rq cx org i p st) = Inr (200, b)"
  shows "ap_projects (snd (restore_project env rq cx org i p st))
    = sql_update (\<lambda>p. pj_id p = i) (restored (av_now env)) (ap_projects st)"
proof -
  let ?fn = "\<lambda>s. Inr (upd_projects i (restored (av_now env)) s)"
  let ?w = "with_audit env rq cx ?fn (entity_spec ''project'' ''project.restored'' None) i st"
  have "pj_status p = ''deleted''"
    using assms by (cases "pj_status p = ''deleted''") (simp_all add: restore_project_def invalid_def api_error_def)
  then have r: "restore_project env rq cx org i p st = conclude ?w [] (say ''Project restored'') st"
    by (simp add: restore_project_def)
  show ?thesis
  proof (cases ?w)
    case (Inl e)
    with assms r show ?thesis by (simp add: conclude_def)
  next
    case (Inr st')
    from with_audit_ok [OF this] obtain row where "st' = add_audit row (upd_projects i (restored (av_now env)) st)" by auto
    with r Inr show ?thesis by (simp add: conclude_def)
  qed
qed

lemma find_project_only:
  assumes "p \<in> set (ap_projects st)" and "pj_id p = i \<and> pj_orgId p = org"
    and "\<And>q. q \<in> set (ap_projects st) \<Longrightarrow> pj_id q = i \<Longrightarrow> q = p"
  shows "find_entity project_table st org i = Some p"
proof (cases "find_entity project_table st org i")
  case None
  with assms(1,2) show ?thesis by (auto simp: find_entity_def first_row_filter_None)
next
  case (Some q)
  then have "q \<in> set (ap_projects st)" "pj_id q = i" by (auto simp: find_entity_def dest!: first_row_filter_SomeD)
  with assms(3) Some show ?thesis by simp
qed

text \<open>
  A restored project is active and keeps the time of its archival, since the restoration clears the deletion only;
  the route that would clear it refuses, because the project is active already.
\<close>

theorem restored_keeps_archival:
  assumes "slugs_unique st" and "find_entity project_table st org i = Some p"
    and "fst (restore_project env rq cx org i p st) = Inr (200, b)"
  shows "find_entity project_table (snd (restore_project env rq cx org i p st)) org i = Some (restored (av_now env) p)
    \<and> pj_status (restored (av_now env) p) = ''active'' \<and> pj_archivedAt (restored (av_now env) p) = pj_archivedAt p
    \<and> (\<exists>e. fst (unarchive_project env rq cx org i (restored (av_now env) p)
          (snd (restore_project env rq cx org i p st))) = Inl e)"
proof -
  have rows: "ap_projects (snd (restore_project env rq cx org i p st))
      = sql_update (\<lambda>p. pj_id p = i) (restored (av_now env)) (ap_projects st)"
    by (rule restore_project_rows [OF assms(3)])
  from assms(2) have p: "p \<in> set (ap_projects st)" "pj_id p = i" "pj_orgId p = org"
    by (auto simp: find_entity_def dest!: first_row_filter_SomeD)
  have only: "q = p" if "q \<in> set (ap_projects st)" "pj_id q = i" for q
    using find_project_unique [OF assms(1,2) that] .
  let ?rows = "ap_projects (snd (restore_project env rq cx org i p st))"
  have "restored (av_now env) p \<in> set ?rows" using p by (auto simp: rows set_sql_update)
  moreover have "pj_id (restored (av_now env) p) = i \<and> pj_orgId (restored (av_now env) p) = org"
    using p by (simp add: restored_def)
  moreover have "q = restored (av_now env) p" if "q \<in> set ?rows" "pj_id q = i" for q
  proof -
    from that(1) obtain q0 where "q0 \<in> set (ap_projects st)" "q = (if pj_id q0 = i then restored (av_now env) q0 else q0)"
      by (auto simp: rows set_sql_update)
    with only that(2) show ?thesis by (cases "pj_id q0 = i") simp_all
  qed
  ultimately have "find_entity project_table (snd (restore_project env rq cx org i p st)) org i = Some (restored (av_now env) p)"
    by (rule find_project_only)
  moreover have "\<exists>e. fst (unarchive_project env rq cx org i (restored (av_now env) p) s) = Inl e" for s
    using active_not_unarchived by (auto simp: unarchive_project_def move_project_def move_item_def conclude_def restored_def bindE_def)
  ultimately show ?thesis by (simp add: restored_def)
qed

theorem restored_keeps_archival_witness:
  "pj_status (restored 0 (sample_project\<lparr>pj_status := ''deleted'', pj_archivedAt := Some 1, pj_deletedAt := Some 2\<rparr>)) = ''active''
   \<and> pj_archivedAt (restored 0 (sample_project\<lparr>pj_status := ''deleted'', pj_archivedAt := Some 1, pj_deletedAt := Some 2\<rparr>)) = Some 1"
proof -
  let ?p = "sample_project\<lparr>pj_status := ''deleted'', pj_archivedAt := Some 1, pj_deletedAt := Some 2\<rparr>"
  have "slugs_unique sample_project_state"
    by (simp add: slugs_unique_def sample_project_state_def)
  moreover have "find_entity project_table sample_project_state (sample_uuid CHR ''1'') (sample_uuid CHR ''p'') = Some ?p"
    by (simp add: find_entity_def sample_project_state_def sample_project_def new_project_def)
  moreover have "\<exists>b. fst (restore_project sample_project_env (sample_request None) owner_vars (sample_uuid CHR ''1'')
      (sample_uuid CHR ''p'') ?p sample_project_state) = Inr (200, b)"
    using sample_uuid_ok
    by (simp add: restore_project_def conclude_def with_audit_def bindE_def audit_entry_def say_def)
  ultimately obtain b where "slugs_unique sample_project_state"
    "find_entity project_table sample_project_state (sample_uuid CHR ''1'') (sample_uuid CHR ''p'') = Some ?p"
    "fst (restore_project sample_project_env (sample_request None) owner_vars (sample_uuid CHR ''1'')
      (sample_uuid CHR ''p'') ?p sample_project_state) = Inr (200, b)" by blast
  from restored_keeps_archival [OF this] show ?thesis by (simp add: sample_access_env_def)
qed

text \<open>
  Whatever is done to the projects, archival and deletion included, no blob, job or policy changes: the keeper goes
  on renewing the blobs of a deleted project.
\<close>

theorem projects_leave_blobs:
  "db_blobs (ap_db (run_requests (project_request env) xs st)) = db_blobs (ap_db st)
   \<and> db_jobs (ap_db (run_requests (project_request env) xs st)) = db_jobs (ap_db st)
   \<and> db_policies (ap_db (run_requests (project_request env) xs st)) = db_policies (ap_db st)"
proof -
  define same where "same s \<longleftrightarrow> db_blobs (ap_db s) = db_blobs (ap_db st) \<and> db_jobs (ap_db s) = db_jobs (ap_db st)
      \<and> db_policies (ap_db s) = db_policies (ap_db st)" for s :: api_state
  have frames: "same (add_audit row s) = same s" "same (record_events es s) = same s" "same (s\<lparr>ap_access := d\<rparr>) = same s"
    "same (upd_projects i f s) = same s" "same (s\<lparr>ap_projects := ps\<rparr>) = same s" for row s es d i f ps
    by (simp_all add: same_def add_audit_def)
  have handler: "same (snd (project_handler env rq op cx s))" if "same s" for rq op cx s
    by (rule project_handler_cases [of same]) (auto simp: frames that dest: insert_project_ok edit_project_ok)
  have "same (run_requests (project_request env) xs st)"
  proof (rule run_requests_invariant [where I = same])
    fix rid x s assume "same s"
    then show "same (snd (project_request env rid x s))"
      by (cases x) (auto simp: project_request_def frames intro!: serve_ok_cases [of same] handler)
  qed (simp add: same_def)
  then show ?thesis by (simp add: same_def)
qed

end
