(* ===== verification/Scan_Cycle.thy ===== *)
theory Scan_Cycle
  imports Renewal_Queue Monitoring Notification_Engine
begin

text \<open>
  The cycle of the keeper, the callback that \<open>main\<close> of \<open>keeper/src/index.ts\<close> hands to cron: the scan behind the
  circuit breaker and the retries, the jobs written for the due vaults, the direct renewal of each vault, and behind
  them the delivery of alerts and the renewal queue. A database is configured. The vaults are renewed one after the
  other, as with \<open>CONCURRENT_RENEWALS=1\<close>; how several calls overlap is in Worker\_Pool. The answers of the
  scanner, of the transactions and of the notification service are parameters. Log lines are left out.
\<close>

section \<open>Configuration\<close>

record keeper_config =
  kc_rpcUrl :: string
  kc_keeperPrivateKey :: string
  kc_scanSchedule :: string
  kc_maxVaultsPerCycle :: "int option"
  kc_retryDelayMs :: "int option"
  kc_concurrentRenewals :: "int option"

definition env_or :: "string option \<Rightarrow> string \<Rightarrow> string" where
  "env_or v d = or_default (truthy v) d"

definition loadConfig :: "(string \<Rightarrow> string option) \<Rightarrow> keeper_config" where
  "loadConfig env =
     \<lparr>kc_rpcUrl = env_or (env ''SUI_RPC_URL'') ''https://fullnode.testnet.sui.io:443'',
      kc_keeperPrivateKey = env_or (env ''KEEPER_PRIVATE_KEY'') '''',
      kc_scanSchedule = env_or (env ''SCAN_SCHEDULE'') ''*/2 * * * *'',
      kc_maxVaultsPerCycle = parse_int (env_or (env ''MAX_VAULTS_PER_CYCLE'') ''50''),
      kc_retryDelayMs = parse_int (env_or (env ''RETRY_DELAY_MS'') ''5000''),
      kc_concurrentRenewals = parse_int (env_or (env ''CONCURRENT_RENEWALS'') ''5'')\<rparr>"

section \<open>State\<close>

text \<open>What the outside answers in one cycle; leadership is asked before the cycle and before each vault.\<close>

record cycle_env =
  sv_queue :: queue_env
  sv_notif :: notif_env
  sv_schedule :: string
  sv_concurrency :: "int option"
  sv_leader :: "nat \<Rightarrow> bool"
  sv_scan :: "nat \<Rightarrow> thrown + due_vault list"
  sv_exec :: "string \<Rightarrow> exec_env"
  sv_fee :: "string \<Rightarrow> thrown + string"
  sv_send :: "alert_event \<Rightarrow> thrown + bool list"
  sv_random :: "nat \<Rightarrow> rat"
  sv_trace :: string
  sv_stale :: "string option"

record keeper_state =
  ks_notif :: notif_state
  ks_monitor :: job_monitor
  ks_breaker :: kbreaker
  ks_metrics :: metrics
  ks_executor :: executor
  ks_alertCounts :: alert_counts
  ks_pending :: "bool list"
  ks_runs :: "(string \<times> nat list) list"

abbreviation ks_db :: "keeper_state \<Rightarrow> db" where
  "ks_db st \<equiv> nf_db (ks_notif st)"

abbreviation sv_now :: "cycle_env \<Rightarrow> int" where
  "sv_now env \<equiv> qe_now (sv_queue env)"

definition on_db :: "(db \<Rightarrow> db) \<Rightarrow> keeper_state \<Rightarrow> keeper_state" where
  "on_db f st = st\<lparr>ks_notif := (ks_notif st)\<lparr>nf_db := f (ks_db st)\<rparr>\<rparr>"

definition on_metrics :: "(metrics \<Rightarrow> metrics) \<Rightarrow> keeper_state \<Rightarrow> keeper_state" where
  "on_metrics f st = st\<lparr>ks_metrics := f (ks_metrics st)\<rparr>"

definition start_job ::
    "cycle_env \<Rightarrow> string \<Rightarrow> string \<Rightarrow> string \<Rightarrow> string option \<Rightarrow> keeper_state \<Rightarrow> thrown + string \<times> keeper_state" where
  "start_job env ty entityType entityId trace st =
     bindE (startJob (qe_id (sv_queue env) ''job_executions'' (length (mo_table (ks_monitor st)))) (sv_now env) ty
              (Some entityType) (Some entityId) None trace (ks_monitor st))
       (\<lambda>(i, m). Inr (i, st\<lparr>ks_monitor := m\<rparr>))"

definition complete_job :: "cycle_env \<Rightarrow> string \<Rightarrow> keeper_state \<Rightarrow> keeper_state" where
  "complete_job env i st = st\<lparr>ks_monitor := completeMonitorJob (sv_now env) i None (ks_monitor st)\<rparr>"

definition fail_started_job :: "cycle_env \<Rightarrow> string \<Rightarrow> string \<Rightarrow> keeper_state \<Rightarrow> keeper_state" where
  "fail_started_job env i msg st = st\<lparr>ks_monitor := failMonitorJob (sv_now env) i msg (ks_monitor st)\<rparr>"

section \<open>One vault\<close>

text \<open>The estimate of the newest job of the blob.\<close>

definition latest_estimate :: "db \<Rightarrow> string \<Rightarrow> int" where
  "latest_estimate d blob =
     (case first_row (sort_by (\<lambda>x y. rj_createdAt y \<le> rj_createdAt x)
             (filter (\<lambda>j. rj_blobRegistrationId j = blob) (db_jobs d))) of
        Some j \<Rightarrow> or_default (rj_estimatedCost j) 0
      | None \<Rightarrow> 0)"

text \<open>
  The checks before the transaction; the result says whether to go on. The organization of the registration is
  undefined, as the columns are read by other names, and a statement refuses an undefined parameter.
\<close>

definition direct_guard ::
    "cycle_env \<Rightarrow> due_vault \<Rightarrow> string \<Rightarrow> keeper_state \<Rightarrow> (thrown + bool) \<times> keeper_state" where
  "direct_guard env v jobId st =
     (case resolvePolicyForBlob (ks_db st) (dv_blobId v) of
        Inl e \<Rightarrow> (Inl e, st)
      | Inr p \<Rightarrow>
          if \<not> rp_autoRenewalEnabled p then (Inr False, st)
          else
            (case findBlobRegistrationByBlobId (ks_db st) (dv_blobId v) of
               None \<Rightarrow> (Inr True, st)
             | Some reg \<Rightarrow>
                 (case rg_orgId reg of
                    None \<Rightarrow> (Inl undefined_value, st)
                  | Some org \<Rightarrow>
                      (case checkBudgetBeforeExecution (ks_db st) (sv_now env) org (truthy (rg_projectId reg))
                              (rg_walletId reg) (truthy (rp_policyId p)) (latest_estimate (ks_db st) (rg_id reg)) False of
                         Inl e \<Rightarrow> (Inl e, st)
                       | Inr (check, evs) \<Rightarrow>
                           (let st1 = on_db (log_payloads (sv_queue env) evs) st in
                            if \<not> bc_allowed check
                            then (Inr False,
                              on_db (emitRenewalEvent (sv_queue env) ''blocked_by_budget'' org jobId
                                (Some [(''message'', JStr (or_default (bc_message check) ''Budget check failed'')),
                                       (''trigger'', JStr ''keeper'')]) (Some (sv_trace env))) st1)
                            else
                              (case resolvePublisherForRenewal (qe_heartbeat (sv_queue env)) (sv_now env) (ks_db st1)
                                      (truthy (rg_projectId reg)) org (rp_publisherPriorityOverride p) (ks_executor st1) of
                                 (ok, ex) \<Rightarrow> (Inr ok, st1\<lparr>ks_executor := ex\<rparr>)))))))"

definition direct_execute ::
    "cycle_env \<Rightarrow> due_vault \<Rightarrow> keeper_state \<Rightarrow> (thrown + renewal_result) \<times> keeper_state" where
  "direct_execute env v st =
     (case kb_start (sv_now env) (ks_breaker st) of
        (Inl e, b) \<Rightarrow> (Inl e, st\<lparr>ks_breaker := b\<rparr>)
      | (Inr _, b) \<Rightarrow>
          (case executeRenewal (sv_exec env (dv_id v)) (sv_fee env (dv_id v)) (ks_executor st) v of
             (r, t) \<Rightarrow>
               (r, on_db (log_payloads (sv_queue env) (xt_events t))
                     (st\<lparr>ks_breaker := kb_finish (is_ok r) (sv_now env) b,
                         ks_runs := ks_runs st @ [(dv_id v, xt_submitted t)]\<rparr>))))"

text \<open>The job written for the outcome; an error is logged only.\<close>

definition direct_record :: "int \<Rightarrow> registration_row \<Rightarrow> resolved_policy \<Rightarrow> thrown option \<Rightarrow> renewal_job_record" where
  "direct_record now reg p err =
     \<lparr>jr_orgId = rg_orgId reg, jr_blobRegistrationId = rg_id reg, jr_policyId = rp_policyId p,
      jr_status = (if err = None then ''succeeded'' else ''failed_final''), jr_attempt = 1,
      jr_maxAttempts = rp_maxRetries p, jr_lastError = (case err of Some e \<Rightarrow> err_message e | None \<Rightarrow> None),
      jr_estimatedCost = None, jr_blockedByLimitId = None, jr_startedAt = None, jr_completedAt = Some now,
      jr_estimatedAt = (if err = None then Some now else None), jr_scheduledFor = None, jr_priority = Some 200\<rparr>"

definition record_outcome :: "cycle_env \<Rightarrow> due_vault \<Rightarrow> thrown option \<Rightarrow> keeper_state \<Rightarrow> keeper_state" where
  "record_outcome env v err st =
     (case findBlobRegistrationByBlobId (ks_db st) (dv_blobId v) of
        None \<Rightarrow> st
      | Some reg \<Rightarrow>
          (case bindE (resolvePolicyForBlob (ks_db st) (dv_blobId v)) (\<lambda>p.
                  createRenewalJob (qe_id (sv_queue env) ''renewal_jobs'' (length (db_jobs (ks_db st)))) (sv_now env)
                    (direct_record (sv_now env) reg p err) (ks_db st)) of
             Inl _ \<Rightarrow> st
           | Inr (_, d) \<Rightarrow> on_db (\<lambda>_. d) st))"

fun alert_name :: "alert_type \<Rightarrow> string" where
  "alert_name InsufficientBalance = ''InsufficientBalance''"
| "alert_name PolicyExhausted = ''PolicyExhausted''"
| "alert_name RenewalExecuted = ''RenewalExecuted''"

text \<open>The job of a notification starts outside of its own \<open>try\<close>.\<close>

fun send_alerts :: "cycle_env \<Rightarrow> alert_event list \<Rightarrow> keeper_state \<Rightarrow> (thrown + unit) \<times> keeper_state" where
  "send_alerts env [] st = (Inr (), st)"
| "send_alerts env (a # as) st =
     (case start_job env ''notification'' ''alert'' (alert_name (al_type a)) None st of
        Inl e \<Rightarrow> (Inl e, st)
      | Inr (i, st1) \<Rightarrow>
          send_alerts env as
            (case sv_send env a of
               Inr rs \<Rightarrow> complete_job env i (st1\<lparr>ks_pending := ks_pending st1 @ rs\<rparr>)
             | Inl e \<Rightarrow> fail_started_job env i (or_default (err_message e) ''Notification send failed'') st1))"

text \<open>The body of \<open>try\<close>.\<close>

definition direct_attempt ::
    "cycle_env \<Rightarrow> due_vault \<Rightarrow> string \<Rightarrow> keeper_state \<Rightarrow> (thrown + unit) \<times> keeper_state" where
  "direct_attempt env v jobId st =
     (case direct_guard env v jobId st of
        (Inl e, st1) \<Rightarrow> (Inl e, st1)
      | (Inr False, st1) \<Rightarrow> (Inr (), complete_job env jobId st1)
      | (Inr True, st1) \<Rightarrow>
          (case direct_execute env v st1 of
             (Inl e, st2) \<Rightarrow> (Inl e, st2)
           | (Inr r, st2) \<Rightarrow>
               send_alerts env (rr_alerts r)
                 (record_outcome env v None (complete_job env jobId (on_metrics (recordSuccess (sv_now env) r) st2)))))"

definition renew_vault :: "cycle_env \<Rightarrow> nat \<Rightarrow> due_vault \<Rightarrow> keeper_state \<Rightarrow> (thrown + unit) \<times> keeper_state" where
  "renew_vault env k v st =
     (if \<not> sv_leader env (Suc k) then (Inr (), st)
      else case start_job env ''renewal'' ''blob'' (dv_blobId v) (Some (sv_trace env)) st of
             Inl e \<Rightarrow> (Inl e, st)
           | Inr (i, st1) \<Rightarrow>
               (case direct_attempt env v i (on_metrics (recordStart (sv_now env) (dv_id v)) st1) of
                  (Inr _, st2) \<Rightarrow> (Inr (), st2)
                | (Inl e, st2) \<Rightarrow>
                    (Inr (), record_outcome env v (Some e)
                       (fail_started_job env i (or_default (err_message e) ''undefined'')
                          (on_metrics (recordFailure (sv_now env) (dv_id v) e) st2)))))"

section \<open>The cycle\<close>

text \<open>One worker: a call that throws ends it. No number of workers at all renews nothing.\<close>

fun renew_all :: "cycle_env \<Rightarrow> nat \<Rightarrow> due_vault list \<Rightarrow> keeper_state \<Rightarrow> (thrown + unit) \<times> keeper_state" where
  "renew_all env k [] st = (Inr (), st)"
| "renew_all env k (v # vs) st =
     (case renew_vault env k v st of
        (Inl e, st1) \<Rightarrow> (Inl e, st1)
      | (Inr _, st1) \<Rightarrow> renew_all env (Suc k) vs st1)"

definition scan_vaults :: "cycle_env \<Rightarrow> keeper_state \<Rightarrow> (thrown + due_vault list) \<times> keeper_state" where
  "scan_vaults env st =
     (case kb_start (sv_now env) (ks_breaker st) of
        (Inl e, b) \<Rightarrow> (Inl e, st\<lparr>ks_breaker := b\<rparr>)
      | (Inr _, b) \<Rightarrow>
          (let r = fst (kw_withRetry (sv_scan env) (sv_random env) (kretry_defaults (Some 2) (Some 2000) None (Some ''scan'')))
           in (r, st\<lparr>ks_breaker := kb_finish (is_ok r) (sv_now env) b\<rparr>)))"

text \<open>The body of \<open>try\<close>; the result says whether the callback returns.\<close>

definition scan_phase :: "cycle_env \<Rightarrow> string \<Rightarrow> keeper_state \<Rightarrow> (thrown + bool) \<times> keeper_state" where
  "scan_phase env cycleJobId st =
     (case scan_vaults env st of
        (Inl e, st1) \<Rightarrow> (Inl e, st1)
      | (Inr [], st1) \<Rightarrow> (Inr True, complete_job env cycleJobId st1)
      | (Inr vs, st1) \<Rightarrow>
          (let n = length (db_jobs (ks_db st1));
               st2 = on_db (queue_due_vaults (\<lambda>k. qe_id (sv_queue env) ''renewal_jobs'' (n + k)) (sv_now env) (map dv_blobId vs))
                       (on_metrics (setQueueDepth (int (length vs))) st1)
           in if sv_concurrency env = None then (Inr False, st2)
              else (case renew_all env 0 vs st2 of
                      (Inl e, st3) \<Rightarrow> (Inl e, st3)
                    | (Inr _, st3) \<Rightarrow> (Inr False, st3))))"

text \<open>A systemic error is handed over; what the handler itself throws is logged.\<close>

definition hand_over :: "cycle_env \<Rightarrow> string \<Rightarrow> string \<Rightarrow> thrown \<Rightarrow> keeper_state \<Rightarrow> keeper_state" where
  "hand_over env component remediation e st =
     (case as_error e of
        ErrObj f c \<Rightarrow>
          (case handleSystemicError (qe_id (sv_queue env)) (sv_now env) (e_name f) (e_msg f) None
                  \<lparr>sy_affectedOrgCount = None, sy_affectedTenantCount = None, sy_component = component,
                   sy_remediation = Some remediation, sy_traceId = None\<rparr> (ks_alertCounts st) (ks_db st) of
             (_, counts, d) \<Rightarrow> on_db (\<lambda>_. d) (st\<lparr>ks_alertCounts := counts\<rparr>))
      | Prim _ \<Rightarrow> st)"

definition queue_phase :: "cycle_env \<Rightarrow> keeper_state \<Rightarrow> keeper_state" where
  "queue_phase env st =
     (let oc = processRenewalQueue ((sv_queue env)\<lparr>qe_executor := ks_executor st\<rparr>) (sv_stale env) (ks_db st);
          st1 = on_db (\<lambda>_. oc_db oc) (st\<lparr>ks_runs := ks_runs st @ oc_runs oc\<rparr>)
      in case oc_error oc of
           None \<Rightarrow> st1
         | Some e \<Rightarrow> hand_over env ''keeper.renewal-queue'' ''Check database connectivity and renewal job integrity'' e st1)"

definition scan_cycle :: "cycle_env \<Rightarrow> keeper_state \<Rightarrow> (thrown + unit) \<times> keeper_state" where
  "scan_cycle env st =
     (if \<not> sv_leader env 0 then (Inr (), st)
      else case start_job env ''scan'' ''cycle'' (sv_schedule env) (Some (sv_trace env)) st of
             Inl e \<Rightarrow> (Inl e, st)
           | Inr (i, st1) \<Rightarrow>
               (case scan_phase env i st1 of
                  (Inr True, st2) \<Rightarrow> (Inr (), st2)
                | (r, st2) \<Rightarrow>
                    (let st3 = (case r of
                           Inl e \<Rightarrow> hand_over env ''keeper.scan-cycle''
                             ''Check Sui RPC connectivity, database connectivity, and inspect logs'' e st2
                         | Inr _ \<Rightarrow> st2);
                         st4 = st3\<lparr>ks_pending := []\<rparr>
                     in (Inr (), queue_phase env (st4\<lparr>ks_notif := processFiredAlerts (sv_notif env) (ks_notif st4)\<rparr>)))))"

section \<open>Facts\<close>

lemma on_db_sel [simp]:
  "ks_runs (on_db f st) = ks_runs st" "ks_db (on_db f st) = f (ks_db st)" "ks_monitor (on_db f st) = ks_monitor st"
  "ks_metrics (on_db f st) = ks_metrics st" "ks_breaker (on_db f st) = ks_breaker st"
  by (simp_all add: on_db_def)

lemma on_metrics_sel [simp]:
  "ks_runs (on_metrics f st) = ks_runs st" "ks_notif (on_metrics f st) = ks_notif st"
  by (simp_all add: on_metrics_def)

lemma job_sel [simp]:
  "ks_runs (complete_job env i st) = ks_runs st" "ks_notif (complete_job env i st) = ks_notif st"
  "ks_runs (fail_started_job env i m st) = ks_runs st" "ks_notif (fail_started_job env i m st) = ks_notif st"
  by (simp_all add: complete_job_def fail_started_job_def)

lemma start_job_error: "\<not> is_uuid i \<Longrightarrow> start_job env ty ety i trace st = Inl (uuid_error i)"
  by (simp add: start_job_def startJob_def uuid_param_def)

lemma start_job_ok:
  "start_job env ty ety i trace st = Inr (j, st') \<Longrightarrow> is_uuid i \<and> (\<exists>m. st' = st\<lparr>ks_monitor := m\<rparr>)"
  by (auto simp: start_job_def startJob_def uuid_param_def bindE_Inr_iff split: if_splits)

text \<open>No text with a space is a uuid, which every cron expression has; no alert type is one either.\<close>

lemma uuid_digits_chars: "uuid_digits k s \<Longrightarrow> c \<in> set s \<Longrightarrow> hex_digit c \<or> c = CHR ''-''"
proof (induction s arbitrary: k)
  case (Cons d ds)
  then show ?case by (cases "hex_digit d") (auto split: list.splits)
qed simp

lemma not_hex_space: "\<not> hex_digit CHR '' ''"
  by (simp add: hex_digit_def is_digit_def less_eq_char_def)

lemma space_not_uuid: "CHR '' '' \<in> set s \<Longrightarrow> \<not> is_uuid s"
proof
  assume space: "CHR '' '' \<in> set s" and uuid: "is_uuid s"
  show False
  proof (cases "s \<noteq> [] \<and> hd s = CHR ''{''")
    case True
    with uuid have digits: "uuid_digits 0 (butlast (tl s))" and last: "last s = CHR ''}''" by (simp_all add: is_uuid_def)
    from True obtain c cs where s: "s = c # cs" "c = CHR ''{''" by (cases s) auto
    with last have "cs \<noteq> []" by auto
    with s last have "cs = butlast cs @ [CHR ''}'']" using append_butlast_last_id [of cs] by simp
    with s have "set s = insert c (insert (CHR ''}'') (set (butlast cs)))" by (metis list.simps(15) rotate1.simps(2) set_rotate1)
    with space s have "CHR '' '' \<in> set (butlast cs)" by auto
    with uuid_digits_chars [OF digits] s not_hex_space show False by auto
  next
    case False
    with uuid have "uuid_digits 0 s" by (simp only: is_uuid_def if_False)
    from uuid_digits_chars [OF this space] not_hex_space show False by simp
  qed
qed

lemma alert_not_uuid: "\<not> is_uuid (alert_name t)"
  by (cases t) (simp_all add: is_uuid_def hex_digit_def is_digit_def less_eq_char_def)

lemma alerts_fail: "send_alerts env (a # as) st = (Inl (uuid_error (alert_name (al_type a))), st)"
  by (simp add: start_job_error alert_not_uuid)

lemma send_alerts_eq: "send_alerts env as st = (case as of [] \<Rightarrow> (Inr (), st) | a # _ \<Rightarrow> (Inl (uuid_error (alert_name (al_type a))), st))"
  by (cases as) (simp_all only: alerts_fail send_alerts.simps list.case)

declare send_alerts.simps [simp del]

lemma record_outcome_runs [simp]: "ks_runs (record_outcome env v err st) = ks_runs st"
  by (simp add: record_outcome_def split: option.split sum.split prod.split)

subsection \<open>The direct path\<close>

text \<open>The checks go on for a blob without a registration only: the others fail at the undefined organization.\<close>

lemma direct_guard_spec:
  "direct_guard env v j st =
    (case resolvePolicyForBlob (ks_db st) (dv_blobId v) of
       Inl e \<Rightarrow> (Inl e, st)
     | Inr p \<Rightarrow> if \<not> rp_autoRenewalEnabled p then (Inr False, st)
         else if findBlobRegistrationByBlobId (ks_db st) (dv_blobId v) = None then (Inr True, st)
         else (Inl undefined_value, st))"
  by (auto simp: direct_guard_def findBlobRegistrationByBlobId_def as_registration_def split: sum.split option.split)

lemma direct_execute_runs:
  "ks_runs (snd (direct_execute env v st)) \<in> {ks_runs st, ks_runs st @ [(dv_id v, xt_submitted
      (snd (executeRenewal (sv_exec env (dv_id v)) (sv_fee env (dv_id v)) (ks_executor st) v)))]}"
  by (auto simp: direct_execute_def split: prod.split sum.split)

lemma direct_attempt_runs:
  assumes "ks_runs (snd (direct_attempt env v j st)) \<noteq> ks_runs st"
  shows "findBlobRegistrationByBlobId (ks_db st) (dv_blobId v) = None
    \<and> (\<exists>p. resolvePolicyForBlob (ks_db st) (dv_blobId v) = Inr p \<and> rp_autoRenewalEnabled p)"
  using assms
  by (auto simp: direct_attempt_def direct_guard_spec split: sum.splits if_splits)

lemma direct_attempt_submits:
  assumes "direct_guard env v j st = (Inr True, st)" and "kb_state (ks_breaker st) = CLOSED"
  shows "ks_runs (snd (direct_attempt env v j st)) = ks_runs st @ [(dv_id v, xt_submitted
      (snd (executeRenewal (sv_exec env (dv_id v)) (sv_fee env (dv_id v)) (ks_executor st) v)))]"
  using assms
  by (simp add: direct_attempt_def direct_execute_def kb_start_def Let_def send_alerts_eq split: prod.split sum.split list.split)

lemma enabled_policy_registered:
  "resolvePolicyForBlob d blobId = Inr p \<Longrightarrow> rp_autoRenewalEnabled p \<Longrightarrow> \<exists>b \<in> set (db_blobs d). bl_blobId b = blobId"
  by (auto simp: resolvePolicyForBlob_def no_policy_def split: option.splits dest!: first_row_filter_SomeD)

lemma unregistered_removed:
  "findBlobRegistrationByBlobId d blobId = None \<longleftrightarrow>
     (\<forall>b \<in> set (db_blobs d). bl_blobId b = blobId \<longrightarrow> bl_status b \<in> {''archived'', ''deleted''})"
  by (auto simp: findBlobRegistrationByBlobId_def first_row_filter_None)

section \<open>Properties\<close>

definition keeper_cycles :: "cycle_env list \<Rightarrow> keeper_state \<Rightarrow> keeper_state" where
  "keeper_cycles envs st = fold (\<lambda>env st. snd (scan_cycle env st)) envs st"

text \<open>
  C31: the keeper never gets to work: the first statement of its cycle writes the cron expression into a column of uuids,
  so that with any expression, the default one included, the callback throws before the scan and changes nothing. No
  vault is scanned or renewed, no job of the queue processed and no alert delivered, in any number of cycles.
\<close>

theorem scan_cycle_never_starts:
  assumes "\<forall>env \<in> set envs. CHR '' '' \<in> set (sv_schedule env)"
  shows "keeper_cycles envs st = st
    \<and> (\<forall>env \<in> set envs. sv_leader env 0 \<longrightarrow> fst (scan_cycle env st) = Inl (uuid_error (sv_schedule env)))"
proof -
  have stuck: "scan_cycle env s = (if sv_leader env 0 then Inl (uuid_error (sv_schedule env)) else Inr (), s)"
    if "CHR '' '' \<in> set (sv_schedule env)" for env s
    using space_not_uuid [OF that] by (simp add: scan_cycle_def start_job_error)
  have "keeper_cycles envs s = s" for s
    using assms unfolding keeper_cycles_def by (induction envs arbitrary: s) (simp_all add: stuck)
  with assms show ?thesis by (simp add: stuck)
qed

text \<open>
  C32: nor would the direct path renew what it should: a transaction is submitted only for a blob all of whose
  registrations are archived or deleted, with the identifier of a blob that reads as a uuid. The live registrations
  fail at the budget check, as their organization is undefined, and unknown blobs have no policy.
\<close>

theorem direct_path_renews_removed_only:
  assumes "ks_runs (snd (renew_vault env k v st)) \<noteq> ks_runs st"
  shows "is_uuid (dv_blobId v) \<and> (\<exists>b \<in> set (db_blobs (ks_db st)). bl_blobId b = dv_blobId v)
    \<and> (\<forall>b \<in> set (db_blobs (ks_db st)). bl_blobId b = dv_blobId v \<longrightarrow> bl_status b \<in> {''archived'', ''deleted''})"
proof -
  from assms have leader: "sv_leader env (Suc k)" by (auto simp: renew_vault_def split: if_splits)
  with assms obtain i st1 where start: "start_job env ''renewal'' ''blob'' (dv_blobId v) (Some (sv_trace env)) st = Inr (i, st1)"
    by (cases "start_job env ''renewal'' ''blob'' (dv_blobId v) (Some (sv_trace env)) st") (auto simp: renew_vault_def)
  from start_job_ok [OF start] obtain m where uuid: "is_uuid (dv_blobId v)" and st1: "st1 = st\<lparr>ks_monitor := m\<rparr>" by blast
  let ?st = "on_metrics (recordStart (sv_now env) (dv_id v)) st1"
  from assms leader start st1 have "ks_runs (snd (direct_attempt env v i ?st)) \<noteq> ks_runs ?st"
    by (auto simp: renew_vault_def split: prod.splits sum.splits)
  from direct_attempt_runs [OF this] st1 have "findBlobRegistrationByBlobId (ks_db st) (dv_blobId v) = None"
    "\<exists>p. resolvePolicyForBlob (ks_db st) (dv_blobId v) = Inr p \<and> rp_autoRenewalEnabled p" by simp_all
  with uuid show ?thesis using enabled_policy_registered unfolding unregistered_removed by blast
qed

text \<open>
  A cycle that finds nothing due returns before the alerts and the queue: nothing else is delivered or renewed in it.
\<close>

theorem idle_cycle_skips_queue:
  assumes "is_uuid (sv_schedule env)" and "sv_leader env 0"
    and "kb_state (ks_breaker st) = CLOSED" and "sv_scan env 0 = Inr []"
  shows "fst (scan_cycle env st) = Inr () \<and> ks_notif (snd (scan_cycle env st)) = ks_notif st
    \<and> ks_runs (snd (scan_cycle env st)) = ks_runs st"
proof -
  from assms(1) obtain i m where start: "start_job env ''scan'' ''cycle'' (sv_schedule env) (Some (sv_trace env)) st
      = Inr (i, st\<lparr>ks_monitor := m\<rparr>)"
    by (auto simp: start_job_def startJob_def uuid_param_def)
  let ?opts = "kretry_defaults (Some 2) (Some 2000) None (Some ''scan'')"
  have "fst (kw_withRetry (sv_scan env) (sv_random env) ?opts) = Inr []"
    using assms(4) by (simp add: kw_withRetry_def kw_loop.simps kretry_defaults_def)
  with assms(3) have scan: "scan_vaults env (st\<lparr>ks_monitor := m\<rparr>)
      = (Inr [], st\<lparr>ks_monitor := m, ks_breaker := kb_finish True (sv_now env) (ks_breaker st)\<rparr>)"
    by (simp add: scan_vaults_def kb_start_def Let_def)
  then show ?thesis using assms(2) start by (simp add: scan_cycle_def scan_phase_def)
qed

text \<open>
  A renewal that leaves an alert counts twice: it is recorded as a success, and then it fails, as the job of the
  notification cannot start; the alert is never sent.
\<close>

theorem alerted_renewal_recorded_twice:
  assumes "direct_guard env v j st = (Inr True, s)" and "direct_execute env v s = (Inr r, s1)"
    and "rr_alerts r \<noteq> []" and "length (mt_results (ks_metrics s1)) < maxResults"
  shows "fst (direct_attempt env v j st) = Inl (uuid_error (alert_name (al_type (hd (rr_alerts r)))))
    \<and> r \<in> set (mt_results (ks_metrics (snd (direct_attempt env v j st))))
    \<and> ks_pending (snd (direct_attempt env v j st)) = ks_pending s1"
proof -
  from assms(3) obtain a as where alerts: "rr_alerts r = a # as" by (cases "rr_alerts r") auto
  have "ks_metrics (record_outcome env v err t) = ks_metrics t" "ks_pending (record_outcome env v err t) = ks_pending t"
    "ks_metrics (complete_job env j t) = ks_metrics t" "ks_pending (complete_job env j t) = ks_pending t"
    "ks_pending (on_metrics f t) = ks_pending t" for err t f
    by (simp_all add: record_outcome_def complete_job_def on_db_def on_metrics_def split: option.split sum.split prod.split)
  with assms(1,2,4) alerts show ?thesis
    by (simp add: direct_attempt_def send_alerts_eq on_metrics_def recordSuccess_def push_capped_def Let_def)
qed

section \<open>Witnesses\<close>

definition sample_cycle_env :: "string \<Rightarrow> cycle_env" where
  "sample_cycle_env schedule =
     \<lparr>sv_queue = sample_queue (Inl (js_Error ''x'')),
      sv_notif = \<lparr>ne_now = 0, ne_id = (\<lambda>t n. t), ne_channels = Map.empty, ne_decrypt = Inr\<rparr>,
      sv_schedule = schedule, sv_concurrency = Some 1, sv_leader = (\<lambda>_. True), sv_scan = (\<lambda>_. Inr []),
      sv_exec = (\<lambda>_. sample_env (Inr \<lparr>tx_digest = ''D'', tx_effects = Some
        \<lparr>fx_success = True, fx_error = None, fx_computationCost = Some ''12''\<rparr>, tx_events = [low_balance_event]\<rparr>)),
      sv_fee = (\<lambda>_. Inr ''0xf''), sv_send = (\<lambda>_. Inr [True]), sv_random = (\<lambda>_. 0), sv_trace = ''t'', sv_stale = None\<rparr>"

definition sample_uuid_text :: string where
  "sample_uuid_text = ''00000000000000000000000000000000''"

lemma sample_text_uuid: "is_uuid sample_uuid_text"
  by (simp add: sample_uuid_text_def is_uuid_def hex_digit_def is_digit_def less_eq_char_def)

definition sample_due :: due_vault where
  "sample_due = sample_vault\<lparr>dv_blobId := sample_uuid_text\<rparr>"

definition sample_keeper :: keeper_state where
  "sample_keeper =
     \<lparr>ks_notif =
        \<lparr>nf_db = sample_queue_db
           \<lparr>db_blobs := [(new_blob ''r'' 0 ''o'' ''p'' sample_uuid_text)\<lparr>bl_status := ''deleted''\<rparr>]\<rparr>,
         nf_rules = [], nf_channels = [], nf_notifications = [], nf_flapping = Map.empty, nf_sends = []\<rparr>,
      ks_monitor = new_monitor 1000 [], ks_breaker = kb_new (Some 5) (Some 30000) None None,
      ks_metrics = new_metrics, ks_executor = sample_executor, ks_alertCounts = Map.empty, ks_pending = [], ks_runs = []\<rparr>"

lemma sample_keeper_sel [simp]:
  "ks_db sample_keeper = sample_queue_db
     \<lparr>db_blobs := [(new_blob ''r'' 0 ''o'' ''p'' sample_uuid_text)\<lparr>bl_status := ''deleted''\<rparr>]\<rparr>"
  "ks_breaker sample_keeper = kb_new (Some 5) (Some 30000) None None" "ks_executor sample_keeper = sample_executor"
  "ks_runs sample_keeper = []" "ks_metrics sample_keeper = new_metrics"
  by (simp_all add: sample_keeper_def)

theorem scan_cycle_never_starts_witness:
  "keeper_cycles [sample_cycle_env (kc_scanSchedule (loadConfig (\<lambda>_. None)))] sample_keeper = sample_keeper
   \<and> fst (scan_cycle (sample_cycle_env (kc_scanSchedule (loadConfig (\<lambda>_. None)))) sample_keeper)
       = Inl (uuid_error ''*/2 * * * *'')"
proof -
  have s: "kc_scanSchedule (loadConfig (\<lambda>_. None)) = ''*/2 * * * *''"
    by (simp add: loadConfig_def env_or_def truthy_def)
  show ?thesis
    unfolding s using scan_cycle_never_starts [of "[sample_cycle_env ''*/2 * * * *'']" sample_keeper]
    by (simp add: sample_cycle_env_def)
qed

lemma sample_guard:
  "ks_notif st = ks_notif sample_keeper \<Longrightarrow> direct_guard (sample_cycle_env s) sample_due j st = (Inr True, st)"
  by (simp add: direct_guard_spec sample_due_def resolvePolicyForBlob_def resolveEffectivePolicy_def sample_queue_db_def
      new_blob_def findExplicitBlobAssignment_def explicitPolicies_def new_policy_def toResolvedPolicy_def Let_def
      findBlobRegistrationByBlobId_def)

theorem direct_path_renews_removed_only_witness:
  "is_uuid (dv_blobId sample_due)
   \<and> (\<exists>b \<in> set (db_blobs (ks_db sample_keeper)). bl_blobId b = dv_blobId sample_due)"
proof -
  let ?env = "sample_cycle_env ''x''"
  obtain i m where start: "start_job ?env ''renewal'' ''blob'' (dv_blobId sample_due) (Some (sv_trace ?env)) sample_keeper
      = Inr (i, sample_keeper\<lparr>ks_monitor := m\<rparr>)"
    using sample_text_uuid by (auto simp: start_job_def startJob_def uuid_param_def sample_due_def)
  let ?st = "on_metrics (recordStart (sv_now ?env) (dv_id sample_due)) (sample_keeper\<lparr>ks_monitor := m\<rparr>)"
  have "ks_runs (snd (direct_attempt ?env sample_due i ?st)) \<noteq> []"
    by (subst direct_attempt_submits [OF sample_guard]) (simp_all add: on_metrics_def sample_keeper_def kb_new_def)
  moreover have "sv_leader ?env n" for n by (simp add: sample_cycle_env_def)
  ultimately have "ks_runs (snd (renew_vault ?env 0 sample_due sample_keeper)) \<noteq> ks_runs sample_keeper"
    using start by (auto simp: renew_vault_def split: prod.split sum.split)
  from direct_path_renews_removed_only [OF this] show ?thesis by blast
qed

theorem idle_cycle_skips_queue_witness:
  "fst (scan_cycle (sample_cycle_env sample_uuid_text) sample_keeper) = Inr ()
   \<and> ks_runs (snd (scan_cycle (sample_cycle_env sample_uuid_text) sample_keeper)) = []"
  using idle_cycle_skips_queue [of "sample_cycle_env sample_uuid_text" sample_keeper] sample_text_uuid
  by (simp add: sample_cycle_env_def kb_new_def)

theorem alerted_renewal_recorded_twice_witness:
  "\<exists>r. rr_alerts r \<noteq> []
     \<and> fst (direct_attempt (sample_cycle_env ''x'') sample_due ''j'' sample_keeper) = Inl (uuid_error ''InsufficientBalance'')
     \<and> r \<in> set (mt_results (ks_metrics (snd (direct_attempt (sample_cycle_env ''x'') sample_due ''j'' sample_keeper))))"
proof -
  let ?env = "sample_cycle_env ''x''"
  have "to_bigint ''9'' = Inr 9" "to_bigint ''5'' = Inr 5" "to_bigint ''12'' = Inr 12"
    by (simp_all add: to_bigint_def parse_bigint_def is_digit_def digits_val_def digit_val_def)
  note nums = this
  obtain r t where run: "executeRenewal (sv_exec ?env (dv_id sample_due)) (sv_fee ?env (dv_id sample_due)) sample_executor sample_due
      = (Inr r, t)" and alerts: "rr_alerts r \<noteq> []" "al_type (hd (rr_alerts r)) = InsufficientBalance"
    using nums
    by (simp add: executeRenewal_def numeral_3_eq_3 sample_cycle_env_def sample_env_def run_round_def settle_tx_def Let_def
        truthy_def low_balance_event_def event_alerts_def ends_with_def big_field_def plain_alert_def)
  obtain s1 where exec: "direct_execute ?env sample_due sample_keeper = (Inr r, s1)" "ks_metrics s1 = new_metrics"
    using run by (simp add: direct_execute_def kb_start_def kb_new_def Let_def)
  have room: "length (mt_results (ks_metrics s1)) < maxResults"
    by (simp add: exec(2) new_metrics_def maxResults_def)
  from alerted_renewal_recorded_twice [OF sample_guard [OF refl] exec(1) alerts(1) room, of "''j''"] alerts
  show ?thesis by auto
qed

end
