(* ===== verification/Key_Routes.thy ===== *)
theory Key_Routes
  imports Route_Base
begin

text \<open>
  API keys, \<open>api/src/routes/api-keys.ts\<close>: creation, rotation and revocation. The random bytes of a key are an input of
  the operation; only their hash is stored. The list is left out.
\<close>

section \<open>Inputs\<close>

record key_body =
  kb_name :: string
  kb_role :: "string option"
  kb_permissions :: "string list option"
  kb_expiresAt :: "int option"

definition key_body_ok :: "key_body \<Rightarrow> bool" where
  "key_body_ok b \<longleftrightarrow> 1 \<le> length (kb_name b) \<and> length (kb_name b) \<le> 100
     \<and> pred_option (\<lambda>r. r \<in> {''admin'', ''member'', ''viewer''}) (kb_role b)"

section \<open>Statements\<close>

definition api_keys :: "api_state \<Rightarrow> api_key_row list" where
  "api_keys st = ac_apiKeys (ap_access st)"

definition on_keys :: "(api_key_row list \<Rightarrow> api_key_row list) \<Rightarrow> api_state \<Rightarrow> api_state" where
  "on_keys f st = st\<lparr>ap_access := (ap_access st)\<lparr>ac_apiKeys := f (ac_apiKeys (ap_access st))\<rparr>\<rparr>"

definition raw_key :: "string \<Rightarrow> string" where
  "raw_key random = ''wak_'' @ random"

definition new_key :: "api_env \<Rightarrow> string \<Rightarrow> string \<Rightarrow> string \<Rightarrow> key_body \<Rightarrow> string \<Rightarrow> api_key_row" where
  "new_key env i org user b raw =
     \<lparr>ak_id = i, ak_orgId = org, ak_userId = user, ak_name = kb_name b, ak_keyHash = ae_sha256 (av_access env) raw,
      ak_previousKeyHash = None, ak_keyPrefix = take 12 raw,
      ak_role = Some (case truthy (kb_role b) of Some r \<Rightarrow> r | None \<Rightarrow> ''member''),
      ak_permissions = or_default (kb_permissions b) [], ak_status = ''active'', ak_rotatedAt = None,
      ak_expiresAt = kb_expiresAt b, ak_lastUsedAt = None, ak_deletedAt = None, ak_createdAt = av_now env\<rparr>"

text \<open>The organization and the user of the request are in the columns; neither is absent behind the guards.\<close>

definition insert_key :: "api_key_row \<Rightarrow> api_state \<Rightarrow> thrown + api_state" where
  "insert_key k st =
     (if ak_id k \<in> ak_id ` set (api_keys st) then Inl (duplicate_key ''api_keys_pkey'')
      else if \<not> is_uuid (ak_userId k) then Inl (uuid_error (ak_userId k))
      else Inr (on_keys (\<lambda>ks. ks @ [k]) st))"

definition rotated :: "api_env \<Rightarrow> string \<Rightarrow> string \<Rightarrow> api_key_row \<Rightarrow> api_key_row" where
  "rotated env raw old k =
     k\<lparr>ak_previousKeyHash := Some old, ak_keyHash := ae_sha256 (av_access env) raw, ak_keyPrefix := take 12 raw,
       ak_status := ''rotated'', ak_rotatedAt := Some (av_now env)\<rparr>"

section \<open>Handlers\<close>

text \<open>An answer shows the row and, once, the raw key.\<close>

datatype key_answer = KeyIssued api_key_row string

definition permissions_json :: "key_body \<Rightarrow> (string \<times> json) list" where
  "permissions_json b = (case kb_permissions b of Some ps \<Rightarrow> [(''permissions'', JArr (map JStr ps))] | None \<Rightarrow> [])"

definition create_key ::
    "api_env \<Rightarrow> request \<Rightarrow> request_vars \<Rightarrow> key_body \<Rightarrow> string \<Rightarrow> api_state \<Rightarrow> key_answer handled" where
  "create_key env rq cx b random st =
     (case (cx_orgId cx, cx_userId cx) of
        (Some org, Some user) \<Rightarrow>
          (let i = av_id env ''api_keys'' (length (api_keys st)); raw = raw_key random; k = new_key env i org user b raw;
               details = Some (JObj ((''name'', JStr (kb_name b)) # permissions_json b))
           in conclude
                (with_audit env rq cx (insert_key k) (entity_spec ''api_key'' ''api_key.created'' details) i st)
                [owner_event env cx org ''api_key.created'' ''api_key'' i details] (201, Row (KeyIssued k raw)) st)
      | _ \<Rightarrow> (Inl undefined_arg, st))"

text \<open>The key of the path, which must not be revoked.\<close>

definition on_key ::
    "request \<Rightarrow> request_vars \<Rightarrow> (string \<Rightarrow> string \<Rightarrow> api_key_row \<Rightarrow> api_state \<Rightarrow> key_answer handled)
     \<Rightarrow> api_state \<Rightarrow> key_answer handled" where
  "on_key rq cx k st =
     (case (rq_param rq ''id'', cx_orgId cx) of
        (Some i, Some org) \<Rightarrow>
          if \<not> is_uuid i then (Inl (uuid_error i), st)
          else (case first_row (filter (\<lambda>a. ak_id a = i \<and> ak_orgId a = org) (api_keys st)) of
                  None \<Rightarrow> (Inr (api_error [] 404 ''API key not found'' ''NOT_FOUND''), st)
                | Some a \<Rightarrow> if ak_status a = ''revoked'' then invalid ''API key is already revoked'' st else k org i a st)
      | _ \<Rightarrow> (Inl undefined_arg, st))"

definition key_details :: "string \<Rightarrow> string \<Rightarrow> json option" where
  "key_details name prefix = Some (JObj [(''name'', JStr name), (''keyPrefix'', JStr prefix)])"

definition rotate_key ::
    "api_env \<Rightarrow> request \<Rightarrow> request_vars \<Rightarrow> string \<Rightarrow> string \<Rightarrow> string \<Rightarrow> api_key_row \<Rightarrow> api_state \<Rightarrow> key_answer handled" where
  "rotate_key env rq cx random org i a st =
     (let raw = raw_key random; details = key_details (ak_name a) (take 12 raw) in
      case validateTransition loaded_machines SM_api_key (ak_status a) ''rotated'' False of
        Inl e \<Rightarrow> (Inl e, st)
      | Inr _ \<Rightarrow>
          conclude
            (with_audit env rq cx (\<lambda>s. Inr (on_keys (sql_update (\<lambda>x. ak_id x = i)
                (rotated env raw (ak_keyHash a))) s))
               (entity_spec ''api_key'' ''api_key.rotated'' details) i st)
            [owner_event env cx org ''api_key.rotated'' ''api_key'' i details] (200, Row (KeyIssued (rotated env raw (ak_keyHash a) a) raw)) st)"

definition revoke_key ::
    "api_env \<Rightarrow> request \<Rightarrow> request_vars \<Rightarrow> string \<Rightarrow> string \<Rightarrow> api_key_row \<Rightarrow> api_state \<Rightarrow> key_answer handled" where
  "revoke_key env rq cx org i a st =
     (let details = key_details (ak_name a) (ak_keyPrefix a) in
      case validateTransition loaded_machines SM_api_key (ak_status a) ''revoked'' False of
        Inl e \<Rightarrow> (Inl e, st)
      | Inr _ \<Rightarrow>
          conclude
            (with_audit env rq cx (\<lambda>s. Inr (on_keys (sql_update (\<lambda>x. ak_id x = i)
                (\<lambda>x. x\<lparr>ak_status := ''revoked'', ak_deletedAt := Some (av_now env)\<rparr>)) s))
               (entity_spec ''api_key'' ''api_key.revoked'' details) i st)
            [owner_event env cx org ''api_key.revoked'' ''api_key'' i details] (say ''API key revoked'') st)"

section \<open>Routes\<close>

datatype key_op = CreateKey key_body string | RotateKey string | RevokeKey

fun key_handler :: "api_env \<Rightarrow> request \<Rightarrow> key_op \<Rightarrow> request_vars \<Rightarrow> api_state \<Rightarrow> key_answer handled" where
  "key_handler env rq (CreateKey b random) cx st = create_key env rq cx b random st"
| "key_handler env rq (RotateKey random) cx st = on_key rq cx (rotate_key env rq cx random) st"
| "key_handler env rq RevokeKey cx st = on_key rq cx (revoke_key env rq cx) st"

fun key_op_ok :: "key_op \<Rightarrow> bool" where
  "key_op_ok (CreateKey b random) = key_body_ok b"
| "key_op_ok _ = True"

definition key_request ::
    "api_env \<Rightarrow> string \<Rightarrow> request \<times> key_op \<Rightarrow> api_state \<Rightarrow> key_answer body reply \<times> api_state" where
  "key_request env rid x st =
     (case x of (rq, op) \<Rightarrow>
        serve env rid [GAuth, GOrg, GCap [MANAGE_API_KEYS]] rq (key_op_ok op) (key_handler env rq op) st)"

section \<open>Facts\<close>

lemma api_keys_simps [simp]:
  "api_keys (on_keys f st) = f (api_keys st)" "api_keys (add_audit a st) = api_keys st"
  "api_keys (record_events es st) = api_keys st" "ac_orgs (ap_access (on_keys f st)) = ac_orgs (ap_access st)"
  by (simp_all add: api_keys_def on_keys_def)

lemma insert_key_ok:
  "insert_key k st = Inr st1 \<Longrightarrow> st1 = on_keys (\<lambda>ks. ks @ [k]) st \<and> ak_id k \<notin> ak_id ` set (api_keys st)"
  by (auto simp: insert_key_def split: if_splits)

lemma create_key_cases:
  obtains "snd (create_key env rq cx b random st) = st" and "\<forall>a. fst (create_key env rq cx b random st) \<noteq> Inr a"
  | org user i audit es where "cx_orgId cx = Some org" and "cx_userId cx = Some user"
    "i \<notin> ak_id ` set (api_keys st)" "i \<in> range (av_id env ''api_keys'')"
    "create_key env rq cx b random st
      = (Inr (201, Row (KeyIssued (new_key env i org user b (raw_key random)) (raw_key random))),
         record_events es (add_audit audit (on_keys (\<lambda>ks. ks @ [new_key env i org user b (raw_key random)]) st)))"
proof (cases "(cx_orgId cx, cx_userId cx)")
  case (Pair o' u')
  show ?thesis
  proof (cases "\<exists>org user. o' = Some org \<and> u' = Some user")
    case False
    with Pair show ?thesis by (intro that(1)) (auto simp: create_key_def split: option.splits)
  next
    case True
    then obtain org user where o: "cx_orgId cx = Some org" "cx_userId cx = Some user" using Pair by auto
    let ?i = "av_id env ''api_keys'' (length (api_keys st))"
    let ?k = "new_key env ?i org user b (raw_key random)"
    let ?d = "Some (JObj ((''name'', JStr (kb_name b)) # permissions_json b))"
    let ?w = "with_audit env rq cx (insert_key ?k) (entity_spec ''api_key'' ''api_key.created'' ?d) ?i st"
    have eq: "create_key env rq cx b random st
        = conclude ?w [owner_event env cx org ''api_key.created'' ''api_key'' ?i ?d] (201, Row (KeyIssued ?k (raw_key random))) st"
      using o by (simp add: create_key_def Let_def)
    show ?thesis
    proof (cases ?w)
      case (Inl e)
      then show ?thesis by (intro that(1)) (simp_all add: eq conclude_def)
    next
      case (Inr st')
      then obtain st1 row where "insert_key ?k st = Inr st1" "st' = add_audit row st1" using with_audit_ok by blast
      with insert_key_ok [of ?k st st1] have "st' = add_audit row (on_keys (\<lambda>ks. ks @ [?k]) st)" "?i \<notin> ak_id ` set (api_keys st)"
        by (simp_all add: new_key_def)
      with Inr show ?thesis by (intro that(2) [OF o]) (simp_all add: eq conclude_def)
    qed
  qed
qed

lemma on_key_none:
  assumes "cx_orgId cx = rq_param rq ''id''" and "\<And>a. a \<in> set (api_keys st) \<Longrightarrow> Some (ak_id a) \<noteq> cx_orgId cx"
  shows "snd (on_key rq cx k st) = st"
  using assms by (auto simp: on_key_def first_row_filter_None split: option.split)

text \<open>The guards, which leave the tables alone, take the key of the path for the organization.\<close>

lemma key_guards:
  assumes "run_guards env rq [GAuth, GOrg, GCap [MANAGE_API_KEYS]] (fresh_vars rid, d) = Pass (cx, d')"
  shows "d' = d" and "truthy (rq_param rq ''id'') = Some i \<Longrightarrow> cx_orgId cx = Some i \<and> (\<exists>g \<in> set (ac_orgs d). og_id g = i)"
proof -
  show "d' = d" using assms by (auto simp: result_simps requireCapability_def split: if_splits)
  show "cx_orgId cx = Some i \<and> (\<exists>g \<in> set (ac_orgs d). og_id g = i)" if "truthy (rq_param rq ''id'') = Some i"
    using item_guards_org [OF assms _ that] by simp
qed

definition keys_apart :: "api_env \<Rightarrow> api_state \<Rightarrow> bool" where
  "keys_apart env st \<longleftrightarrow> (\<forall>g \<in> set (ac_orgs (ap_access st)).
     (\<forall>a \<in> set (api_keys st). ak_id a \<noteq> og_id g) \<and> (\<forall>n. av_id env ''api_keys'' n \<noteq> og_id g))"

lemma empty_not_uuid: "\<not> is_uuid ''''"
  by (simp add: is_uuid_def)

lemma key_request_inert:
  assumes "keys_apart env st" and "\<And>b r. op \<noteq> CreateKey b r"
  shows "snd (key_request env rid (rq, op) st) = st"
  unfolding key_request_def prod.case
proof (rule serve_cases [where P = "\<lambda>s. s = st"])
  fix cx d assume pass: "run_guards (av_access env) rq [GAuth, GOrg, GCap [MANAGE_API_KEYS]] (fresh_vars rid, ap_access st) = Pass (cx, d)"
  have "snd (on_key rq cx k st) = st" for k
  proof (cases "truthy (rq_param rq ''id'')")
    case None
    then have "rq_param rq ''id'' = None \<or> rq_param rq ''id'' = Some ''''"
      by (auto simp: truthy_def split: option.splits list.splits)
    then show ?thesis by (auto simp: on_key_def empty_not_uuid split: option.split)
  next
    case (Some i)
    from key_guards(2) [OF pass Some] truthy_SomeD [OF Some] assms(1) show ?thesis
      by (intro on_key_none) (auto simp: keys_apart_def)
  qed
  with assms(2) key_guards(1) [OF pass]
  show "st\<lparr>ap_access := d\<rparr> = st \<and> snd (key_handler env rq op cx (st\<lparr>ap_access := d\<rparr>)) = st"
    by (cases op) auto
qed simp

lemma key_request_extends:
  assumes "keys_apart env st"
  shows "\<exists>new. api_keys (snd (key_request env rid (rq, op) st)) = api_keys st @ new \<and> (\<forall>a \<in> set new. ak_status a = ''active'')
    \<and> keys_apart env (snd (key_request env rid (rq, op) st))"
proof (cases "\<exists>b r. op = CreateKey b r")
  case False
  with key_request_inert [OF assms, of op] assms show ?thesis by auto
next
  case True
  then obtain b r where op: "op = CreateKey b r" by blast
  show ?thesis unfolding key_request_def prod.case
  proof (rule serve_cases [where P = "\<lambda>s. \<exists>new. api_keys s = api_keys st @ new \<and> (\<forall>a \<in> set new. ak_status a = ''active'') \<and> keys_apart env s"])
    fix cx d assume pass: "run_guards (av_access env) rq [GAuth, GOrg, GCap [MANAGE_API_KEYS]] (fresh_vars rid, ap_access st) = Pass (cx, d)"
    let ?ok = "\<lambda>s. \<exists>new. api_keys s = api_keys st @ new \<and> (\<forall>a \<in> set new. ak_status a = ''active'') \<and> keys_apart env s"
    have "?ok (snd (create_key env rq cx b r st))"
    proof (rule create_key_cases [of env rq cx b r st])
      assume "snd (create_key env rq cx b r st) = st"
      with assms show ?thesis by simp
    next
      fix org user i audit es
      assume "i \<in> range (av_id env ''api_keys'')" and "create_key env rq cx b r st
        = (Inr (201, Row (KeyIssued (new_key env i org user b (raw_key r)) (raw_key r))),
           record_events es (add_audit audit (on_keys (\<lambda>ks. ks @ [new_key env i org user b (raw_key r)]) st)))"
      with assms show ?thesis by (auto simp: new_key_def keys_apart_def)
    qed
    with assms key_guards(1) [OF pass] op
    show "?ok (st\<lparr>ap_access := d\<rparr>) \<and> ?ok (snd (key_handler env rq op cx (st\<lparr>ap_access := d\<rparr>)))" by simp
  qed (use assms in simp)
qed

section \<open>Properties\<close>

text \<open>
  No key is ever rotated or revoked over the API: behind \<open>requireOrg\<close>, which takes the key of the path for the
  organization, no key is found. Whatever requests arrive, every key stays as it is, and new ones are active.
\<close>

theorem keys_never_revoked:
  assumes "keys_apart env st"
  shows "\<exists>new. api_keys (run_requests (key_request env) xs st) = api_keys st @ new \<and> (\<forall>a \<in> set new. ak_status a = ''active'')"
proof -
  let ?I = "\<lambda>s. (\<exists>new. api_keys s = api_keys st @ new \<and> (\<forall>a \<in> set new. ak_status a = ''active'')) \<and> keys_apart env s"
  have "?I (run_requests (key_request env) xs st)"
  proof (rule run_requests_invariant [where I = ?I])
    fix rid and x :: "request \<times> key_op" and s
    obtain rq op where x: "x = (rq, op)" by (cases x)
    assume I: "?I s"
    then obtain new where "api_keys s = api_keys st @ new" "\<forall>a \<in> set new. ak_status a = ''active''" by blast
    with key_request_extends [of env s rid rq op] I show "?I (snd (key_request env rid x s))"
      by (auto simp: x)
  qed (use assms in simp)
  then show ?thesis by blast
qed

text \<open>
  C40: a new key authenticates, as its user in its organization and with its role, until it expires: the raw key of the
  answer hashes to the row, provided that no other key has the hash.
\<close>

theorem issued_key_authenticates:
  assumes "create_key env rq cx b random st = (Inr (201, Row (KeyIssued k raw)), st')"
    and "\<forall>a \<in> set (api_keys st). ak_keyHash a \<noteq> ae_sha256 (av_access env) (raw_key random)"
    and "bearer_token rq' = None" and "rq_header rq' ''X-API-Key'' = Some raw"
    and "\<not> key_expired (ae_now ae) k" and "ae_sha256 ae = ae_sha256 (av_access env)"
  shows "\<exists>d. requireAuthOrApiKey ae (ap_access st') rq' cx'
    = (Pass (cx'\<lparr>cx_userId := cx_userId cx, cx_orgId := cx_orgId cx, cx_role := ak_role k, cx_authMethod := Some ''api-key''\<rparr>), d)"
proof (rule create_key_cases [of env rq cx b random st])
  fix org user i audit es
  assume cx: "cx_orgId cx = Some org" "cx_userId cx = Some user" and eq: "create_key env rq cx b random st
      = (Inr (201, Row (KeyIssued (new_key env i org user b (raw_key random)) (raw_key random))),
         record_events es (add_audit audit (on_keys (\<lambda>ks. ks @ [new_key env i org user b (raw_key random)]) st)))"
  let ?k = "new_key env i org user b (raw_key random)"
  from eq assms(1) have k: "k = ?k" "raw = raw_key random" and keys: "ac_apiKeys (ap_access st') = api_keys st @ [?k]"
    by (auto simp: on_keys_def api_keys_def)
  have "filter (\<lambda>a. ak_keyHash a = ae_sha256 (av_access env) raw) (ac_apiKeys (ap_access st')) = [?k]"
    using assms(2) by (simp add: keys k(2) new_key_def filter_empty_conv)
  moreover have "truthy (Some raw) = Some raw" by (simp add: k(2) raw_key_def truthy_def)
  ultimately show ?thesis
    using assms(3-6) cx by (simp add: requireAuthOrApiKey_def accept_key_def k(1) new_key_def)
qed (use assms(1) in auto)

text \<open>
  A rotation hands out a key that does not work: the row gets the hash of the new key together with the status that
  authentication refuses, so the raw key of the answer is no more accepted than the old one.
\<close>

theorem rotated_key_refused:
  assumes "rotate_key env rq cx random org i a st = (Inr (200, Row (KeyIssued k raw)), st')"
    and "\<forall>x \<in> set (api_keys st). ak_keyHash x \<noteq> ae_sha256 (av_access env) (raw_key random)"
    and "bearer_token rq' = None" and "rq_header rq' ''X-API-Key'' = Some raw"
    and "ae_sha256 ae = ae_sha256 (av_access env)"
  shows "\<exists>r. fst (requireAuthOrApiKey ae (ap_access st') rq' cx') = Respond r"
proof -
  have raw: "raw = raw_key random" and "\<exists>s1. st' = s1 \<and> api_keys s1 = sql_update (\<lambda>x. ak_id x = i)
      (rotated env (raw_key random) (ak_keyHash a)) (api_keys st)"
    using assms(1) by (auto simp: rotate_key_def Let_def conclude_def dest!: with_audit_ok split: sum.splits)
  then have keys: "ac_apiKeys (ap_access st') = sql_update (\<lambda>x. ak_id x = i)
      (rotated env (raw_key random) (ak_keyHash a)) (api_keys st)"
    by (simp add: api_keys_def)
  have status: "ak_status x = ''rotated''"
    if "first_row (filter (\<lambda>x. ak_keyHash x = ae_sha256 (av_access env) raw) (ac_apiKeys (ap_access st'))) = Some x" for x
    using first_row_filter_SomeD [OF that] assms(2) by (auto simp: keys set_sql_update raw rotated_def split: if_splits)
  have "truthy (Some raw) = Some raw" by (simp add: raw raw_key_def truthy_def)
  with assms(3-5) status show ?thesis
    by (auto simp: requireAuthOrApiKey_def accept_key_def refuse_def split: option.split)
qed

subsection \<open>Witnesses\<close>

definition sample_key_state :: api_state where
  "sample_key_state =
     \<lparr>ap_access = sample_access, ap_db = empty_db, ap_projects = [], ap_delegations = [], ap_events = [],
      ap_invitations = []\<rparr>"

abbreviation sample_key_env :: api_env where
  "sample_key_env \<equiv> \<lparr>av_access = sample_access_env, av_id = (\<lambda>t n. t), av_staleness = None\<rparr>"

abbreviation sample_key_request :: request where
  "sample_key_request \<equiv> \<lparr>rq_method = ''GET'', rq_path = ''/'', rq_param = Map.empty, rq_header = [''X-API-Key'' \<mapsto> ''wak_ff'']\<rparr>"

abbreviation sample_key_body :: key_body where
  "sample_key_body \<equiv> \<lparr>kb_name = ''n'', kb_role = None, kb_permissions = None, kb_expiresAt = None\<rparr>"

theorem keys_never_revoked_witness:
  "\<exists>new. api_keys (run_requests (key_request sample_key_env) [(''r'', sample_request (Some ''k''), RevokeKey)] sample_key_state)
     = api_keys sample_key_state @ new \<and> (\<forall>a \<in> set new. ak_status a = ''active'')"
  by (rule keys_never_revoked)
    (simp add: keys_apart_def api_keys_def sample_key_state_def sample_access_def sample_org_def sample_uuid_def)

theorem issued_key_authenticates_witness:
  "\<exists>k st' d. create_key sample_key_env (sample_request None) owner_vars sample_key_body ''ff'' sample_key_state
      = (Inr (201, Row (KeyIssued k ''wak_ff'')), st')
    \<and> requireAuthOrApiKey sample_access_env (ap_access st') sample_key_request (fresh_vars ''r'')
      = (Pass ((fresh_vars ''r'')\<lparr>cx_userId := cx_userId owner_vars, cx_orgId := cx_orgId owner_vars,
           cx_role := ak_role k, cx_authMethod := Some ''api-key''\<rparr>), d)"
proof -
  obtain k st' where made: "create_key sample_key_env (sample_request None) owner_vars sample_key_body ''ff'' sample_key_state
      = (Inr (201, Row (KeyIssued k ''wak_ff'')), st')" "ak_expiresAt k = None"
    using sample_uuid_ok
    by (simp add: create_key_def Let_def with_audit_def bindE_def insert_key_def audit_entry_def conclude_def raw_key_def
        new_key_def api_keys_def sample_key_state_def sample_access_def)
  show ?thesis
    using made issued_key_authenticates [OF made(1), of sample_key_request sample_access_env "fresh_vars ''r''"]
    by (auto simp: api_keys_def sample_key_state_def sample_access_def sample_access_env_def raw_key_def
        bearer_token_def key_expired_def)
qed

theorem rotated_key_refused_witness:
  "\<exists>k st' r. rotate_key sample_key_env (sample_request None) owner_vars ''ff'' ''o'' ''k'' (hd (api_keys sample_key_state)) sample_key_state
      = (Inr (200, Row (KeyIssued k ''wak_ff'')), st')
    \<and> fst (requireAuthOrApiKey sample_access_env (ap_access st') sample_key_request (fresh_vars ''r'')) = Respond r"
proof -
  have "step_ok SM_api_key ''active'' ''rotated''" by (simp add: step_ok_iff edges_def api_key_machine_def)
  then obtain t where "validateTransition loaded_machines SM_api_key ''active'' ''rotated'' False = Inr t"
    by (auto simp: step_ok_def is_ok_def split: sum.splits)
  then obtain k st' where made: "rotate_key sample_key_env (sample_request None) owner_vars ''ff'' ''o'' ''k''
      (hd (api_keys sample_key_state)) sample_key_state = (Inr (200, Row (KeyIssued k ''wak_ff'')), st')"
    by (simp add: rotate_key_def Let_def with_audit_def bindE_def audit_entry_def conclude_def raw_key_def
        api_keys_def sample_key_state_def sample_access_def)
  show ?thesis
    using made rotated_key_refused [OF made, of sample_key_request sample_access_env "fresh_vars ''r''"]
    by (auto simp: api_keys_def sample_key_state_def sample_access_def sample_access_env_def raw_key_def bearer_token_def)
qed

end
