(* ===== verification/Invitation_Routes.thy ===== *)
theory Invitation_Routes
  imports Route_Base
begin

text \<open>
  Invitations to an organization, \<open>api/src/routes/invitations.ts\<close>: creation, cancellation and acceptance. The random
  bytes of a token are an input of the operation; the list is left out.
\<close>

section \<open>Statements\<close>

record invitation_body =
  ib_email :: string
  ib_role :: "string option"

text \<open>The check of the address is a parameter of the router.\<close>

definition invitation_body_ok :: "(string \<Rightarrow> bool) \<Rightarrow> invitation_body \<Rightarrow> bool" where
  "invitation_body_ok email_ok b \<longleftrightarrow> email_ok (ib_email b) \<and> pred_option (\<lambda>r. r \<in> {''owner'', ''admin'', ''member''}) (ib_role b)"

definition new_invitation :: "string \<Rightarrow> int \<Rightarrow> string \<Rightarrow> invitation_body \<Rightarrow> string \<Rightarrow> invitation_row" where
  "new_invitation i now org b token =
     \<lparr>iv_id = i, iv_orgId = org, iv_email = ib_email b,
      iv_role = (case truthy (ib_role b) of Some r \<Rightarrow> r | None \<Rightarrow> ''member''), iv_token = token, iv_status = ''pending'',
      iv_expiresAt = now + 7 * 24 * 60 * 60 * 1000, iv_acceptedAt = None, iv_deletedAt = None, iv_createdAt = now\<rparr>"

definition insert_invitation :: "invitation_row \<Rightarrow> api_state \<Rightarrow> thrown + api_state" where
  "insert_invitation v st =
     (if iv_id v \<in> iv_id ` set (ap_invitations st) then Inl (duplicate_key ''invitations_pkey'')
      else Inr (st\<lparr>ap_invitations := ap_invitations st @ [v]\<rparr>))"

definition upd_invitations :: "string \<Rightarrow> (invitation_row \<Rightarrow> invitation_row) \<Rightarrow> api_state \<Rightarrow> api_state" where
  "upd_invitations i f st = st\<lparr>ap_invitations := sql_update (\<lambda>v. iv_id v = i) f (ap_invitations st)\<rparr>"

text \<open>A membership that exists stays as it is.\<close>

definition join_org :: "string \<Rightarrow> string \<Rightarrow> string \<Rightarrow> int \<Rightarrow> member_row list \<Rightarrow> member_row list" where
  "join_org org user role now ms =
     (if \<exists>m \<in> set ms. me_orgId m = org \<and> me_userId m = user then ms
      else ms @ [\<lparr>me_orgId = org, me_userId = user, me_role = role, me_joinedAt = now\<rparr>])"

definition on_members :: "(member_row list \<Rightarrow> member_row list) \<Rightarrow> api_state \<Rightarrow> api_state" where
  "on_members f st = st\<lparr>ap_access := (ap_access st)\<lparr>ac_members := f (ac_members (ap_access st))\<rparr>\<rparr>"

section \<open>Handlers\<close>

definition create_invitation ::
    "api_env \<Rightarrow> request \<Rightarrow> request_vars \<Rightarrow> invitation_body \<Rightarrow> string \<Rightarrow> api_state \<Rightarrow> invitation_row handled" where
  "create_invitation env rq cx b token st =
     (case cx_orgId cx of
        None \<Rightarrow> (Inl undefined_arg, st)
      | Some org \<Rightarrow>
          (let i = av_id env ''invitations'' (length (ap_invitations st)); v = new_invitation i (av_now env) org b token in
           case insert_invitation v st of
             Inl e \<Rightarrow> (Inl e, st)
           | Inr st1 \<Rightarrow>
               (Inr (201, Row v),
                logAudit env rq cx ''invitation.created'' ''invitation'' (Some i)
                  (Some (JObj ((''email'', JStr (ib_email b)) # defined ''role'' (ib_role b)))) st1)))"

definition cancel_invitation ::
    "api_env \<Rightarrow> request \<Rightarrow> request_vars \<Rightarrow> api_state \<Rightarrow> invitation_row handled" where
  "cancel_invitation env rq cx st =
     (case truthy (rq_param rq ''id'') of
        None \<Rightarrow> invalid ''Invitation ID is required'' st
      | Some i \<Rightarrow>
          (case cx_orgId cx of
             None \<Rightarrow> (Inl undefined_arg, st)
           | Some org \<Rightarrow>
               if \<not> is_uuid i then (Inl (uuid_error i), st)
               else (case first_row (filter (\<lambda>v. iv_id v = i \<and> iv_orgId v = org) (ap_invitations st)) of
                       None \<Rightarrow> (Inr (api_error [] 404 ''Invitation not found'' ''NOT_FOUND''), st)
                     | Some _ \<Rightarrow>
                         (Inr (say ''Invitation cancelled''),
                          logAudit env rq cx ''invitation.cancelled'' ''invitation'' (Some i) None
                            (upd_invitations i (\<lambda>v. v\<lparr>iv_status := ''cancelled'', iv_deletedAt := Some (av_now env)\<rparr>) st)))))"

definition accepted_answer :: "invitation_row \<Rightarrow> int \<times> invitation_row body" where
  "accepted_answer v =
     (200, Json (JObj [(''message'', JStr ''Invitation accepted''), (''orgId'', JStr (iv_orgId v)), (''role'', JStr (iv_role v))]))"

definition accept_invitation ::
    "api_env \<Rightarrow> request_vars \<Rightarrow> string option \<Rightarrow> api_state \<Rightarrow> invitation_row handled" where
  "accept_invitation env cx token st =
     (case truthy token of
        None \<Rightarrow> invalid ''Token is required'' st
      | Some t \<Rightarrow>
          (case first_row (filter (\<lambda>v. iv_token v = t) (ap_invitations st)) of
             None \<Rightarrow> (Inr (api_error [] 404 ''Invalid or expired invitation token'' ''NOT_FOUND''), st)
           | Some v \<Rightarrow>
               if iv_status v \<noteq> ''pending'' then invalid ''Invitation already used or cancelled'' st
               else if iv_expiresAt v < av_now env then invalid ''Invitation has expired'' st
               else (case cx_userId cx of
                       None \<Rightarrow> (Inl (js_Error ''null value in column user_id violates not-null constraint''), st)
                     | Some user \<Rightarrow>
                         if \<not> is_uuid user then (Inl (uuid_error user), st)
                         else (Inr (accepted_answer v),
                               upd_invitations (iv_id v)
                                 (\<lambda>x. x\<lparr>iv_status := ''accepted'', iv_acceptedAt := Some (av_now env)\<rparr>)
                                 (on_members (join_org (iv_orgId v) user (iv_role v) (av_now env)) st)))))"

section \<open>Routes\<close>

datatype invitation_op =
    CreateInvitation invitation_body string
  | CancelInvitation
  | AcceptInvitation "string option"

fun invitation_handler ::
    "api_env \<Rightarrow> request \<Rightarrow> invitation_op \<Rightarrow> request_vars \<Rightarrow> api_state \<Rightarrow> invitation_row handled" where
  "invitation_handler env rq (CreateInvitation b token) cx st = catch_app (create_invitation env rq cx b token st)"
| "invitation_handler env rq CancelInvitation cx st = catch_app (cancel_invitation env rq cx st)"
| "invitation_handler env rq (AcceptInvitation token) cx st = accept_invitation env cx token st"

fun invitation_guards :: "invitation_op \<Rightarrow> guard list" where
  "invitation_guards (AcceptInvitation token) = [GAuth]"
| "invitation_guards _ = [GAuth, GOrg, GRole [''owner'', ''admin'']]"

fun invitation_op_ok :: "(string \<Rightarrow> bool) \<Rightarrow> invitation_op \<Rightarrow> bool" where
  "invitation_op_ok email_ok (CreateInvitation b token) = invitation_body_ok email_ok b"
| "invitation_op_ok email_ok _ = True"

definition invitation_request ::
    "(string \<Rightarrow> bool) \<Rightarrow> api_env \<Rightarrow> string \<Rightarrow> request \<times> invitation_op \<Rightarrow> api_state
     \<Rightarrow> invitation_row body reply \<times> api_state" where
  "invitation_request email_ok env rid x st =
     (case x of (rq, op) \<Rightarrow>
        serve env rid (invitation_guards op) rq (invitation_op_ok email_ok op) (invitation_handler env rq op) st)"

section \<open>What a request does\<close>

abbreviation members :: "api_state \<Rightarrow> member_row list" where
  "members st \<equiv> ac_members (ap_access st)"

lemma frames [simp]:
  "ap_invitations (on_members f st) = ap_invitations st" "members (on_members f st) = f (members st)"
  "members (upd_invitations i g st) = members st" "ap_invitations (logAudit env rq cx a ty j ds st) = ap_invitations st"
  "ap_invitations (upd_invitations i g st) = sql_update (\<lambda>v. iv_id v = i) g (ap_invitations st)"
  by (simp_all add: on_members_def upd_invitations_def logAudit_def split: sum.split)

lemma orgs_frames [simp]:
  "ac_orgs (ap_access (on_members f st)) = ac_orgs (ap_access st)" "ap_access (upd_invitations i g st) = ap_access st"
  by (simp_all add: on_members_def upd_invitations_def)

lemma invitation_guards_read:
  "run_guards env rq (invitation_guards op) (cx, d) = Pass (cx', d') \<Longrightarrow> d' = d"
  by (cases op) (auto simp: result_simps requireRole_def split: if_splits)

text \<open>
  The contract: an invitation is written pending by an owner or admin of its organization, becomes accepted by the
  caller who shows its token, who becomes a member in the role of the invitation, and is otherwise left alone.
\<close>

inductive invitation_step :: "(string \<Rightarrow> bool) \<Rightarrow> int \<Rightarrow> api_state \<Rightarrow> api_state \<Rightarrow> bool" for may now where
  same: "ap_invitations s' = ap_invitations s \<Longrightarrow> members s' = members s \<Longrightarrow> invitation_step may now s s'"
| invited: "ap_invitations s' = ap_invitations s @ [v] \<Longrightarrow> iv_status v = ''pending'' \<Longrightarrow> iv_id v \<notin> iv_id ` set (ap_invitations s)
    \<Longrightarrow> may (iv_orgId v) \<Longrightarrow> members s' = members s \<Longrightarrow> invitation_step may now s s'"
| joined: "v \<in> set (ap_invitations s) \<Longrightarrow> iv_status v = ''pending'' \<Longrightarrow> now \<le> iv_expiresAt v
    \<Longrightarrow> ap_invitations s' = sql_update (\<lambda>x. iv_id x = iv_id v) (\<lambda>x. x\<lparr>iv_status := ''accepted'', iv_acceptedAt := Some now\<rparr>) (ap_invitations s)
    \<Longrightarrow> members s' = join_org (iv_orgId v) user (iv_role v) now (members s) \<Longrightarrow> invitation_step may now s s'"

inductive_cases invitation_stepE: "invitation_step may now s s'"

definition invites :: "access_env \<Rightarrow> access_db \<Rightarrow> request \<Rightarrow> string \<Rightarrow> bool" where
  "invites env d rq org \<longleftrightarrow> requested_org rq = Some org
     \<and> (\<exists>u m. caller env rq u \<and> org_member d org u = Some m \<and> me_role m \<in> {''owner'', ''admin''})"

lemma create_guards_invite:
  assumes "run_guards env rq [GAuth, GOrg, GRole [''owner'', ''admin'']] (fresh_vars rid, d) = Pass (cx, d')"
  shows "\<exists>org. cx_orgId cx = Some org \<and> invites env d rq org"
  using assms
  by (auto simp: result_simps requireRole_def invites_def caller_def member_vars_def fresh_vars_def split: if_splits)

lemma accept_step:
  "invitation_step may (av_now env) st (snd (accept_invitation env cx token st))"
  by (auto simp: accept_invitation_def invalid_def
      intro: invitation_step.same split: option.split dest!: first_row_filter_SomeD)
    (rule invitation_step.joined; simp; fail)+

definition invitations_apart :: "api_env \<Rightarrow> api_state \<Rightarrow> bool" where
  "invitations_apart env st \<longleftrightarrow> (\<forall>g \<in> set (ac_orgs (ap_access st)).
     (\<forall>v \<in> set (ap_invitations st). iv_id v \<noteq> og_id g) \<and> (\<forall>n. av_id env ''invitations'' n \<noteq> og_id g))"

lemma cancel_inert:
  assumes "run_guards (av_access env) rq [GAuth, GOrg, GRole rs] (fresh_vars rid, ap_access st) = Pass (cx, d)"
    and "invitations_apart env st"
  shows "snd (cancel_invitation env rq cx st) = st"
proof (cases "truthy (rq_param rq ''id'')")
  case (Some i)
  from item_guards_org [OF assms(1) _ Some] assms(2) have "cx_orgId cx = Some i"
    "first_row (filter (\<lambda>v. iv_id v = i \<and> iv_orgId v = i) (ap_invitations st)) = None"
    by (auto simp: invitations_apart_def first_row_filter_None)
  with Some show ?thesis by (simp add: cancel_invitation_def)
qed (simp add: cancel_invitation_def invalid_def)

lemma invitation_request_step:
  assumes "invitations_apart env st"
  shows "invitation_step (invites (av_access env) (ap_access st) rq) (av_now env) st
    (snd (invitation_request email_ok env rid (rq, op) st))"
  unfolding invitation_request_def prod.case
proof (rule serve_cases [where P = "invitation_step (invites (av_access env) (ap_access st) rq) (av_now env) st"])
  let ?step = "invitation_step (invites (av_access env) (ap_access st) rq) (av_now env) st"
  show "?step st" by (rule invitation_step.same) simp_all
  fix cx d assume pass: "run_guards (av_access env) rq (invitation_guards op) (fresh_vars rid, ap_access st) = Pass (cx, d)"
  then have d: "st\<lparr>ap_access := d\<rparr> = st" using invitation_guards_read [OF pass] by simp
  have "?step (snd (invitation_handler env rq op cx st))"
  proof (cases op)
    case (CreateInvitation b token)
    with pass have "run_guards (av_access env) rq [GAuth, GOrg, GRole [''owner'', ''admin'']] (fresh_vars rid, ap_access st) = Pass (cx, d)"
      by (simp only: invitation_guards.simps)
    from create_guards_invite [OF this] obtain org
      where org: "cx_orgId cx = Some org" "invites (av_access env) (ap_access st) rq org" by blast
    let ?v = "new_invitation (av_id env ''invitations'' (length (ap_invitations st))) (av_now env) org b token"
    show ?thesis
    proof (cases "insert_invitation ?v st")
      case (Inl e)
      with org CreateInvitation show ?thesis by (auto simp: create_invitation_def Let_def intro: invitation_step.same)
    next
      case (Inr st1)
      then have "st1 = st\<lparr>ap_invitations := ap_invitations st @ [?v]\<rparr>" "iv_id ?v \<notin> iv_id ` set (ap_invitations st)"
        by (auto simp: insert_invitation_def split: if_splits)
      with Inr org CreateInvitation show ?thesis
        by (auto simp: create_invitation_def Let_def new_invitation_def intro!: invitation_step.invited)
    qed
  next
    case CancelInvitation
    with pass cancel_inert [of env rq _ rid st cx d] assms show ?thesis by (auto intro: invitation_step.same)
  next
    case (AcceptInvitation token)
    then show ?thesis by (simp add: accept_step)
  qed
  with d show "?step (st\<lparr>ap_access := d\<rparr>) \<and> ?step (snd (invitation_handler env rq op cx (st\<lparr>ap_access := d\<rparr>)))"
    by (auto intro: invitation_step.same)
qed

text \<open>What stays around the steps: the identifiers that name no organization.\<close>

lemma invitation_ids:
  "map iv_id (ap_invitations (snd (cancel_invitation env rq cx st))) = map iv_id (ap_invitations st)"
  "map iv_id (ap_invitations (snd (accept_invitation env cx token st))) = map iv_id (ap_invitations st)"
  "map iv_id (ap_invitations (snd (create_invitation env rq cx b tok st))) \<in> {map iv_id (ap_invitations st),
     map iv_id (ap_invitations st) @ [av_id env ''invitations'' (length (ap_invitations st))]}"
  by (simp_all add: cancel_invitation_def accept_invitation_def invalid_def map_sql_update_frame create_invitation_def
      insert_invitation_def new_invitation_def Let_def split: option.split)

lemma invitation_orgs:
  "ac_orgs (ap_access (snd (cancel_invitation env rq cx st))) = ac_orgs (ap_access st)"
  "ac_orgs (ap_access (snd (accept_invitation env cx token st))) = ac_orgs (ap_access st)"
  "ac_orgs (ap_access (snd (create_invitation env rq cx b tok st))) = ac_orgs (ap_access st)"
  by (simp_all add: cancel_invitation_def accept_invitation_def invalid_def create_invitation_def
      insert_invitation_def Let_def split: option.split)

lemma invitation_handler_frames:
  "ac_orgs (ap_access (snd (invitation_handler env rq op cx st))) = ac_orgs (ap_access st)"
  "iv_id ` set (ap_invitations (snd (invitation_handler env rq op cx st)))
    \<subseteq> iv_id ` set (ap_invitations st) \<union> range (av_id env ''invitations'')"
proof -
  show "ac_orgs (ap_access (snd (invitation_handler env rq op cx st))) = ac_orgs (ap_access st)"
    by (cases op) (simp_all add: invitation_orgs)
  have "set (map iv_id (ap_invitations (snd (invitation_handler env rq op cx st))))
    \<subseteq> set (map iv_id (ap_invitations st)) \<union> range (av_id env ''invitations'')"
  proof (cases op)
    case (CreateInvitation b token)
    with invitation_ids(3) [of env rq cx b token st] show ?thesis
      unfolding invitation_handler.simps snd_catch_app by (auto simp del: set_map)
  next
    case CancelInvitation
    then show ?thesis unfolding CancelInvitation invitation_handler.simps snd_catch_app invitation_ids by blast
  next
    case (AcceptInvitation token)
    then show ?thesis unfolding AcceptInvitation invitation_handler.simps invitation_ids by blast
  qed
  then show "iv_id ` set (ap_invitations (snd (invitation_handler env rq op cx st)))
    \<subseteq> iv_id ` set (ap_invitations st) \<union> range (av_id env ''invitations'')" by simp
qed

lemma invitation_request_apart:
  assumes "invitations_apart env st"
  shows "invitations_apart env (snd (invitation_request email_ok env rid (rq, op) st))"
  unfolding invitation_request_def prod.case
proof (rule serve_cases [where P = "invitations_apart env", OF assms])
  fix cx d assume pass: "run_guards (av_access env) rq (invitation_guards op) (fresh_vars rid, ap_access st) = Pass (cx, d)"
  have "invitations_apart env (snd (invitation_handler env rq op cx st))"
    unfolding invitations_apart_def invitation_handler_frames(1)
  proof (intro ballI conjI allI)
    fix g v assume g: "g \<in> set (ac_orgs (ap_access st))" and "v \<in> set (ap_invitations (snd (invitation_handler env rq op cx st)))"
    then have "iv_id v \<in> iv_id ` set (ap_invitations st) \<union> range (av_id env ''invitations'')"
      using invitation_handler_frames(2) [of env rq op cx st] by blast
    with g assms show "iv_id v \<noteq> og_id g" by (auto simp: invitations_apart_def)
  qed (use assms in \<open>simp add: invitations_apart_def\<close>)
  with assms invitation_guards_read [OF pass]
  show "invitations_apart env (st\<lparr>ap_access := d\<rparr>)
    \<and> invitations_apart env (snd (invitation_handler env rq op cx (st\<lparr>ap_access := d\<rparr>)))" by simp
qed

subsection \<open>Sequences\<close>

text \<open>The members are the old ones, unchanged, and those who accepted an invitation; only pending invitations change.\<close>

definition joined_by_invitation :: "api_state \<Rightarrow> api_state \<Rightarrow> bool" where
  "joined_by_invitation st s \<longleftrightarrow>
     (\<exists>new. members s = members st @ new
        \<and> (\<forall>m \<in> set new. \<exists>v \<in> set (ap_invitations s). iv_status v = ''accepted'' \<and> iv_orgId v = me_orgId m \<and> iv_role v = me_role m))"

definition settled_stay :: "api_state \<Rightarrow> api_state \<Rightarrow> bool" where
  "settled_stay st s \<longleftrightarrow> distinct (map iv_id (ap_invitations s))
     \<and> (\<forall>v \<in> set (ap_invitations st). iv_status v \<noteq> ''pending'' \<longrightarrow> v \<in> set (ap_invitations s))"

lemma step_joined:
  assumes "invitation_step may now s s'" and "joined_by_invitation st s"
  shows "joined_by_invitation st s'"
  using assms(1)
proof (rule invitation_stepE)
  assume "ap_invitations s' = ap_invitations s" "members s' = members s"
  with assms(2) show ?thesis by (simp add: joined_by_invitation_def)
next
  fix v assume "ap_invitations s' = ap_invitations s @ [v]" "members s' = members s"
  with assms(2) show ?thesis by (auto simp: joined_by_invitation_def)
next
  fix v :: invitation_row and user :: string
  let ?f = "\<lambda>x :: invitation_row. if iv_id x = iv_id v then x\<lparr>iv_status := ''accepted'', iv_acceptedAt := Some now\<rparr> else x"
  assume v: "v \<in> set (ap_invitations s)"
    and inv: "ap_invitations s' = sql_update (\<lambda>x. iv_id x = iv_id v) (\<lambda>x. x\<lparr>iv_status := ''accepted'', iv_acceptedAt := Some now\<rparr>) (ap_invitations s)"
    and mem: "members s' = join_org (iv_orgId v) user (iv_role v) now (members s)"
  have keep: "?f x \<in> set (ap_invitations s')" if "x \<in> set (ap_invitations s)" for x
    using that by (auto simp: inv set_sql_update)
  have same: "iv_orgId (?f x) = iv_orgId x \<and> iv_role (?f x) = iv_role x \<and> (iv_status x = ''accepted'' \<longrightarrow> iv_status (?f x) = ''accepted'')" for x
    by simp
  obtain new where new: "members s = members st @ new"
    "\<forall>m \<in> set new. \<exists>x \<in> set (ap_invitations s). iv_status x = ''accepted'' \<and> iv_orgId x = me_orgId m \<and> iv_role x = me_role m"
    using assms(2) by (auto simp: joined_by_invitation_def)
  define P where "P m \<longleftrightarrow> (\<exists>x \<in> set (ap_invitations s'). iv_status x = ''accepted'' \<and> iv_orgId x = me_orgId m \<and> iv_role x = me_role m)" for m :: member_row
  have old: "P m" if "m \<in> set new" for m
  proof -
    from new(2) that obtain x where x: "x \<in> set (ap_invitations s)" "iv_status x = ''accepted''" "iv_orgId x = me_orgId m" "iv_role x = me_role m"
      by blast
    with keep [OF x(1)] same [of x] show "P m" unfolding P_def by (intro bexI [of _ "?f x"]) simp_all
  qed
  define m where "m = \<lparr>me_orgId = iv_orgId v, me_userId = user, me_role = iv_role v, me_joinedAt = now\<rparr>"
  have pm: "P m" unfolding P_def m_def using keep [OF v] by (intro bexI [of _ "?f v"]) simp_all
  have "members s' = members s \<or> members s' = members s @ [m]" by (simp only: mem join_org_def m_def split: if_split) simp
  then have "\<exists>new'. members s' = members st @ new' \<and> (\<forall>m \<in> set new'. P m)"
  proof
    assume "members s' = members s"
    with new(1) have "members s' = members st @ new" by simp
    with old show ?thesis by blast
  next
    assume "members s' = members s @ [m]"
    with new(1) have "members s' = members st @ (new @ [m])" by simp
    moreover from old pm have "\<forall>x \<in> set (new @ [m]). P x" by simp
    ultimately show ?thesis by blast
  qed
  then show ?thesis by (simp only: joined_by_invitation_def P_def)
qed

lemma step_settled:
  assumes "invitation_step may now s s'" and "settled_stay st s"
  shows "settled_stay st s'"
  using assms(1)
proof (rule invitation_stepE)
  fix v :: invitation_row and user :: string
  assume v: "v \<in> set (ap_invitations s)" "iv_status v = ''pending''"
    and inv: "ap_invitations s' = sql_update (\<lambda>x. iv_id x = iv_id v) (\<lambda>x. x\<lparr>iv_status := ''accepted'', iv_acceptedAt := Some now\<rparr>) (ap_invitations s)"
  have "map iv_id (ap_invitations s') = map iv_id (ap_invitations s)" unfolding inv by (rule map_sql_update_frame) simp
  moreover have "x \<in> set (ap_invitations s')" if "x \<in> set (ap_invitations st)" "iv_status x \<noteq> ''pending''" for x
  proof -
    from that assms(2) have "x \<in> set (ap_invitations s)" by (simp add: settled_stay_def)
    moreover from this v that(2) assms(2) have "iv_id x \<noteq> iv_id v"
      by (auto simp: settled_stay_def distinct_map inj_on_def)
    ultimately show ?thesis by (auto simp: inv set_sql_update)
  qed
  ultimately show ?thesis using assms(2) by (simp add: settled_stay_def)
qed (use assms(2) in \<open>auto simp: settled_stay_def\<close>)

section \<open>Properties\<close>

text \<open>
  C36: nobody joins an organization by these routes but through an invitation of it: the memberships are never changed or
  removed, and each new one stands for an accepted invitation to the organization in that role. An invitation that has been
  accepted stays so, and none is ever cancelled, as the route to cancel never finds it.
\<close>

theorem members_join_by_invitation:
  assumes "invitations_apart env st" and "distinct (map iv_id (ap_invitations st))"
  shows "joined_by_invitation st (run_requests (invitation_request email_ok env) xs st)
    \<and> settled_stay st (run_requests (invitation_request email_ok env) xs st)"
proof -
  let ?I = "\<lambda>s. invitations_apart env s \<and> joined_by_invitation st s \<and> settled_stay st s"
  have "?I (run_requests (invitation_request email_ok env) xs st)"
  proof (rule run_requests_invariant [where I = ?I])
    fix rid and x :: "request \<times> invitation_op" and s
    obtain rq op where x: "x = (rq, op)" by (cases x)
    assume I: "?I s"
    then have "invitations_apart env s" ..
    from invitation_request_step [OF this, of rq email_ok rid op] invitation_request_apart [OF this, of email_ok rid rq op] I
    show "?I (snd (invitation_request email_ok env rid x s))" unfolding x using step_joined step_settled by blast
  qed (use assms in \<open>simp add: joined_by_invitation_def settled_stay_def\<close>)
  then show ?thesis by blast
qed

text \<open>
  Whom an invitation is addressed to does not matter: with other addresses in the invitations the acceptance makes the
  same caller a member in the same role. Whoever learns the token can use it.
\<close>

theorem accept_ignores_email:
  "members (snd (accept_invitation env cx token
      (st\<lparr>ap_invitations := map (\<lambda>v. v\<lparr>iv_email := f v\<rparr>) (ap_invitations st)\<rparr>)))
   = members (snd (accept_invitation env cx token st))"
proof -
  have "first_row (filter (\<lambda>v. iv_token v = t) (map (\<lambda>v. v\<lparr>iv_email := f v\<rparr>) vs))
      = map_option (\<lambda>v. v\<lparr>iv_email := f v\<rparr>) (first_row (filter (\<lambda>v. iv_token v = t) vs))" for t vs
    by (induction vs) simp_all
  then show ?thesis
    by (simp add: accept_invitation_def invalid_def on_members_def upd_invitations_def split: option.split)
qed

text \<open>
  An admin can make an owner: the invitation asks for a role and the route not for a higher one than the caller's, so
  that whoever accepts an admin's invitation as owner is one.
\<close>

theorem admin_invites_owner:
  assumes "cx_orgId cx = Some org" and "av_id env ''invitations'' (length (ap_invitations st)) \<notin> iv_id ` set (ap_invitations st)"
    and "\<forall>v \<in> set (ap_invitations st). iv_token v \<noteq> token" and "token \<noteq> []"
    and "cx_userId cx' = Some user" and "is_uuid user"
    and "\<forall>m \<in> set (members st). \<not> (me_orgId m = org \<and> me_userId m = user)"
  shows "\<exists>m \<in> set (members (snd (accept_invitation env cx' (Some token)
      (snd (create_invitation env rq cx \<lparr>ib_email = e, ib_role = Some ''owner''\<rparr> token st))))).
    me_orgId m = org \<and> me_userId m = user \<and> me_role m = ''owner''"
proof -
  let ?v = "new_invitation (av_id env ''invitations'' (length (ap_invitations st))) (av_now env) org
    \<lparr>ib_email = e, ib_role = Some ''owner''\<rparr> token"
  have inv: "ap_invitations (snd (create_invitation env rq cx \<lparr>ib_email = e, ib_role = Some ''owner''\<rparr> token st))
      = ap_invitations st @ [?v]"
    and mem: "members (snd (create_invitation env rq cx \<lparr>ib_email = e, ib_role = Some ''owner''\<rparr> token st)) = members st"
    using assms(1,2) by (simp_all add: create_invitation_def Let_def insert_invitation_def new_invitation_def)
  have "filter (\<lambda>v. iv_token v = token) (ap_invitations st @ [?v]) = [?v]"
    using assms(3) by (simp add: new_invitation_def filter_empty_conv)
  moreover have "truthy (Some token) = Some token" using assms(4) by (cases token) (simp_all add: truthy_def)
  ultimately show ?thesis
    using assms(5-7) by (auto simp: accept_invitation_def inv mem new_invitation_def truthy_def join_org_def)
qed

subsection \<open>Witnesses\<close>

definition sample_invited :: api_state where
  "sample_invited =
     \<lparr>ap_access = sample_access, ap_db = empty_db, ap_projects = [], ap_delegations = [], ap_events = [],
      ap_invitations = [new_invitation ''i'' 0 (sample_uuid CHR ''1'') \<lparr>ib_email = ''a'', ib_role = None\<rparr> ''secret'']\<rparr>"

abbreviation sample_invite_env :: api_env where
  "sample_invite_env \<equiv> \<lparr>av_access = sample_access_env, av_id = (\<lambda>t n. t), av_staleness = None\<rparr>"

theorem members_join_by_invitation_witness:
  "joined_by_invitation sample_invited (run_requests (invitation_request (\<lambda>_. True) sample_invite_env)
     [(''r'', sample_request None, AcceptInvitation (Some ''secret''))] sample_invited)"
  by (rule members_join_by_invitation [THEN conjunct1])
    (simp_all add: invitations_apart_def sample_invited_def sample_access_def sample_org_def new_invitation_def sample_uuid_def)

theorem admin_invites_owner_witness:
  "\<exists>m \<in> set (members (snd (accept_invitation sample_invite_env ((fresh_vars ''q'')\<lparr>cx_userId := Some (sample_uuid CHR ''2'')\<rparr>)
      (Some ''t'') (snd (create_invitation sample_invite_env (sample_request None) ((fresh_vars ''r'')
        \<lparr>cx_orgId := Some ''o'', cx_role := Some ''admin''\<rparr>) \<lparr>ib_email = ''a'', ib_role = Some ''owner''\<rparr> ''t'' sample_invited))))).
     me_role m = ''owner''"
proof -
  have "\<exists>m \<in> set (members (snd (accept_invitation sample_invite_env ((fresh_vars ''q'')\<lparr>cx_userId := Some (sample_uuid CHR ''2'')\<rparr>)
      (Some ''t'') (snd (create_invitation sample_invite_env (sample_request None) ((fresh_vars ''r'')
        \<lparr>cx_orgId := Some ''o'', cx_role := Some ''admin''\<rparr>) \<lparr>ib_email = ''a'', ib_role = Some ''owner''\<rparr> ''t'' sample_invited))))).
     me_orgId m = ''o'' \<and> me_userId m = sample_uuid CHR ''2'' \<and> me_role m = ''owner''"
    using sample_uuid_ok
    by (intro admin_invites_owner) (simp_all add: sample_invited_def sample_access_def new_invitation_def sample_uuid_def)
  then show ?thesis by blast
qed

end
