(* ===== verification/Publisher_Routes.thy ===== *)
theory Publisher_Routes
  imports Route_Base Publisher_Selector
begin

text \<open>
  The publishers of an organization, \<open>api/src/routes/publishers.ts\<close>: creation, item routes and heartbeat. The list is
  left out. With the choice of a publisher in \<open>keeper/src/publisher-selector.ts\<close> this gives what becomes of publishers
  that only the API writes.
\<close>

section \<open>Inputs\<close>

record publisher_body =
  ub_name :: "string option"
  ub_description :: "string option"
  ub_endpoint :: "string option"
  ub_walletAddress :: "string option"
  ub_suiVaultId :: "string option"

definition publisher_name_ok :: "string \<Rightarrow> bool" where
  "publisher_name_ok s \<longleftrightarrow> 1 \<le> length s \<and> length s \<le> 255"

text \<open>The name is required in a creation and may be absent in an update.\<close>

definition publisher_body_ok :: "bool \<Rightarrow> publisher_body \<Rightarrow> bool" where
  "publisher_body_ok partial b \<longleftrightarrow> (case ub_name b of Some s \<Rightarrow> publisher_name_ok s | None \<Rightarrow> partial)"

section \<open>Statements\<close>

abbreviation publishers :: "api_state \<Rightarrow> publisher_row list" where
  "publishers st \<equiv> db_publishers (ap_db st)"

definition on_publishers :: "(publisher_row list \<Rightarrow> publisher_row list) \<Rightarrow> api_state \<Rightarrow> api_state" where
  "on_publishers f st = write_db (\<lambda>d. d\<lparr>db_publishers := f (db_publishers d)\<rparr>) st"

definition set_fields :: "publisher_body \<Rightarrow> publisher_row \<Rightarrow> publisher_row" where
  "set_fields b p =
     p\<lparr>pb_name := or_default (ub_name b) (pb_name p),
       pb_description := (if ub_description b = None then pb_description p else ub_description b),
       pb_endpoint := (if ub_endpoint b = None then pb_endpoint p else ub_endpoint b),
       pb_walletAddress := (if ub_walletAddress b = None then pb_walletAddress p else ub_walletAddress b),
       pb_suiVaultId := (if ub_suiVaultId b = None then pb_suiVaultId p else ub_suiVaultId b)\<rparr>"

definition body_json :: "publisher_body \<Rightarrow> json" where
  "body_json b = JObj (defined ''name'' (ub_name b) @ defined ''description'' (ub_description b)
     @ defined ''endpoint'' (ub_endpoint b) @ defined ''walletAddress'' (ub_walletAddress b)
     @ defined ''suiVaultId'' (ub_suiVaultId b))"

definition insert_publisher :: "publisher_row \<Rightarrow> api_state \<Rightarrow> thrown + api_state" where
  "insert_publisher p st =
     (if pb_id p \<in> pb_id ` set (publishers st) then Inl (duplicate_key ''publishers_pkey'')
      else Inr (on_publishers (\<lambda>ps. ps @ [p]) st))"

definition upd_publishers :: "string \<Rightarrow> (publisher_row \<Rightarrow> publisher_row) \<Rightarrow> api_state \<Rightarrow> api_state" where
  "upd_publishers i f = on_publishers (sql_update (\<lambda>p. pb_id p = i) f)"

section \<open>Handlers\<close>

definition create_publisher ::
    "api_env \<Rightarrow> request \<Rightarrow> request_vars \<Rightarrow> publisher_body \<Rightarrow> api_state \<Rightarrow> publisher_row handled" where
  "create_publisher env rq cx b st =
     (case cx_orgId cx of
        None \<Rightarrow> (Inl undefined_arg, st)
      | Some org \<Rightarrow>
          (let i = av_id env ''publishers'' (length (publishers st));
               p = set_fields b (new_publisher i (av_now env) org '''')
           in case insert_publisher p st of
                Inl e \<Rightarrow> (Inl e, st)
              | Inr st1 \<Rightarrow>
                  (Inr (201, Row p),
                   logAudit env rq cx ''publisher.created'' ''publisher'' (Some i) (Some (JObj [(''name'', JStr (pb_name p))])) st1)))"

text \<open>The start of the item routes.\<close>

definition on_publisher ::
    "request \<Rightarrow> request_vars \<Rightarrow> (string \<Rightarrow> publisher_row \<Rightarrow> api_state \<Rightarrow> publisher_row handled) \<Rightarrow> api_state \<Rightarrow> publisher_row handled" where
  "on_publisher rq cx k st =
     (case truthy (rq_param rq ''id'') of
        None \<Rightarrow> invalid ''Publisher ID is required'' st
      | Some i \<Rightarrow>
          (case cx_orgId cx of
             None \<Rightarrow> (Inl undefined_arg, st)
           | Some org \<Rightarrow>
               if \<not> is_uuid i then (Inl (uuid_error i), st)
               else (case first_row (filter (\<lambda>p. pb_id p = i \<and> pb_orgId p = org) (publishers st)) of
                       None \<Rightarrow> (Inr (api_error [] 404 ''Publisher not found'' ''NOT_FOUND''), st)
                     | Some p \<Rightarrow> k i p st)))"

definition read_publisher :: "string \<Rightarrow> publisher_row \<Rightarrow> api_state \<Rightarrow> publisher_row handled" where
  "read_publisher i p st = (Inr (200, Row p), st)"

definition update_publisher ::
    "api_env \<Rightarrow> request \<Rightarrow> request_vars \<Rightarrow> publisher_body \<Rightarrow> string \<Rightarrow> publisher_row \<Rightarrow> api_state \<Rightarrow> publisher_row handled" where
  "update_publisher env rq cx b i p st =
     (let f = (\<lambda>x. (set_fields b x)\<lparr>pb_updatedAt := av_now env\<rparr>) in
      (Inr (200, Row (f p)),
       logAudit env rq cx ''publisher.updated'' ''publisher'' (Some i) (Some (body_json b)) (upd_publishers i f st)))"

definition delete_publisher ::
    "api_env \<Rightarrow> request \<Rightarrow> request_vars \<Rightarrow> string \<Rightarrow> publisher_row \<Rightarrow> api_state \<Rightarrow> publisher_row handled" where
  "delete_publisher env rq cx i p st =
     (if pb_status p = ''deleted'' then invalid ''Publisher already deleted'' st
      else (Inr (say ''Publisher deleted''),
            logAudit env rq cx ''publisher.deleted'' ''publisher'' (Some i) None
              (upd_publishers i (\<lambda>x. x\<lparr>pb_status := ''deleted'', pb_deletedAt := Some (av_now env),
                 pb_updatedAt := av_now env\<rparr>) st)))"

definition heartbeat_publisher :: "api_env \<Rightarrow> string \<Rightarrow> publisher_row \<Rightarrow> api_state \<Rightarrow> publisher_row handled" where
  "heartbeat_publisher env i p st =
     (Inr (say ''Heartbeat recorded''),
      upd_publishers i (\<lambda>x. x\<lparr>pb_lastHeartbeatAt := Some (av_now env), pb_updatedAt := av_now env\<rparr>) st)"

section \<open>Routes\<close>

datatype publisher_op =
    CreatePublisherOp publisher_body | ReadPublisher | UpdatePublisherOp publisher_body | DeletePublisherOp | HeartbeatPublisher

text \<open>Reads and heartbeats do not catch the errors of the hierarchy themselves, and raise none.\<close>

fun publisher_handler ::
    "api_env \<Rightarrow> request \<Rightarrow> publisher_op \<Rightarrow> request_vars \<Rightarrow> api_state \<Rightarrow> publisher_row handled" where
  "publisher_handler env rq (CreatePublisherOp b) cx st = catch_app (create_publisher env rq cx b st)"
| "publisher_handler env rq ReadPublisher cx st = on_publisher rq cx read_publisher st"
| "publisher_handler env rq (UpdatePublisherOp b) cx st = catch_app (on_publisher rq cx (update_publisher env rq cx b) st)"
| "publisher_handler env rq DeletePublisherOp cx st = catch_app (on_publisher rq cx (delete_publisher env rq cx) st)"
| "publisher_handler env rq HeartbeatPublisher cx st = on_publisher rq cx (heartbeat_publisher env) st"

fun publisher_guards :: "publisher_op \<Rightarrow> guard list" where
  "publisher_guards ReadPublisher = [GAuth, GOrg]"
| "publisher_guards HeartbeatPublisher = [GAuth, GOrg]"
| "publisher_guards _ = [GAuth, GOrg, GRole [''owner'', ''admin'']]"

fun publisher_op_ok :: "publisher_op \<Rightarrow> bool" where
  "publisher_op_ok (CreatePublisherOp b) = publisher_body_ok False b"
| "publisher_op_ok (UpdatePublisherOp b) = publisher_body_ok True b"
| "publisher_op_ok _ = True"

definition publisher_request ::
    "api_env \<Rightarrow> string \<Rightarrow> request \<times> publisher_op \<Rightarrow> api_state \<Rightarrow> publisher_row body reply \<times> api_state" where
  "publisher_request env rid x st =
     (case x of (rq, op) \<Rightarrow> serve env rid (publisher_guards op) rq (publisher_op_ok op) (publisher_handler env rq op) st)"

section \<open>Facts\<close>

lemma sql_update_append: "sql_update p f (xs @ ys) = sql_update p f xs @ sql_update p f ys"
  by (simp add: sql_update_def)

lemma publishers_frames [simp]:
  "publishers (on_publishers f st) = f (publishers st)" "publishers (add_audit a st) = publishers st"
  "publishers (logAudit env rq cx act ty i ds st) = publishers st"
  "ap_access (on_publishers f st) = ap_access st" "ap_access (logAudit env rq cx act ty i ds st) = ap_access st"
  by (simp_all add: on_publishers_def add_audit_def logAudit_def split: sum.split)

lemma set_fields_simps [simp]:
  "pb_id (set_fields b p) = pb_id p" "pb_lastHeartbeatAt (set_fields b p) = pb_lastHeartbeatAt p"
  "pb_status (set_fields b p) = pb_status p" "pb_orgId (set_fields b p) = pb_orgId p"
  by (simp_all add: set_fields_def)

definition publishers_apart :: "api_env \<Rightarrow> api_state \<Rightarrow> bool" where
  "publishers_apart env st \<longleftrightarrow> (\<forall>g \<in> set (ac_orgs (ap_access st)).
     (\<forall>p \<in> set (publishers st). pb_id p \<noteq> og_id g) \<and> (\<forall>n. av_id env ''publishers'' n \<noteq> og_id g))"

lemma publisher_guards_read:
  assumes "run_guards env rq (publisher_guards op) (fresh_vars rid, d) = Pass (cx, d')"
  shows "d' = d" and "truthy (rq_param rq ''id'') = Some i \<Longrightarrow> cx_orgId cx = Some i \<and> (\<exists>g \<in> set (ac_orgs d). og_id g = i)"
proof -
  obtain gs where gs: "publisher_guards op = GAuth # GOrg # gs" "list_all reads_vars gs" by (cases op) auto
  show "d' = d" using assms by (cases op) (auto simp: result_simps split: if_splits)
  show "cx_orgId cx = Some i \<and> (\<exists>g \<in> set (ac_orgs d). og_id g = i)" if "truthy (rq_param rq ''id'') = Some i"
    using item_guards_org [OF assms [unfolded gs(1)] gs(2) that] by simp
qed

lemma on_publisher_none:
  assumes "\<And>i. truthy (rq_param rq ''id'') = Some i \<Longrightarrow> \<forall>p \<in> set (publishers st). pb_id p \<noteq> i"
  shows "snd (on_publisher rq cx k st) = st"
  using assms by (auto simp: on_publisher_def invalid_def first_row_filter_None split: option.split)

text \<open>What a request does: nothing, or one new publisher without a heartbeat.\<close>

lemma publisher_request_adds:
  assumes "publishers_apart env st"
  shows "(\<exists>new. publishers (snd (publisher_request env rid x st)) = publishers st @ new
      \<and> (\<forall>p \<in> set new. pb_lastHeartbeatAt p = None)) \<and> publishers_apart env (snd (publisher_request env rid x st))"
proof -
  obtain rq op where x: "x = (rq, op)" by (cases x)
  let ?P = "\<lambda>s. (\<exists>new. publishers s = publishers st @ new \<and> (\<forall>p \<in> set new. pb_lastHeartbeatAt p = None)) \<and> publishers_apart env s"
  have same: "?P st" using assms by simp
  show ?thesis unfolding publisher_request_def x prod.case
  proof (rule serve_cases [where P = ?P, OF same])
    fix cx d assume pass: "run_guards (av_access env) rq (publisher_guards op) (fresh_vars rid, ap_access st) = Pass (cx, d)"
    have none: "snd (on_publisher rq cx k st) = st" for k
      by (rule on_publisher_none) (use publisher_guards_read(2) [OF pass] assms in \<open>auto simp: publishers_apart_def\<close>)
    have "?P (snd (publisher_handler env rq op cx st))"
    proof (cases op)
      case (CreatePublisherOp b)
      have "?P (snd (create_publisher env rq cx b st))"
        using assms by (auto simp: create_publisher_def Let_def insert_publisher_def publishers_apart_def new_publisher_def
          split: option.split sum.split)
      with CreatePublisherOp show ?thesis by simp
    qed (use none same in simp_all)
    with publisher_guards_read(1) [OF pass] same
    show "?P (st\<lparr>ap_access := d\<rparr>) \<and> ?P (snd (publisher_handler env rq op cx (st\<lparr>ap_access := d\<rparr>)))" by simp
  qed
qed

lemma unhealthy_never_chosen:
  assumes "\<forall>p \<in> set (db_publishers d). \<not> isPublisherHealthy stale now p"
  shows "resolvePublisher stale now d project org override = None"
proof -
  have no: "find (\<lambda>(p, _). isPublisherHealthy stale now p) (assigned_publishers d pid) = None" for pid
    using assms by (auto simp: find_None_iff set_assigned)
  have "selectPublisherForProject stale now d pid o' = None" for pid o'
    using assms no [of pid]
    by (auto simp: selectPublisherForProject_def Let_def set_assigned dest!: find_memD split: option.splits)
  moreover have "selectPublisherForOrg stale now d org = None"
    using assms first_row_SomeD
    by (fastforce simp: selectPublisherForOrg_def org_publishers_def split: option.split)
  ultimately show ?thesis by (simp add: resolvePublisher_def split: option.split)
qed

section \<open>Properties\<close>

text \<open>
  C35: publishers go stale: the heartbeat route takes the publisher of the path for an organization and never finds it, so
  whatever requests the API gets, once the threshold has passed since the last heartbeats in the database no publisher is
  chosen for any renewal, neither for a project nor for an organization, with or without an override.
\<close>

theorem api_publishers_never_chosen:
  assumes "publishers_apart env st" and "stale = Some ms" and "ms \<le> now"
    and "\<forall>p \<in> set (publishers st). pred_option (\<lambda>t. t + ms \<le> now) (pb_lastHeartbeatAt p)"
  shows "resolvePublisher stale now (ap_db (run_requests (publisher_request env) xs st)) project org override = None"
proof -
  let ?I = "\<lambda>s. publishers_apart env s \<and> (\<forall>p \<in> set (publishers s). pred_option (\<lambda>t. t + ms \<le> now) (pb_lastHeartbeatAt p))"
  have "?I (run_requests (publisher_request env) xs st)"
  proof (rule run_requests_invariant [where I = ?I])
    fix rid and x :: "request \<times> publisher_op" and s
    assume I: "?I s"
    with publisher_request_adds [of env s rid x] show "?I (snd (publisher_request env rid x s))" by fastforce
  qed (use assms in simp)
  with assms(2,3) show ?thesis
    by (intro unhealthy_never_chosen) (auto simp: isPublisherHealthy_def Let_def or_default_def split: option.splits)
qed

text \<open>
  A created publisher would serve if its heartbeat were recorded: the row of the creation, with a heartbeat within the
  threshold, is the choice for its organization when that has no other publisher.
\<close>

theorem heartbeat_would_serve:
  assumes "create_publisher env rq cx b st = (Inr (201, Row p), st')" and "cx_orgId cx = Some org"
    and "org_publishers (ap_db st) org = []" and "stale = Some ms" and "now - av_now env < ms"
  shows "resolvePublisher stale now (ap_db (snd (heartbeat_publisher env (pb_id p) p st'))) None org None
    = Some (toPublisherInfo (p\<lparr>pb_lastHeartbeatAt := Some (av_now env), pb_updatedAt := av_now env\<rparr>) 0)"
proof -
  from assms(1,2) have p: "pb_id p \<notin> pb_id ` set (publishers st)" "publishers st' = publishers st @ [p]"
    "pb_status p = ''active''" "pb_deletedAt p = None" "pb_orgId p = org"
    by (auto simp: create_publisher_def Let_def insert_publisher_def new_publisher_def set_fields_def split: if_splits)
  let ?p = "p\<lparr>pb_lastHeartbeatAt := Some (av_now env), pb_updatedAt := av_now env\<rparr>"
  have "publishers (snd (heartbeat_publisher env (pb_id p) p st')) = publishers st @ [?p]"
  proof -
    have "\<forall>x \<in> set (publishers st). pb_id x \<noteq> pb_id p" using p(1) by (metis image_eqI)
    then have "sql_update (\<lambda>x. pb_id x = pb_id p) f (publishers st) = publishers st" for f by (intro sql_update_none) simp
    then show ?thesis by (simp add: heartbeat_publisher_def upd_publishers_def p(2) sql_update_append)
  qed
  with assms(3) p(3-5) have "org_publishers (ap_db (snd (heartbeat_publisher env (pb_id p) p st'))) org = [?p]"
    by (simp add: org_publishers_def)
  with assms(4,5) p(3) show ?thesis
    by (simp add: resolvePublisher_def selectPublisherForOrg_def truthy_def isPublisherHealthy_def or_default_def)
qed

subsection \<open>Witnesses\<close>

definition sample_publisher_state :: api_state where
  "sample_publisher_state =
     \<lparr>ap_access = sample_access, ap_db = empty_db\<lparr>db_publishers := [(new_publisher ''q'' 0 ''o'' ''Q'')\<lparr>pb_lastHeartbeatAt := Some 900\<rparr>]\<rparr>,
      ap_projects = [], ap_delegations = [], ap_events = [], ap_invitations = []\<rparr>"

abbreviation sample_publisher_env :: api_env where
  "sample_publisher_env \<equiv> \<lparr>av_access = sample_access_env, av_id = (\<lambda>t n. t), av_staleness = None\<rparr>"

theorem api_publishers_never_chosen_witness:
  "resolvePublisher (Some 100) 1000
     (ap_db (run_requests (publisher_request sample_publisher_env) [(''r'', sample_request (Some ''q''), HeartbeatPublisher)] sample_publisher_state))
     None ''o'' None = None"
  by (rule api_publishers_never_chosen [where ms = 100])
    (simp_all add: publishers_apart_def sample_publisher_state_def sample_access_def sample_org_def sample_uuid_def new_publisher_def empty_db_def)

abbreviation sample_publisher_body :: publisher_body where
  "sample_publisher_body \<equiv> \<lparr>ub_name = Some ''n'', ub_description = None, ub_endpoint = None, ub_walletAddress = None, ub_suiVaultId = None\<rparr>"

theorem heartbeat_would_serve_witness:
  "\<exists>p st'. create_publisher sample_publisher_env (sample_request None) owner_vars sample_publisher_body sample_publisher_state
      = (Inr (201, Row p), st')
    \<and> resolvePublisher (Some 100) 50 (ap_db (snd (heartbeat_publisher sample_publisher_env (pb_id p) p st'))) None (sample_uuid CHR ''1'') None \<noteq> None"
proof -
  obtain p st' where made: "create_publisher sample_publisher_env (sample_request None) owner_vars sample_publisher_body sample_publisher_state
      = (Inr (201, Row p), st')"
    by (simp add: create_publisher_def Let_def insert_publisher_def sample_publisher_state_def new_publisher_def set_fields_def)
  have "org_publishers (ap_db sample_publisher_state) (sample_uuid CHR ''1'') = []" "50 - av_now sample_publisher_env < 100"
    by (simp_all add: org_publishers_def sample_publisher_state_def new_publisher_def sample_uuid_def sample_access_env_def empty_db_def)
  with heartbeat_would_serve [OF made _ this(1) refl this(2)] made show ?thesis by auto
qed

end
