(* ===== verification/Api_Router.thy ===== *)
theory Api_Router
  imports Access
begin

text \<open>
  The routes of the API: the routers that \<open>api/src/index.ts\<close> mounts, each with the routes its file declares and the
  guards in front of them, in order. Matching a pattern against a path is the work of the web framework and a parameter;
  \<open>documented_router\<close> says what it promises for paths without escapes.
\<close>

section \<open>Routers\<close>

text \<open>Method, pattern below the mount, and guards, the ones of \<open>router.use\<close> first. Rate limits and validators are left out.\<close>

datatype http_route = Route (rt_method: string) (rt_pattern: string) (rt_guards: "guard list")

definition vault_router :: "http_route list" where
  "vault_router =
     [Route ''POST'' ''/'' [GAuth, GOrg],
      Route ''GET'' ''/:walletAddress'' [GAuth, GOrg],
      Route ''POST'' ''/:vaultId/deposit'' [GAuth, GOrg],
      Route ''POST'' ''/:vaultId/policy'' [GAuth, GOrg],
      Route ''POST'' ''/:vaultId/withdraw'' [GAuth, GOrg],
      Route ''POST'' ''/:vaultId/reclaim'' [GAuth, GOrg],
      Route ''GET'' ''/:vaultId/history'' [GAuth, GOrg]]"

definition auth_router :: "http_route list" where
  "auth_router =
     [Route ''POST'' ''/register'' [],
      Route ''POST'' ''/login'' [],
      Route ''GET'' ''/me'' [GAuth],
      Route ''POST'' ''/logout'' [GAuth]]"

definition org_router :: "http_route list" where
  "org_router =
     [Route ''POST'' ''/'' [GAuth],
      Route ''GET'' ''/'' [GAuth],
      Route ''GET'' ''/:id'' [GAuth, GOrg],
      Route ''PATCH'' ''/:id'' [GAuth, GOrg, GRole [''owner'', ''admin'']],
      Route ''DELETE'' ''/:id'' [GAuth, GOrg, GRole [''owner'']],
      Route ''POST'' ''/:id/restore'' [GAuth, GOrg, GRole [''owner'']],
      Route ''POST'' ''/:id/suspend'' [GAuth, GOrg, GRole [''owner'']],
      Route ''POST'' ''/:id/unsuspend'' [GAuth, GOrg, GRole [''owner'']],
      Route ''GET'' ''/:id/members'' [GAuth, GOrg, GRole [''owner'', ''admin'', ''member'']],
      Route ''POST'' ''/:id/members'' [GAuth, GOrg, GRole [''owner'', ''admin'']],
      Route ''PATCH'' ''/:id/members/:userId'' [GAuth, GOrg, GRole [''owner'', ''admin'']],
      Route ''DELETE'' ''/:id/members/:userId'' [GAuth, GOrg, GRole [''owner'', ''admin'']],
      Route ''GET'' ''/:id/audit-logs'' [GAuth, GOrg, GRole [''owner'', ''admin'']]]"

definition project_router :: "http_route list" where
  "project_router =
     [Route ''POST'' ''/'' [GAuth, GOrg, GRole [''owner'', ''admin'']],
      Route ''GET'' ''/'' [GAuth, GOrg],
      Route ''GET'' ''/:id'' [GAuth, GProjectOrg],
      Route ''PATCH'' ''/:id'' [GAuth, GProjectOrg, GRole [''owner'', ''admin'']],
      Route ''POST'' ''/:id/archive'' [GAuth, GProjectOrg, GRole [''owner'', ''admin'']],
      Route ''POST'' ''/:id/unarchive'' [GAuth, GProjectOrg, GRole [''owner'', ''admin'']],
      Route ''DELETE'' ''/:id'' [GAuth, GProjectOrg, GRole [''owner'', ''admin'']],
      Route ''POST'' ''/:id/restore'' [GAuth, GProjectOrg, GRole [''owner'', ''admin'']],
      Route ''GET'' ''/:id/blobs'' [GAuth, GProjectOrg]]"

definition blob_router :: "http_route list" where
  "blob_router =
     [Route ''POST'' ''/'' [GAuth, GOrg, GRole [''owner'', ''admin'', ''member'']],
      Route ''GET'' ''/'' [GAuth, GOrg],
      Route ''GET'' ''/export'' [GAuth, GOrg, GRole [''owner'', ''admin'']],
      Route ''GET'' ''/:id'' [GAuth, GOrg],
      Route ''PATCH'' ''/:id'' [GAuth, GOrg, GRole [''owner'', ''admin'', ''member'']],
      Route ''DELETE'' ''/:id'' [GAuth, GOrg, GRole [''owner'', ''admin'']],
      Route ''POST'' ''/bulk'' [GAuth, GOrg, GRole [''owner'', ''admin'']],
      Route ''GET'' ''/:id/transitions'' [GAuth, GOrg]]"

definition policy_router :: "http_route list" where
  "policy_router =
     [Route ''POST'' ''/'' [GAuth, GOrg, GCap [MANAGE_POLICIES]],
      Route ''GET'' ''/'' [GAuth, GOrg],
      Route ''GET'' ''/:id'' [GAuth, GOrg],
      Route ''PATCH'' ''/:id'' [GAuth, GOrg, GCap [MANAGE_POLICIES]],
      Route ''POST'' ''/:id/pause'' [GAuth, GOrg, GCap [MANAGE_POLICIES]],
      Route ''POST'' ''/:id/activate'' [GAuth, GOrg, GCap [MANAGE_POLICIES]],
      Route ''POST'' ''/:id/archive'' [GAuth, GOrg, GCap [MANAGE_POLICIES]],
      Route ''DELETE'' ''/:id'' [GAuth, GOrg, GCap [MANAGE_POLICIES]],
      Route ''POST'' ''/:id/assign'' [GAuth, GOrg, GCap [MANAGE_POLICIES]],
      Route ''POST'' ''/:id/unassign'' [GAuth, GOrg, GCap [MANAGE_POLICIES]],
      Route ''POST'' ''/resolve'' [GAuth, GOrg, GCap [MANAGE_POLICIES]],
      Route ''GET'' ''/resolve/:blobId'' [GAuth, GAuth, GOrg]]"

definition wallet_router :: "http_route list" where
  "wallet_router =
     [Route ''POST'' ''/'' [GAuth, GOrg, GCap [MANAGE_WALLETS]],
      Route ''GET'' ''/'' [GAuth, GOrg],
      Route ''GET'' ''/:id'' [GAuth, GOrg],
      Route ''PATCH'' ''/:id'' [GAuth, GOrg, GCap [MANAGE_WALLETS]],
      Route ''DELETE'' ''/:id'' [GAuth, GOrg, GCap [MANAGE_WALLETS]],
      Route ''POST'' ''/:id/restore'' [GAuth, GOrg, GCap [MANAGE_WALLETS]],
      Route ''POST'' ''/:id/revoke-delegation'' [GAuth, GOrg, GCap [MANAGE_WALLETS]],
      Route ''POST'' ''/:id/reconnect'' [GAuth, GOrg, GCap [MANAGE_WALLETS]],
      Route ''POST'' ''/:id/refresh-balance'' [GAuth, GOrg, GCap [MANAGE_WALLETS]],
      Route ''POST'' ''/:id/delegate'' [GAuth, GOrg, GCap [MANAGE_WALLETS]],
      Route ''GET'' ''/:id/delegations'' [GAuth, GOrg],
      Route ''POST'' ''/:id/delegations/:delegationId/revoke'' [GAuth, GOrg, GCap [MANAGE_WALLETS]]]"

definition alert_router :: "http_route list" where
  "alert_router =
     [Route ''POST'' ''/channels'' [GAuth, GOrg, GCap [MANAGE_ALERTS]],
      Route ''GET'' ''/channels'' [GAuth, GOrg],
      Route ''GET'' ''/channels/:id'' [GAuth, GOrg],
      Route ''PATCH'' ''/channels/:id'' [GAuth, GOrg, GCap [MANAGE_ALERTS]],
      Route ''DELETE'' ''/channels/:id'' [GAuth, GOrg, GCap [MANAGE_ALERTS]],
      Route ''POST'' ''/rules'' [GAuth, GOrg, GCap [MANAGE_ALERTS]],
      Route ''GET'' ''/rules'' [GAuth, GOrg],
      Route ''GET'' ''/rules/:id'' [GAuth, GOrg],
      Route ''PATCH'' ''/rules/:id'' [GAuth, GOrg, GCap [MANAGE_ALERTS]],
      Route ''POST'' ''/rules/:id/pause'' [GAuth, GOrg, GCap [MANAGE_ALERTS]],
      Route ''POST'' ''/rules/:id/activate'' [GAuth, GOrg, GCap [MANAGE_ALERTS]],
      Route ''DELETE'' ''/rules/:id'' [GAuth, GOrg, GCap [MANAGE_ALERTS]],
      Route ''POST'' ''/alert-events/:id/escalate'' [GAuth, GOrg, GCap [MANAGE_ALERTS]]]"

definition analytics_router :: "http_route list" where
  "analytics_router =
     [Route ''GET'' ''/overview'' [GAuth, GOrg],
      Route ''GET'' ''/storage'' [GAuth, GOrg],
      Route ''GET'' ''/renewals'' [GAuth, GOrg],
      Route ''GET'' ''/costs'' [GAuth, GOrg],
      Route ''GET'' ''/forecasts'' [GAuth, GOrg]]"

definition audit_log_router :: "http_route list" where
  "audit_log_router =
     [Route ''GET'' ''/'' [GAuth, GOrg, GCap [VIEW_AUDIT_LOG]]]"

definition activity_feed_router :: "http_route list" where
  "activity_feed_router =
     [Route ''GET'' ''/'' [GAuth, GOrg]]"

definition billing_router :: "http_route list" where
  "billing_router =
     [Route ''GET'' ''/subscription'' [GAuth, GOrg],
      Route ''POST'' ''/subscription'' [GAuth, GOrg, GRole [''owner'', ''admin'']],
      Route ''GET'' ''/invoices'' [GAuth, GOrg, GRole [''owner'', ''admin'']],
      Route ''GET'' ''/usage'' [GAuth, GOrg]]"

definition api_key_router :: "http_route list" where
  "api_key_router =
     [Route ''POST'' ''/'' [GAuth, GOrg, GCap [MANAGE_API_KEYS]],
      Route ''GET'' ''/'' [GAuth, GOrg],
      Route ''POST'' ''/:id/rotate'' [GAuth, GOrg, GCap [MANAGE_API_KEYS]],
      Route ''DELETE'' ''/:id'' [GAuth, GOrg, GCap [MANAGE_API_KEYS]]]"

definition publisher_router :: "http_route list" where
  "publisher_router =
     [Route ''POST'' ''/'' [GAuth, GOrg, GRole [''owner'', ''admin'']],
      Route ''GET'' ''/'' [GAuth, GOrg],
      Route ''GET'' ''/:id'' [GAuth, GOrg],
      Route ''PATCH'' ''/:id'' [GAuth, GOrg, GRole [''owner'', ''admin'']],
      Route ''DELETE'' ''/:id'' [GAuth, GOrg, GRole [''owner'', ''admin'']],
      Route ''POST'' ''/:id/heartbeat'' [GAuth, GOrg]]"

definition aggregator_router :: "http_route list" where
  "aggregator_router =
     [Route ''POST'' ''/'' [GAuth, GOrg, GRole [''owner'', ''admin'']],
      Route ''GET'' ''/'' [GAuth, GOrg],
      Route ''GET'' ''/:id'' [GAuth, GOrg],
      Route ''PATCH'' ''/:id'' [GAuth, GOrg, GRole [''owner'', ''admin'']],
      Route ''DELETE'' ''/:id'' [GAuth, GOrg, GRole [''owner'', ''admin'']],
      Route ''POST'' ''/:id/heartbeat'' [GAuth, GOrg]]"

definition budget_router :: "http_route list" where
  "budget_router =
     [Route ''POST'' ''/'' [GAuth, GOrg, GCap [MANAGE_BUDGETS]],
      Route ''GET'' ''/'' [GAuth, GOrg],
      Route ''GET'' ''/:id'' [GAuth, GOrg],
      Route ''PATCH'' ''/:id'' [GAuth, GOrg, GCap [MANAGE_BUDGETS]],
      Route ''DELETE'' ''/:id'' [GAuth, GOrg, GCap [MANAGE_BUDGETS]],
      Route ''POST'' ''/:id/close-window'' [GAuth, GOrg, GCap [MANAGE_BUDGETS]],
      Route ''POST'' ''/:id/activate'' [GAuth, GOrg, GCap [MANAGE_BUDGETS]],
      Route ''POST'' ''/:id/archive'' [GAuth, GOrg, GCap [MANAGE_BUDGETS]]]"

definition spending_limit_router :: "http_route list" where
  "spending_limit_router =
     [Route ''POST'' ''/'' [GAuth, GOrg, GRole [''owner'', ''admin'']],
      Route ''GET'' ''/'' [GAuth, GOrg],
      Route ''GET'' ''/:id'' [GAuth, GOrg],
      Route ''PATCH'' ''/:id'' [GAuth, GOrg, GRole [''owner'', ''admin'']],
      Route ''DELETE'' ''/:id'' [GAuth, GOrg, GRole [''owner'', ''admin'']],
      Route ''POST'' ''/:id/activate'' [GAuth, GOrg, GRole [''owner'', ''admin'']],
      Route ''POST'' ''/:id/pause'' [GAuth, GOrg, GRole [''owner'', ''admin'']]]"

definition team_router :: "http_route list" where
  "team_router =
     [Route ''POST'' ''/'' [GAuth, GOrg, GRole [''owner'', ''admin'']],
      Route ''GET'' ''/'' [GAuth, GOrg],
      Route ''GET'' ''/:id'' [GAuth, GOrg],
      Route ''PATCH'' ''/:id'' [GAuth, GOrg, GRole [''owner'', ''admin'']],
      Route ''DELETE'' ''/:id'' [GAuth, GOrg, GRole [''owner'', ''admin'']],
      Route ''POST'' ''/:id/members'' [GAuth, GOrg, GRole [''owner'', ''admin'']],
      Route ''DELETE'' ''/:id/members/:userId'' [GAuth, GOrg, GRole [''owner'', ''admin'']]]"

definition renewal_job_router :: "http_route list" where
  "renewal_job_router =
     [Route ''GET'' ''/'' [GAuth, GOrg],
      Route ''GET'' ''/:id'' [GAuth, GOrg],
      Route ''POST'' ''/'' [GAuth, GOrg, GRole [''owner'', ''admin'']],
      Route ''POST'' ''/:id/retry'' [GAuth, GOrg, GRole [''owner'', ''admin'']],
      Route ''POST'' ''/:id/cancel'' [GAuth, GOrg, GRole [''owner'', ''admin'']],
      Route ''POST'' ''/:id/override'' [GAuth, GOrg, GRole [''owner'', ''admin'']],
      Route ''GET'' ''/:id/transitions'' [GAuth, GOrg]]"

definition cost_simulation_router :: "http_route list" where
  "cost_simulation_router =
     [Route ''POST'' ''/simulate'' [GAuth, GOrg]]"

definition invitation_router :: "http_route list" where
  "invitation_router =
     [Route ''POST'' ''/'' [GAuth, GOrg, GRole [''owner'', ''admin'']],
      Route ''GET'' ''/'' [GAuth, GOrg],
      Route ''DELETE'' ''/:id'' [GAuth, GOrg, GRole [''owner'', ''admin'']],
      Route ''POST'' ''/accept'' [GAuth]]"

definition webhook_router :: "http_route list" where
  "webhook_router =
     [Route ''POST'' ''/'' [GAuth, GOrg, GCap [MANAGE_WEBHOOKS]],
      Route ''GET'' ''/'' [GAuth, GOrg],
      Route ''GET'' ''/:id'' [GAuth, GOrg],
      Route ''PATCH'' ''/:id'' [GAuth, GOrg, GCap [MANAGE_WEBHOOKS]],
      Route ''DELETE'' ''/:id'' [GAuth, GOrg, GCap [MANAGE_WEBHOOKS]],
      Route ''GET'' ''/:id/transitions'' [GAuth, GOrg]]"

definition alert_event_router :: "http_route list" where
  "alert_event_router =
     [Route ''GET'' ''/'' [GAuth, GOrg],
      Route ''GET'' ''/:id'' [GAuth, GOrg],
      Route ''POST'' ''/:id/acknowledge'' [GAuth, GOrg, GRole [''owner'', ''admin'', ''member'']],
      Route ''GET'' ''/:id/transitions'' [GAuth, GOrg]]"

definition schedule_router :: "http_route list" where
  "schedule_router =
     [Route ''POST'' ''/'' [GAuth, GOrg, GRole [''owner'', ''admin'']],
      Route ''GET'' ''/'' [GAuth, GOrg],
      Route ''GET'' ''/:id'' [GAuth, GOrg],
      Route ''PATCH'' ''/:id'' [GAuth, GOrg, GRole [''owner'', ''admin'']],
      Route ''POST'' ''/:id/pause'' [GAuth, GOrg, GRole [''owner'', ''admin'']],
      Route ''POST'' ''/:id/activate'' [GAuth, GOrg, GRole [''owner'', ''admin'']],
      Route ''DELETE'' ''/:id'' [GAuth, GOrg, GRole [''owner'', ''admin'']],
      Route ''GET'' ''/:id/runs'' [GAuth, GOrg]]"

definition dashboard_router :: "http_route list" where
  "dashboard_router =
     [Route ''GET'' ''/summary'' [GAuth, GOrg]]"

definition admin_router :: "http_route list" where
  "admin_router =
     [Route ''GET'' ''/health'' [GAdmin],
      Route ''POST'' ''/trigger-scan'' [GAdmin],
      Route ''GET'' ''/queues'' [GAdmin],
      Route ''GET'' ''/metrics'' [GAdmin],
      Route ''POST'' ''/retry-job/:id'' [GAdmin],
      Route ''GET'' ''/tenants/:orgId'' [GAdmin],
      Route ''POST'' ''/encryption/rotate-key'' [GAdmin]]"

definition feature_flag_router :: "http_route list" where
  "feature_flag_router =
     [Route ''GET'' ''/'' [GAdmin],
      Route ''POST'' ''/'' [GAdmin],
      Route ''PATCH'' ''/:id'' [GAdmin],
      Route ''DELETE'' ''/:id'' [GAdmin],
      Route ''GET'' ''/:id/check'' [GAdmin]]"

definition experiment_router :: "http_route list" where
  "experiment_router =
     [Route ''POST'' ''/'' [GAdmin],
      Route ''PATCH'' ''/:name'' [GAdmin],
      Route ''DELETE'' ''/:name'' [GAdmin],
      Route ''PATCH'' ''/:name/assign'' [GAdmin],
      Route ''POST'' ''/:name/assign'' [GAdmin],
      Route ''GET'' ''/'' [GAdmin],
      Route ''GET'' ''/:name'' [GAdmin],
      Route ''GET'' ''/:name/variant'' [GAuth, GOrg]]"

definition mounts :: "(string \<times> http_route list) list" where
  "mounts =
     [(''/vaults'', vault_router),
      (''/auth'', auth_router),
      (''/orgs'', org_router),
      (''/projects'', project_router),
      (''/blobs'', blob_router),
      (''/policies'', policy_router),
      (''/wallets'', wallet_router),
      (''/alerts'', alert_router),
      (''/analytics'', analytics_router),
      (''/audit-logs'', audit_log_router),
      (''/activity-feed'', activity_feed_router),
      (''/billing'', billing_router),
      (''/api-keys'', api_key_router),
      (''/publishers'', publisher_router),
      (''/aggregators'', aggregator_router),
      (''/budgets'', budget_router),
      (''/spending-limits'', spending_limit_router),
      (''/teams'', team_router),
      (''/renewal-jobs'', renewal_job_router),
      (''/cost-engine'', cost_simulation_router),
      (''/invitations'', invitation_router),
      (''/webhooks'', webhook_router),
      (''/alert-events'', alert_event_router),
      (''/schedules'', schedule_router),
      (''/dashboard'', dashboard_router),
      (''/admin'', admin_router),
      (''/admin/flags'', feature_flag_router),
      (''/experiments'', experiment_router)]"

section \<open>Dispatch\<close>

text \<open>What a pattern makes of a path: the parameters in order of occurrence.\<close>

type_synonym params = "(string \<times> string) list"
type_synonym path_matcher = "string \<Rightarrow> string \<Rightarrow> params option"

text \<open>A route below a mount: the pattern \<open>/\<close> is the mount itself.\<close>

definition below :: "string \<Rightarrow> string \<Rightarrow> string" where
  "below base pattern = (if pattern = ''/'' then base else base @ pattern)"

primrec first_some :: "('a \<Rightarrow> 'b option) \<Rightarrow> 'a list \<Rightarrow> 'b option" where
  "first_some f [] = None"
| "first_some f (x # xs) = (case f x of Some y \<Rightarrow> Some y | None \<Rightarrow> first_some f xs)"

definition match_route :: "path_matcher \<Rightarrow> string \<Rightarrow> string \<Rightarrow> string \<Rightarrow> http_route \<Rightarrow> (http_route \<times> params) option" where
  "match_route match meth base path r =
     (if rt_method r = meth then map_option (Pair r) (match (below base (rt_pattern r)) path) else None)"

text \<open>The API is mounted under \<open>/api/v1\<close> and, deprecated, under \<open>/api\<close>.\<close>

definition dispatch_route :: "path_matcher \<Rightarrow> string \<Rightarrow> string \<Rightarrow> string \<Rightarrow> (http_route \<times> params) option" where
  "dispatch_route match prefix meth path =
     first_some (\<lambda>(base, router). first_some (match_route match meth (prefix @ base) path) router) mounts"

section \<open>Documented matching\<close>

text \<open>
  A pattern matches segment by segment; a segment that starts with a colon matches any non-empty one and names it. The
  paths considered have no escapes: their segments are plain, so that decoding leaves them alone.
\<close>

fun match_segment :: "string \<Rightarrow> string \<Rightarrow> params option" where
  "match_segment (CHR '':'' # name) s = (if s = [] then None else Some [(name, s)])"
| "match_segment p s = (if p = s then Some [] else None)"

fun match_segments :: "string list \<Rightarrow> string list \<Rightarrow> params option" where
  "match_segments [] [] = Some []"
| "match_segments (p # ps) (s # ss) =
     (case match_segment p s of
        None \<Rightarrow> None
      | Some m \<Rightarrow> map_option (append m) (match_segments ps ss))"
| "match_segments _ _ = None"

definition plain_char :: "char \<Rightarrow> bool" where
  "plain_char c \<longleftrightarrow> is_digit c \<or> CHR ''a'' \<le> c \<and> c \<le> CHR ''z'' \<or> c \<in> {CHR ''-'', CHR ''_''} \<or> CHR ''A'' \<le> c \<and> c \<le> CHR ''Z''"

definition plain :: "string \<Rightarrow> bool" where
  "plain s \<longleftrightarrow> s \<noteq> [] \<and> list_all plain_char s"

definition documented_router :: "path_matcher \<Rightarrow> bool" where
  "documented_router match \<longleftrightarrow>
     (\<forall>pattern path. list_all plain (tl (split_on CHR ''/'' path)) \<longrightarrow>
        match pattern path = match_segments (split_on CHR ''/'' pattern) (split_on CHR ''/'' path))"

text \<open>The two prefixes.\<close>

definition api_prefixes :: "string list" where
  "api_prefixes = [''/api/v1'', ''/api'']"

section \<open>Lemmas\<close>

named_theorems routing

declare split_on_append [routing] split_on_free [routing]

lemma plain_chars:
  assumes "plain s" and "x \<in> set s"
  shows "plain_char x"
  using assms by (auto simp: plain_def list_all_iff)

lemma plain_free [routing]:
  assumes "plain s"
  shows "CHR ''/'' \<notin> set s" "CHR ''?'' \<notin> set s" "CHR ''#'' \<notin> set s" "s \<noteq> []"
  using assms plain_chars [OF assms, of "CHR ''/''"] plain_chars [OF assms, of "CHR ''?''"] plain_chars [OF assms, of "CHR ''#''"]
  by (auto simp: plain_char_def is_digit_def less_eq_char_def plain_def)

lemma split_on_plain [routing]: "plain s \<Longrightarrow> split_on CHR ''/'' (s @ CHR ''/'' # rest) = s # split_on CHR ''/'' rest"
  "plain s \<Longrightarrow> split_on CHR ''/'' s = [s]"
  by (simp_all add: split_on_append split_on_free plain_free(1))

lemma match_segments_literal:
  assumes "list_all (\<lambda>p. p = [] \<or> hd p \<noteq> CHR '':'') ls"
  shows "match_segments (ls @ ps) (ls @ ss) = match_segments ps ss"
  using assms
proof (induction ls)
  case (Cons l ls)
  moreover from Cons.prems have "match_segment l l = Some []" by (cases "(l, l)" rule: match_segment.cases) auto
  ultimately show ?case by (cases "match_segments ps ss") simp_all
qed simp

text \<open>Dispatch by segments, the prefix dropped.\<close>

definition pattern_segments :: "string \<Rightarrow> string list" where
  "pattern_segments p = (if p = ''/'' then [] else tl (split_on CHR ''/'' p))"

definition segment_route :: "string \<Rightarrow> string list \<Rightarrow> string list \<Rightarrow> http_route \<Rightarrow> (http_route \<times> params) option" where
  "segment_route meth base segs r =
     (if rt_method r = meth then map_option (Pair r) (match_segments (base @ pattern_segments (rt_pattern r)) segs) else None)"

definition lookup_route :: "string \<Rightarrow> string list \<Rightarrow> (http_route \<times> params) option" where
  "lookup_route meth segs =
     first_some (\<lambda>(base, router). first_some (segment_route meth (tl (split_on CHR ''/'' base)) segs) router) mounts"

lemmas router_defs = vault_router_def auth_router_def org_router_def project_router_def blob_router_def policy_router_def
  wallet_router_def alert_router_def analytics_router_def audit_log_router_def activity_feed_router_def billing_router_def
  api_key_router_def publisher_router_def aggregator_router_def budget_router_def spending_limit_router_def
  team_router_def renewal_job_router_def cost_simulation_router_def invitation_router_def webhook_router_def
  alert_event_router_def schedule_router_def dashboard_router_def admin_router_def feature_flag_router_def
  experiment_router_def

definition slashed :: "string \<Rightarrow> bool" where
  "slashed p \<longleftrightarrow> p \<noteq> [] \<and> hd p = CHR ''/''"

lemma routers_slashed: "list_all (\<lambda>(base, router). slashed base \<and> list_all (slashed \<circ> rt_pattern) router) mounts"
  by (simp add: mounts_def router_defs slashed_def)

lemma split_below:
  assumes "slashed base" and "slashed pattern"
  shows "split_on CHR ''/'' (prefix @ below base pattern)
    = split_on CHR ''/'' prefix @ tl (split_on CHR ''/'' base) @ pattern_segments pattern"
proof -
  from assms obtain b p where b: "base = CHR ''/'' # b" and p: "pattern = CHR ''/'' # p"
    by (metis slashed_def list.collapse)
  show ?thesis by (simp add: b p below_def pattern_segments_def split_on_append)
qed

lemma first_some_cong:
  assumes "\<forall>x \<in> set xs. f x = g x"
  shows "first_some f xs = first_some g xs"
  using assms by (induction xs) (simp_all split: option.split)

lemma first_some_miss: "\<forall>x \<in> set xs. f x = None \<Longrightarrow> first_some f xs = None"
  by (induction xs) simp_all

lemma dispatch_route_lookup:
  assumes "documented_router match" and "prefix \<in> set api_prefixes" and "list_all plain segs"
    and "split_on CHR ''/'' (prefix @ path) = split_on CHR ''/'' prefix @ segs"
  shows "dispatch_route match prefix meth (prefix @ path) = lookup_route meth segs"
proof -
  have literal: "list_all (\<lambda>p. p = [] \<or> hd p \<noteq> CHR '':'') (split_on CHR ''/'' prefix)"
    and plain_prefix: "list_all plain (tl (split_on CHR ''/'' prefix))"
    using assms(2) by (auto simp: api_prefixes_def plain_def plain_char_def is_digit_def less_eq_char_def)
  have "list_all plain (tl (split_on CHR ''/'' (prefix @ path)))"
    using plain_prefix assms(3) unfolding assms(4) by (cases "split_on CHR ''/'' prefix") simp_all
  with assms(1) have match: "match pattern (prefix @ path) = match_segments (split_on CHR ''/'' pattern) (split_on CHR ''/'' prefix @ segs)"
    for pattern unfolding documented_router_def assms(4) [symmetric] by blast
  have "match_route match meth (prefix @ base) (prefix @ path) r = segment_route meth (tl (split_on CHR ''/'' base)) segs r"
    if "(base, router) \<in> set mounts" and "r \<in> set router" for base router r
  proof -
    from routers_slashed that have s: "slashed base" "slashed (rt_pattern r)" by (auto simp: list_all_iff)
    have "below (prefix @ base) (rt_pattern r) = prefix @ below base (rt_pattern r)" by (simp add: below_def)
    then show ?thesis
      by (simp add: match_route_def segment_route_def match split_below [OF s] match_segments_literal [OF literal])
  qed
  then show ?thesis unfolding dispatch_route_def lookup_route_def
    by (intro first_some_cong) (auto intro!: first_some_cong)
qed

text \<open>A mount whose first segment differs has no route for the path.\<close>

lemma segment_route_miss [routing]:
  assumes "x \<noteq> y" and "x \<noteq> []" and "hd x \<noteq> CHR '':''"
  shows "first_some (segment_route meth (x # base) (y # segs)) router = None"
proof (rule first_some_miss, rule ballI)
  fix r assume "r \<in> set router"
  from assms have "match_segment x y = None" by (cases "(x, y)" rule: match_segment.cases) auto
  then show "segment_route meth (x # base) (y # segs) r = None" by (simp add: segment_route_def)
qed

end
