(* ===== verification/Sdk_Client.thy ===== *)
theory Sdk_Client
  imports Route_Base Api_Router
begin

text \<open>
  The client of the SDK, \<open>sdk/src/client.ts\<close>: what each method asks of the API, the headers it sends, the query strings,
  and the loop that polls for the end of an operation. Sending a request and retrying it are in \<open>Retry\<close>; the static
  types of arguments and answers are not modelled, an argument that is passed on as the body is a JSON value.
\<close>

section \<open>Configuration and headers\<close>

record sdk_config =
  sc_apiUrl :: string
  sc_apiKey :: "string option"
  sc_token :: "string option"
  sc_orgId :: "string option"
  sc_maxRetries :: int

record sdk_options =
  so_apiUrl :: "string option"
  so_apiKey :: "string option"
  so_token :: "string option"
  so_orgId :: "string option"
  so_maxRetries :: "int option"

definition SDK_VERSION :: string where
  "SDK_VERSION = ''0.1.0''"

definition new_client :: "sdk_options \<Rightarrow> sdk_config" where
  "new_client opts =
     \<lparr>sc_apiUrl = or_default (so_apiUrl opts) ''http://localhost:3001/api'', sc_apiKey = so_apiKey opts,
      sc_token = so_token opts, sc_orgId = so_orgId opts, sc_maxRetries = or_default (so_maxRetries opts) 2\<rparr>"

definition setToken :: "string \<Rightarrow> sdk_config \<Rightarrow> sdk_config" where
  "setToken token cfg = cfg\<lparr>sc_token := Some token\<rparr>"

definition setOrgId :: "string \<Rightarrow> sdk_config \<Rightarrow> sdk_config" where
  "setOrgId org cfg = cfg\<lparr>sc_orgId := Some org\<rparr>"

text \<open>The organization of a call: absent, \<open>null\<close>, or given.\<close>

datatype org_arg = NoOrgArg | NullOrg | OrgArg string

definition effective_org :: "sdk_config \<Rightarrow> org_arg \<Rightarrow> string option" where
  "effective_org cfg org = (case org of NoOrgArg \<Rightarrow> sc_orgId cfg | NullOrg \<Rightarrow> None | OrgArg s \<Rightarrow> Some s)"

definition getHeaders :: "sdk_config \<Rightarrow> org_arg \<Rightarrow> (string \<times> string) list" where
  "getHeaders cfg org =
     [(''Content-Type'', ''application/json''), (''X-API-Version'', SDK_VERSION)]
     @ (case truthy (sc_token cfg) of
          Some t \<Rightarrow> [(''Authorization'', ''Bearer '' @ t)]
        | None \<Rightarrow> (case truthy (sc_apiKey cfg) of Some k \<Rightarrow> [(''x-api-key'', k)] | None \<Rightarrow> []))
     @ (case truthy (effective_org cfg org) of Some s \<Rightarrow> [(''X-Org-Id'', s)] | None \<Rightarrow> [])"

text \<open>What a method asks for; the field is the one of the answer it returns, if not the whole.\<close>

record sdk_call =
  sd_method :: string
  sd_path :: string
  sd_body :: "json option"
  sd_org :: org_arg
  sd_field :: "string option"

definition call :: "string \<Rightarrow> string \<Rightarrow> json option \<Rightarrow> org_arg \<Rightarrow> sdk_call" where
  "call meth path body org = \<lparr>sd_method = meth, sd_path = path, sd_body = body, sd_org = org, sd_field = None\<rparr>"

definition call_field :: "string \<Rightarrow> string \<Rightarrow> org_arg \<Rightarrow> sdk_call" where
  "call_field field path org = \<lparr>sd_method = ''GET'', sd_path = path, sd_body = None, sd_org = org, sd_field = Some field\<rparr>"

section \<open>Query strings\<close>

text \<open>\<open>URLSearchParams\<close> writes the bytes of names and values: some as they are, a space as plus, the others escaped.\<close>

definition hex_char :: "nat \<Rightarrow> char" where
  "hex_char n = (if n < 10 then char_of (48 + n) else char_of (55 + n))"

definition form_safe :: "char \<Rightarrow> bool" where
  "form_safe c \<longleftrightarrow> plain_char c \<or> c \<in> {CHR ''*'', CHR ''.''}"

definition form_char :: "char \<Rightarrow> string" where
  "form_char c =
     (if form_safe c then [c] else if c = CHR '' '' then ''+''
      else [CHR ''%'', hex_char (of_char c div 16), hex_char (of_char c mod 16)])"

definition form_encode :: "string \<Rightarrow> string" where
  "form_encode s = concat (map form_char s)"

fun query_string :: "(string \<times> string) list \<Rightarrow> string" where
  "query_string [] = []"
| "query_string [(k, v)] = form_encode k @ CHR ''='' # form_encode v"
| "query_string ((k, v) # ps) = form_encode k @ CHR ''='' # form_encode v @ CHR ''&'' # query_string ps"

definition with_query :: "string \<Rightarrow> (string \<times> string) list \<Rightarrow> string" where
  "with_query path ps = path @ (if query_string ps = [] then [] else CHR ''?'' # query_string ps)"

text \<open>\<open>if (params?.k) query.set(k, params.k)\<close>, for a text and for a number.\<close>

definition if_text :: "string \<Rightarrow> string option \<Rightarrow> (string \<times> string) list" where
  "if_text k v = (case truthy v of Some s \<Rightarrow> [(k, s)] | None \<Rightarrow> [])"

definition if_number :: "string \<Rightarrow> int option \<Rightarrow> (string \<times> string) list" where
  "if_number k v = (case v of Some n \<Rightarrow> if n = 0 then [] else [(k, show_int n)] | None \<Rightarrow> [])"

lemma truthy_twice: "truthy (truthy v) = truthy v"
  by (auto simp: truthy_def split: option.split list.split)

text \<open>A parameter that is pasted into the path without an escape.\<close>

definition raw_query :: "string \<Rightarrow> string option \<Rightarrow> string" where
  "raw_query k v = (case truthy v of Some s \<Rightarrow> CHR ''?'' # k @ CHR ''='' # s | None \<Rightarrow> [])"

section \<open>Methods\<close>

subsection \<open>Accounts, organizations, members\<close>

datatype auth_method = SdkRegister string string "string option" | SdkLogin string string | SdkLogout | SdkMe

fun auth_call :: "auth_method \<Rightarrow> sdk_call" where
  "auth_call (SdkRegister email password name) =
     call ''POST'' ''/auth/register'' (Some (JObj ([(''email'', JStr email), (''password'', JStr password)] @ defined ''name'' name))) NoOrgArg"
| "auth_call (SdkLogin email password) =
     call ''POST'' ''/auth/login'' (Some (JObj [(''email'', JStr email), (''password'', JStr password)])) NoOrgArg"
| "auth_call SdkLogout = call ''POST'' ''/auth/logout'' None NoOrgArg"
| "auth_call SdkMe = call ''GET'' ''/auth/me'' None NoOrgArg"

datatype org_method =
    ListOrganizations | GetOrganization string | CreateOrganization string string
  | UpdateOrganization string json | DeleteOrganization string

fun org_call :: "org_method \<Rightarrow> sdk_call" where
  "org_call ListOrganizations = call_field ''organizations'' ''/orgs'' NoOrgArg"
| "org_call (GetOrganization i) = call ''GET'' (''/orgs/'' @ i) None NoOrgArg"
| "org_call (CreateOrganization name slug) =
     call ''POST'' ''/orgs'' (Some (JObj [(''name'', JStr name), (''slug'', JStr slug)])) NoOrgArg"
| "org_call (UpdateOrganization i data) = call ''PATCH'' (''/orgs/'' @ i) (Some data) NoOrgArg"
| "org_call (DeleteOrganization i) = call ''DELETE'' (''/orgs/'' @ i) None NoOrgArg"

datatype member_method =
    ListMembers string | AddMember string string string | UpdateMemberRole string string string | RemoveMember string string

fun member_call :: "member_method \<Rightarrow> sdk_call" where
  "member_call (ListMembers org) = call_field ''members'' ''/members'' (OrgArg org)"
| "member_call (AddMember org email role) =
     call ''POST'' ''/members'' (Some (JObj [(''email'', JStr email), (''role'', JStr role)])) (OrgArg org)"
| "member_call (UpdateMemberRole org user role) =
     call ''PATCH'' (''/members/'' @ user) (Some (JObj [(''role'', JStr role)])) (OrgArg org)"
| "member_call (RemoveMember org user) = call ''DELETE'' (''/members/'' @ user) None (OrgArg org)"

subsection \<open>Projects and blobs\<close>

datatype project_method =
    ListProjects string | GetProject string string | CreateProject string json
  | UpdateProject string string json | DeleteProject string string

fun project_call :: "project_method \<Rightarrow> sdk_call" where
  "project_call (ListProjects org) = call_field ''projects'' ''/projects'' (OrgArg org)"
| "project_call (GetProject org i) = call ''GET'' (''/projects/'' @ i) None (OrgArg org)"
| "project_call (CreateProject org data) = call ''POST'' ''/projects'' (Some data) (OrgArg org)"
| "project_call (UpdateProject org i data) = call ''PATCH'' (''/projects/'' @ i) (Some data) (OrgArg org)"
| "project_call (DeleteProject org i) = call ''DELETE'' (''/projects/'' @ i) None (OrgArg org)"

record blob_params =
  bp_search :: "string option"
  bp_status :: "string option"
  bp_project_id :: "string option"
  bp_tag :: "string option"
  bp_page :: "int option"
  bp_limit :: "int option"

datatype blob_method =
    ListBlobs string blob_params | GetBlob string string | CreateBlob string json | UpdateBlob string string json
  | DeleteBlob string string | BulkBlobAction string string "string list" | ExportBlobs string

definition blob_query :: "blob_params \<Rightarrow> (string \<times> string) list" where
  "blob_query p = if_text ''search'' (bp_search p) @ if_text ''status'' (bp_status p)
     @ if_text ''project_id'' (bp_project_id p) @ if_text ''tag'' (bp_tag p)
     @ if_number ''page'' (bp_page p) @ if_number ''limit'' (bp_limit p)"

fun blob_call :: "blob_method \<Rightarrow> sdk_call" where
  "blob_call (ListBlobs org p) = call ''GET'' (with_query ''/blobs'' (blob_query p)) None (OrgArg org)"
| "blob_call (GetBlob org i) = call ''GET'' (''/blobs/'' @ i) None (OrgArg org)"
| "blob_call (CreateBlob org data) = call ''POST'' ''/blobs'' (Some data) (OrgArg org)"
| "blob_call (UpdateBlob org i data) = call ''PATCH'' (''/blobs/'' @ i) (Some data) (OrgArg org)"
| "blob_call (DeleteBlob org i) = call ''DELETE'' (''/blobs/'' @ i) None (OrgArg org)"
| "blob_call (BulkBlobAction org action ids) =
     call ''POST'' ''/blobs/bulk'' (Some (JObj [(''action'', JStr action), (''ids'', JArr (map JStr ids))])) (OrgArg org)"
| "blob_call (ExportBlobs org) = call ''GET'' ''/blobs/export'' None (OrgArg org)"

text \<open>The list of a project takes four of the six.\<close>

definition project_blob_query :: "blob_params \<Rightarrow> (string \<times> string) list" where
  "project_blob_query p = if_text ''search'' (bp_search p) @ if_text ''status'' (bp_status p)
     @ if_number ''page'' (bp_page p) @ if_number ''limit'' (bp_limit p)"

definition getProjectBlobs :: "string \<Rightarrow> blob_params \<Rightarrow> sdk_call" where
  "getProjectBlobs i p = call ''GET'' (with_query (''/projects/'' @ i @ ''/blobs'') (project_blob_query p)) None NoOrgArg"

definition track :: "string \<Rightarrow> sdk_call" where
  "track i = call ''GET'' (''/blobs/'' @ i) None NullOrg"

subsection \<open>Policies and wallets\<close>

datatype policy_method =
    ListPolicies string | GetPolicy string string | CreatePolicy string json | UpdatePolicy string string json
  | DeletePolicy string string | AssignPolicy string string "string list" | UnassignPolicy string string "string list"

fun policy_call :: "policy_method \<Rightarrow> sdk_call" where
  "policy_call (ListPolicies org) = call_field ''policies'' ''/policies'' (OrgArg org)"
| "policy_call (GetPolicy org i) = call ''GET'' (''/policies/'' @ i) None (OrgArg org)"
| "policy_call (CreatePolicy org data) = call ''POST'' ''/policies'' (Some data) (OrgArg org)"
| "policy_call (UpdatePolicy org i data) = call ''PATCH'' (''/policies/'' @ i) (Some data) (OrgArg org)"
| "policy_call (DeletePolicy org i) = call ''DELETE'' (''/policies/'' @ i) None (OrgArg org)"
| "policy_call (AssignPolicy org i ids) =
     call ''POST'' (''/policies/'' @ i @ ''/assign'') (Some (JObj [(''blob_ids'', JArr (map JStr ids))])) (OrgArg org)"
| "policy_call (UnassignPolicy org i ids) =
     call ''POST'' (''/policies/'' @ i @ ''/unassign'') (Some (JObj [(''blob_ids'', JArr (map JStr ids))])) (OrgArg org)"

text \<open>\<open>pausePolicy\<close>, \<open>activatePolicy\<close> and \<open>archivePolicy\<close>.\<close>

datatype policy_step = PausePolicy | ActivatePolicy | ArchivePolicy

fun policy_step_call :: "policy_step \<Rightarrow> string \<Rightarrow> string \<Rightarrow> sdk_call" where
  "policy_step_call PausePolicy org i = call ''POST'' (''/policies/'' @ i @ ''/pause'') None (OrgArg org)"
| "policy_step_call ActivatePolicy org i = call ''POST'' (''/policies/'' @ i @ ''/activate'') None (OrgArg org)"
| "policy_step_call ArchivePolicy org i = call ''POST'' (''/policies/'' @ i @ ''/archive'') None (OrgArg org)"

datatype wallet_method =
    ListWallets string | GetWallet string string | CreateWallet string json | UpdateWallet string string json
  | DeleteWallet string string | RefreshWalletBalance string string

fun wallet_call :: "wallet_method \<Rightarrow> sdk_call" where
  "wallet_call (ListWallets org) = call_field ''wallets'' ''/wallets'' (OrgArg org)"
| "wallet_call (GetWallet org i) = call ''GET'' (''/wallets/'' @ i) None (OrgArg org)"
| "wallet_call (CreateWallet org data) = call ''POST'' ''/wallets'' (Some data) (OrgArg org)"
| "wallet_call (UpdateWallet org i data) = call ''PATCH'' (''/wallets/'' @ i) (Some data) (OrgArg org)"
| "wallet_call (DeleteWallet org i) = call ''DELETE'' (''/wallets/'' @ i) None (OrgArg org)"
| "wallet_call (RefreshWalletBalance org i) = call ''POST'' (''/wallets/'' @ i @ ''/refresh-balance'') None (OrgArg org)"

datatype wallet_step = SuspendWallet | UnsuspendWallet | RestoreWallet | RevokeWalletDelegation | ReconnectWallet

fun wallet_step_call :: "wallet_step \<Rightarrow> string \<Rightarrow> string \<Rightarrow> sdk_call" where
  "wallet_step_call SuspendWallet org i = call ''POST'' (''/wallets/'' @ i @ ''/suspend'') None (OrgArg org)"
| "wallet_step_call UnsuspendWallet org i = call ''POST'' (''/wallets/'' @ i @ ''/unsuspend'') None (OrgArg org)"
| "wallet_step_call RestoreWallet org i = call ''POST'' (''/wallets/'' @ i @ ''/restore'') None (OrgArg org)"
| "wallet_step_call RevokeWalletDelegation org i = call ''POST'' (''/wallets/'' @ i @ ''/revoke-delegation'') None (OrgArg org)"
| "wallet_step_call ReconnectWallet org i = call ''POST'' (''/wallets/'' @ i @ ''/reconnect'') None (OrgArg org)"

subsection \<open>Alerts\<close>

datatype channel_method =
    ListChannels string | GetChannel string string | CreateChannel string json | UpdateChannel string string json
  | DeleteChannel string string

fun channel_call :: "channel_method \<Rightarrow> sdk_call" where
  "channel_call (ListChannels org) = call_field ''channels'' ''/alerts/channels'' (OrgArg org)"
| "channel_call (GetChannel org i) = call ''GET'' (''/alerts/channels/'' @ i) None (OrgArg org)"
| "channel_call (CreateChannel org data) = call ''POST'' ''/alerts/channels'' (Some data) (OrgArg org)"
| "channel_call (UpdateChannel org i data) = call ''PATCH'' (''/alerts/channels/'' @ i) (Some data) (OrgArg org)"
| "channel_call (DeleteChannel org i) = call ''DELETE'' (''/alerts/channels/'' @ i) None (OrgArg org)"

datatype rule_method =
    ListAlertRules string | GetAlertRule string string | CreateAlertRule string json | UpdateAlertRule string string json
  | DeleteAlertRule string string

fun rule_call :: "rule_method \<Rightarrow> sdk_call" where
  "rule_call (ListAlertRules org) = call_field ''rules'' ''/alerts/rules'' (OrgArg org)"
| "rule_call (GetAlertRule org i) = call ''GET'' (''/alerts/rules/'' @ i) None (OrgArg org)"
| "rule_call (CreateAlertRule org data) = call ''POST'' ''/alerts/rules'' (Some data) (OrgArg org)"
| "rule_call (UpdateAlertRule org i data) = call ''PATCH'' (''/alerts/rules/'' @ i) (Some data) (OrgArg org)"
| "rule_call (DeleteAlertRule org i) = call ''DELETE'' (''/alerts/rules/'' @ i) None (OrgArg org)"

datatype alert_event_method = ListAlertEvents string "string option" | AcknowledgeAlertEvent string

fun alert_event_call :: "alert_event_method \<Rightarrow> sdk_call" where
  "alert_event_call (ListAlertEvents org status) =
     call ''GET'' (''/alert-events'' @ raw_query ''status'' status) None (OrgArg org)"
| "alert_event_call (AcknowledgeAlertEvent i) = call ''POST'' (''/alert-events/'' @ i @ ''/acknowledge'') None NoOrgArg"

subsection \<open>Analytics, audit log, billing, keys\<close>

datatype analytics_method =
    GetAnalyticsOverview string | GetAnalyticsStorage string | GetAnalyticsRenewals string | GetAnalyticsCosts string
  | GetAnalyticsForecasts string

fun analytics_call :: "analytics_method \<Rightarrow> sdk_call" where
  "analytics_call (GetAnalyticsOverview org) = call ''GET'' ''/analytics/overview'' None (OrgArg org)"
| "analytics_call (GetAnalyticsStorage org) = call ''GET'' ''/analytics/storage'' None (OrgArg org)"
| "analytics_call (GetAnalyticsRenewals org) = call ''GET'' ''/analytics/renewals'' None (OrgArg org)"
| "analytics_call (GetAnalyticsCosts org) = call ''GET'' ''/analytics/costs'' None (OrgArg org)"
| "analytics_call (GetAnalyticsForecasts org) = call ''GET'' ''/analytics/forecasts'' None (OrgArg org)"

definition getDashboardSummary :: "string \<Rightarrow> string option \<Rightarrow> sdk_call" where
  "getDashboardSummary org project = call ''GET'' (''/dashboard/summary'' @ raw_query ''projectId'' project) None (OrgArg org)"

definition getAuditLogs :: "string \<Rightarrow> sdk_call" where
  "getAuditLogs org = call_field ''auditLogs'' ''/audit-logs'' (OrgArg org)"

datatype billing_method =
    GetSubscription string | CreateOrUpdateSubscription string string | ListInvoices string | GetUsage string

fun billing_call :: "billing_method \<Rightarrow> sdk_call" where
  "billing_call (GetSubscription org) = call ''GET'' ''/billing/subscription'' None (OrgArg org)"
| "billing_call (CreateOrUpdateSubscription org plan) =
     call ''POST'' ''/billing/subscription'' (Some (JObj [(''plan'', JStr plan)])) (OrgArg org)"
| "billing_call (ListInvoices org) = call_field ''invoices'' ''/billing/invoices'' (OrgArg org)"
| "billing_call (GetUsage org) = call_field ''usage'' ''/billing/usage'' (OrgArg org)"

datatype key_method = ListApiKeys string | CreateApiKey string json | DeleteApiKey string string

fun key_call :: "key_method \<Rightarrow> sdk_call" where
  "key_call (ListApiKeys org) = call_field ''apiKeys'' ''/api-keys'' (OrgArg org)"
| "key_call (CreateApiKey org data) = call ''POST'' ''/api-keys'' (Some data) (OrgArg org)"
| "key_call (DeleteApiKey org i) = call ''DELETE'' (''/api-keys/'' @ i) None (OrgArg org)"

subsection \<open>Vaults\<close>

datatype vault_method =
    CreateVault json | GetVaults string | DepositToVault string json | UpdateVaultPolicy string json
  | WithdrawFromVault string json | ReclaimFromVault string json | GetVaultHistory string "int option" "int option"

fun vault_call :: "vault_method \<Rightarrow> sdk_call" where
  "vault_call (CreateVault data) = call ''POST'' ''/vaults'' (Some data) NoOrgArg"
| "vault_call (GetVaults wallet) = call ''GET'' (''/vaults/'' @ wallet) None NoOrgArg"
| "vault_call (DepositToVault i data) = call ''POST'' (''/vaults/'' @ i @ ''/deposit'') (Some data) NoOrgArg"
| "vault_call (UpdateVaultPolicy i data) = call ''POST'' (''/vaults/'' @ i @ ''/policy'') (Some data) NoOrgArg"
| "vault_call (WithdrawFromVault i data) = call ''POST'' (''/vaults/'' @ i @ ''/withdraw'') (Some data) NoOrgArg"
| "vault_call (ReclaimFromVault i data) = call ''POST'' (''/vaults/'' @ i @ ''/reclaim'') (Some data) NoOrgArg"
| "vault_call (GetVaultHistory i page limit) =
     call ''GET'' (with_query (''/vaults/'' @ i @ ''/history'') (if_number ''page'' page @ if_number ''limit'' limit)) None NoOrgArg"

text \<open>\<open>manage\<close>: the method an action stands for. The organization is not passed on.\<close>

definition or_zero :: "int option \<Rightarrow> int \<Rightarrow> int" where
  "or_zero v d = (case v of Some n \<Rightarrow> if n = 0 then d else n | None \<Rightarrow> d)"

definition manage :: "string \<Rightarrow> string \<Rightarrow> int option \<Rightarrow> string option \<Rightarrow> thrown + vault_method" where
  "manage i action amount wallet =
     (let address = (''wallet_address'', JStr (or_default wallet []));
          policy = (\<lambda>threshold extension active.
            JObj [address, (''renew_threshold_epochs'', JNum threshold), (''renew_by_epochs'', JNum extension), (''active'', JBool active)])
      in if action = ''withdraw''
         then Inr (WithdrawFromVault i (JObj [address, (''amount'', JStr (show_int (or_zero amount 0)))]))
         else if action = ''reclaim'' then Inr (ReclaimFromVault i (JObj [address]))
         else if action = ''pause'' then Inr (UpdateVaultPolicy i (policy 0 0 False))
         else if action = ''resume'' then Inr (UpdateVaultPolicy i (policy (or_zero amount 5) 10 True))
         else Inl (js_Error (''Unknown action: '' @ action)))"

subsection \<open>Publishers, aggregators, budgets, limits\<close>

datatype publisher_method =
    ListPublishers string | GetPublisher string string | CreatePublisher string json | UpdatePublisher string string json
  | DeletePublisher string string | PublisherHeartbeat string string

fun publisher_call :: "publisher_method \<Rightarrow> sdk_call" where
  "publisher_call (ListPublishers org) = call_field ''publishers'' ''/publishers'' (OrgArg org)"
| "publisher_call (GetPublisher org i) = call ''GET'' (''/publishers/'' @ i) None (OrgArg org)"
| "publisher_call (CreatePublisher org data) = call ''POST'' ''/publishers'' (Some data) (OrgArg org)"
| "publisher_call (UpdatePublisher org i data) = call ''PATCH'' (''/publishers/'' @ i) (Some data) (OrgArg org)"
| "publisher_call (DeletePublisher org i) = call ''DELETE'' (''/publishers/'' @ i) None (OrgArg org)"
| "publisher_call (PublisherHeartbeat org i) = call ''POST'' (''/publishers/'' @ i @ ''/heartbeat'') None (OrgArg org)"

datatype aggregator_method =
    ListAggregators string | GetAggregator string string | CreateAggregator string json | UpdateAggregator string string json
  | DeleteAggregator string string | AggregatorHeartbeat string string

fun aggregator_call :: "aggregator_method \<Rightarrow> sdk_call" where
  "aggregator_call (ListAggregators org) = call_field ''aggregators'' ''/aggregators'' (OrgArg org)"
| "aggregator_call (GetAggregator org i) = call ''GET'' (''/aggregators/'' @ i) None (OrgArg org)"
| "aggregator_call (CreateAggregator org data) = call ''POST'' ''/aggregators'' (Some data) (OrgArg org)"
| "aggregator_call (UpdateAggregator org i data) = call ''PATCH'' (''/aggregators/'' @ i) (Some data) (OrgArg org)"
| "aggregator_call (DeleteAggregator org i) = call ''DELETE'' (''/aggregators/'' @ i) None (OrgArg org)"
| "aggregator_call (AggregatorHeartbeat org i) = call ''POST'' (''/aggregators/'' @ i @ ''/heartbeat'') None (OrgArg org)"

datatype budget_method =
    ListBudgets string | GetBudget string string | CreateBudget string json | UpdateBudget string string json
  | DeleteBudget string string | PauseBudget string string | ActivateBudget string string | ArchiveBudget string string

fun budget_call :: "budget_method \<Rightarrow> sdk_call" where
  "budget_call (ListBudgets org) = call_field ''budgets'' ''/budgets'' (OrgArg org)"
| "budget_call (GetBudget org i) = call ''GET'' (''/budgets/'' @ i) None (OrgArg org)"
| "budget_call (CreateBudget org data) = call ''POST'' ''/budgets'' (Some data) (OrgArg org)"
| "budget_call (UpdateBudget org i data) = call ''PATCH'' (''/budgets/'' @ i) (Some data) (OrgArg org)"
| "budget_call (DeleteBudget org i) = call ''DELETE'' (''/budgets/'' @ i) None (OrgArg org)"
| "budget_call (PauseBudget org i) = call ''POST'' (''/budgets/'' @ i @ ''/pause'') None (OrgArg org)"
| "budget_call (ActivateBudget org i) = call ''POST'' (''/budgets/'' @ i @ ''/activate'') None (OrgArg org)"
| "budget_call (ArchiveBudget org i) = call ''POST'' (''/budgets/'' @ i @ ''/archive'') None (OrgArg org)"

datatype limit_method =
    ListSpendingLimits string | GetSpendingLimit string string | CreateSpendingLimit string json
  | UpdateSpendingLimit string string json | DeleteSpendingLimit string string | PauseSpendingLimit string string
  | ActivateSpendingLimit string string | ArchiveSpendingLimit string string

fun limit_call :: "limit_method \<Rightarrow> sdk_call" where
  "limit_call (ListSpendingLimits org) = call_field ''spendingLimits'' ''/spending-limits'' (OrgArg org)"
| "limit_call (GetSpendingLimit org i) = call ''GET'' (''/spending-limits/'' @ i) None (OrgArg org)"
| "limit_call (CreateSpendingLimit org data) = call ''POST'' ''/spending-limits'' (Some data) (OrgArg org)"
| "limit_call (UpdateSpendingLimit org i data) = call ''PATCH'' (''/spending-limits/'' @ i) (Some data) (OrgArg org)"
| "limit_call (DeleteSpendingLimit org i) = call ''DELETE'' (''/spending-limits/'' @ i) None (OrgArg org)"
| "limit_call (PauseSpendingLimit org i) = call ''POST'' (''/spending-limits/'' @ i @ ''/pause'') None (OrgArg org)"
| "limit_call (ActivateSpendingLimit org i) = call ''POST'' (''/spending-limits/'' @ i @ ''/activate'') None (OrgArg org)"
| "limit_call (ArchiveSpendingLimit org i) = call ''POST'' (''/spending-limits/'' @ i @ ''/archive'') None (OrgArg org)"

subsection \<open>Teams, invitations, renewal jobs\<close>

datatype team_method =
    ListTeams string | GetTeam string string | CreateTeam string json | UpdateTeam string string json
  | DeleteTeam string string | AddTeamMember string string string "string option" | RemoveTeamMember string string string

fun team_call :: "team_method \<Rightarrow> sdk_call" where
  "team_call (ListTeams org) = call_field ''teams'' ''/teams'' (OrgArg org)"
| "team_call (GetTeam org i) = call ''GET'' (''/teams/'' @ i) None (OrgArg org)"
| "team_call (CreateTeam org data) = call ''POST'' ''/teams'' (Some data) (OrgArg org)"
| "team_call (UpdateTeam org i data) = call ''PATCH'' (''/teams/'' @ i) (Some data) (OrgArg org)"
| "team_call (DeleteTeam org i) = call ''DELETE'' (''/teams/'' @ i) None (OrgArg org)"
| "team_call (AddTeamMember org i user role) =
     call ''POST'' (''/teams/'' @ i @ ''/members'') (Some (JObj ((''userId'', JStr user) # defined ''role'' role))) (OrgArg org)"
| "team_call (RemoveTeamMember org i user) = call ''DELETE'' (''/teams/'' @ i @ ''/members/'' @ user) None (OrgArg org)"

datatype invite_method = ListInvitations string | SdkCreateInvitation string json | SdkCancelInvitation string string | SdkAcceptInvitation string

fun invite_call :: "invite_method \<Rightarrow> sdk_call" where
  "invite_call (ListInvitations org) = call_field ''invitations'' ''/invitations'' (OrgArg org)"
| "invite_call (SdkCreateInvitation org data) = call ''POST'' ''/invitations'' (Some data) (OrgArg org)"
| "invite_call (SdkCancelInvitation org i) = call ''DELETE'' (''/invitations/'' @ i) None (OrgArg org)"
| "invite_call (SdkAcceptInvitation token) =
     call ''POST'' ''/invitations/accept'' (Some (JObj [(''token'', JStr token)])) NoOrgArg"

datatype job_method =
    ListRenewalJobs string "string option" | GetRenewalJob string string | RetryRenewalJob string string
  | CancelRenewalJob string string | SdkCreateRenewalJob string json

fun job_call :: "job_method \<Rightarrow> sdk_call" where
  "job_call (ListRenewalJobs org status) =
     call_field ''renewalJobs'' (''/renewal-jobs'' @ raw_query ''status'' status) (OrgArg org)"
| "job_call (GetRenewalJob org i) = call ''GET'' (''/renewal-jobs/'' @ i) None (OrgArg org)"
| "job_call (RetryRenewalJob org i) = call ''POST'' (''/renewal-jobs/'' @ i @ ''/retry'') None (OrgArg org)"
| "job_call (CancelRenewalJob org i) = call ''POST'' (''/renewal-jobs/'' @ i @ ''/cancel'') None (OrgArg org)"
| "job_call (SdkCreateRenewalJob org data) = call ''POST'' ''/renewal-jobs'' (Some data) (OrgArg org)"

subsection \<open>Schedules and webhooks\<close>

datatype schedule_method =
    ListSchedules string "string option" | CreateSchedule string json | UpdateSchedule string json | DeleteSchedule string

fun schedule_call :: "schedule_method \<Rightarrow> sdk_call" where
  "schedule_call (ListSchedules org type) = call ''GET'' (''/schedules'' @ raw_query ''type'' type) None (OrgArg org)"
| "schedule_call (CreateSchedule org data) = call ''POST'' ''/schedules'' (Some data) (OrgArg org)"
| "schedule_call (UpdateSchedule i data) = call ''PATCH'' (''/schedules/'' @ i) (Some data) NoOrgArg"
| "schedule_call (DeleteSchedule i) = call ''DELETE'' (''/schedules/'' @ i) None NoOrgArg"

datatype webhook_method =
    ListWebhooks string | CreateWebhook string json | UpdateWebhook string json | DeleteWebhook string | TestWebhook string

fun webhook_call :: "webhook_method \<Rightarrow> sdk_call" where
  "webhook_call (ListWebhooks org) = call ''GET'' ''/webhooks'' None (OrgArg org)"
| "webhook_call (CreateWebhook org data) = call ''POST'' ''/webhooks'' (Some data) (OrgArg org)"
| "webhook_call (UpdateWebhook i data) = call ''PATCH'' (''/webhooks/'' @ i) (Some data) NoOrgArg"
| "webhook_call (DeleteWebhook i) = call ''DELETE'' (''/webhooks/'' @ i) None NoOrgArg"
| "webhook_call (TestWebhook i) = call ''POST'' (''/webhooks/'' @ i @ ''/test'') None NoOrgArg"

subsection \<open>Administration, activity feed, experiments\<close>

datatype admin_method =
    AdminGetHealth | AdminGetQueues | AdminTriggerScan string | AdminListFlags | AdminCreateFlag json
  | AdminUpdateFlag string json | AdminDeleteFlag string | AdminCheckFlag string "string option" | AdminGetMetrics
  | AdminGetTenant string | AdminRetryJob string json

fun admin_call :: "admin_method \<Rightarrow> sdk_call" where
  "admin_call AdminGetHealth = call ''GET'' ''/admin/health'' None NoOrgArg"
| "admin_call AdminGetQueues = call ''GET'' ''/admin/queues'' None NoOrgArg"
| "admin_call (AdminTriggerScan why) =
     call ''POST'' ''/admin/trigger-scan'' (Some (JObj [(''justification'', JStr why)])) NoOrgArg"
| "admin_call AdminListFlags = call ''GET'' ''/admin/flags'' None NoOrgArg"
| "admin_call (AdminCreateFlag data) = call ''POST'' ''/admin/flags'' (Some data) NoOrgArg"
| "admin_call (AdminUpdateFlag i data) = call ''PATCH'' (''/admin/flags/'' @ i) (Some data) NoOrgArg"
| "admin_call (AdminDeleteFlag i) = call ''DELETE'' (''/admin/flags/'' @ i) None NoOrgArg"
| "admin_call (AdminCheckFlag i org) = call ''GET'' (''/admin/flags/'' @ i @ ''/check'' @ raw_query ''orgId'' org) None NoOrgArg"
| "admin_call AdminGetMetrics = call ''GET'' ''/admin/metrics'' None NoOrgArg"
| "admin_call (AdminGetTenant org) = call ''GET'' (''/admin/tenants/'' @ org) None NoOrgArg"
| "admin_call (AdminRetryJob i data) = call ''POST'' (''/admin/retry-job/'' @ i) (Some data) NoOrgArg"

text \<open>\<open>adminListTenants\<close> and \<open>adminRetryRenewalJob\<close>.\<close>

definition adminListTenants :: "string \<Rightarrow> admin_method" where
  "adminListTenants org = AdminGetTenant org"

definition sdkRetryRenewalJob :: "string \<Rightarrow> string \<Rightarrow> admin_method" where
  "sdkRetryRenewalJob i why = AdminRetryJob i (JObj [(''justification'', JStr why)])"

record feed_params =
  fp_action :: "string option"
  fp_resourceType :: "string option"
  fp_actorType :: "string option"
  fp_cursor :: "string option"
  fp_limit :: "int option"

definition feed_query :: "feed_params \<Rightarrow> (string \<times> string) list" where
  "feed_query p = if_text ''action'' (fp_action p) @ if_text ''resource_type'' (fp_resourceType p)
     @ if_text ''actor_type'' (fp_actorType p) @ if_text ''cursor'' (fp_cursor p) @ if_number ''limit'' (fp_limit p)"

text \<open>\<open>getActivityFeed\<close>, and \<open>listActivityFeed\<close>, which only calls it.\<close>

definition getActivityFeed :: "string \<Rightarrow> feed_params \<Rightarrow> sdk_call" where
  "getActivityFeed org p = call ''GET'' (with_query ''/activity-feed'' (feed_query p)) None (OrgArg org)"

text \<open>The methods of the experiments; those without \<open>admin\<close> in the name only call these.\<close>

datatype experiment_method =
    AdminListExperiments | AdminGetExperiment string | AdminCreateExperiment string | AdminDeleteExperiment string
  | AdminAssignExperiment string string string | AdminGetVariant string

fun experiment_call :: "experiment_method \<Rightarrow> sdk_call" where
  "experiment_call AdminListExperiments = call_field ''experiments'' ''/experiments'' NoOrgArg"
| "experiment_call (AdminGetExperiment name) = call_field ''assignments'' (''/experiments/'' @ name) NoOrgArg"
| "experiment_call (AdminCreateExperiment name) =
     call ''POST'' ''/experiments'' (Some (JObj [(''name'', JStr name)])) NoOrgArg"
| "experiment_call (AdminDeleteExperiment name) = call ''DELETE'' (''/experiments/'' @ name) None NoOrgArg"
| "experiment_call (AdminAssignExperiment name org variant) =
     call ''POST'' (''/experiments/'' @ name @ ''/assign'') (Some (JObj [(''orgId'', JStr org), (''variant'', JStr variant)])) NoOrgArg"
| "experiment_call (AdminGetVariant name) = call ''GET'' (''/experiments/'' @ name @ ''/variant'') None NoOrgArg"

subsection \<open>The client\<close>

datatype sdk_method =
    Auth auth_method | Org org_method | Member member_method | Project project_method | Blob blob_method
  | ProjectBlobs string blob_params | Track string | PolicyM policy_method | PolicyStep policy_step string string
  | WalletM wallet_method | WalletStep wallet_step string string | Channel channel_method | Rule rule_method
  | AlertEventM alert_event_method | Analytics analytics_method | Dashboard string "string option" | AuditLogs string
  | Billing billing_method | Key key_method | VaultM vault_method | PublisherM publisher_method
  | AggregatorM aggregator_method | BudgetM budget_method | LimitM limit_method | TeamM team_method
  | Invite invite_method | JobM job_method | ScheduleM schedule_method | WebhookM webhook_method
  | Admin admin_method | Feed string feed_params | Experiment experiment_method

fun sdk_call_of :: "sdk_method \<Rightarrow> sdk_call" where
  "sdk_call_of (Auth m) = auth_call m"
| "sdk_call_of (Org m) = org_call m"
| "sdk_call_of (Member m) = member_call m"
| "sdk_call_of (Project m) = project_call m"
| "sdk_call_of (Blob m) = blob_call m"
| "sdk_call_of (ProjectBlobs i p) = getProjectBlobs i p"
| "sdk_call_of (Track i) = track i"
| "sdk_call_of (PolicyM m) = policy_call m"
| "sdk_call_of (PolicyStep m org i) = policy_step_call m org i"
| "sdk_call_of (WalletM m) = wallet_call m"
| "sdk_call_of (WalletStep m org i) = wallet_step_call m org i"
| "sdk_call_of (Channel m) = channel_call m"
| "sdk_call_of (Rule m) = rule_call m"
| "sdk_call_of (AlertEventM m) = alert_event_call m"
| "sdk_call_of (Analytics m) = analytics_call m"
| "sdk_call_of (Dashboard org p) = getDashboardSummary org p"
| "sdk_call_of (AuditLogs org) = getAuditLogs org"
| "sdk_call_of (Billing m) = billing_call m"
| "sdk_call_of (Key m) = key_call m"
| "sdk_call_of (VaultM m) = vault_call m"
| "sdk_call_of (PublisherM m) = publisher_call m"
| "sdk_call_of (AggregatorM m) = aggregator_call m"
| "sdk_call_of (BudgetM m) = budget_call m"
| "sdk_call_of (LimitM m) = limit_call m"
| "sdk_call_of (TeamM m) = team_call m"
| "sdk_call_of (Invite m) = invite_call m"
| "sdk_call_of (JobM m) = job_call m"
| "sdk_call_of (ScheduleM m) = schedule_call m"
| "sdk_call_of (WebhookM m) = webhook_call m"
| "sdk_call_of (Admin m) = admin_call m"
| "sdk_call_of (Feed org p) = getActivityFeed org p"
| "sdk_call_of (Experiment m) = experiment_call m"

end
