(* ===== verification/Sdk_Routes.thy ===== *)
theory Sdk_Routes
  imports Sdk_Client
begin

text \<open>
  What the API makes of the requests of the SDK: each method with its route, the guards in front of it, and the answer of
  the fallback of \<open>api/src/index.ts\<close> for a path that no route matches.
\<close>

section \<open>Serving a request of the SDK\<close>

text \<open>The path that the server sees: the URL without its origin, up to the query or the fragment.\<close>

definition request_url :: "sdk_config \<Rightarrow> sdk_call \<Rightarrow> string" where
  "request_url cfg c = sc_apiUrl cfg @ sd_path c"

definition url_path :: "string \<Rightarrow> string" where
  "url_path s = takeWhile (\<lambda>c. c \<noteq> CHR ''?'' \<and> c \<noteq> CHR ''#'') s"

definition served_path :: "string \<Rightarrow> sdk_config \<Rightarrow> sdk_call \<Rightarrow> string" where
  "served_path origin cfg c = url_path (drop (length origin) (request_url cfg c))"

text \<open>Header names are compared without case.\<close>

definition header_of :: "(string \<times> string) list \<Rightarrow> string \<Rightarrow> string option" where
  "header_of hs name = map_option snd (first_row (filter (\<lambda>h. to_lower (fst h) = to_lower name) hs))"

definition sdk_http :: "string \<Rightarrow> sdk_config \<Rightarrow> sdk_call \<Rightarrow> params \<Rightarrow> request" where
  "sdk_http origin cfg c ps =
     \<lparr>rq_method = sd_method c, rq_path = served_path origin cfg c, rq_param = map_of ps,
      rq_header = header_of (getHeaders cfg (sd_org c))\<rparr>"

definition route_not_found :: "string \<Rightarrow> string \<Rightarrow> string \<Rightarrow> http_response" where
  "route_not_found rid meth path =
     errorResponse (Some rid) 404 ''NOT_FOUND'' (''Route '' @ meth @ '' '' @ path @ '' not found'') None None (Some FPersistent) None"

text \<open>A request up to the handler: the fallback, or the guards of its route.\<close>

definition serve_sdk ::
    "path_matcher \<Rightarrow> string \<Rightarrow> access_env \<Rightarrow> string \<Rightarrow> string \<Rightarrow> sdk_config \<Rightarrow> sdk_method \<Rightarrow> access_db
     \<Rightarrow> (request_vars \<times> access_db) outcome" where
  "serve_sdk match prefix env rid origin cfg m d =
     (let c = sdk_call_of m; path = served_path origin cfg c in
      case dispatch_route match prefix (sd_method c) path of
        None \<Rightarrow> Respond (route_not_found rid (sd_method c) path)
      | Some (r, ps) \<Rightarrow> run_guards env (sdk_http origin cfg c ps) (rt_guards r) (fresh_vars rid, d))"

section \<open>Kinds of methods\<close>

text \<open>The identifier of the item a method is about, for the items of an organization other than a project.\<close>

definition policy_item :: "policy_method \<Rightarrow> string option" where
  "policy_item m = (case m of GetPolicy _ i \<Rightarrow> Some i | UpdatePolicy _ i _ \<Rightarrow> Some i | DeletePolicy _ i \<Rightarrow> Some i
     | AssignPolicy _ i _ \<Rightarrow> Some i | UnassignPolicy _ i _ \<Rightarrow> Some i | _ \<Rightarrow> None)"

definition blob_item :: "blob_method \<Rightarrow> string option" where
  "blob_item m = (case m of GetBlob _ i \<Rightarrow> Some i | UpdateBlob _ i _ \<Rightarrow> Some i | DeleteBlob _ i \<Rightarrow> Some i | _ \<Rightarrow> None)"

definition wallet_item :: "wallet_method \<Rightarrow> string option" where
  "wallet_item m = (case m of GetWallet _ i \<Rightarrow> Some i | UpdateWallet _ i _ \<Rightarrow> Some i | DeleteWallet _ i \<Rightarrow> Some i
     | RefreshWalletBalance _ i \<Rightarrow> Some i | _ \<Rightarrow> None)"

definition channel_item :: "channel_method \<Rightarrow> string option" where
  "channel_item m = (case m of GetChannel _ i \<Rightarrow> Some i | UpdateChannel _ i _ \<Rightarrow> Some i | DeleteChannel _ i \<Rightarrow> Some i | _ \<Rightarrow> None)"

definition rule_item :: "rule_method \<Rightarrow> string option" where
  "rule_item m = (case m of GetAlertRule _ i \<Rightarrow> Some i | UpdateAlertRule _ i _ \<Rightarrow> Some i | DeleteAlertRule _ i \<Rightarrow> Some i | _ \<Rightarrow> None)"

definition alert_event_item :: "alert_event_method \<Rightarrow> string option" where
  "alert_event_item m = (case m of AcknowledgeAlertEvent i \<Rightarrow> Some i | _ \<Rightarrow> None)"

definition key_item :: "key_method \<Rightarrow> string option" where
  "key_item m = (case m of DeleteApiKey _ i \<Rightarrow> Some i | _ \<Rightarrow> None)"

definition publisher_item :: "publisher_method \<Rightarrow> string option" where
  "publisher_item m = (case m of GetPublisher _ i \<Rightarrow> Some i | UpdatePublisher _ i _ \<Rightarrow> Some i | DeletePublisher _ i \<Rightarrow> Some i
     | PublisherHeartbeat _ i \<Rightarrow> Some i | _ \<Rightarrow> None)"

definition aggregator_item :: "aggregator_method \<Rightarrow> string option" where
  "aggregator_item m = (case m of GetAggregator _ i \<Rightarrow> Some i | UpdateAggregator _ i _ \<Rightarrow> Some i | DeleteAggregator _ i \<Rightarrow> Some i
     | AggregatorHeartbeat _ i \<Rightarrow> Some i | _ \<Rightarrow> None)"

definition budget_item :: "budget_method \<Rightarrow> string option" where
  "budget_item m = (case m of GetBudget _ i \<Rightarrow> Some i | UpdateBudget _ i _ \<Rightarrow> Some i | DeleteBudget _ i \<Rightarrow> Some i
     | ActivateBudget _ i \<Rightarrow> Some i | ArchiveBudget _ i \<Rightarrow> Some i | _ \<Rightarrow> None)"

definition limit_item :: "limit_method \<Rightarrow> string option" where
  "limit_item m = (case m of GetSpendingLimit _ i \<Rightarrow> Some i | UpdateSpendingLimit _ i _ \<Rightarrow> Some i
     | DeleteSpendingLimit _ i \<Rightarrow> Some i | PauseSpendingLimit _ i \<Rightarrow> Some i | ActivateSpendingLimit _ i \<Rightarrow> Some i | _ \<Rightarrow> None)"

definition team_item :: "team_method \<Rightarrow> string option" where
  "team_item m = (case m of GetTeam _ i \<Rightarrow> Some i | UpdateTeam _ i _ \<Rightarrow> Some i | DeleteTeam _ i \<Rightarrow> Some i
     | AddTeamMember _ i _ _ \<Rightarrow> Some i | RemoveTeamMember _ i _ \<Rightarrow> Some i | _ \<Rightarrow> None)"

definition invite_item :: "invite_method \<Rightarrow> string option" where
  "invite_item m = (case m of SdkCancelInvitation _ i \<Rightarrow> Some i | _ \<Rightarrow> None)"

definition job_item :: "job_method \<Rightarrow> string option" where
  "job_item m = (case m of GetRenewalJob _ i \<Rightarrow> Some i | RetryRenewalJob _ i \<Rightarrow> Some i | CancelRenewalJob _ i \<Rightarrow> Some i | _ \<Rightarrow> None)"

definition schedule_item :: "schedule_method \<Rightarrow> string option" where
  "schedule_item m = (case m of UpdateSchedule i _ \<Rightarrow> Some i | DeleteSchedule i \<Rightarrow> Some i | _ \<Rightarrow> None)"

definition webhook_item :: "webhook_method \<Rightarrow> string option" where
  "webhook_item m = (case m of UpdateWebhook i _ \<Rightarrow> Some i | DeleteWebhook i \<Rightarrow> Some i | _ \<Rightarrow> None)"

definition item_id :: "sdk_method \<Rightarrow> string option" where
  "item_id m =
     (case m of Blob x \<Rightarrow> blob_item x | Track i \<Rightarrow> Some i | PolicyM x \<Rightarrow> policy_item x | PolicyStep x org i \<Rightarrow> Some i
      | WalletM x \<Rightarrow> wallet_item x
      | WalletStep x org i \<Rightarrow> if x \<in> {SuspendWallet, UnsuspendWallet} then None else Some i
      | Channel x \<Rightarrow> channel_item x | Rule x \<Rightarrow> rule_item x | AlertEventM x \<Rightarrow> alert_event_item x | Key x \<Rightarrow> key_item x
      | PublisherM x \<Rightarrow> publisher_item x | AggregatorM x \<Rightarrow> aggregator_item x | BudgetM x \<Rightarrow> budget_item x
      | LimitM x \<Rightarrow> limit_item x | TeamM x \<Rightarrow> team_item x | Invite x \<Rightarrow> invite_item x | JobM x \<Rightarrow> job_item x
      | ScheduleM x \<Rightarrow> schedule_item x | WebhookM x \<Rightarrow> webhook_item x | _ \<Rightarrow> None)"

text \<open>The other texts that a method puts into its path.\<close>

definition other_ids :: "sdk_method \<Rightarrow> string list" where
  "other_ids m =
     (case m of
        Org x \<Rightarrow> (case x of GetOrganization i \<Rightarrow> [i] | UpdateOrganization i _ \<Rightarrow> [i] | DeleteOrganization i \<Rightarrow> [i] | _ \<Rightarrow> [])
      | Member x \<Rightarrow> (case x of UpdateMemberRole _ u _ \<Rightarrow> [u] | RemoveMember _ u \<Rightarrow> [u] | _ \<Rightarrow> [])
      | Project x \<Rightarrow> (case x of GetProject _ i \<Rightarrow> [i] | UpdateProject _ i _ \<Rightarrow> [i] | DeleteProject _ i \<Rightarrow> [i] | _ \<Rightarrow> [])
      | ProjectBlobs i p \<Rightarrow> [i]
      | WalletStep x org i \<Rightarrow> [i]
      | VaultM x \<Rightarrow> (case x of CreateVault _ \<Rightarrow> [] | GetVaults w \<Rightarrow> [w] | DepositToVault i _ \<Rightarrow> [i] | UpdateVaultPolicy i _ \<Rightarrow> [i]
          | WithdrawFromVault i _ \<Rightarrow> [i] | ReclaimFromVault i _ \<Rightarrow> [i] | GetVaultHistory i _ _ \<Rightarrow> [i])
      | BudgetM x \<Rightarrow> (case x of PauseBudget _ i \<Rightarrow> [i] | _ \<Rightarrow> [])
      | LimitM x \<Rightarrow> (case x of ArchiveSpendingLimit _ i \<Rightarrow> [i] | _ \<Rightarrow> [])
      | TeamM x \<Rightarrow> (case x of RemoveTeamMember _ _ u \<Rightarrow> [u] | _ \<Rightarrow> [])
      | WebhookM x \<Rightarrow> (case x of TestWebhook i \<Rightarrow> [i] | _ \<Rightarrow> [])
      | Admin x \<Rightarrow> (case x of AdminUpdateFlag i _ \<Rightarrow> [i] | AdminDeleteFlag i \<Rightarrow> [i] | AdminCheckFlag i _ \<Rightarrow> [i]
          | AdminGetTenant i \<Rightarrow> [i] | AdminRetryJob i _ \<Rightarrow> [i] | _ \<Rightarrow> [])
      | Experiment x \<Rightarrow> (case x of AdminListExperiments \<Rightarrow> [] | AdminGetExperiment n \<Rightarrow> [n] | AdminCreateExperiment n \<Rightarrow> []
          | AdminDeleteExperiment n \<Rightarrow> [n] | AdminAssignExperiment n _ _ \<Rightarrow> [n] | AdminGetVariant n \<Rightarrow> [n])
      | _ \<Rightarrow> [])"

definition plain_ids :: "sdk_method \<Rightarrow> bool" where
  "plain_ids m \<longleftrightarrow> pred_option plain (item_id m) \<and> list_all plain (other_ids m)"

text \<open>The methods that no route serves.\<close>

definition dangling :: "sdk_method \<Rightarrow> bool" where
  "dangling m =
     (case m of
        Member x \<Rightarrow> True
      | WalletStep x org i \<Rightarrow> x \<in> {SuspendWallet, UnsuspendWallet}
      | BudgetM x \<Rightarrow> (case x of PauseBudget _ _ \<Rightarrow> True | _ \<Rightarrow> False)
      | LimitM x \<Rightarrow> (case x of ArchiveSpendingLimit _ _ \<Rightarrow> True | _ \<Rightarrow> False)
      | WebhookM x \<Rightarrow> (case x of TestWebhook _ \<Rightarrow> True | _ \<Rightarrow> False)
      | _ \<Rightarrow> False)"

text \<open>The methods of an administrator of the installation, and the two that need no account.\<close>

definition for_admins :: "sdk_method \<Rightarrow> bool" where
  "for_admins m =
     (case m of Admin x \<Rightarrow> True | Experiment x \<Rightarrow> (case x of AdminGetVariant _ \<Rightarrow> False | _ \<Rightarrow> True) | _ \<Rightarrow> False)"

definition open_to_all :: "sdk_method \<Rightarrow> bool" where
  "open_to_all m = (case m of Auth x \<Rightarrow> (case x of SdkRegister _ _ _ \<Rightarrow> True | SdkLogin _ _ \<Rightarrow> True | _ \<Rightarrow> False) | _ \<Rightarrow> False)"

section \<open>Routes of the methods\<close>

lemma url_path_plain [routing]:
  "plain i \<Longrightarrow> url_path (i @ s) = i @ url_path s" "plain i \<Longrightarrow> url_path i = i" "url_path [] = []"
  "url_path (CHR ''?'' # s) = []"
proof -
  assume "plain i"
  then have all: "\<And>c. c \<in> set i \<Longrightarrow> c \<noteq> CHR ''?'' \<and> c \<noteq> CHR ''#''" by (auto dest: plain_free)
  then show "url_path (i @ s) = i @ url_path s" "url_path i = i"
    unfolding url_path_def by (auto simp: takeWhile_append takeWhile_eq_all_conv)
qed (simp_all add: url_path_def)

lemma url_path_char [routing]: "c \<noteq> CHR ''?'' \<Longrightarrow> c \<noteq> CHR ''#'' \<Longrightarrow> url_path (c # s) = c # url_path s"
  by (simp add: url_path_def)

lemma url_path_query: "url_path (s @ CHR ''?'' # t) = url_path s"
  by (induction s) (simp_all add: url_path_def)

lemma url_path_raw [routing]:
  "url_path (s @ raw_query k v) = url_path s" "url_path (raw_query k v) = []" "url_path (with_query s ps) = url_path s"
  using url_path_query [of "[]"]
  by (simp_all add: raw_query_def with_query_def url_path_query url_path_plain(3) split: option.split)

definition clean_path :: "sdk_method \<Rightarrow> bool" where
  "clean_path m \<longleftrightarrow> (\<exists>s. url_path (sd_path (sdk_call_of m)) = CHR ''/'' # s \<and> list_all plain (split_on CHR ''/'' s))"

lemma plain_words:
  "plain ''accept''" "plain ''acknowledge''" "plain ''activate''" "plain ''activity-feed''" "plain ''admin''" "plain ''aggregators''"
  "plain ''alert-events''" "plain ''alerts''" "plain ''analytics''" "plain ''api-keys''" "plain ''archive''" "plain ''assign''"
  "plain ''audit-logs''" "plain ''auth''" "plain ''billing''" "plain ''blobs''" "plain ''budgets''" "plain ''bulk''"
  "plain ''cancel''" "plain ''channels''" "plain ''check''" "plain ''costs''" "plain ''dashboard''" "plain ''deposit''"
  "plain ''experiments''" "plain ''export''" "plain ''flags''" "plain ''forecasts''" "plain ''health''" "plain ''heartbeat''"
  "plain ''history''" "plain ''invitations''" "plain ''invoices''" "plain ''login''" "plain ''logout''" "plain ''me''"
  "plain ''members''" "plain ''metrics''" "plain ''orgs''" "plain ''overview''" "plain ''pause''" "plain ''policies''"
  "plain ''policy''" "plain ''projects''" "plain ''publishers''" "plain ''queues''" "plain ''reclaim''" "plain ''reconnect''"
  "plain ''refresh-balance''" "plain ''register''" "plain ''renewal-jobs''" "plain ''renewals''" "plain ''restore''" "plain ''retry''"
  "plain ''retry-job''" "plain ''revoke-delegation''" "plain ''rules''" "plain ''schedules''" "plain ''spending-limits''" "plain ''storage''"
  "plain ''subscription''" "plain ''summary''" "plain ''suspend''" "plain ''teams''" "plain ''tenants''" "plain ''test''"
  "plain ''trigger-scan''" "plain ''unassign''" "plain ''unsuspend''" "plain ''usage''" "plain ''variant''" "plain ''vaults''"
  "plain ''wallets''" "plain ''webhooks''" "plain ''withdraw''"
  by (simp_all add: plain_def plain_char_def is_digit_def less_eq_char_def)

definition as_declared :: "sdk_method \<Rightarrow> (http_route \<times> params) option \<Rightarrow> bool" where
  "as_declared m res \<longleftrightarrow>
     clean_path m \<and> (res = None \<longleftrightarrow> dangling m)
     \<and> (\<forall>i. item_id m = Some i \<longrightarrow> is_uuid i \<longrightarrow>
          (\<exists>r ps gs. res = Some (r, ps) \<and> map_of ps ''id'' = Some i \<and> rt_guards r = GAuth # GOrg # gs))
     \<and> (\<forall>r ps. res = Some (r, ps) \<longrightarrow> (\<not> open_to_all m \<longrightarrow> (\<exists>g gs. rt_guards r = g # gs \<and> g \<in> {GAuth, GAdmin}))
          \<and> (for_admins m \<longrightarrow> (\<exists>gs. rt_guards r = GAdmin # gs)))"

definition sdk_route :: "sdk_method \<Rightarrow> (http_route \<times> params) option" where
  "sdk_route m = lookup_route (sd_method (sdk_call_of m)) (tl (split_on CHR ''/'' (url_path (sd_path (sdk_call_of m)))))"

lemmas method_kinds = item_id_def other_ids_def dangling_def for_admins_def open_to_all_def plain_ids_def

lemmas call_simps = call_def call_field_def

lemma not_export: "\<not> is_uuid ''export''"
  by (auto simp: is_uuid_def hex_digit_def is_digit_def less_eq_char_def)

lemmas declared_simps = as_declared_def clean_path_def plain_words sdk_route_def method_kinds call_simps routing lookup_route_def mounts_def
  segment_route_def pattern_segments_def

lemma declared_auth: "plain_ids (Auth x) \<Longrightarrow> as_declared (Auth x) (sdk_route (Auth x))"
  by (cases x) (simp_all add: declared_simps auth_router_def)

lemma declared_org: "plain_ids (Org x) \<Longrightarrow> as_declared (Org x) (sdk_route (Org x))"
  by (cases x) (simp_all add: declared_simps org_router_def)

lemma declared_member: "plain_ids (Member x) \<Longrightarrow> as_declared (Member x) (sdk_route (Member x))"
  by (cases x) (simp_all add: declared_simps)

lemma declared_project: "plain_ids (Project x) \<Longrightarrow> as_declared (Project x) (sdk_route (Project x))"
  by (cases x) (simp_all add: declared_simps project_router_def)

lemma declared_blob: "plain_ids (Blob x) \<Longrightarrow> as_declared (Blob x) (sdk_route (Blob x))"
  using not_export by (cases x) (auto simp: declared_simps blob_item_def blob_router_def)

lemma declared_policy: "plain_ids (PolicyM x) \<Longrightarrow> as_declared (PolicyM x) (sdk_route (PolicyM x))"
  by (cases x) (simp_all add: declared_simps policy_item_def policy_router_def)

lemma declared_wallet: "plain_ids (WalletM x) \<Longrightarrow> as_declared (WalletM x) (sdk_route (WalletM x))"
  by (cases x) (simp_all add: declared_simps wallet_item_def wallet_router_def)

lemma declared_channel: "plain_ids (Channel x) \<Longrightarrow> as_declared (Channel x) (sdk_route (Channel x))"
  by (cases x) (simp_all add: declared_simps channel_item_def alert_router_def)

lemma declared_rule: "plain_ids (Rule x) \<Longrightarrow> as_declared (Rule x) (sdk_route (Rule x))"
  by (cases x) (simp_all add: declared_simps rule_item_def alert_router_def)

lemma declared_alertevent: "plain_ids (AlertEventM x) \<Longrightarrow> as_declared (AlertEventM x) (sdk_route (AlertEventM x))"
  by (cases x) (simp_all add: declared_simps alert_event_item_def alert_event_router_def)

lemma declared_analytics: "plain_ids (Analytics x) \<Longrightarrow> as_declared (Analytics x) (sdk_route (Analytics x))"
  by (cases x) (simp_all add: declared_simps analytics_router_def)

lemma declared_billing: "plain_ids (Billing x) \<Longrightarrow> as_declared (Billing x) (sdk_route (Billing x))"
  by (cases x) (simp_all add: declared_simps billing_router_def)

lemma declared_key: "plain_ids (Key x) \<Longrightarrow> as_declared (Key x) (sdk_route (Key x))"
  by (cases x) (simp_all add: declared_simps key_item_def api_key_router_def)

lemma declared_vault: "plain_ids (VaultM x) \<Longrightarrow> as_declared (VaultM x) (sdk_route (VaultM x))"
  by (cases x) (simp_all add: declared_simps vault_router_def)

lemma declared_publisher: "plain_ids (PublisherM x) \<Longrightarrow> as_declared (PublisherM x) (sdk_route (PublisherM x))"
  by (cases x) (simp_all add: declared_simps publisher_item_def publisher_router_def)

lemma declared_aggregator: "plain_ids (AggregatorM x) \<Longrightarrow> as_declared (AggregatorM x) (sdk_route (AggregatorM x))"
  by (cases x) (simp_all add: declared_simps aggregator_item_def aggregator_router_def)

lemma declared_budget: "plain_ids (BudgetM x) \<Longrightarrow> as_declared (BudgetM x) (sdk_route (BudgetM x))"
  by (cases x) (simp_all add: declared_simps budget_item_def budget_router_def)

lemma declared_limit: "plain_ids (LimitM x) \<Longrightarrow> as_declared (LimitM x) (sdk_route (LimitM x))"
  by (cases x) (simp_all add: declared_simps limit_item_def spending_limit_router_def)

lemma declared_team: "plain_ids (TeamM x) \<Longrightarrow> as_declared (TeamM x) (sdk_route (TeamM x))"
  by (cases x) (simp_all add: declared_simps team_item_def team_router_def)

lemma declared_invite: "plain_ids (Invite x) \<Longrightarrow> as_declared (Invite x) (sdk_route (Invite x))"
  by (cases x) (simp_all add: declared_simps invite_item_def invitation_router_def)

lemma declared_job: "plain_ids (JobM x) \<Longrightarrow> as_declared (JobM x) (sdk_route (JobM x))"
  by (cases x) (simp_all add: declared_simps job_item_def renewal_job_router_def)

lemma declared_schedule: "plain_ids (ScheduleM x) \<Longrightarrow> as_declared (ScheduleM x) (sdk_route (ScheduleM x))"
  by (cases x) (simp_all add: declared_simps schedule_item_def schedule_router_def)

lemma declared_webhook: "plain_ids (WebhookM x) \<Longrightarrow> as_declared (WebhookM x) (sdk_route (WebhookM x))"
  by (cases x) (simp_all add: declared_simps webhook_item_def webhook_router_def)

lemma declared_admin: "plain_ids (Admin x) \<Longrightarrow> as_declared (Admin x) (sdk_route (Admin x))"
  by (cases x) (simp_all add: declared_simps feature_flag_router_def admin_router_def)

lemma declared_experiment: "plain_ids (Experiment x) \<Longrightarrow> as_declared (Experiment x) (sdk_route (Experiment x))"
  by (cases x) (simp_all add: declared_simps experiment_router_def)

lemma declared_others:
  "plain_ids (ProjectBlobs i p) \<Longrightarrow> as_declared (ProjectBlobs i p) (sdk_route (ProjectBlobs i p))"
  "plain_ids (Track i) \<Longrightarrow> as_declared (Track i) (sdk_route (Track i))"
  "as_declared (Dashboard org project) (sdk_route (Dashboard org project))"
  "as_declared (AuditLogs org) (sdk_route (AuditLogs org))"
  "as_declared (Feed org fp) (sdk_route (Feed org fp))"
  using not_export
  by (auto simp: declared_simps getProjectBlobs_def track_def getDashboardSummary_def getAuditLogs_def getActivityFeed_def
    project_router_def blob_router_def dashboard_router_def audit_log_router_def activity_feed_router_def)

lemma declared_policy_step: "plain_ids (PolicyStep x org i) \<Longrightarrow> as_declared (PolicyStep x org i) (sdk_route (PolicyStep x org i))"
  by (cases x) (simp_all add: declared_simps policy_router_def)

lemma declared_wallet_step: "plain_ids (WalletStep x org i) \<Longrightarrow> as_declared (WalletStep x org i) (sdk_route (WalletStep x org i))"
  by (cases x) (simp_all add: declared_simps wallet_router_def)

lemma sdk_declared: "plain_ids m \<Longrightarrow> as_declared m (sdk_route m)"
  by (cases m) (simp_all only: declared_auth declared_org declared_member declared_project declared_blob declared_policy declared_wallet declared_channel declared_rule declared_alertevent declared_analytics declared_billing declared_key declared_vault declared_publisher declared_aggregator declared_budget declared_limit declared_team declared_invite declared_job declared_schedule declared_webhook declared_admin declared_experiment declared_others declared_policy_step declared_wallet_step)

end
