(* ===== verification/Sdk_Requests.thy ===== *)
theory Sdk_Requests
  imports Sdk_Routes
begin

text \<open>
  What the API answers to the methods of the SDK: which of them reach a route, and what the guards in front of the route
  make of the headers that the client sends.
\<close>

section \<open>From the request to its route\<close>

text \<open>A base of the API that the client may be configured with: an origin and one of the prefixes.\<close>

definition api_base :: "sdk_config \<Rightarrow> string \<Rightarrow> string \<Rightarrow> bool" where
  "api_base cfg origin prefix \<longleftrightarrow> sc_apiUrl cfg = origin @ prefix \<and> prefix \<in> set api_prefixes"

lemma url_path_prefix: "prefix \<in> set api_prefixes \<Longrightarrow> url_path (prefix @ s) = prefix @ url_path s"
  by (auto simp: api_prefixes_def url_path_def)

lemma served_path_eq: "api_base cfg origin prefix \<Longrightarrow> served_path origin cfg c = prefix @ url_path (sd_path c)"
  by (simp add: api_base_def served_path_def request_url_def url_path_prefix)

lemma sdk_dispatch:
  assumes "documented_router match" and "api_base cfg origin prefix" and "plain_ids m"
  shows "dispatch_route match prefix (sd_method (sdk_call_of m)) (served_path origin cfg (sdk_call_of m)) = sdk_route m"
proof -
  from sdk_declared [OF assms(3)] obtain s where s: "url_path (sd_path (sdk_call_of m)) = CHR ''/'' # s"
    "list_all plain (split_on CHR ''/'' s)" by (auto simp: as_declared_def clean_path_def)
  from assms(2) have "prefix \<in> set api_prefixes" by (simp add: api_base_def)
  from dispatch_route_lookup [OF assms(1) this s(2), of "CHR ''/'' # s"] show ?thesis
    by (simp add: served_path_eq [OF assms(2)] s(1) sdk_route_def split_on_append)
qed

lemma lower_names:
  "to_lower ''Content-Type'' = ''content-type''" "to_lower ''X-API-Version'' = ''x-api-version''"
  "to_lower ''Authorization'' = ''authorization''" "to_lower ''x-api-key'' = ''x-api-key''" "to_lower ''X-API-Key'' = ''x-api-key''"
  "to_lower ''X-Org-Id'' = ''x-org-id''" "to_lower ''X-Admin-Key'' = ''x-admin-key''"
  by code_simp+

lemma sdk_headers:
  "header_of (getHeaders cfg org) ''Authorization'' = map_option ((@) ''Bearer '') (truthy (sc_token cfg))"
  "header_of (getHeaders cfg org) ''X-Admin-Key'' = None"
  "header_of (getHeaders cfg org) ''X-Org-Id'' = truthy (effective_org cfg org)"
  "header_of (getHeaders cfg org) ''X-API-Key'' = (if truthy (sc_token cfg) = None then truthy (sc_apiKey cfg) else None)"
  by (auto simp: header_of_def getHeaders_def lower_names split: option.split)

lemma truthy_none: "truthy None = None"
  by (simp add: truthy_def)

lemma no_token_refused:
  assumes "truthy (sc_token cfg) = None"
  shows "\<exists>r. run_guards env (sdk_http origin cfg c ps) (GAuth # gs) (cx, d) = Respond r \<and> hr_status r = 401"
  by (simp add: sdk_http_def requireAuth_def bearer_token_def sdk_headers assms refuse_def errorResponse_def)

lemma no_admin_refused:
  "\<exists>r. run_guards env (sdk_http origin cfg c ps) (GAdmin # gs) (cx, d) = Respond r \<and> hr_status r = 401"
  by (simp add: sdk_http_def requireAdmin_def sdk_headers truthy_none errorResponse_def)

text \<open>The methods that read a collection of an organization, with the organization the caller names.\<close>

definition list_org :: "sdk_method \<Rightarrow> string option" where
  "list_org m =
     (case m of
        Project x \<Rightarrow> (case x of ListProjects org \<Rightarrow> Some org | _ \<Rightarrow> None)
      | Blob x \<Rightarrow> (case x of ListBlobs org p \<Rightarrow> Some org | _ \<Rightarrow> None)
      | PolicyM x \<Rightarrow> (case x of ListPolicies org \<Rightarrow> Some org | _ \<Rightarrow> None)
      | WalletM x \<Rightarrow> (case x of ListWallets org \<Rightarrow> Some org | _ \<Rightarrow> None)
      | Channel x \<Rightarrow> (case x of ListChannels org \<Rightarrow> Some org | _ \<Rightarrow> None)
      | Rule x \<Rightarrow> (case x of ListAlertRules org \<Rightarrow> Some org | _ \<Rightarrow> None)
      | AlertEventM x \<Rightarrow> (case x of ListAlertEvents org s \<Rightarrow> Some org | _ \<Rightarrow> None)
      | Dashboard org p \<Rightarrow> Some org
      | Key x \<Rightarrow> (case x of ListApiKeys org \<Rightarrow> Some org | _ \<Rightarrow> None)
      | PublisherM x \<Rightarrow> (case x of ListPublishers org \<Rightarrow> Some org | _ \<Rightarrow> None)
      | AggregatorM x \<Rightarrow> (case x of ListAggregators org \<Rightarrow> Some org | _ \<Rightarrow> None)
      | BudgetM x \<Rightarrow> (case x of ListBudgets org \<Rightarrow> Some org | _ \<Rightarrow> None)
      | LimitM x \<Rightarrow> (case x of ListSpendingLimits org \<Rightarrow> Some org | _ \<Rightarrow> None)
      | TeamM x \<Rightarrow> (case x of ListTeams org \<Rightarrow> Some org | _ \<Rightarrow> None)
      | Invite x \<Rightarrow> (case x of ListInvitations org \<Rightarrow> Some org | _ \<Rightarrow> None)
      | JobM x \<Rightarrow> (case x of ListRenewalJobs org s \<Rightarrow> Some org | _ \<Rightarrow> None)
      | ScheduleM x \<Rightarrow> (case x of ListSchedules org s \<Rightarrow> Some org | _ \<Rightarrow> None)
      | WebhookM x \<Rightarrow> (case x of ListWebhooks org \<Rightarrow> Some org | _ \<Rightarrow> None)
      | Feed org p \<Rightarrow> Some org
      | _ \<Rightarrow> None)"

definition lists_org :: "sdk_method \<Rightarrow> string \<Rightarrow> bool" where
  "lists_org m org \<longleftrightarrow> sd_org (sdk_call_of m) = OrgArg org \<and> plain_ids m
     \<and> (\<exists>r. sdk_route m = Some (r, []) \<and> rt_guards r = [GAuth, GOrg])"

lemmas list_simps = lists_org_def sdk_route_def method_kinds call_simps routing lookup_route_def mounts_def
  segment_route_def pattern_segments_def

lemma list_methods_1:
  "lists_org (Project (ListProjects org)) org" "lists_org (Blob (ListBlobs org bp)) org"
  "lists_org (PolicyM (ListPolicies org)) org" "lists_org (WalletM (ListWallets org)) org"
  "lists_org (Channel (ListChannels org)) org" "lists_org (Rule (ListAlertRules org)) org"
  "lists_org (AlertEventM (ListAlertEvents org s)) org" "lists_org (Dashboard org s) org"
  "lists_org (Key (ListApiKeys org)) org" "lists_org (PublisherM (ListPublishers org)) org"
  by (simp_all add: list_simps getDashboardSummary_def project_router_def blob_router_def policy_router_def wallet_router_def
    alert_router_def alert_event_router_def dashboard_router_def api_key_router_def publisher_router_def
    blob_item_def policy_item_def wallet_item_def channel_item_def rule_item_def alert_event_item_def key_item_def publisher_item_def)

lemma list_methods_2:
  "lists_org (AggregatorM (ListAggregators org)) org" "lists_org (BudgetM (ListBudgets org)) org"
  "lists_org (LimitM (ListSpendingLimits org)) org" "lists_org (TeamM (ListTeams org)) org"
  "lists_org (Invite (ListInvitations org)) org" "lists_org (JobM (ListRenewalJobs org s)) org"
  "lists_org (ScheduleM (ListSchedules org s)) org" "lists_org (WebhookM (ListWebhooks org)) org" "lists_org (Feed org fp) org"
  by (simp_all add: list_simps getActivityFeed_def aggregator_router_def budget_router_def spending_limit_router_def
    team_router_def invitation_router_def renewal_job_router_def schedule_router_def webhook_router_def activity_feed_router_def
    aggregator_item_def budget_item_def limit_item_def team_item_def invite_item_def job_item_def schedule_item_def webhook_item_def)

lemma list_org_lists: "list_org m = Some org \<Longrightarrow> lists_org m org"
  using list_methods_1 list_methods_2 by (auto simp: list_org_def split: sdk_method.splits project_method.splits blob_method.splits
    policy_method.splits wallet_method.splits channel_method.splits rule_method.splits alert_event_method.splits
    key_method.splits publisher_method.splits aggregator_method.splits budget_method.splits limit_method.splits
    team_method.splits invite_method.splits job_method.splits schedule_method.splits webhook_method.splits)

section \<open>Properties of the requests\<close>

text \<open>
  With identifiers that need no escape, exactly nine methods of the client ask for a path that the API does not have and
  are answered with 404: the four methods for members, the pause of a budget, the archive of a spending limit, the
  suspension of a wallet and its end, and the test of a webhook. All others reach a route.
\<close>

theorem sdk_methods_routed:
  assumes "documented_router match" and "api_base cfg origin prefix" and "plain_ids m"
  shows "dispatch_route match prefix (sd_method (sdk_call_of m)) (served_path origin cfg (sdk_call_of m)) = None \<longleftrightarrow> dangling m"
  using sdk_declared [OF assms(3)] unfolding sdk_dispatch [OF assms] as_declared_def by blast

text \<open>
  The methods about one project, and which members they are for. Their routes have a check of their own, which reads the
  organization from the header that the client sends.
\<close>

definition project_item :: "sdk_method \<Rightarrow> (member_row \<Rightarrow> bool) option" where
  "project_item m =
     (case m of
        Project x \<Rightarrow>
          (case x of
             GetProject _ _ \<Rightarrow> Some (\<lambda>_. True)
           | UpdateProject _ _ _ \<Rightarrow> Some (\<lambda>r. me_role r \<in> {''owner'', ''admin''})
           | DeleteProject _ _ \<Rightarrow> Some (\<lambda>r. me_role r \<in> {''owner'', ''admin''})
           | _ \<Rightarrow> None)
      | ProjectBlobs _ _ \<Rightarrow> Some (\<lambda>_. True)
      | _ \<Rightarrow> None)"

definition project_opens :: "access_db \<Rightarrow> string \<Rightarrow> string \<Rightarrow> (member_row \<Rightarrow> bool) \<Rightarrow> bool" where
  "project_opens d org u P \<longleftrightarrow>
     (\<exists>g r. find_org d org = Some g \<and> og_suspendedAt g = None \<and> org_member d org u = Some r \<and> P r)"

lemma project_item_route:
  assumes "plain_ids m" and "project_item m = Some P"
  shows "\<exists>r i. sdk_route m = Some (r, [(''id'', i)])
    \<and> (rt_guards r = [GAuth, GProjectOrg] \<and> P = (\<lambda>_. True)
       \<or> rt_guards r = [GAuth, GProjectOrg, GRole [''owner'', ''admin'']] \<and> P = (\<lambda>r. me_role r \<in> {''owner'', ''admin''}))"
proof (cases m)
  case (Project x)
  with assms show ?thesis
    by (cases x) (auto simp: project_item_def declared_simps project_router_def)
next
  case (ProjectBlobs i p)
  with assms show ?thesis
    by (auto simp: project_item_def declared_simps getProjectBlobs_def project_router_def)
qed (use assms(2) in \<open>simp_all add: project_item_def\<close>)

lemma requireProjectOrg_iff:
  "requireProjectOrg d rq cx = Pass cx' \<longleftrightarrow>
     (\<exists>org g u r. truthy (rq_header rq ''X-Org-Id'') = Some org \<and> is_uuid org \<and> find_org d org = Some g \<and> og_suspendedAt g = None
        \<and> cx_userId cx = Some u \<and> is_uuid u \<and> org_member d org u = Some r
        \<and> cx' = cx\<lparr>cx_orgId := Some org, cx_role := Some (me_role r)\<rparr>)"
  by (auto simp: requireProjectOrg_def project_refuse_def uuid_arg_Pass split: option.splits)

lemma wf_ids:
  assumes "access_wf d"
  shows "find_org d org = Some g \<Longrightarrow> is_uuid org" and "org_member d org u = Some r \<Longrightarrow> is_uuid u"
  using assms by (auto simp: access_wf_def find_org_def org_member_def dest!: first_row_filter_SomeD)

lemma project_guards_pass:
  assumes "access_wf d" and "bearer_token rq = Some tok" and "ae_verify env tok = Inr (Some u)"
  shows "(\<exists>s. run_guards env rq [GAuth, GProjectOrg] (fresh_vars rid, d) = Pass s) \<longleftrightarrow>
      (\<exists>org. truthy (rq_header rq ''X-Org-Id'') = Some org \<and> project_opens d org u (\<lambda>_. True))"
    and "(\<exists>s. run_guards env rq [GAuth, GProjectOrg, GRole roles] (fresh_vars rid, d) = Pass s) \<longleftrightarrow>
      (\<exists>org. truthy (rq_header rq ''X-Org-Id'') = Some org \<and> project_opens d org u (\<lambda>r. me_role r \<in> set roles))"
proof -
  note facts = next_mw_Pass requireAuth_Pass requireRole_Pass requireProjectOrg_iff project_opens_def fresh_vars_def
  show "(\<exists>s. run_guards env rq [GAuth, GProjectOrg] (fresh_vars rid, d) = Pass s) \<longleftrightarrow>
      (\<exists>org. truthy (rq_header rq ''X-Org-Id'') = Some org \<and> project_opens d org u (\<lambda>_. True))"
    using assms(2,3) by (auto simp: facts dest: wf_ids [OF assms(1)])
  show "(\<exists>s. run_guards env rq [GAuth, GProjectOrg, GRole roles] (fresh_vars rid, d) = Pass s) \<longleftrightarrow>
      (\<exists>org. truthy (rq_header rq ''X-Org-Id'') = Some org \<and> project_opens d org u (\<lambda>r. me_role r \<in> set roles))"
    using assms(2,3) by (auto simp: facts dest: wf_ids [OF assms(1)])
qed

text \<open>
  C37: with identifiers of items that are uuids, and a token of an account, no method about one item of an organization other
  than a project can succeed: whatever organization the caller names, the guard takes the identifier of the item for the
  organization and answers 404, unless the item has the identifier of an organization. This holds for blobs, policies, wallets,
  channels, rules, alert events, keys, publishers, aggregators, budgets, spending limits, teams, invitations, renewal jobs,
  schedules and webhooks. The methods about one project do reach their handlers: exactly for the members of the organization
  that the client names, not suspended, and for the changes its owners and admins.
\<close>

theorem sdk_item_methods_refused:
  assumes "documented_router match" and "api_base cfg origin prefix" and "plain_ids m" and "access_wf d"
    and "truthy (sc_token cfg) = Some token" and "ae_verify env token = Inr (Some u)"
    and "\<And>i. item_id m = Some i \<Longrightarrow> is_uuid i \<and> (\<forall>g \<in> set (ac_orgs d). og_id g \<noteq> i)"
  shows "(item_id m = None \<or> (\<exists>r. serve_sdk match prefix env rid origin cfg m d = Respond r \<and> hr_status r = 404))
    \<and> (case project_item m of
         None \<Rightarrow> True
       | Some P \<Rightarrow> (\<exists>s. serve_sdk match prefix env rid origin cfg m d = Pass s) \<longleftrightarrow>
           (\<exists>org. truthy (effective_org cfg (sd_org (sdk_call_of m))) = Some org \<and> project_opens d org u P))"
proof (intro conjI)
  let ?c = "sdk_call_of m"
  have token: "bearer_token (sdk_http origin cfg ?c ps) = Some token" for ps using assms(5)
    by (simp add: bearer_token_def sdk_http_def sdk_headers str_simps)
  show "item_id m = None \<or> (\<exists>r. serve_sdk match prefix env rid origin cfg m d = Respond r \<and> hr_status r = 404)"
  proof (cases "item_id m")
    case (Some i)
    with assms(7) have i: "is_uuid i" "\<forall>g \<in> set (ac_orgs d). og_id g \<noteq> i" by blast+
    from sdk_declared [OF assms(3)] Some i(1) obtain r ps gs where
      r: "sdk_route m = Some (r, ps)" "map_of ps ''id'' = Some i" "rt_guards r = GAuth # GOrg # gs"
      unfolding as_declared_def by blast
    have "caller env (sdk_http origin cfg ?c ps) u" using token assms(6) by (simp add: caller_def)
    from item_route_refused [OF this _ i, where rid = rid and gs = gs] r(2)
    have "run_guards env (sdk_http origin cfg ?c ps) (rt_guards r) (fresh_vars rid, d)
      = Respond (errorResponse (Some rid) 404 ''NOT_FOUND'' ''Organization not found'' None None (Some FPersistent) None)"
      by (simp add: r(3) sdk_http_def)
    then show ?thesis unfolding serve_sdk_def Let_def sdk_dispatch [OF assms(1-3)] r(1)
      by (simp add: errorResponse_def)
  qed simp
  show "case project_item m of
         None \<Rightarrow> True
       | Some P \<Rightarrow> (\<exists>s. serve_sdk match prefix env rid origin cfg m d = Pass s) \<longleftrightarrow>
           (\<exists>org. truthy (effective_org cfg (sd_org ?c)) = Some org \<and> project_opens d org u P)"
  proof (cases "project_item m")
    case (Some P)
    from project_item_route [OF assms(3) Some] obtain r i where r: "sdk_route m = Some (r, [(''id'', i)])"
      and guards: "rt_guards r = [GAuth, GProjectOrg] \<and> P = (\<lambda>_. True)
       \<or> rt_guards r = [GAuth, GProjectOrg, GRole [''owner'', ''admin'']] \<and> P = (\<lambda>r. me_role r \<in> {''owner'', ''admin''})" by blast
    let ?rq = "sdk_http origin cfg ?c [(''id'', i)]"
    have header: "truthy (rq_header ?rq ''X-Org-Id'') = truthy (effective_org cfg (sd_org ?c))"
      by (simp add: sdk_http_def sdk_headers truthy_twice)
    have "(\<exists>s. run_guards env ?rq (rt_guards r) (fresh_vars rid, d) = Pass s) \<longleftrightarrow>
        (\<exists>org. truthy (rq_header ?rq ''X-Org-Id'') = Some org \<and> project_opens d org u P)"
    proof (rule disjE [OF guards]; elim conjE)
      assume "rt_guards r = [GAuth, GProjectOrg]" "P = (\<lambda>_. True)"
      with project_guards_pass(1) [OF assms(4) token assms(6)] show ?thesis by (simp only:)
    next
      assume "rt_guards r = [GAuth, GProjectOrg, GRole [''owner'', ''admin'']]" "P = (\<lambda>r. me_role r \<in> {''owner'', ''admin''})"
      with project_guards_pass(2) [OF assms(4) token assms(6), where roles = "[''owner'', ''admin'']"] show ?thesis
        by (simp only: list.set)
    qed
    then show ?thesis
      unfolding Some serve_sdk_def Let_def sdk_dispatch [OF assms(1-3)] r header by simp
  qed simp
qed

text \<open>
  A client that is configured with an API key and no token gets nothing but refusals: every method but the registration and
  the login is answered with 401, or 404 where there is no route. The header with the key is sent, but no route accepts it.
\<close>

theorem sdk_key_never_accepted:
  assumes "documented_router match" and "api_base cfg origin prefix" and "plain_ids m"
    and "truthy (sc_token cfg) = None" and "\<not> open_to_all m"
  shows "\<exists>r. serve_sdk match prefix env rid origin cfg m d = Respond r \<and> hr_status r = (if dangling m then 404 else 401)"
proof (cases "sdk_route m")
  case None
  with sdk_declared [OF assms(3)] have "dangling m" by (simp add: as_declared_def)
  then show ?thesis unfolding serve_sdk_def Let_def sdk_dispatch [OF assms(1-3)] None
    by (simp add: route_not_found_def errorResponse_def)
next
  case (Some rp)
  obtain r ps where rp: "rp = (r, ps)" by (cases rp)
  from sdk_declared [OF assms(3)] assms(5) obtain g gs where g: "rt_guards r = g # gs" "g = GAuth \<or> g = GAdmin"
    unfolding as_declared_def Some rp by blast
  from sdk_declared [OF assms(3)] have "\<not> dangling m" by (simp add: as_declared_def Some)
  with g(2) show ?thesis unfolding serve_sdk_def Let_def sdk_dispatch [OF assms(1-3)] Some rp
    using no_token_refused [OF assms(4)] no_admin_refused by (auto simp only: g(1) option.case prod.case if_False)
qed

text \<open>
  The methods for administrators are refused with any configuration: the client never sends the header with the key of
  the administrator.
\<close>

theorem sdk_admin_methods_refused:
  assumes "documented_router match" and "api_base cfg origin prefix" and "plain_ids m" and "for_admins m"
  shows "\<exists>r. serve_sdk match prefix env rid origin cfg m d = Respond r \<and> hr_status r = 401"
proof -
  from assms(4) have "\<not> dangling m" by (auto simp: for_admins_def dangling_def split: sdk_method.splits)
  with sdk_declared [OF assms(3)] obtain r ps where r: "sdk_route m = Some (r, ps)"
    by (cases "sdk_route m") (auto simp: as_declared_def)
  with sdk_declared [OF assms(3)] assms(4) obtain gs where g: "rt_guards r = GAdmin # gs"
    unfolding as_declared_def by blast
  show ?thesis unfolding serve_sdk_def Let_def sdk_dispatch [OF assms(1-3)] r
    using no_admin_refused by (simp only: g option.case prod.case)
qed

text \<open>
  The lists work: a list method reaches its handler exactly when the account of the token is a member of the organization
  that the caller names, and the organization is not suspended. The default organization of the client plays no part.
\<close>

theorem sdk_lists_served:
  assumes "documented_router match" and "api_base cfg origin prefix" and "access_wf d"
    and "list_org m = Some org" and "org \<noteq> []"
    and "truthy (sc_token cfg) = Some token" and "ae_verify env token = Inr (Some u)"
  shows "(\<exists>s. serve_sdk match prefix env rid origin cfg m d = Pass s) \<longleftrightarrow> may_act d org u (\<lambda>x. True)"
proof -
  let ?c = "sdk_call_of m" and ?rq = "sdk_http origin cfg (sdk_call_of m) []"
  from list_org_lists [OF assms(4)] obtain r where
    l: "sd_org ?c = OrgArg org" "plain_ids m" "sdk_route m = Some (r, [])" "rt_guards r = [GAuth, GOrg]"
    by (auto simp: lists_org_def)
  have "bearer_token ?rq = Some token" using assms(6)
    by (simp add: bearer_token_def sdk_http_def sdk_headers str_simps)
  then have caller: "caller env ?rq v \<longleftrightarrow> v = u" for v using assms(7) by (auto simp: caller_def)
  have org: "requested_org ?rq = Some org" using assms(5)
    by (cases org) (simp_all add: requested_org_def sdk_http_def sdk_headers l(1) effective_org_def truthy_def)
  have "(\<exists>s. serve_sdk match prefix env rid origin cfg m d = Pass s) \<longleftrightarrow> passes env d ?rq rid [GAuth, GOrg]"
    unfolding serve_sdk_def Let_def sdk_dispatch [OF assms(1,2) l(2)] l(3) by (simp add: l(4) passes_def)
  also have "\<dots> \<longleftrightarrow> (\<exists>x. may_act d org u (\<lambda>y. y = x))"
    unfolding auth_org_passes [OF assms(3)] by (auto simp: caller org)
  also have "\<dots> \<longleftrightarrow> may_act d org u (\<lambda>x. True)" by (auto simp: may_act_def)
  finally show ?thesis .
qed

section \<open>Witnesses\<close>

abbreviation sample_matcher :: path_matcher where
  "sample_matcher \<equiv> \<lambda>pattern path. match_segments (split_on CHR ''/'' pattern) (split_on CHR ''/'' path)"

abbreviation sample_client :: "string option \<Rightarrow> sdk_config" where
  "sample_client token \<equiv> new_client \<lparr>so_apiUrl = None, so_apiKey = Some ''wak_1'', so_token = token, so_orgId = None, so_maxRetries = None\<rparr>"

lemma sample_matcher_ok: "documented_router sample_matcher"
  by (simp add: documented_router_def)

lemma sample_client_base: "api_base (sample_client token) ''http://localhost:3001'' ''/api''"
  by (simp add: api_base_def new_client_def api_prefixes_def)

theorem sdk_methods_routed_witness:
  "dispatch_route sample_matcher ''/api'' ''POST'' ''/api/webhooks/w/test'' = None"
  using sdk_methods_routed [OF sample_matcher_ok sample_client_base, of "WebhookM (TestWebhook ''w'')" None]
  by (simp add: served_path_eq [OF sample_client_base] call_def url_path_def dangling_def plain_ids_def item_id_def
      other_ids_def webhook_item_def plain_def plain_char_def is_digit_def less_eq_char_def)

theorem sdk_item_methods_refused_witness:
  "(\<exists>r. serve_sdk sample_matcher ''/api'' sample_access_env ''r'' ''http://localhost:3001'' (sample_client (Some ''t''))
     (Blob (GetBlob (sample_uuid CHR ''1'') (sample_uuid CHR ''2''))) sample_access = Respond r \<and> hr_status r = 404)
   \<and> (\<exists>s. serve_sdk sample_matcher ''/api'' sample_access_env ''r'' ''http://localhost:3001'' (sample_client (Some ''t''))
     (Project (GetProject (sample_uuid CHR ''1'') (sample_uuid CHR ''2''))) sample_access = Pass s)"
proof -
  have plain: "plain_ids (Blob (GetBlob (sample_uuid CHR ''1'') (sample_uuid CHR ''2'')))"
    "plain_ids (Project (GetProject (sample_uuid CHR ''1'') (sample_uuid CHR ''2'')))"
    by (simp_all add: plain_ids_def item_id_def blob_item_def other_ids_def sample_uuid_def plain_def plain_char_def is_digit_def
        less_eq_char_def)
  have token: "truthy (sc_token (sample_client (Some ''t''))) = Some ''t''" "ae_verify sample_access_env ''t'' = Inr (Some (sample_uuid CHR ''2''))"
    by (simp_all add: new_client_def truthy_def sample_access_env_def)
  have item: "is_uuid i \<and> (\<forall>g \<in> set (ac_orgs sample_access). og_id g \<noteq> i)"
    if "item_id (Blob (GetBlob (sample_uuid CHR ''1'') (sample_uuid CHR ''2''))) = Some i" for i
  proof -
    from that have "i = sample_uuid CHR ''2''" by (simp add: item_id_def blob_item_def)
    then show ?thesis using sample_uuid_ok by (simp add: sample_access_def sample_org_def)
  qed
  have none: "item_id (Project (GetProject (sample_uuid CHR ''1'') (sample_uuid CHR ''2''))) = None"
    by (simp add: item_id_def)
  have "project_opens sample_access (sample_uuid CHR ''1'') (sample_uuid CHR ''2'') (\<lambda>_. True)"
    by (simp add: project_opens_def sample_access_def sample_org_def find_org_def org_member_def)
  then show ?thesis
    using conjunct1 [OF sdk_item_methods_refused [OF sample_matcher_ok sample_client_base plain(1) sample_access_wf token item]]
      conjunct2 [OF sdk_item_methods_refused [OF sample_matcher_ok sample_client_base plain(2) sample_access_wf token]] none
    by (simp add: item_id_def blob_item_def project_item_def effective_org_def call_def truthy_def sample_uuid_def)
qed

theorem sdk_key_never_accepted_witness:
  "\<exists>r. serve_sdk sample_matcher ''/api'' sample_access_env ''r'' ''http://localhost:3001'' (sample_client None)
     (Org ListOrganizations) sample_access = Respond r \<and> hr_status r = 401"
  using sdk_key_never_accepted [OF sample_matcher_ok sample_client_base, of "Org ListOrganizations" None sample_access_env "''r''" sample_access]
  by (simp add: plain_ids_def item_id_def other_ids_def new_client_def truthy_def open_to_all_def dangling_def)

theorem sdk_admin_methods_refused_witness:
  "\<exists>r. serve_sdk sample_matcher ''/api'' sample_access_env ''r'' ''http://localhost:3001'' (sample_client (Some ''t''))
     (Admin AdminGetQueues) sample_access = Respond r \<and> hr_status r = 401"
  by (rule sdk_admin_methods_refused [OF sample_matcher_ok sample_client_base])
    (simp_all add: plain_ids_def item_id_def other_ids_def for_admins_def)

theorem sdk_lists_served_witness:
  "\<exists>s. serve_sdk sample_matcher ''/api'' sample_access_env ''r'' ''http://localhost:3001'' (sample_client (Some ''t''))
     (WalletM (ListWallets (sample_uuid CHR ''1''))) sample_access = Pass s"
proof -
  have "list_org (WalletM (ListWallets (sample_uuid CHR ''1''))) = Some (sample_uuid CHR ''1'')" by (simp add: list_org_def)
  from sdk_lists_served [OF sample_matcher_ok sample_client_base sample_access_wf this, of "Some ''t''" "''t''" sample_access_env
      "sample_uuid CHR ''2''" "''r''"]
  show ?thesis by (simp add: new_client_def truthy_def sample_access_env_def may_act_def sample_access_def sample_org_def sample_uuid_def)
qed

end
