(* ===== verification/Sdk_Queries.thy ===== *)
theory Sdk_Queries
  imports Sdk_Client
begin

text \<open>
  The query strings of the SDK, read back as the standard reads them, and \<open>fireAndPoll\<close> and \<open>fireAndAwait\<close> of
  \<open>sdk/src/client.ts\<close>, which repeat a check until it gives a value.
\<close>

section \<open>Query strings\<close>

text \<open>
  The standard reading of a query string, as \<open>URLSearchParams\<close> reads it: parts between ampersands, split at the first
  equals sign, a plus is a space, a percent sign with two hexadecimal digits a byte.
\<close>

definition hex_val :: "char \<Rightarrow> nat option" where
  "hex_val c =
     (if CHR ''0'' \<le> c \<and> c \<le> CHR ''9'' then Some (of_char c - 48)
      else if CHR ''A'' \<le> c \<and> c \<le> CHR ''F'' then Some (of_char c - 55)
      else if CHR ''a'' \<le> c \<and> c \<le> CHR ''f'' then Some (of_char c - 87) else None)"

fun form_decode :: "string \<Rightarrow> string" where
  "form_decode [] = []"
| "form_decode (c # s) =
     (if c = CHR ''+'' then CHR '' '' # form_decode s
      else if c = CHR ''%'' then
        (case s of
           a # b # t \<Rightarrow>
             (case (hex_val a, hex_val b) of
                (Some m, Some n) \<Rightarrow> char_of (16 * m + n) # form_decode t
              | _ \<Rightarrow> c # form_decode s)
         | _ \<Rightarrow> c # form_decode s)
      else c # form_decode s)"

definition query_part :: "string \<Rightarrow> string \<times> string" where
  "query_part p =
     (form_decode (takeWhile (\<lambda>c. c \<noteq> CHR ''='') p), form_decode (drop 1 (dropWhile (\<lambda>c. c \<noteq> CHR ''='') p)))"

definition query_pairs :: "string \<Rightarrow> (string \<times> string) list" where
  "query_pairs s = map query_part (filter (\<lambda>p. p \<noteq> []) (split_on CHR ''&'' s))"

text \<open>The query of a URL.\<close>

definition url_query :: "string \<Rightarrow> string" where
  "url_query s = takeWhile (\<lambda>c. c \<noteq> CHR ''#'') (drop 1 (dropWhile (\<lambda>c. c \<noteq> CHR ''?'') s))"

lemma hex_val_char: "n < 16 \<Longrightarrow> hex_val (hex_char n) = Some n"
proof -
  have "\<forall>n \<in> set [0..<16]. hex_val (hex_char n) = Some n"
    by (simp add: hex_val_def hex_char_def upt_rec less_eq_char_def)
  then show "n < 16 \<Longrightarrow> hex_val (hex_char n) = Some n" by simp
qed

lemma hex_char_safe: "n < 16 \<Longrightarrow> form_safe (hex_char n)"
proof -
  have "\<forall>n \<in> set [0..<16]. form_safe (hex_char n)"
    by (simp add: form_safe_def plain_char_def is_digit_def hex_char_def upt_rec less_eq_char_def)
  then show "n < 16 \<Longrightarrow> form_safe (hex_char n)" by simp
qed

lemma form_safe_marks: "\<not> form_safe CHR ''+''" "\<not> form_safe CHR ''%''" "\<not> form_safe CHR ''=''" "\<not> form_safe CHR ''&''"
  "\<not> form_safe CHR ''#''" "\<not> form_safe CHR ''?''"
  by (simp_all add: form_safe_def plain_char_def is_digit_def less_eq_char_def)

lemma char_parts: "char_of (16 * (of_char c div 16) + of_char c mod 16 :: nat) = (c :: char)"
  by simp

lemma take_until:
  "x \<notin> set s \<Longrightarrow> takeWhile (\<lambda>c. c \<noteq> x) s = s" "x \<notin> set s \<Longrightarrow> takeWhile (\<lambda>c. c \<noteq> x) (s @ x # t) = s"
  "x \<notin> set s \<Longrightarrow> dropWhile (\<lambda>c. c \<noteq> x) s = []" "x \<notin> set s \<Longrightarrow> dropWhile (\<lambda>c. c \<noteq> x) (s @ x # t) = x # t" for x :: char
  by (induction s) auto

lemma nibbles: "of_char (c :: char) div 16 < (16 :: nat)" "of_char (c :: char) mod 16 < (16 :: nat)"
proof -
  have "of_char c < (256 :: nat)" by simp
  then show "of_char c div 16 < (16 :: nat)" by (intro less_mult_imp_div_less) simp
qed simp

lemma form_decode_char: "form_decode (form_char c @ s) = c # form_decode s"
proof (cases "form_safe c")
  case True
  then have "c \<noteq> CHR ''+''" "c \<noteq> CHR ''%''" using form_safe_marks by metis+
  with True show ?thesis by (simp add: form_char_def)
next
  case False
  have "hex_val (hex_char (of_char c div 16)) = Some (of_char c div 16)"
    "hex_val (hex_char (of_char c mod 16)) = Some (of_char c mod 16)"
    by (intro hex_val_char nibbles)+
  with False show ?thesis by (simp add: form_char_def char_parts)
qed

lemma form_decode_encode: "form_decode (form_encode s) = s"
  by (induction s) (simp_all add: form_encode_def form_decode_char)

lemma form_encode_chars: "c \<in> set (form_encode s) \<Longrightarrow> form_safe c \<or> c = CHR ''+'' \<or> c = CHR ''%''"
  by (auto simp: form_encode_def form_char_def intro!: hex_char_safe nibbles split: if_splits)

lemma form_encode_free: "CHR ''&'' \<notin> set (form_encode s)" "CHR ''='' \<notin> set (form_encode s)" "CHR ''#'' \<notin> set (form_encode s)"
  using form_encode_chars [of "CHR ''&''" s] form_encode_chars [of "CHR ''=''" s] form_encode_chars [of "CHR ''#''" s]
  by (auto simp: form_safe_marks)

lemma query_part_pair: "query_part (form_encode k @ CHR ''='' # form_encode v) = (k, v)"
  by (simp add: query_part_def take_until form_encode_free form_decode_encode)

lemma query_pairs_string: "query_pairs (query_string ps) = ps"
proof (induction ps rule: query_string.induct)
  case (2 k v)
  have "split_on CHR ''&'' (form_encode k @ CHR ''='' # form_encode v) = [form_encode k @ CHR ''='' # form_encode v]"
    by (rule split_on_free) (simp add: form_encode_free)
  then show ?case by (simp add: query_pairs_def query_part_pair)
next
  case (3 k v p ps)
  have "split_on CHR ''&'' ((form_encode k @ CHR ''='' # form_encode v) @ CHR ''&'' # query_string (p # ps))
      = (form_encode k @ CHR ''='' # form_encode v) # split_on CHR ''&'' (query_string (p # ps))"
    unfolding split_on_append by (subst split_on_free) (simp_all add: form_encode_free)
  with 3 show ?case by (simp add: query_pairs_def query_part_pair)
qed (simp add: query_pairs_def)

lemma query_string_free: "CHR ''#'' \<notin> set (query_string ps)"
  by (induction ps rule: query_string.induct) (auto simp: form_encode_free)

lemma url_query_with:
  assumes "CHR ''?'' \<notin> set path"
  shows "url_query (with_query path ps) = query_string ps"
  using take_until [of "CHR ''?''", OF assms] take_until(1) [OF query_string_free]
  by (simp add: url_query_def with_query_def)

text \<open>
  The lists of renewal jobs, alert events and schedules paste their parameter into the URL without an escape: an ampersand
  in it adds a parameter that the caller never gave.
\<close>

theorem raw_query_splits:
  assumes "list_all (\<lambda>c. form_safe c) a" and "a \<noteq> []" and "list_all (\<lambda>c. form_safe c) k" and "list_all (\<lambda>c. form_safe c) v"
  shows "query_pairs (url_query (sd_path (job_call (ListRenewalJobs org (Some (a @ CHR ''&'' # k @ CHR ''='' # v))))))
    = [(''status'', a), (k, v)]"
proof -
  have free: "c \<notin> set s" if "list_all form_safe s" "\<not> form_safe c" for c s using that by (auto simp: list_all_iff)
  have dec: "form_decode s = s" if "list_all form_safe s" for s
    using that by (induction s) (auto simp: form_safe_marks)
  note fs = assms(1) [THEN free] assms(3) [THEN free] assms(4) [THEN free]
  let ?q = "(''status='' @ a) @ CHR ''&'' # k @ CHR ''='' # v"
  have "CHR ''#'' \<notin> set ?q" using fs form_safe_marks by simp
  then have q: "url_query (sd_path (job_call (ListRenewalJobs org (Some (a @ CHR ''&'' # k @ CHR ''='' # v))))) = ?q"
    using assms(2) take_until(1) [of "CHR ''#''" ?q]
    by (cases a) (simp_all add: call_field_def raw_query_def truthy_def url_query_def)
  have "split_on CHR ''&'' ?q = [''status='' @ a, k @ CHR ''='' # v]"
    unfolding split_on_append using fs form_safe_marks by (simp add: split_on_free)
  moreover have "query_part (''status'' @ CHR ''='' # a) = (''status'', a)"
    using take_until(2,4) [of "CHR ''=''" "''status''" a] by (simp add: query_part_def dec assms(1))
  moreover have "query_part (k @ CHR ''='' # v) = (k, v)"
    using fs(2) form_safe_marks by (simp add: query_part_def take_until dec assms(3,4))
  ultimately show ?thesis unfolding q query_pairs_def using assms(2) by simp
qed

section \<open>Polling\<close>

text \<open>
  What \<open>fireAndPoll\<close> observes: the clock when it starts to poll and before each poll, the abort signal, and the outcomes of
  \<open>check\<close>, \<open>None\<close> for \<open>null\<close>. The result comes with the number of checks made.
\<close>

record 'a poll_world =
  pw_start :: int
  pw_now :: "nat \<Rightarrow> int"
  pw_elapsed :: "nat \<Rightarrow> int"
  pw_aborted :: "nat \<Rightarrow> bool"
  pw_check :: "nat \<Rightarrow> thrown + 'a option"

definition poll_aborted :: sdk_error where
  "poll_aborted = WalwatchNetworkError (JStr ''Polling aborted'') 0 None None"

definition poll_timeout :: "int \<Rightarrow> int \<Rightarrow> sdk_error" where
  "poll_timeout timeoutMs elapsed =
     WalwatchNetworkError (JStr (''Polling timed out after '' @ show_int timeoutMs @ ''ms'')) 0 (Some (JStr ''TIMEOUT''))
       (Some (JObj [(''timeoutMs'', JNum timeoutMs), (''elapsedMs'', JNum elapsed)]))"

partial_function (option) poll_loop :: "'a poll_world \<Rightarrow> int \<Rightarrow> nat \<Rightarrow> ((sdk_error + 'a) \<times> nat) option" where
  "poll_loop w timeoutMs k =
     (if pw_aborted w k then Some (Inl poll_aborted, k)
      else if timeoutMs > 0 \<and> pw_now w k - pw_start w > timeoutMs then Some (Inl (poll_timeout timeoutMs (pw_elapsed w k)), k)
      else (case pw_check w k of
              Inl e \<Rightarrow> Some (Inl (SdkThrown e), Suc k)
            | Inr (Some v) \<Rightarrow> Some (Inr v, Suc k)
            | Inr None \<Rightarrow> poll_loop w timeoutMs (Suc k)))"

definition fireAndPoll :: "thrown + json \<Rightarrow> 'a poll_world \<Rightarrow> int option \<Rightarrow> ((sdk_error + 'a) \<times> nat) option" where
  "fireAndPoll fired w timeoutMs =
     (case fired of
        Inl e \<Rightarrow> Some (Inl (SdkThrown e), 0)
      | Inr _ \<Rightarrow> poll_loop w (or_default timeoutMs 120000) 0)"

definition fireAndAwait :: "thrown + json \<Rightarrow> 'a poll_world \<Rightarrow> int option \<Rightarrow> ((sdk_error + 'a) \<times> nat) option" where
  "fireAndAwait fired w timeoutMs = fireAndPoll fired w timeoutMs"

text \<open>The delay after a poll, and a clock that moves at least as far while a timer of whole milliseconds runs.\<close>

definition poll_delay :: "rat \<Rightarrow> nat \<Rightarrow> rat" where
  "poll_delay interval k = min (interval * (3 / 2) ^ k) 30000"

definition timers_wait :: "rat \<Rightarrow> 'a poll_world \<Rightarrow> bool" where
  "timers_wait interval w \<longleftrightarrow>
     pw_start w \<le> pw_now w 0 \<and> (\<forall>k. pw_now w k + \<lfloor>poll_delay interval k\<rfloor> \<le> pw_now w (Suc k))"

lemma poll_loop_returns:
  assumes "k \<le> n" and "timeoutMs > 0 \<and> pw_now w n - pw_start w > timeoutMs"
  shows "\<exists>res m. poll_loop w timeoutMs k = Some (res, m) \<and> m \<le> n"
  using assms
proof (induction "n - k" arbitrary: k)
  case 0
  then have "k = n" by simp
  with 0 show ?case by (subst poll_loop.simps) simp
next
  case (Suc d)
  then have "k < n" by simp
  with Suc have "\<exists>res m. poll_loop w timeoutMs (Suc k) = Some (res, m) \<and> m \<le> n" by simp
  with \<open>k < n\<close> show ?case by (subst poll_loop.simps) (auto split: sum.split option.split)
qed

lemma clock_sum:
  assumes "timers_wait interval w"
  shows "pw_now w n - pw_start w \<ge> (\<Sum>k<n. \<lfloor>poll_delay interval k\<rfloor>)"
proof (induction n)
  case 0
  with assms show ?case by (simp add: timers_wait_def)
next
  case (Suc n)
  with assms show ?case unfolding timers_wait_def by (simp add: add.commute) (smt (verit))
qed

lemma poll_delay_ge: "1 \<le> interval \<Longrightarrow> 1 \<le> \<lfloor>poll_delay interval k\<rfloor>"
proof -
  assume i: "1 \<le> interval"
  have "(1 :: rat) \<le> (3 / 2) ^ k" by simp
  with i have "1 \<le> interval * (3 / 2) ^ k" by (metis mult_mono' mult_1 zero_le_one)
  then show ?thesis by (simp add: poll_delay_def)
qed

text \<open>
  With a time limit the polling ends, whatever the checks answer: after at most one check more than the limit has
  milliseconds, and with the defaults, a limit of two minutes and a first delay of two seconds, after at most nine.
\<close>

theorem polling_ends:
  assumes "timers_wait interval w" and "1 \<le> interval" and "0 < or_default timeoutMs 120000"
  shows "\<exists>res n. fireAndPoll fired w timeoutMs = Some (res, n)
    \<and> n \<le> nat (or_default timeoutMs 120000) + 1 \<and> (timeoutMs = None \<and> interval = 2000 \<longrightarrow> n \<le> 9)"
proof (cases fired)
  case (Inr a)
  let ?t = "or_default timeoutMs 120000"
  have "(\<Sum>k<nat ?t + 1. 1) \<le> (\<Sum>k<nat ?t + 1. \<lfloor>poll_delay interval k\<rfloor>)"
    by (rule sum_mono) (rule poll_delay_ge [OF assms(2)])
  with clock_sum [OF assms(1), of "nat ?t + 1"] assms(3) have "pw_now w (nat ?t + 1) - pw_start w > ?t" by simp
  with poll_loop_returns [of 0 "nat ?t + 1" ?t w] assms(3) obtain res n where
    r: "poll_loop w ?t 0 = Some (res, n)" "n \<le> nat ?t + 1" by auto
  have "n \<le> 9" if "timeoutMs = None" "interval = 2000"
  proof -
    have "\<lfloor>91125 / 4 :: rat\<rfloor> = 22781" "\<lfloor>30375 / 2 :: rat\<rfloor> = 15187" by (rule floor_unique; simp)+
    then have "(\<Sum>k<9. \<lfloor>poll_delay 2000 k\<rfloor>) > 120000" by (simp add: poll_delay_def lessThan_nat_numeral lessThan_Suc power_divide)
    with clock_sum [OF assms(1), of 9] that have "pw_now w 9 - pw_start w > 120000" by simp
    with poll_loop_returns [of 0 9 120000 w] r(1) that show ?thesis by auto
  qed
  with r Inr show ?thesis by (simp add: fireAndPoll_def)
qed (simp add: fireAndPoll_def)

text \<open>
  Without a limit, and without an abort, the polling ends only with an answer: if every check says that the operation has
  not ended, it never returns.
\<close>

theorem polling_without_limit:
  fixes w :: "'b poll_world"
  assumes "\<forall>k. \<not> pw_aborted w k" and "\<forall>k. pw_check w k = Inr None"
  shows "fireAndPoll (Inr a) w (Some 0) = None"
proof -
  define P where "P u t (k :: nat) (r :: (sdk_error + 'b) \<times> nat) \<longleftrightarrow>
    \<not> (t = 0 \<and> (\<forall>k. \<not> pw_aborted u k) \<and> (\<forall>k. pw_check u k = Inr None))" for u :: "'b poll_world" and t :: int and k r
  have "P u t k r" if "poll_loop u t k = Some r" for u t k r
  proof (rule poll_loop.raw_induct [where P = P, OF _ that], rule ccontr)
    fix f and u :: "'b poll_world" and t k r
    assume IH: "\<And>u t k r. f u t k = Some r \<Longrightarrow> P u t k r"
      and step: "(if pw_aborted u k then Some (Inl poll_aborted, k)
        else if t > 0 \<and> pw_now u k - pw_start u > t then Some (Inl (poll_timeout t (pw_elapsed u k)), k)
        else (case pw_check u k of Inl e \<Rightarrow> Some (Inl (SdkThrown e), Suc k)
            | Inr None \<Rightarrow> f u t (Suc k) | Inr (Some v) \<Rightarrow> Some (Inr v, Suc k))) = Some r"
      and not: "\<not> P u t k r"
    with step have "f u t (Suc k) = Some r" by (simp add: P_def)
    from IH [OF this] not show False by (simp add: P_def)
  qed
  from this [of w 0 0] assms show ?thesis by (cases "poll_loop w 0 0") (auto simp: fireAndPoll_def P_def)
qed

text \<open>A value that is returned is the first that a check gave.\<close>

theorem polling_first_answer:
  fixes w :: "'b poll_world"
  assumes "fireAndPoll (Inr a) w timeoutMs = Some (Inr v, n)"
  shows "n > 0 \<and> pw_check w (n - 1) = Inr (Some v) \<and> (\<forall>k < n - 1. pw_check w k = Inr None)"
proof -
  define P where "P u (t :: int) k r \<longleftrightarrow> (\<forall>x m. r = (Inr x, m) \<longrightarrow> k < m \<and> pw_check u (m - 1) = Inr (Some x)
      \<and> (\<forall>j. k \<le> j \<and> j < m - 1 \<longrightarrow> pw_check u j = Inr None))"
    for u :: "'b poll_world" and t k and r :: "(sdk_error + 'b) \<times> nat"
  have "P u t k r" if "poll_loop u t k = Some r" for u t k r
  proof (rule poll_loop.raw_induct [where P = P, OF _ that])
    fix f and u :: "'b poll_world" and t k r
    assume IH: "\<And>u t k r. f u t k = Some r \<Longrightarrow> P u t k r"
      and step: "(if pw_aborted u k then Some (Inl poll_aborted, k)
        else if t > 0 \<and> pw_now u k - pw_start u > t then Some (Inl (poll_timeout t (pw_elapsed u k)), k)
        else (case pw_check u k of Inl e \<Rightarrow> Some (Inl (SdkThrown e), Suc k)
            | Inr None \<Rightarrow> f u t (Suc k) | Inr (Some v) \<Rightarrow> Some (Inr v, Suc k))) = Some r"
    show "P u t k r"
    proof (cases "pw_check u k = Inr None \<and> f u t (Suc k) = Some r")
      case True
      with IH have "P u t (Suc k) r" by blast
      with True show ?thesis unfolding P_def by (metis Suc_leI Suc_lessD le_neq_implies_less)
    next
      case False
      with step show ?thesis by (auto simp: P_def split: if_splits sum.splits option.splits)
    qed
  qed
  from this [of w _ 0 "(Inr v, n)"] assms show ?thesis by (auto simp: fireAndPoll_def P_def)
qed

section \<open>Witnesses\<close>

theorem raw_query_splits_witness:
  "query_pairs (url_query (sd_path (job_call (ListRenewalJobs ''o'' (Some ''failed&cursor=c''))))) = [(''status'', ''failed''), (''cursor'', ''c'')]"
  using raw_query_splits [of "''failed''" "''cursor''" "''c''" "''o''"]
  by (simp add: form_safe_def plain_char_def is_digit_def less_eq_char_def)

abbreviation sample_world :: "(nat \<Rightarrow> thrown + nat option) \<Rightarrow> nat poll_world" where
  "sample_world check \<equiv> \<lparr>pw_start = 0, pw_now = (\<lambda>k. 30000 * int k), pw_elapsed = (\<lambda>k. 30000 * int k),
     pw_aborted = (\<lambda>_. False), pw_check = check\<rparr>"

theorem polling_ends_witness:
  "\<exists>res n. fireAndPoll (Inr JNull) (sample_world (\<lambda>_. Inr None)) None = Some (res, n) \<and> n \<le> 9"
proof -
  have "\<lfloor>poll_delay 2000 k\<rfloor> \<le> 30000" for k by (simp add: poll_delay_def floor_le_iff min.strict_coboundedI2)
  then have "timers_wait 2000 (sample_world (\<lambda>_. Inr None))" by (simp add: timers_wait_def)
  from polling_ends [OF this, of None "Inr JNull"] show ?thesis by auto
qed

theorem polling_without_limit_witness: "fireAndPoll (Inr JNull) (sample_world (\<lambda>_. Inr None)) (Some 0) = None"
  by (rule polling_without_limit) simp_all

theorem polling_first_answer_witness:
  "pw_check (sample_world (\<lambda>_. Inr (Some 7))) 0 = Inr (Some 7)"
  using polling_first_answer [of JNull "sample_world (\<lambda>_. Inr (Some 7))" None 7 1]
  by (simp add: fireAndPoll_def poll_loop.simps)

end
