(* ===== verification/List_Routes.thy ===== *)
theory List_Routes
  imports Key_Routes Pagination Sdk_Queries
begin

text \<open>
  The paged lists of the API: the handlers of \<open>GET /\<close> in the routers of \<open>api/src/routes\<close> for organizations, projects,
  blobs, policies, wallets, budgets, spending limits, renewal jobs, keys, invitations, publishers, the audit log and the
  activity feed. Then what the SDK makes of them. A query is the value of each of its parameters; \<open>ILIKE\<close>, the decoding
  of a cursor and the microseconds that the columns keep beside the milliseconds of the rows are parameters. A cursor whose
  parts are no time or no uuid is left out.
\<close>

section \<open>Queries\<close>

type_synonym query = "string \<Rightarrow> string option"

record list_env =
  le_decode :: "string \<Rightarrow> cursor_value option"
  le_ilike :: "string \<Rightarrow> string \<Rightarrow> bool"
  le_micros :: "string \<Rightarrow> int"

definition row_key :: "list_env \<Rightarrow> string \<Rightarrow> int \<Rightarrow> sort_key" where
  "row_key env i t = (t * 1000 + le_micros env i, i)"

text \<open>A filter that is added when its parameter is given and not empty.\<close>

definition wanted :: "query \<Rightarrow> string \<Rightarrow> (string \<Rightarrow> bool) \<Rightarrow> bool" where
  "wanted q k P = (case truthy (q k) of Some v \<Rightarrow> P v | None \<Rightarrow> True)"

definition like_text :: "list_env \<Rightarrow> string \<Rightarrow> string option \<Rightarrow> bool" where
  "like_text env v text = (case text of Some t \<Rightarrow> le_ilike env (CHR ''%'' # v @ ''%'') t | None \<Rightarrow> False)"

definition escapeLike :: "string \<Rightarrow> string" where
  "escapeLike s = concat (map (\<lambda>c. if c \<in> {CHR ''%'', CHR ''_'', CHR ''['', CHR '']''} then [CHR 0x5C, c] else [c]) s)"

definition includeDeleted :: "query \<Rightarrow> bool" where
  "includeDeleted q \<longleftrightarrow> q ''include_deleted'' = Some ''true''"

text \<open>A parameter that is compared with a uuid column must be one.\<close>

definition with_uuid :: "query \<Rightarrow> string \<Rightarrow> (thrown + 'a) \<Rightarrow> thrown + 'a" where
  "with_uuid q k r = (case truthy (q k) of Some v \<Rightarrow> if is_uuid v then r else Inl (uuid_error v) | None \<Rightarrow> r)"

record 'r list_answer =
  la_field :: string
  la_page :: "'r page"
  la_total :: "nat option"

definition paged :: "list_env \<Rightarrow> ('r \<Rightarrow> sort_key) \<Rightarrow> sort_direction \<Rightarrow> query \<Rightarrow> 'r list \<Rightarrow> 'r page" where
  "paged env key dir q rows =
     list_page key dir (nat (parse_limit (q ''limit''))) rows
       (case truthy (q ''cursor'') of Some c \<Rightarrow> le_decode env c | None \<Rightarrow> None)"

definition answer_page :: "string \<Rightarrow> 'r page \<Rightarrow> thrown + 'r list_answer" where
  "answer_page field p = Inr \<lparr>la_field = field, la_page = p, la_total = None\<rparr>"

section \<open>Lists\<close>

definition blob_visible :: "list_env \<Rightarrow> query \<Rightarrow> string \<Rightarrow> blob_row \<Rightarrow> bool" where
  "blob_visible env q org b \<longleftrightarrow> bl_orgId b = org
     \<and> wanted q ''search'' (\<lambda>s. like_text env (escapeLike s) (bl_name b) \<or> like_text env (escapeLike s) (Some (bl_blobId b)))
     \<and> wanted q ''status'' (\<lambda>s. bl_status b = s) \<and> wanted q ''project_id'' (\<lambda>p. bl_projectId b = p)
     \<and> wanted q ''tag'' (\<lambda>t. case bl_tags b of Some ts \<Rightarrow> t \<in> set ts | None \<Rightarrow> False)"

definition blob_list_key :: "list_env \<Rightarrow> blob_row \<Rightarrow> sort_key" where
  "blob_list_key env b = row_key env (bl_id b) (bl_createdAt b)"

definition list_blobs :: "list_env \<Rightarrow> query \<Rightarrow> string \<Rightarrow> api_state \<Rightarrow> thrown + blob_row list_answer" where
  "list_blobs env q org st =
     (let rows = filter (blob_visible env q org) (db_blobs (ap_db st));
          dir = (if q ''sort'' = Some ''asc'' then Asc else Desc)
      in with_uuid q ''project_id''
           (Inr \<lparr>la_field = ''blobs'', la_page = paged env (blob_list_key env) dir q rows, la_total = Some (length rows)\<rparr>))"

text \<open>The blobs of a project, under the project.\<close>

definition list_project_blobs :: "list_env \<Rightarrow> query \<Rightarrow> string \<Rightarrow> string \<Rightarrow> api_state \<Rightarrow> thrown + blob_row list_answer" where
  "list_project_blobs env q org project st =
     answer_page ''blobs''
       (paged env (blob_list_key env) Desc q
          (filter (\<lambda>b. bl_orgId b = org \<and> bl_projectId b = project \<and> wanted q ''status'' (\<lambda>s. bl_status b = s))
             (db_blobs (ap_db st))))"

definition wallet_visible :: "list_env \<Rightarrow> query \<Rightarrow> string \<Rightarrow> wallet_row \<Rightarrow> bool" where
  "wallet_visible env q org w \<longleftrightarrow> wa_orgId w = org \<and> (includeDeleted q \<or> wa_status w \<noteq> ''deleted'')
     \<and> wanted q ''type'' (\<lambda>t. wa_type w = t) \<and> wanted q ''projectId'' (\<lambda>p. wa_projectId w = Some p)
     \<and> wanted q ''label'' (\<lambda>l. like_text env l (wa_label w))"

definition list_wallets :: "list_env \<Rightarrow> query \<Rightarrow> string \<Rightarrow> api_state \<Rightarrow> thrown + wallet_row list_answer" where
  "list_wallets env q org st =
     with_uuid q ''projectId''
       (answer_page ''wallets''
          (paged env (\<lambda>w. row_key env (wa_id w) (wa_createdAt w)) Desc q (filter (wallet_visible env q org) (db_wallets (ap_db st)))))"

definition list_projects :: "list_env \<Rightarrow> query \<Rightarrow> string \<Rightarrow> api_state \<Rightarrow> thrown + project_row list_answer" where
  "list_projects env q org st =
     answer_page ''projects''
       (paged env (\<lambda>p. row_key env (pj_id p) (pj_createdAt p)) Desc q
          (filter (\<lambda>p. pj_orgId p = org \<and> (includeDeleted q \<or> pj_status p \<noteq> ''deleted'')) (ap_projects st)))"

definition list_policies :: "list_env \<Rightarrow> query \<Rightarrow> string \<Rightarrow> api_state \<Rightarrow> thrown + policy_row list_answer" where
  "list_policies env q org st =
     answer_page ''policies''
       (paged env (\<lambda>p. row_key env (po_id p) (po_createdAt p)) Desc q
          (filter (\<lambda>p. po_orgId p = org \<and> (includeDeleted q \<or> po_status p \<noteq> ''archived'')) (db_policies (ap_db st))))"

definition list_budgets :: "list_env \<Rightarrow> query \<Rightarrow> string \<Rightarrow> api_state \<Rightarrow> thrown + budget_row list_answer" where
  "list_budgets env q org st =
     answer_page ''budgets''
       (paged env (\<lambda>b. row_key env (bu_id b) (bu_createdAt b)) Desc q
          (filter (\<lambda>b. bu_orgId b = org \<and> (includeDeleted q \<or> bu_status b \<noteq> ''deleted'' \<and> bu_status b \<noteq> ''archived''))
             (db_budgets (ap_db st))))"

definition list_limits :: "list_env \<Rightarrow> query \<Rightarrow> string \<Rightarrow> api_state \<Rightarrow> thrown + limit_row list_answer" where
  "list_limits env q org st =
     with_uuid q ''walletId''
       (answer_page ''spendingLimits''
          (paged env (\<lambda>l. row_key env (sl_id l) (sl_createdAt l)) Desc q
             (filter (\<lambda>l. sl_orgId l = org \<and> (includeDeleted q \<or> sl_status l = ''active'')
                \<and> wanted q ''scope'' (\<lambda>s. sl_scope l = s) \<and> wanted q ''walletId'' (\<lambda>w. sl_scopeTargetId l = w))
                (db_limits (ap_db st)))))"

definition job_visible :: "query \<Rightarrow> string \<Rightarrow> job_row \<Rightarrow> bool" where
  "job_visible q org j \<longleftrightarrow> rj_orgId j = org \<and> wanted q ''status'' (\<lambda>s. rj_status j = s) \<and> (includeDeleted q \<or> rj_deletedAt j = None)"

definition list_jobs :: "list_env \<Rightarrow> query \<Rightarrow> string \<Rightarrow> api_state \<Rightarrow> thrown + job_row list_answer" where
  "list_jobs env q org st =
     answer_page ''renewalJobs''
       (paged env (\<lambda>j. row_key env (rj_id j) (rj_createdAt j)) Desc q (filter (job_visible q org) (db_jobs (ap_db st))))"

definition list_publishers :: "list_env \<Rightarrow> query \<Rightarrow> string \<Rightarrow> api_state \<Rightarrow> thrown + publisher_row list_answer" where
  "list_publishers env q org st =
     answer_page ''publishers''
       (paged env (\<lambda>p. row_key env (pb_id p) (pb_createdAt p)) Desc q
          (filter (\<lambda>p. pb_orgId p = org \<and> (includeDeleted q \<or> pb_status p \<noteq> ''deleted'')
             \<and> wanted q ''name'' (\<lambda>n. like_text env n (Some (pb_name p)))) (db_publishers (ap_db st))))"

text \<open>The list of the keys shows some of the columns, and not the hash.\<close>

record key_view =
  kv_id :: string
  kv_name :: string
  kv_keyPrefix :: string
  kv_permissions :: "string list"
  kv_expiresAt :: "int option"
  kv_lastUsedAt :: "int option"
  kv_createdAt :: int

definition key_view_of :: "api_key_row \<Rightarrow> key_view" where
  "key_view_of k = \<lparr>kv_id = ak_id k, kv_name = ak_name k, kv_keyPrefix = ak_keyPrefix k, kv_permissions = ak_permissions k,
     kv_expiresAt = ak_expiresAt k, kv_lastUsedAt = ak_lastUsedAt k, kv_createdAt = ak_createdAt k\<rparr>"

definition list_keys :: "list_env \<Rightarrow> query \<Rightarrow> string \<Rightarrow> api_state \<Rightarrow> thrown + key_view list_answer" where
  "list_keys env q org st =
     answer_page ''apiKeys''
       (paged env (\<lambda>k. row_key env (kv_id k) (kv_createdAt k)) Desc q
          (map key_view_of (filter (\<lambda>k. ak_orgId k = org \<and> (includeDeleted q \<or> ak_status k = ''active'')
             \<and> wanted q ''name'' (\<lambda>n. like_text env n (Some (ak_name k))) \<and> wanted q ''role'' (\<lambda>r. ak_role k = Some r)) (api_keys st))))"

definition list_invitations :: "list_env \<Rightarrow> query \<Rightarrow> string \<Rightarrow> api_state \<Rightarrow> thrown + invitation_row list_answer" where
  "list_invitations env q org st =
     answer_page ''invitations''
       (paged env (\<lambda>v. row_key env (iv_id v) (iv_createdAt v)) Desc q
          (filter (\<lambda>v. iv_orgId v = org \<and> (includeDeleted q \<or> iv_deletedAt v = None)
             \<and> wanted q ''email'' (\<lambda>e. like_text env e (Some (iv_email v))) \<and> wanted q ''status'' (\<lambda>s. iv_status v = s))
             (ap_invitations st)))"

definition audit_key :: "list_env \<Rightarrow> audit_row \<Rightarrow> sort_key" where
  "audit_key env a = row_key env (au_id a) (au_createdAt a)"

text \<open>The audit log has two routes, with different names for the rows of the answer.\<close>

definition list_org_audit :: "list_env \<Rightarrow> query \<Rightarrow> string \<Rightarrow> api_state \<Rightarrow> thrown + audit_row list_answer" where
  "list_org_audit env q org st =
     answer_page ''auditLogs''
       (paged env (audit_key env) (if q ''sort'' = Some ''asc'' then Asc else Desc) q
          (filter (\<lambda>a. au_orgId a = org) (db_audits (ap_db st))))"

definition list_audit :: "list_env \<Rightarrow> query \<Rightarrow> string \<Rightarrow> api_state \<Rightarrow> thrown + audit_row list_answer" where
  "list_audit env q org st =
     with_uuid q ''user_id''
       (answer_page ''logs''
          (paged env (audit_key env) Desc q
             (filter (\<lambda>a. au_orgId a = org \<and> wanted q ''action'' (\<lambda>s. like_text env (escapeLike s) (Some (au_action a)))
                \<and> wanted q ''resource_type'' (\<lambda>s. au_resourceType a = s) \<and> wanted q ''user_id'' (\<lambda>u. au_userId a = Some u))
                (db_audits (ap_db st)))))"

text \<open>The feed matches its actions with \<open>LIKE\<close>, a parameter of its own.\<close>

definition list_feed :: "list_env \<Rightarrow> (string \<Rightarrow> string \<Rightarrow> bool) \<Rightarrow> query \<Rightarrow> string \<Rightarrow> api_state \<Rightarrow> thrown + feed_row list_answer" where
  "list_feed env like q org st =
     answer_page ''entries''
       (paged env (\<lambda>e. row_key env (fd_id e) (fd_createdAt e)) Desc q
          (filter (\<lambda>e. fd_orgId e = org \<and> wanted q ''action'' (\<lambda>s. like (CHR ''%'' # s @ ''%'') (fd_action e))
             \<and> wanted q ''resource_type'' (\<lambda>s. fd_resourceType e = s) \<and> wanted q ''actor_type'' (\<lambda>s. fd_actorType e = s))
             (db_feed (ap_db st))))"

text \<open>The organizations of the caller, whatever their status.\<close>

record org_view =
  ov_id :: string
  ov_name :: string
  ov_slug :: string
  ov_role :: string
  ov_createdAt :: int

definition list_orgs :: "list_env \<Rightarrow> query \<Rightarrow> string \<Rightarrow> api_state \<Rightarrow> thrown + org_view list_answer" where
  "list_orgs env q user st =
     (if \<not> is_uuid user then Inl (uuid_error user)
      else answer_page ''organizations''
        (paged env (\<lambda>v. row_key env (ov_id v) (ov_createdAt v)) Desc q
           (concat (map (\<lambda>m. map (\<lambda>g. \<lparr>ov_id = og_id g, ov_name = og_name g, ov_slug = og_slug g, ov_role = me_role m, ov_createdAt = og_createdAt g\<rparr>)
               (filter (\<lambda>g. og_id g = me_orgId m \<and> wanted q ''name'' (\<lambda>n. like_text env n (Some (og_name g)))
                  \<and> wanted q ''slug'' (\<lambda>s. og_slug g = s)) (ac_orgs (ap_access st))))
             (filter (\<lambda>m. me_userId m = user) (ac_members (ap_access st)))))))"

section \<open>A request for a list\<close>

definition list_request ::
    "(query \<Rightarrow> string \<Rightarrow> api_state \<Rightarrow> thrown + 'r list_answer) \<Rightarrow> guard list \<Rightarrow> api_env \<Rightarrow> string \<Rightarrow> request \<times> query \<Rightarrow> api_state
     \<Rightarrow> 'r list_answer body reply \<times> api_state" where
  "list_request f gs env rid x st =
     (case x of (rq, q) \<Rightarrow>
        serve env rid gs rq True
          (\<lambda>cx s. case cx_orgId cx of
                    None \<Rightarrow> (Inl undefined_arg, s)
                  | Some org \<Rightarrow> (case f q org s of Inl e \<Rightarrow> (Inl e, s) | Inr a \<Rightarrow> (Inr (200, Row a), s))) st)"

text \<open>A client that follows the cursors of a list.\<close>

fun collect :: "(query \<Rightarrow> thrown + 'r list_answer) \<Rightarrow> (cursor_value \<Rightarrow> string) \<Rightarrow> nat \<Rightarrow> query \<Rightarrow> 'r list" where
  "collect f enc 0 q = []"
| "collect f enc (Suc n) q =
     (case f q of
        Inl e \<Rightarrow> []
      | Inr a \<Rightarrow> pg_data (la_page a)
          @ (case pg_nextCursor (la_page a) of None \<Rightarrow> [] | Some c \<Rightarrow> collect f enc n (q(''cursor'' := Some (enc c)))))"

section \<open>Facts\<close>

lemma paged_follow:
  assumes "cursor = (case truthy (q ''cursor'') of Some t \<Rightarrow> le_decode env t | None \<Rightarrow> None)"
    and "\<And>c. enc c \<noteq> [] \<and> le_decode env (enc c) = Some c"
    and "\<And>q'. (\<forall>k. k \<noteq> ''cursor'' \<longrightarrow> q' k = q k) \<Longrightarrow> f q' = Inr (a\<lparr>la_page := paged env key dir q' rows\<rparr>)"
  shows "collect f enc n q = follow key dir (nat (parse_limit (q ''limit''))) rows n cursor"
  using assms(1,3)
proof (induction n arbitrary: q cursor)
  case (Suc n)
  let ?p = "list_page key dir (nat (parse_limit (q ''limit''))) rows cursor"
  have page: "paged env key dir q rows = ?p" by (simp add: paged_def Suc.prems(1))
  have next_page: "collect f enc n (q(''cursor'' := Some (enc c)))
      = follow key dir (nat (parse_limit (q ''limit''))) rows n (Some c)" for c
  proof -
    let ?q = "q(''cursor'' := Some (enc c))"
    have limit: "?q ''limit'' = q ''limit''" by simp
    have "truthy (?q ''cursor'') = Some (enc c)" using assms(2) [of c] by (simp add: truthy_def split: list.split)
    then have cursor: "Some c = (case truthy (?q ''cursor'') of Some t \<Rightarrow> le_decode env t | None \<Rightarrow> None)"
      using assms(2) [of c] by (simp del: fun_upd_apply)
    have "f q' = Inr (a\<lparr>la_page := paged env key dir q' rows\<rparr>)" if "\<forall>k. k \<noteq> ''cursor'' \<longrightarrow> q' k = ?q k" for q'
      by (rule Suc.prems(2)) (use that in simp)
    from Suc.IH [of "Some c" ?q, OF cursor this] show ?thesis unfolding limit .
  qed
  from Suc.prems(2) have "f q = Inr (a\<lparr>la_page := paged env key dir q rows\<rparr>)" by simp
  then show ?case unfolding collect.simps follow.simps Let_def
    by (simp add: page next_page del: fun_upd_apply split: option.split)
qed simp

lemma follow_all:
  assumes "keyed key dir rows" and "0 < limit" and "length rows < n"
  shows "follow key dir limit rows n None = in_order key dir rows"
proof -
  have "n \<le> n * limit" using assms(2) by simp
  with assms(3) have "length rows < n * limit" by (rule less_le_trans)
  with follow_from [OF assms(1,2), of 0 n] show ?thesis by (simp add: cursor_at_def)
qed

lemma parse_limit_range: "1 \<le> parse_limit s" "parse_limit s \<le> 100"
  by (simp_all add: parse_limit_def Let_def)

text \<open>A list that ignores the cursor in its filter, from its first page.\<close>

lemma collect_all:
  assumes "q ''cursor'' = None" and "\<And>c. enc c \<noteq> [] \<and> le_decode env (enc c) = Some c"
    and "\<And>q'. (\<forall>k. k \<noteq> ''cursor'' \<longrightarrow> q' k = q k) \<Longrightarrow> f q' = Inr (a\<lparr>la_page := paged env key dir q' rows\<rparr>)"
    and "keyed key dir rows" and "length rows < n"
  shows "collect f enc n q = in_order key dir rows"
proof -
  have "collect f enc n q = follow key dir (nat (parse_limit (q ''limit''))) rows n None"
    by (rule paged_follow [OF _ assms(2) assms(3)]) (use assms(1) in \<open>auto simp: truthy_def\<close>)
  also have "\<dots> = in_order key dir rows"
    using parse_limit_range(1) [of "q ''limit''"] by (intro follow_all [OF assms(4) _ assms(5)]) simp
  finally show ?thesis .
qed

lemma first_page_rows:
  assumes "truthy (q ''cursor'') = None"
  shows "pg_data (paged env key dir q rows) = take (nat (parse_limit (q ''limit''))) (in_order key dir rows)"
  using assms by (simp add: paged_def list_page_def wrapPaginatedResponse_def buildCursorWhere_def in_order_def Let_def min_def)

lemma page_subset: "set (pg_data (paged env key dir q rows)) \<subseteq> set rows"
  by (auto simp: paged_def list_page_def wrapPaginatedResponse_def Let_def dest: in_set_takeD)

text \<open>A filter reads every parameter but the cursor.\<close>

lemma same_filters:
  assumes "\<forall>k. k \<noteq> ''cursor'' \<longrightarrow> q' k = q k"
  shows "wanted q' ''search'' = wanted q ''search''" "wanted q' ''status'' = wanted q ''status''"
    and "wanted q' ''project_id'' = wanted q ''project_id''" "wanted q' ''tag'' = wanted q ''tag''"
    and "wanted q' ''type'' = wanted q ''type''" "wanted q' ''projectId'' = wanted q ''projectId''"
    and "wanted q' ''label'' = wanted q ''label''" "includeDeleted q' = includeDeleted q"
    and "q' ''sort'' = q ''sort''" "q' ''limit'' = q ''limit''"
    and "with_uuid q' ''project_id'' = with_uuid q ''project_id''" "with_uuid q' ''projectId'' = with_uuid q ''projectId''"
  using assms by (auto simp: fun_eq_iff wanted_def includeDeleted_def with_uuid_def)

section \<open>What a client of the lists sees\<close>

text \<open>
  C39: following the cursors of \<open>GET /blobs\<close> gives every blob of the organization that passes the filters, once and in the order
  asked for, when the server reads its own cursors, no two of the blobs were made in one millisecond and, for the ascending order,
  their times have no microseconds. Without these two the pages repeat or leave out blobs (\<open>ascending_page_repeats\<close> and
  \<open>descending_ties_skipped\<close> of Pagination).
\<close>

theorem blob_pages_complete:
  assumes "\<And>c. enc c \<noteq> [] \<and> le_decode env (enc c) = Some c" and "q ''cursor'' = None"
    and "\<And>v. truthy (q ''project_id'') = Some v \<Longrightarrow> is_uuid v"
    and "keyed (blob_list_key env) (if q ''sort'' = Some ''asc'' then Asc else Desc)
      (filter (blob_visible env q org) (db_blobs (ap_db st)))"
    and "length (filter (blob_visible env q org) (db_blobs (ap_db st))) < n"
  shows "collect (\<lambda>q. list_blobs env q org st) enc n q
    = in_order (blob_list_key env) (if q ''sort'' = Some ''asc'' then Asc else Desc)
        (filter (blob_visible env q org) (db_blobs (ap_db st)))"
proof (rule collect_all [where a = "\<lparr>la_field = ''blobs'', la_page = undefined,
    la_total = Some (length (filter (blob_visible env q org) (db_blobs (ap_db st))))\<rparr>" and env = env])
  fix q' assume same: "\<forall>k. k \<noteq> ''cursor'' \<longrightarrow> (q' :: query) k = q k"
  have "blob_visible env q' org = blob_visible env q org" by (simp add: fun_eq_iff blob_visible_def same_filters [OF same])
  moreover have "with_uuid q ''project_id'' r = r" for r :: "thrown + blob_row list_answer"
    using assms(3) by (auto simp: with_uuid_def split: option.split)
  ultimately show "list_blobs env q' org st = Inr (\<lparr>la_field = ''blobs'', la_page = undefined,
      la_total = Some (length (filter (blob_visible env q org) (db_blobs (ap_db st))))\<rparr>
      \<lparr>la_page := paged env (blob_list_key env) (if q ''sort'' = Some ''asc'' then Asc else Desc) q'
        (filter (blob_visible env q org) (db_blobs (ap_db st)))\<rparr>)"
    by (simp add: list_blobs_def same_filters [OF same] Let_def)
qed (rule assms)+

text \<open>The same of the renewal jobs, whose filters hold no uuid.\<close>

theorem job_pages_complete:
  assumes "\<And>c. enc c \<noteq> [] \<and> le_decode env (enc c) = Some c" and "q ''cursor'' = None"
    and "keyed (\<lambda>j. row_key env (rj_id j) (rj_createdAt j)) Desc (filter (job_visible q org) (db_jobs (ap_db st)))"
    and "length (filter (job_visible q org) (db_jobs (ap_db st))) < n"
  shows "collect (\<lambda>q. list_jobs env q org st) enc n q
    = in_order (\<lambda>j. row_key env (rj_id j) (rj_createdAt j)) Desc (filter (job_visible q org) (db_jobs (ap_db st)))"
proof (rule collect_all [where a = "\<lparr>la_field = ''renewalJobs'', la_page = undefined, la_total = None\<rparr>"
    and env = env])
  fix q' assume same: "\<forall>k. k \<noteq> ''cursor'' \<longrightarrow> (q' :: query) k = q k"
  have "job_visible q' org = job_visible q org" by (simp add: fun_eq_iff job_visible_def same_filters [OF same])
  then show "list_jobs env q' org st = Inr (\<lparr>la_field = ''renewalJobs'', la_page = undefined, la_total = None\<rparr>
      \<lparr>la_page := paged env (\<lambda>j. row_key env (rj_id j) (rj_createdAt j)) Desc q' (filter (job_visible q org) (db_jobs (ap_db st)))\<rparr>)"
    by (simp add: list_jobs_def answer_page_def)
qed (rule assms)+

text \<open>The rows of an answer, none for an error.\<close>

definition rows_of :: "thrown + 'r list_answer \<Rightarrow> 'r list" where
  "rows_of r = (case r of Inl e \<Rightarrow> [] | Inr a \<Rightarrow> pg_data (la_page a))"

lemma rows_of_simps [simp]:
  "rows_of (Inl e) = []" "rows_of (answer_page field p) = pg_data p" "rows_of (Inr a) = pg_data (la_page a)"
  by (simp_all add: rows_of_def answer_page_def)

lemma rows_of_uuid: "set (rows_of (with_uuid q k r)) \<subseteq> set (rows_of r)"
  by (simp add: with_uuid_def split: option.split)

lemma page_of: "x \<in> set (pg_data (paged env key dir q rows)) \<Longrightarrow> x \<in> set rows"
  using page_subset [of env key dir q rows] by blast

lemmas list_rows = list_blobs_def list_project_blobs_def list_wallets_def list_projects_def list_policies_def
  list_budgets_def list_limits_def list_jobs_def list_publishers_def list_invitations_def list_org_audit_def
  list_audit_def list_feed_def Let_def

text \<open>A list shows rows of its organization only.\<close>

theorem lists_stay_inside:
  "(\<forall>b \<in> set (rows_of (list_blobs env q org st)). bl_orgId b = org \<and> b \<in> set (db_blobs (ap_db st)))
   \<and> (\<forall>b \<in> set (rows_of (list_project_blobs env q org p st)). bl_orgId b = org \<and> bl_projectId b = p)
   \<and> (\<forall>w \<in> set (rows_of (list_wallets env q org st)). wa_orgId w = org \<and> w \<in> set (db_wallets (ap_db st)))
   \<and> (\<forall>x \<in> set (rows_of (list_projects env q org st)). pj_orgId x = org \<and> x \<in> set (ap_projects st))
   \<and> (\<forall>x \<in> set (rows_of (list_policies env q org st)). po_orgId x = org \<and> x \<in> set (db_policies (ap_db st)))
   \<and> (\<forall>x \<in> set (rows_of (list_budgets env q org st)). bu_orgId x = org \<and> x \<in> set (db_budgets (ap_db st)))
   \<and> (\<forall>x \<in> set (rows_of (list_limits env q org st)). sl_orgId x = org \<and> x \<in> set (db_limits (ap_db st)))
   \<and> (\<forall>x \<in> set (rows_of (list_jobs env q org st)). rj_orgId x = org \<and> x \<in> set (db_jobs (ap_db st)))
   \<and> (\<forall>x \<in> set (rows_of (list_publishers env q org st)). pb_orgId x = org \<and> x \<in> set (db_publishers (ap_db st)))
   \<and> (\<forall>x \<in> set (rows_of (list_invitations env q org st)). iv_orgId x = org \<and> x \<in> set (ap_invitations st))
   \<and> (\<forall>x \<in> set (rows_of (list_org_audit env q org st)). au_orgId x = org)
   \<and> (\<forall>x \<in> set (rows_of (list_audit env q org st)). au_orgId x = org)
   \<and> (\<forall>x \<in> set (rows_of (list_feed env like q org st)). fd_orgId x = org)"
  unfolding list_rows
  by (intro conjI ballI; (drule subsetD [OF rows_of_uuid])?;
      simp only: rows_of_simps list_answer.simps; drule page_of; simp add: blob_visible_def wallet_visible_def job_visible_def)

text \<open>A list is answered to the members of the organization of the request, and changes nothing.\<close>

theorem lists_need_member:
  assumes "access_wf (ap_access st)"
    and "list_request f [GAuth, GOrg] env rid (rq, q) st = (Answered (200, Row a), st')"
  shows "st' = st \<and> (\<exists>u org. caller (av_access env) rq u \<and> requested_org rq = Some org
    \<and> may_act (ap_access st) org u (\<lambda>m. True) \<and> f q org st = Inr a)"
proof -
  from assms(2) obtain cx d where run: "run_guards (av_access env) rq [GAuth, GOrg] (fresh_vars rid, ap_access st) = Pass (cx, d)"
    by (auto simp: list_request_def serve_def split: outcome.splits)
  then obtain tok u org g m where *: "bearer_token rq = Some tok" "ae_verify (av_access env) tok = Inr (Some u)"
      "requested_org rq = Some org" "find_org (ap_access st) org = Some g" "og_status g \<noteq> ''suspended''"
      "org_member (ap_access st) org u = Some m" "d = ap_access st"
      "cx = member_vars ((fresh_vars rid)\<lparr>cx_userId := Some u\<rparr>) org m"
    by (auto simp: next_mw_Pass run_guard_read_Pass requireAuth_Pass requireOrg_Pass)
  then have "caller (av_access env) rq u" "may_act (ap_access st) org u (\<lambda>m. True)"
    by (auto simp: caller_def may_act_def wf_find_org [OF assms(1)] wf_org_member [OF assms(1)])
  moreover from assms(2) run *(7,8) have "f q org st = Inr a \<and> st' = st"
    by (auto simp: list_request_def serve_def split: sum.splits)
  ultimately show ?thesis using *(3) by blast
qed

section \<open>The lists of the SDK\<close>

text \<open>The query of a method of the SDK, as the server reads it.\<close>

definition sdk_query :: "sdk_call \<Rightarrow> query" where
  "sdk_query c = map_of (query_pairs (url_query (sd_path c)))"

lemma map_of_if_text:
  "map_of (if_text k v @ ps) j = (case truthy v of None \<Rightarrow> map_of ps j | Some w \<Rightarrow> if j = k then Some w else map_of ps j)"
  "map_of (if_number k n @ ps) j = (if j = k \<and> if_number k n \<noteq> [] then Some (show_int (the n)) else map_of ps j)"
  by (auto simp: if_text_def if_number_def truthy_def split: option.split list.split)

lemma sdk_plain_query:
  assumes "CHR ''?'' \<notin> set (sd_path c)"
  shows "sdk_query c = Map.empty"
  by (simp add: sdk_query_def url_query_def query_pairs_def take_until(3) [OF assms])

lemma sdk_blob_query: "sdk_query (blob_call (ListBlobs oid p)) = map_of (blob_query p)"
  by (simp add: sdk_query_def call_def url_query_with query_pairs_string)

lemma list_blobs_cong:
  assumes "\<And>k. k \<noteq> ''page'' \<Longrightarrow> q' k = q k"
  shows "list_blobs env q' org st = list_blobs env q org st"
proof -
  have "blob_visible env q' org = blob_visible env q org" by (simp add: fun_eq_iff blob_visible_def wanted_def assms)
  then show ?thesis by (simp add: list_blobs_def with_uuid_def paged_def Let_def assms)
qed




lemma parse_limit_none: "nat (parse_limit None) = 50"
  by (simp add: parse_limit_def or_default_def parse_int_def is_digit_def less_eq_char_def digits_val_def digit_val_def)











text \<open>The list of the blobs takes a page number that the route never reads: every page is the first.\<close>

theorem sdk_page_ignored:
  "list_blobs env (sdk_query (blob_call (ListBlobs oid (p\<lparr>bp_page := n\<rparr>)))) org st
   = list_blobs env (sdk_query (blob_call (ListBlobs oid (p\<lparr>bp_page := None\<rparr>)))) org st"
  unfolding sdk_blob_query by (rule list_blobs_cong) (simp add: blob_query_def map_of_if_text del: map_of_append split: option.split)

text \<open>
  The lists that take no parameter answer the newest fifty rows, and the SDK throws the cursor away: it has no way to the
  others.
\<close>

theorem sdk_lists_stop:
  "rows_of (list_wallets env (sdk_query (wallet_call (ListWallets oid))) org st)
     = take 50 (in_order (\<lambda>w. row_key env (wa_id w) (wa_createdAt w)) Desc
         (filter (\<lambda>w. wa_orgId w = org \<and> wa_status w \<noteq> ''deleted'') (db_wallets (ap_db st))))
   \<and> rows_of (list_policies env (sdk_query (policy_call (ListPolicies oid))) org st)
     = take 50 (in_order (\<lambda>p. row_key env (po_id p) (po_createdAt p)) Desc
         (filter (\<lambda>p. po_orgId p = org \<and> po_status p \<noteq> ''archived'') (db_policies (ap_db st))))
   \<and> rows_of (list_limits env (sdk_query (limit_call (ListSpendingLimits oid))) org st)
     = take 50 (in_order (\<lambda>l. row_key env (sl_id l) (sl_createdAt l)) Desc
         (filter (\<lambda>l. sl_orgId l = org \<and> sl_status l = ''active'') (db_limits (ap_db st))))
   \<and> rows_of (list_keys env (sdk_query (key_call (ListApiKeys oid))) org st)
     = take 50 (in_order (\<lambda>k. row_key env (kv_id k) (kv_createdAt k)) Desc
         (map key_view_of (filter (\<lambda>k. ak_orgId k = org \<and> ak_status k = ''active'') (api_keys st))))"
proof -
  have "sdk_query (wallet_call (ListWallets oid)) = Map.empty" "sdk_query (policy_call (ListPolicies oid)) = Map.empty"
    "sdk_query (limit_call (ListSpendingLimits oid)) = Map.empty" "sdk_query (key_call (ListApiKeys oid)) = Map.empty"
    by (rule sdk_plain_query; simp add: call_field_def)+
  moreover have "wallet_visible env Map.empty org = (\<lambda>w. wa_orgId w = org \<and> wa_status w \<noteq> ''deleted'')"
    by (simp add: fun_eq_iff wallet_visible_def wanted_def includeDeleted_def)
  ultimately show ?thesis
    by (simp add: list_wallets_def list_policies_def list_limits_def list_keys_def with_uuid_def first_page_rows
        wanted_def includeDeleted_def parse_limit_none)
qed

text \<open>
  The methods read the rows from a field of the answer; the audit log is answered in another one than \<open>getAuditLogs\<close> reads,
  which gives its caller nothing.
\<close>

definition field_of :: "thrown + 'r list_answer \<Rightarrow> string option" where
  "field_of r = (case r of Inl e \<Rightarrow> None | Inr a \<Rightarrow> Some (la_field a))"

theorem sdk_fields:
  "sd_field (getAuditLogs oid) = Some ''auditLogs''
   \<and> field_of (list_audit env (sdk_query (getAuditLogs oid)) org st) = Some ''logs''
   \<and> field_of (list_wallets env (sdk_query (wallet_call (ListWallets oid))) org st) = sd_field (wallet_call (ListWallets oid))
   \<and> field_of (list_policies env q org st) = sd_field (policy_call (ListPolicies oid))
   \<and> field_of (list_projects env q org st) = sd_field (project_call (ListProjects oid))
   \<and> field_of (list_budgets env q org st) = sd_field (budget_call (ListBudgets oid))
   \<and> field_of (list_publishers env q org st) = sd_field (publisher_call (ListPublishers oid))
   \<and> field_of (list_keys env q org st) = sd_field (key_call (ListApiKeys oid))
   \<and> field_of (list_invitations env q org st) = sd_field (invite_call (ListInvitations oid))"
proof -
  have "sdk_query (getAuditLogs oid) = Map.empty" "sdk_query (wallet_call (ListWallets oid)) = Map.empty"
    by (rule sdk_plain_query; simp add: call_field_def getAuditLogs_def)+
  then show ?thesis
    by (simp add: getAuditLogs_def call_field_def list_audit_def list_wallets_def list_policies_def list_projects_def
        list_budgets_def list_publishers_def list_keys_def list_invitations_def answer_page_def with_uuid_def field_of_def)
qed

text \<open>A cursor that does not decode is no error: the answer is the first page again.\<close>

theorem bad_cursor_restarts:
  assumes "le_decode env c = None"
  shows "list_jobs env (q(''cursor'' := Some c)) org st = list_jobs env (q(''cursor'' := None)) org st"
proof -
  have "job_visible (q(''cursor'' := Some c)) org = job_visible (q(''cursor'' := None)) org"
    by (simp add: fun_eq_iff job_visible_def wanted_def includeDeleted_def)
  with assms show ?thesis by (cases c) (simp_all add: list_jobs_def paged_def truthy_def)
qed

section \<open>Witnesses\<close>

text \<open>A cursor as a text: the sign and the size of the time, then the identifier.\<close>

definition sample_cursor :: "cursor_value \<Rightarrow> string" where
  "sample_cursor c = (if cu_sortValue c < 0 then CHR ''-'' else CHR ''+'') # replicate (nat \<bar>cu_sortValue c\<bar>) CHR ''1'' @ CHR '':'' # cu_id c"

definition sample_decode :: "string \<Rightarrow> cursor_value option" where
  "sample_decode s = (case s of [] \<Rightarrow> None | a # t \<Rightarrow>
     let n = int (length (takeWhile (\<lambda>x. x \<noteq> CHR '':'') t))
     in Some \<lparr>cu_id = drop 1 (dropWhile (\<lambda>x. x \<noteq> CHR '':'') t), cu_sortValue = (if a = CHR ''-'' then - n else n)\<rparr>)"

definition sample_list_env :: list_env where
  "sample_list_env = \<lparr>le_decode = sample_decode, le_ilike = (\<lambda>p t. p = t), le_micros = (\<lambda>i. 0)\<rparr>"

lemma sample_cursor_decode: "sample_cursor c \<noteq> [] \<and> le_decode sample_list_env (sample_cursor c) = Some c"
proof -
  have "CHR '':'' \<notin> set (replicate n CHR ''1'')" for n by simp
  then show ?thesis
    by (cases c) (simp add: sample_list_env_def sample_decode_def sample_cursor_def Let_def take_until del: set_replicate)
qed

definition sample_lists :: api_state where
  "sample_lists =
     \<lparr>ap_access = sample_db,
      ap_db = empty_db\<lparr>db_blobs := [new_blob ''a'' 0 (sample_uuid CHR ''1'') ''p'' ''0x1'', new_blob ''b'' 5 (sample_uuid CHR ''1'') ''p'' ''0x2'',
                                  new_blob ''c'' 7 (sample_uuid CHR ''2'') ''p'' ''0x3'']\<rparr>,
      ap_projects = [], ap_delegations = [], ap_events = [], ap_invitations = []\<rparr>"

lemma sample_lists_rows:
  "filter (blob_visible sample_list_env [''limit'' \<mapsto> ''1''] (sample_uuid CHR ''1'')) (db_blobs (ap_db sample_lists))
    = [new_blob ''a'' 0 (sample_uuid CHR ''1'') ''p'' ''0x1'', new_blob ''b'' 5 (sample_uuid CHR ''1'') ''p'' ''0x2'']"
  by (simp add: sample_lists_def blob_visible_def wanted_def new_blob_def)

theorem blob_pages_complete_witness:
  "map bl_id (collect (\<lambda>q. list_blobs sample_list_env q (sample_uuid CHR ''1'') sample_lists) sample_cursor 3 [''limit'' \<mapsto> ''1''])
    = [''b'', ''a'']"
proof -
  let ?rows = "[new_blob ''a'' 0 (sample_uuid CHR ''1'') ''p'' ''0x1'', new_blob ''b'' 5 (sample_uuid CHR ''1'') ''p'' ''0x2'']"
  have key: "keyed (blob_list_key sample_list_env) Desc ?rows"
    by (simp add: keyed_def blob_list_key_def row_key_def sample_list_env_def new_blob_def iso_ms_def)
  have "collect (\<lambda>q. list_blobs sample_list_env q (sample_uuid CHR ''1'') sample_lists) sample_cursor 3 [''limit'' \<mapsto> ''1'']
      = in_order (blob_list_key sample_list_env) Desc ?rows"
    using blob_pages_complete [of sample_cursor sample_list_env "[''limit'' \<mapsto> ''1'']" "sample_uuid CHR ''1''" sample_lists 3]
      sample_cursor_decode key by (simp add: sample_lists_rows)
  then show ?thesis
    by (simp add: in_order_def buildCursorOrderBy_def before_def blob_list_key_def row_key_def sample_list_env_def new_blob_def)
qed

theorem lists_stay_inside_witness:
  "map bl_id (rows_of (list_blobs sample_list_env Map.empty (sample_uuid CHR ''2'') sample_lists)) = [''c'']
   \<and> list_all (\<lambda>b. bl_orgId b = sample_uuid CHR ''2'') (rows_of (list_blobs sample_list_env Map.empty (sample_uuid CHR ''2'') sample_lists))"
proof -
  have "filter (blob_visible sample_list_env Map.empty (sample_uuid CHR ''2'')) (db_blobs (ap_db sample_lists))
      = [new_blob ''c'' 7 (sample_uuid CHR ''2'') ''p'' ''0x3'']"
    by (simp add: sample_lists_def blob_visible_def wanted_def new_blob_def)
  then have "rows_of (list_blobs sample_list_env Map.empty (sample_uuid CHR ''2'') sample_lists)
      = [new_blob ''c'' 7 (sample_uuid CHR ''2'') ''p'' ''0x3'']"
    by (simp add: list_blobs_def with_uuid_def first_page_rows parse_limit_none in_order_def)
  with lists_stay_inside [of sample_list_env Map.empty "sample_uuid CHR ''2''" sample_lists "''p''" "(=)"]
  show ?thesis by (simp add: list_all_iff new_blob_def)
qed

lemma sample_db_wf: "access_wf sample_db"
  by (simp add: access_wf_def sample_orgs_def sample_access_def sample_org_def sample_uuid_ok)
    (simp add: sample_uuid_def is_uuid_def hex_digit_def is_digit_def less_eq_char_def)

theorem lists_need_member_witness:
  "\<exists>u org. caller sample_access_env (sample_request None) u \<and> requested_org (sample_request None) = Some org
     \<and> may_act (ap_access sample_lists) org u (\<lambda>m. True)"
proof -
  have "ap_access sample_lists = sample_db \<and> sample_lists\<lparr>ap_access := sample_db\<rparr> = sample_lists"
    by (simp add: sample_lists_def)
  moreover from this have "list_request (list_blobs sample_list_env) [GAuth, GOrg] sample_key_env ''r'' (sample_request None, Map.empty) sample_lists
    = (Answered (200, Row \<lparr>la_field = ''blobs'', la_page = paged sample_list_env (blob_list_key sample_list_env) Desc Map.empty
          (filter (blob_visible sample_list_env Map.empty (sample_uuid CHR ''1'')) (db_blobs (ap_db sample_lists))),
        la_total = Some (length (filter (blob_visible sample_list_env Map.empty (sample_uuid CHR ''1'')) (db_blobs (ap_db sample_lists))))\<rparr>),
       sample_lists)"
    by (simp add: list_request_def serve_def sample_org_passes list_blobs_def with_uuid_def Let_def del: run_guards.simps)
  ultimately show ?thesis
    using lists_need_member [of sample_lists "list_blobs sample_list_env" sample_key_env "''r''" "sample_request None" Map.empty]
      sample_db_wf by auto
qed

theorem bad_cursor_restarts_witness:
  "list_jobs (sample_list_env\<lparr>le_decode := Map.empty\<rparr>) [''cursor'' \<mapsto> ''x''] ''o'' sample_lists
   = list_jobs (sample_list_env\<lparr>le_decode := Map.empty\<rparr>) Map.empty ''o'' sample_lists"
  using bad_cursor_restarts [of "sample_list_env\<lparr>le_decode := Map.empty\<rparr>" "''x''" Map.empty "''o''" sample_lists] by simp

end
