(* ===== verification/Secrets.thy ===== *)
theory Secrets
  imports Notification_Engine
begin

text \<open>
  Secrets at rest: \<open>api/src/lib/encryption.ts\<close>, and what \<open>keeper/src/encryption.ts\<close> takes for a secret. The cipher of the
  platform, with its random vector, is a parameter: \<open>cy_seal\<close> gives vector, tag and text in hexadecimal, \<open>cy_open\<close> reads them
  with the key of a version.
\<close>

record cipher_env =
  cy_version :: int
  cy_seal :: "int \<Rightarrow> string \<Rightarrow> thrown + string \<times> string \<times> string"
  cy_open :: "int option \<Rightarrow> string \<Rightarrow> string \<Rightarrow> string \<Rightarrow> thrown + string"

section \<open>Encryption\<close>

definition encrypt :: "cipher_env \<Rightarrow> int option \<Rightarrow> string \<Rightarrow> thrown + string" where
  "encrypt cy keyVersion plain =
     (let version = or_default keyVersion (cy_version cy)
      in bindE (cy_seal cy version plain) (\<lambda>(iv, tag, ct).
           Inr (show_int version @ CHR '':'' # iv @ CHR '':'' # tag @ CHR '':'' # ct)))"

definition bad_format :: thrown where
  "bad_format = js_Error (''Invalid encrypted data format '' @ em_dash
     @ '' expected version:iv:authTag:ciphertext or legacy iv:authTag:ciphertext'')"

text \<open>A version that is no number is \<open>NaN\<close>.\<close>

definition decrypt :: "cipher_env \<Rightarrow> string \<Rightarrow> thrown + string" where
  "decrypt cy data =
     (case split_on (CHR '':'') data of
        [v, iv, tag, ct] \<Rightarrow> cy_open cy (parse_int v) iv tag ct
      | [iv, tag, ct] \<Rightarrow> cy_open cy (Some 1) iv tag ct
      | _ \<Rightarrow> Inl bad_format)"

definition reEncrypt :: "cipher_env \<Rightarrow> string \<Rightarrow> int option \<Rightarrow> thrown + string" where
  "reEncrypt cy data newVersion = bindE (decrypt cy data) (encrypt cy newVersion)"

text \<open>What the cipher promises: it writes hexadecimal digits and reads what it wrote with the key of the same version.\<close>

definition cipher_ok :: "cipher_env \<Rightarrow> bool" where
  "cipher_ok cy \<longleftrightarrow> (\<forall>v p iv tag ct. cy_seal cy v p = Inr (iv, tag, ct) \<longrightarrow>
     list_all lower_hex (iv @ tag @ ct) \<and> cy_open cy (Some v) iv tag ct = Inr p)"

section \<open>Facts\<close>

lemma hex_no_colon: "list_all lower_hex s \<Longrightarrow> CHR '':'' \<notin> set s"
  by (auto simp: list_all_iff lower_hex_def is_digit_def less_eq_char_def)

lemma show_int_no_colon: "CHR '':'' \<notin> set (show_int n)"
proof -
  have digits: "CHR '':'' \<notin> set (show_nat k)" for k
    using show_nat_digits [of k] by (auto simp: list_all_iff is_digit_def less_eq_char_def)
  show ?thesis by (simp add: show_int_def digits)
qed

lemma split_length: "length (split_on c s) = Suc (length (filter ((=) c) s))"
  by (induction s) (auto split: list.split)

text \<open>The keeper takes three parts for a secret, and the API writes four.\<close>

lemma encrypted_unknown:
  assumes "encrypt cy v p = Inr c"
  shows "\<not> isEncrypted c"
proof -
  from assms obtain w iv tag ct where "c = w @ CHR '':'' # iv @ CHR '':'' # tag @ CHR '':'' # ct"
    by (auto simp: encrypt_def Let_def bindE_def split: sum.splits)
  then have "length (split_on (CHR '':'') c) \<ge> 4" by (simp add: split_length)
  then show ?thesis by (auto simp: isEncrypted_def split: list.splits)
qed

lemma decrypt_encrypt_now:
  assumes "cipher_ok cy" and "encrypt cy v p = Inr c" and "0 \<le> or_default v (cy_version cy)"
  shows "decrypt (cy\<lparr>cy_version := now\<rparr>) c = Inr p"
proof -
  let ?v = "or_default v (cy_version cy)"
  from assms(2) obtain iv tag ct where seal: "cy_seal cy ?v p = Inr (iv, tag, ct)"
    and c: "c = show_int ?v @ CHR '':'' # iv @ CHR '':'' # tag @ CHR '':'' # ct"
    by (auto simp: encrypt_def Let_def bindE_def split: sum.splits)
  with assms(1) have "list_all lower_hex (iv @ tag @ ct)" and opened: "cy_open cy (Some ?v) iv tag ct = Inr p"
    unfolding cipher_ok_def by blast+
  then have "CHR '':'' \<notin> set iv" "CHR '':'' \<notin> set tag" "CHR '':'' \<notin> set ct" by (simp_all add: hex_no_colon)
  with show_int_no_colon have "split_on (CHR '':'') c = [show_int ?v, iv, tag, ct]"
    unfolding c by (simp add: split_on_append split_on_free)
  with opened assms(3) show ?thesis by (simp add: decrypt_def parse_int_show)
qed

section \<open>Properties\<close>

text \<open>Decryption inverts encryption, with the version that the data names, whatever version is current by then.\<close>

theorem decrypt_encrypt:
  assumes "cipher_ok cy" and "encrypt cy v p = Inr c" and "0 \<le> or_default v (cy_version cy)"
  shows "decrypt (cy\<lparr>cy_version := now\<rparr>) c = Inr p"
  by (rule decrypt_encrypt_now [OF assms])

text \<open>A rotation to another version keeps the secret.\<close>

theorem reencrypt_keeps:
  assumes "cipher_ok cy" and "encrypt cy v p = Inr c" and "0 \<le> or_default v (cy_version cy)"
    and "reEncrypt cy c v' = Inr c'" and "0 \<le> or_default v' (cy_version cy)"
  shows "decrypt cy c' = Inr p"
proof -
  from decrypt_encrypt_now [OF assms(1-3), of "cy_version cy"] have "decrypt cy c = Inr p" by simp
  with assms(4) have "encrypt cy v' p = Inr c'" by (simp add: reEncrypt_def bindE_def)
  from decrypt_encrypt_now [OF assms(1) this assms(5), of "cy_version cy"] show ?thesis by simp
qed

text \<open>
  The keeper does not know the secrets of the API: the API writes version, vector, tag and text, and the keeper looks for
  three parts, so a setting of a channel that the API encrypted goes to the channel as it is stored.
\<close>

theorem keeper_passes_ciphertext:
  assumes "encrypt cy v p = Inr c" and "(k, JStr c) \<in> set kvs"
  shows "(k, JStr c) \<in> set (decrypt_config env (JObj kvs))"
  using assms(2) encrypted_unknown [OF assms(1)] by (force simp: decrypt_config_def)

subsection \<open>Witnesses\<close>

definition sample_cipher_env :: cipher_env where
  "sample_cipher_env = \<lparr>cy_version = 1, cy_seal = (\<lambda>v p. if p = ''p'' then Inr (''0'', ''a'', ''7'') else Inl (Prim [])),
     cy_open = (\<lambda>v iv tag ct. if ct = ''7'' then Inr ''p'' else Inl (Prim []))\<rparr>"

lemma sample_cipher_ok: "cipher_ok sample_cipher_env"
  by (auto simp: cipher_ok_def sample_cipher_env_def lower_hex_def is_digit_def less_eq_char_def split: if_splits)

lemma sample_encrypt:
  "encrypt sample_cipher_env None ''p'' = Inr ''1:0:a:7''" "encrypt sample_cipher_env (Some 3) ''p'' = Inr ''3:0:a:7''"
proof -
  have "show_nat 1 = ''1''" "show_nat 3 = ''3''" by code_simp+
  then show "encrypt sample_cipher_env None ''p'' = Inr ''1:0:a:7''" "encrypt sample_cipher_env (Some 3) ''p'' = Inr ''3:0:a:7''"
    by (simp_all add: encrypt_def sample_cipher_env_def bindE_def or_default_def show_int_def)
qed

theorem decrypt_encrypt_witness: "decrypt (sample_cipher_env\<lparr>cy_version := 2\<rparr>) ''1:0:a:7'' = Inr ''p''"
  by (rule decrypt_encrypt [OF sample_cipher_ok sample_encrypt(1)]) (simp add: sample_cipher_env_def or_default_def)

theorem reencrypt_keeps_witness: "decrypt sample_cipher_env ''3:0:a:7'' = Inr ''p''"
proof -
  have pos: "0 \<le> or_default None (cy_version sample_cipher_env)" by (simp add: sample_cipher_env_def or_default_def)
  have "decrypt sample_cipher_env ''1:0:a:7'' = Inr ''p''"
    using decrypt_encrypt_now [OF sample_cipher_ok sample_encrypt(1) pos, of 1] by (simp add: sample_cipher_env_def)
  then have "reEncrypt sample_cipher_env ''1:0:a:7'' (Some 3) = Inr ''3:0:a:7''"
    using sample_encrypt(2) by (simp add: reEncrypt_def bindE_def)
  from reencrypt_keeps [OF sample_cipher_ok sample_encrypt(1) pos this] show ?thesis by (simp add: or_default_def)
qed

theorem keeper_passes_ciphertext_witness:
  "(''url'', JStr ''1:0:a:7'') \<in> set (decrypt_config env (JObj [(''url'', JStr ''1:0:a:7'')]))"
  by (rule keeper_passes_ciphertext [OF sample_encrypt(1)]) simp

end
