(* ===== verification/Webhook_Routes.thy ===== *)
theory Webhook_Routes
  imports Route_Base Secrets
begin

text \<open>
  The webhooks of an organization, \<open>api/src/routes/webhooks.ts\<close>: creation, item routes and transitions. With the delivery
  in \<open>api/src/lib/event-bus.ts\<close> this gives who hears of an event. Secrets go through \<open>Secrets\<close>; the URL
  check of the schema is a parameter and the list of the webhooks is left out.
\<close>

section \<open>Inputs\<close>

record webhook_body =
  wb_name :: string
  wb_url :: string
  wb_secret :: "string option"
  wb_events :: "string list"

datatype webhook_input = WName string | WUrl string | WSecret string | WEvents "string list" | WStatus string

fun webhook_key :: "webhook_input \<Rightarrow> string" where
  "webhook_key (WName _) = ''name''"
| "webhook_key (WUrl _) = ''url''"
| "webhook_key (WSecret _) = ''secret''"
| "webhook_key (WEvents _) = ''events''"
| "webhook_key (WStatus _) = ''status''"

fun webhook_value :: "webhook_input \<Rightarrow> json" where
  "webhook_value (WEvents es) = JArr (map JStr es)"
| "webhook_value (WName s) = JStr s"
| "webhook_value (WUrl s) = JStr s"
| "webhook_value (WSecret s) = JStr s"
| "webhook_value (WStatus s) = JStr s"

fun set_webhook_field :: "webhook_input \<Rightarrow> webhook_row \<Rightarrow> webhook_row" where
  "set_webhook_field (WName s) w = w\<lparr>wh_name := s\<rparr>"
| "set_webhook_field (WUrl s) w = w\<lparr>wh_url := s\<rparr>"
| "set_webhook_field (WSecret s) w = w\<lparr>wh_secret := Some s\<rparr>"
| "set_webhook_field (WEvents es) w = w\<lparr>wh_events := es\<rparr>"
| "set_webhook_field (WStatus s) w = w\<lparr>wh_status := s\<rparr>"

fun webhook_field_ok :: "(string \<Rightarrow> bool) \<Rightarrow> webhook_input \<Rightarrow> bool" where
  "webhook_field_ok url_ok (WName s) = (1 \<le> length s \<and> length s \<le> 255)"
| "webhook_field_ok url_ok (WUrl s) = url_ok s"
| "webhook_field_ok url_ok (WSecret s) = True"
| "webhook_field_ok url_ok (WEvents es) = (es \<noteq> [])"
| "webhook_field_ok url_ok (WStatus s) = (s \<in> {''active'', ''failing'', ''disabled''})"

definition webhook_patch_ok :: "(string \<Rightarrow> bool) \<Rightarrow> webhook_input list \<Rightarrow> bool" where
  "webhook_patch_ok url_ok fs \<longleftrightarrow> list_all (webhook_field_ok url_ok) fs \<and> distinct (map webhook_key fs)"

definition webhook_body_ok :: "(string \<Rightarrow> bool) \<Rightarrow> webhook_body \<Rightarrow> bool" where
  "webhook_body_ok url_ok b \<longleftrightarrow> list_all (webhook_field_ok url_ok) [WName (wb_name b), WUrl (wb_url b), WEvents (wb_events b)]"

text \<open>The status that a body asks for.\<close>

fun status_in :: "webhook_input list \<Rightarrow> string option" where
  "status_in [] = None"
| "status_in (f # fs) = (case status_in fs of Some t \<Rightarrow> Some t | None \<Rightarrow> (case f of WStatus t \<Rightarrow> Some t | _ \<Rightarrow> None))"

section \<open>The table and its views\<close>

definition upd_webhooks :: "string \<Rightarrow> (webhook_row \<Rightarrow> webhook_row) \<Rightarrow> db \<Rightarrow> db" where
  "upd_webhooks i f d = d\<lparr>db_webhooks := sql_update (\<lambda>w. wh_id w = i) f (db_webhooks d)\<rparr>"

definition webhook_table :: "webhook_row entity_table" where
  "webhook_table =
     \<lparr>et_rows = (\<lambda>st. db_webhooks (ap_db st)), et_id = wh_id, et_org = wh_orgId, et_status = wh_status,
      et_update = (\<lambda>i f. write_db (upd_webhooks i f)), et_machine = SM_webhook\<rparr>"

interpretation hooks: entity_laws webhook_table
  by unfold_locales (simp_all add: webhook_table_def upd_webhooks_def add_audit_def)

text \<open>A webhook without its secret.\<close>

record webhook_view =
  wv_id :: string
  wv_orgId :: string
  wv_name :: string
  wv_url :: string
  wv_events :: "string list"
  wv_status :: string
  wv_lastSuccessAt :: "int option"
  wv_lastFailureAt :: "int option"
  wv_failureCount :: int
  wv_deletedAt :: "int option"
  wv_createdAt :: int
  wv_updatedAt :: int

definition stripWebhookSecret :: "webhook_row \<Rightarrow> webhook_view" where
  "stripWebhookSecret w =
     \<lparr>wv_id = wh_id w, wv_orgId = wh_orgId w, wv_name = wh_name w, wv_url = wh_url w, wv_events = wh_events w,
      wv_status = wh_status w, wv_lastSuccessAt = wh_lastSuccessAt w, wv_lastFailureAt = wh_lastFailureAt w,
      wv_failureCount = wh_failureCount w, wv_deletedAt = wh_deletedAt w, wv_createdAt = wh_createdAt w,
      wv_updatedAt = wh_updatedAt w\<rparr>"

datatype webhook_answer = WebhookMade webhook_view "string option" | WebhookShown webhook_view

section \<open>Handlers\<close>

text \<open>An empty secret counts as none; the cipher may throw.\<close>

definition sealed :: "cipher_env \<Rightarrow> string option \<Rightarrow> thrown + string option" where
  "sealed cy s = (case truthy s of None \<Rightarrow> Inr None | Some p \<Rightarrow> bindE (encrypt cy None p) (\<lambda>c. Inr (Some c)))"

definition insert_webhook :: "webhook_row \<Rightarrow> api_state \<Rightarrow> thrown + api_state" where
  "insert_webhook w st =
     (if wh_id w \<in> wh_id ` set (db_webhooks (ap_db st)) then Inl (duplicate_key ''webhooks_pkey'')
      else Inr (write_db (\<lambda>d. d\<lparr>db_webhooks := db_webhooks d @ [w]\<rparr>) st))"

definition create_webhook ::
    "cipher_env \<Rightarrow> api_env \<Rightarrow> request \<Rightarrow> request_vars \<Rightarrow> webhook_body \<Rightarrow> api_state \<Rightarrow> webhook_answer handled" where
  "create_webhook cy env rq cx b st =
     (case cx_orgId cx of
        None \<Rightarrow> (Inl undefined_arg, st)
      | Some org \<Rightarrow>
          (case sealed cy (wb_secret b) of
             Inl e \<Rightarrow> (Inl e, st)
           | Inr s \<Rightarrow>
               (let i = av_id env ''webhooks'' (length (db_webhooks (ap_db st)));
                    w = (new_webhook i (av_now env) org (wb_name b) (wb_url b))\<lparr>wh_secret := s, wh_events := wb_events b\<rparr>;
                    details = Some (JObj [(''name'', JStr (wb_name b)), (''url'', JStr (wb_url b))])
                in conclude
                     (with_audit env rq cx (insert_webhook w) (entity_spec ''webhook'' ''webhook.created'' details) i st)
                     [owner_event env cx org ''webhook.created'' ''webhook'' i details]
                     (201, Row (WebhookMade (stripWebhookSecret w) (truthy (wb_secret b)))) st)))"

definition show_webhook :: "string \<Rightarrow> string \<Rightarrow> webhook_row \<Rightarrow> api_state \<Rightarrow> webhook_answer handled" where
  "show_webhook org i w st = (Inr (200, Row (WebhookShown (stripWebhookSecret w))), st)"

text \<open>The events of a change of status, emitted before anything is written.\<close>

definition status_events ::
    "api_env \<Rightarrow> request_vars \<Rightarrow> string \<Rightarrow> string \<Rightarrow> string \<Rightarrow> string option \<Rightarrow> thrown + event_payload list" where
  "status_events env cx org i old target =
     (case target of
        None \<Rightarrow> Inr []
      | Some t \<Rightarrow>
          if t = old then Inr []
          else bindE (validateTransition loaded_machines SM_webhook old t False) (\<lambda>_.
            Inr ((if t = ''disabled'' then [owner_event env cx org ''webhook.disabled'' ''webhook'' i None] else [])
              @ (if t = ''active'' \<and> old = ''disabled'' then [owner_event env cx org ''webhook.reenabled'' ''webhook'' i None] else []))))"

fun seal_input :: "cipher_env \<Rightarrow> webhook_input \<Rightarrow> thrown + webhook_input" where
  "seal_input cy (WSecret s) = (if s = [] then Inr (WSecret s) else bindE (encrypt cy None s) (\<lambda>c. Inr (WSecret c)))"
| "seal_input cy f = Inr f"

fun seal_inputs :: "cipher_env \<Rightarrow> webhook_input list \<Rightarrow> thrown + webhook_input list" where
  "seal_inputs cy [] = Inr []"
| "seal_inputs cy (f # fs) = bindE (seal_input cy f) (\<lambda>g. bindE (seal_inputs cy fs) (\<lambda>gs. Inr (g # gs)))"

text \<open>The audit entry of an update holds the body as it came.\<close>

definition patch_webhook ::
    "cipher_env \<Rightarrow> api_env \<Rightarrow> request \<Rightarrow> request_vars \<Rightarrow> webhook_input list \<Rightarrow> string \<Rightarrow> string \<Rightarrow> webhook_row \<Rightarrow> api_state
     \<Rightarrow> webhook_answer handled" where
  "patch_webhook cy env rq cx fs org i w st =
     (case status_events env cx org i (wh_status w) (status_in fs) of
        Inl e \<Rightarrow> (Inl e, st)
      | Inr es \<Rightarrow>
          (let st0 = record_events es st in
           case seal_inputs cy fs of
             Inl e \<Rightarrow> (Inl e, st0)
           | Inr gs \<Rightarrow>
               (let f = (\<lambda>q. (fold set_webhook_field gs q)\<lparr>wh_updatedAt := av_now env\<rparr>);
                    details = JObj (map (\<lambda>x. (webhook_key x, webhook_value x)) fs)
                in conclude
                     (with_audit env rq cx (\<lambda>s. Inr (et_update webhook_table i f s))
                        (entity_spec ''webhook'' ''webhook.updated'' (Some details)) i st0)
                     [] (200, Row (WebhookShown (stripWebhookSecret (f w)))) st0)))"

definition delete_webhook ::
    "api_env \<Rightarrow> request \<Rightarrow> request_vars \<Rightarrow> string \<Rightarrow> string \<Rightarrow> webhook_row \<Rightarrow> api_state \<Rightarrow> webhook_answer handled" where
  "delete_webhook env rq cx org i w st =
     conclude
       (move_item webhook_table env rq cx i w ''deleted''
          (\<lambda>q. q\<lparr>wh_status := ''deleted'', wh_deletedAt := Some (av_now env), wh_updatedAt := av_now env\<rparr>)
          (entity_spec ''webhook'' ''webhook.deleted'' None) st)
       [owner_event env cx org ''webhook.deleted'' ''webhook'' i None] (say ''Webhook deleted'') st"

definition webhook_transitions :: "string \<Rightarrow> string \<Rightarrow> webhook_row \<Rightarrow> api_state \<Rightarrow> webhook_answer handled" where
  "webhook_transitions org i w st =
     (bindE (validNextStates loaded_machines SM_webhook (wh_status w)) (\<lambda>nexts.
      bindE (isTerminal loaded_machines SM_webhook (wh_status w)) (\<lambda>t.
        Inr (200, Json (JObj [(''currentState'', JStr (wh_status w)), (''isTerminal'', JBool t),
          (''availableTransitions'', JArr (map (\<lambda>(s, ty). JObj [(''to'', JStr s), (''type'', JStr (type_name ty))]) nexts))])))), st)"

section \<open>Routes\<close>

datatype webhook_op = MakeWebhook webhook_body | ShowWebhook | PatchWebhook "webhook_input list" | RemoveWebhook | WebhookTransitions

text \<open>These routes trust the path to have an identifier, which it has.\<close>

definition on_webhook ::
    "request \<Rightarrow> request_vars \<Rightarrow> (string \<Rightarrow> string \<Rightarrow> webhook_row \<Rightarrow> api_state \<Rightarrow> webhook_answer handled) \<Rightarrow> api_state
     \<Rightarrow> webhook_answer handled" where
  "on_webhook rq cx k st =
     (if truthy (rq_param rq ''id'') = None then (Inl undefined_arg, st)
      else on_item webhook_table ''Webhook'' class_extra rq cx k st)"

fun webhook_handler ::
    "cipher_env \<Rightarrow> api_env \<Rightarrow> request \<Rightarrow> webhook_op \<Rightarrow> request_vars \<Rightarrow> api_state \<Rightarrow> webhook_answer handled" where
  "webhook_handler cy env rq (MakeWebhook b) cx st = create_webhook cy env rq cx b st"
| "webhook_handler cy env rq ShowWebhook cx st = on_webhook rq cx show_webhook st"
| "webhook_handler cy env rq (PatchWebhook fs) cx st = on_webhook rq cx (patch_webhook cy env rq cx fs) st"
| "webhook_handler cy env rq RemoveWebhook cx st = on_webhook rq cx (delete_webhook env rq cx) st"
| "webhook_handler cy env rq WebhookTransitions cx st = on_webhook rq cx webhook_transitions st"

fun webhook_guards :: "webhook_op \<Rightarrow> guard list" where
  "webhook_guards ShowWebhook = [GAuth, GOrg]"
| "webhook_guards WebhookTransitions = [GAuth, GOrg]"
| "webhook_guards _ = [GAuth, GOrg, GCap [MANAGE_WEBHOOKS]]"

fun webhook_op_ok :: "(string \<Rightarrow> bool) \<Rightarrow> webhook_op \<Rightarrow> bool" where
  "webhook_op_ok url_ok (MakeWebhook b) = webhook_body_ok url_ok b"
| "webhook_op_ok url_ok (PatchWebhook fs) = webhook_patch_ok url_ok fs"
| "webhook_op_ok url_ok _ = True"

definition webhook_route ::
    "(string \<Rightarrow> bool) \<Rightarrow> cipher_env \<Rightarrow> api_env \<Rightarrow> string \<Rightarrow> request \<times> webhook_op \<Rightarrow> api_state
     \<Rightarrow> webhook_answer body reply \<times> api_state" where
  "webhook_route url_ok cy env rid x st =
     (case x of (rq, op) \<Rightarrow> serve env rid (webhook_guards op) rq (webhook_op_ok url_ok op) (webhook_handler cy env rq op) st)"

section \<open>Facts\<close>

lemma webhook_table_simps [simp]:
  "et_rows webhook_table st = db_webhooks (ap_db st)" "et_id webhook_table = wh_id" "et_org webhook_table = wh_orgId"
  "et_status webhook_table = wh_status" "et_machine webhook_table = SM_webhook"
  "et_update webhook_table i f = write_db (upd_webhooks i f)"
  by (simp_all add: webhook_table_def)

lemma new_webhook_simps [simp]:
  "wh_id (new_webhook i now org n u) = i" "wh_status (new_webhook i now org n u) = ''created''"
  by (simp_all add: new_webhook_def)

lemma insert_webhook_ok:
  "insert_webhook w st = Inr st' \<Longrightarrow> wh_id w \<notin> wh_id ` set (db_webhooks (ap_db st))
     \<and> st' = write_db (\<lambda>d. d\<lparr>db_webhooks := db_webhooks d @ [w]\<rparr>) st"
  by (auto simp: insert_webhook_def split: if_splits)

lemma set_webhook_id: "wh_id (fold set_webhook_field fs w) = wh_id w"
proof (induction fs arbitrary: w)
  case (Cons f fs)
  then show ?case by (cases f) simp_all
qed simp

lemma set_webhook_status: "wh_status (fold set_webhook_field fs w) = or_default (status_in fs) (wh_status w)"
proof (induction fs arbitrary: w)
  case (Cons f fs)
  then show ?case by (cases f) (simp_all add: or_default_def split: option.split)
qed (simp add: or_default_def)

lemma seal_status: "seal_inputs cy fs = Inr gs \<Longrightarrow> status_in gs = status_in fs"
proof (induction fs arbitrary: gs)
  case (Cons f fs)
  then show ?case by (cases f) (auto simp: bindE_def split: sum.splits if_splits option.splits)
qed simp

text \<open>What a request does to the tables.\<close>

lemma snd_on_webhook: "snd (on_webhook rq cx k st) = snd (on_item webhook_table ''Webhook'' class_extra rq cx k st)"
  by (simp add: on_webhook_def on_item_def)

lemma webhook_handler_access: "ap_access (snd (webhook_handler cy env rq op cx st)) = ap_access st"
proof -
  have insert: "ap_access st1 = ap_access st" if "insert_webhook w st = Inr st1" for w st1
    using insert_webhook_ok [OF that] by simp
  have make: "ap_access (snd (create_webhook cy env rq cx b st)) = ap_access st" for b
    by (auto simp: create_webhook_def Let_def intro!: conclude_access dest: insert split: option.split sum.split)
  have patch: "ap_access (snd (patch_webhook cy env rq cx fs org i w st)) = ap_access st" for fs org i w
    by (auto simp: patch_webhook_def Let_def intro!: trans [OF conclude_access] split: sum.split)
  have remove: "ap_access (snd (delete_webhook env rq cx org i w st)) = ap_access st" for org i w
    unfolding delete_webhook_def by (rule move_item_access) simp
  have item: "ap_access (snd (on_webhook rq cx k st)) = ap_access st"
    if "\<And>org i w. ap_access (snd (k org i w st)) = ap_access st" for k
    unfolding snd_on_webhook by (rule on_item_cases) (simp_all add: that)
  show ?thesis
    by (cases op) (simp_all add: make item patch remove show_webhook_def webhook_transitions_def)
qed

lemma create_webhook_appends:
  "\<exists>new. db_webhooks (ap_db (snd (create_webhook cy env rq cx b st))) = db_webhooks (ap_db st) @ new
    \<and> (\<forall>w \<in> set new. wh_status w = ''created'' \<and> wh_id w \<in> range (av_id env ''webhooks''))"
  by (auto simp: create_webhook_def Let_def conclude_def with_audit_def bindE_def add_audit_def
      split: option.split sum.splits dest!: insert_webhook_ok)

lemma webhook_route_appends:
  assumes "ids_apart webhook_table st"
  shows "\<exists>new. et_rows webhook_table (snd (webhook_route url_ok cy env rid (rq, op) st)) = et_rows webhook_table st @ new
    \<and> (\<forall>w \<in> set new. wh_status w = ''created'' \<and> wh_id w \<in> range (av_id env ''webhooks''))"
  unfolding webhook_route_def prod.case
proof (cases op)
  case (MakeWebhook b)
  show "\<exists>new. et_rows webhook_table (snd (serve env rid (webhook_guards op) rq (webhook_op_ok url_ok op) (webhook_handler cy env rq op) st))
      = et_rows webhook_table st @ new \<and> (\<forall>w \<in> set new. wh_status w = ''created'' \<and> wh_id w \<in> range (av_id env ''webhooks''))"
    by (rule hooks.serve_new_appends) (simp add: MakeWebhook create_webhook_appends)
qed (simp_all only: webhook_guards.simps,
     (rule hooks.serve_item_appends [OF assms], simp, simp add: snd_on_webhook)+)

interpretation hook_calls: closed_router webhook_table env "''webhooks''" "webhook_route url_ok cy env" "\<lambda>w. wh_status w = ''created''"
  for env url_ok cy
proof
  fix rid and x :: "request \<times> webhook_op" and st
  obtain rq op where x: "x = (rq, op)" by (cases x)
  show "ac_orgs (ap_access (snd (webhook_route url_ok cy env rid x st))) = ac_orgs (ap_access st)"
    unfolding webhook_route_def x prod.case by (rule serve_orgs) (rule webhook_handler_access)
  assume "ids_apart webhook_table st"
  then show "\<exists>new. et_rows webhook_table (snd (webhook_route url_ok cy env rid x st)) = et_rows webhook_table st @ new
      \<and> (\<forall>w \<in> set new. wh_status w = ''created'' \<and> et_id webhook_table w \<in> range (av_id env ''webhooks''))"
    using webhook_route_appends by (simp add: x)
qed

lemma deliver_requests_rows: "fst (deliver_all net now ws e d) = fst (deliver_all net now ws e d')"
proof (induction ws arbitrary: d d')
  case (Cons w ws)
  have "fst (deliverWebhook net now w e d) = fst (deliverWebhook net now w e d')"
    by (simp add: deliverWebhook_def Let_def split: option.split)
  with Cons.IH show ?case by (simp add: split_beta Let_def)
qed simp

section \<open>Properties\<close>

text \<open>
  A webhook that is made through the API never hears of anything: it starts as created, only an update makes it active, and
  the routes of one webhook take its identifier for an organization. Whatever requests arrive, an event is delivered to
  whom it was delivered before.
\<close>

theorem made_webhooks_silent:
  assumes "ids_stay_apart env ''webhooks'' webhook_table st"
  shows "fst (dispatchToWebhooks net now e (ap_db (run_requests (webhook_route url_ok cy env) xs st)))
    = fst (dispatchToWebhooks net now e (ap_db st))"
proof -
  from hook_calls.run_appends [OF assms, where url_ok = url_ok and cy = cy and xs = xs] obtain new where
    "db_webhooks (ap_db (run_requests (webhook_route url_ok cy env) xs st)) = db_webhooks (ap_db st) @ new"
    and new: "\<forall>w \<in> set new. wh_status w = ''created''" by auto
  moreover from new have "filter (\<lambda>w. wh_orgId w = ep_orgId e \<and> wh_status w = ''active'' \<and> ep_eventName e \<in> set (wh_events w)) new = []"
    by (auto simp: filter_empty_conv)
  ultimately show ?thesis unfolding dispatchToWebhooks_def by (simp only: filter_append append_Nil2) (rule deliver_requests_rows)
qed

text \<open>
  The update would move the status along the machine: with distinct identifiers, each handler takes the table by the steps
  that the machine of webhooks allows, and new webhooks are created.
\<close>

theorem webhook_handlers_follow_machine:
  assumes "distinct (map wh_id (db_webhooks (ap_db st)))"
  shows "key_steps SM_webhook {''created''} (keys_of webhook_table st) (keys_of webhook_table (snd (webhook_handler cy env rq op cx st)))"
proof -
  have make: "key_steps SM_webhook {''created''} (keys_of webhook_table st) (keys_of webhook_table (snd (create_webhook cy env rq cx b st)))" for b
  proof -
    have "key_steps SM_webhook {''created''} (keys_of webhook_table st) (keys_of webhook_table st1)"
      if "insert_webhook w st = Inr st1" "wh_status w = ''created''" for w st1
      using insert_webhook_ok [OF that(1)] that(2) by (intro hooks.append_steps [of _ _ w]) auto
    then show ?thesis by (auto simp: create_webhook_def Let_def intro!: hooks.write_steps split: option.split sum.split)
  qed
  have patch: "key_steps SM_webhook {''created''} (keys_of webhook_table st) (keys_of webhook_table (snd (patch_webhook cy env rq cx fs org i w st)))"
    if w: "find_entity webhook_table st org i = Some w" for fs org i w
  proof -
    let ?t = "or_default (status_in fs) (wh_status w)"
    have mem: "(i, wh_status w) \<in> set (keys_of webhook_table st)" using find_entity_key [OF w] by simp
    have "distinct (map fst (keys_of webhook_table st))" using assms by (simp add: keys_of_def comp_def)
    with mem have same: "set_key i (wh_status w) (keys_of webhook_table st) = keys_of webhook_table st"
      unfolding set_key_def by (intro map_idI) (auto dest: eq_key_imp_eq_value)
    have "key_steps SM_webhook {''created''} (keys_of webhook_table st) (set_key i ?t (keys_of webhook_table st))"
      if "status_events env cx org i (wh_status w) (status_in fs) = Inr es" for es
    proof (cases "?t = wh_status w")
      case True
      with same show ?thesis by simp
    next
      case False
      with that have "step_ok SM_webhook (wh_status w) ?t"
        by (auto simp: status_events_def step_ok_def bindE_def or_default_def split: option.splits if_splits sum.splits)
      from key_step.move [OF mem this] show ?thesis by (rule r_into_rtranclp)
    qed
    moreover have "keys_of webhook_table (write_db (upd_webhooks i (\<lambda>q. (fold set_webhook_field gs q)\<lparr>wh_updatedAt := av_now env\<rparr>)) (record_events es st))
        = set_key i ?t (keys_of webhook_table st)" if sealed: "seal_inputs cy fs = Inr gs" for gs es
    proof (cases "status_in fs")
      case None
      with same show ?thesis
        using hooks.keys_frame [of "\<lambda>q. (fold set_webhook_field gs q)\<lparr>wh_updatedAt := av_now env\<rparr>" i "record_events es st"]
        by (simp add: set_webhook_id set_webhook_status seal_status [OF sealed] or_default_def)
    next
      case (Some t)
      then show ?thesis
        using hooks.keys_update [of "\<lambda>q. (fold set_webhook_field gs q)\<lparr>wh_updatedAt := av_now env\<rparr>" t i "record_events es st"]
        by (simp add: set_webhook_id set_webhook_status seal_status [OF sealed] or_default_def)
    qed
    ultimately have written: "key_steps SM_webhook {''created''} (keys_of webhook_table st)
        (keys_of webhook_table (write_db (upd_webhooks i (\<lambda>q. (fold set_webhook_field gs q)\<lparr>wh_updatedAt := av_now env\<rparr>)) (record_events es st)))"
      if "status_events env cx org i (wh_status w) (status_in fs) = Inr es" "seal_inputs cy fs = Inr gs" for es gs
      using that by simp
    have "key_steps SM_webhook {''created''} (keys_of webhook_table (record_events es st))
        (keys_of webhook_table (snd (patch_webhook cy env rq cx fs org i w st)))"
      if "status_events env cx org i (wh_status w) (status_in fs) = Inr es" "seal_inputs cy fs = Inr gs" for es gs
      unfolding patch_webhook_def that sum.case Let_def webhook_table_simps
      by (rule hooks.write_steps) (use written [OF that] in auto)
    then show ?thesis
      by (cases "status_events env cx org i (wh_status w) (status_in fs)"; cases "seal_inputs cy fs")
        (simp_all add: patch_webhook_def Let_def)
  qed
  have remove: "key_steps SM_webhook {''created''} (keys_of webhook_table st) (keys_of webhook_table (snd (delete_webhook env rq cx org i w st)))"
    if "find_entity webhook_table st org i = Some w" for org i w
    unfolding delete_webhook_def by (intro hooks.move_steps [OF that, simplified webhook_table_simps]) simp
  have item: "key_steps SM_webhook {''created''} (keys_of webhook_table st) (keys_of webhook_table (snd (on_webhook rq cx k st)))"
    if "\<And>org i w. find_entity webhook_table st org i = Some w \<Longrightarrow>
      key_steps SM_webhook {''created''} (keys_of webhook_table st) (keys_of webhook_table (snd (k org i w st)))" for k
    unfolding snd_on_webhook by (rule on_item_steps) (rule that)
  show ?thesis
    by (cases op) (simp_all add: make item patch remove show_webhook_def webhook_transitions_def)
qed

text \<open>
  C30: an active webhook could not check the signature of what it gets: the answer to the creation shows the secret once, the
  table holds its encryption, and the delivery signs with what the table holds.
\<close>

theorem signed_with_cipher:
  assumes "create_webhook cy env rq cx b st = (Inr (201, Row (WebhookMade v (Some raw))), st')" and "encrypt cy None raw = Inr c"
    and "q \<in> set (fst (deliverWebhook net now ((last (db_webhooks (ap_db st')))\<lparr>wh_status := ''active''\<rparr>) e d))"
  shows "map_of (wq_headers q) ''X-Signature-256'' = Some (ne_hmac net c (webhook_payload e))"
proof -
  from assms(1,2) have "wh_secret (last (db_webhooks (ap_db st'))) = Some c"
    by (auto simp: create_webhook_def Let_def conclude_def with_audit_def bindE_def add_audit_def sealed_def
        split: option.splits sum.splits dest!: insert_webhook_ok)
  moreover from assms(2) have "truthy (Some c) = Some c"
    by (auto simp: truthy_def encrypt_def Let_def bindE_def split: list.split sum.splits)
  ultimately show ?thesis using assms(3) by (auto simp: deliverWebhook_def Let_def split: option.splits if_splits)
qed

text \<open>And the log of the organization keeps a new secret as it was sent: the audit entry of an update holds the body.\<close>

theorem update_logs_secret:
  assumes "patch_webhook cy env rq cx fs org i w st = (Inr (200, a), st')" and "WSecret s \<in> set fs"
  shows "\<exists>details. au_details (last (db_audits (ap_db st'))) = Some (JObj details) \<and> (''secret'', JStr s) \<in> set details"
  using assms
  by (force simp: patch_webhook_def Let_def conclude_def with_audit_def bindE_def add_audit_def audit_entry_def entity_spec_def
      split: option.splits sum.splits if_splits)

subsection \<open>Witnesses\<close>

abbreviation sample_hook_env :: api_env where
  "sample_hook_env \<equiv> \<lparr>av_access = sample_access_env, av_id = (\<lambda>t n. t), av_staleness = None\<rparr>"

abbreviation sample_hook_body :: webhook_body where
  "sample_hook_body \<equiv> \<lparr>wb_name = ''n'', wb_url = ''https://h'', wb_secret = Some ''p'', wb_events = [''blob.renewed'']\<rparr>"

definition sample_hook_state :: api_state where
  "sample_hook_state =
     \<lparr>ap_access = sample_db,
      ap_db = empty_db\<lparr>db_webhooks := [(new_webhook ''w'' 0 ''o'' ''W'' ''https://w'')\<lparr>wh_status := ''active'', wh_events := [''blob.renewed'']\<rparr>]\<rparr>,
      ap_projects = [], ap_delegations = [], ap_events = [], ap_invitations = []\<rparr>"

abbreviation sample_net :: net_env where
  "sample_net \<equiv> \<lparr>ne_parse_url = (\<lambda>u. Some \<lparr>u_protocol = ''https:'', u_hostname = ''h''\<rparr>), ne_is_ip = (\<lambda>h. False),
     ne_lookup = (\<lambda>h. None), ne_hmac = (\<lambda>k p. k), ne_http = (\<lambda>u. Some 200)\<rparr>"

theorem made_webhooks_silent_witness:
  "fst (dispatchToWebhooks sample_net 9 (createEvent 5 ''blob.renewed'' (sample_uuid CHR ''1'') ''blob'' ''b'' ActSystem None None)
     (ap_db (run_requests (webhook_route (\<lambda>u. True) sample_cipher_env sample_hook_env)
       [(''r'', sample_request None, MakeWebhook sample_hook_body)] sample_hook_state))) = []"
proof -
  have "ids_stay_apart sample_hook_env ''webhooks'' webhook_table sample_hook_state"
    by (simp add: ids_stay_apart_def ids_apart_def sample_hook_state_def sample_orgs_def sample_access_def sample_org_def sample_uuid_def)
  show ?thesis unfolding made_webhooks_silent [OF \<open>ids_stay_apart sample_hook_env ''webhooks'' webhook_table sample_hook_state\<close>]
    by (simp add: dispatchToWebhooks_def sample_hook_state_def new_webhook_def createEvent_def sample_uuid_def)
qed

theorem webhook_handlers_follow_machine_witness:
  "key_steps SM_webhook {''created''} (keys_of webhook_table sample_hook_state)
     (keys_of webhook_table (snd (webhook_handler sample_cipher_env sample_hook_env (sample_request None) (MakeWebhook sample_hook_body) owner_vars sample_hook_state)))"
  by (rule webhook_handlers_follow_machine) (simp add: sample_hook_state_def new_webhook_def)

lemma sample_hook_made:
  "\<exists>v st'. create_webhook sample_cipher_env sample_hook_env (sample_request None) owner_vars sample_hook_body sample_hook_state
    = (Inr (201, Row (WebhookMade v (Some ''p''))), st')"
  using sample_uuid_ok sample_encrypt(1)
  by (simp add: create_webhook_def sealed_def truthy_def Let_def conclude_def with_audit_def insert_webhook_def sample_hook_state_def
      audit_entry_def bindE_def new_webhook_def sample_uuid_eq)

theorem signed_with_cipher_witness:
  "\<exists>v st' (q :: webhook_request). create_webhook sample_cipher_env sample_hook_env (sample_request None) owner_vars sample_hook_body sample_hook_state
      = (Inr (201, Row (WebhookMade v (Some ''p''))), st') \<and> map_of (wq_headers q) ''X-Signature-256'' = Some ''1:0:a:7''"
proof -
  obtain v st' where made: "create_webhook sample_cipher_env sample_hook_env (sample_request None) owner_vars sample_hook_body sample_hook_state
      = (Inr (201, Row (WebhookMade v (Some ''p''))), st')" using sample_hook_made by blast
  let ?e = "createEvent 5 ''blob.renewed'' ''o'' ''blob'' ''b'' ActSystem None None"
  have "fst (deliverWebhook sample_net 9 ((last (db_webhooks (ap_db st')))\<lparr>wh_status := ''active''\<rparr>) ?e empty_db) \<noteq> []"
    by (simp add: deliverWebhook_def isInternalHostname_def Let_def)
  then obtain q where "q \<in> set (fst (deliverWebhook sample_net 9 ((last (db_webhooks (ap_db st')))\<lparr>wh_status := ''active''\<rparr>) ?e empty_db))"
    by (meson last_in_set)
  from signed_with_cipher [OF made sample_encrypt(1) this] made show ?thesis by auto
qed

theorem update_logs_secret_witness:
  "\<exists>a st' details. patch_webhook sample_cipher_env sample_hook_env (sample_request None) owner_vars [WSecret ''p''] ''o'' ''w''
       (hd (db_webhooks (ap_db sample_hook_state))) sample_hook_state = (Inr (200, a), st')
     \<and> au_details (last (db_audits (ap_db st'))) = Some (JObj details) \<and> (''secret'', JStr ''p'') \<in> set details"
proof -
  obtain a st' where "patch_webhook sample_cipher_env sample_hook_env (sample_request None) owner_vars [WSecret ''p''] ''o'' ''w''
       (hd (db_webhooks (ap_db sample_hook_state))) sample_hook_state = (Inr (200, a), st')"
    using sample_uuid_ok sample_encrypt(1)
    by (simp add: patch_webhook_def status_events_def Let_def conclude_def with_audit_def audit_entry_def bindE_def sample_uuid_eq)
  from update_logs_secret [OF this] this show ?thesis by auto
qed

end
