(* ===== verification/Route_Beside.thy ===== *)
theory Route_Beside
  imports Route_Base
begin

text \<open>
  The pipeline of \<open>Route_Base\<close> for routers over tables of their own, which stand beside the state of the other routers.
\<close>

type_synonym ('t, 'b) beside = "(thrown + int \<times> 'b body) \<times> (api_state \<times> 't)"

definition serve_beside ::
    "api_env \<Rightarrow> string \<Rightarrow> guard list \<Rightarrow> request \<Rightarrow> bool \<Rightarrow> (request_vars \<Rightarrow> api_state \<times> 't \<Rightarrow> ('t, 'b) beside)
     \<Rightarrow> api_state \<times> 't \<Rightarrow> 'b body reply \<times> (api_state \<times> 't)" where
  "serve_beside env rid guards rq body_ok h s =
     (case run_guards (av_access env) rq guards (fresh_vars rid, ap_access (fst s)) of
        Respond r \<Rightarrow> (Refused r, s)
      | Throws e \<Rightarrow> (Failed e, s)
      | Pass (cx, d) \<Rightarrow>
          (let s' = ((fst s)\<lparr>ap_access := d\<rparr>, snd s)
           in if \<not> body_ok then (Invalid, s')
              else (case h cx s' of (Inl e, s1) \<Rightarrow> (Failed e, s1) | (Inr a, s1) \<Rightarrow> (Answered a, s1))))"

lemma serve_beside_cases:
  assumes "P s" and "\<And>cx d. run_guards (av_access env) rq gs (fresh_vars rid, ap_access (fst s)) = Pass (cx, d) \<Longrightarrow>
    P ((fst s)\<lparr>ap_access := d\<rparr>, snd s) \<and> (ok \<longrightarrow> P (snd (h cx ((fst s)\<lparr>ap_access := d\<rparr>, snd s))))"
  shows "P (snd (serve_beside env rid gs rq ok h s))"
  using assms by (auto simp: serve_beside_def Let_def split: outcome.split prod.split sum.split)

end
