(* ===== verification/Schedule_Routes.thy ===== *)
theory Schedule_Routes
  imports Route_Beside Scheduler
begin

text \<open>
  The schedules of an organization, \<open>api/src/routes/schedules.ts\<close>: creation and item routes, over the table the scheduler of
  \<open>keeper/src/scheduler.ts\<close> reads. The lists of schedules and of runs are left out. The table stands beside the state of the
  other routers; \<open>schedule_config_of\<close> is the row as the keeper selects it.
\<close>

section \<open>Inputs\<close>

definition SYSTEM_MIN_INTERVAL_MS :: int where
  "SYSTEM_MIN_INTERVAL_MS = 60000"

definition SYSTEM_MAX_STALENESS_MS :: int where
  "SYSTEM_MAX_STALENESS_MS = 86400000"

datatype schedule_input =
    ScName string | ScCron string | ScEnabled bool | ScMinInterval int | ScMaxStaleness int | ScConfig json

fun schedule_key :: "schedule_input \<Rightarrow> string" where
  "schedule_key (ScName _) = ''name''"
| "schedule_key (ScCron _) = ''cronExpr''"
| "schedule_key (ScEnabled _) = ''enabled''"
| "schedule_key (ScMinInterval _) = ''minIntervalMs''"
| "schedule_key (ScMaxStaleness _) = ''maxStalenessMs''"
| "schedule_key (ScConfig _) = ''config''"

fun schedule_value :: "schedule_input \<Rightarrow> json" where
  "schedule_value (ScName s) = JStr s"
| "schedule_value (ScCron s) = JStr s"
| "schedule_value (ScEnabled b) = JBool b"
| "schedule_value (ScMinInterval n) = JNum n"
| "schedule_value (ScMaxStaleness n) = JNum n"
| "schedule_value (ScConfig c) = c"

fun set_schedule_field :: "schedule_input \<Rightarrow> schedule_row \<Rightarrow> schedule_row" where
  "set_schedule_field (ScName s) r = r\<lparr>sc_name := s\<rparr>"
| "set_schedule_field (ScCron s) r = r\<lparr>sc_cronExpr := s\<rparr>"
| "set_schedule_field (ScEnabled b) r = r\<lparr>sc_enabled := b\<rparr>"
| "set_schedule_field (ScMinInterval n) r = r\<lparr>sc_minIntervalMs := Some n\<rparr>"
| "set_schedule_field (ScMaxStaleness n) r = r\<lparr>sc_maxStalenessMs := Some n\<rparr>"
| "set_schedule_field (ScConfig c) r = r\<lparr>sc_config := Some c\<rparr>"

fun schedule_field_ok :: "schedule_input \<Rightarrow> bool" where
  "schedule_field_ok (ScName s) = (1 \<le> length s \<and> length s \<le> 255)"
| "schedule_field_ok (ScCron s) = (s \<noteq> [])"
| "schedule_field_ok (ScEnabled b) = True"
| "schedule_field_ok (ScMinInterval n) = (SYSTEM_MIN_INTERVAL_MS \<le> n)"
| "schedule_field_ok (ScMaxStaleness n) = (0 \<le> n \<and> n \<le> SYSTEM_MAX_STALENESS_MS)"
| "schedule_field_ok (ScConfig c) = (case c of JObj _ \<Rightarrow> True | _ \<Rightarrow> False)"

definition schedule_patch_ok :: "schedule_input list \<Rightarrow> bool" where
  "schedule_patch_ok fs \<longleftrightarrow> list_all schedule_field_ok fs \<and> distinct (map schedule_key fs)"

text \<open>A creation needs name and expression and takes no \<open>enabled\<close>.\<close>

definition schedule_body_ok :: "schedule_input list \<Rightarrow> bool" where
  "schedule_body_ok fs \<longleftrightarrow> schedule_patch_ok fs \<and> {''name'', ''cronExpr''} \<subseteq> set (map schedule_key fs)
     \<and> ''enabled'' \<notin> set (map schedule_key fs)"

section \<open>State\<close>

type_synonym schedule_state = "api_state \<times> schedule_row list"

definition new_schedule :: "string \<Rightarrow> int \<Rightarrow> string \<Rightarrow> schedule_row" where
  "new_schedule i now org =
     \<lparr>sc_id = i, sc_orgId = org, sc_name = '''', sc_type = ''user'', sc_cronExpr = '''', sc_lastRunAt = None,
      sc_lastCompletedAt = None, sc_enabled = True, sc_minIntervalMs = Some SYSTEM_MIN_INTERVAL_MS,
      sc_maxStalenessMs = Some SYSTEM_MAX_STALENESS_MS, sc_config = Some (JObj []), sc_status = ''active'',
      sc_deletedAt = None, sc_createdAt = now, sc_updatedAt = now\<rparr>"

definition schedule_config_of :: "schedule_row \<Rightarrow> schedule_config" where
  "schedule_config_of r =
     \<lparr>sk_id = sc_id r, sk_orgId = sc_orgId r, sk_name = sc_name r, sk_cronExpr = sc_cronExpr r, sk_lastRunAt = sc_lastRunAt r,
      sk_lastCompletedAt = sc_lastCompletedAt r, sk_enabled = sc_enabled r, sk_status = Some (sc_status r),
      sk_minIntervalMs = sc_minIntervalMs r, sk_maxStalenessMs = sc_maxStalenessMs r,
      sk_config = (case sc_config r of Some c \<Rightarrow> c | None \<Rightarrow> JNull), sk_critical = None, sk_updatedAt = sc_updatedAt r\<rparr>"

type_synonym 'b on_schedules = "(schedule_row list, 'b) beside"

text \<open>A write with its audit entry: both or none.\<close>

definition write_schedules ::
    "api_env \<Rightarrow> request \<Rightarrow> request_vars \<Rightarrow> audit_spec \<Rightarrow> string \<Rightarrow> (schedule_row list \<Rightarrow> schedule_row list) \<Rightarrow> int \<times> 'b body
     \<Rightarrow> schedule_state \<Rightarrow> 'b on_schedules" where
  "write_schedules env rq cx spec i f ans s =
     (case s of (st, rows) \<Rightarrow>
        (case with_audit env rq cx Inr spec i st of
           Inl e \<Rightarrow> (Inl e, st, rows)
         | Inr st' \<Rightarrow> (Inr ans, st', f rows)))"

definition upd_schedule_rows :: "string \<Rightarrow> (schedule_row \<Rightarrow> schedule_row) \<Rightarrow> schedule_row list \<Rightarrow> schedule_row list" where
  "upd_schedule_rows i f rows = sql_update (\<lambda>r. sc_id r = i) f rows"

definition schedule_json :: "schedule_input list \<Rightarrow> json" where
  "schedule_json fs = JObj (map (\<lambda>f. (schedule_key f, schedule_value f)) fs)"

section \<open>Handlers\<close>

definition create_schedule ::
    "api_env \<Rightarrow> request \<Rightarrow> request_vars \<Rightarrow> schedule_input list \<Rightarrow> schedule_state \<Rightarrow> schedule_row on_schedules" where
  "create_schedule env rq cx fs s =
     (case s of (st, rows) \<Rightarrow>
        (case cx_orgId cx of
           None \<Rightarrow> (Inl undefined_arg, s)
         | Some org \<Rightarrow>
             (let i = av_id env ''schedules'' (length rows);
                  r = fold set_schedule_field fs (new_schedule i (av_now env) org)
              in if \<exists>x \<in> set rows. sc_orgId x = org \<and> sc_name x = sc_name r
                 then (Inr (api_error [] 409 ''Schedule with this name already exists'' ''CONFLICT''), s)
                 else if i \<in> sc_id ` set rows then (Inl (duplicate_key ''schedules_pkey''), s)
                 else write_schedules env rq cx
                        (entity_spec ''schedule'' ''schedule.created'' (Some (JObj [(''name'', JStr (sc_name r))]))) i
                        (\<lambda>rs. rs @ [r]) (201, Row r) s)))"

definition on_schedule ::
    "request \<Rightarrow> request_vars \<Rightarrow> (string \<Rightarrow> schedule_row \<Rightarrow> schedule_state \<Rightarrow> schedule_row on_schedules) \<Rightarrow> schedule_state
     \<Rightarrow> schedule_row on_schedules" where
  "on_schedule rq cx k s =
     (case truthy (rq_param rq ''id'') of
        None \<Rightarrow> (Inr (api_error [] 400 ''Schedule ID is required'' ''VALIDATION_ERROR''), s)
      | Some i \<Rightarrow>
          (case cx_orgId cx of
             None \<Rightarrow> (Inl undefined_arg, s)
           | Some org \<Rightarrow>
               if \<not> is_uuid i then (Inl (uuid_error i), s)
               else (case first_row (filter (\<lambda>r. sc_id r = i \<and> sc_orgId r = org) (snd s)) of
                       None \<Rightarrow> (Inr (api_error [] 404 ''Schedule not found'' ''NOT_FOUND''), s)
                     | Some r \<Rightarrow> k i r s)))"

definition show_schedule :: "string \<Rightarrow> schedule_row \<Rightarrow> schedule_state \<Rightarrow> schedule_row on_schedules" where
  "show_schedule i r s = (Inr (200, Row r), s)"

definition patch_schedule ::
    "api_env \<Rightarrow> request \<Rightarrow> request_vars \<Rightarrow> schedule_input list \<Rightarrow> string \<Rightarrow> schedule_row \<Rightarrow> schedule_state
     \<Rightarrow> schedule_row on_schedules" where
  "patch_schedule env rq cx fs i r s =
     (if sc_type r = ''system'' then (Inr (api_error [] 403 ''System schedules are not user-configurable'' ''FORBIDDEN''), s)
      else
        (let f = (\<lambda>x. (fold set_schedule_field fs x)\<lparr>sc_updatedAt := av_now env\<rparr>)
         in write_schedules env rq cx (entity_spec ''schedule'' ''schedule.updated'' (Some (schedule_json fs))) i
              (upd_schedule_rows i f) (200, Row (f r)) s))"

definition move_schedule ::
    "api_env \<Rightarrow> request \<Rightarrow> request_vars \<Rightarrow> string \<Rightarrow> string \<Rightarrow> (schedule_row \<Rightarrow> schedule_row) \<Rightarrow> (schedule_row \<Rightarrow> int \<times> schedule_row body)
     \<Rightarrow> string \<Rightarrow> schedule_row \<Rightarrow> schedule_state \<Rightarrow> schedule_row on_schedules" where
  "move_schedule env rq cx target event upd ans i r s =
     (case validateTransition loaded_machines SM_schedule (or_default (truthy (Some (sc_status r))) ''active'') target False of
        Inl e \<Rightarrow> (Inl e, s)
      | Inr _ \<Rightarrow>
          (let f = (\<lambda>x. (upd x)\<lparr>sc_status := target, sc_updatedAt := av_now env\<rparr>)
           in write_schedules env rq cx (entity_spec ''schedule'' event None) i (upd_schedule_rows i f) (ans (f r)) s))"

definition pause_schedule where
  "pause_schedule env rq cx = move_schedule env rq cx ''paused'' ''schedule.paused'' id (\<lambda>r. (200, Row r))"

definition activate_schedule where
  "activate_schedule env rq cx = move_schedule env rq cx ''active'' ''schedule.activated'' id (\<lambda>r. (200, Row r))"

definition delete_schedule ::
    "api_env \<Rightarrow> request \<Rightarrow> request_vars \<Rightarrow> string \<Rightarrow> schedule_row \<Rightarrow> schedule_state \<Rightarrow> schedule_row on_schedules" where
  "delete_schedule env rq cx i r s =
     (if sc_type r = ''system'' then (Inr (api_error [] 403 ''Cannot delete system schedules'' ''FORBIDDEN''), s)
      else move_schedule env rq cx ''deleted'' ''schedule.deleted''
             (\<lambda>x. x\<lparr>sc_deletedAt := Some (av_now env), sc_enabled := False\<rparr>) (\<lambda>_. say ''Schedule deleted'') i r s)"

section \<open>Routes\<close>

datatype schedule_op =
    MakeSchedule "schedule_input list" | ShowSchedule | PatchSchedule "schedule_input list" | PauseSchedule | ActivateSchedule
  | RemoveSchedule

fun schedule_handler ::
    "api_env \<Rightarrow> request \<Rightarrow> schedule_op \<Rightarrow> request_vars \<Rightarrow> schedule_state \<Rightarrow> schedule_row on_schedules" where
  "schedule_handler env rq (MakeSchedule fs) cx s = create_schedule env rq cx fs s"
| "schedule_handler env rq ShowSchedule cx s = on_schedule rq cx show_schedule s"
| "schedule_handler env rq (PatchSchedule fs) cx s = on_schedule rq cx (patch_schedule env rq cx fs) s"
| "schedule_handler env rq PauseSchedule cx s = on_schedule rq cx (pause_schedule env rq cx) s"
| "schedule_handler env rq ActivateSchedule cx s = on_schedule rq cx (activate_schedule env rq cx) s"
| "schedule_handler env rq RemoveSchedule cx s = on_schedule rq cx (delete_schedule env rq cx) s"

fun schedule_guards :: "schedule_op \<Rightarrow> guard list" where
  "schedule_guards ShowSchedule = [GAuth, GOrg]"
| "schedule_guards _ = [GAuth, GOrg, GRole [''owner'', ''admin'']]"

fun schedule_op_ok :: "schedule_op \<Rightarrow> bool" where
  "schedule_op_ok (MakeSchedule fs) = schedule_body_ok fs"
| "schedule_op_ok (PatchSchedule fs) = schedule_patch_ok fs"
| "schedule_op_ok _ = True"

definition schedule_route ::
    "api_env \<Rightarrow> string \<Rightarrow> request \<times> schedule_op \<Rightarrow> schedule_state \<Rightarrow> schedule_row body reply \<times> schedule_state" where
  "schedule_route env rid x s =
     (case x of (rq, op) \<Rightarrow> serve_beside env rid (schedule_guards op) rq (schedule_op_ok op) (schedule_handler env rq op) s)"

section \<open>Facts\<close>

lemma set_schedule_frame [simp]:
  "sc_id (fold set_schedule_field fs r) = sc_id r \<and> sc_orgId (fold set_schedule_field fs r) = sc_orgId r
   \<and> sc_type (fold set_schedule_field fs r) = sc_type r
   \<and> sc_lastCompletedAt (fold set_schedule_field fs r) = sc_lastCompletedAt r"
proof (induction fs arbitrary: r)
  case (Cons f fs)
  then show ?case by (cases f) simp_all
qed simp

text \<open>What every write keeps of a row, every request keeps of the table.\<close>

lemma schedule_route_keeps:
  assumes rows: "\<forall>r \<in> set (snd s). Q r"
    and made: "\<And>fs i now org. list_all schedule_field_ok fs \<Longrightarrow> Q (fold set_schedule_field fs (new_schedule i now org))"
    and patched: "\<And>fs r t. list_all schedule_field_ok fs \<Longrightarrow> Q r \<Longrightarrow> Q ((fold set_schedule_field fs r)\<lparr>sc_updatedAt := t\<rparr>)"
    and moved: "\<And>r a t. Q r \<Longrightarrow> Q (r\<lparr>sc_status := a, sc_updatedAt := t\<rparr>)"
    and removed: "\<And>r d e a t. Q r \<Longrightarrow> Q (r\<lparr>sc_deletedAt := d, sc_enabled := e, sc_status := a, sc_updatedAt := t\<rparr>)"
  shows "\<forall>r \<in> set (snd (snd (schedule_route env rid x s))). Q r"
proof -
  have upd: "\<forall>r \<in> set (upd_schedule_rows i f rows). Q r" if "\<forall>r \<in> set rows. Q r" "\<And>r. Q r \<Longrightarrow> Q (f r)" for i f rows
    using that by (auto simp: upd_schedule_rows_def sql_update_def)
  have written: "\<forall>r \<in> set (snd (snd (write_schedules env rq cx spec i f ans s1))). Q r"
    if "\<forall>r \<in> set (snd s1). Q r" "\<forall>r \<in> set (f (snd s1)). Q r" for rq cx spec i f s1 and ans :: "int \<times> schedule_row body"
    using that by (auto simp: write_schedules_def split: prod.split sum.split)
  have move: "\<forall>r \<in> set (snd (snd (move_schedule env rq cx target ev u ans i r s1))). Q r"
    if "\<forall>r \<in> set (snd s1). Q r" "\<And>r. Q r \<Longrightarrow> Q ((u r)\<lparr>sc_status := target, sc_updatedAt := av_now env\<rparr>)" for rq cx target ev u ans i r s1
    unfolding move_schedule_def Let_def
    by (cases "validateTransition loaded_machines SM_schedule (or_default (truthy (Some (sc_status r))) ''active'') target False")
      (simp_all only: sum.case, (simp add: that(1); fail), (rule written [OF that(1)], rule upd [OF that(1)], rule that(2), assumption))
  have item: "\<forall>r \<in> set (snd (snd (on_schedule rq cx k s1))). Q r"
    if "\<forall>r \<in> set (snd s1). Q r" "\<And>i r. \<forall>r \<in> set (snd (snd (k i r s1))). Q r" for rq cx k s1
    using that by (auto simp: on_schedule_def split: option.split)
  have handled: "\<forall>r \<in> set (snd (snd (schedule_handler env rq op cx s1))). Q r"
    if s1: "\<forall>r \<in> set (snd s1). Q r" and ok: "schedule_op_ok op" for rq op cx s1
  proof (cases op)
    case (MakeSchedule fs)
    with ok have "list_all schedule_field_ok fs" by (simp add: schedule_body_ok_def schedule_patch_ok_def)
    from s1 made [OF this] have "\<forall>r \<in> set (snd (snd (write_schedules env rq cx spec i (\<lambda>rs. rs @ [fold set_schedule_field fs (new_schedule j t org)]) ans s1))). Q r"
      for spec i j t org and ans :: "int \<times> schedule_row body" by (intro written) auto
    with s1 show ?thesis by (cases s1) (simp add: MakeSchedule create_schedule_def Let_def split: option.split)
  next
    case (PatchSchedule fs)
    with ok have fields: "list_all schedule_field_ok fs" by (simp add: schedule_patch_ok_def)
    have "\<forall>r \<in> set (snd (snd (patch_schedule env rq cx fs i r s1))). Q r" for i r
    proof (cases "sc_type r = ''system''")
      case False
      show ?thesis unfolding patch_schedule_def Let_def if_not_P [OF False]
        by (rule written [OF s1], rule upd [OF s1], rule patched [OF fields])
    qed (simp add: patch_schedule_def s1)
    then show ?thesis unfolding PatchSchedule schedule_handler.simps by (rule item [OF s1])
  next
    case RemoveSchedule
    have "\<forall>r \<in> set (snd (snd (delete_schedule env rq cx i r s1))). Q r" for i r
    proof (cases "sc_type r = ''system''")
      case False
      show ?thesis unfolding delete_schedule_def if_not_P [OF False] by (rule move [OF s1]) (simp add: removed)
    qed (simp add: delete_schedule_def s1)
    then show ?thesis unfolding RemoveSchedule schedule_handler.simps by (rule item [OF s1])
  next
    case PauseSchedule
    show ?thesis unfolding PauseSchedule schedule_handler.simps pause_schedule_def
      by (rule item [OF s1], rule move [OF s1]) (simp add: moved)
  next
    case ActivateSchedule
    show ?thesis unfolding ActivateSchedule schedule_handler.simps activate_schedule_def
      by (rule item [OF s1], rule move [OF s1]) (simp add: moved)
  next
    case ShowSchedule
    show ?thesis unfolding ShowSchedule schedule_handler.simps
      by (rule item [OF s1]) (simp add: show_schedule_def s1)
  qed
  obtain rq op where x: "x = (rq, op)" by (cases x)
  show ?thesis unfolding x schedule_route_def prod.case
    by (rule serve_beside_cases [where P = "\<lambda>s. \<forall>r \<in> set (snd s). Q r"]) (use rows handled in auto)
qed

definition bounded :: "schedule_row \<Rightarrow> bool" where
  "bounded r \<longleftrightarrow> (case (sc_minIntervalMs r, sc_maxStalenessMs r) of
     (Some m, Some s) \<Rightarrow> SYSTEM_MIN_INTERVAL_MS \<le> m \<and> s \<le> SYSTEM_MAX_STALENESS_MS | _ \<Rightarrow> False)"

lemma bounded_fields: "list_all schedule_field_ok fs \<Longrightarrow> bounded r \<Longrightarrow> bounded (fold set_schedule_field fs r)"
proof (induction fs arbitrary: r)
  case (Cons f fs)
  have "bounded (set_schedule_field f r)" using Cons.prems by (cases f) (auto simp: bounded_def split: option.splits)
  with Cons show ?case by simp
qed simp

text \<open>Tasks of a start.\<close>

lemma other_task: "i \<noteq> sk_id x \<Longrightarrow> scheduleTaskSafe valid x ts i = ts i"
  by (simp add: scheduleTaskSafe_def scheduleTask_def Let_def split: option.split)

lemma other_tasks: "i \<notin> sk_id ` set rs \<Longrightarrow> fold (scheduleTaskSafe valid) rs ts i = ts i"
  by (induction rs arbitrary: ts) (simp_all add: other_task)

lemma own_task:
  "valid (sk_cronExpr r) \<Longrightarrow> scheduleTaskSafe valid r ts (sk_id r) = Some \<lparr>tk_expr = sk_cronExpr r, tk_live = True\<rparr>"
  by (simp add: scheduleTaskSafe_def scheduleTask_def Let_def)

lemma task_live:
  assumes "distinct (map sk_id rs)" and "r \<in> set rs" and "valid (sk_cronExpr r)"
  shows "fold (scheduleTaskSafe valid) rs ts (sk_id r) = Some \<lparr>tk_expr = sk_cronExpr r, tk_live = True\<rparr>"
  using assms
proof (induction rs arbitrary: ts)
  case (Cons x rs)
  show ?case
  proof (cases "x = r")
    case True
    with Cons.prems show ?thesis by (simp add: other_tasks own_task)
  next
    case False
    with Cons show ?thesis by simp
  qed
qed simp

lemma schedule_config_simps [simp]:
  "sk_id (schedule_config_of r) = sc_id r" "sk_lastCompletedAt (schedule_config_of r) = sc_lastCompletedAt r"
  "sk_cronExpr (schedule_config_of r) = sc_cronExpr r"
  by (simp_all add: schedule_config_of_def)

lemma distinct_config: "distinct (map sc_id rows) \<Longrightarrow> distinct (map sk_id (filter P (map schedule_config_of rows)))"
  by (induction rows) auto

section \<open>Properties\<close>

text \<open>
  The bounds of the system hold for every schedule of a user through every sequence of requests: the interval is at least a
  minute and the staleness at most a day, defaults included.
\<close>

theorem user_schedules_bounded:
  assumes "\<forall>r \<in> set (snd s). sc_type r = ''user'' \<longrightarrow> bounded r"
  shows "\<forall>r \<in> set (snd (run_requests (schedule_route env) xs s)). sc_type r = ''user'' \<longrightarrow> bounded r"
proof (rule run_requests_invariant [where I = "\<lambda>s. \<forall>r \<in> set (snd s). sc_type r = ''user'' \<longrightarrow> bounded r"])
  fix rid x s
  assume "\<forall>r \<in> set (snd (s :: schedule_state)). sc_type r = ''user'' \<longrightarrow> bounded r"
  then show "\<forall>r \<in> set (snd (snd (schedule_route env rid x s))). sc_type r = ''user'' \<longrightarrow> bounded r"
  proof (rule schedule_route_keeps)
    show "sc_type (fold set_schedule_field fs (new_schedule i now org)) = ''user'' \<longrightarrow> bounded (fold set_schedule_field fs (new_schedule i now org))"
      if "list_all schedule_field_ok fs" for fs i now org
      using bounded_fields [OF that, of "new_schedule i now org"] by (simp add: bounded_def new_schedule_def)
    show "sc_type ((fold set_schedule_field fs r)\<lparr>sc_updatedAt := t\<rparr>) = ''user'' \<longrightarrow> bounded ((fold set_schedule_field fs r)\<lparr>sc_updatedAt := t\<rparr>)"
      if "list_all schedule_field_ok fs" "sc_type r = ''user'' \<longrightarrow> bounded r" for fs r t
      using bounded_fields [OF that(1), of r] that(2) by (simp add: bounded_def)
  qed (simp_all add: bounded_def)
qed (rule assms)

text \<open>
  A schedule that the API wrote never does anything: as none of the rows has ever completed, whatever keepers start, ticks
  fire and polls run over the table that a sequence of requests leaves, the database and the run history stay as they were.
\<close>

theorem api_schedules_idle:
  assumes "\<forall>r \<in> set (snd s). sc_lastCompletedAt r = None" and "\<forall>j \<in> set (qs_jobs q). \<not> is_catchup j"
    and "(sched_step valid parse reg)\<^sup>*\<^sup>*
      (en, \<lparr>ss_db = d, ss_schedules = map schedule_config_of (snd (run_requests (schedule_route env) xs s)), ss_runs = rs, ss_queue = q\<rparr>)
      (en', st')"
  shows "ss_db st' = d \<and> ss_runs st' = rs"
proof -
  have "\<forall>r \<in> set (snd (run_requests (schedule_route env) xs s)). sc_lastCompletedAt r = None"
  proof (rule run_requests_invariant [where I = "\<lambda>s. \<forall>r \<in> set (snd s). sc_lastCompletedAt r = None"])
    fix rid x s
    assume "\<forall>r \<in> set (snd (s :: schedule_state)). sc_lastCompletedAt r = None"
    then show "\<forall>r \<in> set (snd (snd (schedule_route env rid x s))). sc_lastCompletedAt r = None"
      by (rule schedule_route_keeps) (simp_all add: new_schedule_def)
  qed (rule assms(1))
  with assms(2) have "fresh_inv \<lparr>ss_db = d, ss_schedules = map schedule_config_of (snd (run_requests (schedule_route env) xs s)), ss_runs = rs, ss_queue = q\<rparr>
      (en, \<lparr>ss_db = d, ss_schedules = map schedule_config_of (snd (run_requests (schedule_route env) xs s)), ss_runs = rs, ss_queue = q\<rparr>)"
    by (simp add: fresh_inv_def never_completed_def)
  from fresh.reachable [OF assms(3) this] show ?thesis by (simp add: fresh_inv_def)
qed

text \<open>
  A pause pauses nothing: whether the schedule is one of the system or of a user, the handler answers with the paused row,
  and a keeper that starts over the table it leaves runs a live task for it, as it asks for the enabled rows that are not
  deleted.
\<close>

theorem paused_schedule_started:
  assumes "schedule_handler env rq PauseSchedule cx s = (Inr (200, Row r), s')" and "distinct (map sc_id (snd s))"
    and "sc_enabled r" and "valid (sc_cronExpr r)" and "ss_schedules st = map schedule_config_of (snd s')"
  shows "sc_status r = ''paused''
    \<and> en_tasks (fst (loadAndStart valid senv en st)) (sc_id r) = Some \<lparr>tk_expr = sc_cronExpr r, tk_live = True\<rparr>"
proof -
  let ?f = "\<lambda>x. x\<lparr>sc_status := ''paused'', sc_updatedAt := av_now env\<rparr>"
  from assms(1) obtain i org r0 where found: "first_row (filter (\<lambda>r. sc_id r = i \<and> sc_orgId r = org) (snd s)) = Some r0"
    and r: "r = ?f r0" and s': "snd s' = sql_update (\<lambda>x. sc_id x = i) ?f (snd s)"
    by (auto simp: on_schedule_def pause_schedule_def move_schedule_def Let_def write_schedules_def upd_schedule_rows_def api_error_def
        split: option.splits if_splits sum.splits prod.splits)
  from first_row_filter_SomeD [OF found] have "r0 \<in> set (snd s)" "sc_id r0 = i" by auto
  then have "?f r0 \<in> set (snd s')" unfolding s' sql_update_def by force
  with r have "r \<in> set (snd s')" by simp
  moreover have "active_schedule (schedule_config_of r)" using assms(3) r by (simp add: active_schedule_def schedule_config_of_def)
  ultimately have mem: "schedule_config_of r \<in> set (filter active_schedule (ss_schedules st))" using assms(5) by simp
  have "map sc_id (snd s') = map sc_id (snd s)" unfolding s' by (rule map_sql_update_frame) simp
  with assms(2,5) have "distinct (map sk_id (filter active_schedule (ss_schedules st)))" by (simp add: distinct_config del: filter_map)
  from task_live [OF this mem, of valid] assms(4) r show ?thesis by (simp add: loadAndStart_def Let_def)
qed

subsection \<open>Witnesses\<close>

abbreviation sample_schedule_env :: api_env where
  "sample_schedule_env \<equiv> \<lparr>av_access = sample_access_env, av_id = (\<lambda>t n. t), av_staleness = None\<rparr>"

definition sample_schedules :: schedule_state where
  "sample_schedules =
     (\<lparr>ap_access = sample_db, ap_db = empty_db, ap_projects = [], ap_delegations = [], ap_events = [], ap_invitations = []\<rparr>,
      [(new_schedule (sample_uuid CHR ''5'') 0 (sample_uuid CHR ''1''))\<lparr>sc_name := ''s'', sc_cronExpr := ''*/5 * * * *'', sc_type := ''system''\<rparr>])"

abbreviation sample_schedule_request :: request where
  "sample_schedule_request \<equiv> (sample_request (Some (sample_uuid CHR ''5'')))"

theorem user_schedules_bounded_witness:
  "filter (\<lambda>r. sc_type r = ''user'' \<and> \<not> bounded r) (snd (run_requests (schedule_route sample_schedule_env)
       [(''r'', sample_request None, MakeSchedule [ScName ''n'', ScCron ''c'', ScMinInterval 90000])] sample_schedules)) = []"
  using user_schedules_bounded [of sample_schedules sample_schedule_env
    "[(''r'', sample_request None, MakeSchedule [ScName ''n'', ScCron ''c'', ScMinInterval 90000])]"]
  by (simp add: sample_schedules_def filter_empty_conv)

theorem api_schedules_idle_witness:
  "\<exists>st'. (sched_step (\<lambda>e. True) (\<lambda>s. Inl (Prim s)) built_in_handlers)\<^sup>*\<^sup>*
      (\<lparr>en_tasks = Map.empty, en_running = False\<rparr>, \<lparr>ss_db = empty_db, ss_schedules = map schedule_config_of (snd (run_requests
          (schedule_route sample_schedule_env) [(''r'', sample_schedule_request, PauseSchedule)] sample_schedules)), ss_runs = [], ss_queue = empty_queue\<rparr>) st'
    \<and> ss_db (snd st') = empty_db \<and> ss_runs (snd st') = []"
proof -
  let ?step = "sched_step (\<lambda>e. True) (\<lambda>s. Inl (Prim s)) built_in_handlers"
  let ?en = "\<lparr>en_tasks = Map.empty, en_running = False\<rparr>"
  let ?st = "\<lparr>ss_db = empty_db, ss_schedules = map schedule_config_of (snd (run_requests
          (schedule_route sample_schedule_env) [(''r'', sample_schedule_request, PauseSchedule)] sample_schedules)), ss_runs = [], ss_queue = empty_queue\<rparr>"
  obtain en' st' where go: "loadAndStart (\<lambda>e. True) sample_sched ?en ?st = (en', st')" by (cases "loadAndStart (\<lambda>e. True) sample_sched ?en ?st")
  then have reach: "?step\<^sup>*\<^sup>* (?en, ?st) (en', st')"
    using sched_start [of "\<lambda>e. True" "\<lambda>s. Inl (Prim s)" built_in_handlers ?en ?st sample_sched] by simp
  have "\<forall>r \<in> set (snd sample_schedules). sc_lastCompletedAt r = None" "\<forall>j \<in> set (qs_jobs empty_queue). \<not> is_catchup j"
    by (simp_all add: sample_schedules_def new_schedule_def empty_queue_def)
  from api_schedules_idle [OF this reach] reach show ?thesis by (intro exI [of _ "(en', st')"]) simp
qed

theorem paused_schedule_started_witness:
  "\<exists>r s'. schedule_handler sample_schedule_env sample_schedule_request PauseSchedule owner_vars sample_schedules = (Inr (200, Row r), s')
     \<and> sc_type r = ''system'' \<and> sc_status r = ''paused''
     \<and> en_tasks (fst (loadAndStart (\<lambda>e. True) sample_sched \<lparr>en_tasks = Map.empty, en_running = False\<rparr>
          \<lparr>ss_db = empty_db, ss_schedules = map schedule_config_of (snd s'), ss_runs = [], ss_queue = empty_queue\<rparr>)) (sc_id r) \<noteq> None"
proof -
  let ?r = "(hd (snd sample_schedules))\<lparr>sc_status := ''paused'', sc_updatedAt := 0\<rparr>"
  have uuid: "is_uuid (sample_uuid CHR ''5'')"
    by (simp add: is_uuid_def sample_uuid_def hex_digit_def is_digit_def less_eq_char_def)
  have shown: "truthy (Some ''active'') = Some ''active''" by (simp add: truthy_def)
  obtain t where edge: "validateTransition loaded_machines SM_schedule ''active'' ''paused'' False = Inr t"
  proof -
    have "is_ok (validateTransition loaded_machines SM_schedule ''active'' ''paused'' False)"
      by (simp add: validate_ok_iff edges_def schedule_machine_def)
    then show ?thesis using that by (auto simp: is_ok_def split: sum.splits)
  qed
  obtain s' where paused: "schedule_handler sample_schedule_env sample_schedule_request PauseSchedule owner_vars sample_schedules = (Inr (200, Row ?r), s')"
    using uuid sample_uuid_ok shown edge
    by (simp add: on_schedule_def sample_request_def sample_uuid_truthy pause_schedule_def move_schedule_def sample_schedules_def
        new_schedule_def write_schedules_def with_audit_def audit_entry_def bindE_def sample_uuid_eq or_default_def
        sample_access_env_def)
  have "distinct (map sc_id (snd sample_schedules))" "sc_enabled ?r" "sc_type ?r = ''system''" by (simp_all add: sample_schedules_def new_schedule_def)
  with paused_schedule_started [OF paused this(1,2), of "\<lambda>e. True" "\<lparr>ss_db = empty_db, ss_schedules = map schedule_config_of (snd s'), ss_runs = [], ss_queue = empty_queue\<rparr>"
      sample_sched "\<lparr>en_tasks = Map.empty, en_running = False\<rparr>"] paused
  show ?thesis by (intro exI [of _ ?r] exI [of _ s']) simp
qed

end
