(* ===== verification/Alert_Routes.thy ===== *)
theory Alert_Routes
  imports Route_Beside Secrets
begin

text \<open>
  Alerts in the API: \<open>api/src/routes/alerts.ts\<close> with the notification channels, the alert rules and the escalation of an
  event, and \<open>alert-events.ts\<close> with the acknowledgment. Channels and rules stand beside the state of the other routers, the
  events are in its database. The lists are left out. A body is the list of its fields.
\<close>

section \<open>Channels\<close>

type_synonym alert_tables = "channel_row list \<times> rule_row list"

datatype channel_input = ChType string | ChName string | ChConfig "(string \<times> json) list" | ChEnabled bool

fun channel_key :: "channel_input \<Rightarrow> string" where
  "channel_key (ChType _) = ''type''"
| "channel_key (ChName _) = ''name''"
| "channel_key (ChConfig _) = ''config''"
| "channel_key (ChEnabled _) = ''enabled''"

fun set_channel_field :: "channel_input \<Rightarrow> channel_row \<Rightarrow> channel_row" where
  "set_channel_field (ChType s) r = r\<lparr>nc_type := s\<rparr>"
| "set_channel_field (ChName s) r = r\<lparr>nc_name := s\<rparr>"
| "set_channel_field (ChConfig c) r = r\<lparr>nc_config := JObj c\<rparr>"
| "set_channel_field (ChEnabled b) r = r\<lparr>nc_enabled := b\<rparr>"

fun channel_field_ok :: "channel_input \<Rightarrow> bool" where
  "channel_field_ok (ChType s) = (s \<in> {''email'', ''discord'', ''slack'', ''telegram'', ''webhook''})"
| "channel_field_ok (ChName s) = (1 \<le> length s \<and> length s \<le> 255)"
| "channel_field_ok (ChConfig c) = True"
| "channel_field_ok (ChEnabled b) = True"

definition channel_patch_ok :: "channel_input list \<Rightarrow> bool" where
  "channel_patch_ok fs \<longleftrightarrow> list_all channel_field_ok fs \<and> distinct (map channel_key fs)"

definition channel_body_ok :: "channel_input list \<Rightarrow> bool" where
  "channel_body_ok fs \<longleftrightarrow> channel_patch_ok fs \<and> {''type'', ''name'', ''config''} \<subseteq> set (map channel_key fs)"

definition SENSITIVE_FIELDS :: "string list" where
  "SENSITIVE_FIELDS = [''webhookUrl'', ''url'', ''apiKey'', ''secret'', ''token'', ''password'', ''webhook_secret'']"

text \<open>The settings that hold a secret are encrypted, one after the other; the first that fails throws.\<close>

fun encryptChannelConfig :: "cipher_env \<Rightarrow> (string \<times> json) list \<Rightarrow> thrown + (string \<times> json) list" where
  "encryptChannelConfig cy [] = Inr []"
| "encryptChannelConfig cy ((k, v) # c) =
     bindE (case v of
              JStr s \<Rightarrow> if k \<in> set SENSITIVE_FIELDS \<and> s \<noteq> [] then bindE (encrypt cy None s) (\<lambda>t. Inr (JStr t)) else Inr v
            | _ \<Rightarrow> Inr v)
       (\<lambda>w. bindE (encryptChannelConfig cy c) (\<lambda>c'. Inr ((k, w) # c')))"

fun seal_channel_input :: "cipher_env \<Rightarrow> channel_input \<Rightarrow> thrown + channel_input" where
  "seal_channel_input cy (ChConfig c) = bindE (encryptChannelConfig cy c) (\<lambda>c'. Inr (ChConfig c'))"
| "seal_channel_input cy f = Inr f"

fun seal_channel :: "cipher_env \<Rightarrow> channel_input list \<Rightarrow> thrown + channel_input list" where
  "seal_channel cy [] = Inr []"
| "seal_channel cy (f # fs) = bindE (seal_channel_input cy f) (\<lambda>g. bindE (seal_channel cy fs) (\<lambda>gs. Inr (g # gs)))"

text \<open>What the answers show of a channel.\<close>

definition stripChannelSecret :: "channel_row \<Rightarrow> channel_row" where
  "stripChannelSecret r =
     r\<lparr>nc_config := JObj [(''configured'', JBool True),
         (''type'', if json_truthy (jget (nc_config r) ''type'') then the (jget (nc_config r) ''type'') else JStr ''redacted'')]\<rparr>"

definition new_channel :: "string \<Rightarrow> int \<Rightarrow> string \<Rightarrow> channel_row" where
  "new_channel i now org =
     \<lparr>nc_id = i, nc_orgId = org, nc_type = '''', nc_name = '''', nc_config = JObj [], nc_enabled = True,
      nc_status = ''active'', nc_keyVersion = 1, nc_deletedAt = None, nc_createdAt = now\<rparr>"

section \<open>Rules\<close>

datatype rule_input =
    RuName string | RuTrigger string | RuConditions "(string \<times> json) list" | RuChannels "string list" | RuProjects "string list"
  | RuEnabled bool | RuDedup int

fun rule_key :: "rule_input \<Rightarrow> string" where
  "rule_key (RuName _) = ''name''"
| "rule_key (RuTrigger _) = ''trigger''"
| "rule_key (RuConditions _) = ''conditions''"
| "rule_key (RuChannels _) = ''channelIds''"
| "rule_key (RuProjects _) = ''projectIds''"
| "rule_key (RuEnabled _) = ''enabled''"
| "rule_key (RuDedup _) = ''dedupWindowSeconds''"

fun rule_value :: "rule_input \<Rightarrow> json" where
  "rule_value (RuName s) = JStr s"
| "rule_value (RuTrigger s) = JStr s"
| "rule_value (RuConditions c) = JObj c"
| "rule_value (RuChannels cs) = JArr (map JStr cs)"
| "rule_value (RuProjects ps) = JArr (map JStr ps)"
| "rule_value (RuEnabled b) = JBool b"
| "rule_value (RuDedup n) = JNum n"

fun set_rule_field :: "rule_input \<Rightarrow> rule_row \<Rightarrow> rule_row" where
  "set_rule_field (RuName s) r = r\<lparr>ru_name := s\<rparr>"
| "set_rule_field (RuTrigger s) r = r\<lparr>ru_trigger := s\<rparr>"
| "set_rule_field (RuConditions c) r = r\<lparr>ru_conditions := Some (JObj c)\<rparr>"
| "set_rule_field (RuChannels cs) r = r\<lparr>ru_channelIds := cs\<rparr>"
| "set_rule_field (RuProjects ps) r = r\<lparr>ru_projectIds := Some ps\<rparr>"
| "set_rule_field (RuEnabled b) r = r\<lparr>ru_enabled := b\<rparr>"
| "set_rule_field (RuDedup n) r = r\<lparr>ru_dedupWindowSeconds := Some n\<rparr>"

fun rule_field_ok :: "rule_input \<Rightarrow> bool" where
  "rule_field_ok (RuName s) = (1 \<le> length s \<and> length s \<le> 255)"
| "rule_field_ok (RuTrigger s) = (s \<in> {''blob_expiring'', ''renewal_failed'', ''renewal_succeeded'', ''wallet_balance_low'',
     ''budget_exceeded'', ''api_key_compromised'', ''publisher_offline''})"
| "rule_field_ok (RuDedup n) = (30 \<le> n \<and> n \<le> 86400)"
| "rule_field_ok _ = True"

definition rule_patch_ok :: "rule_input list \<Rightarrow> bool" where
  "rule_patch_ok fs \<longleftrightarrow> list_all rule_field_ok fs \<and> distinct (map rule_key fs)"

definition rule_body_ok :: "rule_input list \<Rightarrow> bool" where
  "rule_body_ok fs \<longleftrightarrow> rule_patch_ok fs \<and> {''name'', ''trigger''} \<subseteq> set (map rule_key fs)"

definition new_rule :: "string \<Rightarrow> int \<Rightarrow> string \<Rightarrow> rule_row" where
  "new_rule i now org =
     \<lparr>ru_id = i, ru_orgId = org, ru_name = '''', ru_trigger = '''', ru_conditions = Some (JObj []), ru_channelIds = [],
      ru_projectIds = Some [], ru_enabled = True, ru_status = ''active'', ru_dedupWindowSeconds = Some 300,
      ru_escalationChannels = Some (JArr []), ru_pausedAt = None, ru_deletedAt = None, ru_createdAt = now\<rparr>"

section \<open>Handlers of the channels\<close>

datatype alert_answer = ChannelAnswer channel_row | RuleAnswer rule_row | EventAnswer event_row

type_synonym alert_handled = "(alert_tables, alert_answer) beside"

definition no_values :: thrown where
  "no_values = js_Error ''No values to set''"

definition create_channel ::
    "cipher_env \<Rightarrow> api_env \<Rightarrow> request \<Rightarrow> request_vars \<Rightarrow> channel_input list \<Rightarrow> api_state \<times> alert_tables \<Rightarrow> alert_handled" where
  "create_channel cy env rq cx fs s =
     (case s of (st, cs, rs) \<Rightarrow>
        (case cx_orgId cx of
           None \<Rightarrow> (Inl undefined_arg, s)
         | Some org \<Rightarrow>
             (case seal_channel cy fs of
                Inl e \<Rightarrow> (Inl e, s)
              | Inr gs \<Rightarrow>
                  (let i = av_id env ''notification_channels'' (length cs);
                       c = fold set_channel_field gs (new_channel i (av_now env) org)
                   in if i \<in> nc_id ` set cs then (Inl (duplicate_key ''notification_channels_pkey''), s)
                      else (Inr (201, Row (ChannelAnswer (stripChannelSecret c))),
                            logAudit env rq cx ''channel.created'' ''notification_channel'' (Some i)
                              (Some (JObj [(''name'', JStr (nc_name c)), (''type'', JStr (nc_type c))])) st,
                            cs @ [c], rs)))))"

text \<open>The start of the routes about one channel, one rule and one event.\<close>

definition on_row ::
    "(alert_tables \<Rightarrow> api_state \<Rightarrow> 'r list) \<Rightarrow> ('r \<Rightarrow> string) \<Rightarrow> ('r \<Rightarrow> string) \<Rightarrow> string \<Rightarrow> request \<Rightarrow> request_vars
     \<Rightarrow> (string \<Rightarrow> string \<Rightarrow> 'r \<Rightarrow> api_state \<times> alert_tables \<Rightarrow> alert_handled) \<Rightarrow> api_state \<times> alert_tables \<Rightarrow> alert_handled" where
  "on_row rows rid rorg name rq cx k s =
     (case truthy (rq_param rq ''id'') of
        None \<Rightarrow> (Inr (api_error [] 400 (name @ '' ID is required'') ''VALIDATION_ERROR''), s)
      | Some i \<Rightarrow>
          (case cx_orgId cx of
             None \<Rightarrow> (Inl undefined_arg, s)
           | Some org \<Rightarrow>
               if \<not> is_uuid i then (Inl (uuid_error i), s)
               else (case first_row (filter (\<lambda>r. rid r = i \<and> rorg r = org) (rows (snd s) (fst s))) of
                       None \<Rightarrow> (Inr (api_error [] 404 (name @ '' not found'') ''NOT_FOUND''), s)
                     | Some r \<Rightarrow> k org i r s)))"

definition on_channel where
  "on_channel = on_row (\<lambda>t st. fst t) nc_id nc_orgId ''Channel''"

definition on_rule where
  "on_rule = on_row (\<lambda>t st. snd t) ru_id ru_orgId ''Rule''"

definition on_event where
  "on_event = on_row (\<lambda>t st. db_events (ap_db st)) ev_id ev_orgId ''Alert event''"

definition show_channel :: "string \<Rightarrow> string \<Rightarrow> channel_row \<Rightarrow> api_state \<times> alert_tables \<Rightarrow> alert_handled" where
  "show_channel org i c s = (Inr (200, Row (ChannelAnswer (stripChannelSecret c))), s)"

text \<open>An update without a field is refused by the query builder.\<close>

definition patch_channel ::
    "cipher_env \<Rightarrow> api_env \<Rightarrow> request \<Rightarrow> request_vars \<Rightarrow> channel_input list \<Rightarrow> string \<Rightarrow> string \<Rightarrow> channel_row
     \<Rightarrow> api_state \<times> alert_tables \<Rightarrow> alert_handled" where
  "patch_channel cy env rq cx fs org i c s =
     (case s of (st, cs, rs) \<Rightarrow>
        (case seal_channel cy fs of
           Inl e \<Rightarrow> (Inl e, s)
         | Inr gs \<Rightarrow>
             if gs = [] then (Inl no_values, s)
             else
               (let f = fold set_channel_field gs;
                    details = JObj (concat (map (\<lambda>x. case x of ChName n \<Rightarrow> [(''name'', JStr n)] | _ \<Rightarrow> []) fs)
                      @ concat (map (\<lambda>x. case x of ChType t \<Rightarrow> [(''type'', JStr t)] | _ \<Rightarrow> []) fs))
                in (Inr (200, Row (ChannelAnswer (stripChannelSecret (f c)))),
                    logAudit env rq cx ''channel.updated'' ''notification_channel'' (Some i) (Some details) st,
                    sql_update (\<lambda>x. nc_id x = i) f cs, rs))))"

text \<open>The events of a rule that wait for delivery are given up when its only channel goes.\<close>

definition escalate_orphan ::
    "api_env \<Rightarrow> request_vars \<Rightarrow> string \<Rightarrow> channel_row \<Rightarrow> rule_row \<Rightarrow> event_row \<Rightarrow> api_state \<Rightarrow> api_state" where
  "escalate_orphan env cx org c rule ev st =
     (let st1 = write_db (\<lambda>d. d\<lparr>db_events := sql_update (\<lambda>e. ev_id e = ev_id ev)
                  (\<lambda>e. e\<lparr>ev_status := ''delivery_failed_final'', ev_escalatedAt := Some (av_now env)\<rparr>) (db_events d)\<rparr>) st;
          st2 = add_audit ((new_audit (next_audit_id env st1) (av_now env) org ''alert_event.channel_deleted_escalation'' ''alert_event'')
                  \<lparr>au_resourceId := Some (ev_id ev),
                   au_details := Some (JObj [(''reason'', JStr ''alert_rule_only_channel_deleted''), (''channelId'', JStr (nc_id c)),
                     (''channelName'', JStr (nc_name c)), (''ruleId'', JStr (ru_id rule)), (''ruleName'', JStr (ru_name rule))])\<rparr>) st1
      in record_events [owner_event env cx org ''alert_event.escalated'' ''alert_event'' (ev_id ev)
           (Some (JObj [(''reason'', JStr ''only_channel_deleted''), (''channelId'', JStr (nc_id c)), (''ruleId'', JStr (ru_id rule))]))] st2)"

definition escalate_rule :: "api_env \<Rightarrow> request_vars \<Rightarrow> string \<Rightarrow> channel_row \<Rightarrow> rule_row \<Rightarrow> api_state \<Rightarrow> api_state" where
  "escalate_rule env cx org c rule st =
     fold (escalate_orphan env cx org c rule)
       (filter (\<lambda>e. ev_orgId e = org \<and> ev_alertRuleId e = Some (ru_id rule) \<and> ev_status e \<in> {''fired'', ''delivery_failed''})
          (db_events (ap_db st))) st"

definition delete_channel ::
    "api_env \<Rightarrow> request \<Rightarrow> request_vars \<Rightarrow> string \<Rightarrow> string \<Rightarrow> channel_row \<Rightarrow> api_state \<times> alert_tables \<Rightarrow> alert_handled" where
  "delete_channel env rq cx org i c s =
     (case s of (st, cs, rs) \<Rightarrow>
        if nc_status c = ''deleted'' then (Inr (api_error [] 400 ''Channel is already deleted'' ''VALIDATION_ERROR''), s)
        else
          (let only = filter (\<lambda>r. ru_orgId r = org \<and> ru_status r = ''active'' \<and> ru_channelIds r = [i]) rs;
               st1 = logAudit env rq cx ''channel.deleted'' ''notification_channel'' (Some i) None st
           in (Inr (say ''Channel deleted''), fold (escalate_rule env cx org c) only st1,
               sql_update (\<lambda>x. nc_id x = i) (\<lambda>x. x\<lparr>nc_status := ''deleted'', nc_deletedAt := Some (av_now env)\<rparr>) cs, rs)))"

section \<open>Handlers of the rules\<close>

definition create_rule ::
    "api_env \<Rightarrow> request \<Rightarrow> request_vars \<Rightarrow> rule_input list \<Rightarrow> api_state \<times> alert_tables \<Rightarrow> alert_handled" where
  "create_rule env rq cx fs s =
     (case s of (st, cs, rs) \<Rightarrow>
        (case cx_orgId cx of
           None \<Rightarrow> (Inl undefined_arg, s)
         | Some org \<Rightarrow>
             (let i = av_id env ''alert_rules'' (length rs);
                  r = fold set_rule_field fs (new_rule i (av_now env) org)
              in if i \<in> ru_id ` set rs then (Inl (duplicate_key ''alert_rules_pkey''), s)
                 else (Inr (201, Row (RuleAnswer r)),
                       record_events [owner_event env cx org ''alert_rule.created'' ''alert_rule'' i None]
                         (logAudit env rq cx ''rule.created'' ''alert_rule'' (Some i)
                           (Some (JObj [(''name'', JStr (ru_name r)), (''trigger'', JStr (ru_trigger r))])) st),
                       cs, rs @ [r]))))"

definition show_rule :: "string \<Rightarrow> string \<Rightarrow> rule_row \<Rightarrow> api_state \<times> alert_tables \<Rightarrow> alert_handled" where
  "show_rule org i r s = (Inr (200, Row (RuleAnswer r)), s)"

definition patch_rule ::
    "api_env \<Rightarrow> request \<Rightarrow> request_vars \<Rightarrow> rule_input list \<Rightarrow> string \<Rightarrow> string \<Rightarrow> rule_row \<Rightarrow> api_state \<times> alert_tables
     \<Rightarrow> alert_handled" where
  "patch_rule env rq cx fs org i r s =
     (case s of (st, cs, rs) \<Rightarrow>
        if fs = [] then (Inl no_values, s)
        else (Inr (200, Row (RuleAnswer (fold set_rule_field fs r))),
              logAudit env rq cx ''rule.updated'' ''alert_rule'' (Some i) (Some (JObj (map (\<lambda>f. (rule_key f, rule_value f)) fs))) st,
              cs, sql_update (\<lambda>x. ru_id x = i) (fold set_rule_field fs) rs))"

text \<open>Pause, activation and deletion differ in what they write and whether they tell the bus.\<close>

definition move_rule ::
    "api_env \<Rightarrow> request \<Rightarrow> request_vars \<Rightarrow> string \<Rightarrow> (rule_row \<Rightarrow> rule_row) \<Rightarrow> string \<Rightarrow> string option \<Rightarrow> string
     \<Rightarrow> string \<Rightarrow> string \<Rightarrow> rule_row \<Rightarrow> api_state \<times> alert_tables \<Rightarrow> alert_handled" where
  "move_rule env rq cx target upd action event msg org i r s =
     (case s of (st, cs, rs) \<Rightarrow>
        (case validateTransition loaded_machines SM_alert_rule (ru_status r) target False of
           Inl e \<Rightarrow> (Inl e, s)
         | Inr _ \<Rightarrow>
             (Inr (say msg),
              record_events (case event of Some n \<Rightarrow> [owner_event env cx org n ''alert_rule'' i None] | None \<Rightarrow> [])
                (logAudit env rq cx action ''alert_rule'' (Some i) None st),
              cs, sql_update (\<lambda>x. ru_id x = i) (\<lambda>x. (upd x)\<lparr>ru_status := target\<rparr>) rs)))"

definition pause_rule where
  "pause_rule env rq cx = move_rule env rq cx ''paused'' (\<lambda>x. x\<lparr>ru_enabled := False, ru_pausedAt := Some (av_now env)\<rparr>)
     ''rule.paused'' (Some ''alert_rule.paused'') ''Alert rule paused''"

definition activate_rule where
  "activate_rule env rq cx = move_rule env rq cx ''active'' (\<lambda>x. x\<lparr>ru_enabled := True, ru_pausedAt := None\<rparr>)
     ''rule.activated'' None ''Alert rule activated''"

definition delete_rule where
  "delete_rule env rq cx = move_rule env rq cx ''deleted'' (\<lambda>x. x\<lparr>ru_deletedAt := Some (av_now env)\<rparr>)
     ''rule.deleted'' (Some ''alert_rule.deleted'') ''Rule deleted''"

section \<open>Handlers of the events\<close>

definition upd_event :: "string \<Rightarrow> (event_row \<Rightarrow> event_row) \<Rightarrow> api_state \<Rightarrow> api_state" where
  "upd_event i f = write_db (\<lambda>d. d\<lparr>db_events := sql_update (\<lambda>e. ev_id e = i) f (db_events d)\<rparr>)"

definition escalate_event ::
    "api_env \<Rightarrow> request \<Rightarrow> request_vars \<Rightarrow> string \<Rightarrow> string \<Rightarrow> event_row \<Rightarrow> api_state \<times> alert_tables \<Rightarrow> alert_handled" where
  "escalate_event env rq cx org i ev s =
     (let f = (\<lambda>e. e\<lparr>ev_status := ''escalated'', ev_escalatedAt := Some (av_now env)\<rparr>) in
      case bindE (validateTransition loaded_machines SM_alert_event (ev_status ev) ''escalated'' False)
             (\<lambda>_. with_audit env rq cx (\<lambda>st. Inr (upd_event i f st)) (entity_spec ''alert_event'' ''alert_event.escalated'' None) i (fst s)) of
        Inl e \<Rightarrow> (Inl e, s)
      | Inr st \<Rightarrow> (Inr (200, Row (EventAnswer (f ev))),
          record_events [owner_event env cx org ''alert_event.escalated'' ''alert_event'' i None] st, snd s))"

definition show_event :: "string \<Rightarrow> string \<Rightarrow> event_row \<Rightarrow> api_state \<times> alert_tables \<Rightarrow> alert_handled" where
  "show_event org i ev s = (Inr (200, Row (EventAnswer ev)), s)"

definition acknowledge_event ::
    "api_env \<Rightarrow> request \<Rightarrow> request_vars \<Rightarrow> string \<Rightarrow> string \<Rightarrow> event_row \<Rightarrow> api_state \<times> alert_tables \<Rightarrow> alert_handled" where
  "acknowledge_event env rq cx org i ev s =
     (if ev_status ev \<noteq> ''delivered''
      then (Inr (api_error [] 400 (''Alert event in state '' @ sq (ev_status ev) @ '' cannot be acknowledged '' @ em_dash @ '' only ''
              @ sq ''delivered'' @ '' events can be acknowledged per spec 25'') ''VALIDATION_ERROR''), s)
      else (Inr (say ''Alert event acknowledged''),
            record_events [owner_event env cx org ''alert_event.acknowledged'' ''alert_event'' i None]
              (logAudit env rq cx ''alert_event.acknowledged'' ''alert_event'' (Some i) None
                (upd_event i (\<lambda>e. e\<lparr>ev_status := ''acknowledged'', ev_acknowledgedAt := Some (av_now env)\<rparr>) (fst s))), snd s))"

definition event_transitions :: "string \<Rightarrow> string \<Rightarrow> event_row \<Rightarrow> api_state \<times> alert_tables \<Rightarrow> alert_handled" where
  "event_transitions org i ev s =
     (bindE (validNextStates loaded_machines SM_alert_event (ev_status ev)) (\<lambda>nexts.
      bindE (isTerminal loaded_machines SM_alert_event (ev_status ev)) (\<lambda>t.
        Inr (200, Json (JObj [(''currentState'', JStr (ev_status ev)), (''isTerminal'', JBool t),
          (''availableTransitions'', JArr (map (\<lambda>(s, ty). JObj [(''to'', JStr s), (''type'', JStr (type_name ty))]) nexts))])))), s)"

section \<open>Routes\<close>

datatype alert_op =
    MakeChannel "channel_input list" | ShowChannel | PatchChannel "channel_input list" | RemoveChannel
  | MakeRule "rule_input list" | ShowRule | PatchRule "rule_input list" | PauseRule | ActivateRule | RemoveRule
  | EscalateEvent | ShowEvent | AcknowledgeEvent | EventTransitions

fun alert_handler ::
    "cipher_env \<Rightarrow> api_env \<Rightarrow> request \<Rightarrow> alert_op \<Rightarrow> request_vars \<Rightarrow> api_state \<times> alert_tables \<Rightarrow> alert_handled" where
  "alert_handler cy env rq (MakeChannel fs) cx s = create_channel cy env rq cx fs s"
| "alert_handler cy env rq ShowChannel cx s = on_channel rq cx show_channel s"
| "alert_handler cy env rq (PatchChannel fs) cx s = on_channel rq cx (patch_channel cy env rq cx fs) s"
| "alert_handler cy env rq RemoveChannel cx s = on_channel rq cx (delete_channel env rq cx) s"
| "alert_handler cy env rq (MakeRule fs) cx s = create_rule env rq cx fs s"
| "alert_handler cy env rq ShowRule cx s = on_rule rq cx show_rule s"
| "alert_handler cy env rq (PatchRule fs) cx s = on_rule rq cx (patch_rule env rq cx fs) s"
| "alert_handler cy env rq PauseRule cx s = on_rule rq cx (pause_rule env rq cx) s"
| "alert_handler cy env rq ActivateRule cx s = on_rule rq cx (activate_rule env rq cx) s"
| "alert_handler cy env rq RemoveRule cx s = on_rule rq cx (delete_rule env rq cx) s"
| "alert_handler cy env rq EscalateEvent cx s = on_event rq cx (escalate_event env rq cx) s"
| "alert_handler cy env rq ShowEvent cx s = on_event rq cx show_event s"
| "alert_handler cy env rq AcknowledgeEvent cx s = on_event rq cx (acknowledge_event env rq cx) s"
| "alert_handler cy env rq EventTransitions cx s = on_event rq cx event_transitions s"

fun alert_guards :: "alert_op \<Rightarrow> guard list" where
  "alert_guards ShowChannel = [GAuth, GOrg]"
| "alert_guards ShowRule = [GAuth, GOrg]"
| "alert_guards ShowEvent = [GAuth, GOrg]"
| "alert_guards EventTransitions = [GAuth, GOrg]"
| "alert_guards AcknowledgeEvent = [GAuth, GOrg, GRole [''owner'', ''admin'', ''member'']]"
| "alert_guards _ = [GAuth, GOrg, GCap [MANAGE_ALERTS]]"

fun alert_op_ok :: "alert_op \<Rightarrow> bool" where
  "alert_op_ok (MakeChannel fs) = channel_body_ok fs"
| "alert_op_ok (PatchChannel fs) = channel_patch_ok fs"
| "alert_op_ok (MakeRule fs) = rule_body_ok fs"
| "alert_op_ok (PatchRule fs) = rule_patch_ok fs"
| "alert_op_ok _ = True"

definition alert_route ::
    "cipher_env \<Rightarrow> api_env \<Rightarrow> string \<Rightarrow> request \<times> alert_op \<Rightarrow> api_state \<times> alert_tables \<Rightarrow> alert_answer body reply \<times> (api_state \<times> alert_tables)" where
  "alert_route cy env rid x s =
     (case x of (rq, op) \<Rightarrow> serve_beside env rid (alert_guards op) rq (alert_op_ok op) (alert_handler cy env rq op) s)"

section \<open>Facts\<close>

lemma set_channel_frame [simp]:
  "nc_id (fold set_channel_field fs c) = nc_id c \<and> nc_orgId (fold set_channel_field fs c) = nc_orgId c
   \<and> nc_status (fold set_channel_field fs c) = nc_status c"
proof (induction fs arbitrary: c)
  case (Cons f fs)
  then show ?case by (cases f) simp_all
qed simp

lemma set_rule_frame [simp]:
  "ru_id (fold set_rule_field fs r) = ru_id r \<and> ru_orgId (fold set_rule_field fs r) = ru_orgId r
   \<and> ru_status (fold set_rule_field fs r) = ru_status r"
proof (induction fs arbitrary: r)
  case (Cons f fs)
  then show ?case by (cases f) simp_all
qed simp

text \<open>Every secret of a sealed configuration is the encryption of the one that was sent.\<close>

lemma sealed_secret:
  assumes "encryptChannelConfig cy c = Inr c'" and "(k, JStr t) \<in> set c'" and "k \<in> set SENSITIVE_FIELDS" and "t \<noteq> []"
  shows "\<exists>s. (k, JStr s) \<in> set c \<and> encrypt cy None s = Inr t"
  using assms(1,2)
proof (induction c arbitrary: c')
  case (Cons kv c)
  obtain j v where kv: "kv = (j, v)" by (cases kv)
  from Cons.prems(1) obtain w d where c': "c' = (j, w) # d" and d: "encryptChannelConfig cy c = Inr d"
    and w: "(case v of JStr s \<Rightarrow> if j \<in> set SENSITIVE_FIELDS \<and> s \<noteq> [] then bindE (encrypt cy None s) (\<lambda>t. Inr (JStr t)) else Inr v
            | _ \<Rightarrow> Inr v) = Inr w"
    by (auto simp: kv bindE_def split: sum.splits)
  from Cons.prems(2) c' consider "(k, JStr t) = (j, w)" | "(k, JStr t) \<in> set d" by auto
  then show ?case
  proof cases
    case 1
    with w assms(3,4) show ?thesis by (auto simp: kv bindE_def split: json.splits if_splits sum.splits)
  next
    case 2
    with Cons.IH [OF d] show ?thesis by auto
  qed
qed simp

lemma config_set:
  "nc_config (fold set_channel_field gs c) = nc_config c \<or> (\<exists>d. ChConfig d \<in> set gs \<and> nc_config (fold set_channel_field gs c) = JObj d)"
proof (induction gs arbitrary: c)
  case (Cons g gs)
  from Cons [of "set_channel_field g c"] show ?case by (cases g) auto
qed simp

lemma sealed_config: "seal_channel cy fs = Inr gs \<Longrightarrow> ChConfig d \<in> set gs \<Longrightarrow> \<exists>c. ChConfig c \<in> set fs \<and> encryptChannelConfig cy c = Inr d"
proof (induction fs arbitrary: gs)
  case (Cons f fs)
  then show ?case by (cases f) (fastforce simp: bindE_def split: sum.splits)+
qed simp

lemma created_channel:
  assumes "create_channel cy env rq cx fs (st, cs, rs) = (Inr (n, Row a), st', cs', rs')"
  obtains gs org where "seal_channel cy fs = Inr gs" "cx_orgId cx = Some org"
    "cs' = cs @ [fold set_channel_field gs (new_channel (av_id env ''notification_channels'' (length cs)) (av_now env) org)]"
    "av_id env ''notification_channels'' (length cs) \<notin> nc_id ` set cs"
  using assms by (auto simp: create_channel_def Let_def split: option.splits sum.splits if_splits)

lemma decrypt_config_entry: "(k, JStr t) \<in> set (decrypt_config env (JObj kvs)) \<Longrightarrow> \<exists>s. (k, JStr s) \<in> set kvs \<and> (isEncrypted s \<or> s = t)"
  by (force simp: decrypt_config_def split: json.splits if_splits)

subsection \<open>The deletion of a channel\<close>

definition give_up :: "api_env \<Rightarrow> event_row \<Rightarrow> event_row" where
  "give_up env e = e\<lparr>ev_status := ''delivery_failed_final'', ev_escalatedAt := Some (av_now env)\<rparr>"

definition waits_for :: "string \<Rightarrow> rule_row \<Rightarrow> event_row \<Rightarrow> bool" where
  "waits_for org r e \<longleftrightarrow> ev_orgId e = org \<and> ev_alertRuleId e = Some (ru_id r) \<and> ev_status e \<in> {''fired'', ''delivery_failed''}"

lemma give_up_simps [simp]: "ev_id (give_up env e) = ev_id e" "\<not> waits_for org r (give_up env e)"
  by (simp_all add: give_up_def waits_for_def)

lemma escalate_orphan_events:
  "db_events (ap_db (escalate_orphan env cx org c r ev st)) = sql_update (\<lambda>e. ev_id e = ev_id ev) (give_up env) (db_events (ap_db st))"
  by (simp add: escalate_orphan_def Let_def add_audit_def give_up_def [abs_def])

lemma escalate_orphans_events:
  "db_events (ap_db (fold (escalate_orphan env cx org c r) evs st))
    = map (\<lambda>e. if ev_id e \<in> ev_id ` set evs then give_up env e else e) (db_events (ap_db st))"
proof (induction evs arbitrary: st)
  case (Cons ev evs)
  have "give_up env (give_up env e) = give_up env e" for e by (simp add: give_up_def)
  with Cons show ?case by (auto simp: escalate_orphan_events sql_update_def)
qed simp

lemma escalate_rule_events:
  assumes "distinct (map ev_id (db_events (ap_db st)))"
  shows "db_events (ap_db (escalate_rule env cx org c r st))
    = map (\<lambda>e. if waits_for org r e then give_up env e else e) (db_events (ap_db st))"
proof -
  have "ev_id e \<in> ev_id ` set (filter (waits_for org r) (db_events (ap_db st))) \<longleftrightarrow> waits_for org r e"
    if "e \<in> set (db_events (ap_db st))" for e
    using that assms by (auto simp: distinct_map inj_on_def)
  then show ?thesis
    unfolding escalate_rule_def escalate_orphans_events waits_for_def [symmetric] by (intro map_cong) auto
qed

lemma escalate_rules_events:
  assumes "distinct (map ev_id (db_events (ap_db st)))"
  shows "db_events (ap_db (fold (escalate_rule env cx org c) rules st))
    = map (\<lambda>e. if \<exists>r \<in> set rules. waits_for org r e then give_up env e else e) (db_events (ap_db st))"
  using assms
proof (induction rules arbitrary: st)
  case (Cons r rules)
  have "map ev_id (db_events (ap_db (escalate_rule env cx org c r st))) = map ev_id (db_events (ap_db st))"
    by (simp add: escalate_rule_events [OF Cons.prems] comp_def if_distrib cong: if_cong)
  with Cons.prems have "distinct (map ev_id (db_events (ap_db (escalate_rule env cx org c r st))))" by simp
  from Cons.IH [OF this] show ?case by (auto simp: escalate_rule_events [OF Cons.prems])
qed simp

subsection \<open>The rules of the table\<close>

definition rule_gone :: "string \<Rightarrow> rule_row list \<Rightarrow> bool" where
  "rule_gone i rs \<longleftrightarrow> distinct (map ru_id rs) \<and> (\<exists>r \<in> set rs. ru_id r = i \<and> ru_status r = ''deleted'')"

lemma rule_gone_update:
  assumes "rule_gone i rs" and "\<And>x. ru_id (f x) = ru_id x" and "j = i \<Longrightarrow> \<forall>x. ru_status (f x) = ru_status x"
  shows "rule_gone i (sql_update (\<lambda>x. ru_id x = j) f rs)"
proof -
  have "map ru_id (sql_update (\<lambda>x. ru_id x = j) f rs) = map ru_id rs" by (simp add: sql_update_def assms(2))
  moreover from assms(1) obtain r where r: "r \<in> set rs" "ru_id r = i" "ru_status r = ''deleted''" by (auto simp: rule_gone_def)
  let ?r = "if ru_id r = j then f r else r"
  from r(1) have "?r \<in> set (sql_update (\<lambda>x. ru_id x = j) f rs)" by (auto simp: sql_update_def)
  moreover have "ru_id ?r = i" "ru_status ?r = ''deleted''" using r assms(2,3) by auto
  ultimately show ?thesis using assms(1) unfolding rule_gone_def by metis
qed

lemma moved_not_gone:
  assumes "rule_gone i rs" and "r \<in> set rs" and "validateTransition loaded_machines SM_alert_rule (ru_status r) target ov = Inr t"
  shows "ru_id r \<noteq> i"
proof
  assume "ru_id r = i"
  with assms(1,2) have "ru_status r = ''deleted''" by (auto simp: rule_gone_def distinct_map inj_on_def)
  with assms(3) validate_ok_iff [of SM_alert_rule "ru_status r" target ov] show False by (simp add: edges_def alert_rule_machine_def)
qed

lemma rules_after_move:
  assumes "rule_gone i (snd (snd s))" and "r \<in> set (snd (snd s))" and "ru_id r = j" and "\<And>x. ru_id (upd x) = ru_id x"
  shows "rule_gone i (snd (snd (snd (move_rule env rq cx target upd action ev msg org j r s))))"
proof (cases "validateTransition loaded_machines SM_alert_rule (ru_status r) target False")
  case (Inr t)
  from moved_not_gone [OF assms(1,2) Inr] assms(1,3,4) show ?thesis
    by (auto simp: move_rule_def Inr split: prod.split intro!: rule_gone_update)
qed (simp add: move_rule_def assms(1) split: prod.split)

lemma on_row_keeps:
  assumes "P s" and "\<And>org j r. r \<in> set (rows (snd s) (fst s)) \<Longrightarrow> rid r = j \<Longrightarrow> P (snd (k org j r s))"
  shows "P (snd (on_row rows rid rorg name rq cx k s))"
  using assms(1) by (auto simp: on_row_def split: option.split dest!: first_row_SomeD intro: assms(2))

lemma alert_handler_rules:
  assumes "rule_gone i (snd (snd s))"
  shows "rule_gone i (snd (snd (snd (alert_handler cy env rq op cx s))))"
proof -
  obtain st cs rs where s: "s = (st, cs, rs)" by (cases s)
  from assms have gone: "rule_gone i rs" by (simp add: s)
  note keep = on_row_keeps [where P = "\<lambda>s. rule_gone i (snd (snd s))", OF assms]
  note defs = on_channel_def on_rule_def on_event_def pause_rule_def activate_rule_def delete_rule_def
  have quiet: "rule_gone i (snd (snd (snd (create_channel cy env rq cx fs s))))"
    "rule_gone i (snd (snd (snd (patch_channel cy env rq cx fs org j c s))))"
    "rule_gone i (snd (snd (snd (delete_channel env rq cx org j c s))))"
    "rule_gone i (snd (snd (snd (escalate_event env rq cx org j ev s))))"
    "rule_gone i (snd (snd (snd (acknowledge_event env rq cx org j ev s))))" for fs org j c ev
    using assms by (simp_all add: s create_channel_def patch_channel_def delete_channel_def escalate_event_def acknowledge_event_def
      Let_def split: option.split sum.split)
  have make: "rule_gone i (snd (snd (snd (create_rule env rq cx fs s))))" for fs
    using gone by (auto simp: s create_rule_def Let_def new_rule_def rule_gone_def split: option.split)
  have patch: "rule_gone i (snd (snd (snd (patch_rule env rq cx fs org j r s))))" for fs org j r
    using gone by (auto simp: s patch_rule_def intro!: rule_gone_update)
  show ?thesis
    by (cases op; simp add: defs quiet make; rule keep)
      (simp_all add: quiet patch show_channel_def show_rule_def show_event_def event_transitions_def assms rules_after_move)
qed

section \<open>Properties\<close>

text \<open>A deleted rule is final: whatever requests follow, its row stays, with its status.\<close>

theorem deleted_rules_stay:
  assumes "r \<in> set (snd (snd s))" and "ru_status r = ''deleted''" and "distinct (map ru_id (snd (snd s)))"
  shows "\<exists>q \<in> set (snd (snd (run_requests (alert_route cy env) xs s))). ru_id q = ru_id r \<and> ru_status q = ''deleted''"
proof -
  have "rule_gone (ru_id r) (snd (snd (run_requests (alert_route cy env) xs s)))"
  proof (rule run_requests_invariant)
    fix rid x s
    assume "rule_gone (ru_id r) (snd (snd (s :: api_state \<times> alert_tables)))"
    then show "rule_gone (ru_id r) (snd (snd (snd (alert_route cy env rid x s))))"
      unfolding alert_route_def prod.case_distrib [of snd] prod.case_distrib [of "rule_gone (ru_id r)"]
      by (cases x) (auto intro!: serve_beside_cases [where P = "\<lambda>s. rule_gone (ru_id r) (snd (snd s))"] alert_handler_rules)
  next
    show "rule_gone (ru_id r) (snd (snd s))" using assms by (auto simp: rule_gone_def)
  qed
  then show ?thesis by (simp add: rule_gone_def)
qed

text \<open>No route shows a setting of a channel: an answer with a channel has its settings replaced.\<close>

theorem channel_settings_hidden:
  assumes "alert_handler cy env rq op cx s = (Inr (n, Row (ChannelAnswer c)), s')"
  shows "\<exists>t. nc_config c = JObj [(''configured'', JBool True), (''type'', t)]"
  using assms
  by (cases op)
    (auto simp: create_channel_def on_channel_def on_rule_def on_event_def on_row_def show_channel_def patch_channel_def delete_channel_def
      create_rule_def show_rule_def patch_rule_def pause_rule_def activate_rule_def delete_rule_def move_rule_def escalate_event_def
      show_event_def acknowledge_event_def event_transitions_def bindE_def Let_def api_error_def say_def stripChannelSecret_def
      split: prod.splits option.splits sum.splits if_splits)

text \<open>
  C21: no channel made through the API gets a secret that it could use: whatever setting of the sensitive ones the keeper passes to
  it, and whatever key the keeper has, is the encryption of what was configured.
\<close>

theorem channels_get_ciphertext:
  assumes "create_channel cy env rq cx fs (st, cs, rs) = (Inr (201, Row a), st', cs', rs')"
    and "(k, JStr t) \<in> set (decrypt_config kenv (nc_config (last cs')))" and "k \<in> set SENSITIVE_FIELDS" and "t \<noteq> []"
  shows "\<exists>c s. ChConfig c \<in> set fs \<and> (k, JStr s) \<in> set c \<and> encrypt cy None s = Inr t"
proof -
  from created_channel [OF assms(1)] obtain gs org where gs: "seal_channel cy fs = Inr gs" and
    cs': "cs' = cs @ [fold set_channel_field gs (new_channel (av_id env ''notification_channels'' (length cs)) (av_now env) org)]" by metis
  then have last: "last cs' = fold set_channel_field gs (new_channel (av_id env ''notification_channels'' (length cs)) (av_now env) org)" by simp
  from config_set [of gs "new_channel (av_id env ''notification_channels'' (length cs)) (av_now env) org"]
  consider "nc_config (last cs') = JObj []" | d where "ChConfig d \<in> set gs" "nc_config (last cs') = JObj d"
    unfolding last by (auto simp: new_channel_def)
  then show ?thesis
  proof cases
    case 1
    with assms(2) show ?thesis by (simp add: decrypt_config_def)
  next
    case (2 d)
    from sealed_config [OF gs 2(1)] obtain c where c: "ChConfig c \<in> set fs" "encryptChannelConfig cy c = Inr d" by blast
    from assms(2) 2(2) obtain u where u: "(k, JStr u) \<in> set d" "isEncrypted u \<or> u = t" using decrypt_config_entry by fastforce
    then have "u \<noteq> []" using assms(4) by (auto simp: isEncrypted_def)
    from sealed_secret [OF c(2) u(1) assms(3) this] obtain s where s: "(k, JStr s) \<in> set c" "encrypt cy None s = Inr u" by blast
    with u(2) encrypted_unknown have "u = t" by blast
    with c(1) s show ?thesis by blast
  qed
qed

text \<open>
  The deletion of a channel gives up the events that wait for a rule with no other channel, and no others. From fired this is a
  step that the machine of alert events does not have.
\<close>

theorem deleted_channel_gives_up:
  assumes "delete_channel env rq cx org i c (st, cs, rs) = (Inr (200, a), st', cs', rs')"
    and "distinct (map ev_id (db_events (ap_db st)))"
  shows "db_events (ap_db st') = map (\<lambda>e. if \<exists>r \<in> set rs. ru_orgId r = org \<and> ru_status r = ''active'' \<and> ru_channelIds r = [i] \<and> waits_for org r e
      then give_up env e else e) (db_events (ap_db st))
    \<and> \<not> step_ok SM_alert_event ''fired'' (ev_status (give_up env e))"
proof -
  have log: "db_events (ap_db (logAudit env rq cx act ty j ds s)) = db_events (ap_db s)" for act ty j ds s
    by (simp add: logAudit_def add_audit_def split: sum.split)
  from assms(1) have "st' = fold (escalate_rule env cx org c) (filter (\<lambda>r. ru_orgId r = org \<and> ru_status r = ''active'' \<and> ru_channelIds r = [i]) rs)
      (logAudit env rq cx ''channel.deleted'' ''notification_channel'' (Some i) None st)"
    by (auto simp: delete_channel_def Let_def api_error_def split: if_splits)
  with escalate_rules_events [of "logAudit env rq cx ''channel.deleted'' ''notification_channel'' (Some i) None st"] assms(2)
  have "db_events (ap_db st') = map (\<lambda>e. if \<exists>r \<in> set rs. ru_orgId r = org \<and> ru_status r = ''active'' \<and> ru_channelIds r = [i] \<and> waits_for org r e
      then give_up env e else e) (db_events (ap_db st))" by (auto simp: log)
  then show ?thesis by (simp add: give_up_def step_ok_iff edges_def alert_event_machine_def)
qed

text \<open>A disabled channel gets alerts as any other: the keeper asks for the status and not for the switch that the API sets.\<close>

theorem disabled_channel_used:
  assumes "create_channel cy env rq cx fs (st, cs, rs) = (Inr (201, Row a), st', cs', rs')"
    and "cx_orgId cx = Some (ev_orgId ev)" and "nf_channels ns = cs'"
  shows "active_channel ev (nc_id (last cs')) ns = Some (last cs')"
proof -
  let ?i = "av_id env ''notification_channels'' (length cs)"
  from created_channel [OF assms(1)] obtain gs org where org: "cx_orgId cx = Some org" and fresh: "?i \<notin> nc_id ` set cs"
    and cs': "cs' = cs @ [fold set_channel_field gs (new_channel ?i (av_now env) org)]" by metis
  from fresh have "filter (\<lambda>c. nc_id c = ?i \<and> nc_status c = ''active'' \<and> nc_orgId c = ev_orgId ev) cs = []"
    unfolding filter_empty_conv by (metis image_eqI)
  then show ?thesis using org assms(2) by (simp add: active_channel_def assms(3) cs' first_row_def new_channel_def)
qed

subsection \<open>Witnesses\<close>

abbreviation sample_alert_env :: api_env where
  "sample_alert_env \<equiv> \<lparr>av_access = sample_access_env, av_id = (\<lambda>t n. t), av_staleness = None\<rparr>"

abbreviation sample_alert_state :: api_state where
  "sample_alert_state \<equiv>
     \<lparr>ap_access = sample_db,
      ap_db = empty_db\<lparr>db_events := [(new_event ''e'' 0 (sample_uuid CHR ''1'') ''t'' ''m'')\<lparr>ev_alertRuleId := Some ''r''\<rparr>]\<rparr>,
      ap_projects = [], ap_delegations = [], ap_events = [], ap_invitations = []\<rparr>"

abbreviation sample_hook :: "channel_input list" where
  "sample_hook \<equiv> [ChType ''slack'', ChName ''n'', ChConfig [(''url'', JStr ''p'')], ChEnabled False]"

lemma sample_seal:
  "seal_channel sample_cipher_env sample_hook = Inr [ChType ''slack'', ChName ''n'', ChConfig [(''url'', JStr ''1:0:a:7'')], ChEnabled False]"
  by (simp add: bindE_def sample_encrypt SENSITIVE_FIELDS_def)

lemma sample_channel_made:
  "\<exists>c st'. create_channel sample_cipher_env sample_alert_env (sample_request None) owner_vars sample_hook (sample_alert_state, [], [])
     = (Inr (201, Row (ChannelAnswer (stripChannelSecret c))), st', [c], [])
     \<and> nc_config c = JObj [(''url'', JStr ''1:0:a:7'')] \<and> nc_enabled c = False"
  unfolding create_channel_def sample_seal by (simp add: Let_def new_channel_def)

theorem deleted_rules_stay_witness:
  "\<exists>q \<in> set (snd (snd (run_requests (alert_route sample_cipher_env sample_alert_env)
     [(''q'', sample_request None, ActivateRule)] (sample_alert_state, [], [sample_rule\<lparr>ru_status := ''deleted''\<rparr>])))).
     ru_id q = ''r'' \<and> ru_status q = ''deleted''"
  using deleted_rules_stay [of "sample_rule\<lparr>ru_status := ''deleted''\<rparr>" "(sample_alert_state, [], [sample_rule\<lparr>ru_status := ''deleted''\<rparr>])"
    sample_cipher_env sample_alert_env "[(''q'', sample_request None, ActivateRule)]"]
  by (simp add: sample_rule_def)

theorem channel_settings_hidden_witness:
  "\<exists>c. fst (alert_handler sample_cipher_env sample_alert_env (sample_request None) (MakeChannel sample_hook) owner_vars
       (sample_alert_state, [], [])) = Inr (201, Row (ChannelAnswer c)) \<and> (\<exists>t. nc_config c = JObj [(''configured'', JBool True), (''type'', t)])"
proof -
  obtain c st' where "alert_handler sample_cipher_env sample_alert_env (sample_request None) (MakeChannel sample_hook) owner_vars
      (sample_alert_state, [], []) = (Inr (201, Row (ChannelAnswer (stripChannelSecret c))), st', [c], [])"
    using sample_channel_made by auto
  from this channel_settings_hidden [OF this] show ?thesis by auto
qed

theorem channels_get_ciphertext_witness:
  "\<exists>t s. t \<noteq> [] \<and> ChConfig [(''url'', JStr s)] \<in> set sample_hook \<and> encrypt sample_cipher_env None s = Inr t"
proof -
  obtain c st' where made: "create_channel sample_cipher_env sample_alert_env (sample_request None) owner_vars sample_hook
      (sample_alert_state, [], []) = (Inr (201, Row (ChannelAnswer (stripChannelSecret c))), st', [c], [])"
    and c: "nc_config c = JObj [(''url'', JStr ''1:0:a:7'')]" using sample_channel_made by blast
  have "\<not> isEncrypted ''1:0:a:7''" by (rule encrypted_unknown [OF sample_encrypt(1)])
  with c have "(''url'', JStr ''1:0:a:7'') \<in> set (decrypt_config sample_notif_env (nc_config (last [c])))"
    by (simp add: decrypt_config_def)
  from channels_get_ciphertext [OF made this] show ?thesis by (auto simp: SENSITIVE_FIELDS_def)
qed

abbreviation sample_org_rule :: rule_row where
  "sample_org_rule \<equiv> sample_rule\<lparr>ru_orgId := sample_uuid CHR ''1''\<rparr>"

theorem deleted_channel_gives_up_witness:
  "\<exists>a st' cs' rs'. delete_channel sample_alert_env (sample_request None) owner_vars (sample_uuid CHR ''1'') ''c'' sample_channel
       (sample_alert_state, [sample_channel], [sample_org_rule]) = (Inr (200, a), st', cs', rs')
     \<and> map ev_status (db_events (ap_db st')) = [''delivery_failed_final'']"
proof -
  obtain a st' cs' rs' where run: "delete_channel sample_alert_env (sample_request None) owner_vars (sample_uuid CHR ''1'') ''c'' sample_channel
       (sample_alert_state, [sample_channel], [sample_org_rule]) = (Inr (200, a), st', cs', rs')"
    by (simp add: delete_channel_def Let_def sample_channel_def say_def)
  from deleted_channel_gives_up [OF run] run show ?thesis
    by (auto simp: sample_rule_def waits_for_def new_event_def give_up_def)
qed

theorem disabled_channel_used_witness:
  "\<exists>c s. nc_enabled c = False \<and> active_channel (new_event ''e'' 0 (sample_uuid CHR ''1'') ''t'' ''m'') (nc_id c) s = Some c"
proof -
  obtain c st' where made: "create_channel sample_cipher_env sample_alert_env (sample_request None) owner_vars sample_hook
      (sample_alert_state, [], []) = (Inr (201, Row (ChannelAnswer (stripChannelSecret c))), st', [c], [])"
    and c: "nc_enabled c = False" using sample_channel_made by blast
  have "active_channel (new_event ''e'' 0 (sample_uuid CHR ''1'') ''t'' ''m'') (nc_id (last [c]))
      ((undefined :: notif_state)\<lparr>nf_channels := [c]\<rparr>) = Some (last [c])"
    by (rule disabled_channel_used [OF made]) (simp_all add: new_event_def)
  with c show ?thesis by auto
qed

end
