(* ===== verification/Spec2Isabelle.thy ===== *)
theory Spec2Isabelle
  imports Renewal_Queue Rpc_Pool Worker_Pool Leader Monitoring Scheduler Notification_Engine Request_Limits
    Org_Routes Pagination Renewal_Routes Policy_Routes Limit_Routes Wallet_Routes Blob_Routes Project_Routes Scan_Cycle Key_Routes Invitation_Routes Publisher_Routes Sdk_Requests Sdk_Queries List_Routes Webhook_Routes Schedule_Routes Alert_Routes
begin

text \<open>
  Walwatch keeps blobs stored on Walrus alive: a keeper process finds vaults of the Sui contract whose blobs are about
  to expire and renews them, and an API lets organizations register blobs, write policies, budgets and alerts, and watch
  the renewals. Both processes share one PostgreSQL database. This library models the two processes as
  functions on records of that database, with the requests that the SDK sends to the API, and proves what they do.


  The parts and how they interact

  The keeper (\<open>keeper/src\<close>) runs a scan cycle on every instance that holds the leader lock: Scanner reads the vaults
  over an RPC pool (Rpc_Pool, with the breakers of Circuit_Breaker) and selects those that are due, Worker_Pool spreads
  them, Renewal_Queue turns them into rows of the job table (Job_Writer) and processes the queue. Processing a job asks
  the cost engine, the publisher selection and the policy of the blob, hands the vault to Executor, and records the
  verdict in the job, the blob and the event tables. Beside it run the scheduler with its handlers, the delivery of
  alerts, leader election, and what the keeper records about itself.

  The API (\<open>api/src\<close>) serves requests: limits and idempotency first (Request_Limits), then the guards of a route
  (Access), then its handler, which reads and writes the tables, validates transitions against the machines of Lifecycle,
  writes an audit entry in the same transaction and emits events, which Event_Bus logs, persists and delivers to
  webhooks. The job queue with its workers is the API's own, apart from the renewal jobs. A request finds its
  handler in the table of the mounted routers (Api_Router).

  The SDK (\<open>sdk/src\<close>) turns each of its methods into one request (Sdk_Client), which Sdk_Routes sends through the table and
  the guards, and polls for answers (Sdk_Queries).


  Theories and the code they model

  \<^item> Prelude: results, JSON values, strings, sorting and row operations that all theories use; the collections
    \<open>result_simps\<close>, \<open>str_simps\<close> and \<open>table_simps\<close>.
  \<^item> App_Errors: \<open>api/src/lib/errors.ts\<close>, \<open>error-response.ts\<close>. Lifecycle: \<open>api/src/lib/state-machine.ts\<close>.
  \<^item> Db: the tables of \<open>api/src/db/schema.ts\<close> as records, a table the list of its rows in insertion order.
  \<^item> Circuit_Breaker, Retry, Rpc_Pool: \<open>circuit-breaker.ts\<close>, \<open>retry.ts\<close> and \<open>sui-pool.ts\<close> of keeper and API, and the
    retry loop of \<open>sdk/src/client.ts\<close>.
  \<^item> Policy_Engine, Cost_Engine, Event_Bus: the files of the same names under \<open>api/src/lib\<close>.
  \<^item> Publisher_Selector, Job_Writer, Scanner, Executor, Renewal_Queue, Worker_Pool, Leader, Monitoring,
    Notification_Engine, Schedule_Windows, Schedule_Handlers, Scheduler: the keeper's files, Renewal_Queue and Worker_Pool
    parts of \<open>keeper/src/index.ts\<close>.
  \<^item> Job_Queue: \<open>api/src/lib/queue.ts\<close> and \<open>background-jobs.ts\<close>. Access and Request_Limits: \<open>api/src/middleware\<close> and
    \<open>api/src/lib/permissions.ts\<close>. Pagination: \<open>api/src/lib/cursor-pagination.ts\<close>.
  \<^item> Org_Routes, Renewal_Routes, Policy_Routes, Limit_Routes, Wallet_Routes, Blob_Routes, Project_Routes, Key_Routes,
    Invitation_Routes, Publisher_Routes, Webhook_Routes, Schedule_Routes, Alert_Routes: the routers \<open>orgs.ts\<close>, \<open>renewal-jobs.ts\<close> with the retry of \<open>admin.ts\<close>,
    \<open>policies.ts\<close>, \<open>budgets.ts\<close> and \<open>spending-limits.ts\<close>, \<open>wallets.ts\<close>, \<open>blobs.ts\<close>, \<open>projects.ts\<close>, \<open>api-keys.ts\<close>,
    \<open>invitations.ts\<close>, \<open>publishers.ts\<close>, \<open>webhooks.ts\<close>, \<open>schedules.ts\<close> and \<open>alerts.ts\<close> with \<open>alert-events.ts\<close> under
    \<open>api/src/routes\<close>; Route_Base and Route_Beside have the statements they share and List_Routes paged lists.
  \<^item> Secrets: \<open>api/src/lib/encryption.ts\<close>, and how the keeper reads what it writes.
  \<^item> Scan_Cycle: the callback of the cron of \<open>keeper/src/index.ts\<close>, around the scan and the queue, with the direct renewal
    of a vault.
  \<^item> Api_Router: the routes that every file under \<open>api/src/routes\<close> declares and where \<open>api/src/index.ts\<close> mounts them.
    Sdk_Client: the methods of \<open>sdk/src/client.ts\<close> as requests. Sdk_Routes, Sdk_Requests and Sdk_Queries: what becomes of
    the requests, and the polling of the SDK.

  A function of the code is a definition of the same name where one exists; a route handler is named after its method
  and entity. State the code keeps in a process is a record passed along; state in the database is the record \<open>db\<close>,
  which Route_Base embeds in \<open>api_state\<close> beside the tables of the guards. A thrown error is a value (\<open>Inl\<close> or a
  constructor of an outcome), and every early return is a branch. A handler or a job is one step where the claims are about
  sequences; where they are about overlaps (Circuit_Breaker, Worker_Pool, Job_Queue, Leader) every awaited call is split into the
  step that makes it and the step that takes its answer. Numbers of the language are integers; Scanner rounds what it parses to
  doubles. Identifiers are texts as the database writes them; Org_Routes and \<open>is_uuid\<close> tell the other spellings of a
  uuid that a request may use.


  What the lemmas show

  \<^item> Contracts: breakers, retry loops, state machines, sort orders, step systems, entity tables and routers have locales
    that state what a client relies on; each is interpreted on the code's own definitions.
  \<^item> Refinement: the processing of a job refines an abstract verdict, both breakers refine one abstract breaker, the
    resolution of a policy is the maximum of an order, the guards accept exactly the members of the wanted role, and
    every router over a machine refines \<open>key_step\<close>, the moves the machine of its table allows.
  \<^item> Invariants and safety over all sequences of steps or requests: uniqueness of jobs, owners of an organization, alerts
    inside their organization, terminal states, what no request can ever change.
  \<^item> Composition: a method of the SDK through URL, route table, guards and handler; the requests of the publisher routes
    followed by the choice of a publisher in the keeper, those of the webhook routes by a delivery, those of the schedule
    routes by the scheduler, those of the alert routes by the delivery of the keeper; the cycle of the keeper around scan, queue and alerts.
  \<^item> Termination and bounds: every loop of the code that ends is a total function; attempts, delays, catch-up jobs,
    admitted requests and stored records are bounded.
  \<^item> Where the code does not do what it means to, a theorem states what it does instead; the manifest lists these
    as findings.


  Bounds and fuel

  The pagination of a scan ends when the server says so: \<open>query_loop\<close> has one unit of fuel per page, and the scan
  theorem takes as many as the pages that are served. The submission loop of the executor has three attempts and the
  retry loops have the limits of their configuration, so they recur on the attempts that are left. \<open>follow\<close> reads one
  page per unit of fuel, \<open>collect\<close> one page of a list route, and the theorems on them give one unit more than there are rows. The polling of the SDK has fuel too, and its theorems say how much it uses. All other recursion is structural.


  What is not modelled, and why

  \<^item> The Move contracts, the user interface (\<open>ui\<close>), and the command line (\<open>cli\<close>), which call the API over HTTP and
    keep no state of the system.
  \<^item> RPC servers, aggregators, HTTP, DNS, hashes, ciphers, random numbers and the clock: arguments of the
    definitions that use them. Log lines and metrics exporters are left out.
  \<^item> Constraints of the database are those of \<open>schema.ts\<close>, which the deployment pushes; migrations that add others are
    not. The ranges of integer columns are not checked: a value the database would reject is stored.
  \<^item> The matching of a path against the patterns of Hono and the expansion of an array in a query are the packages': the
    first is a parameter with the documented behaviour as hypothesis \<open>documented_router\<close>. Foreign keys to users are not
    checked. Scan_Cycle renews the vaults of a scan one after the other; overlapping calls are in Worker_Pool.
  \<^item> Start-up of the processes and their shutdown, but for what it does to the leader lock, and the routers that the manifest lists as not modelled.
\<close>

end
